(* ===== verification/Prelude.thy ===== *)
theory Prelude
  imports Main "HOL-Library.Sublist"
begin

text \<open>
  The prelude of the development: the fact collections its theories share, generic lemmas on
  lists and association lists, and the interfaces the components go through.

  \<^item> \<open>machine\<close> is a stateful component: an initial state, a handler \<open>step\<close> for
    every event, the states in which an event can happen, and an invariant. A run is the fold of
    the handler over a legal list of events, and the invariant holds after every run.
  \<^item> \<open>tracing\<close> extends it by what a state holds and the events that bring it about.
  \<^item> \<open>following\<close> extends it by what a state shows as running and the polls that will see its end.
  \<^item> \<open>codec\<close> is a pair of functions that print and parse, with the law that parsing
    undoes printing on the well-formed values; printing is then injective there.
\<close>

named_theorems js_simps \<open>evaluation of the JavaScript string and value operations\<close>
named_theorems handler_defs \<open>definitions of the handlers of a component\<close>
named_theorems inv_defs \<open>definitions of the invariants of a component\<close>

section \<open>Generic list lemmas\<close>

text \<open>A request leaves the list of those under way when its answer comes.\<close>

definition take_out :: "nat \<Rightarrow> 'a list \<Rightarrow> 'a list" where
  "take_out k xs = take k xs @ drop (Suc k) xs"

lemma set_with_taken_out: "k < length xs \<Longrightarrow> set xs = insert (xs ! k) (set (take_out k xs))"
  unfolding take_out_def by (subst (1) id_take_nth_drop, assumption) auto

lemma set_take_out_subset: "set (take_out k xs) \<subseteq> set xs"
  unfolding take_out_def by (auto dest: in_set_takeD in_set_dropD)

lemma in_take_out: "x \<in> set (take_out k xs) \<Longrightarrow> x \<in> set xs"
  using set_take_out_subset [of k xs] by blast

lemma length_take_out: "k < length xs \<Longrightarrow> length (take_out k xs) = length xs - 1"
  by (simp add: take_out_def)

lemma map_take_out: "map f (take_out k xs) = take_out k (map f xs)"
  by (simp add: take_out_def take_map drop_map)

lemma taken_out_eq [simp]: "take_out 0 (x # xs) = xs"
  by (simp add: take_out_def)

lemma still_in_take_out: "x \<in> set xs \<Longrightarrow> k < length xs \<Longrightarrow> x \<noteq> xs ! k \<Longrightarrow> x \<in> set (take_out k xs)"
  using set_with_taken_out by fastforce

lemma takeWhile_all: "\<forall>x \<in> set xs. P x \<Longrightarrow> takeWhile P xs = xs"
  by (induction xs) auto

lemma dropWhile_all: "\<forall>x \<in> set xs. P x \<Longrightarrow> dropWhile P xs = []"
  by (induction xs) auto

lemma takeWhile_hit: "\<forall>x \<in> set xs. P x \<Longrightarrow> \<not> P y \<Longrightarrow> takeWhile P (xs @ y # ys) = xs"
  by (induction xs) auto

lemma dropWhile_hit: "\<forall>x \<in> set xs. P x \<Longrightarrow> \<not> P y \<Longrightarrow> dropWhile P (xs @ y # ys) = y # ys"
  by (induction xs) auto

lemma takeWhile_neq_append: "c \<notin> set xs \<Longrightarrow> takeWhile (\<lambda>x. x \<noteq> c) (xs @ c # ys) = xs"
  by (induction xs) auto

lemma dropWhile_neq_append: "c \<notin> set xs \<Longrightarrow> dropWhile (\<lambda>x. x \<noteq> c) (xs @ c # ys) = c # ys"
  by (induction xs) auto

lemma takeWhile_neq_none: "c \<notin> set xs \<Longrightarrow> takeWhile (\<lambda>x. x \<noteq> c) xs = xs"
  by (induction xs) auto

lemma dropWhile_neq_none: "c \<notin> set xs \<Longrightarrow> dropWhile (\<lambda>x. x \<noteq> c) xs = []"
  by (induction xs) auto

lemmas while_neq = takeWhile_neq_append dropWhile_neq_append takeWhile_neq_none dropWhile_neq_none

lemma length_dropWhile_less: "xs \<noteq> [] \<Longrightarrow> P (hd xs) \<Longrightarrow> length (dropWhile P xs) < length xs"
  by (cases xs) (auto simp: le_imp_less_Suc length_dropWhile_le)

lemma set_dropWhile_subset: "set (dropWhile P xs) \<subseteq> set xs"
  by (meson set_dropWhileD subsetI)

lemma dropWhile_hd_not: "dropWhile P xs = y # ys \<Longrightarrow> \<not> P y"
  by (metis hd_dropWhile list.distinct(1) list.sel(1))

lemma sort_Nil_iff [simp]: "sort xs = [] \<longleftrightarrow> xs = []"
  by (metis length_0_conv length_sort)

section \<open>Ordered association lists: JavaScript objects and maps\<close>

text \<open>
  A JavaScript object or \<open>Map\<close> keeps its keys in insertion order; writing an existing key
  keeps its place. \<open>obj_set\<close> is that write, \<open>obj_del\<close> is \<open>delete\<close>, and
  \<open>map_of\<close> reads. Keys are distinct in every object built by these operations.
\<close>

fun obj_set :: "'k \<Rightarrow> 'v \<Rightarrow> ('k \<times> 'v) list \<Rightarrow> ('k \<times> 'v) list" where
  "obj_set k v [] = [(k, v)]"
| "obj_set k v ((k', v') # ps) = (if k = k' then (k, v) # ps else (k', v') # obj_set k v ps)"

definition obj_del :: "'k \<Rightarrow> ('k \<times> 'v) list \<Rightarrow> ('k \<times> 'v) list" where
  "obj_del k ps = filter (\<lambda>p. fst p \<noteq> k) ps"

text \<open>Writing every pair of a second object, in its order: object spread and loops of writes.\<close>

definition obj_spread :: "('k \<times> 'v) list \<Rightarrow> ('k \<times> 'v) list \<Rightarrow> ('k \<times> 'v) list" where
  "obj_spread ps qs = fold (\<lambda>(k, v) acc. obj_set k v acc) qs ps"

lemma map_of_obj_set [simp]: "map_of (obj_set k v ps) = (map_of ps)(k \<mapsto> v)"
  by (induction ps) (auto simp: fun_eq_iff)

lemma keys_obj_set [simp]: "fst ` set (obj_set k v ps) = insert k (fst ` set ps)"
  by (induction k v ps rule: obj_set.induct) auto

lemma distinct_obj_set [simp]: "distinct (map fst (obj_set k v ps)) = distinct (map fst ps)"
proof (induction ps)
  case (Cons p ps)
  obtain a b where p: "p = (a, b)" by (cases p)
  have "a \<in> fst ` set (obj_set k v ps) \<longleftrightarrow> a = k \<or> a \<in> fst ` set ps" by simp
  with Cons show ?case by (auto simp: p)
qed simp

lemma map_of_obj_del [simp]: "map_of (obj_del k ps) = (map_of ps)(k := None)"
  by (induction ps) (auto simp: obj_del_def fun_eq_iff)

lemma keys_obj_del [simp]: "fst ` set (obj_del k ps) = fst ` set ps - {k}"
  by (auto simp: obj_del_def)

lemma distinct_obj_del [simp]: "distinct (map fst ps) \<Longrightarrow> distinct (map fst (obj_del k ps))"
  by (simp add: obj_del_def distinct_map_filter)

lemma map_of_fold_obj_set:
  "map_of (fold (\<lambda>(k, v) acc. obj_set k v acc) qs ps) k = (map_of ps ++ map_of (rev qs)) k"
proof (induction qs arbitrary: ps)
  case (Cons q qs)
  obtain a b where q: "q = (a, b)" by (cases q)
  show ?case
    by (simp add: q Cons.IH map_add_def) (simp split: option.split)
qed simp

lemma map_of_rev_distinct: "distinct (map fst qs) \<Longrightarrow> map_of (rev qs) = map_of qs"
  by (metis distinct_rev map_of_inject_set rev_map set_rev)

lemma map_of_obj_spread [simp]:
  "distinct (map fst qs) \<Longrightarrow> map_of (obj_spread ps qs) = map_of ps ++ map_of qs"
  by (simp add: obj_spread_def fun_eq_iff map_of_fold_obj_set map_add_def map_of_rev_distinct)

lemma distinct_obj_spread [simp]: "distinct (map fst ps) \<Longrightarrow> distinct (map fst (obj_spread ps qs))"
  by (induction qs arbitrary: ps) (auto simp: obj_spread_def)

section \<open>A line read from its end\<close>

text \<open>What a line editor shows for the keys it received, stated without the editor: nothing before the
  last key that ends a line counts, and reading the rest from its end, each erasure takes out the nearest
  drawn key before it that no other erasure takes out.\<close>

fun kept_keys :: "('a \<Rightarrow> bool) \<Rightarrow> ('a \<Rightarrow> bool) \<Rightarrow> nat \<Rightarrow> 'a list \<Rightarrow> 'a list" where
  "kept_keys erases draws n [] = []"
| "kept_keys erases draws n (c # s) =
     (if erases c then kept_keys erases draws (Suc n) s
      else if draws c then (case n of 0 \<Rightarrow> c # kept_keys erases draws 0 s | Suc m \<Rightarrow> kept_keys erases draws m s)
      else kept_keys erases draws n s)"

definition edited_line :: "('a \<Rightarrow> bool) \<Rightarrow> ('a \<Rightarrow> bool) \<Rightarrow> ('a \<Rightarrow> bool) \<Rightarrow> 'a list \<Rightarrow> 'a list" where
  "edited_line ends erases draws s = rev (kept_keys erases draws 0 (takeWhile (\<lambda>c. \<not> ends c) (rev s)))"

lemma kept_keys_drop: "kept_keys erases draws n s = drop n (kept_keys erases draws 0 s)"
proof (induction s arbitrary: n)
  case (Cons c s)
  let ?k = "\<lambda>n. kept_keys erases draws n s"
  have tl: "drop n (drop (Suc 0) xs) = drop (Suc n) xs" for n and xs :: "'a list"
    by simp
  show ?case
  proof (cases "erases c")
    case True
    then show ?thesis using Cons.IH [of "Suc n"] Cons.IH [of "Suc 0"] tl [of n "?k 0"]
      by (simp del: drop_drop)
  next
    case False
    then show ?thesis using Cons.IH [of n] Cons.IH [of "n - 1"] by (cases n) auto
  qed
qed simp

lemma edited_line_Nil [simp]: "edited_line ends erases draws [] = []"
  by (simp add: edited_line_def)

lemma edited_line_snoc:
  "edited_line ends erases draws (s @ [c]) =
     (if ends c then [] else if erases c then butlast (edited_line ends erases draws s)
      else if draws c then edited_line ends erases draws s @ [c] else edited_line ends erases draws s)"
proof -
  have "rev (kept_keys erases draws (Suc 0) t) = butlast (rev (kept_keys erases draws 0 t))" for t
    using kept_keys_drop [of erases draws "Suc 0" t] by (simp add: butlast_rev drop_Suc)
  then show ?thesis by (simp add: edited_line_def)
qed

text \<open>An editor that does the same for each key shows that line.\<close>

lemma edited_line_foldl:
  assumes "\<And>l c. c \<in> set t \<Longrightarrow> ed l c = (if ends c then [] else if erases c then butlast l else if draws c then l @ [c] else l)"
  shows "foldl ed (edited_line ends erases draws s) t = edited_line ends erases draws (s @ t)"
  using assms
proof (induction t arbitrary: s)
  case (Cons c t)
  then have "ed (edited_line ends erases draws s) c = edited_line ends erases draws (s @ [c])"
    by (simp add: edited_line_snoc)
  then show ?case using Cons.IH [of "s @ [c]"] Cons.prems by simp
qed simp

section \<open>The machine interface\<close>

text \<open>Every event of the list is enabled in the state it meets.\<close>

primrec legal_run :: "('s \<Rightarrow> 'e \<Rightarrow> bool) \<Rightarrow> ('s \<Rightarrow> 'e \<Rightarrow> 's) \<Rightarrow> 's \<Rightarrow> 'e list \<Rightarrow> bool" where
  "legal_run enabled step s [] = True"
| "legal_run enabled step s (e # es) = (enabled s e \<and> legal_run enabled step (step s e) es)"

lemma legal_run_append:
  "legal_run en st s (es @ fs) \<longleftrightarrow> legal_run en st s es \<and> legal_run en st (foldl st s es) fs"
  by (induction es arbitrary: s) auto

lemma legal_run_True [simp]: "legal_run (\<lambda>_ _. True) st s es"
  by (induction es arbitrary: s) auto

lemma legal_run_all:
  "legal_run en st s es \<Longrightarrow> (\<And>e. e \<in> set es \<Longrightarrow> P e) \<Longrightarrow> legal_run (\<lambda>s e. en s e \<and> P e) st s es"
  by (induction es arbitrary: s) auto

locale machine =
  fixes start :: "'s"
    and step :: "'s \<Rightarrow> 'e \<Rightarrow> 's"
    and enabled :: "'s \<Rightarrow> 'e \<Rightarrow> bool"
    and inv :: "'s \<Rightarrow> bool"
  assumes start_inv: "inv start"
    and step_inv: "inv s \<Longrightarrow> enabled s e \<Longrightarrow> inv (step s e)"
begin

lemma foldl_inv: "inv s \<Longrightarrow> legal_run enabled step s es \<Longrightarrow> inv (foldl step s es)"
  by (induction es arbitrary: s) (simp_all add: step_inv)

lemma run_inv: "legal_run enabled step start es \<Longrightarrow> inv (foldl step start es)"
  by (rule foldl_inv) (rule start_inv)

text \<open>The invariant holds after every prefix of a run, and so in every state it passes.\<close>

lemma prefix_inv: "legal_run enabled step start (es @ fs) \<Longrightarrow> inv (foldl step start es)"
  by (simp add: legal_run_append run_inv)

text \<open>A quantity that no enabled step changes keeps its initial value, and one that no enabled
  step lowers only grows.\<close>

lemma run_frame:
  assumes "\<And>s e. inv s \<Longrightarrow> enabled s e \<Longrightarrow> f (step s e) = f s"
  shows "legal_run enabled step start es \<Longrightarrow> f (foldl step start es) = f start"
proof -
  have "inv s \<Longrightarrow> legal_run enabled step s es \<Longrightarrow> f (foldl step s es) = f s" for s
    by (induction es arbitrary: s) (simp_all add: assms step_inv)
  then show "legal_run enabled step start es \<Longrightarrow> f (foldl step start es) = f start"
    by (simp add: start_inv)
qed

lemma foldl_mono:
  fixes f :: "'s \<Rightarrow> nat"
  assumes "\<And>s e. inv s \<Longrightarrow> enabled s e \<Longrightarrow> f s \<le> f (step s e)"
  shows "inv s \<Longrightarrow> legal_run enabled step s es \<Longrightarrow> f s \<le> f (foldl step s es)"
proof (induction es arbitrary: s)
  case (Cons e es)
  then have "f s \<le> f (step s e)" and "f (step s e) \<le> f (foldl step (step s e) es)"
    by (simp_all add: assms step_inv)
  then show ?case by simp
qed simp

end

section \<open>Where something in the state comes from\<close>

text \<open>What the states of a machine hold, and the events that can bring it about. Whatever a run ends up
  holding was then brought about by one of its events and held ever since.\<close>

locale tracing = machine start step enabled inv
  for start :: "'s"
    and step :: "'s \<Rightarrow> 'e \<Rightarrow> 's"
    and enabled :: "'s \<Rightarrow> 'e \<Rightarrow> bool"
    and inv :: "'s \<Rightarrow> bool" +
  fixes holds :: "'s \<Rightarrow> 'x \<Rightarrow> bool"
    and cause :: "'s \<Rightarrow> 'e \<Rightarrow> 'x \<Rightarrow> bool"
  assumes start_holds: "\<not> holds start x"
    and step_holds: "inv s \<Longrightarrow> enabled s e \<Longrightarrow> holds (step s e) x \<Longrightarrow> holds s x \<or> cause s e x"
begin

lemma traced:
  "legal_run enabled step start es \<Longrightarrow> holds (foldl step start es) x \<Longrightarrow>
     \<exists>us e vs. es = us @ e # vs \<and> cause (foldl step start us) e x
       \<and> (\<forall>ys zs. vs = ys @ zs \<longrightarrow> holds (foldl step start (us @ e # ys)) x)"
proof (induction es rule: rev_induct)
  case Nil
  then show ?case by (simp add: start_holds)
next
  case (snoc e es)
  let ?s = "foldl step start es"
  have legal: "legal_run enabled step start es" "enabled ?s e"
    using snoc.prems(1) by (simp_all add: legal_run_append)
  show ?case
  proof (cases "holds ?s x")
    case True
    from snoc.IH [OF legal(1) True] obtain us e' vs
      where us: "es = us @ e' # vs" "cause (foldl step start us) e' x"
        "\<forall>ys zs. vs = ys @ zs \<longrightarrow> holds (foldl step start (us @ e' # ys)) x"
      by blast
    have "holds (foldl step start (us @ e' # ys)) x" if "vs @ [e] = ys @ zs" for ys zs
      using that us snoc.prems(2) by (cases zs rule: rev_cases) auto
    then show ?thesis
      using us by (intro exI [of _ us] exI [of _ e'] exI [of _ "vs @ [e]"]) simp
  next
    case False
    then have "cause ?s e x"
      using step_holds [OF run_inv [OF legal(1)] legal(2), of x] snoc.prems(2) by simp
    then show ?thesis
      using snoc.prems(2) by (intro exI [of _ es] exI [of _ e] exI [of _ "[]"]) simp
  qed
qed

text \<open>An event after which nothing is held cannot have come since.\<close>

lemma traced_without:
  assumes "legal_run enabled step start es" "holds (foldl step start es) x"
    and "\<And>s e. clears e \<Longrightarrow> \<not> holds (step s e) x" "\<And>s e. cause s e x \<Longrightarrow> \<not> clears e"
  shows "\<exists>us e vs. es = us @ e # vs \<and> cause (foldl step start us) e x \<and> (\<forall>e' \<in> set (e # vs). \<not> clears e')"
proof -
  from traced [OF assms(1,2)] obtain us e vs
    where us: "es = us @ e # vs" "cause (foldl step start us) e x"
      "\<forall>ys zs. vs = ys @ zs \<longrightarrow> holds (foldl step start (us @ e # ys)) x"
    by blast
  have "\<not> clears e'" if "e' \<in> set vs" for e'
  proof -
    obtain ys zs where "vs = ys @ e' # zs" using \<open>e' \<in> set vs\<close> by (auto dest: split_list)
    then have "vs = (ys @ [e']) @ zs" by simp
    then have "holds (foldl step start (us @ e # ys @ [e'])) x" using us(3) by blast
    then show ?thesis using assms(3) [of e'] by auto
  qed
  then show ?thesis
    using us(1,2) assms(4) by (intro exI [of _ us] exI [of _ e] exI [of _ vs]) auto
qed

end

section \<open>Following an action\<close>

text \<open>A component that shows an action of the gateway as running and polls its status: in every state of a run,
  whatever is shown as running is being polled, so that its end will be seen.\<close>

locale following = machine start step enabled inv
  for start :: "'s"
    and step :: "'s \<Rightarrow> 'e \<Rightarrow> 's"
    and enabled :: "'s \<Rightarrow> 'e \<Rightarrow> bool"
    and inv :: "'s \<Rightarrow> bool" +
  fixes shown_running :: "'s \<Rightarrow> bool"
    and polled_next :: "'s \<Rightarrow> 'e set"
  assumes running_polled: "inv s \<Longrightarrow> shown_running s \<Longrightarrow> polled_next s \<noteq> {}"
    and polls_enabled: "e \<in> polled_next s \<Longrightarrow> enabled s e"
begin

lemma never_abandoned:
  "legal_run enabled step start es \<Longrightarrow> shown_running (foldl step start es) \<Longrightarrow>
     \<exists>e \<in> polled_next (foldl step start es). legal_run enabled step start (es @ [e])"
proof -
  assume run: "legal_run enabled step start es" and shown: "shown_running (foldl step start es)"
  from running_polled [OF run_inv [OF run] shown] obtain e where "e \<in> polled_next (foldl step start es)" by blast
  then show ?thesis using run polls_enabled by (auto simp: legal_run_append)
qed

end

section \<open>The codec interface\<close>

locale codec =
  fixes print :: "'a \<Rightarrow> 'b"
    and parse :: "'b \<Rightarrow> 'a option"
    and wf :: "'a \<Rightarrow> bool"
  assumes parse_print: "wf x \<Longrightarrow> parse (print x) = Some x"
begin

lemma print_inj: "wf x \<Longrightarrow> wf y \<Longrightarrow> print x = print y \<Longrightarrow> x = y"
  by (metis option.inject parse_print)

lemma print_inj_on: "inj_on print {x. wf x}"
  by (auto intro!: inj_onI dest: print_inj)

lemma parse_total: "wf x \<Longrightarrow> parse (print x) \<noteq> None"
  by (simp add: parse_print)

end

end
