(* ===== verification/JsString.thy ===== *)
theory JsString
  imports Prelude
begin

text \<open>
  The JavaScript string operations the program uses. A \<open>string\<close> of the model is a list of
  UTF-16 code units below 256 (the Latin-1 strings), each a \<open>char\<close>; on them the operations
  below are those of the standard (\<open>trim\<close>, the white-space class of regular expressions,
  \<open>toLowerCase\<close>, \<open>split\<close>, \<open>includes\<close>, \<open>replace\<close>, \<open>parseInt\<close>
  on digits, decimal printing of integers). Code units above 255 are outside the model.
\<close>

section \<open>Character classes\<close>

definition code :: "char \<Rightarrow> nat" where
  "code c = of_char c"

lemma code_inj: "code c = code d \<longleftrightarrow> c = d"
  by (simp add: code_def)

lemma code_less: "code c < 256"
  by (simp add: code_def)

lemma code_char_of [simp]: "n < 256 \<Longrightarrow> code (char_of n) = n"
  by (simp add: code_def)

lemma char_of_code [simp]: "char_of (code c) = c"
  by (simp add: code_def)

text \<open>White space (\<open>\s\<close>, and what \<open>trim\<close> removes): tab, line feed, vertical tab,
  form feed, carriage return, space and no-break space.\<close>

definition is_ws :: "char \<Rightarrow> bool" where
  "is_ws c \<longleftrightarrow> (9 \<le> code c \<and> code c \<le> 13) \<or> code c = 32 \<or> code c = 160"

definition is_digit :: "char \<Rightarrow> bool" where
  "is_digit c \<longleftrightarrow> 48 \<le> code c \<and> code c \<le> 57"

definition is_upper_letter :: "char \<Rightarrow> bool" where
  "is_upper_letter c \<longleftrightarrow> (65 \<le> code c \<and> code c \<le> 90) \<or> (192 \<le> code c \<and> code c \<le> 222 \<and> code c \<noteq> 215)"

definition is_lower_letter :: "char \<Rightarrow> bool" where
  "is_lower_letter c \<longleftrightarrow> (97 \<le> code c \<and> code c \<le> 122) \<or> (224 \<le> code c \<and> code c \<le> 254 \<and> code c \<noteq> 247)"

text \<open>\<open>toLowerCase\<close> and \<open>toUpperCase\<close> of one code unit. The sharp s is the one Latin-1
  letter whose upper case is two letters; the micro sign and the y with diaeresis, whose upper
  case is not Latin-1, are left as they are.\<close>

definition lower_char :: "char \<Rightarrow> char" where
  "lower_char c = (if is_upper_letter c then char_of (code c + 32) else c)"

definition upper_char :: "char \<Rightarrow> string" where
  "upper_char c = (if is_lower_letter c then [char_of (code c - 32)]
     else if code c = 223 then ''SS'' else [c])"

definition lower :: "string \<Rightarrow> string" where
  "lower s = map lower_char s"

lemma code_lower_char: "code (lower_char c) = (if is_upper_letter c then code c + 32 else code c)"
  by (auto simp: lower_char_def is_upper_letter_def code_less)

lemma is_upper_lower_char: "\<not> is_upper_letter (lower_char c)"
  by (auto simp: is_upper_letter_def code_lower_char split: if_splits)

lemma lower_char_idem [simp]: "lower_char (lower_char c) = lower_char c"
  by (simp add: lower_char_def [of "lower_char c"] is_upper_lower_char)

lemma lower_idem [simp]: "lower (lower s) = lower s"
  by (simp add: lower_def)

lemma length_lower [simp]: "length (lower s) = length s"
  by (simp add: lower_def)

lemma lower_Nil [simp]: "lower s = [] \<longleftrightarrow> s = []"
  by (simp add: lower_def)

lemma lower_append: "lower (s @ t) = lower s @ lower t"
  by (simp add: lower_def)

lemma is_ws_lower_char [simp]: "is_ws (lower_char c) = is_ws c"
  by (auto simp: is_ws_def code_lower_char is_upper_letter_def)

lemma is_digit_not_ws: "is_digit c \<Longrightarrow> \<not> is_ws c"
  by (auto simp: is_digit_def is_ws_def)

section \<open>Trimming\<close>

definition trim_start :: "string \<Rightarrow> string" where
  "trim_start s = dropWhile is_ws s"

definition trim_end :: "string \<Rightarrow> string" where
  "trim_end s = rev (dropWhile is_ws (rev s))"

definition trim :: "string \<Rightarrow> string" where
  "trim s = trim_end (trim_start s)"

text \<open>A string is trimmed when neither end is white space.\<close>

definition trimmed :: "string \<Rightarrow> bool" where
  "trimmed s \<longleftrightarrow> (s \<noteq> [] \<longrightarrow> \<not> is_ws (hd s) \<and> \<not> is_ws (last s))"

lemma trim_trimmed: "trimmed s \<Longrightarrow> trim s = s"
proof (cases s)
  case (Cons c cs)
  assume t: "trimmed s"
  then have "\<not> is_ws c" and l: "\<not> is_ws (last s)" by (auto simp: trimmed_def Cons)
  then have "trim_start s = s" by (simp add: trim_start_def Cons)
  moreover have "dropWhile is_ws (rev s) = rev s"
    using l Cons by (cases "rev s") (auto simp: hd_rev [symmetric])
  ultimately show ?thesis by (simp add: trim_def trim_end_def)
qed (simp add: trim_def trim_start_def trim_end_def)

lemma trim_Nil [simp]: "trim [] = []"
  by (simp add: trim_def trim_start_def trim_end_def)

lemma last_trim_end: "trim_end s \<noteq> [] \<Longrightarrow> \<not> is_ws (last (trim_end s))"
  using hd_dropWhile [of is_ws "rev s"] by (simp add: trim_end_def last_rev)

lemma trim_end_prefix: "\<exists>us. s = trim_end s @ us"
proof -
  have "rev s = takeWhile is_ws (rev s) @ dropWhile is_ws (rev s)" by simp
  then have "s = rev (dropWhile is_ws (rev s)) @ rev (takeWhile is_ws (rev s))"
    by (metis rev_append rev_rev_ident)
  then show ?thesis unfolding trim_end_def by blast
qed

lemma hd_trim_end: "trim_end s \<noteq> [] \<Longrightarrow> hd (trim_end s) = hd s"
  using trim_end_prefix [of s] by (metis hd_append2)

lemma trimmed_trim: "trimmed (trim s)"
proof -
  have "\<not> is_ws (hd (trim s))" if ne: "trim s \<noteq> []"
  proof -
    have "hd (trim s) = hd (trim_start s)" using ne by (simp add: trim_def hd_trim_end)
    moreover have "trim_start s \<noteq> []" using ne trim_end_prefix [of "trim_start s"]
      by (auto simp: trim_def)
    ultimately show ?thesis using hd_dropWhile [of is_ws s] by (simp add: trim_start_def)
  qed
  moreover have "trim s \<noteq> [] \<Longrightarrow> \<not> is_ws (last (trim s))"
    by (simp add: trim_def last_trim_end)
  ultimately show ?thesis by (simp add: trimmed_def)
qed

lemma trim_blank: "trim s = [] \<longleftrightarrow> list_all is_ws s"
proof
  assume "trim s = []"
  then have "dropWhile is_ws (rev (dropWhile is_ws s)) = []" by (simp add: trim_def trim_end_def trim_start_def)
  then have "\<forall>c \<in> set (dropWhile is_ws s). is_ws c" by (simp add: dropWhile_eq_Nil_conv)
  then have "dropWhile is_ws s = []" using dropWhile_hd_not [of is_ws s] by (cases "dropWhile is_ws s") auto
  then show "list_all is_ws s" by (auto simp: dropWhile_eq_Nil_conv list_all_iff)
next
  assume "list_all is_ws s"
  then have "dropWhile is_ws s = []" by (auto simp: dropWhile_eq_Nil_conv list_all_iff)
  then show "trim s = []" by (auto simp: trim_def trim_start_def trim_end_def dest: set_dropWhileD)
qed

lemma trim_idem [simp]: "trim (trim s) = trim s"
  by (simp add: trim_trimmed trimmed_trim)

lemma trimmedI: "s \<noteq> [] \<Longrightarrow> \<not> is_ws (hd s) \<Longrightarrow> \<not> is_ws (last s) \<Longrightarrow> trimmed s"
  by (simp add: trimmed_def)

section \<open>Searching and splitting\<close>

definition starts_with :: "string \<Rightarrow> string \<Rightarrow> bool" where
  "starts_with s p \<longleftrightarrow> take (length p) s = p"

definition ends_with :: "string \<Rightarrow> string \<Rightarrow> bool" where
  "ends_with s p \<longleftrightarrow> starts_with (rev s) (rev p)"

lemma starts_with_append [simp]: "starts_with (p @ s) p"
  by (simp add: starts_with_def)

lemma starts_with_iff: "starts_with s p \<longleftrightarrow> (\<exists>t. s = p @ t)"
  by (metis append_eq_conv_conj append_take_drop_id starts_with_def)

lemma starts_with_Nil [simp]: "starts_with s []"
  by (simp add: starts_with_def)

lemma ends_with_iff: "ends_with s p \<longleftrightarrow> (\<exists>t. s = t @ p)"
proof
  assume "ends_with s p"
  then obtain t where "rev s = rev p @ t" by (auto simp: ends_with_def starts_with_iff)
  then have "s = rev t @ p" by (metis rev_append rev_rev_ident)
  then show "\<exists>t. s = t @ p" ..
qed (auto simp: ends_with_def starts_with_iff)

text \<open>A suffix free of the separator is a suffix of what follows the last separator.\<close>

lemma ends_with_after: "c \<notin> set p \<Longrightarrow> ends_with (s @ c # k) p \<longleftrightarrow> ends_with k p"
proof
  assume c: "c \<notin> set p" and "ends_with (s @ c # k) p"
  then obtain t where "s @ c # k = t @ p" by (auto simp: ends_with_iff)
  then consider us where "c # k = us @ p" | us where "us \<noteq> []" "us @ c # k = p"
    by (auto simp: append_eq_append_conv2) (metis append_Nil)+
  then show "ends_with k p"
  proof cases
    case 1
    with c have "us \<noteq> []" by (cases us) auto
    with 1 show ?thesis by (cases us) (auto simp: ends_with_iff)
  qed (use c in auto)
qed (auto simp: ends_with_iff intro: exI [of _ "s @ c # _"])

lemma starts_with_mono: "starts_with s p \<Longrightarrow> starts_with (s @ t) p"
  by (auto simp: starts_with_iff)

fun str_includes :: "string \<Rightarrow> string \<Rightarrow> bool" where
  "str_includes [] p = (p = [])"
| "str_includes (c # cs) p = (starts_with (c # cs) p \<or> str_includes cs p)"

lemma starts_with_prefix: "starts_with s p \<longleftrightarrow> prefix p s"
  by (simp add: starts_with_iff prefix_def)

lemma str_includes_sublist: "str_includes s p \<longleftrightarrow> sublist p s"
  by (induction s) (simp_all add: sublist_Cons_right starts_with_prefix)

lemma str_includes_iff: "str_includes s p \<longleftrightarrow> (\<exists>a b. s = a @ p @ b)"
  by (simp add: str_includes_sublist sublist_def)

lemma str_includes_append_left: "str_includes t p \<Longrightarrow> str_includes (s @ t) p"
  by (auto simp: str_includes_sublist sublist_append)

lemma str_includes_append_right: "str_includes s p \<Longrightarrow> str_includes (s @ t) p"
  by (auto simp: str_includes_sublist sublist_append)

lemma str_includes_self [simp]: "str_includes p p"
  by (simp add: str_includes_sublist)

text \<open>\<open>indexOf\<close> of one code unit.\<close>

fun index_of :: "char \<Rightarrow> string \<Rightarrow> nat option" where
  "index_of c [] = None"
| "index_of c (d # ds) = (if c = d then Some 0 else map_option Suc (index_of c ds))"

lemma index_of_Some:
  "index_of c s = Some i \<Longrightarrow> i < length s \<and> s ! i = c \<and> (\<forall>j < i. s ! j \<noteq> c)"
proof (induction s arbitrary: i)
  case (Cons d ds)
  show ?case
  proof (cases "c = d")
    case False
    with Cons.prems obtain k where k: "index_of c ds = Some k" "i = Suc k" by auto
    with Cons.IH [OF k(1)] False show ?thesis by (auto simp: less_Suc_eq_0_disj)
  qed (use Cons.prems in simp)
qed simp

lemma index_of_None: "index_of c s = None \<longleftrightarrow> c \<notin> set s"
  by (induction s) auto

lemma index_of_before: "c \<notin> set p \<Longrightarrow> index_of c (p @ c # s) = Some (length p)"
  by (induction p) auto

text \<open>\<open>split\<close> on one code unit: never the empty list.\<close>

fun split_on :: "char \<Rightarrow> string \<Rightarrow> string list" where
  "split_on c [] = [ [] ]"
| "split_on c (d # ds) =
     (if c = d then [] # split_on c ds
      else (case split_on c ds of [] \<Rightarrow> [ [d] ] | w # ws \<Rightarrow> (d # w) # ws))"

lemma split_on_not_Nil [simp]: "split_on c s \<noteq> []"
  by (induction s) (auto split: list.splits)

lemma split_on_free: "c \<notin> set s \<Longrightarrow> split_on c s = [s]"
  by (induction s) auto

lemma split_on_append: "c \<notin> set w \<Longrightarrow> split_on c (w @ c # s) = w # split_on c s"
  by (induction w) auto

lemma split_on_free_parts: "w \<in> set (split_on c s) \<Longrightarrow> c \<notin> set w"
  by (induction s arbitrary: w) (fastforce split: if_splits list.splits)+

lemma split_on_subset: "w \<in> set (split_on c s) \<Longrightarrow> set w \<subseteq> set s"
  by (induction s arbitrary: w) (fastforce split: if_splits list.splits)+

fun join :: "string \<Rightarrow> string list \<Rightarrow> string" where
  "join sep [] = []"
| "join sep [w] = w"
| "join sep (w # ws) = w @ sep @ join sep ws"

lemma split_on_join: "ws \<noteq> [] \<Longrightarrow> (\<And>w. w \<in> set ws \<Longrightarrow> c \<notin> set w) \<Longrightarrow> split_on c (join [c] ws) = ws"
  by (induction "[c]" ws rule: join.induct) (auto simp: split_on_free split_on_append)

lemma join_split_on: "join [c] (split_on c s) = s"
proof (induction s)
  case (Cons d ds)
  obtain w ws where sp: "split_on c ds = w # ws" by (cases "split_on c ds") auto
  with Cons show ?case by (cases ws) auto
qed simp

lemma set_join: "set (join sep ws) \<subseteq> set sep \<union> (\<Union>w \<in> set ws. set w)"
  by (induction sep ws rule: join.induct) auto

text \<open>\<open>split(/\s+/)\<close>: maximal runs of white space separate; a run at either end leaves an
  empty piece there.\<close>

function split_ws :: "string \<Rightarrow> string list" where
  "split_ws s =
     (let w = takeWhile (\<lambda>c. \<not> is_ws c) s; r = dropWhile (\<lambda>c. \<not> is_ws c) s
      in if r = [] then [w] else w # split_ws (dropWhile is_ws r))"
  by pat_completeness auto
termination
proof (relation "measure length", goal_cases)
  case (2 s w r)
  then have "is_ws (hd r)" using hd_dropWhile [of "\<lambda>c. \<not> is_ws c" s] by auto
  with 2 have "length (dropWhile is_ws r) < length r" by (intro length_dropWhile_less) auto
  also have "length r \<le> length s" using 2 by (simp add: length_dropWhile_le)
  finally show ?case by simp
qed simp

declare split_ws.simps [simp del]

lemma split_ws_free: "\<forall>c \<in> set s. \<not> is_ws c \<Longrightarrow> split_ws s = [s]"
  by (subst split_ws.simps) (simp add: takeWhile_all dropWhile_all)

lemma split_ws_space:
  assumes "\<forall>c \<in> set w. \<not> is_ws c" and "s \<noteq> []" and "\<not> is_ws (hd s)"
  shows "split_ws (w @ CHR '' '' # s) = w # split_ws s"
proof -
  have sp: "is_ws (CHR '' '')" by (simp add: is_ws_def code_def)
  have d: "dropWhile is_ws (CHR '' '' # s) = s"
    using assms(2,3) sp by (cases s) auto
  show ?thesis
    by (subst split_ws.simps)
       (use assms sp d in \<open>simp add: takeWhile_hit dropWhile_hit Let_def\<close>)
qed

lemma split_ws_parts: "w \<in> set (split_ws s) \<Longrightarrow> c \<in> set w \<Longrightarrow> \<not> is_ws c"
proof (induction s rule: split_ws.induct)
  case (1 s)
  let ?w = "takeWhile (\<lambda>c. \<not> is_ws c) s" and ?r = "dropWhile (\<lambda>c. \<not> is_ws c) s"
  show ?case
  proof (cases "w = ?w")
    case True
    with "1.prems" show ?thesis by (auto dest: set_takeWhileD)
  next
    case False
    with "1.prems" have "?r \<noteq> []" and "w \<in> set (split_ws (dropWhile is_ws ?r))"
      by (subst (asm) split_ws.simps, auto simp: Let_def split: if_splits)+
    with "1.IH" "1.prems"(2) show ?thesis by blast
  qed
qed

lemma split_ws_subset: "w \<in> set (split_ws s) \<Longrightarrow> set w \<subseteq> set s"
proof (induction s rule: split_ws.induct)
  case (1 s)
  let ?w = "takeWhile (\<lambda>c. \<not> is_ws c) s" and ?r = "dropWhile (\<lambda>c. \<not> is_ws c) s"
  show ?case
  proof (cases "w = ?w")
    case True
    then show ?thesis by (auto dest: set_takeWhileD)
  next
    case False
    with "1.prems" have "?r \<noteq> []" and "w \<in> set (split_ws (dropWhile is_ws ?r))"
      by (subst (asm) split_ws.simps, auto simp: Let_def split: if_splits)+
    with "1.IH" have "set w \<subseteq> set (dropWhile is_ws ?r)" by blast
    then show ?thesis by (auto dest!: set_dropWhileD subsetD)
  qed
qed

text \<open>\<open>replace(pat, repl)\<close> with string arguments: the first occurrence, and in the
  replacement \<open>$$\<close>, \<open>$&\<close>, \<open>$`\<close> and \<open>$'\<close> expanded.\<close>

fun expand_repl :: "string \<Rightarrow> string \<Rightarrow> string \<Rightarrow> string \<Rightarrow> string" where
  "expand_repl pre pat post [] = []"
| "expand_repl pre pat post [c] = [c]"
| "expand_repl pre pat post (c # d # r) =
     (if c = CHR ''$'' \<and> d = CHR ''$'' then CHR ''$'' # expand_repl pre pat post r
      else if c = CHR ''$'' \<and> d = CHR ''&'' then pat @ expand_repl pre pat post r
      else if c = CHR ''$'' \<and> d = CHR 0x60 then pre @ expand_repl pre pat post r
      else if c = CHR ''$'' \<and> d = CHR 0x27 then post @ expand_repl pre pat post r
      else c # expand_repl pre pat post (d # r))"

fun replace_from :: "string \<Rightarrow> string \<Rightarrow> string \<Rightarrow> string \<Rightarrow> string" where
  "replace_from pre [] pat repl = (if pat = [] then pre @ expand_repl pre pat [] repl else pre)"
| "replace_from pre (c # cs) pat repl =
     (if starts_with (c # cs) pat
      then pre @ expand_repl pre pat (drop (length pat) (c # cs)) repl @ drop (length pat) (c # cs)
      else replace_from (pre @ [c]) cs pat repl)"

definition replace_first :: "string \<Rightarrow> string \<Rightarrow> string \<Rightarrow> string" where
  "replace_first s pat repl = replace_from [] s pat repl"

lemma expand_repl_plain: "CHR ''$'' \<notin> set repl \<Longrightarrow> expand_repl pre pat post repl = repl"
  by (induction pre pat post repl rule: expand_repl.induct) auto

lemma replace_from_absent: "\<not> str_includes s pat \<Longrightarrow> replace_from pre s pat repl = pre @ s"
  by (induction s arbitrary: pre) (auto simp: starts_with_def)

lemma replace_first_absent: "\<not> str_includes s pat \<Longrightarrow> replace_first s pat repl = s"
  by (simp add: replace_first_def replace_from_absent)

section \<open>Decimal numbers\<close>

definition digit_char :: "nat \<Rightarrow> char" where
  "digit_char d = char_of (48 + d)"

definition digit_val :: "char \<Rightarrow> nat" where
  "digit_val c = code c - 48"

fun show_nat :: "nat \<Rightarrow> string" where
  "show_nat n = (if n < 10 then [digit_char n] else show_nat (n div 10) @ [digit_char (n mod 10)])"

declare show_nat.simps [simp del]

text \<open>\<open>String(n)\<close> of an integer, exact below the 53-bit range of JavaScript numbers.\<close>

definition show_int :: "int \<Rightarrow> string" where
  "show_int i = (if i < 0 then CHR ''-'' # show_nat (nat (- i)) else show_nat (nat i))"

text \<open>\<open>parseInt(s, 10)\<close> of a string of digits.\<close>

definition parse_digits :: "string \<Rightarrow> nat" where
  "parse_digits s = foldl (\<lambda>acc c. 10 * acc + digit_val c) 0 s"

text \<open>\<open>parseInt(s, 10)\<close> of any string; \<open>None\<close> is \<open>NaN\<close>.\<close>

definition parse_int :: "string \<Rightarrow> int option" where
  "parse_int s =
     (let t = trim_start s;
          neg = (t \<noteq> [] \<and> hd t = CHR ''-'');
          u = (if t \<noteq> [] \<and> (hd t = CHR ''-'' \<or> hd t = CHR ''+'') then tl t else t);
          ds = takeWhile is_digit u
      in if ds = [] then None
         else Some (if neg then - int (parse_digits ds) else int (parse_digits ds)))"

definition all_digits :: "string \<Rightarrow> bool" where
  "all_digits s \<longleftrightarrow> s \<noteq> [] \<and> list_all is_digit s"

lemma code_digit_char [simp]: "d < 10 \<Longrightarrow> code (digit_char d) = 48 + d"
  by (simp add: digit_char_def)

lemma is_digit_digit_char [simp]: "d < 10 \<Longrightarrow> is_digit (digit_char d)"
  by (simp add: is_digit_def)

lemma digit_val_digit_char [simp]: "d < 10 \<Longrightarrow> digit_val (digit_char d) = d"
  by (simp add: digit_val_def)

lemma show_nat_not_Nil [simp]: "show_nat n \<noteq> []"
  by (subst show_nat.simps) simp

lemma show_nat_digits: "c \<in> set (show_nat n) \<Longrightarrow> is_digit c"
proof (induction n rule: show_nat.induct)
  case (1 n)
  then show ?case by (subst (asm) show_nat.simps) (auto split: if_splits)
qed

lemma all_digits_show_nat [simp]: "all_digits (show_nat n)"
  by (auto simp: all_digits_def list_all_iff show_nat_digits)

lemma show_nat_no_ws: "c \<in> set (show_nat n) \<Longrightarrow> \<not> is_ws c"
  by (auto dest: show_nat_digits is_digit_not_ws)

lemma parse_digits_snoc: "parse_digits (s @ [c]) = 10 * parse_digits s + digit_val c"
  by (simp add: parse_digits_def)

lemma parse_show_nat [simp]: "parse_digits (show_nat n) = n"
proof (induction n rule: show_nat.induct)
  case (1 n)
  show ?case
  proof (cases "n < 10")
    case True
    then show ?thesis by (subst show_nat.simps) (simp add: parse_digits_def)
  next
    case False
    with "1.IH" show ?thesis by (subst show_nat.simps) (simp add: parse_digits_snoc)
  qed
qed

lemma digit_val_less: "is_digit c \<Longrightarrow> digit_val c < 10"
  by (auto simp: is_digit_def digit_val_def)

lemma length_show_nat_1: "n < 10 \<Longrightarrow> show_nat n = [digit_char n]"
  by (subst show_nat.simps) simp

lemma length_show_nat_2: "10 \<le> n \<Longrightarrow> n < 100 \<Longrightarrow> show_nat n = [digit_char (n div 10), digit_char (n mod 10)]"
  by (subst show_nat.simps) (simp add: length_show_nat_1)

text \<open>Words: nonempty and free of white space. Joining words with single spaces is undone by
  \<open>split(/\s+/)\<close>, and gives a trimmed string.\<close>

definition is_word :: "string \<Rightarrow> bool" where
  "is_word w \<longleftrightarrow> w \<noteq> [] \<and> (\<forall>c \<in> set w. \<not> is_ws c)"

lemma join_not_Nil: "ws \<noteq> [] \<Longrightarrow> is_word (hd ws) \<Longrightarrow> join sep ws \<noteq> []"
  by (cases ws rule: list.exhaust, simp, rename_tac w ws', case_tac ws') (auto simp: is_word_def)

lemma hd_join: "ws \<noteq> [] \<Longrightarrow> is_word (hd ws) \<Longrightarrow> hd (join sep ws) = hd (hd ws)"
  by (cases ws rule: list.exhaust, simp, rename_tac w ws', case_tac ws') (auto simp: is_word_def)

lemma split_ws_join:
  "ws \<noteq> [] \<Longrightarrow> (\<And>w. w \<in> set ws \<Longrightarrow> is_word w) \<Longrightarrow> split_ws (join '' '' ws) = ws"
proof (induction "'' ''" ws rule: join.induct)
  case (2 w)
  then show ?case by (simp add: split_ws_free is_word_def)
next
  case (3 w v ws)
  let ?r = "join '' '' (v # ws)"
  have v: "is_word v" by (rule "3.prems") simp
  then have r: "?r \<noteq> []" and h: "hd ?r = hd v"
    by (simp_all add: join_not_Nil hd_join del: join.simps)
  have "\<not> is_ws (hd ?r)" using v by (simp add: h is_word_def del: join.simps)
  then have "split_ws (w @ CHR '' '' # ?r) = w # split_ws ?r"
    using r "3.prems"(2) [of w] by (intro split_ws_space) (auto simp: is_word_def)
  with "3.hyps" "3.prems" show ?case by simp
qed simp

lemma last_join:
  "ws \<noteq> [] \<Longrightarrow> (\<And>w. w \<in> set ws \<Longrightarrow> is_word w) \<Longrightarrow> last (join sep ws) = last (last ws)"
proof (induction sep ws rule: join.induct)
  case (3 sep w v ws)
  then have "join sep (v # ws) \<noteq> []" by (intro join_not_Nil) auto
  with 3 show ?case by (simp del: join.simps(2-3) add: join.simps(3) [of sep w v ws])
qed simp_all

lemma trimmed_join:
  assumes "ws \<noteq> []" and words: "\<And>w. w \<in> set ws \<Longrightarrow> is_word w"
  shows "trimmed (join sep ws)"
proof (rule trimmedI)
  have "is_word (hd ws)" and "is_word (last ws)" using assms by simp_all
  with assms show "join sep ws \<noteq> []" and "\<not> is_ws (hd (join sep ws))"
    and "\<not> is_ws (last (join sep ws))"
    by (auto simp: join_not_Nil hd_join last_join is_word_def)
qed

lemma is_word_show_nat [simp]: "is_word (show_nat n)"
  by (auto simp: is_word_def show_nat_no_ws)

text \<open>Printing and parsing of naturals is a codec.\<close>

interpretation nat_codec: codec show_nat "\<lambda>s. Some (parse_digits s)" "\<lambda>_. True"
  by unfold_locales simp

lemma show_nat_inj: "show_nat m = show_nat n \<longleftrightarrow> m = n"
  by (blast intro: nat_codec.print_inj)

lemmas [js_simps] = code_def is_ws_def is_digit_def is_upper_letter_def is_lower_letter_def
  lower_char_def lower_def upper_char_def trim_def trim_start_def trim_end_def starts_with_def
  ends_with_def digit_val_def parse_digits_def all_digits_def split_ws.simps show_nat.simps
  digit_char_def show_int_def replace_first_def parse_int_def

end
