(* ===== verification/JsValue.thy ===== *)
theory JsValue
  imports JsString Complex_Main
begin

text \<open>
  JavaScript numbers and values as the program uses them: \<open>jsnum\<close> is a number that may be
  \<open>NaN\<close> or infinite, with exact rational arithmetic where the program computes, and
  \<open>js\<close> is a value of type \<open>unknown\<close> (parsed JSON, or a field of it that is absent).
\<close>

section \<open>Numbers\<close>

datatype jsnum = NaN | PosInf | NegInf | Fin rat

text \<open>\<open>Math.floor\<close> and \<open>Number.isFinite\<close>.\<close>

fun js_floor :: "jsnum \<Rightarrow> jsnum" where
  "js_floor (Fin r) = Fin (of_int \<lfloor>r\<rfloor>)"
| "js_floor n = n"

fun is_finite :: "jsnum \<Rightarrow> bool" where
  "is_finite (Fin r) = True"
| "is_finite n = False"

text \<open>The integer a finite, already floored number stands for.\<close>

fun int_of_num :: "jsnum \<Rightarrow> int" where
  "int_of_num (Fin r) = \<lfloor>r\<rfloor>"
| "int_of_num n = 0"

definition num_of_int :: "int \<Rightarrow> jsnum" where
  "num_of_int i = Fin (of_int i)"

lemma floor_num_of_int [simp]: "js_floor (num_of_int i) = num_of_int i"
  by (simp add: num_of_int_def)

lemma finite_num_of_int [simp]: "is_finite (num_of_int i)"
  by (simp add: num_of_int_def)

lemma int_of_num_of_int [simp]: "int_of_num (num_of_int i) = i"
  by (simp add: num_of_int_def)

section \<open>Values\<close>

datatype js =
    JUndef
  | JNull
  | JBool bool
  | JNum int
  | JStr string
  | JArr "js list"
  | JObj "(string \<times> js) list"

text \<open>\<open>Boolean(v)\<close>.\<close>

fun truthy :: "js \<Rightarrow> bool" where
  "truthy JUndef = False"
| "truthy JNull = False"
| "truthy (JBool b) = b"
| "truthy (JNum i) = (i \<noteq> 0)"
| "truthy (JStr s) = (s \<noteq> [])"
| "truthy (JArr _) = True"
| "truthy (JObj _) = True"

text \<open>Truth of an optional string: absent and empty are both false.\<close>

definition truthy_str :: "string option \<Rightarrow> bool" where
  "truthy_str s \<longleftrightarrow> s \<noteq> None \<and> s \<noteq> Some []"

text \<open>\<open>typeof v === "object" && v !== null && !Array.isArray(v)\<close>.\<close>

fun is_plain_object :: "js \<Rightarrow> bool" where
  "is_plain_object (JObj _) = True"
| "is_plain_object _ = False"

text \<open>Reading a property of an object; absent reads give \<open>undefined\<close>.\<close>

fun js_get :: "js \<Rightarrow> string \<Rightarrow> js" where
  "js_get (JObj ps) k = (case map_of ps k of None \<Rightarrow> JUndef | Some v \<Rightarrow> v)"
| "js_get _ k = JUndef"

text \<open>\<open>String(v)\<close>.\<close>

fun js_string :: "js \<Rightarrow> string" where
  "js_string JUndef = ''undefined''"
| "js_string JNull = ''null''"
| "js_string (JBool b) = (if b then ''true'' else ''false'')"
| "js_string (JNum i) = show_int i"
| "js_string (JStr s) = s"
| "js_string (JArr vs) =
     join '','' (map (\<lambda>v. case v of JUndef \<Rightarrow> [] | JNull \<Rightarrow> [] | _ \<Rightarrow> js_string v) vs)"
| "js_string (JObj ps) = ''[object Object]''"

lemma truthy_str_simps [simp]:
  "\<not> truthy_str None" "truthy_str (Some s) \<longleftrightarrow> s \<noteq> []"
  by (simp_all add: truthy_str_def)

end
