(* ===== verification/UrlCodec.thy ===== *)
theory UrlCodec
  imports JsValue
begin

text \<open>
  The URL operations of the JavaScript library that the program builds requests with, and their
  inverses as a server reads them: \<open>encodeURIComponent\<close> (on Latin-1 strings, whose upper half is
  two UTF-8 bytes each), \<open>URLSearchParams.toString\<close>, and the reading of a request target into
  decoded path segments and decoded query parameters. Encoding is a \<open>codec\<close>, and an encoded
  component contains none of the characters that delimit a URL.
\<close>

section \<open>Percent encoding\<close>

definition is_alnum :: "char \<Rightarrow> bool" where
  "is_alnum c \<longleftrightarrow> is_digit c \<or> (65 \<le> code c \<and> code c \<le> 90) \<or> (97 \<le> code c \<and> code c \<le> 122)"

text \<open>The characters \<open>encodeURIComponent\<close> leaves alone.\<close>

definition uri_unreserved :: "char \<Rightarrow> bool" where
  "uri_unreserved c \<longleftrightarrow> is_alnum c \<or> c \<in> set ''-_.!~*()'' \<or> code c = 39"

definition hex_digit :: "nat \<Rightarrow> char" where
  "hex_digit n = char_of (if n < 10 then 48 + n else 55 + n)"

definition hex_val :: "char \<Rightarrow> nat option" where
  "hex_val c =
     (if is_digit c then Some (code c - 48)
      else if 65 \<le> code c \<and> code c \<le> 70 then Some (code c - 55)
      else if 97 \<le> code c \<and> code c \<le> 102 then Some (code c - 87)
      else None)"

definition percent_byte :: "nat \<Rightarrow> string" where
  "percent_byte b = [CHR ''%'', hex_digit (b div 16), hex_digit (b mod 16)]"

text \<open>The UTF-8 bytes of a code unit below 256, each written as a percent escape.\<close>

definition percent_char :: "char \<Rightarrow> string" where
  "percent_char c =
     (if code c < 128 then percent_byte (code c)
      else percent_byte (192 + code c div 64) @ percent_byte (128 + code c mod 64))"

definition encode_char :: "char \<Rightarrow> string" where
  "encode_char c = (if uri_unreserved c then [c] else percent_char c)"

definition encodeURIComponent :: "string \<Rightarrow> string" where
  "encodeURIComponent s = concat (map encode_char s)"

text \<open>The bytes of a percent-encoded string; \<open>None\<close> where an escape is malformed.\<close>

fun unescape :: "string \<Rightarrow> nat list option" where
  "unescape [] = Some []"
| "unescape (c # cs) =
     (if c = CHR ''%'' then
        (case cs of
           a # b # r \<Rightarrow>
             (case (hex_val a, hex_val b, unescape r) of
                (Some x, Some y, Some bs) \<Rightarrow> Some ((16 * x + y) # bs)
              | _ \<Rightarrow> None)
         | _ \<Rightarrow> None)
      else map_option (Cons (code c)) (unescape cs))"

text \<open>UTF-8 decoding restricted to the code points below 256.\<close>

fun utf8_latin1 :: "nat list \<Rightarrow> string option" where
  "utf8_latin1 [] = Some []"
| "utf8_latin1 (b # bs) =
     (if b < 128 then map_option (Cons (char_of b)) (utf8_latin1 bs)
      else if b = 194 \<or> b = 195 then
        (case bs of
           c # r \<Rightarrow> if 128 \<le> c \<and> c < 192
             then map_option (Cons (char_of ((b - 192) * 64 + (c - 128)))) (utf8_latin1 r)
             else None
         | [] \<Rightarrow> None)
      else None)"

definition decodeURIComponent :: "string \<Rightarrow> string option" where
  "decodeURIComponent s = (case unescape s of None \<Rightarrow> None | Some bs \<Rightarrow> utf8_latin1 bs)"

lemma code_hex_digit: "n < 16 \<Longrightarrow> code (hex_digit n) = (if n < 10 then 48 + n else 55 + n)"
  by (simp add: hex_digit_def)

lemma hex_val_hex_digit [simp]: "n < 16 \<Longrightarrow> hex_val (hex_digit n) = Some n"
  by (simp add: hex_val_def code_hex_digit is_digit_def)

lemma hex_digit_alnum: "n < 16 \<Longrightarrow> is_alnum (hex_digit n)"
  by (simp add: is_alnum_def is_digit_def code_hex_digit)

lemma unescape_percent_byte:
  "b < 256 \<Longrightarrow> unescape (percent_byte b @ s) = map_option (Cons b) (unescape s)"
  by (cases "unescape s") (simp_all add: percent_byte_def)

lemma utf8_two_bytes:
  "128 \<le> n \<Longrightarrow> n < 256 \<Longrightarrow>
     utf8_latin1 ((192 + n div 64) # (128 + n mod 64) # bs) = map_option (Cons (char_of n)) (utf8_latin1 bs)"
proof -
  assume n: "128 \<le> n" "n < 256"
  then have "n div 64 = 2 \<or> n div 64 = 3" by auto
  moreover have "n div 64 * 64 + n mod 64 = n" by simp
  ultimately show ?thesis by auto
qed

lemma utf8_byte_bounds: "192 + code c div 64 < 256" "128 + code c mod 64 < 256"
proof -
  have "code c div 64 \<le> 255 div 64" using code_less [of c] by (intro div_le_mono) simp
  then show "192 + code c div 64 < 256" by simp
  have "code c mod 64 < 64" by simp
  then show "128 + code c mod 64 < 256" by linarith
qed

lemma unreserved_code: "uri_unreserved c \<Longrightarrow> c \<noteq> CHR ''%'' \<and> code c < 128"
  by (auto simp: uri_unreserved_def is_alnum_def is_digit_def code_def)

lemma decode_encode_char:
  "decodeURIComponent (encode_char c @ s) = map_option (Cons c) (decodeURIComponent s)"
proof (cases "uri_unreserved c")
  case True
  with unreserved_code [OF True] show ?thesis
    by (cases "unescape s") (simp_all add: encode_char_def decodeURIComponent_def)
next
  case False
  show ?thesis
  proof (cases "code c < 128")
    case True
    then show ?thesis
      by (cases "unescape s")
        (simp_all add: encode_char_def False percent_char_def decodeURIComponent_def unescape_percent_byte)
  next
    case high: False
    show ?thesis
      using high code_less [of c] utf8_byte_bounds [of c]
      by (cases "unescape s")
        (simp_all add: encode_char_def False percent_char_def decodeURIComponent_def
          unescape_percent_byte utf8_two_bytes del: utf8_latin1.simps)
  qed
qed

lemma decode_encode_append:
  "decodeURIComponent (encodeURIComponent s @ t) = map_option (append s) (decodeURIComponent t)"
proof (induction s)
  case (Cons c s)
  then show ?case
    by (cases "decodeURIComponent t")
      (simp_all add: encodeURIComponent_def decode_encode_char)
qed (simp add: encodeURIComponent_def option.map_id0 [unfolded id_def] option.map_ident)

lemma decode_Nil [simp]: "decodeURIComponent [] = Some []"
  by (simp add: decodeURIComponent_def)

interpretation uri: codec encodeURIComponent decodeURIComponent "\<lambda>_. True"
  using decode_encode_append [where t = "[]"] by unfold_locales simp

text \<open>Plain ASCII text without a percent sign decodes to itself.\<close>

definition plain_ascii :: "string \<Rightarrow> bool" where
  "plain_ascii s \<longleftrightarrow> list_all (\<lambda>c. c \<noteq> CHR ''%'' \<and> code c < 128) s"

lemma decode_plain: "plain_ascii s \<Longrightarrow> decodeURIComponent s = Some s"
proof (induction s)
  case (Cons c s)
  then show ?case
    by (cases "unescape s") (simp_all add: plain_ascii_def decodeURIComponent_def)
qed simp

text \<open>No delimiter survives encoding.\<close>

definition is_url_safe :: "string \<Rightarrow> bool" where
  "is_url_safe s \<longleftrightarrow> (\<forall>c \<in> set s. uri_unreserved c \<or> c = CHR ''%'')"

lemma percent_byte_safe:
  "n < 256 \<Longrightarrow> d \<in> set (percent_byte n) \<Longrightarrow> uri_unreserved d \<or> d = CHR ''%''"
  using hex_digit_alnum [of "n div 16"] hex_digit_alnum [of "n mod 16"]
  by (auto simp: percent_byte_def uri_unreserved_def less_mult_imp_div_less)

lemma encode_char_safe:
  assumes "d \<in> set (encode_char c)"
  shows "uri_unreserved d \<or> d = CHR ''%''"
proof -
  consider "uri_unreserved c" "d = c" | "d \<in> set (percent_byte (code c))"
    | "d \<in> set (percent_byte (192 + code c div 64))" | "d \<in> set (percent_byte (128 + code c mod 64))"
    using assms unfolding encode_char_def percent_char_def by (auto split: if_splits)
  then show ?thesis
    using percent_byte_safe code_less utf8_byte_bounds by cases blast+
qed

lemma encode_safe: "is_url_safe (encodeURIComponent s)"
  by (auto simp: is_url_safe_def encodeURIComponent_def dest: encode_char_safe)

lemma delims_reserved: "c \<in> set ''/?&=#+ '' \<Longrightarrow> \<not> uri_unreserved c \<and> c \<noteq> CHR ''%''"
  by (auto simp: uri_unreserved_def is_alnum_def is_digit_def code_def)

lemma safe_no_delims: "is_url_safe s \<Longrightarrow> c \<in> set ''/?&=#+ '' \<Longrightarrow> c \<notin> set s"
  using delims_reserved unfolding is_url_safe_def by blast

lemma encode_no_delims:
  "CHR ''/'' \<notin> set (encodeURIComponent s)" "CHR ''?'' \<notin> set (encodeURIComponent s)"
  "CHR ''&'' \<notin> set (encodeURIComponent s)" "CHR ''='' \<notin> set (encodeURIComponent s)"
  "CHR ''#'' \<notin> set (encodeURIComponent s)" "CHR ''+'' \<notin> set (encodeURIComponent s)"
  using safe_no_delims [OF encode_safe] by simp_all

section \<open>Form encoding\<close>

text \<open>One name or value of \<open>URLSearchParams.toString\<close>: a space is a plus sign, and only
  letters, digits and four marks are left alone.\<close>

definition form_encode :: "string \<Rightarrow> string" where
  "form_encode s = concat (map (\<lambda>c.
     if c = CHR '' '' then ''+''
     else if is_alnum c \<or> c \<in> set ''*-._'' then [c] else percent_char c) s)"

definition search_params_string :: "(string \<times> string) list \<Rightarrow> string" where
  "search_params_string ps = join ''&'' (map (\<lambda>(k, v). form_encode k @ ''='' @ form_encode v) ps)"

text \<open>Reading: plus signs are spaces.\<close>

definition form_decode :: "string \<Rightarrow> string option" where
  "form_decode s = decodeURIComponent (map (\<lambda>c. if c = CHR ''+'' then CHR '' '' else c) s)"

section \<open>How a server reads a request target\<close>

definition url_path :: "string \<Rightarrow> string" where
  "url_path u = takeWhile (\<lambda>c. c \<noteq> CHR ''?'') u"

definition url_query :: "string \<Rightarrow> string" where
  "url_query u = drop 1 (dropWhile (\<lambda>c. c \<noteq> CHR ''?'') u)"

text \<open>The decoded segments between the slashes of the path.\<close>

definition path_segments :: "string \<Rightarrow> string option list" where
  "path_segments u = map decodeURIComponent (tl (split_on (CHR ''/'') (url_path u)))"

text \<open>One parameter: the text before the first equals sign names it.\<close>

definition split_param :: "string \<Rightarrow> string \<times> string" where
  "split_param p = (takeWhile (\<lambda>c. c \<noteq> CHR ''='') p, drop 1 (dropWhile (\<lambda>c. c \<noteq> CHR ''='') p))"

text \<open>The decoded parameters of the query; an empty piece between two ampersands is none.\<close>

definition query_params :: "string \<Rightarrow> (string option \<times> string option) list" where
  "query_params u =
     map (\<lambda>p. let (k, v) = split_param p in (form_decode k, form_decode v))
       (filter (\<lambda>p. p \<noteq> []) (split_on (CHR ''&'') (url_query u)))"

lemma url_path_plain: "CHR ''?'' \<notin> set p \<Longrightarrow> url_path p = p"
  by (simp add: url_path_def while_neq)

lemma url_path_query: "CHR ''?'' \<notin> set p \<Longrightarrow> url_path (p @ CHR ''?'' # q) = p"
  by (simp add: url_path_def while_neq)

lemma url_query_plain: "CHR ''?'' \<notin> set p \<Longrightarrow> url_query p = []"
  by (simp add: url_query_def while_neq)

lemma url_query_query: "CHR ''?'' \<notin> set p \<Longrightarrow> url_query (p @ CHR ''?'' # q) = q"
  by (simp add: url_query_def while_neq)

lemma split_on_snoc_append: "split_on c (s @ c # t) = split_on c s @ split_on c t"
  by (induction s) (auto simp: neq_Nil_conv split: list.splits)

text \<open>Appending one encoded parameter to a request target appends it to the decoded query and
  leaves the path alone, whether or not there was a query.\<close>

definition append_param :: "string \<Rightarrow> string \<Rightarrow> string \<Rightarrow> string" where
  "append_param u k v =
     u @ (if CHR ''?'' \<in> set u then ''&'' else ''?'') @ k @ ''='' @ encodeURIComponent v"

lemma form_decode_no_plus: "CHR ''+'' \<notin> set s \<Longrightarrow> form_decode s = decodeURIComponent s"
proof -
  assume "CHR ''+'' \<notin> set s"
  then have "map (\<lambda>c. if c = CHR ''+'' then CHR '' '' else c) s = s"
    by (induction s) auto
  then show ?thesis by (simp add: form_decode_def)
qed

lemma form_decode_encode_uri [simp]: "form_decode (encodeURIComponent s) = Some s"
  by (simp add: form_decode_no_plus encode_no_delims uri.parse_print)

lemma split_param_plain: "CHR ''='' \<notin> set k \<Longrightarrow> split_param (k @ CHR ''='' # v) = (k, v)"
  by (simp add: split_param_def while_neq)

lemma url_query_append: "CHR ''?'' \<in> set u \<Longrightarrow> url_query (u @ q) = url_query u @ q"
proof -
  assume q: "CHR ''?'' \<in> set u"
  then have "dropWhile (\<lambda>c. c \<noteq> CHR ''?'') u \<noteq> []" by (auto simp: dropWhile_eq_Nil_conv)
  with q show ?thesis
    by (cases "dropWhile (\<lambda>c. c \<noteq> CHR ''?'') u") (simp_all add: url_query_def dropWhile_append1)
qed

lemma url_path_append: "CHR ''?'' \<in> set u \<Longrightarrow> url_path (u @ q) = url_path u"
  by (simp add: url_path_def takeWhile_append1)

lemma url_path_append_param: "url_path (append_param u k v) = url_path u"
  by (simp add: append_param_def url_path_append url_path_query url_path_plain)

lemma query_params_append_param:
  assumes k: "CHR ''='' \<notin> set k" "CHR ''&'' \<notin> set k" "form_decode k = Some k"
  shows "query_params (append_param u k v) = query_params u @ [(Some k, Some v)]"
proof -
  let ?p = "k @ CHR ''='' # encodeURIComponent v"
  have p: "split_on (CHR ''&'') ?p = [?p]"
    using k encode_no_delims [of v] by (intro split_on_free) auto
  have sp: "split_param ?p = (k, encodeURIComponent v)" by (rule split_param_plain) (rule k)
  show ?thesis
  proof (cases "CHR ''?'' \<in> set u")
    case True
    then have "url_query (append_param u k v) = url_query u @ CHR ''&'' # ?p"
      by (simp add: append_param_def url_query_append)
    then show ?thesis by (simp add: query_params_def split_on_snoc_append p sp k)
  next
    case False
    then have "url_query (append_param u k v) = ?p" and "url_query u = []"
      by (simp_all add: append_param_def url_query_query url_query_plain)
    then show ?thesis by (simp add: query_params_def p sp k)
  qed
qed

end
