(* ===== verification/ApiCore.thy ===== *)
theory ApiCore
  imports UrlCodec
begin

text \<open>
  The request layer of the dashboard, lines 1 to 305 of \<open>web/src/lib/api.ts\<close>: the base path,
  the global management profile, \<open>fetchJSON\<close> with its two answers to a 401 (navigate to the
  login page, or reload the page once to pick up a fresh token), \<open>authedFetch\<close>, and the
  authentication of WebSocket URLs.

  The network is outside: a call is split into the request it sends and the reaction to the
  answer it gets. A \<open>tab\<close> is the browser state the reaction reads and writes; the
  navigations it performs are kept in \<open>tabEffects\<close>, oldest first.
\<close>

section \<open>Requests and responses\<close>

datatype form_value = FText string | FFile string string

datatype body = NoBody | JsonBody js | TextBody string | FormBody "(string \<times> form_value) list"

record request_init =
  initMethod :: "string option"
  initHeaders :: "(string \<times> string) list"
  initBody :: body
  initCredentials :: "string option"

definition no_init :: request_init where
  "no_init = \<lparr>initMethod = None, initHeaders = [], initBody = NoBody, initCredentials = None\<rparr>"

record http_request =
  reqUrl :: string
  reqMethod :: "string option"
  reqHeaders :: "(string \<times> string) list"
  reqBody :: body
  reqCredentials :: string

record response =
  respStatus :: nat
  respStatusText :: string
  respText :: "string option"
  respJson :: "js option"

definition resp_ok :: "response \<Rightarrow> bool" where
  "resp_ok r \<longleftrightarrow> 200 \<le> respStatus r \<and> respStatus r \<le> 299"

datatype outcome = Resolved js | Rejected string | NeverSettles

section \<open>The browser tab\<close>

text \<open>\<open>sessionStorage\<close> works, throws on every access (privacy mode), or throws on writes
  only (quota).\<close>

datatype storage_mode = StorageWorks | StorageBlocked | StorageFull

datatype nav = Reload | Assign string

record tab =
  managementProfile :: string
  sessionToken :: "string option"
  authRequired :: bool
  storageMode :: storage_mode
  sessionItems :: "(string \<times> string) list"
  tabLocation :: string
  tabEffects :: "nav list"

definition session_get :: "tab \<Rightarrow> string \<Rightarrow> string option option" where
  "session_get t k = (if storageMode t = StorageBlocked then None else Some (map_of (sessionItems t) k))"

definition session_set :: "string \<Rightarrow> string \<Rightarrow> tab \<Rightarrow> tab" where
  "session_set k v t =
     (if storageMode t = StorageWorks then t\<lparr>sessionItems := obj_set k v (sessionItems t)\<rparr> else t)"

definition session_remove :: "string \<Rightarrow> tab \<Rightarrow> tab" where
  "session_remove k t =
     (if storageMode t = StorageBlocked then t else t\<lparr>sessionItems := obj_del k (sessionItems t)\<rparr>)"

definition navigate :: "nav \<Rightarrow> tab \<Rightarrow> tab" where
  "navigate n t = t\<lparr>tabEffects := tabEffects t @ [n]\<rparr>"

section \<open>Base path and management profile\<close>

definition strip_trailing_slashes :: "string \<Rightarrow> string" where
  "strip_trailing_slashes s = rev (dropWhile (\<lambda>c. c = CHR ''/'') (rev s))"

text \<open>\<open>readBasePath\<close>; \<open>None\<close> is a window without the injected global.\<close>

definition read_base_path :: "string option \<Rightarrow> string" where
  "read_base_path injected =
     (let raw = (case injected of None \<Rightarrow> [] | Some s \<Rightarrow> s)
      in if raw = [] then []
         else strip_trailing_slashes (if starts_with raw ''/'' then raw else CHR ''/'' # raw))"

definition SESSION_HEADER :: string where
  "SESSION_HEADER = ''X-Hermes-Session-Token''"

definition set_management_profile :: "string \<Rightarrow> tab \<Rightarrow> tab" where
  "set_management_profile name t = t\<lparr>managementProfile := trim name\<rparr>"

definition PROFILE_SCOPED_PREFIXES :: "string list" where
  "PROFILE_SCOPED_PREFIXES =
     [''/api/status'', ''/api/gateway'', ''/api/analytics'', ''/api/skills'', ''/api/tools/toolsets'',
      ''/api/config'', ''/api/env'', ''/api/mcp'', ''/api/messaging/platforms'',
      ''/api/messaging/telegram/onboarding'', ''/api/messaging/whatsapp/onboarding'',
      ''/api/model/info'', ''/api/model/set'', ''/api/model/auxiliary'', ''/api/model/moa'',
      ''/api/model/options'']"

definition with_management_profile :: "string \<Rightarrow> string \<Rightarrow> string" where
  "with_management_profile mp url =
     (if mp = [] then url
      else if str_includes url ''profile='' then url
      else if \<not> list_ex (\<lambda>p. starts_with (hd (split_on (CHR ''?'') url)) p) PROFILE_SCOPED_PREFIXES
      then url
      else url @ (if str_includes url ''?'' then ''&'' else ''?'') @ ''profile='' @ encodeURIComponent mp)"

definition profile_query :: "string option \<Rightarrow> string" where
  "profile_query p = (case p of None \<Rightarrow> []
     | Some s \<Rightarrow> if s = [] then [] else ''?profile='' @ encodeURIComponent s)"

definition append_profile_param :: "string \<Rightarrow> string \<Rightarrow> string" where
  "append_profile_param url p =
     (if p = [] \<or> str_includes url ''profile='' then url
      else url @ (if str_includes url ''?'' then ''&'' else ''?'') @ ''profile='' @ encodeURIComponent p)"

text \<open>A plugin key keeps its slashes: each segment is encoded on its own.\<close>

definition plugin_path :: "string \<Rightarrow> string" where
  "plugin_path name = join ''/'' (map encodeURIComponent (split_on (CHR ''/'') name))"

section \<open>Sending\<close>

text \<open>\<open>new Headers(init)\<close>: names are case-insensitive, repeated names are joined.\<close>

definition headers_append :: "string \<times> string \<Rightarrow> (string \<times> string) list \<Rightarrow> (string \<times> string) list" where
  "headers_append p hs =
     (let k = lower (fst p)
      in obj_set k (case map_of hs k of None \<Rightarrow> snd p | Some v \<Rightarrow> v @ '', '' @ snd p) hs)"

definition mk_headers :: "(string \<times> string) list \<Rightarrow> (string \<times> string) list" where
  "mk_headers ps = fold headers_append ps []"

definition set_session_header :: "string \<Rightarrow> (string \<times> string) list \<Rightarrow> (string \<times> string) list" where
  "set_session_header token hs =
     (if map_of hs (lower SESSION_HEADER) = None then obj_set (lower SESSION_HEADER) token hs else hs)"

definition auth_headers :: "tab \<Rightarrow> (string \<times> string) list \<Rightarrow> (string \<times> string) list" where
  "auth_headers t ps =
     (if truthy_str (sessionToken t) then set_session_header (the (sessionToken t)) (mk_headers ps)
      else mk_headers ps)"

text \<open>The request \<open>authedFetch\<close> sends.\<close>

definition authed_request :: "string \<Rightarrow> tab \<Rightarrow> string \<Rightarrow> request_init \<Rightarrow> http_request" where
  "authed_request base t url init =
     \<lparr>reqUrl = base @ url, reqMethod = initMethod init, reqHeaders = auth_headers t (initHeaders init),
      reqBody = initBody init,
      reqCredentials = (case initCredentials init of None \<Rightarrow> ''include'' | Some c \<Rightarrow> c)\<rparr>"

text \<open>The request \<open>fetchJSON\<close> sends: scoped to the management profile first.\<close>

definition fetch_json_request :: "string \<Rightarrow> tab \<Rightarrow> string \<Rightarrow> request_init \<Rightarrow> http_request" where
  "fetch_json_request base t url init =
     authed_request base t (with_management_profile (managementProfile t) url) init"

section \<open>Reacting to the answer\<close>

definition RELOAD_GUARD :: string where
  "RELOAD_GUARD = ''hermes.tokenReloadAttempted''"

definition LAST_LOCATION :: string where
  "LAST_LOCATION = ''hermes.lastLocation''"

definition http_error :: "response \<Rightarrow> string" where
  "http_error r = show_nat (respStatus r) @ '': ''
     @ (case respText r of None \<Rightarrow> respStatusText r | Some s \<Rightarrow> s)"

text \<open>The rest of \<open>fetchJSON\<close>, once a 401 has been dealt with.\<close>

definition settle_response :: "response \<Rightarrow> tab \<Rightarrow> outcome \<times> tab" where
  "settle_response r t =
     (if resp_ok r then
        (case respJson r of None \<Rightarrow> Rejected ''SyntaxError'' | Some v \<Rightarrow> Resolved v,
         session_remove RELOAD_GUARD t)
      else (Rejected (http_error r), t))"

text \<open>The structured envelope of an expired login: the page to go to.\<close>

definition login_redirect :: "js \<Rightarrow> string option" where
  "login_redirect b =
     (if (js_get b ''error'' = JStr ''unauthenticated'' \<or> js_get b ''error'' = JStr ''session_expired'')
         \<and> truthy (js_get b ''login_url'')
      then Some (js_string (js_get b ''login_url'')) else None)"

definition already_reloaded :: "tab \<Rightarrow> bool" where
  "already_reloaded t \<longleftrightarrow> session_get t RELOAD_GUARD = Some (Some ''1'')"

definition fetch_json_response :: "bool \<Rightarrow> response \<Rightarrow> tab \<Rightarrow> outcome \<times> tab" where
  "fetch_json_response allowUnauthorized r t =
     (if respStatus r \<noteq> 401 then settle_response r t
      else
        (let b = (case respJson r of None \<Rightarrow> JObj [] | Some v \<Rightarrow> v)
         in if b = JNull then (Rejected ''TypeError'', t)
            else (case login_redirect b of
                Some url \<Rightarrow> (NeverSettles, navigate (Assign url) (session_set LAST_LOCATION (tabLocation t) t))
              | None \<Rightarrow>
                  if \<not> authRequired t \<and> \<not> allowUnauthorized \<and> \<not> already_reloaded t
                  then (NeverSettles, navigate Reload (session_set RELOAD_GUARD ''1'' t))
                  else settle_response r t)))"

text \<open>\<open>fetch\<close> itself rejects on a network failure, before \<open>fetchJSON\<close> touches anything.\<close>

datatype fetch_result = FetchFailed string | Responded response

definition fetch_json_settle :: "bool \<Rightarrow> fetch_result \<Rightarrow> tab \<Rightarrow> outcome \<times> tab" where
  "fetch_json_settle allowUnauthorized fr t =
     (case fr of FetchFailed e \<Rightarrow> (Rejected e, t) | Responded r \<Rightarrow> fetch_json_response allowUnauthorized r t)"

section \<open>WebSocket authentication\<close>

definition ws_ticket_request :: "string \<Rightarrow> http_request" where
  "ws_ticket_request base =
     \<lparr>reqUrl = base @ ''/api/auth/ws-ticket'', reqMethod = Some ''POST'', reqHeaders = [],
      reqBody = NoBody, reqCredentials = ''include''\<rparr>"

definition ws_ticket_result :: "fetch_result \<Rightarrow> string + js" where
  "ws_ticket_result fr =
     (case fr of
        FetchFailed e \<Rightarrow> Inl e
      | Responded r \<Rightarrow>
          if \<not> resp_ok r then Inl (''/api/auth/ws-ticket: HTTP '' @ show_nat (respStatus r))
          else (case respJson r of None \<Rightarrow> Inl ''SyntaxError'' | Some v \<Rightarrow> Inr v))"

text \<open>\<open>buildWsAuthParam\<close>: the name and value of the parameter, given what the ticket request
  would answer. Destructuring \<open>null\<close> throws.\<close>

definition build_ws_auth_param :: "tab \<Rightarrow> fetch_result \<Rightarrow> string + (string \<times> js)" where
  "build_ws_auth_param t ticket =
     (if authRequired t then
        (case ws_ticket_result ticket of
           Inl e \<Rightarrow> Inl e
         | Inr v \<Rightarrow> if v = JNull then Inl ''TypeError'' else Inr (''ticket'', js_get v ''ticket''))
      else Inr (''token'', JStr (case sessionToken t of None \<Rightarrow> [] | Some s \<Rightarrow> s)))"

text \<open>\<open>buildWsUrl\<close>; \<open>ws_url\<close> is \<open>buildHermesWebSocketUrl\<close> of the package
  \<open>@hermes/shared\<close>.\<close>

definition build_ws_url ::
  "(string \<times> js \<Rightarrow> string \<Rightarrow> (string \<times> string) list \<Rightarrow> string \<Rightarrow> string) \<Rightarrow>
     string \<Rightarrow> tab \<Rightarrow> fetch_result \<Rightarrow> string \<Rightarrow> (string \<times> string) list \<Rightarrow> string + string" where
  "build_ws_url ws_url base t ticket path params =
     (case build_ws_auth_param t ticket of
        Inl e \<Rightarrow> Inl e
      | Inr auth \<Rightarrow> Inr (ws_url auth base params path))"

section \<open>Lemmas on URLs\<close>

lemma hd_split_on: "hd (split_on c u) = takeWhile (\<lambda>d. d \<noteq> c) u"
  by (induction u) (auto split: list.splits)

lemma str_includes_char: "str_includes u [c] \<longleftrightarrow> c \<in> set u"
  by (induction u) (auto simp: starts_with_def)

lemma str_includes_append: "str_includes (u @ p @ v) p"
  by (auto simp: str_includes_iff)

definition profile_scoped :: "string \<Rightarrow> bool" where
  "profile_scoped u \<longleftrightarrow> list_ex (starts_with (url_path u)) PROFILE_SCOPED_PREFIXES"

lemma profile_key: "CHR ''='' \<notin> set ''profile''" "CHR ''&'' \<notin> set ''profile''"
  "form_decode ''profile'' = Some ''profile''"
  by (simp, simp, code_simp)

lemma with_management_profile_alt:
  "with_management_profile mp u =
     (if mp \<noteq> [] \<and> \<not> str_includes u ''profile='' \<and> profile_scoped u
      then append_param u ''profile'' mp else u)"
  by (simp add: with_management_profile_def profile_scoped_def hd_split_on url_path_def append_param_def
      str_includes_char)

lemma append_profile_param_alt:
  "append_profile_param u p =
     (if p = [] \<or> str_includes u ''profile='' then u else append_param u ''profile'' p)"
  by (simp add: append_profile_param_def append_param_def str_includes_char)

text \<open>The decoded values of the \<open>profile\<close> parameters of a request target.\<close>

definition profile_values :: "string \<Rightarrow> string option list" where
  "profile_values u = map snd (filter (\<lambda>p. fst p = Some ''profile'') (query_params u))"

lemma profile_values_append_param:
  "profile_values (append_param u ''profile'' v) = profile_values u @ [Some v]"
  by (simp add: profile_values_def query_params_append_param profile_key)

lemma append_param_includes: "str_includes (append_param u ''profile'' v) ''profile=''"
  using str_includes_append [of "u @ (if CHR ''?'' \<in> set u then ''&'' else ''?'')" "''profile=''"]
  by (simp add: append_param_def)

section \<open>Which profile a request names\<close>

text \<open>The profile a management request names: a call with an explicit profile carries that
  profile and no other, whatever the global management profile is; a call without one carries the
  global profile exactly when its path is in a profile-scoped family. The path and the other
  parameters are left alone.\<close>

theorem explicit_profile_wins:
  assumes "\<not> str_includes u ''profile=''"
  shows "profile_values (with_management_profile mp (append_profile_param u p)) =
           profile_values u
           @ (if p \<noteq> [] then [Some p]
              else if mp \<noteq> [] \<and> profile_scoped u then [Some mp] else [])
         \<and> url_path (with_management_profile mp (append_profile_param u p)) = url_path u"
  using assms
  by (auto simp: with_management_profile_alt append_profile_param_alt profile_values_append_param
      append_param_includes url_path_append_param)

theorem explicit_profile_wins_witness:
  "profile_values (with_management_profile ''work'' (append_profile_param ''/api/config?x=1'' ''a&b''))
     = [Some ''a&b''] \<and>
   profile_values (with_management_profile ''work'' (append_profile_param ''/api/config?x=1'' []))
     = [Some ''work''] \<and>
   profile_values (with_management_profile ''work'' (append_profile_param ''/api/logs'' [])) = []"
proof -
  have a: "\<not> str_includes ''/api/config?x=1'' ''profile=''" "\<not> str_includes ''/api/logs'' ''profile=''"
    "profile_values ''/api/config?x=1'' = []" "profile_values ''/api/logs'' = []"
    "profile_scoped ''/api/config?x=1''" "\<not> profile_scoped ''/api/logs''"
    by code_simp+
  show ?thesis
    using explicit_profile_wins [OF a(1), of "''work''"] explicit_profile_wins [OF a(2), of "''work''"]
    by (simp add: a)
qed

section \<open>The one-shot reload\<close>

text \<open>What happens to a tab: the profile switcher, an answered request, a page load (a reload or a
  navigation that came back) with the token and the gate flag the server injected.\<close>

datatype tab_event =
    SwitchProfile string
  | Answered bool fetch_result
  | PageLoaded "string option" bool

fun tab_step :: "tab \<Rightarrow> tab_event \<Rightarrow> tab" where
  "tab_step t (SwitchProfile name) = set_management_profile name t"
| "tab_step t (Answered allow fr) = snd (fetch_json_settle allow fr t)"
| "tab_step t (PageLoaded token gated) =
     t\<lparr>managementProfile := [], sessionToken := token, authRequired := gated\<rparr>"

definition fresh_tab :: "storage_mode \<Rightarrow> string option \<Rightarrow> bool \<Rightarrow> string \<Rightarrow> tab" where
  "fresh_tab mode token gated loc =
     \<lparr>managementProfile = [], sessionToken = token, authRequired = gated, storageMode = mode,
      sessionItems = [], tabLocation = loc, tabEffects = []\<rparr>"

definition reloads :: "tab \<Rightarrow> nat" where
  "reloads t = length (filter (\<lambda>n. n = Reload) (tabEffects t))"

text \<open>The answers that prove the token valid.\<close>

fun is_success :: "tab_event \<Rightarrow> bool" where
  "is_success (Answered allow (Responded r)) = resp_ok r"
| "is_success _ = False"

lemma guard_not_location: "RELOAD_GUARD \<noteq> LAST_LOCATION"
  by (simp add: RELOAD_GUARD_def LAST_LOCATION_def)

named_theorems tab_simps \<open>what the primitive writes of a tab do to the guard and the effects\<close>

lemma tab_write_simps [tab_simps]:
  "storageMode (session_set k v t) = storageMode t"
  "storageMode (session_remove k t) = storageMode t"
  "storageMode (navigate n t) = storageMode t"
  "storageMode (set_management_profile p t) = storageMode t"
  "tabEffects (session_set k v t) = tabEffects t"
  "tabEffects (session_remove k t) = tabEffects t"
  "tabEffects (navigate n t) = tabEffects t @ [n]"
  "tabEffects (set_management_profile p t) = tabEffects t"
  by (simp_all add: session_set_def session_remove_def navigate_def set_management_profile_def)

lemma reloads_simps [tab_simps]:
  "reloads (session_set k v t) = reloads t"
  "reloads (session_remove k t) = reloads t"
  "reloads (navigate n t) = reloads t + of_bool (n = Reload)"
  "reloads (set_management_profile p t) = reloads t"
  by (simp_all add: reloads_def tab_write_simps)

lemma guard_simps [tab_simps]:
  "already_reloaded (navigate n t) = already_reloaded t"
  "already_reloaded (set_management_profile p t) = already_reloaded t"
  "already_reloaded (session_set LAST_LOCATION v t) = already_reloaded t"
  "storageMode t = StorageWorks \<Longrightarrow> already_reloaded (session_set RELOAD_GUARD ''1'' t)"
  "storageMode t = StorageWorks \<Longrightarrow> \<not> already_reloaded (session_remove RELOAD_GUARD t)"
  using guard_not_location
  by (auto simp: already_reloaded_def session_get_def session_set_def session_remove_def navigate_def
      set_management_profile_def)

text \<open>The three ways \<open>fetchJSON\<close> changes the tab.\<close>

lemma fetch_json_tab_cases:
  obtains "snd (fetch_json_settle allow fr t) = t" "\<not> is_success (Answered allow fr)"
  | "snd (fetch_json_settle allow fr t) = session_remove RELOAD_GUARD t" "is_success (Answered allow fr)"
  | url where "snd (fetch_json_settle allow fr t)
      = navigate (Assign url) (session_set LAST_LOCATION (tabLocation t) t)" "\<not> is_success (Answered allow fr)"
  | "snd (fetch_json_settle allow fr t) = navigate Reload (session_set RELOAD_GUARD ''1'' t)"
    "\<not> is_success (Answered allow fr)" "\<not> already_reloaded t" "\<not> authRequired t" "\<not> allow"
proof (cases fr)
  case (Responded r)
  note defs = Responded fetch_json_settle_def fetch_json_response_def settle_response_def
  show ?thesis
  proof (cases "respStatus r = 401")
    case False
    with that(1,2) show ?thesis by (cases "resp_ok r") (simp_all add: defs)
  next
    case True
    then have no: "\<not> resp_ok r" "\<not> is_success (Answered allow fr)" by (simp_all add: resp_ok_def defs)
    define b where "b = (case respJson r of None \<Rightarrow> JObj [] | Some v \<Rightarrow> v)"
    have eq: "snd (fetch_json_settle allow fr t) =
        (if b = JNull then t
         else (case login_redirect b of
             Some url \<Rightarrow> navigate (Assign url) (session_set LAST_LOCATION (tabLocation t) t)
           | None \<Rightarrow> if \<not> authRequired t \<and> \<not> allow \<and> \<not> already_reloaded t
               then navigate Reload (session_set RELOAD_GUARD ''1'' t) else t))"
      using True no by (simp add: defs b_def [symmetric] Let_def split: option.split)
    show ?thesis
    proof (cases "b = JNull")
      case False
      then show ?thesis
        using that no eq
        by (cases "login_redirect b"; cases "\<not> authRequired t \<and> \<not> allow \<and> \<not> already_reloaded t") auto
    qed (use that no eq in simp)
  qed
qed (use that in \<open>simp add: fetch_json_settle_def\<close>)

text \<open>With storage, a reload uses the guard up and only a success gives it back.\<close>

lemma tab_step_budget:
  "storageMode t = StorageWorks \<Longrightarrow>
     reloads (tab_step t e) + of_bool (already_reloaded t)
       \<le> reloads t + of_bool (is_success e) + of_bool (already_reloaded (tab_step t e))"
proof (cases e)
  case (Answered allow fr)
  assume "storageMode t = StorageWorks"
  with Answered show ?thesis
    by (cases rule: fetch_json_tab_cases [of allow fr t]) (simp_all add: tab_simps)
qed (simp_all add: tab_simps, simp add: reloads_def already_reloaded_def session_get_def)

lemma tab_step_storage [simp]: "storageMode (tab_step t e) = storageMode t"
proof (cases e)
  case (Answered allow fr)
  then show ?thesis
    by (cases rule: fetch_json_tab_cases [of allow fr t]) (simp_all add: tab_simps)
qed (simp_all add: tab_simps)

lemma tab_run_budget:
  "storageMode t = StorageWorks \<Longrightarrow>
     reloads (foldl tab_step t es) + of_bool (already_reloaded t)
       \<le> reloads t + length (filter is_success es) + of_bool (already_reloaded (foldl tab_step t es))"
proof (induction es arbitrary: t)
  case (Cons e es)
  have "storageMode (tab_step t e) = StorageWorks" using Cons.prems by simp
  note Cons.IH [OF this] tab_step_budget [OF Cons.prems, of e]
  then show ?case by (cases "is_success e") simp_all
qed simp

text \<open>Claim C4. A stale token never makes the page reload in a loop: over any sequence of requests,
  profile switches and page loads in a tab whose session storage works, the page reloads itself
  at most once more than the number of successful answers it has received.\<close>

theorem no_reload_loop:
  "reloads (foldl tab_step (fresh_tab StorageWorks token gated loc) es)
     \<le> length (filter is_success es) + 1"
proof -
  have "storageMode (fresh_tab StorageWorks token gated loc) = StorageWorks"
    and "reloads (fresh_tab StorageWorks token gated loc) = 0"
    by (simp_all add: fresh_tab_def reloads_def)
  from tab_run_budget [OF this(1), of es] this(2) show ?thesis
    by (cases "already_reloaded (foldl tab_step (fresh_tab StorageWorks token gated loc) es)") auto
qed

text \<open>The same tab in privacy mode has no guard: every 401 reloads it again.\<close>

definition plain_401 :: response where
  "plain_401 = \<lparr>respStatus = 401, respStatusText = ''Unauthorized'', respText = Some ''no'', respJson = None\<rparr>"

lemma step_blocked_401:
  "storageMode t = StorageBlocked \<Longrightarrow> \<not> authRequired t \<Longrightarrow>
     tab_step t (Answered False (Responded plain_401)) = navigate Reload t"
  by (simp add: fetch_json_settle_def fetch_json_response_def already_reloaded_def session_get_def
      session_set_def plain_401_def login_redirect_def)

theorem blocked_storage_reloads_forever:
  "reloads (foldl tab_step (fresh_tab StorageBlocked token False loc)
     (replicate n (Answered False (Responded plain_401)))) = n"
proof -
  have "storageMode t = StorageBlocked \<Longrightarrow> \<not> authRequired t \<Longrightarrow>
      reloads (foldl tab_step t (replicate n (Answered False (Responded plain_401)))) = reloads t + n" for t
  proof (induction n arbitrary: t)
    case (Suc n)
    have "storageMode (navigate Reload t) = StorageBlocked" "\<not> authRequired (navigate Reload t)"
      using Suc.prems by (simp_all add: navigate_def)
    from Suc.IH [OF this] show ?case
      using Suc.prems by (simp add: step_blocked_401 tab_simps del: tab_step.simps)
  qed simp
  then show ?thesis by (simp add: fresh_tab_def reloads_def)
qed

end
