(* ===== verification/ApiRoutes.thy ===== *)
theory ApiRoutes
  imports ApiCore
begin

text \<open>
  What the endpoints of \<open>web/src/lib/api.ts\<close> are checked against: a route is the decoded path
  segments and query parameters a server reads from a request target. \<open>print_route\<close> writes a
  route the way the template strings of the client do, \<open>reads\<close> says that a request target is
  read as a route, and the lemmas say when it is, also after the global management profile has
  been added.
\<close>

section \<open>Building a call\<close>

text \<open>The arguments of one call of \<open>fetchJSON\<close>: target and init.\<close>

type_synonym api_request = "string \<times> request_init"

definition JSON_HEADERS :: "(string \<times> string) list" where
  "JSON_HEADERS = [(''Content-Type'', ''application/json'')]"

text \<open>\<open>JSON.stringify\<close> drops undefined members and writes undefined elements as null.\<close>

fun json_clean :: "js \<Rightarrow> js" where
  "json_clean (JArr vs) = JArr (map (\<lambda>v. if v = JUndef then JNull else json_clean v) vs)"
| "json_clean (JObj ps) =
     JObj (map (\<lambda>p. (fst p, json_clean (snd p))) (filter (\<lambda>p. snd p \<noteq> JUndef) ps))"
| "json_clean v = v"

definition get_call :: "string \<Rightarrow> api_request" where
  "get_call u = (u, no_init)"

definition bare_call :: "string \<Rightarrow> string \<Rightarrow> api_request" where
  "bare_call m u = (u, no_init\<lparr>initMethod := Some m\<rparr>)"

definition json_call :: "string \<Rightarrow> string \<Rightarrow> js \<Rightarrow> api_request" where
  "json_call m u v = (u, no_init\<lparr>initMethod := Some m, initHeaders := JSON_HEADERS,
     initBody := JsonBody (json_clean v)\<rparr>)"

definition form_call :: "string \<Rightarrow> string \<Rightarrow> (string \<times> form_value) list \<Rightarrow> api_request" where
  "form_call m u parts = (u, no_init\<lparr>initMethod := Some m, initBody := FormBody parts\<rparr>)"

text \<open>A defaulted parameter, an optional field, and \<open>profile || undefined\<close>.\<close>

definition or_default :: "'a option \<Rightarrow> 'a \<Rightarrow> 'a" where
  "or_default x d = (case x of None \<Rightarrow> d | Some v \<Rightarrow> v)"

definition opt_str :: "string option \<Rightarrow> js" where
  "opt_str x = (case x of None \<Rightarrow> JUndef | Some s \<Rightarrow> JStr s)"

definition str_or_undef :: "string \<Rightarrow> js" where
  "str_or_undef s = (if s = [] then JUndef else JStr s)"

definition profile_field :: "string option \<Rightarrow> js" where
  "profile_field p = str_or_undef (or_default p [])"

section \<open>Printing routes\<close>

definition print_path :: "string list \<Rightarrow> string" where
  "print_path segs = concat (map (\<lambda>s. CHR ''/'' # encodeURIComponent s) segs)"

fun print_params :: "(string \<times> string) list \<Rightarrow> string" where
  "print_params [] = []"
| "print_params [(k, v)] = encodeURIComponent k @ CHR ''='' # encodeURIComponent v"
| "print_params ((k, v) # ps) =
     encodeURIComponent k @ CHR ''='' # encodeURIComponent v @ CHR ''&'' # print_params ps"

definition print_route :: "string list \<Rightarrow> (string \<times> string) list \<Rightarrow> string" where
  "print_route segs ps = print_path segs @ (if ps = [] then [] else CHR ''?'' # print_params ps)"

lemma print_path_chars: "CHR ''?'' \<notin> set (print_path segs)" "CHR ''='' \<notin> set (print_path segs)"
  by (auto simp: print_path_def encode_no_delims)

lemma url_path_print_route: "url_path (print_route segs ps) = print_path segs"
  by (simp add: print_route_def url_path_plain url_path_query print_path_chars)

lemma print_params_not_Nil: "ps \<noteq> [] \<Longrightarrow> print_params ps \<noteq> []"
  by (induction ps rule: print_params.induct) auto

lemma split_on_segments:
  "split_on (CHR ''/'') (encodeURIComponent s @ print_path segs)
     = encodeURIComponent s # map encodeURIComponent segs"
proof (induction segs arbitrary: s)
  case Nil
  then show ?case by (simp add: print_path_def split_on_free encode_no_delims)
next
  case (Cons t segs)
  have "print_path (t # segs) = CHR ''/'' # encodeURIComponent t @ print_path segs"
    by (simp add: print_path_def)
  then show ?case by (simp add: split_on_append encode_no_delims Cons.IH)
qed

lemma path_segments_print_route:
  "segs \<noteq> [] \<Longrightarrow> path_segments (print_route segs ps) = map Some segs"
  by (cases segs)
    (simp_all add: path_segments_def url_path_print_route print_path_def [of "_ # _"]
      print_path_def [symmetric] split_on_segments uri.parse_print)

lemma split_params:
  "ps \<noteq> [] \<Longrightarrow> split_on (CHR ''&'') (print_params ps)
     = map (\<lambda>(k, v). encodeURIComponent k @ CHR ''='' # encodeURIComponent v) ps"
proof (induction ps rule: print_params.induct)
  case (2 k v)
  then show ?case by (auto simp: encode_no_delims intro!: split_on_free)
next
  case (3 k v p ps)
  have "split_on (CHR ''&'') ((encodeURIComponent k @ CHR ''='' # encodeURIComponent v)
          @ CHR ''&'' # print_params (p # ps))
      = (encodeURIComponent k @ CHR ''='' # encodeURIComponent v)
          # split_on (CHR ''&'') (print_params (p # ps))"
    by (rule split_on_append) (simp add: encode_no_delims)
  with 3 show ?case by simp
qed simp

lemma query_params_print_route:
  "query_params (print_route segs ps) = map (\<lambda>(k, v). (Some k, Some v)) ps"
proof (cases "ps = []")
  case True
  then show ?thesis by (simp add: query_params_def print_route_def url_query_plain print_path_chars)
next
  case False
  then have "url_query (print_route segs ps) = print_params ps"
    by (simp add: print_route_def url_query_query print_path_chars)
  with False show ?thesis
    by (auto simp: query_params_def split_params filter_map o_def split_param_plain encode_no_delims
        case_prod_unfold)
qed

section \<open>When a target contains a profile parameter\<close>

lemma prefix_of_same_key:
  "c \<notin> set a \<Longrightarrow> c \<notin> set p \<Longrightarrow>
     str_includes (a @ c # b) (p @ [c]) \<longleftrightarrow> ends_with a p \<or> str_includes b (p @ [c])"
proof
  assume c: "c \<notin> set a" "c \<notin> set p" and "str_includes (a @ c # b) (p @ [c])"
  then obtain x y where eq: "a @ c # b = x @ p @ c # y" by (auto simp: str_includes_iff)
  show "ends_with a p \<or> str_includes b (p @ [c])"
  proof (cases "c \<in> set x")
    case True
    then obtain x1 x2 where x: "x = x1 @ c # x2" "c \<notin> set x1" by (meson split_list_first)
    have "takeWhile (\<lambda>d. d \<noteq> c) (a @ c # b) = takeWhile (\<lambda>d. d \<noteq> c) (x1 @ c # x2 @ p @ c # y)"
      using eq x by simp
    then have "a = x1" using c x by (simp add: while_neq)
    with eq x have "b = x2 @ (p @ [c]) @ y" by simp
    then show ?thesis by (auto simp: str_includes_iff)
  next
    case False
    then have "takeWhile (\<lambda>d. d \<noteq> c) ((x @ p) @ c # y) = x @ p"
      using c by (intro takeWhile_neq_append) simp
    moreover have "takeWhile (\<lambda>d. d \<noteq> c) (a @ c # b) = a" using c by (simp add: while_neq)
    ultimately have "a = x @ p" using eq by simp
    then show ?thesis by (auto simp: ends_with_iff)
  qed
next
  assume "ends_with a p \<or> str_includes b (p @ [c])"
  then show "str_includes (a @ c # b) (p @ [c])"
  proof
    assume "ends_with a p"
    then obtain t where "a = t @ p" by (auto simp: ends_with_iff)
    then have "a @ c # b = t @ (p @ [c]) @ b" by simp
    then show ?thesis unfolding str_includes_iff by blast
  next
    assume "str_includes b (p @ [c])"
    then show ?thesis using str_includes_append_left [of b "p @ [c]" "a @ [c]"] by simp
  qed
qed

text \<open>Parameters printed one after the other, each behind its delimiter.\<close>

fun params_from :: "(string \<Rightarrow> string) \<Rightarrow> string \<Rightarrow> (string \<times> string) list \<Rightarrow> string" where
  "params_from enc pre [] = pre"
| "params_from enc pre ((k, v) # ps) =
     (if ps = [] then pre @ enc k @ CHR ''='' # enc v
      else pre @ enc k @ CHR ''='' # params_from enc (enc v @ ''&'') ps)"

lemma profile_not_included: "CHR ''='' \<notin> set u \<Longrightarrow> \<not> str_includes u ''profile=''"
  by (auto simp: str_includes_iff)

lemma params_from_includes:
  assumes enc: "\<And>s. CHR ''='' \<notin> set (enc s)"
  shows "CHR ''='' \<notin> set s \<Longrightarrow> d \<notin> set ''profile='' \<Longrightarrow>
    str_includes (params_from enc (s @ [d]) ps) ''profile=''
      \<longleftrightarrow> (\<exists>k \<in> fst ` set ps. ends_with (enc k) ''profile'')"
proof (induction ps arbitrary: s d)
  case Nil
  then show ?case by (auto simp: profile_not_included)
next
  case (Cons p ps)
  obtain k v where p: "p = (k, v)" by (cases p)
  let ?b = "if ps = [] then enc v else params_from enc (enc v @ ''&'') ps"
  have "params_from enc (s @ [d]) (p # ps) = (s @ d # enc k) @ CHR ''='' # ?b" by (simp add: p)
  moreover have "str_includes ((s @ d # enc k) @ CHR ''='' # ?b) (''profile'' @ [CHR ''='']) \<longleftrightarrow>
      ends_with (s @ d # enc k) ''profile'' \<or> str_includes ?b (''profile'' @ [CHR ''=''])"
    using Cons.prems enc [of k] by (intro prefix_of_same_key) auto
  moreover have "ends_with (s @ d # enc k) ''profile'' \<longleftrightarrow> ends_with (enc k) ''profile''"
    using Cons.prems by (intro ends_with_after) auto
  moreover have "str_includes ?b ''profile='' \<longleftrightarrow> (\<exists>k \<in> fst ` set ps. ends_with (enc k) ''profile'')"
    using Cons.IH [of "enc v" "CHR ''&''"] enc [of v] by (cases "ps = []") (simp_all add: profile_not_included)
  ultimately show ?case by (simp add: p del: params_from.simps)
qed

lemma params_from_print:
  "ps \<noteq> [] \<Longrightarrow> params_from encodeURIComponent pre ps = pre @ print_params ps"
proof (induction ps arbitrary: pre rule: print_params.induct)
  case (3 k v p ps)
  then show ?case by (cases p) simp
qed auto

lemma print_route_includes:
  "str_includes (print_route segs ps) ''profile=''
     \<longleftrightarrow> (\<exists>k \<in> fst ` set ps. ends_with (encodeURIComponent k) ''profile'')"
proof (cases "ps = []")
  case False
  have "print_route segs ps = params_from encodeURIComponent (print_path segs @ ''?'') ps"
    using False by (simp add: print_route_def params_from_print)
  then show ?thesis
    using params_from_includes [of encodeURIComponent "print_path segs" "CHR ''?''" ps]
    by (simp add: encode_no_delims print_path_chars)
qed (simp add: print_route_def profile_not_included print_path_chars)

section \<open>Reading a target as a route\<close>

text \<open>A target is read as a path and a list of parameters. The last conjunct is the test the
  client makes for an explicit profile.\<close>

definition reads :: "string \<Rightarrow> string list \<Rightarrow> (string \<times> string) list \<Rightarrow> bool" where
  "reads u segs ps \<longleftrightarrow>
     url_path u = print_path segs \<and> path_segments u = map Some segs
     \<and> query_params u = map (\<lambda>(k, v). (Some k, Some v)) ps
     \<and> (str_includes u ''profile='' \<longleftrightarrow> ''profile'' \<in> fst ` set ps)"

text \<open>Only the parameter named \<open>profile\<close> ends that way.\<close>

definition plain_keys :: "(string \<times> string) list \<Rightarrow> bool" where
  "plain_keys ps \<longleftrightarrow>
     list_all (\<lambda>p. ends_with (encodeURIComponent (fst p)) ''profile'' \<longleftrightarrow> fst p = ''profile'') ps"

lemma reads_print_route:
  "segs \<noteq> [] \<Longrightarrow> plain_keys ps \<Longrightarrow> reads (print_route segs ps) segs ps"
  unfolding reads_def plain_keys_def
  by (auto simp: url_path_print_route path_segments_print_route query_params_print_route
      print_route_includes list_all_iff) force

definition path_scoped :: "string list \<Rightarrow> bool" where
  "path_scoped segs \<longleftrightarrow> list_ex (starts_with (print_path segs)) PROFILE_SCOPED_PREFIXES"

text \<open>The parameters after the global management profile has been added.\<close>

definition scope_params :: "string \<Rightarrow> string list \<Rightarrow> (string \<times> string) list \<Rightarrow> (string \<times> string) list" where
  "scope_params mp segs ps =
     (if mp \<noteq> [] \<and> ''profile'' \<notin> fst ` set ps \<and> path_scoped segs then ps @ [(''profile'', mp)] else ps)"

lemma path_segments_cong: "url_path u = url_path v \<Longrightarrow> path_segments u = path_segments v"
  by (simp add: path_segments_def)

lemma reads_append_profile:
  "reads u segs ps \<Longrightarrow> ''profile'' \<notin> fst ` set ps \<Longrightarrow>
     reads (append_param u ''profile'' v) segs (ps @ [(''profile'', v)])"
  using path_segments_cong [OF url_path_append_param, of u "''profile''" v]
  by (auto simp: reads_def url_path_append_param query_params_append_param profile_key
      append_param_includes)

lemma reads_with_management_profile:
  "reads u segs ps \<Longrightarrow> reads (with_management_profile mp u) segs (scope_params mp segs ps)"
  using reads_append_profile [of u segs ps mp]
  by (auto simp: with_management_profile_alt scope_params_def profile_scoped_def path_scoped_def reads_def)

definition add_profile :: "string \<Rightarrow> (string \<times> string) list \<Rightarrow> (string \<times> string) list" where
  "add_profile p ps = (if p = [] \<or> ''profile'' \<in> fst ` set ps then ps else ps @ [(''profile'', p)])"

lemma reads_append_profile_param:
  "reads u segs ps \<Longrightarrow> reads (append_profile_param u p) segs (add_profile p ps)"
  using reads_append_profile [of u segs ps p]
  by (auto simp: append_profile_param_alt add_profile_def reads_def)

section \<open>Targets built with URLSearchParams\<close>

definition plus_to_space :: "string \<Rightarrow> string" where
  "plus_to_space s = map (\<lambda>c. if c = CHR ''+'' then CHR '' '' else c) s"

definition form_encode_char :: "char \<Rightarrow> string" where
  "form_encode_char c =
     (if c = CHR '' '' then ''+''
      else if is_alnum c \<or> c \<in> set ''*-._'' then [c] else percent_char c)"

lemma form_encode_alt: "form_encode s = concat (map form_encode_char s)"
  by (simp add: form_encode_def form_encode_char_def [abs_def])

lemma not_alnum_delims: "c \<in> set ''&=?+%'' \<Longrightarrow> \<not> is_alnum c"
  by (auto simp: is_alnum_def is_digit_def code_def)

lemma percent_char_delims: "d \<in> set (percent_char c) \<Longrightarrow> d \<notin> set ''&=?+ ''"
proof -
  assume "d \<in> set (percent_char c)"
  then consider "d \<in> set (percent_byte (code c))"
    | "d \<in> set (percent_byte (192 + code c div 64))" | "d \<in> set (percent_byte (128 + code c mod 64))"
    unfolding percent_char_def by (auto split: if_splits)
  then have "uri_unreserved d \<or> d = CHR ''%''"
    using percent_byte_safe code_less utf8_byte_bounds by cases blast+
  then show ?thesis using delims_reserved [of d] by auto
qed

lemma form_encode_char_delims: "d \<in> set (form_encode_char c) \<Longrightarrow> d \<notin> set ''&=?''"
  using percent_char_delims [of d c] not_alnum_delims [of d]
  by (auto simp: form_encode_char_def split: if_splits)

lemma form_encode_no_delims:
  "CHR ''&'' \<notin> set (form_encode s)" "CHR ''='' \<notin> set (form_encode s)" "CHR ''?'' \<notin> set (form_encode s)"
  using form_encode_char_delims by (fastforce simp: form_encode_alt)+

lemma plus_to_space_id: "CHR ''+'' \<notin> set s \<Longrightarrow> plus_to_space s = s"
  by (induction s) (auto simp: plus_to_space_def)

lemma decode_percent_char:
  "\<not> uri_unreserved c \<Longrightarrow> decodeURIComponent (percent_char c @ s) = map_option (Cons c) (decodeURIComponent s)"
  using decode_encode_char [of c s] by (simp add: encode_char_def)

lemma decode_plain_char:
  "c \<noteq> CHR ''%'' \<Longrightarrow> code c < 128 \<Longrightarrow>
     decodeURIComponent (c # s) = map_option (Cons c) (decodeURIComponent s)"
  by (cases "unescape s") (simp_all add: decodeURIComponent_def)

lemma decode_percent_any:
  "decodeURIComponent (percent_char c @ s) = map_option (Cons c) (decodeURIComponent s)"
proof (cases "code c < 128")
  case True
  then show ?thesis
    by (cases "unescape s") (simp_all add: percent_char_def decodeURIComponent_def unescape_percent_byte)
next
  case False
  then show ?thesis using decode_percent_char [of c s] unreserved_code [of c] by blast
qed

lemma form_decode_char:
  "decodeURIComponent (plus_to_space (form_encode_char c) @ s) = map_option (Cons c) (decodeURIComponent s)"
proof -
  consider "c = CHR '' ''" | "c \<noteq> CHR '' ''" "is_alnum c \<or> c \<in> set ''*-._''"
    | "c \<noteq> CHR '' ''" "\<not> (is_alnum c \<or> c \<in> set ''*-._'')" by blast
  then show ?thesis
  proof cases
    case 1
    then show ?thesis by (simp add: form_encode_char_def plus_to_space_def decode_plain_char code_def)
  next
    case 2
    then have "code c < 128 \<and> c \<noteq> CHR ''%'' \<and> c \<noteq> CHR ''+''"
      by (auto simp: is_alnum_def is_digit_def code_def)
    with 2 show ?thesis by (auto simp: form_encode_char_def plus_to_space_def decode_plain_char)
  next
    case 3
    have "CHR ''+'' \<notin> set (percent_char c)" using percent_char_delims by fastforce
    with 3 show ?thesis by (simp add: form_encode_char_def plus_to_space_id decode_percent_any)
  qed
qed

lemma form_decode_encode: "form_decode (form_encode s) = Some s"
proof -
  have "decodeURIComponent (plus_to_space (form_encode s)) = Some s"
  proof (induction s)
    case (Cons c s)
    have "plus_to_space (form_encode (c # s)) = plus_to_space (form_encode_char c) @ plus_to_space (form_encode s)"
      by (simp add: form_encode_alt plus_to_space_def)
    with Cons show ?case by (simp add: form_decode_char)
  qed (simp add: form_encode_alt plus_to_space_def)
  then show ?thesis by (simp add: form_decode_def plus_to_space_def)
qed

interpretation form: codec form_encode form_decode "\<lambda>_. True"
  by unfold_locales (simp add: form_decode_encode)

lemma search_params_split:
  "split_on (CHR ''&'') (search_params_string ps) =
     (if ps = [] then [ [] ] else map (\<lambda>(k, v). form_encode k @ CHR ''='' # form_encode v) ps)"
proof (cases "ps = []")
  case False
  have "split_on (CHR ''&'') (join [CHR ''&''] (map (\<lambda>(k, v). form_encode k @ ''='' @ form_encode v) ps))
      = map (\<lambda>(k, v). form_encode k @ ''='' @ form_encode v) ps"
    using False by (intro split_on_join) (auto simp: form_encode_no_delims)
  with False show ?thesis by (simp add: search_params_string_def)
qed (simp add: search_params_string_def)

lemma params_from_search:
  "ps \<noteq> [] \<Longrightarrow> params_from form_encode pre ps = pre @ search_params_string ps"
proof (induction ps arbitrary: pre)
  case (Cons p ps)
  then show ?case by (cases p; cases ps) (auto simp: search_params_string_def)
qed simp

definition plain_form_keys :: "(string \<times> string) list \<Rightarrow> bool" where
  "plain_form_keys ps \<longleftrightarrow>
     list_all (\<lambda>p. ends_with (form_encode (fst p)) ''profile'' \<longleftrightarrow> fst p = ''profile'') ps"

lemma reads_search_params:
  assumes "segs \<noteq> []" and keys: "plain_form_keys ps"
  shows "reads (print_path segs @ CHR ''?'' # search_params_string ps) segs ps"
proof -
  let ?u = "print_path segs @ CHR ''?'' # search_params_string ps"
  have path: "url_path ?u = print_path segs" by (simp add: url_path_query print_path_chars)
  moreover from path have "path_segments ?u = map Some segs"
    using path_segments_print_route [OF assms(1), of "[]"] path_segments_cong [of ?u "print_route segs []"]
    by (simp add: url_path_print_route)
  moreover have "query_params ?u = map (\<lambda>(k, v). (Some k, Some v)) ps"
    by (auto simp: query_params_def url_query_query print_path_chars search_params_split filter_map o_def
        split_param_plain form_encode_no_delims form_decode_encode case_prod_unfold)
  moreover have "str_includes ?u ''profile='' \<longleftrightarrow> ''profile'' \<in> fst ` set ps"
  proof (cases "ps = []")
    case True
    then show ?thesis
      by (simp add: search_params_string_def profile_not_included print_path_chars)
  next
    case False
    then have "?u = params_from form_encode (print_path segs @ ''?'') ps" by (simp add: params_from_search)
    then have "str_includes ?u ''profile='' \<longleftrightarrow> (\<exists>k \<in> fst ` set ps. ends_with (form_encode k) ''profile'')"
      using params_from_includes [of form_encode "print_path segs" "CHR ''?''" ps]
      by (simp add: form_encode_no_delims print_path_chars)
    also have "\<dots> \<longleftrightarrow> ''profile'' \<in> fst ` set ps"
      using keys unfolding plain_form_keys_def list_all_iff by force
    finally show ?thesis .
  qed
  ultimately show ?thesis by (simp add: reads_def)
qed

end
