(* ===== verification/ApiClient.thy ===== *)
theory ApiClient
  imports ApiRoutes
begin

text \<open>
  The endpoints of the client object \<open>api\<close> in \<open>web/src/lib/api.ts\<close>, lines 307 to 701:
  sessions, files and logs, models, configuration and environment, cron jobs, and profiles. Each
  family is a datatype of its calls, the request each call makes (\<open>mp\<close> is
  \<open>getManagementProfile()\<close>, the default of most profile parameters; \<open>None\<close> is an omitted
  argument), and the route each call is meant for: path segments, query parameters, and the profile
  it adds. The lemma of a family says that the request is printed from the route.
\<close>

type_synonym route = "string list \<times> (string \<times> string) list \<times> string"

text \<open>The request target printed from a route.\<close>

definition route_target :: "route \<Rightarrow> string" where
  "route_target r = (case r of (segs, ps, p) \<Rightarrow> append_profile_param (print_route segs ps) p)"

definition opt_param :: "string \<Rightarrow> string \<Rightarrow> (string \<times> string) list" where
  "opt_param k v = (if v = [] then [] else [(k, v)])"

named_theorems route_simps \<open>evaluation of request targets against printed routes\<close>

lemma encode_plain: "list_all uri_unreserved s \<Longrightarrow> encodeURIComponent s = s"
  by (induction s) (simp_all add: encodeURIComponent_def encode_char_def)

lemma encode_show_nat [route_simps]: "encodeURIComponent (show_nat n) = show_nat n"
  by (rule encode_plain) (auto simp: list_all_iff uri_unreserved_def is_alnum_def dest: show_nat_digits)

lemma encode_show_int [route_simps]: "encodeURIComponent (show_int i) = show_int i"
proof (cases "i < 0")
  case True
  have "encodeURIComponent (CHR ''-'' # s) = CHR ''-'' # encodeURIComponent s" for s
    by (simp add: encodeURIComponent_def encode_char_def uri_unreserved_def)
  with True show ?thesis by (simp add: show_int_def encode_show_nat)
qed (simp add: show_int_def encode_show_nat)

lemma print_path_simps [route_simps]:
  "print_path [] = []"
  "print_path (s # segs) = CHR ''/'' # encodeURIComponent s @ print_path segs"
  by (simp_all add: print_path_def)

lemma append_profile_none [route_simps]: "append_profile_param u [] = u"
  by (simp add: append_profile_param_def)

lemmas [route_simps] = print_route_def route_target_def opt_param_def get_call_def bare_call_def
  json_call_def form_call_def

section \<open>Sessions\<close>

datatype session_order = OrderCreated | OrderRecent

primrec order_text :: "session_order \<Rightarrow> string" where
  "order_text OrderCreated = ''created''"
| "order_text OrderRecent = ''recent''"

datatype session_call =
    GetSessions "int option" "int option" "string option" "session_order option"
  | GetSessionMessages string "string option"
  | GetSessionDetail string "string option"
  | GetSessionLatestDescendant string "string option"
  | DeleteSession string "string option"
  | GetEmptySessionsCount "string option"
  | DeleteEmptySessions "string option"
  | BulkDeleteSessions "string list" "string option"
  | RenameSession string string "string option"
  | GetSessionStats "string option"
  | ImportSessions "js list" "string option"
  | PruneSessions int "string option" "string option"
  | SearchSessions string "string option"

primrec session_request :: "string \<Rightarrow> session_call \<Rightarrow> api_request" where
  "session_request mp (GetSessions limit offset profile order) =
     get_call (append_profile_param
       (''/api/sessions?limit='' @ show_int (or_default limit 20)
        @ ''&offset='' @ show_int (or_default offset 0)
        @ ''&order='' @ order_text (or_default order OrderCreated))
       (or_default profile mp))"
| "session_request mp (GetSessionMessages sid profile) =
     get_call (append_profile_param
       (''/api/sessions/'' @ encodeURIComponent sid @ ''/messages'') (or_default profile mp))"
| "session_request mp (GetSessionDetail sid profile) =
     get_call (append_profile_param (''/api/sessions/'' @ encodeURIComponent sid) (or_default profile mp))"
| "session_request mp (GetSessionLatestDescendant sid profile) =
     get_call (append_profile_param
       (''/api/sessions/'' @ encodeURIComponent sid @ ''/latest-descendant'') (or_default profile mp))"
| "session_request mp (DeleteSession sid profile) =
     bare_call ''DELETE''
       (append_profile_param (''/api/sessions/'' @ encodeURIComponent sid) (or_default profile mp))"
| "session_request mp (GetEmptySessionsCount profile) =
     get_call (append_profile_param ''/api/sessions/empty/count'' (or_default profile mp))"
| "session_request mp (DeleteEmptySessions profile) =
     bare_call ''DELETE'' (append_profile_param ''/api/sessions/empty'' (or_default profile mp))"
| "session_request mp (BulkDeleteSessions ids profile) =
     json_call ''POST'' ''/api/sessions/bulk-delete''
       (JObj [(''ids'', JArr (map JStr ids)), (''profile'', str_or_undef (or_default profile mp))])"
| "session_request mp (RenameSession sid title profile) =
     json_call ''PATCH'' (''/api/sessions/'' @ encodeURIComponent sid)
       (JObj [(''title'', JStr title), (''profile'', str_or_undef (or_default profile mp))])"
| "session_request mp (GetSessionStats profile) =
     get_call (append_profile_param ''/api/sessions/stats'' (or_default profile mp))"
| "session_request mp (ImportSessions sessions profile) =
     json_call ''POST'' ''/api/sessions/import''
       (JObj [(''sessions'', JArr sessions), (''profile'', str_or_undef (or_default profile mp))])"
| "session_request mp (PruneSessions older_than_days source profile) =
     json_call ''POST'' ''/api/sessions/prune''
       (JObj [(''older_than_days'', JNum older_than_days), (''source'', opt_str source),
              (''profile'', str_or_undef (or_default profile mp))])"
| "session_request mp (SearchSessions q profile) =
     get_call (append_profile_param
       (''/api/sessions/search?q='' @ encodeURIComponent q) (or_default profile mp))"

text \<open>\<open>exportSessionUrl\<close> gives a URL, not a call.\<close>

definition export_session_url :: "string \<Rightarrow> string \<Rightarrow> string option \<Rightarrow> string" where
  "export_session_url mp sid profile =
     append_profile_param (''/api/sessions/'' @ encodeURIComponent sid @ ''/export'') (or_default profile mp)"

primrec session_route :: "string \<Rightarrow> session_call \<Rightarrow> route" where
  "session_route mp (GetSessions limit offset profile order) =
     ([''api'', ''sessions''],
      [(''limit'', show_int (or_default limit 20)), (''offset'', show_int (or_default offset 0)),
       (''order'', order_text (or_default order OrderCreated))], or_default profile mp)"
| "session_route mp (GetSessionMessages sid profile) =
     ([''api'', ''sessions'', sid, ''messages''], [], or_default profile mp)"
| "session_route mp (GetSessionDetail sid profile) =
     ([''api'', ''sessions'', sid], [], or_default profile mp)"
| "session_route mp (GetSessionLatestDescendant sid profile) =
     ([''api'', ''sessions'', sid, ''latest-descendant''], [], or_default profile mp)"
| "session_route mp (DeleteSession sid profile) =
     ([''api'', ''sessions'', sid], [], or_default profile mp)"
| "session_route mp (GetEmptySessionsCount profile) =
     ([''api'', ''sessions'', ''empty'', ''count''], [], or_default profile mp)"
| "session_route mp (DeleteEmptySessions profile) =
     ([''api'', ''sessions'', ''empty''], [], or_default profile mp)"
| "session_route mp (BulkDeleteSessions ids profile) = ([''api'', ''sessions'', ''bulk-delete''], [], [])"
| "session_route mp (RenameSession sid title profile) = ([''api'', ''sessions'', sid], [], [])"
| "session_route mp (GetSessionStats profile) =
     ([''api'', ''sessions'', ''stats''], [], or_default profile mp)"
| "session_route mp (ImportSessions sessions profile) = ([''api'', ''sessions'', ''import''], [], [])"
| "session_route mp (PruneSessions older_than_days source profile) =
     ([''api'', ''sessions'', ''prune''], [], [])"
| "session_route mp (SearchSessions q profile) =
     ([''api'', ''sessions'', ''search''], [(''q'', q)], or_default profile mp)"

lemma encode_session_words [route_simps]:
  "encodeURIComponent ''api'' = ''api'' \<and>
     encodeURIComponent ''sessions'' = ''sessions'' \<and>
     encodeURIComponent ''limit'' = ''limit'' \<and>
     encodeURIComponent ''offset'' = ''offset'' \<and>
     encodeURIComponent ''order'' = ''order'' \<and>
     encodeURIComponent ''messages'' = ''messages'' \<and>
     encodeURIComponent ''latest-descendant'' = ''latest-descendant'' \<and>
     encodeURIComponent ''empty'' = ''empty'' \<and>
     encodeURIComponent ''count'' = ''count'' \<and>
     encodeURIComponent ''bulk-delete'' = ''bulk-delete'' \<and>
     encodeURIComponent ''stats'' = ''stats'' \<and>
     encodeURIComponent ''import'' = ''import'' \<and>
     encodeURIComponent ''prune'' = ''prune'' \<and>
     encodeURIComponent ''search'' = ''search'' \<and>
     encodeURIComponent ''q'' = ''q''"
  by code_simp

lemma encode_order_text [route_simps]: "encodeURIComponent (order_text ord) = order_text ord"
proof (cases ord)
  case OrderCreated
  then show ?thesis by (simp only: order_text.simps) code_simp
next
  case OrderRecent
  then show ?thesis by (simp only: order_text.simps) code_simp
qed

lemma session_target: "fst (session_request mp c) = route_target (session_route mp c)"
  by (cases c) (simp_all add: route_simps)

section \<open>Files and logs\<close>

text \<open>A file is its contents and its name.\<close>

type_synonym js_file = "string \<times> string"

datatype file_call =
    ListFiles "string option"
  | ReadFile string
  | UploadFile string js_file "bool option"
  | CreateDirectory string
  | DeleteFile string "bool option"
  | GetLogs "string option" "int option" "string option" "string option"

definition js_bool_text :: "bool \<Rightarrow> string" where
  "js_bool_text b = (if b then ''true'' else ''false'')"

definition log_params ::
  "string option \<Rightarrow> int option \<Rightarrow> string option \<Rightarrow> string option \<Rightarrow> (string \<times> string) list" where
  "log_params file lines level component =
     (if truthy_str file then [(''file'', the file)] else [])
     @ (case lines of None \<Rightarrow> [] | Some n \<Rightarrow> if n = 0 then [] else [(''lines'', show_int n)])
     @ (if truthy_str level \<and> level \<noteq> Some ''ALL'' then [(''level'', the level)] else [])
     @ (if truthy_str component \<and> component \<noteq> Some ''all'' then [(''component'', the component)] else [])"

primrec file_request :: "file_call \<Rightarrow> api_request" where
  "file_request (ListFiles path) =
     get_call (''/api/files''
       @ (if truthy_str path then ''?path='' @ encodeURIComponent (the path) else []))"
| "file_request (ReadFile path) = get_call (''/api/files/read?path='' @ encodeURIComponent path)"
| "file_request (UploadFile path file overwrite) =
     form_call ''POST'' ''/api/files/upload-stream''
       [(''path'', FText path), (''overwrite'', FText (js_bool_text (or_default overwrite True))),
        (''file'', FFile (fst file) (snd file))]"
| "file_request (CreateDirectory path) =
     json_call ''POST'' ''/api/files/mkdir'' (JObj [(''path'', JStr path)])"
| "file_request (DeleteFile path recursive) =
     json_call ''DELETE'' ''/api/files''
       (JObj [(''path'', JStr path), (''recursive'', JBool (or_default recursive False))])"
| "file_request (GetLogs file lines level component) =
     get_call (''/api/logs?'' @ search_params_string (log_params file lines level component))"

primrec file_route :: "file_call \<Rightarrow> route" where
  "file_route (ListFiles path) = ([''api'', ''files''], opt_param ''path'' (or_default path []), [])"
| "file_route (ReadFile path) = ([''api'', ''files'', ''read''], [(''path'', path)], [])"
| "file_route (UploadFile path file overwrite) = ([''api'', ''files'', ''upload-stream''], [], [])"
| "file_route (CreateDirectory path) = ([''api'', ''files'', ''mkdir''], [], [])"
| "file_route (DeleteFile path recursive) = ([''api'', ''files''], [], [])"
| "file_route (GetLogs file lines level component) =
     ([''api'', ''logs''], log_params file lines level component, [])"

lemma encode_file_words [route_simps]:
  "encodeURIComponent ''files'' = ''files'' \<and>
     encodeURIComponent ''path'' = ''path'' \<and>
     encodeURIComponent ''read'' = ''read'' \<and>
     encodeURIComponent ''upload-stream'' = ''upload-stream'' \<and>
     encodeURIComponent ''mkdir'' = ''mkdir'' \<and>
     encodeURIComponent ''logs'' = ''logs''"
  by code_simp

lemma file_target:
  "(\<nexists>f l v k. c = GetLogs f l v k) \<Longrightarrow> fst (file_request c) = route_target (file_route c)"
  by (cases c) (auto simp: route_simps or_default_def split: option.split)

lemma get_logs_target:
  "fst (file_request (GetLogs f l v k)) = print_path [''api'', ''logs'']
     @ CHR ''?'' # search_params_string (log_params f l v k)"
  by (simp add: route_simps)

section \<open>Models, configuration and environment\<close>

datatype model_options_arg = NoOptions | ProfileArg string | OptionsArg "string option" "bool option"

datatype config_call =
    GetStatus
  | GetAnalytics int "string option"
  | GetModelsAnalytics int "string option"
  | GetConfig "string option"
  | GetDefaults
  | GetSchema
  | GetModelInfo "string option"
  | GetModelOptions model_options_arg
  | GetAuxiliaryModels "string option"
  | GetMoaModels
  | SaveMoaModels js
  | SetModelAssignment js "string option"
  | SaveConfig js "string option"
  | GetConfigRaw "string option"
  | SaveConfigRaw string "string option"
  | GetEnvVars
  | SetEnvVar string string
  | DeleteEnvVar string
  | RevealEnvVar string

definition model_option_params :: "model_options_arg \<Rightarrow> (string \<times> string) list" where
  "model_option_params arg =
     (let profile = (case arg of NoOptions \<Rightarrow> [] | ProfileArg p \<Rightarrow> p | OptionsArg p r \<Rightarrow> or_default p []);
          refresh = (case arg of OptionsArg p r \<Rightarrow> or_default r False | _ \<Rightarrow> False)
      in (if profile = [] then [] else [(''profile'', profile)])
         @ (if refresh then [(''refresh'', ''1'')] else [])
         @ [(''include_unconfigured'', ''1'')])"

primrec config_request :: "string \<Rightarrow> config_call \<Rightarrow> api_request" where
  "config_request mp GetStatus = get_call ''/api/status''"
| "config_request mp (GetAnalytics days profile) =
     get_call (append_profile_param (''/api/analytics/usage?days='' @ show_int days) (or_default profile mp))"
| "config_request mp (GetModelsAnalytics days profile) =
     get_call (append_profile_param (''/api/analytics/models?days='' @ show_int days) (or_default profile mp))"
| "config_request mp (GetConfig profile) =
     get_call (append_profile_param ''/api/config'' (or_default profile mp))"
| "config_request mp GetDefaults = get_call ''/api/config/defaults''"
| "config_request mp GetSchema = get_call ''/api/config/schema''"
| "config_request mp (GetModelInfo profile) =
     get_call (append_profile_param ''/api/model/info'' (or_default profile mp))"
| "config_request mp (GetModelOptions arg) =
     (let qs = search_params_string (model_option_params arg)
      in get_call (''/api/model/options'' @ (if qs = [] then [] else CHR ''?'' # qs)))"
| "config_request mp (GetAuxiliaryModels profile) =
     get_call (append_profile_param ''/api/model/auxiliary'' (or_default profile mp))"
| "config_request mp GetMoaModels = get_call ''/api/model/moa''"
| "config_request mp (SaveMoaModels body) = json_call ''PUT'' ''/api/model/moa'' body"
| "config_request mp (SetModelAssignment body profile) =
     json_call ''POST'' (append_profile_param ''/api/model/set'' (or_default profile mp)) body"
| "config_request mp (SaveConfig config profile) =
     json_call ''PUT'' (append_profile_param ''/api/config'' (or_default profile mp))
       (JObj [(''config'', config)])"
| "config_request mp (GetConfigRaw profile) =
     get_call (append_profile_param ''/api/config/raw'' (or_default profile mp))"
| "config_request mp (SaveConfigRaw yaml_text profile) =
     json_call ''PUT'' (append_profile_param ''/api/config/raw'' (or_default profile mp))
       (JObj [(''yaml_text'', JStr yaml_text)])"
| "config_request mp GetEnvVars = get_call ''/api/env''"
| "config_request mp (SetEnvVar key val) =
     json_call ''PUT'' ''/api/env'' (JObj [(''key'', JStr key), (''value'', JStr val)])"
| "config_request mp (DeleteEnvVar key) = json_call ''DELETE'' ''/api/env'' (JObj [(''key'', JStr key)])"
| "config_request mp (RevealEnvVar key) =
     json_call ''POST'' ''/api/env/reveal'' (JObj [(''key'', JStr key)])"

primrec config_route :: "string \<Rightarrow> config_call \<Rightarrow> route" where
  "config_route mp GetStatus = ([''api'', ''status''], [], [])"
| "config_route mp (GetAnalytics days profile) =
     ([''api'', ''analytics'', ''usage''], [(''days'', show_int days)], or_default profile mp)"
| "config_route mp (GetModelsAnalytics days profile) =
     ([''api'', ''analytics'', ''models''], [(''days'', show_int days)], or_default profile mp)"
| "config_route mp (GetConfig profile) = ([''api'', ''config''], [], or_default profile mp)"
| "config_route mp GetDefaults = ([''api'', ''config'', ''defaults''], [], [])"
| "config_route mp GetSchema = ([''api'', ''config'', ''schema''], [], [])"
| "config_route mp (GetModelInfo profile) = ([''api'', ''model'', ''info''], [], or_default profile mp)"
| "config_route mp (GetModelOptions arg) = ([''api'', ''model'', ''options''], model_option_params arg, [])"
| "config_route mp (GetAuxiliaryModels profile) =
     ([''api'', ''model'', ''auxiliary''], [], or_default profile mp)"
| "config_route mp GetMoaModels = ([''api'', ''model'', ''moa''], [], [])"
| "config_route mp (SaveMoaModels body) = ([''api'', ''model'', ''moa''], [], [])"
| "config_route mp (SetModelAssignment body profile) =
     ([''api'', ''model'', ''set''], [], or_default profile mp)"
| "config_route mp (SaveConfig config profile) = ([''api'', ''config''], [], or_default profile mp)"
| "config_route mp (GetConfigRaw profile) = ([''api'', ''config'', ''raw''], [], or_default profile mp)"
| "config_route mp (SaveConfigRaw yaml_text profile) =
     ([''api'', ''config'', ''raw''], [], or_default profile mp)"
| "config_route mp GetEnvVars = ([''api'', ''env''], [], [])"
| "config_route mp (SetEnvVar key val) = ([''api'', ''env''], [], [])"
| "config_route mp (DeleteEnvVar key) = ([''api'', ''env''], [], [])"
| "config_route mp (RevealEnvVar key) = ([''api'', ''env'', ''reveal''], [], [])"

lemma encode_config_words [route_simps]:
  "encodeURIComponent ''status'' = ''status'' \<and>
     encodeURIComponent ''analytics'' = ''analytics'' \<and>
     encodeURIComponent ''usage'' = ''usage'' \<and>
     encodeURIComponent ''models'' = ''models'' \<and>
     encodeURIComponent ''days'' = ''days'' \<and>
     encodeURIComponent ''config'' = ''config'' \<and>
     encodeURIComponent ''defaults'' = ''defaults'' \<and>
     encodeURIComponent ''schema'' = ''schema'' \<and>
     encodeURIComponent ''model'' = ''model'' \<and>
     encodeURIComponent ''info'' = ''info'' \<and>
     encodeURIComponent ''options'' = ''options'' \<and>
     encodeURIComponent ''auxiliary'' = ''auxiliary'' \<and>
     encodeURIComponent ''moa'' = ''moa'' \<and>
     encodeURIComponent ''set'' = ''set'' \<and>
     encodeURIComponent ''raw'' = ''raw'' \<and>
     encodeURIComponent ''env'' = ''env'' \<and>
     encodeURIComponent ''reveal'' = ''reveal''"
  by code_simp

lemma config_target:
  "(\<nexists>arg. c = GetModelOptions arg) \<Longrightarrow> fst (config_request mp c) = route_target (config_route mp c)"
  by (cases c) (simp_all add: route_simps)

lemma get_model_options_target:
  "fst (config_request mp (GetModelOptions arg)) = print_path [''api'', ''model'', ''options'']
     @ CHR ''?'' # search_params_string (model_option_params arg)"
proof -
  have "search_params_string (model_option_params arg) \<noteq> []"
    using search_params_split [of "model_option_params arg"]
    by (auto simp: model_option_params_def Let_def)
  then show ?thesis by (simp add: route_simps)
qed

section \<open>Cron jobs\<close>

text \<open>Every call names its profile itself; a job mutation is a JSON value.\<close>

datatype cron_call =
    GetCronJobs "string option"
  | GetCronDeliveryTargets
  | CreateCronJob js "string option"
  | PauseCronJob string "string option"
  | UpdateCronJob string js "string option"
  | ResumeCronJob string "string option"
  | TriggerCronJob string "string option"
  | DeleteCronJob string "string option"
  | GetAutomationBlueprints
  | InstantiateAutomationBlueprint js "string option"

primrec cron_request :: "cron_call \<Rightarrow> api_request" where
  "cron_request (GetCronJobs profile) =
     get_call (''/api/cron/jobs?profile='' @ encodeURIComponent (or_default profile ''all''))"
| "cron_request GetCronDeliveryTargets = get_call ''/api/cron/delivery-targets''"
| "cron_request (CreateCronJob job profile) =
     json_call ''POST''
       (''/api/cron/jobs?profile='' @ encodeURIComponent (or_default profile ''default'')) job"
| "cron_request (PauseCronJob jid profile) =
     bare_call ''POST'' (''/api/cron/jobs/'' @ encodeURIComponent jid @ ''/pause?profile=''
       @ encodeURIComponent (or_default profile ''default''))"
| "cron_request (UpdateCronJob jid updates profile) =
     json_call ''PUT'' (''/api/cron/jobs/'' @ encodeURIComponent jid @ ''?profile=''
       @ encodeURIComponent (or_default profile ''default'')) (JObj [(''updates'', updates)])"
| "cron_request (ResumeCronJob jid profile) =
     bare_call ''POST'' (''/api/cron/jobs/'' @ encodeURIComponent jid @ ''/resume?profile=''
       @ encodeURIComponent (or_default profile ''default''))"
| "cron_request (TriggerCronJob jid profile) =
     bare_call ''POST'' (''/api/cron/jobs/'' @ encodeURIComponent jid @ ''/trigger?profile=''
       @ encodeURIComponent (or_default profile ''default''))"
| "cron_request (DeleteCronJob jid profile) =
     bare_call ''DELETE'' (''/api/cron/jobs/'' @ encodeURIComponent jid @ ''?profile=''
       @ encodeURIComponent (or_default profile ''default''))"
| "cron_request GetAutomationBlueprints = get_call ''/api/cron/blueprints''"
| "cron_request (InstantiateAutomationBlueprint body profile) =
     json_call ''POST'' (''/api/cron/blueprints/instantiate?profile=''
       @ encodeURIComponent (or_default profile ''default'')) body"

primrec cron_route :: "cron_call \<Rightarrow> route" where
  "cron_route (GetCronJobs profile) =
     ([''api'', ''cron'', ''jobs''], [(''profile'', or_default profile ''all'')], [])"
| "cron_route GetCronDeliveryTargets = ([''api'', ''cron'', ''delivery-targets''], [], [])"
| "cron_route (CreateCronJob job profile) =
     ([''api'', ''cron'', ''jobs''], [(''profile'', or_default profile ''default'')], [])"
| "cron_route (PauseCronJob jid profile) =
     ([''api'', ''cron'', ''jobs'', jid, ''pause''], [(''profile'', or_default profile ''default'')], [])"
| "cron_route (UpdateCronJob jid updates profile) =
     ([''api'', ''cron'', ''jobs'', jid], [(''profile'', or_default profile ''default'')], [])"
| "cron_route (ResumeCronJob jid profile) =
     ([''api'', ''cron'', ''jobs'', jid, ''resume''], [(''profile'', or_default profile ''default'')], [])"
| "cron_route (TriggerCronJob jid profile) =
     ([''api'', ''cron'', ''jobs'', jid, ''trigger''], [(''profile'', or_default profile ''default'')], [])"
| "cron_route (DeleteCronJob jid profile) =
     ([''api'', ''cron'', ''jobs'', jid], [(''profile'', or_default profile ''default'')], [])"
| "cron_route GetAutomationBlueprints = ([''api'', ''cron'', ''blueprints''], [], [])"
| "cron_route (InstantiateAutomationBlueprint body profile) =
     ([''api'', ''cron'', ''blueprints'', ''instantiate''],
      [(''profile'', or_default profile ''default'')], [])"

lemma encode_cron_words [route_simps]:
  "encodeURIComponent ''cron'' = ''cron'' \<and>
     encodeURIComponent ''jobs'' = ''jobs'' \<and>
     encodeURIComponent ''profile'' = ''profile'' \<and>
     encodeURIComponent ''delivery-targets'' = ''delivery-targets'' \<and>
     encodeURIComponent ''pause'' = ''pause'' \<and>
     encodeURIComponent ''resume'' = ''resume'' \<and>
     encodeURIComponent ''trigger'' = ''trigger'' \<and>
     encodeURIComponent ''blueprints'' = ''blueprints'' \<and>
     encodeURIComponent ''instantiate'' = ''instantiate''"
  by code_simp

lemma cron_target: "fst (cron_request c) = route_target (cron_route c)"
  by (cases c) (simp_all add: route_simps)

section \<open>Profiles\<close>

datatype profile_call =
    GetProfiles
  | GetActiveProfile
  | SetActiveProfile string
  | CreateProfile js
  | UpdateProfileDescription string string
  | DescribeProfileAuto string "bool option"
  | SetProfileModel string string string
  | RenameProfile string string
  | DeleteProfile string
  | GetProfileSetupCommand string
  | GetProfileSoul string
  | UpdateProfileSoul string string

primrec profile_request :: "profile_call \<Rightarrow> api_request" where
  "profile_request GetProfiles = get_call ''/api/profiles''"
| "profile_request GetActiveProfile = get_call ''/api/profiles/active''"
| "profile_request (SetActiveProfile name) =
     json_call ''POST'' ''/api/profiles/active'' (JObj [(''name'', JStr name)])"
| "profile_request (CreateProfile body) = json_call ''POST'' ''/api/profiles'' body"
| "profile_request (UpdateProfileDescription name description) =
     json_call ''PUT'' (''/api/profiles/'' @ encodeURIComponent name @ ''/description'')
       (JObj [(''description'', JStr description)])"
| "profile_request (DescribeProfileAuto name overwrite) =
     json_call ''POST'' (''/api/profiles/'' @ encodeURIComponent name @ ''/describe-auto'')
       (JObj [(''overwrite'', JBool (or_default overwrite True))])"
| "profile_request (SetProfileModel name provider model) =
     json_call ''PUT'' (''/api/profiles/'' @ encodeURIComponent name @ ''/model'')
       (JObj [(''provider'', JStr provider), (''model'', JStr model)])"
| "profile_request (RenameProfile name newName) =
     json_call ''PATCH'' (''/api/profiles/'' @ encodeURIComponent name) (JObj [(''new_name'', JStr newName)])"
| "profile_request (DeleteProfile name) =
     bare_call ''DELETE'' (''/api/profiles/'' @ encodeURIComponent name)"
| "profile_request (GetProfileSetupCommand name) =
     get_call (''/api/profiles/'' @ encodeURIComponent name @ ''/setup-command'')"
| "profile_request (GetProfileSoul name) =
     get_call (''/api/profiles/'' @ encodeURIComponent name @ ''/soul'')"
| "profile_request (UpdateProfileSoul name content) =
     json_call ''PUT'' (''/api/profiles/'' @ encodeURIComponent name @ ''/soul'')
       (JObj [(''content'', JStr content)])"

primrec profile_route :: "profile_call \<Rightarrow> route" where
  "profile_route GetProfiles = ([''api'', ''profiles''], [], [])"
| "profile_route GetActiveProfile = ([''api'', ''profiles'', ''active''], [], [])"
| "profile_route (SetActiveProfile name) = ([''api'', ''profiles'', ''active''], [], [])"
| "profile_route (CreateProfile body) = ([''api'', ''profiles''], [], [])"
| "profile_route (UpdateProfileDescription name description) =
     ([''api'', ''profiles'', name, ''description''], [], [])"
| "profile_route (DescribeProfileAuto name overwrite) =
     ([''api'', ''profiles'', name, ''describe-auto''], [], [])"
| "profile_route (SetProfileModel name provider model) = ([''api'', ''profiles'', name, ''model''], [], [])"
| "profile_route (RenameProfile name newName) = ([''api'', ''profiles'', name], [], [])"
| "profile_route (DeleteProfile name) = ([''api'', ''profiles'', name], [], [])"
| "profile_route (GetProfileSetupCommand name) = ([''api'', ''profiles'', name, ''setup-command''], [], [])"
| "profile_route (GetProfileSoul name) = ([''api'', ''profiles'', name, ''soul''], [], [])"
| "profile_route (UpdateProfileSoul name content) = ([''api'', ''profiles'', name, ''soul''], [], [])"

lemma encode_profile_words [route_simps]:
  "encodeURIComponent ''profiles'' = ''profiles'' \<and>
     encodeURIComponent ''active'' = ''active'' \<and>
     encodeURIComponent ''description'' = ''description'' \<and>
     encodeURIComponent ''describe-auto'' = ''describe-auto'' \<and>
     encodeURIComponent ''setup-command'' = ''setup-command'' \<and>
     encodeURIComponent ''soul'' = ''soul''"
  by code_simp

lemma profile_target: "fst (profile_request c) = route_target (profile_route c)"
  by (cases c) (simp_all add: route_simps)

end
