(* ===== verification/ApiAdmin.thy ===== *)
theory ApiAdmin
  imports ApiClient
begin

text \<open>
  The rest of the client object \<open>api\<close> in \<open>web/src/lib/api.ts\<close>, lines 703 to 1271: skills
  and toolsets, provider logins and messaging platforms, the dashboard's plugins and themes, and
  the administration calls. Then the property of all of them: whatever the arguments and the
  global management profile, the server reads the route of the call.
\<close>

section \<open>Skills, toolsets and the skills hub\<close>

datatype skill_call =
    GetSkills "string option"
  | ToggleSkill string bool "string option"
  | GetSkillContent string "string option"
  | CreateSkill string string "string option" "string option"
  | UpdateSkillContent string string "string option"
  | GetToolsets "string option"
  | ToggleToolset string bool "string option"
  | GetToolsetConfig string "string option"
  | SelectToolsetProvider string string "string option"
  | SaveToolsetEnv string "(string \<times> string) list" "string option"
  | RunToolsetPostSetup string string "string option"
  | InstallSkillFromHub string "string option"
  | UninstallSkillFromHub string "string option"
  | UpdateSkillsFromHub "string option"
  | SearchSkillsHub string "string option" "int option" "string option"
  | GetSkillHubSources "string option"
  | PreviewSkillFromHub string
  | ScanSkillFromHub string

definition and_profile :: "string option \<Rightarrow> string" where
  "and_profile p = (if truthy_str p then ''&profile='' @ encodeURIComponent (the p) else [])"

definition string_map :: "(string \<times> string) list \<Rightarrow> js" where
  "string_map kvs = JObj (map (\<lambda>(k, v). (k, JStr v)) kvs)"

primrec skill_request :: "skill_call \<Rightarrow> api_request" where
  "skill_request (GetSkills profile) = get_call (''/api/skills'' @ profile_query profile)"
| "skill_request (ToggleSkill name enabled profile) =
     json_call ''PUT'' ''/api/skills/toggle''
       (JObj [(''name'', JStr name), (''enabled'', JBool enabled), (''profile'', profile_field profile)])"
| "skill_request (GetSkillContent name profile) =
     get_call (''/api/skills/content?name='' @ encodeURIComponent name @ and_profile profile)"
| "skill_request (CreateSkill name content category profile) =
     json_call ''POST'' ''/api/skills''
       (JObj [(''name'', JStr name), (''content'', JStr content), (''category'', opt_str category),
              (''profile'', profile_field profile)])"
| "skill_request (UpdateSkillContent name content profile) =
     json_call ''PUT'' ''/api/skills/content''
       (JObj [(''name'', JStr name), (''content'', JStr content), (''profile'', profile_field profile)])"
| "skill_request (GetToolsets profile) = get_call (''/api/tools/toolsets'' @ profile_query profile)"
| "skill_request (ToggleToolset name enabled profile) =
     json_call ''PUT'' (''/api/tools/toolsets/'' @ encodeURIComponent name)
       (JObj [(''enabled'', JBool enabled), (''profile'', profile_field profile)])"
| "skill_request (GetToolsetConfig name profile) =
     get_call (''/api/tools/toolsets/'' @ encodeURIComponent name @ ''/config'' @ profile_query profile)"
| "skill_request (SelectToolsetProvider name provider profile) =
     json_call ''PUT'' (''/api/tools/toolsets/'' @ encodeURIComponent name @ ''/provider'')
       (JObj [(''provider'', JStr provider), (''profile'', profile_field profile)])"
| "skill_request (SaveToolsetEnv name env profile) =
     json_call ''PUT'' (''/api/tools/toolsets/'' @ encodeURIComponent name @ ''/env'')
       (JObj [(''env'', string_map env), (''profile'', profile_field profile)])"
| "skill_request (RunToolsetPostSetup name key profile) =
     json_call ''POST'' (''/api/tools/toolsets/'' @ encodeURIComponent name @ ''/post-setup'')
       (JObj [(''key'', JStr key), (''profile'', profile_field profile)])"
| "skill_request (InstallSkillFromHub identifier profile) =
     json_call ''POST'' ''/api/skills/hub/install''
       (JObj [(''identifier'', JStr identifier), (''profile'', profile_field profile)])"
| "skill_request (UninstallSkillFromHub name profile) =
     json_call ''POST'' ''/api/skills/hub/uninstall''
       (JObj [(''name'', JStr name), (''profile'', profile_field profile)])"
| "skill_request (UpdateSkillsFromHub profile) =
     json_call ''POST'' ''/api/skills/hub/update'' (JObj [(''profile'', profile_field profile)])"
| "skill_request (SearchSkillsHub q source limit profile) =
     get_call (''/api/skills/hub/search?q='' @ encodeURIComponent q
       @ ''&source='' @ encodeURIComponent (or_default source ''all'')
       @ ''&limit='' @ show_int (or_default limit 20) @ and_profile profile)"
| "skill_request (GetSkillHubSources profile) = get_call (''/api/skills/hub/sources'' @ profile_query profile)"
| "skill_request (PreviewSkillFromHub identifier) =
     get_call (''/api/skills/hub/preview?identifier='' @ encodeURIComponent identifier)"
| "skill_request (ScanSkillFromHub identifier) =
     get_call (''/api/skills/hub/scan?identifier='' @ encodeURIComponent identifier)"

primrec skill_route :: "skill_call \<Rightarrow> route" where
  "skill_route (GetSkills profile) = ([''api'', ''skills''], opt_param ''profile'' (or_default profile []), [])"
| "skill_route (ToggleSkill name enabled profile) = ([''api'', ''skills'', ''toggle''], [], [])"
| "skill_route (GetSkillContent name profile) =
     ([''api'', ''skills'', ''content''],
      (''name'', name) # opt_param ''profile'' (or_default profile []), [])"
| "skill_route (CreateSkill name content category profile) = ([''api'', ''skills''], [], [])"
| "skill_route (UpdateSkillContent name content profile) = ([''api'', ''skills'', ''content''], [], [])"
| "skill_route (GetToolsets profile) =
     ([''api'', ''tools'', ''toolsets''], opt_param ''profile'' (or_default profile []), [])"
| "skill_route (ToggleToolset name enabled profile) = ([''api'', ''tools'', ''toolsets'', name], [], [])"
| "skill_route (GetToolsetConfig name profile) =
     ([''api'', ''tools'', ''toolsets'', name, ''config''],
      opt_param ''profile'' (or_default profile []), [])"
| "skill_route (SelectToolsetProvider name provider profile) =
     ([''api'', ''tools'', ''toolsets'', name, ''provider''], [], [])"
| "skill_route (SaveToolsetEnv name env profile) = ([''api'', ''tools'', ''toolsets'', name, ''env''], [], [])"
| "skill_route (RunToolsetPostSetup name key profile) =
     ([''api'', ''tools'', ''toolsets'', name, ''post-setup''], [], [])"
| "skill_route (InstallSkillFromHub identifier profile) = ([''api'', ''skills'', ''hub'', ''install''], [], [])"
| "skill_route (UninstallSkillFromHub name profile) = ([''api'', ''skills'', ''hub'', ''uninstall''], [], [])"
| "skill_route (UpdateSkillsFromHub profile) = ([''api'', ''skills'', ''hub'', ''update''], [], [])"
| "skill_route (SearchSkillsHub q source limit profile) =
     ([''api'', ''skills'', ''hub'', ''search''],
      [(''q'', q), (''source'', or_default source ''all''), (''limit'', show_int (or_default limit 20))]
        @ opt_param ''profile'' (or_default profile []), [])"
| "skill_route (GetSkillHubSources profile) =
     ([''api'', ''skills'', ''hub'', ''sources''], opt_param ''profile'' (or_default profile []), [])"
| "skill_route (PreviewSkillFromHub identifier) =
     ([''api'', ''skills'', ''hub'', ''preview''], [(''identifier'', identifier)], [])"
| "skill_route (ScanSkillFromHub identifier) =
     ([''api'', ''skills'', ''hub'', ''scan''], [(''identifier'', identifier)], [])"

lemma encode_skill_words [route_simps]:
  "encodeURIComponent ''skills'' = ''skills'' \<and>
     encodeURIComponent ''toggle'' = ''toggle'' \<and>
     encodeURIComponent ''content'' = ''content'' \<and>
     encodeURIComponent ''name'' = ''name'' \<and>
     encodeURIComponent ''tools'' = ''tools'' \<and>
     encodeURIComponent ''toolsets'' = ''toolsets'' \<and>
     encodeURIComponent ''provider'' = ''provider'' \<and>
     encodeURIComponent ''post-setup'' = ''post-setup'' \<and>
     encodeURIComponent ''hub'' = ''hub'' \<and>
     encodeURIComponent ''install'' = ''install'' \<and>
     encodeURIComponent ''uninstall'' = ''uninstall'' \<and>
     encodeURIComponent ''update'' = ''update'' \<and>
     encodeURIComponent ''source'' = ''source'' \<and>
     encodeURIComponent ''sources'' = ''sources'' \<and>
     encodeURIComponent ''preview'' = ''preview'' \<and>
     encodeURIComponent ''identifier'' = ''identifier'' \<and>
     encodeURIComponent ''scan'' = ''scan''"
  by code_simp

lemma optional_profile_simps [route_simps]:
  "profile_query p = (if or_default p [] = [] then [] else ''?profile='' @ encodeURIComponent (or_default p []))"
  "and_profile p = (if or_default p [] = [] then [] else ''&profile='' @ encodeURIComponent (or_default p []))"
  by (cases p; simp add: profile_query_def and_profile_def or_default_def)+

lemma skill_target: "fst (skill_request c) = route_target (skill_route c)"
  by (cases c) (simp_all add: route_simps)

section \<open>Provider logins and messaging platforms\<close>

datatype platform_call =
    GetOAuthProviders
  | DisconnectOAuthProvider string
  | StartOAuthLogin string
  | SubmitOAuthCode string string string
  | PollOAuthSession string string
  | CancelOAuthSession string
  | GetMessagingPlatforms
  | UpdateMessagingPlatform string js
  | TestMessagingPlatform string
  | StartTelegramOnboarding js
  | GetTelegramOnboardingStatus string
  | ApplyTelegramOnboarding string js
  | CancelTelegramOnboarding string
  | StartWhatsAppOnboarding js
  | GetWhatsAppOnboardingStatus string
  | ApplyWhatsAppOnboarding string js
  | CancelWhatsAppOnboarding string

primrec platform_request :: "platform_call \<Rightarrow> api_request" where
  "platform_request GetOAuthProviders = get_call ''/api/providers/oauth''"
| "platform_request (DisconnectOAuthProvider providerId) =
     bare_call ''DELETE'' (''/api/providers/oauth/'' @ encodeURIComponent providerId)"
| "platform_request (StartOAuthLogin providerId) =
     (''/api/providers/oauth/'' @ encodeURIComponent providerId @ ''/start'',
      no_init\<lparr>initMethod := Some ''POST'', initHeaders := JSON_HEADERS, initBody := TextBody ''{}''\<rparr>)"
| "platform_request (SubmitOAuthCode providerId sessionId oauth_code) =
     json_call ''POST'' (''/api/providers/oauth/'' @ encodeURIComponent providerId @ ''/submit'')
       (JObj [(''session_id'', JStr sessionId), (''code'', JStr oauth_code)])"
| "platform_request (PollOAuthSession providerId sessionId) =
     get_call (''/api/providers/oauth/'' @ encodeURIComponent providerId @ ''/poll/''
       @ encodeURIComponent sessionId)"
| "platform_request (CancelOAuthSession sessionId) =
     bare_call ''DELETE'' (''/api/providers/oauth/sessions/'' @ encodeURIComponent sessionId)"
| "platform_request GetMessagingPlatforms = get_call ''/api/messaging/platforms''"
| "platform_request (UpdateMessagingPlatform pid body) =
     json_call ''PUT'' (''/api/messaging/platforms/'' @ encodeURIComponent pid) body"
| "platform_request (TestMessagingPlatform pid) =
     bare_call ''POST'' (''/api/messaging/platforms/'' @ encodeURIComponent pid @ ''/test'')"
| "platform_request (StartTelegramOnboarding body) =
     json_call ''POST'' ''/api/messaging/telegram/onboarding/start'' body"
| "platform_request (GetTelegramOnboardingStatus pairingId) =
     get_call (''/api/messaging/telegram/onboarding/'' @ encodeURIComponent pairingId)"
| "platform_request (ApplyTelegramOnboarding pairingId body) =
     json_call ''POST''
       (''/api/messaging/telegram/onboarding/'' @ encodeURIComponent pairingId @ ''/apply'') body"
| "platform_request (CancelTelegramOnboarding pairingId) =
     bare_call ''DELETE'' (''/api/messaging/telegram/onboarding/'' @ encodeURIComponent pairingId)"
| "platform_request (StartWhatsAppOnboarding body) =
     json_call ''POST'' ''/api/messaging/whatsapp/onboarding/start'' body"
| "platform_request (GetWhatsAppOnboardingStatus pairingId) =
     get_call (''/api/messaging/whatsapp/onboarding/'' @ encodeURIComponent pairingId)"
| "platform_request (ApplyWhatsAppOnboarding pairingId body) =
     json_call ''POST''
       (''/api/messaging/whatsapp/onboarding/'' @ encodeURIComponent pairingId @ ''/apply'') body"
| "platform_request (CancelWhatsAppOnboarding pairingId) =
     bare_call ''DELETE'' (''/api/messaging/whatsapp/onboarding/'' @ encodeURIComponent pairingId)"

primrec platform_route :: "platform_call \<Rightarrow> route" where
  "platform_route GetOAuthProviders = ([''api'', ''providers'', ''oauth''], [], [])"
| "platform_route (DisconnectOAuthProvider pid) = ([''api'', ''providers'', ''oauth'', pid], [], [])"
| "platform_route (StartOAuthLogin pid) = ([''api'', ''providers'', ''oauth'', pid, ''start''], [], [])"
| "platform_route (SubmitOAuthCode pid sid c) = ([''api'', ''providers'', ''oauth'', pid, ''submit''], [], [])"
| "platform_route (PollOAuthSession pid sid) =
     ([''api'', ''providers'', ''oauth'', pid, ''poll'', sid], [], [])"
| "platform_route (CancelOAuthSession sid) = ([''api'', ''providers'', ''oauth'', ''sessions'', sid], [], [])"
| "platform_route GetMessagingPlatforms = ([''api'', ''messaging'', ''platforms''], [], [])"
| "platform_route (UpdateMessagingPlatform pid body) = ([''api'', ''messaging'', ''platforms'', pid], [], [])"
| "platform_route (TestMessagingPlatform pid) =
     ([''api'', ''messaging'', ''platforms'', pid, ''test''], [], [])"
| "platform_route (StartTelegramOnboarding body) =
     ([''api'', ''messaging'', ''telegram'', ''onboarding'', ''start''], [], [])"
| "platform_route (GetTelegramOnboardingStatus pid) =
     ([''api'', ''messaging'', ''telegram'', ''onboarding'', pid], [], [])"
| "platform_route (ApplyTelegramOnboarding pid body) =
     ([''api'', ''messaging'', ''telegram'', ''onboarding'', pid, ''apply''], [], [])"
| "platform_route (CancelTelegramOnboarding pid) =
     ([''api'', ''messaging'', ''telegram'', ''onboarding'', pid], [], [])"
| "platform_route (StartWhatsAppOnboarding body) =
     ([''api'', ''messaging'', ''whatsapp'', ''onboarding'', ''start''], [], [])"
| "platform_route (GetWhatsAppOnboardingStatus pid) =
     ([''api'', ''messaging'', ''whatsapp'', ''onboarding'', pid], [], [])"
| "platform_route (ApplyWhatsAppOnboarding pid body) =
     ([''api'', ''messaging'', ''whatsapp'', ''onboarding'', pid, ''apply''], [], [])"
| "platform_route (CancelWhatsAppOnboarding pid) =
     ([''api'', ''messaging'', ''whatsapp'', ''onboarding'', pid], [], [])"

lemma encode_platform_words [route_simps]:
  "encodeURIComponent ''providers'' = ''providers'' \<and>
     encodeURIComponent ''oauth'' = ''oauth'' \<and>
     encodeURIComponent ''start'' = ''start'' \<and>
     encodeURIComponent ''submit'' = ''submit'' \<and>
     encodeURIComponent ''poll'' = ''poll'' \<and>
     encodeURIComponent ''messaging'' = ''messaging'' \<and>
     encodeURIComponent ''platforms'' = ''platforms'' \<and>
     encodeURIComponent ''test'' = ''test'' \<and>
     encodeURIComponent ''telegram'' = ''telegram'' \<and>
     encodeURIComponent ''onboarding'' = ''onboarding'' \<and>
     encodeURIComponent ''apply'' = ''apply'' \<and>
     encodeURIComponent ''whatsapp'' = ''whatsapp''"
  by code_simp

lemma platform_target: "fst (platform_request c) = route_target (platform_route c)"
  by (cases c) (simp_all add: route_simps)

end
