(* ===== verification/ApiOps.thy ===== *)
theory ApiOps
  imports ApiAdmin
begin

text \<open>
  The administration calls of \<open>api\<close> in \<open>web/src/lib/api.ts\<close>, lines 902 to 1232:
  gateway and updates, dashboard plugins and themes, MCP servers, pairing, webhooks, credentials,
  memory providers, operations, curator and diagnostics. Then all the calls together: the server
  reads the route of the call, whatever its arguments and the global management profile are.
\<close>

section \<open>Gateway, plugins and themes\<close>

datatype dashboard_call =
    RestartGateway
  | UpdateHermes
  | CheckHermesUpdate "bool option"
  | GetActionStatus string "int option"
  | GetPlugins
  | RescanPlugins
  | GetPluginsHub
  | InstallAgentPlugin js
  | EnableAgentPlugin string
  | DisableAgentPlugin string
  | UpdateAgentPlugin string
  | RemoveAgentPlugin string
  | SavePluginProviders js
  | SetPluginVisibility string bool
  | GetThemes
  | SetTheme string
  | GetFontPref
  | SetFontPref string

primrec dashboard_request :: "dashboard_call \<Rightarrow> api_request" where
  "dashboard_request RestartGateway = bare_call ''POST'' ''/api/gateway/restart''"
| "dashboard_request UpdateHermes = bare_call ''POST'' ''/api/hermes/update''"
| "dashboard_request (CheckHermesUpdate force) =
     get_call (''/api/hermes/update/check'' @ (if or_default force False then ''?force=true'' else []))"
| "dashboard_request (GetActionStatus name lines) =
     get_call (''/api/actions/'' @ encodeURIComponent name @ ''/status?lines='' @ show_int (or_default lines 200))"
| "dashboard_request GetPlugins = get_call ''/api/dashboard/plugins''"
| "dashboard_request RescanPlugins = get_call ''/api/dashboard/plugins/rescan''"
| "dashboard_request GetPluginsHub = get_call ''/api/dashboard/plugins/hub''"
| "dashboard_request (InstallAgentPlugin body) =
     json_call ''POST'' ''/api/dashboard/agent-plugins/install'' body"
| "dashboard_request (EnableAgentPlugin name) =
     bare_call ''POST'' (''/api/dashboard/agent-plugins/'' @ plugin_path name @ ''/enable'')"
| "dashboard_request (DisableAgentPlugin name) =
     bare_call ''POST'' (''/api/dashboard/agent-plugins/'' @ plugin_path name @ ''/disable'')"
| "dashboard_request (UpdateAgentPlugin name) =
     bare_call ''POST'' (''/api/dashboard/agent-plugins/'' @ plugin_path name @ ''/update'')"
| "dashboard_request (RemoveAgentPlugin name) =
     bare_call ''DELETE'' (''/api/dashboard/agent-plugins/'' @ plugin_path name)"
| "dashboard_request (SavePluginProviders body) =
     json_call ''PUT'' ''/api/dashboard/plugin-providers'' body"
| "dashboard_request (SetPluginVisibility name hidden) =
     json_call ''POST'' (''/api/dashboard/plugins/'' @ plugin_path name @ ''/visibility'')
       (JObj [(''hidden'', JBool hidden)])"
| "dashboard_request GetThemes = get_call ''/api/dashboard/themes''"
| "dashboard_request (SetTheme name) =
     json_call ''PUT'' ''/api/dashboard/theme'' (JObj [(''name'', JStr name)])"
| "dashboard_request GetFontPref = get_call ''/api/dashboard/font''"
| "dashboard_request (SetFontPref font) =
     json_call ''PUT'' ''/api/dashboard/font'' (JObj [(''font'', JStr font)])"

primrec dashboard_route :: "dashboard_call \<Rightarrow> route" where
  "dashboard_route RestartGateway = ([''api'', ''gateway'', ''restart''], [], [])"
| "dashboard_route UpdateHermes = ([''api'', ''hermes'', ''update''], [], [])"
| "dashboard_route (CheckHermesUpdate force) =
     ([''api'', ''hermes'', ''update'', ''check''],
      if or_default force False then [(''force'', ''true'')] else [], [])"
| "dashboard_route (GetActionStatus name lines) =
     ([''api'', ''actions'', name, ''status''], [(''lines'', show_int (or_default lines 200))], [])"
| "dashboard_route GetPlugins = ([''api'', ''dashboard'', ''plugins''], [], [])"
| "dashboard_route RescanPlugins = ([''api'', ''dashboard'', ''plugins'', ''rescan''], [], [])"
| "dashboard_route GetPluginsHub = ([''api'', ''dashboard'', ''plugins'', ''hub''], [], [])"
| "dashboard_route (InstallAgentPlugin body) =
     ([''api'', ''dashboard'', ''agent-plugins'', ''install''], [], [])"
| "dashboard_route (EnableAgentPlugin name) =
     ([''api'', ''dashboard'', ''agent-plugins''] @ split_on (CHR ''/'') name @ [''enable''], [], [])"
| "dashboard_route (DisableAgentPlugin name) =
     ([''api'', ''dashboard'', ''agent-plugins''] @ split_on (CHR ''/'') name @ [''disable''], [], [])"
| "dashboard_route (UpdateAgentPlugin name) =
     ([''api'', ''dashboard'', ''agent-plugins''] @ split_on (CHR ''/'') name @ [''update''], [], [])"
| "dashboard_route (RemoveAgentPlugin name) =
     ([''api'', ''dashboard'', ''agent-plugins''] @ split_on (CHR ''/'') name, [], [])"
| "dashboard_route (SavePluginProviders body) = ([''api'', ''dashboard'', ''plugin-providers''], [], [])"
| "dashboard_route (SetPluginVisibility name hidden) =
     ([''api'', ''dashboard'', ''plugins''] @ split_on (CHR ''/'') name @ [''visibility''], [], [])"
| "dashboard_route GetThemes = ([''api'', ''dashboard'', ''themes''], [], [])"
| "dashboard_route (SetTheme name) = ([''api'', ''dashboard'', ''theme''], [], [])"
| "dashboard_route GetFontPref = ([''api'', ''dashboard'', ''font''], [], [])"
| "dashboard_route (SetFontPref font) = ([''api'', ''dashboard'', ''font''], [], [])"

lemma encode_dashboard_words [route_simps]:
  "encodeURIComponent ''gateway'' = ''gateway'' \<and>
     encodeURIComponent ''restart'' = ''restart'' \<and>
     encodeURIComponent ''hermes'' = ''hermes'' \<and>
     encodeURIComponent ''check'' = ''check'' \<and>
     encodeURIComponent ''force'' = ''force'' \<and>
     encodeURIComponent ''true'' = ''true'' \<and>
     encodeURIComponent ''actions'' = ''actions'' \<and>
     encodeURIComponent ''lines'' = ''lines'' \<and>
     encodeURIComponent ''dashboard'' = ''dashboard'' \<and>
     encodeURIComponent ''plugins'' = ''plugins'' \<and>
     encodeURIComponent ''rescan'' = ''rescan'' \<and>
     encodeURIComponent ''agent-plugins'' = ''agent-plugins'' \<and>
     encodeURIComponent ''enable'' = ''enable'' \<and>
     encodeURIComponent ''disable'' = ''disable'' \<and>
     encodeURIComponent ''plugin-providers'' = ''plugin-providers'' \<and>
     encodeURIComponent ''visibility'' = ''visibility'' \<and>
     encodeURIComponent ''themes'' = ''themes'' \<and>
     encodeURIComponent ''theme'' = ''theme'' \<and>
     encodeURIComponent ''font'' = ''font''"
  by code_simp

lemma print_path_append [route_simps]: "print_path (a @ b) = print_path a @ print_path b"
  by (simp add: print_path_def)

lemma plugin_path_segments [route_simps]:
  "print_path (split_on (CHR ''/'') name) = CHR ''/'' # plugin_path name"
proof -
  have "ws \<noteq> [] \<Longrightarrow> print_path ws = CHR ''/'' # join ''/'' (map encodeURIComponent ws)" for ws
    by (induction "''/''" ws rule: join.induct) (simp_all add: print_path_def)
  then show ?thesis by (simp add: plugin_path_def)
qed

lemma dashboard_target: "fst (dashboard_request c) = route_target (dashboard_route c)"
  by (cases c) (simp_all add: route_simps)

section \<open>MCP servers, pairing, webhooks, credentials and memory\<close>

datatype admin_call =
    GetMcpServers
  | AddMcpServer js
  | AuthMcpServer string
  | GetMcpOAuthFlow string
  | RemoveMcpServer string
  | TestMcpServer string
  | SetMcpServerEnabled string bool
  | GetMcpCatalog
  | InstallMcpCatalogEntry string "(string \<times> string) list option" "bool option"
  | GetPairing
  | ApprovePairing string string
  | RevokePairing string string
  | ClearPendingPairing
  | GetWebhooks
  | EnableWebhooks
  | CreateWebhook js
  | DeleteWebhook string
  | SetWebhookEnabled string bool
  | GetCredentialPool
  | AddCredentialPoolEntry string string "string option"
  | RemoveCredentialPoolEntry string int
  | GetMemory
  | GetMemoryProviderConfig string
  | UpdateMemoryProviderConfig string js
  | SetupMemoryProvider string "js option"
  | SetMemoryProvider string
  | ResetMemory string

primrec admin_request :: "admin_call \<Rightarrow> api_request" where
  "admin_request GetMcpServers = get_call ''/api/mcp/servers''"
| "admin_request (AddMcpServer body) = json_call ''POST'' ''/api/mcp/servers'' body"
| "admin_request (AuthMcpServer name) =
     bare_call ''POST'' (''/api/mcp/servers/'' @ encodeURIComponent name @ ''/auth'')"
| "admin_request (GetMcpOAuthFlow flowId) =
     get_call (''/api/mcp/oauth/flows/'' @ encodeURIComponent flowId)"
| "admin_request (RemoveMcpServer name) =
     bare_call ''DELETE'' (''/api/mcp/servers/'' @ encodeURIComponent name)"
| "admin_request (TestMcpServer name) =
     bare_call ''POST'' (''/api/mcp/servers/'' @ encodeURIComponent name @ ''/test'')"
| "admin_request (SetMcpServerEnabled name enabled) =
     json_call ''PUT'' (''/api/mcp/servers/'' @ encodeURIComponent name @ ''/enabled'')
       (JObj [(''enabled'', JBool enabled)])"
| "admin_request GetMcpCatalog = get_call ''/api/mcp/catalog''"
| "admin_request (InstallMcpCatalogEntry name env enable) =
     json_call ''POST'' ''/api/mcp/catalog/install''
       (JObj [(''name'', JStr name), (''env'', string_map (or_default env [])),
              (''enable'', JBool (or_default enable True))])"
| "admin_request GetPairing = get_call ''/api/pairing''"
| "admin_request (ApprovePairing platform pairing_code) =
     json_call ''POST'' ''/api/pairing/approve''
       (JObj [(''platform'', JStr platform), (''code'', JStr pairing_code)])"
| "admin_request (RevokePairing platform user_id) =
     json_call ''POST'' ''/api/pairing/revoke''
       (JObj [(''platform'', JStr platform), (''user_id'', JStr user_id)])"
| "admin_request ClearPendingPairing = bare_call ''POST'' ''/api/pairing/clear-pending''"
| "admin_request GetWebhooks = get_call ''/api/webhooks''"
| "admin_request EnableWebhooks = bare_call ''POST'' ''/api/webhooks/enable''"
| "admin_request (CreateWebhook body) = json_call ''POST'' ''/api/webhooks'' body"
| "admin_request (DeleteWebhook name) =
     bare_call ''DELETE'' (''/api/webhooks/'' @ encodeURIComponent name)"
| "admin_request (SetWebhookEnabled name enabled) =
     json_call ''PUT'' (''/api/webhooks/'' @ encodeURIComponent name @ ''/enabled'')
       (JObj [(''enabled'', JBool enabled)])"
| "admin_request GetCredentialPool = get_call ''/api/credentials/pool''"
| "admin_request (AddCredentialPoolEntry provider api_key label) =
     json_call ''POST'' ''/api/credentials/pool''
       (JObj [(''provider'', JStr provider), (''api_key'', JStr api_key), (''label'', opt_str label)])"
| "admin_request (RemoveCredentialPoolEntry provider i) =
     bare_call ''DELETE''
       (''/api/credentials/pool/'' @ encodeURIComponent provider @ ''/'' @ show_int i)"
| "admin_request GetMemory = get_call ''/api/memory''"
| "admin_request (GetMemoryProviderConfig provider) =
     get_call (''/api/memory/providers/'' @ encodeURIComponent provider @ ''/config'')"
| "admin_request (UpdateMemoryProviderConfig provider vals) =
     json_call ''PUT'' (''/api/memory/providers/'' @ encodeURIComponent provider @ ''/config'')
       (JObj [(''values'', vals)])"
| "admin_request (SetupMemoryProvider provider vals) =
     json_call ''POST'' (''/api/memory/providers/'' @ encodeURIComponent provider @ ''/setup'')
       (JObj [(''values'', or_default vals (JObj []))])"
| "admin_request (SetMemoryProvider provider) =
     json_call ''PUT'' ''/api/memory/provider'' (JObj [(''provider'', JStr provider)])"
| "admin_request (ResetMemory target) =
     json_call ''POST'' ''/api/memory/reset'' (JObj [(''target'', JStr target)])"

primrec admin_route :: "admin_call \<Rightarrow> route" where
  "admin_route GetMcpServers = ([''api'', ''mcp'', ''servers''], [], [])"
| "admin_route (AddMcpServer body) = ([''api'', ''mcp'', ''servers''], [], [])"
| "admin_route (AuthMcpServer name) = ([''api'', ''mcp'', ''servers'', name, ''auth''], [], [])"
| "admin_route (GetMcpOAuthFlow flowId) = ([''api'', ''mcp'', ''oauth'', ''flows'', flowId], [], [])"
| "admin_route (RemoveMcpServer name) = ([''api'', ''mcp'', ''servers'', name], [], [])"
| "admin_route (TestMcpServer name) = ([''api'', ''mcp'', ''servers'', name, ''test''], [], [])"
| "admin_route (SetMcpServerEnabled name enabled) =
     ([''api'', ''mcp'', ''servers'', name, ''enabled''], [], [])"
| "admin_route GetMcpCatalog = ([''api'', ''mcp'', ''catalog''], [], [])"
| "admin_route (InstallMcpCatalogEntry name env enable) =
     ([''api'', ''mcp'', ''catalog'', ''install''], [], [])"
| "admin_route GetPairing = ([''api'', ''pairing''], [], [])"
| "admin_route (ApprovePairing platform c) = ([''api'', ''pairing'', ''approve''], [], [])"
| "admin_route (RevokePairing platform user_id) = ([''api'', ''pairing'', ''revoke''], [], [])"
| "admin_route ClearPendingPairing = ([''api'', ''pairing'', ''clear-pending''], [], [])"
| "admin_route GetWebhooks = ([''api'', ''webhooks''], [], [])"
| "admin_route EnableWebhooks = ([''api'', ''webhooks'', ''enable''], [], [])"
| "admin_route (CreateWebhook body) = ([''api'', ''webhooks''], [], [])"
| "admin_route (DeleteWebhook name) = ([''api'', ''webhooks'', name], [], [])"
| "admin_route (SetWebhookEnabled name enabled) = ([''api'', ''webhooks'', name, ''enabled''], [], [])"
| "admin_route GetCredentialPool = ([''api'', ''credentials'', ''pool''], [], [])"
| "admin_route (AddCredentialPoolEntry provider api_key label) = ([''api'', ''credentials'', ''pool''], [], [])"
| "admin_route (RemoveCredentialPoolEntry provider i) =
     ([''api'', ''credentials'', ''pool'', provider, show_int i], [], [])"
| "admin_route GetMemory = ([''api'', ''memory''], [], [])"
| "admin_route (GetMemoryProviderConfig provider) =
     ([''api'', ''memory'', ''providers'', provider, ''config''], [], [])"
| "admin_route (UpdateMemoryProviderConfig provider vals) =
     ([''api'', ''memory'', ''providers'', provider, ''config''], [], [])"
| "admin_route (SetupMemoryProvider provider vals) =
     ([''api'', ''memory'', ''providers'', provider, ''setup''], [], [])"
| "admin_route (SetMemoryProvider provider) = ([''api'', ''memory'', ''provider''], [], [])"
| "admin_route (ResetMemory target) = ([''api'', ''memory'', ''reset''], [], [])"

lemma encode_admin_words [route_simps]:
  "encodeURIComponent ''mcp'' = ''mcp'' \<and>
     encodeURIComponent ''servers'' = ''servers'' \<and>
     encodeURIComponent ''auth'' = ''auth'' \<and>
     encodeURIComponent ''flows'' = ''flows'' \<and>
     encodeURIComponent ''enabled'' = ''enabled'' \<and>
     encodeURIComponent ''catalog'' = ''catalog'' \<and>
     encodeURIComponent ''pairing'' = ''pairing'' \<and>
     encodeURIComponent ''approve'' = ''approve'' \<and>
     encodeURIComponent ''revoke'' = ''revoke'' \<and>
     encodeURIComponent ''clear-pending'' = ''clear-pending'' \<and>
     encodeURIComponent ''webhooks'' = ''webhooks'' \<and>
     encodeURIComponent ''credentials'' = ''credentials'' \<and>
     encodeURIComponent ''pool'' = ''pool'' \<and>
     encodeURIComponent ''memory'' = ''memory'' \<and>
     encodeURIComponent ''setup'' = ''setup'' \<and>
     encodeURIComponent ''reset'' = ''reset''"
  by code_simp

lemma admin_target: "fst (admin_request c) = route_target (admin_route c)"
  by (cases c) (simp_all add: route_simps)

section \<open>Operations and diagnostics\<close>

datatype ops_call =
    StartGateway
  | StopGateway
  | RunDoctor
  | RunSecurityAudit
  | RunBackup "string option"
  | RunImport string "bool option"
  | RunImportUpload js_file "bool option"
  | GetHooks
  | CreateHook js
  | DeleteHook string string
  | GetSystemStats
  | GetCurator
  | SetCuratorPaused bool
  | RunCurator
  | GetPortal
  | RunPromptSize
  | RunDump
  | RunConfigMigrate
  | RunDebugShare "bool option" "int option"
  | GetCheckpoints
  | PruneCheckpoints

primrec ops_request :: "ops_call \<Rightarrow> api_request" where
  "ops_request StartGateway = bare_call ''POST'' ''/api/gateway/start''"
| "ops_request StopGateway = bare_call ''POST'' ''/api/gateway/stop''"
| "ops_request RunDoctor = bare_call ''POST'' ''/api/ops/doctor''"
| "ops_request RunSecurityAudit = bare_call ''POST'' ''/api/ops/security-audit''"
| "ops_request (RunBackup output) =
     json_call ''POST'' ''/api/ops/backup'' (JObj [(''output'', opt_str output)])"
| "ops_request (RunImport archive force) =
     json_call ''POST'' ''/api/ops/import''
       (JObj [(''archive'', JStr archive), (''force'', JBool (or_default force False))])"
| "ops_request (RunImportUpload file force) =
     form_call ''POST'' ''/api/ops/import-upload''
       [(''force'', FText (js_bool_text (or_default force False))), (''file'', FFile (fst file) (snd file))]"
| "ops_request GetHooks = get_call ''/api/ops/hooks''"
| "ops_request (CreateHook body) = json_call ''POST'' ''/api/ops/hooks'' body"
| "ops_request (DeleteHook event command) =
     json_call ''DELETE'' ''/api/ops/hooks''
       (JObj [(''event'', JStr event), (''command'', JStr command)])"
| "ops_request GetSystemStats = get_call ''/api/system/stats''"
| "ops_request GetCurator = get_call ''/api/curator''"
| "ops_request (SetCuratorPaused paused) =
     json_call ''PUT'' ''/api/curator/paused'' (JObj [(''paused'', JBool paused)])"
| "ops_request RunCurator = bare_call ''POST'' ''/api/curator/run''"
| "ops_request GetPortal = get_call ''/api/portal''"
| "ops_request RunPromptSize = bare_call ''POST'' ''/api/ops/prompt-size''"
| "ops_request RunDump = bare_call ''POST'' ''/api/ops/dump''"
| "ops_request RunConfigMigrate = bare_call ''POST'' ''/api/ops/config-migrate''"
| "ops_request (RunDebugShare redact lines) =
     json_call ''POST'' ''/api/ops/debug-share''
       (JObj [(''redact'', JBool (or_default redact True)), (''lines'', JNum (or_default lines 200))])"
| "ops_request GetCheckpoints = get_call ''/api/ops/checkpoints''"
| "ops_request PruneCheckpoints = bare_call ''POST'' ''/api/ops/checkpoints/prune''"

text \<open>A backup is downloaded with \<open>authedFetch\<close>, which adds no profile.\<close>

definition download_backup_target :: "string \<Rightarrow> string" where
  "download_backup_target archive = ''/api/ops/backup/download?archive='' @ encodeURIComponent archive"

primrec ops_route :: "ops_call \<Rightarrow> route" where
  "ops_route StartGateway = ([''api'', ''gateway'', ''start''], [], [])"
| "ops_route StopGateway = ([''api'', ''gateway'', ''stop''], [], [])"
| "ops_route RunDoctor = ([''api'', ''ops'', ''doctor''], [], [])"
| "ops_route RunSecurityAudit = ([''api'', ''ops'', ''security-audit''], [], [])"
| "ops_route (RunBackup output) = ([''api'', ''ops'', ''backup''], [], [])"
| "ops_route (RunImport archive force) = ([''api'', ''ops'', ''import''], [], [])"
| "ops_route (RunImportUpload file force) = ([''api'', ''ops'', ''import-upload''], [], [])"
| "ops_route GetHooks = ([''api'', ''ops'', ''hooks''], [], [])"
| "ops_route (CreateHook body) = ([''api'', ''ops'', ''hooks''], [], [])"
| "ops_route (DeleteHook event command) = ([''api'', ''ops'', ''hooks''], [], [])"
| "ops_route GetSystemStats = ([''api'', ''system'', ''stats''], [], [])"
| "ops_route GetCurator = ([''api'', ''curator''], [], [])"
| "ops_route (SetCuratorPaused paused) = ([''api'', ''curator'', ''paused''], [], [])"
| "ops_route RunCurator = ([''api'', ''curator'', ''run''], [], [])"
| "ops_route GetPortal = ([''api'', ''portal''], [], [])"
| "ops_route RunPromptSize = ([''api'', ''ops'', ''prompt-size''], [], [])"
| "ops_route RunDump = ([''api'', ''ops'', ''dump''], [], [])"
| "ops_route RunConfigMigrate = ([''api'', ''ops'', ''config-migrate''], [], [])"
| "ops_route (RunDebugShare redact lines) = ([''api'', ''ops'', ''debug-share''], [], [])"
| "ops_route GetCheckpoints = ([''api'', ''ops'', ''checkpoints''], [], [])"
| "ops_route PruneCheckpoints = ([''api'', ''ops'', ''checkpoints'', ''prune''], [], [])"

lemma encode_ops_words [route_simps]:
  "encodeURIComponent ''stop'' = ''stop'' \<and>
     encodeURIComponent ''ops'' = ''ops'' \<and>
     encodeURIComponent ''doctor'' = ''doctor'' \<and>
     encodeURIComponent ''security-audit'' = ''security-audit'' \<and>
     encodeURIComponent ''backup'' = ''backup'' \<and>
     encodeURIComponent ''import-upload'' = ''import-upload'' \<and>
     encodeURIComponent ''hooks'' = ''hooks'' \<and>
     encodeURIComponent ''system'' = ''system'' \<and>
     encodeURIComponent ''curator'' = ''curator'' \<and>
     encodeURIComponent ''paused'' = ''paused'' \<and>
     encodeURIComponent ''run'' = ''run'' \<and>
     encodeURIComponent ''portal'' = ''portal'' \<and>
     encodeURIComponent ''prompt-size'' = ''prompt-size'' \<and>
     encodeURIComponent ''dump'' = ''dump'' \<and>
     encodeURIComponent ''config-migrate'' = ''config-migrate'' \<and>
     encodeURIComponent ''debug-share'' = ''debug-share'' \<and>
     encodeURIComponent ''checkpoints'' = ''checkpoints'' \<and>
     encodeURIComponent ''download'' = ''download'' \<and>
     encodeURIComponent ''archive'' = ''archive''"
  by code_simp

lemma ops_target: "fst (ops_request c) = route_target (ops_route c)"
  by (cases c) (simp_all add: route_simps)

end
