(* ===== verification/ApiCalls.thy ===== *)
theory ApiCalls
  imports ApiOps
begin

text \<open>
  All the calls of \<open>api\<close> in \<open>web/src/lib/api.ts\<close> together: the request each sends
  through \<open>fetchJSON\<close>, refined to its route, and what every request has in common.
\<close>

section \<open>The client object\<close>

datatype api_call =
    SessionCall session_call
  | FileCall file_call
  | ConfigCall config_call
  | CronCall cron_call
  | ProfileCall profile_call
  | SkillCall skill_call
  | PlatformCall platform_call
  | DashboardCall dashboard_call
  | AdminCall admin_call
  | OpsCall ops_call
  | GetAuthMe

primrec api_request :: "string \<Rightarrow> api_call \<Rightarrow> api_request" where
  "api_request mp (SessionCall c) = session_request mp c"
| "api_request mp (FileCall c) = file_request c"
| "api_request mp (ConfigCall c) = config_request mp c"
| "api_request mp (CronCall c) = cron_request c"
| "api_request mp (ProfileCall c) = profile_request c"
| "api_request mp (SkillCall c) = skill_request c"
| "api_request mp (PlatformCall c) = platform_request c"
| "api_request mp (DashboardCall c) = dashboard_request c"
| "api_request mp (AdminCall c) = admin_request c"
| "api_request mp (OpsCall c) = ops_request c"
| "api_request mp GetAuthMe = get_call ''/api/auth/me''"

text \<open>Only the identity probe opts out of the reload on a 401.\<close>

definition allow_unauthorized :: "api_call \<Rightarrow> bool" where
  "allow_unauthorized c \<longleftrightarrow> c = GetAuthMe"

primrec api_route :: "string \<Rightarrow> api_call \<Rightarrow> route" where
  "api_route mp (SessionCall c) = session_route mp c"
| "api_route mp (FileCall c) = file_route c"
| "api_route mp (ConfigCall c) = config_route mp c"
| "api_route mp (CronCall c) = cron_route c"
| "api_route mp (ProfileCall c) = profile_route c"
| "api_route mp (SkillCall c) = skill_route c"
| "api_route mp (PlatformCall c) = platform_route c"
| "api_route mp (DashboardCall c) = dashboard_route c"
| "api_route mp (AdminCall c) = admin_route c"
| "api_route mp (OpsCall c) = ops_route c"
| "api_route mp GetAuthMe = ([''api'', ''auth'', ''me''], [], [])"

definition send_api_call :: "string \<Rightarrow> tab \<Rightarrow> api_call \<Rightarrow> http_request" where
  "send_api_call base t c =
     (case api_request (managementProfile t) c of (u, init) \<Rightarrow> fetch_json_request base t u init)"

text \<open>\<open>logout\<close> is a plain \<open>fetch\<close> followed by a full-page navigation.\<close>

definition logout_request :: "string \<Rightarrow> http_request" where
  "logout_request base =
     \<lparr>reqUrl = base @ ''/auth/logout'', reqMethod = Some ''POST'', reqHeaders = [], reqBody = NoBody,
      reqCredentials = ''include''\<rparr>"

definition logout_settle :: "fetch_result \<Rightarrow> tab \<Rightarrow> tab" where
  "logout_settle fr t = (case fr of FetchFailed e \<Rightarrow> t | Responded r \<Rightarrow> navigate (Assign ''/login'') t)"

section \<open>The keys of the query parameters\<close>

definition plain_key :: "string \<Rightarrow> bool" where
  "plain_key k \<longleftrightarrow> (ends_with (encodeURIComponent k) ''profile'' \<longleftrightarrow> k = ''profile'')
     \<and> (ends_with (form_encode k) ''profile'' \<longleftrightarrow> k = ''profile'')"

lemma plain_key_words [simp]:
  "plain_key ''limit'' \<and> plain_key ''offset'' \<and> plain_key ''order'' \<and> plain_key ''q'' \<and>
   plain_key ''path'' \<and> plain_key ''file'' \<and> plain_key ''lines'' \<and> plain_key ''level'' \<and>
   plain_key ''component'' \<and> plain_key ''days'' \<and> plain_key ''profile'' \<and> plain_key ''refresh'' \<and>
   plain_key ''include_unconfigured'' \<and> plain_key ''name'' \<and> plain_key ''source'' \<and>
   plain_key ''identifier'' \<and> plain_key ''force''"
  by code_simp

lemma plain_keys_iff: "list_all plain_key (map fst ps) \<Longrightarrow> plain_keys ps \<and> plain_form_keys ps"
  by (auto simp: plain_keys_def plain_form_keys_def plain_key_def list_all_iff)

text \<open>A route is printable when it has a segment and only plain keys, no key twice.\<close>

definition good_route :: "route \<Rightarrow> bool" where
  "good_route r = (case r of (segs, ps, p) \<Rightarrow>
     segs \<noteq> [] \<and> list_all plain_key (map fst ps) \<and> distinct (map fst ps))"

lemma good_session_route: "good_route (session_route mp c)"
  by (cases c) (auto simp: good_route_def)

lemma good_cron_route: "good_route (cron_route c)"
  by (cases c) (auto simp: good_route_def)

lemma good_profile_route: "good_route (profile_route c)"
  by (cases c) (auto simp: good_route_def)

lemma good_platform_route: "good_route (platform_route c)"
  by (cases c) (auto simp: good_route_def)

lemma good_dashboard_route: "good_route (dashboard_route c)"
  by (cases c) (auto simp: good_route_def)

lemma good_admin_route: "good_route (admin_route c)"
  by (cases c) (auto simp: good_route_def)

lemma good_ops_route: "good_route (ops_route c)"
  by (cases c) (auto simp: good_route_def)

lemma good_file_route: "good_route (file_route c)"
  by (cases c) (auto simp: good_route_def opt_param_def log_params_def split: option.split)

lemma good_config_route: "good_route (config_route mp c)"
  by (cases c) (auto simp: good_route_def model_option_params_def Let_def)

lemma good_skill_route: "good_route (skill_route c)"
  by (cases c) (auto simp: good_route_def opt_param_def)

lemmas good_routes = good_session_route good_cron_route good_profile_route good_platform_route
  good_dashboard_route good_admin_route good_ops_route good_file_route good_config_route
  good_skill_route

lemma good_api_route: "good_route (api_route mp c)"
  by (cases c) (simp_all add: good_routes, simp add: good_route_def)

lemma reads_route_target:
  "good_route (segs, ps, p) \<Longrightarrow> reads (route_target (segs, ps, p)) segs (add_profile p ps)"
  using plain_keys_iff [of ps]
  by (simp add: route_target_def good_route_def reads_append_profile_param reads_print_route)

lemma reads_search_target:
  "good_route (segs, ps, []) \<Longrightarrow> reads (print_path segs @ CHR ''?'' # search_params_string ps) segs (add_profile [] ps)"
  using plain_keys_iff [of ps]
  by (simp add: good_route_def add_profile_def reads_search_params)

lemma auth_me_target: "''/api/auth/me'' = route_target ([''api'', ''auth'', ''me''], [], [])"
  by code_simp

lemma api_call_reads:
  assumes "api_route mp c = (segs, ps, p)"
  shows "reads (fst (api_request mp c)) segs (add_profile p ps)"
proof -
  have good: "good_route (segs, ps, p)" using good_api_route [of mp c] assms by simp
  consider f l v k where "c = FileCall (GetLogs f l v k)" | arg where "c = ConfigCall (GetModelOptions arg)"
    | "fst (api_request mp c) = route_target (api_route mp c)"
  proof (cases c)
    case (FileCall fc)
    with that(1,3) file_target [of fc] show ?thesis by auto
  next
    case (ConfigCall cc)
    with that(2,3) config_target [of cc mp] show ?thesis by auto
  qed (use that(3) in \<open>simp_all add: session_target cron_target profile_target skill_target
        platform_target dashboard_target admin_target ops_target get_call_def auth_me_target\<close>)
  then show ?thesis
  proof cases
    case 1
    with assms good show ?thesis
      by (auto simp: get_logs_target reads_search_target simp del: file_request.simps)
  next
    case 2
    with assms good show ?thesis
      by (auto simp: get_model_options_target reads_search_target simp del: config_request.simps)
  next
    case 3
    with assms good show ?thesis by (simp add: reads_route_target)
  qed
qed

lemma api_call_reads_scoped:
  "api_route mp c = (segs, ps, p) \<Longrightarrow>
     reads (with_management_profile mp (fst (api_request mp c))) segs (scope_params mp segs (add_profile p ps))"
  by (intro reads_with_management_profile api_call_reads)

section \<open>What the server reads\<close>

text \<open>Claim C2. Every call of the client reaches its route: for every argument (session id, file path,
  search text, plugin key with slashes, ...) and every global management profile, the target that
  is sent decodes to exactly the path segments and query parameters of the route, with the
  profile of the call, or the global one on the profile-scoped families, as a last parameter.\<close>

theorem api_calls_reach_their_route:
  "case api_route mp c of (segs, ps, p) \<Rightarrow>
     let u = with_management_profile mp (fst (api_request mp c))
     in path_segments u = map Some segs
        \<and> query_params u = map (\<lambda>(k, v). (Some k, Some v)) (scope_params mp segs (add_profile p ps))"
  using api_call_reads_scoped [of mp c] by (auto simp: reads_def Let_def)

lemma profile_values_reads:
  "reads u segs ps \<Longrightarrow> profile_values u = map (Some \<circ> snd) (filter (\<lambda>p. fst p = ''profile'') ps)"
  by (simp add: reads_def profile_values_def filter_map o_def case_prod_unfold)

lemma distinct_one_value: "distinct (map fst ps) \<Longrightarrow> length (filter (\<lambda>p. fst p = k) ps) \<le> 1"
proof (induction ps)
  case (Cons p ps)
  then show ?case by (cases "fst p = k") (auto simp: filter_empty_conv image_iff)
qed simp

lemma scope_params_distinct:
  "distinct (map fst ps) \<Longrightarrow> distinct (map fst (scope_params mp segs (add_profile p ps)))"
  by (auto simp: scope_params_def add_profile_def)

text \<open>No call names two profiles in its target: whatever the arguments and the global
  management profile, at most one \<open>profile\<close> parameter is sent, so no server can pick a
  different one than the caller meant.\<close>

theorem at_most_one_profile:
  "length (profile_values (with_management_profile mp (fst (api_request mp c)))) \<le> 1"
proof -
  obtain segs ps p where r: "api_route mp c = (segs, ps, p)" by (cases "api_route mp c") auto
  with good_api_route [of mp c] have "distinct (map fst ps)" by (simp add: good_route_def)
  then show ?thesis
    using profile_values_reads [OF api_call_reads_scoped [OF r]]
    using distinct_one_value [OF scope_params_distinct] by simp
qed

section \<open>Bodies\<close>

text \<open>A body travels with a method that allows one and with its content type; a form leaves the
  content type, and so the multipart boundary, to the browser.\<close>

definition coherent_init :: "request_init \<Rightarrow> bool" where
  "coherent_init init \<longleftrightarrow> initCredentials init = None \<and>
     (case initBody init of
        NoBody \<Rightarrow> initHeaders init = []
      | JsonBody v \<Rightarrow> initHeaders init = JSON_HEADERS \<and> initMethod init \<in> {Some ''POST'', Some ''PUT'', Some ''PATCH'', Some ''DELETE''}
      | TextBody s \<Rightarrow> initHeaders init = JSON_HEADERS \<and> initMethod init = Some ''POST''
      | FormBody fs \<Rightarrow> initHeaders init = [] \<and> initMethod init = Some ''POST'')"

lemma coherent_calls [simp]:
  "coherent_init (snd (get_call u))" "coherent_init (snd (bare_call m u))"
  "m \<in> {''POST'', ''PUT'', ''PATCH'', ''DELETE''} \<Longrightarrow> coherent_init (snd (json_call m u v))"
  "coherent_init (snd (form_call ''POST'' u parts))"
  by (auto simp: coherent_init_def get_call_def bare_call_def json_call_def form_call_def no_init_def)

lemma coherent_families:
  "coherent_init (snd (session_request mp sc))" "coherent_init (snd (file_request fc))"
  "coherent_init (snd (config_request mp cc))" "coherent_init (snd (cron_request rc))"
  "coherent_init (snd (profile_request pc))" "coherent_init (snd (skill_request kc))"
  "coherent_init (snd (platform_request lc))" "coherent_init (snd (dashboard_request dc))"
  "coherent_init (snd (admin_request ac))" "coherent_init (snd (ops_request oc))"
  subgoal by (cases sc) simp_all
  subgoal by (cases fc) simp_all
  subgoal by (cases cc) (simp_all add: Let_def)
  subgoal by (cases rc) simp_all
  subgoal by (cases pc) simp_all
  subgoal by (cases kc) simp_all
  subgoal by (cases lc) (simp_all, simp add: coherent_init_def no_init_def)
  subgoal by (cases dc) simp_all
  subgoal by (cases ac) simp_all
  subgoal by (cases oc) simp_all
  done

lemma coherent_api_call: "coherent_init (snd (api_request mp c))"
  by (cases c) (simp_all add: coherent_families)

lemma header_names:
  "lower ''Content-Type'' = ''content-type'' \<and> lower SESSION_HEADER = ''x-hermes-session-token''"
  by code_simp

lemma mk_headers_json: "mk_headers JSON_HEADERS = [(''content-type'', ''application/json'')]"
  by (simp add: mk_headers_def JSON_HEADERS_def headers_append_def header_names Let_def)

text \<open>The headers of a coherent request: its content type, and the token the server injected.\<close>

lemma coherent_headers:
  assumes "coherent_init init"
  shows "map_of (auth_headers t (initHeaders init)) (lower SESSION_HEADER)
           = (if truthy_str (sessionToken t) then sessionToken t else None)"
    and "map_of (auth_headers t (initHeaders init)) ''content-type''
           = (case initBody init of JsonBody v \<Rightarrow> Some ''application/json''
              | TextBody s \<Rightarrow> Some ''application/json'' | _ \<Rightarrow> None)"
proof -
  have "mk_headers [] = []" by (simp add: mk_headers_def)
  note defs = this mk_headers_json auth_headers_def set_session_header_def header_names coherent_init_def
  show "map_of (auth_headers t (initHeaders init)) (lower SESSION_HEADER)
           = (if truthy_str (sessionToken t) then sessionToken t else None)"
    using assms by (cases "initBody init") (auto simp: defs truthy_str_def)
  show "map_of (auth_headers t (initHeaders init)) ''content-type''
           = (case initBody init of JsonBody v \<Rightarrow> Some ''application/json''
              | TextBody s \<Rightarrow> Some ''application/json'' | _ \<Rightarrow> None)"
    using assms by (cases "initBody init") (auto simp: defs)
qed

text \<open>Claim C7. Every request is well formed and authenticated: a body is only sent with a method that
  allows one and is declared as JSON exactly when it is JSON, the session token header is the
  injected token, and cookies are included.\<close>

theorem api_calls_well_formed:
  "let r = send_api_call base t c; (u, init) = api_request (managementProfile t) c
   in reqBody r = initBody init \<and> reqMethod r = initMethod init \<and> coherent_init init
      \<and> map_of (reqHeaders r) (lower SESSION_HEADER) = (if truthy_str (sessionToken t) then sessionToken t else None)
      \<and> map_of (reqHeaders r) ''content-type'' =
          (case initBody init of JsonBody v \<Rightarrow> Some ''application/json''
           | TextBody s \<Rightarrow> Some ''application/json'' | _ \<Rightarrow> None)
      \<and> reqCredentials r = ''include''"
proof -
  let ?c = "api_request (managementProfile t) c"
  have co: "coherent_init (snd ?c)" by (rule coherent_api_call)
  then have "initCredentials (snd ?c) = None" by (simp add: coherent_init_def)
  with co coherent_headers [OF co, of t] show ?thesis
    by (simp add: send_api_call_def fetch_json_request_def authed_request_def case_prod_unfold Let_def)
qed

section \<open>A profile in the body is not an explicit profile\<close>

text \<open>The comment on the management profile says that calls that already carry an explicit profile are
  left untouched. A call that carries it in its body is not: with a global profile set, toggling a
  skill of one profile sends the other profile in the query.\<close>

theorem toggle_skill_names_two_profiles:
  "let (u, init) = api_request mp (SkillCall (ToggleSkill ''web'' True (Some ''work'')))
   in initBody init = JsonBody (JObj [(''name'', JStr ''web''), (''enabled'', JBool True), (''profile'', JStr ''work'')])
      \<and> profile_values (with_management_profile mp u) = (if mp = [] then [] else [Some mp])"
proof -
  have r: "api_route mp (SkillCall (ToggleSkill ''web'' True (Some ''work''))) = ([''api'', ''skills'', ''toggle''], [], [])"
    by simp
  have "path_scoped [''api'', ''skills'', ''toggle'']" by code_simp
  then show ?thesis
    using profile_values_reads [OF api_call_reads_scoped [OF r]]
    by (simp add: scope_params_def add_profile_def json_call_def profile_field_def or_default_def str_or_undef_def)
qed

end
