(* ===== verification/PtyInput.thy ===== *)
theory PtyInput
  imports JsValue
begin

text \<open>
  The input of the embedded terminal on phones, \<open>web/src/lib/pty-mobile-input.ts\<close>: an input
  method that replaces text sends the replacement as if it were typed, so the page tracks the
  line being edited and turns such input into erasures followed by the new line.
  \<open>toLocaleLowerCase\<close> is \<open>lower\<close>, as in every locale whose case mapping is the default one.
\<close>

section \<open>The line tracker\<close>

definition DEL :: char where
  "DEL = CHR 0x7F"

definition ESC :: char where
  "ESC = CHR 0x1B"

definition MOBILE_REPLACEMENT_WINDOW_MS :: int where
  "MOBILE_REPLACEMENT_WINDOW_MS = 350"

definition is_plain_char :: "char \<Rightarrow> bool" where
  "is_plain_char c \<longleftrightarrow> 32 \<le> code c \<and> code c \<noteq> 127"

definition is_plain_text :: "string \<Rightarrow> bool" where
  "is_plain_text data \<longleftrightarrow> list_all is_plain_char data"

text \<open>One character received by the line editor: submit, erase, kill, or a printable character.\<close>

definition line_char :: "string \<Rightarrow> char \<Rightarrow> string" where
  "line_char line ch =
     (if code ch = 13 \<or> code ch = 10 then []
      else if ch = DEL \<or> code ch = 8 then butlast line
      else if code ch = 21 then []
      else if is_plain_char ch then line @ [ch]
      else line)"

definition update_pty_input_line :: "string \<Rightarrow> string \<Rightarrow> string" where
  "update_pty_input_line currentLine data =
     (if ESC \<in> set data then [] else foldl line_char currentLine data)"

section \<open>Recognising a replacement\<close>

text \<open>A dot of a regular expression matches no line terminator.\<close>

definition dots :: "string \<Rightarrow> bool" where
  "dots s \<longleftrightarrow> list_all (\<lambda>c. code c \<noteq> 10 \<and> code c \<noteq> 13) s"

text \<open>\<open>^(.*?)(\S+)(\s*)$\<close>: what precedes the last word, the last word, white space.\<close>

definition last_word_match :: "string \<Rightarrow> (string \<times> string \<times> string) option" where
  "last_word_match line =
     (let trailing = rev (takeWhile is_ws (rev line));
          r = dropWhile is_ws (rev line);
          word = rev (takeWhile (\<lambda>c. \<not> is_ws c) r);
          before = rev (dropWhile (\<lambda>c. \<not> is_ws c) r)
      in if word = [] \<or> \<not> dots before then None else Some (before, word, trailing))"

text \<open>\<open>^(.*?)(\S+)(\s+)(\S+)(\s*)$\<close>: the last two words.\<close>

definition last_two_words_match ::
  "string \<Rightarrow> (string \<times> string \<times> string \<times> string \<times> string) option" where
  "last_two_words_match txt =
     (let trailing = rev (takeWhile is_ws (rev txt));
          r = dropWhile is_ws (rev txt);
          second = rev (takeWhile (\<lambda>c. \<not> is_ws c) r);
          r2 = dropWhile (\<lambda>c. \<not> is_ws c) r;
          gap = rev (takeWhile is_ws r2);
          r3 = dropWhile is_ws r2;
          first = rev (takeWhile (\<lambda>c. \<not> is_ws c) r3);
          before = rev (dropWhile (\<lambda>c. \<not> is_ws c) r3)
      in if second = [] \<or> gap = [] \<or> first = [] \<or> \<not> dots before then None
         else Some (before, first, gap, second, trailing))"

definition collapse_duplicated_final_word :: "string \<Rightarrow> string \<Rightarrow> string" where
  "collapse_duplicated_final_word txt previousLine =
     (case last_two_words_match txt of
        None \<Rightarrow> txt
      | Some (before, first, gap, second, trailing) \<Rightarrow>
          if lower first \<noteq> lower second then txt
          else if length first < 2 then txt
          else if \<not> ends_with (lower (trim_end previousLine)) (lower first) then txt
          else before @ first @ trailing)"

definition replacement_line :: "string \<Rightarrow> string \<Rightarrow> string option" where
  "replacement_line currentLine incoming =
     (if currentLine = [] \<or> length currentLine < 2 \<or> incoming = [] then None
      else if starts_with (lower incoming) (lower currentLine)
      then Some (collapse_duplicated_final_word incoming currentLine)
      else (case last_word_match currentLine of
          None \<Rightarrow> None
        | Some (before, word, trailing) \<Rightarrow>
            if trailing \<noteq> [] then None
            else (let incomingFirst = hd (split_ws (trim_start incoming))
                  in if incomingFirst \<noteq> [] \<and> lower incomingFirst = lower word
                     then Some (before @ collapse_duplicated_final_word incoming currentLine)
                     else None)))"

definition should_treat_input_as_mobile_replacement ::
  "string option \<Rightarrow> string option \<Rightarrow> bool \<Rightarrow> bool" where
  "should_treat_input_as_mobile_replacement inputType data isMobileLike \<longleftrightarrow>
     inputType = Some ''insertReplacementText'' \<or> inputType = Some ''insertFromComposition''
     \<or> inputType = Some ''insertCompositionText''
     \<or> (isMobileLike \<and> inputType = Some ''insertText''
        \<and> (case data of None \<Rightarrow> 0 | Some s \<Rightarrow> length s) > 1)"

record normalized_input =
  sentData :: string
  nextLine :: string
  wasNormalized :: bool

definition normalize_pty_mobile_input :: "string \<Rightarrow> string \<Rightarrow> bool \<Rightarrow> normalized_input" where
  "normalize_pty_mobile_input data currentLine replacementActive =
     (let plain = \<lparr>sentData = data, nextLine = update_pty_input_line currentLine data, wasNormalized = False\<rparr>
      in if replacementActive \<and> is_plain_text data then
           (case replacement_line currentLine data of
              None \<Rightarrow> plain
            | Some l \<Rightarrow> \<lparr>sentData = replicate (length currentLine) DEL @ l, nextLine = l,
                          wasNormalized = True\<rparr>)
         else plain)"

section \<open>The tracker follows the terminal\<close>

lemma foldl_line_del: "n \<le> length line \<Longrightarrow>
  foldl line_char line (replicate n DEL) = take (length line - n) line"
proof (induction n arbitrary: line)
  case (Suc n)
  have "foldl line_char line (replicate (Suc n) DEL) = foldl line_char (butlast line) (replicate n DEL)"
    by (simp add: line_char_def DEL_def code_def)
  also have "\<dots> = take (length (butlast line) - n) (butlast line)"
    using Suc.prems by (intro Suc.IH) simp
  finally show ?case by (simp add: butlast_conv_take min_def)
qed simp

lemma plain_char_line: "is_plain_char c \<Longrightarrow> line_char line c = line @ [c]"
  by (auto simp: is_plain_char_def line_char_def DEL_def code_def)

lemma foldl_line_plain: "is_plain_text s \<Longrightarrow> foldl line_char line s = line @ s"
  by (induction s arbitrary: line) (simp_all add: is_plain_text_def plain_char_line)

lemma is_plain_text_append [simp]: "is_plain_text (s @ t) \<longleftrightarrow> is_plain_text s \<and> is_plain_text t"
  by (simp add: is_plain_text_def)

lemma is_plain_text_subset: "is_plain_text s \<Longrightarrow> set t \<subseteq> set s \<Longrightarrow> is_plain_text t"
  by (auto simp: is_plain_text_def list_all_iff)

lemma set_takeWhile_subset: "set (takeWhile P xs) \<subseteq> set xs"
  by (auto dest: set_takeWhileD)

lemma last_word_match_parts:
  "last_word_match line = Some (before, word, trailing) \<Longrightarrow> line = before @ word @ trailing"
proof -
  assume m: "last_word_match line = Some (before, word, trailing)"
  have "rev line = takeWhile is_ws (rev line) @ takeWhile (\<lambda>c. \<not> is_ws c) (dropWhile is_ws (rev line))
      @ dropWhile (\<lambda>c. \<not> is_ws c) (dropWhile is_ws (rev line))" by simp
  then have "line = rev (dropWhile (\<lambda>c. \<not> is_ws c) (dropWhile is_ws (rev line)))
      @ rev (takeWhile (\<lambda>c. \<not> is_ws c) (dropWhile is_ws (rev line))) @ rev (takeWhile is_ws (rev line))"
    by (metis append.assoc rev_append rev_rev_ident)
  with m show ?thesis by (auto simp: last_word_match_def Let_def split: if_splits)
qed

lemma last_two_words_parts:
  assumes "last_two_words_match txt = Some (before, first, gap, second, trailing)"
  shows "set before \<union> set first \<union> set trailing \<subseteq> set txt"
  using assms set_takeWhile_subset set_dropWhile_subset
  unfolding last_two_words_match_def Let_def
  by (auto split: if_splits dest!: set_takeWhileD set_dropWhileD)

lemma collapse_plain: "is_plain_text txt \<Longrightarrow> is_plain_text (collapse_duplicated_final_word txt p)"
proof (cases "last_two_words_match txt")
  case (Some m)
  assume plain: "is_plain_text txt"
  obtain before first gap second trailing where m: "m = (before, first, gap, second, trailing)"
    by (cases m)
  have "is_plain_text (before @ first @ trailing)"
    using last_two_words_parts [OF Some [unfolded m]] by (intro is_plain_text_subset [OF plain]) auto
  with plain show ?thesis by (simp add: collapse_duplicated_final_word_def Some m)
qed (simp add: collapse_duplicated_final_word_def)

lemma replacement_line_plain:
  assumes "is_plain_text line" and data: "is_plain_text data" and "replacement_line line data = Some l"
  shows "is_plain_text l"
proof -
  consider "l = collapse_duplicated_final_word data line"
    | before word trailing where "last_word_match line = Some (before, word, trailing)"
      "l = before @ collapse_duplicated_final_word data line"
    using assms(3) by (auto simp: replacement_line_def Let_def split: if_splits option.splits)
  then show ?thesis
  proof cases
    case 2
    then have "is_plain_text before" using assms(1) last_word_match_parts [OF 2(1)] by simp
    with 2 data show ?thesis by (simp add: collapse_plain)
  qed (simp add: collapse_plain data)
qed

lemma line_char_plain: "is_plain_text line \<Longrightarrow> is_plain_text (line_char line c)"
proof -
  assume line: "is_plain_text line"
  have "set (butlast line) \<subseteq> set line" by (auto dest: in_set_butlastD)
  then have "is_plain_text (butlast line)" using line is_plain_text_subset by blast
  with line show ?thesis by (simp add: line_char_def) (simp add: is_plain_text_def)
qed

lemma update_line_plain: "is_plain_text line \<Longrightarrow> is_plain_text (update_pty_input_line line data)"
proof -
  have "is_plain_text l \<Longrightarrow> is_plain_text (foldl line_char l s)" for l s
    by (induction s arbitrary: l) (simp_all add: line_char_plain)
  moreover assume "is_plain_text line"
  ultimately show ?thesis by (simp add: update_pty_input_line_def is_plain_text_def)
qed

text \<open>The page as a machine: the line it tracks, and all it has sent to the terminal so far. An input is
  the data and whether the replacement window is open.\<close>

record tracked_input =
  trackedLine :: string
  sentBytes :: string

datatype input_event = InputData string bool

fun input_step :: "tracked_input \<Rightarrow> input_event \<Rightarrow> tracked_input" where
  "input_step st (InputData data active) =
     (let r = normalize_pty_mobile_input data (trackedLine st) active
      in \<lparr>trackedLine = nextLine r, sentBytes = sentBytes st @ sentData r\<rparr>)"

fun input_enabled :: "tracked_input \<Rightarrow> input_event \<Rightarrow> bool" where
  "input_enabled st (InputData data active) = (ESC \<notin> set data)"

definition empty_input :: tracked_input where
  "empty_input = \<lparr>trackedLine = [], sentBytes = []\<rparr>"

text \<open>The line a terminal in line mode shows for the bytes it received, by its control characters: line
  feed, return and Ctrl-U end a line, backspace and delete take out the character before them, and the
  characters it draws are the others from the space on.\<close>

definition tty_ends :: "char \<Rightarrow> bool" where
  "tty_ends c \<longleftrightarrow> of_char c \<in> {10, 13, 21 :: nat}"

definition tty_erases :: "char \<Rightarrow> bool" where
  "tty_erases c \<longleftrightarrow> of_char c \<in> {8, 127 :: nat}"

definition tty_draws :: "char \<Rightarrow> bool" where
  "tty_draws c \<longleftrightarrow> of_char c \<in> {32 :: nat..<127} \<union> {128..<256}"

abbreviation tty_line :: "string \<Rightarrow> string" where
  "tty_line \<equiv> edited_line tty_ends tty_erases tty_draws"

lemma tracked_line_edits:
  "foldl line_char (tty_line sent) data = tty_line (sent @ data)"
proof (rule edited_line_foldl)
  fix l c
  have "of_char c < (256 :: nat)" by simp
  moreover have "c = DEL \<longleftrightarrow> of_char c = (127 :: nat)"
    using code_inj [of c DEL] by (simp add: DEL_def code_def)
  ultimately show "line_char l c = (if tty_ends c then [] else if tty_erases c then butlast l else if tty_draws c then l @ [c] else l)"
    by (auto simp: line_char_def tty_ends_def tty_erases_def tty_draws_def is_plain_char_def code_def)
qed

definition lines_agree :: "tracked_input \<Rightarrow> bool" where
  "lines_agree st \<longleftrightarrow> trackedLine st = tty_line (sentBytes st) \<and> is_plain_text (trackedLine st)"

lemma normalize_agrees:
  fixes active :: bool
  assumes "is_plain_text line" and "ESC \<notin> set data"
  defines "r \<equiv> normalize_pty_mobile_input data line active"
  shows "foldl line_char line (sentData r) = nextLine r \<and> is_plain_text (nextLine r)"
proof (cases "active \<and> is_plain_text data \<and> replacement_line line data \<noteq> None")
  case True
  then obtain l where l: "replacement_line line data = Some l" by auto
  with True have "is_plain_text l" using assms(1) replacement_line_plain by blast
  with True l show ?thesis by (simp add: r_def normalize_pty_mobile_input_def foldl_line_del foldl_line_plain)
next
  case False
  then have "r = \<lparr>sentData = data, nextLine = update_pty_input_line line data, wasNormalized = False\<rparr>"
    by (auto simp: r_def normalize_pty_mobile_input_def Let_def split: option.split)
  with assms(1,2) show ?thesis by (simp add: update_line_plain) (simp add: update_pty_input_line_def)
qed

interpretation pty_input: machine empty_input input_step input_enabled lines_agree
proof
  show "lines_agree empty_input" by (simp add: lines_agree_def empty_input_def is_plain_text_def)
  show "lines_agree (input_step st e)" if "lines_agree st" "input_enabled st e" for st e
    using that normalize_agrees tracked_line_edits [of "sentBytes st"]
    by (cases e) (fastforce simp: lines_agree_def Let_def)
qed

text \<open>Claim C6. The page never loses track of the terminal's line: after any sequence of inputs without
  escape sequences, with the replacement window open or closed at each of them, the line the page
  tracks is the one a terminal in line mode shows for the bytes that were sent: what was drawn since
  the last line feed, return or Ctrl-U and not taken out by a backspace or delete, read off all the bytes
  from their end. So a replacement erases exactly the line it replaces.\<close>

theorem tracker_follows_terminal:
  "legal_run input_enabled input_step empty_input es \<Longrightarrow>
     trackedLine (foldl input_step empty_input es)
       = edited_line tty_ends tty_erases tty_draws (sentBytes (foldl input_step empty_input es))"
  using pty_input.run_inv by (simp add: lines_agree_def)

definition sample_inputs :: "input_event list" where
  "sample_inputs = [InputData (''hello my name is kain'' @ [char_of (10 :: nat)]) False,
     InputData ''no '' False, InputData [char_of (21 :: nat)] False,
     InputData (''hello my name is kaim'' @ [char_of (8 :: nat)]) False, InputData ''n'' False,
     InputData ''Kain'' True, InputData '' now'' False]"

theorem tracker_follows_terminal_witness:
  "trackedLine (foldl input_step empty_input sample_inputs)
     = edited_line tty_ends tty_erases tty_draws (sentBytes (foldl input_step empty_input sample_inputs))
   \<and> trackedLine (foldl input_step empty_input sample_inputs) = ''hello my name is Kain now''"
proof -
  have "legal_run input_enabled input_step empty_input sample_inputs" by code_simp
  moreover have "trackedLine (foldl input_step empty_input sample_inputs) = ''hello my name is Kain now''"
    by code_simp
  ultimately show ?thesis using tracker_follows_terminal [of sample_inputs] by simp
qed

text \<open>The guard against collapsing a repetition looks only at the last word, so a line that really
  ends in a repeated word loses one of them when the input method emits it again.\<close>

theorem collapse_eats_repetition:
  "nextLine (normalize_pty_mobile_input ''Bye bye'' ''bye bye'' True) = ''Bye''"
  by code_simp

end
