(* ===== verification/PtyConn.thy ===== *)
theory PtyConn
  imports PtyInput
begin

text \<open>
  The connection of the embedded chat terminal: \<open>web/src/lib/pty-reconnect.ts\<close>,
  \<open>latchChatActivation\<close> of \<open>web/src/lib/chat-activation.ts\<close>, and the connection part of
  \<open>web/src/pages/ChatPage.tsx\<close> (the refs and state of lines 171 to 262, the connect effect of
  lines 461 to 478 and 884 to 1193, the page-resume handler of lines 1240 to 1288).

  A run of the connect effect is an element of \<open>ptyEffects\<close>, a WebSocket one of
  \<open>ptySockets\<close>; both are known by their index and never removed, so closures that outlive
  their effect keep acting on the shared refs, as they do in the page. React's render and effect
  flush is the event \<open>Commit\<close>: it publishes \<open>ptyState\<close> to its ref and, when a
  dependency changed, cleans the old effect up and starts a new one. Random values (the attach
  token, the channel id) are arguments of the event that draws them.
\<close>

section \<open>The page-resume predicate\<close>

datatype pty_connection_state = PConnecting | POpen | PReconnecting | PClosed | PEnded

definition PTY_RESUME_RECONNECT_THROTTLE_MS :: int where
  "PTY_RESUME_RECONNECT_THROTTLE_MS = 1000"

datatype ready_state = WsConnecting | WsOpen | WsClosing | WsClosed

definition should_reconnect_pty_on_page_resume ::
  "bool \<Rightarrow> bool \<Rightarrow> bool \<Rightarrow> ready_state option \<Rightarrow> pty_connection_state \<Rightarrow> bool \<Rightarrow> bool" where
  "should_reconnect_pty_on_page_resume isActive hidden online socketReadyState st connectInFlight =
     (if \<not> isActive \<or> \<not> online \<or> hidden then False
      else if st = PEnded then False
      else if socketReadyState = Some WsOpen then False
      else if (connectInFlight \<or> socketReadyState = Some WsConnecting)
              \<and> st \<noteq> PReconnecting \<and> st \<noteq> PClosed then False
      else socketReadyState = None \<or> socketReadyState = Some WsClosing \<or> socketReadyState = Some WsClosed
           \<or> st = PReconnecting \<or> st = PClosed)"

definition should_block_pty_input :: "pty_connection_state \<Rightarrow> bool" where
  "should_block_pty_input st \<longleftrightarrow> st \<noteq> POpen"

definition latch_chat_activation :: "bool \<Rightarrow> bool \<Rightarrow> bool" where
  "latch_chat_activation previous isActive \<longleftrightarrow> previous \<or> isActive"

section \<open>State\<close>

record pty_socket =
  sockReady :: ready_state
  sockEffect :: nat

datatype ticket_state = TicketPending | TicketFailed | SocketCreated nat

record pty_effect =
  effUnmounting :: bool
  effParams :: "(string \<times> string) list"
  effResume :: "string option"
  effLearn :: "string option"
  effTicket :: ticket_state

text \<open>The dependencies of the effect: activation, resume target and profile (which also decide the
  channel), and the reconnect nonce.\<close>

type_synonym pty_deps = "bool \<times> string option \<times> string \<times> nat"

record pty =
  canConnect :: bool
  tabActive :: bool
  hasActivated :: bool
  resumeParam :: "string option"
  learnParam :: "string option"
  scopedProfile :: string
  reconnectNonce :: nat
  ptyState :: pty_connection_state
  ptyStateRef :: pty_connection_state
  ptyBanner :: "string option"
  lastCloseCode :: "nat option"
  forceFreshPty :: bool
  reconnectAttempt :: nat
  reconnectTimer :: "nat option"
  connectingTimer :: "nat option"
  connectInFlight :: bool
  blockedInputNotice :: bool
  ptyInputLine :: string
  replacementUntil :: int
  lastResumeReconnectAt :: int
  wsRef :: "nat option"
  ptySockets :: "pty_socket list"
  ptyEffects :: "pty_effect list"
  liveEffect :: "nat option"
  committedDeps :: "pty_deps option"
  channelId :: string
  attachStore :: "string option"
  storageBlocked :: bool
  pendingLearn :: "string list"
  ptySent :: "(nat \<times> string) list"
  termWrites :: "string list"

definition MISSING_TOKEN_BANNER :: string where
  "MISSING_TOKEN_BANNER =
     ''Session token unavailable. Open this page through `hermes dashboard`, not directly.''"

definition initial_pty :: "bool \<Rightarrow> bool \<Rightarrow> bool \<Rightarrow> string option \<Rightarrow> string option \<Rightarrow> string \<Rightarrow> string option \<Rightarrow> pty" where
  "initial_pty connectable active blocked resume learn profile stored =
     \<lparr>canConnect = connectable, tabActive = active, hasActivated = active, resumeParam = resume,
      learnParam = learn, scopedProfile = profile, reconnectNonce = 0, ptyState = PConnecting,
      ptyStateRef = PConnecting, ptyBanner = (if connectable then None else Some MISSING_TOKEN_BANNER),
      lastCloseCode = None, forceFreshPty = False, reconnectAttempt = 0, reconnectTimer = None,
      connectingTimer = None, connectInFlight = False, blockedInputNotice = False, ptyInputLine = [],
      replacementUntil = 0, lastResumeReconnectAt = 0, wsRef = None, ptySockets = [], ptyEffects = [],
      liveEffect = None, committedDeps = None, channelId = [], attachStore = stored,
      storageBlocked = blocked, pendingLearn = [], ptySent = [], termWrites = []\<rparr>"

section \<open>Primitive writes\<close>

definition send_on :: "nat \<Rightarrow> string \<Rightarrow> pty \<Rightarrow> pty" where
  "send_on i data s = s\<lparr>ptySent := ptySent s @ [(i, data)]\<rparr>"

definition set_ready :: "nat \<Rightarrow> ready_state \<Rightarrow> pty \<Rightarrow> pty" where
  "set_ready i r s = s\<lparr>ptySockets := (ptySockets s)[i := (ptySockets s ! i)\<lparr>sockReady := r\<rparr>]\<rparr>"

text \<open>\<open>WebSocket.close()\<close>: the close event comes later.\<close>

definition close_socket :: "nat \<Rightarrow> pty \<Rightarrow> pty" where
  "close_socket i s =
     (if sockReady (ptySockets s ! i) \<in> {WsConnecting, WsOpen} then set_ready i WsClosing s else s)"

definition set_effect :: "nat \<Rightarrow> (pty_effect \<Rightarrow> pty_effect) \<Rightarrow> pty \<Rightarrow> pty" where
  "set_effect e f s = s\<lparr>ptyEffects := (ptyEffects s)[e := f (ptyEffects s ! e)]\<rparr>"

section \<open>Reconnecting on request\<close>

text \<open>The common body of \<open>reconnectPty\<close> and \<open>startFreshPty\<close>.\<close>

definition restart_pty :: "bool \<Rightarrow> pty \<Rightarrow> pty" where
  "restart_pty fresh s =
     s\<lparr>forceFreshPty := fresh, reconnectAttempt := 0, reconnectTimer := None, blockedInputNotice := False,
       ptyInputLine := [], replacementUntil := 0, ptyBanner := None, lastCloseCode := None,
       ptyState := PConnecting, reconnectNonce := reconnectNonce s + 1\<rparr>"

definition start_fresh_dashboard_chat :: "pty \<Rightarrow> pty" where
  "start_fresh_dashboard_chat s = (restart_pty True s)\<lparr>resumeParam := None\<rparr>"

definition maybe_reconnect_on_page_resume :: "bool \<Rightarrow> bool \<Rightarrow> int \<Rightarrow> pty \<Rightarrow> pty" where
  "maybe_reconnect_on_page_resume hidden online now s =
     (let socketReadyState = map_option (\<lambda>i. sockReady (ptySockets s ! i)) (wsRef s)
      in if truthy_str (ptyBanner s) \<and> ptyStateRef s = PClosed then s
         else if should_reconnect_pty_on_page_resume (tabActive s) hidden online socketReadyState
                   (ptyStateRef s) (connectInFlight s)
         then (if now - lastResumeReconnectAt s < PTY_RESUME_RECONNECT_THROTTLE_MS then s
               else restart_pty False (s\<lparr>lastResumeReconnectAt := now\<rparr>))
         else s)"

text \<open>\<open>scheduleReconnect\<close>: the delay doubles from 250 ms and is capped, as is the attempt count.\<close>

definition reconnect_delay :: "nat \<Rightarrow> nat" where
  "reconnect_delay attempt = min (250 * 2 ^ (attempt - 1)) 3000"

definition schedule_reconnect :: "nat \<Rightarrow> pty \<Rightarrow> pty" where
  "schedule_reconnect closeCode s =
     (if reconnectTimer s \<noteq> None then s
      else (let attempt = min (reconnectAttempt s + 1) 5
            in s\<lparr>reconnectAttempt := attempt, ptyBanner := None, lastCloseCode := Some closeCode,
                 ptyState := PReconnecting, reconnectTimer := Some (reconnect_delay attempt)\<rparr>))"

section \<open>The connect effect\<close>

text \<open>\<open>ptyAttachToken\<close>: the stored token, or a random one that is stored.\<close>

definition pty_attach_token :: "bool \<Rightarrow> string \<Rightarrow> pty \<Rightarrow> string \<times> pty" where
  "pty_attach_token rotateToken rnd s =
     (let t = (if rotateToken \<or> storageBlocked s then [] else (case attachStore s of None \<Rightarrow> [] | Some v \<Rightarrow> v))
      in if t \<noteq> [] then (t, s)
         else (rnd, if storageBlocked s then s else s\<lparr>attachStore := Some rnd\<rparr>))"

text \<open>The synchronous part of the effect, up to the wait for the URL.\<close>

definition run_connect_effect :: "string \<Rightarrow> pty \<Rightarrow> pty" where
  "run_connect_effect rnd s =
     (if \<not> hasActivated s \<or> \<not> canConnect s then s
      else (let fresh = forceFreshPty s;
                s1 = s\<lparr>forceFreshPty := False, connectInFlight := True\<rparr>;
                (tok, s2) = pty_attach_token fresh rnd s1;
                params = [(''channel'', channelId s)]
                  @ (if truthy_str (resumeParam s) then [(''resume'', the (resumeParam s))] else [])
                  @ (if fresh then [(''fresh'', ''1'')] else [])
                  @ [(''attach'', tok)]
                  @ (if scopedProfile s \<noteq> [] then [(''profile'', scopedProfile s)] else [])
            in s2\<lparr>ptyEffects := ptyEffects s2 @ [\<lparr>effUnmounting = False, effParams = params,
                     effResume = resumeParam s, effLearn = learnParam s, effTicket = TicketPending\<rparr>],
                  liveEffect := Some (length (ptyEffects s2))\<rparr>))"

definition cleanup_connect_effect :: "pty \<Rightarrow> pty" where
  "cleanup_connect_effect s =
     (case liveEffect s of
        None \<Rightarrow> s
      | Some e \<Rightarrow>
          (let s1 = (set_effect e (effUnmounting_update (\<lambda>_. True)) s)
                      \<lparr>reconnectTimer := None, connectingTimer := None, connectInFlight := False,
                       liveEffect := None\<rparr>;
               s2 = (case wsRef s1 of None \<Rightarrow> s1 | Some i \<Rightarrow> close_socket i s1)
           in s2\<lparr>wsRef := None\<rparr>))"

definition current_deps :: "pty \<Rightarrow> pty_deps" where
  "current_deps s = (hasActivated s, resumeParam s, scopedProfile s, reconnectNonce s)"

definition rechannel :: "string \<Rightarrow> pty \<Rightarrow> pty" where
  "rechannel rnd s =
     (case committedDeps s of
        Some (a, r, p, n) \<Rightarrow> if r = resumeParam s \<and> p = scopedProfile s then s else s\<lparr>channelId := ''chat-'' @ rnd\<rparr>
      | None \<Rightarrow> s\<lparr>channelId := ''chat-'' @ rnd\<rparr>)"

definition commit_pty :: "string \<Rightarrow> string \<Rightarrow> pty \<Rightarrow> pty" where
  "commit_pty rndToken rndChannel s =
     (let s1 = s\<lparr>ptyStateRef := ptyState s\<rparr>
      in if committedDeps s1 = Some (current_deps s1) then s1
         else run_connect_effect rndToken
                (cleanup_connect_effect (rechannel rndChannel s1))\<lparr>committedDeps := Some (current_deps s1)\<rparr>)"

text \<open>The wait is over: the socket is opened, without asking whether the effect is still mounted. A
  rejected ticket request leaves the function by its exception.\<close>

definition ticket_ready :: "nat \<Rightarrow> bool \<Rightarrow> pty \<Rightarrow> pty" where
  "ticket_ready e ok s =
     (if ok then
        (let i = length (ptySockets s)
         in (set_effect e (effTicket_update (\<lambda>_. SocketCreated i)) s)
              \<lparr>ptySockets := ptySockets s @ [\<lparr>sockReady = WsConnecting, sockEffect = e\<rparr>],
               wsRef := Some i, connectingTimer := Some i\<rparr>)
      else set_effect e (effTicket_update (\<lambda>_. TicketFailed)) s)"

definition connecting_timeout :: "nat \<Rightarrow> pty \<Rightarrow> pty" where
  "connecting_timeout i s =
     (let s1 = s\<lparr>connectingTimer := None\<rparr>
      in if wsRef s1 = Some i \<and> sockReady (ptySockets s1 ! i) = WsConnecting then close_socket i s1 else s1)"

definition resize_message :: "nat \<Rightarrow> nat \<Rightarrow> string" where
  "resize_message cols rows = ESC # ''[RESIZE:'' @ show_nat cols @ '';'' @ show_nat rows @ '']''"

definition socket_opened :: "nat \<Rightarrow> nat \<Rightarrow> nat \<Rightarrow> pty \<Rightarrow> pty" where
  "socket_opened i cols rows s =
     (let e = ptyEffects s ! sockEffect (ptySockets s ! i);
          s1 = send_on i (resize_message cols rows)
                 ((set_ready i WsOpen s)\<lparr>reconnectTimer := None, connectingTimer := None,
                    connectInFlight := False, reconnectAttempt := 0, ptyBanner := None,
                    lastCloseCode := None, ptyState := POpen, blockedInputNotice := False\<rparr>)
      in if truthy_str (effLearn e)
         then s1\<lparr>resumeParam := effResume e, learnParam := None,
                 pendingLearn := pendingLearn s1 @ [trim (''/learn '' @ the (effLearn e))]\<rparr>
         else s1)"

definition with_reason :: "string \<Rightarrow> string \<Rightarrow> string \<Rightarrow> string \<Rightarrow> string option" where
  "with_reason reason before after plain =
     Some (if reason \<noteq> [] then before @ reason @ after else plain)"

definition socket_closed :: "nat \<Rightarrow> nat \<Rightarrow> bool \<Rightarrow> string \<Rightarrow> pty \<Rightarrow> pty" where
  "socket_closed i closeCode wasClean reason s =
     (let s1 = (set_ready i WsClosed s)\<lparr>wsRef := None, connectInFlight := False, connectingTimer := None\<rparr>;
          s2 = s1\<lparr>lastCloseCode := Some closeCode\<rparr>
      in if effUnmounting (ptyEffects s ! sockEffect (ptySockets s ! i)) then s1
         else if closeCode = 4401 then
           s2\<lparr>ptyState := PClosed, ptyBanner := with_reason reason ''Auth failed (''
                ''). Reload to refresh the session.''
                ''Auth failed. Reload the page to refresh the session token.''\<rparr>
         else if closeCode = 4403 then
           s2\<lparr>ptyState := PClosed, ptyBanner := with_reason reason ''Refused: '' ''.''
                (''Refused: request host/origin doesn'' @ CHR 0x27 # ''t match the dashboard.'')\<rparr>
         else if closeCode = 4404 then
           s2\<lparr>ptyState := PClosed, ptyBanner := with_reason reason ''Chat websocket unavailable: '' ''.''
                ''Chat websocket unavailable on this server.''\<rparr>
         else if closeCode = 4408 then
           s2\<lparr>ptyState := PClosed, ptyBanner := with_reason reason ''Refused: '' ''.''
                (''Refused: your client isn'' @ CHR 0x27 # ''t permitted (server bound to localhost only).'')\<rparr>
         else if closeCode = 1011 then s2\<lparr>ptyState := PClosed\<rparr>
         else if closeCode = 4410 then
           s2\<lparr>termWrites := termWrites s2 @ [''[session ended]''], ptyState := PEnded\<rparr>
         else if closeCode = 4409 then s2\<lparr>ptyState := PClosed\<rparr>
         else if \<not> wasClean \<or> closeCode = 1001 \<or> closeCode = 1006 then schedule_reconnect closeCode s2
         else s2\<lparr>termWrites := termWrites s2 @ [''[session ended (code '' @ show_nat closeCode @ '')]''],
                 ptyState := PEnded\<rparr>)"

section \<open>Input\<close>

text \<open>\<open>^\x1b\[<(\d+);(\d+);(\d+)([Mm])$\<close>: a mouse report.\<close>

definition is_sgr_mouse :: "string \<Rightarrow> bool" where
  "is_sgr_mouse data \<longleftrightarrow>
     starts_with data (ESC # ''[<'') \<and> 4 \<le> length data \<and> last data \<in> set ''Mm''
     \<and> (let fields = split_on (CHR '';'') (butlast (drop 3 data))
        in length fields = 3 \<and> list_all all_digits fields)"

definition PTY_RECONNECT_INPUT_MESSAGE :: string where
  "PTY_RECONNECT_INPUT_MESSAGE = ''Chat is reconnecting. Input will resume when connected.''"

text \<open>\<open>onData\<close> of the terminal of an effect whose socket is \<open>i\<close>.\<close>

definition terminal_data :: "nat \<Rightarrow> string \<Rightarrow> int \<Rightarrow> pty \<Rightarrow> pty" where
  "terminal_data i data now s =
     (if is_sgr_mouse data then s
      else if sockReady (ptySockets s ! i) \<noteq> WsOpen \<or> should_block_pty_input (ptyStateRef s) then
        (if blockedInputNotice s then s
         else s\<lparr>blockedInputNotice := True, termWrites := termWrites s @ [PTY_RECONNECT_INPUT_MESSAGE]\<rparr>)
      else (let r = normalize_pty_mobile_input data (ptyInputLine s) (now \<le> replacementUntil s);
                s1 = s\<lparr>ptyInputLine := nextLine r\<rparr>;
                s2 = (if wasNormalized r then s1\<lparr>replacementUntil := 0\<rparr> else s1)
            in send_on i (sentData r) s2))"

definition learn_fires :: "pty \<Rightarrow> pty" where
  "learn_fires s =
     (case pendingLearn s of
        [] \<Rightarrow> s
      | cmd # cmds \<Rightarrow>
          (let s1 = s\<lparr>pendingLearn := cmds\<rparr>
           in case wsRef s1 of
                None \<Rightarrow> s1
              | Some i \<Rightarrow> if sockReady (ptySockets s1 ! i) = WsOpen then send_on i (cmd @ [CHR 0x0D]) s1 else s1))"

section \<open>Events\<close>

datatype pty_event =
    SetActive bool
  | NavigateTo "string option" "string option" string
  | Commit string string
  | TicketReady nat bool
  | SocketOpened nat nat nat
  | SocketData nat string
  | SocketClosed nat nat bool string
  | ReconnectTimerFires
  | ConnectingTimerFires
  | PageResume bool bool int
  | ReconnectClick
  | StartFreshClick
  | NewChatClick
  | TypeData string int
  | ReplacementInput int
  | LearnFires

text \<open>The socket of the mounted effect, whose closure the terminal's input handler holds.\<close>

definition live_socket :: "pty \<Rightarrow> nat option" where
  "live_socket s =
     (case liveEffect s of
        None \<Rightarrow> None
      | Some e \<Rightarrow> (case effTicket (ptyEffects s ! e) of SocketCreated i \<Rightarrow> Some i | _ \<Rightarrow> None))"

primrec pty_step :: "pty \<Rightarrow> pty_event \<Rightarrow> pty" where
  "pty_step s (SetActive b) = s\<lparr>tabActive := b, hasActivated := latch_chat_activation (hasActivated s) b\<rparr>"
| "pty_step s (NavigateTo resume learn profile) =
     s\<lparr>resumeParam := resume, learnParam := learn, scopedProfile := profile\<rparr>"
| "pty_step s (Commit rndToken rndChannel) = commit_pty rndToken rndChannel s"
| "pty_step s (TicketReady e ok) = ticket_ready e ok s"
| "pty_step s (SocketOpened i cols rows) = socket_opened i cols rows s"
| "pty_step s (SocketData i data) =
     (if liveEffect s = Some (sockEffect (ptySockets s ! i)) then s\<lparr>termWrites := termWrites s @ [data]\<rparr> else s)"
| "pty_step s (SocketClosed i closeCode wasClean reason) = socket_closed i closeCode wasClean reason s"
| "pty_step s ReconnectTimerFires = s\<lparr>reconnectTimer := None, reconnectNonce := reconnectNonce s + 1\<rparr>"
| "pty_step s ConnectingTimerFires =
     (case connectingTimer s of None \<Rightarrow> s | Some i \<Rightarrow> connecting_timeout i s)"
| "pty_step s (PageResume hidden online now) = maybe_reconnect_on_page_resume hidden online now s"
| "pty_step s ReconnectClick = restart_pty False s"
| "pty_step s StartFreshClick = restart_pty True s"
| "pty_step s NewChatClick = start_fresh_dashboard_chat s"
| "pty_step s (TypeData data now) =
     (case live_socket s of None \<Rightarrow> s | Some i \<Rightarrow> terminal_data i data now s)"
| "pty_step s (ReplacementInput now) = s\<lparr>replacementUntil := now + MOBILE_REPLACEMENT_WINDOW_MS\<rparr>"
| "pty_step s LearnFires = learn_fires s"

text \<open>When an event can happen: the buttons are shown in some states only, a socket opens and closes
  once, a ticket request settles once.\<close>

primrec pty_enabled :: "pty \<Rightarrow> pty_event \<Rightarrow> bool" where
  "pty_enabled s (SetActive b) = True"
| "pty_enabled s (NavigateTo resume learn profile) = True"
| "pty_enabled s (Commit rndToken rndChannel) = True"
| "pty_enabled s (TicketReady e ok) = (e < length (ptyEffects s) \<and> effTicket (ptyEffects s ! e) = TicketPending)"
| "pty_enabled s (SocketOpened i cols rows) =
     (i < length (ptySockets s) \<and> sockReady (ptySockets s ! i) = WsConnecting)"
| "pty_enabled s (SocketData i data) =
     (i < length (ptySockets s) \<and> sockReady (ptySockets s ! i) \<in> {WsOpen, WsClosing})"
| "pty_enabled s (SocketClosed i closeCode wasClean reason) =
     (i < length (ptySockets s) \<and> sockReady (ptySockets s ! i) \<noteq> WsClosed)"
| "pty_enabled s ReconnectTimerFires = (reconnectTimer s \<noteq> None)"
| "pty_enabled s ConnectingTimerFires = (connectingTimer s \<noteq> None)"
| "pty_enabled s (PageResume hidden online now) = tabActive s"
| "pty_enabled s ReconnectClick = (ptyState s = PReconnecting \<or> (ptyState s = PClosed \<and> \<not> truthy_str (ptyBanner s)))"
| "pty_enabled s StartFreshClick = (ptyState s = PEnded)"
| "pty_enabled s NewChatClick = True"
| "pty_enabled s (TypeData data now) = (live_socket s \<noteq> None)"
| "pty_enabled s (ReplacementInput now) = (liveEffect s \<noteq> None)"
| "pty_enabled s LearnFires = (pendingLearn s \<noteq> [])"

section \<open>The invariant\<close>

text \<open>A socket and the effect that opened it know each other; the mounted effect is the only one that
  is not unmounting.\<close>

definition links :: "pty_socket list \<Rightarrow> pty_effect list \<Rightarrow> nat option \<Rightarrow> bool" where
  "links socks effs live \<longleftrightarrow>
     (\<forall>i < length socks. sockEffect (socks ! i) < length effs
        \<and> effTicket (effs ! sockEffect (socks ! i)) = SocketCreated i)
     \<and> (\<forall>e < length effs. \<forall>i. effTicket (effs ! e) = SocketCreated i \<longrightarrow>
          i < length socks \<and> sockEffect (socks ! i) = e)
     \<and> (\<forall>e < length effs. effUnmounting (effs ! e) \<longleftrightarrow> live \<noteq> Some e)
     \<and> (\<forall>e. live = Some e \<longrightarrow> e < length effs)"

text \<open>The socket of the mounted effect has closed.\<close>

definition live_closed :: "pty_socket list \<Rightarrow> pty_effect list \<Rightarrow> nat option \<Rightarrow> bool" where
  "live_closed socks effs live \<longleftrightarrow>
     (\<exists>e i. live = Some e \<and> effTicket (effs ! e) = SocketCreated i \<and> i < length socks
        \<and> sockReady (socks ! i) = WsClosed)"

definition timer_ok :: "pty \<Rightarrow> bool" where
  "timer_ok s \<longleftrightarrow> reconnectAttempt s \<le> 5
     \<and> (\<forall>d. reconnectTimer s = Some d \<longrightarrow>
          ptyState s = PReconnecting \<and> 1 \<le> reconnectAttempt s \<and> d = reconnect_delay (reconnectAttempt s)
          \<and> live_closed (ptySockets s) (ptyEffects s) (liveEffect s))"

definition pty_inv :: "pty \<Rightarrow> bool" where
  "pty_inv s \<longleftrightarrow> links (ptySockets s) (ptyEffects s) (liveEffect s) \<and> timer_ok s
     \<and> (\<forall>i. wsRef s = Some i \<longrightarrow> i < length (ptySockets s))
     \<and> (\<forall>i. connectingTimer s = Some i \<longrightarrow> i < length (ptySockets s))"

lemma linksI:
  assumes "\<And>i. i < length socks \<Longrightarrow> sockEffect (socks ! i) < length effs
      \<and> effTicket (effs ! sockEffect (socks ! i)) = SocketCreated i"
    and "\<And>e i. e < length effs \<Longrightarrow> effTicket (effs ! e) = SocketCreated i \<Longrightarrow>
      i < length socks \<and> sockEffect (socks ! i) = e"
    and "\<And>e. e < length effs \<Longrightarrow> effUnmounting (effs ! e) \<longleftrightarrow> live \<noteq> Some e"
    and "\<And>e. live = Some e \<Longrightarrow> e < length effs"
  shows "links socks effs live"
  unfolding links_def using assms by blast

lemma linksD:
  assumes "links socks effs live"
  shows "i < length socks \<Longrightarrow> sockEffect (socks ! i) < length effs"
    and "i < length socks \<Longrightarrow> effTicket (effs ! sockEffect (socks ! i)) = SocketCreated i"
    and "e < length effs \<Longrightarrow> effTicket (effs ! e) = SocketCreated i \<Longrightarrow> i < length socks"
    and "e < length effs \<Longrightarrow> effTicket (effs ! e) = SocketCreated i \<Longrightarrow> sockEffect (socks ! i) = e"
    and "e < length effs \<Longrightarrow> effUnmounting (effs ! e) \<longleftrightarrow> live \<noteq> Some e"
    and "live = Some e \<Longrightarrow> e < length effs"
  using assms unfolding links_def by blast+

lemma sockEffect_set_ready: "sockEffect (socks[i := (socks ! i)\<lparr>sockReady := r\<rparr>] ! j) = sockEffect (socks ! j)"
  by (cases "i < length socks") (auto simp: nth_list_update list_update_beyond)

lemma links_set_ready: "links (socks[i := (socks ! i)\<lparr>sockReady := r\<rparr>]) effs live = links socks effs live"
  by (simp add: links_def sockEffect_set_ready)

lemma links_new_effect:
  assumes l: "links socks effs None" and e: "effTicket e = TicketPending" "\<not> effUnmounting e"
  shows "links socks (effs @ [e]) (Some (length effs))"
proof (rule linksI)
  show "sockEffect (socks ! i) < length (effs @ [e]) \<and> effTicket ((effs @ [e]) ! sockEffect (socks ! i)) = SocketCreated i"
    if "i < length socks" for i
    using linksD(1,2) [OF l that] by (simp add: nth_append)
  show "i < length socks \<and> sockEffect (socks ! i) = f"
    if "f < length (effs @ [e])" "effTicket ((effs @ [e]) ! f) = SocketCreated i" for f i
    using that e linksD(3,4) [OF l, of f i] by (cases "f < length effs") (simp_all add: nth_append)
  show "effUnmounting ((effs @ [e]) ! f) \<longleftrightarrow> Some (length effs) \<noteq> Some f"
    if "f < length (effs @ [e])" for f
    using that e linksD(5) [OF l, of f] by (cases "f < length effs") (auto simp: nth_append)
qed simp

lemma links_unmount:
  assumes l: "links socks effs (Some e)"
  shows "links socks (effs[e := (effs ! e)\<lparr>effUnmounting := True\<rparr>]) None"
proof (rule linksI)
  have ticket: "effTicket (effs[e := (effs ! e)\<lparr>effUnmounting := True\<rparr>] ! f) = effTicket (effs ! f)" for f
    by (cases "e < length effs") (auto simp: nth_list_update list_update_beyond)
  show "sockEffect (socks ! i) < length (effs[e := (effs ! e)\<lparr>effUnmounting := True\<rparr>])
      \<and> effTicket (effs[e := (effs ! e)\<lparr>effUnmounting := True\<rparr>] ! sockEffect (socks ! i)) = SocketCreated i"
    if "i < length socks" for i
    using linksD(1,2) [OF l that] by (simp add: ticket)
  show "i < length socks \<and> sockEffect (socks ! i) = f"
    if "f < length (effs[e := (effs ! e)\<lparr>effUnmounting := True\<rparr>])"
      "effTicket (effs[e := (effs ! e)\<lparr>effUnmounting := True\<rparr>] ! f) = SocketCreated i" for f i
    using that linksD(3,4) [OF l, of f i] by (simp add: ticket)
  show "effUnmounting (effs[e := (effs ! e)\<lparr>effUnmounting := True\<rparr>] ! f) \<longleftrightarrow> None \<noteq> Some f"
    if "f < length (effs[e := (effs ! e)\<lparr>effUnmounting := True\<rparr>])" for f
    using that linksD(5) [OF l, of f] by (cases "f = e") (auto simp: nth_list_update)
qed simp

lemma links_ticket:
  assumes l: "links socks effs live" and e: "e < length effs" "effTicket (effs ! e) = TicketPending"
  shows "links (socks @ [\<lparr>sockReady = r, sockEffect = e\<rparr>])
           (effs[e := (effs ! e)\<lparr>effTicket := SocketCreated (length socks)\<rparr>]) live"
    and "links socks (effs[e := (effs ! e)\<lparr>effTicket := TicketFailed\<rparr>]) live"
proof -
  have other: "sockEffect (socks ! i) \<noteq> e" if "i < length socks" for i
    using linksD(2) [OF l that] e by auto
  have unm: "effUnmounting (effs[e := (effs ! e)\<lparr>effTicket := t\<rparr>] ! f) = effUnmounting (effs ! f)" for t f
    using e by (cases "f = e") (auto simp: nth_list_update)
  show "links (socks @ [\<lparr>sockReady = r, sockEffect = e\<rparr>])
           (effs[e := (effs ! e)\<lparr>effTicket := SocketCreated (length socks)\<rparr>]) live"
  proof (rule linksI, goal_cases)
    case (1 i)
    then show ?case using linksD(1,2) [OF l, of i] other [of i] e
      by (cases "i < length socks") (simp_all add: nth_append)
  next
    case (2 f i)
    then show ?case using linksD(3,4) [OF l, of f i] e by (cases "f = e") (auto simp: nth_append)
  next
    case (3 f)
    then show ?case using linksD(5) [OF l, of f] by (simp add: unm)
  next
    case (4 f)
    then show ?case using linksD(6) [OF l, of f] by simp
  qed
  show "links socks (effs[e := (effs ! e)\<lparr>effTicket := TicketFailed\<rparr>]) live"
  proof (rule linksI, goal_cases)
    case (1 i)
    then show ?case using linksD(1,2) [OF l, of i] other [of i] e by simp
  next
    case (2 f i)
    then show ?case using linksD(3,4) [OF l, of f i] e by (cases "f = e") auto
  next
    case (3 f)
    then show ?case using linksD(5) [OF l, of f] by (simp add: unm)
  next
    case (4 f)
    then show ?case using linksD(6) [OF l, of f] by simp
  qed
qed

lemma live_closed_set_ready:
  assumes "live_closed socks effs live" and r: "i < length socks \<Longrightarrow> sockReady (socks ! i) = WsClosed \<Longrightarrow> r = WsClosed"
  shows "live_closed (socks[i := (socks ! i)\<lparr>sockReady := r\<rparr>]) effs live"
proof -
  obtain e j where j: "live = Some e" "effTicket (effs ! e) = SocketCreated j" "j < length socks"
    "sockReady (socks ! j) = WsClosed" using assms(1) by (auto simp: live_closed_def)
  then have "sockReady (socks[i := (socks ! i)\<lparr>sockReady := r\<rparr>] ! j) = WsClosed"
    using r by (cases "i = j") simp_all
  with j show ?thesis unfolding live_closed_def by auto
qed

lemma live_closed_ticket:
  assumes "live_closed socks effs live" and e: "e < length effs" "effTicket (effs ! e) = TicketPending"
  shows "live_closed (socks @ extra) (effs[e := (effs ! e)\<lparr>effTicket := t\<rparr>]) live"
proof -
  obtain f j where j: "live = Some f" "effTicket (effs ! f) = SocketCreated j" "j < length socks"
    "sockReady (socks ! j) = WsClosed" using assms(1) by (auto simp: live_closed_def)
  then have "effTicket (effs[e := (effs ! e)\<lparr>effTicket := t\<rparr>] ! f) = SocketCreated j"
    using e by (cases "e = f") auto
  with j show ?thesis unfolding live_closed_def by (auto simp: nth_append)
qed

text \<open>A socket that has not closed is not the closed socket of the mounted effect.\<close>

lemma live_closed_other:
  assumes l: "links socks effs live" and "live_closed socks effs live"
    and i: "i < length socks" "sockReady (socks ! i) \<noteq> WsClosed"
  shows "effUnmounting (effs ! sockEffect (socks ! i))"
proof -
  obtain e j where j: "live = Some e" "effTicket (effs ! e) = SocketCreated j"
    "sockReady (socks ! j) = WsClosed" using assms(2) by (auto simp: live_closed_def)
  have "sockEffect (socks ! i) \<noteq> e" using linksD(2) [OF l i(1)] i(2) j by auto
  then show ?thesis using linksD(1) [OF l i(1)] linksD(5) [OF l, of "sockEffect (socks ! i)"] j by auto
qed

lemma reconnect_delays:
  "1 \<le> n \<Longrightarrow> n \<le> 5 \<Longrightarrow> reconnect_delay n \<in> {250, 500, 1000, 2000, 3000}"
proof -
  assume "1 \<le> n" "n \<le> 5"
  then have "n \<in> {1, 2, 3, 4, 5}" by auto
  then show ?thesis by (auto simp: reconnect_delay_def)
qed

text \<open>The handlers, one by one.\<close>

lemma restart_pty_inv: "pty_inv s \<Longrightarrow> pty_inv (restart_pty fresh s)"
  by (simp add: pty_inv_def timer_ok_def restart_pty_def)

lemma close_socket_simps:
  "ptyEffects (close_socket i s) = ptyEffects s" "liveEffect (close_socket i s) = liveEffect s"
  "length (ptySockets (close_socket i s)) = length (ptySockets s)"
  "links (ptySockets (close_socket i s)) effs live = links (ptySockets s) effs live"
  "reconnectTimer (close_socket i s) = reconnectTimer s"
  "reconnectAttempt (close_socket i s) = reconnectAttempt s"
  "connectingTimer (close_socket i s) = connectingTimer s"
  "ptyState (close_socket i s) = ptyState s"
  "wsRef (close_socket i s) = wsRef s"
  by (simp_all add: close_socket_def set_ready_def links_set_ready)

lemma close_socket_live_closed:
  "live_closed (ptySockets s) effs live \<Longrightarrow> live_closed (ptySockets (close_socket i s)) effs live"
  by (auto simp: close_socket_def set_ready_def intro: live_closed_set_ready)

lemma cleanup_inv:
  assumes "pty_inv s"
  shows "pty_inv (cleanup_connect_effect s) \<and> liveEffect (cleanup_connect_effect s) = None
    \<and> reconnectTimer (cleanup_connect_effect s) = (if liveEffect s = None then reconnectTimer s else None)"
proof (cases "liveEffect s")
  case None
  with assms show ?thesis by (simp add: cleanup_connect_effect_def)
next
  case (Some e)
  have "links (ptySockets s) ((ptyEffects s)[e := (ptyEffects s ! e)\<lparr>effUnmounting := True\<rparr>]) None"
    using assms Some by (intro links_unmount) (simp add: pty_inv_def)
  moreover have "reconnectAttempt s \<le> 5" using assms by (simp add: pty_inv_def timer_ok_def)
  ultimately show ?thesis
    by (cases "wsRef s")
      (simp_all add: cleanup_connect_effect_def Some Let_def set_effect_def pty_inv_def timer_ok_def
        close_socket_simps)
qed

lemma timer_None: "pty_inv s \<Longrightarrow> liveEffect s = None \<Longrightarrow> reconnectTimer s = None"
  by (cases "reconnectTimer s") (auto simp: pty_inv_def timer_ok_def live_closed_def)

lemma run_effect_inv:
  assumes "pty_inv s" and "liveEffect s = None"
  shows "pty_inv (run_connect_effect rnd s)"
proof -
  have links: "links (ptySockets s) (ptyEffects s) None" and n: "reconnectAttempt s \<le> 5"
    using assms by (auto simp: pty_inv_def timer_ok_def)
  note timer = timer_None [OF assms]
  show ?thesis
    using assms(1) n timer links_new_effect [OF links]
    by (auto simp: run_connect_effect_def pty_attach_token_def Let_def pty_inv_def timer_ok_def)
qed

lemma commit_inv: "pty_inv s \<Longrightarrow> pty_inv (commit_pty a b s)"
proof -
  let ?s1 = "s\<lparr>ptyStateRef := ptyState s\<rparr>"
  assume s: "pty_inv s"
  then have "pty_inv (rechannel b ?s1)"
    by (auto simp: rechannel_def pty_inv_def timer_ok_def split: option.split)
  from cleanup_inv [OF this]
  have "pty_inv (run_connect_effect a (cleanup_connect_effect (rechannel b ?s1)))"
    by (simp add: run_effect_inv)
  with s show ?thesis by (simp add: commit_pty_def Let_def pty_inv_def timer_ok_def)
qed

lemma ticket_ready_inv:
  assumes "pty_inv s" and "pty_enabled s (TicketReady e ok)"
  shows "pty_inv (ticket_ready e ok s)"
proof -
  from assms have l: "links (ptySockets s) (ptyEffects s) (liveEffect s)" "e < length (ptyEffects s)"
    "effTicket (ptyEffects s ! e) = TicketPending" by (auto simp: pty_inv_def)
  with assms(1) show ?thesis
    using links_ticket [OF l] live_closed_ticket [OF _ l(2,3), of "ptySockets s"]
      live_closed_ticket [OF _ l(2,3), of "ptySockets s" _ "[]"]
    by (auto simp: ticket_ready_def set_effect_def Let_def pty_inv_def timer_ok_def less_Suc_eq)
qed

lemma socket_opened_inv:
  "pty_inv s \<Longrightarrow> pty_inv (socket_opened i cols rows s)"
  by (auto simp: socket_opened_def send_on_def set_ready_def Let_def pty_inv_def timer_ok_def links_set_ready)

lemma socket_closed_inv:
  assumes inv: "pty_inv s" and en: "pty_enabled s (SocketClosed i closeCode wasClean reason)"
  shows "pty_inv (socket_closed i closeCode wasClean reason s)"
proof -
  let ?socks = "(ptySockets s)[i := (ptySockets s ! i)\<lparr>sockReady := WsClosed\<rparr>]"
  have links: "links ?socks (ptyEffects s) (liveEffect s)"
    using inv by (simp add: links_set_ready pty_inv_def)
  show ?thesis
  proof (cases "effUnmounting (ptyEffects s ! sockEffect (ptySockets s ! i))")
    case True
    with inv links show ?thesis
      by (auto simp: socket_closed_def set_ready_def Let_def pty_inv_def timer_ok_def intro: live_closed_set_ready)
  next
    case False
    with inv en have none: "reconnectTimer s = None"
      using live_closed_other [of "ptySockets s" "ptyEffects s" "liveEffect s" i]
      by (cases "reconnectTimer s") (auto simp: pty_inv_def timer_ok_def)
    have l: "links (ptySockets s) (ptyEffects s) (liveEffect s)" using inv by (simp add: pty_inv_def)
    have i: "i < length (ptySockets s)" using en by simp
    have "liveEffect s = Some (sockEffect (ptySockets s ! i))"
      using False linksD(1) [OF l i] linksD(5) [OF l] by blast
    then have "live_closed ?socks (ptyEffects s) (liveEffect s)"
      using linksD(2) [OF l i] i unfolding live_closed_def by auto
    with False none inv links show ?thesis
      by (simp add: socket_closed_def schedule_reconnect_def set_ready_def Let_def pty_inv_def timer_ok_def)
  qed
qed

text \<open>The remaining handlers write none of the fields the invariant reads, or close a socket.\<close>

definition inv_view :: "pty \<Rightarrow> pty_socket list \<times> pty_effect list \<times> nat option \<times> nat \<times> nat option
    \<times> pty_connection_state \<times> nat option \<times> nat option" where
  "inv_view s = (ptySockets s, ptyEffects s, liveEffect s, reconnectAttempt s, reconnectTimer s,
     ptyState s, wsRef s, connectingTimer s)"

lemma pty_inv_view: "inv_view s = inv_view s' \<Longrightarrow> pty_inv s \<Longrightarrow> pty_inv s'"
  by (simp add: inv_view_def pty_inv_def timer_ok_def)

lemma terminal_data_view: "inv_view (terminal_data i data now s) = inv_view s"
  by (simp add: inv_view_def terminal_data_def send_on_def Let_def)

lemma learn_fires_view: "inv_view (learn_fires s) = inv_view s"
  by (simp add: inv_view_def learn_fires_def send_on_def Let_def split: list.split option.split)

lemma connecting_timeout_inv: "pty_inv s \<Longrightarrow> pty_inv (connecting_timeout i s)"
  by (auto simp: connecting_timeout_def Let_def pty_inv_def timer_ok_def close_socket_simps
      close_socket_live_closed)

interpretation pty_page: machine
  "initial_pty connectable active blocked resume learn profile stored" pty_step pty_enabled pty_inv
  for connectable active blocked resume learn profile stored
proof
  show "pty_inv (initial_pty connectable active blocked resume learn profile stored)"
    by (simp add: initial_pty_def pty_inv_def links_def timer_ok_def)
  show "pty_inv (pty_step s e)" if inv: "pty_inv s" and en: "pty_enabled s e" for s e
  proof (cases e)
    case (SetActive b)
    have "inv_view (pty_step s e) = inv_view s" by (simp add: SetActive inv_view_def)
    with inv show ?thesis by (metis pty_inv_view)
  next
    case (NavigateTo r l p)
    have "inv_view (pty_step s e) = inv_view s" by (simp add: NavigateTo inv_view_def)
    with inv show ?thesis by (metis pty_inv_view)
  next
    case (SocketData i data)
    have "inv_view (pty_step s e) = inv_view s" by (simp add: SocketData inv_view_def)
    with inv show ?thesis by (metis pty_inv_view)
  next
    case (TypeData data now)
    have "inv_view (pty_step s e) = inv_view s"
      by (simp add: TypeData terminal_data_view split: option.split)
    with inv show ?thesis by (metis pty_inv_view)
  next
    case (ReplacementInput now)
    have "inv_view (pty_step s e) = inv_view s" by (simp add: ReplacementInput inv_view_def)
    with inv show ?thesis by (metis pty_inv_view)
  next
    case LearnFires
    with inv show ?thesis by (metis learn_fires_view pty_inv_view pty_step.simps(16))
  next
    case (PageResume hidden online now)
    have "pty_inv (s\<lparr>lastResumeReconnectAt := now\<rparr>)"
      by (rule pty_inv_view [OF _ inv]) (simp add: inv_view_def)
    with inv PageResume show ?thesis by (simp add: maybe_reconnect_on_page_resume_def Let_def restart_pty_inv)
  next
    case NewChatClick
    have "pty_inv (restart_pty True s)" by (rule restart_pty_inv) (rule inv)
    then have "pty_inv (start_fresh_dashboard_chat s)"
      by (rule pty_inv_view [rotated]) (simp add: inv_view_def start_fresh_dashboard_chat_def)
    with NewChatClick show ?thesis by simp
  next
    case ReconnectTimerFires
    with inv show ?thesis by (simp add: pty_inv_def timer_ok_def)
  next
    case ConnectingTimerFires
    with inv show ?thesis by (simp add: connecting_timeout_inv split: option.split)
  next
    case (TicketReady f ok)
    with inv en show ?thesis using ticket_ready_inv [of s f ok] by simp
  next
    case (SocketClosed i c w r)
    with inv en show ?thesis using socket_closed_inv [of s i c w r] by simp
  qed (use inv in \<open>simp_all add: commit_inv socket_opened_inv restart_pty_inv\<close>)
qed

section \<open>Reconnecting\<close>

text \<open>Claim C3. Automatic reconnection is bounded and truthful: after any sequence of events, the attempt
  count is at most five, a pending reconnect waits 250, 500, 1000, 2000 or 3000 ms, the page then
  says that it is reconnecting, and the socket it replaces has closed; and every run of the effect
  opens at most one socket.\<close>

theorem reconnect_is_bounded:
  assumes "legal_run pty_enabled pty_step (initial_pty c a b r l p t) es"
  defines "s \<equiv> foldl pty_step (initial_pty c a b r l p t) es"
  shows "reconnectAttempt s \<le> 5
    \<and> (\<forall>d. reconnectTimer s = Some d \<longrightarrow> d \<in> {250, 500, 1000, 2000, 3000} \<and> ptyState s = PReconnecting
          \<and> live_closed (ptySockets s) (ptyEffects s) (liveEffect s))
    \<and> distinct (map sockEffect (ptySockets s))"
proof -
  have inv: "pty_inv s" unfolding s_def by (rule pty_page.run_inv) (rule assms(1))
  then have l: "links (ptySockets s) (ptyEffects s) (liveEffect s)" by (simp add: pty_inv_def)
  have "sockEffect (ptySockets s ! i) = sockEffect (ptySockets s ! j) \<Longrightarrow> i = j"
    if "i < length (ptySockets s)" "j < length (ptySockets s)" for i j
    using linksD(2) [OF l that(1)] linksD(2) [OF l that(2)] by (metis ticket_state.inject)
  then have "distinct (map sockEffect (ptySockets s))"
    unfolding distinct_conv_nth by (metis length_map nth_map)
  with inv reconnect_delays show ?thesis by (auto simp: pty_inv_def timer_ok_def)
qed

definition sample_drops :: "pty_event list" where
  "sample_drops = [Commit ''t'' ''c'', TicketReady 0 True, SocketOpened 0 80 24, Commit ''t'' ''c'',
     SocketClosed 0 1006 False [], Commit ''t'' ''c'', ReconnectTimerFires, Commit ''t'' ''c'',
     TicketReady 1 True, SocketClosed 1 1006 False [] ]"

theorem reconnect_is_bounded_witness:
  "legal_run pty_enabled pty_step (initial_pty True True False None None [] None) sample_drops
   \<and> reconnectTimer (foldl pty_step (initial_pty True True False None None [] None) sample_drops) = Some 500
   \<and> distinct (map sockEffect (ptySockets (foldl pty_step (initial_pty True True False None None [] None) sample_drops)))"
proof -
  have run: "legal_run pty_enabled pty_step (initial_pty True True False None None [] None) sample_drops"
    by code_simp
  moreover have "reconnectTimer (foldl pty_step (initial_pty True True False None None [] None) sample_drops) = Some 500"
    by code_simp
  ultimately show ?thesis using reconnect_is_bounded [OF run] by blast
qed

section \<open>A finished session stays finished\<close>

text \<open>The state after the session has ended and React has rendered it: nothing pending.\<close>

definition session_over :: "pty \<Rightarrow> bool" where
  "session_over s \<longleftrightarrow> ptyState s = PEnded \<and> ptyStateRef s = PEnded \<and> reconnectTimer s = None
     \<and> connectingTimer s = None \<and> committedDeps s = Some (current_deps s) \<and> hasActivated s
     \<and> list_all (\<lambda>e. effTicket e \<noteq> TicketPending) (ptyEffects s)
     \<and> list_all (\<lambda>k. sockReady k \<noteq> WsConnecting
          \<and> (sockReady k = WsClosed \<or> effUnmounting (ptyEffects s ! sockEffect k))) (ptySockets s)"

text \<open>The events no user asks for.\<close>

fun automatic :: "pty_event \<Rightarrow> bool" where
  "automatic (NavigateTo r l p) = False"
| "automatic ReconnectClick = False"
| "automatic StartFreshClick = False"
| "automatic NewChatClick = False"
| "automatic _ = True"

lemma session_over_step:
  assumes over: "session_over s" and en: "pty_enabled s e" and auto: "automatic e"
  shows "session_over (pty_step s e) \<and> reconnectNonce (pty_step s e) = reconnectNonce s
    \<and> length (ptySockets (pty_step s e)) = length (ptySockets s)"
proof (cases e)
  case (SetActive b)
  with over show ?thesis by (simp add: session_over_def latch_chat_activation_def current_deps_def)
next
  case (Commit a b)
  with over show ?thesis by (simp add: commit_pty_def session_over_def current_deps_def)
next
  case (TicketReady f ok)
  with over en show ?thesis by (auto simp: session_over_def list_all_length)
next
  case (SocketOpened i c r)
  with over en show ?thesis by (auto simp: session_over_def list_all_length)
next
  case (SocketClosed i c w r)
  with over en have "effUnmounting (ptyEffects s ! sockEffect (ptySockets s ! i))"
    by (auto simp: session_over_def list_all_length)
  with SocketClosed over en show ?thesis
    by (auto simp: socket_closed_def set_ready_def Let_def session_over_def list_all_length nth_list_update
        current_deps_def)
next
  case ConnectingTimerFires
  with over en show ?thesis by (simp add: session_over_def)
next
  case (PageResume h on now)
  with over show ?thesis
    by (simp add: maybe_reconnect_on_page_resume_def should_reconnect_pty_on_page_resume_def session_over_def Let_def)
next
  case (TypeData data now)
  with over show ?thesis
    by (auto simp: terminal_data_def send_on_def Let_def session_over_def current_deps_def
        should_block_pty_input_def split: option.split)
next
  case LearnFires
  with over show ?thesis
    by (auto simp: learn_fires_def send_on_def Let_def session_over_def current_deps_def
        split: list.split option.split)
qed (use over en auto in \<open>auto simp: session_over_def current_deps_def\<close>)

text \<open>A finished session is not restarted behind the user's back: once the agent process has
  exited and the page shows it, no sequence of automatic events (timers, late closes of old
  sockets, returns to the page, typing, renders) starts another connection; the page keeps saying
  that the session ended until the user asks for a new one or navigates.\<close>

theorem ended_needs_the_user:
  assumes "session_over s" and "legal_run pty_enabled pty_step s es" and "list_all automatic es"
  shows "ptyState (foldl pty_step s es) = PEnded
    \<and> reconnectNonce (foldl pty_step s es) = reconnectNonce s
    \<and> length (ptySockets (foldl pty_step s es)) = length (ptySockets s)"
  using assms
proof (induction es arbitrary: s)
  case Nil
  then show ?case by (simp add: session_over_def)
next
  case (Cons e es)
  then have "session_over (pty_step s e) \<and> reconnectNonce (pty_step s e) = reconnectNonce s
      \<and> length (ptySockets (pty_step s e)) = length (ptySockets s)"
    by (intro session_over_step) simp_all
  with Cons show ?case by simp
qed

definition ended_state :: pty where
  "ended_state = foldl pty_step (initial_pty True True False None None [] None)
     [Commit ''t'' ''c'', TicketReady 0 True, SocketOpened 0 80 24, Commit ''t'' ''c'',
      SocketClosed 0 4410 True [], Commit ''t'' ''c'']"

section \<open>Input and fresh sessions\<close>

text \<open>Typed data goes to an open connection or nowhere: an input event either sends exactly the
  normalised data on the mounted effect's socket, which is open and shown as open, or sends
  nothing; a mouse report is never sent and changes nothing at all.\<close>

theorem typed_input_is_gated:
  "ptySent (pty_step s (TypeData data now)) =
     (case live_socket s of
        None \<Rightarrow> ptySent s
      | Some i \<Rightarrow>
          if \<not> is_sgr_mouse data \<and> sockReady (ptySockets s ! i) = WsOpen \<and> ptyStateRef s = POpen
          then ptySent s @ [(i, sentData (normalize_pty_mobile_input data (ptyInputLine s) (now \<le> replacementUntil s)))]
          else ptySent s)
   \<and> (is_sgr_mouse data \<longrightarrow> pty_step s (TypeData data now) = s)"
  by (auto simp: terminal_data_def send_on_def Let_def should_block_pty_input_def split: option.split)

definition sample_open :: pty where
  "sample_open = foldl pty_step (initial_pty True True False None None [] None)
     [Commit ''t'' ''c'', TicketReady 0 True, SocketOpened 0 80 24, Commit ''t'' ''c'']"

definition sample_mouse :: string where
  "sample_mouse = ESC # ''[<64;10;5M''"

theorem typed_input_is_gated_witness:
  "is_sgr_mouse sample_mouse \<and> pty_step sample_open (TypeData sample_mouse 0) = sample_open
   \<and> ptySent (pty_step sample_open (TypeData ''hi'' 0)) = ptySent sample_open @ [(0, ''hi'')]"
proof -
  have "is_sgr_mouse sample_mouse" "live_socket sample_open = Some 0" "\<not> is_sgr_mouse ''hi''"
    "sockReady (ptySockets sample_open ! 0) = WsOpen" "ptyStateRef sample_open = POpen"
    "sentData (normalize_pty_mobile_input ''hi'' (ptyInputLine sample_open) (0 \<le> replacementUntil sample_open)) = ''hi''"
    by code_simp+
  then show ?thesis
    using typed_input_is_gated [of sample_open sample_mouse 0] typed_input_is_gated [of sample_open "''hi''" 0]
    by simp
qed

lemma cleanup_frame:
  "ptyEffects (cleanup_connect_effect s) =
     (case liveEffect s of None \<Rightarrow> ptyEffects s
      | Some e \<Rightarrow> (ptyEffects s)[e := (ptyEffects s ! e)\<lparr>effUnmounting := True\<rparr>])"
  "hasActivated (cleanup_connect_effect s) = hasActivated s"
  "canConnect (cleanup_connect_effect s) = canConnect s"
  "forceFreshPty (cleanup_connect_effect s) = forceFreshPty s"
  "attachStore (cleanup_connect_effect s) = attachStore s"
  "storageBlocked (cleanup_connect_effect s) = storageBlocked s"
  "resumeParam (cleanup_connect_effect s) = resumeParam s"
  "scopedProfile (cleanup_connect_effect s) = scopedProfile s"
  by (cases "liveEffect s"; cases "wsRef s";
      simp add: cleanup_connect_effect_def set_effect_def close_socket_def set_ready_def Let_def)+

lemma rechannel_frame:
  "hasActivated (rechannel r s) = hasActivated s" "canConnect (rechannel r s) = canConnect s"
  "forceFreshPty (rechannel r s) = forceFreshPty s" "attachStore (rechannel r s) = attachStore s"
  "storageBlocked (rechannel r s) = storageBlocked s"
  by (simp_all add: rechannel_def split: option.split)

text \<open>What a new run of the effect sends, given the nonce has moved.\<close>

lemma commit_new_effect:
  assumes "hasActivated s" "canConnect s" "\<not> storageBlocked s" "committedDeps s \<noteq> Some (current_deps s)"
  shows "map_of (effParams (last (ptyEffects (commit_pty tok ch s)))) ''fresh''
           = (if forceFreshPty s then Some ''1'' else None)
    \<and> map_of (effParams (last (ptyEffects (commit_pty tok ch s)))) ''attach''
           = Some (if forceFreshPty s \<or> \<not> truthy_str (attachStore s) then tok else the (attachStore s))
    \<and> attachStore (commit_pty tok ch s)
           = Some (if forceFreshPty s \<or> \<not> truthy_str (attachStore s) then tok else the (attachStore s))
    \<and> \<not> forceFreshPty (commit_pty tok ch s)"
  using assms
  by (cases "attachStore s")
    (auto simp: commit_pty_def run_connect_effect_def pty_attach_token_def cleanup_frame rechannel_frame
      Let_def current_deps_def truthy_str_def)

lemma commit_keeps:
  "hasActivated (commit_pty tok ch s) = hasActivated s \<and> canConnect (commit_pty tok ch s) = canConnect s
   \<and> storageBlocked (commit_pty tok ch s) = storageBlocked s"
  by (simp add: commit_pty_def run_connect_effect_def pty_attach_token_def cleanup_frame rechannel_frame Let_def)

lemma commit_deps: "\<exists>a r p. committedDeps (commit_pty tok ch s) = Some (a, r, p, reconnectNonce s)"
  by (auto simp: commit_pty_def Let_def current_deps_def)

lemma commit_nonce: "reconnectNonce (commit_pty tok ch s) = reconnectNonce s"
proof -
  have "reconnectNonce (rechannel r u) = reconnectNonce u" for r u
    by (simp add: rechannel_def split: option.split)
  moreover have "reconnectNonce (cleanup_connect_effect u) = reconnectNonce u" for u
    by (cases "liveEffect u"; cases "wsRef u";
        simp add: cleanup_connect_effect_def set_effect_def close_socket_def set_ready_def Let_def)
  moreover have "reconnectNonce (run_connect_effect r u) = reconnectNonce u" for r u
    by (simp add: run_connect_effect_def pty_attach_token_def Let_def)
  ultimately show ?thesis by (simp add: commit_pty_def Let_def)
qed

text \<open>A fresh session is fresh once: after \<open>Start new session\<close> the next connection asks
  for a fresh process with a new attach token, and the connection after that (a reconnect)
  reattaches to the same token and does not ask again.\<close>

theorem fresh_session_once:
  fixes ch ch' tok' :: string
  assumes "hasActivated s" "canConnect s" "\<not> storageBlocked s" "committedDeps s = Some (current_deps s)"
    and "tok \<noteq> []"
  defines "s1 \<equiv> pty_step (pty_step s StartFreshClick) (Commit tok ch)"
  defines "s2 \<equiv> pty_step (pty_step s1 ReconnectClick) (Commit tok' ch')"
  shows "map_of (effParams (last (ptyEffects s1))) ''fresh'' = Some ''1''
    \<and> map_of (effParams (last (ptyEffects s1))) ''attach'' = Some tok
    \<and> map_of (effParams (last (ptyEffects s2))) ''fresh'' = None
    \<and> map_of (effParams (last (ptyEffects s2))) ''attach'' = Some tok"
proof -
  let ?r = "restart_pty True s" and ?r1 = "restart_pty False s1"
  have s1: "s1 = commit_pty tok ch ?r" and s2: "s2 = commit_pty tok' ch' ?r1"
    by (simp_all add: s1_def s2_def)
  have r: "hasActivated ?r" "canConnect ?r" "\<not> storageBlocked ?r" "committedDeps ?r \<noteq> Some (current_deps ?r)"
    "forceFreshPty ?r"
    using assms(1-4) by (simp_all add: restart_pty_def current_deps_def)
  note first = commit_new_effect [OF r(1-4), of tok ch, folded s1]
  have keep: "hasActivated s1" "canConnect s1" "\<not> storageBlocked s1"
    using commit_keeps [of tok ch ?r] r by (simp_all add: s1)
  have "\<exists>a b p. committedDeps s1 = Some (a, b, p, reconnectNonce s1)"
    using commit_deps [of tok ch ?r] by (simp add: s1 commit_nonce)
  then have r1: "hasActivated ?r1" "canConnect ?r1" "\<not> storageBlocked ?r1"
    "committedDeps ?r1 \<noteq> Some (current_deps ?r1)" "\<not> forceFreshPty ?r1" "attachStore ?r1 = attachStore s1"
    using keep by (auto simp: restart_pty_def current_deps_def)
  note second = commit_new_effect [OF r1(1-4), of tok' ch', folded s2]
  from first second r(5) r1(5,6) assms(5) show ?thesis by simp
qed

theorem fresh_session_once_witness:
  "let s1 = pty_step (pty_step ended_state StartFreshClick) (Commit ''new'' ''c'');
       s2 = pty_step (pty_step s1 ReconnectClick) (Commit ''other'' ''c'')
   in map_of (effParams (last (ptyEffects s1))) ''attach'' = Some ''new''
      \<and> map_of (effParams (last (ptyEffects s2))) ''attach'' = Some ''new''"
proof -
  have "hasActivated ended_state" "canConnect ended_state" "\<not> storageBlocked ended_state"
    "committedDeps ended_state = Some (current_deps ended_state)"
    by code_simp+
  then show ?thesis using fresh_session_once [of ended_state "''new''" "''c''" "''other''" "''c''"] by (simp add: Let_def)
qed

section \<open>Two ways the connection goes wrong\<close>

text \<open>A failed ticket request leaves the connection in flight for ever: no timer is armed, no button is
  shown, and returning to the page does not retry, since a connect seems to be on its way.\<close>

definition wedged :: "pty \<Rightarrow> bool" where
  "wedged s \<longleftrightarrow> ptyState s = PConnecting \<and> ptyStateRef s = PConnecting \<and> connectInFlight s
     \<and> wsRef s = None \<and> reconnectTimer s = None \<and> connectingTimer s = None \<and> ptySockets s = []
     \<and> committedDeps s = Some (current_deps s) \<and> hasActivated s
     \<and> list_all (\<lambda>e. effTicket e \<noteq> TicketPending) (ptyEffects s) \<and> live_socket s = None"

fun leaves_chat_alone :: "pty_event \<Rightarrow> bool" where
  "leaves_chat_alone (NavigateTo r l p) = False"
| "leaves_chat_alone NewChatClick = False"
| "leaves_chat_alone _ = True"

lemma wedged_step:
  assumes w: "wedged s" and en: "pty_enabled s e" and a: "leaves_chat_alone e"
  shows "wedged (pty_step s e) \<and> reconnectNonce (pty_step s e) = reconnectNonce s"
proof (cases e)
  case (SetActive b)
  with w show ?thesis
    by (auto simp: wedged_def latch_chat_activation_def current_deps_def live_socket_def split: option.splits)
next
  case (Commit a b)
  with w show ?thesis by (auto simp: commit_pty_def wedged_def current_deps_def live_socket_def split: option.splits)
next
  case (TicketReady f ok)
  with w en show ?thesis by (auto simp: wedged_def list_all_length)
next
  case (PageResume h on now)
  with w show ?thesis
    by (simp add: maybe_reconnect_on_page_resume_def should_reconnect_pty_on_page_resume_def wedged_def)
next
  case LearnFires
  with w show ?thesis
    by (auto simp: learn_fires_def Let_def wedged_def current_deps_def live_socket_def split: list.split option.splits)
qed (use w en a in \<open>auto simp: wedged_def current_deps_def live_socket_def split: option.splits\<close>)

definition failed_ticket_state :: pty where
  "failed_ticket_state = foldl pty_step (initial_pty True True False None None [] None)
     [Commit ''t'' ''c'', TicketReady 0 False]"

theorem failed_ticket_is_never_retried:
  "legal_run pty_enabled pty_step failed_ticket_state es \<Longrightarrow> list_all leaves_chat_alone es \<Longrightarrow>
     ptyState (foldl pty_step failed_ticket_state es) = PConnecting
     \<and> reconnectNonce (foldl pty_step failed_ticket_state es) = 0
     \<and> ptySockets (foldl pty_step failed_ticket_state es) = []"
proof -
  have "wedged s \<Longrightarrow> legal_run pty_enabled pty_step s es \<Longrightarrow> list_all leaves_chat_alone es \<Longrightarrow>
      wedged (foldl pty_step s es) \<and> reconnectNonce (foldl pty_step s es) = reconnectNonce s" for s
    by (induction es arbitrary: s) (auto dest: wedged_step)
  moreover have "wedged failed_ticket_state \<and> reconnectNonce failed_ticket_state = 0" by code_simp
  moreover assume "legal_run pty_enabled pty_step failed_ticket_state es" "list_all leaves_chat_alone es"
  ultimately show ?thesis by (auto simp: wedged_def)
qed

text \<open>The close event of a replaced socket clears the ref that the new socket already owns; a return to
  the page then connects once more, and two sockets stay open.\<close>

definition stale_close_run :: "pty_event list" where
  "stale_close_run = [Commit ''t'' ''c'', TicketReady 0 True, SocketOpened 0 80 24, Commit ''t'' ''c'',
     NewChatClick, Commit ''u'' ''d'', TicketReady 1 True, SocketOpened 1 80 24,
     SocketClosed 0 1000 True [], Commit ''t'' ''c'', PageResume False True 5000, Commit ''t'' ''c'',
     TicketReady 2 True, SocketOpened 2 80 24]"

theorem stale_close_leaks_a_socket:
  "legal_run pty_enabled pty_step (initial_pty True True False None None [] None) stale_close_run
   \<and> length (filter (\<lambda>k. sockReady k = WsOpen)
       (ptySockets (foldl pty_step (initial_pty True True False None None [] None) stale_close_run))) = 2"
  by code_simp

end
