(* ===== verification/Fuzzy.thy ===== *)
theory Fuzzy
  imports JsValue
begin

text \<open>
  The picker filter: \<open>web/src/lib/fuzzy.ts\<close> (the greedy subsequence scorer, the multi-token
  scorer and the ranking) and \<open>web/src/lib/model-picker-filter.ts\<close>.

  Scores are rationals, as the code writes them; the code's doubles round the last term
  \<open>length * 0.01\<close>. The order of results is a linear order on \<open>rank_key\<close>: the
  comparator \<open>b.score - a.score || a.index - b.index\<close>.
\<close>

section \<open>The scorer\<close>

record fuzzy_match =
  matchScore :: rat
  matchPositions :: "nat list"

definition is_boundary_char :: "char \<Rightarrow> bool" where
  "is_boundary_char c \<longleftrightarrow> c \<in> set ''-_/.'' \<or> is_ws c"

definition is_boundary :: "string \<Rightarrow> nat \<Rightarrow> bool" where
  "is_boundary target index \<longleftrightarrow>
     (if index = 0 then True
      else (let prev = target ! (index - 1); cur = target ! index
            in if is_boundary_char prev then True
               else prev = lower_char prev \<and> cur \<noteq> lower_char cur \<and> [cur] = upper_char cur))"

text \<open>\<open>indexOf(c, from)\<close>.\<close>

definition index_from :: "char \<Rightarrow> string \<Rightarrow> nat \<Rightarrow> nat option" where
  "index_from c s i = map_option ((+) i) (index_of c (drop i s))"

text \<open>The points one matched character earns; \<open>prev\<close> is the previous match, if any.\<close>

definition char_points :: "string \<Rightarrow> nat option \<Rightarrow> nat \<Rightarrow> rat" where
  "char_points target prev i =
     1 + (case prev of
            None \<Rightarrow> 0
          | Some p \<Rightarrow> if i = p + 1 then 5 else - of_nat (min (i - p - 1) 3))
       + (if is_boundary target i then 3 else 0)
       + (if i = 0 then 5 else 0)"

fun fuzzy_loop ::
  "string \<Rightarrow> string \<Rightarrow> string \<Rightarrow> nat option \<Rightarrow> nat \<Rightarrow> rat \<Rightarrow> nat list \<Rightarrow> (rat \<times> nat list) option" where
  "fuzzy_loop target lowerTarget [] prev searchFrom score positions = Some (score, positions)"
| "fuzzy_loop target lowerTarget (ch # q) prev searchFrom score positions =
     (case index_from ch lowerTarget searchFrom of
        None \<Rightarrow> None
      | Some i \<Rightarrow> fuzzy_loop target lowerTarget q (Some i) (i + 1)
                  (score + char_points target prev i) (positions @ [i]))"

definition fuzzy_score :: "string \<Rightarrow> string \<Rightarrow> fuzzy_match option" where
  "fuzzy_score target query =
     (if query = [] then Some \<lparr>matchScore = 0, matchPositions = []\<rparr>
      else
        (let lowerTarget = lower target; lowerQuery = lower query
         in case fuzzy_loop target lowerTarget lowerQuery None 0 0 [] of
              None \<Rightarrow> None
            | Some (score, positions) \<Rightarrow>
                (let prefix_bonus = (if positions \<noteq> [] \<and> hd positions = 0
                                       \<and> last positions = length positions - 1 then 8 else 0);
                     exact_bonus = (if lowerTarget = lowerQuery then 20 else 0)
                 in Some \<lparr>matchScore = score + prefix_bonus + exact_bonus
                                        - of_nat (length lowerTarget) * (1 / 100),
                          matchPositions = positions\<rparr>)))"

definition query_tokens :: "string \<Rightarrow> string list" where
  "query_tokens query = filter (\<lambda>w. w \<noteq> []) (split_ws (lower (trim query)))"

fun multi_loop :: "string \<Rightarrow> string list \<Rightarrow> rat \<Rightarrow> nat set \<Rightarrow> fuzzy_match option" where
  "multi_loop target [] score positionSet =
     Some \<lparr>matchScore = score, matchPositions = sorted_list_of_set positionSet\<rparr>"
| "multi_loop target (token # tokens) score positionSet =
     (case fuzzy_score target token of
        None \<Rightarrow> None
      | Some m \<Rightarrow> multi_loop target tokens (score + matchScore m) (positionSet \<union> set (matchPositions m)))"

definition fuzzy_score_multi :: "string \<Rightarrow> string \<Rightarrow> fuzzy_match option" where
  "fuzzy_score_multi target query = multi_loop target (query_tokens query) 0 {}"

section \<open>The ranking\<close>

datatype rank_key = RankKey (rankScore: rat) (rankIndex: nat)

instantiation rank_key :: linorder
begin

definition less_eq_rank_key :: "rank_key \<Rightarrow> rank_key \<Rightarrow> bool" where
  "less_eq_rank_key a b \<longleftrightarrow>
     rankScore b < rankScore a \<or> (rankScore a = rankScore b \<and> rankIndex a \<le> rankIndex b)"

definition less_rank_key :: "rank_key \<Rightarrow> rank_key \<Rightarrow> bool" where
  "less_rank_key a b \<longleftrightarrow>
     rankScore b < rankScore a \<or> (rankScore a = rankScore b \<and> rankIndex a < rankIndex b)"

instance
  by standard (auto simp: less_eq_rank_key_def less_rank_key_def intro: rank_key.expand)

end

record 'a ranked_item =
  rankedItem :: 'a
  rankedMatch :: fuzzy_match

definition score_items :: "('a \<Rightarrow> string) \<Rightarrow> 'a list \<Rightarrow> string \<Rightarrow> (nat \<times> 'a \<times> fuzzy_match) list" where
  "score_items to_text items query =
     List.map_filter (\<lambda>(i, item). map_option (\<lambda>m. (i, item, m)) (fuzzy_score_multi (to_text item) query))
       (enumerate 0 items)"

definition fuzzy_rank :: "('a \<Rightarrow> string) \<Rightarrow> 'a list \<Rightarrow> string \<Rightarrow> 'a ranked_item list" where
  "fuzzy_rank to_text items query =
     (let trimmed = trim query
      in if trimmed = []
         then map (\<lambda>item. \<lparr>rankedItem = item, rankedMatch = \<lparr>matchScore = 0, matchPositions = []\<rparr>\<rparr>) items
         else map (\<lambda>(i, item, m). \<lparr>rankedItem = item, rankedMatch = m\<rparr>)
                (sort_key (\<lambda>(i, item, m). RankKey (matchScore m) i) (score_items to_text items trimmed)))"

section \<open>The model picker\<close>

text \<open>\<open>queryMatchesProviderOnly\<close>; a provider is its name and its slug.\<close>

definition query_matches_provider_only ::
  "(string \<times> string) option \<Rightarrow> string list \<Rightarrow> string \<Rightarrow> bool" where
  "query_matches_provider_only selectedProvider models trimmedQuery =
     (case selectedProvider of
        None \<Rightarrow> False
      | Some (name, slug) \<Rightarrow>
          if trimmedQuery = [] then False
          else fuzzy_score_multi (name @ '' '' @ slug) trimmedQuery \<noteq> None
               \<and> \<not> list_ex (\<lambda>m. fuzzy_score_multi m trimmedQuery \<noteq> None) models)"

section \<open>The greedy search is complete\<close>

lemma index_from_Some:
  "index_from c s i = Some j \<Longrightarrow> i \<le> j \<and> j < length s \<and> s ! j = c"
  using index_of_Some [of c "drop i s"] by (auto simp: index_from_def)

lemma index_from_None: "index_from c s i = None \<longleftrightarrow> c \<notin> set (drop i s)"
  by (simp add: index_from_def index_of_None)

text \<open>Matching the first occurrence loses no embedding.\<close>

lemma subseq_greedy: "index_of c s = Some j \<Longrightarrow> subseq (c # q) s \<longleftrightarrow> subseq q (drop (Suc j) s)"
proof (induction s arbitrary: j)
  case (Cons d s)
  show ?case
  proof (cases "c = d")
    case False
    with Cons obtain k where "index_of c s = Some k" "j = Suc k" by auto
    with Cons.IH False show ?thesis by simp
  qed (use Cons.prems in simp)
qed simp

lemma subseq_index_from:
  "subseq (c # q) (drop i s) \<longleftrightarrow>
     (case index_from c s i of None \<Rightarrow> False | Some j \<Rightarrow> subseq q (drop (j + 1) s))"
proof (cases "index_of c (drop i s)")
  case None
  then have "c \<notin> set (drop i s)" by (simp add: index_of_None)
  then have "\<not> subseq (c # q) (drop i s)" using list_emb_set [of "(=)" "c # q" "drop i s" c] by auto
  with None show ?thesis by (simp add: index_from_def)
next
  case (Some j)
  with subseq_greedy [OF Some, of q] show ?thesis by (simp add: index_from_def add.commute)
qed

lemma fuzzy_loop_complete:
  "fuzzy_loop t lt q prev i sc ps \<noteq> None \<longleftrightarrow> subseq q (drop i lt)"
  by (induction t lt q prev i sc ps rule: fuzzy_loop.induct)
    (auto simp: subseq_index_from split: option.splits)

lemma fuzzy_loop_positions:
  "fuzzy_loop t lt q prev i sc ps = Some (sc', ps') \<Longrightarrow>
     \<exists>new. ps' = ps @ new \<and> map ((!) lt) new = q \<and> sorted_wrt (<) new
       \<and> (\<forall>p \<in> set new. i \<le> p \<and> p < length lt)"
proof (induction t lt q prev i sc ps rule: fuzzy_loop.induct)
  case (2 t lt c q prev i sc ps)
  then obtain j where j: "index_from c lt i = Some j"
    and rest: "fuzzy_loop t lt q (Some j) (j + 1) (sc + char_points t prev j) (ps @ [j]) = Some (sc', ps')"
    by (auto split: option.splits)
  from "2.IH" [OF j rest] obtain new where new: "ps' = (ps @ [j]) @ new" "map ((!) lt) new = q"
    "sorted_wrt (<) new" "\<forall>p \<in> set new. j + 1 \<le> p \<and> p < length lt" by blast
  with index_from_Some [OF j] show ?case by (intro exI [of _ "j # new"]) auto
qed auto

lemma lower_nth: "i < length t \<Longrightarrow> lower t ! i = lower_char (t ! i)"
  by (simp add: lower_def)

section \<open>What the scorer accepts\<close>

text \<open>Claim C5. The scorer accepts a target exactly when the query is a subsequence of it, ignoring
  case, and the positions it reports for highlighting are an embedding of the query: strictly
  increasing indices of the target, one for each character of the query, at that character.\<close>

theorem fuzzy_score_is_subsequence:
  "case fuzzy_score target query of
     None \<Rightarrow> \<not> subseq (lower query) (lower target)
   | Some m \<Rightarrow> subseq (lower query) (lower target)
       \<and> sorted_wrt (<) (matchPositions m) \<and> list_all (\<lambda>i. i < length target) (matchPositions m)
       \<and> map (\<lambda>i. lower_char (target ! i)) (matchPositions m) = lower query"
proof (cases "fuzzy_loop target (lower target) (lower query) None 0 0 []")
  case None
  then show ?thesis
    using fuzzy_loop_complete [of target "lower target" "lower query" None 0 0 "[]"]
    by (auto simp: fuzzy_score_def lower_def)
next
  case (Some r)
  obtain sc ps where r: "r = (sc, ps)" by (cases r)
  from fuzzy_loop_positions [OF Some [unfolded r]]
  have ps: "map ((!) (lower target)) ps = lower query" "sorted_wrt (<) ps"
    "\<forall>p \<in> set ps. p < length (lower target)" by auto
  have "map (\<lambda>i. lower_char (target ! i)) ps = map ((!) (lower target)) ps"
    using ps(3) by (intro map_cong) (auto simp: lower_nth)
  then have eq: "map (\<lambda>i. lower_char (target ! i)) ps = lower query" using ps(1) by simp
  have sub: "subseq (lower query) (lower target)"
    using fuzzy_loop_complete [of target "lower target" "lower query" None 0 0 "[]"] Some by simp
  have nil: "lower [] = []" by (simp add: lower_def)
  show ?thesis
  proof (cases "query = []")
    case True
    then show ?thesis by (simp add: fuzzy_score_def nil)
  qed (use Some ps(2,3) eq sub r in \<open>simp add: fuzzy_score_def Let_def list_all_iff\<close>)
qed

section \<open>What the multi-token scorer accepts\<close>

lemma fuzzy_score_None: "fuzzy_score t w = None \<longleftrightarrow> \<not> subseq (lower w) (lower t)"
  using fuzzy_loop_complete [of t "lower t" "lower w" None 0 0 "[]"]
  by (auto simp: fuzzy_score_def Let_def lower_def split: option.splits)

lemma query_tokens_lower: "w \<in> set (query_tokens q) \<Longrightarrow> lower w = w"
proof -
  assume "w \<in> set (query_tokens q)"
  then have "w \<in> set (split_ws (lower (trim q)))" by (simp add: query_tokens_def)
  then have "set w \<subseteq> set (lower (trim q))" using split_ws_subset by blast
  then have "\<forall>c \<in> set w. lower_char c = c" by (auto simp: lower_def)
  then show ?thesis by (simp add: lower_def map_idI)
qed

lemma multi_loop_None:
  "multi_loop t ws sc P = None \<longleftrightarrow> (\<exists>w \<in> set ws. fuzzy_score t w = None)"
  by (induction t ws sc P rule: multi_loop.induct) (auto split: option.split)

lemma fuzzy_score_multi_None:
  "fuzzy_score_multi t q = None \<longleftrightarrow> (\<exists>w \<in> set (query_tokens q). \<not> subseq w (lower t))"
  by (auto simp: fuzzy_score_multi_def multi_loop_None fuzzy_score_None query_tokens_lower)

lemma query_tokens_trim [simp]: "query_tokens (trim q) = query_tokens q"
  by (simp add: query_tokens_def trim_trimmed trimmed_trim)

lemma query_tokens_blank: "trim q = [] \<Longrightarrow> query_tokens q = []"
  by (simp add: query_tokens_def split_ws_free lower_def)

section \<open>The ranking\<close>

lemma score_items_filter:
  "map (fst \<circ> snd) (filter (\<lambda>r. P (snd (snd r))) (score_items f items q))
     = filter (\<lambda>x. \<exists>m. fuzzy_score_multi (f x) q = Some m \<and> P m) items"
proof -
  have "map (fst \<circ> snd) (filter (\<lambda>r. P (snd (snd r)))
          (List.map_filter (\<lambda>(i, item). map_option (\<lambda>m. (i, item, m)) (fuzzy_score_multi (f item) q))
            (enumerate n items)))
      = filter (\<lambda>x. \<exists>m. fuzzy_score_multi (f x) q = Some m \<and> P m) items" for n
    by (induction items arbitrary: n) (auto simp: map_filter_simps split: option.split)
  then show ?thesis by (simp add: score_items_def)
qed

lemma score_items_sorted: "sorted (map fst (score_items f items q))"
proof -
  let ?g = "\<lambda>(i, item). map_option (\<lambda>m. (i, item, m)) (fuzzy_score_multi (f item) q)"
  let ?keep = "filter (\<lambda>x. ?g x \<noteq> None) (enumerate 0 items)"
  have "map fst (score_items f items q) = map fst ?keep"
    unfolding score_items_def List.map_filter_def map_map by (intro map_cong refl) auto
  also have "sorted (map fst ?keep)" by (intro sorted_filter) simp
  finally show ?thesis .
qed

text \<open>The matches of one score, in the sorted list, are in the order of the items.\<close>

lemma ranking_stable:
  fixes rs :: "(nat \<times> 'a \<times> fuzzy_match) list"
  assumes "sorted (map fst rs)"
  shows "filter (\<lambda>r. matchScore (snd (snd r)) = s) (sort_key (\<lambda>(i, item, m). RankKey (matchScore m) i) rs)
           = filter (\<lambda>r. matchScore (snd (snd r)) = s) rs"
proof -
  let ?fs = "filter (\<lambda>r. matchScore (snd (snd r)) = s) rs"
  have "sorted (map fst ?fs)" using assms by (rule sorted_filter)
  then have "sorted (map (\<lambda>(i, item, m). RankKey (matchScore m) i) ?fs)"
    unfolding sorted_map by (rule sorted_wrt_mono_rel [rotated]) (auto simp: less_eq_rank_key_def)
  then show ?thesis by (simp add: filter_sort sort_key_id_if_sorted)
qed

text \<open>Ranking filters and sorts: the results are in descending order of score, and the
  results of each score are exactly the items that match with that score, in their original
  order; so no match is lost, no item appears that does not match, and ties keep their order. A
  blank query matches every item and keeps the list as it is.\<close>

theorem fuzzy_rank_sorts_matches:
  "sorted_wrt (\<lambda>a b. matchScore (rankedMatch b) \<le> matchScore (rankedMatch a)) (fuzzy_rank f items q)
   \<and> map rankedItem (filter (\<lambda>r. matchScore (rankedMatch r) = s) (fuzzy_rank f items q))
       = filter (\<lambda>x. \<exists>m. fuzzy_score_multi (f x) q = Some m \<and> matchScore m = s) items"
proof (cases "trim q = []")
  case True
  then have "fuzzy_score_multi t q = Some \<lparr>matchScore = 0, matchPositions = []\<rparr>" for t
    by (simp add: fuzzy_score_multi_def query_tokens_blank)
  with True show ?thesis
    by (simp add: fuzzy_rank_def sorted_wrt_map filter_map o_def)
next
  case False
  let ?rs = "score_items f items (trim q)"
  let ?key = "\<lambda>(i, item, m). RankKey (matchScore m) i"
  have rank: "fuzzy_rank f items q = map (\<lambda>(i, item, m). \<lparr>rankedItem = item, rankedMatch = m\<rparr>) (sort_key ?key ?rs)"
    using False by (simp add: fuzzy_rank_def)
  have "sorted (map ?key (sort_key ?key ?rs))" by simp
  then have "sorted_wrt (\<lambda>a b. matchScore (snd (snd b)) \<le> matchScore (snd (snd a))) (sort_key ?key ?rs)"
    unfolding sorted_map by (rule sorted_wrt_mono_rel [rotated]) (auto simp: less_eq_rank_key_def)
  then have "sorted_wrt (\<lambda>a b. matchScore (rankedMatch b) \<le> matchScore (rankedMatch a)) (fuzzy_rank f items q)"
    by (simp add: rank sorted_wrt_map case_prod_unfold)
  moreover have "map rankedItem (filter (\<lambda>r. matchScore (rankedMatch r) = s) (fuzzy_rank f items q))
      = map (fst \<circ> snd) (filter (\<lambda>r. matchScore (snd (snd r)) = s) ?rs)"
    using ranking_stable [OF score_items_sorted, of s f items "trim q"]
    by (simp add: rank filter_map o_def case_prod_unfold)
  moreover have "fuzzy_score_multi t (trim q) = fuzzy_score_multi t q" for t
    by (simp add: fuzzy_score_multi_def)
  ultimately show ?thesis
    using score_items_filter [of "\<lambda>m. matchScore m = s" f items "trim q"] by simp
qed

section \<open>Exact matches\<close>

lemma char_points_append: "i < length t \<Longrightarrow> char_points (t @ x) p i = char_points t p i"
  by (auto simp: char_points_def is_boundary_def Let_def nth_append)

text \<open>Against a target that starts with it, the query is matched where it stands.\<close>

lemma fuzzy_loop_prefix:
  "lower t = pre @ q \<Longrightarrow> length pre = i \<Longrightarrow>
     fuzzy_loop (t @ x) (lower (t @ x)) q prev i sc ps = fuzzy_loop t (lower t) q prev i sc ps"
proof (induction q arbitrary: pre prev i sc ps)
  case (Cons c q)
  have "index_from c (lower (t @ x)) i = Some i" "index_from c (lower t) i = Some i"
    using Cons.prems by (simp_all add: index_from_def lower_append)
  moreover have "i < length t"
    using Cons.prems by (metis length_append length_lower length_Cons less_add_Suc1 add_Suc_right)
  ultimately show ?case
    using Cons.IH [of "pre @ [c]" "i + 1"] Cons.prems by (simp add: char_points_append)
qed simp

text \<open>The full match wins over every longer text it begins: a query scores strictly higher
  against itself than against any proper extension.\<close>

theorem exact_beats_extension:
  assumes "query \<noteq> []" and "x \<noteq> []"
  shows "\<exists>m m'. fuzzy_score query query = Some m \<and> fuzzy_score (query @ x) query = Some m'
           \<and> matchScore m' < matchScore m \<and> matchPositions m' = matchPositions m"
proof -
  obtain sc ps where loop: "fuzzy_loop query (lower query) (lower query) None 0 0 [] = Some (sc, ps)"
    using fuzzy_loop_complete [of query "lower query" "lower query" None 0 0 "[]"] by auto
  have "fuzzy_loop (query @ x) (lower (query @ x)) (lower query) None 0 0 [] = Some (sc, ps)"
    using fuzzy_loop_prefix [of query "[]" "lower query" 0 x None 0 "[]"] loop by simp
  moreover have "lower (query @ x) \<noteq> lower query" using assms by (simp add: lower_append)
  moreover have "- ((rat_of_nat n + rat_of_nat k) / 100) < 20 - rat_of_nat n / 100" for n k
  proof -
    have "0 \<le> rat_of_nat k / 100" by simp
    then have "- (rat_of_nat k / 100) < 20" by linarith
    then show ?thesis by (simp add: add_divide_distrib)
  qed
  ultimately show ?thesis using assms loop by (simp add: fuzzy_score_def Let_def)
qed

theorem exact_beats_extension_witness:
  "\<exists>m m'. fuzzy_score ''son4'' ''son4'' = Some m \<and> fuzzy_score ''son4-x'' ''son4'' = Some m'
     \<and> matchScore m' < matchScore m \<and> matchPositions m' = matchPositions m"
  using exact_beats_extension [of "''son4''" "''-x''"] by simp

text \<open>The comment \<open>Exact full match dominates everything else\<close> says more than the scores do: a
  longer target with enough case transitions outscores the exact match.\<close>

theorem exact_match_can_lose:
  "case (fuzzy_score ''abcdefghijklmnop'' ''abcdefghijklmnop'', fuzzy_score ''aBcDeFgHiJkLmNoPx'' ''abcdefghijklmnop'') of
     (Some m, Some m') \<Rightarrow> matchScore m < matchScore m'
   | _ \<Rightarrow> False"
  by code_simp

section \<open>The provider filter\<close>

text \<open>The model pane falls back to the full list exactly when the query names the provider and no
  model: some provider is selected, the query is not empty, every word of it is a subsequence of
  the provider's name and slug, and every model misses at least one word.\<close>

theorem provider_only_spec:
  "query_matches_provider_only provider models q \<longleftrightarrow>
     q \<noteq> [] \<and> (\<exists>name slug. provider = Some (name, slug)
       \<and> list_all (\<lambda>w. subseq w (lower (name @ '' '' @ slug))) (query_tokens q)
       \<and> list_all (\<lambda>m. list_ex (\<lambda>w. \<not> subseq w (lower m)) (query_tokens q)) models)"
  by (cases provider)
    (auto simp: query_matches_provider_only_def fuzzy_score_multi_None list_all_iff list_ex_iff)

end
