(* ===== verification/Schedule.thy ===== *)
theory Schedule
  imports JsValue
begin

text \<open>
  The schedule builder: \<open>web/src/lib/schedule.ts\<close> (building a schedule string from the
  picker's state, reading one back, and describing a stored schedule in words) and the handlers
  of \<open>web/src/components/ScheduleBuilder.tsx\<close> that edit the picker's state.

  Numbers typed by the user are \<open>jsnum\<close>; the numbers the module parses are naturals.
  The host's time zone enters only through \<open>new Date(iso)\<close>, a parameter
  \<open>date_fields\<close> that gives the local fields of a timestamp, or \<open>None\<close> when the
  date is invalid.
\<close>

section \<open>Data\<close>

datatype schedule_mode = MInterval | MDaily | MWeekly | MMonthly | MOnce | MCustom

datatype interval_unit = Minutes | Hours | Days

definition WEEKDAY_INDEXES :: "nat list" where
  "WEEKDAY_INDEXES = [0, 1, 2, 3, 4, 5, 6]"

record schedule_state =
  schedMode :: schedule_mode
  intervalValue :: jsnum
  intervalUnit :: interval_unit
  timeOfDay :: string
  weekdays :: "nat list"
  dayOfMonth :: jsnum
  onceAt :: string
  customExpr :: string

definition DEFAULT_SCHEDULE_STATE :: schedule_state where
  "DEFAULT_SCHEDULE_STATE = \<lparr>schedMode = MInterval, intervalValue = num_of_int 30,
     intervalUnit = Minutes, timeOfDay = ''09:00'', weekdays = [1, 2, 3, 4, 5],
     dayOfMonth = num_of_int 1, onceAt = [], customExpr = []\<rparr>"

fun unit_suffix :: "interval_unit \<Rightarrow> string" where
  "unit_suffix Minutes = ''m''"
| "unit_suffix Hours = ''h''"
| "unit_suffix Days = ''d''"

section \<open>Building the schedule string\<close>

text \<open>The shape \<open>^\d{1,2}:\d{2}$\<close>.\<close>

fun time_shape :: "string \<Rightarrow> bool" where
  "time_shape [h, c, m1, m2] = (is_digit h \<and> c = CHR '':'' \<and> is_digit m1 \<and> is_digit m2)"
| "time_shape [h1, h2, c, m1, m2] =
     (is_digit h1 \<and> is_digit h2 \<and> c = CHR '':'' \<and> is_digit m1 \<and> is_digit m2)"
| "time_shape _ = False"

definition parse_time_of_day :: "string \<Rightarrow> (nat \<times> nat) option" where
  "parse_time_of_day v =
     (if v = [] \<or> \<not> time_shape v then None
      else (case split_on (CHR '':'') v of
          hh # mm # _ \<Rightarrow>
            (let hour = parse_digits hh; minute = parse_digits mm
             in if hour > 23 \<or> minute > 59 then None else Some (hour, minute))
        | _ \<Rightarrow> None))"

definition build_schedule_string :: "schedule_state \<Rightarrow> string" where
  "build_schedule_string st =
     (case schedMode st of
        MInterval \<Rightarrow>
          (let n = js_floor (intervalValue st)
           in if \<not> is_finite n \<or> int_of_num n < 1 then []
              else ''every '' @ show_int (int_of_num n) @ unit_suffix (intervalUnit st))
      | MDaily \<Rightarrow>
          (case parse_time_of_day (timeOfDay st) of
             None \<Rightarrow> []
           | Some (hour, minute) \<Rightarrow> show_nat minute @ '' '' @ show_nat hour @ '' * * *'')
      | MWeekly \<Rightarrow>
          (case parse_time_of_day (timeOfDay st) of
             None \<Rightarrow> []
           | Some (hour, minute) \<Rightarrow>
               (let days = (if weekdays st = [] then ''*''
                            else join '','' (map show_nat (sort (weekdays st))))
                in show_nat minute @ '' '' @ show_nat hour @ '' * * '' @ days))
      | MMonthly \<Rightarrow>
          (case parse_time_of_day (timeOfDay st) of
             None \<Rightarrow> []
           | Some (hour, minute) \<Rightarrow>
               (let day = js_floor (dayOfMonth st)
                in if \<not> is_finite day \<or> int_of_num day < 1 \<or> int_of_num day > 31 then []
                   else show_nat minute @ '' '' @ show_nat hour @ '' '' @ show_int (int_of_num day)
                        @ '' * *''))
      | MOnce \<Rightarrow>
          (let v = trim (onceAt st)
           in if v = [] then [] else if length v = 16 then v @ '':00'' else v)
      | MCustom \<Rightarrow> trim (customExpr st))"

section \<open>Reading a schedule string back\<close>

datatype simple_cron = CronDaily string | CronWeekly string "nat list" | CronMonthly string nat

definition pad2 :: "nat \<Rightarrow> string" where
  "pad2 n = (if n < 10 then ''0'' @ show_nat n else show_nat n)"

text \<open>\<open>^\d+(,\d+)*$|^\*$\<close>: one or more comma-separated groups of digits, or a star.\<close>

definition is_literal_or_list :: "string \<Rightarrow> bool" where
  "is_literal_or_list f \<longleftrightarrow> list_all all_digits (split_on (CHR '','') f) \<or> f = ''*''"

text \<open>The loop over the weekday list: 7 is Sunday, a repeated day is kept once.\<close>

fun collect_weekdays :: "nat list \<Rightarrow> nat list \<Rightarrow> nat list option" where
  "collect_weekdays acc [] = Some acc"
| "collect_weekdays acc (day # ds) =
     (if day > 7 then None
      else (let normalized = (if day = 7 then 0 else day)
            in collect_weekdays (if normalized \<in> set acc then acc else acc @ [normalized]) ds))"

definition parse_simple_cron_expression :: "string \<Rightarrow> simple_cron option" where
  "parse_simple_cron_expression expr =
     (case split_ws (trim expr) of
        [minField, hourField, domField, monField, dowField] \<Rightarrow>
          if monField \<noteq> ''*'' then None
          else if \<not> is_literal_or_list minField \<or> \<not> is_literal_or_list hourField
             \<or> \<not> is_literal_or_list domField \<or> \<not> is_literal_or_list dowField then None
          else if minField = ''*'' \<or> hourField = ''*'' then None
          else
            (let minutes = map parse_digits (split_on (CHR '','') minField);
                 hours = map parse_digits (split_on (CHR '','') hourField)
             in if length minutes \<noteq> 1 \<or> length hours \<noteq> 1 then None
                else if hd hours > 23 \<or> hd minutes > 59 then None
                else
                  (let time = pad2 (hd hours) @ '':'' @ pad2 (hd minutes);
                       domAll = (domField = ''*''); dowAll = (dowField = ''*'')
                   in if domAll \<and> dowAll then Some (CronDaily time)
                      else if domAll \<and> \<not> dowAll then
                        (case collect_weekdays [] (map parse_digits (split_on (CHR '','') dowField)) of
                           None \<Rightarrow> None
                         | Some wds \<Rightarrow> if wds = [] then None else Some (CronWeekly time wds))
                      else if \<not> domAll \<and> dowAll then
                        (if \<not> all_digits domField then None
                         else (let day = parse_digits domField
                               in if day < 1 \<or> day > 31 then None else Some (CronMonthly time day)))
                      else None))
      | _ \<Rightarrow> None)"

text \<open>Matching against a template in which \<open>9\<close> stands for a digit.\<close>

fun matches_template :: "string \<Rightarrow> string \<Rightarrow> bool" where
  "matches_template [] [] = True"
| "matches_template (t # ts) (c # cs) =
     ((if t = CHR ''9'' then is_digit c else c = t) \<and> matches_template ts cs)"
| "matches_template _ _ = False"

definition is_iso_local :: "string \<Rightarrow> bool" where
  "is_iso_local s \<longleftrightarrow> matches_template ''9999-99-99T99:99'' s
     \<or> matches_template ''9999-99-99T99:99:99'' s"

text \<open>\<open>^every\s+(\d+)\s*([mhd])$\<close>, ignoring case: the digits and the suffix letter.\<close>

definition match_interval :: "string \<Rightarrow> (string \<times> char) option" where
  "match_interval s =
     (let r1 = drop 5 s;
          r2 = dropWhile is_ws r1;
          ds = takeWhile is_digit r2;
          r3 = dropWhile is_ws (dropWhile is_digit r2)
      in if lower (take 5 s) \<noteq> ''every'' \<or> takeWhile is_ws r1 = [] \<or> ds = [] then None
         else (case r3 of
             [c] \<Rightarrow> if lower_char c \<in> set ''mhd'' then Some (ds, c) else None
           | _ \<Rightarrow> None))"

definition parse_schedule_string :: "string \<Rightarrow> schedule_state" where
  "parse_schedule_string schedule =
     (let trimmed = trim schedule
      in if trimmed = [] then DEFAULT_SCHEDULE_STATE
         else if is_iso_local trimmed then
           DEFAULT_SCHEDULE_STATE\<lparr>schedMode := MOnce, onceAt := take 16 trimmed\<rparr>
         else (case match_interval trimmed of
             Some (ds, c) \<Rightarrow>
               (let value = parse_digits ds; suffix = lower_char c;
                    unit = (if suffix = CHR ''d'' then Days
                            else if suffix = CHR ''h'' then Hours else Minutes)
                in DEFAULT_SCHEDULE_STATE\<lparr>schedMode := MInterval,
                     intervalValue := num_of_int (if value > 0 then int value else 1),
                     intervalUnit := unit\<rparr>)
           | None \<Rightarrow>
               (case parse_simple_cron_expression trimmed of
                  Some (CronDaily time) \<Rightarrow>
                    DEFAULT_SCHEDULE_STATE\<lparr>schedMode := MDaily, timeOfDay := time\<rparr>
                | Some (CronWeekly time wds) \<Rightarrow>
                    DEFAULT_SCHEDULE_STATE\<lparr>schedMode := MWeekly, timeOfDay := time, weekdays := wds\<rparr>
                | Some (CronMonthly time day) \<Rightarrow>
                    DEFAULT_SCHEDULE_STATE\<lparr>schedMode := MMonthly, timeOfDay := time,
                      dayOfMonth := num_of_int (int day)\<rparr>
                | None \<Rightarrow> DEFAULT_SCHEDULE_STATE\<lparr>schedMode := MCustom, customExpr := trimmed\<rparr>)))"

section \<open>Describing a schedule\<close>

record describe_strings =
  dsNone :: string
  everyMinutes :: string
  everyHours :: string
  everyDays :: string
  dailyAt :: string
  weeklyAt :: string
  monthlyAt :: string
  dsOnceAt :: string
  weekdaysShort :: "string list"
  ordinal :: "nat \<Rightarrow> string"

record schedule_like =
  slKind :: "string option"
  slExpr :: "string option"
  slMinutes :: "int option"
  slRunAt :: "string option"
  slDisplay :: "string option"

definition describe_interval :: "int \<Rightarrow> describe_strings \<Rightarrow> string" where
  "describe_interval minutes strings =
     (if minutes \<le> 0 then dsNone strings
      else if minutes mod 1440 = 0 then
        replace_first (everyDays strings) ''{n}'' (show_int (minutes div 1440))
      else if minutes mod 60 = 0 then
        replace_first (everyHours strings) ''{n}'' (show_int (minutes div 60))
      else replace_first (everyMinutes strings) ''{n}'' (show_int minutes))"

fun describe_parsed :: "describe_strings \<Rightarrow> simple_cron \<Rightarrow> string" where
  "describe_parsed strings (CronDaily time) = replace_first (dailyAt strings) ''{time}'' time"
| "describe_parsed strings (CronWeekly time wds) =
     (let labels = join '', ''
            (filter (\<lambda>l. l \<noteq> [])
               (map (\<lambda>d. if d < length (weekdaysShort strings) then weekdaysShort strings ! d else [])
                  wds))
      in replace_first (replace_first (weeklyAt strings) ''{days}'' labels) ''{time}'' time)"
| "describe_parsed strings (CronMonthly time day) =
     replace_first (replace_first (monthlyAt strings) ''{day}'' (ordinal strings day)) ''{time}'' time"

definition describe_cron_expression :: "string \<Rightarrow> describe_strings \<Rightarrow> string option" where
  "describe_cron_expression expr strings =
     (case parse_simple_cron_expression expr of
        None \<Rightarrow> None
      | Some parsed \<Rightarrow> Some (describe_parsed strings parsed))"

text \<open>The local fields of a date: year, month from 0, day, hours, minutes, seconds.\<close>

type_synonym date_fields = "string \<Rightarrow> (int \<times> nat \<times> nat \<times> nat \<times> nat \<times> nat) option"

definition format_iso_local :: "date_fields \<Rightarrow> string \<Rightarrow> bool \<Rightarrow> string" where
  "format_iso_local date isoStr includeSeconds =
     (case date isoStr of
        None \<Rightarrow> isoStr
      | Some (yyyy, mon, dd, hh, mi, ss) \<Rightarrow>
          (let base = show_int yyyy @ ''-'' @ pad2 (mon + 1) @ ''-'' @ pad2 dd @ '' '' @ pad2 hh
                      @ '':'' @ pad2 mi
           in if includeSeconds then base @ '':'' @ pad2 ss else base))"

definition or_else :: "string option \<Rightarrow> string \<Rightarrow> string" where
  "or_else s d = (if truthy_str s then the s else d)"

definition describe_schedule ::
  "date_fields \<Rightarrow> schedule_like option \<Rightarrow> string option \<Rightarrow> describe_strings \<Rightarrow> string" where
  "describe_schedule date schedule fallbackDisplay strings =
     (case schedule of
        None \<Rightarrow> or_else fallbackDisplay (dsNone strings)
      | Some sch \<Rightarrow>
          (if slKind sch = Some ''interval'' \<and> slMinutes sch \<noteq> None then
             describe_interval (the (slMinutes sch)) strings
           else if slKind sch = Some ''once'' \<and> truthy_str (slRunAt sch) then
             replace_first (dsOnceAt strings) ''{time}''
               (format_iso_local date (the (slRunAt sch)) False)
           else
             (let last_attempt =
                    (if truthy_str fallbackDisplay then
                       or_else (describe_cron_expression (the fallbackDisplay) strings)
                         (the fallbackDisplay)
                     else or_else (slDisplay sch) (or_else (slExpr sch) (dsNone strings)))
              in if slKind sch = Some ''cron'' \<and> truthy_str (slExpr sch)
                 then or_else (describe_cron_expression (the (slExpr sch)) strings) last_attempt
                 else last_attempt)))"

text \<open>English ordinals of an integer.\<close>

definition english_ordinal :: "int \<Rightarrow> string" where
  "english_ordinal d =
     (if d < 1 then show_int d
      else (let lastTwo = d mod 100
            in if lastTwo \<ge> 11 \<and> lastTwo \<le> 13 then show_int d @ ''th''
               else if d mod 10 = 1 then show_int d @ ''st''
               else if d mod 10 = 2 then show_int d @ ''nd''
               else if d mod 10 = 3 then show_int d @ ''rd''
               else show_int d @ ''th''))"

section \<open>The builder's handlers\<close>

text \<open>One event per input of the component; numeric inputs pass through \<open>parseInt\<close>.\<close>

datatype builder_event =
    SetMode schedule_mode
  | SetIntervalValue string
  | SetIntervalUnit interval_unit
  | SetTimeOfDay string
  | ToggleWeekday nat
  | SetDayOfMonth string
  | SetOnceAt string
  | SetCustom string

definition toggle_weekday :: "nat \<Rightarrow> nat list \<Rightarrow> nat list" where
  "toggle_weekday day wds =
     (if day \<in> set wds then filter (\<lambda>d. d \<noteq> day) wds else wds @ [day])"

fun builder_step :: "schedule_state \<Rightarrow> builder_event \<Rightarrow> schedule_state" where
  "builder_step st (SetMode m) = st\<lparr>schedMode := m\<rparr>"
| "builder_step st (SetIntervalValue v) =
     st\<lparr>intervalValue := num_of_int
       (case parse_int v of Some n \<Rightarrow> if n > 0 then n else 1 | None \<Rightarrow> 1)\<rparr>"
| "builder_step st (SetIntervalUnit u) = st\<lparr>intervalUnit := u\<rparr>"
| "builder_step st (SetTimeOfDay t) = st\<lparr>timeOfDay := t\<rparr>"
| "builder_step st (ToggleWeekday day) = st\<lparr>weekdays := toggle_weekday day (weekdays st)\<rparr>"
| "builder_step st (SetDayOfMonth v) =
     st\<lparr>dayOfMonth := num_of_int
       (case parse_int v of Some n \<Rightarrow> if n \<ge> 1 \<and> n \<le> 31 then n else 1 | None \<Rightarrow> 1)\<rparr>"
| "builder_step st (SetOnceAt v) = st\<lparr>onceAt := v\<rparr>"
| "builder_step st (SetCustom v) = st\<lparr>customExpr := v\<rparr>"

text \<open>The component renders one button per entry of \<open>WEEKDAY_INDEXES\<close>, so only those days
  are toggled.\<close>

fun builder_enabled :: "schedule_state \<Rightarrow> builder_event \<Rightarrow> bool" where
  "builder_enabled st (ToggleWeekday day) = (day \<in> set WEEKDAY_INDEXES)"
| "builder_enabled st _ = True"

definition wf_schedule :: "schedule_state \<Rightarrow> bool" where
  "wf_schedule st \<longleftrightarrow>
     (\<exists>n \<ge> 1. intervalValue st = num_of_int n)
   \<and> (\<exists>n \<ge> 1. n \<le> 31 \<and> dayOfMonth st = num_of_int n)
   \<and> distinct (weekdays st) \<and> set (weekdays st) \<subseteq> {..6}"

section \<open>Lemmas\<close>

subsection \<open>Times of day\<close>

lemma parse_time_of_day_bounds:
  "parse_time_of_day v = Some (h, m) \<Longrightarrow> h \<le> 23 \<and> m \<le> 59"
  by (auto simp: parse_time_of_day_def Let_def split: if_splits list.splits)

lemma digit_not_colon: "is_digit c \<Longrightarrow> c \<noteq> CHR '':''"
  by (auto simp: is_digit_def code_def)

lemma pad2_shape:
  "n < 100 \<Longrightarrow> \<exists>a b. pad2 n = [a, b] \<and> is_digit a \<and> is_digit b \<and> parse_digits [a, b] = n"
  by (cases "n < 10")
    (auto simp: pad2_def length_show_nat_1 length_show_nat_2 parse_digits_def digit_val_def
      is_digit_def code_def [of "CHR ''0''"])

lemma parse_time_pad2:
  assumes "h \<le> 23" and "m \<le> 59"
  shows "parse_time_of_day (pad2 h @ CHR '':'' # pad2 m) = Some (h, m)"
proof -
  obtain a b where h: "pad2 h = [a, b]" "is_digit a" "is_digit b" "parse_digits [a, b] = h"
    using pad2_shape [of h] assms by auto
  obtain c d where m: "pad2 m = [c, d]" "is_digit c" "is_digit d" "parse_digits [c, d] = m"
    using pad2_shape [of m] assms by auto
  show ?thesis
    using h m assms by (auto simp: parse_time_of_day_def dest: digit_not_colon)
qed

subsection \<open>Recognising the shapes\<close>

lemma matches_template_chars:
  "matches_template t s \<Longrightarrow> c \<in> set s \<Longrightarrow> is_digit c \<or> c \<in> set t"
  by (induction t s rule: matches_template.induct) (auto split: if_splits)

lemma matches_template_length: "matches_template t s \<Longrightarrow> length s = length t"
  by (induction t s rule: matches_template.induct) auto

lemma is_iso_no_space: "is_iso_local s \<Longrightarrow> CHR '' '' \<notin> set s"
  by (auto simp: is_iso_local_def is_digit_def code_def dest!: matches_template_chars)

lemma match_interval_head:
  assumes "s \<noteq> []" and "is_digit (hd s)"
  shows "match_interval s = None"
proof -
  obtain c cs where s: "s = c # cs" using assms by (cases s) auto
  have "lower_char c \<noteq> CHR ''e''"
  proof
    assume "lower_char c = CHR ''e''"
    then have "code (lower_char c) = 101" by (simp add: code_def)
    with assms s show False by (auto simp: code_lower_char is_digit_def is_upper_letter_def split: if_splits)
  qed
  then show ?thesis by (simp add: match_interval_def s lower_def Let_def)
qed

lemma split_on_digits: "all_digits s \<Longrightarrow> split_on (CHR '','') s = [s]"
  by (rule split_on_free) (auto simp: all_digits_def list_all_iff is_digit_def code_def)

lemma all_digits_not_star: "all_digits s \<Longrightarrow> s \<noteq> ''*''"
  by (auto simp: all_digits_def is_digit_def code_def)

lemma is_literal_digits: "all_digits s \<Longrightarrow> is_literal_or_list s"
  by (simp add: is_literal_or_list_def split_on_digits)

lemma is_literal_star: "is_literal_or_list ''*''"
  by (simp add: is_literal_or_list_def)

lemma is_word_star: "is_word ''*''"
  by (simp add: is_word_def is_ws_def code_def)

subsection \<open>What a five-field expression parses to\<close>

definition cron_line :: "nat \<Rightarrow> nat \<Rightarrow> string \<Rightarrow> string \<Rightarrow> string" where
  "cron_line m h d w = show_nat m @ '' '' @ show_nat h @ '' '' @ d @ '' * '' @ w"

lemma cron_line_join: "cron_line m h d w = join '' '' [show_nat m, show_nat h, d, ''*'', w]"
  by (simp add: cron_line_def)

lemma cron_line_words:
  assumes "is_word d" and "is_word w"
  shows "trimmed (cron_line m h d w)"
    and "split_ws (trim (cron_line m h d w)) = [show_nat m, show_nat h, d, ''*'', w]"
proof -
  have ws: "\<And>v. v \<in> set [show_nat m, show_nat h, d, ''*'', w] \<Longrightarrow> is_word v"
    using assms is_word_star by auto
  show t: "trimmed (cron_line m h d w)"
    unfolding cron_line_join using ws by (intro trimmed_join) auto
  show "split_ws (trim (cron_line m h d w)) = [show_nat m, show_nat h, d, ''*'', w]"
    unfolding trim_trimmed [OF t] unfolding cron_line_join using ws by (intro split_ws_join) auto
qed

lemma parse_cron_line:
  assumes "is_word d" and "is_word w" and "is_literal_or_list d" and "is_literal_or_list w"
    and "h \<le> 23" and "m \<le> 59"
  shows "parse_simple_cron_expression (cron_line m h d w) =
    (let time = pad2 h @ '':'' @ pad2 m
     in if d = ''*'' \<and> w = ''*'' then Some (CronDaily time)
        else if d = ''*'' then
          (case collect_weekdays [] (map parse_digits (split_on (CHR '','') w)) of
             None \<Rightarrow> None | Some wds \<Rightarrow> if wds = [] then None else Some (CronWeekly time wds))
        else if w = ''*'' then
          (if \<not> all_digits d then None
           else if parse_digits d < 1 \<or> parse_digits d > 31 then None
           else Some (CronMonthly time (parse_digits d)))
        else None)"
  unfolding parse_simple_cron_expression_def cron_line_words(2) [OF assms(1,2)] list.case
  using assms(3-6)
  by (simp add: is_literal_digits all_digits_not_star split_on_digits Let_def)

lemma parse_schedule_cron_line:
  assumes "is_word d" and "is_word w"
  shows "parse_schedule_string (cron_line m h d w) =
    (case parse_simple_cron_expression (cron_line m h d w) of
       Some (CronDaily time) \<Rightarrow> DEFAULT_SCHEDULE_STATE\<lparr>schedMode := MDaily, timeOfDay := time\<rparr>
     | Some (CronWeekly time wds) \<Rightarrow>
         DEFAULT_SCHEDULE_STATE\<lparr>schedMode := MWeekly, timeOfDay := time, weekdays := wds\<rparr>
     | Some (CronMonthly time day) \<Rightarrow>
         DEFAULT_SCHEDULE_STATE\<lparr>schedMode := MMonthly, timeOfDay := time,
           dayOfMonth := num_of_int (int day)\<rparr>
     | None \<Rightarrow> DEFAULT_SCHEDULE_STATE\<lparr>schedMode := MCustom, customExpr := cron_line m h d w\<rparr>)"
proof -
  have t: "trim (cron_line m h d w) = cron_line m h d w"
    by (rule trim_trimmed) (rule cron_line_words(1) [OF assms])
  have ne: "cron_line m h d w \<noteq> []" by (simp add: cron_line_def)
  have "CHR '' '' \<in> set (cron_line m h d w)" by (simp add: cron_line_def)
  then have i: "\<not> is_iso_local (cron_line m h d w)" using is_iso_no_space by blast
  have "hd (cron_line m h d w) = hd (show_nat m)" by (simp add: cron_line_def)
  then have "is_digit (hd (cron_line m h d w))"
    by (metis hd_in_set show_nat_digits show_nat_not_Nil)
  then have mi: "match_interval (cron_line m h d w) = None" using ne by (rule match_interval_head [rotated])
  show ?thesis
    by (simp only: parse_schedule_string_def t Let_def ne i mi if_False option.case)
qed

subsection \<open>Weekday lists\<close>

lemma collect_weekdays_wf:
  "collect_weekdays acc ds = Some r \<Longrightarrow> distinct acc \<Longrightarrow> set acc \<subseteq> {..6}
     \<Longrightarrow> distinct r \<and> set r \<subseteq> {..6} \<and> set acc \<subseteq> set r"
proof (induction acc ds rule: collect_weekdays.induct)
  case (2 acc day ds)
  then show ?case by (fastforce simp: Let_def split: if_splits)
qed simp

lemma collect_weekdays_distinct:
  "distinct (acc @ ds) \<Longrightarrow> set ds \<subseteq> {..6} \<Longrightarrow> collect_weekdays acc ds = Some (acc @ ds)"
  by (induction acc ds rule: collect_weekdays.induct) (auto simp: Let_def)

definition weekday_field :: "nat list \<Rightarrow> string" where
  "weekday_field wds = (if wds = [] then ''*'' else join '','' (map show_nat (sort wds)))"

lemma comma_not_in_show_nat: "CHR '','' \<notin> set (show_nat n)"
  by (auto dest!: show_nat_digits simp: is_digit_def code_def)

lemma split_weekday_field: "wds \<noteq> [] \<Longrightarrow> split_on (CHR '','') (weekday_field wds) = map show_nat (sort wds)"
  using comma_not_in_show_nat by (auto simp: weekday_field_def intro!: split_on_join)

lemma weekday_field_facts:
  "is_word (weekday_field wds)" "is_literal_or_list (weekday_field wds)"
  "weekday_field wds = ''*'' \<longleftrightarrow> wds = []"
proof -
  show lit: "is_literal_or_list (weekday_field wds)"
    by (cases "wds = []")
      (simp_all add: is_literal_or_list_def split_weekday_field list_all_iff, simp add: weekday_field_def)
  show iff: "weekday_field wds = ''*'' \<longleftrightarrow> wds = []"
  proof
    assume star: "weekday_field wds = ''*''"
    show "wds = []"
    proof (rule ccontr)
      assume "wds \<noteq> []"
      then have "map show_nat (sort wds) = [''*'']"
        using split_weekday_field [of wds] star by simp
      then obtain a where "show_nat a = ''*''" by (cases "sort wds") auto
      with all_digits_not_star [OF all_digits_show_nat [of a]] show False by simp
    qed
  qed (simp add: weekday_field_def)
  show "is_word (weekday_field wds)"
  proof (cases "wds = []")
    case False
    then have "join '','' (map show_nat (sort wds)) \<noteq> []"
      by (intro join_not_Nil) (auto simp: hd_map)
    moreover have "\<forall>c \<in> set (join '','' (map show_nat (sort wds))). \<not> is_ws c"
      using set_join [of "'',''" "map show_nat (sort wds)"]
      by (auto dest!: show_nat_no_ws subsetD) (simp add: is_ws_def code_def)
    ultimately show ?thesis using False by (simp add: weekday_field_def is_word_def)
  qed (simp add: weekday_field_def is_word_star)
qed

subsection \<open>Reading back what was built\<close>

lemma trimmed_interval: "trimmed (''every '' @ show_nat n @ unit_suffix u)"
  by (rule trimmedI) (cases u; simp add: is_ws_def code_def)+

lemma match_interval_built:
  "match_interval (''every '' @ show_nat n @ unit_suffix u) = Some (show_nat n, hd (unit_suffix u))"
proof -
  obtain c where c: "unit_suffix u = [c]" "\<not> is_digit c" "\<not> is_ws c" "lower_char c = c" "c \<in> set ''mhd''"
    by (cases u) (simp_all add: is_digit_def is_ws_def lower_char_def is_upper_letter_def code_def)
  have dg: "\<forall>d \<in> set (show_nat n). is_digit d" by (simp add: show_nat_digits)
  have "dropWhile is_ws ('' '' @ show_nat n @ [c]) = show_nat n @ [c]"
    by (cases "show_nat n") (use show_nat_no_ws [of _ n] in \<open>auto simp: is_ws_def code_def\<close>)
  with c dg show ?thesis
    by (simp add: match_interval_def takeWhile_hit dropWhile_hit lower_def lower_char_def
        is_upper_letter_def code_def is_ws_def)
qed

lemma parse_schedule_interval:
  assumes "trimmed s" "s \<noteq> []" "\<not> is_iso_local s" "match_interval s = Some (ds, c)"
  shows "parse_schedule_string s = DEFAULT_SCHEDULE_STATE\<lparr>schedMode := MInterval,
     intervalValue := num_of_int (if parse_digits ds > 0 then int (parse_digits ds) else 1),
     intervalUnit := (if lower_char c = CHR ''d'' then Days
                      else if lower_char c = CHR ''h'' then Hours else Minutes)\<rparr>"
  using assms by (simp add: parse_schedule_string_def trim_trimmed Let_def)

lemma parse_interval_built:
  assumes "n \<ge> 1"
  shows "parse_schedule_string (''every '' @ show_nat n @ unit_suffix u) =
    DEFAULT_SCHEDULE_STATE\<lparr>schedMode := MInterval, intervalValue := num_of_int (int n),
      intervalUnit := u\<rparr>"
proof -
  have "\<not> is_iso_local (''every '' @ show_nat n @ unit_suffix u)"
    using is_iso_no_space by fastforce
  from parse_schedule_interval [OF trimmed_interval _ this match_interval_built] assms
  show ?thesis by (cases u) (simp_all add: lower_char_def is_upper_letter_def code_def)
qed

lemma matches_template_append:
  "matches_template t s \<Longrightarrow> matches_template t' s' \<Longrightarrow> matches_template (t @ t') (s @ s')"
  by (induction t s rule: matches_template.induct) auto

lemma parse_once_built:
  assumes "matches_template ''9999-99-99T99:99'' v"
  shows "parse_schedule_string (v @ '':00'') = DEFAULT_SCHEDULE_STATE\<lparr>schedMode := MOnce, onceAt := v\<rparr>"
proof -
  have len: "length v = 16" using matches_template_length [OF assms] by simp
  have dg: "is_digit (hd v)" using assms by (cases v) auto
  have t: "trim (v @ '':00'') = v @ '':00''"
    using len dg by (intro trim_trimmed trimmedI) (auto simp: is_digit_not_ws hd_append is_ws_def [of "CHR ''0''"] code_def)
  have "matches_template (''9999-99-99T99:99'' @ '':99'') (v @ '':00'')"
    by (rule matches_template_append [OF assms]) (simp add: is_digit_def code_def)
  then have "is_iso_local (v @ '':00'')" by (simp add: is_iso_local_def)
  with len show ?thesis
    unfolding parse_schedule_string_def t by simp
qed

text \<open>The two states mean the same schedule: the fields their common mode uses agree, and a
  weekly schedule with no day is a daily one.\<close>

definition same_schedule :: "schedule_state \<Rightarrow> schedule_state \<Rightarrow> bool" where
  "same_schedule st st' \<longleftrightarrow>
     (case schedMode st of
        MInterval \<Rightarrow> schedMode st' = MInterval \<and> intervalValue st' = intervalValue st
          \<and> intervalUnit st' = intervalUnit st
      | MDaily \<Rightarrow> schedMode st' = MDaily
          \<and> parse_time_of_day (timeOfDay st') = parse_time_of_day (timeOfDay st)
      | MWeekly \<Rightarrow> parse_time_of_day (timeOfDay st') = parse_time_of_day (timeOfDay st)
          \<and> (if weekdays st = [] then schedMode st' = MDaily
             else schedMode st' = MWeekly \<and> weekdays st' = sort (weekdays st))
      | MMonthly \<Rightarrow> schedMode st' = MMonthly \<and> dayOfMonth st' = dayOfMonth st
          \<and> parse_time_of_day (timeOfDay st') = parse_time_of_day (timeOfDay st)
      | MOnce \<Rightarrow> schedMode st' = MOnce \<and> onceAt st' = trim (onceAt st)
      | MCustom \<Rightarrow> True)"

lemma weekly_parse:
  assumes wds: "distinct wds" "set wds \<subseteq> {..6}" and "h \<le> 23" "m \<le> 59"
  shows "parse_simple_cron_expression (cron_line m h ''*'' (weekday_field wds)) =
    Some (if wds = [] then CronDaily (pad2 h @ '':'' @ pad2 m)
          else CronWeekly (pad2 h @ '':'' @ pad2 m) (sort wds))"
  using assms
  by (simp add: parse_cron_line weekday_field_facts is_word_star is_literal_star Let_def
      split_weekday_field collect_weekdays_distinct comp_def)

lemma monthly_parse:
  assumes "1 \<le> d" "d \<le> 31" and "h \<le> 23" "m \<le> 59"
  shows "parse_simple_cron_expression (cron_line m h (show_nat d) ''*'') =
    Some (CronMonthly (pad2 h @ '':'' @ pad2 m) d)"
  using assms
  by (simp add: parse_cron_line is_word_star is_literal_star is_literal_digits Let_def
      all_digits_not_star)

lemma build_daily: "parse_time_of_day (timeOfDay st) = Some (h, m) \<Longrightarrow> schedMode st = MDaily \<Longrightarrow>
  build_schedule_string st = cron_line m h ''*'' (weekday_field [])"
  by (simp add: build_schedule_string_def cron_line_def weekday_field_def)

lemma build_weekly: "parse_time_of_day (timeOfDay st) = Some (h, m) \<Longrightarrow> schedMode st = MWeekly \<Longrightarrow>
  build_schedule_string st = cron_line m h ''*'' (weekday_field (weekdays st))"
  by (simp add: build_schedule_string_def cron_line_def weekday_field_def Let_def)

lemma build_monthly: "parse_time_of_day (timeOfDay st) = Some (h, m) \<Longrightarrow> schedMode st = MMonthly \<Longrightarrow>
  dayOfMonth st = num_of_int n \<Longrightarrow> 1 \<le> n \<Longrightarrow> n \<le> 31 \<Longrightarrow>
  build_schedule_string st = cron_line m h (show_nat (nat n)) ''*''"
  by (simp add: build_schedule_string_def cron_line_def Let_def show_int_def)

subsection \<open>Bounds of what is parsed\<close>

text \<open>The time is two digits, a colon and two digits that name a minute of the day; the weekdays
  are distinct days 0 to 6 and there is one at least; the day of the month is 1 to 31.\<close>

definition valid_clock :: "string \<Rightarrow> bool" where
  "valid_clock t \<longleftrightarrow> length t = 5 \<and> parse_time_of_day t \<noteq> None"

fun valid_simple_cron :: "simple_cron \<Rightarrow> bool" where
  "valid_simple_cron (CronDaily t) = valid_clock t"
| "valid_simple_cron (CronWeekly t wds) =
     (valid_clock t \<and> wds \<noteq> [] \<and> distinct wds \<and> list_all (\<lambda>d. d \<le> 6) wds)"
| "valid_simple_cron (CronMonthly t d) = (valid_clock t \<and> 1 \<le> d \<and> d \<le> 31)"

lemma valid_clock_pad2: "h \<le> 23 \<Longrightarrow> m \<le> 59 \<Longrightarrow> valid_clock (pad2 h @ CHR '':'' # pad2 m)"
  using pad2_shape [of h] pad2_shape [of m] by (auto simp: valid_clock_def parse_time_pad2)

lemma collect_weekdays_valid:
  "collect_weekdays [] ds = Some r \<Longrightarrow> distinct r \<and> list_all (\<lambda>d. d \<le> 6) r"
  using collect_weekdays_wf [of "[]" ds r] by (auto simp: list_all_iff)

lemma length_1_hd: "length xs = Suc 0 \<Longrightarrow> xs = [hd xs]"
  by (cases xs) auto

lemma parse_simple_cron_valid:
  assumes "parse_simple_cron_expression e = Some r"
  shows "valid_simple_cron r"
  using assms
  by (auto simp: parse_simple_cron_expression_def Let_def not_less valid_clock_pad2
      dest!: collect_weekdays_valid split: list.splits if_splits option.splits)

lemma default_wf: "wf_schedule DEFAULT_SCHEDULE_STATE"
  by (auto simp: wf_schedule_def DEFAULT_SCHEDULE_STATE_def intro: exI [of _ 30] exI [of _ 1])

lemma wf_schedule_upds:
  "wf_schedule st \<Longrightarrow> wf_schedule (st\<lparr>schedMode := m\<rparr>)"
  "wf_schedule st \<Longrightarrow> wf_schedule (st\<lparr>timeOfDay := t\<rparr>)"
  "wf_schedule st \<Longrightarrow> wf_schedule (st\<lparr>onceAt := t\<rparr>)"
  "wf_schedule st \<Longrightarrow> wf_schedule (st\<lparr>customExpr := t\<rparr>)"
  "wf_schedule st \<Longrightarrow> wf_schedule (st\<lparr>intervalUnit := u\<rparr>)"
  "wf_schedule st \<Longrightarrow> n \<ge> 1 \<Longrightarrow> wf_schedule (st\<lparr>intervalValue := num_of_int n\<rparr>)"
  "wf_schedule st \<Longrightarrow> d \<ge> 1 \<Longrightarrow> d \<le> 31 \<Longrightarrow> wf_schedule (st\<lparr>dayOfMonth := num_of_int d\<rparr>)"
  "wf_schedule st \<Longrightarrow> distinct wds \<Longrightarrow> list_all (\<lambda>d. d \<le> 6) wds \<Longrightarrow> wf_schedule (st\<lparr>weekdays := wds\<rparr>)"
  by (auto simp: wf_schedule_def list_all_iff)

lemma parse_schedule_wf: "wf_schedule (parse_schedule_string s)"
  unfolding parse_schedule_string_def Let_def
  by (auto simp: default_wf intro!: wf_schedule_upds
      dest!: parse_simple_cron_valid split: option.splits simple_cron.splits)

lemma builder_step_wf: "wf_schedule st \<Longrightarrow> builder_enabled st e \<Longrightarrow> wf_schedule (builder_step st e)"
proof (induction st e rule: builder_step.induct)
  case (5 st day)
  then have "distinct (toggle_weekday day (weekdays st))"
    and "list_all (\<lambda>d. d \<le> 6) (toggle_weekday day (weekdays st))"
    by (auto simp: toggle_weekday_def wf_schedule_def list_all_iff WEEKDAY_INDEXES_def)
  with 5 show ?case by (simp add: wf_schedule_upds)
qed (auto intro!: wf_schedule_upds split: option.splits)

text \<open>The builder is a machine whose runs start from any stored schedule.\<close>

interpretation schedule_builder: machine "parse_schedule_string s" builder_step builder_enabled wf_schedule
  for s
  by unfold_locales (auto intro: parse_schedule_wf builder_step_wf)

text \<open>The recurring schedule a structured state stands for.\<close>

definition cron_of_state :: "schedule_state \<Rightarrow> simple_cron option" where
  "cron_of_state st =
     (case parse_time_of_day (timeOfDay st) of
        None \<Rightarrow> None
      | Some (h, m) \<Rightarrow>
          (let time = pad2 h @ '':'' @ pad2 m
           in Some (if schedMode st = MMonthly then CronMonthly time (nat (int_of_num (dayOfMonth st)))
                    else if schedMode st = MDaily \<or> weekdays st = [] then CronDaily time
                    else CronWeekly time (sort (weekdays st)))))"

lemma parse_built:
  assumes wf: "wf_schedule st" and mode: "schedMode st \<in> {MDaily, MWeekly, MMonthly}"
    and ne: "build_schedule_string st \<noteq> []"
  shows "parse_simple_cron_expression (build_schedule_string st) = cron_of_state st
    \<and> cron_of_state st \<noteq> None"
proof -
  from mode ne obtain h m where hm: "parse_time_of_day (timeOfDay st) = Some (h, m)"
    by (auto simp: build_schedule_string_def split: option.splits)
  note bd = parse_time_of_day_bounds [OF hm]
  from wf obtain n where n: "1 \<le> n" "n \<le> 31" "dayOfMonth st = num_of_int n"
    and wds: "distinct (weekdays st)" "set (weekdays st) \<subseteq> {..6}"
    by (auto simp: wf_schedule_def)
  from mode consider "schedMode st = MDaily" | "schedMode st = MWeekly" | "schedMode st = MMonthly"
    by auto
  then show ?thesis
    by cases (use n wds bd in \<open>simp_all add: cron_of_state_def hm build_daily [OF hm] build_weekly [OF hm]
        build_monthly [OF hm _ n(3,1,2)] weekly_parse monthly_parse nat_le_iff\<close>)
qed

text \<open>One lemma per mode: the string reads back as the same schedule and is built again.\<close>

definition reads_back :: "schedule_state \<Rightarrow> bool" where
  "reads_back st \<longleftrightarrow> same_schedule st (parse_schedule_string (build_schedule_string st))
     \<and> build_schedule_string (parse_schedule_string (build_schedule_string st)) = build_schedule_string st"

lemma reads_back_interval:
  assumes wf: "wf_schedule st" and mode: "schedMode st = MInterval"
    and ne: "build_schedule_string st \<noteq> []"
  shows "reads_back st"
proof -
  from wf obtain n where n: "n \<ge> 1" "intervalValue st = num_of_int n"
    by (auto simp: wf_schedule_def)
  then have b: "build_schedule_string st = ''every '' @ show_nat (nat n) @ unit_suffix (intervalUnit st)"
    using mode by (simp add: build_schedule_string_def show_int_def)
  show ?thesis
    unfolding reads_back_def b using n mode
    by (subst (1 2) parse_interval_built) (auto simp: same_schedule_def build_schedule_string_def show_int_def)
qed

lemma reads_back_once:
  assumes wf: "wf_schedule st" and mode: "schedMode st = MOnce"
    and once: "matches_template ''9999-99-99T99:99'' (trim (onceAt st))"
    and ne: "build_schedule_string st \<noteq> []"
  shows "reads_back st"
proof -
  let ?v = "trim (onceAt st)"
  have v: "length ?v = 16" "?v \<noteq> []" using matches_template_length [OF once] by auto
  then have b: "build_schedule_string st = ?v @ '':00''"
    using mode by (simp add: build_schedule_string_def)
  show ?thesis
    unfolding reads_back_def b parse_once_built [OF once]
    using mode v by (simp add: same_schedule_def build_schedule_string_def)
qed

lemma reads_back_daily:
  assumes wf: "wf_schedule st" and mode: "schedMode st = MDaily"
    and ne: "build_schedule_string st \<noteq> []"
  shows "reads_back st"
proof -
  from mode obtain h m where hm: "parse_time_of_day (timeOfDay st) = Some (h, m)"
    using ne by (auto simp: build_schedule_string_def split: option.splits)
  note b = build_daily [OF hm mode] and bd = parse_time_of_day_bounds [OF hm]
  show ?thesis
    unfolding reads_back_def b using mode hm bd
    by (simp add: parse_schedule_cron_line is_word_star weekday_field_facts weekly_parse
        same_schedule_def parse_time_pad2 build_daily)
qed

lemma reads_back_weekly:
  assumes wf: "wf_schedule st" and mode: "schedMode st = MWeekly"
    and ne: "build_schedule_string st \<noteq> []"
  shows "reads_back st"
proof -
  from mode obtain h m where hm: "parse_time_of_day (timeOfDay st) = Some (h, m)"
    using ne by (auto simp: build_schedule_string_def split: option.splits)
  note b = build_weekly [OF hm mode] and bd = parse_time_of_day_bounds [OF hm]
  have wds: "distinct (weekdays st)" "set (weekdays st) \<subseteq> {..6}" using wf by (auto simp: wf_schedule_def)
  show ?thesis
    unfolding reads_back_def b using mode hm bd wds
    by (simp add: parse_schedule_cron_line is_word_star weekday_field_facts weekly_parse
        same_schedule_def parse_time_pad2 build_daily build_weekly)
      (simp add: weekday_field_def sorted_sort_id)
qed

lemma reads_back_monthly:
  assumes wf: "wf_schedule st" and mode: "schedMode st = MMonthly"
    and ne: "build_schedule_string st \<noteq> []"
  shows "reads_back st"
proof -
  from mode obtain h m where hm: "parse_time_of_day (timeOfDay st) = Some (h, m)"
    using ne by (auto simp: build_schedule_string_def split: option.splits)
  from wf obtain n where n: "1 \<le> n" "n \<le> 31" "dayOfMonth st = num_of_int n"
    by (auto simp: wf_schedule_def)
  note b = build_monthly [OF hm mode n(3) n(1,2)] and bd = parse_time_of_day_bounds [OF hm]
  show ?thesis
    unfolding reads_back_def b using mode hm bd n
    by (simp add: parse_schedule_cron_line is_word_star monthly_parse
        same_schedule_def parse_time_pad2 build_monthly [where n = n] nat_le_iff)
qed

lemma reads_back_structured:
  assumes wf: "wf_schedule st"
    and mode: "schedMode st \<noteq> MCustom"
    and once: "schedMode st = MOnce \<Longrightarrow> matches_template ''9999-99-99T99:99'' (trim (onceAt st))"
    and ne: "build_schedule_string st \<noteq> []"
  shows "reads_back st"
  by (cases "schedMode st") (use mode reads_back_interval [OF wf _ ne] reads_back_once [OF wf _ once ne]
      reads_back_daily [OF wf _ ne] reads_back_weekly [OF wf _ ne] reads_back_monthly [OF wf _ ne] in blast)+

section \<open>Properties\<close>

text \<open>Claim C1. Reading back a string the builder made recovers the schedule: for every
  well-formed state in a structured mode, \<open>parseScheduleString(buildScheduleString(st))\<close>
  is in the same mode with the same interval, time, weekdays (sorted), day of the month or
  timestamp, and building it again gives the same string. So opening a saved job in the editor
  and saving it unchanged sends the schedule it had.\<close>

theorem schedule_roundtrip:
  assumes wf: "wf_schedule st"
    and mode: "schedMode st \<noteq> MCustom"
    and once: "schedMode st = MOnce \<Longrightarrow> matches_template ''9999-99-99T99:99'' (trim (onceAt st))"
    and ne: "build_schedule_string st \<noteq> []"
  shows "same_schedule st (parse_schedule_string (build_schedule_string st))
    \<and> build_schedule_string (parse_schedule_string (build_schedule_string st))
        = build_schedule_string st"
using reads_back_structured [OF assms] by (simp add: reads_back_def)

text \<open>The round trip at work: a weekly schedule on Friday, Monday and Wednesday.\<close>

definition sample_weekly :: schedule_state where
  "sample_weekly = DEFAULT_SCHEDULE_STATE
     \<lparr>schedMode := MWeekly, timeOfDay := ''14:30'', weekdays := [5, 1, 3]\<rparr>"

lemma sample_weekly_facts:
  "wf_schedule sample_weekly" "schedMode sample_weekly = MWeekly"
  "build_schedule_string sample_weekly = ''30 14 * * 1,3,5''"
proof -
  show "wf_schedule sample_weekly"
    unfolding sample_weekly_def by (intro wf_schedule_upds default_wf) auto
  show "schedMode sample_weekly = MWeekly" by (simp add: sample_weekly_def)
  show "build_schedule_string sample_weekly = ''30 14 * * 1,3,5''" by code_simp
qed

theorem schedule_roundtrip_witness:
  "same_schedule sample_weekly (parse_schedule_string ''30 14 * * 1,3,5'')
   \<and> build_schedule_string (parse_schedule_string ''30 14 * * 1,3,5'') = ''30 14 * * 1,3,5''"
  using schedule_roundtrip [of sample_weekly] by (simp add: sample_weekly_facts)

text \<open>The editor never leaves the range of the schedule grammar: from any stored
  string (even a malformed one) and after any sequence of edits the component offers, the interval
  is at least one, the day of the month is 1 to 31 and the weekdays are distinct days 0 to 6.\<close>

theorem builder_runs_wf:
  assumes "legal_run builder_enabled builder_step (parse_schedule_string s) es"
  shows "wf_schedule (foldl builder_step (parse_schedule_string s) es)"
  using assms by (rule schedule_builder.run_inv)

theorem builder_runs_wf_witness:
  "wf_schedule (foldl builder_step (parse_schedule_string ''0 9 * * 9'')
     [SetMode MWeekly, ToggleWeekday 6, ToggleWeekday 1, SetIntervalValue ''-4'', SetDayOfMonth ''99''])"
  by (rule builder_runs_wf) (simp add: WEEKDAY_INDEXES_def)

text \<open>Whatever expression \<open>parseSimpleCronExpression\<close> accepts, what it returns is in
  range: a five-character time of a real minute of the day, at least one weekday, all distinct and
  between 0 and 6 (7 read as Sunday), a day of the month between 1 and 31.\<close>

theorem simple_cron_bounds:
  "case parse_simple_cron_expression e of None \<Rightarrow> True | Some r \<Rightarrow> valid_simple_cron r"
  by (auto dest: parse_simple_cron_valid split: option.split)

text \<open>Every recurring schedule the picker submits is shown in words: for a daily, weekly
  or monthly state whose string is not empty, \<open>describeSchedule\<close> of the stored cron job is the
  translated sentence for that time and those days (when the translation is not empty), whatever
  the fallback display is; it is never the raw expression.\<close>

theorem described_in_words:
  assumes wf: "wf_schedule st"
    and mode: "schedMode st \<in> {MDaily, MWeekly, MMonthly}"
    and ne: "build_schedule_string st \<noteq> []"
    and kind: "slKind sch = Some ''cron''" "slExpr sch = Some (build_schedule_string st)"
    and sentence: "describe_parsed strings (the (cron_of_state st)) \<noteq> []"
  shows "describe_schedule date (Some sch) fallback strings
    = describe_parsed strings (the (cron_of_state st))"
proof -
  from parse_built [OF wf mode ne] obtain c where
    "parse_simple_cron_expression (build_schedule_string st) = Some c" "cron_of_state st = Some c"
    by auto
  with kind ne sentence show ?thesis
    by (simp add: describe_schedule_def or_else_def describe_cron_expression_def Let_def)
qed

definition english_strings :: describe_strings where
  "english_strings = \<lparr>dsNone = ''-'', everyMinutes = ''Every {n} minutes'', everyHours = ''Every {n} hours'',
     everyDays = ''Every {n} days'', dailyAt = ''Daily at {time}'', weeklyAt = ''Weekly on {days} at {time}'',
     monthlyAt = ''Monthly on the {day} at {time}'', dsOnceAt = ''Once at {time}'',
     weekdaysShort = [''Sun'', ''Mon'', ''Tue'', ''Wed'', ''Thu'', ''Fri'', ''Sat''],
     ordinal = (\<lambda>n. english_ordinal (int n))\<rparr>"

theorem described_in_words_witness:
  "describe_schedule (\<lambda>_. None)
     (Some \<lparr>slKind = Some ''cron'', slExpr = Some ''30 14 * * 1,3,5'', slMinutes = None,
        slRunAt = None, slDisplay = None\<rparr>) (Some ''30 14 * * 1,3,5'') english_strings
   = ''Weekly on Mon, Wed, Fri at 14:30''"
proof -
  have c: "describe_parsed english_strings (the (cron_of_state sample_weekly))
      = ''Weekly on Mon, Wed, Fri at 14:30''"
    by code_simp
  show ?thesis
    by (subst described_in_words [of sample_weekly]) (simp_all add: sample_weekly_facts c)
qed

text \<open>Where the code falls short: a one-shot timestamp keeps only its minute when it is read
  back, so re-saving a job scheduled at 14:00:30 moves it to 14:00:00.\<close>

theorem once_seconds_lost:
  "build_schedule_string (parse_schedule_string ''2026-02-03T14:00:30'') = ''2026-02-03T14:00:00''"
  by code_simp

end
