(* ===== verification/CronForm.thy ===== *)
theory CronForm
  imports JsValue
begin

text \<open>
  The cron job editor's conversions, \<open>web/src/lib/cron-job.ts\<close>: a stored job (a JSON object
  with fields of unknown type) is turned into the form's state, and the form into the payload of a
  create or update call.
\<close>

section \<open>The form and the payload\<close>

record cron_form =
  formName :: string
  formPrompt :: string
  formSchedule :: string
  formDeliver :: string
  formSkills :: "string list"
  formProvider :: string
  formModel :: string
  formBaseUrl :: string
  formScript :: string
  formNoAgent :: bool
  formContextFrom :: string
  formToolsets :: "string list"
  formWorkdir :: string

record cron_payload =
  jobName :: string
  jobPrompt :: string
  jobSchedule :: string
  jobDeliver :: string
  jobSkills :: "string list"
  jobProvider :: "string option"
  jobModel :: "string option"
  jobBaseUrl :: "string option"
  jobScript :: "string option"
  jobNoAgent :: bool
  jobContextFrom :: "string list option"
  jobToolsets :: "string list option"
  jobWorkdir :: "string option"

definition nonempty :: "string list \<Rightarrow> string list" where
  "nonempty ws = filter (\<lambda>w. w \<noteq> []) ws"

text \<open>\<open>split(/[\n,]/)\<close>.\<close>

definition split_lines_commas :: "string \<Rightarrow> string list" where
  "split_lines_commas s = split_on (CHR '','') (map (\<lambda>c. if code c = 10 then CHR '','' else c) s)"

definition split_cron_list :: "js \<Rightarrow> string list" where
  "split_cron_list v =
     nonempty (map trim (case v of JArr vs \<Rightarrow> map js_string vs | JStr s \<Rightarrow> split_lines_commas s | _ \<Rightarrow> []))"

definition strip_slashes :: "string \<Rightarrow> string" where
  "strip_slashes s = rev (dropWhile (\<lambda>c. c = CHR ''/'') (rev s))"

definition optional_text :: "string \<Rightarrow> bool \<Rightarrow> string option" where
  "optional_text v strip =
     (let t = (if strip then strip_slashes (trim v) else trim v) in if t = [] then None else Some t)"

definition list_to_text :: "js \<Rightarrow> string" where
  "list_to_text v =
     (case v of JArr vs \<Rightarrow> join [CHR 0x0A] (split_cron_list v) | JStr s \<Rightarrow> s | _ \<Rightarrow> [])"

definition as_string :: "js \<Rightarrow> string" where
  "as_string v = (case v of JStr s \<Rightarrow> s | _ \<Rightarrow> [])"

definition or_else_text :: "string \<Rightarrow> string \<Rightarrow> string" where
  "or_else_text s t = (if s = [] then t else s)"

definition some_list :: "string list \<Rightarrow> string list option" where
  "some_list ws = (if ws = [] then None else Some ws)"

definition build_cron_job_payload :: "cron_form \<Rightarrow> cron_payload" where
  "build_cron_job_payload f =
     \<lparr>jobName = trim (formName f), jobPrompt = trim (formPrompt f), jobSchedule = trim (formSchedule f),
      jobDeliver = or_else_text (trim (formDeliver f)) ''local'', jobSkills = nonempty (formSkills f),
      jobProvider = optional_text (formProvider f) False, jobModel = optional_text (formModel f) False,
      jobBaseUrl = optional_text (formBaseUrl f) True, jobScript = optional_text (formScript f) False,
      jobNoAgent = formNoAgent f, jobContextFrom = some_list (split_cron_list (JStr (formContextFrom f))),
      jobToolsets = some_list (nonempty (formToolsets f)), jobWorkdir = optional_text (formWorkdir f) False\<rparr>"

text \<open>The skills of a job are an array of strings, or anything else, which counts as none.\<close>

definition job_skills :: "js \<Rightarrow> string list" where
  "job_skills v = (case v of JArr vs \<Rightarrow> nonempty (map as_string vs) | _ \<Rightarrow> [])"

text \<open>A payload can run if it has a prompt, a script or a skill.\<close>

definition cron_job_has_execution_content :: "cron_payload \<Rightarrow> bool" where
  "cron_job_has_execution_content p \<longleftrightarrow>
     trim (jobPrompt p) \<noteq> [] \<or> trim (case jobScript p of None \<Rightarrow> [] | Some t \<Rightarrow> t) \<noteq> [] \<or> nonempty (jobSkills p) \<noteq> []"

definition cron_job_form_from_job :: "js \<Rightarrow> cron_form" where
  "cron_job_form_from_job job =
     (let sched = js_get job ''schedule''
      in \<lparr>formName = as_string (js_get job ''name''), formPrompt = as_string (js_get job ''prompt''),
          formSchedule = or_else_text (as_string (js_get sched ''expr''))
            (or_else_text (as_string (js_get sched ''run_at'')) (as_string (js_get job ''schedule_display''))),
          formDeliver = or_else_text (as_string (js_get job ''deliver'')) ''local'',
          formSkills = job_skills (js_get job ''skills''),
          formProvider = as_string (js_get job ''provider''), formModel = as_string (js_get job ''model''),
          formBaseUrl = as_string (js_get job ''base_url''), formScript = as_string (js_get job ''script''),
          formNoAgent = truthy (js_get job ''no_agent''),
          formContextFrom = list_to_text (js_get job ''context_from''),
          formToolsets = split_cron_list (js_get job ''enabled_toolsets''),
          formWorkdir = as_string (js_get job ''workdir'')\<rparr>)"

section \<open>A job that holds what was sent\<close>

text \<open>The optional fields of a payload as JSON.\<close>

definition js_opt_str :: "string option \<Rightarrow> js" where
  "js_opt_str x = (case x of None \<Rightarrow> JNull | Some s \<Rightarrow> JStr s)"

definition js_opt_list :: "string list option \<Rightarrow> js" where
  "js_opt_list x = (case x of None \<Rightarrow> JNull | Some ws \<Rightarrow> JArr (map JStr ws))"

text \<open>The job the gateway shows for a payload is code of the gateway. What the editor relies on: every field reads
  back as it was sent, and one of the three texts the schedule is read from, the first that is not empty,
  is the schedule that was sent.\<close>

definition job_keeps :: "cron_payload \<Rightarrow> js \<Rightarrow> bool" where
  "job_keeps p job \<longleftrightarrow>
     js_get job ''name'' = JStr (jobName p) \<and> js_get job ''prompt'' = JStr (jobPrompt p)
     \<and> js_get job ''deliver'' = JStr (jobDeliver p) \<and> js_get job ''skills'' = JArr (map JStr (jobSkills p))
     \<and> js_get job ''provider'' = js_opt_str (jobProvider p) \<and> js_get job ''model'' = js_opt_str (jobModel p)
     \<and> js_get job ''base_url'' = js_opt_str (jobBaseUrl p) \<and> js_get job ''script'' = js_opt_str (jobScript p)
     \<and> js_get job ''no_agent'' = JBool (jobNoAgent p) \<and> js_get job ''context_from'' = js_opt_list (jobContextFrom p)
     \<and> js_get job ''enabled_toolsets'' = js_opt_list (jobToolsets p) \<and> js_get job ''workdir'' = js_opt_str (jobWorkdir p)
     \<and> or_else_text (as_string (js_get (js_get job ''schedule'') ''expr''))
         (or_else_text (as_string (js_get (js_get job ''schedule'') ''run_at''))
           (as_string (js_get job ''schedule_display''))) = jobSchedule p"

section \<open>Lemmas\<close>

lemma nonempty_idem [simp]: "nonempty (nonempty ws) = nonempty ws"
  by (simp add: nonempty_def)

lemma map_trim_nonempty: "(\<And>w. w \<in> set ws \<Longrightarrow> trimmed w \<and> w \<noteq> []) \<Longrightarrow> nonempty (map trim ws) = ws"
  by (induction ws) (auto simp: nonempty_def trim_trimmed)

lemma strip_slashes_idem [simp]: "strip_slashes (strip_slashes s) = strip_slashes s"
  by (simp add: strip_slashes_def dropWhile_idem)

lemma as_string_opt [simp]: "as_string (js_opt_str x) = (case x of None \<Rightarrow> [] | Some s \<Rightarrow> s)"
  by (cases x) (simp_all add: js_opt_str_def as_string_def)

lemma optional_text_again:
  "optional_text (case optional_text v False of None \<Rightarrow> [] | Some s \<Rightarrow> s) False = optional_text v False"
  by (simp add: optional_text_def Let_def)

lemma job_skills_again [simp]: "job_skills (JArr (map JStr ws)) = nonempty ws"
  by (simp add: job_skills_def as_string_def o_def)

text \<open>Items of a split list are trimmed, nonempty and free of the two separators.\<close>

definition list_item :: "string \<Rightarrow> bool" where
  "list_item w \<longleftrightarrow> w \<noteq> [] \<and> trimmed w \<and> CHR '','' \<notin> set w \<and> (\<forall>c \<in> set w. code c \<noteq> 10)"

lemma set_trim: "set (trim s) \<subseteq> set s"
proof -
  have "set (trim_start s) \<subseteq> set s" by (simp add: trim_start_def set_dropWhile_subset)
  moreover have "set (trim_end t) \<subseteq> set t" for t
    using set_dropWhile_subset [of is_ws "rev t"] by (simp add: trim_end_def)
  ultimately show ?thesis by (auto simp: trim_def)
qed

lemma split_text_items: "w \<in> set (split_cron_list (JStr s)) \<Longrightarrow> list_item w"
proof -
  assume "w \<in> set (split_cron_list (JStr s))"
  then obtain v where v: "v \<in> set (split_lines_commas s)" "w = trim v" "w \<noteq> []"
    by (auto simp: split_cron_list_def nonempty_def)
  let ?t = "map (\<lambda>c. if code c = 10 then CHR '','' else c) s"
  have no: "CHR '','' \<notin> set v" using v(1) split_on_free_parts unfolding split_lines_commas_def by blast
  have "set v \<subseteq> set ?t" using v(1) split_on_subset unfolding split_lines_commas_def by blast
  then have "\<forall>c \<in> set v. code c \<noteq> 10" by (auto simp: code_def)
  with no v set_trim [of v] show ?thesis by (auto simp: list_item_def trimmed_trim)
qed

text \<open>Items joined by newlines are split back.\<close>

lemma split_joined_items:
  assumes items: "\<And>w. w \<in> set ws \<Longrightarrow> list_item w"
  shows "split_cron_list (JStr (join [CHR 0x0A] ws)) = ws"
proof (cases "ws = []")
  case True
  then show ?thesis by (simp add: split_cron_list_def split_lines_commas_def nonempty_def)
next
  case False
  let ?f = "\<lambda>c. if code c = 10 then CHR '','' else c"
  have same: "map ?f w = w" if "list_item w" for w
    using that by (intro map_idI) (auto simp: list_item_def)
  have "map ?f (join [CHR 0x0A] us) = join [CHR '',''] us" if "\<forall>w \<in> set us. list_item w" for us
    using that
  proof (induction "[CHR 0x0A]" us rule: join.induct)
    case (3 w v us)
    then show ?case using same [of w] by (simp add: code_def)
  qed (simp_all add: same)
  then have "split_lines_commas (join [CHR 0x0A] ws) = split_on (CHR '','') (join [CHR '',''] ws)"
    using items by (simp add: split_lines_commas_def)
  also have "\<dots> = ws" using False items by (intro split_on_join) (auto simp: list_item_def)
  finally show ?thesis using items by (simp add: split_cron_list_def map_trim_nonempty list_item_def)
qed

lemma split_array: "split_cron_list (JArr (map JStr ws)) = nonempty (map trim ws)"
  by (simp add: split_cron_list_def o_def)

lemma context_again:
  "some_list (split_cron_list (JStr (list_to_text (js_opt_list (some_list (split_cron_list (JStr s)))))))
     = some_list (split_cron_list (JStr s))"
proof -
  let ?ws = "split_cron_list (JStr s)"
  have items: "\<And>w. w \<in> set ?ws \<Longrightarrow> list_item w" by (rule split_text_items)
  then have "nonempty (map trim ?ws) = ?ws" by (intro map_trim_nonempty) (simp add: list_item_def)
  then have "list_to_text (JArr (map JStr ?ws)) = join [CHR 0x0A] ?ws"
    by (simp add: list_to_text_def split_array)
  moreover have "split_cron_list (JStr []) = []"
    by (simp add: split_cron_list_def split_lines_commas_def nonempty_def)
  ultimately show ?thesis
    using split_joined_items [OF items]
    by (cases "?ws = []") (simp_all add: some_list_def js_opt_list_def list_to_text_def [of JNull])
qed

lemma toolsets_again:
  assumes "list_all trimmed ws"
  shows "some_list (nonempty (split_cron_list (js_opt_list (some_list (nonempty ws))))) = some_list (nonempty ws)"
proof -
  have "nonempty (map trim (nonempty ws)) = nonempty ws"
    using assms by (intro map_trim_nonempty) (auto simp: nonempty_def list_all_iff)
  then show ?thesis
    by (cases "nonempty ws = []")
      (simp_all add: some_list_def js_opt_list_def split_array, simp add: split_cron_list_def nonempty_def)
qed

lemma base_url_again:
  "trimmed (strip_slashes (trim v)) \<Longrightarrow>
     optional_text (case optional_text v True of None \<Rightarrow> [] | Some s \<Rightarrow> s) True = optional_text v True"
  by (simp add: optional_text_def Let_def trim_trimmed) (simp add: strip_slashes_def)

lemma trim_local: "trim ''local'' = ''local''"
  by code_simp

text \<open>Editing a job without changing anything leaves it alone: for every form and every job that holds what the
  form's payload sent, loading the job back into the form and saving it gives the same payload.
  (The toolset names are trimmed, and the base URL has no white space before trailing slashes.)\<close>

theorem edit_unchanged_keeps_job:
  assumes "list_all trimmed (formToolsets f)" and "trimmed (strip_slashes (trim (formBaseUrl f)))"
    and job: "job_keeps (build_cron_job_payload f) job"
  shows "build_cron_job_payload (cron_job_form_from_job job) = build_cron_job_payload f"
  using job
  by (simp add: job_keeps_def cron_job_form_from_job_def build_cron_job_payload_def Let_def
      optional_text_again context_again toolsets_again [OF assms(1)] base_url_again [OF assms(2)]
      as_string_def [of "JStr _"] trim_local) (simp add: or_else_text_def trim_local)

definition sample_form :: cron_form where
  "sample_form = \<lparr>formName = '' Nightly '', formPrompt = ''go'', formSchedule = ''0 9 * * *'', formDeliver = [],
     formSkills = [''web'', [] ], formProvider = [], formModel = '' m '', formBaseUrl = ''http://x//'',
     formScript = [], formNoAgent = False, formContextFrom = ''a, b'', formToolsets = [''t''], formWorkdir = []\<rparr>"

definition sample_job :: js where
  "sample_job = JObj
     [(''name'', JStr ''Nightly''), (''prompt'', JStr ''go''), (''deliver'', JStr ''local''), (''skills'', JArr [JStr ''web'']),
      (''provider'', JNull), (''model'', JStr ''m''), (''base_url'', JStr ''http://x''), (''script'', JNull),
      (''no_agent'', JBool False), (''context_from'', JArr [JStr ''a'', JStr ''b'']), (''enabled_toolsets'', JArr [JStr ''t'']),
      (''workdir'', JNull), (''schedule'', JObj [(''kind'', JStr ''cron''), (''expr'', JStr ''0 9 * * *'')])]"

theorem edit_unchanged_keeps_job_witness:
  "build_cron_job_payload (cron_job_form_from_job sample_job) = build_cron_job_payload sample_form
   \<and> jobContextFrom (build_cron_job_payload sample_form) = Some [''a'', ''b'']
   \<and> jobBaseUrl (build_cron_job_payload sample_form) = Some ''http://x''"
proof -
  have "list_all trimmed (formToolsets sample_form)" "trimmed (strip_slashes (trim (formBaseUrl sample_form)))"
    "job_keeps (build_cron_job_payload sample_form) sample_job"
    "jobContextFrom (build_cron_job_payload sample_form) = Some [''a'', ''b'']"
    "jobBaseUrl (build_cron_job_payload sample_form) = Some ''http://x''"
    by code_simp+
  then show ?thesis using edit_unchanged_keeps_job [of sample_form sample_job] by simp
qed

text \<open>Without the condition on the base URL the second save still changes it.\<close>

theorem base_url_needs_two_saves:
  "optional_text ''http://x /'' True = Some ''http://x '' \<and> optional_text ''http://x '' True = Some ''http://x''"
  by code_simp

text \<open>A form can be saved exactly when it has something to run: the test on the payload holds when the prompt or
  the script of the form is not blank or a skill is selected.\<close>

theorem execution_content_spec:
  "cron_job_has_execution_content (build_cron_job_payload f) \<longleftrightarrow>
     list_ex (\<lambda>c. \<not> is_ws c) (formPrompt f) \<or> list_ex (\<lambda>c. \<not> is_ws c) (formScript f) \<or> list_ex (\<lambda>w. w \<noteq> []) (formSkills f)"
proof -
  have "trim s = [] \<longleftrightarrow> \<not> list_ex (\<lambda>c. \<not> is_ws c) s" for s
    by (auto simp: trim_blank list_all_iff list_ex_iff)
  moreover have "nonempty ws = [] \<longleftrightarrow> \<not> list_ex (\<lambda>w. w \<noteq> []) ws" for ws
    by (induction ws) (auto simp: nonempty_def)
  moreover have "(case optional_text s False of None \<Rightarrow> [] | Some t \<Rightarrow> t) = trim s" for s
    by (simp add: optional_text_def Let_def)
  ultimately show ?thesis
    by (simp add: cron_job_has_execution_content_def build_cron_job_payload_def)
qed

end
