(* ===== verification/McpSetup.thy ===== *)
theory McpSetup
  imports JsValue
begin

text \<open>
  Adding an MCP server from the dashboard: \<open>web/src/lib/mcp-server-create.ts\<close> (the draft the
  form edits, checked and turned into the create call's body) and
  \<open>web/src/lib/mcp-dashboard-oauth.ts\<close> (the popup and the polling loop of its OAuth flow).
\<close>

section \<open>The draft and the server\<close>

datatype mcp_transport = McpHttp | McpStdio

datatype mcp_http_auth = AuthNone | AuthOAuth | AuthHeader

record mcp_draft =
  draftName :: string
  draftTransport :: mcp_transport
  draftUrl :: string
  draftHttpAuth :: mcp_http_auth
  draftBearer :: string
  draftCommand :: string
  draftArgs :: string
  draftEnv :: string

definition empty_mcp_server_draft :: mcp_draft where
  "empty_mcp_server_draft = \<lparr>draftName = [], draftTransport = McpHttp, draftUrl = [],
     draftHttpAuth = AuthNone, draftBearer = [], draftCommand = [], draftArgs = [], draftEnv = []\<rparr>"

record mcp_server =
  serverName :: string
  serverUrl :: "string option"
  serverAuth :: "mcp_http_auth option"
  serverBearer :: "string option"
  serverCommand :: "string option"
  serverArgs :: "string list option"
  serverEnv :: "(string \<times> string) list option"

definition named_server :: "string \<Rightarrow> mcp_server" where
  "named_server name = \<lparr>serverName = name, serverUrl = None, serverAuth = None, serverBearer = None,
     serverCommand = None, serverArgs = None, serverEnv = None\<rparr>"

lemma set_trim_sub: "set (trim s) \<subseteq> set s"
proof -
  have "set (trim_end t) \<subseteq> set t" for t
    using set_dropWhile_subset [of is_ws "rev t"] by (simp add: trim_end_def)
  then show ?thesis using set_dropWhile_subset [of is_ws s] by (auto simp: trim_def trim_start_def)
qed

text \<open>\<open>split(/[\s,]+/)\<close>, each piece trimmed, empty pieces dropped.\<close>

definition parse_args :: "string \<Rightarrow> string list" where
  "parse_args raw =
     filter (\<lambda>w. w \<noteq> []) (map trim (split_ws (map (\<lambda>c. if c = CHR '','' then CHR '' '' else c) raw)))"

definition parse_env_line :: "(string \<times> string) list \<Rightarrow> string \<Rightarrow> (string \<times> string) list" where
  "parse_env_line env rawLine =
     (let line = trim rawLine
      in if line = [] then env
         else (case index_of (CHR ''='') line of
             None \<Rightarrow> env
           | Some sep \<Rightarrow>
               (let key = trim (take sep line); val = trim (drop (sep + 1) line)
                in if key = [] then env else obj_set key val env)))"

definition parse_env :: "string \<Rightarrow> (string \<times> string) list" where
  "parse_env raw = foldl parse_env_line [] (split_on (CHR 0x0A) raw)"

text \<open>An error is its message.\<close>

definition build_mcp_server_create :: "mcp_draft \<Rightarrow> string + mcp_server" where
  "build_mcp_server_create d =
     (let name = trim (draftName d)
      in if name = [] then Inl ''Name required''
         else (case draftTransport d of
             McpHttp \<Rightarrow>
               (let url = trim (draftUrl d)
                in if url = [] then Inl ''URL required''
                   else if draftHttpAuth d = AuthHeader \<and> trim (draftBearer d) = []
                   then Inl ''Bearer token required''
                   else Inr ((named_server name)
                     \<lparr>serverUrl := Some url,
                      serverAuth := (if draftHttpAuth d = AuthNone then None else Some (draftHttpAuth d)),
                      serverBearer := (if draftHttpAuth d = AuthHeader then Some (draftBearer d) else None)\<rparr>))
           | McpStdio \<Rightarrow>
               (let command = trim (draftCommand d); args = parse_args (draftArgs d); env = parse_env (draftEnv d)
                in if command = [] then Inl ''Command required''
                   else Inr ((named_server name)
                     \<lparr>serverCommand := Some command,
                      serverArgs := (if args = [] then None else Some args),
                      serverEnv := (if env = [] then None else Some env)\<rparr>))))"

section \<open>Writing arguments and environments\<close>

definition print_args :: "string list \<Rightarrow> string" where
  "print_args ws = join '' '' ws"

definition good_args :: "string list \<Rightarrow> bool" where
  "good_args ws \<longleftrightarrow> list_all (\<lambda>w. is_word w \<and> CHR '','' \<notin> set w) ws"

lemma trim_word: "is_word w \<Longrightarrow> trim w = w"
  by (rule trim_trimmed) (auto simp: is_word_def trimmed_def)

lemma parse_print_args: "good_args ws \<Longrightarrow> parse_args (print_args ws) = ws"
proof (cases "ws = []")
  case True
  then show ?thesis by (simp add: parse_args_def print_args_def split_ws_free)
next
  case False
  assume good: "good_args ws"
  let ?f = "\<lambda>c. if c = CHR '','' then CHR '' '' else c"
  have "map ?f (join '' '' us) = join '' '' us" if "good_args us" for us
    using that
  proof (induction "'' ''" us rule: join.induct)
    case (2 w)
    then show ?case by (auto simp: good_args_def intro!: map_idI)
  next
    case (3 w v us)
    have "map ?f w = w" using "3.prems" by (auto simp: good_args_def intro!: map_idI)
    with 3 show ?case by (simp add: good_args_def)
  qed simp
  then have "parse_args (print_args ws) = filter (\<lambda>w. w \<noteq> []) (map trim (split_ws (join '' '' ws)))"
    using good by (simp add: parse_args_def print_args_def)
  also have "split_ws (join '' '' ws) = ws"
    using good False by (intro split_ws_join) (auto simp: good_args_def list_all_iff)
  also have "map trim ws = ws" using good by (auto simp: good_args_def list_all_iff trim_word intro!: map_idI)
  also have "filter (\<lambda>w. w \<noteq> []) ws = ws" using good by (auto simp: good_args_def list_all_iff is_word_def intro!: filter_True)
  finally show ?thesis .
qed

definition print_env :: "(string \<times> string) list \<Rightarrow> string" where
  "print_env env = join [CHR 0x0A] (map (\<lambda>(k, v). k @ CHR ''='' # v) env)"

definition good_binding :: "string \<times> string \<Rightarrow> bool" where
  "good_binding kv \<longleftrightarrow> fst kv \<noteq> [] \<and> trimmed (fst kv) \<and> CHR ''='' \<notin> set (fst kv)
     \<and> CHR 0x0A \<notin> set (fst kv) \<and> trimmed (snd kv) \<and> CHR 0x0A \<notin> set (snd kv)"

definition good_env :: "(string \<times> string) list \<Rightarrow> bool" where
  "good_env env \<longleftrightarrow> list_all good_binding env \<and> distinct (map fst env)"

lemma index_of_append: "c \<notin> set s \<Longrightarrow> index_of c (s @ c # t) = Some (length s)"
  by (induction s) auto

lemma parse_env_line_binding:
  assumes "good_binding (k, v)"
  shows "parse_env_line env (k @ CHR ''='' # v) = obj_set k v env"
proof -
  have eq: "\<not> is_ws (CHR ''='')" by (simp add: is_ws_def code_def)
  have "trimmed (k @ CHR ''='' # v)"
    using assms eq by (cases k) (auto simp: good_binding_def trimmed_def)
  then have "trim (k @ CHR ''='' # v) = k @ CHR ''='' # v" by (rule trim_trimmed)
  with assms show ?thesis
    by (simp add: parse_env_line_def good_binding_def index_of_append trim_trimmed Let_def)
qed

lemma obj_set_snoc: "k \<notin> fst ` set env \<Longrightarrow> obj_set k v env = env @ [(k, v)]"
  by (induction k v env rule: obj_set.induct) auto

lemma parse_env_lines:
  "list_all good_binding env \<Longrightarrow> distinct (map fst (acc @ env)) \<Longrightarrow>
     foldl parse_env_line acc (map (\<lambda>(k, v). k @ CHR ''='' # v) env) = acc @ env"
proof (induction env arbitrary: acc)
  case (Cons kv env)
  obtain k v where kv: "kv = (k, v)" by (cases kv)
  with Cons.prems have "good_binding (k, v)" "k \<notin> fst ` set acc" by auto
  then have "parse_env_line acc (k @ CHR ''='' # v) = acc @ [(k, v)]"
    by (simp add: parse_env_line_binding obj_set_snoc)
  with Cons show ?case by (simp add: kv)
qed simp

lemma parse_print_env: "good_env env \<Longrightarrow> parse_env (print_env env) = env"
proof (cases "env = []")
  case True
  then show ?thesis by (simp add: parse_env_def print_env_def parse_env_line_def)
next
  case False
  assume good: "good_env env"
  have "split_on (CHR 0x0A) (print_env env) = map (\<lambda>(k, v). k @ CHR ''='' # v) env"
    unfolding print_env_def using False good
    by (intro split_on_join) (auto simp: good_env_def good_binding_def list_all_iff)
  with good show ?thesis by (simp add: parse_env_def parse_env_lines good_env_def)
qed

interpretation args_codec: codec print_args "\<lambda>s. Some (parse_args s)" good_args
  by unfold_locales (simp add: parse_print_args)

interpretation env_codec: codec print_env "\<lambda>s. Some (parse_env s)" good_env
  by unfold_locales (simp add: parse_print_env)

section \<open>What the form can build\<close>

definition present :: "string \<Rightarrow> bool" where
  "present s \<longleftrightarrow> s \<noteq> [] \<and> trimmed s"

definition wf_mcp_server :: "mcp_server \<Rightarrow> bool" where
  "wf_mcp_server s \<longleftrightarrow> present (serverName s) \<and>
     (case (serverUrl s, serverCommand s) of
        (Some url, None) \<Rightarrow>
          present url \<and> serverAuth s \<noteq> Some AuthNone \<and> serverArgs s = None \<and> serverEnv s = None
          \<and> (case serverBearer s of
               None \<Rightarrow> serverAuth s \<noteq> Some AuthHeader
             | Some b \<Rightarrow> serverAuth s = Some AuthHeader \<and> trim b \<noteq> [])
      | (None, Some command) \<Rightarrow>
          present command \<and> serverAuth s = None \<and> serverBearer s = None
          \<and> (case serverArgs s of None \<Rightarrow> True | Some ws \<Rightarrow> ws \<noteq> [] \<and> good_args ws)
          \<and> (case serverEnv s of None \<Rightarrow> True | Some env \<Rightarrow> env \<noteq> [] \<and> good_env env)
      | _ \<Rightarrow> False)"

definition draft_of_server :: "mcp_server \<Rightarrow> mcp_draft" where
  "draft_of_server s =
     \<lparr>draftName = serverName s, draftTransport = (if serverUrl s = None then McpStdio else McpHttp),
      draftUrl = (case serverUrl s of None \<Rightarrow> [] | Some u \<Rightarrow> u),
      draftHttpAuth = (case serverAuth s of None \<Rightarrow> AuthNone | Some a \<Rightarrow> a),
      draftBearer = (case serverBearer s of None \<Rightarrow> [] | Some b \<Rightarrow> b),
      draftCommand = (case serverCommand s of None \<Rightarrow> [] | Some c \<Rightarrow> c),
      draftArgs = (case serverArgs s of None \<Rightarrow> [] | Some ws \<Rightarrow> print_args ws),
      draftEnv = (case serverEnv s of None \<Rightarrow> [] | Some env \<Rightarrow> print_env env)\<rparr>"

lemma present_trim: "trim s \<noteq> [] \<Longrightarrow> present (trim s)"
  by (simp add: present_def trimmed_trim)

lemma parse_args_good: "good_args (parse_args raw)"
proof -
  let ?raw = "map (\<lambda>c. if c = CHR '','' then CHR '' '' else c) raw"
  have "is_word w \<and> CHR '','' \<notin> set w" if w: "w \<in> set (parse_args raw)" for w
  proof -
    from w obtain v where v: "v \<in> set (split_ws ?raw)" "w = trim v" "w \<noteq> []" by (auto simp: parse_args_def)
    have "\<forall>c \<in> set v. \<not> is_ws c" using split_ws_parts [OF v(1)] by blast
    moreover from this v(2,3) have "w = v" by (cases "v = []") (auto simp: trim_trimmed trimmed_def)
    moreover have "set v \<subseteq> set ?raw" by (rule split_ws_subset) (rule v(1))
    ultimately show ?thesis using v(3) by (auto simp: is_word_def)
  qed
  then show ?thesis by (auto simp: good_args_def list_all_iff)
qed

lemma take_index_of: "index_of c s = Some i \<Longrightarrow> c \<notin> set (take i s)"
  by (induction s arbitrary: i) (auto split: if_splits)

lemma good_binding_trim:
  assumes "CHR 0x0A \<notin> set line" and i: "index_of (CHR ''='') line = Some i" and "trim (take i line) \<noteq> []"
  shows "good_binding (trim (take i line), trim (drop (i + 1) line))"
  using assms set_trim_sub [of "take i line"] set_trim_sub [of "drop (i + 1) line"] take_index_of [OF i]
    set_take_subset [of i line] set_drop_subset [of "i + 1" line]
  unfolding good_binding_def by (auto simp: trimmed_trim)

lemma obj_set_good:
  "good_env env \<Longrightarrow> good_binding (k, v) \<Longrightarrow> good_env (obj_set k v env)"
proof -
  assume "good_env env" "good_binding (k, v)"
  moreover have "set (obj_set k v env) \<subseteq> insert (k, v) (set env)"
    by (induction k v env rule: obj_set.induct) auto
  ultimately show ?thesis by (auto simp: good_env_def list_all_iff)
qed

lemma parse_env_good: "good_env (parse_env raw)"
proof -
  have step: "good_env (parse_env_line env l)" if "good_env env" "CHR 0x0A \<notin> set l" for env l
  proof -
    have "CHR 0x0A \<notin> set (trim l)" using that(2) set_trim_sub [of l] by blast
    with that(1) show ?thesis
      by (auto simp: parse_env_line_def Let_def intro!: obj_set_good good_binding_trim [simplified] split: option.split)
  qed
  have "good_env env \<Longrightarrow> \<forall>l \<in> set ls. CHR 0x0A \<notin> set l \<Longrightarrow> good_env (foldl parse_env_line env ls)" for env ls
    by (induction ls arbitrary: env) (simp_all add: step)
  then show ?thesis by (simp add: parse_env_def split_on_free_parts good_env_def)
qed

lemma built_server_wf:
  assumes d: "build_mcp_server_create d = Inr s"
  shows "wf_mcp_server s"
proof (cases "draftTransport d")
  case McpHttp
  with d show ?thesis
    by (auto simp: build_mcp_server_create_def named_server_def wf_mcp_server_def Let_def present_trim
        split: if_splits)
next
  case McpStdio
  with d show ?thesis
    using parse_args_good [of "draftArgs d"] parse_env_good [of "draftEnv d"]
    by (auto simp: build_mcp_server_create_def named_server_def wf_mcp_server_def Let_def present_trim
        split: if_splits)
qed

text \<open>Claim C8. The form builds exactly the well-formed servers: what a draft is turned into has a
  name, either an URL with a bearer token exactly for header authentication or a command with word
  arguments and a clean environment; and each such server is built from some draft, arguments and
  environment included.\<close>

theorem form_builds_wf_servers:
  "(\<exists>d. build_mcp_server_create d = Inr s) \<longleftrightarrow> wf_mcp_server s"
proof
  assume "\<exists>d. build_mcp_server_create d = Inr s"
  then show "wf_mcp_server s" using built_server_wf by blast
next
  assume wf: "wf_mcp_server s"
  have trim: "present t \<Longrightarrow> trim t = t" for t by (simp add: present_def trim_trimmed)
  have "parse_args [] = [] \<and> parse_env [] = []" by code_simp
  with wf trim have "build_mcp_server_create (draft_of_server s) = Inr s"
    by (cases s)
      (auto simp: wf_mcp_server_def draft_of_server_def build_mcp_server_create_def named_server_def Let_def
        parse_print_args parse_print_env present_def split: option.splits)
  then show "\<exists>d. build_mcp_server_create d = Inr s" ..
qed

section \<open>The OAuth flow\<close>

datatype flow_status = FlowStarting | FlowAuthorizationRequired | FlowApproved | FlowError

record oauth_flow =
  flowId :: string
  flowStatus :: flow_status
  flowUrl :: "string option"
  flowError :: "string option"

text \<open>The answers the page gets: what \<open>status\<close> settles to, and whether the popup is closed when the
  loop looks.\<close>

type_synonym poll_answer = "(string + oauth_flow) \<times> bool"

datatype oauth_result = OAuthApproved oauth_flow | OAuthFailed string | StillPolling

definition error_text :: "string option \<Rightarrow> string \<Rightarrow> string" where
  "error_text e fallback = (if truthy_str e then the e else fallback)"

fun poll_loop :: "nat \<Rightarrow> nat \<Rightarrow> poll_answer list \<Rightarrow> oauth_result" where
  "poll_loop maxFailures failures [] = StillPolling"
| "poll_loop maxFailures failures ((Inl e, popupClosed) # answers) =
     (if failures + 1 \<ge> maxFailures then OAuthFailed e else poll_loop maxFailures (failures + 1) answers)"
| "poll_loop maxFailures failures ((Inr flow, popupClosed) # answers) =
     (if flowStatus flow = FlowApproved then OAuthApproved flow
      else if flowStatus flow = FlowError then OAuthFailed (error_text (flowError flow) ''OAuth authorization failed'')
      else if popupClosed then OAuthFailed ''OAuth authorization window was closed before completion''
      else poll_loop maxFailures 0 answers)"

text \<open>What happens to the popup.\<close>

datatype popup_effect = PopupNavigated string | PopupClosed

definition complete_mcp_dashboard_oauth ::
  "bool \<Rightarrow> (string + oauth_flow) \<Rightarrow> nat \<Rightarrow> poll_answer list \<Rightarrow> popup_effect list \<times> oauth_result" where
  "complete_mcp_dashboard_oauth opened started maxFailures answers =
     (if \<not> opened then ([], OAuthFailed ''OAuth popup was blocked - allow popups for this dashboard and retry'')
      else (case started of
          Inl e \<Rightarrow> ([PopupClosed], OAuthFailed e)
        | Inr flow \<Rightarrow>
            if flowStatus flow = FlowError
            then ([PopupClosed], OAuthFailed (error_text (flowError flow) ''OAuth failed to start''))
            else if \<not> truthy_str (flowUrl flow)
            then ([PopupClosed], OAuthFailed ''OAuth server did not provide an authorization URL'')
            else ([PopupNavigated (the (flowUrl flow))], poll_loop maxFailures 0 answers)))"

text \<open>An answer that ends the loop by itself, and one that is a failed poll.\<close>

fun poll_failed :: "poll_answer \<Rightarrow> bool" where
  "poll_failed (Inl e, popupClosed) = True"
| "poll_failed (Inr flow, popupClosed) = False"

fun poll_decides :: "poll_answer \<Rightarrow> bool" where
  "poll_decides (Inl e, popupClosed) = False"
| "poll_decides (Inr flow, popupClosed) = (flowStatus flow = FlowApproved \<or> flowStatus flow = FlowError \<or> popupClosed)"

definition outage :: "nat \<Rightarrow> bool list \<Rightarrow> bool" where
  "outage k fs \<longleftrightarrow> sublist (replicate k True) fs"

lemma outage_break: "n < k \<Longrightarrow> outage k (replicate n True @ False # fs) \<longleftrightarrow> outage k fs"
proof (induction n)
  case 0
  then show ?case by (cases k) (simp_all add: outage_def sublist_Cons_right)
next
  case (Suc n)
  have "\<not> prefix (replicate k True) (replicate j True @ False # fs)" if "j < k" for j
    using that
  proof (induction j arbitrary: k)
    case 0
    then show ?case by (cases k) simp_all
  next
    case (Suc j)
    then show ?case by (cases k) simp_all
  qed
  with Suc have "\<not> prefix (replicate k True) (replicate (Suc n) True @ False # fs)" by blast
  with Suc show ?case by (simp add: outage_def sublist_Cons_right)
qed

lemma outage_full: "outage k (replicate k True @ fs)"
  by (auto simp: outage_def sublist_def intro: exI [of _ "[]"])

lemma no_outage_short: "n < k \<Longrightarrow> \<not> outage k (replicate n True)"
  using sublist_length_le [of "replicate k True" "replicate n True"] by (auto simp: outage_def)

text \<open>The loop goes on exactly while nothing decides and the failures have not come in a row.\<close>

lemma still_polling_iff:
  "n < k \<Longrightarrow> poll_loop k n as = StillPolling \<longleftrightarrow>
     \<not> list_ex poll_decides as \<and> \<not> outage k (replicate n True @ map poll_failed as)"
proof (induction k n as rule: poll_loop.induct)
  case (1 k n)
  then show ?case by (simp add: no_outage_short)
next
  case (2 k n e c as)
  have app: "replicate n True @ True # fs = replicate (n + 1) True @ fs" for fs
    by (simp add: replicate_app_Cons_same)
  show ?case
  proof (cases "n + 1 \<ge> k")
    case True
    with 2 have k: "n + 1 = k" by simp
    have "outage k (replicate n True @ True # map poll_failed as)"
      unfolding app k by (rule outage_full)
    with True show ?thesis by simp
  next
    case False
    then have "poll_loop k (n + 1) as = StillPolling \<longleftrightarrow>
        \<not> list_ex poll_decides as \<and> \<not> outage k (replicate (n + 1) True @ map poll_failed as)"
      by (intro "2.IH") simp_all
    moreover have "poll_loop k n ((Inl e, c) # as) = poll_loop k (n + 1) as" using False by simp
    moreover have "map poll_failed ((Inl e, c) # as) = True # map poll_failed as" by simp
    ultimately show ?thesis by (simp only: app list.pred_inject list_ex_iff list.set ball_simps bex_simps poll_decides.simps simp_thms)
  qed
next
  case (3 k n flow c as)
  then show ?case by (auto simp: outage_break)
qed

lemma poll_append:
  "poll_loop k n pre = StillPolling \<Longrightarrow> \<exists>n'. \<forall>rest. poll_loop k n (pre @ rest) = poll_loop k n' rest"
  by (induction k n pre rule: poll_loop.induct) (auto split: if_splits)

lemma poll_approved_prefix:
  "poll_loop k n as = OAuthApproved flow \<Longrightarrow>
     \<exists>pre c post. as = pre @ (Inr flow, c) # post \<and> flowStatus flow = FlowApproved
       \<and> poll_loop k n pre = StillPolling"
proof (induction k n as rule: poll_loop.induct)
  case (2 k n e c as)
  then obtain pre d post where "as = pre @ (Inr flow, d) # post" "flowStatus flow = FlowApproved"
    "poll_loop k (n + 1) pre = StillPolling" "\<not> n + 1 \<ge> k" by (auto split: if_splits)
  then show ?case by (intro exI [of _ "(Inl e, c) # pre"] exI [of _ d] exI [of _ post]) simp
next
  case (3 k n fl c as)
  show ?case
  proof (cases "flowStatus fl = FlowApproved")
    case True
    with 3 show ?thesis by (intro exI [of _ "[]"] exI [of _ c] exI [of _ as]) simp
  next
    case False
    with 3 obtain pre d post where "as = pre @ (Inr flow, d) # post" "flowStatus flow = FlowApproved"
      "poll_loop k 0 pre = StillPolling" "flowStatus fl \<noteq> FlowError" "\<not> c" by (auto split: if_splits)
    with False show ?thesis by (intro exI [of _ "(Inr fl, c) # pre"] exI [of _ d] exI [of _ post]) simp
  qed
qed simp

text \<open>Claim C9. The OAuth flow is reported as approved exactly when the server approved it: the popup
  opened, the flow started with an URL, and some poll answered approved, before which no poll
  decided otherwise (an error, or the popup popupClosed) and no three polls in a row failed. The popup
  was then sent to the provider's URL and nothing else was done to it.\<close>

theorem oauth_approved_iff:
  "complete_mcp_dashboard_oauth opened started 3 answers = (effects, OAuthApproved flow) \<longleftrightarrow>
     opened \<and> (\<exists>f url pre c post. started = Inr f \<and> flowStatus f \<noteq> FlowError \<and> flowUrl f = Some url \<and> url \<noteq> []
       \<and> effects = [PopupNavigated url] \<and> answers = pre @ (Inr flow, c) # post \<and> flowStatus flow = FlowApproved
       \<and> \<not> list_ex poll_decides pre \<and> \<not> outage 3 (map poll_failed pre))"
proof -
  have loop: "poll_loop 3 0 answers = OAuthApproved flow \<longleftrightarrow>
      (\<exists>pre c post. answers = pre @ (Inr flow, c) # post \<and> flowStatus flow = FlowApproved
        \<and> \<not> list_ex poll_decides pre \<and> \<not> outage 3 (map poll_failed pre))"
  proof
    assume "poll_loop 3 0 answers = OAuthApproved flow"
    from poll_approved_prefix [OF this] show "\<exists>pre c post. answers = pre @ (Inr flow, c) # post
        \<and> flowStatus flow = FlowApproved \<and> \<not> list_ex poll_decides pre \<and> \<not> outage 3 (map poll_failed pre)"
      using still_polling_iff [of 0 3] by auto
  next
    assume "\<exists>pre c post. answers = pre @ (Inr flow, c) # post \<and> flowStatus flow = FlowApproved
        \<and> \<not> list_ex poll_decides pre \<and> \<not> outage 3 (map poll_failed pre)"
    then obtain pre c post where a: "answers = pre @ (Inr flow, c) # post" "flowStatus flow = FlowApproved"
      "poll_loop 3 0 pre = StillPolling" using still_polling_iff [of 0 3] by auto
    from poll_append [OF a(3)] a(1,2) show "poll_loop 3 0 answers = OAuthApproved flow" by auto
  qed
  show ?thesis
    by (cases started)
      (auto simp: complete_mcp_dashboard_oauth_def truthy_str_def loop split: if_splits, blast)
qed

text \<open>The polling loop gives up on a dead server and only then waits on: with a started flow,
  the result is still open exactly as long as no answer has decided and no three polls in a row
  have failed.\<close>

theorem oauth_waits_iff:
  "snd (complete_mcp_dashboard_oauth opened started 3 answers) = StillPolling \<longleftrightarrow>
     opened \<and> (\<exists>f. started = Inr f \<and> flowStatus f \<noteq> FlowError \<and> truthy_str (flowUrl f))
     \<and> \<not> list_ex poll_decides answers \<and> \<not> outage 3 (map poll_failed answers)"
  using still_polling_iff [of 0 3 answers]
  by (cases started) (auto simp: complete_mcp_dashboard_oauth_def)

end
