(* ===== verification/SlashExec.thy ===== *)
theory SlashExec
  imports JsValue "HOL-Library.Monad_Syntax"
begin

text \<open>
  The slash command pipeline of the web chat, \<open>web/src/lib/slashExec.ts\<close>. The gateway is a
  parameter: a function from its state and a request to an answer (an error message or a value) and
  its next state. The pipeline may follow aliases for ever, so it is a partial function: \<open>None\<close>
  is the run that does not return.
\<close>

section \<open>Commands and directives\<close>

datatype slash_result = SlashDone | SlashSent | SlashError

datatype slash_effect = SysText string | SendMessage string

datatype directive =
    DExec "string option"
  | DPlugin "string option"
  | DAlias string
  | DSkill string "string option"
  | DSend string

definition strip_leading_slashes :: "string \<Rightarrow> string" where
  "strip_leading_slashes s = dropWhile (\<lambda>c. c = CHR ''/'') s"

text \<open>A dot of a regular expression matches no line terminator.\<close>

definition one_line :: "string \<Rightarrow> bool" where
  "one_line s \<longleftrightarrow> list_all (\<lambda>c. code c \<noteq> 10 \<and> code c \<noteq> 13) s"

text \<open>\<open>^(\S+)\s*(.*)$\<close>: a command whose argument spans lines does not match.\<close>

definition parse_slash :: "string \<Rightarrow> string \<times> string" where
  "parse_slash command =
     (let s = strip_leading_slashes command;
          name = takeWhile (\<lambda>c. \<not> is_ws c) s;
          rest = dropWhile is_ws (dropWhile (\<lambda>c. \<not> is_ws c) s)
      in if name = [] \<or> \<not> one_line rest then ([], []) else (name, trim rest))"

fun js_str_opt :: "js \<Rightarrow> string option" where
  "js_str_opt (JStr s) = Some s"
| "js_str_opt v = None"

text \<open>An array passes the object test and has no field \<open>type\<close>.\<close>

definition parse_command_dispatch :: "js \<Rightarrow> directive option" where
  "parse_command_dispatch r =
     (let ty = js_get r ''type''
      in if ty = JStr ''exec'' then Some (DExec (js_str_opt (js_get r ''output'')))
         else if ty = JStr ''plugin'' then Some (DPlugin (js_str_opt (js_get r ''output'')))
         else if ty = JStr ''alias'' then map_option DAlias (js_str_opt (js_get r ''target''))
         else if ty = JStr ''skill'' then
           map_option (\<lambda>n. DSkill n (js_str_opt (js_get r ''message''))) (js_str_opt (js_get r ''name''))
         else if ty = JStr ''send'' then map_option DSend (js_str_opt (js_get r ''message''))
         else None)"

section \<open>Running a command\<close>

datatype gw_request =
    SlashExecRequest string string
  | CommandDispatchRequest string string string

type_synonym 'g gateway = "'g \<Rightarrow> gw_request \<Rightarrow> (string + js) \<times> 'g"

text \<open>The transcript line of a \<open>slash.exec\<close> answer; \<open>r?.\<close> reads nothing of null.\<close>

definition exec_text :: "string \<Rightarrow> js \<Rightarrow> string" where
  "exec_text name r =
     (let out = js_get r ''output''; warning = js_get r ''warning'';
          body = (if truthy out then js_string out else CHR ''/'' # name @ '': no output'')
      in if truthy warning then ''warning: '' @ js_string warning @ [CHR 0x0A] @ body else body)"

text \<open>Messages of a skill or send directive; \<open>send\<close> may itself fail, with the message of
  \<open>send_error\<close>. The lightning sign is written as its escape.\<close>

definition deliver_message ::
  "(string \<Rightarrow> string option) \<Rightarrow> string \<Rightarrow> string option \<Rightarrow> string option \<Rightarrow> slash_effect list \<times> slash_result" where
  "deliver_message send_error name skill message =
     (let msg = trim (case message of None \<Rightarrow> [] | Some s \<Rightarrow> s);
          loading = (case skill of None \<Rightarrow> [] | Some n \<Rightarrow> [SysText (CHR 0x5C # ''u26a1 loading skill: '' @ n)])
      in if msg = [] then
           ([SysText (CHR ''/'' # name @ '': ''
               @ (if skill = None then ''empty message'' else ''skill payload missing message''))], SlashError)
         else (case send_error msg of
             None \<Rightarrow> (loading @ [SendMessage msg], SlashSent)
           | Some e \<Rightarrow> (loading @ [SendMessage msg, SysText (''error: '' @ e)], SlashError)))"

text \<open>The body of \<open>executeSlash\<close>: a finished run (what was said and sent, and the result), or the
  command an alias directive calls it with again.\<close>

definition slash_step ::
  "'g gateway \<Rightarrow> (string \<Rightarrow> string option) \<Rightarrow> string \<Rightarrow> string \<Rightarrow> 'g \<Rightarrow>
     (slash_effect list \<times> slash_result + string) \<times> 'g" where
  "slash_step gw send_error sid command g =
     (case parse_slash command of (name, arg) \<Rightarrow>
        if name = [] then (Inl ([SysText ''empty slash command''], SlashError), g)
        else (case gw g (SlashExecRequest (strip_leading_slashes command) sid) of
            (Inr r, g1) \<Rightarrow> (Inl ([SysText (exec_text name r)], SlashDone), g1)
          | (Inl _, g1) \<Rightarrow>
              (case gw g1 (CommandDispatchRequest name arg sid) of
                 (Inl e, g2) \<Rightarrow> (Inl ([SysText (''error: '' @ e)], SlashError), g2)
               | (Inr d, g2) \<Rightarrow>
                   (case parse_command_dispatch d of
                      None \<Rightarrow> (Inl ([SysText ''error: invalid response: command.dispatch''], SlashError), g2)
                    | Some (DExec output) \<Rightarrow>
                        (Inl ([SysText (case output of None \<Rightarrow> ''(no output)'' | Some s \<Rightarrow> s)], SlashDone), g2)
                    | Some (DPlugin output) \<Rightarrow>
                        (Inl ([SysText (case output of None \<Rightarrow> ''(no output)'' | Some s \<Rightarrow> s)], SlashDone), g2)
                    | Some (DAlias target) \<Rightarrow>
                        (Inr (CHR ''/'' # target @ (if arg = [] then [] else CHR '' '' # arg)), g2)
                    | Some (DSkill skill message) \<Rightarrow>
                        (Inl (deliver_message send_error name (Some skill) message), g2)
                    | Some (DSend message) \<Rightarrow>
                        (Inl (deliver_message send_error name None (Some message)), g2)))))"

text \<open>The recursion of \<open>executeSlash\<close>.\<close>

partial_function (option) execute_slash ::
  "'g gateway \<Rightarrow> (string \<Rightarrow> string option) \<Rightarrow> string \<Rightarrow> string \<Rightarrow> 'g
     \<Rightarrow> (slash_effect list \<times> slash_result \<times> 'g) option" where
  "execute_slash gw send_error sid command g =
     (case slash_step gw send_error sid command g of
        (Inl (effs, res), g') \<Rightarrow> Some (effs, res, g')
      | (Inr command', g') \<Rightarrow> execute_slash gw send_error sid command' g')"

section \<open>Alias chains\<close>

text \<open>The commands an alias chain goes through.\<close>

inductive alias_chain ::
  "'g gateway \<Rightarrow> (string \<Rightarrow> string option) \<Rightarrow> string \<Rightarrow> string \<times> 'g \<Rightarrow> nat \<Rightarrow> string \<times> 'g \<Rightarrow> bool"
  for gw se sid where
  here: "alias_chain gw se sid c 0 c"
| jump: "slash_step gw se sid (fst c) (snd c) = (Inr command, g) \<Longrightarrow> alias_chain gw se sid (command, g) n c'
     \<Longrightarrow> alias_chain gw se sid c (Suc n) c'"

inductive_cases alias_chain_SucE: "alias_chain gw se sid c (Suc n) c'"
inductive_simps alias_chain_0: "alias_chain gw se sid c 0 c'"

lemma alias_chain_run:
  "alias_chain gw se sid c n c' \<Longrightarrow>
     execute_slash gw se sid (fst c) (snd c) = execute_slash gw se sid (fst c') (snd c')"
proof (induction rule: alias_chain.induct)
  case (jump c command g n c')
  then show ?case by (subst execute_slash.simps) simp
qed simp

text \<open>Returning is reaching a command that is not an alias.\<close>

lemma execute_slash_returns:
  assumes "execute_slash gw se sid command g = Some (effs, res, g')"
  shows "\<exists>n c. alias_chain gw se sid (command, g) n c
       \<and> slash_step gw se sid (fst c) (snd c) = (Inl (effs, res), g')"
proof -
  let ?P = "\<lambda>gw se sid command g (effs, res, g'). \<exists>n c. alias_chain gw se sid (command, g) n c
       \<and> slash_step gw se sid (fst c) (snd c) = (Inl (effs, res), g')"
  have "?P gw se sid command g (effs, res, g')"
  proof (rule execute_slash.raw_induct [where P = ?P, OF _ assms], goal_cases)
    case (1 rec gw se sid command g y)
    show ?case
    proof (cases "slash_step gw se sid command g")
      case (Pair r g1)
      show ?thesis
      proof (cases r)
        case (Inl er)
        obtain effs res where er: "er = (effs, res)" by (cases er)
        have "y = (effs, res, g1)" using "1"(2) by (simp add: Pair Inl er)
        with Pair Inl er show ?thesis
          by (auto intro!: exI [of _ "0::nat"] exI [of _ command] exI [of _ g] alias_chain.here)
      next
        case (Inr command')
        with Pair "1"(2) have "rec gw se sid command' g1 = Some y" by simp
        then have "?P gw se sid command' g1 y" by (rule "1"(1))
        then show ?thesis
          using alias_chain.jump [of gw se sid "(command, g)" command' g1] Pair Inr
          by (fastforce split: prod.splits)
      qed
    qed
  qed
  then show ?thesis by simp
qed

text \<open>A message that a step sends is the trimmed message of the send or skill directive the gateway
  answered its dispatch with.\<close>

definition dispatched_message :: "'g gateway \<Rightarrow> string \<Rightarrow> string \<Rightarrow> 'g \<Rightarrow> bool" where
  "dispatched_message gw sid msg g' \<longleftrightarrow>
     (\<exists>g name arg d m. gw g (CommandDispatchRequest name arg sid) = (Inr d, g')
        \<and> js_get d ''type'' \<in> {JStr ''send'', JStr ''skill''} \<and> js_get d ''message'' = JStr m \<and> msg = trim m)"

lemma js_str_opt_Some: "js_str_opt v = Some s \<longleftrightarrow> v = JStr s"
  by (cases v) auto

lemma dispatched_directive:
  "parse_command_dispatch d = Some (DSend m) \<Longrightarrow> js_get d ''type'' = JStr ''send'' \<and> js_get d ''message'' = JStr m"
  "parse_command_dispatch d = Some (DSkill n (Some m)) \<Longrightarrow> js_get d ''type'' = JStr ''skill'' \<and> js_get d ''message'' = JStr m"
  by (auto simp: parse_command_dispatch_def Let_def js_str_opt_Some split: if_splits)

lemma trim_of_nothing: "trim [] = []"
  by code_simp

lemma delivered_message:
  "SendMessage msg \<in> set (fst (deliver_message se name skill message))
     \<Longrightarrow> \<exists>m. message = Some m \<and> msg = trim m \<and> msg \<noteq> []"
  by (cases message) (auto simp: deliver_message_def Let_def trim_of_nothing split: if_splits option.splits)

lemma step_sends_what_is_dispatched:
  assumes "slash_step gw se sid command g = (Inl (effs, res), g')" "SendMessage msg \<in> set effs"
  shows "dispatched_message gw sid msg g'"
proof -
  obtain name arg where p: "parse_slash command = (name, arg)" by fastforce
  obtain a g1 where ex: "gw g (SlashExecRequest (strip_leading_slashes command) sid) = (a, g1)" by fastforce
  obtain b g2 where di: "gw g1 (CommandDispatchRequest name arg sid) = (b, g2)" by fastforce
  note step = assms(1) [unfolded slash_step_def p ex di prod.case]
  have "\<exists>d dir. b = Inr d \<and> g' = g2 \<and> parse_command_dispatch d = Some dir
      \<and> ((\<exists>n m. dir = DSkill n m \<and> (effs, res) = deliver_message se name (Some n) m)
         \<or> (\<exists>m. dir = DSend m \<and> (effs, res) = deliver_message se name None (Some m)))"
    using step assms(2) by (auto split: if_splits sum.splits option.splits directive.splits)
  then obtain d dir where d: "b = Inr d" "g' = g2" and dir: "parse_command_dispatch d = Some dir"
      "(\<exists>n m. dir = DSkill n m \<and> (effs, res) = deliver_message se name (Some n) m)
         \<or> (\<exists>m. dir = DSend m \<and> (effs, res) = deliver_message se name None (Some m))" by blast
  obtain m where m: "msg = trim m" "dir = DSend m \<or> (\<exists>n. dir = DSkill n (Some m))"
  proof -
    from dir(2) show thesis
    proof (elim disjE exE conjE)
      fix n x assume k: "dir = DSkill n x" "(effs, res) = deliver_message se name (Some n) x"
      then have "SendMessage msg \<in> set (fst (deliver_message se name (Some n) x))"
        using assms(2) by (metis fst_conv)
      from delivered_message [OF this] k(1) show thesis by (auto intro: that)
    next
      fix x assume k: "dir = DSend x" "(effs, res) = deliver_message se name None (Some x)"
      then have "SendMessage msg \<in> set (fst (deliver_message se name None (Some x)))"
        using assms(2) by (metis fst_conv)
      from delivered_message [OF this] k(1) show thesis by (auto intro: that)
    qed
  qed
  have "js_get d ''type'' \<in> {JStr ''send'', JStr ''skill''}" "js_get d ''message'' = JStr m"
    using m(2) dir(1) dispatched_directive by auto
  then show ?thesis using di d m(1) unfolding dispatched_message_def by blast
qed

text \<open>What a finished command says for itself: it is \<open>sent\<close> exactly when one message went to the
  agent without an error, and that message is trimmed and not empty; and whatever the result,
  something was said or sent, so the user always gets an answer.\<close>

theorem slash_result_matches_effects:
  assumes "slash_step gw se sid command g = (Inl (effs, res), g')"
  shows "(res = SlashSent \<longleftrightarrow> (\<exists>msg. SendMessage msg \<in> set effs \<and> se msg = None))
    \<and> (\<forall>msg. SendMessage msg \<in> set effs \<longrightarrow> msg \<noteq> [] \<and> trimmed msg)
    \<and> (res = SlashDone \<longrightarrow> (\<exists>t. effs = [SysText t])) \<and> (res = SlashError \<longrightarrow> (\<exists>t. last effs = SysText t))
    \<and> effs \<noteq> [] \<and> length (filter (\<lambda>e. \<exists>msg. e = SendMessage msg) effs) \<le> 1"
  using assms
  by (auto simp: slash_step_def deliver_message_def Let_def trimmed_trim
      split: prod.splits sum.splits if_splits option.splits directive.splits)

text \<open>Claim C10. Whatever aliases a slash command goes through and whatever the gateway answers, if the
  pipeline returns then the user has an answer that fits the result: something was said or sent; at most
  one message went to the agent, and every message is not empty, trimmed, and the one of the send or skill
  directive the gateway answered the last dispatch with; the result is \<open>sent\<close> exactly when a
  message went out without an error, \<open>done\<close> comes with a single line and no message, and an
  error with a line that ends the transcript.\<close>

theorem slash_pipeline_answers:
  assumes "execute_slash gw se sid command g = Some (effs, res, g')"
  shows "(res = SlashSent \<longleftrightarrow> (\<exists>msg. SendMessage msg \<in> set effs \<and> se msg = None))
    \<and> (\<forall>msg. SendMessage msg \<in> set effs \<longrightarrow> msg \<noteq> [] \<and> trimmed msg \<and> dispatched_message gw sid msg g')
    \<and> (res = SlashDone \<longrightarrow> (\<exists>t. effs = [SysText t])) \<and> (res = SlashError \<longrightarrow> (\<exists>t. last effs = SysText t))
    \<and> effs \<noteq> [] \<and> length (filter (\<lambda>e. \<exists>msg. e = SendMessage msg) effs) \<le> 1"
proof -
  from execute_slash_returns [OF assms] obtain c where
    c: "slash_step gw se sid (fst c) (snd c) = (Inl (effs, res), g')" by blast
  show ?thesis using slash_result_matches_effects [OF c] step_sends_what_is_dispatched [OF c] by simp
qed

text \<open>A gateway that answers \<open>/w\<close> with an alias for \<open>/web\<close>, and that with the message of a skill.\<close>

definition aliased_gateway :: "unit gateway" where
  "aliased_gateway g req =
     (case req of SlashExecRequest _ _ \<Rightarrow> (Inl ''rejected'', ())
      | CommandDispatchRequest name arg sid \<Rightarrow>
          (Inr (if name = ''w'' then JObj [(''type'', JStr ''alias''), (''target'', JStr ''web'')]
                else JObj [(''type'', JStr ''skill''), (''name'', JStr name), (''message'', JStr ('' use '' @ arg @ '' ''))]), ()))"

theorem slash_pipeline_answers_witness:
  "\<exists>effs. execute_slash aliased_gateway (\<lambda>_. None) ''s'' ''/w now'' () = Some (effs, SlashSent, ())
     \<and> SendMessage ''use now'' \<in> set effs \<and> dispatched_message aliased_gateway ''s'' ''use now'' ()"
proof -
  have "slash_step aliased_gateway (\<lambda>_. None) ''s'' ''/w now'' () = (Inr ''/web now'', ())" by code_simp
  moreover have "slash_step aliased_gateway (\<lambda>_. None) ''s'' ''/web now'' ()
      = (Inl ([SysText (CHR 0x5C # ''u26a1 loading skill: web''), SendMessage ''use now''], SlashSent), ())"
    by code_simp
  ultimately have run: "execute_slash aliased_gateway (\<lambda>_. None) ''s'' ''/w now'' ()
      = Some ([SysText (CHR 0x5C # ''u26a1 loading skill: web''), SendMessage ''use now''], SlashSent, ())"
    by (subst execute_slash.simps, simp) (subst execute_slash.simps, simp)
  from slash_pipeline_answers [OF run] run show ?thesis by simp
qed

definition demo_gateway :: "unit gateway" where
  "demo_gateway g req =
     (case req of SlashExecRequest _ _ \<Rightarrow> (Inl ''rejected'', ())
      | CommandDispatchRequest name arg sid \<Rightarrow>
          (Inr (JObj [(''type'', JStr ''skill''), (''name'', JStr name), (''message'', JStr ('' use '' @ arg @ '' ''))]), ()))"

theorem slash_result_matches_effects_witness:
  "\<exists>effs. slash_step demo_gateway (\<lambda>_. None) ''s'' ''/web now'' () = (Inl (effs, SlashSent), ())
     \<and> SendMessage ''use now'' \<in> set effs \<and> length (filter (\<lambda>e. \<exists>msg. e = SendMessage msg) effs) \<le> 1"
proof -
  have "slash_step demo_gateway (\<lambda>_. None) ''s'' ''/web now'' ()
      = (Inl ([SysText (CHR 0x5C # ''u26a1 loading skill: web''), SendMessage ''use now''], SlashSent), ())"
    by code_simp
  from this slash_result_matches_effects [OF this] show ?thesis by auto
qed

text \<open>An alias that names itself is followed for ever.\<close>

definition self_alias :: "unit gateway" where
  "self_alias g req =
     (case req of SlashExecRequest _ _ \<Rightarrow> (Inl ''unknown'', ())
      | CommandDispatchRequest name arg sid \<Rightarrow>
          (Inr (JObj [(''type'', JStr ''alias''), (''target'', JStr name)]), ()))"

theorem self_alias_never_returns:
  "execute_slash self_alias se sid ''/x'' g = None"
proof -
  have "parse_slash ''/x'' = (''x'', [])" by code_simp
  then have step: "slash_step self_alias se sid ''/x'' u = (Inr ''/x'', ())" for u
    by (simp add: slash_step_def self_alias_def parse_command_dispatch_def Let_def)
  have "alias_chain self_alias se sid c n c' \<Longrightarrow> fst c = ''/x'' \<Longrightarrow> fst c' = ''/x''" for n c c'
    by (induction rule: alias_chain.induct) (simp_all add: step)
  then show ?thesis
    using execute_slash_returns [of self_alias se sid "''/x''" g] step
    by (cases "execute_slash self_alias se sid ''/x'' g") fastforce+
qed

text \<open>A command whose argument spans two lines is reported as empty.\<close>

definition two_line_command :: string where
  "two_line_command = ''/learn one'' @ CHR 0x0A # ''two''"

theorem multi_line_argument_rejected:
  "parse_slash two_line_command = ([], [])"
  by code_simp

end
