(* ===== verification/PluginRegistry.thy ===== *)
theory PluginRegistry
  imports JsValue
begin

text \<open>
  The registries the dashboard plugins write to: \<open>web/src/plugins/registry.ts\<close> (a component and
  a load error per plugin), \<open>web/src/plugins/slots.ts\<close> (components stacked in named slots), and
  \<open>PluginPage.tsx\<close>, which shows a plugin's tab. A React component is an element of a type
  \<open>'c\<close>. Subscribers are the interface \<open>observed\<close>: a store whose handlers notify, and views
  that are refreshed only when notified.
\<close>

section \<open>Stores and their subscribers\<close>

text \<open>What a subscriber has last read, after a list of operations: it reads again exactly when it is
  notified.\<close>

primrec watch ::
  "('s \<Rightarrow> 'e \<Rightarrow> 's) \<Rightarrow> ('s \<Rightarrow> 'e \<Rightarrow> bool) \<Rightarrow> ('s \<Rightarrow> 'v) \<Rightarrow> 's \<Rightarrow> 'v \<Rightarrow> 'e list \<Rightarrow> 'v" where
  "watch step notifies view s seen [] = seen"
| "watch step notifies view s seen (e # es) =
     watch step notifies view (step s e) (if notifies s e then view (step s e) else seen) es"

locale observed =
  fixes step :: "'s \<Rightarrow> 'e \<Rightarrow> 's"
    and notifies :: "'s \<Rightarrow> 'e \<Rightarrow> bool"
    and view :: "'s \<Rightarrow> 'v"
  assumes silent: "\<not> notifies s e \<Longrightarrow> view (step s e) = view s"
begin

lemma seen_is_current: "watch step notifies view s (view s) es = view (foldl step s es)"
  by (induction es arbitrary: s) (simp_all add: silent, metis silent)

end

section \<open>The plugin registry\<close>

record 'c registry =
  regComponents :: "(string \<times> 'c) list"
  regErrors :: "(string \<times> string) list"

definition empty_registry :: "'c registry" where
  "empty_registry = \<lparr>regComponents = [], regErrors = []\<rparr>"

definition register_plugin :: "string \<Rightarrow> 'c \<Rightarrow> 'c registry \<Rightarrow> 'c registry" where
  "register_plugin name c r =
     r\<lparr>regErrors := obj_del name (regErrors r), regComponents := obj_set name c (regComponents r)\<rparr>"

definition get_plugin_component :: "'c registry \<Rightarrow> string \<Rightarrow> 'c option" where
  "get_plugin_component r name = map_of (regComponents r) name"

definition get_plugin_load_error :: "'c registry \<Rightarrow> string \<Rightarrow> string option" where
  "get_plugin_load_error r name = map_of (regErrors r) name"

definition set_plugin_load_error :: "string \<Rightarrow> string \<Rightarrow> 'c registry \<Rightarrow> 'c registry" where
  "set_plugin_load_error name message r = r\<lparr>regErrors := obj_set name message (regErrors r)\<rparr>"

definition get_registered_count :: "'c registry \<Rightarrow> nat" where
  "get_registered_count r = length (regComponents r)"

text \<open>The operations that touch the registry; all of them notify.\<close>

datatype 'c registry_op =
    RegisterPlugin string 'c
  | SetLoadError string string
  | NotifyRegistry

primrec registry_step :: "'c registry \<Rightarrow> 'c registry_op \<Rightarrow> 'c registry" where
  "registry_step r (RegisterPlugin name c) = register_plugin name c r"
| "registry_step r (SetLoadError name message) = set_plugin_load_error name message r"
| "registry_step r NotifyRegistry = r"

definition registry_notifies :: "'c registry \<Rightarrow> 'c registry_op \<Rightarrow> bool" where
  "registry_notifies r e = True"

text \<open>\<open>PluginPage\<close>: the component, else the error's text, else the spinner. An empty error text is no
  error. The two messages are the translations of the known codes.\<close>

datatype 'c plugin_view = ShowComponent 'c | ShowError string | ShowSpinner

definition format_plugin_error :: "string \<Rightarrow> string \<Rightarrow> string \<Rightarrow> string" where
  "format_plugin_error load_failed not_registered err =
     (if err = ''LOAD_FAILED'' then load_failed else if err = ''NO_REGISTER'' then not_registered else err)"

definition plugin_page :: "string \<Rightarrow> string \<Rightarrow> string \<Rightarrow> 'c registry \<Rightarrow> 'c plugin_view" where
  "plugin_page load_failed not_registered name r =
     (case get_plugin_component r name of
        Some c \<Rightarrow> ShowComponent c
      | None \<Rightarrow>
          (case get_plugin_load_error r name of
             None \<Rightarrow> ShowSpinner
           | Some e \<Rightarrow> if e = [] then ShowSpinner
               else ShowError (format_plugin_error load_failed not_registered e)))"

lemma registry_gets [simp]:
  "get_plugin_component empty_registry n = None"
  "get_plugin_load_error empty_registry n = None"
  "get_plugin_component (register_plugin m c r) n = (if n = m then Some c else get_plugin_component r n)"
  "get_plugin_load_error (register_plugin m c r) n = (if n = m then None else get_plugin_load_error r n)"
  "get_plugin_component (set_plugin_load_error m e r) n = get_plugin_component r n"
  "get_plugin_load_error (set_plugin_load_error m e r) n = (if n = m then Some e else get_plugin_load_error r n)"
  by (simp_all add: empty_registry_def register_plugin_def set_plugin_load_error_def
      get_plugin_component_def get_plugin_load_error_def)

text \<open>What a history of operations makes a plugin's page show: the last registration of the plugin
  wins over every error, earlier or later; without one, its last error shows.\<close>

definition registrations :: "string \<Rightarrow> 'c registry_op list \<Rightarrow> 'c list" where
  "registrations name es =
     List.map_filter (\<lambda>e. case e of RegisterPlugin n c \<Rightarrow> if n = name then Some c else None | _ \<Rightarrow> None) es"

definition load_errors :: "string \<Rightarrow> 'c registry_op list \<Rightarrow> string list" where
  "load_errors name es =
     List.map_filter (\<lambda>e. case e of SetLoadError n m \<Rightarrow> if n = name then Some m else None | _ \<Rightarrow> None) es"

lemma history_simps [simp]:
  "registrations n [] = []" "load_errors n [] = []"
  "registrations n (es @ [RegisterPlugin m c]) = registrations n es @ (if m = n then [c] else [])"
  "registrations n (es @ [SetLoadError m x]) = registrations n es"
  "registrations n (es @ [NotifyRegistry]) = registrations n es"
  "load_errors n (es @ [RegisterPlugin m c]) = load_errors n es"
  "load_errors n (es @ [SetLoadError m x]) = load_errors n es @ (if m = n then [x] else [])"
  "load_errors n (es @ [NotifyRegistry]) = load_errors n es"
  by (simp_all add: registrations_def load_errors_def List.map_filter_def)

lemma component_history:
  "get_plugin_component (foldl registry_step empty_registry es) n
     = (if registrations n es = [] then None else Some (last (registrations n es)))"
proof (induction es rule: rev_induct)
  case (snoc e es)
  then show ?case by (cases e) simp_all
qed simp

lemma error_history:
  "registrations n es = [] \<Longrightarrow> get_plugin_load_error (foldl registry_step empty_registry es) n
     = (if load_errors n es = [] then None else Some (last (load_errors n es)))"
proof (induction es rule: rev_induct)
  case (snoc e es)
  then show ?case by (cases e) (auto split: if_splits)
qed simp

interpretation plugin_store: observed registry_step registry_notifies "plugin_page lf nr name"
  by unfold_locales (simp add: registry_notifies_def)

text \<open>After any operations on the registry, a mounted plugin page shows what its history says:
  the component of the plugin's last registration, whatever errors were reported before or after it;
  without a registration the text of the last reported error, and the spinner when there is none.\<close>

theorem plugin_page_shows_history:
  "watch registry_step registry_notifies (plugin_page lf nr name) empty_registry
       (plugin_page lf nr name empty_registry) es =
     (if registrations name es \<noteq> [] then ShowComponent (last (registrations name es))
      else if load_errors name es = [] \<or> last (load_errors name es) = [] then ShowSpinner
      else ShowError (format_plugin_error lf nr (last (load_errors name es))))"
  by (simp add: plugin_store.seen_is_current plugin_page_def [of _ _ _ "foldl _ _ _"]
      component_history error_history)

section \<open>Slots\<close>

record 'c slot_entry =
  entryPlugin :: string
  entryComponent :: 'c

definition KNOWN_SLOT_NAMES :: "string list" where
  "KNOWN_SLOT_NAMES =
     [''backdrop'', ''header-left'', ''header-right'', ''header-banner'', ''sidebar'', ''pre-main'',
      ''post-main'', ''footer-left'', ''footer-right'', ''overlay'',
      ''sessions:top'', ''sessions:bottom'', ''analytics:top'', ''analytics:bottom'', ''logs:top'',
      ''logs:bottom'', ''cron:top'', ''cron:bottom'', ''skills:top'', ''skills:bottom'', ''plugins:top'',
      ''plugins:bottom'', ''config:top'', ''config:bottom'', ''env:top'', ''env:bottom'', ''docs:top'',
      ''docs:bottom'', ''chat:top'', ''chat:bottom'']"

type_synonym 'c slot_registry = "(string \<times> 'c slot_entry list) list"

definition get_slot_entries :: "'c slot_registry \<Rightarrow> string \<Rightarrow> 'c slot_entry list" where
  "get_slot_entries r slot = (case map_of r slot of None \<Rightarrow> [] | Some es \<Rightarrow> es)"

definition register_slot :: "string \<Rightarrow> string \<Rightarrow> 'c \<Rightarrow> 'c slot_registry \<Rightarrow> 'c slot_registry" where
  "register_slot plugin slot c r =
     obj_set slot (filter (\<lambda>e. entryPlugin e \<noteq> plugin) (get_slot_entries r slot)
       @ [\<lparr>entryPlugin = plugin, entryComponent = c\<rparr>]) r"

text \<open>One turn of the loop of \<open>unregisterPluginSlots\<close>: a slot with nothing left is deleted, a slot that
  changed is written in its place, and the others are left.\<close>

definition kept_slot :: "string \<Rightarrow> string \<times> 'c slot_entry list \<Rightarrow> 'c slot_registry" where
  "kept_slot plugin p =
     (let kept = filter (\<lambda>e. entryPlugin e \<noteq> plugin) (snd p)
      in if length kept \<noteq> length (snd p) then (if kept = [] then [] else [(fst p, kept)]) else [p])"

definition slot_changed :: "string \<Rightarrow> string \<times> 'c slot_entry list \<Rightarrow> bool" where
  "slot_changed plugin p \<longleftrightarrow> length (filter (\<lambda>e. entryPlugin e \<noteq> plugin) (snd p)) \<noteq> length (snd p)"

definition unregister_plugin_slots :: "string \<Rightarrow> 'c slot_registry \<Rightarrow> 'c slot_registry" where
  "unregister_plugin_slots plugin r = concat (map (kept_slot plugin) r)"

datatype 'c slot_op = RegisterSlot string string 'c | UnregisterSlots string

primrec slot_step :: "'c slot_registry \<Rightarrow> 'c slot_op \<Rightarrow> 'c slot_registry" where
  "slot_step r (RegisterSlot plugin slot c) = register_slot plugin slot c r"
| "slot_step r (UnregisterSlots plugin) = unregister_plugin_slots plugin r"

primrec slot_notifies :: "'c slot_registry \<Rightarrow> 'c slot_op \<Rightarrow> bool" where
  "slot_notifies r (RegisterSlot plugin slot c) = True"
| "slot_notifies r (UnregisterSlots plugin) = list_ex (slot_changed plugin) r"

text \<open>\<open>PluginSlot\<close> renders the entries it has read, each keyed by its plugin, or its fallback.\<close>

datatype ('c, 'n) slot_view = SlotEntries "(string \<times> 'c) list" | SlotFallback 'n | SlotNothing

definition plugin_slot :: "'n option \<Rightarrow> 'c slot_entry list \<Rightarrow> ('c, 'n) slot_view" where
  "plugin_slot fallback es =
     (if es = [] then (case fallback of None \<Rightarrow> SlotNothing | Some n \<Rightarrow> SlotFallback n)
      else SlotEntries (map (\<lambda>e. (entryPlugin e, entryComponent e)) es))"

subsection \<open>Lemmas\<close>

lemma kept_slot_keys: "fst ` set (kept_slot plugin p) \<subseteq> {fst p}"
  by (auto simp: kept_slot_def Let_def)

lemma unregister_keys: "fst ` set (unregister_plugin_slots plugin r) \<subseteq> fst ` set r"
proof (induction r)
  case (Cons p r)
  then show ?case using kept_slot_keys [of plugin p] by (auto simp: unregister_plugin_slots_def image_Un)
qed (simp add: unregister_plugin_slots_def)

lemma get_register_slot [simp]:
  "get_slot_entries (register_slot plugin slot c r) s =
     (if s = slot then filter (\<lambda>e. entryPlugin e \<noteq> plugin) (get_slot_entries r slot)
        @ [\<lparr>entryPlugin = plugin, entryComponent = c\<rparr>] else get_slot_entries r s)"
  by (simp add: register_slot_def get_slot_entries_def)

lemma get_unregister [simp]:
  "distinct (map fst r) \<Longrightarrow> get_slot_entries (unregister_plugin_slots plugin r) s
     = filter (\<lambda>e. entryPlugin e \<noteq> plugin) (get_slot_entries r s)"
proof (induction r)
  case (Cons p r)
  obtain a es where p: "p = (a, es)" by (cases p)
  have none: "map_of (unregister_plugin_slots plugin r) a = None"
    using unregister_keys [of plugin r] Cons.prems p by (auto simp: map_of_eq_None_iff)
  have full: "filter (\<lambda>e. entryPlugin e \<noteq> plugin) es = es"
    if "length (filter (\<lambda>e. entryPlugin e \<noteq> plugin) es) = length es"
    using that by (metis length_filter_less order_less_irrefl filter_id_conv)
  have split: "unregister_plugin_slots plugin (p # r) = kept_slot plugin p @ unregister_plugin_slots plugin r"
    by (simp add: unregister_plugin_slots_def)
  show ?case
  proof (cases "s = a")
    case True
    then show ?thesis using none full by (auto simp: split [unfolded p] p kept_slot_def Let_def get_slot_entries_def)
  next
    case False
    then have "map_of (kept_slot plugin p @ unregister_plugin_slots plugin r) s
        = map_of (unregister_plugin_slots plugin r) s"
      using kept_slot_keys [of plugin p] p
      by (auto simp: map_add_def split: option.split dest!: map_of_SomeD)
    with False Cons show ?thesis by (simp add: split [unfolded p] p get_slot_entries_def)
  qed
qed (simp add: unregister_plugin_slots_def get_slot_entries_def)

lemma distinct_unregister: "distinct (map fst r) \<Longrightarrow> distinct (map fst (unregister_plugin_slots plugin r))"
proof (induction r)
  case (Cons p r)
  have "distinct (map fst (kept_slot plugin p @ unregister_plugin_slots plugin r))"
    using Cons unregister_keys [of plugin r] by (auto simp: kept_slot_def Let_def)
  then show ?case by (simp add: unregister_plugin_slots_def)
qed (simp add: unregister_plugin_slots_def)

definition slots_wf :: "'c slot_registry \<Rightarrow> bool" where
  "slots_wf r \<longleftrightarrow> distinct (map fst r)"

interpretation slot_machine: machine "[]" slot_step "\<lambda>_ _. True" slots_wf
proof
  show "slots_wf (slot_step s e)" if "slots_wf s" for s :: "'c slot_registry" and e
    using that by (cases e) (simp_all add: slots_wf_def register_slot_def distinct_unregister)
qed (simp add: slots_wf_def)

lemma unchanged_unregister: "\<not> list_ex (slot_changed plugin) r \<Longrightarrow> unregister_plugin_slots plugin r = r"
  by (induction r) (simp_all add: unregister_plugin_slots_def kept_slot_def slot_changed_def Let_def)

interpretation slot_store: observed slot_step slot_notifies "\<lambda>r. plugin_slot fallback (get_slot_entries r slot)"
proof
  show "plugin_slot fallback (get_slot_entries (slot_step s e) slot) = plugin_slot fallback (get_slot_entries s slot)"
    if "\<not> slot_notifies s e" for s e
    using that by (cases e) (simp_all add: unchanged_unregister)
qed

text \<open>The registrations of a history that are still in force: no later operation registers the same
  plugin in the slot or removes the plugin.\<close>

fun supersedes :: "string \<Rightarrow> string \<Rightarrow> 'c slot_op \<Rightarrow> bool" where
  "supersedes plugin slot (RegisterSlot p s c) = (p = plugin \<and> s = slot)"
| "supersedes plugin slot (UnregisterSlots p) = (p = plugin)"

fun in_force :: "string \<Rightarrow> 'c slot_op list \<Rightarrow> (string \<times> 'c) list" where
  "in_force slot [] = []"
| "in_force slot (RegisterSlot p s c # es) =
     (if s = slot \<and> \<not> list_ex (supersedes p slot) es then [(p, c)] else []) @ in_force slot es"
| "in_force slot (UnregisterSlots p # es) = in_force slot es"

lemma in_force_snoc:
  "in_force slot (es @ [e]) = filter (\<lambda>x. \<not> supersedes (fst x) slot e) (in_force slot es) @ in_force slot [e]"
  by (induction slot es rule: in_force.induct) auto

lemma entries_in_force:
  "map (\<lambda>e. (entryPlugin e, entryComponent e)) (get_slot_entries (foldl slot_step [] es) slot) = in_force slot es"
proof (induction es rule: rev_induct)
  case (snoc e es)
  let ?r = "foldl slot_step [] es"
  have wf: "distinct (map fst ?r)" using slot_machine.run_inv [of es] by (simp add: slots_wf_def)
  have flt: "map (\<lambda>e. (entryPlugin e, entryComponent e)) (filter (\<lambda>e. entryPlugin e \<noteq> p) xs)
      = filter (\<lambda>x. fst x \<noteq> p) (map (\<lambda>e. (entryPlugin e, entryComponent e)) xs)" for p and xs :: "'a slot_entry list"
    by (induction xs) simp_all
  show ?case
  proof (cases e)
    case (RegisterSlot p s c)
    then show ?thesis using snoc by (auto simp: in_force_snoc flt intro: filter_cong)
  next
    case (UnregisterSlots p)
    then show ?thesis using snoc wf by (auto simp: in_force_snoc flt intro: filter_cong)
  qed
qed (simp add: get_slot_entries_def)

lemma in_force_later: "(p, c) \<in> set (in_force slot es) \<Longrightarrow> \<exists>e \<in> set es. supersedes p slot e"
  by (induction slot es rule: in_force.induct) (auto split: if_splits)

lemma in_force_distinct: "distinct (map fst (in_force slot es))"
proof (induction slot es rule: in_force.induct)
  case (2 slot p s c es)
  then show ?case using in_force_later [of p _ slot es] by (fastforce simp: list_ex_iff)
qed simp_all

text \<open>Claim C12. A mounted slot always shows exactly the registrations still in force, in the order in which
  they were made, each under a key of its own: after any registrations and removals, the rendered
  entries are those no later operation superseded, their plugin names are distinct, and the fallback
  shows exactly when there are none.\<close>

theorem slot_shows_what_is_in_force:
  "watch slot_step slot_notifies (\<lambda>r. plugin_slot fallback (get_slot_entries r slot)) []
       (plugin_slot fallback (get_slot_entries [] slot)) es =
     (if in_force slot es = [] then (case fallback of None \<Rightarrow> SlotNothing | Some n \<Rightarrow> SlotFallback n)
      else SlotEntries (in_force slot es))
   \<and> distinct (map fst (in_force slot es))"
proof -
  have "get_slot_entries (foldl slot_step [] es) slot = [] \<longleftrightarrow> in_force slot es = []"
    using entries_in_force [of es slot] by (metis map_is_Nil_conv)
  then show ?thesis
    using entries_in_force [of es slot] in_force_distinct [of slot es]
    by (simp add: slot_store.seen_is_current plugin_slot_def [of _ "get_slot_entries (foldl _ _ _) _"])
qed

end
