(* ===== verification/PluginLoader.thy ===== *)
theory PluginLoader
  imports PluginRegistry
begin

text \<open>
  Discovery and loading of the dashboard plugins, \<open>web/src/plugins/usePlugins.ts\<close>: the hook fetches
  the manifests, injects a style sheet link and a script for each, and resolves the manifests against
  the registry of \<open>PluginRegistry\<close>. A state update and the effects React runs after it are one step;
  the events are what comes from outside: answers of the server, scripts that load or fail, the
  microtask queued at a load, registrations by plugin code and the timeout.
\<close>

section \<open>Manifests\<close>

record plugin_tab =
  tabPath :: string
  tabPosition :: "string option"
  tabOverride :: "string option"
  tabHidden :: bool

record manifest =
  manName :: string
  manLabel :: string
  manDescription :: string
  manIcon :: string
  manVersion :: string
  manTab :: plugin_tab
  manSlots :: "string list option"
  manEntry :: string
  manCss :: "string option"
  manHasApi :: bool
  manIntegrity :: js
  manSource :: string

record script =
  scriptId :: nat
  scriptPlugin :: string
  scriptSrc :: string
  scriptIntegrity :: "string option"

text \<open>The hook's state, the elements it has put into the document, the registry, and what is still to
  come: fetches of the manifests, scripts that have neither loaded nor failed, queued microtasks and
  the armed timeout.\<close>

record 'c hub =
  hubManifests :: "manifest list"
  hubPlugins :: "(manifest \<times> 'c) list"
  hubLoading :: bool
  hubLoaded :: "string list"
  hubLinks :: "string list"
  hubScripts :: "script list"
  hubInjected :: "nat list"
  hubNextId :: nat
  hubTimer :: bool
  hubFetches :: nat
  hubPending :: "script list"
  hubChecks :: "script list"
  hubRegistry :: "'c registry"

section \<open>Effects\<close>

definition plugin_url :: "string \<Rightarrow> string \<Rightarrow> string \<Rightarrow> string" where
  "plugin_url base name path = base @ ''/dashboard-plugins/'' @ name @ CHR ''/'' # path"

definition script_src :: "bool \<Rightarrow> string \<Rightarrow> manifest \<Rightarrow> nat \<Rightarrow> string" where
  "script_src dev base m now =
     plugin_url base (manName m) (manEntry m) @ (if dev then ''?hermes_dv='' @ show_nat now else [])"

definition integrity_of :: "manifest \<Rightarrow> string option" where
  "integrity_of m = (case manIntegrity m of JStr s \<Rightarrow> if s = [] then None else Some s | _ \<Rightarrow> None)"

definition inject_css :: "string \<Rightarrow> manifest \<Rightarrow> 'c hub \<Rightarrow> 'c hub" where
  "inject_css base m h =
     (case manCss m of
        None \<Rightarrow> h
      | Some css \<Rightarrow>
          (let url = plugin_url base (manName m) css
           in if css = [] \<or> url \<in> set (hubLinks h) then h else h\<lparr>hubLinks := hubLinks h @ [url]\<rparr>))"

definition append_script :: "script \<Rightarrow> 'c hub \<Rightarrow> 'c hub" where
  "append_script s h =
     h\<lparr>hubScripts := hubScripts h @ [s], hubInjected := hubInjected h @ [scriptId s],
       hubNextId := Suc (hubNextId h), hubPending := hubPending h @ [s]\<rparr>"

text \<open>One turn of the loop; \<open>now\<close> is the clock that a development build puts into the address.\<close>

definition load_manifest :: "bool \<Rightarrow> string \<Rightarrow> manifest \<times> nat \<Rightarrow> 'c hub \<Rightarrow> 'c hub" where
  "load_manifest dev base mn h0 =
     (let m = fst mn; h = inject_css base m h0; url = plugin_url base (manName m) (manEntry m)
      in if \<not> dev \<and> url \<in> set (hubLoaded h) then h
         else append_script
                \<lparr>scriptId = hubNextId h, scriptPlugin = manName m, scriptSrc = script_src dev base m (snd mn),
                 scriptIntegrity = integrity_of m\<rparr>
                (if dev then h else h\<lparr>hubLoaded := hubLoaded h @ [url]\<rparr>))"

definition cleanup_load :: "bool \<Rightarrow> 'c hub \<Rightarrow> 'c hub" where
  "cleanup_load dev h =
     h\<lparr>hubTimer := False, hubInjected := [],
       hubScripts := (if dev then filter (\<lambda>s. scriptId s \<notin> set (hubInjected h)) (hubScripts h)
                      else hubScripts h)\<rparr>"

definition load_effect :: "bool \<Rightarrow> string \<Rightarrow> (manifest \<times> nat) list \<Rightarrow> 'c hub \<Rightarrow> 'c hub" where
  "load_effect dev base ms h =
     (if ms = [] then h else (fold (load_manifest dev base) ms h)\<lparr>hubTimer := True\<rparr>)"

definition resolve_manifests :: "'c registry \<Rightarrow> manifest list \<Rightarrow> (manifest \<times> 'c) list" where
  "resolve_manifests r ms =
     List.map_filter (\<lambda>m. map_option (Pair m) (get_plugin_component r (manName m))) ms"

definition resolve_plugins :: "'c hub \<Rightarrow> 'c hub" where
  "resolve_plugins h =
     (let resolved = resolve_manifests (hubRegistry h) (hubManifests h)
      in h\<lparr>hubPlugins := resolved,
           hubLoading := (hubLoading h
             \<and> \<not> (length resolved = length (hubManifests h) \<and> hubManifests h \<noteq> []))\<rparr>)"

section \<open>Events\<close>

datatype 'c hub_event =
    ManifestsArrived "(manifest \<times> nat) list"
  | ManifestsFailed
  | ScriptLoaded script
  | CheckRegistered script
  | ScriptFailed script
  | PluginRegisters string 'c
  | LoadingTimeout

definition manifests_arrived :: "bool \<Rightarrow> string \<Rightarrow> (manifest \<times> nat) list \<Rightarrow> 'c hub \<Rightarrow> 'c hub" where
  "manifests_arrived dev base ms h =
     resolve_plugins (load_effect dev base ms (cleanup_load dev
       (h\<lparr>hubFetches := hubFetches h - 1, hubManifests := map fst ms,
          hubLoading := (hubLoading h \<and> ms \<noteq> [])\<rparr>)))"

definition on_registry :: "('c registry \<Rightarrow> 'c registry) \<Rightarrow> 'c hub \<Rightarrow> 'c hub" where
  "on_registry f h = resolve_plugins (h\<lparr>hubRegistry := f (hubRegistry h)\<rparr>)"

fun hub_step :: "bool \<Rightarrow> string \<Rightarrow> 'c hub \<Rightarrow> 'c hub_event \<Rightarrow> 'c hub" where
  "hub_step dev base h (ManifestsArrived ms) = manifests_arrived dev base ms h"
| "hub_step dev base h ManifestsFailed = h\<lparr>hubFetches := hubFetches h - 1, hubLoading := False\<rparr>"
| "hub_step dev base h (ScriptLoaded s) =
     resolve_plugins (h\<lparr>hubPending := remove1 s (hubPending h), hubChecks := hubChecks h @ [s]\<rparr>)"
| "hub_step dev base h (CheckRegistered s) =
     (let h' = h\<lparr>hubChecks := remove1 s (hubChecks h)\<rparr>
      in if get_plugin_component (hubRegistry h) (scriptPlugin s) \<noteq> None then h'
         else on_registry (set_plugin_load_error (scriptPlugin s) ''NO_REGISTER'') h')"
| "hub_step dev base h (ScriptFailed s) =
     on_registry (set_plugin_load_error (scriptPlugin s) ''LOAD_FAILED'')
       (h\<lparr>hubPending := remove1 s (hubPending h)\<rparr>)"
| "hub_step dev base h (PluginRegisters name c) = on_registry (register_plugin name c) h"
| "hub_step dev base h LoadingTimeout = h\<lparr>hubTimer := False, hubLoading := False\<rparr>"

definition hub_enabled :: "'c hub \<Rightarrow> 'c hub_event \<Rightarrow> bool" where
  "hub_enabled h e =
     (case e of
        ManifestsArrived ms \<Rightarrow> hubFetches h > 0
      | ManifestsFailed \<Rightarrow> hubFetches h > 0
      | ScriptLoaded s \<Rightarrow> s \<in> set (hubPending h)
      | CheckRegistered s \<Rightarrow> s \<in> set (hubChecks h)
      | ScriptFailed s \<Rightarrow> s \<in> set (hubPending h)
      | PluginRegisters name c \<Rightarrow> True
      | LoadingTimeout \<Rightarrow> hubTimer h)"

text \<open>After mounting: the effects have run once without manifests. \<open>mounts\<close> is the number of times React
  ran the mount effect, one or, in a development build's strict mode, two.\<close>

definition hub_start :: "nat \<Rightarrow> string list \<Rightarrow> 'c hub" where
  "hub_start mounts links =
     \<lparr>hubManifests = [], hubPlugins = [], hubLoading = True, hubLoaded = [], hubLinks = links,
      hubScripts = [], hubInjected = [], hubNextId = 0, hubTimer = False, hubFetches = mounts,
      hubPending = [], hubChecks = [], hubRegistry = empty_registry\<rparr>"

section \<open>The invariant\<close>

text \<open>A plugin whose script has been injected has registered, shows an error, or is still being waited
  for.\<close>

definition accounted :: "'c hub \<Rightarrow> string \<Rightarrow> bool" where
  "accounted h name \<longleftrightarrow>
     get_plugin_component (hubRegistry h) name \<noteq> None
     \<or> (\<exists>e. get_plugin_load_error (hubRegistry h) name = Some e \<and> e \<noteq> [])
     \<or> (\<exists>s \<in> set (hubPending h) \<union> set (hubChecks h). scriptPlugin s = name)"

definition scripts_inv :: "bool \<Rightarrow> string \<Rightarrow> 'c hub \<Rightarrow> bool" where
  "scripts_inv dev base h \<longleftrightarrow>
     distinct (hubLinks h) \<and> distinct (hubLoaded h)
     \<and> (\<not> dev \<longrightarrow> map scriptSrc (hubScripts h) = hubLoaded h)
     \<and> (\<forall>s \<in> set (hubScripts h). accounted h (scriptPlugin s))
     \<and> (dev \<longrightarrow> set (map scriptId (hubScripts h)) \<subseteq> set (hubInjected h))"

definition hub_inv :: "bool \<Rightarrow> string \<Rightarrow> 'c hub \<Rightarrow> bool" where
  "hub_inv dev base h \<longleftrightarrow>
     scripts_inv dev base h
     \<and> hubPlugins h = resolve_manifests (hubRegistry h) (hubManifests h)
     \<and> (hubLoading h \<longrightarrow> hubFetches h > 0 \<or> hubTimer h)
     \<and> (hubLoading h \<and> hubManifests h \<noteq> [] \<longrightarrow>
          hubTimer h \<and> length (hubPlugins h) < length (hubManifests h))"

lemma length_resolve: "length (resolve_manifests r ms) \<le> length ms"
  by (simp add: resolve_manifests_def List.map_filter_def)

lemma resolve_Nil [simp]: "resolve_manifests r [] = []"
  by (simp add: resolve_manifests_def List.map_filter_def)

text \<open>What the loop leaves alone, and what it keeps.\<close>

lemma inject_css_frame [simp]:
  "hubManifests (inject_css base m h) = hubManifests h" "hubPlugins (inject_css base m h) = hubPlugins h"
  "hubLoading (inject_css base m h) = hubLoading h" "hubFetches (inject_css base m h) = hubFetches h"
  "hubRegistry (inject_css base m h) = hubRegistry h" "hubLoaded (inject_css base m h) = hubLoaded h"
  "hubScripts (inject_css base m h) = hubScripts h" "hubPending (inject_css base m h) = hubPending h"
  "hubChecks (inject_css base m h) = hubChecks h" "hubInjected (inject_css base m h) = hubInjected h"
  by (simp_all add: inject_css_def Let_def split: option.split)

lemma load_manifest_frame [simp]:
  "hubManifests (load_manifest dev base mn h) = hubManifests h"
  "hubLoading (load_manifest dev base mn h) = hubLoading h" "hubFetches (load_manifest dev base mn h) = hubFetches h"
  "hubRegistry (load_manifest dev base mn h) = hubRegistry h" "hubChecks (load_manifest dev base mn h) = hubChecks h"
  by (simp_all add: load_manifest_def append_script_def Let_def)

lemma scripts_inject_css: "scripts_inv dev base h \<Longrightarrow> scripts_inv dev base (inject_css base m h)"
  by (simp add: scripts_inv_def accounted_def) (simp add: inject_css_def Let_def split: option.split)

lemma scripts_load_manifest:
  "scripts_inv dev base h \<Longrightarrow> scripts_inv dev base (load_manifest dev base mn h)"
  using scripts_inject_css [of dev base h "fst mn"]
  by (auto simp: load_manifest_def append_script_def Let_def scripts_inv_def accounted_def script_src_def)

lemma load_all:
  "scripts_inv dev base h \<Longrightarrow> scripts_inv dev base (fold (load_manifest dev base) ms h)
     \<and> hubManifests (fold (load_manifest dev base) ms h) = hubManifests h
     \<and> hubLoading (fold (load_manifest dev base) ms h) = hubLoading h
     \<and> hubRegistry (fold (load_manifest dev base) ms h) = hubRegistry h"
  by (induction ms arbitrary: h) (simp_all add: scripts_load_manifest)

lemma resolve_plugins_frame [simp]:
  "hubManifests (resolve_plugins h) = hubManifests h" "hubRegistry (resolve_plugins h) = hubRegistry h"
  "hubTimer (resolve_plugins h) = hubTimer h" "hubFetches (resolve_plugins h) = hubFetches h"
  "hubScripts (resolve_plugins h) = hubScripts h" "hubLoaded (resolve_plugins h) = hubLoaded h"
  "hubLinks (resolve_plugins h) = hubLinks h" "hubPending (resolve_plugins h) = hubPending h"
  "hubChecks (resolve_plugins h) = hubChecks h" "hubInjected (resolve_plugins h) = hubInjected h"
  "hubPlugins (resolve_plugins h) = resolve_manifests (hubRegistry h) (hubManifests h)"
  by (simp_all add: resolve_plugins_def Let_def)

lemma resolve_loading:
  "hubLoading (resolve_plugins h) \<longleftrightarrow>
     hubLoading h \<and> (hubManifests h \<noteq> [] \<longrightarrow> length (hubPlugins (resolve_plugins h)) < length (hubManifests h))"
  using length_resolve [of "hubRegistry h" "hubManifests h"]
  by (auto simp: resolve_plugins_def Let_def)

lemma scripts_resolve [simp]: "scripts_inv dev base (resolve_plugins h) = scripts_inv dev base h"
  by (simp add: scripts_inv_def accounted_def)

lemma scripts_timer [simp]: "scripts_inv dev base (h\<lparr>hubTimer := b\<rparr>) = scripts_inv dev base h"
  by (simp add: scripts_inv_def accounted_def)

text \<open>Settling a script keeps every plugin accounted for.\<close>

lemma in_remove1: "t \<in> set xs \<Longrightarrow> t \<noteq> s \<Longrightarrow> t \<in> set (remove1 s xs)"
  by (simp add: in_set_remove1)

lemma accounted_loaded:
  "accounted h name \<Longrightarrow> accounted (h\<lparr>hubPending := remove1 s (hubPending h), hubChecks := hubChecks h @ [s]\<rparr>) name"
proof (simp add: accounted_def, elim disjE)
qed (use in_remove1 [of _ "hubPending h" s] in blast)+

lemma accounted_error:
  assumes "accounted h name" and "e \<noteq> []"
    and "\<And>t. t \<in> set (hubPending h) \<union> set (hubChecks h) \<Longrightarrow> t \<noteq> s \<Longrightarrow>
           t \<in> set (hubPending h') \<union> set (hubChecks h')"
    and "hubRegistry h' = set_plugin_load_error (scriptPlugin s) e (hubRegistry h)"
  shows "accounted h' name"
proof (cases "name = scriptPlugin s")
  case True
  then show ?thesis using assms(2,4) by (simp add: accounted_def)
next
  case False
  with assms(1,3) show ?thesis
    by (simp add: accounted_def assms(4)) blast
qed

lemma accounted_checked:
  assumes "accounted h name" and "get_plugin_component (hubRegistry h) (scriptPlugin s) \<noteq> None"
  shows "accounted (h\<lparr>hubChecks := remove1 s (hubChecks h)\<rparr>) name"
proof (cases "name = scriptPlugin s")
  case False
  with assms(1) show ?thesis
    by (simp add: accounted_def) (use in_remove1 [of _ "hubChecks h" s] in blast)
qed (use assms(2) in \<open>simp add: accounted_def\<close>)

lemma accounted_registered:
  "accounted h name \<Longrightarrow> accounted (h\<lparr>hubRegistry := register_plugin p c (hubRegistry h)\<rparr>) name"
  by (auto simp: accounted_def)

lemma scripts_accounted:
  assumes "scripts_inv dev base h" and "\<And>name. accounted h name \<Longrightarrow> accounted h' name"
    and "hubScripts h' = hubScripts h" "hubLoaded h' = hubLoaded h" "hubLinks h' = hubLinks h"
    "hubInjected h' = hubInjected h"
  shows "scripts_inv dev base h'"
  using assms by (simp add: scripts_inv_def)

lemma arrived_inv:
  assumes inv: "hub_inv dev base h"
  shows "hub_inv dev base (manifests_arrived dev base ms h)"
proof -
  let ?h = "cleanup_load dev (h\<lparr>hubFetches := hubFetches h - 1, hubManifests := map fst ms,
      hubLoading := (hubLoading h \<and> ms \<noteq> [])\<rparr>)"
  have "scripts_inv dev base ?h"
    using inv by (auto simp: hub_inv_def scripts_inv_def accounted_def cleanup_load_def)
  note all = load_all [OF this]
  show ?thesis
  proof (cases "ms = []")
    case True
    then show ?thesis using all [of "[]"]
      by (simp add: hub_inv_def manifests_arrived_def load_effect_def resolve_loading cleanup_load_def)
  next
    case False
    then show ?thesis using all [of ms]
      by (simp add: hub_inv_def manifests_arrived_def load_effect_def resolve_loading)
  qed
qed

text \<open>Every other handler changes the registry, the waiting lists or the loading flag only.\<close>

lemma hub_inv_settled:
  assumes "hub_inv dev base h" and "scripts_inv dev base h'"
    and "hubManifests h' = hubManifests h" "hubScripts h' = hubScripts h"
    and "hubTimer h' = hubTimer h" "hubFetches h' = hubFetches h" "hubLoading h' \<longrightarrow> hubLoading h"
  shows "hub_inv dev base (resolve_plugins h')"
  using assms by (auto simp: hub_inv_def resolve_loading)

lemma hub_step_inv:
  assumes inv: "hub_inv dev base h" and en: "hub_enabled h e"
  shows "hub_inv dev base (hub_step dev base h e)"
proof (cases e)
  case (ManifestsArrived ms)
  then show ?thesis using inv en by (simp add: arrived_inv hub_enabled_def)
next
  case (ScriptLoaded s)
  have scripts: "scripts_inv dev base h" using inv by (simp add: hub_inv_def)
  show ?thesis using ScriptLoaded
    by (auto intro!: hub_inv_settled [OF inv] scripts_accounted [OF scripts] accounted_loaded)
next
  case (CheckRegistered s)
  have scripts: "scripts_inv dev base h" using inv by (simp add: hub_inv_def)
  show ?thesis
  proof (cases "get_plugin_component (hubRegistry h) (scriptPlugin s) = None")
    case True
    then show ?thesis using CheckRegistered
      by (auto simp: on_registry_def Let_def in_remove1
          intro!: hub_inv_settled [OF inv] scripts_accounted [OF scripts]
            accounted_error [of h _ "''NO_REGISTER''" s])
  next
    case False
    have "scripts_inv dev base (h\<lparr>hubChecks := remove1 s (hubChecks h)\<rparr>)"
      using False by (auto intro!: scripts_accounted [OF scripts] accounted_checked)
    then show ?thesis using CheckRegistered False inv by (auto simp: hub_inv_def Let_def)
  qed
next
  case (ScriptFailed s)
  have scripts: "scripts_inv dev base h" using inv by (simp add: hub_inv_def)
  show ?thesis using ScriptFailed
    by (auto simp: on_registry_def in_remove1
        intro!: hub_inv_settled [OF inv] scripts_accounted [OF scripts]
          accounted_error [of h _ "''LOAD_FAILED''" s])
next
  case (PluginRegisters name c)
  have scripts: "scripts_inv dev base h" using inv by (simp add: hub_inv_def)
  show ?thesis using PluginRegisters
    by (auto simp: on_registry_def
        intro!: hub_inv_settled [OF inv] scripts_accounted [OF scripts] accounted_registered)
next
  case ManifestsFailed
  then show ?thesis using inv by (simp add: hub_inv_def scripts_inv_def accounted_def)
next
  case LoadingTimeout
  then show ?thesis using inv by (simp add: hub_inv_def scripts_inv_def accounted_def)
qed

interpretation hub: machine "hub_start (Suc n) []" "hub_step dev base" hub_enabled "hub_inv dev base"
  by unfold_locales
    (simp_all add: hub_step_inv, simp add: hub_inv_def scripts_inv_def hub_start_def)

section \<open>Which plugin a script belongs to\<close>

text \<open>The manifests a run has received, and the address their bundle is loaded from.\<close>

definition arrived_manifests :: "'c hub_event list \<Rightarrow> manifest list" where
  "arrived_manifests es = concat (map (\<lambda>e. case e of ManifestsArrived ms \<Rightarrow> map fst ms | _ \<Rightarrow> []) es)"

abbreviation bundle_url :: "string \<Rightarrow> manifest \<Rightarrow> string" where
  "bundle_url base m \<equiv> plugin_url base (manName m) (manEntry m)"

text \<open>In production an address is loaded once, for the first manifest that has it; a later manifest of
  another plugin with the same address is skipped. So a listed plugin has its address loaded, and every
  script was injected for a manifest with its address.\<close>

definition manifests_among :: "manifest set \<Rightarrow> 'c hub_event \<Rightarrow> bool" where
  "manifests_among A e \<longleftrightarrow> (case e of ManifestsArrived ms \<Rightarrow> fst ` set ms \<subseteq> A | _ \<Rightarrow> True)"

definition owned_scripts :: "manifest set \<Rightarrow> bool \<Rightarrow> string \<Rightarrow> 'c hub \<Rightarrow> bool" where
  "owned_scripts A dev base h \<longleftrightarrow>
     (\<not> dev \<longrightarrow> (\<forall>s \<in> set (hubScripts h). \<exists>m \<in> A. scriptSrc s = bundle_url base m \<and> scriptPlugin s = manName m))"

definition loaded_for :: "bool \<Rightarrow> string \<Rightarrow> 'c hub \<Rightarrow> manifest \<Rightarrow> bool" where
  "loaded_for dev base h m \<longleftrightarrow>
     (if dev then \<exists>s \<in> set (hubScripts h). scriptPlugin s = manName m else bundle_url base m \<in> set (hubLoaded h))"

definition owned_inv :: "manifest set \<Rightarrow> bool \<Rightarrow> string \<Rightarrow> 'c hub \<Rightarrow> bool" where
  "owned_inv A dev base h \<longleftrightarrow>
     hub_inv dev base h \<and> owned_scripts A dev base h \<and> (\<forall>m \<in> set (hubManifests h). loaded_for dev base h m)"

lemma owned_load:
  assumes "owned_scripts A dev base h" "fst mn \<in> A"
  shows "owned_scripts A dev base (load_manifest dev base mn h)"
  using assms by (auto simp: owned_scripts_def load_manifest_def append_script_def script_src_def Let_def)

lemma loaded_load: "loaded_for dev base (load_manifest dev base mn h) (fst mn)"
  by (auto simp: loaded_for_def load_manifest_def append_script_def Let_def)

lemma loaded_stays: "loaded_for dev base h m \<Longrightarrow> loaded_for dev base (load_manifest dev base mn h) m"
  by (auto simp: loaded_for_def load_manifest_def append_script_def Let_def)

lemma load_all_manifests: "hubManifests (fold (load_manifest dev base) ms h) = hubManifests h"
  by (induction ms arbitrary: h) simp_all

lemma owned_load_all:
  "owned_scripts A dev base h \<Longrightarrow> fst ` set ms \<subseteq> A \<Longrightarrow>
     owned_scripts A dev base (fold (load_manifest dev base) ms h)
     \<and> (\<forall>m. loaded_for dev base h m \<or> m \<in> fst ` set ms \<longrightarrow> loaded_for dev base (fold (load_manifest dev base) ms h) m)"
proof (induction ms arbitrary: h)
  case (Cons mn ms)
  then show ?case
    using Cons.IH [OF owned_load [OF Cons.prems(1), of mn]] loaded_load [of dev base mn h] loaded_stays [of dev base h _ mn]
    by auto
qed simp

lemma owned_frame:
  assumes "hubScripts h' = hubScripts h" "hubLoaded h' = hubLoaded h"
  shows "owned_scripts A dev base h' = owned_scripts A dev base h" "loaded_for dev base h' m = loaded_for dev base h m"
  using assms by (simp_all add: owned_scripts_def loaded_for_def)

lemma owned_step:
  assumes inv: "owned_inv A dev base h" and en: "hub_enabled h e" "manifests_among A e"
  shows "owned_inv A dev base (hub_step dev base h e)"
proof (cases "\<exists>ms. e = ManifestsArrived ms")
  case True
  then obtain ms where e: "e = ManifestsArrived ms" by blast
  let ?h = "cleanup_load dev (h\<lparr>hubFetches := hubFetches h - 1, hubManifests := map fst ms,
      hubLoading := (hubLoading h \<and> ms \<noteq> [])\<rparr>)"
  let ?f = "fold (load_manifest dev base) ms ?h"
  have "owned_scripts A dev base ?h" using inv by (auto simp: owned_inv_def owned_scripts_def cleanup_load_def)
  from owned_load_all [OF this, of ms]
  have f: "owned_scripts A dev base ?f" "\<forall>m \<in> fst ` set ms. loaded_for dev base ?f m"
    using en(2) by (auto simp: e manifests_among_def)
  have s: "hubScripts (hub_step dev base h e) = hubScripts ?f" "hubLoaded (hub_step dev base h e) = hubLoaded ?f"
    by (simp_all add: e manifests_arrived_def load_effect_def)
  have "hub_inv dev base h" using inv by (simp add: owned_inv_def)
  from hub.step_inv [OF this en(1)] have hub: "hub_inv dev base (hub_step dev base h e)" .
  have "hubManifests (hub_step dev base h e) = map fst ms"
    by (simp add: e manifests_arrived_def load_effect_def load_all_manifests cleanup_load_def)
  with hub f s show ?thesis by (simp add: owned_inv_def owned_frame [of "hub_step dev base h e" ?f])
next
  case False
  then have s: "hubScripts (hub_step dev base h e) = hubScripts h" "hubLoaded (hub_step dev base h e) = hubLoaded h"
    "hubManifests (hub_step dev base h e) = hubManifests h"
    by (cases e; simp add: on_registry_def Let_def)+
  have "hub_inv dev base h" using inv by (simp add: owned_inv_def)
  from hub.step_inv [OF this en(1)] show ?thesis
    using inv s by (simp add: owned_inv_def owned_frame [of "hub_step dev base h e" h])
qed

interpretation owned_hub: machine "hub_start (Suc n) []" "hub_step dev base"
  "\<lambda>h e. hub_enabled h e \<and> manifests_among A e" "owned_inv A dev base"
proof (unfold_locales, goal_cases)
  case 1
  then show ?case
    using hub.start_inv [of dev base n] by (simp add: owned_inv_def owned_scripts_def) (simp add: hub_start_def)
next
  case (2 h e)
  then show ?case by (simp add: owned_step)
qed

lemma listed_is_accounted:
  assumes inv: "owned_inv A dev base h" and m: "m \<in> set (hubManifests h)"
    and names: "\<And>m'. \<not> dev \<Longrightarrow> m' \<in> A \<Longrightarrow> bundle_url base m' = bundle_url base m \<Longrightarrow> manName m' = manName m"
  shows "accounted h (manName m)"
proof -
  have l: "loaded_for dev base h m" and o: "owned_scripts A dev base h" and s: "scripts_inv dev base h"
    using inv m by (simp_all add: owned_inv_def hub_inv_def)
  have "\<exists>s \<in> set (hubScripts h). scriptPlugin s = manName m"
  proof (cases dev)
    case False
    with l s have "bundle_url base m \<in> scriptSrc ` set (hubScripts h)"
      by (simp add: loaded_for_def scripts_inv_def flip: set_map)
    then obtain t where t: "t \<in> set (hubScripts h)" "scriptSrc t = bundle_url base m" by fastforce
    with o False obtain m' where "m' \<in> A" "scriptSrc t = bundle_url base m'" "scriptPlugin t = manName m'"
      unfolding owned_scripts_def by blast
    moreover have "manName m' = manName m" using names [OF False] calculation t by simp
    ultimately show ?thesis using t(1) by metis
  qed (use l in \<open>simp add: loaded_for_def\<close>)
  then show ?thesis using s unfolding scripts_inv_def by metis
qed

lemma arrived_among: "e \<in> set es \<Longrightarrow> manifests_among (set (arrived_manifests es)) e"
  unfolding manifests_among_def arrived_manifests_def
  by (induction es) (auto split: hub_event.splits)

section \<open>Properties\<close>

text \<open>Claim C11. No plugin tab is left spinning: after any events, once no injected script is still loading
  and no microtask is queued, the page of every listed plugin shows its component or an error, in a
  development build always, and in production if no plugin of another name was ever listed whose bundle
  has the same address (a script is then skipped as already loaded; names may hold slashes, see
  \<open>shared_address_spins\<close>). A script that loads without registering becomes an error.\<close>

theorem no_plugin_spins_forever:
  fixes h :: "'c hub"
  assumes "legal_run hub_enabled (hub_step dev base) (hub_start (Suc n) []) es"
    and "h = foldl (hub_step dev base) (hub_start (Suc n) []) es"
    and "hubPending h = []" "hubChecks h = []" "m \<in> set (hubManifests h)"
    and "\<And>m'. \<not> dev \<Longrightarrow> m' \<in> set (arrived_manifests es) \<Longrightarrow>
           plugin_url base (manName m') (manEntry m') = plugin_url base (manName m) (manEntry m) \<Longrightarrow> manName m' = manName m"
  shows "plugin_page lf nr (manName m) (hubRegistry h) \<noteq> ShowSpinner"
proof -
  let ?A = "set (arrived_manifests es)"
  have "manifests_among ?A e" if "e \<in> set es" for e
    using arrived_among [OF that] .
  then have "owned_inv ?A dev base h"
    using owned_hub.run_inv [OF legal_run_all [OF assms(1), of "manifests_among ?A"]] assms(2) by simp
  then have "accounted h (manName m)" using listed_is_accounted assms(5,6) by blast
  then show ?thesis
    using assms(3,4) by (auto simp: accounted_def plugin_page_def split: option.split)
qed

definition sample_manifest :: "string \<Rightarrow> manifest" where
  "sample_manifest name =
     \<lparr>manName = name, manLabel = [], manDescription = [], manIcon = [], manVersion = [],
      manTab = \<lparr>tabPath = [], tabPosition = None, tabOverride = None, tabHidden = False\<rparr>, manSlots = None,
      manEntry = ''main.js'', manCss = Some ''a.css'', manHasApi = False, manIntegrity = JUndef, manSource = []\<rparr>"

definition sample_script :: "nat \<Rightarrow> string \<Rightarrow> script" where
  "sample_script i name =
     \<lparr>scriptId = i, scriptPlugin = name, scriptSrc = plugin_url [] name ''main.js'', scriptIntegrity = None\<rparr>"

definition sample_loads :: "nat hub_event list" where
  "sample_loads =
     [ManifestsArrived [(sample_manifest ''kanban'', 0), (sample_manifest ''notes'', 0)],
      PluginRegisters ''kanban'' 7, ScriptLoaded (sample_script 0 ''kanban''),
      ScriptLoaded (sample_script 1 ''notes''), CheckRegistered (sample_script 0 ''kanban''),
      CheckRegistered (sample_script 1 ''notes'')]"

definition sample_hub :: "nat hub" where
  "sample_hub = foldl (hub_step False []) (hub_start (Suc 0) []) sample_loads"

lemma sample_hub_legal: "legal_run hub_enabled (hub_step False []) (hub_start (Suc 0) []) sample_loads"
  by code_simp

theorem no_plugin_spins_forever_witness:
  "plugin_page ''failed'' ''silent'' ''notes'' (hubRegistry sample_hub) \<noteq> ShowSpinner
   \<and> plugin_page ''failed'' ''silent'' ''notes'' (hubRegistry sample_hub) = ShowError ''silent''"
proof -
  have m: "sample_manifest ''notes'' \<in> set (hubManifests sample_hub)" by code_simp
  have q: "hubPending sample_hub = []" "hubChecks sample_hub = []" by code_simp+
  have "plugin_page ''failed'' ''silent'' ''notes'' (hubRegistry sample_hub) = ShowError ''silent''"
    by code_simp
  moreover have "list_all (\<lambda>m'. plugin_url [] (manName m') (manEntry m')
      = plugin_url [] ''notes'' ''main.js'' \<longrightarrow> manName m' = ''notes'') (arrived_manifests sample_loads)"
    by code_simp
  ultimately show ?thesis
    using no_plugin_spins_forever [OF sample_hub_legal sample_hub_def q m, of "''failed''" "''silent''"]
    by (simp add: sample_manifest_def list_all_iff)
qed

text \<open>With names free of slashes the addresses differ.\<close>

lemma plugin_url_inj:
  assumes "CHR ''/'' \<notin> set a" "CHR ''/'' \<notin> set b"
  shows "plugin_url base a p = plugin_url base b q \<longleftrightarrow> a = b \<and> p = q"
proof -
  have "a @ CHR ''/'' # p = b @ CHR ''/'' # q \<Longrightarrow> a = b \<and> p = q"
    using assms by (metis append_same_eq list.inject same_append_eq takeWhile_neq_append)
  then show ?thesis by (auto simp: plugin_url_def)
qed

text \<open>A name may hold a slash, and then two plugins can share the address of their bundle: the second is
  skipped as loaded already, no error is set for it, and its page stays a spinner.\<close>

definition slashed_manifest :: "string \<Rightarrow> string \<Rightarrow> manifest" where
  "slashed_manifest name entry = (sample_manifest name)\<lparr>manEntry := entry\<rparr>"

definition slashed_loads :: "nat hub_event list" where
  "slashed_loads =
     (let s = \<lparr>scriptId = 0, scriptPlugin = ''a'', scriptSrc = plugin_url [] ''a'' ''b/x.js'', scriptIntegrity = None\<rparr>
      in [ManifestsArrived [(slashed_manifest ''a'' ''b/x.js'', 0), (slashed_manifest ''a/b'' ''x.js'', 0)],
          PluginRegisters ''a'' 7, ScriptLoaded s, CheckRegistered s, LoadingTimeout])"

definition slashed_hub :: "nat hub" where
  "slashed_hub = foldl (hub_step False []) (hub_start (Suc 0) []) slashed_loads"

theorem shared_address_spins:
  "legal_run hub_enabled (hub_step False []) (hub_start (Suc 0) []) slashed_loads
   \<and> map manName (hubManifests slashed_hub) = [''a'', ''a/b''] \<and> length (hubPending slashed_hub) = 0
   \<and> length (hubChecks slashed_hub) = 0 \<and> \<not> hubLoading slashed_hub
   \<and> plugin_page ''failed'' ''silent'' ''a/b'' (hubRegistry slashed_hub) = ShowSpinner"
  by (intro conjI; code_simp)

text \<open>In production every plugin bundle runs once: after any events no address has two script
  elements, however often the manifests arrive, and no style sheet has two links; and the hook's
  list is at every moment exactly the manifests with a registered component, in manifest order.\<close>

theorem plugin_bundles_run_once:
  fixes h :: "'c hub"
  assumes "legal_run hub_enabled (hub_step False base) (hub_start (Suc n) []) es"
    and "h = foldl (hub_step False base) (hub_start (Suc n) []) es"
  shows "distinct (map scriptSrc (hubScripts h)) \<and> distinct (hubLinks h)
    \<and> map fst (hubPlugins h)
        = filter (\<lambda>m. get_plugin_component (hubRegistry h) (manName m) \<noteq> None) (hubManifests h)
    \<and> (\<forall>(m, c) \<in> set (hubPlugins h). get_plugin_component (hubRegistry h) (manName m) = Some c)"
proof -
  have "hub_inv False base h" using hub.run_inv assms by blast
  then show ?thesis
    by (auto simp: hub_inv_def scripts_inv_def resolve_manifests_def List.map_filter_def comp_def
        intro!: map_idI)
qed

theorem plugin_bundles_run_once_witness:
  "distinct (map scriptSrc (hubScripts sample_hub)) \<and> length (hubScripts sample_hub) = 2
   \<and> map fst (hubPlugins sample_hub) = [sample_manifest ''kanban'']"
proof -
  have "length (hubScripts sample_hub) = 2 \<and> map fst (hubPlugins sample_hub) = [sample_manifest ''kanban'']"
    by code_simp
  then show ?thesis using plugin_bundles_run_once [OF sample_hub_legal sample_hub_def] by blast
qed

text \<open>The loading state ends by itself: whenever the hook still reports loading, a fetch of the
  manifests is outstanding or the timeout that ends it is armed; with manifests listed the timeout is
  armed and some listed plugin has not registered.\<close>

theorem plugin_loading_ends:
  fixes h :: "'c hub"
  assumes "legal_run hub_enabled (hub_step dev base) (hub_start (Suc n) []) es"
    and "h = foldl (hub_step dev base) (hub_start (Suc n) []) es" and "hubLoading h"
  shows "(hubFetches h > 0 \<or> hub_enabled h LoadingTimeout)
    \<and> (hubManifests h \<noteq> [] \<longrightarrow> hub_enabled h LoadingTimeout
         \<and> (\<exists>m \<in> set (hubManifests h). get_plugin_component (hubRegistry h) (manName m) = None))
    \<and> \<not> hubLoading (hub_step dev base h LoadingTimeout)"
proof -
  have inv: "hub_inv dev base h" using hub.run_inv assms(1,2) by blast
  have "length (resolve_manifests r ms) < length ms \<Longrightarrow> \<exists>m \<in> set ms. get_plugin_component r (manName m) = None"
    for r :: "'c registry" and ms
    by (induction ms) (auto simp: resolve_manifests_def List.map_filter_def split: if_splits)
  then show ?thesis using inv assms(3) by (auto simp: hub_inv_def hub_enabled_def)
qed

definition sample_waiting :: "nat hub" where
  "sample_waiting = foldl (hub_step False []) (hub_start (Suc 0) []) (take 2 sample_loads)"

theorem plugin_loading_ends_witness:
  "hubLoading sample_waiting \<and> hub_enabled sample_waiting LoadingTimeout"
proof -
  have legal: "legal_run hub_enabled (hub_step False []) (hub_start (Suc 0) []) (take 2 sample_loads)"
    by code_simp
  have waiting: "hubLoading sample_waiting" "hubManifests sample_waiting \<noteq> []" by code_simp+
  then show ?thesis using plugin_loading_ends [OF legal sample_waiting_def waiting(1)] by blast
qed

end
