(* ===== verification/ThemeData.thy ===== *)
theory ThemeData
  imports JsValue
begin

text \<open>
  The data of the dashboard's appearance: the theme model \<open>web/src/themes/types.ts\<close>, the built-in
  themes \<open>presets.ts\<close> and the font catalogue \<open>fonts.ts\<close>. A fractional number of the data is a
  decimal, mantissa and scale, printed as JavaScript prints it. Characters outside Latin-1 are
  written as their escapes.
\<close>

section \<open>Decimals\<close>

type_synonym decimal = "nat \<times> nat"

definition strip_zeros :: "string \<Rightarrow> string" where
  "strip_zeros s = rev (dropWhile (\<lambda>c. c = CHR ''0'') (rev s))"

text \<open>\<open>String(alpha)\<close>, for numbers that are printed without an exponent.\<close>

definition show_decimal :: "decimal \<Rightarrow> string" where
  "show_decimal d =
     (let ip = fst d div 10 ^ snd d; fr = fst d mod 10 ^ snd d; digits = show_nat fr
      in show_nat ip @ (if fr = 0 then []
           else CHR ''.'' # strip_zeros (replicate (snd d - length digits) (CHR ''0'') @ digits)))"

text \<open>\<open>Math.round(alpha * 100)\<close>: ties go up.\<close>

definition round_percent :: "decimal \<Rightarrow> nat" where
  "round_percent d = (200 * fst d + 10 ^ snd d) div (2 * 10 ^ snd d)"

section \<open>The theme model\<close>

record theme_layer =
  layerAlpha :: decimal
  layerHex :: string

record theme_palette =
  palBackground :: theme_layer
  palMidground :: theme_layer
  palForeground :: theme_layer
  palWarmGlow :: string
  palNoiseOpacity :: decimal

record theme_typography =
  typSans :: string
  typMono :: string
  typDisplay :: "string option"
  typFontUrl :: "string option"
  typBaseSize :: string
  typLineHeight :: string
  typLetterSpacing :: string

text \<open>The density and the layout variant come from a user's YAML as any text.\<close>

record theme_layout =
  layRadius :: string
  layDensity :: string

text \<open>Asset and style values are checked to be strings where they are used.\<close>

record theme_assets =
  assetNamed :: "(string \<times> js) list"
  assetCustom :: "(string \<times> js) list option"

type_synonym component_styles = "(string \<times> (string \<times> js) list) list"

record dashboard_theme =
  thName :: string
  thLabel :: string
  thDescription :: string
  thPalette :: theme_palette
  thTypography :: theme_typography
  thLayout :: theme_layout
  thVariant :: "string option"
  thAssets :: "theme_assets option"
  thCustomCSS :: "string option"
  thStyles :: "component_styles option"
  thOverrides :: "(string \<times> string) list option"
  thSeries :: "(string \<times> string) list option"
  thSwatches :: "(string \<times> string \<times> string) option"
  thTermBackground :: "string option"
  thTermForeground :: "string option"

record theme_entry =
  entName :: string
  entLabel :: string
  entDescription :: string
  entDefinition :: "dashboard_theme option"

record theme_list_response =
  respActive :: string
  respThemes :: "theme_entry list"

section \<open>Built-in themes\<close>

text \<open>A font family that CSS needs in quotes.\<close>

definition quoted :: "string \<Rightarrow> string" where
  "quoted s = CHR 0x22 # s @ [CHR 0x22]"

definition SYSTEM_SANS :: string where
  "SYSTEM_SANS = ''system-ui, -apple-system, '' @ quoted ''Segoe UI'' @ '', Roboto, ''
     @ quoted ''Helvetica Neue'' @ '', Arial, sans-serif''"

definition SYSTEM_MONO :: string where
  "SYSTEM_MONO = ''ui-monospace, '' @ quoted ''SF Mono'' @ '', '' @ quoted ''Cascadia Mono''
     @ '', Menlo, Consolas, monospace''"

definition SYSTEM_SERIF :: string where
  "SYSTEM_SERIF = ''Georgia, Cambria, '' @ quoted ''Times New Roman'' @ '', Times, serif''"

definition DEFAULT_TYPOGRAPHY :: theme_typography where
  "DEFAULT_TYPOGRAPHY =
     \<lparr>typSans = SYSTEM_SANS, typMono = SYSTEM_MONO, typDisplay = None, typFontUrl = None,
      typBaseSize = ''15px'', typLineHeight = ''1.55'', typLetterSpacing = ''0''\<rparr>"

definition DEFAULT_LAYOUT :: theme_layout where
  "DEFAULT_LAYOUT = \<lparr>layRadius = ''0.5rem'', layDensity = ''comfortable''\<rparr>"

definition em_dash :: string where
  "em_dash = CHR 0x5C # ''u2014''"

definition layer :: "string \<Rightarrow> nat \<Rightarrow> theme_layer" where
  "layer hex alpha = \<lparr>layerAlpha = (alpha, 0), layerHex = hex\<rparr>"

text \<open>A theme with the required fields only; the optional ones are set from it.\<close>

definition plain_theme :: "string \<Rightarrow> string \<Rightarrow> string \<Rightarrow> theme_palette \<Rightarrow> theme_typography \<Rightarrow> theme_layout \<Rightarrow> dashboard_theme" where
  "plain_theme name label description palette typography layout =
     \<lparr>thName = name, thLabel = label, thDescription = description, thPalette = palette,
      thTypography = typography, thLayout = layout, thVariant = None, thAssets = None, thCustomCSS = None,
      thStyles = None, thOverrides = None, thSeries = None, thSwatches = None, thTermBackground = None,
      thTermForeground = None\<rparr>"

definition defaultTheme :: dashboard_theme where
  "defaultTheme =
     (plain_theme ''default'' ''Hermes Teal'' (''Classic dark teal '' @ em_dash @ '' the canonical Hermes look'')
        \<lparr>palBackground = layer ''#041c1c'' 1, palMidground = layer ''#ffe6cb'' 1, palForeground = layer ''#ffffff'' 0,
         palWarmGlow = ''rgba(255, 189, 56, 0.35)'', palNoiseOpacity = (1, 0)\<rparr>
        DEFAULT_TYPOGRAPHY DEFAULT_LAYOUT)
     \<lparr>thTermBackground := Some ''#000000''\<rparr>"

definition midnightTheme :: dashboard_theme where
  "midnightTheme =
     plain_theme ''midnight'' ''Midnight'' ''Deep blue-violet with cool accents''
       \<lparr>palBackground = layer ''#0a0a1f'' 1, palMidground = layer ''#d4c8ff'' 1, palForeground = layer ''#ffffff'' 0,
        palWarmGlow = ''rgba(167, 139, 250, 0.32)'', palNoiseOpacity = (8, 1)\<rparr>
       (DEFAULT_TYPOGRAPHY
        \<lparr>typSans := quoted ''Inter'' @ '', '' @ SYSTEM_SANS, typMono := quoted ''JetBrains Mono'' @ '', '' @ SYSTEM_MONO,
         typFontUrl := Some (''https://fonts.googleapis.com/css2?family=Inter:wght@400;500;600;700''
           @ ''&family=JetBrains+Mono:wght@400;500;700&display=swap''),
         typLetterSpacing := ''-0.005em''\<rparr>)
       (DEFAULT_LAYOUT\<lparr>layRadius := ''0.75rem''\<rparr>)"

definition emberTheme :: dashboard_theme where
  "emberTheme =
     (plain_theme ''ember'' ''Ember'' (''Warm crimson and bronze '' @ em_dash @ '' forge vibes'')
        \<lparr>palBackground = layer ''#1a0a06'' 1, palMidground = layer ''#ffd8b0'' 1, palForeground = layer ''#ffffff'' 0,
         palWarmGlow = ''rgba(249, 115, 22, 0.38)'', palNoiseOpacity = (1, 0)\<rparr>
        (DEFAULT_TYPOGRAPHY
         \<lparr>typSans := quoted ''Spectral'' @ '', Georgia, '' @ quoted ''Times New Roman'' @ '', serif'',
          typMono := quoted ''IBM Plex Mono'' @ '', '' @ SYSTEM_MONO,
          typFontUrl := Some (''https://fonts.googleapis.com/css2?family=Spectral:wght@400;500;600;700''
            @ ''&family=IBM+Plex+Mono:wght@400;500;700&display=swap'')\<rparr>)
        (DEFAULT_LAYOUT\<lparr>layRadius := ''0.25rem''\<rparr>))
     \<lparr>thOverrides := Some [(''destructive'', ''#c92d0f''), (''warning'', ''#f97316'')]\<rparr>"

definition monoTheme :: dashboard_theme where
  "monoTheme =
     plain_theme ''mono'' ''Mono'' (''Clean grayscale '' @ em_dash @ '' minimal and focused'')
       \<lparr>palBackground = layer ''#0e0e0e'' 1, palMidground = layer ''#eaeaea'' 1, palForeground = layer ''#ffffff'' 0,
        palWarmGlow = ''rgba(255, 255, 255, 0.1)'', palNoiseOpacity = (6, 1)\<rparr>
       (DEFAULT_TYPOGRAPHY
        \<lparr>typSans := quoted ''IBM Plex Sans'' @ '', '' @ SYSTEM_SANS, typMono := quoted ''IBM Plex Mono'' @ '', '' @ SYSTEM_MONO,
         typFontUrl := Some (''https://fonts.googleapis.com/css2?family=IBM+Plex+Sans:wght@400;500;600''
           @ ''&family=IBM+Plex+Mono:wght@400;500&display=swap'')\<rparr>)
       (DEFAULT_LAYOUT\<lparr>layRadius := ''0''\<rparr>)"

definition cyberpunkTheme :: dashboard_theme where
  "cyberpunkTheme =
     (plain_theme ''cyberpunk'' ''Cyberpunk'' (''Neon green on black '' @ em_dash @ '' matrix terminal'')
        \<lparr>palBackground = layer ''#040608'' 1, palMidground = layer ''#9bffcf'' 1, palForeground = layer ''#ffffff'' 0,
         palWarmGlow = ''rgba(0, 255, 136, 0.22)'', palNoiseOpacity = (12, 1)\<rparr>
        (DEFAULT_TYPOGRAPHY
         \<lparr>typSans := quoted ''Share Tech Mono'' @ '', '' @ quoted ''JetBrains Mono'' @ '', '' @ SYSTEM_MONO,
          typMono := quoted ''Share Tech Mono'' @ '', '' @ quoted ''JetBrains Mono'' @ '', '' @ SYSTEM_MONO,
          typFontUrl := Some (''https://fonts.googleapis.com/css2?family=Share+Tech+Mono''
            @ ''&family=JetBrains+Mono:wght@400;700&display=swap'')\<rparr>)
        (DEFAULT_LAYOUT\<lparr>layRadius := ''0''\<rparr>))
     \<lparr>thOverrides := Some [(''success'', ''#00ff88''), (''warning'', ''#ffd700''), (''destructive'', ''#ff0055'')]\<rparr>"

definition roseTheme :: dashboard_theme where
  "roseTheme =
     plain_theme ''rose'' (''Ros'' @ [CHR 0xE9]) (''Soft pink and warm ivory '' @ em_dash @ '' easy on the eyes'')
       \<lparr>palBackground = layer ''#1a0f15'' 1, palMidground = layer ''#ffd4e1'' 1, palForeground = layer ''#ffffff'' 0,
        palWarmGlow = ''rgba(249, 168, 212, 0.3)'', palNoiseOpacity = (9, 1)\<rparr>
       (DEFAULT_TYPOGRAPHY
        \<lparr>typSans := quoted ''Fraunces'' @ '', Georgia, serif'', typMono := quoted ''DM Mono'' @ '', '' @ SYSTEM_MONO,
         typFontUrl := Some (''https://fonts.googleapis.com/css2?family=Fraunces:opsz,wght@9..144,400;9..144,500;9..144,600''
           @ ''&family=DM+Mono:wght@400;500&display=swap'')\<rparr>)
       (DEFAULT_LAYOUT\<lparr>layRadius := ''1rem''\<rparr>)"

definition nousBlueTheme :: dashboard_theme where
  "nousBlueTheme =
     (plain_theme ''nous-blue'' ''Nous Blue'' (''Light mode '' @ em_dash @ '' vivid Nous-blue accents on cream canvas'')
        \<lparr>palBackground = layer ''#E8F2FD'' 1, palMidground = layer ''#0053FD'' 1, palForeground = layer ''#170d02'' 0,
         palWarmGlow = ''rgba(0, 83, 253, 0.12)'', palNoiseOpacity = (0, 0)\<rparr>
        DEFAULT_TYPOGRAPHY DEFAULT_LAYOUT)
     \<lparr>thTermBackground := Some ''#f5f8fc'', thTermForeground := Some ''#170d02'',
      thSeries := Some [(''inputTokenAccent'', ''#001934''), (''outputTokenAccent'', ''#0053fd'')],
      thSwatches := Some (''#170d02'', ''#0053FD'', ''#E8F2FD'')\<rparr>"

definition defaultLargeTheme :: dashboard_theme where
  "defaultLargeTheme =
     plain_theme ''default-large'' ''Hermes Teal (Large)'' ''Hermes Teal with bigger fonts and roomier spacing''
       (thPalette defaultTheme)
       (DEFAULT_TYPOGRAPHY\<lparr>typBaseSize := ''18px'', typLineHeight := ''1.65''\<rparr>)
       (DEFAULT_LAYOUT\<lparr>layDensity := ''spacious''\<rparr>)"

definition BUILTIN_THEMES :: "(string \<times> dashboard_theme) list" where
  "BUILTIN_THEMES =
     [(''default'', defaultTheme), (''default-large'', defaultLargeTheme), (''nous-blue'', nousBlueTheme),
      (''midnight'', midnightTheme), (''ember'', emberTheme), (''mono'', monoTheme),
      (''cyberpunk'', cyberpunkTheme), (''rose'', roseTheme)]"

section \<open>The font catalogue\<close>

datatype font_category = FontSans | FontSerif | FontMono

record font_choice =
  fontId :: string
  fontLabel :: string
  fontCategory :: font_category
  fontStack :: string
  fontUrl :: "string option"

definition THEME_DEFAULT_FONT_ID :: string where
  "THEME_DEFAULT_FONT_ID = ''theme''"

definition GF :: "string \<Rightarrow> string" where
  "GF family = ''https://fonts.googleapis.com/css2?family='' @ family @ ''&display=swap''"

definition web_font :: "string \<Rightarrow> string \<Rightarrow> font_category \<Rightarrow> string \<Rightarrow> string \<Rightarrow> font_choice" where
  "web_font ident label category stack family =
     \<lparr>fontId = ident, fontLabel = label, fontCategory = category, fontStack = stack, fontUrl = Some (GF family)\<rparr>"

definition system_font :: "string \<Rightarrow> string \<Rightarrow> font_category \<Rightarrow> string \<Rightarrow> font_choice" where
  "system_font ident label category stack =
     \<lparr>fontId = ident, fontLabel = label, fontCategory = category, fontStack = stack, fontUrl = None\<rparr>"

definition FONT_CHOICES :: "font_choice list" where
  "FONT_CHOICES =
     [system_font ''system-sans'' ''System Sans'' FontSans SYSTEM_SANS,
      system_font ''system-serif'' ''System Serif'' FontSerif SYSTEM_SERIF,
      system_font ''system-mono'' ''System Mono'' FontMono SYSTEM_MONO,
      web_font ''inter'' ''Inter'' FontSans (quoted ''Inter'' @ '', '' @ SYSTEM_SANS) ''Inter:wght@400;500;600;700'',
      web_font ''ibm-plex-sans'' ''IBM Plex Sans'' FontSans (quoted ''IBM Plex Sans'' @ '', '' @ SYSTEM_SANS)
        ''IBM+Plex+Sans:wght@400;500;600;700'',
      web_font ''work-sans'' ''Work Sans'' FontSans (quoted ''Work Sans'' @ '', '' @ SYSTEM_SANS)
        ''Work+Sans:wght@400;500;600;700'',
      web_font ''atkinson-hyperlegible'' ''Atkinson Hyperlegible'' FontSans
        (quoted ''Atkinson Hyperlegible'' @ '', '' @ SYSTEM_SANS) ''Atkinson+Hyperlegible:wght@400;700'',
      web_font ''dm-sans'' ''DM Sans'' FontSans (quoted ''DM Sans'' @ '', '' @ SYSTEM_SANS)
        ''DM+Sans:opsz,wght@9..40,400;9..40,500;9..40,600;9..40,700'',
      web_font ''spectral'' ''Spectral'' FontSerif (quoted ''Spectral'' @ '', '' @ SYSTEM_SERIF)
        ''Spectral:wght@400;500;600;700'',
      web_font ''fraunces'' ''Fraunces'' FontSerif (quoted ''Fraunces'' @ '', '' @ SYSTEM_SERIF)
        ''Fraunces:opsz,wght@9..144,400;9..144,500;9..144,600'',
      web_font ''source-serif'' ''Source Serif 4'' FontSerif (quoted ''Source Serif 4'' @ '', '' @ SYSTEM_SERIF)
        ''Source+Serif+4:opsz,wght@8..60,400;8..60,500;8..60,600;8..60,700'',
      web_font ''jetbrains-mono'' ''JetBrains Mono'' FontMono (quoted ''JetBrains Mono'' @ '', '' @ SYSTEM_MONO)
        ''JetBrains+Mono:wght@400;500;700'',
      web_font ''ibm-plex-mono'' ''IBM Plex Mono'' FontMono (quoted ''IBM Plex Mono'' @ '', '' @ SYSTEM_MONO)
        ''IBM+Plex+Mono:wght@400;500;700'',
      web_font ''space-mono'' ''Space Mono'' FontMono (quoted ''Space Mono'' @ '', '' @ SYSTEM_MONO)
        ''Space+Mono:wght@400;700'']"

definition FONT_BY_ID :: "(string \<times> font_choice) list" where
  "FONT_BY_ID = map (\<lambda>f. (fontId f, f)) FONT_CHOICES"

definition get_font_choice :: "string option \<Rightarrow> font_choice option" where
  "get_font_choice i =
     (case i of None \<Rightarrow> None
      | Some i \<Rightarrow> if i = [] \<or> i = THEME_DEFAULT_FONT_ID then None else map_of FONT_BY_ID i)"

definition is_override_font :: "string option \<Rightarrow> bool" where
  "is_override_font i \<longleftrightarrow> get_font_choice i \<noteq> None"

section \<open>Lemmas\<close>

lemma builtin_names: "map (\<lambda>(k, t). thName t = k) BUILTIN_THEMES = replicate 8 True"
  by code_simp

lemma builtin_distinct: "distinct (map fst BUILTIN_THEMES)"
  by code_simp

text \<open>The catalogue is sound: ids are distinct and none is the sentinel, every font resolves to itself,
  every web font comes from the one vetted origin, and every stack ends in a generic family.\<close>

lemma font_ids: "distinct (map fontId FONT_CHOICES) \<and> list_all (\<lambda>f. fontId f \<noteq> [] \<and> fontId f \<noteq> THEME_DEFAULT_FONT_ID) FONT_CHOICES"
  by code_simp

lemma get_font_Some:
  "get_font_choice i = Some f \<Longrightarrow> f \<in> set FONT_CHOICES \<and> i = Some (fontId f)"
  by (auto simp: get_font_choice_def FONT_BY_ID_def split: option.splits if_splits dest!: map_of_SomeD)

lemma get_font_choice_self: "f \<in> set FONT_CHOICES \<Longrightarrow> get_font_choice (Some (fontId f)) = Some f"
  using font_ids
  by (auto simp: get_font_choice_def FONT_BY_ID_def list_all_iff o_def intro!: map_of_is_SomeI)

lemma font_default [simp]: "get_font_choice (Some THEME_DEFAULT_FONT_ID) = None"
  by (simp add: get_font_choice_def)

definition safe_font :: "font_choice \<Rightarrow> bool" where
  "safe_font f \<longleftrightarrow>
     (case fontUrl f of None \<Rightarrow> True
      | Some u \<Rightarrow> starts_with u ''https://fonts.googleapis.com/css2?family='' \<and> CHR 0x22 \<notin> set u)
     \<and> (ends_with (fontStack f) ''sans-serif'' \<or> ends_with (fontStack f) ''monospace''
        \<or> ends_with (fontStack f) ''serif'')"

lemma fonts_safe: "list_all safe_font FONT_CHOICES"
  by code_simp

text \<open>The font override can only ever inject a vetted style sheet: whatever id is looked up, a
  found font is in the catalogue under that id, its address is on the one allowed origin and its
  stack ends in a generic family; and an id is accepted exactly when it names a catalogue font.\<close>

theorem font_lookup_is_vetted:
  "(case get_font_choice i of None \<Rightarrow> True
    | Some f \<Rightarrow> f \<in> set FONT_CHOICES \<and> i = Some (fontId f) \<and> safe_font f)
   \<and> (is_override_font i \<longleftrightarrow> i \<in> Some ` fontId ` set FONT_CHOICES)"
  using fonts_safe get_font_Some [of i] get_font_choice_self
  by (auto simp: is_override_font_def list_all_iff split: option.split)

end
