(* ===== verification/ThemeVars.thy ===== *)
theory ThemeVars
  imports ThemeData
begin

text \<open>
  The CSS variables of a theme, the builders of \<open>web/src/themes/context.tsx\<close>: each part of a theme
  becomes an object of custom properties. An object is an association list in insertion order;
  \<open>obj_set\<close> is the write \<open>out[key] = value\<close>.
\<close>

section \<open>Palette, typography and layout\<close>

definition layer_vars :: "string \<Rightarrow> theme_layer \<Rightarrow> (string \<times> string) list" where
  "layer_vars name l =
     [(''--'' @ name, ''color-mix(in srgb, '' @ layerHex l @ '' '' @ show_nat (round_percent (layerAlpha l))
         @ ''%, transparent)''),
      (''--'' @ name @ ''-base'', layerHex l),
      (''--'' @ name @ ''-alpha'', show_decimal (layerAlpha l))]"

definition palette_vars :: "theme_palette \<Rightarrow> (string \<times> string) list" where
  "palette_vars p =
     layer_vars ''background'' (palBackground p) @ layer_vars ''midground'' (palMidground p)
     @ layer_vars ''foreground'' (palForeground p)"

definition DENSITY_MULTIPLIERS :: "(string \<times> string) list" where
  "DENSITY_MULTIPLIERS = [(''compact'', ''0.85''), (''comfortable'', ''1''), (''spacious'', ''1.2'')]"

definition typography_vars :: "theme_typography \<Rightarrow> (string \<times> string) list" where
  "typography_vars t =
     [(''--theme-font-sans'', typSans t), (''--theme-font-mono'', typMono t),
      (''--theme-font-display'', case typDisplay t of None \<Rightarrow> typSans t | Some d \<Rightarrow> d),
      (''--theme-base-size'', typBaseSize t), (''--theme-line-height'', typLineHeight t),
      (''--theme-letter-spacing'', typLetterSpacing t)]"

definition layout_vars :: "theme_layout \<Rightarrow> (string \<times> string) list" where
  "layout_vars l =
     [(''--radius'', layRadius l), (''--theme-radius'', layRadius l),
      (''--theme-spacing-mul'', case map_of DENSITY_MULTIPLIERS (layDensity l) of None \<Rightarrow> ''1'' | Some m \<Rightarrow> m),
      (''--theme-density'', layDensity l)]"

section \<open>Colour overrides and data series\<close>

definition OVERRIDE_KEY_TO_VAR :: "(string \<times> string) list" where
  "OVERRIDE_KEY_TO_VAR =
     [(''card'', ''--color-card''), (''cardForeground'', ''--color-card-foreground''),
      (''popover'', ''--color-popover''), (''popoverForeground'', ''--color-popover-foreground''),
      (''primary'', ''--color-primary''), (''primaryForeground'', ''--color-primary-foreground''),
      (''secondary'', ''--color-secondary''), (''secondaryForeground'', ''--color-secondary-foreground''),
      (''muted'', ''--color-muted''), (''mutedForeground'', ''--color-muted-foreground''),
      (''accent'', ''--color-accent''), (''accentForeground'', ''--color-accent-foreground''),
      (''destructive'', ''--color-destructive''), (''destructiveForeground'', ''--color-destructive-foreground''),
      (''success'', ''--color-success''), (''warning'', ''--color-warning''), (''border'', ''--color-border''),
      (''input'', ''--color-input''), (''ring'', ''--color-ring'')]"

definition ALL_OVERRIDE_VARS :: "string list" where
  "ALL_OVERRIDE_VARS = map snd OVERRIDE_KEY_TO_VAR"

definition SERIES_KEY_TO_VAR :: "(string \<times> string) list" where
  "SERIES_KEY_TO_VAR = [(''inputTokenAccent'', ''--series-input-token''), (''outputTokenAccent'', ''--series-output-token'')]"

definition ALL_SERIES_VARS :: "string list" where
  "ALL_SERIES_VARS = map snd SERIES_KEY_TO_VAR"

text \<open>The shared loop: empty values and unknown keys are skipped.\<close>

definition mapped_var :: "(string \<times> string) list \<Rightarrow> string \<times> string \<Rightarrow> (string \<times> string) list \<Rightarrow> (string \<times> string) list" where
  "mapped_var table kv out =
     (if snd kv = [] then out
      else case map_of table (fst kv) of None \<Rightarrow> out | Some cssVar \<Rightarrow> obj_set cssVar (snd kv) out)"

definition override_vars :: "(string \<times> string) list option \<Rightarrow> (string \<times> string) list" where
  "override_vars os = (case os of None \<Rightarrow> [] | Some kvs \<Rightarrow> fold (mapped_var OVERRIDE_KEY_TO_VAR) kvs [])"

definition series_color_vars :: "(string \<times> string) list option \<Rightarrow> (string \<times> string) list" where
  "series_color_vars os = (case os of None \<Rightarrow> [] | Some kvs \<Rightarrow> fold (mapped_var SERIES_KEY_TO_VAR) kvs [])"

section \<open>Assets and component styles\<close>

definition NAMED_ASSET_KEYS :: "string list" where
  "NAMED_ASSET_KEYS = [''bg'', ''hero'', ''logo'', ''crest'', ''sidebar'', ''header'']"

definition COMPONENT_BUCKETS :: "string list" where
  "COMPONENT_BUCKETS =
     [''card'', ''header'', ''footer'', ''sidebar'', ''tab'', ''progress'', ''badge'', ''backdrop'', ''page'']"

definition ascii_upper :: "char \<Rightarrow> bool" where
  "ascii_upper c \<longleftrightarrow> 65 \<le> code c \<and> code c \<le> 90"

definition ascii_lower :: "char \<Rightarrow> bool" where
  "ascii_lower c \<longleftrightarrow> 97 \<le> code c \<and> code c \<le> 122"

definition to_kebab :: "string \<Rightarrow> string" where
  "to_kebab s = concat (map (\<lambda>c. if ascii_upper c then [CHR ''-'', lower_char c] else [c]) s)"

text \<open>\<open>/^[a-zA-Z0-9_-]+$/\<close>.\<close>

definition is_css_name :: "string \<Rightarrow> bool" where
  "is_css_name s \<longleftrightarrow> s \<noteq> [] \<and>
     list_all (\<lambda>c. is_digit c \<or> ascii_upper c \<or> ascii_lower c \<or> c = CHR ''_'' \<or> c = CHR ''-'') s"

text \<open>\<open>/^(url\(|linear-gradient|radial-gradient|conic-gradient|none$)/i\<close>.\<close>

definition is_css_image :: "string \<Rightarrow> bool" where
  "is_css_image v \<longleftrightarrow>
     (let t = lower v
      in starts_with t ''url('' \<or> starts_with t ''linear-gradient'' \<or> starts_with t ''radial-gradient''
         \<or> starts_with t ''conic-gradient'' \<or> t = ''none'')"

definition escape_quotes :: "string \<Rightarrow> string" where
  "escape_quotes s = concat (map (\<lambda>c. if code c = 0x22 then [CHR 0x5C, CHR 0x22] else [c]) s)"

definition wrap_asset :: "string \<Rightarrow> string" where
  "wrap_asset v =
     (let t = trim v
      in if t = [] then [] else if is_css_image t then t
         else ''url('' @ CHR 0x22 # escape_quotes t @ [CHR 0x22] @ '')'')"

text \<open>A string that is not blank; anything else is skipped.\<close>

definition text_value :: "js \<Rightarrow> string option" where
  "text_value v = (case v of JStr s \<Rightarrow> if trim s = [] then None else Some s | _ \<Rightarrow> None)"

definition put_asset :: "string \<Rightarrow> js \<Rightarrow> (string \<times> string) list \<Rightarrow> (string \<times> string) list" where
  "put_asset name v out =
     (case text_value v of
        None \<Rightarrow> out
      | Some s \<Rightarrow> obj_set (''--theme-asset-'' @ name @ ''-raw'') s
                    (obj_set (''--theme-asset-'' @ name) (wrap_asset s) out))"

definition asset_vars :: "theme_assets option \<Rightarrow> (string \<times> string) list" where
  "asset_vars a =
     (case a of
        None \<Rightarrow> []
      | Some a \<Rightarrow>
          (let named = fold (\<lambda>k. put_asset k (js_get (JObj (assetNamed a)) k)) NAMED_ASSET_KEYS []
           in case assetCustom a of
                None \<Rightarrow> named
              | Some kvs \<Rightarrow> fold (\<lambda>(k, v) out. if is_css_name k then put_asset (''custom-'' @ k) v out else out) kvs named))"

definition put_style :: "string \<Rightarrow> string \<times> js \<Rightarrow> (string \<times> string) list \<Rightarrow> (string \<times> string) list" where
  "put_style bucket kv out =
     (case text_value (snd kv) of
        None \<Rightarrow> out
      | Some s \<Rightarrow> if is_css_name (fst kv)
          then obj_set (''--component-'' @ bucket @ CHR ''-'' # to_kebab (fst kv)) s out else out)"

definition component_style_vars :: "component_styles option \<Rightarrow> (string \<times> string) list" where
  "component_style_vars styles =
     (case styles of
        None \<Rightarrow> []
      | Some st \<Rightarrow>
          fold (\<lambda>bucket out. case map_of st bucket of None \<Rightarrow> out | Some props \<Rightarrow> fold (put_style bucket) props out)
            COMPONENT_BUCKETS [])"

section \<open>Reading a wrapped asset\<close>

text \<open>What a CSS tokenizer makes of the rest of a quoted string: a backslash takes the next character
  with it, and a quote ends the string. (Hexadecimal escapes and newlines are left out.)\<close>

fun css_string :: "string \<Rightarrow> (string \<times> string) option" where
  "css_string [] = None"
| "css_string (c # s) =
     (if code c = 0x22 then Some ([], s)
      else if code c = 0x5C then
        (case s of [] \<Rightarrow> None | d # s' \<Rightarrow> map_option (\<lambda>(t, r). (d # t, r)) (css_string s'))
      else map_option (\<lambda>(t, r). (c # t, r)) (css_string s))"

definition css_url :: "string \<Rightarrow> string option" where
  "css_url v =
     (if starts_with v (''url('' @ [CHR 0x22]) then
        (case css_string (drop 5 v) of Some (t, r) \<Rightarrow> if r = '')'' then Some t else None | None \<Rightarrow> None)
      else None)"

lemma code_quote_backslash: "code (CHR 0x22) = 0x22" "code (CHR 0x5C) = 0x5C"
  by (simp_all add: code_def)

lemma css_string_escape:
  "CHR 0x5C \<notin> set t \<Longrightarrow> css_string (escape_quotes t @ CHR 0x22 # r) = Some (t, r)"
proof (induction t)
  case (Cons c t)
  have "code c = 0x5C \<longleftrightarrow> c = CHR 0x5C" "code c = 0x22 \<longleftrightarrow> c = CHR 0x22"
    using code_inj [of c "CHR 0x5C"] code_inj [of c "CHR 0x22"] code_quote_backslash by auto
  then show ?case using Cons by (auto simp: escape_quotes_def code_quote_backslash)
qed (simp add: escape_quotes_def code_quote_backslash)

text \<open>A bare asset path survives the wrapping: for every value that is not already a CSS image
  and holds no backslash, the variable's value is one \<open>url(...)\<close> whose string reads back as the
  trimmed path, quotes included.\<close>

theorem wrapped_asset_reads_back:
  assumes "trim v \<noteq> []" "\<not> is_css_image (trim v)" "CHR 0x5C \<notin> set (trim v)"
  shows "css_url (wrap_asset v) = Some (trim v)"
  using css_string_escape [OF assms(3), of "'')''"] assms(1,2)
  by (simp add: wrap_asset_def Let_def css_url_def starts_with_def)

definition quoted_path :: string where
  "quoted_path = '' /img/a'' @ CHR 0x22 # ''b.png ''"

theorem wrapped_asset_reads_back_witness:
  "css_url (wrap_asset quoted_path) = Some (''/img/a'' @ CHR 0x22 # ''b.png'')"
proof -
  have t: "trim quoted_path = ''/img/a'' @ CHR 0x22 # ''b.png''" by code_simp
  have "trim quoted_path \<noteq> []" "\<not> is_css_image (trim quoted_path)" "CHR 0x5C \<notin> set (trim quoted_path)"
    by code_simp+
  from wrapped_asset_reads_back [OF this] show ?thesis by (simp add: t)
qed

text \<open>Backslashes are not escaped: a path that ends in one swallows the closing quote, and one before a
  quote lets the rest of the path out of the string.\<close>

lemma backslash_breaks_asset:
  "css_url (wrap_asset (''/img/a'' @ [CHR 0x5C])) = None
   \<and> css_string (drop 5 (wrap_asset (''a'' @ CHR 0x5C # CHR 0x22 # '') x (''))) \<noteq> None
   \<and> css_url (wrap_asset (''a'' @ CHR 0x5C # CHR 0x22 # '') x (''))  = None"
  by code_simp

end
