(* ===== verification/ThemeProvider.thy ===== *)
theory ThemeProvider
  imports ThemeVars
begin

text \<open>
  Applying a theme to the document and the theme provider, \<open>web/src/themes/context.tsx\<close>. The document
  is the inline style of the root element, the one style tag with a theme's own CSS, the layout
  variant attribute and the font style sheets; with it go the module's variables. The provider's
  events are the two answers of the server and the user's picks; a state update and the effect React
  runs after it are one step.
\<close>

section \<open>The document\<close>

record dom_state =
  domStyle :: "(string \<times> string) list"
  domCustomCSS :: "string option"
  domVariant :: "string option"
  domFontLinks :: "string list"
  injectedFonts :: "string list"
  prevDynamic :: "string list"
  activeFont :: string

text \<open>\<open>style.setProperty\<close>: writing the empty string removes the property.\<close>

definition set_property :: "string \<Rightarrow> string \<Rightarrow> dom_state \<Rightarrow> dom_state" where
  "set_property k v d = d\<lparr>domStyle := (if v = [] then obj_del k (domStyle d) else obj_set k v (domStyle d))\<rparr>"

definition remove_property :: "string \<Rightarrow> dom_state \<Rightarrow> dom_state" where
  "remove_property k d = d\<lparr>domStyle := obj_del k (domStyle d)\<rparr>"

definition apply_custom_css :: "string option \<Rightarrow> dom_state \<Rightarrow> dom_state" where
  "apply_custom_css css d =
     (case css of
        None \<Rightarrow> d\<lparr>domCustomCSS := None\<rparr>
      | Some s \<Rightarrow> d\<lparr>domCustomCSS := (if trim s = [] then None else Some s)\<rparr>)"

definition apply_layout_variant :: "string option \<Rightarrow> dom_state \<Rightarrow> dom_state" where
  "apply_layout_variant variant d =
     (let final = (case variant of None \<Rightarrow> ''standard'' | Some v \<Rightarrow> v)
      in set_property ''--theme-layout-variant'' final (d\<lparr>domVariant := Some final\<rparr>))"

definition inject_font_stylesheet :: "string option \<Rightarrow> dom_state \<Rightarrow> dom_state" where
  "inject_font_stylesheet url d =
     (case url of
        None \<Rightarrow> d
      | Some u \<Rightarrow>
          if u = [] \<or> u \<in> set (injectedFonts d) then d
          else if u \<in> set (domFontLinks d) then d\<lparr>injectedFonts := injectedFonts d @ [u]\<rparr>
          else d\<lparr>domFontLinks := domFontLinks d @ [u], injectedFonts := injectedFonts d @ [u]\<rparr>)"

definition apply_font_override :: "string option \<Rightarrow> dom_state \<Rightarrow> dom_state" where
  "apply_font_override i d =
     (case get_font_choice i of
        None \<Rightarrow> remove_property ''--theme-font-override-sans'' d
      | Some f \<Rightarrow>
          set_property ''--theme-font-display'' (fontStack f)
            (set_property ''--theme-font-sans'' (fontStack f)
              (set_property ''--theme-font-override-sans'' (fontStack f)
                (inject_font_stylesheet (fontUrl f) d))))"

definition dynamic_vars :: "dashboard_theme \<Rightarrow> (string \<times> string) list" where
  "dynamic_vars t = obj_spread (asset_vars (thAssets t)) (component_style_vars (thStyles t))"

definition theme_vars :: "dashboard_theme \<Rightarrow> (string \<times> string) list" where
  "theme_vars t =
     foldl obj_spread (palette_vars (thPalette t))
       [typography_vars (thTypography t), layout_vars (thLayout t), override_vars (thOverrides t),
        series_color_vars (thSeries t), asset_vars (thAssets t), component_style_vars (thStyles t)]"

text \<open>The body of \<open>applyTheme\<close> up to its last line, which asserts the font override again.\<close>

definition paint_theme :: "dashboard_theme \<Rightarrow> dom_state \<Rightarrow> dom_state" where
  "paint_theme t d0 =
     (let d1 = fold remove_property (ALL_OVERRIDE_VARS @ ALL_SERIES_VARS @ prevDynamic d0) d0;
          d2 = d1\<lparr>prevDynamic := map fst (dynamic_vars t)\<rparr>;
          d3 = fold (\<lambda>(k, v). set_property k v) (theme_vars t) d2;
          d4 = apply_layout_variant (thVariant t)
                 (apply_custom_css (thCustomCSS t) (inject_font_stylesheet (typFontUrl (thTypography t)) d3));
          d5 = set_property ''--theme-terminal-background''
                 (case thTermBackground t of None \<Rightarrow> ''#000000'' | Some c \<Rightarrow> c) d4
      in set_property ''--theme-terminal-foreground''
           (case thTermForeground t of None \<Rightarrow> ''#f0e6d2'' | Some c \<Rightarrow> c) d5)"

definition apply_theme :: "dashboard_theme \<Rightarrow> dom_state \<Rightarrow> dom_state" where
  "apply_theme t d = (let d' = paint_theme t d in apply_font_override (Some (activeFont d')) d')"

section \<open>The provider\<close>

definition THEME_NAME_ALIASES :: "(string \<times> string) list" where
  "THEME_NAME_ALIASES = [(''lens-5i'', ''nous-blue'')]"

definition migrate_theme_name :: "string \<Rightarrow> string" where
  "migrate_theme_name name = (case map_of THEME_NAME_ALIASES name of None \<Rightarrow> name | Some n \<Rightarrow> n)"

datatype pref_call = SetThemeCall string | SetFontCall string

text \<open>The mount closures keep the theme name and the font id of the first render.\<close>

record theme_provider =
  provName :: string
  provAvailable :: "theme_entry list"
  provDefs :: "(string \<times> dashboard_theme) list"
  provFont :: string
  provDom :: dom_state
  storedTheme :: "string option"
  storedFont :: "string option"
  mountName :: string
  mountFont :: string
  themesPending :: bool
  fontPending :: bool
  prefCalls :: "pref_call list"

definition resolve_theme :: "(string \<times> dashboard_theme) list \<Rightarrow> string \<Rightarrow> dashboard_theme" where
  "resolve_theme defs name =
     (case map_of BUILTIN_THEMES name of
        Some t \<Rightarrow> t
      | None \<Rightarrow> (case map_of defs name of Some t \<Rightarrow> t | None \<Rightarrow> defaultTheme))"

definition valid_font :: "string option \<Rightarrow> string" where
  "valid_font i = (case i of None \<Rightarrow> THEME_DEFAULT_FONT_ID
     | Some f \<Rightarrow> if is_override_font (Some f) then f else THEME_DEFAULT_FONT_ID)"

definition theme_effect :: "theme_provider \<Rightarrow> theme_provider" where
  "theme_effect s =
     s\<lparr>provDom := apply_theme (resolve_theme (provDefs s) (provName s)) ((provDom s)\<lparr>activeFont := provFont s\<rparr>)\<rparr>"

text \<open>The effect runs when the name, the definitions or the font have changed.\<close>

definition commit_theme :: "theme_provider \<Rightarrow> bool \<Rightarrow> theme_provider \<Rightarrow> theme_provider" where
  "commit_theme old newDefs s =
     (if provName s \<noteq> provName old \<or> newDefs \<or> provFont s \<noteq> provFont old then theme_effect s else s)"

definition builtin_entries :: "theme_entry list" where
  "builtin_entries =
     map (\<lambda>(k, t). \<lparr>entName = thName t, entLabel = thLabel t, entDescription = thDescription t, entDefinition = None\<rparr>)
       BUILTIN_THEMES"

definition provider_start :: "string option \<Rightarrow> string option \<Rightarrow> dom_state \<Rightarrow> theme_provider" where
  "provider_start themeItem fontItem d =
     (let stored = (case themeItem of None \<Rightarrow> ''default'' | Some n \<Rightarrow> n); name = migrate_theme_name stored;
          font = valid_font fontItem
      in theme_effect
         \<lparr>provName = name, provAvailable = builtin_entries, provDefs = [], provFont = font,
          provDom = d\<lparr>activeFont := font\<rparr>, storedTheme = (if name \<noteq> stored then Some name else themeItem),
          storedFont = fontItem, mountName = name, mountFont = font, themesPending = True, fontPending = True,
          prefCalls = []\<rparr>)"

definition shipped_defs :: "theme_entry list \<Rightarrow> (string \<times> dashboard_theme) list" where
  "shipped_defs es =
     fold (\<lambda>e out. case entDefinition e of None \<Rightarrow> out | Some t \<Rightarrow> obj_set (entName e) t out) es []"

definition take_themes :: "theme_entry list \<Rightarrow> theme_provider \<Rightarrow> theme_provider" where
  "take_themes es s =
     (if es = [] then s
      else s\<lparr>provAvailable := es, provDefs := (if shipped_defs es = [] then provDefs s else shipped_defs es)\<rparr>)"

definition take_active :: "string \<Rightarrow> theme_provider \<Rightarrow> theme_provider" where
  "take_active active s =
     (if active = [] then s
      else (let name = migrate_theme_name active;
                s1 = (if name \<noteq> mountName s then s\<lparr>provName := name, storedTheme := Some name\<rparr> else s)
            in if name \<noteq> active then s1\<lparr>prefCalls := prefCalls s1 @ [SetThemeCall name]\<rparr> else s1))"

definition themes_arrived :: "theme_list_response \<Rightarrow> theme_provider \<Rightarrow> theme_provider" where
  "themes_arrived r s =
     commit_theme s (shipped_defs (respThemes r) \<noteq> [])
       (take_active (respActive r) (take_themes (respThemes r) (s\<lparr>themesPending := False\<rparr>)))"

definition font_arrived :: "string option \<Rightarrow> theme_provider \<Rightarrow> theme_provider" where
  "font_arrived pref s =
     (let server = valid_font pref; s1 = s\<lparr>fontPending := False\<rparr>
      in commit_theme s False
           (if server \<noteq> mountFont s then s1\<lparr>provFont := server, storedFont := Some server\<rparr> else s1))"

definition known_theme :: "theme_provider \<Rightarrow> string \<Rightarrow> bool" where
  "known_theme s name \<longleftrightarrow>
     name \<in> set (map fst BUILTIN_THEMES) \<or> name \<in> set (map entName (provAvailable s)) \<or> name \<in> set (map fst (provDefs s))"

definition set_theme :: "string \<Rightarrow> theme_provider \<Rightarrow> theme_provider" where
  "set_theme name s =
     (let next = (if known_theme s name then name else ''default'')
      in commit_theme s False
           (s\<lparr>provName := next, storedTheme := Some next, prefCalls := prefCalls s @ [SetThemeCall next]\<rparr>))"

definition set_font :: "string \<Rightarrow> theme_provider \<Rightarrow> theme_provider" where
  "set_font i s =
     (let next = valid_font (Some i)
      in commit_theme s False
           (s\<lparr>provFont := next, storedFont := Some next, prefCalls := prefCalls s @ [SetFontCall next]\<rparr>))"

datatype theme_event =
    ThemesArrived theme_list_response
  | ThemesFailed
  | FontArrived "string option"
  | FontFailed
  | PickTheme string
  | PickFont string

primrec theme_step :: "theme_provider \<Rightarrow> theme_event \<Rightarrow> theme_provider" where
  "theme_step s (ThemesArrived r) = themes_arrived r s"
| "theme_step s ThemesFailed = s\<lparr>themesPending := False\<rparr>"
| "theme_step s (FontArrived pref) = font_arrived pref s"
| "theme_step s FontFailed = s\<lparr>fontPending := False\<rparr>"
| "theme_step s (PickTheme name) = set_theme name s"
| "theme_step s (PickFont i) = set_font i s"

primrec theme_enabled :: "theme_provider \<Rightarrow> theme_event \<Rightarrow> bool" where
  "theme_enabled s (ThemesArrived r) = themesPending s"
| "theme_enabled s ThemesFailed = themesPending s"
| "theme_enabled s (FontArrived pref) = fontPending s"
| "theme_enabled s FontFailed = fontPending s"
| "theme_enabled s (PickTheme name) = True"
| "theme_enabled s (PickFont i) = True"

section \<open>What a document should look like\<close>

definition nonempty_value :: "string \<Rightarrow> string option" where
  "nonempty_value v = (if v = [] then None else Some v)"

text \<open>The value of a custom property under a theme and a font, independent of what was shown before.\<close>

definition theme_spec :: "dashboard_theme \<Rightarrow> string \<Rightarrow> string \<Rightarrow> string option" where
  "theme_spec t font k =
     (if k = ''--theme-font-override-sans'' then map_option fontStack (get_font_choice (Some font))
      else if get_font_choice (Some font) \<noteq> None \<and> (k = ''--theme-font-sans'' \<or> k = ''--theme-font-display'')
        then map_option fontStack (get_font_choice (Some font))
      else if k = ''--theme-terminal-foreground'' then
        nonempty_value (case thTermForeground t of None \<Rightarrow> ''#f0e6d2'' | Some c \<Rightarrow> c)
      else if k = ''--theme-terminal-background'' then
        nonempty_value (case thTermBackground t of None \<Rightarrow> ''#000000'' | Some c \<Rightarrow> c)
      else if k = ''--theme-layout-variant'' then
        nonempty_value (case thVariant t of None \<Rightarrow> ''standard'' | Some v \<Rightarrow> v)
      else Option.bind (map_of (theme_vars t) k) nonempty_value)"

text \<open>The properties every theme writes, and those a document may carry.\<close>

definition always_written :: "string set" where
  "always_written =
     fst ` set (palette_vars (thPalette defaultTheme) @ typography_vars DEFAULT_TYPOGRAPHY @ layout_vars DEFAULT_LAYOUT)
     \<union> {''--theme-layout-variant'', ''--theme-terminal-background'', ''--theme-terminal-foreground'',
        ''--theme-font-override-sans''}"

definition managed :: "dom_state \<Rightarrow> string set" where
  "managed d = always_written \<union> set ALL_OVERRIDE_VARS \<union> set ALL_SERIES_VARS \<union> set (prevDynamic d)"

definition clean_dom :: "dom_state \<Rightarrow> bool" where
  "clean_dom d \<longleftrightarrow> fst ` set (domStyle d) \<subseteq> managed d"

lemma set_property_frame [simp]:
  "domCustomCSS (set_property k v d) = domCustomCSS d" "domVariant (set_property k v d) = domVariant d"
  "domFontLinks (set_property k v d) = domFontLinks d" "injectedFonts (set_property k v d) = injectedFonts d"
  "prevDynamic (set_property k v d) = prevDynamic d" "activeFont (set_property k v d) = activeFont d"
  "map_of (domStyle (set_property k v d)) = (map_of (domStyle d))(k := nonempty_value v)"
  by (simp_all add: set_property_def nonempty_value_def)

lemma remove_property_frame [simp]:
  "domCustomCSS (remove_property k d) = domCustomCSS d" "domVariant (remove_property k d) = domVariant d"
  "domFontLinks (remove_property k d) = domFontLinks d" "injectedFonts (remove_property k d) = injectedFonts d"
  "prevDynamic (remove_property k d) = prevDynamic d" "activeFont (remove_property k d) = activeFont d"
  "map_of (domStyle (remove_property k d)) = (map_of (domStyle d))(k := None)"
  by (simp_all add: remove_property_def)

lemma inject_font_frame [simp]:
  "domCustomCSS (inject_font_stylesheet u d) = domCustomCSS d" "domVariant (inject_font_stylesheet u d) = domVariant d"
  "prevDynamic (inject_font_stylesheet u d) = prevDynamic d" "activeFont (inject_font_stylesheet u d) = activeFont d"
  "domStyle (inject_font_stylesheet u d) = domStyle d"
  by (simp_all add: inject_font_stylesheet_def split: option.split)

lemma custom_css_frame [simp]:
  "domVariant (apply_custom_css c d) = domVariant d" "prevDynamic (apply_custom_css c d) = prevDynamic d"
  "activeFont (apply_custom_css c d) = activeFont d" "domStyle (apply_custom_css c d) = domStyle d"
  "domFontLinks (apply_custom_css c d) = domFontLinks d" "injectedFonts (apply_custom_css c d) = injectedFonts d"
  by (simp_all add: apply_custom_css_def split: option.split)

lemma fold_remove [simp]:
  "map_of (domStyle (fold remove_property ks d)) k = (if k \<in> set ks then None else map_of (domStyle d) k)"
  "activeFont (fold remove_property ks d) = activeFont d"
  by (induction ks arbitrary: d) (simp_all add: fun_upd_def)

lemma fold_set_frame [simp]:
  "prevDynamic (fold (\<lambda>(k, v). set_property k v) kvs d) = prevDynamic d"
  "activeFont (fold (\<lambda>(k, v). set_property k v) kvs d) = activeFont d"
  by (induction kvs arbitrary: d) (simp_all add: split_beta)

lemma fold_set [simp]:
  "distinct (map fst kvs) \<Longrightarrow> map_of (domStyle (fold (\<lambda>(k, v). set_property k v) kvs d)) k
     = (case map_of kvs k of None \<Rightarrow> map_of (domStyle d) k | Some v \<Rightarrow> nonempty_value v)"
proof (induction kvs arbitrary: d)
  case (Cons kv kvs)
  obtain a v where kv: "kv = (a, v)" by (cases kv)
  have "a \<in> fst ` set kvs \<Longrightarrow> False" using Cons.prems kv by simp
  then have "map_of kvs a = None" by (auto simp: map_of_eq_None_iff)
  with Cons kv show ?case by (auto split: option.split)
qed simp

lemma keys_obj_spread: "fst ` set (obj_spread ps qs) = fst ` set ps \<union> fst ` set qs"
proof (induction qs arbitrary: ps)
  case (Cons q qs)
  then show ?case by (cases q) (auto simp: obj_spread_def)
qed (simp add: obj_spread_def)

lemma distinct_palette: "distinct (map fst (palette_vars p))"
  by (simp add: palette_vars_def layer_vars_def)

lemma distinct_theme_vars [simp]: "distinct (map fst (theme_vars t))"
  by (simp add: theme_vars_def distinct_palette)

lemma keys_theme_vars:
  "fst ` set (theme_vars t) =
     fst ` set (palette_vars (thPalette t)) \<union> fst ` set (typography_vars (thTypography t))
     \<union> fst ` set (layout_vars (thLayout t)) \<union> fst ` set (override_vars (thOverrides t))
     \<union> fst ` set (series_color_vars (thSeries t)) \<union> fst ` set (dynamic_vars t)"
  by (simp add: theme_vars_def keys_obj_spread dynamic_vars_def Un_assoc)

lemma always_written_keys:
  "always_written = fst ` set (palette_vars (thPalette t)) \<union> fst ` set (typography_vars (thTypography t))
     \<union> fst ` set (layout_vars (thLayout t))
     \<union> {''--theme-layout-variant'', ''--theme-terminal-background'', ''--theme-terminal-foreground'',
        ''--theme-font-override-sans''}"
proof -
  have "map fst (palette_vars p) = map fst (palette_vars q)" for p q
    by (simp add: palette_vars_def layer_vars_def)
  then have p: "fst ` set (palette_vars p) = fst ` set (palette_vars q)" for p q by (metis list.set_map)
  have "map fst (typography_vars p) = map fst (typography_vars q)" for p q by (simp add: typography_vars_def)
  then have t: "fst ` set (typography_vars p) = fst ` set (typography_vars q)" for p q by (metis list.set_map)
  have "map fst (layout_vars p) = map fst (layout_vars q)" for p q by (simp add: layout_vars_def)
  then have l: "fst ` set (layout_vars p) = fst ` set (layout_vars q)" for p q by (metis list.set_map)
  show ?thesis
    unfolding always_written_def set_append image_Un Un_assoc
      p [of "thPalette defaultTheme" "thPalette t"] t [of DEFAULT_TYPOGRAPHY "thTypography t"]
      l [of DEFAULT_LAYOUT "thLayout t"] ..
qed

lemma mapped_keys: "fst ` set (fold (mapped_var table) kvs out) \<subseteq> fst ` set out \<union> snd ` set table"
proof (induction kvs arbitrary: out)
  case (Cons kv kvs)
  have "fst ` set (mapped_var table kv out) \<subseteq> fst ` set out \<union> snd ` set table"
  proof (cases "map_of table (fst kv)")
    case (Some v)
    then have "v \<in> snd ` set table" by (metis imageI map_of_SomeD snd_conv)
    with Some show ?thesis by (simp add: mapped_var_def)
  qed (simp add: mapped_var_def)
  with Cons [of "mapped_var table kv out"] show ?case by auto
qed simp

lemma override_keys: "fst ` set (override_vars os) \<subseteq> set ALL_OVERRIDE_VARS"
  using mapped_keys [of OVERRIDE_KEY_TO_VAR _ "[]"]
  by (cases os) (simp_all add: override_vars_def ALL_OVERRIDE_VARS_def)

lemma series_keys: "fst ` set (series_color_vars os) \<subseteq> set ALL_SERIES_VARS"
  using mapped_keys [of SERIES_KEY_TO_VAR _ "[]"]
  by (cases os) (simp_all add: series_color_vars_def ALL_SERIES_VARS_def)

text \<open>Applying a theme to a clean document leaves exactly the theme's values, and a clean document.\<close>

lemma apply_variant_style [simp]:
  "map_of (domStyle (apply_layout_variant v d)) =
     (map_of (domStyle d))(''--theme-layout-variant'' := nonempty_value (case v of None \<Rightarrow> ''standard'' | Some v \<Rightarrow> v))"
  "prevDynamic (apply_layout_variant v d) = prevDynamic d" "activeFont (apply_layout_variant v d) = activeFont d"
  "domVariant (apply_layout_variant v d) = Some (case v of None \<Rightarrow> ''standard'' | Some v \<Rightarrow> v)"
  "domCustomCSS (apply_layout_variant v d) = domCustomCSS d"
  "domFontLinks (apply_layout_variant v d) = domFontLinks d" "injectedFonts (apply_layout_variant v d) = injectedFonts d"
  by (simp_all add: apply_layout_variant_def Let_def set_property_def nonempty_value_def)

lemma font_stack_nonempty: "get_font_choice i = Some f \<Longrightarrow> nonempty_value (fontStack f) = Some (fontStack f)"
proof -
  assume "get_font_choice i = Some f"
  then have "f \<in> set FONT_CHOICES" by (simp add: get_font_Some)
  moreover have "list_all (\<lambda>f. fontStack f \<noteq> []) FONT_CHOICES" by code_simp
  ultimately show ?thesis by (auto simp: nonempty_value_def list_all_iff)
qed

lemma apply_font_style:
  "map_of (domStyle (apply_font_override i d)) k =
     (case get_font_choice i of
        None \<Rightarrow> (if k = ''--theme-font-override-sans'' then None else map_of (domStyle d) k)
      | Some f \<Rightarrow> if k \<in> {''--theme-font-override-sans'', ''--theme-font-sans'', ''--theme-font-display''}
                  then Some (fontStack f) else map_of (domStyle d) k)"
  by (simp add: apply_font_override_def font_stack_nonempty split: option.split)

lemma apply_font_frame [simp]:
  "prevDynamic (apply_font_override i d) = prevDynamic d" "activeFont (apply_font_override i d) = activeFont d"
  "domCustomCSS (apply_font_override i d) = domCustomCSS d" "domVariant (apply_font_override i d) = domVariant d"
  by (simp_all add: apply_font_override_def split: option.split)

lemma fold_set_doc [simp]:
  "domCustomCSS (fold (\<lambda>(k, v). set_property k v) kvs d) = domCustomCSS d"
  "domVariant (fold (\<lambda>(k, v). set_property k v) kvs d) = domVariant d"
  by (induction kvs arbitrary: d) (simp_all add: split_beta)

lemma paint_theme_frame [simp]:
  "prevDynamic (paint_theme t d) = map fst (dynamic_vars t)" "activeFont (paint_theme t d) = activeFont d"
  "domVariant (paint_theme t d) = Some (case thVariant t of None \<Rightarrow> ''standard'' | Some v \<Rightarrow> v)"
  "domCustomCSS (paint_theme t d) =
     (case thCustomCSS t of None \<Rightarrow> None | Some s \<Rightarrow> if trim s = [] then None else Some s)"
  by (simp_all add: paint_theme_def Let_def apply_custom_css_def split: option.split)

lemma apply_theme_frame [simp]:
  "prevDynamic (apply_theme t d) = map fst (dynamic_vars t)" "activeFont (apply_theme t d) = activeFont d"
  "domVariant (apply_theme t d) = Some (case thVariant t of None \<Rightarrow> ''standard'' | Some v \<Rightarrow> v)"
  "domCustomCSS (apply_theme t d) =
     (case thCustomCSS t of None \<Rightarrow> None | Some s \<Rightarrow> if trim s = [] then None else Some s)"
  by (simp_all only: apply_theme_def Let_def apply_font_frame paint_theme_frame)

definition paint_spec :: "dashboard_theme \<Rightarrow> string option \<Rightarrow> string \<Rightarrow> string option" where
  "paint_spec t old k =
     (if k = ''--theme-terminal-foreground'' then
        nonempty_value (case thTermForeground t of None \<Rightarrow> ''#f0e6d2'' | Some c \<Rightarrow> c)
      else if k = ''--theme-terminal-background'' then
        nonempty_value (case thTermBackground t of None \<Rightarrow> ''#000000'' | Some c \<Rightarrow> c)
      else if k = ''--theme-layout-variant'' then
        nonempty_value (case thVariant t of None \<Rightarrow> ''standard'' | Some v \<Rightarrow> v)
      else case map_of (theme_vars t) k of None \<Rightarrow> old | Some v \<Rightarrow> nonempty_value v)"

lemma style_prev_update: "domStyle (d\<lparr>prevDynamic := ks\<rparr>) = domStyle d"
  by simp

lemma paint_theme_style:
  "map_of (domStyle (paint_theme t d)) k =
     paint_spec t (if k \<in> set (ALL_OVERRIDE_VARS @ ALL_SERIES_VARS @ prevDynamic d) then None
                   else map_of (domStyle d) k) k"
  by (simp only: paint_theme_def Let_def set_property_frame fun_upd_apply apply_variant_style
      custom_css_frame inject_font_frame fold_set distinct_theme_vars style_prev_update fold_remove paint_spec_def)

text \<open>A key that a theme does not write, and that is not cleared, is unset or one of the last four.\<close>

definition late_keys :: "string set" where
  "late_keys = {''--theme-layout-variant'', ''--theme-terminal-background'', ''--theme-terminal-foreground'',
     ''--theme-font-override-sans''}"

lemma always_written_cover: "always_written \<subseteq> fst ` set (theme_vars t) \<union> late_keys"
  unfolding always_written_keys [of t] keys_theme_vars late_keys_def [symmetric] by blast

lemma theme_vars_cover:
  "fst ` set (theme_vars t)
     \<subseteq> always_written \<union> set ALL_OVERRIDE_VARS \<union> set ALL_SERIES_VARS \<union> fst ` set (dynamic_vars t)"
  using override_keys [of "thOverrides t"] series_keys [of "thSeries t"]
  unfolding keys_theme_vars always_written_keys [of t] late_keys_def [symmetric] by blast

lemma unwritten_key:
  assumes "clean_dom d" "map_of (theme_vars t) k = None" "map_of (domStyle d) k \<noteq> None"
    "k \<notin> set (ALL_OVERRIDE_VARS @ ALL_SERIES_VARS @ prevDynamic d)"
  shows "k \<in> late_keys"
proof -
  obtain v where "map_of (domStyle d) k = Some v" using assms(3) by blast
  then have "k \<in> fst ` set (domStyle d)" by (metis fst_conv imageI map_of_SomeD)
  then have "k \<in> managed d" using assms(1) unfolding clean_dom_def by blast
  then have "k \<in> always_written" using assms(4) unfolding managed_def set_append by blast
  moreover have "k \<notin> fst ` set (theme_vars t)" using assms(2) by (simp add: map_of_eq_None_iff)
  ultimately show ?thesis using always_written_cover [of t] by blast
qed

lemma late_cases:
  obtains (font) "k = ''--theme-font-override-sans''"
  | (fg) "k = ''--theme-terminal-foreground''"
  | (bg) "k = ''--theme-terminal-background''"
  | (variant) "k = ''--theme-layout-variant''"
  | (other) "k \<notin> late_keys" "k \<noteq> ''--theme-font-override-sans''" "k \<noteq> ''--theme-terminal-foreground''"
      "k \<noteq> ''--theme-terminal-background''" "k \<noteq> ''--theme-layout-variant''"
proof (cases "k \<in> late_keys")
  case True
  then show ?thesis using font fg bg variant by (simp only: late_keys_def insert_iff empty_iff simp_thms) metis
next
  case False
  moreover from this have "k \<noteq> ''--theme-font-override-sans''" "k \<noteq> ''--theme-terminal-foreground''"
      "k \<noteq> ''--theme-terminal-background''" "k \<noteq> ''--theme-layout-variant''"
    by (simp_all only: late_keys_def insert_iff de_Morgan_disj not_False_eq_True simp_thms)
  ultimately show ?thesis by (rule other)
qed

lemma apply_theme_style:
  assumes "clean_dom d"
  shows "map_of (domStyle (apply_theme t d)) k = theme_spec t (activeFont d) k"
proof (cases k rule: late_cases)
  case other
  let ?old = "if k \<in> set (ALL_OVERRIDE_VARS @ ALL_SERIES_VARS @ prevDynamic d) then None else map_of (domStyle d) k"
  have "map_of (theme_vars t) k = None \<Longrightarrow> ?old = None"
    using unwritten_key [OF assms, of t k] other(1) by (cases "map_of (domStyle d) k") auto
  then have "paint_spec t ?old k = Option.bind (map_of (theme_vars t) k) nonempty_value"
    by (cases "map_of (theme_vars t) k") (simp_all only: paint_spec_def other if_False option.case bind.simps)
  then show ?thesis
    unfolding apply_theme_def Let_def apply_font_style paint_theme_style paint_theme_frame theme_spec_def
    by (cases "get_font_choice (Some (activeFont d))")
      (simp_all only: other option.case option.map if_False insert_iff empty_iff simp_thms option.simps split: if_split)
next
  case font
  then show ?thesis
    unfolding apply_theme_def Let_def apply_font_style paint_theme_frame theme_spec_def
    by (cases "get_font_choice (Some (activeFont d))") simp_all
next
  case fg
  then show ?thesis
    unfolding apply_theme_def Let_def apply_font_style paint_theme_style paint_theme_frame theme_spec_def
    by (cases "get_font_choice (Some (activeFont d))") (simp_all add: paint_spec_def)
next
  case bg
  then show ?thesis
    unfolding apply_theme_def Let_def apply_font_style paint_theme_style paint_theme_frame theme_spec_def
    by (cases "get_font_choice (Some (activeFont d))") (simp_all add: paint_spec_def)
next
  case variant
  then show ?thesis
    unfolding apply_theme_def Let_def apply_font_style paint_theme_style paint_theme_frame theme_spec_def
    by (cases "get_font_choice (Some (activeFont d))") (simp_all add: paint_spec_def)
qed

lemma theme_spec_keys: "theme_spec t font k \<noteq> None \<Longrightarrow> k \<in> fst ` set (theme_vars t) \<union> always_written"
proof (cases k rule: late_cases)
  case other
  assume spec: "theme_spec t font k \<noteq> None"
  have sans: "''--theme-font-sans'' \<in> always_written" "''--theme-font-display'' \<in> always_written"
    by (simp_all add: always_written_def typography_vars_def)
  show ?thesis
  proof (cases "map_of (theme_vars t) k")
    case None
    with spec other sans show ?thesis
      by (auto simp: theme_spec_def split: if_splits)
  next
    case (Some v)
    then show ?thesis by (metis UnI1 fst_conv imageI map_of_SomeD)
  qed
qed (simp_all add: always_written_def)

lemma clean_apply_theme:
  assumes "clean_dom d"
  shows "clean_dom (apply_theme t d)"
  unfolding clean_dom_def
proof
  fix k
  assume "k \<in> fst ` set (domStyle (apply_theme t d))"
  then have "map_of (domStyle (apply_theme t d)) k \<noteq> None" by (simp add: map_of_eq_None_iff)
  then have "k \<in> fst ` set (theme_vars t) \<union> always_written"
    using apply_theme_style [OF assms] theme_spec_keys by metis
  then show "k \<in> managed (apply_theme t d)"
    using theme_vars_cover [of t] unfolding managed_def apply_theme_frame set_map by blast
qed

text \<open>The document shows a theme and a font and nothing else.\<close>

definition looks_like :: "dashboard_theme \<Rightarrow> string \<Rightarrow> dom_state \<Rightarrow> bool" where
  "looks_like t font d \<longleftrightarrow>
     map_of (domStyle d) = theme_spec t font
     \<and> domCustomCSS d = (case thCustomCSS t of None \<Rightarrow> None | Some s \<Rightarrow> if trim s = [] then None else Some s)
     \<and> domVariant d = Some (case thVariant t of None \<Rightarrow> ''standard'' | Some v \<Rightarrow> v)"

lemma apply_theme_looks: "clean_dom d \<Longrightarrow> looks_like t (activeFont d) (apply_theme t d)"
  unfolding looks_like_def by (intro conjI ext) (simp_all only: apply_theme_style apply_theme_frame)

subsection \<open>Font style sheets\<close>

definition links_once :: "dom_state \<Rightarrow> bool" where
  "links_once d \<longleftrightarrow> distinct (domFontLinks d) \<and> set (injectedFonts d) \<subseteq> set (domFontLinks d)"

lemma links_once_style [simp]:
  "links_once (set_property k v d) = links_once d" "links_once (remove_property k d) = links_once d"
  "links_once (apply_custom_css c d) = links_once d" "links_once (apply_layout_variant w d) = links_once d"
  "links_once (d\<lparr>prevDynamic := ks\<rparr>) = links_once d" "links_once (d\<lparr>activeFont := a\<rparr>) = links_once d"
  by (simp_all add: links_once_def)

lemma links_once_folds [simp]:
  "links_once (fold (\<lambda>(k, v). set_property k v) kvs d) = links_once d"
  "links_once (fold remove_property ks d) = links_once d"
proof -
  show "links_once (fold (\<lambda>(k, v). set_property k v) kvs d) = links_once d"
    by (induction kvs arbitrary: d) (simp_all add: split_beta)
  show "links_once (fold remove_property ks d) = links_once d"
    by (induction ks arbitrary: d) simp_all
qed

lemma links_once_inject: "links_once d \<Longrightarrow> links_once (inject_font_stylesheet u d)"
  by (auto simp: links_once_def inject_font_stylesheet_def split: option.split)

lemma links_once_apply: "links_once d \<Longrightarrow> links_once (apply_theme t d)"
  by (simp add: apply_theme_def paint_theme_def Let_def apply_font_override_def links_once_inject split: option.split)

subsection \<open>The provider's invariant\<close>

definition stored_agrees :: "theme_provider \<Rightarrow> bool" where
  "stored_agrees s \<longleftrightarrow>
     (case storedTheme s of None \<Rightarrow> ''default'' | Some n \<Rightarrow> n) = provName s
     \<and> valid_font (storedFont s) = provFont s"

definition provider_inv :: "theme_provider \<Rightarrow> bool" where
  "provider_inv s \<longleftrightarrow>
     clean_dom (provDom s) \<and> links_once (provDom s) \<and> activeFont (provDom s) = provFont s
     \<and> looks_like (resolve_theme (provDefs s) (provName s)) (provFont s) (provDom s) \<and> stored_agrees s"

lemma clean_active [simp]: "clean_dom (d\<lparr>activeFont := a\<rparr>) = clean_dom d"
  by (simp add: clean_dom_def managed_def)

lemma theme_effect_frame [simp]:
  "provName (theme_effect s) = provName s" "provDefs (theme_effect s) = provDefs s"
  "provFont (theme_effect s) = provFont s" "storedTheme (theme_effect s) = storedTheme s"
  "storedFont (theme_effect s) = storedFont s" "mountName (theme_effect s) = mountName s"
  "mountFont (theme_effect s) = mountFont s" "provAvailable (theme_effect s) = provAvailable s"
  "prefCalls (theme_effect s) = prefCalls s" "themesPending (theme_effect s) = themesPending s"
  "fontPending (theme_effect s) = fontPending s"
  by (simp_all add: theme_effect_def)

lemma theme_effect_inv:
  "clean_dom (provDom s) \<Longrightarrow> links_once (provDom s) \<Longrightarrow> stored_agrees s \<Longrightarrow> provider_inv (theme_effect s)"
  using apply_theme_looks [of "(provDom s)\<lparr>activeFont := provFont s\<rparr>"]
  by (simp add: provider_inv_def stored_agrees_def) (simp add: theme_effect_def clean_apply_theme links_once_apply)

lemma commit_theme_inv:
  assumes "provider_inv old" and "provDom s = provDom old" and "stored_agrees s"
    and "newDefs \<or> provDefs s = provDefs old"
  shows "provider_inv (commit_theme old newDefs s)"
proof (cases "provName s \<noteq> provName old \<or> newDefs \<or> provFont s \<noteq> provFont old")
  case True
  have "clean_dom (provDom s)" "links_once (provDom s)"
    using assms(1,2) by (simp_all add: provider_inv_def)
  then show ?thesis using True assms(3) by (simp only: commit_theme_def if_True theme_effect_inv)
next
  case False
  then show ?thesis using assms by (simp only: commit_theme_def if_False) (simp add: provider_inv_def)
qed

lemma is_override_default [simp]: "\<not> is_override_font (Some THEME_DEFAULT_FONT_ID)"
  by (simp add: is_override_font_def)

lemma valid_font_idem [simp]: "valid_font (Some (valid_font i)) = valid_font i"
  by (auto simp: valid_font_def split: option.split)

lemma take_themes_frame [simp]:
  "provName (take_themes es s) = provName s" "provFont (take_themes es s) = provFont s"
  "storedTheme (take_themes es s) = storedTheme s" "storedFont (take_themes es s) = storedFont s"
  "provDom (take_themes es s) = provDom s" "mountName (take_themes es s) = mountName s"
  "mountFont (take_themes es s) = mountFont s"
  "shipped_defs es = [] \<Longrightarrow> provDefs (take_themes es s) = provDefs s"
  by (simp_all add: take_themes_def)

lemma take_active_frame [simp]:
  "provDom (take_active a s) = provDom s" "provDefs (take_active a s) = provDefs s"
  "provFont (take_active a s) = provFont s" "storedFont (take_active a s) = storedFont s"
  "stored_agrees s \<Longrightarrow> stored_agrees (take_active a s)"
  by (simp_all add: take_active_def Let_def stored_agrees_def)

lemma theme_step_inv: "provider_inv s \<Longrightarrow> provider_inv (theme_step s e)"
proof (cases e)
  case (ThemesArrived r)
  assume inv: "provider_inv s"
  have "stored_agrees (take_themes (respThemes r) (s\<lparr>themesPending := False\<rparr>))"
    using inv by (simp add: provider_inv_def stored_agrees_def)
  then show ?thesis
    using ThemesArrived by (auto simp: themes_arrived_def intro!: commit_theme_inv [OF inv])
next
  case (FontArrived pref)
  assume inv: "provider_inv s"
  then have "stored_agrees s" by (simp add: provider_inv_def)
  then show ?thesis using FontArrived
    by (auto simp: font_arrived_def Let_def stored_agrees_def intro!: commit_theme_inv [OF inv])
next
  case (PickTheme name)
  assume inv: "provider_inv s"
  then have "stored_agrees s" by (simp add: provider_inv_def)
  then show ?thesis using PickTheme
    by (auto simp: set_theme_def Let_def stored_agrees_def intro!: commit_theme_inv [OF inv])
next
  case (PickFont i)
  assume inv: "provider_inv s"
  then have "stored_agrees s" by (simp add: provider_inv_def)
  then show ?thesis using PickFont
    by (auto simp: set_font_def Let_def stored_agrees_def intro!: commit_theme_inv [OF inv])
qed (simp_all add: provider_inv_def stored_agrees_def)

lemma provider_start_inv:
  "clean_dom d \<Longrightarrow> links_once d \<Longrightarrow> provider_inv (provider_start themeItem fontItem d)"
  by (auto simp: provider_start_def Let_def stored_agrees_def intro!: theme_effect_inv split: option.split)

definition fresh_dom :: "string list \<Rightarrow> dom_state" where
  "fresh_dom links = \<lparr>domStyle = [], domCustomCSS = None, domVariant = None, domFontLinks = links,
     injectedFonts = [], prevDynamic = [], activeFont = THEME_DEFAULT_FONT_ID\<rparr>"

lemma fresh_dom_ok: "distinct links \<Longrightarrow> clean_dom (fresh_dom links) \<and> links_once (fresh_dom links)"
  by (simp add: fresh_dom_def clean_dom_def links_once_def)

lemma provider_run_inv:
  assumes "distinct links"
  shows "provider_inv (foldl theme_step (provider_start themeItem fontItem (fresh_dom links)) es)"
proof -
  have "provider_inv s \<Longrightarrow> provider_inv (foldl theme_step s es)" for s
    by (induction es arbitrary: s) (simp_all add: theme_step_inv)
  then show ?thesis using provider_start_inv fresh_dom_ok [OF assms] by blast
qed

section \<open>Properties\<close>

text \<open>Claim C13. Switching themes leaves nothing behind: after any answers of the server and any picks, in any
  order, the document shows exactly the active theme with the active font on top. Every custom
  property, the style tag and the layout variant are those of that theme and font alone, whatever
  was shown before, and no font style sheet is linked twice.\<close>

theorem theme_switches_leave_nothing:
  assumes "distinct links" and "s = foldl theme_step (provider_start themeItem fontItem (fresh_dom links)) es"
  shows "looks_like (resolve_theme (provDefs s) (provName s)) (provFont s) (provDom s)
    \<and> distinct (domFontLinks (provDom s))"
  using provider_run_inv [OF assms(1), of themeItem fontItem es]
  unfolding provider_inv_def links_once_def assms(2) by blast

definition sample_switches :: theme_provider where
  "sample_switches =
     foldl theme_step (provider_start (Some ''lens-5i'') None (fresh_dom []))
       [PickTheme ''ember'', PickFont ''inter'', PickTheme ''mono'']"

lemma commit_frame [simp]:
  "provName (commit_theme old b s) = provName s" "provDefs (commit_theme old b s) = provDefs s"
  "provFont (commit_theme old b s) = provFont s" "storedTheme (commit_theme old b s) = storedTheme s"
  "storedFont (commit_theme old b s) = storedFont s" "prefCalls (commit_theme old b s) = prefCalls s"
  "mountName (commit_theme old b s) = mountName s" "mountFont (commit_theme old b s) = mountFont s"
  "themesPending (commit_theme old b s) = themesPending s" "fontPending (commit_theme old b s) = fontPending s"
  "provAvailable (commit_theme old b s) = provAvailable s"
  by (simp_all add: commit_theme_def)

lemma start_frame [simp]:
  "provName (provider_start ti fi d) = migrate_theme_name (case ti of None \<Rightarrow> ''default'' | Some n \<Rightarrow> n)"
  "provDefs (provider_start ti fi d) = []" "provFont (provider_start ti fi d) = valid_font fi"
  "mountName (provider_start ti fi d) = migrate_theme_name (case ti of None \<Rightarrow> ''default'' | Some n \<Rightarrow> n)"
  "mountFont (provider_start ti fi d) = valid_font fi" "prefCalls (provider_start ti fi d) = []"
  "themesPending (provider_start ti fi d)" "fontPending (provider_start ti fi d)"
  "provAvailable (provider_start ti fi d) = builtin_entries"
  by (simp_all add: provider_start_def Let_def)

lemma pick_known [simp]:
  "name \<in> fst ` set BUILTIN_THEMES \<Longrightarrow> provName (set_theme name s) = name"
  "provFont (set_theme name s) = provFont s" "provDefs (set_theme name s) = provDefs s"
  "provName (set_font i s) = provName s" "provFont (set_font i s) = valid_font (Some i)"
  "provDefs (set_font i s) = provDefs s"
  by (simp_all add: set_theme_def set_font_def Let_def known_theme_def)

lemma builtin_names_are: "fst ` set BUILTIN_THEMES =
    {''default'', ''default-large'', ''nous-blue'', ''midnight'', ''ember'', ''mono'', ''cyberpunk'', ''rose''}"
  by (simp add: BUILTIN_THEMES_def)

theorem theme_switches_leave_nothing_witness:
  "looks_like monoTheme ''inter'' (provDom sample_switches)
   \<and> map_of (domStyle (provDom sample_switches)) ''--color-warning'' = None
   \<and> map_of (domStyle (provDom sample_switches)) ''--radius'' = Some ''0''"
proof -
  have inter: "valid_font (Some ''inter'') = ''inter''" by code_simp
  have "looks_like (resolve_theme (provDefs sample_switches) (provName sample_switches))
      (provFont sample_switches) (provDom sample_switches)"
    using theme_switches_leave_nothing [OF _ sample_switches_def] by simp
  moreover have "provName sample_switches = ''mono''" "provFont sample_switches = ''inter''"
    "provDefs sample_switches = []"
    by (simp_all add: sample_switches_def builtin_names_are inter)
  moreover have "resolve_theme [] ''mono'' = monoTheme" by (simp add: resolve_theme_def BUILTIN_THEMES_def)
  ultimately have look: "looks_like monoTheme ''inter'' (provDom sample_switches)" by simp
  have "theme_spec monoTheme ''inter'' ''--color-warning'' = None"
    "theme_spec monoTheme ''inter'' ''--radius'' = Some ''0''" by code_simp+
  with look show ?thesis by (simp add: looks_like_def)
qed

text \<open>A renamed theme is listed by no server, so that the migration has the last word.\<close>

definition alias_free_event :: "theme_event \<Rightarrow> bool" where
  "alias_free_event e \<longleftrightarrow>
     (case e of ThemesArrived r \<Rightarrow> ''lens-5i'' \<notin> set (map entName (respThemes r)) | _ \<Rightarrow> True)"

definition alias_free :: "theme_provider \<Rightarrow> bool" where
  "alias_free s \<longleftrightarrow> provName s \<noteq> ''lens-5i'' \<and> \<not> known_theme s ''lens-5i''"

lemma migrate_idem: "migrate_theme_name (migrate_theme_name n) = migrate_theme_name n"
  "migrate_theme_name n \<noteq> ''lens-5i''" "n \<noteq> ''lens-5i'' \<Longrightarrow> migrate_theme_name n = n"
  by (auto simp: migrate_theme_name_def THEME_NAME_ALIASES_def)

lemma known_commit [simp]: "known_theme (commit_theme old b s) = known_theme s"
  by (simp add: known_theme_def fun_eq_iff)

lemma shipped_names: "fst ` set (shipped_defs es) \<subseteq> entName ` set es"
proof -
  have "fst ` set (fold (\<lambda>e out. case entDefinition e of None \<Rightarrow> out | Some t \<Rightarrow> obj_set (entName e) t out) es out)
      \<subseteq> fst ` set out \<union> entName ` set es" for out
  proof (induction es arbitrary: out)
    case (Cons e es)
    show ?case
    proof (cases "entDefinition e")
      case None
      then show ?thesis using Cons [of out] by auto
    next
      case (Some t)
      then show ?thesis using Cons [of "obj_set (entName e) t out"] by auto
    qed
  qed simp
  from this [of "[]"] show ?thesis by (simp add: shipped_defs_def)
qed

lemma known_take_active [simp]: "known_theme (take_active a s) = known_theme s"
  by (simp add: take_active_def Let_def known_theme_def fun_eq_iff)

lemma alias_free_step:
  assumes "alias_free s" and "alias_free_event e"
  shows "alias_free (theme_step s e)"
proof (cases e)
  case (ThemesArrived r)
  have "\<not> known_theme (take_themes (respThemes r) (s\<lparr>themesPending := False\<rparr>)) ''lens-5i''"
    using assms ThemesArrived shipped_names [of "respThemes r"]
    by (auto simp: alias_free_def alias_free_event_def known_theme_def take_themes_def)
  moreover have "provName (take_active (respActive r) (take_themes (respThemes r) (s\<lparr>themesPending := False\<rparr>))) \<noteq> ''lens-5i''"
    using assms(1) migrate_idem(2) [of "respActive r"]
    by (auto simp: take_active_def Let_def alias_free_def)
  ultimately show ?thesis using ThemesArrived by (simp add: alias_free_def themes_arrived_def)
next
  case (FontArrived pref)
  then show ?thesis using assms(1) by (simp add: alias_free_def font_arrived_def Let_def known_theme_def)
next
  case (PickTheme name)
  then show ?thesis using assms(1)
    by (auto simp: alias_free_def set_theme_def Let_def) (simp_all add: known_theme_def)
next
  case (PickFont i)
  then show ?thesis using assms(1) by (simp add: alias_free_def set_font_def Let_def known_theme_def)
qed (use assms in \<open>simp_all add: alias_free_def known_theme_def\<close>)

interpretation theme_machine: machine "provider_start themeItem fontItem (fresh_dom [])" theme_step
  "\<lambda>s e. theme_enabled s e \<and> alias_free_event e" "\<lambda>s. provider_inv s \<and> alias_free s"
proof
  have "alias_free (provider_start themeItem fontItem (fresh_dom []))"
    by (simp add: alias_free_def provider_start_def Let_def migrate_idem known_theme_def builtin_entries_def
        BUILTIN_THEMES_def) code_simp
  then show "provider_inv (provider_start themeItem fontItem (fresh_dom []))
      \<and> alias_free (provider_start themeItem fontItem (fresh_dom []))"
    using provider_run_inv [of "[]" themeItem fontItem "[]"] by simp
qed (simp add: theme_step_inv alias_free_step)

text \<open>A reload keeps the user's appearance: after any run in which no server lists a renamed theme,
  a provider started again from what is in local storage comes up with the same theme and the same
  font, whatever the storage held at first.\<close>

theorem reload_keeps_appearance:
  assumes "legal_run (\<lambda>s e. theme_enabled s e \<and> alias_free_event e) theme_step
      (provider_start themeItem fontItem (fresh_dom [])) es"
    and "s = foldl theme_step (provider_start themeItem fontItem (fresh_dom [])) es"
  shows "provName (provider_start (storedTheme s) (storedFont s) d) = provName s
    \<and> provFont (provider_start (storedTheme s) (storedFont s) d) = provFont s"
proof -
  have "provider_inv s \<and> alias_free s" using theme_machine.run_inv [OF assms(1)] assms(2) by simp
  then show ?thesis
    by (auto simp: provider_inv_def stored_agrees_def alias_free_def provider_start_def Let_def migrate_idem)
qed

definition sample_answers :: "theme_event list" where
  "sample_answers =
     [ThemesArrived \<lparr>respActive = ''lens-5i'', respThemes = []\<rparr>, FontArrived (Some ''bogus''), PickFont ''spectral'']"

theorem reload_keeps_appearance_witness:
  "\<exists>s. s = foldl theme_step (provider_start None None (fresh_dom [])) sample_answers
     \<and> provName (provider_start (storedTheme s) (storedFont s) (fresh_dom [])) = ''nous-blue''
     \<and> provFont (provider_start (storedTheme s) (storedFont s) (fresh_dom [])) = ''spectral''"
proof -
  have legal: "legal_run (\<lambda>s e. theme_enabled s e \<and> alias_free_event e) theme_step
      (provider_start None None (fresh_dom [])) sample_answers"
    by (simp add: sample_answers_def alias_free_event_def themes_arrived_def take_active_def take_themes_def Let_def
        font_arrived_def)
  have fonts: "valid_font (Some ''bogus'') = valid_font None" "valid_font (Some ''spectral'') = ''spectral''" by code_simp+
  have "provName (foldl theme_step (provider_start None None (fresh_dom [])) sample_answers) = ''nous-blue''"
    "provFont (foldl theme_step (provider_start None None (fresh_dom [])) sample_answers) = ''spectral''"
    by (simp_all add: sample_answers_def themes_arrived_def take_active_def take_themes_def Let_def
        migrate_theme_name_def THEME_NAME_ALIASES_def font_arrived_def fonts)
  then show ?thesis using reload_keeps_appearance [OF legal refl, of "fresh_dom []"] by auto
qed

text \<open>The mount effects compare the server's answer with the first render's closure, so an answer that
  comes after a pick replaces the pick, in the document and in local storage, while the server was
  told the picked name.\<close>

lemma late_answer_overrides_pick:
  "let s = foldl theme_step (provider_start None None (fresh_dom []))
         [PickTheme ''ember'', ThemesArrived \<lparr>respActive = ''midnight'', respThemes = []\<rparr>]
   in provName s = ''midnight'' \<and> storedTheme s = Some ''midnight'' \<and> prefCalls s = [SetThemeCall ''ember'']"
  by (simp add: Let_def builtin_names_are set_theme_def known_theme_def themes_arrived_def take_active_def
      take_themes_def migrate_theme_name_def THEME_NAME_ALIASES_def)

end
