(* ===== verification/Format.thy ===== *)
theory Format
  imports JsValue
begin

text \<open>
  The number, size, duration and date formatters of \<open>web/src/api.ts\<close> and \<open>web/src/lib/format.ts\<close>.
  Sizes are divided by powers of two, so exact rationals stand for them; other quotients are rounded to
  the doubles that the program computes with. The locale's date formatter is a parameter.
\<close>

section \<open>Formatters\<close>

text \<open>\<open>toFixed(d)\<close> of a number that is not negative: the nearest decimal, ties up.\<close>

definition fixed_units :: "nat \<Rightarrow> rat \<Rightarrow> nat" where
  "fixed_units d x = nat \<lfloor>x * 10 ^ d + 1 / 2\<rfloor>"

definition to_fixed :: "nat \<Rightarrow> rat \<Rightarrow> string" where
  "to_fixed d x =
     (let n = fixed_units d x; frac = show_nat (n mod 10 ^ d)
      in show_nat (n div 10 ^ d) @ CHR ''.'' # replicate (d - length frac) (CHR ''0'') @ frac)"

text \<open>The loop over the units: \<open>units\<close> are those still to come.\<close>

fun scale_units :: "rat \<Rightarrow> string \<Rightarrow> string list \<Rightarrow> rat \<times> string" where
  "scale_units x u [] = (x, u)"
| "scale_units x u (v # vs) = (if x \<ge> 1024 then scale_units (x / 1024) v vs else (x, u))"

text \<open>Byte counts are whole numbers; the dash is the program's em dash, written as its escape.\<close>

definition dash :: string where
  "dash = CHR 0x5C # ''u2014''"

definition format_bytes :: "nat option \<Rightarrow> string" where
  "format_bytes v =
     (case v of
        None \<Rightarrow> dash
      | Some n \<Rightarrow>
          if n < 1024 then show_nat n @ '' B''
          else (case scale_units (of_nat n / 1024) ''KB'' [''MB'', ''GB'', ''TB''] of
              (x, u) \<Rightarrow> to_fixed (if x \<ge> 10 then 1 else 2) x @ CHR '' '' # u))"

definition format_duration :: "nat \<Rightarrow> string" where
  "format_duration seconds =
     (let days = seconds div 86400; hours = seconds mod 86400 div 3600; minutes = seconds mod 3600 div 60
      in if days \<noteq> 0 then show_nat days @ ''d '' @ show_nat hours @ ''h''
         else if hours \<noteq> 0 then show_nat hours @ ''h '' @ show_nat minutes @ ''m''
         else if minutes \<noteq> 0 then show_nat minutes @ ''m '' @ show_nat (seconds mod 60) @ ''s''
         else show_nat seconds @ ''s'')"

text \<open>\<open>parse\<close> is \<open>new Date(value)\<close>, \<open>None\<close> for an invalid date, and \<open>fmt\<close> the locale's
  formatter.\<close>

definition format_date :: "(string \<Rightarrow> 'd option) \<Rightarrow> ('d \<Rightarrow> string) \<Rightarrow> string option \<Rightarrow> string" where
  "format_date parse fmt v =
     (case v of
        None \<Rightarrow> dash
      | Some s \<Rightarrow> if s = [] then dash else (case parse s of None \<Rightarrow> s | Some d \<Rightarrow> fmt d))"

text \<open>Reading a printed size back: the digits before and after the point, and the unit.\<close>

definition size_units :: "(string \<times> nat) list" where
  "size_units = [(''B'', 1), (''KB'', 1024), (''MB'', 1024 ^ 2), (''GB'', 1024 ^ 3), (''TB'', 1024 ^ 4)]"

definition read_decimal :: "string \<Rightarrow> rat" where
  "read_decimal s =
     (case split_on (CHR ''.'') s of
        [a, b] \<Rightarrow> of_nat (parse_digits a) + of_nat (parse_digits b) / 10 ^ length b
      | _ \<Rightarrow> of_nat (parse_digits s))"

definition read_size :: "string \<Rightarrow> rat option" where
  "read_size s =
     (case split_on (CHR '' '') s of
        [x, u] \<Rightarrow> map_option (\<lambda>m. read_decimal x * of_nat m) (map_of size_units u)
      | _ \<Rightarrow> None)"

lemma parse_padded: "parse_digits (replicate k (CHR ''0'') @ s) = parse_digits s"
proof (induction s rule: rev_induct)
  case Nil
  have "parse_digits (replicate k (CHR ''0'')) = 0"
  proof (induction k)
    case (Suc k)
    have "replicate (Suc k) (CHR ''0'') = replicate k (CHR ''0'') @ [CHR ''0'']"
      by (simp add: replicate_append_same)
    with Suc show ?case by (simp only: parse_digits_snoc) (simp add: digit_val_def code_def)
  qed (simp add: parse_digits_def)
  then show ?case by (simp add: parse_digits_def)
next
  case (snoc c s)
  then show ?case by (simp add: parse_digits_snoc flip: append_assoc)
qed

lemma length_show_nat_le: "n < 10 ^ d \<Longrightarrow> 0 < d \<Longrightarrow> length (show_nat n) \<le> d"
proof (induction d arbitrary: n)
  case (Suc d)
  show ?case
  proof (cases "n < 10")
    case False
    with Suc.prems have "d \<noteq> 0" by (cases d) auto
    moreover have "n div 10 < 10 ^ d" using Suc.prems by (simp add: less_mult_imp_div_less mult.commute)
    ultimately have "length (show_nat (n div 10)) \<le> d" using Suc.IH by simp
    with False show ?thesis by (subst show_nat.simps) simp
  qed (simp add: length_show_nat_1)
qed simp

lemma show_nat_free: "\<not> is_digit c \<Longrightarrow> c \<notin> set (show_nat n)"
  using show_nat_digits by blast

lemma delim_not_digit: "\<not> is_digit (CHR ''.'')" "\<not> is_digit (CHR '' '')"
  by (simp_all add: is_digit_def code_def)

lemma read_to_fixed:
  assumes "0 < d"
  shows "read_decimal (to_fixed d x) = of_nat (fixed_units d x) / 10 ^ d" and "CHR '' '' \<notin> set (to_fixed d x)"
proof -
  let ?n = "fixed_units d x"
  let ?b = "replicate (d - length (show_nat (?n mod 10 ^ d))) (CHR ''0'') @ show_nat (?n mod 10 ^ d)"
  have len: "length ?b = d" using length_show_nat_le [of "?n mod 10 ^ d" d] assms by simp
  have free: "CHR ''.'' \<notin> set ?b" "CHR '' '' \<notin> set ?b" "CHR '' '' \<notin> set (show_nat m)" for m
    using show_nat_free delim_not_digit by auto
  have "split_on (CHR ''.'') (to_fixed d x) = [show_nat (?n div 10 ^ d), ?b]"
    using show_nat_free [OF delim_not_digit(1)] free
    by (simp add: to_fixed_def Let_def split_on_append split_on_free)
  moreover have "parse_digits ?b = ?n mod 10 ^ d" by (simp add: parse_padded)
  ultimately have "read_decimal (to_fixed d x) = of_nat (?n div 10 ^ d) + of_nat (?n mod 10 ^ d) / 10 ^ d"
    using len by (simp add: read_decimal_def)
  also have "\<dots> = of_nat (?n div 10 ^ d * 10 ^ d + ?n mod 10 ^ d) / 10 ^ d"
    by (simp add: add_divide_distrib)
  also have "?n div 10 ^ d * 10 ^ d + ?n mod 10 ^ d = ?n" by (rule div_mult_mod_eq)
  finally show "read_decimal (to_fixed d x) = of_nat ?n / 10 ^ d" .
  show "CHR '' '' \<notin> set (to_fixed d x)" using free by (simp add: to_fixed_def Let_def)
qed

lemma fixed_units_near:
  assumes "0 \<le> x"
  shows "\<bar>of_nat (fixed_units d x) / 10 ^ d - x\<bar> \<le> 1 / (2 * 10 ^ d)"
proof -
  let ?y = "x * 10 ^ d + 1 / 2"
  have "0 \<le> \<lfloor>?y\<rfloor>" using assms by simp
  then have u: "of_nat (fixed_units d x) = (of_int \<lfloor>?y\<rfloor> :: rat)" by (simp add: fixed_units_def of_nat_nat)
  have "of_int \<lfloor>?y\<rfloor> \<le> ?y" "?y < of_int \<lfloor>?y\<rfloor> + 1" using floor_correct [of ?y] by simp_all
  then have "\<bar>of_int \<lfloor>?y\<rfloor> - x * 10 ^ d\<bar> \<le> 1 / 2" by linarith
  then have "\<bar>of_int \<lfloor>?y\<rfloor> - x * 10 ^ d\<bar> / 10 ^ d \<le> 1 / 2 / 10 ^ d" by (rule divide_right_mono) simp
  moreover have "\<bar>of_int \<lfloor>?y\<rfloor> - x * 10 ^ d\<bar> / 10 ^ d = \<bar>of_int \<lfloor>?y\<rfloor> / 10 ^ d - x\<bar>"
    by (subst abs_div_pos) (simp_all add: diff_divide_distrib)
  ultimately show ?thesis by (simp add: u)
qed

text \<open>The unit loop keeps the value, and stops below 1024 unless the units run out.\<close>

definition unit_size :: "string \<Rightarrow> nat" where
  "unit_size u = (case map_of size_units u of None \<Rightarrow> 0 | Some m \<Rightarrow> m)"

lemma scale_units_value:
  assumes "1 \<le> y"
  obtains x u where "scale_units y ''KB'' [''MB'', ''GB'', ''TB''] = (x, u)" "1 \<le> x"
    "u \<in> {''KB'', ''MB'', ''GB'', ''TB''}" "x * of_nat (unit_size u) = y * 1024"
proof -
  obtain x u where xu: "scale_units y ''KB'' [''MB'', ''GB'', ''TB''] = (x, u)" by fastforce
  moreover have "1 \<le> x" "u \<in> {''KB'', ''MB'', ''GB'', ''TB''}"
    using xu assms by (auto split: if_splits)
  moreover have "x * of_nat (unit_size u) = y * 1024"
    using xu by (auto simp: unit_size_def size_units_def split: if_splits)
  ultimately show ?thesis by (rule that)
qed

text \<open>A printed size can be trusted: for every byte count, the number and unit that
  \<open>formatBytes\<close> prints read back as a size within half a percent of the count, and exactly for
  counts below one kilobyte.\<close>

theorem format_bytes_is_accurate:
  "\<exists>r. read_size (format_bytes (Some n)) = Some r \<and> \<bar>r - of_nat n\<bar> \<le> of_nat n / 200
     \<and> (n \<ge> 1024 \<or> r = of_nat n)"
proof (cases "n < 1024")
  case True
  have "split_on (CHR '' '') (show_nat n @ '' B'') = [show_nat n, ''B'']"
    using show_nat_free [OF delim_not_digit(2), of n] by (simp add: split_on_append)
  moreover have "read_decimal (show_nat n) = of_nat n"
    using show_nat_free [OF delim_not_digit(1), of n] by (simp add: read_decimal_def split_on_free)
  ultimately show ?thesis using True by (simp add: format_bytes_def read_size_def size_units_def)
next
  case False
  then have "1 \<le> (of_nat n / 1024 :: rat)" by simp
  then obtain x u where xu: "scale_units (of_nat n / 1024) ''KB'' [''MB'', ''GB'', ''TB''] = (x, u)" "1 \<le> x"
    "u \<in> {''KB'', ''MB'', ''GB'', ''TB''}" "x * of_nat (unit_size u) = of_nat n / 1024 * 1024"
    by (rule scale_units_value)
  define d :: nat where "d = (if x \<ge> 10 then 1 else 2)"
  have "0 < d" by (simp add: d_def)
  note fixed = read_to_fixed [OF this, of x]
  have "split_on (CHR '' '') (to_fixed d x @ CHR '' '' # u) = [to_fixed d x, u]"
    using fixed(2) xu(3) by (auto simp: split_on_append)
  moreover have "map_of size_units u = Some (unit_size u)"
    using xu(3) by (auto simp: size_units_def unit_size_def)
  moreover have "format_bytes (Some n) = to_fixed d x @ CHR '' '' # u"
    using False xu(1) by (simp add: format_bytes_def d_def)
  ultimately have r: "read_size (format_bytes (Some n)) = Some (of_nat (fixed_units d x) / 10 ^ d * of_nat (unit_size u))"
    by (simp add: read_size_def fixed(1))
  have "1 / (2 * 10 ^ d) \<le> x / 200" using xu(2) by (simp add: d_def)
  then have "\<bar>of_nat (fixed_units d x) / 10 ^ d - x\<bar> \<le> x / 200"
    using fixed_units_near [of x d] xu(2) by simp
  then have "\<bar>of_nat (fixed_units d x) / 10 ^ d - x\<bar> * of_nat (unit_size u) \<le> x / 200 * of_nat (unit_size u)"
    by (rule mult_right_mono) simp
  moreover have "\<bar>of_nat (fixed_units d x) / 10 ^ d - x\<bar> * of_nat (unit_size u)
      = \<bar>of_nat (fixed_units d x) / 10 ^ d * of_nat (unit_size u) - x * of_nat (unit_size u)\<bar>"
    by (subst left_diff_distrib [symmetric]) (simp only: abs_mult abs_of_nat)
  ultimately show ?thesis using r xu(4) False by simp
qed

section \<open>Durations\<close>

definition duration_unit :: "char \<Rightarrow> nat" where
  "duration_unit c = (if c = CHR ''d'' then 86400 else if c = CHR ''h'' then 3600 else if c = CHR ''m'' then 60 else 1)"

definition read_part :: "string \<Rightarrow> nat" where
  "read_part w = parse_digits (butlast w) * duration_unit (last w)"

definition read_duration :: "string \<Rightarrow> nat" where
  "read_duration s = sum_list (map read_part (split_on (CHR '' '') s))"

text \<open>The size of the smallest unit that is printed.\<close>

definition printed_grain :: "nat \<Rightarrow> nat" where
  "printed_grain s = (if s \<ge> 86400 then 3600 else if s \<ge> 3600 then 60 else 1)"

lemma read_parts:
  assumes "c \<noteq> CHR '' ''" "c' \<noteq> CHR '' ''"
  shows "read_duration (show_nat a @ [c]) = a * duration_unit c"
    and "read_duration (show_nat a @ c # CHR '' '' # show_nat b @ [c']) = a * duration_unit c + b * duration_unit c'"
proof -
  have free: "CHR '' '' \<notin> set (show_nat n)" for n using show_nat_free [OF delim_not_digit(2)] .
  have one: "CHR '' '' \<notin> set (show_nat n @ [k])" if "k \<noteq> CHR '' ''" for n k using free that by simp
  show "read_duration (show_nat a @ [c]) = a * duration_unit c"
    using split_on_free [OF one [OF assms(1), of a]] by (simp add: read_duration_def read_part_def)
  show "read_duration (show_nat a @ c # CHR '' '' # show_nat b @ [c']) = a * duration_unit c + b * duration_unit c'"
    using split_on_append [OF one [OF assms(1), of a], of "show_nat b @ [c']"] split_on_free [OF one [OF assms(2), of b]]
    by (simp add: read_duration_def read_part_def)
qed

lemma split_units:
  fixes s a b :: nat
  assumes "0 < b"
  shows "s div (b * a) * (b * a) + s mod (b * a) div b * b = s div b * b"
proof -
  have "s mod (b * a) div b = s div b mod a" using assms by (simp add: mod_mult2_eq)
  moreover have "s div (b * a) = s div b div a" by (simp add: div_mult2_eq)
  ultimately have "s div (b * a) * (b * a) + s mod (b * a) div b * b = (s div b div a * a + s div b mod a) * b"
    by (simp only: add_mult_distrib mult.assoc mult.commute [of b a])
  then show ?thesis by (simp only: div_mult_mod_eq)
qed

text \<open>A printed duration is the duration rounded down to the smallest unit shown: what
  \<open>formatDuration\<close> prints reads back as the largest multiple of that unit that has passed.\<close>

theorem format_duration_rounds_down:
  "read_duration (format_duration s) = s div printed_grain s * printed_grain s"
proof -
  consider "86400 \<le> s" | "3600 \<le> s" "s < 86400" | "60 \<le> s" "s < 3600" | "s < 60" by linarith
  then show ?thesis
  proof cases
    case 1
    then have "format_duration s = show_nat (s div 86400) @ CHR ''d'' # CHR '' '' # show_nat (s mod 86400 div 3600) @ [CHR ''h'']"
      by (simp add: format_duration_def Let_def div_greater_zero_iff)
    then have "read_duration (format_duration s) = (s div 86400) * 86400 + (s mod 86400 div 3600) * 3600"
      by (simp add: read_parts duration_unit_def)
    moreover have "s div 86400 * 86400 + s mod 86400 div 3600 * 3600 = s div 3600 * 3600"
      using split_units [of 3600 s 24] by simp
    ultimately show ?thesis using 1 by (simp add: printed_grain_def)
  next
    case 2
    then have "format_duration s = show_nat (s div 3600) @ CHR ''h'' # CHR '' '' # show_nat (s mod 3600 div 60) @ [CHR ''m'']"
      by (simp add: format_duration_def Let_def div_greater_zero_iff)
    then have "read_duration (format_duration s) = (s div 3600) * 3600 + (s mod 3600 div 60) * 60"
      by (simp add: read_parts duration_unit_def)
    moreover have "s div 3600 * 3600 + s mod 3600 div 60 * 60 = s div 60 * 60"
      using split_units [of 60 s 60] by simp
    ultimately show ?thesis using 2 by (simp add: printed_grain_def)
  next
    case 3
    then have "format_duration s = show_nat (s div 60) @ CHR ''m'' # CHR '' '' # show_nat (s mod 60) @ [CHR ''s'']"
      by (simp add: format_duration_def Let_def div_greater_zero_iff)
    then have "read_duration (format_duration s) = (s div 60) * 60 + (s mod 60) * 1"
      by (simp add: read_parts duration_unit_def)
    moreover have "s div 60 * 60 + s mod 60 = s" by (rule div_mult_mod_eq)
    ultimately show ?thesis using 3 by (simp add: printed_grain_def)
  next
    case 4
    then have "format_duration s = show_nat s @ [CHR ''s'']" by (simp add: format_duration_def Let_def)
    then have "read_duration (format_duration s) = s * duration_unit (CHR ''s'')"
      using read_parts(1) [of "CHR ''s''" "CHR ''s''" s] by simp
    then have "read_duration (format_duration s) = s" by (simp add: duration_unit_def)
    then show ?thesis using 4 by (simp add: printed_grain_def)
  qed
qed

section \<open>Token counts\<close>

text \<open>The double next to a positive rational: 53 significant bits, ties to even. (Overflow and underflow are far
  outside the numbers printed here.)\<close>

fun bit_log :: "nat \<Rightarrow> nat" where
  "bit_log n = (if n < 2 then 0 else Suc (bit_log (n div 2)))"

declare bit_log.simps [simp del]

definition round_quotient :: "nat \<Rightarrow> nat \<Rightarrow> nat" where
  "round_quotient a b =
     (let q = a div b; r = a mod b
      in if 2 * r < b then q else if b < 2 * r then q + 1 else if even q then q else q + 1)"

definition double_div :: "nat \<Rightarrow> nat \<Rightarrow> rat" where
  "double_div n b =
     (let k = (if n < b then 53 + bit_log ((b - 1) div n) else 52 - bit_log (n div b))
      in of_nat (round_quotient (n * 2 ^ k) b) / 2 ^ k)"

lemma round_quotient_near:
  assumes "0 < b"
  shows "\<bar>of_nat (round_quotient a b) - of_nat a / of_nat b\<bar> \<le> (1 / 2 :: rat)"
proof -
  let ?q = "a div b" and ?r = "a mod b"
  have "of_nat a = (of_nat (?q * b + ?r) :: rat)" by simp
  then have "of_nat a = of_nat ?q * of_nat b + (of_nat ?r :: rat)" by (simp only: of_nat_add of_nat_mult)
  then have eq: "of_nat a / of_nat b = of_nat ?q + of_nat ?r / (of_nat b :: rat)"
    using assms by (simp add: field_simps)
  have "?r < b" using assms by simp
  then have r: "of_nat ?r / of_nat b < (1 :: rat)" "0 \<le> of_nat ?r / (of_nat b :: rat)" using assms by simp_all
  have low: "2 * ?r \<le> b \<Longrightarrow> of_nat ?r / of_nat b \<le> (1 / 2 :: rat)"
    using assms of_nat_mono [of "2 * ?r" b, where 'a = rat] by (simp add: field_simps)
  have high: "b \<le> 2 * ?r \<Longrightarrow> (1 / 2 :: rat) \<le> of_nat ?r / of_nat b"
    using assms of_nat_mono [of b "2 * ?r", where 'a = rat] by (simp add: field_simps)
  show ?thesis
    unfolding eq round_quotient_def Let_def using r low high by auto
qed

lemma double_div_near:
  assumes "0 < b" "b \<le> n"
  shows "\<bar>double_div n b - of_nat n / of_nat b\<bar> \<le> 1 / 2 ^ (53 - bit_log (n div b))"
proof -
  let ?k = "52 - bit_log (n div b)" and ?q = "of_nat n / of_nat b :: rat"
  have "double_div n b = of_nat (round_quotient (n * 2 ^ ?k) b) / 2 ^ ?k"
    using assms by (simp add: double_div_def Let_def)
  then have "\<bar>double_div n b - ?q\<bar> = \<bar>of_nat (round_quotient (n * 2 ^ ?k) b) - of_nat (n * 2 ^ ?k) / of_nat b\<bar> / 2 ^ ?k"
    by (subst abs_div_pos) (simp_all add: diff_divide_distrib)
  also have "\<dots> \<le> 1 / 2 / 2 ^ ?k"
    by (rule divide_right_mono [OF round_quotient_near]) (use assms in simp_all)
  also have "1 / 2 / 2 ^ ?k = (1 :: rat) / 2 ^ Suc ?k" by simp
  also have "\<dots> \<le> 1 / 2 ^ (53 - bit_log (n div b))"
    by (intro divide_left_mono power_increasing) auto
  finally show ?thesis .
qed

lemma bit_log_numeral: "bit_log (Suc 0) = 0" "bit_log 1 = 0" "bit_log (numeral (Num.Bit0 m)) = Suc (bit_log (numeral m))"
  "bit_log (numeral (Num.Bit1 m)) = Suc (bit_log (numeral m))"
  by (subst bit_log.simps; simp)+

text \<open>\<open>formatTokenCount\<close> of \<open>lib/format.ts\<close>.\<close>

definition to_fixed_0 :: "rat \<Rightarrow> string" where
  "to_fixed_0 x = show_nat (fixed_units 0 x)"

definition format_token_count :: "nat \<Rightarrow> string" where
  "format_token_count n =
     (if n \<ge> 1000000 then
        (if n mod 1000000 = 0 then to_fixed_0 (of_nat n / 1000000) else to_fixed 1 (double_div n 1000000)) @ ''M''
      else if n \<ge> 1000 then
        (if n mod 1000 = 0 then to_fixed_0 (of_nat n / 1000) else to_fixed 1 (double_div n 1000)) @ ''K''
      else show_nat n)"

text \<open>The comment promises that a trailing ".0" is stripped; a count just above a round number keeps it.\<close>

lemma fixed_unitsI: "of_nat m \<le> x * 10 ^ d + 1 / 2 \<Longrightarrow> x * 10 ^ d + 1 / 2 < of_nat m + 1 \<Longrightarrow> fixed_units d x = m"
  by (simp add: fixed_units_def floor_eq_iff nat_eq_iff)

lemma token_count_keeps_zero: "format_token_count 128001 = ''128.0K''"
proof -
  have "fixed_units 1 (double_div 128001 1000) = 1280"
    by (rule fixed_unitsI) (simp_all add: double_div_def bit_log_numeral round_quotient_def Let_def)
  moreover have "show_nat 128 = ''128''" "show_nat 0 = ''0''" by code_simp+
  ultimately show ?thesis by (simp add: format_token_count_def to_fixed_def Let_def)
qed

text \<open>\<open>formatTokens\<close> of the usage pages, and what its rounding does below a million.\<close>

definition format_tokens :: "nat \<Rightarrow> string" where
  "format_tokens n =
     (if n \<ge> 1000000 then to_fixed 1 (double_div n 1000000) @ ''M''
      else if n \<ge> 1000 then to_fixed 1 (double_div n 1000) @ ''K''
      else show_nat n)"

lemma tokens_below_a_million: "format_tokens 999950 = ''1000.0K''" "format_tokens 1150 = ''1.1K''"
proof -
  have "fixed_units 1 (double_div 999950 1000) = 10000" "fixed_units 1 (double_div 1150 1000) = 11"
    by (rule fixed_unitsI, simp_all add: double_div_def bit_log_numeral round_quotient_def Let_def)+
  moreover have "show_nat 1000 = ''1000''" "show_nat 0 = ''0''" "show_nat 1 = ''1''" by code_simp+
  ultimately show "format_tokens 999950 = ''1000.0K''" "format_tokens 1150 = ''1.1K''"
    by (simp_all add: format_tokens_def to_fixed_def Let_def)
qed

end
