(* ===== verification/Markdown.thy ===== *)
theory Markdown
  imports JsString
begin

text \<open>
  The message renderer, \<open>web/src/components/Markdown.tsx\<close>: the block parser, the inline parser,
  the highlighting of search terms, and the elements they are rendered to (class names are left
  out). The block parser's outer loop need not end, so it is a partial function.
\<close>

section \<open>Blocks\<close>

datatype block =
    CodeBlock string string
  | HeadingBlock nat string
  | RuleBlock
  | ListBlock bool "string list"
  | ParagraphBlock string

abbreviation nl :: char where "nl \<equiv> CHR 0x0A"

definition is_word_char :: "char \<Rightarrow> bool" where
  "is_word_char c \<longleftrightarrow> is_digit c \<or> (65 \<le> code c \<and> code c \<le> 90) \<or> (97 \<le> code c \<and> code c \<le> 122) \<or> c = CHR ''_''"

definition is_eol :: "char \<Rightarrow> bool" where
  "is_eol c \<longleftrightarrow> code c = 10 \<or> code c = 13"

definition backticks :: string where
  "backticks = replicate 3 (CHR 0x60)"

definition is_fence :: "string \<Rightarrow> bool" where
  "is_fence l = starts_with l backticks"

definition fence_lang :: "string \<Rightarrow> string" where
  "fence_lang l = takeWhile is_word_char (drop 3 l)"

text \<open>\<open>/^(#{1,4})\s+(.+)/\<close>: the white space is matched greedily and given back until the dot
  matches something.\<close>

definition hashes :: "string \<Rightarrow> nat" where
  "hashes l = length (takeWhile (\<lambda>c. c = CHR ''#'') l)"

primrec heading_text :: "nat \<Rightarrow> string \<Rightarrow> string option" where
  "heading_text 0 r = None"
| "heading_text (Suc j) r =
     (let c = takeWhile (\<lambda>c. \<not> is_eol c) (drop (Suc j) r) in if c \<noteq> [] then Some c else heading_text j r)"

definition heading_match :: "string \<Rightarrow> (nat \<times> string) option" where
  "heading_match l =
     (let h = hashes l; r = drop h l
      in if h < 1 \<or> 4 < h then None
         else map_option (Pair h) (heading_text (length (takeWhile is_ws r)) r))"

text \<open>\<open>/^#{1,4}\s/\<close>, \<open>/^[-*_]{3,}\s*$/\<close>, \<open>/^[-*+]\s/\<close> and \<open>/^\d+[.)]\s/\<close>.\<close>

definition heading_mark :: "string \<Rightarrow> bool" where
  "heading_mark l \<longleftrightarrow> 1 \<le> hashes l \<and> hashes l \<le> 4 \<and> takeWhile is_ws (drop (hashes l) l) \<noteq> []"

definition is_rule :: "string \<Rightarrow> bool" where
  "is_rule l = (let p = (\<lambda>c. c \<in> set ''-*_'') in 3 \<le> length (takeWhile p l) \<and> list_all is_ws (dropWhile p l))"

fun bullet_item :: "string \<Rightarrow> string option" where
  "bullet_item (c # d # t) = (if c \<in> set ''-*+'' \<and> is_ws d then Some t else None)"
| "bullet_item _ = None"

definition number_item :: "string \<Rightarrow> string option" where
  "number_item l =
     (case dropWhile is_digit l of
        c # d # t \<Rightarrow> if takeWhile is_digit l \<noteq> [] \<and> c \<in> set ''.)'' \<and> is_ws d then Some t else None
      | _ \<Rightarrow> None)"

definition para_line :: "string \<Rightarrow> bool" where
  "para_line l \<longleftrightarrow> trim l \<noteq> [] \<and> \<not> is_fence l \<and> \<not> heading_mark l \<and> bullet_item l = None
     \<and> number_item l = None \<and> \<not> is_rule l"

text \<open>One turn of the outer loop: the block it pushes, if any, and the lines that are left. The inner
  loops take the longest prefix that satisfies their condition.\<close>

definition block_step :: "string \<Rightarrow> string list \<Rightarrow> block option \<times> string list" where
  "block_step l rest =
     (let ls = l # rest;
          bullet = (\<lambda>x. bullet_item x \<noteq> None);
          numbered = (\<lambda>x. number_item x \<noteq> None);
          body = (\<lambda>x. \<not> is_fence x)
      in if is_fence l then (Some (CodeBlock (fence_lang l) (join [nl] (takeWhile body rest))), drop 1 (dropWhile body rest))
         else case heading_match l of
             Some (k, content) \<Rightarrow> (Some (HeadingBlock k content), rest)
           | None \<Rightarrow>
         if is_rule l then (Some RuleBlock, rest)
         else if bullet l then
           (Some (ListBlock False (map (the \<circ> bullet_item) (takeWhile bullet ls))), dropWhile bullet ls)
         else if numbered l then
           (Some (ListBlock True (map (the \<circ> number_item) (takeWhile numbered ls))), dropWhile numbered ls)
         else if trim l = [] then (None, rest)
         else (if takeWhile para_line ls = [] then None else Some (ParagraphBlock (join [nl] (takeWhile para_line ls))),
               dropWhile para_line ls))"

partial_function (option) parse_lines :: "string list \<Rightarrow> block list option" where
  "parse_lines ls =
     (case ls of
        [] \<Rightarrow> Some []
      | l # rest \<Rightarrow>
          (case block_step l rest of
             (b, ls') \<Rightarrow> Option.bind (parse_lines ls') (\<lambda>bs. Some (case b of None \<Rightarrow> bs | Some x \<Rightarrow> x # bs))))"

definition parse_blocks :: "string \<Rightarrow> block list option" where
  "parse_blocks text = parse_lines (split_on nl text)"

section \<open>When the block parser returns\<close>

text \<open>A line with the mark of a heading that has no text.\<close>

definition bare_heading :: "string \<Rightarrow> bool" where
  "bare_heading l \<longleftrightarrow> heading_mark l \<and> heading_match l = None"

text \<open>A bare heading outside of code fences.\<close>

primrec bare_outside :: "bool \<Rightarrow> string list \<Rightarrow> bool" where
  "bare_outside fenced [] = False"
| "bare_outside fenced (l # ls) =
     (if fenced then bare_outside (\<not> is_fence l) ls else bare_heading l \<or> bare_outside (is_fence l) ls)"

lemma heading_match_mark: "heading_match l \<noteq> None \<Longrightarrow> heading_mark l"
  by (auto simp: heading_match_def heading_mark_def Let_def not_less split: if_splits)

lemma hashes_pos: "1 \<le> hashes l \<longleftrightarrow> (\<exists>t. l = CHR ''#'' # t)"
  by (cases l) (auto simp: hashes_def)

lemma is_fence_hd: "is_fence l \<Longrightarrow> \<exists>t. l = CHR 0x60 # t"
  by (cases l) (auto simp: is_fence_def backticks_def starts_with_def numeral_3_eq_3)

lemma fence_no_heading: "is_fence l \<Longrightarrow> \<not> heading_mark l"
  using is_fence_hd [of l] hashes_pos [of l] by (auto simp: heading_mark_def)

lemma bullet_item_Some: "bullet_item l = Some t \<longleftrightarrow> (\<exists>c d. l = c # d # t \<and> c \<in> set ''-*+'' \<and> is_ws d)"
  by (cases l rule: bullet_item.cases) auto

lemma number_item_Some:
  "number_item l = Some t \<longleftrightarrow>
     (\<exists>ds c d. l = ds @ c # d # t \<and> ds \<noteq> [] \<and> list_all is_digit ds \<and> c \<in> set ''.)'' \<and> is_ws d)"
proof
  assume "number_item l = Some t"
  then obtain c d where "dropWhile is_digit l = c # d # t" "takeWhile is_digit l \<noteq> []" "c \<in> set ''.)''" "is_ws d"
    by (auto simp: number_item_def split: list.splits if_splits)
  moreover have "list_all is_digit (takeWhile is_digit l)" by (auto simp: list_all_iff dest: set_takeWhileD)
  ultimately show "\<exists>ds c d. l = ds @ c # d # t \<and> ds \<noteq> [] \<and> list_all is_digit ds \<and> c \<in> set ''.)'' \<and> is_ws d"
    by (metis takeWhile_dropWhile_id)
next
  assume "\<exists>ds c d. l = ds @ c # d # t \<and> ds \<noteq> [] \<and> list_all is_digit ds \<and> c \<in> set ''.)'' \<and> is_ws d"
  then obtain ds c d where l: "l = ds @ c # d # t" "ds \<noteq> []" "list_all is_digit ds" "c \<in> set ''.)''" "is_ws d" by blast
  then have "\<not> is_digit c" by (auto simp: is_digit_def code_def)
  with l show "number_item l = Some t"
    by (simp add: number_item_def takeWhile_hit dropWhile_hit list_all_iff)
qed

lemma bullet_not_fence: "bullet_item l \<noteq> None \<Longrightarrow> \<not> is_fence l \<and> \<not> heading_mark l"
  using is_fence_hd [of l] hashes_pos [of l] by (auto simp: bullet_item_Some heading_mark_def)

lemma number_not_fence: "number_item l \<noteq> None \<Longrightarrow> \<not> is_fence l \<and> \<not> heading_mark l"
proof -
  assume "number_item l \<noteq> None"
  then obtain c t where "l = c # t" "is_digit c"
    by (auto simp: number_item_Some neq_Nil_conv list_all_iff)
  moreover have "\<not> is_digit (CHR 0x60)" "\<not> is_digit (CHR ''#'')" by (simp_all add: is_digit_def code_def)
  ultimately show ?thesis using is_fence_hd [of l] hashes_pos [of l] by (auto simp: heading_mark_def)
qed

lemma rule_not_fence: "is_rule l \<Longrightarrow> \<not> is_fence l \<and> \<not> heading_mark l"
  using is_fence_hd [of l] hashes_pos [of l] by (auto simp: is_rule_def Let_def heading_mark_def)

lemma trim_Nil_iff: "trim l = [] \<longleftrightarrow> list_all is_ws l"
proof
  assume e: "trim l = []"
  have "trim_start l = []"
  proof (rule ccontr)
    assume ne: "trim_start l \<noteq> []"
    then have "\<not> is_ws (hd (trim_start l))" unfolding trim_start_def by (rule hd_dropWhile)
    moreover have "list_all is_ws (rev (trim_start l))"
      using e by (simp add: trim_def trim_end_def dropWhile_eq_Nil_conv list_all_iff)
    ultimately show False using ne by (simp add: list_all_iff)
  qed
  then show "list_all is_ws l" by (simp add: trim_start_def dropWhile_eq_Nil_conv list_all_iff)
next
  assume "list_all is_ws l"
  then show "trim l = []" by (simp add: trim_def trim_start_def trim_end_def dropWhile_all list_all_iff)
qed

lemma blank_not_fence: "trim l = [] \<Longrightarrow> \<not> is_fence l \<and> \<not> heading_mark l"
proof -
  assume "trim l = []"
  moreover have "\<not> is_ws (CHR 0x60)" "\<not> is_ws (CHR ''#'')" by (simp_all add: is_ws_def code_def)
  ultimately show ?thesis
    using is_fence_hd [of l] hashes_pos [of l] by (auto simp: trim_Nil_iff heading_mark_def)
qed

lemma para_not_fence: "para_line l \<Longrightarrow> \<not> is_fence l \<and> \<not> heading_mark l"
  by (simp add: para_line_def)

lemmas line_kinds = bullet_not_fence number_not_fence rule_not_fence blank_not_fence para_not_fence

text \<open>Lines that are neither fences nor headings do not matter for the search of bare headings.\<close>

lemma bare_outside_dropWhile:
  assumes "\<And>x. P x \<Longrightarrow> \<not> is_fence x \<and> \<not> heading_mark x"
  shows "bare_outside False (dropWhile P ls) = bare_outside False ls"
proof (induction ls)
  case (Cons l ls)
  then show ?case using assms [of l] by (simp add: bare_heading_def)
qed simp

lemma bare_drops:
  "bare_outside False (dropWhile (\<lambda>x. \<exists>y. bullet_item x = Some y) ls) = bare_outside False ls"
  "bare_outside False (dropWhile (\<lambda>x. \<exists>y. number_item x = Some y) ls) = bare_outside False ls"
  "bare_outside False (dropWhile para_line ls) = bare_outside False ls"
  by (rule bare_outside_dropWhile; use bullet_not_fence number_not_fence para_not_fence in blast)+

lemma bare_outside_fence:
  "bare_outside True ls = bare_outside False (drop (Suc 0) (dropWhile (\<lambda>x. \<not> is_fence x) ls))"
  by (induction ls) auto

text \<open>The kinds of line are exhaustive.\<close>

lemma line_cases:
  obtains (fence) "is_fence l"
  | (bare) "bare_heading l" "\<not> is_fence l"
  | (heading) k c where "heading_match l = Some (k, c)" "\<not> is_fence l"
  | (rule) "is_rule l" "\<not> is_fence l" "heading_match l = None"
  | (bullet) t where "bullet_item l = Some t" "\<not> is_rule l" "\<not> is_fence l" "heading_match l = None"
  | (number) t where "number_item l = Some t" "bullet_item l = None" "\<not> is_rule l" "\<not> is_fence l" "heading_match l = None"
  | (blank) "trim l = []" "number_item l = None" "bullet_item l = None" "\<not> is_rule l" "\<not> is_fence l" "heading_match l = None"
  | (para) "para_line l" "trim l \<noteq> []" "number_item l = None" "bullet_item l = None" "\<not> is_rule l" "\<not> is_fence l" "heading_match l = None"
  unfolding para_line_def bare_heading_def by (metis option.exhaust surj_pair)

text \<open>What a block stands for: the lines it was made of. Every line of the text belongs to a block, in
  order, but for blank lines between blocks.\<close>

primrec spells_block :: "block \<Rightarrow> string list \<Rightarrow> bool" where
  "spells_block (CodeBlock lang content) seg =
     (\<exists>l body tail. seg = l # body @ tail \<and> is_fence l \<and> lang = fence_lang l \<and> content = join [nl] body
        \<and> list_all (\<lambda>x. \<not> is_fence x) body \<and> (case tail of [] \<Rightarrow> True | x # xs \<Rightarrow> is_fence x \<and> xs = []))"
| "spells_block (HeadingBlock k content) seg = (\<exists>l. seg = [l] \<and> heading_match l = Some (k, content))"
| "spells_block RuleBlock seg = (\<exists>l. seg = [l] \<and> is_rule l)"
| "spells_block (ListBlock ordered items) seg =
     (seg \<noteq> [] \<and> map (if ordered then number_item else bullet_item) seg = map Some items)"
| "spells_block (ParagraphBlock content) seg = (seg \<noteq> [] \<and> content = join [nl] seg \<and> list_all para_line seg)"

inductive covers :: "block list \<Rightarrow> string list \<Rightarrow> bool" where
  nothing: "covers [] []"
| blank: "trim l = [] \<Longrightarrow> covers bs ls \<Longrightarrow> covers bs (l # ls)"
| block: "spells_block b seg \<Longrightarrow> covers bs ls \<Longrightarrow> covers (b # bs) (seg @ ls)"

lemma step_stuck: "bare_heading l \<Longrightarrow> block_step l rest = (None, l # rest)"
proof -
  assume "bare_heading l"
  then have "heading_mark l" "heading_match l = None" by (simp_all add: bare_heading_def)
  moreover then have "\<not> is_rule l" "bullet_item l = None" "number_item l = None" "trim l \<noteq> []" "\<not> para_line l" "\<not> is_fence l"
    using line_kinds [of l] fence_no_heading by (metis option.exhaust)+
  ultimately show ?thesis by (simp add: block_step_def)
qed

lemma map_the_takeWhile: "map f (takeWhile (\<lambda>x. f x \<noteq> None) ls) = map Some (map (the \<circ> f) (takeWhile (\<lambda>x. f x \<noteq> None) ls))"
  by (induction ls) auto

lemma list_all_takeWhile: "list_all P (takeWhile P ls)"
  by (induction ls) auto

lemma fence_tail:
  "\<exists>tail. rest = takeWhile (\<lambda>x. \<not> is_fence x) rest @ tail @ drop 1 (dropWhile (\<lambda>x. \<not> is_fence x) rest)
     \<and> (case tail of [] \<Rightarrow> True | x # xs \<Rightarrow> is_fence x \<and> xs = [])"
proof (cases "dropWhile (\<lambda>x. \<not> is_fence x) rest")
  case Nil
  then have "rest = takeWhile (\<lambda>x. \<not> is_fence x) rest" by (metis append_Nil2 takeWhile_dropWhile_id)
  then show ?thesis unfolding Nil by (intro exI [of _ "[]"]) simp
next
  case (Cons x xs)
  then have "is_fence x" by (metis dropWhile_hd_not)
  moreover have "rest = takeWhile (\<lambda>x. \<not> is_fence x) rest @ [x] @ drop 1 (dropWhile (\<lambda>x. \<not> is_fence x) rest)"
    using Cons by (metis append_Cons append_Nil drop0 drop_Suc_Cons One_nat_def takeWhile_dropWhile_id)
  ultimately show ?thesis by (intro exI [of _ "[x]"]) simp
qed

text \<open>A turn of the loop on any other line gets on.\<close>

definition step_ok :: "string \<Rightarrow> string list \<Rightarrow> block option \<Rightarrow> string list \<Rightarrow> bool" where
  "step_ok l rest b ls' \<longleftrightarrow> length ls' < Suc (length rest)
     \<and> bare_outside False ls' = bare_outside False (l # rest)
     \<and> (case b of None \<Rightarrow> trim l = [] \<and> ls' = rest | Some x \<Rightarrow> \<exists>seg. l # rest = seg @ ls' \<and> spells_block x seg)"

lemma step_okI:
  "l # rest = seg @ ls' \<Longrightarrow> spells_block x seg \<Longrightarrow> bare_outside False ls' = bare_outside False (l # rest)
     \<Longrightarrow> length ls' < Suc (length rest) \<Longrightarrow> step_ok l rest (Some x) ls'"
  unfolding step_ok_def option.case by blast

lemma item_step_ok:
  fixes f :: "string \<Rightarrow> string option"
  defines "P \<equiv> \<lambda>x. f x \<noteq> None"
  assumes "P l" "\<And>x. P x \<Longrightarrow> \<not> is_fence x \<and> \<not> heading_mark x"
    and "\<And>items seg. seg \<noteq> [] \<Longrightarrow> map f seg = map Some items \<Longrightarrow> spells_block (ListBlock ordered items) seg"
  shows "step_ok l rest (Some (ListBlock ordered (map (the \<circ> f) (takeWhile P (l # rest))))) (dropWhile P (l # rest))"
proof (rule step_okI)
  show "l # rest = takeWhile P (l # rest) @ dropWhile P (l # rest)" by simp
  show "spells_block (ListBlock ordered (map (the \<circ> f) (takeWhile P (l # rest)))) (takeWhile P (l # rest))"
    using assms(2) map_the_takeWhile [of f "l # rest"] by (intro assms(4)) (simp_all add: P_def)
  show "bare_outside False (dropWhile P (l # rest)) = bare_outside False (l # rest)"
    by (rule bare_outside_dropWhile) (rule assms(3))
  show "length (dropWhile P (l # rest)) < Suc (length rest)"
    using assms(2) by (simp add: length_dropWhile_le le_imp_less_Suc)
qed

lemma block_step_ok:
  assumes "\<not> bare_heading l" "block_step l rest = (b, ls')"
  shows "step_ok l rest b ls'"
proof (cases rule: line_cases [of l])
  case fence
  obtain tail where tail: "rest = takeWhile (\<lambda>x. \<not> is_fence x) rest @ tail @ drop 1 (dropWhile (\<lambda>x. \<not> is_fence x) rest)"
    "case tail of [] \<Rightarrow> True | x # xs \<Rightarrow> is_fence x \<and> xs = []" using fence_tail by blast
  have b: "b = Some (CodeBlock (fence_lang l) (join [nl] (takeWhile (\<lambda>x. \<not> is_fence x) rest)))"
    and ls': "ls' = drop 1 (dropWhile (\<lambda>x. \<not> is_fence x) rest)"
    using assms(2) fence by (simp_all add: block_step_def Let_def)
  show ?thesis
    unfolding b
  proof (rule step_okI)
    show "l # rest = (l # takeWhile (\<lambda>x. \<not> is_fence x) rest @ tail) @ ls'" using tail(1) by (simp add: ls')
    show "spells_block (CodeBlock (fence_lang l) (join [nl] (takeWhile (\<lambda>x. \<not> is_fence x) rest)))
        (l # takeWhile (\<lambda>x. \<not> is_fence x) rest @ tail)"
      unfolding spells_block.simps using fence tail(2) list_all_takeWhile by blast
    show "bare_outside False ls' = bare_outside False (l # rest)"
      using fence by (simp add: ls' bare_outside_fence bare_heading_def fence_no_heading)
    show "length ls' < Suc (length rest)"
      using length_dropWhile_le [of "\<lambda>x. \<not> is_fence x" rest] unfolding ls' length_drop by linarith
  qed
next
  case bullet
  then have "b = Some (ListBlock False (map (the \<circ> bullet_item) (takeWhile (\<lambda>x. bullet_item x \<noteq> None) (l # rest))))"
    "ls' = dropWhile (\<lambda>x. bullet_item x \<noteq> None) (l # rest)"
    using assms(2) by (simp_all add: block_step_def Let_def)
  then show ?thesis using bullet bullet_not_fence by (simp only:) (rule item_step_ok; simp)
next
  case number
  then have "b = Some (ListBlock True (map (the \<circ> number_item) (takeWhile (\<lambda>x. number_item x \<noteq> None) (l # rest))))"
    "ls' = dropWhile (\<lambda>x. number_item x \<noteq> None) (l # rest)"
    using assms(2) by (simp_all add: block_step_def Let_def)
  then show ?thesis using number number_not_fence by (simp only:) (rule item_step_ok; simp)
next
  case para
  then have b: "b = Some (ParagraphBlock (join [nl] (takeWhile para_line (l # rest))))"
    and ls': "ls' = dropWhile para_line (l # rest)"
    using assms(2) by (simp_all add: block_step_def Let_def)
  show ?thesis
    unfolding b
  proof (rule step_okI)
    show "l # rest = takeWhile para_line (l # rest) @ ls'" by (simp add: ls')
    show "spells_block (ParagraphBlock (join [nl] (takeWhile para_line (l # rest)))) (takeWhile para_line (l # rest))"
      using para(1) by (simp add: list_all_takeWhile)
    show "bare_outside False ls' = bare_outside False (l # rest)" unfolding ls' by (rule bare_drops)
    show "length ls' < Suc (length rest)" using para(1) by (simp add: ls' length_dropWhile_le le_imp_less_Suc)
  qed
qed (use assms line_kinds [of l] in \<open>auto simp: step_ok_def block_step_def Let_def bare_heading_def\<close>)

lemma parse_lines_Nil: "parse_lines [] = Some []"
  by (simp add: parse_lines.simps [of "[]"])

lemma parse_lines_Cons:
  "block_step l rest = (b, ls') \<Longrightarrow>
     parse_lines (l # rest) = Option.bind (parse_lines ls') (\<lambda>bs. Some (case b of None \<Rightarrow> bs | Some x \<Rightarrow> x # bs))"
  by (simp add: parse_lines.simps [of "l # rest"])

lemma parse_lines_returns: "\<not> bare_outside False ls \<Longrightarrow> \<exists>bs. parse_lines ls = Some bs \<and> covers bs ls"
proof (induction ls rule: length_induct)
  case (1 ls)
  show ?case
  proof (cases ls)
    case (Cons l rest)
    obtain b ls' where st: "block_step l rest = (b, ls')" by (cases "block_step l rest")
    have "\<not> bare_heading l" using 1(2) fence_no_heading by (auto simp: Cons bare_heading_def split: if_splits)
    then have ok: "step_ok l rest b ls'" using st by (rule block_step_ok)
    then obtain bs where "parse_lines ls' = Some bs" "covers bs ls'"
      using 1 by (auto simp: step_ok_def Cons)
    then show ?thesis using ok st
      by (cases b) (auto simp: Cons parse_lines_Cons step_ok_def intro: covers.intros)
  qed (simp add: parse_lines_Nil covers.nothing)
qed

lemma parse_lines_None: "bare_outside False ls \<Longrightarrow> parse_lines ls = None"
proof (rule ccontr)
  assume bare: "bare_outside False ls" and "parse_lines ls \<noteq> None"
  then obtain bs where bs: "parse_lines ls = Some bs" by blast
  have "\<not> bare_outside False ls"
  proof (rule parse_lines.raw_induct [where P = "\<lambda>ls bs. \<not> bare_outside False ls", OF _ bs], goal_cases)
    case (1 rec ls bs)
    show ?case
    proof (cases ls)
      case (Cons l rest)
      obtain b ls' where st: "block_step l rest = (b, ls')" by (cases "block_step l rest")
      then obtain bs' where "rec ls' = Some bs'" using 1(2) by (auto simp: Cons bind_eq_Some_conv)
      then have "\<not> bare_outside False ls'" by (rule 1(1))
      then show ?thesis
        using st step_stuck [of l rest] block_step_ok [of l rest b ls']
        by (cases "bare_heading l") (simp_all add: Cons step_ok_def)
    qed simp
  qed
  with bare show False by simp
qed

section \<open>Inline markup\<close>

datatype inline =
    InText string
  | InCode string
  | InBold string
  | InItalic string
  | InLink string string
  | InBreak

text \<open>A nonempty run of characters of a class that is followed by the closing text; the rest after it.\<close>

definition enclosed :: "(char \<Rightarrow> bool) \<Rightarrow> string \<Rightarrow> string \<Rightarrow> (string \<times> string) option" where
  "enclosed P close s =
     (let body = takeWhile P s; rest = dropWhile P s
      in if body \<noteq> [] \<and> starts_with rest close then Some (body, drop (length close) rest) else None)"

fun first_some :: "'a option list \<Rightarrow> 'a option" where
  "first_some [] = None"
| "first_some (Some x # xs) = Some x"
| "first_some (None # xs) = first_some xs"

text \<open>The alternatives of the pattern at one position, in their order, each with what is left of the text
  after its match. \<open>\b\<close> before the address looks at the character before.\<close>

definition code_alt :: "string \<Rightarrow> (inline \<times> string) option" where
  "code_alt s =
     (case s of [] \<Rightarrow> None | c # r \<Rightarrow>
        if c = CHR 0x60 then map_option (\<lambda>(b, t). (InCode b, t)) (enclosed (\<lambda>x. x \<noteq> CHR 0x60) [CHR 0x60] r) else None)"

definition link_alt :: "string \<Rightarrow> (inline \<times> string) option" where
  "link_alt s =
     (case s of [] \<Rightarrow> None | c # r \<Rightarrow>
        if c = CHR ''['' then
          (case enclosed (\<lambda>x. x \<noteq> CHR '']'') ''](''  r of
             None \<Rightarrow> None
           | Some (label, t) \<Rightarrow> map_option (\<lambda>(href, u). (InLink label href, u)) (enclosed (\<lambda>x. x \<noteq> CHR '')'') '')'' t))
        else None)"

definition star_alt :: "string \<Rightarrow> (string \<Rightarrow> inline) \<Rightarrow> string \<Rightarrow> (inline \<times> string) option" where
  "star_alt mark make s =
     (if starts_with s mark then
        map_option (\<lambda>(b, t). (make b, t)) (enclosed (\<lambda>x. x \<noteq> CHR ''*'') mark (drop (length mark) s)) else None)"

definition is_url_char :: "char \<Rightarrow> bool" where
  "is_url_char c \<longleftrightarrow> \<not> is_ws c \<and> c \<notin> set ''<>)]''"

definition url_alt :: "char option \<Rightarrow> string \<Rightarrow> (inline \<times> string) option" where
  "url_alt prev s =
     (let scheme = (if starts_with s ''https://'' then ''https://'' else ''http://'');
          r = drop (length scheme) s; url = scheme @ takeWhile is_url_char r
      in if (\<forall>c \<in> set_option prev. \<not> is_word_char c) \<and> starts_with s scheme \<and> takeWhile is_url_char r \<noteq> []
         then Some (InLink url url, dropWhile is_url_char r) else None)"

definition break_alt :: "string \<Rightarrow> (inline \<times> string) option" where
  "break_alt s = (case s of [] \<Rightarrow> None | c # r \<Rightarrow> if c = nl then Some (InBreak, r) else None)"

definition inline_match :: "char option \<Rightarrow> string \<Rightarrow> (inline \<times> string) option" where
  "inline_match prev s =
     first_some [code_alt s, link_alt s, star_alt ''**'' InBold s, star_alt ''*'' InItalic s, url_alt prev s, break_alt s]"

text \<open>How a node is written in the text.\<close>

primrec written :: "inline \<Rightarrow> string \<Rightarrow> bool" where
  "written (InText t) src = (src = t)"
| "written (InCode t) src = (src = CHR 0x60 # t @ [CHR 0x60])"
| "written (InBold t) src = (src = ''**'' @ t @ ''**'')"
| "written (InItalic t) src = (src = ''*'' @ t @ ''*'')"
| "written (InLink t href) src = (src = ''['' @ t @ ''](''  @ href @ '')'' \<or> src = t \<and> src = href)"
| "written InBreak src = (src = [nl])"

lemma enclosed_Some: "enclosed P close s = Some (b, t) \<Longrightarrow> s = b @ close @ t \<and> b \<noteq> []"
proof -
  assume "enclosed P close s = Some (b, t)"
  then have "b = takeWhile P s" "b \<noteq> []" "starts_with (dropWhile P s) close" "t = drop (length close) (dropWhile P s)"
    by (auto simp: enclosed_def Let_def split: if_splits)
  moreover then have "dropWhile P s = close @ t" by (auto simp: starts_with_iff)
  ultimately show ?thesis by (metis takeWhile_dropWhile_id)
qed

lemma inline_match_written:
  "inline_match prev s = Some (node, t) \<Longrightarrow> \<exists>src. src \<noteq> [] \<and> s = src @ t \<and> written node src"
proof -
  assume m: "inline_match prev s = Some (node, t)"
  have first: "first_some xs = Some y \<Longrightarrow> Some y \<in> set xs" for xs :: "(inline \<times> string) option list" and y
    by (induction xs rule: first_some.induct) auto
  consider "code_alt s = Some (node, t)" | "link_alt s = Some (node, t)" | "star_alt ''**'' InBold s = Some (node, t)"
    | "star_alt ''*'' InItalic s = Some (node, t)" | "url_alt prev s = Some (node, t)" | "break_alt s = Some (node, t)"
    using first [OF m [unfolded inline_match_def]] by auto
  then show ?thesis
  proof cases
    case 1
    then obtain r b where "s = CHR 0x60 # r" "node = InCode b" "enclosed (\<lambda>x. x \<noteq> CHR 0x60) [CHR 0x60] r = Some (b, t)"
      by (auto simp: code_alt_def split: list.splits if_splits)
    then show ?thesis using enclosed_Some by fastforce
  next
    case 2
    then obtain r label href u where "s = CHR ''['' # r" "node = InLink label href"
      "enclosed (\<lambda>x. x \<noteq> CHR '']'') ''](''  r = Some (label, u)" "enclosed (\<lambda>x. x \<noteq> CHR '')'') '')'' u = Some (href, t)"
      by (auto simp: link_alt_def split: list.splits if_splits option.splits)
    then show ?thesis
      using enclosed_Some [of _ "''](''" r label u] enclosed_Some [of _ "'')''" u href t]
      by (intro exI [of _ "''['' @ label @ ''](''  @ href @ '')''"]) simp
  next
    case 3
    then obtain b where "starts_with s ''**''" "node = InBold b"
      "enclosed (\<lambda>x. x \<noteq> CHR ''*'') ''**'' (drop (length ''**'') s) = Some (b, t)"
      by (auto simp: star_alt_def split: if_splits)
    then show ?thesis using enclosed_Some
      by (intro exI [of _ "''**'' @ b @ ''**''"]) (fastforce simp: starts_with_iff)
  next
    case 4
    then obtain b where "starts_with s ''*''" "node = InItalic b"
      "enclosed (\<lambda>x. x \<noteq> CHR ''*'') ''*'' (drop (length ''*'') s) = Some (b, t)"
      by (auto simp: star_alt_def split: if_splits)
    then show ?thesis using enclosed_Some
      by (intro exI [of _ "''*'' @ b @ ''*''"]) (fastforce simp: starts_with_iff)
  next
    case 5
    define scheme where "scheme = (if starts_with s ''https://'' then ''https://'' else ''http://'')"
    have "starts_with s scheme" "node = InLink (scheme @ takeWhile is_url_char (drop (length scheme) s))
        (scheme @ takeWhile is_url_char (drop (length scheme) s))" "t = dropWhile is_url_char (drop (length scheme) s)"
      using 5 unfolding url_alt_def scheme_def [symmetric] by (simp_all add: Let_def split: if_splits)
    moreover have "scheme \<noteq> []" by (simp add: scheme_def)
    ultimately show ?thesis
      by (intro exI [of _ "scheme @ takeWhile is_url_char (drop (length scheme) s)"]) (auto simp: starts_with_iff)
  next
    case 6
    then show ?thesis by (auto simp: break_alt_def split: list.splits if_splits)
  qed
qed

lemma inline_match_shorter: "inline_match prev s = Some (node, t) \<Longrightarrow> length t < length s"
  by (auto dest!: inline_match_written)

text \<open>The loop over the matches: \<open>acc\<close> is the text since the last match.\<close>

definition flush :: "string \<Rightarrow> inline list" where
  "flush acc = (if acc = [] then [] else [InText acc])"

function inline_scan :: "char option \<Rightarrow> string \<Rightarrow> string \<Rightarrow> inline list" where
  "inline_scan prev acc s =
     (case s of
        [] \<Rightarrow> flush acc
      | c # cs \<Rightarrow>
          (case inline_match prev s of
             None \<Rightarrow> inline_scan (Some c) (acc @ [c]) cs
           | Some (node, t) \<Rightarrow> flush acc @ node # inline_scan (Some (s ! (length s - length t - 1))) [] t))"
  by pat_completeness auto
termination
  by (relation "measure (\<lambda>(prev, acc, s). length s)") (auto dest: inline_match_shorter)

declare inline_scan.simps [simp del]

definition parse_inline :: "string \<Rightarrow> inline list" where
  "parse_inline t = inline_scan None [] t"

text \<open>The nodes, written one after another, are the text.\<close>

inductive writes :: "inline list \<Rightarrow> string \<Rightarrow> bool" where
  none: "writes [] []"
| node: "written n src \<Longrightarrow> src \<noteq> [] \<Longrightarrow> writes ns s \<Longrightarrow> writes (n # ns) (src @ s)"

lemma writes_flush: "writes ns s \<Longrightarrow> writes (flush acc @ ns) (acc @ s)"
  by (auto simp: flush_def intro: writes.node)

lemma inline_scan_writes: "writes (inline_scan prev acc s) (acc @ s)"
proof (induction prev acc s rule: inline_scan.induct)
  case (1 prev acc s)
  show ?case
  proof (cases s)
    case Nil
    then show ?thesis using writes_flush [OF writes.none, of acc] by (simp add: inline_scan.simps)
  next
    case (Cons c cs)
    show ?thesis
    proof (cases "inline_match prev s")
      case None
      then show ?thesis using 1(1) [OF Cons] by (simp add: Cons inline_scan.simps [of prev acc "c # cs"])
    next
      case (Some nt)
      obtain node t where nt: "nt = (node, t)" by (cases nt)
      obtain src where "src \<noteq> []" "s = src @ t" "written node src"
        using inline_match_written Some nt by blast
      moreover have "writes (inline_scan (Some (s ! (length s - length t - 1))) [] t) t"
        using 1(2) [OF Cons Some nt [symmetric]] by simp
      ultimately have "writes (flush acc @ node # inline_scan (Some (s ! (length s - length t - 1))) [] t) (acc @ s)"
        by (auto intro!: writes_flush intro: writes.node)
      then show ?thesis using Some nt by (simp add: Cons inline_scan.simps [of prev acc "c # cs"])
    qed
  qed
qed

section \<open>Highlighting\<close>

text \<open>The regular expression of the terms: their alternation, literally and without regard to case. At a
  position the first term that matches decides the length of the match.\<close>

definition term_at :: "string list \<Rightarrow> string \<Rightarrow> nat option" where
  "term_at terms s = map_option length (find (\<lambda>t. lower (take (length t) s) = lower t) terms)"

text \<open>\<open>split\<close> with a captured separator: \<open>acc\<close> is the text since the last match, and an empty
  match right after the last one is stepped over.\<close>

function split_scan :: "(string \<Rightarrow> nat option) \<Rightarrow> string \<Rightarrow> string \<Rightarrow> string list" where
  "split_scan m acc s =
     (case s of
        [] \<Rightarrow> [acc]
      | c # cs \<Rightarrow>
          (case m s of
             None \<Rightarrow> split_scan m (acc @ [c]) cs
           | Some n \<Rightarrow>
               if n = 0 \<and> acc = [] then split_scan m [c] cs
               else acc # take n s # split_scan m [] (drop n s)))"
  by pat_completeness auto
termination
  by (relation "measure (\<lambda>(m, acc, s). 2 * length s + (if acc = [] then 0 else 1))") auto

declare split_scan.simps [simp del]

definition split_terms :: "(string \<Rightarrow> nat option) \<Rightarrow> string \<Rightarrow> string list" where
  "split_terms m s = (if s = [] then (if m [] \<noteq> None then [] else [[]]) else split_scan m [] s)"

text \<open>\<open>regex.test\<close> of a global expression: it searches from \<open>lastIndex\<close> and leaves the end of
  the match there, or zero.\<close>

fun search_from :: "(string \<Rightarrow> nat option) \<Rightarrow> string \<Rightarrow> (nat \<times> nat) option" where
  "search_from m [] = map_option (Pair 0) (m [])"
| "search_from m (c # cs) =
     (case m (c # cs) of
        Some n \<Rightarrow> Some (0, n)
      | None \<Rightarrow> map_option (\<lambda>(i, n). (Suc i, n)) (search_from m cs))"

definition test_part :: "(string \<Rightarrow> nat option) \<Rightarrow> nat \<Rightarrow> string \<Rightarrow> bool \<times> nat" where
  "test_part m li part =
     (if length part < li then (False, 0)
      else case search_from m (drop li part) of None \<Rightarrow> (False, 0) | Some (i, n) \<Rightarrow> (True, li + i + n))"

primrec mark_parts :: "(string \<Rightarrow> nat option) \<Rightarrow> nat \<Rightarrow> string list \<Rightarrow> (string \<times> bool) list" where
  "mark_parts m li [] = []"
| "mark_parts m li (p # ps) = (case test_part m li p of (hit, li') \<Rightarrow> (p, hit) # mark_parts m li' ps)"

definition highlight :: "string list \<Rightarrow> string \<Rightarrow> (string \<times> bool) list" where
  "highlight terms s = mark_parts (term_at terms) 0 (split_terms (term_at terms) s)"

lemma search_None: "search_from m s = None \<longleftrightarrow> (\<forall>i \<le> length s. m (drop i s) = None)"
proof (induction s)
  case (Cons c cs)
  have "(\<forall>i \<le> length (c # cs). m (drop i (c # cs)) = None) \<longleftrightarrow>
      m (c # cs) = None \<and> (\<forall>i \<le> length cs. m (drop i cs) = None)"
    by (metis (no_types, lifting) drop0 drop_Suc_Cons le0 length_Cons not0_implies_Suc Suc_le_mono)
  with Cons show ?case by (simp split: option.split)
qed simp

lemma lower_take: "lower (take n s) = take n (lower s)"
  by (simp add: lower_def take_map)

lemma term_at_None: "term_at terms s = None \<longleftrightarrow> (\<forall>t \<in> set terms. lower (take (length t) s) \<noteq> lower t)"
  by (auto simp: term_at_def find_None_iff)

lemma term_at_Some: "term_at terms s = Some n \<Longrightarrow> \<exists>t \<in> set terms. lower (take n s) = lower t \<and> length t = n \<and> n \<le> length s"
proof -
  assume "term_at terms s = Some n"
  then obtain t where "find (\<lambda>t. lower (take (length t) s) = lower t) terms = Some t" "n = length t"
    by (auto simp: term_at_def)
  then have t: "t \<in> set terms" "lower (take n s) = lower t"
    by (auto simp: find_Some_iff)
  then have "length (take n s) = length t" by (metis length_lower)
  then have "n \<le> length s" using \<open>n = length t\<close> by simp
  with t \<open>n = length t\<close> show ?thesis by auto
qed

text \<open>What matches in a prefix of the text matches in the text.\<close>

lemma term_at_prefix: "term_at terms (s @ t) = None \<Longrightarrow> term_at terms s = None"
proof -
  assume no: "term_at terms (s @ t) = None"
  have "lower (take (length u) s) \<noteq> lower u" if u: "u \<in> set terms" for u
  proof
    assume e: "lower (take (length u) s) = lower u"
    then have "length (take (length u) s) = length u" by (metis length_lower)
    then have "take (length u) (s @ t) = take (length u) s" by simp
    with e have "lower (take (length u) (s @ t)) = lower u" by (simp only:)
    with no u show False unfolding term_at_None by blast
  qed
  then show ?thesis by (simp add: term_at_None)
qed

lemma term_at_take: "term_at terms s = Some n \<Longrightarrow> term_at terms (take n s) = Some n"
proof -
  assume a: "term_at terms s = Some n"
  have same: "lower (take (length u) (take n s)) = lower u \<Longrightarrow> lower (take (length u) s) = lower u" for u
  proof -
    assume e: "lower (take (length u) (take n s)) = lower u"
    then have "length (take (length u) (take n s)) = length u" by (metis length_lower)
    then have "length u \<le> n" by simp
    with e show ?thesis by (simp add: min_absorb1)
  qed
  obtain i where i: "i < length terms" "lower (take (length (terms ! i)) s) = lower (terms ! i)" "length (terms ! i) = n"
    "\<forall>j < i. lower (take (length (terms ! j)) s) \<noteq> lower (terms ! j)"
    using a by (auto simp: term_at_def find_Some_iff)
  then have "find (\<lambda>t. lower (take (length t) (take n s)) = lower t) terms = Some (terms ! i)"
    using same by (auto simp: find_Some_iff intro!: exI [of _ i])
  then show ?thesis using i by (simp add: term_at_def)
qed

text \<open>The parts alternate between stretches without a match and matches.\<close>

fun alternates :: "string list \<Rightarrow> string list \<Rightarrow> bool" where
  "alternates terms [p] \<longleftrightarrow> search_from (term_at terms) p = None"
| "alternates terms (p # h # ps) \<longleftrightarrow>
     search_from (term_at terms) p = None \<and> term_at terms h = Some (length h) \<and> alternates terms ps"
| "alternates terms [] \<longleftrightarrow> False"

text \<open>A stretch of text in front of which nothing matched.\<close>

definition no_match_before :: "string list \<Rightarrow> string \<Rightarrow> string \<Rightarrow> bool" where
  "no_match_before terms acc s \<longleftrightarrow> (\<forall>i < length acc. term_at terms (drop i acc @ s) = None)"

lemma no_match_search:
  "[] \<notin> set terms \<Longrightarrow> no_match_before terms acc s \<Longrightarrow> search_from (term_at terms) acc = None"
proof -
  assume ne: "[] \<notin> set terms" and no: "no_match_before terms acc s"
  have "term_at terms (drop i acc) = None" if "i \<le> length acc" for i
  proof (cases "i < length acc")
    case True
    then show ?thesis using no term_at_prefix by (auto simp: no_match_before_def)
  next
    case False
    then show ?thesis using ne that by (auto simp: term_at_None lower_def)
  qed
  then show ?thesis by (simp add: search_None)
qed

lemma split_scan_alternates:
  "[] \<notin> set terms \<Longrightarrow> no_match_before terms acc s \<Longrightarrow>
     alternates terms (split_scan (term_at terms) acc s) \<and> concat (split_scan (term_at terms) acc s) = acc @ s"
proof (induction "term_at terms" acc s rule: split_scan.induct)
  case (1 acc s)
  show ?case
  proof (cases s)
    case Nil
    then show ?thesis using 1(4,5) no_match_search by (simp add: split_scan.simps)
  next
    case (Cons c cs)
    show ?thesis
    proof (cases "term_at terms s")
      case None
      then have "no_match_before terms (acc @ [c]) cs"
        using 1(5) by (auto simp: no_match_before_def Cons less_Suc_eq)
      then show ?thesis
        using 1(1) [OF Cons None] 1(4) None by (simp add: Cons split_scan.simps [of "term_at terms" acc "c # cs"])
    next
      case (Some n)
      then have n: "n \<noteq> 0" "n \<le> length s" using term_at_Some [OF Some] 1(4) by auto
      have "no_match_before terms [] (drop n s)" by (simp add: no_match_before_def)
      then have "alternates terms (split_scan (term_at terms) [] (drop n s)) \<and> concat (split_scan (term_at terms) [] (drop n s)) = drop n s"
        using 1(3) [OF Cons Some] n 1(4) by simp
      moreover have "split_scan (term_at terms) acc s = acc # take n s # split_scan (term_at terms) [] (drop n s)"
        using Some n by (simp add: Cons split_scan.simps [of "term_at terms" acc "c # cs"])
      ultimately show ?thesis
        using no_match_search [OF 1(4,5)] term_at_take [OF Some] n(2) by (simp add: min_absorb1)
    qed
  qed
qed

lemma test_clean: "search_from m p = None \<Longrightarrow> test_part m li p = (False, 0)"
proof (cases "length p < li")
  case False
  assume "search_from m p = None"
  then have "search_from m (drop li p) = None"
    using False by (auto simp: search_None drop_drop)
  with False show ?thesis by (simp add: test_part_def)
qed (simp add: test_part_def)

lemma alternates_marks:
  "alternates terms ps \<Longrightarrow> map fst (mark_parts (term_at terms) li ps) = ps
     \<and> (\<forall>(p, hit) \<in> set (mark_parts (term_at terms) li ps).
          if hit then term_at terms p = Some (length p) else search_from (term_at terms) p = None)"
proof (induction terms ps arbitrary: li rule: alternates.induct)
  case (1 terms p)
  then show ?case by (simp add: test_clean)
next
  case (2 terms p h ps)
  have "test_part (term_at terms) li p = (False, 0)"
    using 2(2) by (simp add: test_clean)
  moreover have "search_from (term_at terms) h = Some (0, length h)" using 2(2) by (cases h) simp_all
  then have "test_part (term_at terms) 0 h = (True, length h)" by (simp add: test_part_def)
  ultimately show ?case using 2 by auto
qed simp

lemma no_term_inside:
  "search_from (term_at terms) p = None \<Longrightarrow> t \<in> set terms \<Longrightarrow> \<not> str_includes (lower p) (lower t)"
proof
  assume none: "search_from (term_at terms) p = None" and t: "t \<in> set terms" and "str_includes (lower p) (lower t)"
  then obtain a b where ab: "lower p = a @ lower t @ b" by (auto simp: str_includes_iff)
  then have "length a \<le> length p" by (metis length_append length_lower le_add1)
  then have "term_at terms (drop (length a) p) = None" using none by (simp add: search_None)
  moreover have "lower (take (length t) (drop (length a) p)) = lower t"
  proof -
    have "lower (take (length t) (drop (length a) p)) = take (length t) (drop (length a) (lower p))"
      by (simp add: lower_def take_map drop_map)
    then show ?thesis by (simp add: ab)
  qed
  ultimately show False using t by (auto simp: term_at_None)
qed

text \<open>Highlighting marks exactly the search terms: for terms that are not empty, the parts put
  together are the text, every marked part is one of the terms up to case, and no unmarked part
  contains any of them, although the test reuses the position its last match left behind.\<close>

theorem highlight_marks_the_terms:
  assumes "[] \<notin> set terms"
  shows "concat (map fst (highlight terms s)) = s
    \<and> (\<forall>(p, hit) \<in> set (highlight terms s).
         if hit then \<exists>t \<in> set terms. lower p = lower t else \<forall>t \<in> set terms. \<not> str_includes (lower p) (lower t))"
proof -
  have none: "term_at terms [] = None" using assms by (auto simp: term_at_None lower_def)
  have "alternates terms (split_terms (term_at terms) s) \<and> concat (split_terms (term_at terms) s) = s"
    using split_scan_alternates [OF assms, of "[]" s] none
    by (simp add: split_terms_def no_match_before_def)
  note parts = alternates_marks [OF conjunct1 [OF this], of 0] this
  have "concat (map fst (highlight terms s)) = s" using parts by (simp add: highlight_def)
  moreover have "if hit then \<exists>t \<in> set terms. lower p = lower t else \<forall>t \<in> set terms. \<not> str_includes (lower p) (lower t)"
    if "(p, hit) \<in> set (highlight terms s)" for p hit
  proof -
    have "if hit then term_at terms p = Some (length p) else search_from (term_at terms) p = None"
      using parts that by (auto simp: highlight_def)
    then show ?thesis using term_at_Some [of terms p "length p"] no_term_inside by (auto split: if_splits)
  qed
  ultimately show ?thesis by blast
qed

theorem highlight_marks_the_terms_witness:
  "highlight [''port'', ''report''] ''A Report, ports'' =
     [(''A '', False), (''Report'', True), ('', '', False), (''port'', True), (''s'', False)]
   \<and> concat (map fst (highlight [''port'', ''report''] ''A Report, ports'')) = ''A Report, ports''"
proof -
  have "[] \<notin> set [''port'', ''report'']" by simp
  from conjunct1 [OF highlight_marks_the_terms [OF this]] show ?thesis by (intro conjI) (code_simp, blast)
qed

section \<open>Elements\<close>

datatype node = TextNode string | Elem string "(string \<times> string) list" "node list"

definition caret_node :: node where
  "caret_node = Elem ''span'' [(''aria-hidden'', ''true'')] []"

definition highlighted :: "string list option \<Rightarrow> string \<Rightarrow> node list" where
  "highlighted terms t =
     (case terms of
        None \<Rightarrow> [TextNode t]
      | Some ts \<Rightarrow>
          if ts = [] then [TextNode t]
          else map (\<lambda>(p, hit). Elem (if hit then ''mark'' else ''span'') [] [TextNode p]) (highlight ts t))"

text \<open>\<open>/^(https?:|mailto:)/i\<close> on the trimmed address.\<close>

definition safe_scheme :: "string \<Rightarrow> bool" where
  "safe_scheme h \<longleftrightarrow> starts_with (lower h) ''http:'' \<or> starts_with (lower h) ''https:'' \<or> starts_with (lower h) ''mailto:''"

primrec inline_nodes :: "string list option \<Rightarrow> inline \<Rightarrow> node list" where
  "inline_nodes terms (InText t) = highlighted terms t"
| "inline_nodes terms (InCode t) = [Elem ''code'' [] [TextNode t]]"
| "inline_nodes terms (InBold t) = [Elem ''strong'' [] (highlighted terms t)]"
| "inline_nodes terms (InItalic t) = [Elem ''em'' [] (highlighted terms t)]"
| "inline_nodes terms (InLink t href) =
     (let h = trim href
      in if \<not> safe_scheme h then highlighted terms t
         else [Elem ''a'' [(''href'', h), (''target'', ''_blank''), (''rel'', ''noreferrer'')] [TextNode t]])"
| "inline_nodes terms InBreak = [Elem ''br'' [] []]"

definition inline_content :: "string list option \<Rightarrow> string \<Rightarrow> node list" where
  "inline_content terms t = concat (map (inline_nodes terms) (parse_inline t))"

primrec block_nodes :: "string list option \<Rightarrow> node list \<Rightarrow> block \<Rightarrow> node list" where
  "block_nodes terms caret (CodeBlock lang content) = [Elem ''pre'' [] [Elem ''code'' [] (TextNode content # caret)]]"
| "block_nodes terms caret (HeadingBlock k content) =
     [Elem (CHR ''h'' # show_nat (min k 4)) [] (inline_content terms content @ caret)]"
| "block_nodes terms caret RuleBlock = Elem ''hr'' [] [] # caret"
| "block_nodes terms caret (ListBlock ordered items) =
     [Elem (if ordered then ''ol'' else ''ul'') []
       (map (\<lambda>(i, item). Elem ''li'' [] (inline_content terms item @ (if i = length items - 1 then caret else [])))
         (enumerate 0 items))]"
| "block_nodes terms caret (ParagraphBlock content) = [Elem ''p'' [] (inline_content terms content @ caret)]"

definition markdown_nodes :: "string list option \<Rightarrow> bool \<Rightarrow> block list \<Rightarrow> node list" where
  "markdown_nodes terms streaming blocks =
     (let caret = (if streaming then [caret_node] else [])
      in [Elem ''div'' []
           (concat (map (\<lambda>(i, b). block_nodes terms (if i = length blocks - 1 then caret else []) b) (enumerate 0 blocks))
            @ (if blocks = [] then caret else []))])"

definition markdown :: "string list option \<Rightarrow> bool \<Rightarrow> string \<Rightarrow> node list option" where
  "markdown terms streaming content = map_option (markdown_nodes terms streaming) (parse_blocks content)"

section \<open>What the renderer promises\<close>

text \<open>Claim C15. Rendering a message ends exactly when, outside of code fences, no line consists of the mark
  of a heading and no text; on such a line the block parser never gets on.\<close>

theorem markdown_returns_iff:
  "(\<exists>v. markdown terms streaming text = Some v) \<longleftrightarrow> \<not> bare_outside False (split_on nl text)"
  using parse_lines_returns [of "split_on nl text"] parse_lines_None [of "split_on nl text"]
  by (auto simp: markdown_def parse_blocks_def)

text \<open>Those lines, when there is no carriage return: one to four hashes and one white space.\<close>

lemma heading_text_None: "heading_text j r = None \<longleftrightarrow> (\<forall>i \<in> {1..j}. takeWhile (\<lambda>c. \<not> is_eol c) (drop i r) = [])"
  by (induction j) (auto simp: Let_def atLeastAtMostSuc_conv)

lemma bare_heading_iff:
  assumes "\<forall>c \<in> set l. \<not> is_eol c"
  shows "bare_heading l \<longleftrightarrow> (\<exists>k \<in> {1..4}. \<exists>c. is_ws c \<and> l = replicate k (CHR ''#'') @ [c])"
proof -
  let ?r = "drop (hashes l) l"
  have l: "l = replicate (hashes l) (CHR ''#'') @ ?r"
  proof -
    have "takeWhile (\<lambda>c. c = CHR ''#'') l = replicate (hashes l) (CHR ''#'')"
      unfolding hashes_def by (rule replicate_length_same [symmetric]) (auto dest: set_takeWhileD)
    moreover have "dropWhile (\<lambda>c. c = CHR ''#'') l = ?r" by (simp add: hashes_def dropWhile_eq_drop)
    ultimately show ?thesis by (metis takeWhile_dropWhile_id)
  qed
  have no_eol: "takeWhile (\<lambda>c. \<not> is_eol c) (drop i ?r) = [] \<longleftrightarrow> length ?r \<le> i" for i
  proof -
    have "\<forall>c \<in> set (drop i ?r). \<not> is_eol c" using assms by (meson in_set_dropD)
    then have eq: "takeWhile (\<lambda>c. \<not> is_eol c) (drop i ?r) = drop i ?r" by (rule takeWhile_all)
    show ?thesis unfolding eq by (simp add: le_diff_conv)
  qed
  have "bare_heading l \<longleftrightarrow> hashes l \<in> {1..4} \<and> takeWhile is_ws ?r \<noteq> [] \<and> length ?r \<le> 1"
  proof -
    have "heading_text w ?r = None \<longleftrightarrow> (\<forall>i \<in> {1..w}. length ?r \<le> i)" for w
      unfolding heading_text_None no_eol ..
    moreover have "w \<noteq> 0 \<Longrightarrow> (\<forall>i \<in> {1..w}. n \<le> i) \<longleftrightarrow> n \<le> 1" for w n :: nat
      by (metis One_nat_def Suc_leI atLeastAtMost_iff le_trans neq0_conv order_refl)
    ultimately have "w \<noteq> 0 \<Longrightarrow> heading_text w ?r = None \<longleftrightarrow> length ?r \<le> 1" for w
      by metis
    then have "takeWhile is_ws ?r \<noteq> [] \<Longrightarrow> heading_text (length (takeWhile is_ws ?r)) ?r = None \<longleftrightarrow> length ?r \<le> 1"
      by simp
    then show ?thesis
      by (auto simp: bare_heading_def heading_mark_def heading_match_def Let_def simp del: drop_drop)
  qed
  also have "\<dots> \<longleftrightarrow> hashes l \<in> {1..4} \<and> (\<exists>c. is_ws c \<and> ?r = [c])"
    by (cases ?r) (auto split: if_splits)
  also have "\<dots> \<longleftrightarrow> (\<exists>k \<in> {1..4}. \<exists>c. is_ws c \<and> l = replicate k (CHR ''#'') @ [c])"
  proof
    assume "\<exists>k \<in> {1..4}. \<exists>c. is_ws c \<and> l = replicate k (CHR ''#'') @ [c]"
    then obtain k c where k: "k \<in> {1..4}" "is_ws c" "l = replicate k (CHR ''#'') @ [c]" by blast
    have "c \<noteq> CHR ''#''" using k(2) by (auto simp: is_ws_def code_def)
    then have "takeWhile (\<lambda>c. c = CHR ''#'') l = replicate k (CHR ''#'')" using k(3) by (simp add: takeWhile_hit)
    then have "hashes l = k" by (simp add: hashes_def)
    with k show "hashes l \<in> {1..4} \<and> (\<exists>c. is_ws c \<and> ?r = [c])" by simp
  qed (use l in metis)
  finally show ?thesis .
qed

lemma empty_heading_hangs: "markdown terms streaming ''## '' = None"
proof -
  have "bare_outside False (split_on nl ''## '')" by code_simp
  then show ?thesis using markdown_returns_iff [of terms streaming "''## ''"] by auto
qed

text \<open>No line of a message is lost: when the block parser returns, the text's lines are exactly the
  lines its blocks stand for, in order, with only blank lines between them.\<close>

theorem blocks_cover_the_text:
  "bare_outside False (split_on nl text) \<or> (\<exists>bs. parse_blocks text = Some bs \<and> covers bs (split_on nl text))"
  using parse_lines_returns [of "split_on nl text"] unfolding parse_blocks_def by blast

text \<open>No character of a line is lost: the inline nodes, each written with its own marks, spell out
  the text.\<close>

theorem inline_spells_the_text: "writes (parse_inline t) t"
  using inline_scan_writes [of None "[]" t] by (simp add: parse_inline_def)

fun attributes :: "node \<Rightarrow> (string \<times> string) list" where
  "attributes (TextNode t) = []"
| "attributes (Elem tag atts ks) = atts @ concat (map attributes ks)"

fun tags :: "node \<Rightarrow> string list" where
  "tags (TextNode t) = []"
| "tags (Elem tag atts ks) = tag # concat (map tags ks)"

definition allowed_tag :: "string \<Rightarrow> bool" where
  "allowed_tag t \<longleftrightarrow> t \<in> set [''div'', ''p'', ''pre'', ''code'', ''ul'', ''ol'', ''li'', ''hr'', ''br'', ''strong'', ''em'', ''a'', ''mark'', ''span'']
     \<or> (\<exists>d. t = [CHR ''h'', d] \<and> is_digit d)"

definition safe_node :: "node \<Rightarrow> bool" where
  "safe_node n \<longleftrightarrow> list_all allowed_tag (tags n)
     \<and> list_all (\<lambda>(k, v). k = ''href'' \<and> safe_scheme v \<or> (k, v) \<in> set [(''target'', ''_blank''), (''rel'', ''noreferrer''), (''aria-hidden'', ''true'')])
         (attributes n)"

lemma allowed_tags [simp]:
  "allowed_tag ''div''" "allowed_tag ''p''" "allowed_tag ''pre''" "allowed_tag ''code''" "allowed_tag ''ul''"
  "allowed_tag ''ol''" "allowed_tag ''li''" "allowed_tag ''hr''" "allowed_tag ''br''" "allowed_tag ''strong''"
  "allowed_tag ''em''" "allowed_tag ''a''" "allowed_tag ''mark''" "allowed_tag ''span''"
  by (simp_all add: allowed_tag_def)

lemma allowed_heading [simp]: "allowed_tag (CHR ''h'' # show_nat (min k 4))"
  by (simp add: allowed_tag_def length_show_nat_1)

lemma safe_text [simp]: "safe_node (TextNode t)"
  by (simp add: safe_node_def)

lemma safe_elem: "allowed_tag tag \<Longrightarrow> list_all safe_node ks \<Longrightarrow> safe_node (Elem tag [] ks)"
  unfolding safe_node_def tags.simps attributes.simps list_all_iff by fastforce

lemma safe_caret: "safe_node caret_node"
  by (simp add: safe_node_def caret_node_def)

lemma safe_highlighted: "list_all safe_node (highlighted terms t)"
proof -
  have "safe_node (Elem (if hit then ''mark'' else ''span'') [] [TextNode p])" for hit p
    by (rule safe_elem) simp_all
  then show ?thesis by (simp add: highlighted_def list_all_iff case_prod_unfold split: option.split)
qed

lemma safe_inline: "list_all safe_node (inline_nodes terms n)"
proof (cases n)
  case (InLink t href)
  then show ?thesis by (simp add: Let_def safe_highlighted) (simp add: safe_node_def)
qed (simp_all add: safe_highlighted safe_elem)

lemma safe_content: "list_all safe_node (inline_content terms t)"
  using safe_inline by (auto simp: inline_content_def list_all_iff)

lemma safe_block:
  assumes "list_all safe_node caret"
  shows "list_all safe_node (block_nodes terms caret b)"
proof (cases b)
  case (ListBlock ordered items)
  have "safe_node (Elem ''li'' [] (inline_content terms item @ (if i = length items - 1 then caret else [])))" for i item
    by (rule safe_elem) (use safe_content assms in simp_all)
  then have "list_all safe_node
      (map (\<lambda>(i, item). Elem ''li'' [] (inline_content terms item @ (if i = length items - 1 then caret else []))) (enumerate 0 items))"
    by (auto simp: list_all_iff)
  then show ?thesis by (cases ordered) (simp_all add: ListBlock safe_elem)
qed (simp_all add: safe_elem safe_content assms)

text \<open>Claim C16. Whatever a message contains, rendering it makes only text markup, the only addresses in it
  have the scheme \<open>http\<close>, \<open>https\<close> or \<open>mailto\<close>, and no other attribute depends on the message.\<close>

theorem rendered_markup_is_safe:
  "list_all safe_node (case markdown terms streaming text of None \<Rightarrow> [] | Some vs \<Rightarrow> vs)"
proof -
  have caret: "list_all safe_node (if streaming then [caret_node] else [])" by (simp add: safe_caret)
  have "list_all safe_node (concat (map (\<lambda>(i, b). block_nodes terms
      (if i = length blocks - 1 then if streaming then [caret_node] else [] else []) b) (enumerate 0 blocks)))" for blocks
    using safe_block [OF caret] safe_block [of "[]" terms] by (auto simp: list_all_iff split: if_splits)
  then have "list_all safe_node (markdown_nodes terms streaming blocks)" for blocks
    unfolding markdown_nodes_def Let_def using caret by (simp add: safe_elem)
  then show ?thesis by (simp add: markdown_def split: option.split)
qed

text \<open>While a message is streaming, the caret is shown exactly once, and never afterwards.\<close>

fun carets :: "node \<Rightarrow> nat" where
  "carets (TextNode t) = 0"
| "carets (Elem tag atts ks) = (if (''aria-hidden'', ''true'') \<in> set atts then 1 else 0) + sum_list (map carets ks)"

lemma carets_caret [simp]: "carets caret_node = 1"
  by (simp add: caret_node_def)

lemma carets_highlighted: "n \<in> set (highlighted terms t) \<Longrightarrow> carets n = 0"
  by (auto simp: highlighted_def split: option.splits if_splits)

lemma carets_inline: "sum_list (map carets (inline_nodes terms n)) = 0"
  by (cases n) (simp_all add: Let_def carets_highlighted)

lemma sum_list_concat_map: "sum_list (map f (concat xss)) = sum_list (map (\<lambda>xs. sum_list (map f xs)) xss)"
  for f :: "'a \<Rightarrow> nat"
  by (induction xss) simp_all

lemma carets_content: "sum_list (map carets (inline_content terms t)) = 0"
  by (simp add: inline_content_def sum_list_concat_map carets_inline comp_def)

lemma sum_last: "xs \<noteq> [] \<Longrightarrow> (\<And>i x. f i x = (if i = k + length xs - 1 then n else 0)) \<Longrightarrow>
    sum_list (map (\<lambda>(i, x). f i x) (enumerate k xs)) = (n::nat)"
proof (induction xs arbitrary: k)
  case (Cons x xs)
  show ?case
  proof (cases "xs = []")
    case False
    then have "sum_list (map (\<lambda>(i, x). f i x) (enumerate (Suc k) xs)) = n"
      using Cons.prems(2) by (intro Cons.IH) simp_all
    then show ?thesis using Cons.prems(2) [of k x] False by simp
  qed (use Cons.prems(2) [of k x] in simp)
qed simp

lemma carets_block:
  assumes "\<And>ordered. b \<noteq> ListBlock ordered []"
  shows "sum_list (map carets (block_nodes terms caret b)) = sum_list (map carets caret)"
proof (cases b)
  case (ListBlock ordered items)
  have "carets (Elem ''li'' [] (inline_content terms item @ (if i = length items - 1 then caret else [])))
      = (if i = 0 + length items - 1 then sum_list (map carets caret) else 0)" for i item
    by (simp add: carets_content)
  then have "sum_list (map (\<lambda>(i, item). carets (Elem ''li'' [] (inline_content terms item @
        (if i = length items - 1 then caret else [])))) (enumerate 0 items)) = sum_list (map carets caret)"
    using assms ListBlock by (intro sum_last) auto
  then show ?thesis by (simp add: ListBlock comp_def case_prod_unfold)
qed (simp_all add: carets_content)

lemma covers_lists: "covers bs ls \<Longrightarrow> ListBlock ordered [] \<notin> set bs"
  by (induction rule: covers.induct) auto

lemma caret_shown_once:
  assumes "markdown terms streaming text = Some vs"
  shows "sum_list (map carets vs) = (if streaming then 1 else 0)"
proof -
  obtain bs where bs: "parse_blocks text = Some bs" "vs = markdown_nodes terms streaming bs"
    using assms by (auto simp: markdown_def)
  then have "\<not> bare_outside False (split_on nl text)"
    using parse_lines_None by (auto simp: parse_blocks_def)
  then have "covers bs (split_on nl text)" using bs(1) parse_lines_returns by (fastforce simp: parse_blocks_def)
  then have lists: "ListBlock ordered [] \<notin> set bs" for ordered by (rule covers_lists)
  let ?caret = "if streaming then [caret_node] else []"
  have "sum_list (map (\<lambda>(i, b). sum_list (map carets (block_nodes terms (if i = length bs - 1 then ?caret else []) b)))
      (enumerate 0 bs)) = sum_list (map (\<lambda>(i, b). if i = length bs - 1 then sum_list (map carets ?caret) else 0) (enumerate 0 bs))"
  proof (intro arg_cong [of _ _ sum_list] map_cong refl)
    fix p assume "p \<in> set (enumerate 0 bs)"
    then have "fst p < length bs" "bs ! fst p = snd p" by (simp_all add: in_set_enumerate_eq)
    then have "snd p \<in> set bs" using nth_mem [of "fst p" bs] by simp
    then have "sum_list (map carets (block_nodes terms c (snd p))) = sum_list (map carets c)" for c
      using lists by (intro carets_block) metis
    then show "(case p of (i, b) \<Rightarrow> sum_list (map carets (block_nodes terms (if i = length bs - 1 then ?caret else []) b)))
        = (case p of (i, b) \<Rightarrow> if i = length bs - 1 then sum_list (map carets ?caret) else 0)"
      by (cases p) (simp del: sum_list_eq_0_iff)
  qed
  also have "\<dots> = (if bs = [] then 0 else sum_list (map carets ?caret))"
    by (cases "bs = []") (simp_all add: sum_last)
  finally show ?thesis unfolding bs(2) markdown_nodes_def Let_def
    by (simp add: sum_list_concat_map comp_def case_prod_unfold)
qed

end
