(* ===== verification/Nested.thy ===== *)
theory Nested
  imports JsValue
begin

text \<open>
  Reading and writing at dotted paths, \<open>web/src/lib/nested.ts\<close>, and the generic field editor of
  the configuration form, \<open>web/src/components/AutoField.tsx\<close>. Writing copies the object first
  (\<open>structuredClone\<close>), so values are enough and no store is needed. An array can be read and
  written at an index; a property written on an array under another key is not part of its JSON
  and leaves the value as it is.
\<close>

section \<open>Paths\<close>

text \<open>\<open>typeof v === "object"\<close> for a value that is not null.\<close>

fun is_object :: "js \<Rightarrow> bool" where
  "is_object (JObj ps) = True"
| "is_object (JArr vs) = True"
| "is_object v = False"

definition array_index :: "string \<Rightarrow> nat option" where
  "array_index k = (if all_digits k \<and> show_nat (parse_digits k) = k then Some (parse_digits k) else None)"

fun get_key :: "js \<Rightarrow> string \<Rightarrow> js" where
  "get_key (JObj ps) k = js_get (JObj ps) k"
| "get_key (JArr vs) k =
     (case array_index k of
        Some i \<Rightarrow> if i < length vs then vs ! i else JUndef
      | None \<Rightarrow> if k = ''length'' then JNum (int (length vs)) else JUndef)"
| "get_key v k = JUndef"

fun set_key :: "js \<Rightarrow> string \<Rightarrow> js \<Rightarrow> js" where
  "set_key (JObj ps) k v = JObj (obj_set k v ps)"
| "set_key (JArr vs) k v =
     (case array_index k of
        Some i \<Rightarrow> JArr (if i < length vs then vs[i := v] else vs @ replicate (i - length vs) JUndef @ [v])
      | None \<Rightarrow> JArr vs)"
| "set_key u k v = u"

fun get_path :: "js \<Rightarrow> string list \<Rightarrow> js" where
  "get_path cur [] = cur"
| "get_path cur (p # ps) = (if \<not> is_object cur then JUndef else get_path (get_key cur p) ps)"

text \<open>A step that is not an object is replaced by an empty one.\<close>

definition step_into :: "js \<Rightarrow> js" where
  "step_into v = (if is_object v then v else JObj [])"

fun set_path :: "js \<Rightarrow> string list \<Rightarrow> js \<Rightarrow> js" where
  "set_path cur [] v = cur"
| "set_path cur [p] v = set_key cur p v"
| "set_path cur (p # q # ps) v = set_key cur p (set_path (step_into (get_key cur p)) (q # ps) v)"

definition path_parts :: "string \<Rightarrow> string list" where
  "path_parts path = split_on (CHR ''.'') path"

definition get_nested_value :: "js \<Rightarrow> string \<Rightarrow> js" where
  "get_nested_value obj path = get_path obj (path_parts path)"

text \<open>Writing a property of a value that is no object throws.\<close>

definition set_nested_value :: "js \<Rightarrow> string \<Rightarrow> js \<Rightarrow> js option" where
  "set_nested_value obj path v = (if is_object obj then Some (set_path obj (path_parts path) v) else None)"

section \<open>Laws of reading and writing\<close>

text \<open>The path meets no array.\<close>

fun plain_path :: "js \<Rightarrow> string list \<Rightarrow> bool" where
  "plain_path cur [] = True"
| "plain_path (JArr vs) (p # ps) = False"
| "plain_path (JObj os) (p # ps) = plain_path (js_get (JObj os) p) ps"
| "plain_path v (p # ps) = True"

lemma path_parts_not_Nil [simp]: "path_parts path \<noteq> []"
  by (simp add: path_parts_def)

lemma is_object_set_key [simp]: "is_object (set_key u k v) = is_object u"
  by (cases u) (simp_all split: option.split)

lemma is_object_set_path [simp]: "is_object (set_path u ps v) = is_object u"
  by (induction u ps v rule: set_path.induct) simp_all

lemma js_get_obj_set: "js_get (JObj (obj_set k v ps)) k' = (if k' = k then v else js_get (JObj ps) k')"
  by simp

lemma path_undefined [simp]: "plain_path JUndef ps" "get_path JUndef ps = JUndef"
  by (cases ps; simp)+

lemma plain_step: "plain_path (JObj os) (p # ps) \<Longrightarrow> plain_path (step_into (js_get (JObj os) p)) ps"
  by (cases ps; cases "js_get (JObj os) p") (simp_all add: step_into_def)

lemma plain_object: "is_object u \<Longrightarrow> plain_path u (p # ps) \<Longrightarrow> \<exists>os. u = JObj os"
  by (cases u) simp_all

lemma get_set_same:
  "is_object u \<Longrightarrow> ps \<noteq> [] \<Longrightarrow> plain_path u ps \<Longrightarrow> get_path (set_path u ps v) ps = v"
proof (induction u ps v rule: set_path.induct)
  case (2 u p v)
  then show ?case using plain_object [of u p "[]"] by (auto simp: is_object.simps)
next
  case (3 u p q ps v)
  obtain os where u: "u = JObj os" using plain_object [OF 3(2,4)] by blast
  have "plain_path (step_into (get_key u p)) (q # ps)" using plain_step [of os p "q # ps"] 3(4) by (simp add: u)
  then have "get_path (set_path (step_into (get_key u p)) (q # ps) v) (q # ps) = v"
    by (intro "3.IH") (simp_all add: step_into_def)
  then show ?case by (simp add: u)
qed simp

text \<open>Paths that part ways do not interfere.\<close>

lemma get_path_scalar: "\<not> is_object u \<Longrightarrow> qs \<noteq> [] \<Longrightarrow> get_path u qs = JUndef"
  by (cases qs) simp_all

lemma get_set_other:
  "plain_path u ps \<Longrightarrow> ps \<parallel> qs \<Longrightarrow> get_path (set_path u ps v) qs = get_path u qs"
proof (induction u ps v arbitrary: qs rule: set_path.induct)
  case (2 u p v)
  then obtain q qs' where "qs = q # qs'" "p \<noteq> q" by (cases qs) (auto simp: parallel_def)
  with 2 show ?case by (cases u) auto
next
  case (3 u p q ps v)
  then obtain r qs' where qs: "qs = r # qs'" by (cases qs) (auto simp: parallel_def)
  show ?case
  proof (cases "is_object u")
    case True
    obtain os where u: "u = JObj os" using plain_object [OF True 3(2)] by blast
    show ?thesis
    proof (cases "r = p")
      case True
      have "q # ps \<parallel> qs'" using 3(3) by (auto simp: qs True parallel_def)
      moreover have "plain_path (step_into (get_key u p)) (q # ps)"
        using plain_step [of os p "q # ps"] 3(2) by (simp add: u)
      ultimately have "get_path (set_path (step_into (get_key u p)) (q # ps) v) qs' = get_path (step_into (get_key u p)) qs'"
        by (rule "3.IH" [rotated])
      moreover have "qs' \<noteq> []" using \<open>q # ps \<parallel> qs'\<close> by (auto simp: parallel_def)
      then have "get_path (step_into (get_key u p)) qs' = get_path (get_key u p) qs'"
        by (cases qs') (auto simp: step_into_def get_path_scalar)
      ultimately show ?thesis by (simp add: qs True u)
    qed (simp add: qs u)
  qed (simp add: qs)
qed (simp add: parallel_def)

lemma plain_set_other:
  "plain_path u ps \<Longrightarrow> ps \<parallel> qs \<Longrightarrow> plain_path u qs \<Longrightarrow> plain_path (set_path u ps v) qs"
proof (induction u ps v arbitrary: qs rule: set_path.induct)
  case (2 u p v)
  then obtain q qs' where "qs = q # qs'" "p \<noteq> q" by (cases qs) (auto simp: parallel_def)
  with 2 show ?case by (cases u) auto
next
  case (3 u p q ps v)
  then obtain r qs' where qs: "qs = r # qs'" by (cases qs) (auto simp: parallel_def)
  show ?case
  proof (cases "is_object u")
    case True
    obtain os where u: "u = JObj os" using plain_object [OF True 3(2)] by blast
    show ?thesis
    proof (cases "r = p")
      case True
      have "q # ps \<parallel> qs'" using 3(3) by (auto simp: qs True parallel_def)
      moreover have "plain_path (step_into (get_key u p)) (q # ps)"
        using plain_step [of os p "q # ps"] 3(2) by (simp add: u)
      moreover have "plain_path (step_into (get_key u p)) qs'"
        using plain_step [of os p qs'] 3(4) by (simp add: u qs True)
      ultimately have "plain_path (set_path (step_into (get_key u p)) (q # ps) v) qs'"
        by (intro "3.IH")
      then show ?thesis by (simp add: qs True u)
    qed (use 3(4) in \<open>simp add: qs u\<close>)
  qed (use 3(4) in \<open>cases u; simp add: qs\<close>)
qed (simp add: parallel_def)

section \<open>The generic field editor\<close>

datatype field_kind = BooleanField | SelectField "string list" | NumberField | TextField | ListField | PlainField | RecordField

definition is_record :: "js \<Rightarrow> bool" where
  "is_record v = is_plain_object v"

definition field_kind_of :: "js \<Rightarrow> js \<Rightarrow> field_kind" where
  "field_kind_of schema v =
     (if is_record v \<or> (case v of JArr vs \<Rightarrow> list_ex is_record vs | _ \<Rightarrow> False) then RecordField
      else let ty = js_get schema ''type''
           in if ty = JStr ''boolean'' then BooleanField
              else if ty = JStr ''select'' then
                SelectField (case js_get schema ''options'' of JArr os \<Rightarrow> map js_string os | _ \<Rightarrow> [])
              else if ty = JStr ''number'' then NumberField
              else if ty = JStr ''text'' then TextField
              else if ty = JStr ''list'' then ListField
              else PlainField)"

text \<open>The text a field shows, and the value a change stores. \<open>num\<close> is \<open>Number\<close> on the text of
  a number input: no value for \<open>NaN\<close>, which changes nothing.\<close>

definition or_empty :: "js \<Rightarrow> js" where
  "or_empty v = (if v = JUndef \<or> v = JNull then JStr [] else v)"

definition field_text :: "field_kind \<Rightarrow> js \<Rightarrow> string" where
  "field_text k v =
     (case k of
        ListField \<Rightarrow>
          (case v of
             JArr vs \<Rightarrow> join '', '' (map (\<lambda>x. js_string (or_empty x)) vs)
           | _ \<Rightarrow> js_string (or_empty v))
      | _ \<Rightarrow> js_string (or_empty v))"

definition list_items :: "string \<Rightarrow> string list" where
  "list_items t = filter (\<lambda>x. x \<noteq> []) (map trim (split_on (CHR '','') t))"

datatype field_input = Typed string | Switched bool

definition field_change :: "(string \<Rightarrow> js option) \<Rightarrow> field_kind \<Rightarrow> field_input \<Rightarrow> js option" where
  "field_change num k inp =
     (case inp of
        Switched b \<Rightarrow> if k = BooleanField then Some (JBool b) else None
      | Typed t \<Rightarrow>
          (case k of
             BooleanField \<Rightarrow> None
           | RecordField \<Rightarrow> None
           | NumberField \<Rightarrow> if t = [] then Some (JNum 0) else num t
           | ListField \<Rightarrow> Some (JArr (map JStr (list_items t)))
           | _ \<Rightarrow> Some (JStr t)))"

text \<open>\<open>NestedValueEditor\<close>: the input of a scalar inside of a record or array, at a path of keys and
  indices; every level builds its value anew around the changed part.\<close>

datatype edit_step = AtKey string | AtIndex nat

fun nested_edit :: "edit_step list \<Rightarrow> string \<Rightarrow> js \<Rightarrow> js" where
  "nested_edit [] t v = JStr t"
| "nested_edit (AtKey k # ss) t (JObj ps) = JObj (obj_set k (nested_edit ss t (js_get (JObj ps) k)) ps)"
| "nested_edit (AtIndex i # ss) t (JArr vs) =
     JArr (map (\<lambda>(j, x). if j = i then nested_edit ss t x else x) (enumerate 0 vs))"
| "nested_edit _ t v = v"

text \<open>The inputs the editor offers: the scalars inside of the value.\<close>

fun nested_input :: "edit_step list \<Rightarrow> js \<Rightarrow> bool" where
  "nested_input [] v = (\<not> is_object v)"
| "nested_input (AtKey k # ss) (JObj ps) = (map_of ps k \<noteq> None \<and> nested_input ss (js_get (JObj ps) k))"
| "nested_input (AtIndex i # ss) (JArr vs) = (i < length vs \<and> nested_input ss (vs ! i))"
| "nested_input _ v = False"

fun nested_leaf :: "edit_step list \<Rightarrow> js \<Rightarrow> js" where
  "nested_leaf [] v = v"
| "nested_leaf (AtKey k # ss) v = nested_leaf ss (js_get v k)"
| "nested_leaf (AtIndex i # ss) v = (case v of JArr vs \<Rightarrow> if i < length vs then nested_leaf ss (vs ! i) else JUndef | _ \<Rightarrow> JUndef)"

lemma map_enumerate_update: "map (\<lambda>(j, x). if j = i then f x else x) (enumerate 0 vs) = (if i < length vs then vs[i := f (vs ! i)] else vs)"
  by (rule nth_equalityI) (auto simp: nth_list_update nth_enumerate_eq)

text \<open>An edit changes the input it was made in and no other.\<close>

lemma nested_edit_changes_one:
  "nested_input ss v \<Longrightarrow> nested_leaf ss (nested_edit ss t v) = JStr t
     \<and> (\<forall>rs. nested_input rs v \<longrightarrow> rs \<noteq> ss \<longrightarrow> nested_leaf rs (nested_edit ss t v) = nested_leaf rs v)"
proof (induction ss t v rule: nested_edit.induct)
  case (1 t v)
  have "nested_input rs v \<Longrightarrow> rs = []" if "\<not> is_object v" for rs
    using that by (cases "(rs, v)" rule: nested_input.cases) auto
  with 1 show ?case by auto
next
  case (2 k ss t ps)
  have "nested_leaf rs (nested_edit (AtKey k # ss) t (JObj ps)) = nested_leaf rs (JObj ps)"
    if rs: "nested_input rs (JObj ps)" "rs \<noteq> AtKey k # ss" for rs
  proof (cases rs)
    case (Cons r rs')
    then obtain k' where r: "r = AtKey k'" using rs(1) Cons by (cases r) auto
    show ?thesis using rs 2 by (cases "k' = k") (auto simp: Cons r)
  qed (use rs in simp)
  with 2 show ?case by simp
next
  case (3 i ss t vs)
  have "nested_leaf rs (nested_edit (AtIndex i # ss) t (JArr vs)) = nested_leaf rs (JArr vs)"
    if rs: "nested_input rs (JArr vs)" "rs \<noteq> AtIndex i # ss" for rs
  proof (cases rs)
    case (Cons r rs')
    then obtain i' where r: "r = AtIndex i'" using rs(1) Cons by (cases r) auto
    have i: "(i, vs ! i) \<in> set (enumerate 0 vs)" "i < length vs" "nested_input ss (vs ! i)"
      using 3(2) by (auto simp: in_set_enumerate_eq)
    show ?thesis using rs 3(1) [OF i(1) refl refl i(3)] i(2)
      by (cases "i' = i") (auto simp: Cons r map_enumerate_update)
  qed (use rs in simp)
  moreover have "i < length vs" "nested_input ss (vs ! i)" "(i, vs ! i) \<in> set (enumerate 0 vs)"
    using 3(2) by (auto simp: in_set_enumerate_eq)
  ultimately show ?case using 3(1) by (simp add: map_enumerate_update)
qed simp_all

text \<open>A list that was typed in is shown as it was understood.\<close>

definition list_item_ok :: "string \<Rightarrow> bool" where
  "list_item_ok x \<longleftrightarrow> x \<noteq> [] \<and> trimmed x \<and> CHR '','' \<notin> set x"

lemma list_items_ok: "x \<in> set (list_items t) \<Longrightarrow> list_item_ok x"
proof -
  assume "x \<in> set (list_items t)"
  then obtain w where w: "w \<in> set (split_on (CHR '','') t)" "x = trim w" "x \<noteq> []" by (auto simp: list_items_def)
  have "set (trim w) \<subseteq> set w"
    by (auto simp: trim_def trim_end_def trim_start_def dest!: set_dropWhileD)
  then show ?thesis using w split_on_free_parts trimmed_trim by (auto simp: list_item_ok_def)
qed

lemma trim_lead: "list_item_ok x \<Longrightarrow> trim (CHR '' '' # x) = x"
proof -
  assume "list_item_ok x"
  moreover have "trim_start (CHR '' '' # x) = trim_start x" by (simp add: trim_start_def is_ws_def code_def)
  ultimately show ?thesis using trim_trimmed by (simp add: trim_def list_item_ok_def)
qed

lemma split_on_join2:
  "ws \<noteq> [] \<Longrightarrow> (\<And>w. w \<in> set ws \<Longrightarrow> CHR '','' \<notin> set w) \<Longrightarrow>
     split_on (CHR '','') (join '', '' ws) = hd ws # map ((#) (CHR '' '')) (tl ws)"
proof (induction "'', ''" ws rule: join.induct)
  case (2 w)
  then show ?case by (simp add: split_on_free)
next
  case (3 w v ws)
  then have "split_on (CHR '','') (join '', '' (v # ws)) = v # map ((#) (CHR '' '')) ws" by simp
  moreover have "split_on (CHR '','') (w @ CHR '','' # CHR '' '' # join '', '' (v # ws))
      = w # split_on (CHR '','') (CHR '' '' # join '', '' (v # ws))"
    by (rule split_on_append) (use 3(3) in simp)
  ultimately show ?case by simp
qed simp

lemma list_field_roundtrip:
  "list_all list_item_ok xs \<Longrightarrow> list_items (field_text ListField (JArr (map JStr xs))) = xs"
proof (cases xs)
  case Nil
  then show ?thesis by (simp add: list_items_def field_text_def)
next
  case (Cons x ys)
  assume ok: "list_all list_item_ok xs"
  have free: "\<And>w. w \<in> set xs \<Longrightarrow> CHR '','' \<notin> set w" using ok by (auto simp: list_all_iff list_item_ok_def)
  have shown: "field_text ListField (JArr (map JStr xs)) = join '', '' xs"
    by (simp add: field_text_def or_empty_def comp_def)
  have "map trim (map ((#) (CHR '' '')) ys) = ys"
    using ok trim_lead by (simp add: Cons list_all_iff map_idI)
  moreover have "trim x = x" using ok by (simp add: Cons list_item_ok_def trim_trimmed)
  ultimately have "map trim (split_on (CHR '','') (join '', '' xs)) = xs"
    using split_on_join2 [of xs, OF _ free] by (simp only: Cons) simp
  moreover have "filter (\<lambda>x. x \<noteq> []) xs = xs" using ok by (auto simp: filter_id_conv list_all_iff list_item_ok_def)
  ultimately show ?thesis by (simp add: shown list_items_def)
qed

text \<open>A comma typed at the end of a list field is taken away again by the next render, so a further item
  cannot be started there.\<close>

lemma list_comma_swallowed:
  "list_all list_item_ok xs \<Longrightarrow> xs \<noteq> [] \<Longrightarrow>
     field_change num ListField (Typed (field_text ListField (JArr (map JStr xs)) @ '',''))
       = Some (JArr (map JStr xs))"
proof -
  assume ok: "list_all list_item_ok xs" and ne: "xs \<noteq> []"
  have snoc: "split_on c (s @ [c]) = split_on c s @ [[]]" for c and s :: string
    by (induction s) (auto split: list.splits)
  have "list_items (field_text ListField (JArr (map JStr xs)) @ '','') = list_items (field_text ListField (JArr (map JStr xs)))"
    by (simp add: list_items_def snoc)
  with list_field_roundtrip [OF ok] show ?thesis by (simp add: field_change_def)
qed

text \<open>Editing a number or a truth value inside of a record stores a string.\<close>

lemma nested_edit_forgets_type:
  "nested_edit [AtKey ''port''] ''8081'' (JObj [(''port'', JNum 8080)]) = JObj [(''port'', JStr ''8081'')]"
  by code_simp

end
