(* ===== verification/ConfigPage.thy ===== *)
theory ConfigPage
  imports Nested "HOL-Library.List_Lexorder" "HOL-Library.Char_ord" "HOL-Library.Multiset"
begin

text \<open>
  The configuration page, \<open>web/src/pages/ConfigPage.tsx\<close>: its tabs, its search, the form edits, the
  scoped reset, the YAML mode, saving and importing, as a state machine over the user's events and
  the answers of the server. Requests without an answer yet are kept in a list; toasts are named by
  their message key.
\<close>

section \<open>State\<close>

datatype cfg_req = ReqConfig | ReqSchema | ReqDefaults | ReqPath | ReqStatus | ReqYaml | ReqSave js | ReqSaveYaml string

datatype cfg_toast =
    ConfigSaved | FailedToSave string | YamlConfigSaved | FailedToSaveYaml string | FailedToLoadRaw
  | ResetScope string | ConfigImported | InvalidJson

record config_page =
  cfgConfig :: js
  cfgSchema :: "(string \<times> js) list option"
  cfgOrder :: "string list"
  cfgDefaults :: js
  cfgSaving :: bool
  cfgSearch :: string
  cfgYaml :: bool
  cfgYamlText :: js
  cfgYamlLoading :: bool
  cfgYamlSaving :: bool
  cfgPath :: js
  cfgCategory :: string
  cfgConfirm :: bool
  cfgReads :: nat
  cfgReqs :: "cfg_req list"
  cfgToasts :: "cfg_toast list"

definition config_start :: config_page where
  "config_start = \<lparr>cfgConfig = JNull, cfgSchema = None, cfgOrder = [], cfgDefaults = JNull, cfgSaving = False,
     cfgSearch = [], cfgYaml = False, cfgYamlText = JStr [], cfgYamlLoading = False, cfgYamlSaving = False,
     cfgPath = JNull, cfgCategory = [], cfgConfirm = False, cfgReads = 0,
     cfgReqs = [ReqConfig, ReqSchema, ReqDefaults, ReqPath, ReqStatus], cfgToasts = []\<rparr>"

section \<open>Tabs and search\<close>

definition or_default :: "string \<Rightarrow> js \<Rightarrow> string" where
  "or_default d v = (if v = JUndef \<or> v = JNull then d else js_string v)"

definition category_of :: "js \<Rightarrow> string" where
  "category_of s = or_default ''general'' (js_get s ''category'')"

text \<open>\<open>[...new Set(xs)]\<close>: the first occurrence of each.\<close>

definition uniques :: "'a list \<Rightarrow> 'a list" where
  "uniques xs = rev (remdups (rev xs))"

definition config_categories :: "(string \<times> js) list option \<Rightarrow> string list \<Rightarrow> string list" where
  "config_categories schema order =
     (case schema of
        None \<Rightarrow> []
      | Some fs \<Rightarrow>
          (let cats = uniques (map (\<lambda>f. category_of (snd f)) fs)
           in filter (\<lambda>c. c \<in> set cats) order @ sort (filter (\<lambda>c. c \<notin> set order) cats)))"

definition category_count :: "(string \<times> js) list option \<Rightarrow> string \<Rightarrow> nat" where
  "category_count schema c =
     (case schema of None \<Rightarrow> 0 | Some fs \<Rightarrow> length (filter (\<lambda>f. category_of (snd f) = c) fs))"

definition is_searching :: "config_page \<Rightarrow> bool" where
  "is_searching s \<longleftrightarrow> trim (cfgSearch s) \<noteq> []"

definition field_label :: "string \<Rightarrow> string" where
  "field_label key = map (\<lambda>c. if c = CHR ''_'' then CHR '' '' else c) (last (path_parts key))"

definition field_matches :: "string \<Rightarrow> string \<times> js \<Rightarrow> bool" where
  "field_matches q f =
     (let hit = (\<lambda>t. str_includes (lower t) q)
      in hit (fst f) \<or> hit (field_label (fst f)) \<or> hit (or_default [] (js_get (snd f) ''category''))
         \<or> hit (or_default [] (js_get (snd f) ''description'')))"

definition search_matched_fields :: "config_page \<Rightarrow> (string \<times> js) list" where
  "search_matched_fields s =
     (if \<not> is_searching s then []
      else case cfgSchema s of None \<Rightarrow> [] | Some fs \<Rightarrow> filter (field_matches (lower (cfgSearch s))) fs)"

definition active_fields :: "config_page \<Rightarrow> (string \<times> js) list" where
  "active_fields s =
     (if is_searching s then []
      else case cfgSchema s of None \<Rightarrow> [] | Some fs \<Rightarrow> filter (\<lambda>f. category_of (snd f) = cfgCategory s) fs)"

definition scoped_fields :: "config_page \<Rightarrow> (string \<times> js) list" where
  "scoped_fields s = (if is_searching s then search_matched_fields s else active_fields s)"

section \<open>Handlers\<close>

definition send_req :: "cfg_req \<Rightarrow> config_page \<Rightarrow> config_page" where
  "send_req r s = s\<lparr>cfgReqs := cfgReqs s @ [r]\<rparr>"

definition show_toast :: "cfg_toast \<Rightarrow> config_page \<Rightarrow> config_page" where
  "show_toast t s = s\<lparr>cfgToasts := cfgToasts s @ [t]\<rparr>"

text \<open>The names of the categories have translations; \<open>tr\<close> is that table.\<close>

definition pretty_category_name :: "(string \<Rightarrow> string option) \<Rightarrow> string \<Rightarrow> string" where
  "pretty_category_name tr cat =
     (case tr cat of
        Some t \<Rightarrow> if t \<noteq> [] then t else concat (map upper_char (take 1 cat)) @ drop 1 cat
      | None \<Rightarrow> concat (map upper_char (take 1 cat)) @ drop 1 cat)"

definition handle_save :: "config_page \<Rightarrow> config_page" where
  "handle_save s = (if \<not> truthy (cfgConfig s) then s else send_req (ReqSave (cfgConfig s)) (s\<lparr>cfgSaving := True\<rparr>))"

definition handle_yaml_save :: "config_page \<Rightarrow> config_page" where
  "handle_yaml_save s = send_req (ReqSaveYaml (js_string (cfgYamlText s))) (s\<lparr>cfgYamlSaving := True\<rparr>)"

definition handle_reset :: "config_page \<Rightarrow> config_page" where
  "handle_reset s =
     (if \<not> truthy (cfgDefaults s) \<or> \<not> truthy (cfgConfig s) \<or> scoped_fields s = [] then s else s\<lparr>cfgConfirm := True\<rparr>)"

definition reset_fields :: "js \<Rightarrow> string list \<Rightarrow> js \<Rightarrow> js option" where
  "reset_fields dflt keys config =
     fold (\<lambda>key next. Option.bind next (\<lambda>c. set_nested_value c key (get_nested_value dflt key))) keys (Some config)"

definition execute_reset :: "(string \<Rightarrow> string option) \<Rightarrow> config_page \<Rightarrow> config_page" where
  "execute_reset tr s =
     (if \<not> truthy (cfgDefaults s) \<or> \<not> truthy (cfgConfig s) then s
      else (let s1 = s\<lparr>cfgConfirm := False\<rparr>
            in if scoped_fields s = [] then s1
               else case reset_fields (cfgDefaults s) (map fst (scoped_fields s)) (cfgConfig s) of
                   None \<Rightarrow> s1
                 | Some next \<Rightarrow>
                     show_toast (ResetScope (if is_searching s then ''searchResults'' else pretty_category_name tr (cfgCategory s)))
                       (s1\<lparr>cfgConfig := next\<rparr>)))"

definition field_edited :: "string \<Rightarrow> js \<Rightarrow> config_page \<Rightarrow> config_page" where
  "field_edited key v s =
     (case set_nested_value (cfgConfig s) key v of None \<Rightarrow> s | Some c \<Rightarrow> s\<lparr>cfgConfig := c\<rparr>)"

text \<open>The end of reading a picked file; the argument is its parsed text, none when parsing throws.\<close>

definition import_read :: "js option \<Rightarrow> config_page \<Rightarrow> config_page" where
  "import_read parsed s =
     (let s1 = s\<lparr>cfgReads := cfgReads s - 1\<rparr>
      in case parsed of
           None \<Rightarrow> show_toast InvalidJson s1
         | Some v \<Rightarrow> show_toast ConfigImported (s1\<lparr>cfgConfig := v\<rparr>))"

definition toggle_yaml :: "config_page \<Rightarrow> config_page" where
  "toggle_yaml s =
     (if cfgYaml s then s\<lparr>cfgYaml := False\<rparr>
      else send_req ReqYaml (s\<lparr>cfgYaml := True, cfgYamlLoading := True\<rparr>))"

definition pairs_of :: "js \<Rightarrow> (string \<times> js) list" where
  "pairs_of v = (case v of JObj ps \<Rightarrow> ps | _ \<Rightarrow> [])"

definition strings_of :: "js \<Rightarrow> string list" where
  "strings_of v = (case v of JArr vs \<Rightarrow> map js_string vs | _ \<Rightarrow> [])"

definition cfg_answered :: "cfg_req \<Rightarrow> string + js \<Rightarrow> config_page \<Rightarrow> config_page" where
  "cfg_answered req r s =
     (case req of
        ReqConfig \<Rightarrow> (case r of Inr v \<Rightarrow> s\<lparr>cfgConfig := v\<rparr> | Inl e \<Rightarrow> s)
      | ReqSchema \<Rightarrow>
          (case r of
             Inr v \<Rightarrow> s\<lparr>cfgSchema := Some (obj_del ''memory.provider'' (pairs_of (js_get v ''fields''))),
                       cfgOrder := strings_of (js_get v ''category_order'')\<rparr>
           | Inl e \<Rightarrow> s)
      | ReqDefaults \<Rightarrow> (case r of Inr v \<Rightarrow> s\<lparr>cfgDefaults := v\<rparr> | Inl e \<Rightarrow> s)
      | ReqPath \<Rightarrow>
          (case r of
             Inr v \<Rightarrow> if truthy (js_get v ''path'') then s\<lparr>cfgPath := js_get v ''path''\<rparr> else s
           | Inl e \<Rightarrow> s)
      | ReqStatus \<Rightarrow>
          (case r of
             Inr v \<Rightarrow> if cfgPath s = JNull \<or> cfgPath s = JUndef then s\<lparr>cfgPath := js_get v ''config_path''\<rparr> else s
           | Inl e \<Rightarrow> s)
      | ReqYaml \<Rightarrow>
          (case r of
             Inr v \<Rightarrow> s\<lparr>cfgYamlText := js_get v ''yaml'', cfgYamlLoading := False\<rparr>
           | Inl e \<Rightarrow> show_toast FailedToLoadRaw (s\<lparr>cfgYamlLoading := False\<rparr>))
      | ReqSave c \<Rightarrow>
          (case r of
             Inr v \<Rightarrow> show_toast ConfigSaved (s\<lparr>cfgSaving := False\<rparr>)
           | Inl e \<Rightarrow> show_toast (FailedToSave e) (s\<lparr>cfgSaving := False\<rparr>))
      | ReqSaveYaml t \<Rightarrow>
          (case r of
             Inr v \<Rightarrow> send_req ReqConfig (show_toast YamlConfigSaved (s\<lparr>cfgYamlSaving := False\<rparr>))
           | Inl e \<Rightarrow> show_toast (FailedToSaveYaml e) (s\<lparr>cfgYamlSaving := False\<rparr>)))"

text \<open>The effect that picks the first tab once the tabs are known.\<close>

definition pick_category :: "config_page \<Rightarrow> config_page" where
  "pick_category s = (if cfgOrder s \<noteq> [] \<and> cfgCategory s = [] then s\<lparr>cfgCategory := hd (cfgOrder s)\<rparr> else s)"

datatype cfg_event =
    CfgAnswered nat "string + js"
  | CfgSearch string
  | CfgCategory string
  | CfgYamlToggle
  | CfgYamlEdit string
  | CfgSave
  | CfgYamlSave
  | CfgReset
  | CfgResetConfirm
  | CfgResetCancel
  | CfgEdit string js
  | CfgPickFile
  | CfgFileRead "js option"

definition drop_at :: "nat \<Rightarrow> 'a list \<Rightarrow> 'a list" where
  "drop_at i xs = take i xs @ drop (Suc i) xs"

primrec config_handler :: "(string \<Rightarrow> string option) \<Rightarrow> config_page \<Rightarrow> cfg_event \<Rightarrow> config_page" where
  "config_handler tr s (CfgAnswered i r) =
     cfg_answered (cfgReqs s ! i) r (s\<lparr>cfgReqs := drop_at i (cfgReqs s)\<rparr>)"
| "config_handler tr s (CfgSearch q) = s\<lparr>cfgSearch := q\<rparr>"
| "config_handler tr s (CfgCategory c) = s\<lparr>cfgSearch := [], cfgCategory := c\<rparr>"
| "config_handler tr s CfgYamlToggle = toggle_yaml s"
| "config_handler tr s (CfgYamlEdit t) = s\<lparr>cfgYamlText := JStr t\<rparr>"
| "config_handler tr s CfgSave = handle_save s"
| "config_handler tr s CfgYamlSave = handle_yaml_save s"
| "config_handler tr s CfgReset = handle_reset s"
| "config_handler tr s CfgResetConfirm = execute_reset tr s"
| "config_handler tr s CfgResetCancel = s\<lparr>cfgConfirm := False\<rparr>"
| "config_handler tr s (CfgEdit key v) = field_edited key v s"
| "config_handler tr s CfgPickFile = s\<lparr>cfgReads := Suc (cfgReads s)\<rparr>"
| "config_handler tr s (CfgFileRead p) = import_read p s"

definition config_step :: "(string \<Rightarrow> string option) \<Rightarrow> config_page \<Rightarrow> cfg_event \<Rightarrow> config_page" where
  "config_step tr s e = pick_category (config_handler tr s e)"

text \<open>Without a configuration or a schema the page is a spinner; the buttons are disabled while they save.\<close>

definition form_ready :: "config_page \<Rightarrow> bool" where
  "form_ready s \<longleftrightarrow> truthy (cfgConfig s) \<and> cfgSchema s \<noteq> None"

primrec config_enabled :: "config_page \<Rightarrow> cfg_event \<Rightarrow> bool" where
  "config_enabled s (CfgAnswered i r) = (i < length (cfgReqs s))"
| "config_enabled s (CfgSearch q) = form_ready s"
| "config_enabled s (CfgCategory c) = (form_ready s \<and> \<not> cfgYaml s \<and> c \<in> set (config_categories (cfgSchema s) (cfgOrder s)))"
| "config_enabled s CfgYamlToggle = form_ready s"
| "config_enabled s (CfgYamlEdit t) = (form_ready s \<and> cfgYaml s \<and> \<not> cfgYamlLoading s)"
| "config_enabled s CfgSave = (form_ready s \<and> \<not> cfgYaml s \<and> \<not> cfgSaving s)"
| "config_enabled s CfgYamlSave = (form_ready s \<and> cfgYaml s \<and> \<not> cfgYamlSaving s)"
| "config_enabled s CfgReset = (form_ready s \<and> \<not> cfgYaml s)"
| "config_enabled s CfgResetConfirm = (form_ready s \<and> cfgConfirm s)"
| "config_enabled s CfgResetCancel = (form_ready s \<and> cfgConfirm s)"
| "config_enabled s (CfgEdit key v) = (form_ready s \<and> \<not> cfgYaml s \<and> key \<in> fst ` set (scoped_fields s))"
| "config_enabled s CfgPickFile = form_ready s"
| "config_enabled s (CfgFileRead p) = (0 < cfgReads s)"

section \<open>The reset is scoped\<close>

text \<open>Paths of which none leads through another.\<close>

definition apart :: "string list \<Rightarrow> bool" where
  "apart keys = sorted_wrt (\<lambda>k k'. path_parts k \<parallel> path_parts k') keys"

lemma reset_fields_spec:
  "is_object c \<Longrightarrow> apart keys \<Longrightarrow> (\<And>k. k \<in> set keys \<Longrightarrow> plain_path c (path_parts k)) \<Longrightarrow>
     \<exists>c'. reset_fields d keys c = Some c'
       \<and> (\<forall>k \<in> set keys. get_nested_value c' k = get_nested_value d k)
       \<and> (\<forall>p. (\<forall>k \<in> set keys. path_parts k \<parallel> p) \<longrightarrow> get_path c' p = get_path c p)"
proof (induction keys arbitrary: c)
  case (Cons k keys)
  let ?c = "set_path c (path_parts k) (get_nested_value d k)"
  have par: "path_parts k \<parallel> path_parts k'" if "k' \<in> set keys" for k'
    using Cons.prems(2) that by (simp add: apart_def)
  have plain: "plain_path ?c (path_parts k')" if "k' \<in> set keys" for k'
    using that par Cons.prems(3) by (intro plain_set_other) simp_all
  obtain c' where c': "reset_fields d keys ?c = Some c'"
    "\<forall>k \<in> set keys. get_nested_value c' k = get_nested_value d k"
    "\<And>p. \<forall>k \<in> set keys. path_parts k \<parallel> p \<Longrightarrow> get_path c' p = get_path ?c p"
    using Cons.IH [of ?c] Cons.prems(1,2) plain by (auto simp: apart_def)
  have "get_path c' (path_parts k) = get_path ?c (path_parts k)"
    using par by (intro c'(3)) (auto simp: parallel_commute)
  also have "\<dots> = get_nested_value d k"
    using Cons.prems(1,3) by (intro get_set_same) simp_all
  finally have "get_nested_value c' k = get_nested_value d k" by (simp add: get_nested_value_def)
  moreover have "get_path c' p = get_path c p" if "\<forall>k \<in> set (k # keys). path_parts k \<parallel> p" for p
    using that c'(3) [of p] get_set_other [of c "path_parts k" p] Cons.prems(3) by simp
  moreover have "reset_fields d (k # keys) c = reset_fields d keys ?c"
    using Cons.prems(1) by (simp add: reset_fields_def set_nested_value_def)
  ultimately show ?case using c'(1,2) by auto
qed (simp add: reset_fields_def)

text \<open>Claim C17. Confirming the reset sets exactly the fields on screen, those of the tab or the search
  matches, to their defaults: every other path of the configuration reads as before. The
  schema's keys must not lead through one another or through a list.\<close>

theorem reset_restores_what_is_shown:
  assumes "form_ready s" "is_object (cfgConfig s)" "truthy (cfgDefaults s)"
    and "apart (map fst (scoped_fields s))"
    and "list_all (\<lambda>f. plain_path (cfgConfig s) (path_parts (fst f))) (scoped_fields s)"
    and "list_all (\<lambda>f. path_parts (fst f) \<parallel> path_parts other) (scoped_fields s)"
  shows "list_all (\<lambda>f. get_nested_value (cfgConfig (execute_reset tr s)) (fst f) = get_nested_value (cfgDefaults s) (fst f))
       (scoped_fields s)
    \<and> get_nested_value (cfgConfig (execute_reset tr s)) other = get_nested_value (cfgConfig s) other"
proof -
  let ?keys = "map fst (scoped_fields s)"
  obtain c' where c': "reset_fields (cfgDefaults s) ?keys (cfgConfig s) = Some c'"
    "\<forall>k \<in> set ?keys. get_nested_value c' k = get_nested_value (cfgDefaults s) k"
    "\<And>p. \<forall>k \<in> set ?keys. path_parts k \<parallel> p \<Longrightarrow> get_path c' p = get_path (cfgConfig s) p"
  proof -
    have "plain_path (cfgConfig s) (path_parts k)" if "k \<in> set ?keys" for k
      using assms(5) that by (auto simp: list_all_iff)
    from reset_fields_spec [OF assms(2,4) this] show ?thesis using that by blast
  qed
  have "get_path c' (path_parts other) = get_path (cfgConfig s) (path_parts other)"
    using assms(6) by (intro c'(3)) (simp add: list_all_iff)
  moreover have "scoped_fields s \<noteq> [] \<Longrightarrow> cfgConfig (execute_reset tr s) = c'"
    using assms(1,3) by (simp add: execute_reset_def form_ready_def Let_def c'(1) show_toast_def)
  ultimately show ?thesis using c'(2)
    by (cases "scoped_fields s = []")
      (simp_all add: execute_reset_def get_nested_value_def list_all_iff Let_def)
qed

definition sample_config_page :: config_page where
  "sample_config_page = config_start
     \<lparr>cfgConfig := JObj [(''agent'', JObj [(''name'', JStr ''x''), (''turns'', JNum 9)]), (''tts'', JObj [(''on'', JBool True)])],
      cfgDefaults := JObj [(''agent'', JObj [(''name'', JStr ''hermes''), (''turns'', JNum 5)]), (''tts'', JObj [(''on'', JBool False)])],
      cfgSchema := Some [(''agent.name'', JObj [(''category'', JStr ''agent'')]),
                         (''agent.turns'', JObj [(''category'', JStr ''agent'')]), (''tts.on'', JObj [])],
      cfgOrder := [''agent''], cfgCategory := ''agent''\<rparr>"

theorem reset_restores_what_is_shown_witness:
  "map fst (scoped_fields sample_config_page) = [''agent.name'', ''agent.turns'']
   \<and> cfgConfig (execute_reset (\<lambda>_. None) sample_config_page) =
       JObj [(''agent'', JObj [(''name'', JStr ''hermes''), (''turns'', JNum 5)]), (''tts'', JObj [(''on'', JBool True)])]
   \<and> get_nested_value (cfgConfig (execute_reset (\<lambda>_. None) sample_config_page)) ''tts.on'' = JBool True"
proof -
  have fields: "map fst (scoped_fields sample_config_page) = [''agent.name'', ''agent.turns'']" by code_simp
  have "form_ready sample_config_page" "is_object (cfgConfig sample_config_page)" "truthy (cfgDefaults sample_config_page)"
    "list_all (\<lambda>f. plain_path (cfgConfig sample_config_page) (path_parts (fst f))) (scoped_fields sample_config_page)"
    by code_simp+
  moreover have "path_parts ''agent.name'' = [''agent'', ''name'']" "path_parts ''agent.turns'' = [''agent'', ''turns'']"
    "path_parts ''tts.on'' = [''tts'', ''on'']"
    by code_simp+
  then have "apart (map fst (scoped_fields sample_config_page))"
    "list_all (\<lambda>k. path_parts k \<parallel> path_parts ''tts.on'') (map fst (scoped_fields sample_config_page))"
    unfolding fields by (simp_all add: apart_def parallel_def)
  moreover from this(2) have "list_all (\<lambda>f. path_parts (fst f) \<parallel> path_parts ''tts.on'') (scoped_fields sample_config_page)"
    by (simp only: list.pred_map comp_def)
  ultimately have "get_nested_value (cfgConfig (execute_reset (\<lambda>_. None) sample_config_page)) ''tts.on''
      = get_nested_value (cfgConfig sample_config_page) ''tts.on''"
    by (intro conjunct2 [OF reset_restores_what_is_shown]) assumption+
  moreover have "get_nested_value (cfgConfig sample_config_page) ''tts.on'' = JBool True" by code_simp
  moreover have "cfgConfig (execute_reset (\<lambda>_. None) sample_config_page) =
       JObj [(''agent'', JObj [(''name'', JStr ''hermes''), (''turns'', JNum 5)]), (''tts'', JObj [(''on'', JBool True)])]"
    by code_simp
  ultimately show ?thesis using fields by simp
qed

section \<open>Every field has one tab\<close>

lemma set_uniques [simp]: "set (uniques xs) = set xs" and distinct_uniques [simp]: "distinct (uniques xs)"
  by (simp_all add: uniques_def)

lemma list_empty: "(\<And>x. x \<in> set xs \<Longrightarrow> False) \<Longrightarrow> xs = []"
  by (cases xs) auto

lemma mset_by_class:
  "distinct cs \<Longrightarrow> (\<And>x. x \<in> set xs \<Longrightarrow> g x \<in> set cs) \<Longrightarrow> mset (concat (map (\<lambda>c. filter (\<lambda>x. g x = c) xs) cs)) = mset xs"
proof (induction cs arbitrary: xs)
  case (Cons c cs)
  have eq: "map (\<lambda>d. filter (\<lambda>x. g x = d) xs) cs = map (\<lambda>d. filter (\<lambda>x. g x = d) (filter (\<lambda>x. g x \<noteq> c) xs)) cs"
    using Cons.prems(1) by (intro map_cong refl) (auto intro: filter_cong)
  have "mset (concat (map (\<lambda>d. filter (\<lambda>x. g x = d) xs) cs)) = mset (filter (\<lambda>x. g x \<noteq> c) xs)"
    unfolding eq using Cons.prems by (intro Cons.IH) auto
  then show ?case using multiset_partition [of "mset xs" "\<lambda>x. g x = c"] by simp
next
  case Nil
  have "xs = []" by (rule list_empty) (use Nil in auto)
  then show ?case by simp
qed

lemma categories_spec:
  "set (config_categories (Some fs) order) = (\<lambda>f. category_of (snd f)) ` set fs"
  "distinct order \<Longrightarrow> distinct (config_categories (Some fs) order)"
  by (auto simp: config_categories_def Let_def)

text \<open>Every field of the schema is on exactly one tab: when the category order names no category
  twice, the fields of all tabs together are the schema's fields, and the count on a tab is the
  number of fields it shows.\<close>

theorem every_field_has_one_tab:
  assumes "cfgSchema s = Some fs" "distinct (cfgOrder s)" "\<not> is_searching s"
  shows "mset (concat (map (\<lambda>c. active_fields (s\<lparr>cfgCategory := c\<rparr>)) (config_categories (cfgSchema s) (cfgOrder s)))) = mset fs
    \<and> length (active_fields s) = category_count (cfgSchema s) (cfgCategory s)"
proof -
  have "active_fields (s\<lparr>cfgCategory := c\<rparr>) = filter (\<lambda>f. category_of (snd f) = c) fs" for c
    using assms by (simp add: active_fields_def is_searching_def)
  moreover have "mset (concat (map (\<lambda>c. filter (\<lambda>f. category_of (snd f) = c) fs) (config_categories (Some fs) (cfgOrder s)))) = mset fs"
    using assms(2) by (intro mset_by_class) (simp_all add: categories_spec)
  ultimately show ?thesis using assms by (simp add: category_count_def active_fields_def)
qed

theorem every_field_has_one_tab_witness:
  "mset (concat (map (\<lambda>c. active_fields (sample_config_page\<lparr>cfgCategory := c\<rparr>)) [''agent'', ''general'']))
     = mset (the (cfgSchema sample_config_page))"
proof -
  have "cfgSchema sample_config_page = Some (the (cfgSchema sample_config_page))" "distinct (cfgOrder sample_config_page)"
    "\<not> is_searching sample_config_page"
    "config_categories (cfgSchema sample_config_page) (cfgOrder sample_config_page) = [''agent'', ''general'']"
    by code_simp+
  then show ?thesis using every_field_has_one_tab [of sample_config_page "the (cfgSchema sample_config_page)"] by simp
qed

section \<open>Saving\<close>

fun is_save :: "cfg_req \<Rightarrow> bool" where
  "is_save (ReqSave c) = True"
| "is_save _ = False"

fun is_yaml_save :: "cfg_req \<Rightarrow> bool" where
  "is_yaml_save (ReqSaveYaml t) = True"
| "is_yaml_save _ = False"

definition flag :: "bool \<Rightarrow> nat" where
  "flag b = (if b then 1 else 0)"

lemma drop_at_split: "i < length xs \<Longrightarrow> xs = take i xs @ xs ! i # drop (Suc i) xs"
  by (rule id_take_nth_drop)

lemma filter_drop_at:
  "i < length xs \<Longrightarrow> length (filter P (drop_at i xs)) = length (filter P xs) - flag (P (xs ! i))"
proof -
  assume "i < length xs"
  then have "length (filter P xs) = length (filter P (take i xs @ xs ! i # drop (Suc i) xs))"
    using drop_at_split by metis
  then show ?thesis by (simp add: drop_at_def flag_def)
qed

lemma pick_category_frame [simp]:
  "cfgReqs (pick_category s) = cfgReqs s" "cfgSaving (pick_category s) = cfgSaving s"
  "cfgYamlSaving (pick_category s) = cfgYamlSaving s" "cfgYamlLoading (pick_category s) = cfgYamlLoading s"
  "cfgConfig (pick_category s) = cfgConfig s" "cfgSchema (pick_category s) = cfgSchema s"
  "cfgReads (pick_category s) = cfgReads s"
  by (simp_all add: pick_category_def)

lemmas config_handlers = send_req_def show_toast_def handle_save_def handle_yaml_save_def handle_reset_def
  execute_reset_def field_edited_def import_read_def toggle_yaml_def Let_def

definition saving_flags :: "config_page \<Rightarrow> nat \<times> nat" where
  "saving_flags s = (flag (cfgSaving s), flag (cfgYamlSaving s))"

definition outstanding_saves :: "config_page \<Rightarrow> nat \<times> nat" where
  "outstanding_saves s = (length (filter is_save (cfgReqs s)), length (filter is_yaml_save (cfgReqs s)))"

lemma saves_keep:
  "cfgReqs t = cfgReqs s \<Longrightarrow> cfgSaving t = cfgSaving s \<Longrightarrow> cfgYamlSaving t = cfgYamlSaving s \<Longrightarrow>
     outstanding_saves s = saving_flags s \<Longrightarrow> outstanding_saves t = saving_flags t"
  by (simp add: outstanding_saves_def saving_flags_def)

lemma answered_saves:
  assumes "outstanding_saves s = saving_flags s" "i < length (cfgReqs s)"
  shows "outstanding_saves (config_handler tr s (CfgAnswered i r)) = saving_flags (config_handler tr s (CfgAnswered i r))"
proof -
  let ?s = "s\<lparr>cfgReqs := drop_at i (cfgReqs s)\<rparr>"
  have one: "length (filter is_save (cfgReqs s)) = flag (cfgSaving s)"
    "length (filter is_yaml_save (cfgReqs s)) = flag (cfgYamlSaving s)"
    using assms(1) by (simp_all add: outstanding_saves_def saving_flags_def)
  have left: "length (filter is_save (cfgReqs ?s)) = flag (cfgSaving s) - flag (is_save (cfgReqs s ! i))"
    "length (filter is_yaml_save (cfgReqs ?s)) = flag (cfgYamlSaving s) - flag (is_yaml_save (cfgReqs s ! i))"
    using assms(2) one by (simp_all add: filter_drop_at)
  show ?thesis
    using left
    by (cases "cfgReqs s ! i"; cases r)
      (simp_all add: cfg_answered_def outstanding_saves_def saving_flags_def flag_def send_req_def show_toast_def split: if_splits)
qed

lemma config_step_saves:
  assumes "outstanding_saves s = saving_flags s" "config_enabled s e"
  shows "outstanding_saves (config_step tr s e) = saving_flags (config_step tr s e)"
proof -
  have "outstanding_saves (config_handler tr s e) = saving_flags (config_handler tr s e)"
  proof (cases e)
    case (CfgAnswered i r)
    then show ?thesis using assms answered_saves by simp
  next
    case CfgYamlToggle
    then show ?thesis using assms
      by (simp add: toggle_yaml_def send_req_def outstanding_saves_def saving_flags_def)
  next
    case CfgSave
    then show ?thesis using assms
      by (auto simp add: handle_save_def send_req_def outstanding_saves_def saving_flags_def flag_def split: if_splits)
  next
    case CfgYamlSave
    then show ?thesis using assms
      by (auto simp add: handle_yaml_save_def send_req_def outstanding_saves_def saving_flags_def flag_def split: if_splits)
  next
    case CfgResetConfirm
    show ?thesis
      by (rule saves_keep [OF _ _ _ assms(1)]) (simp_all add: CfgResetConfirm execute_reset_def Let_def show_toast_def split: option.split)
  next
    case (CfgEdit key v)
    show ?thesis
      by (rule saves_keep [OF _ _ _ assms(1)]) (simp_all add: CfgEdit field_edited_def split: option.split)
  next
    case (CfgFileRead p)
    show ?thesis
      by (rule saves_keep [OF _ _ _ assms(1)]) (simp_all add: CfgFileRead import_read_def Let_def show_toast_def split: option.split)
  qed (rule saves_keep [OF _ _ _ assms(1)]; simp add: handle_reset_def)+
  then show ?thesis by (simp add: config_step_def outstanding_saves_def saving_flags_def)
qed

interpretation config: machine config_start "config_step tr" config_enabled
    "\<lambda>s. outstanding_saves s = saving_flags s"
  by unfold_locales (simp add: config_start_def outstanding_saves_def saving_flags_def flag_def, rule config_step_saves)

text \<open>Saving is serialized: after any use of the page there is at most one save of the form and one
  of the YAML text without an answer, and the buttons are disabled exactly while theirs is, so no
  answer that comes leaves a button disabled.\<close>

theorem config_saves_are_serialized:
  assumes "legal_run config_enabled (config_step tr) config_start es"
  shows "let s = foldl (config_step tr) config_start es
    in length (filter is_save (cfgReqs s)) = (if cfgSaving s then 1 else 0)
      \<and> length (filter is_yaml_save (cfgReqs s)) = (if cfgYamlSaving s then 1 else 0)"
  using config.run_inv [OF assms] by (simp add: Let_def outstanding_saves_def saving_flags_def flag_def)

definition sample_config_run :: "cfg_event list" where
  "sample_config_run =
     [CfgAnswered 0 (Inr (JObj [(''a'', JNum 1)])),
      CfgAnswered 0 (Inr (JObj [(''fields'', JObj [(''a'', JObj [])]), (''category_order'', JArr [JStr ''general''])])),
      CfgEdit ''a'' (JNum 2), CfgSave, CfgYamlToggle]"

theorem config_saves_are_serialized_witness:
  "let s = foldl (config_step (\<lambda>_. None)) config_start sample_config_run
   in filter is_save (cfgReqs s) = [ReqSave (JObj [(''a'', JNum 2)])] \<and> cfgSaving s \<and> length (filter is_save (cfgReqs s)) = 1"
proof -
  have "legal_run config_enabled (config_step (\<lambda>_. None)) config_start sample_config_run" by code_simp
  note this config_saves_are_serialized [OF this]
  moreover have "filter is_save (cfgReqs (foldl (config_step (\<lambda>_. None)) config_start sample_config_run)) = [ReqSave (JObj [(''a'', JNum 2)])]"
    "cfgSaving (foldl (config_step (\<lambda>_. None)) config_start sample_config_run)"
    by code_simp+
  ultimately show ?thesis by (simp add: Let_def)
qed

text \<open>Importing a file that holds \<open>null\<close> leaves the page without a configuration and without any control.\<close>

lemma import_null_locks_page:
  assumes "cfgReqs s = []" "cfgReads s = 1"
  shows "\<not> config_enabled (config_step tr s (CfgFileRead (Some JNull))) e"
  using assms
  by (cases e) (simp_all add: config_step_def import_read_def show_toast_def Let_def form_ready_def)

end
