(* ===== verification/Gateway.thy ===== *)
theory Gateway
  imports ApiClient
begin

text \<open>
  The client of the running application, \<open>web/src/api.ts\<close>: the generic request with its error
  handling, every call of its \<open>api\<close> object, and the WebSocket address. The network is a parameter.
\<close>

section \<open>Requests\<close>

datatype decision = Once | ForSession | Always | Deny

primrec decision_text :: "decision \<Rightarrow> string" where
  "decision_text Once = ''Once''"
| "decision_text ForSession = ''Session''"
| "decision_text Always = ''Always''"
| "decision_text Deny = ''Deny''"

datatype gw_call =
    GwStatus | GwHealth | GwConfig
  | GwSessions "string option"
  | GwSession string
  | GwSessionMessages string
  | GwDeleteSession string
  | GwPostChat string string
  | GwCronJobs
  | GwCronJob string
  | GwCreateCronJob string string js
  | GwUpdateCronJob string js
  | GwDeleteCronJob string
  | GwTriggerCronJob string
  | GwPauseCronJob string
  | GwResumeCronJob string
  | GwCronRuns | GwTools | GwSkills | GwPendingApprovals
  | GwResolveApproval string decision "string option"
  | GwApprovalAllowlist | GwLogs | GwMemories

text \<open>The body of a call carries no headers of its own; \<open>request\<close> adds the content type.\<close>

definition gw_json :: "string \<Rightarrow> string \<Rightarrow> js \<Rightarrow> api_request" where
  "gw_json m u v = (u, no_init\<lparr>initMethod := Some m, initBody := JsonBody (json_clean v)\<rparr>)"

primrec gw_init :: "gw_call \<Rightarrow> api_request" where
  "gw_init GwStatus = get_call ''/api/status''"
| "gw_init GwHealth = get_call ''/api/health''"
| "gw_init GwConfig = get_call ''/api/config''"
| "gw_init (GwSessions search) =
     get_call (if truthy_str search then ''/api/sessions?q='' @ encodeURIComponent (the search) else ''/api/sessions'')"
| "gw_init (GwSession i) = get_call (''/api/sessions/'' @ encodeURIComponent i)"
| "gw_init (GwSessionMessages i) = get_call (''/api/sessions/'' @ encodeURIComponent i @ ''/messages'')"
| "gw_init (GwDeleteSession i) = bare_call ''DELETE'' (''/api/sessions/'' @ encodeURIComponent i)"
| "gw_init (GwPostChat i content) =
     gw_json ''POST'' (''/api/sessions/'' @ encodeURIComponent i @ ''/chat'') (JObj [(''content'', JStr content)])"
| "gw_init GwCronJobs = get_call ''/api/cron/jobs''"
| "gw_init (GwCronJob i) = get_call (''/api/cron/jobs/'' @ encodeURIComponent i)"
| "gw_init (GwCreateCronJob i expression payload) =
     gw_json ''POST'' ''/api/cron/jobs''
       (JObj [(''id'', JStr i), (''expression'', JStr expression), (''payload'', payload)])"
| "gw_init (GwUpdateCronJob i changes) = gw_json ''PUT'' (''/api/cron/jobs/'' @ encodeURIComponent i) changes"
| "gw_init (GwDeleteCronJob i) = bare_call ''DELETE'' (''/api/cron/jobs/'' @ encodeURIComponent i)"
| "gw_init (GwTriggerCronJob i) = bare_call ''POST'' (''/api/cron/jobs/'' @ encodeURIComponent i @ ''/trigger'')"
| "gw_init (GwPauseCronJob i) = bare_call ''POST'' (''/api/cron/jobs/'' @ encodeURIComponent i @ ''/pause'')"
| "gw_init (GwResumeCronJob i) = bare_call ''POST'' (''/api/cron/jobs/'' @ encodeURIComponent i @ ''/resume'')"
| "gw_init GwCronRuns = get_call ''/api/cron/runs''"
| "gw_init GwTools = get_call ''/api/tools''"
| "gw_init GwSkills = get_call ''/api/skills''"
| "gw_init GwPendingApprovals = get_call ''/api/approvals/pending''"
| "gw_init (GwResolveApproval i d reason) =
     gw_json ''POST'' (''/api/approvals/'' @ encodeURIComponent i @ ''/resolve'')
       (JObj [(''decision'', JStr (decision_text d)), (''reason'', opt_str reason)])"
| "gw_init GwApprovalAllowlist = get_call ''/api/approvals/allowlist''"
| "gw_init GwLogs = get_call ''/api/logs''"
| "gw_init GwMemories = get_call ''/api/memory''"

text \<open>\<open>request\<close>: a body without a content type gets the JSON one.\<close>

definition has_header :: "string \<Rightarrow> (string \<times> string) list \<Rightarrow> bool" where
  "has_header name hs \<longleftrightarrow> list_ex (\<lambda>h. lower (fst h) = name) hs"

definition gw_request :: "api_request \<Rightarrow> http_request" where
  "gw_request r = (case r of (path, ini) \<Rightarrow>
     \<lparr>reqUrl = path, reqMethod = initMethod ini,
      reqHeaders = (if initBody ini \<noteq> NoBody \<and> \<not> has_header ''content-type'' (initHeaders ini)
                    then initHeaders ini @ [(''content-type'', ''application/json'')] else initHeaders ini),
      reqBody = initBody ini,
      reqCredentials = (case initCredentials ini of None \<Rightarrow> ''same-origin'' | Some c \<Rightarrow> c)\<rparr>)"

text \<open>The message of a failed request: the error text of a JSON body, else the status line.\<close>

definition gw_error :: "response \<Rightarrow> string" where
  "gw_error r =
     (let status = show_nat (respStatus r) @ CHR '' '' # respStatusText r
      in case respJson r of
           None \<Rightarrow> status
         | Some payload \<Rightarrow> (let e = js_get payload ''error'' in if truthy e then js_string e else status))"

definition gw_settle :: "fetch_result \<Rightarrow> string + js" where
  "gw_settle fr =
     (case fr of
        FetchFailed e \<Rightarrow> Inl e
      | Responded r \<Rightarrow>
          if \<not> resp_ok r then Inl (gw_error r)
          else if respStatus r = 204 then Inr JUndef
          else (case respJson r of None \<Rightarrow> Inl ''SyntaxError'' | Some v \<Rightarrow> Inr v))"

definition socket_url :: "string \<Rightarrow> string \<Rightarrow> string \<Rightarrow> string" where
  "socket_url protocol host path =
     (if protocol = ''https:'' then ''wss:'' else ''ws:'') @ ''//'' @ host @ path"

subsection \<open>Routes\<close>

primrec gw_route :: "gw_call \<Rightarrow> string list \<times> (string \<times> string) list" where
  "gw_route GwStatus = ([''api'', ''status''], [])"
| "gw_route GwHealth = ([''api'', ''health''], [])"
| "gw_route GwConfig = ([''api'', ''config''], [])"
| "gw_route (GwSessions search) =
     ([''api'', ''sessions''], if truthy_str search then [(''q'', the search)] else [])"
| "gw_route (GwSession i) = ([''api'', ''sessions'', i], [])"
| "gw_route (GwSessionMessages i) = ([''api'', ''sessions'', i, ''messages''], [])"
| "gw_route (GwDeleteSession i) = ([''api'', ''sessions'', i], [])"
| "gw_route (GwPostChat i content) = ([''api'', ''sessions'', i, ''chat''], [])"
| "gw_route GwCronJobs = ([''api'', ''cron'', ''jobs''], [])"
| "gw_route (GwCronJob i) = ([''api'', ''cron'', ''jobs'', i], [])"
| "gw_route (GwCreateCronJob i expression payload) = ([''api'', ''cron'', ''jobs''], [])"
| "gw_route (GwUpdateCronJob i changes) = ([''api'', ''cron'', ''jobs'', i], [])"
| "gw_route (GwDeleteCronJob i) = ([''api'', ''cron'', ''jobs'', i], [])"
| "gw_route (GwTriggerCronJob i) = ([''api'', ''cron'', ''jobs'', i, ''trigger''], [])"
| "gw_route (GwPauseCronJob i) = ([''api'', ''cron'', ''jobs'', i, ''pause''], [])"
| "gw_route (GwResumeCronJob i) = ([''api'', ''cron'', ''jobs'', i, ''resume''], [])"
| "gw_route GwCronRuns = ([''api'', ''cron'', ''runs''], [])"
| "gw_route GwTools = ([''api'', ''tools''], [])"
| "gw_route GwSkills = ([''api'', ''skills''], [])"
| "gw_route GwPendingApprovals = ([''api'', ''approvals'', ''pending''], [])"
| "gw_route (GwResolveApproval i d reason) = ([''api'', ''approvals'', i, ''resolve''], [])"
| "gw_route GwApprovalAllowlist = ([''api'', ''approvals'', ''allowlist''], [])"
| "gw_route GwLogs = ([''api'', ''logs''], [])"
| "gw_route GwMemories = ([''api'', ''memory''], [])"

lemma encode_gw_words [route_simps]:
  "encodeURIComponent ''api'' = ''api'' \<and>
     encodeURIComponent ''status'' = ''status'' \<and>
     encodeURIComponent ''health'' = ''health'' \<and>
     encodeURIComponent ''config'' = ''config'' \<and>
     encodeURIComponent ''sessions'' = ''sessions'' \<and>
     encodeURIComponent ''messages'' = ''messages'' \<and>
     encodeURIComponent ''chat'' = ''chat'' \<and>
     encodeURIComponent ''cron'' = ''cron'' \<and>
     encodeURIComponent ''jobs'' = ''jobs'' \<and>
     encodeURIComponent ''trigger'' = ''trigger'' \<and>
     encodeURIComponent ''pause'' = ''pause'' \<and>
     encodeURIComponent ''resume'' = ''resume'' \<and>
     encodeURIComponent ''runs'' = ''runs'' \<and>
     encodeURIComponent ''tools'' = ''tools'' \<and>
     encodeURIComponent ''skills'' = ''skills'' \<and>
     encodeURIComponent ''approvals'' = ''approvals'' \<and>
     encodeURIComponent ''pending'' = ''pending'' \<and>
     encodeURIComponent ''resolve'' = ''resolve'' \<and>
     encodeURIComponent ''allowlist'' = ''allowlist'' \<and>
     encodeURIComponent ''logs'' = ''logs'' \<and>
     encodeURIComponent ''memory'' = ''memory'' \<and>
     encodeURIComponent ''q'' = ''q''"
  by code_simp

lemma gw_target: "fst (gw_init c) = print_route (fst (gw_route c)) (snd (gw_route c))"
  by (cases c) (simp_all add: route_simps gw_json_def)

lemma gw_plain_keys: "plain_keys (snd (gw_route c))"
proof -
  have "ends_with (encodeURIComponent ''q'') ''profile'' = False" by code_simp
  then show ?thesis by (cases c) (simp_all add: plain_keys_def)
qed

lemma gw_segments: "fst (gw_route c) \<noteq> []"
  by (cases c) simp_all

lemma gw_target_reads:
  "path_segments (fst (gw_init c)) = map Some (fst (gw_route c))
     \<and> query_params (fst (gw_init c)) = map (\<lambda>(k, v). (Some k, Some v)) (snd (gw_route c))"
  using reads_print_route [OF gw_segments gw_plain_keys, of c] by (simp add: reads_def gw_target)

lemma gw_request_sel [simp]:
  "reqUrl (gw_request r) = fst r" "reqMethod (gw_request r) = initMethod (snd r)" "reqBody (gw_request r) = initBody (snd r)"
  by (simp_all add: gw_request_def split: prod.split)

text \<open>Every call of the running client reaches its route: for all session ids, job ids, search
  texts and contents, the address that is sent decodes to exactly the path segments and the query
  of the route, and a body is sent only by the calls that write, with the JSON content type.\<close>

theorem gateway_calls_reach_their_route:
  "let r = gw_request (gw_init c)
   in path_segments (reqUrl r) = map Some (fst (gw_route c))
      \<and> query_params (reqUrl r) = map (\<lambda>(k, v). (Some k, Some v)) (snd (gw_route c))
      \<and> (if reqBody r = NoBody then reqHeaders r = []
         else reqMethod r \<in> {Some ''POST'', Some ''PUT''} \<and> reqHeaders r = [(''content-type'', ''application/json'')])"
proof -
  have "initHeaders (snd (gw_init c)) = [] \<and> (initBody (snd (gw_init c)) \<noteq> NoBody \<longrightarrow>
      initMethod (snd (gw_init c)) \<in> {Some ''POST'', Some ''PUT''})"
    by (cases c) (simp_all add: get_call_def bare_call_def gw_json_def no_init_def)
  with gw_target_reads [of c] show ?thesis
    by (cases "gw_init c") (simp add: gw_request_def Let_def has_header_def)
qed

end
