(* ===== verification/Refresh.thy ===== *)
theory Refresh
  imports Prelude
begin

text \<open>
  The pattern of the list pages: a page shows what the server answered to its last load, every change
  the user makes is a request of its own, and when that is answered the page loads again. Loads are
  kept in the order they were sent, each with the server's answer once there is one. The interface
  lists the five kinds of step such a page makes; what it gives is that a page at rest shows what the
  server has.
\<close>

text \<open>\<open>loads\<close> are the loads under way, \<open>shown\<close> what is on screen, \<open>busy\<close> says that a change is under
  way whose end loads again, and \<open>now\<close> is what the server would answer to a load.\<close>

datatype turn_kind = Idle | Changing | Issuing | Serving nat | Delivering

primrec turn :: "turn_kind \<Rightarrow> ('s \<Rightarrow> 'r option list) \<Rightarrow> ('s \<Rightarrow> 'r) \<Rightarrow> ('s \<Rightarrow> bool) \<Rightarrow> ('s \<Rightarrow> 'r) \<Rightarrow> 's \<Rightarrow> 's \<Rightarrow> bool" where
  "turn Idle loads shown busy now s t \<longleftrightarrow>
     loads t = loads s \<and> shown t = shown s \<and> now t = now s \<and> (busy s \<longrightarrow> busy t)"
| "turn Changing loads shown busy now s t \<longleftrightarrow> loads t = loads s \<and> shown t = shown s \<and> busy t"
| "turn Issuing loads shown busy now s t \<longleftrightarrow> loads t = loads s @ [None] \<and> shown t = shown s \<and> now t = now s"
| "turn (Serving i) loads shown busy now s t \<longleftrightarrow>
     loads t = (loads s)[i := Some (now s)] \<and> shown t = shown s \<and> now t = now s \<and> (busy s \<longrightarrow> busy t)"
| "turn Delivering loads shown busy now s t \<longleftrightarrow>
     (\<exists>r. loads s = Some r # loads t \<and> shown t = r) \<and> now t = now s \<and> (busy s \<longrightarrow> busy t)"

definition settled_by :: "('s \<Rightarrow> 'r option list) \<Rightarrow> ('s \<Rightarrow> 'r) \<Rightarrow> ('s \<Rightarrow> bool) \<Rightarrow> ('s \<Rightarrow> 'r) \<Rightarrow> 's \<Rightarrow> bool" where
  "settled_by loads shown busy now s \<longleftrightarrow>
     busy s \<or> (if loads s = [] then shown s = now s else last (loads s) \<in> {None, Some (now s)})"

lemma turn_settled:
  "turn k loads shown busy now s t \<Longrightarrow> settled_by loads shown busy now s \<Longrightarrow> settled_by loads shown busy now t"
proof (cases k)
  case (Serving i)
  assume "turn k loads shown busy now s t" and inv: "settled_by loads shown busy now s"
  then have t: "loads t = (loads s)[i := Some (now s)]" "shown t = shown s" "now t = now s" "busy s \<longrightarrow> busy t"
    by (simp_all add: Serving)
  have "last ((loads s)[i := Some (now s)]) \<in> {last (loads s), Some (now s)}" if "loads s \<noteq> []"
    using that by (simp add: last_list_update)
  then show ?thesis using inv t by (auto simp: settled_by_def)
qed (auto simp: settled_by_def split: if_splits)

locale refresher =
  fixes start :: "'s"
    and step :: "'s \<Rightarrow> 'e \<Rightarrow> 's"
    and enabled :: "'s \<Rightarrow> 'e \<Rightarrow> bool"
    and loads :: "'s \<Rightarrow> 'r option list"
    and shown :: "'s \<Rightarrow> 'r"
    and busy :: "'s \<Rightarrow> bool"
    and now :: "'s \<Rightarrow> 'r"
    and kind :: "'s \<Rightarrow> 'e \<Rightarrow> turn_kind"
  assumes start_loads: "last (loads start) = None" "loads start \<noteq> []"
    and step_turn: "enabled s e \<Longrightarrow> turn (kind s e) loads shown busy now s (step s e)"

sublocale refresher \<subseteq> pages: machine start step enabled "settled_by loads shown busy now"
proof unfold_locales
  show "settled_by loads shown busy now start" by (simp add: settled_by_def start_loads)
  show "settled_by loads shown busy now s \<Longrightarrow> enabled s e \<Longrightarrow> settled_by loads shown busy now (step s e)" for s e
    by (rule turn_settled [OF step_turn])
qed

context refresher
begin

lemma rest_shows_server:
  "legal_run enabled step start es \<Longrightarrow> s = foldl step start es \<Longrightarrow> loads s = [] \<Longrightarrow> \<not> busy s \<Longrightarrow> shown s = now s"
  using pages.run_inv [of es] by (simp add: settled_by_def)

end

end
