(* ===== verification/CronManager.thy ===== *)
theory CronManager
  imports Gateway Refresh
begin

text \<open>
  The scheduled-jobs page of the running application, \<open>CronManagerPage\<close> in \<open>web/src/App.tsx\<close>,
  together with the wire to the gateway: every request under way carries its answer once the server
  has handled it, and the server is a parameter, a function from a request and its state to its new
  state and its answer. Handling and delivering are events of their own, so requests overlap in
  every way.
\<close>

section \<open>The page\<close>

type_synonym 'srv server = "http_request \<Rightarrow> 'srv \<Rightarrow> 'srv \<times> fetch_result"

type_synonym answer = "string + js"

definition ask_init :: "'srv server \<Rightarrow> api_request \<Rightarrow> 'srv \<Rightarrow> 'srv \<times> answer" where
  "ask_init serve r srv = (case serve (gw_request r) srv of (srv', fr) \<Rightarrow> (srv', gw_settle fr))"

definition ask :: "'srv server \<Rightarrow> gw_call \<Rightarrow> 'srv \<Rightarrow> 'srv \<times> answer" where
  "ask serve c srv = ask_init serve (gw_init c) srv"

record cron_page =
  cpJobs :: js
  cpRuns :: js
  cpLoading :: bool
  cpDialog :: bool
  cpNewJobId :: string
  cpNewSchedule :: string
  cpNewPrompt :: string
  cpLoads :: "(answer option \<times> answer option) list"
  cpCalls :: "(gw_call \<times> answer option) list"
  cpTimers :: nat
  cpAlerts :: "string list"

definition load_data :: "cron_page \<Rightarrow> cron_page" where
  "load_data p = p\<lparr>cpLoading := True, cpLoads := cpLoads p @ [(None, None)]\<rparr>"

definition cron_page_start :: cron_page where
  "cron_page_start = load_data
     \<lparr>cpJobs = JArr [], cpRuns = JArr [], cpLoading = False, cpDialog = False, cpNewJobId = [], cpNewSchedule = [],
      cpNewPrompt = [], cpLoads = [], cpCalls = [], cpTimers = 0, cpAlerts = []\<rparr>"

text \<open>\<open>r.items || []\<close>\<close>

definition items_or_empty :: "js \<Rightarrow> js" where
  "items_or_empty v = (let i = js_get v ''items'' in if truthy i then i else JArr [])"

definition send_call :: "gw_call \<Rightarrow> cron_page \<Rightarrow> cron_page" where
  "send_call c p = p\<lparr>cpCalls := cpCalls p @ [(c, None)]\<rparr>"

text \<open>\<open>Promise.all\<close> of the two lists: the first failure rejects, which only ends the loading.\<close>

definition load_settled :: "nat \<Rightarrow> cron_page \<Rightarrow> cron_page" where
  "load_settled k p =
     (let p1 = p\<lparr>cpLoads := take k (cpLoads p) @ drop (Suc k) (cpLoads p), cpLoading := False\<rparr>
      in case cpLoads p ! k of
           (Some (Inr j), Some (Inr r)) \<Rightarrow> p1\<lparr>cpJobs := items_or_empty j, cpRuns := items_or_empty r\<rparr>
         | _ \<Rightarrow> p1)"

definition load_ready :: "answer option \<times> answer option \<Rightarrow> bool" where
  "load_ready l \<longleftrightarrow> (case l of (Some (Inr j), Some (Inr r)) \<Rightarrow> True | (Some (Inl e), _) \<Rightarrow> True | (_, Some (Inl e)) \<Rightarrow> True | _ \<Rightarrow> False)"

text \<open>The end of a change: a trigger loads a second later, the others at once.\<close>

definition call_settled :: "nat \<Rightarrow> cron_page \<Rightarrow> cron_page" where
  "call_settled k p =
     (let p1 = p\<lparr>cpCalls := take k (cpCalls p) @ drop (Suc k) (cpCalls p)\<rparr>;
          alarm = (\<lambda>msg. p1\<lparr>cpAlerts := cpAlerts p @ [msg]\<rparr>)
      in case cpCalls p ! k of
           (c, None) \<Rightarrow> p
         | (c, Some (Inr v)) \<Rightarrow>
             (case c of
                GwTriggerCronJob i \<Rightarrow> p1\<lparr>cpTimers := Suc (cpTimers p)\<rparr>
              | GwCreateCronJob i e q \<Rightarrow>
                  load_data (p1\<lparr>cpDialog := False, cpNewJobId := [], cpNewSchedule := [], cpNewPrompt := []\<rparr>)
              | _ \<Rightarrow> load_data p1)
         | (c, Some (Inl e)) \<Rightarrow>
             alarm ((case c of
                GwTriggerCronJob i \<Rightarrow> ''Trigger failed: ''
              | GwDeleteCronJob i \<Rightarrow> ''Delete failed: ''
              | GwCreateCronJob i ex q \<Rightarrow> ''Create failed: ''
              | _ \<Rightarrow> ''Failed to update status: '') @ e))"

definition handle_toggle :: "js \<Rightarrow> cron_page \<Rightarrow> cron_page" where
  "handle_toggle job p =
     (let i = js_string (js_get job ''id'')
      in send_call (if truthy (js_get job ''enabled'') then GwPauseCronJob i else GwResumeCronJob i) p)"

definition handle_create :: "cron_page \<Rightarrow> cron_page" where
  "handle_create p =
     (if cpNewJobId p = [] \<or> cpNewSchedule p = [] then p
      else send_call (GwCreateCronJob (cpNewJobId p) (cpNewSchedule p)
             (JObj [(''prompt'', JStr (cpNewPrompt p)), (''name'', JStr (cpNewJobId p))])) p)"

datatype cron_page_event =
    ServeJobs nat | ServeRuns nat | ServeCall nat
  | LoadSettled nat | CallSettled nat | TimerFires
  | TriggerClick string | ToggleClick js | DeleteClick string bool | SubmitCreate
  | ShowDialog bool | EditJobId string | EditSchedule string | EditPrompt string

text \<open>The page with the server's state. The answer to the confirmation of a deletion is part of the click.\<close>

fun cron_world :: "'srv server \<Rightarrow> 'srv \<times> cron_page \<Rightarrow> cron_page_event \<Rightarrow> 'srv \<times> cron_page" where
  "cron_world serve (srv, p) (ServeJobs k) =
     (case ask serve GwCronJobs srv of
        (srv', a) \<Rightarrow> (srv', p\<lparr>cpLoads := (cpLoads p)[k := (Some a, snd (cpLoads p ! k))]\<rparr>))"
| "cron_world serve (srv, p) (ServeRuns k) =
     (case ask serve GwCronRuns srv of
        (srv', a) \<Rightarrow> (srv', p\<lparr>cpLoads := (cpLoads p)[k := (fst (cpLoads p ! k), Some a)]\<rparr>))"
| "cron_world serve (srv, p) (ServeCall k) =
     (case ask serve (fst (cpCalls p ! k)) srv of
        (srv', a) \<Rightarrow> (srv', p\<lparr>cpCalls := (cpCalls p)[k := (fst (cpCalls p ! k), Some a)]\<rparr>))"
| "cron_world serve (srv, p) (LoadSettled k) = (srv, load_settled k p)"
| "cron_world serve (srv, p) (CallSettled k) = (srv, call_settled k p)"
| "cron_world serve (srv, p) TimerFires = (srv, load_data (p\<lparr>cpTimers := cpTimers p - 1\<rparr>))"
| "cron_world serve (srv, p) (TriggerClick i) = (srv, send_call (GwTriggerCronJob i) p)"
| "cron_world serve (srv, p) (ToggleClick job) = (srv, handle_toggle job p)"
| "cron_world serve (srv, p) (DeleteClick i confirmed) = (srv, if \<not> confirmed then p else send_call (GwDeleteCronJob i) p)"
| "cron_world serve (srv, p) SubmitCreate = (srv, handle_create p)"
| "cron_world serve (srv, p) (ShowDialog b) = (srv, p\<lparr>cpDialog := b\<rparr>)"
| "cron_world serve (srv, p) (EditJobId t) = (srv, p\<lparr>cpNewJobId := t\<rparr>)"
| "cron_world serve (srv, p) (EditSchedule t) = (srv, p\<lparr>cpNewSchedule := t\<rparr>)"
| "cron_world serve (srv, p) (EditPrompt t) = (srv, p\<lparr>cpNewPrompt := t\<rparr>)"

fun cron_world_enabled :: "'srv \<times> cron_page \<Rightarrow> cron_page_event \<Rightarrow> bool" where
  "cron_world_enabled (srv, p) (ServeJobs k) \<longleftrightarrow> k < length (cpLoads p) \<and> fst (cpLoads p ! k) = None"
| "cron_world_enabled (srv, p) (ServeRuns k) \<longleftrightarrow> k < length (cpLoads p) \<and> snd (cpLoads p ! k) = None"
| "cron_world_enabled (srv, p) (ServeCall k) \<longleftrightarrow> k < length (cpCalls p) \<and> snd (cpCalls p ! k) = None"
| "cron_world_enabled (srv, p) (LoadSettled k) \<longleftrightarrow> k < length (cpLoads p) \<and> load_ready (cpLoads p ! k)"
| "cron_world_enabled (srv, p) (CallSettled k) \<longleftrightarrow> k < length (cpCalls p) \<and> snd (cpCalls p ! k) \<noteq> None"
| "cron_world_enabled (srv, p) TimerFires \<longleftrightarrow> 0 < cpTimers p"
| "cron_world_enabled (srv, p) SubmitCreate \<longleftrightarrow> cpDialog p"
| "cron_world_enabled (srv, p) (EditJobId t) \<longleftrightarrow> cpDialog p"
| "cron_world_enabled (srv, p) (EditSchedule t) \<longleftrightarrow> cpDialog p"
| "cron_world_enabled (srv, p) (EditPrompt t) \<longleftrightarrow> cpDialog p"
| "cron_world_enabled (srv, p) e \<longleftrightarrow> True"

section \<open>The page at rest shows what the gateway has\<close>

text \<open>A smooth run: reads succeed and leave the server as it is, changes succeed, and loads are answered
  in the order they were sent.\<close>

definition smooth_read :: "'srv server \<Rightarrow> gw_call \<Rightarrow> 'srv \<Rightarrow> bool" where
  "smooth_read serve c srv \<longleftrightarrow> (case ask serve c srv of (srv', Inr v) \<Rightarrow> srv' = srv | (srv', Inl e) \<Rightarrow> False)"

fun both_ok :: "answer option \<times> answer option \<Rightarrow> bool" where
  "both_ok (Some (Inr j), Some (Inr r)) = True"
| "both_ok _ = False"

lemma both_okD: "both_ok l \<Longrightarrow> \<exists>j r. l = (Some (Inr j), Some (Inr r))"
  by (cases l rule: both_ok.cases) simp_all

fun smooth :: "'srv server \<Rightarrow> 'srv \<times> cron_page \<Rightarrow> cron_page_event \<Rightarrow> bool" where
  "smooth serve (srv, p) (ServeJobs k) \<longleftrightarrow> cron_world_enabled (srv, p) (ServeJobs k) \<and> smooth_read serve GwCronJobs srv"
| "smooth serve (srv, p) (ServeRuns k) \<longleftrightarrow> cron_world_enabled (srv, p) (ServeRuns k) \<and> smooth_read serve GwCronRuns srv"
| "smooth serve (srv, p) (ServeCall k) \<longleftrightarrow> cron_world_enabled (srv, p) (ServeCall k)"
| "smooth serve (srv, p) (LoadSettled k) \<longleftrightarrow>
     k = 0 \<and> cpLoads p \<noteq> [] \<and> both_ok (hd (cpLoads p))"
| "smooth serve (srv, p) (CallSettled k) \<longleftrightarrow>
     k < length (cpCalls p) \<and> (case cpCalls p ! k of (c, Some (Inr v)) \<Rightarrow> True | _ \<Rightarrow> False)"
| "smooth serve w e \<longleftrightarrow> cron_world_enabled w e"

definition shown_by :: "answer \<Rightarrow> js" where
  "shown_by a = (case a of Inr v \<Rightarrow> items_or_empty v | Inl e \<Rightarrow> JUndef)"

definition server_shows :: "'srv server \<Rightarrow> gw_call \<Rightarrow> 'srv \<Rightarrow> js" where
  "server_shows serve c srv = shown_by (snd (ask serve c srv))"

definition cron_busy :: "'srv \<times> cron_page \<Rightarrow> bool" where
  "cron_busy w \<longleftrightarrow> cpCalls (snd w) \<noteq> [] \<or> 0 < cpTimers (snd w)"

fun cron_kind :: "bool \<Rightarrow> 'srv \<times> cron_page \<Rightarrow> cron_page_event \<Rightarrow> turn_kind" where
  "cron_kind jobs w (ServeJobs k) = (if jobs then Serving k else Idle)"
| "cron_kind jobs w (ServeRuns k) = (if jobs then Idle else Serving k)"
| "cron_kind jobs w (ServeCall k) = Changing"
| "cron_kind jobs w (LoadSettled k) = Delivering"
| "cron_kind jobs w TimerFires = Issuing"
| "cron_kind jobs w (CallSettled k) =
     (case fst (cpCalls (snd w) ! k) of GwTriggerCronJob i \<Rightarrow> Idle | _ \<Rightarrow> Issuing)"
| "cron_kind jobs w e = Idle"

lemma load_data_sel [simp]:
  "cpLoads (load_data p) = cpLoads p @ [(None, None)]" "cpJobs (load_data p) = cpJobs p" "cpRuns (load_data p) = cpRuns p"
  "cpCalls (load_data p) = cpCalls p" "cpTimers (load_data p) = cpTimers p"
  by (simp_all add: load_data_def)

lemma send_call_sel [simp]:
  "cpLoads (send_call c p) = cpLoads p" "cpJobs (send_call c p) = cpJobs p" "cpRuns (send_call c p) = cpRuns p"
  "cpCalls (send_call c p) = cpCalls p @ [(c, None)]" "cpTimers (send_call c p) = cpTimers p"
  by (simp_all add: send_call_def)

lemma smooth_readD: "smooth_read serve c srv \<Longrightarrow> \<exists>v. ask serve c srv = (srv, Inr v)"
  by (auto simp: smooth_read_def split: prod.splits sum.splits)

definition part :: "bool \<Rightarrow> 'a \<times> 'a \<Rightarrow> 'a" where
  "part jobs l = (if jobs then fst l else snd l)"

text \<open>The two lists of the page, by the flag that selects one.\<close>

definition cron_loads :: "bool \<Rightarrow> 'srv \<times> cron_page \<Rightarrow> js option list" where
  "cron_loads jobs w = map (\<lambda>l. map_option shown_by (part jobs l)) (cpLoads (snd w))"

definition cron_shown :: "bool \<Rightarrow> 'srv \<times> cron_page \<Rightarrow> js" where
  "cron_shown jobs w = part jobs (cpJobs (snd w), cpRuns (snd w))"

definition cron_now :: "'srv server \<Rightarrow> bool \<Rightarrow> 'srv \<times> cron_page \<Rightarrow> js" where
  "cron_now serve jobs w = server_shows serve (part jobs (GwCronJobs, GwCronRuns)) (fst w)"

lemmas cron_view = cron_loads_def cron_shown_def cron_now_def part_def

lemma update_same: "(map (\<lambda>l. map_option shown_by (fst l)) ls)[k := map_option shown_by (fst (ls ! k))] = map (\<lambda>l. map_option shown_by (fst l)) ls"
  "(map (\<lambda>l. map_option shown_by (snd l)) ls)[k := map_option shown_by (snd (ls ! k))] = map (\<lambda>l. map_option shown_by (snd l)) ls"
  by (metis list_update_id map_update)+

lemma cron_serve_turn:
  "smooth serve (srv, p) e \<Longrightarrow> e \<in> {ServeJobs k, ServeRuns k, ServeCall k} \<Longrightarrow>
     turn (cron_kind jobs (srv, p) e) (cron_loads jobs) (cron_shown jobs) cron_busy (cron_now serve jobs) (srv, p) (cron_world serve (srv, p) e)"
  by (cases jobs) (auto simp: cron_view cron_busy_def server_shows_def map_update update_same dest!: smooth_readD split: prod.splits)

lemma cron_load_turn:
  assumes "smooth serve (srv, p) (LoadSettled k)"
  shows "turn Delivering (cron_loads jobs) (cron_shown jobs) cron_busy (cron_now serve jobs) (srv, p) (srv, load_settled k p)"
proof -
  obtain j r ls where "k = 0" "cpLoads p = (Some (Inr j), Some (Inr r)) # ls"
    using assms by (cases "cpLoads p") (auto dest!: both_okD)
  then show ?thesis by (simp add: cron_view cron_busy_def load_settled_def shown_by_def Let_def)
qed

lemma call_settled_ok:
  assumes "k < length (cpCalls p)" "cpCalls p ! k = (c, Some (Inr v))"
  shows "if cron_kind jobs (srv, p) (CallSettled k) = Idle
    then cpLoads (call_settled k p) = cpLoads p \<and> 0 < cpTimers (call_settled k p)
    else cron_kind jobs (srv, p) (CallSettled k) = Issuing \<and> cpLoads (call_settled k p) = cpLoads p @ [(None, None)]"
  using assms by (cases c) (simp_all add: call_settled_def Let_def)

lemma call_settled_lists:
  assumes "k < length (cpCalls p)" "cpCalls p ! k = (c, Some (Inr v))"
  shows "cpJobs (call_settled k p) = cpJobs p" "cpRuns (call_settled k p) = cpRuns p"
  using assms by (cases c; simp add: call_settled_def Let_def)+

lemma cron_call_turn:
  assumes "smooth serve (srv, p) (CallSettled k)"
  shows "turn (cron_kind jobs (srv, p) (CallSettled k)) (cron_loads jobs) (cron_shown jobs) cron_busy (cron_now serve jobs)
     (srv, p) (srv, call_settled k p)"
proof -
  obtain c v where "k < length (cpCalls p)" "cpCalls p ! k = (c, Some (Inr v))"
    using assms by (auto split: prod.splits option.splits sum.splits)
  note call_settled_ok [OF this, of jobs srv] call_settled_lists [OF this]
  then show ?thesis by (auto simp: cron_view cron_busy_def split: if_splits)
qed

lemma cron_world_turn:
  "smooth serve w e \<Longrightarrow>
     turn (cron_kind jobs w e) (cron_loads jobs) (cron_shown jobs) cron_busy (cron_now serve jobs) w (cron_world serve w e)"
proof (cases w)
  case (Pair srv p)
  assume en: "smooth serve w e"
  show ?thesis
  proof (cases e)
    case (ServeJobs k)
    then show ?thesis using cron_serve_turn [of serve srv p e k] en by (simp add: Pair)
  next
    case (ServeRuns k)
    then show ?thesis using cron_serve_turn [of serve srv p e k] en by (simp add: Pair)
  next
    case (ServeCall k)
    then show ?thesis using cron_serve_turn [of serve srv p e k] en by (simp add: Pair)
  next
    case (LoadSettled k)
    then show ?thesis using cron_load_turn [of serve srv p k] en by (simp add: Pair)
  next
    case (CallSettled k)
    then show ?thesis using cron_call_turn [of serve srv p k] en by (simp only: Pair cron_world.simps)
  qed (auto simp: Pair cron_view cron_busy_def handle_toggle_def handle_create_def Let_def)
qed

interpretation cron: refresher "(srv0, cron_page_start)" "cron_world serve" "smooth serve" "cron_loads jobs" "cron_shown jobs"
    cron_busy "cron_now serve jobs" "cron_kind jobs"
  by unfold_locales (simp_all add: cron_page_start_def cron_world_turn cron_loads_def part_def)


text \<open>A server with one job, which can be paused; its answers are those of the gateway.\<close>

definition ok_response :: "js \<Rightarrow> fetch_result" where
  "ok_response v = Responded \<lparr>respStatus = 200, respStatusText = ''OK'', respText = None, respJson = Some v\<rparr>"

definition one_job :: "bool server" where
  "one_job r srv =
     (if reqUrl r = ''/api/cron/jobs/daily/pause'' then (False, ok_response JNull)
      else if reqUrl r = ''/api/cron/jobs'' then
        (srv, ok_response (JObj [(''items'', JArr [JObj [(''id'', JStr ''daily''), (''enabled'', JBool srv)]])]))
      else (srv, ok_response (JObj [])))"



text \<open>Without the order of the loads it does not: an answer that was overtaken brings the old list back.\<close>

definition crossed_run :: "cron_page_event list" where
  "crossed_run =
     [ServeJobs 0, ToggleClick (JObj [(''id'', JStr ''daily''), (''enabled'', JBool True)]), ServeCall 0, CallSettled 0,
      ServeJobs 1, ServeRuns 1, LoadSettled 1, ServeRuns 0, LoadSettled 0]"

lemma crossed_answers_show_old_jobs:
  "legal_run cron_world_enabled (cron_world one_job) (True, cron_page_start) crossed_run
   \<and> (case foldl (cron_world one_job) (True, cron_page_start) crossed_run of
        (srv, p) \<Rightarrow> \<not> srv \<and> cpLoads p = [] \<and> cpCalls p = [] \<and>
          cpJobs p = JArr [JObj [(''id'', JStr ''daily''), (''enabled'', JBool True)]])"
  by (intro conjI; code_simp)

end
