(* ===== verification/BotsPage.thy ===== *)
theory BotsPage
  imports CronManager Nested
begin

text \<open>
  The agent profiles page of the running application, \<open>web/src/pages/BotsPage.tsx\<close>: listing,
  creating, editing and deleting profiles, with the wire to the gateway as on the scheduled-jobs page.
\<close>

section \<open>Requests\<close>

datatype bot_call = ListBots | DeleteBot string | CreateBot js | UpdateBot string js

primrec bot_init :: "bot_call \<Rightarrow> api_request" where
  "bot_init ListBots = get_call ''/api/bots''"
| "bot_init (DeleteBot i) = bare_call ''DELETE'' (''/api/bots/'' @ encodeURIComponent i)"
| "bot_init (CreateBot body) = gw_json ''POST'' ''/api/bots'' body"
| "bot_init (UpdateBot i body) = gw_json ''PUT'' (''/api/bots/'' @ encodeURIComponent i) body"

definition ask_bot :: "'srv server \<Rightarrow> bot_call \<Rightarrow> 'srv \<Rightarrow> 'srv \<times> answer" where
  "ask_bot serve c srv = ask_init serve (bot_init c) srv"

section \<open>State and handlers\<close>

record bot_form =
  bfName :: string
  bfModel :: string
  bfPrompt :: string
  bfToolsets :: string

record bots_page =
  bpBots :: js
  bpEditing :: "js option"
  bpDialog :: bool
  bpCreateDialog :: bool
  bpLoading :: bool
  bpSaving :: bool
  bpForm :: bot_form
  bpNewId :: string
  bpNew :: bot_form
  bpLoads :: "answer option list"
  bpCalls :: "(bot_call \<times> answer option) list"
  bpAlerts :: "string list"

definition load_bots :: "bots_page \<Rightarrow> bots_page" where
  "load_bots p = p\<lparr>bpLoading := True, bpLoads := bpLoads p @ [None]\<rparr>"

definition empty_bot_form :: bot_form where
  "empty_bot_form = \<lparr>bfName = [], bfModel = [], bfPrompt = [], bfToolsets = []\<rparr>"

definition bots_start :: bots_page where
  "bots_start = load_bots
     \<lparr>bpBots = JArr [], bpEditing = None, bpDialog = False, bpCreateDialog = False, bpLoading = False, bpSaving = False,
      bpForm = empty_bot_form, bpNewId = [],
      bpNew = empty_bot_form\<lparr>bfToolsets := ''terminal, file, mcp, cron, skills''\<rparr>,
      bpLoads = [], bpCalls = [], bpAlerts = []\<rparr>"

text \<open>\<open>v || ''\<close> of a field that holds a string or null.\<close>

definition text_or_empty :: "js \<Rightarrow> string" where
  "text_or_empty v = (if truthy v then js_string v else [])"

definition form_of_bot :: "js \<Rightarrow> bot_form" where
  "form_of_bot bt =
     \<lparr>bfName = text_or_empty (js_get bt ''name''), bfModel = text_or_empty (js_get bt ''model''),
      bfPrompt = text_or_empty (js_get bt ''system_prompt''),
      bfToolsets = (case js_get bt ''enabled_toolsets'' of
          JArr ts \<Rightarrow> field_text ListField (JArr ts)
        | _ \<Rightarrow> [])\<rparr>"

definition handle_edit :: "js \<Rightarrow> bots_page \<Rightarrow> bots_page" where
  "handle_edit bt p = p\<lparr>bpEditing := Some bt, bpForm := form_of_bot bt, bpDialog := True\<rparr>"

text \<open>\<open>s.trim() || null\<close>, and the list of toolsets or null when it is empty.\<close>

definition text_or_null :: "string \<Rightarrow> js" where
  "text_or_null s = (if trim s = [] then JNull else JStr (trim s))"

definition toolsets_or_null :: "string \<Rightarrow> js" where
  "toolsets_or_null s = (if list_items s = [] then JNull else JArr (map JStr (list_items s)))"

definition bot_fields :: "string \<Rightarrow> bot_form \<Rightarrow> (string \<times> js) list" where
  "bot_fields name f =
     [(''name'', JStr name), (''model'', text_or_null (bfModel f)), (''system_prompt'', text_or_null (bfPrompt f)),
      (''enabled_toolsets'', toolsets_or_null (bfToolsets f))]"

definition send_bot :: "bot_call \<Rightarrow> bots_page \<Rightarrow> bots_page" where
  "send_bot c p = p\<lparr>bpCalls := bpCalls p @ [(c, None)]\<rparr>"

definition handle_delete_bot :: "js \<Rightarrow> bool \<Rightarrow> bots_page \<Rightarrow> bots_page" where
  "handle_delete_bot bt confirmed p =
     (if \<not> confirmed then p else send_bot (DeleteBot (js_string (js_get bt ''bot_id''))) p)"

definition handle_create_bot :: "bots_page \<Rightarrow> bots_page" where
  "handle_create_bot p =
     (if trim (bpNewId p) = [] \<or> trim (bfName (bpNew p)) = [] then p
      else send_bot (CreateBot (JObj ((''bot_id'', JStr (trim (bpNewId p))) # bot_fields (trim (bfName (bpNew p))) (bpNew p))))
             (p\<lparr>bpSaving := True\<rparr>))"

definition handle_save_bot :: "bots_page \<Rightarrow> bots_page" where
  "handle_save_bot p =
     (case bpEditing p of
        None \<Rightarrow> p
      | Some bt \<Rightarrow>
          send_bot (UpdateBot (js_string (js_get bt ''bot_id'')) (JObj (bot_fields (bfName (bpForm p)) (bpForm p))))
            (p\<lparr>bpSaving := True\<rparr>))"

definition bots_loaded :: "nat \<Rightarrow> bots_page \<Rightarrow> bots_page" where
  "bots_loaded k p =
     (let p1 = p\<lparr>bpLoads := take k (bpLoads p) @ drop (Suc k) (bpLoads p), bpLoading := False\<rparr>
      in case bpLoads p ! k of
           None \<Rightarrow> p
         | Some (Inr v) \<Rightarrow> p1\<lparr>bpBots := items_or_empty v\<rparr>
         | Some (Inl e) \<Rightarrow> p1\<lparr>bpAlerts := bpAlerts p @ [''Failed to load bots: '' @ e]\<rparr>)"

definition bot_call_settled :: "nat \<Rightarrow> bots_page \<Rightarrow> bots_page" where
  "bot_call_settled k p =
     (let p1 = p\<lparr>bpCalls := take k (bpCalls p) @ drop (Suc k) (bpCalls p)\<rparr>;
          alarm = (\<lambda>msg q. q\<lparr>bpAlerts := bpAlerts p @ [msg]\<rparr>)
      in case bpCalls p ! k of
           (c, None) \<Rightarrow> p
         | (c, Some r) \<Rightarrow>
             (case c of
                CreateBot b \<Rightarrow>
                  (case r of
                     Inr v \<Rightarrow> load_bots (p1\<lparr>bpSaving := False, bpCreateDialog := False, bpNewId := [],
                        bpNew := (bpNew p)\<lparr>bfName := [], bfModel := [], bfPrompt := []\<rparr>\<rparr>)
                   | Inl e \<Rightarrow> alarm (''Create failed: '' @ e) (p1\<lparr>bpSaving := False\<rparr>))
              | UpdateBot i b \<Rightarrow>
                  (case r of
                     Inr v \<Rightarrow> load_bots (p1\<lparr>bpSaving := False, bpDialog := False\<rparr>)
                   | Inl e \<Rightarrow> alarm (''Save failed: '' @ e) (p1\<lparr>bpSaving := False\<rparr>))
              | _ \<Rightarrow>
                  (case r of Inr v \<Rightarrow> load_bots p1 | Inl e \<Rightarrow> alarm (''Delete failed: '' @ e) p1)))"

datatype bot_event =
    BotsServed nat | BotCallServed nat | BotsLoaded nat | BotCallSettled nat
  | EditBot js | DeleteBotClick js bool | CreateBotSubmit | SaveBotSubmit
  | ShowBotDialog bool | ShowCreateDialog bool | TypeBotForm bot_form | TypeNewBot string bot_form

fun bots_world :: "'srv server \<Rightarrow> 'srv \<times> bots_page \<Rightarrow> bot_event \<Rightarrow> 'srv \<times> bots_page" where
  "bots_world serve (srv, p) (BotsServed k) =
     (case ask_bot serve ListBots srv of (srv', a) \<Rightarrow> (srv', p\<lparr>bpLoads := (bpLoads p)[k := Some a]\<rparr>))"
| "bots_world serve (srv, p) (BotCallServed k) =
     (case ask_bot serve (fst (bpCalls p ! k)) srv of
        (srv', a) \<Rightarrow> (srv', p\<lparr>bpCalls := (bpCalls p)[k := (fst (bpCalls p ! k), Some a)]\<rparr>))"
| "bots_world serve (srv, p) (BotsLoaded k) = (srv, bots_loaded k p)"
| "bots_world serve (srv, p) (BotCallSettled k) = (srv, bot_call_settled k p)"
| "bots_world serve (srv, p) (EditBot bt) = (srv, handle_edit bt p)"
| "bots_world serve (srv, p) (DeleteBotClick bt ok) = (srv, handle_delete_bot bt ok p)"
| "bots_world serve (srv, p) CreateBotSubmit = (srv, handle_create_bot p)"
| "bots_world serve (srv, p) SaveBotSubmit = (srv, handle_save_bot p)"
| "bots_world serve (srv, p) (ShowBotDialog b) = (srv, p\<lparr>bpDialog := b\<rparr>)"
| "bots_world serve (srv, p) (ShowCreateDialog b) = (srv, p\<lparr>bpCreateDialog := b\<rparr>)"
| "bots_world serve (srv, p) (TypeBotForm f) = (srv, p\<lparr>bpForm := f\<rparr>)"
| "bots_world serve (srv, p) (TypeNewBot i f) = (srv, p\<lparr>bpNewId := i, bpNew := f\<rparr>)"

text \<open>The submit buttons are disabled while a profile is being saved, and the name must not be empty.\<close>

fun bots_enabled :: "'srv \<times> bots_page \<Rightarrow> bot_event \<Rightarrow> bool" where
  "bots_enabled (srv, p) (BotsServed k) \<longleftrightarrow> k < length (bpLoads p) \<and> bpLoads p ! k = None"
| "bots_enabled (srv, p) (BotCallServed k) \<longleftrightarrow> k < length (bpCalls p) \<and> snd (bpCalls p ! k) = None"
| "bots_enabled (srv, p) (BotsLoaded k) \<longleftrightarrow> k < length (bpLoads p) \<and> bpLoads p ! k \<noteq> None"
| "bots_enabled (srv, p) (BotCallSettled k) \<longleftrightarrow> k < length (bpCalls p) \<and> snd (bpCalls p ! k) \<noteq> None"
| "bots_enabled (srv, p) CreateBotSubmit \<longleftrightarrow> bpCreateDialog p \<and> \<not> bpSaving p \<and> bpNewId p \<noteq> [] \<and> bfName (bpNew p) \<noteq> []"
| "bots_enabled (srv, p) SaveBotSubmit \<longleftrightarrow> bpDialog p \<and> \<not> bpSaving p \<and> bfName (bpForm p) \<noteq> []"
| "bots_enabled (srv, p) (TypeBotForm f) \<longleftrightarrow> bpDialog p"
| "bots_enabled (srv, p) (TypeNewBot i f) \<longleftrightarrow> bpCreateDialog p"
| "bots_enabled (srv, p) e \<longleftrightarrow> True"

section \<open>Editing\<close>

text \<open>A stored profile that the form can show without loss.\<close>

definition null_or_text :: "js \<Rightarrow> bool" where
  "null_or_text v \<longleftrightarrow> (case v of JNull \<Rightarrow> True | JStr s \<Rightarrow> s \<noteq> [] \<and> trimmed s | _ \<Rightarrow> False)"

definition null_or_list :: "js \<Rightarrow> bool" where
  "null_or_list v \<longleftrightarrow>
     (case v of
        JNull \<Rightarrow> True
      | JArr ts \<Rightarrow> ts \<noteq> [] \<and> list_all (\<lambda>t. case t of JStr s \<Rightarrow> list_item_ok s | _ \<Rightarrow> False) ts
      | _ \<Rightarrow> False)"

definition plain_bot :: "js \<Rightarrow> bool" where
  "plain_bot bt \<longleftrightarrow> (case js_get bt ''name'' of JStr s \<Rightarrow> True | _ \<Rightarrow> False)
     \<and> null_or_text (js_get bt ''model'') \<and> null_or_text (js_get bt ''system_prompt'')
     \<and> null_or_list (js_get bt ''enabled_toolsets'')"

lemma text_or_null_back: "null_or_text v \<Longrightarrow> text_or_null (text_or_empty v) = v"
  by (cases v) (simp_all add: null_or_text_def text_or_null_def text_or_empty_def trim_trimmed)

lemma toolsets_back:
  "null_or_list v \<Longrightarrow> toolsets_or_null (case v of JArr ts \<Rightarrow> field_text ListField (JArr ts) | _ \<Rightarrow> []) = v"
proof (cases v)
  case (JArr ts)
  assume ok: "null_or_list v"
  define xs where "xs = map (\<lambda>t. case t of JStr s \<Rightarrow> s | _ \<Rightarrow> []) ts"
  have "\<exists>s. t = JStr s \<and> list_item_ok s" if "t \<in> set ts" for t
  proof -
    have "case t of JStr s \<Rightarrow> list_item_ok s | _ \<Rightarrow> False"
      using ok that by (simp add: null_or_list_def JArr list_all_iff)
    then show ?thesis by (cases t) simp_all
  qed
  then have "ts = map JStr xs" "list_all list_item_ok xs"
    by (force simp: xs_def list_all_iff intro!: map_idI [symmetric])+
  moreover have "ts \<noteq> []" using ok by (simp add: null_or_list_def JArr)
  ultimately show ?thesis using list_field_roundtrip [of xs] by (simp add: JArr toolsets_or_null_def)
qed (simp_all add: null_or_list_def toolsets_or_null_def list_items_def)

text \<open>Opening a profile and saving it unchanged stores what was stored: the request carries the
  profile's own name, model, prompt and toolsets, and goes to its own address.\<close>

theorem save_unchanged_keeps_bot:
  assumes "plain_bot bt"
  shows "bpCalls (handle_save_bot (handle_edit bt p)) = bpCalls p @
    [(UpdateBot (js_string (js_get bt ''bot_id''))
        (JObj (map (\<lambda>k. (k, js_get bt k)) [''name'', ''model'', ''system_prompt'', ''enabled_toolsets''])), None)]"
proof -
  have "JStr (text_or_empty (js_get bt ''name'')) = js_get bt ''name''"
    using assms by (cases "js_get bt ''name''") (simp_all add: plain_bot_def text_or_empty_def)
  then show ?thesis
    using assms by (simp add: handle_save_bot_def handle_edit_def send_bot_def bot_fields_def form_of_bot_def
        plain_bot_def text_or_null_back toolsets_back)
qed

definition sample_bot :: js where
  "sample_bot = JObj [(''bot_id'', JStr ''42''), (''name'', JStr ''Athena''), (''model'', JNull),
     (''system_prompt'', JStr ''Be brief.''), (''enabled_toolsets'', JArr [JStr ''file'', JStr ''mcp''])]"

theorem save_unchanged_keeps_bot_witness:
  "bpCalls (handle_save_bot (handle_edit sample_bot bots_start)) =
     [(UpdateBot ''42'' (JObj [(''name'', JStr ''Athena''), (''model'', JNull), (''system_prompt'', JStr ''Be brief.''),
        (''enabled_toolsets'', JArr [JStr ''file'', JStr ''mcp''])]), None)]"
proof -
  have "plain_bot sample_bot" by code_simp
  from save_unchanged_keeps_bot [OF this, of bots_start] show ?thesis
    by (simp add: sample_bot_def bots_start_def load_bots_def)
qed

text \<open>Creating refuses a blank name, saving does not.\<close>

lemma save_accepts_blank_name:
  "bots_enabled (srv, (handle_edit sample_bot bots_start)\<lparr>bpForm := (form_of_bot sample_bot)\<lparr>bfName := '' ''\<rparr>\<rparr>) SaveBotSubmit
   \<and> length (bpCalls (handle_save_bot ((handle_edit sample_bot bots_start)\<lparr>bpForm := (form_of_bot sample_bot)\<lparr>bfName := '' ''\<rparr>\<rparr>))) = 1
   \<and> handle_create_bot (bots_start\<lparr>bpNewId := ''7'', bpNew := (bpNew bots_start)\<lparr>bfName := '' ''\<rparr>\<rparr>)
       = bots_start\<lparr>bpNewId := ''7'', bpNew := (bpNew bots_start)\<lparr>bfName := '' ''\<rparr>\<rparr>"
proof -
  have "trim '' '' = []" by code_simp
  then show ?thesis
    by (simp add: handle_edit_def handle_save_bot_def handle_create_bot_def send_bot_def bots_start_def load_bots_def)
qed

section \<open>The page at rest\<close>

fun smooth_bots :: "'srv server \<Rightarrow> 'srv \<times> bots_page \<Rightarrow> bot_event \<Rightarrow> bool" where
  "smooth_bots serve (srv, p) (BotsServed k) \<longleftrightarrow> bots_enabled (srv, p) (BotsServed k)
     \<and> (case ask_bot serve ListBots srv of (srv', Inr v) \<Rightarrow> srv' = srv | (srv', Inl e) \<Rightarrow> False)"
| "smooth_bots serve (srv, p) (BotsLoaded k) \<longleftrightarrow>
     k = 0 \<and> bpLoads p \<noteq> [] \<and> (case hd (bpLoads p) of Some (Inr v) \<Rightarrow> True | _ \<Rightarrow> False)"
| "smooth_bots serve (srv, p) (BotCallSettled k) \<longleftrightarrow>
     k < length (bpCalls p) \<and> (case snd (bpCalls p ! k) of Some (Inr v) \<Rightarrow> True | _ \<Rightarrow> False)"
| "smooth_bots serve w e \<longleftrightarrow> bots_enabled w e"

definition bots_loads :: "'srv \<times> bots_page \<Rightarrow> js option list" where
  "bots_loads w = map (map_option shown_by) (bpLoads (snd w))"

definition bots_now :: "'srv server \<Rightarrow> 'srv \<times> bots_page \<Rightarrow> js" where
  "bots_now serve w = shown_by (snd (ask_bot serve ListBots (fst w)))"

definition bots_busy :: "'srv \<times> bots_page \<Rightarrow> bool" where
  "bots_busy w \<longleftrightarrow> bpCalls (snd w) \<noteq> []"

fun bots_kind :: "'srv \<times> bots_page \<Rightarrow> bot_event \<Rightarrow> turn_kind" where
  "bots_kind w (BotsServed k) = Serving k"
| "bots_kind w (BotCallServed k) = Changing"
| "bots_kind w (BotsLoaded k) = Delivering"
| "bots_kind w (BotCallSettled k) = Issuing"
| "bots_kind w e = Idle"

lemma bot_call_issues:
  assumes "k < length (bpCalls p)" "snd (bpCalls p ! k) = Some (Inr v)"
  shows "bpLoads (bot_call_settled k p) = bpLoads p @ [None] \<and> bpBots (bot_call_settled k p) = bpBots p"
proof (cases "bpCalls p ! k")
  case (Pair c r)
  then show ?thesis using assms by (cases c) (simp_all add: bot_call_settled_def Let_def load_bots_def)
qed

lemma bots_turn:
  "smooth_bots serve w e \<Longrightarrow>
     turn (bots_kind w e) bots_loads (\<lambda>w. bpBots (snd w)) bots_busy (bots_now serve) w (bots_world serve w e)"
proof (cases w)
  case (Pair srv p)
  assume en: "smooth_bots serve w e"
  show ?thesis
  proof (cases e)
    case (BotsServed k)
    then show ?thesis using en
      by (auto simp: Pair bots_loads_def bots_now_def bots_busy_def map_update split: prod.splits sum.splits)
  next
    case (BotCallServed k)
    then show ?thesis using en by (auto simp: Pair bots_loads_def bots_busy_def split: prod.splits)
  next
    case (BotsLoaded k)
    then obtain v ls where "k = 0" "bpLoads p = Some (Inr v) # ls"
      using en by (cases "bpLoads p") (auto simp: Pair split: option.splits sum.splits)
    then show ?thesis
      by (simp add: Pair BotsLoaded bots_loads_def bots_now_def bots_busy_def bots_loaded_def shown_by_def Let_def)
  next
    case (BotCallSettled k)
    then obtain v where "k < length (bpCalls p)" "snd (bpCalls p ! k) = Some (Inr v)"
      using en by (auto simp: Pair split: option.splits sum.splits)
    from bot_call_issues [OF this] show ?thesis
      by (simp add: Pair BotCallSettled bots_loads_def bots_now_def)
  qed (auto simp: Pair bots_loads_def bots_now_def bots_busy_def handle_edit_def handle_delete_bot_def
      handle_create_bot_def handle_save_bot_def send_bot_def split: option.split)
qed

interpretation bots: refresher "(srv0, bots_start)" "bots_world serve" "smooth_bots serve" bots_loads "\<lambda>w. bpBots (snd w)"
    bots_busy "bots_now serve" bots_kind
  by unfold_locales (simp_all add: bots_start_def load_bots_def bots_turn bots_loads_def)

lemma bots_page_rests_on_gateway:
  assumes "legal_run (smooth_bots serve) (bots_world serve) (srv0, bots_start) es"
    and "foldl (bots_world serve) (srv0, bots_start) es = (srv, p)" "bpLoads p = []" "bpCalls p = []"
  shows "bpBots p = shown_by (snd (ask_bot serve ListBots srv))"
  using bots.rest_shows_server [OF assms(1) assms(2) [symmetric]] assms(3,4)
  by (simp add: bots_loads_def bots_busy_def bots_now_def)

end
