(* ===== verification/Playground.thy ===== *)
theory Playground
  imports JsValue
begin

text \<open>
  The chat playground of the running application, \<open>ChatPlaygroundPage\<close> in \<open>web/src/App.tsx\<close>: a
  turn is sent over a WebSocket of its own, with an HTTP fallback when the socket fails, and the
  conversation is loaded again when the turn is over. Sockets, posts, timers and loads that are still
  to come are kept in lists, and every one of their callbacks is an event. \<open>JSON.parse\<close> of a frame
  is part of the event: the parsed value, or none when it throws.
\<close>

section \<open>State\<close>

datatype play_ready = PlayConnecting | PlayOpen | PlayClosed

record play_socket =
  psSession :: string
  psText :: string
  psAccum :: js
  psReady :: play_ready

record chat_message =
  msgSequence :: int
  msgId :: string
  msgRole :: string
  msgContent :: string
  msgCreated :: string

text \<open>\<open>playFrames\<close> are the chat frames sent, \<open>playPosts\<close> the fallback requests that have not answered,
  \<open>playTimers\<close> the sessions of the armed fallback timers, \<open>playLoads\<close> those of the outstanding
  message loads, and \<open>playStops\<close> those of the stop sockets.\<close>

record play =
  playSessions :: "string list"
  playCurrent :: string
  playMessages :: "chat_message list"
  playInput :: string
  playStream :: js
  playSending :: bool
  playSockets :: "play_socket list"
  playFrames :: "(string \<times> string) list"
  playPosts :: "(string \<times> string) list"
  playTimers :: "string list"
  playLoads :: "string list"
  playStops :: "string list"
  playAlerts :: "string list"

definition play_start :: "string option \<Rightarrow> play" where
  "play_start initial =
     (let current = (case initial of None \<Rightarrow> ''web-default'' | Some s \<Rightarrow> if s = [] then ''web-default'' else s)
      in \<lparr>playSessions = [], playCurrent = current, playMessages = [], playInput = [], playStream = JStr [],
          playSending = False, playSockets = [], playFrames = [], playPosts = [], playTimers = [],
          playLoads = [current], playStops = [], playAlerts = []\<rparr>)"

section \<open>Handlers\<close>

definition load_messages :: "string \<Rightarrow> play \<Rightarrow> play" where
  "load_messages sid s = s\<lparr>playLoads := playLoads s @ [sid]\<rparr>"

text \<open>Selecting a session loads its messages when the selection changes and is not empty.\<close>

definition select_session :: "string \<Rightarrow> play \<Rightarrow> play" where
  "select_session sid s =
     (if sid = playCurrent s then s
      else if sid = [] then s\<lparr>playCurrent := sid\<rparr> else load_messages sid (s\<lparr>playCurrent := sid\<rparr>))"

definition temp_message :: "nat \<Rightarrow> string \<Rightarrow> string \<Rightarrow> play \<Rightarrow> chat_message" where
  "temp_message now stamp userText s =
     \<lparr>msgSequence = int (length (playMessages s)) + 1, msgId = ''temp-'' @ show_nat now, msgRole = ''user'',
      msgContent = userText, msgCreated = stamp\<rparr>"

text \<open>\<open>handleSendMessage\<close>; \<open>opens\<close> says whether the socket's constructor returns.\<close>

definition send_message :: "bool \<Rightarrow> nat \<Rightarrow> string \<Rightarrow> play \<Rightarrow> play" where
  "send_message opens now stamp s =
     (if trim (playInput s) = [] \<or> playSending s then s
      else (let userText = trim (playInput s);
                s1 = s\<lparr>playInput := [], playSending := True, playStream := JStr [],
                       playMessages := playMessages s @ [temp_message now stamp userText s]\<rparr>
            in if opens then
                 s1\<lparr>playSockets := playSockets s1 @
                   [\<lparr>psSession = playCurrent s, psText = userText, psAccum = JStr [], psReady = PlayConnecting\<rparr>]\<rparr>
               else s1\<lparr>playSending := False\<rparr>))"

definition set_socket :: "nat \<Rightarrow> (play_socket \<Rightarrow> play_socket) \<Rightarrow> play \<Rightarrow> play" where
  "set_socket i f s = s\<lparr>playSockets := (playSockets s)[i := f (playSockets s ! i)]\<rparr>"

definition close_play :: "nat \<Rightarrow> play \<Rightarrow> play" where
  "close_play i = set_socket i (\<lambda>k. k\<lparr>psReady := PlayClosed\<rparr>)"

definition socket_open :: "nat \<Rightarrow> play \<Rightarrow> play" where
  "socket_open i s =
     (set_socket i (\<lambda>k. k\<lparr>psReady := PlayOpen\<rparr>) s)
       \<lparr>playFrames := playFrames s @ [(psSession (playSockets s ! i), psText (playSockets s ! i))]\<rparr>"

text \<open>The catch of \<open>onmessage\<close>: the raw data is appended. Reading a field of null throws too.\<close>

definition append_raw :: "nat \<Rightarrow> string \<Rightarrow> play \<Rightarrow> play" where
  "append_raw i raw s =
     (let acc = JStr (js_string (psAccum (playSockets s ! i)) @ raw)
      in (set_socket i (\<lambda>k. k\<lparr>psAccum := acc\<rparr>) s)\<lparr>playStream := acc\<rparr>)"

definition socket_message :: "nat \<Rightarrow> string \<Rightarrow> js option \<Rightarrow> play \<Rightarrow> play" where
  "socket_message i raw parsed s =
     (case parsed of
        None \<Rightarrow> append_raw i raw s
      | Some data \<Rightarrow>
          if data = JNull then append_raw i raw s
          else if js_get data ''type'' = JStr ''stream_chunk'' then
            (set_socket i (\<lambda>k. k\<lparr>psAccum := js_get data ''content''\<rparr>) s)\<lparr>playStream := js_get data ''content''\<rparr>
          else if js_get data ''type'' = JStr ''final'' then
            close_play i (load_messages (psSession (playSockets s ! i))
              ((set_socket i (\<lambda>k. k\<lparr>psAccum := js_get data ''content''\<rparr>) s)\<lparr>playStream := JStr [], playSending := False\<rparr>))
          else if js_get data ''type'' = JStr ''error'' then
            close_play i (s\<lparr>playSending := False, playStream := JStr [],
              playAlerts := playAlerts s @ [''Error: '' @ js_string (js_get data ''message'')]\<rparr>)
          else s)"

text \<open>\<open>onerror\<close>: the socket is gone, and the text is posted instead.\<close>

definition socket_error :: "nat \<Rightarrow> play \<Rightarrow> play" where
  "socket_error i s =
     (close_play i s)\<lparr>playPosts := playPosts s @ [(psSession (playSockets s ! i), psText (playSockets s ! i))]\<rparr>"

definition drop_nth :: "nat \<Rightarrow> 'a list \<Rightarrow> 'a list" where
  "drop_nth i xs = take i xs @ drop (Suc i) xs"

text \<open>The answer of the \<open>i\<close>-th outstanding post: an error message, or success.\<close>

definition post_done :: "nat \<Rightarrow> string option \<Rightarrow> play \<Rightarrow> play" where
  "post_done i failure s =
     (let s1 = s\<lparr>playPosts := drop_nth i (playPosts s)\<rparr>
      in case failure of
           None \<Rightarrow> s1\<lparr>playTimers := playTimers s @ [fst (playPosts s ! i)]\<rparr>
         | Some e \<Rightarrow> s1\<lparr>playSending := False, playAlerts := playAlerts s @ [''Chat error: '' @ e]\<rparr>)"

definition fallback_timer :: "nat \<Rightarrow> play \<Rightarrow> play" where
  "fallback_timer i s =
     (load_messages (playTimers s ! i) (s\<lparr>playTimers := drop_nth i (playTimers s)\<rparr>))\<lparr>playSending := False\<rparr>"

text \<open>Both branches of \<open>loadMessages\<close> do the same: the items, or nothing after an error.\<close>

definition messages_loaded :: "nat \<Rightarrow> chat_message list option \<Rightarrow> play \<Rightarrow> play" where
  "messages_loaded i result s =
     s\<lparr>playLoads := drop_nth i (playLoads s), playMessages := (case result of None \<Rightarrow> [] | Some ms \<Rightarrow> ms)\<rparr>"

definition stop_turn :: "bool \<Rightarrow> play \<Rightarrow> play" where
  "stop_turn opens s =
     (if opens then s\<lparr>playStops := playStops s @ [playCurrent s], playSending := False, playStream := JStr []\<rparr> else s)"

datatype play_event =
    TypeText string
  | SendMessage bool nat string
  | SocketOpened nat
  | SocketFrame nat string "js option"
  | SocketFailed nat
  | SocketGone nat
  | PostDone nat "string option"
  | FallbackTimer nat
  | MessagesLoaded nat "chat_message list option"
  | SessionsLoaded "string list option"
  | SelectSession string
  | ReloadMessages
  | StopTurn bool

text \<open>The socket has no \<open>onclose\<close> handler: a close by the server changes only the socket.\<close>

primrec play_step :: "play \<Rightarrow> play_event \<Rightarrow> play" where
  "play_step s (TypeText t) = s\<lparr>playInput := t\<rparr>"
| "play_step s (SendMessage opens now stamp) = send_message opens now stamp s"
| "play_step s (SocketOpened i) = socket_open i s"
| "play_step s (SocketFrame i raw parsed) = socket_message i raw parsed s"
| "play_step s (SocketFailed i) = socket_error i s"
| "play_step s (SocketGone i) = close_play i s"
| "play_step s (PostDone i failure) = post_done i failure s"
| "play_step s (FallbackTimer i) = fallback_timer i s"
| "play_step s (MessagesLoaded i result) = messages_loaded i result s"
| "play_step s (SessionsLoaded result) = (case result of None \<Rightarrow> s | Some ids \<Rightarrow> s\<lparr>playSessions := ids\<rparr>)"
| "play_step s (SelectSession sid) = select_session sid s"
| "play_step s ReloadMessages = load_messages (playCurrent s) s"
| "play_step s (StopTurn opens) = stop_turn opens s"

definition socket_is :: "play \<Rightarrow> nat \<Rightarrow> play_ready \<Rightarrow> bool" where
  "socket_is s i r \<longleftrightarrow> i < length (playSockets s) \<and> psReady (playSockets s ! i) = r"

text \<open>The input is disabled while a turn is sending, and the stop button shows only then.\<close>

primrec play_enabled :: "play \<Rightarrow> play_event \<Rightarrow> bool" where
  "play_enabled s (TypeText t) = (\<not> playSending s)"
| "play_enabled s (SendMessage opens now stamp) = (\<not> playSending s \<and> trim (playInput s) \<noteq> [])"
| "play_enabled s (SocketOpened i) = socket_is s i PlayConnecting"
| "play_enabled s (SocketFrame i raw parsed) = socket_is s i PlayOpen"
| "play_enabled s (SocketFailed i) = (socket_is s i PlayConnecting \<or> socket_is s i PlayOpen)"
| "play_enabled s (SocketGone i) = (socket_is s i PlayConnecting \<or> socket_is s i PlayOpen)"
| "play_enabled s (PostDone i failure) = (i < length (playPosts s))"
| "play_enabled s (FallbackTimer i) = (i < length (playTimers s))"
| "play_enabled s (MessagesLoaded i result) = (i < length (playLoads s))"
| "play_enabled s (SessionsLoaded result) = True"
| "play_enabled s (SelectSession sid) = True"
| "play_enabled s ReloadMessages = True"
| "play_enabled s (StopTurn opens) = playSending s"

text \<open>The label of a session in the list: the last part of its key that is no placeholder.\<close>

definition session_label :: "string \<Rightarrow> string" where
  "session_label sid =
     (if CHR ''|'' \<in> set sid then
        (let ps = filter (\<lambda>p. \<not> starts_with p ''-'') (tl (split_on (CHR ''|'') sid))
         in if ps = [] \<or> last ps = [] then sid else last ps)
      else sid)"

section \<open>Turns in flight\<close>

text \<open>A turn is in flight as an unclosed socket, an unanswered post or an armed fallback timer.\<close>

definition live_sockets :: "play \<Rightarrow> nat" where
  "live_sockets s = length (filter (\<lambda>k. psReady k \<noteq> PlayClosed) (playSockets s))"

definition in_flight :: "play \<Rightarrow> nat" where
  "in_flight s = live_sockets s + length (playPosts s) + length (playTimers s)"

definition serialized :: "bool \<Rightarrow> play \<Rightarrow> bool" where
  "serialized patient s \<longleftrightarrow>
     in_flight s \<le> 1 \<and> (in_flight s = 1 \<longrightarrow> playSending s) \<and> (patient \<and> playSending s \<longrightarrow> in_flight s = 1)"

lemma length_filter_update:
  "i < length xs \<Longrightarrow> length (filter P (xs[i := x])) + (if P (xs ! i) then 1 else 0)
     = length (filter P xs) + (if P x then 1 else 0)"
proof (induction xs arbitrary: i)
  case (Cons y ys)
  then show ?case by (cases i) auto
qed simp

lemma length_drop_nth: "i < length xs \<Longrightarrow> Suc (length (drop_nth i xs)) = length xs"
  by (simp add: drop_nth_def)

lemma load_messages_frame [simp]:
  "playSockets (load_messages sid s) = playSockets s" "playPosts (load_messages sid s) = playPosts s"
  "playTimers (load_messages sid s) = playTimers s" "playSending (load_messages sid s) = playSending s"
  "playFrames (load_messages sid s) = playFrames s"
  by (simp_all add: load_messages_def)

lemma set_socket_frame [simp]:
  "playPosts (set_socket i f s) = playPosts s" "playTimers (set_socket i f s) = playTimers s"
  "playSending (set_socket i f s) = playSending s" "playFrames (set_socket i f s) = playFrames s"
  "playLoads (set_socket i f s) = playLoads s"
  "playSockets (set_socket i f s) = (playSockets s)[i := f (playSockets s ! i)]"
  by (simp_all add: set_socket_def)

lemma close_play_frame [simp]:
  "playPosts (close_play i s) = playPosts s" "playTimers (close_play i s) = playTimers s"
  "playSending (close_play i s) = playSending s" "playFrames (close_play i s) = playFrames s"
  "playSockets (close_play i s) = (playSockets s)[i := (playSockets s ! i)\<lparr>psReady := PlayClosed\<rparr>]"
  by (simp_all add: close_play_def)

lemma live_update:
  "i < length (playSockets s) \<Longrightarrow> playSockets s' = (playSockets s)[i := k] \<Longrightarrow>
     live_sockets s' + (if psReady (playSockets s ! i) \<noteq> PlayClosed then 1 else 0)
       = live_sockets s + (if psReady k \<noteq> PlayClosed then 1 else 0)"
  using length_filter_update [of i "playSockets s" "\<lambda>k. psReady k \<noteq> PlayClosed" k]
  by (simp add: live_sockets_def)

lemma live_sockets_frame [simp]:
  "live_sockets (s\<lparr>playPosts := p\<rparr>) = live_sockets s" "live_sockets (s\<lparr>playTimers := ts\<rparr>) = live_sockets s"
  "live_sockets (s\<lparr>playSending := b\<rparr>) = live_sockets s" "live_sockets (s\<lparr>playFrames := fs\<rparr>) = live_sockets s"
  "live_sockets (s\<lparr>playAlerts := a\<rparr>) = live_sockets s" "live_sockets (load_messages sid s) = live_sockets s"
  by (simp_all add: live_sockets_def)

lemma live_close:
  "i < length (playSockets s) \<Longrightarrow> psReady (playSockets s ! i) \<noteq> PlayClosed \<Longrightarrow>
     Suc (live_sockets (close_play i s)) = live_sockets s"
  using live_update [of i s "close_play i s"] by simp

text \<open>A step keeps the turn, ends it, or loses it silently.\<close>

lemma serialized_keep:
  "serialized patient s \<Longrightarrow> in_flight s' = in_flight s \<Longrightarrow> playSending s' = playSending s \<Longrightarrow> serialized patient s'"
  by (simp add: serialized_def)

lemma serialized_end:
  "serialized patient s \<Longrightarrow> Suc (in_flight s') = in_flight s \<Longrightarrow> patient \<longrightarrow> \<not> playSending s' \<Longrightarrow> serialized patient s'"
  by (auto simp: serialized_def)

text \<open>Frames that go on, and frames that end the turn.\<close>

lemma socket_message_cases:
  assumes "i < length (playSockets s)" "psReady (playSockets s ! i) = PlayOpen"
  shows "(live_sockets (socket_message i raw parsed s) = live_sockets s
        \<and> playSending (socket_message i raw parsed s) = playSending s
      \<or> live_sockets (socket_message i raw parsed s) + 1 = live_sockets s
        \<and> \<not> playSending (socket_message i raw parsed s))
    \<and> playPosts (socket_message i raw parsed s) = playPosts s
    \<and> playTimers (socket_message i raw parsed s) = playTimers s"
proof -
  have keep: "live_sockets s' = live_sockets s"
    if "playSockets s' = (playSockets s)[i := (playSockets s ! i)\<lparr>psAccum := a\<rparr>]" for s' a
    using live_update [OF assms(1) that] assms(2) by simp
  have gone: "live_sockets s' + 1 = live_sockets s"
    if "playSockets s' = (playSockets s)[i := k]" "psReady k = PlayClosed" for s' k
    using live_update [OF assms(1) that(1)] assms(2) that(2) by simp
  have raw: "live_sockets (append_raw i raw s) = live_sockets s" "playSending (append_raw i raw s) = playSending s"
    "playPosts (append_raw i raw s) = playPosts s" "playTimers (append_raw i raw s) = playTimers s"
    by (rule keep) (simp_all add: append_raw_def Let_def)
  show ?thesis
  proof (cases parsed)
    case None
    then show ?thesis using raw by (simp add: socket_message_def)
  next
    case (Some data)
    let ?s = "socket_message i raw parsed s" and ?ty = "js_get data ''type''"
    consider "data = JNull" | "data \<noteq> JNull" "?ty = JStr ''stream_chunk''" | "data \<noteq> JNull" "?ty = JStr ''final''"
      | "data \<noteq> JNull" "?ty = JStr ''error''"
      | "data \<noteq> JNull" "?ty \<noteq> JStr ''stream_chunk''" "?ty \<noteq> JStr ''final''" "?ty \<noteq> JStr ''error''" by blast
    then show ?thesis
    proof cases
      case 1
      then show ?thesis using raw Some by (simp add: socket_message_def)
    next
      case 2
      then have "live_sockets ?s = live_sockets s" by (intro keep) (simp add: socket_message_def Some)
      then show ?thesis using 2 Some by (simp add: socket_message_def)
    next
      case 3
      then have "live_sockets ?s + 1 = live_sockets s"
        by (intro gone) (simp add: socket_message_def Some assms(1), simp)
      then show ?thesis using 3 Some by (simp add: socket_message_def)
    next
      case 4
      then have "live_sockets ?s + 1 = live_sockets s"
        by (intro gone) (simp add: socket_message_def Some, simp)
      then show ?thesis using 4 Some by (simp add: socket_message_def)
    next
      case 5
      then show ?thesis using Some by (simp add: socket_message_def)
    qed
  qed
qed

lemma serialized_step:
  assumes inv: "serialized patient s" and en: "play_enabled s e"
    and ev: "\<not> (\<exists>b. e = StopTurn b)" "patient \<Longrightarrow> \<not> (\<exists>i. e = SocketGone i)"
  shows "serialized patient (play_step s e)"
proof (cases e)
  case (SendMessage opens now stamp)
  then have idle: "in_flight s = 0" "\<not> playSending s" using inv en by (auto simp: serialized_def)
  show ?thesis
  proof (cases opens)
    case True
    then have "playSending (play_step s e)" "in_flight (play_step s e) = 1"
      using SendMessage en idle by (simp_all add: send_message_def Let_def in_flight_def live_sockets_def)
    then show ?thesis by (simp add: serialized_def)
  next
    case False
    then have "\<not> playSending (play_step s e)" "in_flight (play_step s e) = 0"
      using SendMessage en idle by (simp_all add: send_message_def Let_def in_flight_def live_sockets_def)
    then show ?thesis by (simp add: serialized_def)
  qed
next
  case (SocketOpened i)
  then have "i < length (playSockets s)" "psReady (playSockets s ! i) = PlayConnecting"
    using en by (simp_all add: socket_is_def)
  then have "live_sockets (play_step s e) = live_sockets s"
    using live_update [of i s "play_step s e" "(playSockets s ! i)\<lparr>psReady := PlayOpen\<rparr>"] SocketOpened
    by (simp add: socket_open_def)
  then show ?thesis using inv SocketOpened by (simp add: serialized_def in_flight_def socket_open_def)
next
  case (SocketFrame i raw parsed)
  then have "i < length (playSockets s)" "psReady (playSockets s ! i) = PlayOpen"
    using en by (simp_all add: socket_is_def)
  from socket_message_cases [OF this, of raw parsed] show ?thesis
    using inv SocketFrame by (auto simp: serialized_def in_flight_def)
next
  case (SocketFailed i)
  then have "Suc (live_sockets (close_play i s)) = live_sockets s"
    using en by (intro live_close) (auto simp: socket_is_def)
  then show ?thesis
    by (intro serialized_keep [OF inv]) (simp_all add: SocketFailed in_flight_def socket_error_def)
next
  case (SocketGone i)
  then have "Suc (live_sockets (close_play i s)) = live_sockets s"
    using en by (intro live_close) (auto simp: socket_is_def)
  then show ?thesis using ev(2)
    by (intro serialized_end [OF inv]) (auto simp: SocketGone in_flight_def)
next
  case (PostDone i failure)
  then have "Suc (length (drop_nth i (playPosts s))) = length (playPosts s)"
    using en by (simp add: length_drop_nth)
  then show ?thesis
  proof (cases failure)
    case None
    with \<open>Suc _ = _\<close> show ?thesis
      by (intro serialized_keep [OF inv]) (simp_all add: PostDone in_flight_def post_done_def)
  next
    case (Some x)
    with \<open>Suc _ = _\<close> show ?thesis
      by (intro serialized_end [OF inv]) (simp_all add: PostDone in_flight_def post_done_def)
  qed
next
  case (FallbackTimer i)
  then have "Suc (length (drop_nth i (playTimers s))) = length (playTimers s)"
    using en by (simp add: length_drop_nth)
  then show ?thesis
    by (intro serialized_end [OF inv]) (simp_all add: FallbackTimer in_flight_def fallback_timer_def)
next
  case (StopTurn opens)
  then show ?thesis using ev by simp
qed (use inv in \<open>simp_all add: serialized_def in_flight_def live_sockets_def messages_loaded_def select_session_def
      split: option.split\<close>)

definition serial_event :: "bool \<Rightarrow> play \<Rightarrow> play_event \<Rightarrow> bool" where
  "serial_event patient s e \<longleftrightarrow>
     play_enabled s e \<and> (case e of StopTurn b \<Rightarrow> False | SocketGone i \<Rightarrow> \<not> patient | _ \<Rightarrow> True)"

interpretation turns: machine "play_start initial" play_step "serial_event patient" "serialized patient"
proof
  show "serialized patient (play_start initial)"
    by (simp add: play_start_def Let_def serialized_def in_flight_def live_sockets_def)
  show "serialized patient (play_step s e)" if "serialized patient s" "serial_event patient s e" for s e
    using that by (intro serialized_step) (auto simp: serial_event_def split: play_event.splits)
qed

text \<open>Claim C14. Turns are serialized: as long as the user does not press stop, at most one turn is in
  flight, as a socket, a fallback post or a fallback timer, and while one is the page is marked as
  sending; and if moreover no server closes a socket without a final frame (\<open>patient\<close>; otherwise see
  \<open>server_close_wedges_chat\<close>), the page is marked as sending exactly while a turn is in flight, so it
  comes back to the user.\<close>

theorem chat_turns_are_serialized:
  assumes "legal_run (serial_event patient) play_step (play_start initial) es"
    and "s = foldl play_step (play_start initial) es"
  shows "in_flight s \<le> 1 \<and> (in_flight s = 1 \<longrightarrow> playSending s) \<and> (patient \<longrightarrow> (playSending s \<longleftrightarrow> in_flight s = 1))"
  using turns.run_inv [OF assms(1)] assms(2) by (auto simp: serialized_def)

definition fallback_turn :: "play_event list" where
  "fallback_turn = [TypeText '' hi '', SendMessage True 1 [], SocketFailed 0, PostDone 0 None]"

theorem chat_turns_are_serialized_witness:
  "\<exists>s. s = foldl play_step (play_start None) fallback_turn \<and> playSending s \<and> in_flight s = 1
     \<and> playTimers s = [''web-default'']"
proof -
  have legal: "legal_run (serial_event True) play_step (play_start None) fallback_turn" by code_simp
  have "playTimers (foldl play_step (play_start None) fallback_turn) = [''web-default'']"
    "playSending (foldl play_step (play_start None) fallback_turn)" by code_simp+
  then show ?thesis using chat_turns_are_serialized [OF legal refl] by auto
qed

subsection \<open>What goes wrong\<close>

text \<open>A server that closes the socket without a final frame leaves the page sending with nothing in
  flight: no event but the stop button can end it.\<close>

definition silent_close :: "play_event list" where
  "silent_close = [TypeText ''hi'', SendMessage True 1 [], SocketOpened 0, SocketGone 0]"

lemma server_close_wedges_chat:
  "let s = foldl play_step (play_start None) silent_close
   in legal_run play_enabled play_step (play_start None) silent_close \<and> playSending s \<and> in_flight s = 0"
  by code_simp

text \<open>A socket that fails after it has opened sends the turn a second time.\<close>

definition late_failure :: "play_event list" where
  "late_failure = [TypeText ''hi'', SendMessage True 1 [], SocketOpened 0, SocketFailed 0]"

lemma error_after_open_sends_twice:
  "let s = foldl play_step (play_start None) late_failure
   in legal_run play_enabled play_step (play_start None) late_failure
      \<and> playFrames s = [(''web-default'', ''hi'')] \<and> playPosts s = [(''web-default'', ''hi'')]"
  by code_simp

text \<open>A load of the session that was left overwrites the messages of the one that was selected.\<close>

definition crossed_loads :: "play_event list" where
  "crossed_loads =
     [SelectSession ''b'', MessagesLoaded 1 (Some []),
      MessagesLoaded 0 (Some [\<lparr>msgSequence = 1, msgId = ''m'', msgRole = ''user'', msgContent = ''of a'', msgCreated = []\<rparr>])]"

lemma stale_load_shows_other_session:
  "let s = foldl play_step (play_start (Some ''a'')) crossed_loads
   in legal_run play_enabled play_step (play_start (Some ''a'')) crossed_loads
      \<and> playCurrent s = ''b'' \<and> map msgContent (playMessages s) = [''of a'']"
  by code_simp

text \<open>After stop the old socket still answers: its final frame ends the next turn's sending state.\<close>

definition stopped_turn :: "play_event list" where
  "stopped_turn =
     [TypeText ''one'', SendMessage True 1 [], SocketOpened 0, StopTurn True, TypeText ''two'', SendMessage True 2 [],
      SocketFrame 0 [] (Some (JObj [(''type'', JStr ''final''), (''content'', JStr ''x'')]))]"

lemma stale_final_ends_next_turn:
  "let s = foldl play_step (play_start None) stopped_turn
   in legal_run play_enabled play_step (play_start None) stopped_turn
      \<and> \<not> playSending s \<and> psText (playSockets s ! 1) = ''two'' \<and> psReady (playSockets s ! 1) = PlayConnecting"
  by code_simp

end
