(* ===== verification/AppShell.thy ===== *)
theory AppShell
  imports Playground
begin

text \<open>
  The shell of the running application, \<open>App\<close> in \<open>web/src/App.tsx\<close>: hash routing, the polling of the
  gateway's status and health, the overview's disk gauge, and the mounting of the chat page with the
  session it is opened for. A navigation and the effects of what it mounts are one step.
\<close>

section \<open>Pages and the address\<close>

datatype page = Overview | Bots | Chat | Cron | Sessions | Capabilities | SettingsPage | Logs

record nav_item =
  navId :: page
  navKey :: string
  navLabel :: string
  navHint :: string

definition nav_item_of :: "page \<Rightarrow> string \<Rightarrow> string \<Rightarrow> string \<Rightarrow> nav_item" where
  "nav_item_of p key label hint = \<lparr>navId = p, navKey = key, navLabel = label, navHint = hint\<rparr>"

definition NAV_ITEMS :: "nav_item list" where
  "NAV_ITEMS =
     [nav_item_of Overview ''overview'' ''Overview'' ''System health & stats'',
      nav_item_of Bots ''bots'' ''Agent Bots'' ''Per-bot profiles & models'',
      nav_item_of Chat ''chat'' ''Playground'' ''Interactive Agent Chat'',
      nav_item_of Cron ''cron'' ''Scheduled Jobs'' ''Cron tasks & history'',
      nav_item_of Sessions ''sessions'' ''Sessions'' ''Active & past contexts'',
      nav_item_of Capabilities ''capabilities'' ''Skills & Tools'' ''Registered capabilities'',
      nav_item_of SettingsPage ''settings'' ''Security & Config'' ''Approvals & policies'',
      nav_item_of Logs ''logs'' ''Live Logs'' ''Real-time telemetry stream'']"

text \<open>\<open>hash.replace(/^#\/?/, '')\<close>.\<close>

definition strip_hash :: "string \<Rightarrow> string" where
  "strip_hash h =
     (case h of
        [] \<Rightarrow> []
      | c # t \<Rightarrow> if c = CHR ''#'' then (if t \<noteq> [] \<and> hd t = CHR ''/'' then tl t else t) else h)"

definition page_from_hash :: "string \<Rightarrow> page" where
  "page_from_hash h =
     (case filter (\<lambda>i. navKey i = strip_hash h) NAV_ITEMS of [] \<Rightarrow> Overview | i # _ \<Rightarrow> navId i)"

definition page_key :: "page \<Rightarrow> string" where
  "page_key p = (case filter (\<lambda>i. navId i = p) NAV_ITEMS of [] \<Rightarrow> [] | i # _ \<Rightarrow> navKey i)"

definition hash_of :: "page \<Rightarrow> string" where
  "hash_of p = CHR ''#'' # CHR ''/'' # page_key p"

section \<open>State\<close>

text \<open>A poll first awaits the status, then the health.\<close>

datatype poll_phase = AwaitsStatus | AwaitsHealth

record app =
  appPage :: page
  appHash :: string
  appStatus :: "js option"
  appStatusError :: "string option"
  appHealth :: string
  appSelected :: "string option"
  appPolls :: "poll_phase list"
  appPlay :: "play option"

definition start_poll :: "app \<Rightarrow> app" where
  "start_poll a = a\<lparr>appPolls := appPolls a @ [AwaitsStatus]\<rparr>"

text \<open>The end of \<open>catch\<close>: an error without a message gets a standard one.\<close>

definition error_message :: "string \<Rightarrow> string" where
  "error_message e = (if e = [] then ''Failed to connect to gateway'' else e)"

definition status_answered :: "nat \<Rightarrow> string + js \<Rightarrow> app \<Rightarrow> app" where
  "status_answered i r a =
     (let a1 = a\<lparr>appPolls := (appPolls a)[i := AwaitsHealth]\<rparr>
      in case r of
           Inr data \<Rightarrow> a1\<lparr>appStatus := Some data, appStatusError := None\<rparr>
         | Inl e \<Rightarrow> a1\<lparr>appStatusError := Some (error_message e)\<rparr>)"

definition health_answered :: "nat \<Rightarrow> string + js \<Rightarrow> app \<Rightarrow> app" where
  "health_answered i r a =
     a\<lparr>appPolls := drop_nth i (appPolls a),
       appHealth := (case r of
          Inl e \<Rightarrow> ''unhealthy''
        | Inr h \<Rightarrow> if h = JNull then ''unhealthy''
            else let st = js_get h ''status'' in if truthy st then js_string st else ''ok'')\<rparr>"

text \<open>Mounting and unmounting: the chat page starts with the selected session and clears the selection;
  while it is mounted a new selection is taken over.\<close>

definition mount_page :: "app \<Rightarrow> app" where
  "mount_page a =
     (if appPage a \<noteq> Chat then a\<lparr>appPlay := None\<rparr>
      else (case appPlay a of
          None \<Rightarrow> a\<lparr>appPlay := Some (play_start (appSelected a)), appSelected := None\<rparr>
        | Some pl \<Rightarrow>
            (case appSelected a of
               None \<Rightarrow> a
             | Some sid \<Rightarrow> a\<lparr>appPlay := Some (select_session sid pl), appSelected := None\<rparr>)))"

text \<open>\<open>selectPage\<close>: the hash and the page together; an empty session id selects nothing.\<close>

definition select_page :: "page \<Rightarrow> string option \<Rightarrow> app \<Rightarrow> app" where
  "select_page p sid a =
     mount_page (a\<lparr>appHash := hash_of p, appPage := p,
       appSelected := (if truthy_str sid then sid else appSelected a)\<rparr>)"

definition hash_changed :: "string \<Rightarrow> app \<Rightarrow> app" where
  "hash_changed h a = mount_page (a\<lparr>appHash := h, appPage := page_from_hash h\<rparr>)"

definition app_start :: "string \<Rightarrow> app" where
  "app_start h =
     start_poll (mount_page
       \<lparr>appPage = page_from_hash h, appHash = h, appStatus = None, appStatusError = None, appHealth = ''ok'',
        appSelected = None, appPolls = [], appPlay = None\<rparr>)"

datatype app_event =
    NavClick page
  | OpenInChat string
  | HashChange string
  | PollTick
  | StatusAnswered nat "string + js"
  | HealthAnswered nat "string + js"
  | ChatEvent play_event

fun app_step :: "app \<Rightarrow> app_event \<Rightarrow> app" where
  "app_step a (NavClick p) = select_page p None a"
| "app_step a (OpenInChat sid) = select_page Chat (Some sid) a"
| "app_step a (HashChange h) = hash_changed h a"
| "app_step a PollTick = start_poll a"
| "app_step a (StatusAnswered i r) = status_answered i r a"
| "app_step a (HealthAnswered i r) = health_answered i r a"
| "app_step a (ChatEvent e) = a\<lparr>appPlay := map_option (\<lambda>pl. play_step pl e) (appPlay a)\<rparr>"

definition app_enabled :: "app \<Rightarrow> app_event \<Rightarrow> bool" where
  "app_enabled a e =
     (case e of
        OpenInChat sid \<Rightarrow> appPage a = Sessions
      | StatusAnswered i r \<Rightarrow> i < length (appPolls a) \<and> appPolls a ! i = AwaitsStatus
      | HealthAnswered i r \<Rightarrow> i < length (appPolls a) \<and> appPolls a ! i = AwaitsHealth
      | ChatEvent e' \<Rightarrow> (case appPlay a of None \<Rightarrow> False | Some pl \<Rightarrow> play_enabled pl e')
      | _ \<Rightarrow> True)"

section \<open>The overview's gauge\<close>

text \<open>The status's byte counts; null and zero count as 1 for the whole and as 0 for the free bytes.\<close>

definition or_num :: "nat option \<Rightarrow> nat \<Rightarrow> nat" where
  "or_num v d = (case v of None \<Rightarrow> d | Some n \<Rightarrow> if n = 0 then d else n)"

definition disk_used_percent :: "nat option \<Rightarrow> nat option \<Rightarrow> int" where
  "disk_used_percent whole free =
     (let t = or_num whole 1; a = or_num free 0
      in \<lfloor>(of_int (int t - int a) / of_nat t * 100 + 1 / 2 :: rat)\<rfloor>)"

definition gauge_width :: "nat option \<Rightarrow> nat option \<Rightarrow> int" where
  "gauge_width whole free = min 100 (disk_used_percent whole free)"

section \<open>Properties\<close>

lemma page_key_cases: "p \<in> {Overview, Bots, Chat, Cron, Sessions, Capabilities, SettingsPage, Logs}"
  by (cases p) simp_all

lemma page_hash_roundtrip: "page_from_hash (hash_of p) = p"
  by (cases p; hypsubst; code_simp)

interpretation route: codec hash_of "\<lambda>h. Some (page_from_hash h)" "\<lambda>_. True"
  by unfold_locales (simp add: page_hash_roundtrip)

definition app_inv :: "app \<Rightarrow> bool" where
  "app_inv a \<longleftrightarrow>
     appPage a = page_from_hash (appHash a) \<and> (appPlay a \<noteq> None \<longleftrightarrow> appPage a = Chat) \<and> appSelected a = None"

lemma mount_page_frame [simp]:
  "appPage (mount_page a) = appPage a" "appHash (mount_page a) = appHash a"
  by (simp_all add: mount_page_def split: option.split)

lemma mount_page_inv:
  "appPage a = page_from_hash (appHash a) \<Longrightarrow> appPage a = Chat \<or> appSelected a = None \<Longrightarrow> app_inv (mount_page a)"
  by (auto simp: app_inv_def mount_page_def split: option.split)

lemma app_step_inv: "app_inv a \<Longrightarrow> app_inv (app_step a e)"
proof (cases e)
  case (NavClick p)
  assume "app_inv a"
  then show ?thesis using NavClick
    by (auto simp: select_page_def page_hash_roundtrip app_inv_def [of a] intro!: mount_page_inv)
next
  case (OpenInChat sid)
  assume "app_inv a"
  then show ?thesis using OpenInChat
    by (auto simp: select_page_def page_hash_roundtrip intro!: mount_page_inv)
next
  case (HashChange h)
  assume "app_inv a"
  then show ?thesis using HashChange
    by (auto simp: hash_changed_def app_inv_def [of a] intro!: mount_page_inv)
qed (auto simp: app_inv_def start_poll_def status_answered_def health_answered_def Let_def split: sum.split)

interpretation shell: machine "app_start h" app_step app_enabled app_inv
  by unfold_locales
    (simp_all add: app_step_inv, auto simp: app_start_def start_poll_def mount_page_def app_inv_def)

text \<open>The page shown is always the page of the address: after any clicks, address changes,
  answers and chat events, the shown page is the one the hash names, every page can be named, the
  chat is mounted exactly on its page, and no session selection is left over that would open
  another conversation later.\<close>

theorem shell_follows_the_address:
  assumes "legal_run app_enabled app_step (app_start h) es" and "a = foldl app_step (app_start h) es"
  shows "appPage a = page_from_hash (appHash a) \<and> (appPlay a \<noteq> None \<longleftrightarrow> appPage a = Chat)
    \<and> appSelected a = None \<and> (\<forall>p. appPage (app_step a (NavClick p)) = p)"
  using shell.run_inv [OF assms(1)] assms(2) by (simp add: app_inv_def select_page_def)

definition sample_visit :: "app_event list" where
  "sample_visit =
     [HashChange ''#sessions'', StatusAnswered 0 (Inl []), OpenInChat ''discord|42'',
      ChatEvent (TypeText ''hi''), NavClick Logs, NavClick Chat]"

theorem shell_follows_the_address_witness:
  "\<exists>a. a = foldl app_step (app_start ''#/nowhere'') sample_visit \<and> appHash a = ''#/chat'' \<and> appPage a = Chat
     \<and> map_option playCurrent (appPlay a) = Some ''web-default''"
proof -
  have legal: "legal_run app_enabled app_step (app_start ''#/nowhere'') sample_visit" by code_simp
  have "appHash (foldl app_step (app_start ''#/nowhere'') sample_visit) = ''#/chat''"
    "map_option playCurrent (appPlay (foldl app_step (app_start ''#/nowhere'') sample_visit)) = Some ''web-default''"
    by code_simp+
  then show ?thesis using shell_follows_the_address [OF legal refl] by auto
qed

text \<open>Opening a listed session in the chat shows that session.\<close>

lemma open_in_chat_opens:
  "app_inv a \<Longrightarrow> appPage a = Sessions \<Longrightarrow> sid \<noteq> [] \<Longrightarrow>
     map_option playCurrent (appPlay (app_step a (OpenInChat sid))) = Some sid
     \<and> map_option playLoads (appPlay (app_step a (OpenInChat sid))) = Some [sid]"
  by (simp add: select_page_def mount_page_def app_inv_def play_start_def truthy_str_def)

text \<open>The footer says offline exactly when the last status answer was a failure.\<close>

definition last_status_failed :: "app_event list \<Rightarrow> bool" where
  "last_status_failed es =
     foldl (\<lambda>b e. case e of StatusAnswered i (Inl x) \<Rightarrow> True | StatusAnswered i (Inr d) \<Rightarrow> False | _ \<Rightarrow> b) False es"

lemma last_status_snoc:
  "last_status_failed (es @ [e]) =
     (case e of StatusAnswered i r \<Rightarrow> (case r of Inl x \<Rightarrow> True | Inr d \<Rightarrow> False) | _ \<Rightarrow> last_status_failed es)"
  by (simp add: last_status_failed_def split: app_event.split sum.split)

lemma mount_status [simp]: "appStatusError (mount_page a) = appStatusError a"
  by (simp add: mount_page_def split: option.split)

lemma footer_follows_status:
  "appStatusError (foldl app_step (app_start h) es) \<noteq> None \<longleftrightarrow> last_status_failed es"
proof (induction es rule: rev_induct)
  case Nil
  then show ?case by (simp add: app_start_def start_poll_def last_status_failed_def)
next
  case (snoc e es)
  then show ?case
    by (cases e) (auto simp: last_status_snoc select_page_def hash_changed_def start_poll_def status_answered_def
        health_answered_def Let_def split: sum.split)
qed

lemma gauge_bounds: "free \<le> or_num whole 1 \<Longrightarrow> gauge_width whole (Some free) \<in> {0..100}"
proof -
  assume a: "free \<le> or_num whole 1"
  let ?t = "or_num whole 1"
  have "or_num (Some free) 0 = free" by (simp add: or_num_def)
  moreover have "?t > 0" by (simp add: or_num_def split: option.split)
  ultimately have "(0::rat) \<le> of_int (int ?t - int (or_num (Some free) 0)) / of_nat ?t * 100"
    using a by simp
  then have "0 \<le> disk_used_percent whole (Some free)"
    by (simp add: disk_used_percent_def Let_def)
  then show ?thesis by (simp add: gauge_width_def)
qed

text \<open>A gateway that does not know its disk is shown as completely full.\<close>

lemma unknown_disk_shows_full: "disk_used_percent None None = 100"
proof -
  have "\<lfloor>201 / 2 :: rat\<rfloor> = 100" by (intro floor_unique) simp_all
  then show ?thesis unfolding disk_used_percent_def or_num_def Let_def by simp
qed

end
