(* ===== verification/AppPages.thy ===== *)
theory AppPages
  imports Gateway AppShell
begin

text \<open>
  The remaining pages of the running application in \<open>web/src/App.tsx\<close>: the sessions explorer, the
  capabilities, the security page and the live logs. Requests under way are kept in lists, in the
  order they were sent, and every answer is an event.
\<close>

section \<open>Sessions explorer\<close>

definition page_items :: "js \<Rightarrow> js" where
  "page_items v = (let i = js_get v ''items'' in if truthy i then i else JArr [])"

record explorer =
  exSessions :: js
  exSearch :: string
  exLoads :: "gw_call list"

definition explorer_load :: "explorer \<Rightarrow> explorer" where
  "explorer_load x = x\<lparr>exLoads := exLoads x @ [GwSessions (Some (exSearch x))]\<rparr>"

definition explorer_start :: explorer where
  "explorer_start = explorer_load \<lparr>exSessions = JArr [], exSearch = [], exLoads = []\<rparr>"

datatype explorer_event = SearchTyped string | SessionsAnswered nat "string + js"

text \<open>A search text that differs makes a new \<open>load\<close>, and the effect runs it; failures are ignored.\<close>

primrec explorer_step :: "explorer \<Rightarrow> explorer_event \<Rightarrow> explorer" where
  "explorer_step x (SearchTyped t) = (if t = exSearch x then x else explorer_load (x\<lparr>exSearch := t\<rparr>))"
| "explorer_step x (SessionsAnswered i r) =
     (let x1 = x\<lparr>exLoads := take_out i (exLoads x)\<rparr>
      in case r of Inl e \<Rightarrow> x1 | Inr v \<Rightarrow> x1\<lparr>exSessions := page_items v\<rparr>)"

text \<open>The last request sent is for the text in the search box.\<close>

definition explorer_asks :: "explorer_event list \<Rightarrow> gw_call list" where
  "explorer_asks es =
     snd (foldl (\<lambda>(x, sent) e. let y = explorer_step x e
                 in (y, if (\<exists>t. e = SearchTyped t \<and> t \<noteq> exSearch x) then sent @ [last (exLoads y)] else sent))
            (explorer_start, exLoads explorer_start) es)"

lemma last_request_is_for_the_box:
  "last (explorer_asks es) = GwSessions (Some (exSearch (foldl explorer_step explorer_start es))) \<and> explorer_asks es \<noteq> []"
proof -
  let ?f = "\<lambda>(x, sent) e. let y = explorer_step x e
                 in (y, if (\<exists>t. e = SearchTyped t \<and> t \<noteq> exSearch x) then sent @ [last (exLoads y)] else sent)"
  have "fst (foldl ?f (explorer_start, exLoads explorer_start) es) = foldl explorer_step explorer_start es
      \<and> last (snd (foldl ?f (explorer_start, exLoads explorer_start) es)) = GwSessions (Some (exSearch (foldl explorer_step explorer_start es)))
      \<and> snd (foldl ?f (explorer_start, exLoads explorer_start) es) \<noteq> []"
  proof (induction es rule: rev_induct)
    case (snoc e es)
    obtain x sent where xs: "foldl ?f (explorer_start, exLoads explorer_start) es = (x, sent)" by force
    with snoc have x: "x = foldl explorer_step explorer_start es" "last sent = GwSessions (Some (exSearch x))" "sent \<noteq> []"
      by simp_all
    show ?case
      by (cases e) (use x xs in \<open>simp_all add: Let_def explorer_load_def split: sum.split\<close>)
  qed (simp add: explorer_start_def explorer_load_def)
  then show ?thesis by (simp add: explorer_asks_def)
qed

text \<open>An answer that was overtaken replaces the newer one.\<close>

lemma late_search_answer:
  "let x = foldl explorer_step explorer_start
         [SearchTyped ''a'', SearchTyped ''ab'', SessionsAnswered 2 (Inr (JObj [(''items'', JArr [JStr ''new''])])),
          SessionsAnswered 1 (Inr (JObj [(''items'', JArr [JStr ''old''])]))]
   in exSearch x = ''ab'' \<and> exSessions x = JArr [JStr ''old'']"
  by code_simp

section \<open>Capabilities\<close>

record capabilities =
  capTools :: js
  capSkills :: js

definition tools_loaded :: "string + js \<Rightarrow> capabilities \<Rightarrow> capabilities" where
  "tools_loaded r c = (case r of Inr v \<Rightarrow> c\<lparr>capTools := page_items v\<rparr> | Inl e \<Rightarrow> c)"

definition skills_loaded :: "string + js \<Rightarrow> capabilities \<Rightarrow> capabilities" where
  "skills_loaded r c = (case r of Inr v \<Rightarrow> c\<lparr>capSkills := page_items v\<rparr> | Inl e \<Rightarrow> c)"

text \<open>The two answers do not interfere.\<close>

lemma capabilities_commute:
  "tools_loaded a (skills_loaded b c) = skills_loaded b (tools_loaded a c)"
  by (simp add: tools_loaded_def skills_loaded_def split: sum.split)

section \<open>Security\<close>

record security_page =
  spApprovals :: js
  spAllowlist :: js
  spConfig :: js
  spLoads :: nat
  spCalls :: "gw_call list"
  spAlerts :: "string list"

definition security_load :: "security_page \<Rightarrow> security_page" where
  "security_load s = s\<lparr>spLoads := Suc (spLoads s)\<rparr>"

definition security_start :: security_page where
  "security_start = security_load
     \<lparr>spApprovals = JArr [], spAllowlist = JArr [], spConfig = JNull, spLoads = 0, spCalls = [], spAlerts = []\<rparr>"

text \<open>\<open>Promise.all\<close> of the three requests: the three values, or nothing when one of them failed.\<close>

definition security_loaded :: "(js \<times> js \<times> js) option \<Rightarrow> security_page \<Rightarrow> security_page" where
  "security_loaded r s =
     (let s1 = s\<lparr>spLoads := spLoads s - 1\<rparr>
      in case r of
           None \<Rightarrow> s1
         | Some (approvals, allowlist, cfg) \<Rightarrow>
             s1\<lparr>spApprovals := page_items approvals, spAllowlist := page_items allowlist, spConfig := cfg\<rparr>)"

definition handle_resolve :: "string \<Rightarrow> decision \<Rightarrow> security_page \<Rightarrow> security_page" where
  "handle_resolve i d s = s\<lparr>spCalls := spCalls s @ [GwResolveApproval i d None]\<rparr>"

text \<open>The answer to a decision; the flag says that the shell is asked for a new status.\<close>

definition resolve_answered :: "nat \<Rightarrow> string + js \<Rightarrow> security_page \<Rightarrow> security_page \<times> bool" where
  "resolve_answered k r s =
     (let s1 = s\<lparr>spCalls := take_out k (spCalls s)\<rparr>
      in case r of
           Inr v \<Rightarrow> (security_load s1, True)
         | Inl e \<Rightarrow> (s1\<lparr>spAlerts := spAlerts s @ [''Approval error: '' @ e]\<rparr>, False))"

text \<open>The page inside of the shell: a resolved approval starts another status poll there.\<close>

definition shell_resolve :: "nat \<Rightarrow> string + js \<Rightarrow> app \<times> security_page \<Rightarrow> app \<times> security_page" where
  "shell_resolve k r w =
     (case resolve_answered k r (snd w) of (s, reload) \<Rightarrow> (if reload then start_poll (fst w) else fst w, s))"

text \<open>The button decides what is sent: each decision reaches the approval's own address with its own word.\<close>

lemma decision_is_sent:
  "let r = gw_request (gw_init (last (spCalls (handle_resolve i d s))))
   in reqMethod r = Some ''POST''
      \<and> path_segments (reqUrl r) = map Some [''api'', ''approvals'', i, ''resolve'']
      \<and> reqBody r = JsonBody (JObj [(''decision'', JStr (decision_text d))])"
  using gw_target_reads [of "GwResolveApproval i d None"]
  by (simp add: handle_resolve_def Let_def gw_json_def no_init_def opt_str_def)

lemma decision_text_inj: "decision_text d = decision_text e \<longleftrightarrow> d = e"
  by (cases d; cases e) simp_all

section \<open>Live logs\<close>

record live_logs =
  llLogs :: "js list"
  llConnected :: bool

text \<open>The list of an answer; the API promises an array.\<close>

definition log_items :: "js \<Rightarrow> js list" where
  "log_items v = (case page_items v of JArr ls \<Rightarrow> ls | _ \<Rightarrow> [])"

definition last_n :: "nat \<Rightarrow> 'a list \<Rightarrow> 'a list" where
  "last_n n xs = drop (length xs - n) xs"

datatype log_event = LogsAnswered "string + js" | LogSocketOpen | LogSocketClosed | LogFrame "js option"

primrec log_step :: "live_logs \<Rightarrow> log_event \<Rightarrow> live_logs" where
  "log_step l (LogsAnswered r) = (case r of Inr v \<Rightarrow> l\<lparr>llLogs := log_items v\<rparr> | Inl e \<Rightarrow> l)"
| "log_step l LogSocketOpen = l\<lparr>llConnected := True\<rparr>"
| "log_step l LogSocketClosed = l\<lparr>llConnected := False\<rparr>"
| "log_step l (LogFrame parsed) =
     (case parsed of None \<Rightarrow> l | Some entry \<Rightarrow> l\<lparr>llLogs := last_n 400 (llLogs l) @ [entry]\<rparr>)"

definition logs_start :: live_logs where
  "logs_start = \<lparr>llLogs = [], llConnected = False\<rparr>"

text \<open>The time column: characters 11 to 18 of a full timestamp, else the timestamp itself, else a dash.\<close>

definition log_time :: "js \<Rightarrow> js" where
  "log_time entry =
     (let t = js_get entry ''timestamp''
      in case t of
           JStr s \<Rightarrow> if 19 \<le> length s then JStr (take 8 (drop 11 s)) else if s \<noteq> [] then t else JStr (CHR 0x5C # ''u2014'')
         | _ \<Rightarrow> if truthy t then t else JStr (CHR 0x5C # ''u2014''))"

fun streamed :: "log_event \<Rightarrow> js list" where
  "streamed (LogFrame (Some v)) = [v]"
| "streamed e = []"

lemma log_step_other: "\<forall>r. e \<noteq> LogsAnswered r \<Longrightarrow> llLogs (log_step l e) = (case streamed e of [] \<Rightarrow> llLogs l | v # _ \<Rightarrow> last_n 400 (llLogs l) @ [v])"
  by (cases e rule: streamed.cases) auto

lemma last_n_append: "length ys \<le> n \<Longrightarrow> last_n n (xs @ ys) = last_n (n - length ys) xs @ ys"
  by (simp add: last_n_def)

text \<open>The log keeps at most the last 401 entries once a frame has come, and always ends with the streamed
  entries, in order, as far as it reaches.\<close>

lemma live_logs_are_bounded:
  assumes "\<forall>e \<in> set es. \<forall>r. e \<noteq> LogsAnswered r"
  shows "length (llLogs (foldl log_step l es)) \<le> max 401 (length (llLogs l))
    \<and> (\<exists>old. llLogs l @ concat (map streamed es) = old @ llLogs (foldl log_step l es))"
  using assms
proof (induction es rule: rev_induct)
  case (snoc e es)
  let ?l = "foldl log_step l es"
  from snoc obtain old where old: "llLogs l @ concat (map streamed es) = old @ llLogs ?l"
    and len: "length (llLogs ?l) \<le> max 401 (length (llLogs l))" by auto
  show ?case
  proof (cases "streamed e")
    case Nil
    then show ?thesis using old len snoc.prems log_step_other [of e ?l] by auto
  next
    case (Cons v vs)
    then have "streamed e = [v]" by (cases e rule: streamed.cases) auto
    moreover have "llLogs (log_step ?l e) = last_n 400 (llLogs ?l) @ [v]"
      using snoc.prems log_step_other [of e ?l] Cons by simp
    moreover have "llLogs ?l = take (length (llLogs ?l) - 400) (llLogs ?l) @ last_n 400 (llLogs ?l)"
      by (simp add: last_n_def)
    ultimately show ?thesis using old
      by (auto simp: last_n_def intro!: exI [of _ "old @ take (length (llLogs ?l) - 400) (llLogs ?l)"])
  qed
qed auto

text \<open>The first answer replaces what was streamed before it came.\<close>

lemma late_logs_answer_drops_stream:
  "llLogs (foldl log_step logs_start [LogFrame (Some (JStr ''live'')), LogsAnswered (Inr (JObj [(''items'', JArr [])]))]) = []"
  by code_simp

end
