(* ===== verification/SessionText.thy ===== *)
theory SessionText
  imports JsValue
begin

text \<open>
  The texts of the session pages: importing exported sessions (\<open>web/src/lib/session-import.ts\<close>), the
  refresh decision (\<open>web/src/lib/session-refresh.ts\<close>), and from \<open>web/src/pages/SessionsPage.tsx\<close>
  the search snippets and the splitting of context-compaction messages. \<open>JSON.parse\<close> is a parameter:
  a value, or the message it throws.
\<close>

section \<open>Importing sessions\<close>

datatype import_error = ImportEmpty | ImportShape | ImportSyntax string

definition import_candidates :: "js \<Rightarrow> js list" where
  "import_candidates v =
     (case js_get v ''sessions'' of
        JArr ss \<Rightarrow> ss
      | _ \<Rightarrow> (case v of JArr vs \<Rightarrow> vs | _ \<Rightarrow> [v]))"

definition normalize_import_sessions :: "js \<Rightarrow> import_error + js list" where
  "normalize_import_sessions v =
     (let candidate = import_candidates v; sessions = filter is_plain_object candidate
      in if length sessions \<noteq> length candidate then Inl ImportShape else Inr sessions)"

text \<open>\<open>split(/\r?\n/)\<close>: a carriage return before a line feed belongs to the break.\<close>

definition strip_cr :: "string \<Rightarrow> string" where
  "strip_cr l = (if l \<noteq> [] \<and> last l = CHR 0x0D then butlast l else l)"

definition split_lines :: "string \<Rightarrow> string list" where
  "split_lines s = (let ls = split_on (CHR 0x0A) s in map strip_cr (butlast ls) @ [last ls])"

primrec parse_all :: "(string \<Rightarrow> string + js) \<Rightarrow> string list \<Rightarrow> string + js list" where
  "parse_all json [] = Inr []"
| "parse_all json (l # ls) =
     (case json l of
        Inl e \<Rightarrow> Inl e
      | Inr v \<Rightarrow> (case parse_all json ls of Inl e \<Rightarrow> Inl e | Inr vs \<Rightarrow> Inr (v # vs)))"

definition parse_whole :: "(string \<Rightarrow> string + js) \<Rightarrow> string \<Rightarrow> import_error + js list" where
  "parse_whole json t = (case json t of Inl e \<Rightarrow> Inl (ImportSyntax e) | Inr v \<Rightarrow> normalize_import_sessions v)"

definition parse_import_sessions :: "(string \<Rightarrow> string + js) \<Rightarrow> string \<Rightarrow> import_error + js list" where
  "parse_import_sessions json txt0 =
     (let trimmed_text = trim txt0
      in if trimmed_text = [] then Inl ImportEmpty
         else case parse_whole json trimmed_text of
             Inr ss \<Rightarrow> Inr ss
           | Inl json_error \<Rightarrow>
               (let ls = filter (\<lambda>l. trim l \<noteq> []) (split_lines trimmed_text)
                in if length ls \<le> 1 then Inl json_error
                   else case parse_all json ls of
                       Inl e \<Rightarrow> Inl (ImportSyntax e)
                     | Inr vs \<Rightarrow> normalize_import_sessions (JArr vs)))"

definition import_summary :: "nat \<Rightarrow> nat \<Rightarrow> nat \<Rightarrow> string" where
  "import_summary imported skipped detached =
     join ''; '' ([show_nat imported @ '' imported'']
       @ (if 0 < skipped then [show_nat skipped @ '' skipped''] else [])
       @ (if 0 < detached then [show_nat detached @ '' detached from missing parents''] else []))"

lemma normalize_cases:
  "case normalize_import_sessions v of
     Inr ss \<Rightarrow> ss = import_candidates v \<and> list_all is_plain_object ss
   | Inl e \<Rightarrow> e = ImportShape \<and> \<not> list_all is_plain_object (import_candidates v)"
proof (cases "list_all is_plain_object (import_candidates v)")
  case True
  then have "filter is_plain_object (import_candidates v) = import_candidates v"
    by (simp add: filter_id_conv list_all_iff)
  with True show ?thesis by (simp add: normalize_import_sessions_def Let_def)
next
  case False
  then have "length (filter is_plain_object (import_candidates v)) < length (import_candidates v)"
    by (auto simp: list_all_iff intro: length_filter_less)
  with False show ?thesis by (simp add: normalize_import_sessions_def Let_def)
qed

lemma parse_all_Inl: "parse_all json ls = Inl e \<Longrightarrow> \<exists>l \<in> set ls. json l = Inl e"
  by (induction ls) (auto split: sum.splits)

lemma parse_all_Inr: "parse_all json ls = Inr vs \<longleftrightarrow> list_all2 (\<lambda>l v. json l = Inr v) ls vs"
proof (induction ls arbitrary: vs)
  case (Cons l ls)
  show ?case
  proof (cases "parse_all json ls")
    case (Inl e)
    then have "\<not> list_all2 (\<lambda>l v. json l = Inr v) ls ws" for ws using Cons.IH [of ws] by simp
    then show ?thesis using Inl by (auto simp: list_all2_Cons1 split: sum.split)
  next
    case (Inr ws)
    then have "list_all2 (\<lambda>l v. json l = Inr v) ls us \<longleftrightarrow> us = ws" for us using Cons.IH [of us] by auto
    then show ?thesis using Inr by (auto simp: list_all2_Cons1 split: sum.split)
  qed
qed auto

lemma parse_whole_Inl:
  "parse_whole json t = Inl err \<Longrightarrow>
     case err of ImportSyntax e \<Rightarrow> json t = Inl e
     | ImportShape \<Rightarrow> \<exists>v. json t = Inr v \<and> \<not> list_all is_plain_object (import_candidates v) | ImportEmpty \<Rightarrow> False"
  using normalize_cases by (cases "json t") (fastforce simp: parse_whole_def split: sum.splits)+

lemma parse_whole_Inr:
  "parse_whole json t = Inr ss \<Longrightarrow> \<exists>v. json t = Inr v \<and> ss = import_candidates v \<and> list_all is_plain_object ss"
  using normalize_cases by (cases "json t") (fastforce simp: parse_whole_def split: sum.splits)+

text \<open>The lines of a file, parsed one by one.\<close>

lemma import_candidates_array: "import_candidates (JArr vs) = vs"
  by (simp add: import_candidates_def)

lemma normalize_lines:
  "normalize_import_sessions (JArr vs) = (if list_all is_plain_object vs then Inr vs else Inl ImportShape)"
  using normalize_cases [of "JArr vs"]
  by (cases "normalize_import_sessions (JArr vs)") (auto simp: import_candidates_array)

text \<open>The first line that is no JSON.\<close>

definition first_failing :: "(string \<Rightarrow> string + js) \<Rightarrow> string list \<Rightarrow> string \<Rightarrow> bool" where
  "first_failing json ls e \<longleftrightarrow>
     (\<exists>ok l rest. ls = ok @ l # rest \<and> (\<forall>k \<in> set ok. \<exists>v. json k = Inr v) \<and> json l = Inl e)"

lemma first_failing_simps [simp]:
  "\<not> first_failing json [] e"
  "first_failing json (k # ls) e \<longleftrightarrow> json k = Inl e \<or> (\<exists>v. json k = Inr v) \<and> first_failing json ls e"
proof -
  show "\<not> first_failing json [] e" by (simp add: first_failing_def)
  show "first_failing json (k # ls) e \<longleftrightarrow> json k = Inl e \<or> (\<exists>v. json k = Inr v) \<and> first_failing json ls e"
  proof
    assume "first_failing json (k # ls) e"
    then obtain ok l rest where "k # ls = ok @ l # rest" "\<forall>k \<in> set ok. \<exists>v. json k = Inr v" "json l = Inl e"
      unfolding first_failing_def by blast
    then show "json k = Inl e \<or> (\<exists>v. json k = Inr v) \<and> first_failing json ls e"
      by (cases ok) (auto simp: first_failing_def)
  next
    assume "json k = Inl e \<or> (\<exists>v. json k = Inr v) \<and> first_failing json ls e"
    then show "first_failing json (k # ls) e"
    proof
      assume "json k = Inl e"
      then have "k # ls = [] @ k # ls \<and> (\<forall>k \<in> set []. \<exists>v. json k = Inr v) \<and> json k = Inl e" by simp
      then show ?thesis unfolding first_failing_def by blast
    next
      assume h: "(\<exists>v. json k = Inr v) \<and> first_failing json ls e"
      then obtain ok l rest where "ls = ok @ l # rest" "\<forall>k \<in> set ok. \<exists>v. json k = Inr v" "json l = Inl e"
        unfolding first_failing_def by blast
      with h have "k # ls = (k # ok) @ l # rest \<and> (\<forall>k \<in> set (k # ok). \<exists>v. json k = Inr v) \<and> json l = Inl e" by simp
      then show ?thesis unfolding first_failing_def by blast
    qed
  qed
qed

lemma parse_all_first_error: "parse_all json ls = Inl e \<longleftrightarrow> first_failing json ls e"
  by (induction ls) (auto split: sum.split)

text \<open>The specification of an import, without the code's order of attempts: the lines of a file that count,
  the sessions the file holds as one JSON value, and those it holds as one value per line.\<close>

definition counted_lines :: "string \<Rightarrow> string list" where
  "counted_lines t = filter (\<lambda>l. trim l \<noteq> []) (split_lines t)"

definition read_whole :: "(string \<Rightarrow> string + js) \<Rightarrow> string \<Rightarrow> js list \<Rightarrow> bool" where
  "read_whole json t ss \<longleftrightarrow> (\<exists>v. json t = Inr v \<and> ss = import_candidates v \<and> list_all is_plain_object ss)"

definition read_by_line :: "(string \<Rightarrow> string + js) \<Rightarrow> string list \<Rightarrow> js list \<Rightarrow> bool" where
  "read_by_line json ls ss \<longleftrightarrow> 1 < length ls \<and> list_all2 (\<lambda>l v. json l = Inr v) ls ss \<and> list_all is_plain_object ss"

lemma parse_whole_read: "parse_whole json t = Inr ss \<longleftrightarrow> read_whole json t ss"
proof (cases "json t")
  case (Inr v)
  then show ?thesis using normalize_cases [of v]
    by (cases "normalize_import_sessions v") (auto simp: parse_whole_def read_whole_def)
qed (simp add: parse_whole_def read_whole_def)

lemma parse_whole_failed:
  "parse_whole json t = Inl err \<longleftrightarrow>
     (case err of ImportEmpty \<Rightarrow> False | ImportSyntax e \<Rightarrow> json t = Inl e
      | ImportShape \<Rightarrow> (\<exists>v. json t = Inr v) \<and> (\<nexists>ss. read_whole json t ss))"
proof (cases "json t")
  case (Inr v)
  then show ?thesis using normalize_cases [of v]
    by (cases "normalize_import_sessions v"; cases err) (auto simp: parse_whole_def read_whole_def)
qed (auto simp: parse_whole_def read_whole_def split: import_error.split)

lemma import_of_whole:
  "trim txt0 \<noteq> [] \<Longrightarrow> read_whole json (trim txt0) ss \<Longrightarrow> parse_import_sessions json txt0 = Inr ss"
  by (simp add: parse_import_sessions_def Let_def flip: parse_whole_read)

lemma import_of_rest:
  assumes "trim txt0 \<noteq> []" "\<nexists>ss. read_whole json (trim txt0) ss"
  shows "parse_import_sessions json txt0 =
    (if length (counted_lines (trim txt0)) \<le> 1 then
       (case json (trim txt0) of Inl e \<Rightarrow> Inl (ImportSyntax e) | Inr v \<Rightarrow> Inl ImportShape)
     else case parse_all json (counted_lines (trim txt0)) of
         Inl e \<Rightarrow> Inl (ImportSyntax e)
       | Inr vs \<Rightarrow> if list_all is_plain_object vs then Inr vs else Inl ImportShape)"
proof -
  obtain err where err: "parse_whole json (trim txt0) = Inl err"
    using assms(2) parse_whole_read by (cases "parse_whole json (trim txt0)") metis+
  have "(case json (trim txt0) of Inl e \<Rightarrow> Inl (ImportSyntax e) | Inr v \<Rightarrow> Inl ImportShape) = (Inl err :: import_error + js list)"
    using err [unfolded parse_whole_failed] by (cases err) auto
  then show ?thesis using assms(1) err
    by (simp add: parse_import_sessions_def Let_def counted_lines_def normalize_lines split: sum.split)
qed

text \<open>Claim C20. Importing a file: with t the trimmed text and ls its lines that are not blank, exactly one of
  four outcomes. Its sessions are given exactly when t is not empty and either t is one JSON value whose
  candidates are all plain objects, and those are the sessions, or it is not, there is more than one line, and
  every line is a plain object, and those are the sessions in order. "File is empty" is said exactly of a
  blank text. A syntax error is that of the first line that is no JSON, or, with one line only, of the text; and
  the wrong shape is reported exactly when everything that was read is JSON, but not all of it plain
  objects.\<close>

theorem import_outcomes:
  "(\<forall>ss. parse_import_sessions json txt0 = Inr ss \<longleftrightarrow>
      trim txt0 \<noteq> [] \<and> (read_whole json (trim txt0) ss
        \<or> (\<nexists>ts. read_whole json (trim txt0) ts) \<and> read_by_line json (counted_lines (trim txt0)) ss))
   \<and> (parse_import_sessions json txt0 = Inl ImportEmpty \<longleftrightarrow> trim txt0 = [])
   \<and> (\<forall>e. parse_import_sessions json txt0 = Inl (ImportSyntax e) \<longleftrightarrow>
      trim txt0 \<noteq> [] \<and> (\<nexists>ts. read_whole json (trim txt0) ts)
      \<and> (if 1 < length (counted_lines (trim txt0))
         then first_failing json (counted_lines (trim txt0)) e
         else json (trim txt0) = Inl e))
   \<and> (parse_import_sessions json txt0 = Inl ImportShape \<longleftrightarrow>
      trim txt0 \<noteq> [] \<and> (\<nexists>ts. read_whole json (trim txt0) ts)
      \<and> (if 1 < length (counted_lines (trim txt0))
         then \<exists>vs. list_all2 (\<lambda>l v. json l = Inr v) (counted_lines (trim txt0)) vs \<and> \<not> list_all is_plain_object vs
         else \<exists>v. json (trim txt0) = Inr v))"
proof (cases "trim txt0 = []")
  case True
  then show ?thesis by (simp add: parse_import_sessions_def)
next
  case ne: False
  let ?ls = "counted_lines (trim txt0)"
  show ?thesis
  proof (cases "\<exists>ss. read_whole json (trim txt0) ss")
    case True
    then obtain ss where ss: "read_whole json (trim txt0) ss" by blast
    then have "read_whole json (trim txt0) ts \<longleftrightarrow> ts = ss" for ts by (auto simp: read_whole_def)
    with import_of_whole [OF ne ss] ne show ?thesis by auto
  next
    case False
    note r = import_of_rest [OF ne False]
    show ?thesis
    proof (cases "length ?ls \<le> 1")
      case True
      then show ?thesis using r ne False by (cases "json (trim txt0)") (auto simp: read_by_line_def)
    next
      case long: False
      show ?thesis
      proof (cases "parse_all json ?ls")
        case (Inl e)
        then have "\<not> list_all2 (\<lambda>l v. json l = Inr v) ?ls vs" for vs using parse_all_Inr [of json ?ls vs] by simp
        with Inl r long ne False show ?thesis by (auto simp: read_by_line_def parse_all_first_error [symmetric])
      next
        case (Inr vs)
        then have "list_all2 (\<lambda>l v. json l = Inr v) ?ls us \<longleftrightarrow> us = vs" for us using parse_all_Inr [of json ?ls us] by auto
        with Inr r long ne False show ?thesis by (auto simp: read_by_line_def parse_all_first_error [symmetric])
      qed
    qed
  qed
qed

text \<open>Exported sessions in lines come back.\<close>

lemma hd_join_lines: "ws \<noteq> [] \<Longrightarrow> hd ws \<noteq> [] \<Longrightarrow> join sep ws \<noteq> [] \<and> hd (join sep ws) = hd (hd ws)"
  by (induction sep ws rule: join.induct) simp_all

lemma last_join_lines:
  "ws \<noteq> [] \<Longrightarrow> (\<And>w. w \<in> set ws \<Longrightarrow> w \<noteq> []) \<Longrightarrow> last (join sep ws) = last (last ws)"
proof (induction sep ws rule: join.induct)
  case (3 sep w v ws)
  then have "join sep (v # ws) \<noteq> []" using hd_join_lines [of "v # ws" sep] by simp
  with 3 show ?case by (simp del: join.simps(2-3) add: join.simps(3) [of sep w v ws])
qed simp_all

definition data_line :: "string \<Rightarrow> bool" where
  "data_line l \<longleftrightarrow> l \<noteq> [] \<and> trimmed l \<and> CHR 0x0A \<notin> set l"

lemma lines_import_back:
  assumes "2 \<le> length ls" "json (join [CHR 0x0A] ls) = Inl e" "list_all data_line ls"
    and "list_all2 (\<lambda>l s. json l = Inr s \<and> is_plain_object s) ls ss"
  shows "parse_import_sessions json (join [CHR 0x0A] ls) = Inr ss"
proof -
  have ne: "ls \<noteq> []" using assms(1) by auto
  have line: "l \<noteq> []" "trimmed l" "CHR 0x0A \<notin> set l" if "l \<in> set ls" for l
    using assms(3) that by (auto simp: list_all_iff data_line_def)
  have "trimmed (join [CHR 0x0A] ls)"
    using hd_join_lines [of ls "[CHR 0x0A]"] last_join_lines [of ls "[CHR 0x0A]"] ne line
    by (intro trimmedI) (auto simp: trimmed_def)
  then have t: "trim (join [CHR 0x0A] ls) = join [CHR 0x0A] ls" by (rule trim_trimmed)
  have nonblank: "join [CHR 0x0A] ls \<noteq> []" using hd_join_lines [of ls] ne line by simp
  have "strip_cr l = l" if "l \<in> set ls" for l
  proof -
    have "\<not> is_ws (last l)" using line [OF that] by (simp add: trimmed_def)
    moreover have "is_ws (CHR 0x0D)" by (simp add: is_ws_def code_def)
    ultimately show ?thesis by (auto simp: strip_cr_def)
  qed
  then have "map strip_cr (butlast ls) @ [last ls] = ls"
    using ne by (metis append_butlast_last_id in_set_butlastD map_idI)
  then have "split_lines (join [CHR 0x0A] ls) = ls"
    using split_on_join [OF ne line(3)] by (simp add: split_lines_def Let_def)
  moreover have "filter (\<lambda>l. trim l \<noteq> []) ls = ls" using line by (simp add: filter_id_conv trim_trimmed)
  moreover have "parse_all json ls = Inr ss" using assms(4) by (auto simp: parse_all_Inr elim: list_all2_mono)
  moreover have "list_all is_plain_object ss"
    using assms(4) by (auto simp: list_all2_conv_all_nth list_all_length)
  then have "normalize_import_sessions (JArr ss) = Inr ss"
    using normalize_cases [of "JArr ss"] by (auto simp: import_candidates_def split: sum.splits)
  ultimately show ?thesis
    using assms(1,2) t nonblank by (simp add: parse_import_sessions_def parse_whole_def Let_def)
qed

section \<open>Refreshing\<close>

definition should_refresh_sessions :: "string option \<Rightarrow> string option \<Rightarrow> bool" where
  "should_refresh_sessions prev current \<longleftrightarrow> prev \<noteq> None \<and> current \<noteq> None \<and> prev \<noteq> current"

section \<open>Context compaction\<close>

definition em_dash :: string where
  "em_dash = CHR 0x5C # ''u2014''"

definition COMPACTION_PREFIXES :: "string list" where
  "COMPACTION_PREFIXES =
     [''[CONTEXT COMPACTION '' @ em_dash @ '' REFERENCE ONLY]'', ''[CONTEXT COMPACTION - REFERENCE ONLY]'',
      ''[CONTEXT SUMMARY]:'']"

definition COMPACTION_END_MARKER :: string where
  "COMPACTION_END_MARKER =
     ''--- END OF CONTEXT SUMMARY '' @ em_dash @ '' respond to the message below, not the summary above ---''"

text \<open>\<open>indexOf\<close> of a text, as the parts before and after its first occurrence.\<close>

fun cut_at :: "string \<Rightarrow> string \<Rightarrow> (string \<times> string) option" where
  "cut_at m s =
     (if starts_with s m then Some ([], drop (length m) s)
      else case s of [] \<Rightarrow> None | c # cs \<Rightarrow> map_option (\<lambda>(a, b). (c # a, b)) (cut_at m cs))"

declare cut_at.simps [simp del]

definition split_compaction_content :: "string \<Rightarrow> (string \<times> string) option" where
  "split_compaction_content content =
     (if \<not> list_ex (starts_with (trim_start content)) COMPACTION_PREFIXES then None
      else case cut_at COMPACTION_END_MARKER content of
          None \<Rightarrow> Some (content, [])
        | Some (a, b) \<Rightarrow> Some (a, trim_start b))"

text \<open>The bubbles a message is shown as: the split is repeated on the two halves.\<close>

lemma cut_at_Some: "cut_at m s = Some (a, b) \<Longrightarrow> s = a @ m @ b"
proof (induction s arbitrary: a)
  case Nil
  then show ?case by (subst (asm) cut_at.simps) (auto simp: starts_with_iff split: if_splits)
next
  case (Cons c cs)
  then show ?case by (subst (asm) (2) cut_at.simps) (auto simp: starts_with_iff split: if_splits)
qed

lemma cut_at_None: "cut_at m s = None \<longleftrightarrow> \<not> str_includes s m"
proof (induction s)
  case Nil
  then show ?case by (subst cut_at.simps) (auto simp: starts_with_iff)
next
  case (Cons c cs)
  then show ?case by (subst cut_at.simps) auto
qed

text \<open>Splitting a compaction message loses nothing but the marker and the white space after it, and the
  reply it keeps is the whole rest of the message.\<close>

lemma compaction_split_covers:
  assumes "split_compaction_content content = Some (summary, rest)"
  shows "(\<not> str_includes content COMPACTION_END_MARKER \<and> summary = content \<and> rest = [])
    \<or> (\<exists>ws. content = summary @ COMPACTION_END_MARKER @ ws @ rest \<and> list_all is_ws ws)"
proof (cases "cut_at COMPACTION_END_MARKER content")
  case None
  then show ?thesis using assms cut_at_None [of COMPACTION_END_MARKER content]
    by (auto simp: split_compaction_content_def simp del: not_None_eq split: if_splits)
next
  case (Some ab)
  obtain a b where ab: "ab = (a, b)" by (cases ab)
  have "summary = a" "rest = trim_start b"
    using assms Some by (auto simp: split_compaction_content_def ab split: if_splits)
  moreover have "b = takeWhile is_ws b @ trim_start b" by (simp add: trim_start_def)
  moreover have "list_all is_ws (takeWhile is_ws b)" by (auto simp: list_all_iff dest: set_takeWhileD)
  ultimately show ?thesis using cut_at_Some [of COMPACTION_END_MARKER content a b] Some ab by metis
qed

section \<open>Search snippets\<close>

text \<open>\<open>/>>>(.*?)<<</g\<close>: marks do not reach over a line break. The result lists the parts and
  whether they are marked.\<close>

definition is_line_end :: "char \<Rightarrow> bool" where
  "is_line_end c \<longleftrightarrow> code c = 10 \<or> code c = 13"

definition mark_here :: "string \<Rightarrow> (string \<times> string) option" where
  "mark_here s =
     (if starts_with s ''>>>'' then
        (case cut_at ''<<<'' (drop 3 s) of
           Some (a, b) \<Rightarrow> if list_ex is_line_end a then None else Some (a, b)
         | None \<Rightarrow> None)
      else None)"

lemma mark_here_Some: "mark_here s = Some (a, b) \<Longrightarrow> s = ''>>>'' @ a @ ''<<<'' @ b"
  using cut_at_Some [of "''<<<''" "drop 3 s" a b]
  by (auto simp: mark_here_def starts_with_iff split: if_splits option.splits)

function snippet_parts :: "string \<Rightarrow> string \<Rightarrow> (string \<times> bool) list" where
  "snippet_parts acc s =
     (case s of
        [] \<Rightarrow> (if acc = [] then [] else [(acc, False)])
      | c # cs \<Rightarrow>
          (case mark_here s of
             None \<Rightarrow> snippet_parts (acc @ [c]) cs
           | Some (a, b) \<Rightarrow> (if acc = [] then [] else [(acc, False)]) @ (a, True) # snippet_parts [] b))"
  by pat_completeness auto
termination
  by (relation "measure (\<lambda>(acc, s). length s)") (auto dest!: mark_here_Some)

declare snippet_parts.simps [simp del]

definition with_marks :: "string \<times> bool \<Rightarrow> string" where
  "with_marks p = (if snd p then ''>>>'' @ fst p @ ''<<<'' else fst p)"

lemma with_marks_simps: "with_marks (t, True) = ''>>>'' @ t @ ''<<<''" "with_marks (t, False) = t"
  by (simp_all add: with_marks_def)

text \<open>Put back into the marks, the parts of a snippet are the snippet.\<close>

lemma snippet_parts_cover: "concat (map with_marks (snippet_parts acc s)) = acc @ s"
proof (induction acc s rule: snippet_parts.induct)
  case (1 acc s)
  show ?case
  proof (cases s)
    case Nil
    then show ?thesis by (simp add: snippet_parts.simps with_marks_simps)
  next
    case (Cons c cs)
    show ?thesis
    proof (cases "mark_here s")
      case None
      then show ?thesis using 1(1) [OF Cons] by (simp add: Cons snippet_parts.simps [of acc "c # cs"])
    next
      case (Some ab)
      obtain a b where ab: "ab = (a, b)" by (cases ab)
      have "s = ''>>>'' @ a @ ''<<<'' @ b" using mark_here_Some Some ab by blast
      moreover have "concat (map with_marks (snippet_parts [] b)) = b"
        using 1(2) [OF Cons Some ab [symmetric]] by simp
      moreover have "snippet_parts acc s = (if acc = [] then [] else [(acc, False)]) @ (a, True) # snippet_parts [] b"
        using Some ab Cons by (simp add: snippet_parts.simps [of acc "c # cs"])
      ultimately show ?thesis by (simp add: with_marks_simps)
    qed
  qed
qed

end
