(* ===== verification/SessionsPage.thy ===== *)
theory SessionsPage
  imports SessionText
begin

text \<open>
  The sessions page, \<open>web/src/pages/SessionsPage.tsx\<close>: the paginated list with its background
  refresh, the debounced search, the row selection with shift-click ranges, and the operations that
  delete, rename, import and prune. Every request under way and every armed timer is kept in the
  state; their ends are events. Of a session the page's handlers read the fields of \<open>srow\<close>. The
  answers of the purely informative requests (status, statistics) are left out.
\<close>

section \<open>State\<close>

record srow =
  srId :: string
  srTitle :: "string option"
  srActive :: bool

datatype sessions_view = ListView | OverviewView

text \<open>The armed timer of the search box: the reset of an empty box, or a search.\<close>

datatype debounce = ResetSoon | SearchSoon string

text \<open>Deletions keep what their handlers captured when they started: the expanded row and the page.\<close>

record spage =
  spSessions :: "srow list"
  spTotal :: int
  spPage :: nat
  spLoading :: bool
  spSearch :: string
  spExpanded :: "string option"
  spResults :: "(string \<times> string) list option"
  spSearching :: bool
  spView :: sessions_view
  spOverview :: "srow list"
  spEmptyCount :: nat
  spEmptyOpen :: bool
  spEmptyPage :: "nat option"
  spSelected :: "string list"
  spAnchor :: "nat option"
  spSelectedOpen :: bool
  spBulk :: "(string list \<times> string option \<times> nat) option"
  spPruneOpen :: bool
  spPruneDays :: string
  spPruning :: bool
  spImporting :: "nat option"
  spNewest :: "string option"
  spDebounce :: "debounce option"
  spLoads :: "(nat \<times> bool) list"
  spSearches :: "string list"
  spDeletes :: "(string \<times> string option) list"
  spRenames :: "(string \<times> string) list"
  spPolls :: nat
  spToasts :: "string list"

definition PAGE_SIZE :: nat where
  "PAGE_SIZE = 20"

section \<open>What is shown\<close>

definition snippet_map :: "spage \<Rightarrow> string \<Rightarrow> string option" where
  "snippet_map s = (case spResults s of None \<Rightarrow> (\<lambda>_. None) | Some rs \<Rightarrow> map_of (rev rs))"

text \<open>\<open>filtered\<close>: with search results, only the loaded sessions among them.\<close>

definition filtered :: "spage \<Rightarrow> srow list" where
  "filtered s = (case spResults s of None \<Rightarrow> spSessions s | Some rs \<Rightarrow> filter (\<lambda>r. snippet_map s (srId r) \<noteq> None) (spSessions s))"

definition search_active :: "spage \<Rightarrow> bool" where
  "search_active s \<longleftrightarrow> trim (spSearch s) \<noteq> []"

text \<open>\<open>platforms\<close> says whether the status lists any platform.\<close>

definition show_list :: "bool \<Rightarrow> spage \<Rightarrow> bool" where
  "show_list platforms s \<longleftrightarrow> spView s = ListView \<or> search_active s
     \<or> \<not> (platforms \<or> take 5 (filter (\<lambda>r. \<not> srActive r) (spOverview s)) \<noteq> [])"

definition show_pagination :: "bool \<Rightarrow> spage \<Rightarrow> bool" where
  "show_pagination platforms s \<longleftrightarrow> show_list platforms s \<and> spResults s = None \<and> int PAGE_SIZE < spTotal s"

definition visible_rows :: "bool \<Rightarrow> spage \<Rightarrow> string list" where
  "visible_rows platforms s = (if spLoading s \<or> \<not> show_list platforms s then [] else map srId (filtered s))"

section \<open>Handlers\<close>

definition sp_toast :: "string \<Rightarrow> spage \<Rightarrow> spage" where
  "sp_toast m s = s\<lparr>spToasts := spToasts s @ [m]\<rparr>"

definition clear_selection :: "spage \<Rightarrow> spage" where
  "clear_selection s = s\<lparr>spSelected := [], spAnchor := None\<rparr>"

definition load_sessions :: "nat \<Rightarrow> bool \<Rightarrow> spage \<Rightarrow> spage" where
  "load_sessions p silent s =
     s\<lparr>spLoading := (if silent then spLoading s else True), spLoads := spLoads s @ [(p, silent)]\<rparr>"

definition sessions_loaded :: "nat \<Rightarrow> (srow list \<times> nat) option \<Rightarrow> spage \<Rightarrow> spage" where
  "sessions_loaded k r s =
     (let silent = snd (spLoads s ! k);
          s1 = s\<lparr>spLoads := take_out k (spLoads s), spLoading := (if silent then spLoading s else False)\<rparr>
      in case r of None \<Rightarrow> s1 | Some (rows, n) \<Rightarrow> s1\<lparr>spSessions := rows, spTotal := int n\<rparr>)"

text \<open>\<open>setPage\<close> with the effect that loads the page when it changed.\<close>

definition set_page :: "nat \<Rightarrow> spage \<Rightarrow> spage" where
  "set_page p s = (if p = spPage s then s else load_sessions p False (s\<lparr>spPage := p\<rparr>))"

definition go_to_page :: "nat \<Rightarrow> spage \<Rightarrow> spage" where
  "go_to_page p s = set_page p (clear_selection s)"

text \<open>\<open>setSearch\<close> with the effect that arms the debounce timer.\<close>

definition set_search :: "string \<Rightarrow> spage \<Rightarrow> spage" where
  "set_search v s =
     (if v = spSearch s then s
      else s\<lparr>spSearch := v, spDebounce := Some (if trim v = [] then ResetSoon else SearchSoon (trim v))\<rparr>)"

definition update_search :: "string \<Rightarrow> spage \<Rightarrow> spage" where
  "update_search v s =
     (let s1 = set_search v s
      in clear_selection (if trim v \<noteq> [] then s1\<lparr>spView := ListView\<rparr> else s1))"

definition switch_view :: "sessions_view \<Rightarrow> spage \<Rightarrow> spage" where
  "switch_view v s = clear_selection (s\<lparr>spView := v\<rparr>)"

definition debounce_fires :: "spage \<Rightarrow> spage" where
  "debounce_fires s =
     (case spDebounce s of
        None \<Rightarrow> s
      | Some ResetSoon \<Rightarrow> s\<lparr>spDebounce := None, spResults := None, spSearching := False\<rparr>
      | Some (SearchSoon q) \<Rightarrow> s\<lparr>spDebounce := None, spSearching := True, spSearches := spSearches s @ [q]\<rparr>)"

definition search_answered :: "nat \<Rightarrow> (string \<times> string) list option \<Rightarrow> spage \<Rightarrow> spage" where
  "search_answered k r s =
     s\<lparr>spSearches := take_out k (spSearches s), spResults := r, spSearching := False\<rparr>"

text \<open>The overview poll: the head of the newest sessions decides about a silent refresh.\<close>

definition overview_loaded :: "srow list option \<Rightarrow> spage \<Rightarrow> spage" where
  "overview_loaded r s =
     (let s1 = s\<lparr>spPolls := spPolls s - 1\<rparr>
      in case r of
           None \<Rightarrow> s1
         | Some rows \<Rightarrow>
             (let newest = (case rows of [] \<Rightarrow> None | x # xs \<Rightarrow> Some (srId x));
                  s2 = s1\<lparr>spOverview := rows\<rparr>;
                  s3 = (if should_refresh_sessions (spNewest s) newest then load_sessions (spPage s) True s2 else s2)
              in s3\<lparr>spNewest := newest\<rparr>))"

definition set_add :: "string \<Rightarrow> string list \<Rightarrow> string list" where
  "set_add x xs = (if x \<in> set xs then xs else xs @ [x])"

definition set_remove :: "string \<Rightarrow> string list \<Rightarrow> string list" where
  "set_remove x xs = filter (\<lambda>y. y \<noteq> x) xs"

text \<open>A click on a row's checkbox. The range is inclusive and takes the clicked row's new state. The
  updater handed to React reads the anchor when it runs: \<open>deferred\<close> says that it runs with the next
  render, after the handler has set the anchor to the clicked row, and not at once.\<close>

definition handle_select_click :: "bool \<Rightarrow> bool \<Rightarrow> nat \<Rightarrow> string list \<Rightarrow> spage \<Rightarrow> spage" where
  "handle_select_click deferred shift i rows s =
     (if length rows \<le> i \<or> rows ! i = [] then s
      else (let x = rows ! i;
                anchor = (if deferred then Some i else spAnchor s);
                will = x \<notin> set (spSelected s);
                put = (if will then set_add else set_remove)
            in s\<lparr>spSelected :=
                   (case anchor of
                      Some a \<Rightarrow>
                        if shift \<and> a < length rows
                        then fold (\<lambda>r. if r = [] then id else put r)
                               (take (max a i + 1 - min a i) (drop (min a i) rows)) (spSelected s)
                        else put x (spSelected s)
                    | None \<Rightarrow> put x (spSelected s)),
                 spAnchor := Some i\<rparr>))"

definition select_all_on_page :: "string list \<Rightarrow> spage \<Rightarrow> spage" where
  "select_all_on_page rows s = s\<lparr>spSelected := fold set_add rows (spSelected s)\<rparr>"

definition drop_rows :: "string list \<Rightarrow> srow list \<Rightarrow> srow list" where
  "drop_rows ids rows = filter (\<lambda>r. srId r \<notin> set ids) rows"

definition start_delete :: "string \<Rightarrow> spage \<Rightarrow> spage" where
  "start_delete x s = s\<lparr>spDeletes := spDeletes s @ [(x, spExpanded s)]\<rparr>"

definition delete_done :: "nat \<Rightarrow> bool \<Rightarrow> spage \<Rightarrow> spage" where
  "delete_done k ok s =
     (case spDeletes s ! k of
        (x, expanded) \<Rightarrow>
          (let s1 = s\<lparr>spDeletes := take_out k (spDeletes s)\<rparr>
           in if \<not> ok then sp_toast ''failedToDelete'' s1
              else sp_toast ''sessionDeleted''
                (s1\<lparr>spSessions := drop_rows [x] (spSessions s), spTotal := spTotal s - 1,
                   spExpanded := (if expanded = Some x then None else spExpanded s),
                   spSelected := set_remove x (spSelected s)\<rparr>)))"

definition handle_delete_selected :: "spage \<Rightarrow> spage" where
  "handle_delete_selected s =
     (if spSelected s = [] then s\<lparr>spSelectedOpen := False\<rparr>
      else s\<lparr>spBulk := Some (spSelected s, spExpanded s, spPage s)\<rparr>)"

text \<open>The answer to the bulk deletion: the number of sessions it deleted.\<close>

definition bulk_done :: "nat option \<Rightarrow> spage \<Rightarrow> spage" where
  "bulk_done r s =
     (case spBulk s of
        None \<Rightarrow> s
      | Some (ids, expanded, p) \<Rightarrow>
          (let s1 = s\<lparr>spBulk := None\<rparr>
           in case r of
                None \<Rightarrow> sp_toast ''failedToDeleteSelected'' s1
              | Some deleted \<Rightarrow>
                  load_sessions p False (clear_selection
                    ((sp_toast (''selectedSessionsDeleted '' @ show_nat deleted) s1)
                       \<lparr>spSelectedOpen := False, spSessions := drop_rows ids (spSessions s),
                        spTotal := max 0 (spTotal s - int deleted),
                        spExpanded := (case expanded of Some x \<Rightarrow> if x \<in> set ids then None else spExpanded s | None \<Rightarrow> spExpanded s)\<rparr>))))"

definition handle_delete_empty :: "spage \<Rightarrow> spage" where
  "handle_delete_empty s = s\<lparr>spEmptyPage := Some (spPage s)\<rparr>"

definition empty_done :: "nat option \<Rightarrow> spage \<Rightarrow> spage" where
  "empty_done r s =
     (case spEmptyPage s of
        None \<Rightarrow> s
      | Some p \<Rightarrow>
          (case r of
             None \<Rightarrow> sp_toast ''failedToDeleteEmpty'' (s\<lparr>spEmptyPage := None\<rparr>)
           | Some n \<Rightarrow>
               load_sessions p False
                 ((sp_toast (''emptySessionsDeleted '' @ show_nat n) (s\<lparr>spEmptyPage := None\<rparr>))\<lparr>spEmptyOpen := False\<rparr>)))"

definition retitle :: "string \<Rightarrow> string \<Rightarrow> srow list \<Rightarrow> srow list" where
  "retitle x title rows = map (\<lambda>r. if srId r = x then r\<lparr>srTitle := Some title\<rparr> else r) rows"

definition rename_done :: "nat \<Rightarrow> bool \<Rightarrow> spage \<Rightarrow> spage" where
  "rename_done k ok s =
     (case spRenames s ! k of
        (x, title) \<Rightarrow>
          (let s1 = s\<lparr>spRenames := take_out k (spRenames s)\<rparr>
           in if \<not> ok then sp_toast ''Failed to rename session'' s1
              else sp_toast ''Session renamed''
                (s1\<lparr>spSessions := retitle x title (spSessions s), spOverview := retitle x title (spOverview s)\<rparr>)))"

text \<open>The row's rename field: blank and unchanged titles send nothing.\<close>

definition submit_rename :: "srow \<Rightarrow> string \<Rightarrow> spage \<Rightarrow> spage" where
  "submit_rename row val s =
     (if trim val = [] \<or> Some (trim val) = srTitle row then s
      else s\<lparr>spRenames := spRenames s @ [(srId row, trim val)]\<rparr>)"

text \<open>The import of a picked file; its end is the summary of the server or an error.\<close>

definition import_done :: "string + string \<Rightarrow> spage \<Rightarrow> spage" where
  "import_done r s =
     (case spImporting s of
        None \<Rightarrow> s
      | Some p \<Rightarrow>
          (let s1 = s\<lparr>spImporting := None\<rparr>
           in case r of
                Inr summary \<Rightarrow> load_sessions p True (clear_selection (sp_toast (''Import complete: '' @ summary) s1))
              | Inl e \<Rightarrow> sp_toast (''Import failed: '' @ e) s1))"

definition handle_prune :: "spage \<Rightarrow> spage" where
  "handle_prune s =
     (case parse_int (spPruneDays s) of
        None \<Rightarrow> sp_toast ''Enter a valid number of days'' s
      | Some days \<Rightarrow> if days < 0 then sp_toast ''Enter a valid number of days'' s else s\<lparr>spPruning := True\<rparr>)"

definition prune_done :: "nat option \<Rightarrow> spage \<Rightarrow> spage" where
  "prune_done r s =
     (case r of
        None \<Rightarrow> sp_toast ''Failed to prune sessions'' (s\<lparr>spPruning := False\<rparr>)
      | Some n \<Rightarrow>
          set_page 0 (load_sessions 0 False
            ((sp_toast (''Pruned '' @ show_nat n @ '' session'' @ (if n = 1 then [] else ''s'')) (s\<lparr>spPruning := False\<rparr>))
               \<lparr>spPruneOpen := False\<rparr>)))"

section \<open>Events\<close>

definition sessions_start :: spage where
  "sessions_start =
     load_sessions 0 False
       \<lparr>spSessions = [], spTotal = 0, spPage = 0, spLoading = True, spSearch = [], spExpanded = None, spResults = None,
        spSearching = False, spView = OverviewView, spOverview = [], spEmptyCount = 0, spEmptyOpen = False,
        spEmptyPage = None, spSelected = [], spAnchor = None, spSelectedOpen = False, spBulk = None, spPruneOpen = False,
        spPruneDays = ''90'', spPruning = False, spImporting = None, spNewest = None, spDebounce = Some ResetSoon,
        spLoads = [], spSearches = [], spDeletes = [], spRenames = [], spPolls = 1, spToasts = []\<rparr>"

datatype sessions_event =
    GoToPage nat | TypeSearch string | SwitchView sessions_view
  | ClickRow bool bool nat | SelectAll | ClearSelected | ToggleRow string
  | AskDelete string | DeleteAnswered nat bool
  | OpenDeleteSelected bool | ConfirmDeleteSelected | BulkAnswered "nat option"
  | OpenDeleteEmpty bool | ConfirmDeleteEmpty | EmptyAnswered "nat option" | EmptyCounted nat
  | SubmitRename srow string | RenameAnswered nat bool
  | PickImport | ImportAnswered "string + string"
  | OpenPrune bool | TypePruneDays string | SubmitPrune | PruneAnswered "nat option"
  | PollTick | PollAnswered "srow list option"
  | LoadAnswered nat "(srow list \<times> nat) option"
  | DebounceFires | SearchAnswered nat "(string \<times> string) list option"

text \<open>The rows of a click are those on screen, \<open>platforms\<close> being part of what decides what is on screen.\<close>

primrec sessions_step :: "bool \<Rightarrow> spage \<Rightarrow> sessions_event \<Rightarrow> spage" where
  "sessions_step pf s (GoToPage p) = go_to_page p s"
| "sessions_step pf s (TypeSearch v) = update_search v s"
| "sessions_step pf s (SwitchView v) = switch_view v s"
| "sessions_step pf s (ClickRow deferred shift i) = handle_select_click deferred shift i (visible_rows pf s) s"
| "sessions_step pf s SelectAll = select_all_on_page (visible_rows pf s) s"
| "sessions_step pf s ClearSelected = clear_selection s"
| "sessions_step pf s (ToggleRow x) = s\<lparr>spExpanded := (if spExpanded s = Some x then None else Some x)\<rparr>"
| "sessions_step pf s (AskDelete x) = start_delete x s"
| "sessions_step pf s (DeleteAnswered k ok) = delete_done k ok s"
| "sessions_step pf s (OpenDeleteSelected b) = s\<lparr>spSelectedOpen := b\<rparr>"
| "sessions_step pf s ConfirmDeleteSelected = handle_delete_selected s"
| "sessions_step pf s (BulkAnswered r) = bulk_done r s"
| "sessions_step pf s (OpenDeleteEmpty b) = s\<lparr>spEmptyOpen := b\<rparr>"
| "sessions_step pf s ConfirmDeleteEmpty = handle_delete_empty s"
| "sessions_step pf s (EmptyAnswered r) = empty_done r s"
| "sessions_step pf s (EmptyCounted n) = s\<lparr>spEmptyCount := n\<rparr>"
| "sessions_step pf s (SubmitRename row v) = submit_rename row v s"
| "sessions_step pf s (RenameAnswered k ok) = rename_done k ok s"
| "sessions_step pf s PickImport = s\<lparr>spImporting := Some (spPage s)\<rparr>"
| "sessions_step pf s (ImportAnswered r) = import_done r s"
| "sessions_step pf s (OpenPrune b) = (if spPruning s then s else s\<lparr>spPruneOpen := b\<rparr>)"
| "sessions_step pf s (TypePruneDays t) = s\<lparr>spPruneDays := t\<rparr>"
| "sessions_step pf s SubmitPrune = handle_prune s"
| "sessions_step pf s (PruneAnswered r) = prune_done r s"
| "sessions_step pf s PollTick = s\<lparr>spPolls := Suc (spPolls s)\<rparr>"
| "sessions_step pf s (PollAnswered r) = overview_loaded r s"
| "sessions_step pf s (LoadAnswered k r) = sessions_loaded k r s"
| "sessions_step pf s DebounceFires = debounce_fires s"
| "sessions_step pf s (SearchAnswered k r) = search_answered k r s"

text \<open>The page's controls are there when it is not loading; dialogs take their own.\<close>

primrec sessions_enabled :: "bool \<Rightarrow> spage \<Rightarrow> sessions_event \<Rightarrow> bool" where
  "sessions_enabled pf s (GoToPage p) = (\<not> spLoading s \<and> show_pagination pf s \<and> int p * int PAGE_SIZE < spTotal s)"
| "sessions_enabled pf s (TypeSearch v) = (\<not> spLoading s \<and> show_list pf s)"
| "sessions_enabled pf s (SwitchView v) = (\<not> spLoading s)"
| "sessions_enabled pf s (ClickRow deferred shift i) = (i < length (visible_rows pf s))"
| "sessions_enabled pf s SelectAll = (\<not> spLoading s \<and> show_list pf s \<and> spSelected s \<noteq> [])"
| "sessions_enabled pf s ClearSelected = (\<not> spLoading s \<and> spSelected s \<noteq> [])"
| "sessions_enabled pf s (ToggleRow x) = (x \<in> set (visible_rows pf s))"
| "sessions_enabled pf s (AskDelete x) = (\<not> spLoading s)"
| "sessions_enabled pf s (DeleteAnswered k ok) = (k < length (spDeletes s))"
| "sessions_enabled pf s (OpenDeleteSelected b) = (\<not> spLoading s)"
| "sessions_enabled pf s ConfirmDeleteSelected = (\<not> spLoading s \<and> spSelectedOpen s \<and> spBulk s = None)"
| "sessions_enabled pf s (BulkAnswered r) = (spBulk s \<noteq> None)"
| "sessions_enabled pf s (OpenDeleteEmpty b) = (\<not> spLoading s)"
| "sessions_enabled pf s ConfirmDeleteEmpty = (\<not> spLoading s \<and> spEmptyOpen s \<and> spEmptyPage s = None)"
| "sessions_enabled pf s (EmptyAnswered r) = (spEmptyPage s \<noteq> None)"
| "sessions_enabled pf s (EmptyCounted n) = True"
| "sessions_enabled pf s (SubmitRename row v) = (row \<in> set (filtered s))"
| "sessions_enabled pf s (RenameAnswered k ok) = (k < length (spRenames s))"
| "sessions_enabled pf s PickImport = (\<not> spLoading s \<and> spImporting s = None)"
| "sessions_enabled pf s (ImportAnswered r) = (spImporting s \<noteq> None)"
| "sessions_enabled pf s (OpenPrune b) = True"
| "sessions_enabled pf s (TypePruneDays t) = (spPruneOpen s \<and> \<not> spPruning s)"
| "sessions_enabled pf s SubmitPrune = (spPruneOpen s \<and> \<not> spPruning s)"
| "sessions_enabled pf s (PruneAnswered r) = spPruning s"
| "sessions_enabled pf s PollTick = True"
| "sessions_enabled pf s (PollAnswered r) = (0 < spPolls s)"
| "sessions_enabled pf s (LoadAnswered k r) = (k < length (spLoads s))"
| "sessions_enabled pf s DebounceFires = (spDebounce s \<noteq> None)"
| "sessions_enabled pf s (SearchAnswered k r) = (k < length (spSearches s))"


section \<open>What is selected was on screen\<close>

lemma set_set_add [simp]: "set (set_add x xs) = insert x (set xs)"
  by (auto simp: set_add_def)

lemma set_set_remove [simp]: "set (set_remove x xs) = set xs - {x}"
  by (auto simp: set_remove_def)

lemma set_fold_put:
  "set (fold (\<lambda>r. if r = [] then id else (if will then set_add else set_remove) r) rows sel)
     = (if will then set sel \<union> (set rows - {[]}) else set sel - (set rows - {[]}))"
  by (induction rows arbitrary: sel) auto

lemma set_fold_puts:
  "set (fold (\<lambda>r. if r = [] then id else set_add r) rows sel) = set sel \<union> (set rows - {[]})"
  "set (fold (\<lambda>r. if r = [] then id else set_remove r) rows sel) = set sel - (set rows - {[]})"
  using set_fold_put [of True rows sel] set_fold_put [of False rows sel] by (simp_all only: if_True if_False)

lemma set_fold_add [simp]: "set (fold set_add rows sel) = set sel \<union> set rows"
  by (induction rows arbitrary: sel) auto

text \<open>The events with which the user moves on: paging, searching, switching the view and clearing the
  selection. Each of them empties the selection. The answer of a prune sets the page to 0 too, but keeps the
  selection, so it is none of them.\<close>

primrec moves_on :: "sessions_event \<Rightarrow> bool" where
  "moves_on (GoToPage p) = True"
| "moves_on (TypeSearch v) = True"
| "moves_on (SwitchView v) = True"
| "moves_on (ClickRow deferred shift i) = False"
| "moves_on SelectAll = False"
| "moves_on ClearSelected = True"
| "moves_on (ToggleRow x) = False"
| "moves_on (AskDelete x) = False"
| "moves_on (DeleteAnswered k ok) = False"
| "moves_on (OpenDeleteSelected b) = False"
| "moves_on ConfirmDeleteSelected = False"
| "moves_on (BulkAnswered r) = False"
| "moves_on (OpenDeleteEmpty b) = False"
| "moves_on ConfirmDeleteEmpty = False"
| "moves_on (EmptyAnswered r) = False"
| "moves_on (EmptyCounted n) = False"
| "moves_on (SubmitRename row v) = False"
| "moves_on (RenameAnswered k ok) = False"
| "moves_on PickImport = False"
| "moves_on (ImportAnswered r) = False"
| "moves_on (OpenPrune b) = False"
| "moves_on (TypePruneDays t) = False"
| "moves_on SubmitPrune = False"
| "moves_on (PruneAnswered r) = False"
| "moves_on PollTick = False"
| "moves_on (PollAnswered r) = False"
| "moves_on (LoadAnswered k r) = False"
| "moves_on DebounceFires = False"
| "moves_on (SearchAnswered k r) = False"

lemmas sessions_defs = sp_toast_def clear_selection_def load_sessions_def sessions_loaded_def set_page_def go_to_page_def
  set_search_def update_search_def switch_view_def debounce_fires_def search_answered_def overview_loaded_def
  start_delete_def delete_done_def handle_delete_selected_def bulk_done_def handle_delete_empty_def empty_done_def
  rename_done_def submit_rename_def import_done_def handle_prune_def prune_done_def Let_def

lemma moving_on_clears: "moves_on e \<Longrightarrow> spSelected (sessions_step pf s e) = [] \<and> spAnchor (sessions_step pf s e) = None"
  by (cases e) (auto simp: sessions_defs)

lemma click_selects_rows:
  "set (spSelected (handle_select_click deferred shift i rows s)) \<subseteq> set (spSelected s) \<union> set rows"
proof -
  have t: "set (take n (drop m rows)) \<subseteq> set rows" for n m
    by (meson order_trans set_drop_subset set_take_subset)
  have u: "set (spSelected s) \<union> (set (take n (drop m rows)) - {[]}) \<subseteq> set (spSelected s) \<union> set rows"
    "set (spSelected s) - (set (take n (drop m rows)) - {[]}) \<subseteq> set (spSelected s) \<union> set rows" for n m
    using t by blast+
  show ?thesis
    using u by (auto simp: handle_select_click_def set_fold_puts Let_def split: option.splits if_splits)
qed

lemma selection_grows_on_screen:
  "x \<in> set (spSelected (sessions_step pf s e)) \<Longrightarrow> x \<in> set (spSelected s) \<or> x \<in> set (visible_rows pf s)"
proof (cases e)
  case (ClickRow deferred shift i)
  assume "x \<in> set (spSelected (sessions_step pf s e))"
  then show ?thesis
    using click_selects_rows [of deferred shift i "visible_rows pf s" s] ClickRow by auto
qed (auto simp: sessions_defs select_all_on_page_def split: option.splits if_splits sum.splits prod.splits debounce.splits)

abbreviation sessions_run :: "bool \<Rightarrow> sessions_event list \<Rightarrow> spage" where
  "sessions_run pf es \<equiv> foldl (sessions_step pf) sessions_start es"

lemma bulk_from_selection:
  "spBulk (sessions_step pf s e) = Some (ids, ex, p) \<Longrightarrow>
     spBulk s = Some (ids, ex, p) \<or> e = ConfirmDeleteSelected \<and> ids = spSelected s"
  by (cases e)
    (auto simp: sessions_defs select_all_on_page_def handle_select_click_def
       split: option.splits if_splits sum.splits prod.splits debounce.splits)

text \<open>What is selected was on screen when a click or \<open>select all\<close> took it in, and no event since has
  emptied the selection.\<close>

interpretation selecting: tracing sessions_start "sessions_step pf" "\<lambda>_ _. True" "\<lambda>_. True"
    "\<lambda>s x. x \<in> set (spSelected s)" "\<lambda>s e x. x \<in> set (visible_rows pf s) \<and> \<not> moves_on e"
proof unfold_locales
  show "x \<in> set (spSelected s) \<or> x \<in> set (visible_rows pf s) \<and> \<not> moves_on e"
    if "x \<in> set (spSelected (sessions_step pf s e))" for s e x
    using selection_grows_on_screen [OF that] moving_on_clears [of e pf s] that by auto
qed (simp_all add: sessions_start_def load_sessions_def)

lemma selection_was_seen:
  assumes "x \<in> set (spSelected (sessions_run pf es))"
  shows "\<exists>us vs. es = us @ vs \<and> x \<in> set (visible_rows pf (sessions_run pf us)) \<and> (\<forall>e\<in>set vs. \<not> moves_on e)"
proof -
  have "\<exists>us e vs. es = us @ e # vs \<and> (x \<in> set (visible_rows pf (sessions_run pf us)) \<and> \<not> moves_on e)
      \<and> (\<forall>e' \<in> set (e # vs). \<not> moves_on e')"
    using moving_on_clears by (intro selecting.traced_without [OF _ assms]) auto
  then show ?thesis by blast
qed

interpretation deleting: tracing sessions_start "sessions_step pf" "\<lambda>_ _. True" "\<lambda>_. True"
    "\<lambda>s (ids, ex, p). spBulk s = Some (ids, ex, p)" "\<lambda>s e (ids, ex, p). e = ConfirmDeleteSelected \<and> ids = spSelected s"
  by unfold_locales (auto simp: sessions_start_def load_sessions_def dest: bulk_from_selection)

text \<open>Claim C19. What a bulk deletion deletes was on screen: every session of a deletion under way was
  selected when the user confirmed it, and it was shown in the list at some moment before, since
  when the user has not paged, searched, switched the view or cleared the selection. A prune answered
  in between goes back to the first page and keeps the selection (\<open>prune_keeps_selection\<close>).\<close>

theorem bulk_deletes_what_was_seen:
  assumes "spBulk (sessions_run pf es) = Some (ids, ex, p)" and "x \<in> set ids"
  shows "\<exists>us vs ws. es = us @ vs @ ConfirmDeleteSelected # ws
           \<and> ids = spSelected (sessions_run pf (us @ vs))
           \<and> x \<in> set (visible_rows pf (sessions_run pf us)) \<and> (\<forall>e\<in>set vs. \<not> moves_on e)"
proof -
  from deleting.traced [of pf es "(ids, ex, p)"] assms(1) obtain us ws
    where us: "es = us @ ConfirmDeleteSelected # ws" "ids = spSelected (sessions_run pf us)"
    by auto
  with selection_was_seen [of x pf us] assms(2) show ?thesis by force
qed

theorem bulk_deletes_what_was_seen_witness:
  "let es = [LoadAnswered 0 (Some ([\<lparr>srId = ''a'', srTitle = None, srActive = False\<rparr>, \<lparr>srId = ''b'', srTitle = None, srActive = False\<rparr>], 2)),
             ClickRow False False 0, ClickRow False True 1, OpenDeleteSelected True, ConfirmDeleteSelected]
   in spBulk (sessions_run False es) = Some ([''a'', ''b''], None, 0)
      \<and> (\<exists>us vs ws. es = us @ vs @ ConfirmDeleteSelected # ws
           \<and> [''a'', ''b''] = spSelected (sessions_run False (us @ vs))
           \<and> ''b'' \<in> set (visible_rows False (sessions_run False us)) \<and> list_all (\<lambda>e. \<not> moves_on e) vs)"
proof -
  let ?es = "[LoadAnswered 0 (Some ([\<lparr>srId = ''a'', srTitle = None, srActive = False\<rparr>, \<lparr>srId = ''b'', srTitle = None, srActive = False\<rparr>], 2)),
             ClickRow False False 0, ClickRow False True 1, OpenDeleteSelected True, ConfirmDeleteSelected]"
  have b: "spBulk (sessions_run False ?es) = Some ([''a'', ''b''], None, 0)"
    by code_simp
  show ?thesis
    using b bulk_deletes_what_was_seen [OF b, of "''b''"] by (simp add: Let_def list_all_iff)
qed

section \<open>Ranges\<close>

lemma set_take_drop_range:
  "set (take (max a i + 1 - min a i) (drop (min a i) rows)) = {rows ! k | k. min a i \<le> k \<and> k \<le> max a i \<and> k < length rows}"
proof -
  have "set (take n (drop m rows)) = {rows ! k | k. m \<le> k \<and> k < m + n \<and> k < length rows}" for m n
  proof (intro set_eqI iffI)
    fix x
    assume "x \<in> set (take n (drop m rows))"
    then obtain j where "j < n" "m + j < length rows" "x = rows ! (m + j)"
      by (auto simp: in_set_conv_nth)
    then show "x \<in> {rows ! k | k. m \<le> k \<and> k < m + n \<and> k < length rows}"
      by force
  next
    fix x
    assume "x \<in> {rows ! k | k. m \<le> k \<and> k < m + n \<and> k < length rows}"
    then obtain k where "m \<le> k" "k < m + n" "k < length rows" "x = rows ! k"
      by blast
    then show "x \<in> set (take n (drop m rows))"
      by (auto simp: in_set_conv_nth intro!: exI [of _ "k - m"])
  qed
  note r = this [of "max a i + 1 - min a i" "min a i"]
  show ?thesis
    unfolding r by (rule Collect_cong, rule ex_cong1) auto
qed

text \<open>A shift-click gives every row between the anchor and the clicked row, ends included, the state
  the clicked row changes to, and leaves every other session as it was.\<close>

lemma shift_click_selects_range:
  assumes "i < length rows" "a < length rows" "spAnchor s = Some a" "distinct rows" "[] \<notin> set rows"
  shows "x \<in> set (spSelected (handle_select_click False True i rows s)) \<longleftrightarrow>
           (if \<exists>k < length rows. x = rows ! k \<and> min a i \<le> k \<and> k \<le> max a i
            then rows ! i \<notin> set (spSelected s) else x \<in> set (spSelected s))"
proof -
  define rng where "rng = {rows ! k | k. min a i \<le> k \<and> k \<le> max a i \<and> k < length rows}"
  have ne: "rows ! i \<noteq> []"
    using assms(1,5) nth_mem by fastforce
  have "rng \<subseteq> set rows"
    by (auto simp: rng_def)
  then have "[] \<notin> rng"
    using assms(5) by blast
  then have "set (spSelected (handle_select_click False True i rows s))
      = (if rows ! i \<notin> set (spSelected s) then set (spSelected s) \<union> rng else set (spSelected s) - rng)"
    using assms ne set_take_drop_range [of a i rows, folded rng_def]
    by (simp add: handle_select_click_def Let_def set_fold_put)
  moreover have "x \<in> rng \<longleftrightarrow> (\<exists>k < length rows. x = rows ! k \<and> min a i \<le> k \<and> k \<le> max a i)"
    by (auto simp: rng_def)
  ultimately show ?thesis
    by auto
qed


text \<open>When the updater is deferred, the anchor it reads is the clicked row itself: a shift-click then
  toggles one row, whatever the anchor was.\<close>

lemma deferred_shift_click_is_plain:
  assumes "i < length rows" "rows ! i \<noteq> []"
  shows "handle_select_click True True i rows s = handle_select_click False False i rows s"
  using assms by (auto simp: handle_select_click_def Let_def take_Suc_conv_app_nth hd_drop_conv_nth take_Suc
    split: option.splits)

section \<open>What the page does not keep\<close>

text \<open>A background refresh replaces the rows and keeps the selection: a selected session pushed to the
  next page stays selected without being shown.\<close>

lemma refresh_keeps_hidden_selection:
  assumes "k < length (spLoads s)" "x \<in> set (spSelected s)" "x \<notin> srId ` set rows"
  shows "x \<in> set (spSelected (sessions_step pf s (LoadAnswered k (Some (rows, n)))))"
    and "x \<notin> set (visible_rows pf (sessions_step pf s (LoadAnswered k (Some (rows, n)))))"
  using assms by (auto simp: sessions_loaded_def visible_rows_def filtered_def Let_def split: option.splits)

text \<open>Deleting the only row of the second page leaves twenty sessions, an empty list and no pager.\<close>

lemma last_row_of_a_page_strands_the_user:
  assumes "k < length (spDeletes s)" "spDeletes s ! k = (x, ex)" "map srId (spSessions s) = [x]"
    "spTotal s = 21" "spPage s = 1" "spResults s = None"
  shows "let s' = sessions_step pf s (DeleteAnswered k True)
         in spSessions s' = [] \<and> spTotal s' = 20 \<and> spPage s' = 1 \<and> \<not> show_pagination pf s'"
  using assms
  by (auto simp: delete_done_def sp_toast_def drop_rows_def show_pagination_def PAGE_SIZE_def Let_def)

text \<open>Pruning goes to the first page with the selection of the page it leaves.\<close>

lemma prune_keeps_selection:
  "spPage (sessions_step pf s (PruneAnswered (Some n))) = 0
     \<and> spSelected (sessions_step pf s (PruneAnswered (Some n))) = spSelected s"
  by (simp add: prune_done_def set_page_def load_sessions_def sp_toast_def)

text \<open>The answer of a search that was under way when the box was emptied filters the list.\<close>

lemma late_answer_filters_an_empty_box:
  "let s = sessions_run False
     [LoadAnswered 0 (Some ([\<lparr>srId = ''a'', srTitle = None, srActive = False\<rparr>, \<lparr>srId = ''b'', srTitle = None, srActive = False\<rparr>], 2)),
      TypeSearch ''q'', DebounceFires, TypeSearch [], DebounceFires, SearchAnswered 0 (Some [(''b'', [])])]
   in spSearch s = [] \<and> spDebounce s = None \<and> spSearches s = [] \<and> map srId (spSessions s) = [''a'', ''b'']
      \<and> visible_rows False s = [''b'']"
  by code_simp


section \<open>No spinner without a request\<close>

text \<open>The page is loading, searching or deleting only while a request that ends it is under way, and
  no session is selected twice.\<close>

definition sessions_inv :: "spage \<Rightarrow> bool" where
  "sessions_inv s \<longleftrightarrow>
     (spLoading s \<longrightarrow> False \<in> set (map snd (spLoads s))) \<and> (spSearching s \<longrightarrow> spSearches s \<noteq> []) \<and> distinct (spSelected s)"

lemma distinct_set_add [simp]: "distinct xs \<Longrightarrow> distinct (set_add x xs)"
  by (simp add: set_add_def)

lemma distinct_set_remove [simp]: "distinct xs \<Longrightarrow> distinct (set_remove x xs)"
  by (simp add: set_remove_def)

lemma distinct_folds:
  "distinct xs \<Longrightarrow> distinct (fold (\<lambda>r. if r = [] then id else set_add r) rows xs)"
  "distinct xs \<Longrightarrow> distinct (fold (\<lambda>r. if r = [] then id else set_remove r) rows xs)"
  "distinct xs \<Longrightarrow> distinct (fold set_add rows xs)"
  by (induction rows arbitrary: xs) auto

lemma click_distinct: "distinct (spSelected s) \<Longrightarrow> distinct (spSelected (handle_select_click deferred shift i rows s))"
  by (auto simp: handle_select_click_def Let_def distinct_folds split: option.split)

lemma sessions_step_inv:
  assumes "sessions_inv s" "sessions_enabled pf s e"
  shows "sessions_inv (sessions_step pf s e)"
proof (cases e)
  case (LoadAnswered k r)
  have "False \<in> set (map snd (take_out k (spLoads s)))"
    if "spLoading s" "snd (spLoads s ! k)"
    using still_in_take_out [of False "map snd (spLoads s)" k] assms that LoadAnswered
    by (simp add: sessions_inv_def map_take_out)
  then show ?thesis
    using assms LoadAnswered by (auto simp: sessions_inv_def sessions_loaded_def Let_def split: option.splits)
next
  case (ClickRow deferred shift i)
  have "spLoads (sessions_step pf s e) = spLoads s \<and> spLoading (sessions_step pf s e) = spLoading s
      \<and> spSearching (sessions_step pf s e) = spSearching s \<and> spSearches (sessions_step pf s e) = spSearches s"
    by (simp add: ClickRow handle_select_click_def Let_def)
  then show ?thesis
    using assms click_distinct [of s] by (simp add: sessions_inv_def ClickRow)
next
  case (SearchAnswered k r)
  then show ?thesis using assms by (simp add: sessions_inv_def search_answered_def)
qed (use assms in \<open>auto simp: sessions_inv_def sessions_defs select_all_on_page_def distinct_folds
       split: option.splits sum.splits prod.splits debounce.splits\<close>)

interpretation sessions: machine sessions_start "sessions_step pf" "sessions_enabled pf" sessions_inv
  by unfold_locales (simp add: sessions_inv_def sessions_start_def load_sessions_def, rule sessions_step_inv)

lemma sessions_page_settles:
  assumes "legal_run (sessions_enabled pf) (sessions_step pf) sessions_start es"
  shows "spLoads (sessions_run pf es) = [] \<Longrightarrow> \<not> spLoading (sessions_run pf es)"
    and "spSearches (sessions_run pf es) = [] \<Longrightarrow> \<not> spSearching (sessions_run pf es)"
  using sessions.run_inv [OF assms] by (auto simp: sessions_inv_def)

end
