(* ===== verification/ModelPicker.thy ===== *)
theory ModelPicker
  imports Fuzzy
begin

text \<open>
  Choosing a model: \<open>web/src/components/ModelPickerDialog.tsx\<close> (the dialog that lists providers and
  models, and applies a choice after the confirmation of expensive ones),
  \<open>web/src/lib/reasoning-effort.ts\<close> and \<open>web/src/components/ReasoningPicker.tsx\<close> (the effort of the
  main model, saved by reading and writing the whole configuration). The requests under way are part
  of the state; their answers are events and come in any order.
\<close>

section \<open>The dialog\<close>

text \<open>Of the options of the gateway, the fields the dialog decides on. Absent lists are empty.\<close>

record model_provider =
  mprName :: string
  mprSlug :: string
  mprModels :: "string list"
  mprCurrent :: bool

record model_options =
  moModel :: "string option"
  moProvider :: "string option"
  moProviders :: "model_provider list"

text \<open>What is applied: the provider, the model, and whether for all sessions.\<close>

record choice =
  chProvider :: string
  chModel :: string
  chGlobal :: bool

text \<open>\<open>PendingExpensiveConfirm\<close> is a message and a choice.\<close>

text \<open>The way a choice is applied: with the callback of a page, with \<open>config.set\<close> in a session, as a
  slash command, or not at all.\<close>

datatype picker_mode = StandaloneMode | SessionMode string | SlashMode | NoTarget

definition picker_mode_of :: "bool \<Rightarrow> bool \<Rightarrow> string option \<Rightarrow> bool \<Rightarrow> picker_mode" where
  "picker_mode_of callbacks gw sid on_submit =
     (if callbacks then StandaloneMode
      else if gw \<and> truthy_str sid then SessionMode (the sid)
      else if on_submit then SlashMode
      else NoTarget)"

record apply_answer =
  aaRequired :: bool
  aaMessage :: "string option"
  aaWarning :: "string option"

text \<open>\<open>pkOptions\<close> are the option requests under way, each with its refresh flag, and \<open>pkApplies\<close> the
  choices being applied, each with its confirmation flag. \<open>pkSent\<close> lists what was ever sent,
  \<open>pkSlash\<close> the slash commands, and \<open>pkCloses\<close> counts the calls of \<open>onClose\<close>, upon which the parent
  takes the dialog away.\<close>

record picker =
  pkProviders :: "model_provider list"
  pkCurrentModel :: string
  pkCurrentProvider :: string
  pkLoading :: bool
  pkError :: "string option"
  pkSlug :: string
  pkModel :: string
  pkQuery :: string
  pkGlobal :: bool
  pkApplying :: bool
  pkRefreshing :: bool
  pkPending :: "(string \<times> choice) option"
  pkClosed :: bool
  pkOptions :: "bool list"
  pkApplies :: "(bool \<times> choice) list"
  pkSent :: "(bool \<times> choice) list"
  pkSlash :: "string list"
  pkCloses :: nat

definition picker_start :: "bool \<Rightarrow> picker" where
  "picker_start always_global =
     \<lparr>pkProviders = [], pkCurrentModel = [], pkCurrentProvider = [], pkLoading = True, pkError = None, pkSlug = [],
      pkModel = [], pkQuery = [], pkGlobal = always_global, pkApplying = False, pkRefreshing = False, pkPending = None,
      pkClosed = False, pkOptions = [False], pkApplies = [], pkSent = [], pkSlash = [], pkCloses = 0\<rparr>"

definition find_slug :: "string \<Rightarrow> model_provider list \<Rightarrow> model_provider option" where
  "find_slug slug ps = find (\<lambda>p. mprSlug p = slug) ps"

definition selected_provider :: "picker \<Rightarrow> model_provider option" where
  "selected_provider s = find_slug (pkSlug s) (pkProviders s)"

definition picker_models :: "picker \<Rightarrow> string list" where
  "picker_models s = (case selected_provider s of None \<Rightarrow> [] | Some p \<Rightarrow> mprModels p)"

definition filtered_providers :: "picker \<Rightarrow> model_provider list" where
  "filtered_providers s =
     map rankedItem
       (fuzzy_rank (\<lambda>p. mprName p @ '' '' @ mprSlug p @ '' '' @ join '' '' (mprModels p)) (pkProviders s) (trim (pkQuery s)))"

definition filtered_models :: "picker \<Rightarrow> (string \<times> nat list) list" where
  "filtered_models s =
     (let q = trim (pkQuery s);
          only = query_matches_provider_only
                   (map_option (\<lambda>p. (mprName p, mprSlug p)) (selected_provider s)) (picker_models s) q
      in map (\<lambda>r. (rankedItem r, matchPositions (rankedMatch r)))
           (fuzzy_rank (\<lambda>m. m) (picker_models s) (if only then [] else q)))"

text \<open>\<open>HighlightedText\<close>: the characters with whether they are emphasised.\<close>

definition highlighted_text :: "string \<Rightarrow> nat list \<Rightarrow> (char \<times> bool) list" where
  "highlighted_text t positions = map (\<lambda>(i, ch). (ch, i \<in> set positions)) (enumerate 0 t)"

definition apply_options :: "model_options \<Rightarrow> picker \<Rightarrow> picker" where
  "apply_options r s =
     s\<lparr>pkProviders := moProviders r,
       pkCurrentModel := (case moModel r of None \<Rightarrow> [] | Some m \<Rightarrow> m),
       pkCurrentProvider := (case moProvider r of None \<Rightarrow> [] | Some p \<Rightarrow> p),
       pkSlug :=
         (if pkSlug s \<noteq> [] \<and> find_slug (pkSlug s) (moProviders r) \<noteq> None then pkSlug s
          else (case find mprCurrent (moProviders r) of
                  Some p \<Rightarrow> mprSlug p
                | None \<Rightarrow> (case moProviders r of [] \<Rightarrow> [] | p # ps \<Rightarrow> mprSlug p))),
       pkModel := []\<rparr>"

text \<open>The parameters of \<open>model.options\<close>.\<close>

definition options_params :: "string option \<Rightarrow> bool \<Rightarrow> js" where
  "options_params sid refresh =
     JObj ((if truthy_str sid then [(''session_id'', JStr (the sid))] else [])
       @ (if refresh then [(''refresh'', JBool True)] else []) @ [(''include_unconfigured'', JBool True)])"

definition refresh_options :: "picker \<Rightarrow> picker" where
  "refresh_options s = s\<lparr>pkError := None, pkRefreshing := True, pkOptions := pkOptions s @ [True]\<rparr>"

text \<open>The first request ends the loading, a refresh ends the refreshing; a closed dialog ignores both.\<close>

definition options_answered :: "nat \<Rightarrow> string + model_options \<Rightarrow> picker \<Rightarrow> picker" where
  "options_answered k r s =
     (let refresh = pkOptions s ! k;
          s1 = s\<lparr>pkOptions := take_out k (pkOptions s)\<rparr>
      in if pkClosed s then s1
         else (let s2 = (case r of Inl e \<Rightarrow> s1\<lparr>pkError := Some e\<rparr> | Inr v \<Rightarrow> apply_options v s1)
               in if refresh then s2\<lparr>pkRefreshing := False\<rparr> else s2\<lparr>pkLoading := False\<rparr>))"

definition on_close :: "picker \<Rightarrow> picker" where
  "on_close s = s\<lparr>pkCloses := Suc (pkCloses s), pkClosed := True\<rparr>"

definition choice_text :: "choice \<Rightarrow> string" where
  "choice_text c = chModel c @ '' --provider '' @ chProvider c @ (if chGlobal c then '' --global'' else [])"

text \<open>The parameters of \<open>config.set\<close>.\<close>

definition config_set_params :: "string \<Rightarrow> bool \<Rightarrow> choice \<Rightarrow> js" where
  "config_set_params sid confirmed c =
     JObj [(''confirm_expensive_model'', JBool confirmed), (''key'', JStr ''model''), (''session_id'', JStr sid),
           (''value'', JStr (choice_text c))]"

definition apply_selection :: "picker_mode \<Rightarrow> bool \<Rightarrow> choice option \<Rightarrow> picker \<Rightarrow> picker" where
  "apply_selection mode confirmed forced s =
     (let c = (case forced of
                 Some f \<Rightarrow> f
               | None \<Rightarrow> \<lparr>chProvider = (case selected_provider s of None \<Rightarrow> [] | Some p \<Rightarrow> mprSlug p),
                          chModel = pkModel s, chGlobal = pkGlobal s\<rparr>)
      in if chProvider c = [] \<or> chModel c = [] \<or> pkApplying s then s
         else (case mode of
                 SlashMode \<Rightarrow> on_close (s\<lparr>pkSlash := pkSlash s @ [''/model '' @ choice_text c]\<rparr>)
               | NoTarget \<Rightarrow> s
               | _ \<Rightarrow> s\<lparr>pkApplying := True, pkApplies := pkApplies s @ [(confirmed, c)], pkSent := pkSent s @ [(confirmed, c)]\<rparr>))"

definition confirm_text :: "apply_answer \<Rightarrow> string" where
  "confirm_text a =
     (if truthy_str (aaMessage a) then the (aaMessage a)
      else if truthy_str (aaWarning a) then the (aaWarning a)
      else ''This model has unusually high known pricing.'')"

definition apply_answered :: "nat \<Rightarrow> string + apply_answer \<Rightarrow> picker \<Rightarrow> picker" where
  "apply_answered k r s =
     (let c = snd (pkApplies s ! k);
          s1 = s\<lparr>pkApplies := take_out k (pkApplies s), pkApplying := False\<rparr>
      in case r of
           Inl e \<Rightarrow> s1\<lparr>pkError := Some e\<rparr>
         | Inr a \<Rightarrow> if aaRequired a then s1\<lparr>pkPending := Some (confirm_text a, c)\<rparr> else on_close s1)"

definition can_confirm :: "picker \<Rightarrow> bool" where
  "can_confirm s \<longleftrightarrow> selected_provider s \<noteq> None \<and> pkModel s \<noteq> [] \<and> \<not> pkApplying s"

definition confirm_model :: "picker_mode \<Rightarrow> string \<Rightarrow> picker \<Rightarrow> picker" where
  "confirm_model mode m s =
     apply_selection mode False
       (Some \<lparr>chProvider = (case selected_provider s of None \<Rightarrow> [] | Some p \<Rightarrow> mprSlug p), chModel = m, chGlobal = pkGlobal s\<rparr>)
       (s\<lparr>pkModel := m\<rparr>)"

definition dialog_confirmed :: "picker_mode \<Rightarrow> picker \<Rightarrow> picker" where
  "dialog_confirmed mode s =
     (case pkPending s of
        None \<Rightarrow> s
      | Some (msg, c) \<Rightarrow> apply_selection mode True (Some c) (s\<lparr>pkPending := None\<rparr>))"

datatype picker_event =
    OptionsAnswered nat "string + model_options"
  | ApplyAnswered nat "string + apply_answer"
  | TypeQuery string | SelectProvider string | SelectModel string | ConfirmModel string
  | CheckGlobal bool | PressRefresh | PressSwitch | PressClose | PressCancel | PressEscape
  | DialogCancelled | DialogConfirmed

text \<open>Escape reaches the listener of the confirmation as well as the one of the picker.\<close>

primrec picker_step :: "picker_mode \<Rightarrow> picker \<Rightarrow> picker_event \<Rightarrow> picker" where
  "picker_step mode s (OptionsAnswered k r) = options_answered k r s"
| "picker_step mode s (ApplyAnswered k r) = apply_answered k r s"
| "picker_step mode s (TypeQuery q) = s\<lparr>pkQuery := q\<rparr>"
| "picker_step mode s (SelectProvider slug) = s\<lparr>pkSlug := slug, pkModel := []\<rparr>"
| "picker_step mode s (SelectModel m) = s\<lparr>pkModel := m\<rparr>"
| "picker_step mode s (ConfirmModel m) = confirm_model mode m s"
| "picker_step mode s (CheckGlobal b) = s\<lparr>pkGlobal := b\<rparr>"
| "picker_step mode s PressRefresh = refresh_options s"
| "picker_step mode s PressSwitch = (if can_confirm s then apply_selection mode False None s else s)"
| "picker_step mode s PressClose = on_close s"
| "picker_step mode s PressCancel = on_close s"
| "picker_step mode s PressEscape = on_close (s\<lparr>pkPending := None\<rparr>)"
| "picker_step mode s DialogCancelled = s\<lparr>pkPending := None\<rparr>"
| "picker_step mode s DialogConfirmed = dialog_confirmed mode s"

primrec picker_enabled :: "picker \<Rightarrow> picker_event \<Rightarrow> bool" where
  "picker_enabled s (OptionsAnswered k r) = (k < length (pkOptions s))"
| "picker_enabled s (ApplyAnswered k r) = (k < length (pkApplies s))"
| "picker_enabled s (TypeQuery q) = (\<not> pkClosed s)"
| "picker_enabled s (SelectProvider slug) = (\<not> pkClosed s \<and> slug \<in> mprSlug ` set (filtered_providers s))"
| "picker_enabled s (SelectModel m) = (\<not> pkClosed s \<and> m \<in> fst ` set (filtered_models s))"
| "picker_enabled s (ConfirmModel m) = (\<not> pkClosed s \<and> m \<in> fst ` set (filtered_models s))"
| "picker_enabled s (CheckGlobal b) = (\<not> pkClosed s)"
| "picker_enabled s PressRefresh = (\<not> pkClosed s \<and> \<not> pkApplying s \<and> \<not> pkLoading s \<and> \<not> pkRefreshing s)"
| "picker_enabled s PressSwitch = (\<not> pkClosed s)"
| "picker_enabled s PressClose = (\<not> pkClosed s)"
| "picker_enabled s PressCancel = (\<not> pkClosed s \<and> \<not> pkApplying s)"
| "picker_enabled s PressEscape = (\<not> pkClosed s)"
| "picker_enabled s DialogCancelled = (\<not> pkClosed s \<and> pkPending s \<noteq> None)"
| "picker_enabled s DialogConfirmed = (\<not> pkClosed s \<and> pkPending s \<noteq> None)"

abbreviation picker_run :: "picker_mode \<Rightarrow> bool \<Rightarrow> picker_event list \<Rightarrow> picker" where
  "picker_run mode g es \<equiv> foldl (picker_step mode) (picker_start g) es"


section \<open>What is applied\<close>

lemma set_fuzzy_rank: "rankedItem ` set (fuzzy_rank f items q) \<subseteq> set items"
proof -
  have "fst (snd r) \<in> set items" if "r \<in> set (score_items f items q')" for r q'
    using that by (auto simp: score_items_def List.map_filter_def dest!: in_set_enumerate_eq [THEN iffD1])
  from this [where q' = "trim q"] show ?thesis
    by (auto simp: fuzzy_rank_def Let_def)
qed

lemma filtered_models_listed: "m \<in> fst ` set (filtered_models s) \<Longrightarrow> m \<in> set (picker_models s)"
  using set_fuzzy_rank [of "\<lambda>m. m" "picker_models s"] by (fastforce simp: filtered_models_def Let_def image_iff)

lemma find_slug_mem: "find_slug slug ps = Some p \<Longrightarrow> p \<in> set ps \<and> mprSlug p = slug"
  by (auto simp: find_slug_def find_Some_iff)

definition listed :: "model_provider list \<Rightarrow> choice \<Rightarrow> bool" where
  "listed ps c \<longleftrightarrow> list_ex (\<lambda>p. mprSlug p = chProvider c \<and> chModel c \<in> set (mprModels p)) ps"

text \<open>The selected model is one the selected provider lists.\<close>

definition picker_inv :: "picker \<Rightarrow> bool" where
  "picker_inv s \<longleftrightarrow> pkModel s = [] \<or> pkModel s \<in> set (picker_models s)"

lemma picker_models_listed:
  "m \<in> set (picker_models s) \<Longrightarrow> chModel c = m \<Longrightarrow>
     chProvider c = (case selected_provider s of None \<Rightarrow> [] | Some p \<Rightarrow> mprSlug p) \<Longrightarrow> listed (pkProviders s) c"
  by (auto simp: picker_models_def listed_def list_ex_iff selected_provider_def dest: find_slug_mem split: option.splits)

lemma picker_models_simps [simp]:
  "picker_models (s\<lparr>pkModel := m\<rparr>) = picker_models s"
  "picker_models (s\<lparr>pkPending := x\<rparr>) = picker_models s"
  "selected_provider (s\<lparr>pkModel := m\<rparr>) = selected_provider s"
  "selected_provider (s\<lparr>pkPending := x\<rparr>) = selected_provider s"
  by (simp_all add: picker_models_def selected_provider_def)

lemma apply_selection_keeps [simp]:
  "pkProviders (apply_selection mode b f s) = pkProviders s" "pkSlug (apply_selection mode b f s) = pkSlug s"
  "pkModel (apply_selection mode b f s) = pkModel s" "pkPending (apply_selection mode b f s) = pkPending s"
  by (simp_all add: apply_selection_def on_close_def Let_def split: picker_mode.split)

lemma on_close_keeps [simp]:
  "pkProviders (on_close s) = pkProviders s" "pkSlug (on_close s) = pkSlug s" "pkModel (on_close s) = pkModel s"
  "pkSent (on_close s) = pkSent s" "pkApplies (on_close s) = pkApplies s" "pkPending (on_close s) = pkPending s"
  by (simp_all add: on_close_def)

lemma picker_inv_cong:
  "pkProviders t = pkProviders s \<Longrightarrow> pkSlug t = pkSlug s \<Longrightarrow> pkModel t = pkModel s \<Longrightarrow> picker_inv s \<Longrightarrow> picker_inv t"
  by (simp add: picker_inv_def picker_models_def selected_provider_def)

lemma picker_step_inv:
  assumes "picker_inv s" "picker_enabled s e"
  shows "picker_inv (picker_step mode s e)"
proof (cases e)
  case (OptionsAnswered k r)
  then show ?thesis
    using assms by (auto simp: picker_inv_def picker_models_def selected_provider_def options_answered_def apply_options_def
        Let_def split: sum.splits)
next
  case (SelectProvider slug)
  then show ?thesis by (simp add: picker_inv_def)
next
  case (SelectModel m)
  then show ?thesis using assms filtered_models_listed by (simp add: picker_inv_def)
next
  case (ConfirmModel m)
  then have "picker_inv (s\<lparr>pkModel := m\<rparr>)"
    using assms filtered_models_listed by (simp add: picker_inv_def)
  then show ?thesis
    by (rule picker_inv_cong [rotated 3]) (simp_all add: ConfirmModel confirm_model_def)
next
  case (ApplyAnswered k r)
  show ?thesis
    by (rule picker_inv_cong [OF _ _ _ assms(1)])
      (simp_all add: ApplyAnswered apply_answered_def Let_def split: sum.split)
next
  case DialogConfirmed
  show ?thesis
    by (rule picker_inv_cong [OF _ _ _ assms(1)]) (simp_all add: DialogConfirmed dialog_confirmed_def split: option.split)
qed (rule picker_inv_cong [OF _ _ _ assms(1)]; simp add: refresh_options_def)+

interpretation picker: machine "picker_start g" "picker_step mode" picker_enabled picker_inv
  by unfold_locales (simp add: picker_inv_def picker_start_def, rule picker_step_inv)

text \<open>A new request: what the dialog sends in a step.\<close>

lemma sent_by_step:
  assumes "picker_inv s" "picker_enabled s e" "(b, c) \<in> set (pkSent (picker_step mode s e))"
  shows "(b, c) \<in> set (pkSent s) \<or> \<not> b \<and> listed (pkProviders s) c
    \<or> b \<and> e = DialogConfirmed \<and> (\<exists>msg. pkPending s = Some (msg, c))"
proof (cases e)
  case (ConfirmModel m)
  then have "m \<in> set (picker_models s)" using assms(2) filtered_models_listed by simp
  then show ?thesis
    using assms(3) picker_models_listed [of m s c]
    by (auto simp: ConfirmModel confirm_model_def apply_selection_def Let_def split: if_splits picker_mode.splits)
next
  case PressSwitch
  show ?thesis
    using assms(1,3) picker_models_listed [of "pkModel s" s c]
    by (auto simp: PressSwitch picker_inv_def can_confirm_def apply_selection_def Let_def split: if_splits picker_mode.splits)
next
  case DialogConfirmed
  show ?thesis
    using assms(3)
    by (auto simp: DialogConfirmed dialog_confirmed_def apply_selection_def Let_def split: if_splits picker_mode.splits option.splits)
next
  case (OptionsAnswered k r)
  show ?thesis
    using assms(3) by (auto simp: OptionsAnswered options_answered_def apply_options_def Let_def split: if_splits sum.splits)
next
  case (ApplyAnswered k r)
  show ?thesis
    using assms(3) by (auto simp: ApplyAnswered apply_answered_def Let_def split: if_splits sum.splits)
qed (use assms(3) in \<open>auto simp: refresh_options_def\<close>)

lemma pending_by_step:
  assumes "pkPending (picker_step mode s e) = Some (msg, c)"
  shows "pkPending s = Some (msg, c)
    \<or> (\<exists>k a. e = ApplyAnswered k (Inr a) \<and> aaRequired a \<and> msg = confirm_text a \<and> c = snd (pkApplies s ! k))"
  using assms
  by (cases e) (auto simp: options_answered_def apply_options_def apply_answered_def refresh_options_def confirm_model_def
      dialog_confirmed_def Let_def split: if_splits sum.splits option.splits)

lemma applies_by_step:
  assumes "x \<in> set (pkApplies (picker_step mode s e))"
  shows "x \<in> set (pkApplies s) \<or> x \<in> set (pkSent (picker_step mode s e))"
proof (cases e)
  case (ApplyAnswered k r)
  have "x \<in> set (take_out k (pkApplies s))"
    using assms by (auto simp: ApplyAnswered apply_answered_def Let_def split: sum.splits if_splits)
  then show ?thesis by (auto dest: in_take_out)
qed (use assms in \<open>auto simp: options_answered_def apply_options_def refresh_options_def confirm_model_def
      dialog_confirmed_def apply_selection_def on_close_def Let_def split: if_splits sum.splits option.splits picker_mode.splits\<close>)

lemma sent_monotone: "x \<in> set (pkSent s) \<Longrightarrow> x \<in> set (pkSent (picker_step mode s e))"
  by (cases e) (auto simp: options_answered_def apply_options_def refresh_options_def confirm_model_def apply_answered_def
      dialog_confirmed_def apply_selection_def on_close_def Let_def split: if_splits sum.splits option.splits picker_mode.splits)

lemma under_way_was_sent: "set (pkApplies (picker_run mode g es)) \<subseteq> set (pkSent (picker_run mode g es))"
proof (induction es rule: rev_induct)
  case Nil
  show ?case by (simp add: picker_start_def)
next
  case (snoc e es)
  then show ?case using applies_by_step sent_monotone by fastforce
qed


text \<open>The warning on screen was asked for by an answer about its own choice.\<close>

interpretation warning: tracing "picker_start g" "picker_step mode" picker_enabled picker_inv
    "\<lambda>s c. map_option snd (pkPending s) = Some c"
    "\<lambda>s e c. \<exists>k a. e = ApplyAnswered k (Inr a) \<and> aaRequired a \<and> k < length (pkApplies s) \<and> c = snd (pkApplies s ! k)"
proof unfold_locales
  show "map_option snd (pkPending s) = Some c
      \<or> (\<exists>k a. e = ApplyAnswered k (Inr a) \<and> aaRequired a \<and> k < length (pkApplies s) \<and> c = snd (pkApplies s ! k))"
    if "picker_enabled s e" "map_option snd (pkPending (picker_step mode s e)) = Some c" for s e c
    using that pending_by_step [of mode s e _ c] by fastforce
qed (simp add: picker_start_def)

interpretation consent: tracing "picker_start g" "picker_step mode" picker_enabled picker_inv
    "\<lambda>s c. (True, c) \<in> set (pkSent s)" "\<lambda>s e c. e = DialogConfirmed \<and> map_option snd (pkPending s) = Some c"
  by unfold_locales (simp add: picker_start_def, fastforce dest: sent_by_step)

text \<open>Claim C21. An expensive model is never switched to without the user's consent: a request that
  carries the confirmation is sent only by pressing the button of the warning, after the gateway asked
  for the confirmation of that very choice: the same provider, model and scope.\<close>

theorem expensive_models_are_confirmed:
  assumes "legal_run picker_enabled (picker_step mode) (picker_start g) es"
    and "(True, c) \<in> set (pkSent (picker_run mode g es))"
  shows "\<exists>us k a vs ws. es = us @ ApplyAnswered k (Inr a) # vs @ DialogConfirmed # ws \<and> aaRequired a
    \<and> snd (pkApplies (picker_run mode g us) ! k) = c"
proof -
  from consent.traced [OF assms] obtain us ws
    where us: "es = us @ DialogConfirmed # ws" "map_option snd (pkPending (picker_run mode g us)) = Some c"
    by blast
  have "legal_run picker_enabled (picker_step mode) (picker_start g) us"
    using assms(1) by (simp add: us(1) legal_run_append)
  from warning.traced [OF this us(2)] show ?thesis
    by (fastforce simp: us(1))
qed

definition sample_options :: model_options where
  "sample_options = \<lparr>moModel = Some ''m1'', moProvider = Some ''p'',
     moProviders = [\<lparr>mprName = ''P'', mprSlug = ''p'', mprModels = [''m1'', ''m2''], mprCurrent = True\<rparr>]\<rparr>"

definition sample_picker_run :: "picker_event list" where
  "sample_picker_run =
     [OptionsAnswered 0 (Inr sample_options), SelectModel ''m2'', PressSwitch,
      ApplyAnswered 0 (Inr \<lparr>aaRequired = True, aaMessage = None, aaWarning = Some ''costly''\<rparr>), DialogConfirmed]"

theorem expensive_models_are_confirmed_witness:
  "let c = \<lparr>chProvider = ''p'', chModel = ''m2'', chGlobal = False\<rparr>
   in pkSent (picker_run StandaloneMode False sample_picker_run) = [(False, c), (True, c)]
    \<and> (\<exists>us k a vs ws. sample_picker_run = us @ ApplyAnswered k (Inr a) # vs @ DialogConfirmed # ws \<and> aaRequired a
        \<and> snd (pkApplies (picker_run StandaloneMode False us) ! k) = c)"
proof -
  have l: "legal_run picker_enabled (picker_step StandaloneMode) (picker_start False) sample_picker_run"
    by code_simp
  have sent: "pkSent (picker_run StandaloneMode False sample_picker_run)
      = [(False, \<lparr>chProvider = ''p'', chModel = ''m2'', chGlobal = False\<rparr>), (True, \<lparr>chProvider = ''p'', chModel = ''m2'', chGlobal = False\<rparr>)]"
    by code_simp
  show ?thesis
    using sent expensive_models_are_confirmed [OF l, of "\<lparr>chProvider = ''p'', chModel = ''m2'', chGlobal = False\<rparr>"]
    by (simp add: Let_def)
qed

text \<open>Whatever is applied was listed: the options on screen at some moment had the provider of the choice
  with its model.\<close>

interpretation sending: tracing "picker_start g" "picker_step mode" picker_enabled picker_inv
    "\<lambda>s (b, c). (b, c) \<in> set (pkSent s)"
    "\<lambda>s e (b, c). listed (pkProviders s) c \<or> map_option snd (pkPending s) = Some c"
  by unfold_locales (auto simp: picker_start_def dest: sent_by_step)

lemma picker_sends_listed_choices:
  assumes "legal_run picker_enabled (picker_step mode) (picker_start g) es"
    and "(b, c) \<in> set (pkSent (picker_run mode g es))"
  shows "\<exists>us vs. es = us @ vs \<and> listed (pkProviders (picker_run mode g us)) c"
  using assms
proof (induction "length es" arbitrary: es b rule: less_induct)
  case less
  from sending.traced [OF less.prems(1), of "(b, c)"] less.prems(2) obtain us e vs
    where us: "es = us @ e # vs"
      "listed (pkProviders (picker_run mode g us)) c \<or> map_option snd (pkPending (picker_run mode g us)) = Some c"
    by auto
  have legal: "legal_run picker_enabled (picker_step mode) (picker_start g) us"
    using less.prems(1) by (simp add: us(1) legal_run_append)
  show ?case
  proof (cases "listed (pkProviders (picker_run mode g us)) c")
    case True
    then show ?thesis using us(1) by blast
  next
    case False
    with us(2) have "map_option snd (pkPending (picker_run mode g us)) = Some c" by simp
    from warning.traced [OF legal this] obtain us' e' vs' k
      where us': "us = us' @ e' # vs'" "k < length (pkApplies (picker_run mode g us'))"
        "c = snd (pkApplies (picker_run mode g us') ! k)"
      by blast
    then have sent: "(fst (pkApplies (picker_run mode g us') ! k), c) \<in> set (pkSent (picker_run mode g us'))"
      using under_way_was_sent [of mode g us'] nth_mem by (metis prod.collapse subsetD)
    have "legal_run picker_enabled (picker_step mode) (picker_start g) us'" "length us' < length es"
      using legal by (simp_all add: us(1) us'(1) legal_run_append)
    from less.hyps [OF this(2,1) sent] show ?thesis
      using us(1) us'(1) by (metis append.assoc)
  qed
qed

section \<open>Closing while a choice is applied\<close>

text \<open>Escape, the cross and the backdrop close the dialog while a choice is applied, unlike the cancel
  button. A confirmation that the gateway then asks for is asked nowhere, and a success closes again.\<close>

lemma closed_dialog_asks_nothing:
  assumes "picker_enabled s e" "pkClosed s"
  shows "pkClosed (picker_step mode s e) \<and> pkSent (picker_step mode s e) = pkSent s"
  using assms
  by (cases e) (auto simp: options_answered_def apply_answered_def on_close_def Let_def split: sum.split)

lemma late_success_closes_again:
  "let s = picker_run StandaloneMode False
      [OptionsAnswered 0 (Inr sample_options), SelectModel ''m2'', PressSwitch, PressEscape,
       ApplyAnswered 0 (Inr \<lparr>aaRequired = False, aaMessage = None, aaWarning = None\<rparr>)]
   in pkCloses s = 2"
  by code_simp

text \<open>Escape in the warning closes the picker under it as well.\<close>

lemma escape_closes_both:
  "pkPending s = Some p \<Longrightarrow> pkPending (picker_step mode s PressEscape) = None \<and> pkClosed (picker_step mode s PressEscape)"
  by (simp add: on_close_def)

end
