(* ===== verification/Effort.thy ===== *)
theory Effort
  imports Nested
begin

text \<open>
  The reasoning effort of the main model: \<open>web/src/lib/reasoning-effort.ts\<close> (the levels and their
  normalisation) and \<open>web/src/components/ReasoningPicker.tsx\<close> (the picker, which loads the
  configuration and saves a level by reading the whole configuration and writing it back).
\<close>

section \<open>Levels\<close>

definition EFFORT_OPTIONS :: "(string \<times> string) list" where
  "EFFORT_OPTIONS =
     [(''none'', ''Off (no thinking)''), (''minimal'', ''Minimal''), (''low'', ''Low''), (''medium'', ''Medium''),
      (''high'', ''High''), (''xhigh'', ''Extra High''), (''max'', ''Max''), (''ultra'', ''Ultra'')]"

definition VALID_EFFORTS :: "string list" where
  "VALID_EFFORTS = map fst EFFORT_OPTIONS"

definition normalize_effort :: "js \<Rightarrow> string" where
  "normalize_effort raw =
     (let v = lower (trim (js_string (if raw = JUndef \<or> raw = JNull then JStr [] else raw)))
      in if v = [] then ''medium'' else if v \<in> set VALID_EFFORTS then v else ''medium'')"

section \<open>Reading and writing the configuration\<close>

text \<open>The own properties that \<open>{ ...v }\<close> copies.\<close>

definition indexed :: "js list \<Rightarrow> (string \<times> js) list" where
  "indexed vs = map (\<lambda>(i, v). (show_nat i, v)) (enumerate 0 vs)"

fun js_spread :: "js \<Rightarrow> (string \<times> js) list" where
  "js_spread (JObj ps) = ps"
| "js_spread (JArr vs) = indexed vs"
| "js_spread (JStr s) = indexed (map (\<lambda>c. JStr [c]) s)"
| "js_spread v = []"

text \<open>The effort of a loaded configuration; \<open>?? {}\<close> also reads nothing from other values.\<close>

definition effort_of_config :: "js \<Rightarrow> js" where
  "effort_of_config cfg = js_get (js_get cfg ''agent'') ''reasoning_effort''"

text \<open>The configuration that is saved for a level.\<close>

definition with_effort :: "string \<Rightarrow> js \<Rightarrow> js" where
  "with_effort next cfg =
     (let agent = (if is_object (js_get cfg ''agent'') then js_spread (js_get cfg ''agent'') else [])
      in JObj (obj_set ''agent'' (JObj (obj_set ''reasoning_effort'' (JStr next) agent)) (js_spread cfg)))"

section \<open>The picker\<close>

text \<open>\<open>efKey\<close> is the key of the last load, \<open>efLoads\<close> counts the loads under way, and \<open>efSave\<close> is the
  change under way: the level before, the chosen one, and the configuration once it is being written.
  \<open>efChanged\<close> lists the reported changes.\<close>

record effort_picker =
  efEffort :: string
  efLoaded :: bool
  efSaving :: bool
  efKey :: string
  efLoads :: nat
  efSave :: "(string \<times> string \<times> js option) option"
  efChanged :: "string list"

definition effort_start :: effort_picker where
  "effort_start = \<lparr>efEffort = ''medium'', efLoaded = False, efSaving = False, efKey = [], efLoads = 0, efSave = None, efChanged = []\<rparr>"

definition fetch_key :: "string option \<Rightarrow> string \<Rightarrow> nat \<Rightarrow> string" where
  "fetch_key profile model n = (case profile of None \<Rightarrow> [] | Some p \<Rightarrow> p) @ '':'' @ model @ '':'' @ show_nat n"

definition effort_effect :: "string option \<Rightarrow> string \<Rightarrow> nat \<Rightarrow> effort_picker \<Rightarrow> effort_picker" where
  "effort_effect profile model n s =
     (if fetch_key profile model n = efKey s then s
      else s\<lparr>efKey := fetch_key profile model n, efLoads := Suc (efLoads s)\<rparr>)"

definition effort_loaded :: "js option \<Rightarrow> effort_picker \<Rightarrow> effort_picker" where
  "effort_loaded r s =
     (let s1 = s\<lparr>efLoads := efLoads s - 1, efLoaded := True\<rparr>
      in case r of None \<Rightarrow> s1 | Some cfg \<Rightarrow> s1\<lparr>efEffort := normalize_effort (effort_of_config cfg)\<rparr>)"

definition effort_select :: "string \<Rightarrow> effort_picker \<Rightarrow> effort_picker" where
  "effort_select next s =
     (if next \<notin> set VALID_EFFORTS \<or> next = efEffort s then s
      else s\<lparr>efEffort := next, efSaving := True, efSave := Some (efEffort s, next, None)\<rparr>)"

text \<open>The answers of the two requests of a change; a failure of either goes back to the level before.\<close>

definition effort_read :: "js option \<Rightarrow> effort_picker \<Rightarrow> effort_picker" where
  "effort_read r s =
     (case efSave s of
        Some (prev, next, None) \<Rightarrow>
          (case r of
             None \<Rightarrow> s\<lparr>efEffort := prev, efSaving := False, efSave := None\<rparr>
           | Some cfg \<Rightarrow> s\<lparr>efSave := Some (prev, next, Some (with_effort next cfg))\<rparr>)
      | _ \<Rightarrow> s)"

definition effort_written :: "bool \<Rightarrow> effort_picker \<Rightarrow> effort_picker" where
  "effort_written ok s =
     (case efSave s of
        Some (prev, next, Some cfg) \<Rightarrow>
          (if ok then s\<lparr>efSaving := False, efSave := None, efChanged := efChanged s @ [next]\<rparr>
           else s\<lparr>efEffort := prev, efSaving := False, efSave := None\<rparr>)
      | _ \<Rightarrow> s)"

datatype effort_event =
    EffortProps "string option" string nat
  | EffortLoaded "js option"
  | EffortSelect string
  | EffortRead "js option"
  | EffortWritten bool

primrec effort_step :: "effort_picker \<Rightarrow> effort_event \<Rightarrow> effort_picker" where
  "effort_step s (EffortProps p m n) = effort_effect p m n s"
| "effort_step s (EffortLoaded r) = effort_loaded r s"
| "effort_step s (EffortSelect next) = effort_select next s"
| "effort_step s (EffortRead r) = effort_read r s"
| "effort_step s (EffortWritten ok) = effort_written ok s"

primrec effort_enabled :: "effort_picker \<Rightarrow> effort_event \<Rightarrow> bool" where
  "effort_enabled s (EffortProps p m n) = True"
| "effort_enabled s (EffortLoaded r) = (0 < efLoads s)"
| "effort_enabled s (EffortSelect next) = (efLoaded s \<and> \<not> efSaving s \<and> next \<in> set VALID_EFFORTS)"
| "effort_enabled s (EffortRead r) = (case efSave s of Some (prev, next, c) \<Rightarrow> c = None | None \<Rightarrow> False)"
| "effort_enabled s (EffortWritten ok) = (case efSave s of Some (prev, next, c) \<Rightarrow> c \<noteq> None | None \<Rightarrow> False)"

section \<open>Levels are always selectable\<close>

text \<open>Whatever value the configuration holds, its normalised level is one of the options of the picker.\<close>

lemma normalize_effort_valid: "normalize_effort raw \<in> set VALID_EFFORTS"
  by (auto simp: normalize_effort_def Let_def VALID_EFFORTS_def EFFORT_OPTIONS_def)

section \<open>Saving a level\<close>

lemma normalize_valid: "v \<in> set VALID_EFFORTS \<Longrightarrow> normalize_effort (JStr v) = v"
proof -
  have "\<forall>v\<in>set VALID_EFFORTS. normalize_effort (JStr v) = v" by code_simp
  then show "v \<in> set VALID_EFFORTS \<Longrightarrow> normalize_effort (JStr v) = v" by blast
qed

lemma js_get_Nil [simp]: "js_get (JObj []) k = JUndef"
  by simp

text \<open>Reading back what was saved gives the chosen level; every other key of the configuration, and
  every other key of its agent section, is saved with the value it was read with.\<close>

theorem effort_save_keeps_siblings:
  assumes "next \<in> set VALID_EFFORTS" "cfg = JObj ps" "js_get cfg ''agent'' \<in> {JUndef, JObj qs}"
  shows "normalize_effort (effort_of_config (with_effort next cfg)) = next
    \<and> (k \<noteq> ''agent'' \<longrightarrow> js_get (with_effort next cfg) k = js_get cfg k)
    \<and> (k \<noteq> ''reasoning_effort'' \<longrightarrow> js_get (js_get (with_effort next cfg) ''agent'') k = js_get (js_get cfg ''agent'') k)"
  using assms normalize_valid [OF assms(1)]
  by (auto simp: with_effort_def effort_of_config_def Let_def js_get_obj_set simp del: js_get.simps(1))

theorem effort_save_keeps_siblings_witness:
  "let cfg = JObj [(''model'', JStr ''m''), (''agent'', JObj [(''turns'', JNum 3), (''reasoning_effort'', JNull)])];
       saved = with_effort ''xhigh'' cfg
   in normalize_effort (effort_of_config saved) = ''xhigh'' \<and> js_get saved ''model'' = JStr ''m''
      \<and> js_get (js_get saved ''agent'') ''turns'' = JNum 3"
proof -
  have "''xhigh'' \<in> set VALID_EFFORTS" by code_simp
  note spec = effort_save_keeps_siblings [OF this refl,
      of "[(''model'', JStr ''m''), (''agent'', JObj [(''turns'', JNum 3), (''reasoning_effort'', JNull)])]"
         "[(''turns'', JNum 3), (''reasoning_effort'', JNull)]"]
  show ?thesis
    using spec [of "''model''"] spec [of "''turns''"] by (simp add: Let_def)
qed

section \<open>The picker's states\<close>

text \<open>The shown level is an option, and the picker is saving exactly while a change is under way.\<close>

definition effort_inv :: "effort_picker \<Rightarrow> bool" where
  "effort_inv s \<longleftrightarrow> efEffort s \<in> set VALID_EFFORTS \<and> (efSaving s \<longleftrightarrow> efSave s \<noteq> None)
     \<and> (case efSave s of None \<Rightarrow> True | Some (prev, next, c) \<Rightarrow> prev \<in> set VALID_EFFORTS \<and> next \<in> set VALID_EFFORTS)"

interpretation effort: machine effort_start effort_step effort_enabled effort_inv
proof unfold_locales
  show "effort_inv effort_start" by code_simp
  show "effort_inv (effort_step s e)" if "effort_inv s" "effort_enabled s e" for s e
  proof (cases e)
    case (EffortLoaded r)
    then show ?thesis
      using that normalize_effort_valid by (auto simp: effort_inv_def effort_loaded_def Let_def split: option.split)
  qed (use that in \<open>auto simp: effort_inv_def effort_effect_def effort_select_def effort_read_def effort_written_def
      split: option.splits prod.splits\<close>)
qed

text \<open>A load that is answered after the user chose a level shows the level of before, while the chosen
  one is saved.\<close>

lemma late_load_shows_old_effort:
  "let cfg = JObj [(''agent'', JObj [(''reasoning_effort'', JStr ''low'')])];
       s = foldl effort_step effort_start
             [EffortProps None ''m'' 0, EffortProps None ''m'' 1, EffortLoaded (Some cfg), EffortSelect ''high'',
              EffortRead (Some cfg), EffortLoaded (Some cfg), EffortWritten True]
   in efChanged s = [''high''] \<and> efEffort s = ''low'' \<and> efLoads s = 0 \<and> \<not> efSaving s"
  by code_simp

end
