(* ===== verification/FilesPage.thy ===== *)
theory FilesPage
  imports Format
begin

text \<open>
  The file browser, \<open>web/src/pages/FilesPage.tsx\<close>: the directory listing with its path field, the
  creation of folders, uploads by button or drop, downloads and deletions. Requests under way are kept
  in the state with what their handlers captured when they started; their answers are events.
\<close>

section \<open>Paths and sizes\<close>

definition is_slash :: "char \<Rightarrow> bool" where
  "is_slash c \<longleftrightarrow> c = CHR ''/'' \<or> c = CHR 0x5C"

definition join_path :: "string \<Rightarrow> string \<Rightarrow> string" where
  "join_path base name =
     (let clean = dropWhile is_slash (trim name);
          separator = (if CHR 0x5C \<in> set base \<and> CHR ''/'' \<notin> set base then CHR 0x5C else CHR ''/'')
      in if clean = [] then base
         else if base = [] \<or> is_slash (last base) then base @ clean
         else base @ separator # clean)"

definition file_size :: "nat option \<Rightarrow> string" where
  "file_size v =
     (case v of
        None \<Rightarrow> ''-''
      | Some n \<Rightarrow>
          if n < 1024 then show_nat n @ '' B''
          else if n < 1024 * 1024 then to_fixed 1 (of_nat n / 1024) @ '' KB''
          else if n < 1024 * 1024 * 1024 then to_fixed 1 (of_nat n / (1024 * 1024)) @ '' MB''
          else to_fixed 1 (of_nat n / (1024 * 1024 * 1024)) @ '' GB'')"

definition display_path :: "string option \<Rightarrow> string" where
  "display_path p = (let t = (case p of None \<Rightarrow> [] | Some s \<Rightarrow> trim s) in if t = [] then ''Files'' else t)"

section \<open>State\<close>

record file_entry =
  feName :: string
  fePath :: string
  feDirectory :: bool

record listing =
  liPath :: string
  liParent :: "string option"
  liEntries :: "file_entry list"
  liLockedRoot :: "string option"
  liCanChange :: bool

text \<open>A load is followed by the end of the operation that asked for it.\<close>

datatype load_by = ByPage | ByCreate | ByUpload | ByDelete

datatype file_call =
    ListDir "string option" | MakeDir string | UploadTo string | ReadFile string | DeletePath string bool

text \<open>\<open>fpLoads\<close> are the listings under way, \<open>fpCreate\<close> the path at the start of a creation that waits
  for its answer, and \<open>fpUpload\<close> of an upload the directory and path at its start, the names to come,
  the one under way first, and their number. \<open>fpDelete\<close> is the path at the start of a deletion,
  \<open>fpReads\<close> the files being read, \<open>fpSaved\<close> the names of the downloads, and \<open>fpSent\<close> all requests.\<close>

record fpage =
  fpPath :: "string option"
  fpInput :: string
  fpListing :: "listing option"
  fpLoading :: bool
  fpUploading :: bool
  fpDragging :: bool
  fpDepth :: nat
  fpCreating :: bool
  fpCreateOpen :: bool
  fpDeleting :: bool
  fpFolder :: string
  fpPending :: "file_entry option"
  fpError :: "string option"
  fpLoads :: "(string option \<times> load_by) list"
  fpCreate :: "(string option) option"
  fpUpload :: "(string \<times> string option \<times> string list \<times> nat) option"
  fpDelete :: "(string option) option"
  fpReads :: "file_entry list"
  fpSaved :: "string list"
  fpSent :: "file_call list"
  fpToasts :: "string list"

definition active_path :: "fpage \<Rightarrow> string" where
  "active_path s =
     (case fpListing s of
        Some l \<Rightarrow> liPath l
      | None \<Rightarrow> (case fpPath s of Some p \<Rightarrow> p | None \<Rightarrow> []))"

definition can_upload :: "fpage \<Rightarrow> bool" where
  "can_upload s \<longleftrightarrow> active_path s \<noteq> [] \<and> \<not> fpUploading s"

definition header_path :: "fpage \<Rightarrow> string" where
  "header_path s =
     display_path
       (case fpListing s of
          None \<Rightarrow> fpPath s
        | Some l \<Rightarrow> (case liLockedRoot l of Some r \<Rightarrow> Some r | None \<Rightarrow> Some (liPath l)))"

section \<open>Handlers\<close>

definition fp_toast :: "string \<Rightarrow> fpage \<Rightarrow> fpage" where
  "fp_toast m s = s\<lparr>fpToasts := fpToasts s @ [m]\<rparr>"

definition fp_send :: "file_call \<Rightarrow> fpage \<Rightarrow> fpage" where
  "fp_send c s = s\<lparr>fpSent := fpSent s @ [c]\<rparr>"

definition load_dir :: "string option \<Rightarrow> load_by \<Rightarrow> fpage \<Rightarrow> fpage" where
  "load_dir p by_op s =
     fp_send (ListDir p) (s\<lparr>fpLoading := True, fpError := None, fpLoads := fpLoads s @ [(p, by_op)]\<rparr>)"

text \<open>\<open>setCurrentPath\<close> with the effect that loads when the path changed.\<close>

definition set_path_loading :: "string option \<Rightarrow> fpage \<Rightarrow> fpage" where
  "set_path_loading p s = (if p = fpPath s then s else load_dir p ByPage (s\<lparr>fpPath := p\<rparr>))"

definition dir_loaded :: "nat \<Rightarrow> string + listing \<Rightarrow> fpage \<Rightarrow> fpage" where
  "dir_loaded k r s =
     (let op = snd (fpLoads s ! k);
          s1 = s\<lparr>fpLoads := take_out k (fpLoads s), fpLoading := False,
                 fpCreating := (if op = ByCreate then False else fpCreating s),
                 fpUploading := (if op = ByUpload then False else fpUploading s),
                 fpDeleting := (if op = ByDelete then False else fpDeleting s)\<rparr>
      in case r of
           Inl e \<Rightarrow> s1\<lparr>fpError := Some e\<rparr>
         | Inr l \<Rightarrow> set_path_loading (Some (liPath l)) (s1\<lparr>fpListing := Some l, fpInput := liPath l\<rparr>))"

definition open_directory :: "file_entry \<Rightarrow> fpage \<Rightarrow> fpage" where
  "open_directory e s = (if feDirectory e then set_path_loading (Some (fePath e)) s else s)"

definition go_to_path :: "fpage \<Rightarrow> fpage" where
  "go_to_path s =
     (if trim (fpInput s) = [] then fp_toast ''Path required'' s else load_dir (Some (trim (fpInput s))) ByPage s)"

definition create_directory :: "fpage \<Rightarrow> fpage" where
  "create_directory s =
     (if active_path s = [] then fp_toast ''Directory unavailable'' s
      else if trim (fpFolder s) = [] then fp_toast ''Folder name required'' s
      else fp_send (MakeDir (join_path (active_path s) (trim (fpFolder s))))
             (s\<lparr>fpCreating := True, fpCreate := Some (fpPath s)\<rparr>))"

definition directory_created :: "string option \<Rightarrow> fpage \<Rightarrow> fpage" where
  "directory_created failure s =
     (case fpCreate s of
        None \<Rightarrow> s
      | Some p \<Rightarrow>
          (case failure of
             Some e \<Rightarrow> fp_toast (''Create failed: '' @ e) (s\<lparr>fpCreate := None, fpCreating := False\<rparr>)
           | None \<Rightarrow>
               load_dir p ByCreate
                 (fp_toast ''Folder created'' (s\<lparr>fpCreate := None, fpFolder := [], fpCreateOpen := False\<rparr>))))"

text \<open>The files are sent one after the other; the directory is the one at the start.\<close>

definition upload_files :: "string list \<Rightarrow> fpage \<Rightarrow> fpage" where
  "upload_files names s =
     (case names of
        [] \<Rightarrow> s
      | n # ns \<Rightarrow>
          fp_send (UploadTo (join_path (active_path s) n))
            (s\<lparr>fpUploading := True, fpUpload := Some (active_path s, fpPath s, names, length names)\<rparr>))"

definition file_uploaded :: "string option \<Rightarrow> fpage \<Rightarrow> fpage" where
  "file_uploaded failure s =
     (case fpUpload s of
        None \<Rightarrow> s
      | Some (dir, p, names, count) \<Rightarrow>
          (case failure of
             Some e \<Rightarrow> fp_toast (''Upload failed: '' @ e) (s\<lparr>fpUpload := None, fpUploading := False\<rparr>)
           | None \<Rightarrow>
               (case tl names of
                  n # ns \<Rightarrow> fp_send (UploadTo (join_path dir n)) (s\<lparr>fpUpload := Some (dir, p, n # ns, count)\<rparr>)
                | [] \<Rightarrow>
                    load_dir p ByUpload
                      (fp_toast (show_nat count @ '' file'' @ (if count = 1 then [] else ''s'') @ '' uploaded'')
                        (s\<lparr>fpUpload := None\<rparr>)))))"

definition handle_drag_enter :: "bool \<Rightarrow> fpage \<Rightarrow> fpage" where
  "handle_drag_enter has_files s =
     (if \<not> can_upload s \<or> \<not> has_files then s else s\<lparr>fpDepth := Suc (fpDepth s), fpDragging := True\<rparr>)"

definition handle_drag_leave :: "bool \<Rightarrow> fpage \<Rightarrow> fpage" where
  "handle_drag_leave has_files s =
     (if \<not> can_upload s \<or> \<not> has_files then s
      else s\<lparr>fpDepth := fpDepth s - 1, fpDragging := (if fpDepth s - 1 = 0 then False else fpDragging s)\<rparr>)"

definition handle_drop :: "string list \<Rightarrow> fpage \<Rightarrow> fpage" where
  "handle_drop names s = (if \<not> can_upload s then s else upload_files names (s\<lparr>fpDepth := 0, fpDragging := False\<rparr>))"

definition download_file :: "file_entry \<Rightarrow> fpage \<Rightarrow> fpage" where
  "download_file e s =
     (if feDirectory e then s else fp_send (ReadFile (fePath e)) (s\<lparr>fpReads := fpReads s @ [e]\<rparr>))"

text \<open>The answer names the file; a link with that name, or \<open>download\<close>, is clicked.\<close>

definition file_read :: "nat \<Rightarrow> string + string \<Rightarrow> fpage \<Rightarrow> fpage" where
  "file_read k r s =
     (let s1 = s\<lparr>fpReads := take_out k (fpReads s)\<rparr>
      in case r of
           Inl e \<Rightarrow> fp_toast (''Download failed: '' @ e) s1
         | Inr name \<Rightarrow> s1\<lparr>fpSaved := fpSaved s @ [if name = [] then ''download'' else name]\<rparr>)"

definition confirm_delete :: "fpage \<Rightarrow> fpage" where
  "confirm_delete s =
     (case fpPending s of
        None \<Rightarrow> s
      | Some e \<Rightarrow> fp_send (DeletePath (fePath e) (feDirectory e)) (s\<lparr>fpDeleting := True, fpDelete := Some (fpPath s)\<rparr>))"

definition path_deleted :: "string option \<Rightarrow> fpage \<Rightarrow> fpage" where
  "path_deleted failure s =
     (case fpDelete s of
        None \<Rightarrow> s
      | Some p \<Rightarrow>
          (case failure of
             Some e \<Rightarrow> fp_toast (''Delete failed: '' @ e) (s\<lparr>fpDelete := None, fpDeleting := False\<rparr>)
           | None \<Rightarrow> load_dir p ByDelete (fp_toast ''Deleted'' (s\<lparr>fpDelete := None, fpPending := None\<rparr>))))"


section \<open>Events\<close>

definition files_start :: fpage where
  "files_start =
     load_dir None ByPage
       \<lparr>fpPath = None, fpInput = [], fpListing = None, fpLoading = False, fpUploading = False, fpDragging = False,
        fpDepth = 0, fpCreating = False, fpCreateOpen = False, fpDeleting = False, fpFolder = [], fpPending = None,
        fpError = None, fpLoads = [], fpCreate = None, fpUpload = None, fpDelete = None, fpReads = [], fpSaved = [],
        fpSent = [], fpToasts = []\<rparr>"

datatype files_event =
    Refresh | OpenDirectory file_entry | OpenParent | TypePath string | SubmitPath
  | OpenCreate bool | TypeFolder string | SubmitFolder | FolderAnswered "string option"
  | PickFiles "string list" | UploadAnswered "string option"
  | DragEnter bool | DragLeave bool | DropFiles "string list"
  | Download file_entry | ReadAnswered nat "string + string"
  | AskDelete "file_entry option" | ConfirmDelete | DeleteAnswered "string option"
  | DirAnswered nat "string + listing"

text \<open>\<open>setCurrentPath(listing.parent ?? undefined)\<close>; the row is there only for a parent that is not empty.\<close>

primrec files_step :: "fpage \<Rightarrow> files_event \<Rightarrow> fpage" where
  "files_step s Refresh = load_dir (fpPath s) ByPage s"
| "files_step s (OpenDirectory e) = open_directory e s"
| "files_step s OpenParent = (case fpListing s of None \<Rightarrow> s | Some l \<Rightarrow> set_path_loading (liParent l) s)"
| "files_step s (TypePath t) = s\<lparr>fpInput := t\<rparr>"
| "files_step s SubmitPath = go_to_path s"
| "files_step s (OpenCreate b) =
     (if fpCreating s then s else s\<lparr>fpCreateOpen := b, fpFolder := (if b then fpFolder s else [])\<rparr>)"
| "files_step s (TypeFolder t) = s\<lparr>fpFolder := t\<rparr>"
| "files_step s SubmitFolder = create_directory s"
| "files_step s (FolderAnswered r) = directory_created r s"
| "files_step s (PickFiles names) = upload_files names s"
| "files_step s (UploadAnswered r) = file_uploaded r s"
| "files_step s (DragEnter b) = handle_drag_enter b s"
| "files_step s (DragLeave b) = handle_drag_leave b s"
| "files_step s (DropFiles names) = handle_drop names s"
| "files_step s (Download e) = download_file e s"
| "files_step s (ReadAnswered k r) = file_read k r s"
| "files_step s (AskDelete e) = s\<lparr>fpPending := e\<rparr>"
| "files_step s ConfirmDelete = confirm_delete s"
| "files_step s (DeleteAnswered r) = path_deleted r s"
| "files_step s (DirAnswered k r) = dir_loaded k r s"

definition listed_entries :: "fpage \<Rightarrow> file_entry list" where
  "listed_entries s = (case fpListing s of None \<Rightarrow> [] | Some l \<Rightarrow> liEntries l)"

definition has_parent :: "fpage \<Rightarrow> bool" where
  "has_parent s \<longleftrightarrow> (case fpListing s of None \<Rightarrow> False | Some l \<Rightarrow> truthy_str (liParent l))"

definition path_form :: "fpage \<Rightarrow> bool" where
  "path_form s \<longleftrightarrow> (case fpListing s of None \<Rightarrow> False | Some l \<Rightarrow> liCanChange l)"

primrec files_enabled :: "fpage \<Rightarrow> files_event \<Rightarrow> bool" where
  "files_enabled s Refresh = (\<not> fpLoading s)"
| "files_enabled s (OpenDirectory e) = (e \<in> set (listed_entries s))"
| "files_enabled s OpenParent = has_parent s"
| "files_enabled s (TypePath t) = path_form s"
| "files_enabled s SubmitPath = path_form s"
| "files_enabled s (OpenCreate b) = (b \<longrightarrow> active_path s \<noteq> [])"
| "files_enabled s (TypeFolder t) = (fpCreateOpen s \<and> \<not> fpCreating s)"
| "files_enabled s SubmitFolder = (fpCreateOpen s \<and> \<not> fpCreating s)"
| "files_enabled s (FolderAnswered r) = (fpCreate s \<noteq> None)"
| "files_enabled s (PickFiles names) = can_upload s"
| "files_enabled s (UploadAnswered r) = (fpUpload s \<noteq> None)"
| "files_enabled s (DragEnter b) = True"
| "files_enabled s (DragLeave b) = True"
| "files_enabled s (DropFiles names) = True"
| "files_enabled s (Download e) = (e \<in> set (listed_entries s))"
| "files_enabled s (ReadAnswered k r) = (k < length (fpReads s))"
| "files_enabled s (AskDelete e) = (case e of None \<Rightarrow> True | Some x \<Rightarrow> x \<in> set (listed_entries s))"
| "files_enabled s ConfirmDelete = (fpPending s \<noteq> None \<and> \<not> fpDeleting s)"
| "files_enabled s (DeleteAnswered r) = (fpDelete s \<noteq> None)"
| "files_enabled s (DirAnswered k r) = (k < length (fpLoads s))"

abbreviation files_run :: "files_event list \<Rightarrow> fpage" where
  "files_run es \<equiv> foldl files_step files_start es"

lemmas files_defs = fp_toast_def fp_send_def load_dir_def set_path_loading_def dir_loaded_def open_directory_def go_to_path_def
  create_directory_def directory_created_def upload_files_def file_uploaded_def handle_drag_enter_def handle_drag_leave_def
  handle_drop_def download_file_def file_read_def confirm_delete_def path_deleted_def Let_def

section \<open>Paths\<close>

text \<open>What is joined stays textually below its base, and the part added starts with no separator.\<close>

lemma join_path_below:
  "\<exists>rest. join_path base name = base @ rest
     \<and> (rest = [] \<or> (\<exists>sep clean. rest = sep @ clean \<and> sep \<in> {[], [CHR ''/''], [CHR 0x5C]} \<and> clean \<noteq> []
          \<and> \<not> is_slash (hd clean) \<and> clean = dropWhile is_slash (trim name)))"
  using hd_dropWhile [of is_slash "trim name"] by (auto simp: join_path_def Let_def)

text \<open>The size just below a unit is printed as 1024 of the smaller unit.\<close>

lemma size_rounds_up_to_1024: "file_size (Some 1048575) = ''1024.0 KB''"
proof -
  have "fixed_units 1 (1048575 / 1024) = 10240"
    unfolding fixed_units_def by (simp add: floor_unique [where z = 10240])
  moreover have "show_nat 1024 = ''1024''" "show_nat 0 = ''0''" by code_simp+
  ultimately show ?thesis by (simp add: file_size_def to_fixed_def Let_def)
qed

section \<open>At rest\<close>

text \<open>The path of the page is that of the listing unless a load is under way or the last one failed;
  the flags of the three operations are up exactly while their request or its load is under way; and
  a drag is shown exactly while something is dragged over the area.\<close>

definition rest_inv :: "fpage \<Rightarrow> bool" where
  "rest_inv s \<longleftrightarrow>
     (fpLoads s = [] \<longrightarrow> fpError s = None \<longrightarrow> map_option liPath (fpListing s) = fpPath s \<and> fpListing s \<noteq> None)"

definition drag_inv :: "fpage \<Rightarrow> bool" where
  "drag_inv s \<longleftrightarrow> (fpDragging s \<longleftrightarrow> 0 < fpDepth s)"

definition running :: "load_by \<Rightarrow> bool \<Rightarrow> bool \<Rightarrow> fpage \<Rightarrow> bool" where
  "running op flag waiting s \<longleftrightarrow> (flag \<longrightarrow> waiting \<or> op \<in> snd ` set (fpLoads s))"

definition files_inv :: "fpage \<Rightarrow> bool" where
  "files_inv s \<longleftrightarrow> rest_inv s \<and> drag_inv s
     \<and> running ByCreate (fpCreating s) (fpCreate s \<noteq> None) s
     \<and> running ByUpload (fpUploading s) (fpUpload s \<noteq> None) s
     \<and> running ByDelete (fpDeleting s) (fpDelete s \<noteq> None) s"

lemma dir_loaded_inv:
  assumes "files_inv s" "k < length (fpLoads s)"
  shows "files_inv (dir_loaded k r s)"
proof -
  define rest where "rest = take_out k (fpLoads s)"
  have op: "op \<in> snd ` set rest" if "op \<in> snd ` set (fpLoads s)" "op \<noteq> snd (fpLoads s ! k)" for op
    using still_in_take_out [of op "map snd (fpLoads s)" k] assms(2) that by (simp add: rest_def flip: map_take_out)
  have drag: "drag_inv (dir_loaded k r s)"
    using assms(1) by (auto simp: files_inv_def drag_inv_def files_defs split: sum.split)
  have rest: "rest_inv (dir_loaded k r s)"
    by (auto simp: rest_inv_def files_defs split: sum.split)
  have "running ByCreate (fpCreating t) (fpCreate t \<noteq> None) t \<and> running ByUpload (fpUploading t) (fpUpload t \<noteq> None) t
      \<and> running ByDelete (fpDeleting t) (fpDelete t \<noteq> None) t" if t: "t = dir_loaded k r s" for t
  proof -
    have loads: "set rest \<subseteq> set (fpLoads t)" "fpCreate t = fpCreate s" "fpUpload t = fpUpload s" "fpDelete t = fpDelete s"
      "fpCreating t = (if snd (fpLoads s ! k) = ByCreate then False else fpCreating s)"
      "fpUploading t = (if snd (fpLoads s ! k) = ByUpload then False else fpUploading s)"
      "fpDeleting t = (if snd (fpLoads s ! k) = ByDelete then False else fpDeleting s)"
      unfolding t rest_def by (auto simp: files_defs split: sum.split)
    show ?thesis
      using assms(1) op loads unfolding files_inv_def running_def
      by (smt (verit, ccfv_SIG) image_mono subsetD)
  qed
  then show ?thesis using drag rest by (simp add: files_inv_def)
qed

lemma files_step_inv:
  assumes "files_inv s" "files_enabled s e"
  shows "files_inv (files_step s e)"
proof (cases e)
  case (DirAnswered k r)
  then show ?thesis using assms dir_loaded_inv by simp
next
  case (DropFiles names)
  then show ?thesis
    using assms by (cases names) (simp_all add: files_inv_def rest_inv_def drag_inv_def running_def files_defs)
next
  case (UploadAnswered r)
  then show ?thesis
    using assms by (auto simp: files_inv_def rest_inv_def drag_inv_def running_def files_defs
        split: option.split prod.split list.split)
next
  case (PickFiles names)
  then show ?thesis
    using assms by (cases names) (simp_all add: files_inv_def rest_inv_def drag_inv_def running_def files_defs)
qed (use assms in \<open>auto simp: files_inv_def rest_inv_def drag_inv_def running_def files_defs split: option.splits sum.splits\<close>)

interpretation files: machine files_start files_step files_enabled files_inv
  by unfold_locales (simp add: files_inv_def rest_inv_def drag_inv_def running_def files_start_def load_dir_def fp_send_def,
    rule files_step_inv)


text \<open>The file page at rest: when no listing is under way and none failed, the page shows a
  listing and its path is that listing's; and no operation is marked as running unless its request or
  the load after it is under way.\<close>

theorem files_page_at_rest:
  assumes "legal_run files_enabled files_step files_start es" and "fpLoads (files_run es) = []"
  shows "(fpError (files_run es) = None \<longrightarrow>
            (\<exists>l. fpListing (files_run es) = Some l \<and> fpPath (files_run es) = Some (liPath l)))
    \<and> (fpCreating (files_run es) \<longrightarrow> fpCreate (files_run es) \<noteq> None)
    \<and> (fpUploading (files_run es) \<longrightarrow> fpUpload (files_run es) \<noteq> None)
    \<and> (fpDeleting (files_run es) \<longrightarrow> fpDelete (files_run es) \<noteq> None)"
  using files.run_inv [OF assms(1)] assms(2)
  by (auto simp: files_inv_def rest_inv_def running_def)

definition sample_listing :: "string \<Rightarrow> listing" where
  "sample_listing p = \<lparr>liPath = p, liParent = Some ''/'',
     liEntries = [\<lparr>feName = ''a'', fePath = ''/a'', feDirectory = True\<rparr>, \<lparr>feName = ''b'', fePath = ''/b'', feDirectory = True\<rparr>],
     liLockedRoot = None, liCanChange = True\<rparr>"

definition sample_files_run :: "files_event list" where
  "sample_files_run =
     [DirAnswered 0 (Inr (sample_listing ''/x'')), DirAnswered 0 (Inr (sample_listing ''/x'')), OpenCreate True,
      TypeFolder ''new'', SubmitFolder, FolderAnswered None, DirAnswered 0 (Inr (sample_listing ''/x''))]"

theorem files_page_at_rest_witness:
  "let s = files_run sample_files_run
   in fpSent s = [ListDir None, ListDir (Some ''/x''), MakeDir ''/x/new'', ListDir (Some ''/x'')]
      \<and> (\<exists>l. fpListing s = Some l \<and> fpPath s = Some (liPath l)) \<and> \<not> fpCreating s"
proof -
  have legal: "legal_run files_enabled files_step files_start sample_files_run" by code_simp
  have rest: "fpLoads (files_run sample_files_run) = []" "fpError (files_run sample_files_run) = None"
    "fpCreate (files_run sample_files_run) = None"
    "fpSent (files_run sample_files_run) = [ListDir None, ListDir (Some ''/x''), MakeDir ''/x/new'', ListDir (Some ''/x'')]"
    by code_simp+
  show ?thesis using files_page_at_rest [OF legal rest(1)] rest by (simp add: Let_def)
qed

section \<open>Deletions\<close>

interpretation asking: tracing files_start files_step files_enabled files_inv
    "\<lambda>s x. fpPending s = Some x" "\<lambda>s e x. e = AskDelete (Some x) \<and> x \<in> set (listed_entries s)"
proof unfold_locales
  show "fpPending s = Some x \<or> e = AskDelete (Some x) \<and> x \<in> set (listed_entries s)"
    if "files_enabled s e" "fpPending (files_step s e) = Some x" for s e x
    using that by (cases e) (auto simp: files_defs split: option.splits if_splits sum.splits list.splits)
qed (simp add: files_start_def load_dir_def fp_send_def)

interpretation removing: tracing files_start files_step files_enabled files_inv
    "\<lambda>s (p, rec). DeletePath p rec \<in> set (fpSent s)"
    "\<lambda>s e (p, rec). e = ConfirmDelete \<and> (\<exists>x. fpPending s = Some x \<and> p = fePath x \<and> rec = feDirectory x)"
proof unfold_locales
  show "(case x of (p, rec) \<Rightarrow> DeletePath p rec \<in> set (fpSent s))
      \<or> (case x of (p, rec) \<Rightarrow> e = ConfirmDelete \<and> (\<exists>x. fpPending s = Some x \<and> p = fePath x \<and> rec = feDirectory x))"
    if "case x of (p, rec) \<Rightarrow> DeletePath p rec \<in> set (fpSent (files_step s e))" for s e x
    using that by (cases e) (auto simp: files_defs split: option.splits if_splits sum.splits list.splits prod.splits)
qed (auto simp: files_start_def load_dir_def fp_send_def)

text \<open>Claim C22. Only what the user asked to delete and confirmed is deleted: a deletion is sent only on
  the confirmation of the dialog, for the path of an entry that was on the list when the user asked, and
  recursively exactly for a directory.\<close>

theorem deletions_are_confirmed:
  assumes "legal_run files_enabled files_step files_start es"
    and "DeletePath p rec \<in> set (fpSent (files_run es))"
  shows "\<exists>us x vs ws. es = us @ AskDelete (Some x) # vs @ ConfirmDelete # ws \<and> x \<in> set (listed_entries (files_run us))
    \<and> fpPending (files_run (us @ AskDelete (Some x) # vs)) = Some x \<and> p = fePath x \<and> rec = feDirectory x"
proof -
  from removing.traced [OF assms(1), of "(p, rec)"] assms(2) obtain us ws x
    where us: "es = us @ ConfirmDelete # ws" "fpPending (files_run us) = Some x" "p = fePath x" "rec = feDirectory x"
    by auto
  have "legal_run files_enabled files_step files_start us"
    using assms(1) by (simp add: us(1) legal_run_append)
  from asking.traced [OF this us(2)] obtain us' vs
    where us': "us = us' @ AskDelete (Some x) # vs" "x \<in> set (listed_entries (files_run us'))"
    by blast
  show ?thesis
    using us us' by (intro exI [of _ us'] exI [of _ x] exI [of _ vs] exI [of _ ws]) simp
qed

definition sample_delete_run :: "files_event list" where
  "sample_delete_run =
     [DirAnswered 0 (Inr (sample_listing ''/x'')), AskDelete (Some \<lparr>feName = ''a'', fePath = ''/a'', feDirectory = True\<rparr>), ConfirmDelete]"

theorem deletions_are_confirmed_witness:
  "DeletePath ''/a'' True \<in> set (fpSent (files_run sample_delete_run))
   \<and> (\<exists>us x vs ws. sample_delete_run = us @ AskDelete (Some x) # vs @ ConfirmDelete # ws \<and> x \<in> set (listed_entries (files_run us))
    \<and> fpPending (files_run (us @ AskDelete (Some x) # vs)) = Some x \<and> ''/a'' = fePath x \<and> True = feDirectory x)"
proof -
  have l: "legal_run files_enabled files_step files_start sample_delete_run" by code_simp
  have s: "DeletePath ''/a'' True \<in> set (fpSent (files_run sample_delete_run))" by code_simp
  show ?thesis using s deletions_are_confirmed [OF l s] by blast
qed

section \<open>What the page does not settle\<close>

text \<open>Two listings under way for different directories, the second one's path being the page's: answered
  in order, each answer moves the page to its directory, which loads that directory again. The state is
  the same after both, so the page never comes to rest.\<close>

definition crossed :: "string \<Rightarrow> string \<Rightarrow> fpage \<Rightarrow> bool" where
  "crossed a b s \<longleftrightarrow> fpPath s = Some b \<and> fpLoads s = [(Some a, ByPage), (Some b, ByPage)]"

lemma crossed_again:
  assumes "crossed a b s" "a \<noteq> b" "liPath la = a" "liPath lb = b"
  shows "crossed a b (foldl files_step s [DirAnswered 0 (Inr la), DirAnswered 0 (Inr lb)])"
  using assms by (simp add: crossed_def files_defs)

lemma crossed_loads_never_settle:
  assumes "crossed a b s" "a \<noteq> b" "liPath la = a" "liPath lb = b"
  shows "crossed a b (foldl files_step s (concat (replicate n [DirAnswered 0 (Inr la), DirAnswered 0 (Inr lb)])))"
proof (induction n)
  case 0
  then show ?case using assms(1) by simp
next
  case (Suc n)
  let ?round = "[DirAnswered 0 (Inr la), DirAnswered 0 (Inr lb)]"
  have "concat (replicate (Suc n) ?round) = concat (replicate n ?round) @ ?round"
    by (simp flip: replicate_append_same)
  then show ?case
    using crossed_again [OF Suc assms(2-4)] by (simp only: foldl_append)
qed

lemma crossed_loads_happen:
  "crossed ''/a'' ''/b'' (files_run
     [DirAnswered 0 (Inr (sample_listing ''/x'')), DirAnswered 0 (Inr (sample_listing ''/x'')),
      OpenDirectory \<lparr>feName = ''a'', fePath = ''/a'', feDirectory = True\<rparr>,
      OpenDirectory \<lparr>feName = ''b'', fePath = ''/b'', feDirectory = True\<rparr>])"
  by code_simp

text \<open>The end of an upload loads the directory the page showed when it began, and takes the user back.\<close>

lemma upload_takes_user_back:
  assumes "fpUpload s = Some (dir, Some p, [n], 1)" "fpLoads s = []" "fpPath s = Some q" "liPath l = p"
  shows "fpPath (foldl files_step s [UploadAnswered None, DirAnswered 0 (Inr l)]) = Some p"
  using assms by (simp add: files_defs)

text \<open>A failure in the middle of several files ends the upload without a load, so the files already
  uploaded are not shown.\<close>

lemma failed_upload_is_not_reloaded:
  assumes "fpUpload s = Some (dir, p, n # m # ns, k)"
  shows "fpLoads (foldl files_step s [UploadAnswered None, UploadAnswered (Some e)]) = fpLoads s"
  using assms by (simp add: files_defs)

end
