(* ===== verification/OAuthLogin.thy ===== *)
theory OAuthLogin
  imports JsString
begin

text \<open>
  Signing in to a provider, \<open>web/src/components/OAuthLoginModal.tsx\<close>: the dialog starts a session of
  the gateway, counts down its life, and either polls for the approval of a device code or submits a
  pasted code. Requests under way and armed timers are part of the state, and their answers and ends
  are events.
\<close>

section \<open>State\<close>

datatype phase = Starting | AwaitingUser | Submitting | Polling | Approved | Failed

text \<open>\<open>OAuthStartResponse\<close>: session, address to open and life in seconds; a device flow has a code.\<close>

datatype oauth_flow = Pkce | DeviceCode string

record oauth_session =
  osId :: string
  osFlow :: oauth_flow
  osUrl :: string
  osExpires :: int

datatype poll_status = PollPending | PollApproved | PollOther string

datatype copy_status = CopyIdle | Copied | CopyFailed

text \<open>\<open>olStarts\<close> are the starts under way, each with whether it is a retry; \<open>olPolls\<close> and \<open>olSubmits\<close> the
  sessions polled or submitted to whose answers are to come; \<open>olClosing\<close> the closes that wait for their
  cancellation; \<open>olCloseTimers\<close> the armed timers that close the dialog. \<open>olCancelled\<close>, \<open>olOpened\<close>,
  \<open>olSuccesses\<close> and \<open>olCloses\<close> record the cancellations sent, the addresses opened, and the calls of
  \<open>onSuccess\<close> and \<open>onClose\<close>; upon the latter the parent takes the dialog away.\<close>

record oauth_modal =
  olPhase :: phase
  olStart :: "oauth_session option"
  olCode :: string
  olError :: "string option"
  olSeconds :: "int option"
  olCopy :: copy_status
  olCopyRef :: bool
  olMounted :: bool
  olStarts :: "bool list"
  olPolls :: "string list"
  olSubmits :: "string list"
  olCopies :: nat
  olCopyTimers :: nat
  olClosing :: nat
  olCloseTimers :: nat
  olCancelled :: "string list"
  olOpened :: "string list"
  olSuccesses :: nat
  olCloses :: nat

definition oauth_start :: oauth_modal where
  "oauth_start =
     \<lparr>olPhase = Starting, olStart = None, olCode = [], olError = None, olSeconds = None, olCopy = CopyIdle, olCopyRef = False,
      olMounted = True, olStarts = [False], olPolls = [], olSubmits = [], olCopies = 0, olCopyTimers = 0, olClosing = 0,
      olCloseTimers = 0, olCancelled = [], olOpened = [], olSuccesses = 0, olCloses = 0\<rparr>"

section \<open>Handlers\<close>

definition is_device :: "oauth_session \<Rightarrow> bool" where
  "is_device st \<longleftrightarrow> (case osFlow st of Pkce \<Rightarrow> False | DeviceCode c \<Rightarrow> True)"

definition fail_with :: "string \<Rightarrow> oauth_modal \<Rightarrow> oauth_modal" where
  "fail_with e s = s\<lparr>olPhase := Failed, olError := Some e\<rparr>"

definition succeed :: "oauth_modal \<Rightarrow> oauth_modal" where
  "succeed s = s\<lparr>olPhase := Approved, olSuccesses := Suc (olSuccesses s), olCloseTimers := Suc (olCloseTimers s)\<rparr>"

text \<open>The answer to a start, the first one or a retry.\<close>

definition login_started :: "nat \<Rightarrow> string + oauth_session \<Rightarrow> oauth_modal \<Rightarrow> oauth_modal" where
  "login_started k r s =
     (let retry = olStarts s ! k; s1 = s\<lparr>olStarts := take_out k (olStarts s)\<rparr>
      in if \<not> olMounted s then s1
         else (case r of
                 Inl e \<Rightarrow> fail_with ((if retry then ''Retry failed: '' else ''Failed to start login: '') @ e) s1
               | Inr st \<Rightarrow>
                   s1\<lparr>olStart := Some st, olSeconds := Some (osExpires st),
                      olPhase := (if is_device st then Polling else AwaitingUser),
                      olOpened := olOpened s @ [osUrl st]\<rparr>))"

text \<open>The second hand of the countdown, armed while there is a time left to show and no result.\<close>

definition counting :: "oauth_modal \<Rightarrow> bool" where
  "counting s \<longleftrightarrow> olMounted s \<and> olSeconds s \<noteq> None \<and> olPhase s \<noteq> Approved \<and> olPhase s \<noteq> Failed"

definition tick :: "oauth_modal \<Rightarrow> oauth_modal" where
  "tick s =
     (case olSeconds s of
        None \<Rightarrow> s
      | Some n \<Rightarrow> if n \<le> 1 then fail_with ''sessionExpired'' (s\<lparr>olSeconds := Some 0\<rparr>)
                  else s\<lparr>olSeconds := Some (n - 1)\<rparr>)"

text \<open>The two-second interval polls whether or not the former poll has been answered.\<close>

definition polling :: "oauth_modal \<Rightarrow> bool" where
  "polling s \<longleftrightarrow> olMounted s \<and> olPhase s = Polling \<and> (case olStart s of None \<Rightarrow> False | Some st \<Rightarrow> is_device st)"

definition poll :: "oauth_modal \<Rightarrow> oauth_modal" where
  "poll s = (case olStart s of None \<Rightarrow> s | Some st \<Rightarrow> s\<lparr>olPolls := olPolls s @ [osId st]\<rparr>)"

definition poll_message :: "string \<Rightarrow> string option \<Rightarrow> string" where
  "poll_message status msg = (case msg of Some (c # m) \<Rightarrow> c # m | _ \<Rightarrow> ''Login '' @ status)"

definition polled :: "nat \<Rightarrow> string + (poll_status \<times> string option) \<Rightarrow> oauth_modal \<Rightarrow> oauth_modal" where
  "polled k r s =
     (let s1 = s\<lparr>olPolls := take_out k (olPolls s)\<rparr>
      in if \<not> olMounted s then s1
         else (case r of
                 Inl e \<Rightarrow> fail_with (''Polling failed: '' @ e) s1
               | Inr (PollApproved, msg) \<Rightarrow> succeed s1
               | Inr (PollPending, msg) \<Rightarrow> s1
               | Inr (PollOther status, msg) \<Rightarrow> fail_with (poll_message status msg) s1))"

definition submit_code :: "oauth_modal \<Rightarrow> oauth_modal" where
  "submit_code s =
     (case olStart s of
        None \<Rightarrow> s
      | Some st \<Rightarrow>
          if is_device st \<or> trim (olCode s) = [] then s
          else s\<lparr>olPhase := Submitting, olError := None, olSubmits := olSubmits s @ [osId st]\<rparr>)"

definition submit_message :: "string option \<Rightarrow> string" where
  "submit_message msg = (case msg of Some (c # m) \<Rightarrow> c # m | _ \<Rightarrow> ''Token exchange failed'')"

text \<open>An answer is whether it is \<open>ok\<close> with the status \<open>approved\<close>, and its message.\<close>

definition code_submitted :: "nat \<Rightarrow> string + (bool \<times> string option) \<Rightarrow> oauth_modal \<Rightarrow> oauth_modal" where
  "code_submitted k r s =
     (let s1 = s\<lparr>olSubmits := take_out k (olSubmits s)\<rparr>
      in if \<not> olMounted s then s1
         else (case r of
                 Inl e \<Rightarrow> fail_with (''Submit failed: '' @ e) s1
               | Inr (approved, msg) \<Rightarrow> if approved then succeed s1 else fail_with (submit_message msg) s1))"

definition close_modal :: "oauth_modal \<Rightarrow> oauth_modal" where
  "close_modal s = s\<lparr>olCloses := Suc (olCloses s), olMounted := False\<rparr>"

definition handle_close :: "oauth_modal \<Rightarrow> oauth_modal" where
  "handle_close s =
     (case olStart s of
        Some st \<Rightarrow>
          if olPhase s \<noteq> Approved \<and> olPhase s \<noteq> Failed
          then s\<lparr>olCancelled := olCancelled s @ [osId st], olClosing := Suc (olClosing s)\<rparr>
          else close_modal s
      | None \<Rightarrow> close_modal s)"

definition handle_retry :: "oauth_modal \<Rightarrow> oauth_modal" where
  "handle_retry s =
     s\<lparr>olCancelled := olCancelled s @ (case olStart s of None \<Rightarrow> [] | Some st \<Rightarrow> if osId st = [] then [] else [osId st]),
       olError := None, olStart := None, olCode := [], olPhase := Starting, olStarts := olStarts s @ [True]\<rparr>"

definition copy_code :: "oauth_modal \<Rightarrow> oauth_modal" where
  "copy_code s =
     (let s1 = (if olCopyRef s then s\<lparr>olCopyRef := False, olCopyTimers := olCopyTimers s - 1\<rparr> else s)
      in s1\<lparr>olCopies := Suc (olCopies s)\<rparr>)"

definition code_copied :: "bool \<Rightarrow> oauth_modal \<Rightarrow> oauth_modal" where
  "code_copied ok s =
     (let s1 = s\<lparr>olCopies := olCopies s - 1\<rparr>
      in if \<not> olMounted s then s1
         else s1\<lparr>olCopy := (if ok then Copied else CopyFailed), olCopyRef := True, olCopyTimers := Suc (olCopyTimers s)\<rparr>)"

definition fmt_time :: "nat option \<Rightarrow> string" where
  "fmt_time v =
     (case v of
        None \<Rightarrow> []
      | Some n \<Rightarrow> show_nat (n div 60) @ '':'' @ (let r = show_nat (n mod 60) in replicate (2 - length r) (CHR ''0'') @ r))"

section \<open>Events\<close>

datatype oauth_event =
    LoginStarted nat "string + oauth_session"
  | Tick | PollTick
  | Polled nat "string + (poll_status \<times> string option)"
  | TypeCode string | SubmitCode
  | CodeSubmitted nat "string + (bool \<times> string option)"
  | Close | CancelSettled | CloseTimer | Retry
  | CopyCode | CodeCopied bool | CopyTimer

primrec oauth_step :: "oauth_modal \<Rightarrow> oauth_event \<Rightarrow> oauth_modal" where
  "oauth_step s (LoginStarted k r) = login_started k r s"
| "oauth_step s Tick = tick s"
| "oauth_step s PollTick = poll s"
| "oauth_step s (Polled k r) = polled k r s"
| "oauth_step s (TypeCode t) = s\<lparr>olCode := t\<rparr>"
| "oauth_step s SubmitCode = submit_code s"
| "oauth_step s (CodeSubmitted k r) = code_submitted k r s"
| "oauth_step s Close = handle_close s"
| "oauth_step s CancelSettled = close_modal (s\<lparr>olClosing := olClosing s - 1\<rparr>)"
| "oauth_step s CloseTimer =
     (let s1 = s\<lparr>olCloseTimers := olCloseTimers s - 1\<rparr> in if olMounted s then close_modal s1 else s1)"
| "oauth_step s Retry = handle_retry s"
| "oauth_step s CopyCode = copy_code s"
| "oauth_step s (CodeCopied ok) = code_copied ok s"
| "oauth_step s CopyTimer =
     s\<lparr>olCopyTimers := olCopyTimers s - 1, olCopy := (if olMounted s then CopyIdle else olCopy s), olCopyRef := False\<rparr>"

primrec oauth_enabled :: "oauth_modal \<Rightarrow> oauth_event \<Rightarrow> bool" where
  "oauth_enabled s (LoginStarted k r) = (k < length (olStarts s))"
| "oauth_enabled s Tick = counting s"
| "oauth_enabled s PollTick = polling s"
| "oauth_enabled s (Polled k r) = (k < length (olPolls s))"
| "oauth_enabled s (TypeCode t) = (olMounted s \<and> olPhase s = AwaitingUser)"
| "oauth_enabled s SubmitCode = (olMounted s \<and> olPhase s = AwaitingUser)"
| "oauth_enabled s (CodeSubmitted k r) = (k < length (olSubmits s))"
| "oauth_enabled s Close = olMounted s"
| "oauth_enabled s CancelSettled = (0 < olClosing s)"
| "oauth_enabled s CloseTimer = (0 < olCloseTimers s)"
| "oauth_enabled s Retry = (olMounted s \<and> olPhase s = Failed)"
| "oauth_enabled s CopyCode = (olMounted s \<and> polling s)"
| "oauth_enabled s (CodeCopied ok) = (0 < olCopies s)"
| "oauth_enabled s CopyTimer = (0 < olCopyTimers s)"

abbreviation oauth_run :: "oauth_event list \<Rightarrow> oauth_modal" where
  "oauth_run es \<equiv> foldl oauth_step oauth_start es"

lemmas oauth_defs = fail_with_def succeed_def login_started_def tick_def poll_def polled_def submit_code_def
  code_submitted_def close_modal_def handle_close_def handle_retry_def copy_code_def code_copied_def Let_def

section \<open>The dialog never stalls\<close>

text \<open>What each phase rests on: a start under way, a session of the flow, a submission under way, or a
  message.\<close>

definition oauth_inv :: "oauth_modal \<Rightarrow> bool" where
  "oauth_inv s \<longleftrightarrow> (olMounted s \<longrightarrow>
     (case olPhase s of
        Starting \<Rightarrow> olStarts s \<noteq> []
      | AwaitingUser \<Rightarrow> (case olStart s of None \<Rightarrow> False | Some st \<Rightarrow> \<not> is_device st)
      | Submitting \<Rightarrow> olSubmits s \<noteq> []
      | Polling \<Rightarrow> (case olStart s of None \<Rightarrow> False | Some st \<Rightarrow> is_device st)
      | Approved \<Rightarrow> 0 < olSuccesses s
      | Failed \<Rightarrow> olError s \<noteq> None))"

lemma oauth_step_inv:
  assumes "oauth_inv s" "oauth_enabled s e"
  shows "oauth_inv (oauth_step s e)"
  using assms
  by (cases e; cases "olPhase s")
    (auto simp: oauth_inv_def oauth_defs counting_def polling_def split: option.splits sum.splits prod.splits poll_status.splits if_splits)

interpretation oauth: machine oauth_start oauth_step oauth_enabled oauth_inv
  by unfold_locales (simp add: oauth_inv_def oauth_start_def, rule oauth_step_inv)

text \<open>Claim C23. The sign-in dialog never stalls: while it is open, the spinner of the start is shown only
  with a start under way, the one of the submission only with a submission under way, the code field and
  the poll only with a session of their flow, and every failure with its message.\<close>

theorem login_never_stalls:
  assumes "legal_run oauth_enabled oauth_step oauth_start es" and "olMounted (oauth_run es)"
  shows "(olPhase (oauth_run es) = Starting \<longrightarrow> olStarts (oauth_run es) \<noteq> [])
    \<and> (olPhase (oauth_run es) = Submitting \<longrightarrow> olSubmits (oauth_run es) \<noteq> [])
    \<and> (olPhase (oauth_run es) = AwaitingUser \<longrightarrow> (\<exists>st. olStart (oauth_run es) = Some st \<and> \<not> is_device st))
    \<and> (olPhase (oauth_run es) = Polling \<longrightarrow> polling (oauth_run es))
    \<and> (olPhase (oauth_run es) = Failed \<longrightarrow> olError (oauth_run es) \<noteq> None)"
  using oauth.run_inv [OF assms(1)] assms(2)
  by (auto simp: oauth_inv_def polling_def split: option.splits)

definition device_session :: oauth_session where
  "device_session = \<lparr>osId = ''s1'', osFlow = DeviceCode ''ABCD'', osUrl = ''https://x'', osExpires = 600\<rparr>"

theorem login_never_stalls_witness:
  "olPhase (oauth_run [LoginStarted 0 (Inr device_session)]) = Polling \<and> polling (oauth_run [LoginStarted 0 (Inr device_session)])"
proof -
  have "legal_run oauth_enabled oauth_step oauth_start [LoginStarted 0 (Inr device_session)]"
    "olMounted (oauth_run [LoginStarted 0 (Inr device_session)])"
    "olPhase (oauth_run [LoginStarted 0 (Inr device_session)]) = Polling"
    by code_simp+
  with login_never_stalls [of "[LoginStarted 0 (Inr device_session)]"] show ?thesis by simp
qed

section \<open>Success\<close>

primrec approves :: "oauth_event \<Rightarrow> bool" where
  "approves (LoginStarted k r) = False"
| "approves Tick = False"
| "approves PollTick = False"
| "approves (Polled k r) = (case r of Inl e \<Rightarrow> False | Inr (st, msg) \<Rightarrow> st = PollApproved)"
| "approves (TypeCode t) = False"
| "approves SubmitCode = False"
| "approves (CodeSubmitted k r) = (case r of Inl e \<Rightarrow> False | Inr (ok, msg) \<Rightarrow> ok)"
| "approves Close = False"
| "approves CancelSettled = False"
| "approves CloseTimer = False"
| "approves Retry = False"
| "approves CopyCode = False"
| "approves (CodeCopied ok) = False"
| "approves CopyTimer = False"

lemma success_step:
  "olSuccesses (oauth_step s e) = olSuccesses s + (if approves e \<and> olMounted s then 1 else 0)"
  by (cases e) (auto simp: oauth_defs split: option.splits sum.splits prod.splits poll_status.splits)

lemma unmounted_step:
  assumes "\<not> olMounted s" "oauth_enabled s e"
  shows "\<not> olMounted (oauth_step s e) \<and> olOpened (oauth_step s e) = olOpened s \<and> olPhase (oauth_step s e) = olPhase s
    \<and> olCancelled (oauth_step s e) = olCancelled s"
  using assms by (cases e) (auto simp: oauth_defs counting_def polling_def split: option.splits sum.splits prod.splits poll_status.splits)

text \<open>Success is reported once for every approving answer that comes while the dialog is open, and for
  nothing else; once it is closed, no address is opened and nothing on it changes.\<close>

lemma successes_are_approvals:
  "olSuccesses (foldl oauth_step s es) \<le> olSuccesses s + length (filter approves es)"
proof (induction es arbitrary: s)
  case (Cons e es)
  show ?case using Cons [of "oauth_step s e"] success_step [of s e] by (simp split: if_splits)
qed simp

lemma closed_stays_closed:
  assumes "\<not> olMounted s" "legal_run oauth_enabled oauth_step s es"
  shows "\<not> olMounted (foldl oauth_step s es) \<and> olOpened (foldl oauth_step s es) = olOpened s
    \<and> olSuccesses (foldl oauth_step s es) = olSuccesses s"
  using assms by (induction es arbitrary: s) (simp_all add: unmounted_step success_step)

section \<open>Late answers\<close>

text \<open>A poll that is under way when another one is approved can fail, since the gateway has ended the
  session: the dialog then shows an error over a login that succeeded. If it is approved too, success is
  reported twice.\<close>

lemma late_poll_hides_success:
  "let s = oauth_run [LoginStarted 0 (Inr device_session), PollTick, PollTick, Polled 0 (Inr (PollApproved, None)),
                      Polled 0 (Inl ''HTTP 404'')]
   in olSuccesses s = 1 \<and> olPhase s = Failed"
  by code_simp

lemma late_poll_succeeds_twice:
  "olSuccesses (oauth_run [LoginStarted 0 (Inr device_session), PollTick, PollTick, Polled 0 (Inr (PollApproved, None)),
                           Polled 0 (Inr (PollApproved, None))]) = 2"
  by code_simp

text \<open>A retry keeps the seconds left: after an expiry they are none, and the countdown fails the new start
  within a second.\<close>

lemma retry_after_expiry_expires:
  assumes "olPhase s = Failed" "olSeconds s = Some 0" "olMounted s"
  shows "counting (oauth_step s Retry) \<and> olPhase (foldl oauth_step s [Retry, Tick]) = Failed
    \<and> olStarts (foldl oauth_step s [Retry, Tick]) = olStarts s @ [True]"
  using assms by (simp add: handle_retry_def counting_def tick_def fail_with_def)

text \<open>Closing before the start is answered cancels nothing, now or later: the session stays with the
  gateway.\<close>

lemma early_close_leaves_session:
  "let s = oauth_run [Close, LoginStarted 0 (Inr device_session)] in \<not> olMounted s \<and> olCancelled s = [] \<and> olStarts s = []"
  by code_simp

end
