(* ===== verification/ChatHelpers.thy ===== *)
theory ChatHelpers
  imports ApiRoutes
begin

text \<open>
  Small helpers of the chat: \<open>web/src/lib/chatImagePaste.ts\<close> (the images of a paste or a drop and
  their upload), \<open>web/src/lib/clipboard.ts\<close> (copying text with a fallback),
  \<open>web/src/lib/gatewayClient.ts\<close> (the guard of a connection), \<open>web/src/lib/chat-title.ts\<close>,
  \<open>web/src/lib/resolve-page-title.ts\<close> and \<open>web/src/lib/dashboard-modal-shell.ts\<close>.
\<close>

section \<open>Images of a paste or a drop\<close>

record image_file =
  imName :: string
  imType :: string
  imSize :: nat
  imModified :: int

record transfer_item =
  tiKind :: string
  tiType :: string
  tiFile :: "image_file option"

record transfer =
  trItems :: "transfer_item list"
  trFiles :: "image_file list"

definition IMAGE_MIME_EXT :: "(string \<times> string) list" where
  "IMAGE_MIME_EXT =
     [(''image/png'', ''png''), (''image/jpeg'', ''jpg''), (''image/gif'', ''gif''), (''image/webp'', ''webp''), (''image/bmp'', ''bmp'')]"

definition MAX_IMAGE_BYTES :: nat where
  "MAX_IMAGE_BYTES = 25 * 1024 * 1024"

definition image_file_key :: "image_file \<Rightarrow> string" where
  "image_file_key f = imName f @ CHR 0x00 # imType f @ CHR 0x00 # show_nat (imSize f) @ CHR 0x00 # show_int (imModified f)"

definition is_image :: "image_file \<Rightarrow> bool" where
  "is_image f \<longleftrightarrow> starts_with (imType f) ''image/''"

definition add_image_file :: "image_file option \<Rightarrow> image_file list \<times> string list \<Rightarrow> image_file list \<times> string list" where
  "add_image_file fo acc =
     (case fo of
        None \<Rightarrow> acc
      | Some f \<Rightarrow>
          if \<not> is_image f then acc
          else if image_file_key f \<in> set (snd acc) then acc
          else (fst acc @ [f], snd acc @ [image_file_key f]))"

definition image_item :: "transfer_item \<Rightarrow> bool" where
  "image_item i \<longleftrightarrow> tiKind i = ''file'' \<and> starts_with (tiType i) ''image/''"

definition image_files_from_transfer :: "transfer option \<Rightarrow> image_file list" where
  "image_files_from_transfer d =
     (case d of
        None \<Rightarrow> []
      | Some t \<Rightarrow>
          fst (fold (\<lambda>f. add_image_file (Some f)) (trFiles t)
            (fold (\<lambda>i acc. if image_item i then add_image_file (tiFile i) acc else acc) (trItems t) ([], []))))"

definition first_image_from_clipboard :: "transfer option \<Rightarrow> image_file option" where
  "first_image_from_clipboard d = (case image_files_from_transfer d of [] \<Rightarrow> None | f # fs \<Rightarrow> Some f)"

definition transfer_may_contain_image :: "transfer option \<Rightarrow> bool" where
  "transfer_may_contain_image d =
     (case d of
        None \<Rightarrow> False
      | Some t \<Rightarrow>
          if trItems t \<noteq> []
          then list_ex (\<lambda>i. tiKind i = ''file'' \<and> (tiType i = [] \<or> starts_with (tiType i) ''image/'')) (trItems t)
          else list_ex is_image (trFiles t))"

section \<open>The upload of an image\<close>

text \<open>A blob of the clipboard; a file has a name.\<close>

record image_blob =
  ibSize :: nat
  ibType :: string
  ibName :: "string option"

definition upload_filename :: "image_blob \<Rightarrow> string" where
  "upload_filename b =
     (let mime = (if ibType b = [] then ''image/png'' else ibType b);
          ext = (case map_of IMAGE_MIME_EXT mime of None \<Rightarrow> ''png'' | Some e \<Rightarrow> e)
      in if truthy_str (ibName b) then the (ibName b) else ''clipboard.'' @ ext)"

definition image_upload_request :: "string \<Rightarrow> image_blob \<Rightarrow> string \<Rightarrow> api_request" where
  "image_upload_request profile b data_url =
     json_call ''POST''
       (''/api/chat/image-upload'' @ (if profile = [] then [] else ''?profile='' @ encodeURIComponent profile))
       (JObj [(''data_url'', JStr data_url), (''filename'', JStr (upload_filename b))])"

text \<open>\<open>reader\<close> is the end of the file reader and \<open>net\<close> what \<open>authedFetch\<close> answers to a request.\<close>

definition upload_chat_image ::
  "string + string \<Rightarrow> (api_request \<Rightarrow> string + response) \<Rightarrow> string \<Rightarrow> image_blob \<Rightarrow> string + js" where
  "upload_chat_image reader net profile b =
     (if ibSize b = 0 then Inl ''clipboard image is empty''
      else if ibSize b > MAX_IMAGE_BYTES then Inl ''image too large (max 25 MB)''
      else (case reader of
              Inl e \<Rightarrow> Inl e
            | Inr data_url \<Rightarrow>
                (case net (image_upload_request profile b data_url) of
                   Inl e \<Rightarrow> Inl e
                 | Inr r \<Rightarrow>
                     if \<not> resp_ok r then
                       (let t = (case respText r of None \<Rightarrow> respStatusText r | Some t \<Rightarrow> t)
                        in Inl (if t = [] then ''HTTP '' @ show_nat (respStatus r) else t))
                     else (case respJson r of
                             None \<Rightarrow> Inl ''SyntaxError''
                           | Some v \<Rightarrow> if truthy (js_get v ''path'') then Inr v else Inl ''image upload did not return a path''))))"

section \<open>Copying\<close>

text \<open>Of the document, the children of the body and the ranges of the selection, if there is one.\<close>

record copy_doc =
  cdBody :: "string list"
  cdRanges :: "string list option"
  cdClipboard :: string

text \<open>The result of \<open>execCommand\<close>, none when it throws; a successful one copies the selected text.\<close>

definition exec_copy :: "string \<Rightarrow> bool option \<Rightarrow> copy_doc \<Rightarrow> bool \<times> copy_doc" where
  "exec_copy t r d = (case r of Some True \<Rightarrow> (True, d\<lparr>cdClipboard := t\<rparr>) | _ \<Rightarrow> (False, d))"

text \<open>Selecting the text area may change the ranges of the document's selection to \<open>during\<close>.\<close>

definition copy_by_selection :: "string list \<Rightarrow> bool option \<Rightarrow> string \<Rightarrow> copy_doc \<Rightarrow> bool \<times> copy_doc" where
  "copy_by_selection during r t d =
     (let d1 = d\<lparr>cdBody := cdBody d @ [''textarea'']\<rparr>;
          saved = cdRanges d1;
          d2 = d1\<lparr>cdRanges := map_option (\<lambda>_. during) (cdRanges d1)\<rparr>;
          (copied, d3) = exec_copy t r d2;
          d4 = d3\<lparr>cdBody := butlast (cdBody d3)\<rparr>
      in (copied, d4\<lparr>cdRanges := saved\<rparr>))"

text \<open>\<open>write\<close> is what \<open>clipboard.writeText\<close> does, if there is one; without a document nothing else is tried.\<close>

definition copy_text_to_clipboard ::
  "bool \<Rightarrow> bool option \<Rightarrow> string list \<Rightarrow> bool option \<Rightarrow> string \<Rightarrow> copy_doc option \<Rightarrow> bool \<times> copy_doc option" where
  "copy_text_to_clipboard secure write during r t d =
     (if secure \<and> write = Some True then (True, map_option (\<lambda>x. x\<lparr>cdClipboard := t\<rparr>) d)
      else (case d of
              None \<Rightarrow> (False, None)
            | Some x \<Rightarrow> (case copy_by_selection during r t x of (ok, y) \<Rightarrow> (ok, Some y))))"

section \<open>Connecting\<close>

text \<open>What \<open>connect\<close> does: nothing when connected, an error without a credential, or the connection of the
  shared client with the authentication parameter.\<close>

datatype connect_outcome = AlreadyConnected | NoToken | ConnectWith "string \<times> string"

definition gateway_connect :: "string \<Rightarrow> string option \<Rightarrow> string \<times> string \<Rightarrow> connect_outcome" where
  "gateway_connect state token auth =
     (if state = ''open'' \<or> state = ''connecting'' then AlreadyConnected
      else (let p = (if truthy_str token then (''token'', the token) else auth)
            in if snd p = [] then NoToken else ConnectWith p))"

section \<open>Titles\<close>

definition normalize_session_title :: "js \<Rightarrow> string option" where
  "normalize_session_title raw =
     (case raw of JStr s \<Rightarrow> if trim s = [] then None else Some (trim s) | _ \<Rightarrow> None)"

text \<open>No title in the payload is different from an empty one.\<close>

definition title_from_session_info_payload :: "js \<Rightarrow> string option option" where
  "title_from_session_info_payload payload =
     (case payload of
        JObj ps \<Rightarrow> (case map_of ps ''title'' of None \<Rightarrow> None | Some v \<Rightarrow> Some (normalize_session_title v))
      | _ \<Rightarrow> None)"

definition BUILTIN_PAGES :: "(string \<times> string) list" where
  "BUILTIN_PAGES =
     [(''/chat'', ''chat''), (''/sessions'', ''sessions''), (''/analytics'', ''analytics''), (''/models'', ''models''),
      (''/logs'', ''logs''), (''/cron'', ''cron''), (''/skills'', ''skills''), (''/plugins'', ''plugins''),
      (''/profiles'', ''profiles''), (''/config'', ''config''), (''/env'', ''keys''), (''/docs'', ''documentation'')]"

text \<open>\<open>nav\<close> translates the names of the pages; \<open>web_ui\<close> is the name of the application.\<close>

definition resolve_page_title :: "(string \<Rightarrow> string) \<Rightarrow> string \<Rightarrow> (string \<times> string) list \<Rightarrow> string \<Rightarrow> string" where
  "resolve_page_title nav web_ui plugin_tabs pathname =
     (let stripped = (if pathname \<noteq> [] \<and> last pathname = CHR ''/'' then butlast pathname else pathname);
          normalized = (if stripped = [] then ''/'' else stripped)
      in if normalized = ''/'' then nav ''sessions''
         else (case find (\<lambda>p. fst p = normalized) plugin_tabs of
                 Some p \<Rightarrow> snd p
               | None \<Rightarrow>
                   (case map_of BUILTIN_PAGES normalized of
                      Some key \<Rightarrow> nav key
                    | None \<Rightarrow>
                        (case tl normalized of
                           [] \<Rightarrow> web_ui
                         | c # cs \<Rightarrow> upper_char c @ cs))))"

definition should_close_outer_modal_on_escape :: "bool \<Rightarrow> bool" where
  "should_close_outer_modal_on_escape nested = (\<not> nested)"

section \<open>The images found\<close>

text \<open>The candidates in order: the files of the image items, then the files.\<close>

definition image_candidates :: "transfer \<Rightarrow> image_file list" where
  "image_candidates t =
     filter is_image (List.map_filter (\<lambda>i. if image_item i then tiFile i else None) (trItems t) @ trFiles t)"

definition collected :: "image_file list \<times> string list \<Rightarrow> image_file list \<Rightarrow> bool" where
  "collected acc seen \<longleftrightarrow> snd acc = map image_file_key (fst acc) \<and> distinct (snd acc)
     \<and> set (snd acc) = image_file_key ` set seen \<and> subseq (fst acc) seen"

lemma collected_add:
  "collected acc seen \<Longrightarrow> collected (add_image_file (Some f) acc) (if is_image f then seen @ [f] else seen)"
  by (auto simp: collected_def add_image_file_def intro: list_emb_append_mono subseq_append' split: prod.splits)


lemma collected_option:
  "collected acc seen \<Longrightarrow> collected (add_image_file fo acc) (seen @ filter is_image (case fo of None \<Rightarrow> [] | Some f \<Rightarrow> [f]))"
proof (cases fo)
  case None
  then show "collected acc seen \<Longrightarrow> ?thesis" by (simp add: add_image_file_def)
next
  case (Some f)
  then show "collected acc seen \<Longrightarrow> ?thesis" using collected_add [of acc seen f] by (simp split: if_splits)
qed

lemma collected_items:
  "collected acc seen \<Longrightarrow>
     collected (fold (\<lambda>i acc. if image_item i then add_image_file (tiFile i) acc else acc) is acc)
       (seen @ filter is_image (List.map_filter (\<lambda>i. if image_item i then tiFile i else None) is))"
proof (induction "is" arbitrary: acc seen)
  case Nil
  then show ?case by (simp add: map_filter_simps)
next
  case (Cons i "is")
  show ?case
    using Cons.IH [OF collected_option [OF Cons.prems, of "tiFile i"]] Cons.IH [OF Cons.prems]
    by (cases "tiFile i") (auto simp: map_filter_simps)
qed

lemma collected_files:
  "collected acc seen \<Longrightarrow> collected (fold (\<lambda>f. add_image_file (Some f)) fs acc) (seen @ filter is_image fs)"
proof (induction fs arbitrary: acc seen)
  case (Cons f fs)
  show ?case using Cons.IH [OF collected_option [OF Cons.prems, of "Some f"]] by (simp split: if_splits)
qed simp

text \<open>The images of a paste or a drop, which lists a file among its items and again among its
  files: each image is taken once, in the order of the candidates, none is lost and nothing but an
  image is taken.\<close>

theorem pasted_images_once:
  "subseq (image_files_from_transfer (Some t)) (image_candidates t)
    \<and> distinct (map image_file_key (image_files_from_transfer (Some t)))
    \<and> image_file_key ` set (image_files_from_transfer (Some t)) = image_file_key ` set (image_candidates t)"
proof -
  have "collected ([], []) []" by (simp add: collected_def)
  from collected_files [OF collected_items [OF this], of "trFiles t" "trItems t"]
  have "collected (fold (\<lambda>f. add_image_file (Some f)) (trFiles t)
      (fold (\<lambda>i acc. if image_item i then add_image_file (tiFile i) acc else acc) (trItems t) ([], []))) (image_candidates t)"
    by (simp add: image_candidates_def)
  then show ?thesis by (auto simp: collected_def image_files_from_transfer_def)
qed

text \<open>The key tells files apart: names and types hold no null character.\<close>

lemma split_at_null:
  assumes "CHR 0x00 \<notin> set a" "CHR 0x00 \<notin> set b" "a @ CHR 0x00 # x = b @ CHR 0x00 # y"
  shows "a = b \<and> x = y"
  using assms(3) takeWhile_neq_append [OF assms(1), of x] takeWhile_neq_append [OF assms(2), of y] by auto

lemma show_nat_no_null: "CHR 0x00 \<notin> set (show_nat n)"
  using show_nat_digits [of "CHR 0x00" n] by (auto simp: is_digit_def code_def)

lemma show_int_inj: "show_int i = show_int j \<longleftrightarrow> i = j"
proof -
  have "CHR ''-'' \<notin> set (show_nat n)" for n
    using show_nat_digits [of "CHR ''-''" n] by (auto simp: is_digit_def code_def)
  then have "CHR ''-'' # show_nat m \<noteq> show_nat n" "show_nat n \<noteq> CHR ''-'' # show_nat m" for m n
    by (metis list.set_intros(1))+
  then show ?thesis by (auto simp: show_int_def show_nat_inj)
qed

lemma image_file_key_inj:
  assumes "CHR 0x00 \<notin> set (imName f)" "CHR 0x00 \<notin> set (imName g)" "CHR 0x00 \<notin> set (imType f)" "CHR 0x00 \<notin> set (imType g)"
    and "image_file_key f = image_file_key g"
  shows "f = g"
proof -
  note n = split_at_null [OF assms(1,2) assms(5) [unfolded image_file_key_def]]
  note t = split_at_null [OF assms(3,4) conjunct2 [OF n]]
  note z = split_at_null [OF show_nat_no_null show_nat_no_null conjunct2 [OF t]]
  show ?thesis using n t z by (simp add: show_nat_inj show_int_inj)
qed

section \<open>The upload of an image\<close>

text \<open>What is uploaded is neither empty nor larger than the limit, and an accepted upload names its path.\<close>

lemma upload_accepted_iff:
  "upload_chat_image reader net profile b = Inr v \<longleftrightarrow>
     0 < ibSize b \<and> ibSize b \<le> MAX_IMAGE_BYTES
     \<and> (\<exists>d r. reader = Inr d \<and> net (image_upload_request profile b d) = Inr r \<and> resp_ok r \<and> respJson r = Some v)
     \<and> truthy (js_get v ''path'')"
  by (auto simp: upload_chat_image_def Let_def split: sum.splits option.splits if_splits)

lemma rejected_size_sends_nothing:
  "ibSize b = 0 \<or> ibSize b > MAX_IMAGE_BYTES \<Longrightarrow>
     upload_chat_image reader net profile b = upload_chat_image reader net' profile b"
  by (auto simp: upload_chat_image_def)

section \<open>Copying leaves no trace\<close>

lemma copy_restores_document:
  assumes "copy_text_to_clipboard secure write during r t (Some d) = (ok, d')"
  shows "\<exists>x. d' = Some x \<and> cdBody x = cdBody d \<and> cdRanges x = cdRanges d \<and> (ok \<longrightarrow> cdClipboard x = t)
    \<and> (ok \<longleftrightarrow> secure \<and> write = Some True \<or> r = Some True)"
  using assms
  by (auto simp: copy_text_to_clipboard_def copy_by_selection_def exec_copy_def Let_def
      split: option.splits if_splits bool.splits)

section \<open>Titles\<close>

text \<open>One slash at the end of the address makes no difference to the title.\<close>

lemma title_ignores_slash:
  "p \<noteq> [] \<Longrightarrow> last p \<noteq> CHR ''/'' \<Longrightarrow> resolve_page_title nav ui tabs (p @ ''/'') = resolve_page_title nav ui tabs p"
  by (simp add: resolve_page_title_def Let_def)

lemma session_title_trimmed: "normalize_session_title v = Some s \<Longrightarrow> s \<noteq> [] \<and> trim s = s"
  by (auto simp: normalize_session_title_def split: js.splits if_splits)

end
