(* ===== verification/HermesConsole.thy ===== *)
theory HermesConsole
  imports JsValue
begin

text \<open>
  The console of the dashboard, \<open>web/src/components/HermesConsoleModal.tsx\<close>: a line editor over a
  terminal with a history, the frames it exchanges with the gateway, the confirmation of commands, and
  the effect that opens the terminal and its socket. What is written to the terminal is kept in order;
  the terminal itself is xterm, a library, of which the theory states nothing.
\<close>

section \<open>State\<close>

datatype tty_op = TtyWrite string | TtyClear

datatype console_out = OutInput string | OutConfirm string | OutCancel

datatype console_status = ConConnecting | ConReady | ConRunning | ConClosed | ConError

datatype console_frame =
    FrReady "string option" "string option"
  | FrOutput "string option"
  | FrError "string option"
  | FrConfirm "string option" "string option"
  | FrComplete "string option" "string option"
  | FrClear
  | FrPong

datatype run_stage = RunWaiting | RunConnecting | RunOpen | RunClosing | RunDone

text \<open>One run of the effect: whether its cleanup has run, and where its socket is.\<close>

record console_run =
  crCancelled :: bool
  crStage :: run_stage

record console =
  coTerm :: bool
  coWritten :: "tty_op list"
  coLine :: string
  coPrompt :: string
  coInputPrompt :: string
  coHistory :: "string list"
  coIndex :: "nat option"
  coActive :: bool
  coPending :: "string option"
  coReady :: bool
  coStatus :: console_status
  coProfile :: string
  coRuns :: "console_run list"
  coWs :: "nat option"
  coSent :: "console_out list"

definition console_start :: console where
  "console_start =
     \<lparr>coTerm = False, coWritten = [], coLine = [], coPrompt = ''hermes> '', coInputPrompt = ''hermes> '', coHistory = [],
      coIndex = None, coActive = False, coPending = None, coReady = False, coStatus = ConConnecting,
      coProfile = ''current'', coRuns = [], coWs = None, coSent = []\<rparr>"

section \<open>Writing\<close>

definition crlf :: string where
  "crlf = [CHR 0x0D, CHR 0x0A]"

definition sgr :: "string \<Rightarrow> string" where
  "sgr n = CHR 0x1B # CHR ''['' # n @ ''m''"

fun normalize_terminal_text :: "string \<Rightarrow> string" where
  "normalize_terminal_text [] = []"
| "normalize_terminal_text (c # t) =
     (if c = CHR 0x0A then crlf @ normalize_terminal_text t
      else if c = CHR 0x0D \<and> t \<noteq> [] \<and> hd t = CHR 0x0A then normalize_terminal_text t
      else c # normalize_terminal_text t)"

definition tty :: "string \<Rightarrow> console \<Rightarrow> console" where
  "tty t s = s\<lparr>coWritten := coWritten s @ [TtyWrite t]\<rparr>"

definition tty_clear :: "console \<Rightarrow> console" where
  "tty_clear s = s\<lparr>coWritten := coWritten s @ [TtyClear]\<rparr>"

definition write_line :: "string \<Rightarrow> console \<Rightarrow> console" where
  "write_line t s = tty (normalize_terminal_text t @ crlf) s"

definition write_block :: "string \<Rightarrow> console \<Rightarrow> console" where
  "write_block t s =
     (let n = normalize_terminal_text t in tty (if ends_with n crlf then n else n @ crlf) s)"

definition coloured :: "string \<Rightarrow> string \<Rightarrow> string" where
  "coloured n t = sgr n @ t @ sgr ''0''"

text \<open>\<open>v || d\<close> of an optional text.\<close>

definition text_or :: "string option \<Rightarrow> string \<Rightarrow> string" where
  "text_or v d = (if truthy_str v then the v else d)"

section \<open>The line editor\<close>

text \<open>All handlers do nothing without a terminal.\<close>

definition redraw_input :: "string \<Rightarrow> console \<Rightarrow> console" where
  "redraw_input line s =
     tty ([CHR 0x0D, CHR 0x1B] @ ''[2K'' @ coInputPrompt s @ line) (s\<lparr>coLine := line\<rparr>)"

definition show_prompt :: "console \<Rightarrow> console" where
  "show_prompt s = tty (coPrompt s) (s\<lparr>coLine := [], coIndex := None, coInputPrompt := coPrompt s\<rparr>)"

definition ws_open :: "console \<Rightarrow> bool" where
  "ws_open s \<longleftrightarrow> (case coWs s of None \<Rightarrow> False | Some i \<Rightarrow> i < length (coRuns s) \<and> crStage (coRuns s ! i) = RunOpen)"

definition send_frame :: "console_out \<Rightarrow> console \<Rightarrow> console" where
  "send_frame f s = (if ws_open s then s\<lparr>coSent := coSent s @ [f]\<rparr> else s)"

definition cancel_command :: "console \<Rightarrow> console" where
  "cancel_command s = send_frame OutCancel (s\<lparr>coPending := None, coActive := False\<rparr>)"

text \<open>The pending command is tested for truth, so an empty one counts as none.\<close>

definition submit_line :: "string \<Rightarrow> console \<Rightarrow> console" where
  "submit_line raw s =
     (let line = trim raw;
          s1 = (tty crlf s)\<lparr>coLine := [], coIndex := None\<rparr>
      in if truthy_str (coPending s) then
           (if lower line = ''y'' \<or> lower line = ''yes'' then
              send_frame (OutConfirm (the (coPending s))) (s1\<lparr>coPending := None, coActive := True, coStatus := ConRunning\<rparr>)
            else cancel_command s1)
         else if line = [] then show_prompt s1
         else (let h = coHistory s @ [line];
                   s2 = s1\<lparr>coHistory := drop (length h - 200) h, coActive := True, coStatus := ConRunning\<rparr>
               in if ws_open s2 then send_frame (OutInput line) s2
                  else show_prompt (write_line (coloured ''31'' ''Console is not connected.'') (s2\<lparr>coActive := False\<rparr>))))"

definition history_line :: "nat \<Rightarrow> console \<Rightarrow> console" where
  "history_line i s = redraw_input (coHistory s ! i) (s\<lparr>coIndex := Some i\<rparr>)"

definition recall_history :: "bool \<Rightarrow> console \<Rightarrow> console" where
  "recall_history down s =
     (if coHistory s = [] then s
      else (case coIndex s of
              None \<Rightarrow> if down then s else history_line (length (coHistory s) - 1) s
            | Some i \<Rightarrow>
                if down then
                  (if length (coHistory s) \<le> i + 1 then redraw_input [] (s\<lparr>coIndex := None\<rparr>) else history_line (i + 1) s)
                else history_line (i - 1) s))"

definition is_printable :: "char \<Rightarrow> bool" where
  "is_printable c \<longleftrightarrow> 32 \<le> code c \<or> code c = 9"

definition input_char :: "char \<Rightarrow> console \<Rightarrow> console" where
  "input_char ch s =
     (if code ch = 3 then
        (let s1 = tty (''^C'' @ crlf) s
         in if coActive s \<or> truthy_str (coPending s) then cancel_command s1 else show_prompt s1)
      else if code ch = 12 then show_prompt (tty_clear s)
      else if coActive s then tty [CHR 0x07] s
      else if code ch = 13 \<or> code ch = 10 then submit_line (coLine s) s
      else if code ch = 127 \<or> code ch = 8 then
        (if coLine s = [] then s else tty [CHR 0x08, CHR '' '', CHR 0x08] (s\<lparr>coLine := butlast (coLine s)\<rparr>))
      else if code ch = 27 then s
      else if is_printable ch then tty [ch] (s\<lparr>coLine := coLine s @ [ch]\<rparr>)
      else s)"

definition handle_input_data :: "string \<Rightarrow> console \<Rightarrow> console" where
  "handle_input_data data s =
     (if \<not> coTerm s then s
      else if data = CHR 0x1B # ''[A'' then recall_history False s
      else if data = CHR 0x1B # ''[B'' then recall_history True s
      else fold input_char data s)"

section \<open>Frames\<close>

definition close_ws :: "console \<Rightarrow> console" where
  "close_ws s =
     (case coWs s of
        None \<Rightarrow> s
      | Some i \<Rightarrow>
          if crStage (coRuns s ! i) \<in> {RunConnecting, RunOpen}
          then s\<lparr>coRuns := (coRuns s)[i := (coRuns s ! i)\<lparr>crStage := RunClosing\<rparr>]\<rparr> else s)"

definition frame_complete :: "string option \<Rightarrow> string option \<Rightarrow> console \<Rightarrow> console" where
  "frame_complete st prompt s =
     (let s1 = s\<lparr>coActive := False, coPrompt := text_or prompt (coPrompt s)\<rparr>
      in if st = Some ''confirm_required'' then s1
         else if st = Some ''exit'' then close_ws (s1\<lparr>coStatus := ConClosed\<rparr>)
         else (let s2 = (if st = Some ''timeout'' then write_line (coloured ''31'' ''Command timed out.'') s1 else s1);
                   s3 = (if st = Some ''cancelled'' then write_line (coloured ''33'' ''Cancelled.'') s2 else s2)
               in show_prompt (s3\<lparr>coPending := None, coStatus := ConReady\<rparr>)))"

definition frame_confirm :: "string option \<Rightarrow> string option \<Rightarrow> console \<Rightarrow> console" where
  "frame_confirm command message s =
     (let s1 = s\<lparr>coPending := Some (text_or command []), coActive := False, coStatus := ConReady\<rparr>;
          s2 = (if truthy_str message then write_line (coloured ''33'' (the message)) s1 else s1)
      in tty ''Confirm? [y/N] '' (s2\<lparr>coInputPrompt := ''Confirm? [y/N] '', coLine := []\<rparr>))"

definition handle_frame :: "console_frame \<Rightarrow> console \<Rightarrow> console" where
  "handle_frame f s =
     (if \<not> coTerm s then s
      else case f of
        FrReady prompt profile \<Rightarrow>
          show_prompt (tty_clear
            (s\<lparr>coPrompt := text_or prompt ''hermes> '', coInputPrompt := text_or prompt ''hermes> '', coReady := True,
               coProfile := text_or profile ''current'', coActive := False, coStatus := ConReady\<rparr>))
      | FrOutput v \<Rightarrow> if truthy_str v then write_block (the v) s else s
      | FrError m \<Rightarrow> write_line (coloured ''31'' (text_or m ''Command failed.'')) s
      | FrConfirm command message \<Rightarrow> frame_confirm command message s
      | FrComplete st prompt \<Rightarrow> frame_complete st prompt s
      | FrClear \<Rightarrow> show_prompt (tty_clear s)
      | FrPong \<Rightarrow> s)"

section \<open>The socket\<close>

text \<open>One run of the effect opens a terminal and asks for the address of the socket.\<close>

definition open_console :: "string \<Rightarrow> console \<Rightarrow> console" where
  "open_console profile s =
     write_line (coloured ''2'' ''Connecting to Hermes Console...'')
       (s\<lparr>coTerm := True, coWritten := [], coStatus := ConConnecting,
          coProfile := (if profile = [] then ''current'' else profile), coReady := False,
          coRuns := coRuns s @ [\<lparr>crCancelled = False, crStage = RunWaiting\<rparr>]\<rparr>)"

definition url_built :: "nat \<Rightarrow> string option \<Rightarrow> console \<Rightarrow> console" where
  "url_built i failure s =
     (if crCancelled (coRuns s ! i) then s\<lparr>coRuns := (coRuns s)[i := (coRuns s ! i)\<lparr>crStage := RunDone\<rparr>]\<rparr>
      else (case failure of
              None \<Rightarrow> s\<lparr>coRuns := (coRuns s)[i := (coRuns s ! i)\<lparr>crStage := RunConnecting\<rparr>], coWs := Some i\<rparr>
            | Some e \<Rightarrow>
                write_line (coloured ''31'' (''Console unavailable: '' @ e))
                  (s\<lparr>coRuns := (coRuns s)[i := (coRuns s ! i)\<lparr>crStage := RunDone\<rparr>], coStatus := ConError\<rparr>)))"

definition socket_opened :: "nat \<Rightarrow> console \<Rightarrow> console" where
  "socket_opened i s = s\<lparr>coRuns := (coRuns s)[i := (coRuns s ! i)\<lparr>crStage := RunOpen\<rparr>], coStatus := ConConnecting\<rparr>"

text \<open>A text that does not parse, and \<open>null\<close>, on whose fields the handler throws, is a malformed frame.\<close>

definition socket_message :: "nat \<Rightarrow> console_frame option \<Rightarrow> console \<Rightarrow> console" where
  "socket_message i f s =
     (case f of
        Some g \<Rightarrow> handle_frame g s
      | None \<Rightarrow> if crCancelled (coRuns s ! i) then s else write_line (coloured ''31'' ''Malformed console frame.'') s)"

text \<open>The handlers of a socket write to the terminal of its own run, which a cancelled run has lost.\<close>

definition socket_error :: "nat \<Rightarrow> console \<Rightarrow> console" where
  "socket_error i s =
     (let s1 = s\<lparr>coStatus := ConError\<rparr>
      in if crCancelled (coRuns s ! i) then s1 else write_line (coloured ''31'' ''Console websocket error.'') s1)"

definition close_message :: "nat \<Rightarrow> string \<Rightarrow> bool \<Rightarrow> string" where
  "close_message ev_code reason ready =
     (if ev_code = 1006 \<and> \<not> ready
      then ''Console connection failed before the server handshake. Check that this dashboard is connected to a backend with /api/console.''
      else ''Console closed ('' @ show_nat ev_code @ '').'' @ (if reason = [] then [] else CHR '' '' # reason))"

definition socket_closed :: "nat \<Rightarrow> nat \<Rightarrow> string \<Rightarrow> console \<Rightarrow> console" where
  "socket_closed i ev_code reason s =
     (let s1 = s\<lparr>coRuns := (coRuns s)[i := (coRuns s ! i)\<lparr>crStage := RunDone\<rparr>], coWs := None, coActive := False, coPending := None\<rparr>
      in if crCancelled (coRuns s ! i) then s1
         else write_line (coloured ''31'' (close_message ev_code reason (coReady s)))
                (s1\<lparr>coStatus := (if ev_code = 1000 then ConClosed else ConError)\<rparr>))"

text \<open>The cleanup of the last run, which is the only one not cancelled.\<close>

definition close_console :: "console \<Rightarrow> console" where
  "close_console s =
     (let i = length (coRuns s) - 1;
          s1 = close_ws (s\<lparr>coRuns := (coRuns s)[i := (coRuns s ! i)\<lparr>crCancelled := True\<rparr>]\<rparr>)
      in s1\<lparr>coWs := None, coTerm := False, coLine := [], coPending := None, coActive := False, coReady := False\<rparr>)"

datatype console_event =
    OpenConsole string | CloseConsole
  | UrlBuilt nat "string option" | SocketOpened nat | SocketMessage nat "console_frame option"
  | SocketError nat | SocketClosed nat nat string
  | InputData string

primrec console_step :: "console \<Rightarrow> console_event \<Rightarrow> console" where
  "console_step s (OpenConsole profile) = open_console profile s"
| "console_step s CloseConsole = close_console s"
| "console_step s (UrlBuilt i failure) = url_built i failure s"
| "console_step s (SocketOpened i) = socket_opened i s"
| "console_step s (SocketMessage i f) = socket_message i f s"
| "console_step s (SocketError i) = socket_error i s"
| "console_step s (SocketClosed i c r) = socket_closed i c r s"
| "console_step s (InputData d) = handle_input_data d s"

definition at_stage :: "nat \<Rightarrow> run_stage list \<Rightarrow> console \<Rightarrow> bool" where
  "at_stage i stages s \<longleftrightarrow> i < length (coRuns s) \<and> crStage (coRuns s ! i) \<in> set stages"

primrec console_enabled :: "console \<Rightarrow> console_event \<Rightarrow> bool" where
  "console_enabled s (OpenConsole profile) = (\<not> coTerm s)"
| "console_enabled s CloseConsole = coTerm s"
| "console_enabled s (UrlBuilt i failure) = at_stage i [RunWaiting] s"
| "console_enabled s (SocketOpened i) = at_stage i [RunConnecting] s"
| "console_enabled s (SocketMessage i f) = at_stage i [RunOpen] s"
| "console_enabled s (SocketError i) = at_stage i [RunConnecting, RunOpen, RunClosing] s"
| "console_enabled s (SocketClosed i c r) = at_stage i [RunConnecting, RunOpen, RunClosing] s"
| "console_enabled s (InputData d) = coTerm s"

abbreviation console_run :: "console_event list \<Rightarrow> console" where
  "console_run es \<equiv> foldl console_step console_start es"

section \<open>What the handlers leave alone\<close>

lemma tty_keeps [simp]:
  "coLine (tty t s) = coLine s" "coPrompt (tty t s) = coPrompt s" "coInputPrompt (tty t s) = coInputPrompt s"
  "coHistory (tty t s) = coHistory s" "coIndex (tty t s) = coIndex s" "coActive (tty t s) = coActive s"
  "coPending (tty t s) = coPending s" "coReady (tty t s) = coReady s" "coTerm (tty t s) = coTerm s"
  "coRuns (tty t s) = coRuns s" "coWs (tty t s) = coWs s" "coSent (tty t s) = coSent s" "coStatus (tty t s) = coStatus s"
  by (simp_all add: tty_def)

lemma write_line_keeps [simp]:
  "coLine (write_line t s) = coLine s" "coPrompt (write_line t s) = coPrompt s" "coInputPrompt (write_line t s) = coInputPrompt s"
  "coHistory (write_line t s) = coHistory s" "coIndex (write_line t s) = coIndex s" "coActive (write_line t s) = coActive s"
  "coPending (write_line t s) = coPending s" "coReady (write_line t s) = coReady s" "coTerm (write_line t s) = coTerm s"
  "coSent (write_line t s) = coSent s"
  by (simp_all add: write_line_def)

lemma send_frame_keeps [simp]:
  "coLine (send_frame f s) = coLine s" "coPrompt (send_frame f s) = coPrompt s" "coInputPrompt (send_frame f s) = coInputPrompt s"
  "coHistory (send_frame f s) = coHistory s" "coIndex (send_frame f s) = coIndex s" "coActive (send_frame f s) = coActive s"
  "coPending (send_frame f s) = coPending s" "coReady (send_frame f s) = coReady s" "coTerm (send_frame f s) = coTerm s"
  "coRuns (send_frame f s) = coRuns s" "coWs (send_frame f s) = coWs s"
  by (simp_all add: send_frame_def)

lemma write_block_keeps [simp]: "coSent (write_block t s) = coSent s" "coPending (write_block t s) = coPending s"
  by (simp_all add: write_block_def Let_def)

lemma close_ws_keeps [simp]: "coSent (close_ws s) = coSent s" "coPending (close_ws s) = coPending s"
  by (simp_all add: close_ws_def split: option.split)

section \<open>What is typed is what is sent\<close>










lemma ws_open_updates [simp]:
  "ws_open (tty t s) = ws_open s" "ws_open (s\<lparr>coLine := a\<rparr>) = ws_open s" "ws_open (s\<lparr>coIndex := b\<rparr>) = ws_open s"
  "ws_open (s\<lparr>coHistory := h\<rparr>) = ws_open s" "ws_open (s\<lparr>coActive := x\<rparr>) = ws_open s" "ws_open (s\<lparr>coStatus := y\<rparr>) = ws_open s"
  by (simp_all add: ws_open_def split: option.split)




section \<open>A command is confirmed by its answer\<close>

text \<open>The data of a terminal answer yes to a command: at some return in it the command waits and the line reads so.\<close>

definition says_yes :: "string \<Rightarrow> bool" where
  "says_yes line \<longleftrightarrow> lower (trim line) \<in> {''y'', ''yes''}"

definition answers :: "console \<Rightarrow> string \<Rightarrow> string \<Rightarrow> bool" where
  "answers s d c \<longleftrightarrow> (\<exists>pre ch rest. d = pre @ ch # rest \<and> code ch \<in> {13, 10}
     \<and> coPending (fold input_char pre s) = Some c \<and> c \<noteq> [] \<and> says_yes (coLine (fold input_char pre s)))"

lemma sent_frame: "x \<in> set (coSent (send_frame f s)) \<Longrightarrow> x = f \<or> x \<in> set (coSent s)"
  by (auto simp: send_frame_def split: if_splits)

lemma show_prompt_keeps [simp]: "coSent (show_prompt s) = coSent s" "coPending (show_prompt s) = coPending s"
  by (simp_all add: show_prompt_def)

lemma tty_clear_keeps [simp]: "coSent (tty_clear s) = coSent s" "coPending (tty_clear s) = coPending s"
  by (simp_all add: tty_clear_def)

lemma sent_char:
  assumes "OutConfirm c \<in> set (coSent (input_char ch s))"
  shows "OutConfirm c \<in> set (coSent s)
    \<or> code ch \<in> {13, 10} \<and> coPending s = Some c \<and> c \<noteq> [] \<and> says_yes (coLine s)"
  using assms
  by (auto simp: input_char_def submit_line_def cancel_command_def Let_def says_yes_def truthy_str_def
      split: if_splits option.splits dest!: sent_frame)

lemma sent_chars:
  "OutConfirm c \<in> set (coSent (fold input_char d s)) \<Longrightarrow> OutConfirm c \<in> set (coSent s) \<or> answers s d c"
proof (induction d rule: rev_induct)
  case (snoc ch d)
  have "OutConfirm c \<in> set (coSent (fold input_char d s)) \<or> answers s (d @ [ch]) c"
    using sent_char [of c ch "fold input_char d s"] snoc.prems
    by (auto simp: answers_def)
  moreover have "answers s d c \<Longrightarrow> answers s (d @ [ch]) c"
    unfolding answers_def by (metis append.assoc append_Cons)
  ultimately show ?case using snoc.IH by blast
qed simp

lemma pending_char_some: "coPending (input_char ch s) = Some c \<Longrightarrow> coPending s = Some c"
  by (auto simp: input_char_def submit_line_def cancel_command_def Let_def split: if_splits)

lemma pending_chars: "coPending (fold input_char d s) = Some c \<Longrightarrow> coPending s = Some c"
  by (induction d arbitrary: s) (auto dest: pending_char_some)

lemma redraw_keeps [simp]: "coSent (redraw_input l s) = coSent s" "coPending (redraw_input l s) = coPending s"
  by (simp_all add: redraw_input_def)

lemma recall_keeps [simp]: "coSent (recall_history b s) = coSent s" "coPending (recall_history b s) = coPending s"
  by (simp_all add: recall_history_def history_line_def split: option.split)

definition confirm_frame :: "console_event \<Rightarrow> string \<Rightarrow> bool" where
  "confirm_frame e c \<longleftrightarrow> (\<exists>i command m. e = SocketMessage i (Some (FrConfirm command m)) \<and> text_or command [] = c)"

lemma frame_keeps [simp]: "coSent (handle_frame g s) = coSent s"
  by (cases g) (simp_all add: handle_frame_def frame_confirm_def frame_complete_def Let_def)

lemma frame_pending:
  "coPending (handle_frame g s) = Some c \<Longrightarrow> coPending s = Some c \<or> (\<exists>command m. g = FrConfirm command m \<and> text_or command [] = c)"
  by (cases g) (auto simp: handle_frame_def frame_confirm_def frame_complete_def Let_def split: if_splits)

lemma step_sends:
  assumes "OutConfirm c \<in> set (coSent (console_step s e))"
  shows "OutConfirm c \<in> set (coSent s) \<or> (\<exists>d. e = InputData d \<and> answers s d c)"
  using assms
  by (cases e)
    (auto simp: open_console_def close_console_def url_built_def socket_opened_def socket_message_def socket_error_def
      socket_closed_def handle_input_data_def Let_def split: option.splits if_splits dest: sent_chars)

lemma step_pends:
  assumes "coPending (console_step s e) = Some c"
  shows "coPending s = Some c \<or> confirm_frame e c"
  using assms
  by (cases e)
    (auto simp: open_console_def close_console_def url_built_def socket_opened_def socket_message_def socket_error_def
      socket_closed_def handle_input_data_def confirm_frame_def Let_def split: option.splits if_splits
      dest: pending_chars dest!: frame_pending)

interpretation confirmations: tracing console_start console_step console_enabled "\<lambda>_. True"
    "\<lambda>s c. OutConfirm c \<in> set (coSent s)" "\<lambda>s e c. \<exists>d. e = InputData d \<and> answers s d c"
  by unfold_locales (auto simp: console_start_def dest: step_sends)

interpretation waiting: tracing console_start console_step console_enabled "\<lambda>_. True"
    "\<lambda>s c. coPending s = Some c" "\<lambda>s e c. confirm_frame e c"
  by unfold_locales (auto simp: console_start_def dest: step_pends)

section \<open>Properties\<close>

definition console_opening :: "console_event list" where
  "console_opening =
     [OpenConsole [], UrlBuilt 0 None, SocketOpened 0, SocketMessage 0 (Some (FrReady (Some ''hermes> '') None))]"



text \<open>Claim C25. A command is confirmed by its answer: if the console sends a confirmation of a command, then earlier
  the gateway asked for a confirmation of that command, and later the terminal delivered a return while that
  command was waiting and the line read "y" or "yes", whatever else happened.\<close>

theorem console_confirms_on_yes:
  assumes "legal_run console_enabled console_step console_start es" "OutConfirm c \<in> set (coSent (console_run es))"
  shows "\<exists>us i m vs d ws. es = us @ SocketMessage i (Some (FrConfirm (Some c) m)) # vs @ InputData d # ws
    \<and> answers (console_run (us @ SocketMessage i (Some (FrConfirm (Some c) m)) # vs)) d c"
proof -
  obtain us d ws where es: "es = us @ InputData d # ws" and a: "answers (console_run us) d c"
    using confirmations.traced [OF assms] by blast
  have "coPending (console_run us) = Some c" "c \<noteq> []"
    using a by (auto simp: answers_def dest: pending_chars)
  moreover have "legal_run console_enabled console_step console_start us"
    using assms(1) es by (simp add: legal_run_append)
  ultimately obtain xs e vs where us: "us = xs @ e # vs" and "confirm_frame e c"
    using waiting.traced by blast
  then obtain i m where e: "e = SocketMessage i (Some (FrConfirm (Some c) m))"
    using \<open>c \<noteq> []\<close> by (auto simp: confirm_frame_def text_or_def truthy_str_def split: if_splits option.splits)
  have "es = xs @ SocketMessage i (Some (FrConfirm (Some c) m)) # vs @ InputData d # ws"
    using es us e by simp
  moreover have "answers (console_run (xs @ SocketMessage i (Some (FrConfirm (Some c) m)) # vs)) d c"
    using a us e by (simp only:)
  ultimately show ?thesis by blast
qed

definition console_confirming :: "console_event list" where
  "console_confirming =
     console_opening @ [InputData (''rm'' @ [CHR 0x0D]), SocketMessage 0 (Some (FrConfirm (Some ''rm'') None)), InputData ('' Y'' @ [CHR 0x0D])]"

lemma console_confirms_on_yes_witness:
  "legal_run console_enabled console_step console_start console_confirming
   \<and> coSent (console_run console_confirming) = [OutInput ''rm'', OutConfirm ''rm'']
   \<and> (\<exists>us i m vs d ws. console_confirming = us @ SocketMessage i (Some (FrConfirm (Some ''rm'') m)) # vs @ InputData d # ws
        \<and> answers (console_run (us @ SocketMessage i (Some (FrConfirm (Some ''rm'') m)) # vs)) d ''rm'')"
proof -
  have legal: "legal_run console_enabled console_step console_start console_confirming"
    and sent: "coSent (console_run console_confirming) = [OutInput ''rm'', OutConfirm ''rm'']"
    by code_simp+
  have "OutConfirm ''rm'' \<in> set (coSent (console_run console_confirming))"
    unfolding sent by simp
  from console_confirms_on_yes [OF legal this] show ?thesis
    using legal sent by (intro conjI)
qed

section \<open>What the code does not do\<close>

text \<open>A confirmation frame without a command asks, but the answer is sent as a command.\<close>

lemma nameless_confirmation_is_a_command:
  "coSent (console_run (console_opening @ [InputData (''rm'' @ [CHR 0x0D]), SocketMessage 0 (Some (FrConfirm None None)),
     InputData (''y'' @ [CHR 0x0D])])) = [OutInput ''rm'', OutInput ''y'']"
  by code_simp

text \<open>A line that cannot be sent leaves the badge at running.\<close>

lemma unsent_line_stays_running:
  "coStatus (console_run [OpenConsole [], InputData (''b'' @ [CHR 0x0D])]) = ConRunning
   \<and> \<not> coActive (console_run [OpenConsole [], InputData (''b'' @ [CHR 0x0D])])"
  by code_simp

text \<open>The keys left and right add their own codes to the line, unseen.\<close>

lemma arrow_key_is_typed:
  "coLine (console_run (console_opening @ [InputData (''ab'' @ [CHR 0x0D]), SocketMessage 0 (Some (FrComplete None None)),
     InputData (CHR 0x1B # ''[C'')])) = ''[C''"
  by code_simp

text \<open>The end of a command that was cancelled frees the editor while the next command runs.\<close>

lemma late_end_frees_the_editor:
  "let s = console_run (console_opening @ [InputData (''a'' @ [CHR 0x0D, CHR 3]), InputData (''b'' @ [CHR 0x0D]),
     SocketMessage 0 (Some (FrComplete (Some ''cancelled'') None))])
   in \<not> coActive s \<and> coStatus s = ConReady \<and> coSent s = [OutInput ''a'', OutCancel, OutInput ''b'']"
  by code_simp

text \<open>The close of the socket of an earlier opening detaches the socket of the current one, which stays open and
  goes on to receive, but can no longer be written to or closed.\<close>

lemma stale_close_detaches_the_socket:
  "let s = console_run (console_opening @ [CloseConsole, OpenConsole [], UrlBuilt 1 None, SocketOpened 1, SocketClosed 0 1000 [],
     InputData (''b'' @ [CHR 0x0D]), CloseConsole])
   in coSent s = [] \<and> at_stage 1 [RunOpen] s
      \<and> legal_run console_enabled console_step console_start (console_opening @ [CloseConsole, OpenConsole [], UrlBuilt 1 None, SocketOpened 1,
          SocketClosed 0 1000 [], InputData (''b'' @ [CHR 0x0D]), CloseConsole])"
  by code_simp

text \<open>An interrupt during a confirmation cancels the command and writes no prompt, and keeps the half-typed
  answer, which the next line starts with.\<close>

lemma interrupted_answer_stays:
  "let es = console_opening @ [InputData (''rm'' @ [CHR 0x0D]), SocketMessage 0 (Some (FrConfirm (Some ''rm'') None)),
         InputData (''ye'' @ [CHR 3])];
       s = console_run es; t = console_run (es @ [InputData (''ls'' @ [CHR 0x0D])])
   in coLine s = ''ye'' \<and> last (coWritten s) = TtyWrite (''^C'' @ crlf) \<and> coPending s = None
      \<and> coSent t = [OutInput ''rm'', OutCancel, OutInput ''yels'']"
  by code_simp

end
