(* ===== verification/Channels.thy ===== *)
theory Channels
  imports JsValue
begin

text \<open>
  The page of the messaging channels, \<open>web/src/pages/ChannelsPage.tsx\<close>: the checks of the fields of a
  channel, the dialog that saves them, the switches, the tests and the restart of the gateway. The two
  pairing panels of the page are modelled in \<open>ChannelPairing\<close>. Messages of the field checks are values.
\<close>

section \<open>Badges and fields\<close>

datatype badge_tone = ToneSuccess | ToneWarning | ToneDestructive | ToneSecondary | ToneOutline

definition STATE_BADGE :: "(string \<times> badge_tone \<times> string) list" where
  "STATE_BADGE =
     [(''connected'', ToneSuccess, ''Connected''),
      (''pending_restart'', ToneWarning, ''Restart to apply''),
      (''gateway_stopped'', ToneWarning, ''Gateway stopped''),
      (''startup_failed'', ToneDestructive, ''Start failed''),
      (''disconnected'', ToneWarning, ''Disconnected''),
      (''not_configured'', ToneOutline, ''Not configured''),
      (''disabled'', ToneSecondary, ''Disabled''),
      (''fatal'', ToneDestructive, ''Error'')]"

definition state_badge :: "string \<Rightarrow> badge_tone \<times> string" where
  "state_badge st = (case map_of STATE_BADGE st of Some b \<Rightarrow> b | None \<Rightarrow> (ToneOutline, st))"

definition is_ascii_upper :: "char \<Rightarrow> bool" where
  "is_ascii_upper c \<longleftrightarrow> 65 \<le> code c \<and> code c \<le> 90"

definition is_ascii_lower :: "char \<Rightarrow> bool" where
  "is_ascii_lower c \<longleftrightarrow> 97 \<le> code c \<and> code c \<le> 122"

definition telegram_user_id :: "string \<Rightarrow> bool" where
  "telegram_user_id s = all_digits s"

definition token_char :: "char \<Rightarrow> bool" where
  "token_char c \<longleftrightarrow> is_ascii_upper c \<or> is_ascii_lower c \<or> is_digit c \<or> c = CHR ''_'' \<or> c = CHR ''-''"

definition telegram_bot_token :: "string \<Rightarrow> bool" where
  "telegram_bot_token s \<longleftrightarrow>
     all_digits (takeWhile is_digit s)
     \<and> (case dropWhile is_digit s of
          [] \<Rightarrow> False
        | c # t \<Rightarrow> c = CHR '':'' \<and> 30 \<le> length t \<and> list_all token_char t)"

definition slack_member_id :: "string \<Rightarrow> bool" where
  "slack_member_id s \<longleftrightarrow>
     (case s of
        [] \<Rightarrow> False
      | c # t \<Rightarrow> c \<in> {CHR ''U'', CHR ''W''} \<and> 2 \<le> length t \<and> list_all (\<lambda>d. is_ascii_upper d \<or> is_digit d) t)"

definition SLACK_TOKEN_PREFIXES :: "(string \<times> string) list" where
  "SLACK_TOKEN_PREFIXES = [(''SLACK_BOT_TOKEN'', ''xoxb-''), (''SLACK_APP_TOKEN'', ''xapp-'')]"

record env_field =
  efKey :: string
  efRequired :: bool
  efIsSet :: bool
  efPrompt :: string

definition field_label :: "env_field \<Rightarrow> string" where
  "field_label f = (if efPrompt f = [] then efKey f else efPrompt f)"

datatype field_error =
    BadBotToken | NotNumericUser string | WrongPrefix string string | NotSlackMember string

definition list_entries :: "string \<Rightarrow> string list" where
  "list_entries s = filter (\<lambda>p. p \<noteq> []) (map trim (split_on (CHR '','') s))"

definition validate_field :: "env_field \<Rightarrow> string \<Rightarrow> field_error option" where
  "validate_field f v =
     (let t = trim v
      in if t = [] then None
         else if efKey f = ''TELEGRAM_BOT_TOKEN'' \<and> \<not> telegram_bot_token t then Some BadBotToken
         else (case (if efKey f = ''TELEGRAM_ALLOWED_USERS'' then find (\<lambda>p. \<not> telegram_user_id p) (list_entries t) else None) of
             Some p \<Rightarrow> Some (NotNumericUser p)
           | None \<Rightarrow>
               (case map_of SLACK_TOKEN_PREFIXES (efKey f) of
                  Some pre \<Rightarrow> if starts_with t pre then None else Some (WrongPrefix (field_label f) pre)
                | None \<Rightarrow>
                    if efKey f = ''SLACK_ALLOWED_USERS'' then
                      map_option NotSlackMember (find (\<lambda>p. p \<noteq> ''*'' \<and> \<not> slack_member_id p) (list_entries t))
                    else None)))"

text \<open>The time left, of \<open>Date.parse\<close> of the expiry (\<open>None\<close> is \<open>NaN\<close>) and \<open>Date.now()\<close> in milliseconds.\<close>

definition pad2 :: "nat \<Rightarrow> string" where
  "pad2 n = (if n < 10 then CHR ''0'' # show_nat n else show_nat n)"

definition format_expiry :: "int option \<Rightarrow> int \<Rightarrow> string" where
  "format_expiry expires now =
     (case expires of
        None \<Rightarrow> ''expired''
      | Some e \<Rightarrow>
          if e - now \<le> 0 then ''expired''
          else (let seconds = nat ((e - now + 999) div 1000)
                in show_nat (seconds div 60) @ '':'' @ pad2 (seconds mod 60)))"

text \<open>A word of a message, \<open>/\b...\b/\<close>: between characters that are no word characters.\<close>

definition word_char :: "char \<Rightarrow> bool" where
  "word_char c \<longleftrightarrow> is_ascii_upper c \<or> is_ascii_lower c \<or> is_digit c \<or> c = CHR ''_''"

definition ends_word :: "string \<Rightarrow> string \<Rightarrow> bool" where
  "ends_word w t \<longleftrightarrow> starts_with t w \<and> (case drop (length w) t of [] \<Rightarrow> True | c # _ \<Rightarrow> \<not> word_char c)"

fun has_word_after :: "bool \<Rightarrow> string \<Rightarrow> string \<Rightarrow> bool" where
  "has_word_after inside w [] = False"
| "has_word_after inside w (c # t) = (\<not> inside \<and> ends_word w (c # t) \<or> has_word_after (word_char c) w t)"

definition has_word :: "string \<Rightarrow> string \<Rightarrow> bool" where
  "has_word w s = has_word_after False w s"

definition terminal_telegram_error :: "string \<Rightarrow> bool" where
  "terminal_telegram_error m \<longleftrightarrow> has_word ''410'' m \<and> list_ex (\<lambda>w. has_word w (lower m)) [''expired'', ''claimed'', ''gone'']"

definition terminal_whatsapp_error :: "string \<Rightarrow> bool" where
  "terminal_whatsapp_error m \<longleftrightarrow> has_word ''410'' m \<and> list_ex (\<lambda>w. has_word w (lower m)) [''expired'', ''gone'']"

section \<open>Saving\<close>

record platform =
  plId :: string
  plName :: string
  plEnabled :: bool
  plConfigured :: bool
  plRunning :: bool
  plState :: string
  plFields :: "env_field list"

definition initial_draft :: "platform \<Rightarrow> (string \<times> string) list" where
  "initial_draft p = fold (\<lambda>f. obj_set (efKey f) []) (plFields p) []"

definition draft_value :: "(string \<times> string) list \<Rightarrow> string \<Rightarrow> string" where
  "draft_value draft k = (case map_of draft k of Some v \<Rightarrow> v | None \<Rightarrow> [])"

definition draft_env :: "(string \<times> string) list \<Rightarrow> (string \<times> string) list" where
  "draft_env draft = map (\<lambda>(k, v). (k, trim v)) (filter (\<lambda>(k, v). trim v \<noteq> []) draft)"

definition missing_fields :: "platform \<Rightarrow> (string \<times> string) list \<Rightarrow> env_field list" where
  "missing_fields p env = filter (\<lambda>f. efRequired f \<and> \<not> efIsSet f \<and> draft_value env (efKey f) = []) (plFields p)"

definition field_errors :: "platform \<Rightarrow> (string \<times> string) list \<Rightarrow> (string \<times> field_error) list" where
  "field_errors p draft =
     fold (\<lambda>f es. case validate_field f (draft_value draft (efKey f)) of None \<Rightarrow> es | Some e \<Rightarrow> obj_set (efKey f) e es)
       (plFields p) []"

datatype save_outcome =
    NothingToSave
  | FieldMissing string
  | FieldsInvalid "(string \<times> field_error) list"
  | SaveEnv "(string \<times> string) list"

definition save_check :: "platform \<Rightarrow> (string \<times> string) list \<Rightarrow> save_outcome" where
  "save_check p draft =
     (let env = draft_env draft; missing = missing_fields p env; errors = field_errors p draft
      in if env = [] then NothingToSave
         else if missing \<noteq> [] then FieldMissing (field_label (hd missing))
         else if errors \<noteq> [] then FieldsInvalid errors
         else SaveEnv env)"

section \<open>Lemmas\<close>

lemma find_entries_none: "find P (list_entries t) = None \<longleftrightarrow> list_all (\<lambda>p. \<not> P p) (list_entries t)"
  by (auto simp: find_None_iff list_all_iff)

lemma find_found: "find P xs = Some x \<Longrightarrow> x \<in> set xs \<and> P x"
  by (auto simp: find_Some_iff)

lemma draft_env_absent: "k \<notin> fst ` set draft \<Longrightarrow> map_of (draft_env draft) k = None"
  by (force simp: draft_env_def map_of_eq_None_iff)

lemma map_of_draft_env: "distinct (map fst draft) \<Longrightarrow>
    map_of (draft_env draft) k = (case map_of draft k of Some v \<Rightarrow> if trim v = [] then None else Some (trim v) | None \<Rightarrow> None)"
proof (induction draft)
  case (Cons e draft)
  obtain l v where e: "e = (l, v)" by fastforce
  have "draft_env (e # draft) = (if trim v = [] then draft_env draft else (l, trim v) # draft_env draft)"
    by (simp add: draft_env_def e)
  then show ?case using Cons draft_env_absent [of l draft] by (auto simp: e)
qed (simp add: draft_env_def)

lemma draft_env_value: "distinct (map fst draft) \<Longrightarrow> draft_value (draft_env draft) k = trim (draft_value draft k)"
  by (auto simp: draft_value_def map_of_draft_env split: option.splits)

lemma draft_env_empty: "draft_env draft = [] \<longleftrightarrow> list_all (\<lambda>(k, v). trim v = []) draft"
  by (auto simp: draft_env_def filter_empty_conv list_all_iff)

lemma field_errors_empty:
  "field_errors p draft = [] \<longleftrightarrow> list_all (\<lambda>f. validate_field f (draft_value draft (efKey f)) = None) (plFields p)"
proof -
  let ?step = "\<lambda>f es. case validate_field f (draft_value draft (efKey f)) of None \<Rightarrow> es | Some e \<Rightarrow> obj_set (efKey f) e es"
  have nonempty: "obj_set k v es \<noteq> []" for k and v :: field_error and es
    by (cases es) (auto split: prod.splits if_splits)
  have "fold ?step fs es = [] \<longleftrightarrow> es = [] \<and> list_all (\<lambda>f. validate_field f (draft_value draft (efKey f)) = None) fs" for fs es
    by (induction fs arbitrary: es) (auto simp: nonempty split: option.splits)
  then show ?thesis by (simp add: field_errors_def)
qed

text \<open>The values that pass the check of a field.\<close>

definition well_formed_value :: "string \<Rightarrow> string \<Rightarrow> bool" where
  "well_formed_value k t \<longleftrightarrow>
     (k = ''TELEGRAM_BOT_TOKEN'' \<longrightarrow> telegram_bot_token t)
     \<and> (k = ''TELEGRAM_ALLOWED_USERS'' \<longrightarrow> list_all telegram_user_id (list_entries t))
     \<and> (k = ''SLACK_BOT_TOKEN'' \<longrightarrow> starts_with t ''xoxb-'')
     \<and> (k = ''SLACK_APP_TOKEN'' \<longrightarrow> starts_with t ''xapp-'')
     \<and> (k = ''SLACK_ALLOWED_USERS'' \<longrightarrow> list_all (\<lambda>p. p = ''*'' \<or> slack_member_id p) (list_entries t))"

lemma validate_none: "validate_field f v = None \<longleftrightarrow> trim v = [] \<or> well_formed_value (efKey f) (trim v)"
  by (auto simp: validate_field_def well_formed_value_def SLACK_TOKEN_PREFIXES_def Let_def find_entries_none
      find_None_iff list_all_iff split: option.splits if_splits dest: find_found)

lemma has_word_after_split:
  "has_word_after inside w s \<longleftrightarrow>
     s \<noteq> [] \<and> (\<not> inside \<and> ends_word w s \<or> (\<exists>a c b. s = a @ c # b \<and> b \<noteq> [] \<and> \<not> word_char c \<and> ends_word w b))"
proof (induction s arbitrary: inside)
  case (Cons c t)
  have "(\<exists>a d b. c # t = a @ d # b \<and> b \<noteq> [] \<and> \<not> word_char d \<and> ends_word w b) \<longleftrightarrow>
      t \<noteq> [] \<and> (\<not> word_char c \<and> ends_word w t \<or> (\<exists>a d b. t = a @ d # b \<and> b \<noteq> [] \<and> \<not> word_char d \<and> ends_word w b))"
    (is "?l \<longleftrightarrow> ?r")
  proof
    assume ?l
    then obtain a d b where "c # t = a @ d # b" "b \<noteq> []" "\<not> word_char d" "ends_word w b" by blast
    then show ?r by (cases a) auto
  next
    assume r: ?r
    then consider "\<not> word_char c" "ends_word w t" "t \<noteq> []"
      | a d b where "t = a @ d # b" "b \<noteq> []" "\<not> word_char d" "ends_word w b"
      by blast
    then show ?l
    proof cases
      case 1
      then show ?thesis by (intro exI [of _ "[]"]) auto
    next
      case (2 a d b)
      then show ?thesis by (intro exI [of _ "c # a"]) auto
    qed
  qed
  then show ?case using Cons.IH by auto
qed simp

section \<open>The page\<close>

datatype chan_load = ByMount | BySave | ByOther

datatype chan_update = SaveUpdate platform "(string \<times> string) list" | ToggleUpdate string bool

text \<open>The requests under way are kept with what their handlers captured: \<open>chLoads\<close>, \<open>chSaves\<close>, \<open>chToggles\<close>,
  \<open>chTests\<close>, \<open>chRestarts\<close>; \<open>chTimers\<close> are the timers that load again, and \<open>chSent\<close> all updates.\<close>

record channels =
  chPlatforms :: "platform list"
  chLoading :: bool
  chEditing :: "platform option"
  chDraft :: "(string \<times> string) list"
  chErrors :: "(string \<times> field_error) list"
  chSaving :: bool
  chToggling :: "string option"
  chTesting :: "string option"
  chBanner :: bool
  chRestarting :: bool
  chLoads :: "chan_load list"
  chSaves :: nat
  chToggles :: "(string \<times> bool) list"
  chTests :: "platform list"
  chRestarts :: nat
  chTimers :: nat
  chSent :: "chan_update list"
  chToast :: "save_outcome option"

definition channels_start :: channels where
  "channels_start =
     \<lparr>chPlatforms = [], chLoading = True, chEditing = None, chDraft = [], chErrors = [], chSaving = False, chToggling = None,
      chTesting = None, chBanner = False, chRestarting = False, chLoads = [ByMount], chSaves = 0, chToggles = [], chTests = [],
      chRestarts = 0, chTimers = 0, chSent = [], chToast = None\<rparr>"

definition gateway_running :: "channels \<Rightarrow> bool" where
  "gateway_running s \<longleftrightarrow> (case chPlatforms s of [] \<Rightarrow> False | p # _ \<Rightarrow> plRunning p)"

definition channels_configured :: "channels \<Rightarrow> nat" where
  "channels_configured s = length (filter plConfigured (chPlatforms s))"

definition load_channels :: "chan_load \<Rightarrow> channels \<Rightarrow> channels" where
  "load_channels by_what s = s\<lparr>chLoads := chLoads s @ [by_what]\<rparr>"

definition load_answered :: "nat \<Rightarrow> platform list option \<Rightarrow> channels \<Rightarrow> channels" where
  "load_answered k r s =
     (let s1 = (case r of Some ps \<Rightarrow> s\<lparr>chPlatforms := ps\<rparr> | None \<Rightarrow> s);
          s2 = s1\<lparr>chLoads := take_out k (chLoads s)\<rparr>
      in case chLoads s ! k of
           ByMount \<Rightarrow> s2\<lparr>chLoading := False\<rparr>
         | BySave \<Rightarrow> s2\<lparr>chSaving := False\<rparr>
         | ByOther \<Rightarrow> s2)"

definition open_config :: "platform \<Rightarrow> channels \<Rightarrow> channels" where
  "open_config p s = s\<lparr>chDraft := initial_draft p, chErrors := [], chEditing := Some p\<rparr>"

definition close_edit :: "channels \<Rightarrow> channels" where
  "close_edit s = s\<lparr>chEditing := None, chErrors := []\<rparr>"

definition dismiss_edit :: "channels \<Rightarrow> channels" where
  "dismiss_edit s = s\<lparr>chEditing := None\<rparr>"

definition edit_field :: "string \<Rightarrow> string \<Rightarrow> channels \<Rightarrow> channels" where
  "edit_field k v s = s\<lparr>chDraft := obj_set k v (chDraft s), chErrors := obj_del k (chErrors s)\<rparr>"

definition handle_save :: "channels \<Rightarrow> channels" where
  "handle_save s =
     (case chEditing s of
        None \<Rightarrow> s
      | Some p \<Rightarrow>
          (case save_check p (chDraft s) of
             SaveEnv env \<Rightarrow> s\<lparr>chSaving := True, chSaves := chSaves s + 1, chSent := chSent s @ [SaveUpdate p env]\<rparr>
           | FieldsInvalid es \<Rightarrow> s\<lparr>chErrors := es, chToast := Some (FieldsInvalid es)\<rparr>
           | out \<Rightarrow> s\<lparr>chToast := Some out\<rparr>))"

definition save_answered :: "bool \<Rightarrow> channels \<Rightarrow> channels" where
  "save_answered ok s =
     (let s1 = s\<lparr>chSaves := chSaves s - 1\<rparr>
      in if ok then load_channels BySave (s1\<lparr>chEditing := None, chBanner := True\<rparr>) else s1\<lparr>chSaving := False\<rparr>)"

definition handle_toggle :: "platform \<Rightarrow> channels \<Rightarrow> channels" where
  "handle_toggle p s =
     s\<lparr>chToggling := Some (plId p), chToggles := chToggles s @ [(plId p, \<not> plEnabled p)],
       chSent := chSent s @ [ToggleUpdate (plId p) (\<not> plEnabled p)]\<rparr>"

definition toggle_shown :: "string \<Rightarrow> bool \<Rightarrow> platform list \<Rightarrow> platform list" where
  "toggle_shown i on =
     map (\<lambda>p. if plId p = i then p\<lparr>plEnabled := on, plState := (if on then ''pending_restart'' else ''disabled'')\<rparr> else p)"

definition toggle_answered :: "nat \<Rightarrow> bool \<Rightarrow> channels \<Rightarrow> channels" where
  "toggle_answered k ok s =
     (let (i, on) = chToggles s ! k;
          s1 = s\<lparr>chToggles := take_out k (chToggles s), chToggling := None\<rparr>
      in if ok then s1\<lparr>chPlatforms := toggle_shown i on (chPlatforms s), chBanner := True\<rparr> else s1)"

definition handle_test :: "platform \<Rightarrow> channels \<Rightarrow> channels" where
  "handle_test p s = s\<lparr>chTesting := Some (plId p), chTests := chTests s @ [p]\<rparr>"

definition test_answered :: "nat \<Rightarrow> channels \<Rightarrow> channels" where
  "test_answered k s = s\<lparr>chTests := take_out k (chTests s), chTesting := None\<rparr>"

definition handle_restart :: "channels \<Rightarrow> channels" where
  "handle_restart s = s\<lparr>chRestarting := True, chRestarts := chRestarts s + 1\<rparr>"

definition restart_answered :: "bool \<Rightarrow> channels \<Rightarrow> channels" where
  "restart_answered ok s =
     (let s1 = s\<lparr>chRestarts := chRestarts s - 1, chRestarting := False\<rparr>
      in if ok then s1\<lparr>chBanner := False, chTimers := chTimers s + 1\<rparr> else s1)"

text \<open>The pairing panels set the banner and load again through the page.\<close>

datatype channels_event =
    ChLoaded nat "platform list option" | ChOpen platform | ChClose | ChDismiss | ChEdit string string
  | ChSave | ChSaved bool | ChToggle platform | ChToggled nat bool | ChTest platform | ChTested nat
  | ChRestart | ChRestarted bool | ChTimer | ChPanelBanner bool | ChPanelChanged

primrec channels_step :: "channels \<Rightarrow> channels_event \<Rightarrow> channels" where
  "channels_step s (ChLoaded k r) = load_answered k r s"
| "channels_step s (ChOpen p) = open_config p s"
| "channels_step s ChClose = close_edit s"
| "channels_step s ChDismiss = dismiss_edit s"
| "channels_step s (ChEdit k v) = edit_field k v s"
| "channels_step s ChSave = handle_save s"
| "channels_step s (ChSaved ok) = save_answered ok s"
| "channels_step s (ChToggle p) = handle_toggle p s"
| "channels_step s (ChToggled k ok) = toggle_answered k ok s"
| "channels_step s (ChTest p) = handle_test p s"
| "channels_step s (ChTested k) = test_answered k s"
| "channels_step s ChRestart = handle_restart s"
| "channels_step s (ChRestarted ok) = restart_answered ok s"
| "channels_step s ChTimer = load_channels ByOther (s\<lparr>chTimers := chTimers s - 1\<rparr>)"
| "channels_step s (ChPanelBanner b) = s\<lparr>chBanner := b\<rparr>"
| "channels_step s ChPanelChanged = load_channels ByOther s"

definition shown :: "channels \<Rightarrow> platform \<Rightarrow> bool" where
  "shown s p \<longleftrightarrow> \<not> chLoading s \<and> p \<in> set (chPlatforms s)"

primrec channels_enabled :: "channels \<Rightarrow> channels_event \<Rightarrow> bool" where
  "channels_enabled s (ChLoaded k r) = (k < length (chLoads s))"
| "channels_enabled s (ChOpen p) = shown s p"
| "channels_enabled s ChClose = (chEditing s \<noteq> None)"
| "channels_enabled s ChDismiss = (chEditing s \<noteq> None)"
| "channels_enabled s (ChEdit k v) = (case chEditing s of None \<Rightarrow> False | Some p \<Rightarrow> k \<in> efKey ` set (plFields p))"
| "channels_enabled s ChSave = (chEditing s \<noteq> None \<and> \<not> chSaving s)"
| "channels_enabled s (ChSaved ok) = (0 < chSaves s)"
| "channels_enabled s (ChToggle p) = (shown s p \<and> chToggling s \<noteq> Some (plId p))"
| "channels_enabled s (ChToggled k ok) = (k < length (chToggles s))"
| "channels_enabled s (ChTest p) = (shown s p \<and> chTesting s \<noteq> Some (plId p))"
| "channels_enabled s (ChTested k) = (k < length (chTests s))"
| "channels_enabled s ChRestart = (\<not> chRestarting s)"
| "channels_enabled s (ChRestarted ok) = (0 < chRestarts s)"
| "channels_enabled s ChTimer = (0 < chTimers s)"
| "channels_enabled s (ChPanelBanner b) = (\<not> chLoading s)"
| "channels_enabled s ChPanelChanged = (\<not> chLoading s)"

abbreviation channels_run :: "channels_event list \<Rightarrow> channels" where
  "channels_run es \<equiv> foldl channels_step channels_start es"

section \<open>Invariants\<close>

text \<open>What a save sends to the gateway: for fields of the channel, each once, values that are trimmed, not blank
  and well formed, among them all fields that the channel requires and lacks.\<close>

definition env_ok :: "platform \<Rightarrow> (string \<times> string) list \<Rightarrow> bool" where
  "env_ok p env \<longleftrightarrow>
     env \<noteq> [] \<and> distinct (map fst env) \<and> set (map fst env) \<subseteq> set (map efKey (plFields p))
     \<and> list_all (\<lambda>(k, v). v \<noteq> [] \<and> trimmed v \<and> well_formed_value k v) env
     \<and> list_all (\<lambda>f. efRequired f \<and> \<not> efIsSet f \<longrightarrow> efKey f \<in> set (map fst env)) (plFields p)"

definition update_ok :: "chan_update \<Rightarrow> bool" where
  "update_ok u \<longleftrightarrow> (case u of SaveUpdate p env \<Rightarrow> env_ok p env | ToggleUpdate i on \<Rightarrow> True)"

definition draft_ok :: "platform \<Rightarrow> (string \<times> string) list \<Rightarrow> bool" where
  "draft_ok p draft \<longleftrightarrow> distinct (map fst draft) \<and> set (map fst draft) \<subseteq> set (map efKey (plFields p))"

definition channels_inv :: "channels \<Rightarrow> bool" where
  "channels_inv s \<longleftrightarrow>
     list_all update_ok (chSent s)
     \<and> (\<forall>p. chEditing s = Some p \<longrightarrow> draft_ok p (chDraft s))
     \<and> (chLoading s \<longrightarrow> ByMount \<in> set (chLoads s))
     \<and> (if chSaving s then length (filter ((=) BySave) (chLoads s)) + chSaves s = 1
        else BySave \<notin> set (chLoads s) \<and> chSaves s = 0)
     \<and> (chToggling s \<noteq> None \<longrightarrow> chToggles s \<noteq> [])
     \<and> (chTesting s \<noteq> None \<longrightarrow> chTests s \<noteq> [])
     \<and> (if chRestarting s then chRestarts s = 1 else chRestarts s = 0)"

lemma initial_draft_ok: "draft_ok p (initial_draft p)"
proof -
  have "distinct (map fst (fold (\<lambda>f. obj_set (efKey f) []) fs d))
      \<and> fst ` set (fold (\<lambda>f. obj_set (efKey f) ([]::string)) fs d) = fst ` set d \<union> efKey ` set fs"
    if "distinct (map fst d)" for fs d
    using that by (induction fs arbitrary: d) (auto simp: keys_obj_set distinct_obj_set)
  from this [of "[]" "plFields p"] show ?thesis by (simp add: draft_ok_def initial_draft_def)
qed

lemma draft_value_in: "draft_value draft k \<noteq> [] \<Longrightarrow> k \<in> fst ` set draft"
  by (auto simp: draft_value_def split: option.splits dest!: map_of_SomeD) force

lemma save_check_ok:
  assumes d: "draft_ok p draft" and c: "save_check p draft = SaveEnv env"
  shows "env_ok p env"
proof -
  have dist: "distinct (map fst draft)" and keys: "fst ` set draft \<subseteq> efKey ` set (plFields p)"
    using d by (simp_all add: draft_ok_def)
  have env: "env = draft_env draft" "env \<noteq> []" "missing_fields p env = []" "field_errors p draft = []"
    using c by (auto simp: save_check_def Let_def split: if_splits)
  have valid: "validate_field f (draft_value draft (efKey f)) = None" if "f \<in> set (plFields p)" for f
    using env(4) that by (simp add: field_errors_empty list_all_iff)
  have one: "v = trim (draft_value draft k) \<and> k \<in> fst ` set draft \<and> v \<noteq> []" if e: "(k, v) \<in> set env" for k v
  proof -
    obtain u where "(k, u) \<in> set draft" "v = trim u" "v \<noteq> []"
      using e by (auto simp: env(1) draft_env_def)
    then show ?thesis using dist by (force simp: draft_value_def)
  qed
  have "distinct (map fst env)"
    using dist unfolding env(1) draft_env_def
    by (induction draft) (auto simp: case_prod_beta image_iff)
  moreover have "fst ` set env \<subseteq> efKey ` set (plFields p)"
    using one keys by force
  moreover have "v \<noteq> [] \<and> trimmed v \<and> well_formed_value k v" if e: "(k, v) \<in> set env" for k v
  proof -
    obtain f where f: "f \<in> set (plFields p)" "efKey f = k"
      using one [OF e] keys by auto
    then show ?thesis using valid [OF f(1)] one [OF e] by (auto simp: validate_none trimmed_trim)
  qed
  moreover have "efKey f \<in> fst ` set env" if "f \<in> set (plFields p)" "efRequired f" "\<not> efIsSet f" for f
    using env(3) that draft_value_in [of env] by (auto simp: missing_fields_def filter_empty_conv)
  ultimately show ?thesis using env(2) by (auto simp: env_ok_def list_all_iff)
qed

lemma toggle_shown_ids: "map plId (toggle_shown i on ps) = map plId ps"
  by (simp add: toggle_shown_def)

lemma count_take_out:
  "k < length xs \<Longrightarrow> length (filter P xs) = (if P (xs ! k) then 1 else 0) + length (filter P (take_out k xs))"
proof -
  assume "k < length xs"
  then have "xs = take k xs @ xs ! k # drop (Suc k) xs" by (simp add: id_take_nth_drop)
  then have "length (filter P xs) = length (filter P (take k xs @ xs ! k # drop (Suc k) xs))" by simp
  then show ?thesis by (simp add: take_out_def)
qed

lemma edit_draft_ok: "draft_ok p d \<Longrightarrow> k \<in> efKey ` set (plFields p) \<Longrightarrow> draft_ok p (obj_set k v d)"
  by (auto simp: draft_ok_def keys_obj_set distinct_obj_set)

lemma saves_pending: "BySave \<notin> set xs \<longleftrightarrow> length (filter ((=) BySave) xs) = 0"
  by (auto simp: filter_empty_conv)

text \<open>The saves and the loads that follow them.\<close>

abbreviation saves_open :: "channels \<Rightarrow> nat" where
  "saves_open s \<equiv> length (filter ((=) BySave) (chLoads s)) + chSaves s"

lemma channels_inv_alt:
  "channels_inv s \<longleftrightarrow>
     list_all update_ok (chSent s) \<and> (\<forall>p. chEditing s = Some p \<longrightarrow> draft_ok p (chDraft s))
     \<and> (chLoading s \<longrightarrow> ByMount \<in> set (chLoads s))
     \<and> saves_open s = (if chSaving s then 1 else 0)
     \<and> (chToggling s \<noteq> None \<longrightarrow> chToggles s \<noteq> []) \<and> (chTesting s \<noteq> None \<longrightarrow> chTests s \<noteq> [])
     \<and> chRestarts s = (if chRestarting s then 1 else 0)"
  by (auto simp: channels_inv_def saves_pending)

lemma load_answered_inv:
  assumes inv: "channels_inv s" and k: "k < length (chLoads s)"
  shows "channels_inv (load_answered k r s)"
proof -
  let ?s1 = "case r of Some ps \<Rightarrow> s\<lparr>chPlatforms := ps\<rparr> | None \<Rightarrow> s"
  have s1: "channels_inv ?s1" "chLoads ?s1 = chLoads s"
    using inv by (auto simp: channels_inv_alt split: option.split if_splits)
  have mount: "ByMount \<in> set (take_out k (chLoads s))" if "chLoads s ! k \<noteq> ByMount" "chLoading ?s1"
    using that s1 k by (intro still_in_take_out) (simp_all add: channels_inv_alt)
  show ?thesis
    using s1 count_take_out [OF k, of "(=) BySave"] mount
    by (cases "chLoads s ! k") (auto simp: load_answered_def Let_def channels_inv_alt split: if_splits)
qed

lemma channels_step_inv: "channels_inv s \<Longrightarrow> channels_enabled s e \<Longrightarrow> channels_inv (channels_step s e)"
proof (cases e)
  case (ChLoaded k r)
  then show "channels_inv s \<Longrightarrow> channels_enabled s e \<Longrightarrow> channels_inv (channels_step s e)"
    by (simp add: load_answered_inv)
next
  case ChSave
  assume inv: "channels_inv s" "channels_enabled s e"
  then obtain p where p: "chEditing s = Some p" "draft_ok p (chDraft s)" "\<not> chSaving s"
    using ChSave by (auto simp: channels_inv_def)
  then show ?thesis
    using inv ChSave save_check_ok [OF p(2)]
    by (cases "save_check p (chDraft s)") (simp_all add: handle_save_def channels_inv_alt update_ok_def)
qed (auto simp: channels_inv_alt open_config_def initial_draft_ok close_edit_def dismiss_edit_def edit_field_def edit_draft_ok
    save_answered_def load_channels_def handle_toggle_def toggle_answered_def handle_test_def test_answered_def
    handle_restart_def restart_answered_def update_ok_def Let_def split: option.splits if_splits prod.splits)

lemma channels_inv_start: "channels_inv channels_start"
  by (simp add: channels_inv_def channels_start_def)

interpretation channel_page: machine channels_start channels_step channels_enabled channels_inv
  by unfold_locales (simp_all add: channels_inv_start channels_step_inv)

section \<open>Properties\<close>

text \<open>Claim C26. The gateway is sent only checked settings: whatever the user does and in whatever order the
  answers come, every save names each field at most once, only fields of its channel, with trimmed, nonempty
  and well-formed values, and names every field that the channel requires and lacks.\<close>

theorem channel_saves_are_checked:
  assumes "legal_run channels_enabled channels_step channels_start es" "SaveUpdate p env \<in> set (chSent (channels_run es))"
  shows "env_ok p env"
  using channel_page.run_inv [OF assms(1)] assms(2)
  by (auto simp: channels_inv_def list_all_iff update_ok_def split: chan_update.splits)

definition slack_platform :: platform where
  "slack_platform =
     \<lparr>plId = ''slack'', plName = ''Slack'', plEnabled = False, plConfigured = False, plRunning = True, plState = ''disabled'',
      plFields = [\<lparr>efKey = ''SLACK_BOT_TOKEN'', efRequired = True, efIsSet = False, efPrompt = []\<rparr>,
                  \<lparr>efKey = ''SLACK_ALLOWED_USERS'', efRequired = False, efIsSet = False, efPrompt = []\<rparr>]\<rparr>"

definition saving_slack :: "channels_event list" where
  "saving_slack =
     [ChLoaded 0 (Some [slack_platform]), ChOpen slack_platform, ChSave, ChEdit ''SLACK_BOT_TOKEN'' ''xapp-1'', ChSave,
      ChEdit ''SLACK_BOT_TOKEN'' '' xoxb-1 '', ChEdit ''SLACK_ALLOWED_USERS'' ''U01AB, *,'', ChSave]"

lemma channel_saves_are_checked_witness:
  "legal_run channels_enabled channels_step channels_start saving_slack
   \<and> chSent (channels_run saving_slack)
       = [SaveUpdate slack_platform [(''SLACK_BOT_TOKEN'', ''xoxb-1''), (''SLACK_ALLOWED_USERS'', ''U01AB, *,'')]]
   \<and> env_ok slack_platform [(''SLACK_BOT_TOKEN'', ''xoxb-1''), (''SLACK_ALLOWED_USERS'', ''U01AB, *,'')]"
proof -
  have legal: "legal_run channels_enabled channels_step channels_start saving_slack"
    and sent: "chSent (channels_run saving_slack)
       = [SaveUpdate slack_platform [(''SLACK_BOT_TOKEN'', ''xoxb-1''), (''SLACK_ALLOWED_USERS'', ''U01AB, *,'')]]"
    by code_simp+
  then show ?thesis using channel_saves_are_checked [OF legal] by simp
qed

text \<open>With no request under way nothing on the page is busy.\<close>

theorem channels_page_at_rest:
  assumes "legal_run channels_enabled channels_step channels_start es"
    and "chLoads (channels_run es) = []" "chSaves (channels_run es) = 0" "chToggles (channels_run es) = []"
      "chTests (channels_run es) = []" "chRestarts (channels_run es) = 0"
  shows "\<not> chLoading (channels_run es) \<and> \<not> chSaving (channels_run es) \<and> chToggling (channels_run es) = None
    \<and> chTesting (channels_run es) = None \<and> \<not> chRestarting (channels_run es)"
  using channel_page.run_inv [OF assms(1)] assms(2-)
  by (auto simp: channels_inv_alt split: if_splits)

text \<open>What the dialog says, on every branch.\<close>

theorem save_outcomes:
  assumes "distinct (map fst draft)"
  shows "save_check p draft = NothingToSave \<longleftrightarrow> list_all (\<lambda>(k, v). trim v = []) draft"
    and "(\<exists>l. save_check p draft = FieldMissing l) \<longleftrightarrow>
      \<not> list_all (\<lambda>(k, v). trim v = []) draft
      \<and> list_ex (\<lambda>f. efRequired f \<and> \<not> efIsSet f \<and> trim (draft_value draft (efKey f)) = []) (plFields p)"
    and "(\<exists>es. save_check p draft = FieldsInvalid es) \<longleftrightarrow>
      \<not> list_all (\<lambda>(k, v). trim v = []) draft
      \<and> list_all (\<lambda>f. efRequired f \<and> \<not> efIsSet f \<longrightarrow> trim (draft_value draft (efKey f)) \<noteq> []) (plFields p)
      \<and> list_ex (\<lambda>f. trim (draft_value draft (efKey f)) \<noteq> []
             \<and> \<not> well_formed_value (efKey f) (trim (draft_value draft (efKey f)))) (plFields p)"
proof -
  have m: "missing_fields p (draft_env draft) = [] \<longleftrightarrow>
      list_all (\<lambda>f. efRequired f \<and> \<not> efIsSet f \<longrightarrow> trim (draft_value draft (efKey f)) \<noteq> []) (plFields p)"
    by (auto simp: missing_fields_def filter_empty_conv list_all_iff draft_env_value [OF assms])
  have e: "field_errors p draft = [] \<longleftrightarrow>
      \<not> list_ex (\<lambda>f. trim (draft_value draft (efKey f)) \<noteq> []
             \<and> \<not> well_formed_value (efKey f) (trim (draft_value draft (efKey f)))) (plFields p)"
    by (auto simp: field_errors_empty validate_none list_all_iff list_ex_iff)
  note defs = save_check_def Let_def draft_env_empty m e
  show "save_check p draft = NothingToSave \<longleftrightarrow> list_all (\<lambda>(k, v). trim v = []) draft"
    by (simp add: defs)
  show "(\<exists>l. save_check p draft = FieldMissing l) \<longleftrightarrow>
      \<not> list_all (\<lambda>(k, v). trim v = []) draft
      \<and> list_ex (\<lambda>f. efRequired f \<and> \<not> efIsSet f \<and> trim (draft_value draft (efKey f)) = []) (plFields p)"
    by (auto simp: defs list_all_iff list_ex_iff)
  show "(\<exists>es. save_check p draft = FieldsInvalid es) \<longleftrightarrow>
      \<not> list_all (\<lambda>(k, v). trim v = []) draft
      \<and> list_all (\<lambda>f. efRequired f \<and> \<not> efIsSet f \<longrightarrow> trim (draft_value draft (efKey f)) \<noteq> []) (plFields p)
      \<and> list_ex (\<lambda>f. trim (draft_value draft (efKey f)) \<noteq> []
             \<and> \<not> well_formed_value (efKey f) (trim (draft_value draft (efKey f)))) (plFields p)"
    by (auto simp: defs)
qed

text \<open>The time shown is the least number of whole seconds that covers the time left.\<close>

theorem expiry_is_covered:
  assumes "now < e"
  shows "\<exists>m r. format_expiry (Some e) now = show_nat m @ '':'' @ pad2 r \<and> r < 60
    \<and> e - now \<le> 1000 * int (60 * m + r) \<and> 1000 * int (60 * m + r) < e - now + 1000"
proof -
  let ?n = "nat ((e - now + 999) div 1000)"
  have "60 * (?n div 60) + ?n mod 60 = ?n" by simp
  moreover have "e - now \<le> 1000 * int ?n" "1000 * int ?n < e - now + 1000"
    using assms by (simp_all add: pos_imp_zdiv_nonneg_iff)
  ultimately show ?thesis
    using assms unfolding format_expiry_def
    by (intro exI [of _ "?n div 60"] exI [of _ "?n mod 60"]) (auto simp: Let_def)
qed

section \<open>What the code does not do\<close>

text \<open>The answer to a save closes the dialog that is open by then, with what was typed into it.\<close>

lemma save_closes_another_dialog:
  "let s = channels_run (saving_slack @ [ChDismiss, ChOpen (slack_platform\<lparr>plId := ''other''\<rparr>),
         ChEdit ''SLACK_BOT_TOKEN'' ''xoxb-2'', ChSaved True])
   in chEditing s = None"
  by code_simp

text \<open>A load that was sent before a switch was turned shows the channel as it was before, and turning it again
  sends the same request.\<close>

lemma stale_load_undoes_a_switch:
  "let s = channels_run [ChLoaded 0 (Some [slack_platform]), ChPanelChanged, ChToggle slack_platform, ChToggled 0 True,
         ChLoaded 0 (Some [slack_platform])]
   in chPlatforms s = [slack_platform] \<and> chSent s = [ToggleUpdate ''slack'' True]"
  by code_simp

text \<open>The answer to one switch ends the spinner of another.\<close>

lemma one_switch_frees_another:
  "let p = slack_platform\<lparr>plId := ''b''\<rparr>;
       s = channels_run [ChLoaded 0 (Some [slack_platform, p]), ChToggle slack_platform, ChToggle p, ChToggled 0 True]
   in chToggling s = None \<and> chToggles s = [(''b'', True)] \<and> channels_enabled s (ChToggle p)"
  by code_simp

text \<open>The answer to a restart takes down the banner of a change that was saved after the restart was asked for.\<close>

lemma restart_hides_a_later_change:
  "let s = channels_run [ChLoaded 0 (Some [slack_platform]), ChRestart, ChToggle slack_platform, ChToggled 0 True, ChRestarted True]
   in \<not> chBanner s"
  by code_simp

end
