(* ===== verification/ChannelPairing.thy ===== *)
theory ChannelPairing
  imports Channels
begin

text \<open>
  The two pairing panels of \<open>web/src/pages/ChannelsPage.tsx\<close>: the set-up of a Telegram bot and of WhatsApp
  by a QR code. A panel asks the gateway for a pairing, polls its state, and applies it. \<open>qr\<close> renders a
  code (\<open>QRCode.toDataURL\<close> of a package); it answers before the page is drawn again. A step ends with the
  effects that depend on what it changed; answers to polls of an earlier run of the effect do nothing.
\<close>

section \<open>What both panels share\<close>

datatype poll_state = PollOff | PollTimer | PollAsked

datatype panel_out = OutBanner bool | OutChanged | OutChangedLater | OutWatch

datatype pairing_error =
    PairNotNumeric | PairExpired | PairRetrying string | PairNeedsUser | PairFailed string

record apply_result =
  arStarted :: "bool option"
  arNeedsRestart :: bool

text \<open>\<open>watchRestartOutcome\<close> on the answers to come: the exit code of a failed restart, or nothing.\<close>

datatype action_answer = ActRunning | ActExit "int option" | ActLost

fun watch_restart :: "nat \<Rightarrow> action_answer list \<Rightarrow> int option" where
  "watch_restart n [] = None"
| "watch_restart 0 as = None"
| "watch_restart (Suc n) (ActRunning # as) = watch_restart n as"
| "watch_restart (Suc n) (ActLost # as) = watch_restart n as"
| "watch_restart (Suc n) (ActExit c # as) = (if c \<noteq> Some 0 \<and> c \<noteq> None then c else None)"

definition watch_restart_outcome :: "action_answer list \<Rightarrow> int option" where
  "watch_restart_outcome as = watch_restart 20 as"

definition has_expired :: "int option \<Rightarrow> int \<Rightarrow> bool" where
  "has_expired expires now \<longleftrightarrow> (case expires of None \<Rightarrow> False | Some e \<Rightarrow> e \<le> now)"

definition fails_with :: "nat \<Rightarrow> action_answer list \<Rightarrow> int \<Rightarrow> bool" where
  "fails_with n as c \<longleftrightarrow> (\<exists>us vs. as = us @ ActExit (Some c) # vs \<and> length us < n \<and> set us \<subseteq> {ActRunning, ActLost})"

lemma fails_later: "a \<in> {ActRunning, ActLost} \<Longrightarrow> fails_with (Suc n) (a # as) c \<longleftrightarrow> fails_with n as c"
proof
  assume a: "a \<in> {ActRunning, ActLost}"
  {
    assume "fails_with (Suc n) (a # as) c"
    then obtain us vs where "a # as = us @ ActExit (Some c) # vs" "length us < Suc n" "set us \<subseteq> {ActRunning, ActLost}"
      by (auto simp: fails_with_def)
    then show "fails_with n as c" using a by (cases us) (auto simp: fails_with_def)
  next
    assume "fails_with n as c"
    then obtain us vs where "as = us @ ActExit (Some c) # vs" "length us < n" "set us \<subseteq> {ActRunning, ActLost}"
      by (auto simp: fails_with_def)
    then show "fails_with (Suc n) (a # as) c"
      using a unfolding fails_with_def by (intro exI [of _ "a # us"] exI [of _ vs]) auto
  }
qed

lemma fails_now: "fails_with (Suc n) (ActExit a # as) c \<longleftrightarrow> a = Some c"
proof
  assume "fails_with (Suc n) (ActExit a # as) c"
  then obtain us vs where "ActExit a # as = us @ ActExit (Some c) # vs" "set us \<subseteq> {ActRunning, ActLost}"
    by (auto simp: fails_with_def)
  then show "a = Some c" by (cases us) auto
next
  assume "a = Some c"
  then show "fails_with (Suc n) (ActExit a # as) c"
    unfolding fails_with_def by (intro exI [of _ "[]"] exI [of _ as]) auto
qed

lemma watch_restart_iff: "watch_restart n as = Some c \<longleftrightarrow> c \<noteq> 0 \<and> fails_with n as c"
proof (induction n as rule: watch_restart.induct)
  case (3 n as)
  then show ?case by (simp add: fails_later)
next
  case (4 n as)
  then show ?case by (simp add: fails_later)
next
  case (5 n a as)
  then show ?case by (auto simp: fails_now)
qed (auto simp: fails_with_def)

section \<open>Telegram\<close>

record tg_setup =
  tsPairing :: string
  tsPayload :: string
  tsExpires :: "int option"

datatype tg_phase = TgIdle | TgStarting | TgWaiting | TgReady | TgApplying

text \<open>\<open>tgGen\<close> counts the set-ups that were stored, \<open>tgPoll\<close> is the poll of the current run of the effect;
  then come the requests under way, the applications and what the page was told. \<open>tgSeen\<close> are the pairings
  that the gateway reported as ready.\<close>

record telegram =
  tgSetup :: "tg_setup option"
  tgGen :: nat
  tgQr :: string
  tgPhase :: tg_phase
  tgBot :: "string option"
  tgAllowed :: "string list"
  tgOwner :: "string option"
  tgNewId :: string
  tgError :: "pairing_error option"
  tgPoll :: poll_state
  tgStarts :: nat
  tgCancels :: nat
  tgApplies :: nat
  tgRestarts :: nat
  tgSent :: "(string \<times> string list) list"
  tgOut :: "panel_out list"
  tgSeen :: "string list"

definition telegram_start :: telegram where
  "telegram_start =
     \<lparr>tgSetup = None, tgGen = 0, tgQr = [], tgPhase = TgIdle, tgBot = None, tgAllowed = [], tgOwner = None, tgNewId = [],
      tgError = None, tgPoll = PollOff, tgStarts = 0, tgCancels = 0, tgApplies = 0, tgRestarts = 0, tgSent = [], tgOut = [],
      tgSeen = []\<rparr>"

datatype tg_status = TgStillWaiting | TgIsReady "string option" "string option"

definition tg_reset :: "telegram \<Rightarrow> telegram" where
  "tg_reset s =
     s\<lparr>tgSetup := None, tgQr := [], tgPhase := TgIdle, tgBot := None, tgAllowed := [], tgOwner := None, tgNewId := [], tgError := None\<rparr>"

definition tg_start :: "telegram \<Rightarrow> telegram" where
  "tg_start s =
     s\<lparr>tgPhase := TgStarting, tgError := None, tgBot := None, tgAllowed := [], tgOwner := None, tgNewId := [], tgStarts := tgStarts s + 1\<rparr>"

definition tg_started :: "(string \<Rightarrow> string option) \<Rightarrow> string + tg_setup \<Rightarrow> telegram \<Rightarrow> telegram" where
  "tg_started qr r s =
     (let s1 = s\<lparr>tgStarts := tgStarts s - 1\<rparr>
      in case r of
           Inl e \<Rightarrow> s1\<lparr>tgPhase := TgIdle, tgError := Some (PairFailed e)\<rparr>
         | Inr setup \<Rightarrow>
             (case qr (tsPayload setup) of
                None \<Rightarrow> s1\<lparr>tgPhase := TgIdle, tgError := Some (PairFailed [])\<rparr>
              | Some u \<Rightarrow> s1\<lparr>tgSetup := Some setup, tgGen := tgGen s + 1, tgQr := u, tgPhase := TgWaiting\<rparr>))"

text \<open>An answer to the poll of the current run; a failure comes with the time of its arrival.\<close>

definition tg_polled :: "(string \<times> int) + tg_status \<Rightarrow> telegram \<Rightarrow> telegram" where
  "tg_polled r s =
     (case tgSetup s of
        None \<Rightarrow> s
      | Some setup \<Rightarrow>
          (case r of
             Inr (TgIsReady username owner) \<Rightarrow>
               (let s1 = s\<lparr>tgPhase := TgReady, tgBot := username, tgError := None, tgSeen := tsPairing setup # tgSeen s\<rparr>
                in case owner of
                     Some u \<Rightarrow> if telegram_user_id u then s1\<lparr>tgOwner := Some u, tgAllowed := [u]\<rparr> else s1
                   | None \<Rightarrow> s1)
           | Inr TgStillWaiting \<Rightarrow> s\<lparr>tgError := None, tgPoll := PollTimer\<rparr>
           | Inl (e, now) \<Rightarrow>
               if terminal_telegram_error e \<or> has_expired (tsExpires setup) now
               then s\<lparr>tgSetup := None, tgQr := [], tgPhase := TgIdle, tgError := Some PairExpired\<rparr>
               else s\<lparr>tgError := Some (PairRetrying e), tgPoll := PollTimer\<rparr>))"

definition tg_cancel :: "telegram \<Rightarrow> telegram" where
  "tg_cancel s = (if tgSetup s = None then tg_reset s else s\<lparr>tgCancels := tgCancels s + 1\<rparr>)"

definition tg_cancelled :: "telegram \<Rightarrow> telegram" where
  "tg_cancelled s = tg_reset (s\<lparr>tgCancels := tgCancels s - 1\<rparr>)"

definition add_allowed_id :: "telegram \<Rightarrow> telegram" where
  "add_allowed_id s =
     (let t = trim (tgNewId s)
      in if \<not> telegram_user_id t then s\<lparr>tgError := Some PairNotNumeric\<rparr>
         else s\<lparr>tgError := None, tgAllowed := (if t \<in> set (tgAllowed s) then tgAllowed s else tgAllowed s @ [t]), tgNewId := []\<rparr>)"

definition remove_allowed_id :: "string \<Rightarrow> telegram \<Rightarrow> telegram" where
  "remove_allowed_id u s = s\<lparr>tgAllowed := filter (\<lambda>v. v \<noteq> u) (tgAllowed s)\<rparr>"

definition tg_apply :: "telegram \<Rightarrow> telegram" where
  "tg_apply s =
     (case tgSetup s of
        None \<Rightarrow> s
      | Some setup \<Rightarrow>
          if tgAllowed s = [] then s\<lparr>tgError := Some PairNeedsUser\<rparr>
          else s\<lparr>tgPhase := TgApplying, tgError := None, tgApplies := tgApplies s + 1,
                 tgSent := tgSent s @ [(tsPairing setup, tgAllowed s)]\<rparr>)"

definition tg_tell :: "panel_out list \<Rightarrow> telegram \<Rightarrow> telegram" where
  "tg_tell os s = s\<lparr>tgOut := tgOut s @ os\<rparr>"

definition tg_applied :: "string + apply_result \<Rightarrow> telegram \<Rightarrow> telegram" where
  "tg_applied r s =
     (let s1 = s\<lparr>tgApplies := tgApplies s - 1\<rparr>
      in case r of
           Inl e \<Rightarrow> s1\<lparr>tgPhase := TgReady, tgError := Some (PairFailed e)\<rparr>
         | Inr a \<Rightarrow>
             if arStarted a = Some True then tg_tell [OutBanner False, OutChangedLater, OutWatch, OutChanged] (tg_reset s1)
             else if arStarted a = None \<and> arNeedsRestart a then (tg_reset s1)\<lparr>tgRestarts := tgRestarts s + 1\<rparr>
             else tg_tell [OutBanner True, OutChanged] (tg_reset s1))"

definition tg_restarted :: "bool \<Rightarrow> telegram \<Rightarrow> telegram" where
  "tg_restarted ok s =
     tg_tell ((if ok then [OutBanner False, OutChangedLater] else [OutBanner True]) @ [OutChanged]) (s\<lparr>tgRestarts := tgRestarts s - 1\<rparr>)"

text \<open>The effect of \<open>[phase, setup]\<close>.\<close>

definition tg_effect :: "telegram \<Rightarrow> telegram \<Rightarrow> telegram" where
  "tg_effect old s =
     (if (tgPhase s, tgSetup s, tgGen s) = (tgPhase old, tgSetup old, tgGen old) then s
      else s\<lparr>tgPoll := (if tgSetup s \<noteq> None \<and> tgPhase s = TgWaiting then PollTimer else PollOff)\<rparr>)"

datatype tg_event =
    TgStart | TgStarted "string + tg_setup" | TgPollFires | TgPolled "(string \<times> int) + tg_status"
  | TgCancel | TgCancelled | TgType string | TgAdd | TgRemove string | TgApply | TgApplied "string + apply_result" | TgRestarted bool

primrec tg_handle :: "(string \<Rightarrow> string option) \<Rightarrow> telegram \<Rightarrow> tg_event \<Rightarrow> telegram" where
  "tg_handle qr s TgStart = tg_start s"
| "tg_handle qr s (TgStarted r) = tg_started qr r s"
| "tg_handle qr s TgPollFires = s\<lparr>tgPoll := PollAsked\<rparr>"
| "tg_handle qr s (TgPolled r) = tg_polled r s"
| "tg_handle qr s TgCancel = tg_cancel s"
| "tg_handle qr s TgCancelled = tg_cancelled s"
| "tg_handle qr s (TgType t) = s\<lparr>tgNewId := t\<rparr>"
| "tg_handle qr s TgAdd = add_allowed_id s"
| "tg_handle qr s (TgRemove u) = remove_allowed_id u s"
| "tg_handle qr s TgApply = tg_apply s"
| "tg_handle qr s (TgApplied r) = tg_applied r s"
| "tg_handle qr s (TgRestarted ok) = tg_restarted ok s"

definition tg_step :: "(string \<Rightarrow> string option) \<Rightarrow> telegram \<Rightarrow> tg_event \<Rightarrow> telegram" where
  "tg_step qr s e = tg_effect s (tg_handle qr s e)"

text \<open>The block with the code and the cancel button, and the controls of a pairing that is ready.\<close>

definition tg_shown :: "telegram \<Rightarrow> bool" where
  "tg_shown s \<longleftrightarrow> tgSetup s \<noteq> None \<and> tgQr s \<noteq> []"

definition tg_controls :: "telegram \<Rightarrow> bool" where
  "tg_controls s \<longleftrightarrow> tg_shown s \<and> tgPhase s \<in> {TgReady, TgApplying}"

primrec tg_enabled :: "telegram \<Rightarrow> tg_event \<Rightarrow> bool" where
  "tg_enabled s TgStart = (tgPhase s = TgIdle)"
| "tg_enabled s (TgStarted r) = (0 < tgStarts s)"
| "tg_enabled s TgPollFires = (tgPoll s = PollTimer)"
| "tg_enabled s (TgPolled r) = (tgPoll s = PollAsked)"
| "tg_enabled s TgCancel = tg_shown s"
| "tg_enabled s TgCancelled = (0 < tgCancels s)"
| "tg_enabled s (TgType t) = tg_controls s"
| "tg_enabled s TgAdd = tg_controls s"
| "tg_enabled s (TgRemove u) = (tg_controls s \<and> u \<in> set (tgAllowed s))"
| "tg_enabled s TgApply = (tg_controls s \<and> tgPhase s = TgReady)"
| "tg_enabled s (TgApplied r) = (0 < tgApplies s)"
| "tg_enabled s (TgRestarted ok) = (0 < tgRestarts s)"

text \<open>A patient user does not cancel while a pairing is applied, and waits for a cancellation.\<close>

definition tg_patient :: "telegram \<Rightarrow> tg_event \<Rightarrow> bool" where
  "tg_patient s e \<longleftrightarrow> tg_enabled s e
     \<and> (e \<in> {TgStart, TgCancel, TgApply} \<longrightarrow> tgCancels s = 0) \<and> (e = TgCancel \<longrightarrow> tgApplies s = 0)"

abbreviation tg_run :: "(string \<Rightarrow> string option) \<Rightarrow> tg_event list \<Rightarrow> telegram" where
  "tg_run qr es \<equiv> foldl (tg_step qr) telegram_start es"

definition users_ok :: "string list \<Rightarrow> bool" where
  "users_ok us \<longleftrightarrow> distinct us \<and> list_all telegram_user_id us"

definition tg_inv :: "telegram \<Rightarrow> bool" where
  "tg_inv s \<longleftrightarrow>
     tgStarts s = (if tgPhase s = TgStarting then 1 else 0)
     \<and> tgApplies s = (if tgPhase s = TgApplying then 1 else 0)
     \<and> (tgPhase s \<in> {TgIdle, TgStarting} \<longleftrightarrow> tgSetup s = None)
     \<and> (tgSetup s \<noteq> None \<longrightarrow> tgQr s \<noteq> [])
     \<and> (tgPhase s = TgWaiting \<longleftrightarrow> tgPoll s \<noteq> PollOff)
     \<and> (tgPhase s \<in> {TgReady, TgApplying} \<longrightarrow> (\<exists>setup. tgSetup s = Some setup \<and> tsPairing setup \<in> set (tgSeen s)))
     \<and> (0 < tgCancels s \<longrightarrow> tgCancels s = 1 \<and> tgPhase s \<notin> {TgStarting, TgApplying})
     \<and> users_ok (tgAllowed s)
     \<and> list_all (\<lambda>(p, us). p \<in> set (tgSeen s) \<and> us \<noteq> [] \<and> users_ok us) (tgSent s)"

lemma users_ok_simps [simp]: "users_ok []" "users_ok [u] \<longleftrightarrow> telegram_user_id u"
  by (simp_all add: users_ok_def)

lemma users_ok_add: "users_ok us \<Longrightarrow> telegram_user_id u \<Longrightarrow> u \<notin> set us \<Longrightarrow> users_ok (us @ [u])"
  by (simp add: users_ok_def)

lemma users_ok_remove: "users_ok us \<Longrightarrow> users_ok (filter P us)"
  by (auto simp: users_ok_def list_all_iff)

definition qr_ok :: "(string \<Rightarrow> string option) \<Rightarrow> bool" where
  "qr_ok qr \<longleftrightarrow> (\<forall>p. qr p \<noteq> Some [])"

lemmas tg_defs =
  tg_reset_def tg_start_def tg_started_def tg_polled_def tg_cancel_def tg_cancelled_def add_allowed_id_def
  remove_allowed_id_def tg_apply_def tg_tell_def tg_applied_def tg_restarted_def Let_def

lemma tg_effect_inv:
  assumes "tgStarts s = (if tgPhase s = TgStarting then 1 else 0)" "tgApplies s = (if tgPhase s = TgApplying then 1 else 0)"
    and "tgPhase s \<in> {TgIdle, TgStarting} \<longleftrightarrow> tgSetup s = None" "tgSetup s \<noteq> None \<Longrightarrow> tgQr s \<noteq> []"
    and "(tgPhase s, tgSetup s, tgGen s) = (tgPhase old, tgSetup old, tgGen old) \<Longrightarrow> tgPhase s = TgWaiting \<longleftrightarrow> tgPoll s \<noteq> PollOff"
    and "tgPhase s \<in> {TgReady, TgApplying} \<Longrightarrow> \<exists>setup. tgSetup s = Some setup \<and> tsPairing setup \<in> set (tgSeen s)"
    and "0 < tgCancels s \<Longrightarrow> tgCancels s = 1 \<and> tgPhase s \<notin> {TgStarting, TgApplying}"
    and "users_ok (tgAllowed s)" "list_all (\<lambda>(p, us). p \<in> set (tgSeen s) \<and> us \<noteq> [] \<and> users_ok us) (tgSent s)"
  shows "tg_inv (tg_effect old s)"
  using assms by (auto simp: tg_inv_def tg_effect_def split: if_splits)

lemma tg_calm: "tgPhase t = tgPhase s \<Longrightarrow> tgSetup t = tgSetup s \<Longrightarrow> tgGen t = tgGen s \<Longrightarrow> tg_effect s t = t"
  by (simp add: tg_effect_def)

lemma tg_calm_inv:
  assumes "tg_inv s" "users_ok (tgAllowed t)"
    and "tgPhase t = tgPhase s" "tgSetup t = tgSetup s" "tgGen t = tgGen s" "tgPoll t = tgPoll s" "tgQr t = tgQr s" "tgSeen t = tgSeen s"
      "tgStarts t = tgStarts s" "tgApplies t = tgApplies s" "tgCancels t = tgCancels s" "tgSent t = tgSent s"
  shows "tg_inv (tg_effect s t)"
proof -
  have "tg_effect s t = t" by (rule tg_calm) (rule assms)+
  moreover have "tg_inv t" using assms(1,2) unfolding tg_inv_def assms(3-) by blast
  ultimately show ?thesis by simp
qed

lemma sent_ok_mono:
  "list_all (\<lambda>(p, us). p \<in> S \<and> us \<noteq> [] \<and> users_ok us) xs \<Longrightarrow> S \<subseteq> T \<Longrightarrow> list_all (\<lambda>(p, us). p \<in> T \<and> us \<noteq> [] \<and> users_ok us) xs"
  by (auto simp: list_all_iff)

lemma tg_started_inv:
  assumes "qr_ok qr" "tg_inv s" "0 < tgStarts s"
  shows "tg_inv (tg_effect s (tg_started qr r s))"
proof -
  have s: "tgPhase s = TgStarting" "tgStarts s = 1" "tgApplies s = 0" "tgSetup s = None" "tgCancels s = 0"
    using assms(2,3) by (auto simp: tg_inv_def split: if_splits)
  have rest: "users_ok (tgAllowed s)" "list_all (\<lambda>(p, us). p \<in> set (tgSeen s) \<and> us \<noteq> [] \<and> users_ok us) (tgSent s)"
    using assms(2) by (simp_all add: tg_inv_def)
  show ?thesis
  proof (cases "r = Inl (projl r) \<or> qr (tsPayload (projr r)) = None")
    case True
    then obtain m where m: "tg_started qr r s = s\<lparr>tgStarts := 0, tgPhase := TgIdle, tgError := m\<rparr>"
      using s(2) by (cases r) (simp_all add: tg_started_def Let_def)
    show ?thesis unfolding m by (rule tg_effect_inv) (simp_all add: s rest)
  next
    case False
    then obtain st u where "r = Inr st" "qr (tsPayload st) = Some u" by (cases r) auto
    then have m: "tg_started qr r s = s\<lparr>tgStarts := 0, tgSetup := Some st, tgGen := tgGen s + 1, tgQr := u, tgPhase := TgWaiting\<rparr>"
      and u: "u \<noteq> []"
      using s(2) assms(1) by (simp_all add: tg_started_def Let_def qr_ok_def) metis
    show ?thesis unfolding m by (rule tg_effect_inv) (simp_all add: s rest u)
  qed
qed

lemma tg_polled_inv:
  assumes "tg_inv s" "tgPoll s = PollAsked"
  shows "tg_inv (tg_effect s (tg_polled r s))"
proof -
  have s: "tgPhase s = TgWaiting" "tgStarts s = 0" "tgApplies s = 0" "tgQr s \<noteq> []"
    "0 < tgCancels s \<Longrightarrow> tgCancels s = 1" and rest: "users_ok (tgAllowed s)"
      "list_all (\<lambda>(p, us). p \<in> set (tgSeen s) \<and> us \<noteq> [] \<and> users_ok us) (tgSent s)"
    using assms by (auto simp: tg_inv_def)
  obtain u where u: "tgSetup s = Some u" using assms(1) s(1) by (auto simp: tg_inv_def)
  have more: "list_all (\<lambda>(p, us). p \<in> insert (tsPairing u) (set (tgSeen s)) \<and> us \<noteq> [] \<and> users_ok us) (tgSent s)"
    using rest(2) by (rule sent_ok_mono) blast
  consider (fail) x y where "r = Inl (x, y)" | (waits) "r = Inr TgStillWaiting" | (ready) x y where "r = Inr (TgIsReady x y)"
    by (cases r; cases "projr r") auto
  then show ?thesis
  proof cases
    case fail
    show ?thesis unfolding fail by (rule tg_effect_inv) (use s u rest in \<open>auto simp: tg_polled_def\<close>)
  next
    case waits
    show ?thesis unfolding waits by (rule tg_effect_inv) (use s u rest in \<open>auto simp: tg_polled_def\<close>)
  next
    case ready
    obtain us x' where "tg_polled r s = s\<lparr>tgPhase := TgReady, tgBot := x, tgError := None, tgSeen := tsPairing u # tgSeen s,
        tgOwner := x', tgAllowed := us\<rparr>" "users_ok us"
    proof (cases "case y of None \<Rightarrow> False | Some v \<Rightarrow> telegram_user_id v")
      case True
      then show ?thesis using that [of "[the y]" y] u ready by (auto simp: tg_polled_def Let_def split: option.splits)
    next
      case False
      then show ?thesis using that [of "tgAllowed s" "tgOwner s"] u ready rest(1)
        by (auto simp: tg_polled_def Let_def split: option.splits)
    qed
    then show ?thesis using s u rest more by (simp, intro tg_effect_inv) auto
  qed
qed

lemma tg_step_inv:
  assumes qr: "qr_ok qr" and inv: "tg_inv s" and en: "tg_patient s e"
  shows "tg_inv (tg_step qr s e)"
proof (cases e)
  case TgStart
  then show ?thesis using inv en
    by (simp add: tg_step_def) (rule tg_effect_inv; auto simp: tg_inv_def tg_patient_def tg_start_def)
next
  case (TgStarted r)
  then show ?thesis using tg_started_inv [OF qr inv] en by (simp add: tg_step_def tg_patient_def)
next
  case TgPollFires
  then show ?thesis using inv en by (auto simp: tg_step_def tg_calm tg_inv_def tg_patient_def)
next
  case (TgPolled r)
  then show ?thesis using tg_polled_inv [OF inv] en by (simp add: tg_step_def tg_patient_def)
next
  case TgCancel
  then obtain u where "tgSetup s = Some u" using en by (auto simp: tg_patient_def tg_shown_def)
  then show ?thesis using inv en TgCancel
    by (simp add: tg_step_def tg_cancel_def) (rule tg_effect_inv; auto simp: tg_inv_def tg_patient_def)
next
  case TgCancelled
  then have "tgPhase s \<notin> {TgStarting, TgApplying}" "tgCancels s = 1" using inv en by (auto simp: tg_inv_def tg_patient_def)
  then show ?thesis using inv TgCancelled
    by (simp add: tg_step_def tg_cancelled_def tg_reset_def) (rule tg_effect_inv; auto simp: tg_inv_def)
next
  case TgAdd
  have "users_ok (tgAllowed s)" using inv by (simp add: tg_inv_def)
  then show ?thesis using TgAdd
    by (simp add: tg_step_def add_allowed_id_def Let_def) (simp add: tg_calm_inv [OF inv] users_ok_add)
next
  case TgApply
  then obtain u where u: "tgSetup s = Some u" "tgPhase s = TgReady" "tgCancels s = 0"
    using en by (auto simp: tg_patient_def tg_controls_def tg_shown_def)
  show ?thesis
  proof (cases "tgAllowed s = []")
    case True
    then show ?thesis using inv u TgApply by (simp add: tg_step_def tg_apply_def tg_calm_inv)
  next
    case False
    then show ?thesis using inv u TgApply
      by (simp add: tg_step_def tg_apply_def) (rule tg_effect_inv; auto simp: tg_inv_def)
  qed
next
  case (TgApplied r)
  then have "tgPhase s = TgApplying" "tgApplies s = 1" "tgCancels s = 0" "tgStarts s = 0"
    using inv en by (auto simp: tg_inv_def tg_patient_def split: if_splits)
  note s = this
  have reset: "tg_inv (tg_effect s ((tg_reset s)\<lparr>tgApplies := 0, tgRestarts := x, tgOut := y\<rparr>))" for x y
    by (rule tg_effect_inv) (use s inv in \<open>simp_all add: tg_reset_def tg_inv_def\<close>)
  show ?thesis
  proof (cases r)
    case (Inl m)
    have "tg_inv (tg_effect s (s\<lparr>tgApplies := 0, tgPhase := TgReady, tgError := Some (PairFailed m)\<rparr>))"
      by (rule tg_effect_inv) (use s inv in \<open>simp_all add: tg_inv_def\<close>)
    then show ?thesis using TgApplied Inl s by (simp add: tg_step_def tg_applied_def)
  next
    case (Inr a)
    consider "arStarted a = Some True" | "arStarted a = None" "arNeedsRestart a"
      | "arStarted a \<noteq> Some True" "\<not> (arStarted a = None \<and> arNeedsRestart a)"
      by (cases "arStarted a = Some True") auto
    then obtain x y where "tg_applied r s = (tg_reset s)\<lparr>tgApplies := 0, tgRestarts := x, tgOut := y\<rparr>"
    proof cases
      case 1
      then show ?thesis using that [of "tgOut s @ [OutBanner False, OutChangedLater, OutWatch, OutChanged]" "tgRestarts s"] Inr s(2)
        by (simp add: tg_applied_def tg_tell_def tg_reset_def)
    next
      case 2
      then show ?thesis using that [of "tgOut s" "tgRestarts s + 1"] Inr s(2)
        by (simp add: tg_applied_def tg_tell_def tg_reset_def)
    next
      case 3
      then show ?thesis using that [of "tgOut s @ [OutBanner True, OutChanged]" "tgRestarts s"] Inr s(2)
        by (auto simp: tg_applied_def tg_tell_def tg_reset_def Let_def)
    qed
    then show ?thesis using TgApplied reset by (simp add: tg_step_def)
  qed
next
  case (TgType x)
  have "users_ok (tgAllowed s)" using inv by (simp add: tg_inv_def)
  then show ?thesis using TgType by (simp add: tg_step_def tg_calm_inv [OF inv])
next
  case (TgRemove u)
  have "users_ok (tgAllowed s)" using inv by (simp add: tg_inv_def)
  then show ?thesis using TgRemove by (simp add: tg_step_def remove_allowed_id_def tg_calm_inv [OF inv] users_ok_remove)
next
  case (TgRestarted ok)
  have "users_ok (tgAllowed s)" using inv by (simp add: tg_inv_def)
  then show ?thesis using TgRestarted by (simp add: tg_step_def tg_restarted_def tg_tell_def tg_calm_inv [OF inv])
qed

lemma tg_inv_start: "tg_inv telegram_start"
  by (simp add: tg_inv_def telegram_start_def)

lemma tg_machine: "qr_ok qr \<Longrightarrow> machine telegram_start (tg_step qr) tg_patient tg_inv"
  by unfold_locales (simp_all add: tg_inv_start tg_step_inv)

lemma tg_inv_sent:
  assumes "tg_inv s" "(p, us) \<in> set (tgSent s)"
  shows "p \<in> set (tgSeen s) \<and> us \<noteq> [] \<and> distinct us \<and> list_all all_digits us"
proof -
  have "list_all (\<lambda>(p, us). p \<in> set (tgSeen s) \<and> us \<noteq> [] \<and> users_ok us) (tgSent s)"
    using assms(1) by (simp add: tg_inv_def)
  then have "p \<in> set (tgSeen s) \<and> us \<noteq> [] \<and> users_ok us"
    using assms(2) by (auto simp: list_all_iff)
  then show ?thesis by (simp add: users_ok_def telegram_user_id_def [abs_def])
qed

text \<open>Claim C27. A Telegram bot is saved only when it is ready and for named users: with a patient user, every
  application sent is for a pairing the gateway reported ready, and lists at least one user, each once and
  each a number.\<close>

theorem telegram_saves_what_is_ready:
  assumes "qr_ok qr" "legal_run tg_patient (tg_step qr) telegram_start es" "(p, us) \<in> set (tgSent (tg_run qr es))"
  shows "p \<in> set (tgSeen (tg_run qr es)) \<and> us \<noteq> [] \<and> distinct us \<and> list_all all_digits us"
  by (rule tg_inv_sent [OF machine.run_inv [OF tg_machine [OF assms(1)] assms(2)] assms(3)])

text \<open>The panel is never stuck: it offers a start, waits for one, or shows the pairing with its cancel button; and
  a pairing that waits is being polled.\<close>

theorem telegram_panel_goes_on:
  assumes "qr_ok qr" "legal_run tg_patient (tg_step qr) telegram_start es"
  shows "tg_enabled (tg_run qr es) TgStart \<or> 0 < tgStarts (tg_run qr es) \<or> tg_shown (tg_run qr es)"
    and "tgPhase (tg_run qr es) = TgWaiting \<Longrightarrow> tgPoll (tg_run qr es) \<noteq> PollOff"
    and "tgPhase (tg_run qr es) = TgApplying \<Longrightarrow> 0 < tgApplies (tg_run qr es)"
proof -
  define s where "s = tg_run qr es"
  have inv: "tg_inv s"
    using machine.run_inv [OF tg_machine [OF assms(1)] assms(2)] by (simp add: s_def)
  show "tg_enabled (tg_run qr es) TgStart \<or> 0 < tgStarts (tg_run qr es) \<or> tg_shown (tg_run qr es)"
    using inv unfolding s_def [symmetric] by (cases "tgPhase s") (simp_all add: tg_inv_def tg_shown_def)
  show "tgPhase (tg_run qr es) = TgWaiting \<Longrightarrow> tgPoll (tg_run qr es) \<noteq> PollOff"
    and "tgPhase (tg_run qr es) = TgApplying \<Longrightarrow> 0 < tgApplies (tg_run qr es)"
    using inv unfolding s_def [symmetric] by (simp_all add: tg_inv_def)
qed

definition data_url :: "string \<Rightarrow> string option" where
  "data_url p = Some (''data:'' @ p)"

definition pairing :: "string \<Rightarrow> tg_setup" where
  "pairing p = \<lparr>tsPairing = p, tsPayload = p, tsExpires = Some 1000\<rparr>"

definition saving_telegram :: "tg_event list" where
  "saving_telegram =
     [TgStart, TgStarted (Inr (pairing ''p1'')), TgPollFires, TgPolled (Inl (''Error: 503'', 5)), TgPollFires,
      TgPolled (Inr (TgIsReady (Some ''hermes_bot'') (Some ''17''))), TgType ''x'', TgAdd, TgType '' 18 '', TgAdd, TgRemove ''17'', TgApply]"

lemma telegram_saves_what_is_ready_witness:
  "qr_ok data_url \<and> legal_run tg_patient (tg_step data_url) telegram_start saving_telegram
   \<and> tgSent (tg_run data_url saving_telegram) = [(''p1'', [''18''])] \<and> ''p1'' \<in> set (tgSeen (tg_run data_url saving_telegram))"
proof -
  have qr: "qr_ok data_url" by (simp add: qr_ok_def data_url_def)
  have legal: "legal_run tg_patient (tg_step data_url) telegram_start saving_telegram"
    and sent: "tgSent (tg_run data_url saving_telegram) = [(''p1'', [''18''])]"
    by code_simp+
  then show ?thesis using telegram_saves_what_is_ready [OF qr legal] qr by simp
qed

text \<open>Cancelling while the pairing is applied, which then fails, leaves a panel without any control: both ways of
  set-up are disabled and nothing with a cancel button is shown.\<close>

lemma cancelled_application_locks_the_panel:
  "let s = tg_run data_url (saving_telegram @ [TgCancel, TgCancelled, TgApplied (Inl ''Error: 500'')])
   in tgPhase s = TgReady \<and> tgSetup s = None \<and> \<not> tg_enabled s TgStart \<and> \<not> tg_shown s \<and> \<not> tg_controls s
      \<and> legal_run tg_enabled (tg_step data_url) telegram_start (saving_telegram @ [TgCancel, TgCancelled, TgApplied (Inl ''Error: 500'')])"
  by code_simp

text \<open>A second press of cancel takes down the pairing that is started next, and the failure of an application
  that was cancelled makes a pairing look ready that is still waiting.\<close>

lemma second_cancel_ends_the_next_pairing:
  "let es = [TgStart, TgStarted (Inr (pairing ''p1'')), TgCancel, TgCancel, TgCancelled, TgStart, TgStarted (Inr (pairing ''p2'')), TgCancelled]
   in legal_run tg_enabled (tg_step data_url) telegram_start es \<and> tgSetup (tg_run data_url es) = None"
  by code_simp

lemma waiting_pairing_looks_ready:
  "let es = saving_telegram @ [TgCancel, TgCancelled, TgStart, TgStarted (Inr (pairing ''p2'')), TgApplied (Inl ''Error: 500''),
         TgType ''18'', TgAdd, TgApply]
   in legal_run tg_enabled (tg_step data_url) telegram_start es
      \<and> tgSent (tg_run data_url es) = [(''p1'', [''18'']), (''p2'', [''18''])] \<and> tgSeen (tg_run data_url es) = [''p1'']"
  by code_simp

end
