(* ===== verification/WhatsAppPairing.thy ===== *)
theory WhatsAppPairing
  imports ChannelPairing
begin

text \<open>
  The WhatsApp panel of \<open>web/src/pages/ChannelsPage.tsx\<close>: its pairing is linked by scanning a code that
  the gateway renews, and saved with a mode and the numbers allowed to write.
\<close>

section \<open>State\<close>

datatype wa_mode = WaBot | WaSelf

record wa_setup =
  wsPairing :: string
  wsStatus :: string
  wsPayload :: "string option"
  wsExpires :: "int option"
  wsPhone :: "string option"
  wsAccountName :: "string option"
  wsAccountId :: "string option"
  wsError :: "string option"

datatype wa_phase = WaIdle | WaStarting | WaWaiting | WaConnected | WaApplying

definition normalize_mode :: "string option \<Rightarrow> wa_mode option" where
  "normalize_mode m = (if m = Some ''bot'' then Some WaBot else if m = Some ''self-chat'' then Some WaSelf else None)"

text \<open>\<open>waConfigured\<close> is the mode that the gateway has saved. \<open>waLinked\<close> are the pairings it reported as connected.\<close>

record whatsapp =
  waConfigured :: "wa_mode option"
  waSetup :: "wa_setup option"
  waGen :: nat
  waQr :: string
  waPhase :: wa_phase
  waMode :: wa_mode
  waUsers :: string
  waError :: "pairing_error option"
  waPoll :: poll_state
  waStarts :: nat
  waCancels :: nat
  waApplies :: nat
  waAsked :: "wa_mode list"
  waSent :: "(string \<times> wa_mode \<times> string) list"
  waOut :: "panel_out list"
  waLinked :: "string list"

definition whatsapp_start :: "wa_mode option \<Rightarrow> whatsapp" where
  "whatsapp_start m =
     \<lparr>waConfigured = m, waSetup = None, waGen = 0, waQr = [], waPhase = WaIdle,
      waMode = (case m of Some x \<Rightarrow> x | None \<Rightarrow> WaBot), waUsers = [], waError = None, waPoll = PollOff,
      waStarts = 0, waCancels = 0, waApplies = 0, waAsked = [], waSent = [], waOut = [], waLinked = []\<rparr>"

section \<open>Handlers\<close>

definition wa_error_text :: "wa_setup \<Rightarrow> string" where
  "wa_error_text st = (if truthy_str (wsError st) then the (wsError st) else ''WhatsApp setup failed.'')"

definition wa_reset :: "whatsapp \<Rightarrow> whatsapp" where
  "wa_reset s = s\<lparr>waSetup := None, waQr := [], waPhase := WaIdle, waError := None\<rparr>"

definition set_setup :: "wa_setup \<Rightarrow> whatsapp \<Rightarrow> whatsapp" where
  "set_setup st s =
     s\<lparr>waSetup := Some st, waGen := waGen s + 1,
       waLinked := (if wsStatus st = ''connected'' then wsPairing st # waLinked s else waLinked s)\<rparr>"

definition update_qr :: "(string \<Rightarrow> string option) \<Rightarrow> string option \<Rightarrow> whatsapp \<Rightarrow> whatsapp option" where
  "update_qr qr payload s =
     (if \<not> truthy_str payload then Some s
      else (case qr (the payload) of None \<Rightarrow> None | Some u \<Rightarrow> Some (s\<lparr>waQr := u\<rparr>)))"

definition wa_start :: "whatsapp \<Rightarrow> whatsapp" where
  "wa_start s =
     s\<lparr>waPhase := WaStarting, waError := None, waQr := [], waStarts := waStarts s + 1, waAsked := waAsked s @ [waMode s]\<rparr>"

definition wa_started :: "(string \<Rightarrow> string option) \<Rightarrow> string + wa_setup \<Rightarrow> whatsapp \<Rightarrow> whatsapp" where
  "wa_started qr r s =
     (let s1 = s\<lparr>waStarts := waStarts s - 1\<rparr>
      in case r of
           Inl e \<Rightarrow> s1\<lparr>waPhase := WaIdle, waError := Some (PairFailed e)\<rparr>
         | Inr st \<Rightarrow>
             (case update_qr qr (wsPayload st) (set_setup st s1) of
                None \<Rightarrow> (set_setup st s1)\<lparr>waPhase := WaIdle, waError := Some (PairFailed [])\<rparr>
              | Some s2 \<Rightarrow>
                  if wsStatus st = ''error'' then s2\<lparr>waError := Some (PairFailed (wa_error_text st)), waSetup := None, waPhase := WaIdle\<rparr>
                  else s2\<lparr>waPhase := (if wsStatus st = ''connected'' then WaConnected else WaWaiting)\<rparr>))"

definition wa_poll_failed :: "string \<Rightarrow> int \<Rightarrow> wa_setup \<Rightarrow> whatsapp \<Rightarrow> whatsapp" where
  "wa_poll_failed e now setup s =
     (if terminal_whatsapp_error e \<or> has_expired (wsExpires setup) now
      then s\<lparr>waSetup := None, waQr := [], waPhase := WaIdle, waError := Some PairExpired\<rparr>
      else s\<lparr>waError := Some (PairRetrying e), waPoll := PollTimer\<rparr>)"

definition wa_polled :: "(string \<Rightarrow> string option) \<Rightarrow> (string \<times> int) + (wa_setup \<times> int) \<Rightarrow> whatsapp \<Rightarrow> whatsapp" where
  "wa_polled qr r s =
     (case waSetup s of
        None \<Rightarrow> s
      | Some setup \<Rightarrow>
          (case r of
             Inl (e, now) \<Rightarrow> wa_poll_failed e now setup s
           | Inr (st, now) \<Rightarrow>
               (let s1 = set_setup st s
                in case (if truthy_str (wsPayload st) \<and> wsPayload st \<noteq> wsPayload setup then update_qr qr (wsPayload st) s1 else Some s1) of
                     None \<Rightarrow> wa_poll_failed [] now setup s1
                   | Some s2 \<Rightarrow>
                       if wsStatus st = ''connected'' then s2\<lparr>waPhase := WaConnected, waError := None\<rparr>
                       else if wsStatus st = ''error''
                       then s2\<lparr>waError := Some (PairFailed (wa_error_text st)), waSetup := None, waQr := [], waPhase := WaIdle\<rparr>
                       else s2\<lparr>waError := None, waPoll := PollTimer\<rparr>)))"

definition wa_cancel :: "whatsapp \<Rightarrow> whatsapp" where
  "wa_cancel s = (if waSetup s = None then wa_reset s else s\<lparr>waCancels := waCancels s + 1\<rparr>)"

definition wa_cancelled :: "whatsapp \<Rightarrow> whatsapp" where
  "wa_cancelled s = wa_reset (s\<lparr>waCancels := waCancels s - 1\<rparr>)"

definition wa_apply :: "whatsapp \<Rightarrow> whatsapp" where
  "wa_apply s =
     (case waSetup s of
        None \<Rightarrow> s
      | Some setup \<Rightarrow>
          s\<lparr>waPhase := WaApplying, waError := None, waApplies := waApplies s + 1,
            waSent := waSent s @ [(wsPairing setup, waMode s, waUsers s)]\<rparr>)"

definition wa_tell :: "panel_out list \<Rightarrow> whatsapp \<Rightarrow> whatsapp" where
  "wa_tell os s = s\<lparr>waOut := waOut s @ os\<rparr>"

definition wa_applied :: "string + apply_result \<Rightarrow> whatsapp \<Rightarrow> whatsapp" where
  "wa_applied r s =
     (let s1 = s\<lparr>waApplies := waApplies s - 1\<rparr>
      in case r of
           Inl e \<Rightarrow> s1\<lparr>waPhase := WaConnected, waError := Some (PairFailed e)\<rparr>
         | Inr a \<Rightarrow>
             if arStarted a = Some True then wa_tell [OutBanner False, OutChangedLater, OutWatch, OutChanged] (wa_reset s1)
             else wa_tell [OutBanner True, OutChanged] (wa_reset s1))"

text \<open>The effects of \<open>[configuredMode, phase, setup]\<close> and \<open>[phase, setup]\<close>.\<close>

definition wa_effects :: "whatsapp \<Rightarrow> whatsapp \<Rightarrow> whatsapp" where
  "wa_effects old s =
     (let moved = ((waPhase s, waSetup s, waGen s) \<noteq> (waPhase old, waSetup old, waGen old));
          s1 = (if (moved \<or> waConfigured s \<noteq> waConfigured old) \<and> waSetup s = None \<and> waPhase s = WaIdle
                then s\<lparr>waMode := (case waConfigured s of Some m \<Rightarrow> m | None \<Rightarrow> waMode s)\<rparr> else s)
      in if moved then s1\<lparr>waPoll := (if waSetup s \<noteq> None \<and> waPhase s = WaWaiting then PollTimer else PollOff)\<rparr> else s1)"

datatype wa_event =
    WaStart | WaStarted "string + wa_setup" | WaPollFires | WaPolled "(string \<times> int) + (wa_setup \<times> int)"
  | WaCancel | WaCancelled | WaPickMode wa_mode | WaTypeUsers string | WaApply | WaApplied "string + apply_result"
  | WaConfiguredMode "string option"

primrec wa_handle :: "(string \<Rightarrow> string option) \<Rightarrow> whatsapp \<Rightarrow> wa_event \<Rightarrow> whatsapp" where
  "wa_handle qr s WaStart = wa_start s"
| "wa_handle qr s (WaStarted r) = wa_started qr r s"
| "wa_handle qr s WaPollFires = s\<lparr>waPoll := PollAsked\<rparr>"
| "wa_handle qr s (WaPolled r) = wa_polled qr r s"
| "wa_handle qr s WaCancel = wa_cancel s"
| "wa_handle qr s WaCancelled = wa_cancelled s"
| "wa_handle qr s (WaPickMode m) = s\<lparr>waMode := m\<rparr>"
| "wa_handle qr s (WaTypeUsers t) = s\<lparr>waUsers := t\<rparr>"
| "wa_handle qr s WaApply = wa_apply s"
| "wa_handle qr s (WaApplied r) = wa_applied r s"
| "wa_handle qr s (WaConfiguredMode m) = s\<lparr>waConfigured := normalize_mode m\<rparr>"

definition wa_step :: "(string \<Rightarrow> string option) \<Rightarrow> whatsapp \<Rightarrow> wa_event \<Rightarrow> whatsapp" where
  "wa_step qr s e = wa_effects s (wa_handle qr s e)"

definition wa_locked :: "whatsapp \<Rightarrow> bool" where
  "wa_locked s \<longleftrightarrow> waPhase s \<in> {WaWaiting, WaApplying}"

primrec wa_enabled :: "whatsapp \<Rightarrow> wa_event \<Rightarrow> bool" where
  "wa_enabled s WaStart = (waPhase s \<in> {WaIdle, WaConnected})"
| "wa_enabled s (WaStarted r) = (0 < waStarts s)"
| "wa_enabled s WaPollFires = (waPoll s = PollTimer)"
| "wa_enabled s (WaPolled r) = (waPoll s = PollAsked)"
| "wa_enabled s WaCancel = (waSetup s \<noteq> None)"
| "wa_enabled s WaCancelled = (0 < waCancels s)"
| "wa_enabled s (WaPickMode m) = (\<not> wa_locked s)"
| "wa_enabled s (WaTypeUsers t) = (\<not> wa_locked s)"
| "wa_enabled s WaApply = (waSetup s \<noteq> None \<and> waPhase s = WaConnected)"
| "wa_enabled s (WaApplied r) = (0 < waApplies s)"
| "wa_enabled s (WaConfiguredMode m) = True"

text \<open>A patient user waits for a start, an application and a cancellation before cancelling.\<close>

definition wa_patient :: "whatsapp \<Rightarrow> wa_event \<Rightarrow> bool" where
  "wa_patient s e \<longleftrightarrow> wa_enabled s e
     \<and> (e \<in> {WaStart, WaCancel, WaApply} \<longrightarrow> waCancels s = 0) \<and> (e = WaCancel \<longrightarrow> waApplies s = 0 \<and> waStarts s = 0)"

abbreviation wa_run :: "(string \<Rightarrow> string option) \<Rightarrow> wa_mode option \<Rightarrow> wa_event list \<Rightarrow> whatsapp" where
  "wa_run qr m es \<equiv> foldl (wa_step qr) (whatsapp_start m) es"

section \<open>What is shown\<close>

definition setup_status_label :: "whatsapp \<Rightarrow> string" where
  "setup_status_label s =
     (case waSetup s of
        None \<Rightarrow> ''waiting''
      | Some st \<Rightarrow>
          if wsStatus st = ''installing'' then ''preparing'' else if wsStatus st = ''starting'' then ''starting'' else ''waiting'')"

definition linked_account_label :: "wa_setup option \<Rightarrow> string" where
  "linked_account_label setup =
     (case setup of
        None \<Rightarrow> []
      | Some st \<Rightarrow>
          if truthy_str (wsPhone st) then CHR ''+'' # the (wsPhone st)
          else if truthy_str (wsAccountName st) then the (wsAccountName st)
          else if truthy_str (wsAccountId st) then the (wsAccountId st) else [])"

definition linked_account_chat_url :: "wa_setup option \<Rightarrow> string" where
  "linked_account_chat_url setup =
     (case setup of
        None \<Rightarrow> []
      | Some st \<Rightarrow> if truthy_str (wsPhone st) then ''https://wa.me/'' @ the (wsPhone st) else [])"

datatype pairing_instruction = KeepsAllowlist | AllowsLinkedAccount | RepliesWithCode

definition pairing_instruction_of :: "wa_mode \<Rightarrow> string \<Rightarrow> bool \<Rightarrow> pairing_instruction" where
  "pairing_instruction_of mode users saved =
     (if mode = WaSelf \<and> trim users = [] then (if saved then KeepsAllowlist else AllowsLinkedAccount)
      else if trim users = [] \<and> saved then KeepsAllowlist
      else RepliesWithCode)"

section \<open>The invariant\<close>

definition wa_inv :: "whatsapp \<Rightarrow> bool" where
  "wa_inv s \<longleftrightarrow>
     waStarts s = (if waPhase s = WaStarting then 1 else 0)
     \<and> waApplies s = (if waPhase s = WaApplying then 1 else 0)
     \<and> (waPhase s = WaWaiting \<longleftrightarrow> waPoll s \<noteq> PollOff)
     \<and> (waPhase s = WaWaiting \<longrightarrow> waSetup s \<noteq> None)
     \<and> (waPhase s \<in> {WaConnected, WaApplying} \<longrightarrow> (\<exists>st. waSetup s = Some st \<and> wsPairing st \<in> set (waLinked s)))
     \<and> (0 < waCancels s \<longrightarrow> waCancels s = 1 \<and> waPhase s \<notin> {WaStarting, WaApplying})
     \<and> list_all (\<lambda>(p, m, us). p \<in> set (waLinked s)) (waSent s)"

lemmas wa_defs =
  wa_step_def wa_effects_def wa_reset_def set_setup_def wa_start_def wa_started_def wa_poll_failed_def wa_polled_def
  wa_cancel_def wa_cancelled_def wa_apply_def wa_tell_def wa_applied_def Let_def

lemma linked_mono: "list_all (\<lambda>(p, m, us). p \<in> S) xs \<Longrightarrow> S \<subseteq> T \<Longrightarrow> list_all (\<lambda>(p, m, us). p \<in> T) xs"
  by (auto simp: list_all_iff)

lemma update_qr_keeps: "update_qr qr payload s = Some t \<Longrightarrow> \<exists>u. t = s\<lparr>waQr := u\<rparr>"
  by (auto simp: update_qr_def split: if_splits option.splits intro: exI [of _ "waQr s"])

lemma wa_effects_inv:
  assumes "waStarts s = (if waPhase s = WaStarting then 1 else 0)" "waApplies s = (if waPhase s = WaApplying then 1 else 0)"
    and "(waPhase s, waSetup s, waGen s) = (waPhase old, waSetup old, waGen old) \<Longrightarrow> waPhase s = WaWaiting \<longleftrightarrow> waPoll s \<noteq> PollOff"
    and "waPhase s = WaWaiting \<Longrightarrow> waSetup s \<noteq> None"
    and "waPhase s \<in> {WaConnected, WaApplying} \<Longrightarrow> \<exists>st. waSetup s = Some st \<and> wsPairing st \<in> set (waLinked s)"
    and "0 < waCancels s \<Longrightarrow> waCancels s = 1 \<and> waPhase s \<notin> {WaStarting, WaApplying}"
    and "list_all (\<lambda>(p, m, us). p \<in> set (waLinked s)) (waSent s)"
  shows "wa_inv (wa_effects old s)"
  using assms by (auto simp: wa_inv_def wa_effects_def Let_def split: if_splits)

lemma wa_calm: "waPhase t = waPhase s \<Longrightarrow> waSetup t = waSetup s \<Longrightarrow> waGen t = waGen s \<Longrightarrow> \<exists>m. wa_effects s t = t\<lparr>waMode := m\<rparr>"
  by (auto simp: wa_effects_def intro: exI [of _ "waMode t"])

lemma wa_calm_inv:
  assumes "wa_inv s"
    and "waPhase t = waPhase s" "waSetup t = waSetup s" "waGen t = waGen s" "waPoll t = waPoll s" "waLinked t = waLinked s"
      "waStarts t = waStarts s" "waApplies t = waApplies s" "waCancels t = waCancels s" "waSent t = waSent s"
  shows "wa_inv (wa_effects s t)"
proof -
  obtain m where "wa_effects s t = t\<lparr>waMode := m\<rparr>" using wa_calm [OF assms(2-4)] by blast
  moreover have "wa_inv t" using assms(1) unfolding wa_inv_def assms(2-) by blast
  ultimately show ?thesis by (simp add: wa_inv_def)
qed

lemma wa_started_inv:
  assumes "wa_inv s" "0 < waStarts s"
  shows "wa_inv (wa_effects s (wa_started qr r s))"
proof -
  have s: "waPhase s = WaStarting" "waStarts s = 1" "waApplies s = 0" "waCancels s = 0"
    and sent: "list_all (\<lambda>(p, m, us). p \<in> set (waLinked s)) (waSent s)"
    using assms by (auto simp: wa_inv_def split: if_splits)
  show ?thesis
  proof (cases r)
    case (Inl e)
    have "wa_inv (wa_effects s (s\<lparr>waStarts := 0, waPhase := WaIdle, waError := Some (PairFailed e)\<rparr>))"
      by (rule wa_effects_inv) (simp_all add: s sent)
    then show ?thesis using Inl s(2) by (simp add: wa_started_def)
  next
    case (Inr st)
    let ?s1 = "set_setup st (s\<lparr>waStarts := 0\<rparr>)"
    have sent1: "list_all (\<lambda>(p, m, us). p \<in> set (waLinked ?s1)) (waSent s)"
      using sent by (rule linked_mono) (simp add: set_setup_def subset_insertI)
    have linked: "wsStatus st = ''connected'' \<Longrightarrow> wsPairing st \<in> set (waLinked ?s1)" by (simp add: set_setup_def)
    have keeps: "waStarts ?s1 = 0" "waApplies ?s1 = 0" "waCancels ?s1 = 0" "waSetup ?s1 = Some st" "waSent ?s1 = waSent s"
      using s by (simp_all add: set_setup_def)
    have idle: "waPhase t = WaIdle \<Longrightarrow> wa_inv (wa_effects s t)"
      and up: "waSetup t = Some st \<Longrightarrow> waPhase t = (if wsStatus st = ''connected'' then WaConnected else WaWaiting) \<Longrightarrow>
        wa_inv (wa_effects s t)"
      if "waStarts t = 0" "waApplies t = 0" "waCancels t = 0" "waLinked t = waLinked ?s1" "waSent t = waSent s" for t
      by (rule wa_effects_inv; use that s sent1 linked in \<open>auto split: if_splits\<close>)+
    show ?thesis
    proof (cases "update_qr qr (wsPayload st) ?s1")
      case None
      then show ?thesis using Inr s(2) keeps
        by (simp add: wa_started_def) (rule idle; simp)
    next
      case (Some s2)
      then obtain u where u: "s2 = ?s1\<lparr>waQr := u\<rparr>" using update_qr_keeps by blast
      show ?thesis
        using Some Inr s(2) keeps by (simp add: wa_started_def u Let_def) (intro conjI impI; (rule idle up; simp))
    qed
  qed
qed

lemma wa_polled_inv:
  assumes "wa_inv s" "waPoll s = PollAsked"
  shows "wa_inv (wa_effects s (wa_polled qr r s))"
proof -
  have s: "waPhase s = WaWaiting" "waStarts s = 0" "waApplies s = 0" "0 < waCancels s \<Longrightarrow> waCancels s = 1"
    and sent: "list_all (\<lambda>(p, m, us). p \<in> set (waLinked s)) (waSent s)"
    using assms by (auto simp: wa_inv_def)
  obtain w where w: "waSetup s = Some w" using assms(1) s(1) by (auto simp: wa_inv_def)
  have moves: "waPhase t = WaIdle \<Longrightarrow> wa_inv (wa_effects s t)"
    and links: "waSetup t = Some v \<Longrightarrow> wsPairing v \<in> set (waLinked t) \<Longrightarrow> waPhase t = WaConnected \<Longrightarrow> wa_inv (wa_effects s t)"
    and waits: "waSetup t = Some v \<Longrightarrow> waPhase t = WaWaiting \<Longrightarrow> waPoll t = PollTimer \<Longrightarrow> wa_inv (wa_effects s t)"
    if "waStarts t = 0" "waApplies t = 0" "waCancels t = waCancels s" "list_all (\<lambda>(p, m, us). p \<in> set (waLinked t)) (waSent t)" for t v
    by (rule wa_effects_inv; use that s in simp)+
  have failed: "wa_inv (wa_effects s (wa_poll_failed e now v t))"
    if "waStarts t = 0" "waApplies t = 0" "waCancels t = waCancels s" "list_all (\<lambda>(p, m, us). p \<in> set (waLinked t)) (waSent t)"
      "waSetup t = Some x" "waPhase t = WaWaiting" for e now v t x
  proof (cases "terminal_whatsapp_error e \<or> has_expired (wsExpires v) now")
    case True
    then show ?thesis using that by (simp add: wa_poll_failed_def) (rule moves; simp)
  next
    case False
    then show ?thesis using that by (simp add: wa_poll_failed_def) (rule waits; simp)
  qed
  show ?thesis
  proof (cases r)
    case (Inl a)
    then show ?thesis using failed [of s] s sent w by (cases a) (simp add: wa_polled_def)
  next
    case (Inr a)
    obtain st now where a: "a = (st, now)" by (cases a)
    let ?s1 = "set_setup st s"
    let ?redrawn = "if truthy_str (wsPayload st) \<and> wsPayload st \<noteq> wsPayload w then update_qr qr (wsPayload st) ?s1 else Some ?s1"
    have keeps: "waStarts ?s1 = 0" "waApplies ?s1 = 0" "waCancels ?s1 = waCancels s" "waSetup ?s1 = Some st" "waPhase ?s1 = WaWaiting"
      using s by (simp_all add: set_setup_def)
    have linked: "wsStatus st = ''connected'' \<Longrightarrow> wsPairing st \<in> set (waLinked ?s1)" by (simp add: set_setup_def)
    have sent1: "list_all (\<lambda>(p, m, us). p \<in> set (waLinked ?s1)) (waSent ?s1)"
      using linked_mono [OF sent, of "set (waLinked ?s1)"] by (simp add: set_setup_def subset_insertI)
    show ?thesis
    proof (cases ?redrawn)
      case None
      then have "wa_polled qr r s = wa_poll_failed [] now w ?s1" using Inr a w by (simp add: wa_polled_def)
      then show ?thesis using failed [OF keeps(1-3) sent1 keeps(4,5)] by simp
    next
      case (Some s2)
      have "\<exists>u. s2 = ?s1\<lparr>waQr := u\<rparr>"
      proof (cases "truthy_str (wsPayload st) \<and> wsPayload st \<noteq> wsPayload w")
        case True
        then have "update_qr qr (wsPayload st) ?s1 = Some s2" using Some by simp
        then show ?thesis by (rule update_qr_keeps)
      next
        case False
        then have "s2 = ?s1" using Some by (simp only: if_False option.inject)
        then show ?thesis by (intro exI [of _ "waQr ?s1"]) simp
      qed
      then obtain u where u: "s2 = ?s1\<lparr>waQr := u\<rparr>" by blast
      have eq: "wa_polled qr r s =
          (if wsStatus st = ''connected'' then s2\<lparr>waPhase := WaConnected, waError := None\<rparr>
           else if wsStatus st = ''error'' then s2\<lparr>waError := Some (PairFailed (wa_error_text st)), waSetup := None, waQr := [], waPhase := WaIdle\<rparr>
           else s2\<lparr>waError := None, waPoll := PollTimer\<rparr>)"
        using Some Inr a w by (simp add: wa_polled_def)
      have "wa_inv (wa_effects s (s2\<lparr>waPhase := WaConnected, waError := None\<rparr>))" if "wsStatus st = ''connected''"
        using keeps sent1 linked that by (intro links [of _ st]) (simp_all add: u)
      moreover have "wa_inv (wa_effects s (s2\<lparr>waError := x, waSetup := None, waQr := [], waPhase := WaIdle\<rparr>))" for x
        using keeps sent1 by (intro moves) (simp_all add: u)
      moreover have "wa_inv (wa_effects s (s2\<lparr>waError := None, waPoll := PollTimer\<rparr>))"
        using keeps sent1 by (intro waits [of _ st]) (simp_all add: u)
      ultimately show ?thesis unfolding eq by simp
    qed
  qed
qed

lemma wa_step_inv:
  assumes inv: "wa_inv s" and en: "wa_patient s e"
  shows "wa_inv (wa_step qr s e)"
proof (cases e)
  case WaStart
  have "wa_inv (wa_effects s (wa_start s))"
    by (rule wa_effects_inv) (use inv en WaStart in \<open>auto simp: wa_inv_def wa_patient_def wa_start_def\<close>)
  then show ?thesis using WaStart by (simp add: wa_step_def)
next
  case (WaStarted r)
  then show ?thesis using wa_started_inv [OF inv] en by (simp add: wa_step_def wa_patient_def)
next
  case WaPollFires
  have "wa_inv (wa_effects s (s\<lparr>waPoll := PollAsked\<rparr>))"
    by (rule wa_effects_inv) (use inv en WaPollFires in \<open>auto simp: wa_inv_def wa_patient_def\<close>)
  then show ?thesis using WaPollFires by (simp add: wa_step_def)
next
  case (WaPolled r)
  then show ?thesis using wa_polled_inv [OF inv] en by (simp add: wa_step_def wa_patient_def)
next
  case WaCancel
  then obtain w where w: "waSetup s = Some w" using en by (auto simp: wa_patient_def)
  have "wa_inv (wa_effects s (s\<lparr>waCancels := waCancels s + 1\<rparr>))"
    by (rule wa_effects_inv) (use inv en WaCancel in \<open>auto simp: wa_inv_def wa_patient_def\<close>)
  then show ?thesis using WaCancel w by (simp add: wa_step_def wa_cancel_def)
next
  case WaCancelled
  have "wa_inv (wa_effects s (wa_cancelled s))"
    by (rule wa_effects_inv) (use inv en WaCancelled in \<open>auto simp: wa_inv_def wa_patient_def wa_cancelled_def wa_reset_def\<close>)
  then show ?thesis using WaCancelled by (simp add: wa_step_def)
next
  case (WaPickMode m)
  then show ?thesis by (simp add: wa_step_def wa_calm_inv [OF inv])
next
  case (WaTypeUsers us)
  then show ?thesis by (simp add: wa_step_def wa_calm_inv [OF inv])
next
  case WaApply
  then obtain w where w: "waSetup s = Some w" "waPhase s = WaConnected" "waCancels s = 0" using en by (auto simp: wa_patient_def)
  have "wa_inv (wa_effects s (s\<lparr>waPhase := WaApplying, waError := None, waApplies := waApplies s + 1,
      waSent := waSent s @ [(wsPairing w, waMode s, waUsers s)]\<rparr>))"
    by (rule wa_effects_inv) (use inv w in \<open>auto simp: wa_inv_def\<close>)
  then show ?thesis using WaApply w by (simp add: wa_step_def wa_apply_def)
next
  case (WaApplied r)
  then have s: "waPhase s = WaApplying" "waApplies s = 1" "waCancels s = 0" "waStarts s = 0"
    using inv en by (auto simp: wa_inv_def wa_patient_def split: if_splits)
  have "wa_inv (wa_effects s (wa_tell x (wa_reset (s\<lparr>waApplies := 0\<rparr>))))" for x
    by (rule wa_effects_inv) (use s inv in \<open>simp_all add: wa_reset_def wa_tell_def wa_inv_def\<close>)
  moreover have "wa_inv (wa_effects s (s\<lparr>waApplies := 0, waPhase := WaConnected, waError := x\<rparr>))" for x
    by (rule wa_effects_inv) (use s inv in \<open>simp_all add: wa_inv_def\<close>)
  ultimately show ?thesis using WaApplied s(2) by (cases r) (simp_all add: wa_step_def wa_applied_def Let_def)
next
  case (WaConfiguredMode m)
  then show ?thesis by (simp add: wa_step_def wa_calm_inv [OF inv])
qed

lemma wa_inv_start: "wa_inv (whatsapp_start m)"
  by (simp add: wa_inv_def whatsapp_start_def)

interpretation wa: machine "whatsapp_start m" "wa_step qr" wa_patient wa_inv for m qr
  by unfold_locales (simp_all add: wa_inv_start wa_step_inv)

lemma wa_inv_sent: "wa_inv s \<Longrightarrow> (p, x, us) \<in> set (waSent s) \<Longrightarrow> p \<in> set (waLinked s)"
  unfolding wa_inv_def list_all_iff by force

section \<open>Properties\<close>

text \<open>Only a linked account is saved: with a patient user, every pairing that the panel asks the
  gateway to save is one that the gateway reported as connected, whatever the order of the answers.\<close>

theorem whatsapp_saves_linked_accounts:
  assumes "legal_run wa_patient (wa_step qr) (whatsapp_start m) es" "(p, x, us) \<in> set (waSent (wa_run qr m es))"
  shows "p \<in> set (waLinked (wa_run qr m es))"
  by (rule wa_inv_sent [OF wa.run_inv [OF assms(1)] assms(2)])

definition wa_status :: "string \<Rightarrow> string \<Rightarrow> wa_setup" where
  "wa_status p st =
     \<lparr>wsPairing = p, wsStatus = st, wsPayload = Some p, wsExpires = Some 1000, wsPhone = Some ''1555'', wsAccountName = None,
      wsAccountId = None, wsError = None\<rparr>"

definition saving_whatsapp :: "wa_event list" where
  "saving_whatsapp =
     [WaPickMode WaSelf, WaStart, WaStarted (Inr (wa_status ''p1'' ''starting'')), WaPollFires, WaPolled (Inl (''Error: 503'', 5)),
      WaPollFires, WaPolled (Inr (wa_status ''p1'' ''connected'', 6)), WaTypeUsers ''1555'', WaApply]"

lemma whatsapp_saves_linked_accounts_witness:
  "legal_run wa_patient (wa_step data_url) (whatsapp_start None) saving_whatsapp
   \<and> waSent (wa_run data_url None saving_whatsapp) = [(''p1'', WaSelf, ''1555'')]
   \<and> ''p1'' \<in> set (waLinked (wa_run data_url None saving_whatsapp))"
proof -
  have legal: "legal_run wa_patient (wa_step data_url) (whatsapp_start None) saving_whatsapp"
    and sent: "waSent (wa_run data_url None saving_whatsapp) = [(''p1'', WaSelf, ''1555'')]"
    by code_simp+
  then show ?thesis using whatsapp_saves_linked_accounts [OF legal, of "''p1''" WaSelf "''1555''"] by simp
qed

text \<open>A panel that waits is being polled, and one that starts or saves has its request under way.\<close>

theorem whatsapp_panel_goes_on:
  assumes "legal_run wa_patient (wa_step qr) (whatsapp_start m) es"
  shows "waPhase (wa_run qr m es) = WaWaiting \<Longrightarrow> waPoll (wa_run qr m es) \<noteq> PollOff"
    and "waPhase (wa_run qr m es) = WaStarting \<Longrightarrow> 0 < waStarts (wa_run qr m es)"
    and "waPhase (wa_run qr m es) = WaApplying \<Longrightarrow> 0 < waApplies (wa_run qr m es)"
proof -
  define s where "s = wa_run qr m es"
  have "wa_inv s" using wa.run_inv [OF assms] by (simp add: s_def)
  then show "waPhase (wa_run qr m es) = WaWaiting \<Longrightarrow> waPoll (wa_run qr m es) \<noteq> PollOff"
    and "waPhase (wa_run qr m es) = WaStarting \<Longrightarrow> 0 < waStarts (wa_run qr m es)"
    and "waPhase (wa_run qr m es) = WaApplying \<Longrightarrow> 0 < waApplies (wa_run qr m es)"
    unfolding s_def [symmetric] by (simp_all add: wa_inv_def)
qed

section \<open>What the code does not do\<close>

text \<open>A pairing that the gateway reports as expired or cancelled is shown as waiting and polled on.\<close>

lemma expired_pairing_still_waits:
  "let s = wa_run data_url None [WaStart, WaStarted (Inr (wa_status ''p1'' ''waiting'')), WaPollFires,
         WaPolled (Inr (wa_status ''p1'' ''expired'', 2000))]
   in waPhase s = WaWaiting \<and> waPoll s = PollTimer \<and> setup_status_label s = ''waiting'' \<and> waError s = None"
  by code_simp

text \<open>A new code that cannot be drawn once is never drawn: the next poll finds it no different.\<close>

definition bad_once :: "string \<Rightarrow> string option" where
  "bad_once p = (if p = ''p2'' then None else Some p)"

lemma undrawn_code_stays_away:
  "let a = [WaStart, WaStarted (Inr (wa_status ''p1'' ''waiting'')), WaPollFires,
         WaPolled (Inr ((wa_status ''p1'' ''waiting'')\<lparr>wsPayload := Some ''p2''\<rparr>, 2)), WaPollFires];
       s = wa_step data_url (wa_run bad_once None a) (WaPolled (Inr ((wa_status ''p1'' ''waiting'')\<lparr>wsPayload := Some ''p2''\<rparr>, 3)))
   in waQr s = ''p1'' \<and> waError s = None"
  by code_simp

text \<open>Pairing again from a linked account, without success, hides the buttons that would save the account.\<close>

lemma failed_restart_hides_the_account:
  "let s = wa_run data_url None [WaStart, WaStarted (Inr (wa_status ''p1'' ''connected'')), WaStart, WaStarted (Inl ''Error: 500'')]
   in waPhase s = WaIdle \<and> waSetup s = Some (wa_status ''p1'' ''connected'') \<and> \<not> wa_enabled s WaApply"
  by code_simp

text \<open>The mode chosen by the user is replaced by the saved one when a start fails, and the next start uses it.\<close>

lemma failed_start_drops_the_mode:
  "waAsked (wa_run data_url (Some WaBot) [WaPickMode WaSelf, WaStart, WaStarted (Inl ''Error: 500''), WaStart]) = [WaSelf, WaBot]"
  by code_simp

text \<open>Cancelling a second pairing while it starts does not keep it from coming up.\<close>

lemma cancelled_start_comes_up:
  "let es = [WaStart, WaStarted (Inr (wa_status ''p1'' ''connected'')), WaStart, WaCancel, WaCancelled,
         WaStarted (Inr (wa_status ''p2'' ''waiting''))];
       s = wa_run data_url None es
   in legal_run wa_enabled (wa_step data_url) (whatsapp_start None) es \<and> waPhase s = WaWaiting \<and> waSetup s \<noteq> None"
  by code_simp

end
