(* ===== verification/ModelsPage.thy ===== *)
theory ModelsPage
  imports Format
begin

text \<open>
  The page of the models, \<open>web/src/pages/ModelsPage.tsx\<close>: names, costs and shares of tokens, the menu that
  assigns a model to a task with its warning of expensive ones, the list of auxiliary tasks, and the loads
  of the page. The editor of the Mixture of Agents presets is modelled in \<open>MoaPresets\<close>.
\<close>

section \<open>Names and numbers\<close>

definition PERIODS :: "(string \<times> nat) list" where
  "PERIODS = [(''7d'', 7), (''30d'', 30), (''90d'', 90)]"

definition AUX_TASKS :: "(string \<times> string) list" where
  "AUX_TASKS =
     [(''vision'', ''Vision''), (''web_extract'', ''Web Extract''), (''compression'', ''Compression''),
      (''skills_hub'', ''Skills Hub''), (''approval'', ''Approval''), (''mcp'', ''MCP''),
      (''title_generation'', ''Title Gen''), (''triage_specifier'', ''Triage Specifier''),
      (''kanban_decomposer'', ''Kanban Decomposer''), (''profile_describer'', ''Profile Describer''), (''curator'', ''Curator'')]"

text \<open>The argument is the exact value of a double, and so is the literal \<open>0.01\<close>.\<close>

definition cent :: rat where
  "cent = 5764607523034235 / 2 ^ 59"

definition format_cost :: "rat \<Rightarrow> string" where
  "format_cost n =
     (if n \<ge> 1 then CHR ''$'' # to_fixed 2 n
      else if n \<ge> cent then CHR ''$'' # to_fixed 3 n
      else if n > 0 then CHR ''$'' # to_fixed 4 n
      else ''$0'')"

definition short_model_name :: "string \<Rightarrow> string" where
  "short_model_name model =
     (case index_of (CHR ''/'') model of Some i \<Rightarrow> if 0 < i then drop (i + 1) model else model | None \<Rightarrow> model)"

definition model_vendor :: "string \<Rightarrow> string option \<Rightarrow> string" where
  "model_vendor model fallback =
     (case index_of (CHR ''/'') model of
        Some i \<Rightarrow> if 0 < i then take i model else (case fallback of Some f \<Rightarrow> f | None \<Rightarrow> [])
      | None \<Rightarrow> (case fallback of Some f \<Rightarrow> f | None \<Rightarrow> []))"

datatype segment = CacheRead | Reasoning | Input | Output

definition token_segments :: "nat \<Rightarrow> nat \<Rightarrow> nat \<Rightarrow> nat \<Rightarrow> (segment \<times> nat) list" where
  "token_segments input output cache_read reasoning =
     (if input + output + cache_read + reasoning = 0 then []
      else filter (\<lambda>(c, v). 0 < v) [(CacheRead, cache_read), (Reasoning, reasoning), (Input, input), (Output, output)])"

record capabilities =
  cpTools :: bool
  cpVision :: bool
  cpReasoning :: bool
  cpFamily :: "string option"

definition has_capability :: "capabilities \<Rightarrow> bool" where
  "has_capability c \<longleftrightarrow> cpTools c \<or> cpVision c \<or> cpReasoning c \<or> truthy_str (cpFamily c)"

section \<open>Assignments\<close>

record aux_assignment =
  axTask :: string
  axProvider :: string
  axModel :: string

record aux_models =
  axTasks :: "aux_assignment list"
  axMainProvider :: string
  axMainModel :: string

text \<open>Of a card: whether its model is the main one, and the first task that uses it.\<close>

definition card_provider :: "string option \<Rightarrow> string \<Rightarrow> string" where
  "card_provider provider model = (if truthy_str provider then the provider else model_vendor model None)"

definition is_main :: "aux_models option \<Rightarrow> string \<Rightarrow> string \<Rightarrow> bool" where
  "is_main aux provider model \<longleftrightarrow>
     (case aux of None \<Rightarrow> False | Some a \<Rightarrow> axMainProvider a = provider \<and> axMainModel a = model)"

definition main_aux_task :: "aux_models option \<Rightarrow> string \<Rightarrow> string \<Rightarrow> string option" where
  "main_aux_task aux provider model =
     map_option axTask (find (\<lambda>a. axProvider a = provider \<and> axModel a = model) (case aux of None \<Rightarrow> [] | Some x \<Rightarrow> axTasks x))"

text \<open>A row of the auxiliary tasks: automatic, or a provider with a model.\<close>

datatype aux_row = AutoRow | OverrideRow string string

definition aux_row_of :: "aux_models option \<Rightarrow> string \<Rightarrow> aux_row" where
  "aux_row_of aux task =
     (case find (\<lambda>a. axTask a = task) (case aux of None \<Rightarrow> [] | Some x \<Rightarrow> axTasks x) of
        None \<Rightarrow> AutoRow
      | Some a \<Rightarrow>
          if axProvider a = ''auto'' \<or> axProvider a = [] then AutoRow
          else OverrideRow (axProvider a) (if axModel a = [] then ''(provider default)'' else axModel a))"

definition aux_override_count :: "aux_models option \<Rightarrow> nat" where
  "aux_override_count aux =
     length (filter (\<lambda>a. axProvider a \<noteq> [] \<and> axProvider a \<noteq> ''auto'') (case aux of None \<Rightarrow> [] | Some x \<Rightarrow> axTasks x))"

datatype assign_scope = ScopeMain | ScopeAuxiliary

record assign_request =
  asScope :: assign_scope
  asTask :: string
  asProvider :: string
  asModel :: string
  asConfirm :: bool

definition reset_request :: assign_request where
  "reset_request = \<lparr>asScope = ScopeAuxiliary, asTask = ''__reset__'', asProvider = [], asModel = [], asConfirm = False\<rparr>"

section \<open>The menu of a card\<close>

record assign_answer =
  anConfirm :: bool
  anMessage :: "string option"

text \<open>\<open>umAsked\<close> are the requests under way, \<open>umSent\<close> all of them, and \<open>umAssigned\<close> counts the calls of \<open>onAssigned\<close>.\<close>

record use_menu =
  umOpen :: bool
  umBusy :: bool
  umError :: "string option"
  umPending :: "(string \<times> assign_scope \<times> string) option"
  umAsked :: "(assign_scope \<times> string) list"
  umSent :: "(assign_scope \<times> string \<times> bool) list"
  umAssigned :: nat

definition use_menu_start :: use_menu where
  "use_menu_start =
     \<lparr>umOpen = False, umBusy = False, umError = None, umPending = None, umAsked = [], umSent = [], umAssigned = 0\<rparr>"

definition menu_assign :: "string \<Rightarrow> string \<Rightarrow> assign_scope \<Rightarrow> string \<Rightarrow> bool \<Rightarrow> use_menu \<Rightarrow> use_menu" where
  "menu_assign provider model scope task confirm s =
     (if provider = [] \<or> model = [] then s\<lparr>umError := Some ''Missing provider/model''\<rparr>
      else s\<lparr>umBusy := True, umError := None, umAsked := umAsked s @ [(scope, task)], umSent := umSent s @ [(scope, task, confirm)]\<rparr>)"

definition menu_answered :: "nat \<Rightarrow> string + assign_answer \<Rightarrow> use_menu \<Rightarrow> use_menu" where
  "menu_answered k r s =
     (let s1 = s\<lparr>umAsked := take_out k (umAsked s), umBusy := False\<rparr>; (scope, task) = umAsked s ! k
      in case r of
           Inl e \<Rightarrow> s1\<lparr>umError := Some e\<rparr>
         | Inr a \<Rightarrow>
             if anConfirm a
             then s1\<lparr>umPending := Some (if truthy_str (anMessage a) then the (anMessage a)
                                         else ''This model has unusually high known pricing.'', scope, task)\<rparr>
             else s1\<lparr>umAssigned := umAssigned s + 1, umOpen := False\<rparr>)"

definition menu_confirm :: "string \<Rightarrow> string \<Rightarrow> use_menu \<Rightarrow> use_menu" where
  "menu_confirm provider model s =
     (case umPending s of
        None \<Rightarrow> s
      | Some (m, scope, task) \<Rightarrow> menu_assign provider model scope task True (s\<lparr>umPending := None\<rparr>))"

datatype menu_event =
    MenuToggle | MenuOutside | MenuAssign assign_scope string | MenuAnswered nat "string + assign_answer" | MenuConfirm | MenuCancel

primrec menu_step :: "string \<Rightarrow> string \<Rightarrow> use_menu \<Rightarrow> menu_event \<Rightarrow> use_menu" where
  "menu_step provider model s MenuToggle = s\<lparr>umOpen := \<not> umOpen s\<rparr>"
| "menu_step provider model s MenuOutside = s\<lparr>umOpen := False\<rparr>"
| "menu_step provider model s (MenuAssign scope task) = menu_assign provider model scope task False s"
| "menu_step provider model s (MenuAnswered k r) = menu_answered k r s"
| "menu_step provider model s MenuConfirm = menu_confirm provider model s"
| "menu_step provider model s MenuCancel = s\<lparr>umPending := None\<rparr>"

primrec menu_enabled :: "use_menu \<Rightarrow> menu_event \<Rightarrow> bool" where
  "menu_enabled s MenuToggle = (\<not> umBusy s)"
| "menu_enabled s MenuOutside = umOpen s"
| "menu_enabled s (MenuAssign scope task) = (umOpen s \<and> \<not> umBusy s)"
| "menu_enabled s (MenuAnswered k r) = (k < length (umAsked s))"
| "menu_enabled s MenuConfirm = (umPending s \<noteq> None \<and> \<not> umBusy s)"
| "menu_enabled s MenuCancel = (umPending s \<noteq> None)"

abbreviation menu_run :: "string \<Rightarrow> string \<Rightarrow> menu_event list \<Rightarrow> use_menu" where
  "menu_run provider model es \<equiv> foldl (menu_step provider model) use_menu_start es"

text \<open>One assignment at a time, and busy exactly while it is under way.\<close>

definition menu_inv :: "use_menu \<Rightarrow> bool" where
  "menu_inv s \<longleftrightarrow> length (umAsked s) = (if umBusy s then 1 else 0)"

lemma menu_step_inv: "menu_inv s \<Longrightarrow> menu_enabled s e \<Longrightarrow> menu_inv (menu_step provider model s e)"
  by (cases e) (auto simp: menu_inv_def menu_assign_def menu_confirm_def menu_answered_def Let_def take_out_def
      split: if_splits sum.splits option.splits prod.splits)

interpretation menu: machine use_menu_start "menu_step provider model" menu_enabled menu_inv for provider model
  by unfold_locales (simp add: menu_inv_def use_menu_start_def, rule menu_step_inv)

definition warned :: "use_menu \<Rightarrow> menu_event \<Rightarrow> assign_scope \<times> string \<Rightarrow> bool" where
  "warned s e x \<longleftrightarrow> (\<exists>k a. e = MenuAnswered k (Inr a) \<and> anConfirm a \<and> k < length (umAsked s) \<and> x = umAsked s ! k)"

lemma menu_pending: "menu_enabled s e \<Longrightarrow> map_option snd (umPending (menu_step provider model s e)) = Some x \<Longrightarrow>
    map_option snd (umPending s) = Some x \<or> warned s e x"
  by (cases e) (auto simp: warned_def menu_assign_def menu_confirm_def menu_answered_def Let_def
      split: if_splits sum.splits option.splits prod.splits)

lemma menu_confirmed: "(fst x, snd x, True) \<in> set (umSent (menu_step provider model s e)) \<Longrightarrow>
    (fst x, snd x, True) \<in> set (umSent s) \<or> e = MenuConfirm \<and> map_option snd (umPending s) = Some x"
  by (cases e) (auto simp: menu_assign_def menu_confirm_def menu_answered_def Let_def
      split: if_splits sum.splits option.splits prod.splits)

interpretation menu_warning: tracing use_menu_start "menu_step provider model" menu_enabled menu_inv
    "\<lambda>s x. map_option snd (umPending s) = Some x" warned for provider model
  by unfold_locales (simp add: use_menu_start_def, rule menu_pending)

interpretation menu_consent: tracing use_menu_start "menu_step provider model" menu_enabled menu_inv
    "\<lambda>s x. (fst x, snd x, True) \<in> set (umSent s)" "\<lambda>s e x. e = MenuConfirm \<and> map_option snd (umPending s) = Some x"
    for provider model
  by unfold_locales (simp add: use_menu_start_def, rule menu_confirmed)

text \<open>A card sends a confirmed assignment only when the user confirms the warning that the gateway gave about
  the same scope and task.\<close>

theorem card_assignments_are_confirmed:
  assumes "legal_run menu_enabled (menu_step provider model) use_menu_start es"
    and "(scope, task, True) \<in> set (umSent (menu_run provider model es))"
  shows "\<exists>us k a vs ws. es = us @ MenuAnswered k (Inr a) # vs @ MenuConfirm # ws \<and> anConfirm a
    \<and> umAsked (menu_run provider model us) ! k = (scope, task)"
proof -
  obtain us ws where us: "es = us @ MenuConfirm # ws" "map_option snd (umPending (menu_run provider model us)) = Some (scope, task)"
    using menu_consent.traced [OF assms(1), of "(scope, task)"] assms(2) by auto
  have "legal_run menu_enabled (menu_step provider model) use_menu_start us"
    using assms(1) by (simp add: us(1) legal_run_append)
  from menu_warning.traced [OF this us(2)] show ?thesis by (fastforce simp: us(1) warned_def)
qed

section \<open>Loads\<close>

text \<open>The period of the data is kept beside it. \<open>mpLoads\<close> are the loads under way with their period, \<open>mpAuxLoads\<close>
  the number of reads of the assignments, \<open>mpLastFocus\<close> the time of the last read on focus.\<close>

record models_page =
  mpDays :: nat
  mpData :: "nat option"
  mpAux :: "aux_models option"
  mpLoading :: bool
  mpError :: "string option"
  mpSaveKey :: nat
  mpLoads :: "nat list"
  mpAuxLoads :: nat
  mpLastFocus :: nat
  mpFocusReads :: "nat list"

definition models_start :: models_page where
  "models_start =
     \<lparr>mpDays = 30, mpData = None, mpAux = None, mpLoading = True, mpError = None, mpSaveKey = 0, mpLoads = [30], mpAuxLoads = 0,
      mpLastFocus = 0, mpFocusReads = []\<rparr>"

definition load_models :: "models_page \<Rightarrow> models_page" where
  "load_models s = s\<lparr>mpLoading := True, mpError := None, mpLoads := mpLoads s @ [mpDays s]\<rparr>"

definition set_days :: "nat \<Rightarrow> models_page \<Rightarrow> models_page" where
  "set_days d s = (if d = mpDays s then s else load_models (s\<lparr>mpDays := d\<rparr>))"

text \<open>A load succeeds without the assignments when reading those failed.\<close>

definition models_loaded :: "nat \<Rightarrow> string + aux_models option \<Rightarrow> models_page \<Rightarrow> models_page" where
  "models_loaded k r s =
     (let s1 = s\<lparr>mpLoads := take_out k (mpLoads s), mpLoading := False\<rparr>
      in case r of Inl e \<Rightarrow> s1\<lparr>mpError := Some e\<rparr> | Inr aux \<Rightarrow> s1\<lparr>mpData := Some (mpLoads s ! k), mpAux := aux\<rparr>)"

definition refresh_aux :: "models_page \<Rightarrow> models_page" where
  "refresh_aux s = s\<lparr>mpAuxLoads := mpAuxLoads s + 1\<rparr>"

definition aux_loaded :: "aux_models option \<Rightarrow> models_page \<Rightarrow> models_page" where
  "aux_loaded r s =
     (let s1 = s\<lparr>mpAuxLoads := mpAuxLoads s - 1\<rparr> in case r of None \<Rightarrow> s1 | Some a \<Rightarrow> s1\<lparr>mpAux := Some a\<rparr>)"

definition on_assigned :: "models_page \<Rightarrow> models_page" where
  "on_assigned s = (refresh_aux s)\<lparr>mpSaveKey := mpSaveKey s + 1\<rparr>"

definition on_focus :: "nat \<Rightarrow> bool \<Rightarrow> models_page \<Rightarrow> models_page" where
  "on_focus now visible s =
     (if \<not> visible then s
      else if int now - int (mpLastFocus s) < 1000 then s
      else refresh_aux (s\<lparr>mpLastFocus := now, mpFocusReads := mpFocusReads s @ [now]\<rparr>))"

datatype models_event =
    SetDays nat | RefreshModels | ModelsLoaded nat "string + aux_models option" | AuxLoaded "aux_models option" | Assigned | Focused nat bool

primrec models_step :: "models_page \<Rightarrow> models_event \<Rightarrow> models_page" where
  "models_step s (SetDays d) = set_days d s"
| "models_step s RefreshModels = load_models s"
| "models_step s (ModelsLoaded k r) = models_loaded k r s"
| "models_step s (AuxLoaded r) = aux_loaded r s"
| "models_step s Assigned = on_assigned s"
| "models_step s (Focused now visible) = on_focus now visible s"

primrec models_enabled :: "models_page \<Rightarrow> models_event \<Rightarrow> bool" where
  "models_enabled s (SetDays d) = (d \<in> set (map snd PERIODS))"
| "models_enabled s RefreshModels = (\<not> mpLoading s)"
| "models_enabled s (ModelsLoaded k r) = (k < length (mpLoads s))"
| "models_enabled s (AuxLoaded r) = (0 < mpAuxLoads s)"
| "models_enabled s Assigned = True"
| "models_enabled s (Focused now visible) = True"

abbreviation models_run :: "models_event list \<Rightarrow> models_page" where
  "models_run es \<equiv> foldl models_step models_start es"

section \<open>Properties\<close>

text \<open>The vendor and the short name of a model are the two halves of its name.\<close>

theorem model_name_parts:
  "if index_of (CHR ''/'') model \<in> {None, Some 0} then short_model_name model = model \<and> model_vendor model (Some f) = f
   else model = model_vendor model (Some f) @ CHR ''/'' # short_model_name model \<and> CHR ''/'' \<notin> set (model_vendor model (Some f))"
proof (cases "index_of (CHR ''/'') model")
  case (Some i)
  from index_of_Some [OF Some] have i: "i < length model" "model ! i = CHR ''/''" "\<forall>j < i. model ! j \<noteq> CHR ''/''" by blast+
  have "CHR ''/'' \<notin> set (take i model)" using i by (auto simp: in_set_conv_nth)
  moreover have "model = take i model @ CHR ''/'' # drop (i + 1) model" using i id_take_nth_drop [of i model] by simp
  ultimately show ?thesis using Some by (cases i) (auto simp: short_model_name_def model_vendor_def)
qed (simp add: short_model_name_def model_vendor_def)

text \<open>The segments of a bar are the positive counts, and their shares add up to the whole bar.\<close>

lemma segments_total: "sum_list (map snd (token_segments i out cache r)) = i + out + cache + r"
  by (simp add: token_segments_def)

theorem token_bar_is_full:
  assumes "0 < i + out + cache + r"
  shows "sum_list (map (\<lambda>(c, v). of_nat v / of_nat (i + out + cache + r) * 100) (token_segments i out cache r)) = (100 :: rat)"
proof -
  let ?n = "of_nat (i + out + cache + r) :: rat"
  have "sum_list (map (\<lambda>(c, v). of_nat v / ?n * 100) xs) = of_nat (sum_list (map snd xs)) / ?n * 100" for xs :: "(segment \<times> nat) list"
    by (induction xs) (auto simp: add_divide_distrib algebra_simps)
  moreover have "?n \<noteq> 0" using assms by (simp only: of_nat_eq_0_iff)
  ultimately show ?thesis by (simp only: segments_total) simp
qed

text \<open>Reading the assignments on focus happens at most once a second, whatever comes in between.\<close>

fun spaced :: "nat list \<Rightarrow> bool" where
  "spaced (a # b # ts) = (a + 1000 \<le> b \<and> spaced (b # ts))"
| "spaced ts = True"

lemma spaced_snoc: "spaced ts \<Longrightarrow> (ts \<noteq> [] \<Longrightarrow> last ts + 1000 \<le> t) \<Longrightarrow> spaced (ts @ [t])"
  by (induction ts rule: spaced.induct) auto

definition focus_inv :: "models_page \<Rightarrow> bool" where
  "focus_inv s \<longleftrightarrow> spaced (mpFocusReads s) \<and> (mpFocusReads s \<noteq> [] \<longrightarrow> last (mpFocusReads s) = mpLastFocus s)"

lemma focus_step_inv:
  assumes "focus_inv s"
  shows "focus_inv (models_step s e)"
proof (cases e)
  case (Focused now visible)
  then show ?thesis using assms by (auto simp: on_focus_def refresh_aux_def focus_inv_def intro!: spaced_snoc)
qed (use assms in \<open>simp_all add: focus_inv_def set_days_def load_models_def models_loaded_def aux_loaded_def refresh_aux_def
    on_assigned_def Let_def split: sum.split option.split\<close>)

interpretation models: machine models_start models_step models_enabled focus_inv
  by unfold_locales (simp add: focus_inv_def models_start_def, rule focus_step_inv)

theorem focus_reads_are_spaced:
  "legal_run models_enabled models_step models_start es \<Longrightarrow> spaced (mpFocusReads (models_run es))"
  using models.run_inv by (simp add: focus_inv_def)

section \<open>What the code does not do\<close>

text \<open>Loads are not ordered: the answer for a period that was left replaces the data of the one shown as active.\<close>

lemma left_period_is_shown:
  "let s = models_run [SetDays 7, ModelsLoaded 1 (Inr None), ModelsLoaded 0 (Inr None)]
   in mpDays s = 7 \<and> mpData s = Some 30 \<and> mpLoads s = []"
  by code_simp

text \<open>A load that cannot read the assignments shows them as unset, though they were known.\<close>

lemma failed_read_unsets_the_models:
  "let a = \<lparr>axTasks = [], axMainProvider = ''p'', axMainModel = ''m''\<rparr>;
       s = models_run [ModelsLoaded 0 (Inr (Some a)), RefreshModels, ModelsLoaded 0 (Inr None)]
   in mpAux s = None \<and> mpError s = None"
  by code_simp

text \<open>The error of a confirmed assignment is shown in the menu only, which a press on the dialog has closed.\<close>

lemma confirmed_error_is_hidden:
  "let s = menu_run ''p'' ''m'' [MenuToggle, MenuAssign ScopeMain [], MenuAnswered 0 (Inr \<lparr>anConfirm = True, anMessage = None\<rparr>),
         MenuOutside, MenuConfirm, MenuAnswered 0 (Inl ''500'')]
   in umError s = Some ''500'' \<and> \<not> umOpen s \<and> umPending s = None"
  by code_simp

text \<open>A tiny cost is printed as nothing.\<close>

lemma tiny_cost: "format_cost (1 / 2 ^ 20) = ''$0.0000''"
proof -
  have "fixed_units 4 (1 / 2 ^ 20) = 0" by (rule fixed_unitsI) simp_all
  moreover have "show_nat 0 = ''0''" "replicate 3 (CHR ''0'') = ''000''" by code_simp+
  ultimately show ?thesis by (simp add: format_cost_def cent_def to_fixed_def)
qed

end
