(* ===== verification/MoaPresets.thy ===== *)
theory MoaPresets
  imports JsValue
begin

text \<open>
  The editor of the Mixture of Agents presets, \<open>MoaModelsModal\<close> of \<open>web/src/pages/ModelsPage.tsx\<close>: named
  presets of reference models and an aggregator, of which one is the default. The object of the presets is
  an association list in the order of its keys; names that are integers or names of inherited
  properties are outside the model.
\<close>

section \<open>State\<close>

record moa_slot =
  slProvider :: string
  slModel :: string
  slEffort :: "string option"

record moa_preset =
  prReferences :: "moa_slot list"
  prAggregator :: moa_slot
  prRefTemperature :: jsnum
  prAggTemperature :: jsnum
  prMaxTokens :: jsnum
  prEnabled :: bool
  prRest :: "(string \<times> js) list"

record moa_config =
  moaDefault :: string
  moaActive :: string
  moaPresets :: "(string \<times> moa_preset) list"
  moaSeed :: moa_preset

datatype moa_picker = PickReference nat | PickAggregator

datatype moa_error = RecursiveMoa | MoaSaveFailed string

text \<open>\<open>moBroken\<close> says that an update was applied to a preset that is not there, where the code throws or
  stores a preset without references. \<open>moSaves\<close> are the configurations being saved, \<open>moStored\<close> the answers given
  to the page, and \<open>moClosed\<close> counts the calls of \<open>onClose\<close>.\<close>

record moa =
  moDraft :: moa_config
  moSelected :: string
  moNewName :: string
  moPicker :: "moa_picker option"
  moBusy :: bool
  moError :: "moa_error option"
  moBroken :: bool
  moSaves :: "moa_config list"
  moStored :: "moa_config list"
  moClosed :: nat

definition moa_start :: "moa_config \<Rightarrow> moa" where
  "moa_start c =
     \<lparr>moDraft = c,
      moSelected = (if moaDefault c \<noteq> [] then moaDefault c
                    else if moaPresets c \<noteq> [] \<and> fst (hd (moaPresets c)) \<noteq> [] then fst (hd (moaPresets c)) else ''default''),
      moNewName = [], moPicker = None, moBusy = False, moError = None, moBroken = False, moSaves = [], moStored = [], moClosed = 0\<rparr>"

definition preset_names :: "moa \<Rightarrow> string list" where
  "preset_names s = map fst (moaPresets (moDraft s))"

definition shown_preset :: "moa \<Rightarrow> moa_preset option" where
  "shown_preset s =
     (case map_of (moaPresets (moDraft s)) (moSelected s) of
        Some p \<Rightarrow> Some p
      | None \<Rightarrow> (case moaPresets (moDraft s) of [] \<Rightarrow> None | (n, p) # _ \<Rightarrow> Some p))"

definition slot_label :: "moa_slot \<Rightarrow> string \<times> string" where
  "slot_label sl =
     (if slProvider sl = [] then ''(provider)'' else slProvider sl, if slModel sl = [] then ''(model)'' else slModel sl)"

section \<open>Operations\<close>

definition update_selected_preset :: "(moa_preset \<Rightarrow> moa_preset) \<Rightarrow> moa \<Rightarrow> moa" where
  "update_selected_preset f s =
     (case map_of (moaPresets (moDraft s)) (moSelected s) of
        None \<Rightarrow> s\<lparr>moBroken := True\<rparr>
      | Some p \<Rightarrow> s\<lparr>moDraft := (moDraft s)\<lparr>moaPresets := obj_set (moSelected s) (f p) (moaPresets (moDraft s))\<rparr>\<rparr>)"

definition add_preset :: "moa \<Rightarrow> moa" where
  "add_preset s =
     (let name = trim (moNewName s); c = moDraft s
      in if name = [] \<or> name \<in> set (preset_names s) then s
         else s\<lparr>moDraft := c\<lparr>moaDefault := (if moaDefault c = [] then name else moaDefault c),
                            moaPresets := obj_set name (case shown_preset s of Some p \<Rightarrow> p | None \<Rightarrow> moaSeed c) (moaPresets c)\<rparr>,
                moSelected := name, moNewName := []\<rparr>)"

definition delete_preset :: "moa \<Rightarrow> moa" where
  "delete_preset s =
     (if length (preset_names s) \<le> 1 then s
      else (let c = moDraft s; sel = moSelected s; next_selected = hd (filter (\<lambda>n. n \<noteq> sel) (preset_names s))
            in s\<lparr>moDraft := c\<lparr>moaPresets := obj_del sel (moaPresets c),
                              moaDefault := (if moaDefault c = sel then next_selected else moaDefault c),
                              moaActive := (if moaActive c = sel then [] else moaActive c)\<rparr>,
                 moSelected := next_selected\<rparr>))"

definition set_default :: "moa \<Rightarrow> moa" where
  "set_default s = s\<lparr>moDraft := (moDraft s)\<lparr>moaDefault := moSelected s\<rparr>\<rparr>"

definition remove_reference :: "nat \<Rightarrow> moa \<Rightarrow> moa" where
  "remove_reference i = update_selected_preset (\<lambda>p. p\<lparr>prReferences := take_out i (prReferences p)\<rparr>)"

definition add_reference :: "moa \<Rightarrow> moa" where
  "add_reference = update_selected_preset (\<lambda>p. p\<lparr>prReferences := prReferences p @ [prAggregator p]\<rparr>)"

definition apply_pick :: "string \<Rightarrow> string \<Rightarrow> moa \<Rightarrow> moa" where
  "apply_pick provider model s =
     (if lower provider = ''moa'' then s\<lparr>moError := Some RecursiveMoa\<rparr>
      else (let slot = \<lparr>slProvider = provider, slModel = model, slEffort = None\<rparr>; s1 = s\<lparr>moError := None\<rparr>
            in case moPicker s of
                 None \<Rightarrow> s1
               | Some PickAggregator \<Rightarrow> update_selected_preset (\<lambda>p. p\<lparr>prAggregator := slot\<rparr>) s1
               | Some (PickReference i) \<Rightarrow> update_selected_preset (\<lambda>p. p\<lparr>prReferences := (prReferences p)[i := slot]\<rparr>) s1))"

definition moa_save :: "moa \<Rightarrow> moa" where
  "moa_save s = s\<lparr>moBusy := True, moError := None, moSaves := moSaves s @ [moDraft s]\<rparr>"

definition moa_saved :: "nat \<Rightarrow> string + moa_config \<Rightarrow> moa \<Rightarrow> moa" where
  "moa_saved k r s =
     (let s1 = s\<lparr>moSaves := take_out k (moSaves s), moBusy := False\<rparr>
      in case r of
           Inl e \<Rightarrow> s1\<lparr>moError := Some (MoaSaveFailed e)\<rparr>
         | Inr c \<Rightarrow> s1\<lparr>moStored := moStored s @ [c], moClosed := moClosed s + 1\<rparr>)"

definition close_moa :: "moa \<Rightarrow> moa" where
  "close_moa s = (if moPicker s = None then s\<lparr>moClosed := moClosed s + 1\<rparr> else s)"

datatype moa_event =
    MoaSelect string | MoaSetDefault | MoaDelete | MoaTypeName string | MoaAdd | MoaAddReference | MoaRemoveReference nat
  | MoaPick moa_picker | MoaPicked string string | MoaPickerClosed | MoaSave | MoaSaved nat "string + moa_config" | MoaClose

primrec moa_step :: "moa \<Rightarrow> moa_event \<Rightarrow> moa" where
  "moa_step s (MoaSelect n) = s\<lparr>moSelected := n\<rparr>"
| "moa_step s MoaSetDefault = set_default s"
| "moa_step s MoaDelete = delete_preset s"
| "moa_step s (MoaTypeName n) = s\<lparr>moNewName := n\<rparr>"
| "moa_step s MoaAdd = add_preset s"
| "moa_step s MoaAddReference = add_reference s"
| "moa_step s (MoaRemoveReference i) = remove_reference i s"
| "moa_step s (MoaPick p) = s\<lparr>moPicker := Some p\<rparr>"
| "moa_step s (MoaPicked provider model) = apply_pick provider model s"
| "moa_step s MoaPickerClosed = s\<lparr>moPicker := None\<rparr>"
| "moa_step s MoaSave = moa_save s"
| "moa_step s (MoaSaved k r) = moa_saved k r s"
| "moa_step s MoaClose = close_moa s"

text \<open>While the picker is open it covers the editor.\<close>

definition moa_open :: "moa \<Rightarrow> bool" where
  "moa_open s \<longleftrightarrow> moPicker s = None \<and> shown_preset s \<noteq> None"

definition shown_references :: "moa \<Rightarrow> nat" where
  "shown_references s = (case shown_preset s of None \<Rightarrow> 0 | Some p \<Rightarrow> length (prReferences p))"

primrec moa_enabled :: "moa \<Rightarrow> moa_event \<Rightarrow> bool" where
  "moa_enabled s (MoaSelect n) = (moa_open s \<and> n \<in> set (preset_names s))"
| "moa_enabled s MoaSetDefault = moa_open s"
| "moa_enabled s MoaDelete = (moa_open s \<and> 1 < length (preset_names s))"
| "moa_enabled s (MoaTypeName n) = moa_open s"
| "moa_enabled s MoaAdd = (moa_open s \<and> trim (moNewName s) \<noteq> [] \<and> trim (moNewName s) \<notin> set (preset_names s))"
| "moa_enabled s MoaAddReference = moa_open s"
| "moa_enabled s (MoaRemoveReference i) = (moa_open s \<and> i < shown_references s \<and> 1 < shown_references s)"
| "moa_enabled s (MoaPick p) = (moa_open s \<and> (case p of PickReference i \<Rightarrow> i < shown_references s | PickAggregator \<Rightarrow> True))"
| "moa_enabled s (MoaPicked provider model) = (moPicker s \<noteq> None)"
| "moa_enabled s MoaPickerClosed = (moPicker s \<noteq> None)"
| "moa_enabled s MoaSave = (moa_open s \<and> \<not> moBusy s)"
| "moa_enabled s (MoaSaved k r) = (k < length (moSaves s))"
| "moa_enabled s MoaClose = (shown_preset s \<noteq> None)"

section \<open>Valid configurations\<close>

definition slot_valid :: "moa_slot \<Rightarrow> bool" where
  "slot_valid sl \<longleftrightarrow> lower (slProvider sl) \<noteq> ''moa''"

definition preset_valid :: "moa_preset \<Rightarrow> bool" where
  "preset_valid p \<longleftrightarrow> prReferences p \<noteq> [] \<and> list_all slot_valid (prReferences p) \<and> slot_valid (prAggregator p)"

text \<open>At least one preset, distinct names, references in every preset, no recursion, and a default and an active
  preset that are there (an empty active name stands for none).\<close>

definition config_valid :: "moa_config \<Rightarrow> bool" where
  "config_valid c \<longleftrightarrow>
     moaPresets c \<noteq> [] \<and> distinct (map fst (moaPresets c)) \<and> list_all (\<lambda>(n, p). preset_valid p) (moaPresets c)
     \<and> moaDefault c \<in> set (map fst (moaPresets c)) \<and> (moaActive c = [] \<or> moaActive c \<in> set (map fst (moaPresets c)))"

definition moa_inv :: "moa \<Rightarrow> bool" where
  "moa_inv s \<longleftrightarrow> config_valid (moDraft s) \<and> moSelected s \<in> set (preset_names s) \<and> \<not> moBroken s
     \<and> list_all config_valid (moSaves s)"

lemma names_obj_set: "n \<in> fst ` set ps \<Longrightarrow> map fst (obj_set n v ps) = map fst ps"
  by (induction ps) (auto split: prod.splits, force)

lemma values_obj_set: "list_all (\<lambda>(n, p). P p) ps \<Longrightarrow> P v \<Longrightarrow> list_all (\<lambda>(n, p). P p) (obj_set k v ps)"
  by (induction ps) (auto split: prod.splits)

lemma values_obj_del: "list_all (\<lambda>(n, p). P p) ps \<Longrightarrow> list_all (\<lambda>(n, p). P p) (obj_del k ps)"
  by (auto simp: obj_del_def list_all_iff)

lemma obj_set_nonempty [simp]: "obj_set k v ps \<noteq> []"
  by (cases ps) (auto split: prod.splits if_splits)

lemma update_selected_inv:
  assumes inv: "moa_inv s" and keeps: "\<And>p. map_of (moaPresets (moDraft s)) (moSelected s) = Some p \<Longrightarrow> preset_valid p \<Longrightarrow> preset_valid (f p)"
  shows "moa_inv (update_selected_preset f s)"
proof -
  obtain p where p: "map_of (moaPresets (moDraft s)) (moSelected s) = Some p"
    using inv by (auto simp: moa_inv_def preset_names_def dest!: weak_map_of_SomeI)
  then have "preset_valid p"
    using inv by (auto simp: moa_inv_def config_valid_def list_all_iff dest!: map_of_SomeD)
  then have "preset_valid (f p)" using keeps p by blast
  moreover have "moSelected s \<in> fst ` set (moaPresets (moDraft s))" using p by (force dest!: map_of_SomeD)
  ultimately show ?thesis
    using inv p by (simp add: update_selected_preset_def moa_inv_def config_valid_def preset_names_def names_obj_set
        values_obj_set distinct_obj_set keys_obj_set)
qed

lemma selected_shown: "moa_inv s \<Longrightarrow> shown_preset s = map_of (moaPresets (moDraft s)) (moSelected s)"
  by (auto simp: moa_inv_def preset_names_def shown_preset_def dest!: weak_map_of_SomeI)

lemma shown_valid: "moa_inv s \<Longrightarrow> shown_preset s = Some p \<Longrightarrow> preset_valid p"
  using selected_shown by (fastforce simp: moa_inv_def config_valid_def list_all_iff dest!: map_of_SomeD)

lemma add_preset_inv:
  assumes "moa_inv s"
  shows "moa_inv (add_preset s)"
proof -
  obtain p where p: "shown_preset s = Some p" "preset_valid p"
    using assms selected_shown [OF assms] shown_valid [OF assms]
    by (auto simp: moa_inv_def preset_names_def dest!: weak_map_of_SomeI)
  then show ?thesis
    using assms
    by (auto simp: add_preset_def Let_def moa_inv_def config_valid_def preset_names_def distinct_obj_set keys_obj_set values_obj_set)
qed

lemma delete_preset_inv:
  assumes inv: "moa_inv s"
  shows "moa_inv (delete_preset s)"
proof (cases "length (preset_names s) \<le> 1")
  case False
  let ?c = "moDraft s" and ?sel = "moSelected s"
  let ?rest = "filter (\<lambda>n. n \<noteq> ?sel) (preset_names s)"
  have dist: "distinct (preset_names s)" and sel: "?sel \<in> set (preset_names s)"
    using inv by (simp_all add: moa_inv_def config_valid_def preset_names_def)
  have "\<exists>n \<in> set (preset_names s). n \<noteq> ?sel"
  proof (rule ccontr)
    assume "\<not> ?thesis"
    then have "set (preset_names s) \<subseteq> {?sel}" by blast
    then have "card (set (preset_names s)) \<le> 1" using card_mono [of "{?sel}"] by fastforce
    then show False using False dist by (simp add: distinct_card)
  qed
  then have "?rest \<noteq> []" by (auto simp: filter_empty_conv)
  then have nxt: "hd ?rest \<in> set (preset_names s)" "hd ?rest \<noteq> ?sel"
    using hd_in_set [of ?rest] by auto
  have keys: "fst ` set (obj_del ?sel (moaPresets ?c)) = set (preset_names s) - {?sel}"
    by (simp add: keys_obj_del preset_names_def)
  moreover have "obj_del ?sel (moaPresets ?c) \<noteq> []"
  proof
    assume "obj_del ?sel (moaPresets ?c) = []"
    then have "set (preset_names s) - {?sel} = {}" using keys by (simp only: list.set(1) image_empty)
    then show False using nxt by blast
  qed
  ultimately show ?thesis
    using False inv nxt dist
    by (auto simp: delete_preset_def Let_def moa_inv_def config_valid_def preset_names_def distinct_obj_del values_obj_del)
qed (use inv in \<open>simp add: delete_preset_def\<close>)

lemma remove_reference_inv:
  assumes inv: "moa_inv s" and i: "i < shown_references s" "1 < shown_references s"
  shows "moa_inv (remove_reference i s)"
  unfolding remove_reference_def
proof (rule update_selected_inv [OF inv])
  fix p
  assume p: "map_of (moaPresets (moDraft s)) (moSelected s) = Some p" and v: "preset_valid p"
  have n: "i < length (prReferences p)" "1 < length (prReferences p)"
    using i p selected_shown [OF inv] by (simp_all add: shown_references_def)
  then have "length (take_out i (prReferences p)) \<noteq> 0" by (simp add: length_take_out)
  moreover have "set (take_out i (prReferences p)) \<subseteq> set (prReferences p)" by (rule set_take_out_subset)
  ultimately show "preset_valid (p\<lparr>prReferences := take_out i (prReferences p)\<rparr>)"
    using v by (auto simp: preset_valid_def list_all_iff)
qed

lemma slots_updated: "list_all P xs \<Longrightarrow> P v \<Longrightarrow> list_all P (xs[i := v])"
  by (auto simp: list_all_iff dest!: set_update_subset_insert [THEN subsetD])

lemma apply_pick_inv:
  assumes "moa_inv s"
  shows "moa_inv (apply_pick provider model s)"
proof (cases "lower provider = ''moa''")
  case False
  have "moa_inv (s\<lparr>moError := None\<rparr>)" using assms by (simp add: moa_inv_def preset_names_def)
  moreover have "slot_valid \<lparr>slProvider = provider, slModel = model, slEffort = None\<rparr>" using False by (simp add: slot_valid_def)
  ultimately show ?thesis
    using False
    by (auto simp: apply_pick_def Let_def preset_valid_def slots_updated split: option.split moa_picker.split intro!: update_selected_inv)
qed (use assms in \<open>simp add: apply_pick_def moa_inv_def preset_names_def\<close>)

lemma moa_calm:
  "moa_inv s \<Longrightarrow> moDraft t = moDraft s \<Longrightarrow> moSelected t = moSelected s \<Longrightarrow> moBroken t = moBroken s \<Longrightarrow> moSaves t = moSaves s \<Longrightarrow> moa_inv t"
  by (simp add: moa_inv_def preset_names_def)

lemma moa_step_inv: "moa_inv s \<Longrightarrow> moa_enabled s e \<Longrightarrow> moa_inv (moa_step s e)"
proof (cases e)
  case (MoaSaved k r)
  assume inv: "moa_inv s"
  have "list_all config_valid (take_out k (moSaves s))"
    using inv set_take_out_subset [of k "moSaves s"] by (auto simp: moa_inv_def list_all_iff)
  then show ?thesis using inv MoaSaved by (simp add: moa_saved_def Let_def moa_inv_def preset_names_def split: sum.split)
next
  case MoaAddReference
  assume "moa_inv s"
  then have "moa_inv (add_reference s)"
    unfolding add_reference_def by (rule update_selected_inv) (simp add: preset_valid_def)
  then show ?thesis using MoaAddReference by simp
next
  case (MoaSelect n)
  then show "moa_inv s \<Longrightarrow> moa_enabled s e \<Longrightarrow> ?thesis" by (simp add: moa_inv_def preset_names_def)
next
  case MoaSetDefault
  then show "moa_inv s \<Longrightarrow> ?thesis" by (simp add: set_default_def moa_inv_def preset_names_def config_valid_def)
next
  case MoaSave
  then show "moa_inv s \<Longrightarrow> ?thesis" by (simp add: moa_save_def moa_inv_def preset_names_def)
qed (simp_all add: add_preset_inv delete_preset_inv remove_reference_inv apply_pick_inv moa_calm close_moa_def)

lemma moa_start_inv:
  assumes "config_valid c" "\<And>n. n \<in> set (map fst (moaPresets c)) \<Longrightarrow> n \<noteq> []"
  shows "moa_inv (moa_start c)"
  using assms by (auto simp: moa_inv_def moa_start_def config_valid_def preset_names_def)

section \<open>Properties\<close>

definition initial_ok :: "moa_config \<Rightarrow> bool" where
  "initial_ok c \<longleftrightarrow> config_valid c \<and> [] \<notin> set (map fst (moaPresets c))"

text \<open>Claim C28. The editor saves only valid presets: started from a valid configuration, whatever the user does,
  every configuration sent to the gateway has at least one preset, references and an aggregator in each of
  them, none of them recursive, and a default and an active preset that exist; and no edit misses its preset.\<close>

theorem moa_saves_valid_presets:
  assumes "initial_ok c" "legal_run moa_enabled moa_step (moa_start c) es"
  shows "list_all config_valid (moSaves (foldl moa_step (moa_start c) es)) \<and> \<not> moBroken (foldl moa_step (moa_start c) es)
    \<and> config_valid (moDraft (foldl moa_step (moa_start c) es))"
proof -
  have "moa_inv (moa_start c)" using assms(1) by (intro moa_start_inv) (force simp: initial_ok_def)+
  then have "machine (moa_start c) moa_step moa_enabled moa_inv" by unfold_locales (simp_all add: moa_step_inv)
  then show ?thesis using machine.run_inv assms(2) by (fastforce simp: moa_inv_def)
qed

definition slot :: "string \<Rightarrow> string \<Rightarrow> moa_slot" where
  "slot p m = \<lparr>slProvider = p, slModel = m, slEffort = None\<rparr>"

definition one_preset :: moa_preset where
  "one_preset =
     \<lparr>prReferences = [slot ''a'' ''m1''], prAggregator = slot ''b'' ''m2'', prRefTemperature = Fin 1, prAggTemperature = Fin 1,
      prMaxTokens = Fin 4096, prEnabled = True, prRest = []\<rparr>"

definition one_config :: moa_config where
  "one_config = \<lparr>moaDefault = ''p'', moaActive = ''p'', moaPresets = [(''p'', one_preset)], moaSeed = one_preset\<rparr>"

definition editing_presets :: "moa_event list" where
  "editing_presets =
     [MoaTypeName '' q '', MoaAdd, MoaAddReference, MoaPick (PickReference 0), MoaPicked ''MoA'' ''p'', MoaPicked ''c'' ''m3'', MoaPickerClosed,
      MoaRemoveReference 1, MoaSelect ''p'', MoaDelete, MoaSave]"

lemma moa_saves_valid_presets_witness:
  "initial_ok one_config \<and> legal_run moa_enabled moa_step (moa_start one_config) editing_presets
   \<and> (let s = foldl moa_step (moa_start one_config) editing_presets
      in list_all config_valid (moSaves s) \<and> \<not> moBroken s
         \<and> map (\<lambda>c. (moaDefault c, moaActive c, map fst (moaPresets c))) (moSaves s) = [(''q'', [], [''q''])])"
proof -
  have ok: "initial_ok one_config" and legal: "legal_run moa_enabled moa_step (moa_start one_config) editing_presets"
    and sent: "map (\<lambda>c. (moaDefault c, moaActive c, map fst (moaPresets c))) (moSaves (foldl moa_step (moa_start one_config) editing_presets))
        = [(''q'', [], [''q''])]"
    by code_simp+
  show ?thesis using moa_saves_valid_presets [OF ok legal] ok legal sent by (simp add: Let_def)
qed

text \<open>An edit changes the preset that is shown, and no other.\<close>

theorem edits_keep_other_presets:
  assumes "n \<noteq> moSelected s"
  shows "map_of (moaPresets (moDraft (update_selected_preset f s))) n = map_of (moaPresets (moDraft s)) n"
  using assms by (simp add: update_selected_preset_def map_of_obj_set split: option.split)

section \<open>What the code does not do\<close>

text \<open>With a default preset that does not exist the first preset is shown but the edits go to the missing one.\<close>

lemma dangling_default_breaks_edits:
  "let s = moa_start (one_config\<lparr>moaDefault := ''gone''\<rparr>)
   in shown_preset s = Some one_preset \<and> moa_enabled s MoaAddReference \<and> moBroken (moa_step s MoaAddReference)"
  by code_simp

text \<open>What is edited while a save is under way is dropped with the dialog when the save succeeds.\<close>

lemma edits_during_a_save_are_lost:
  "let es = [MoaSave, MoaAddReference, MoaSaved 0 (Inr one_config)]; s = foldl moa_step (moa_start one_config) es
   in legal_run moa_enabled moa_step (moa_start one_config) es \<and> moClosed s = 1 \<and> moStored s = [one_config]
      \<and> moaPresets (moDraft s) \<noteq> moaPresets one_config"
  by code_simp

end
