(* ===== verification/EnvPage.thy ===== *)
theory EnvPage
  imports JsValue "HOL-Library.Multiset"
begin

text \<open>
  The page of the keys, \<open>web/src/pages/EnvPage.tsx\<close>: the variables of the environment by provider and
  category, their edits, and the requests that save, clear and reveal them, which may overlap and be
  answered in any order and with any answer.
  Texts of the translations and the card of the sign-ins are left out. Keys are names of variables, so
  the objects of the page are association lists in the order of their keys.
\<close>

section \<open>Groups\<close>

definition PROVIDER_GROUPS :: "(string \<times> string \<times> nat) list" where
  "PROVIDER_GROUPS =
     [(''NOUS_'', ''Nous Portal'', 0), (''ANTHROPIC_'', ''Anthropic'', 1),
      (''DASHSCOPE_'', ''DashScope (Qwen)'', 2), (''HERMES_QWEN_'', ''DashScope (Qwen)'', 2), (''DEEPSEEK_'', ''DeepSeek'', 3),
      (''GOOGLE_'', ''Gemini'', 4), (''GEMINI_'', ''Gemini'', 4), (''GLM_'', ''GLM / Z.AI'', 5), (''ZAI_'', ''GLM / Z.AI'', 5),
      (''Z_AI_'', ''GLM / Z.AI'', 5), (''HF_'', ''Hugging Face'', 6), (''KIMI_'', ''Kimi / Moonshot'', 7),
      (''MINIMAX_CN_'', ''MiniMax (China)'', 9), (''MINIMAX_'', ''MiniMax'', 8), (''OPENCODE_GO_'', ''OpenCode Go'', 10),
      (''OPENCODE_ZEN_'', ''OpenCode Zen'', 11), (''OPENROUTER_'', ''OpenRouter'', 12), (''XIAOMI_'', ''Xiaomi MiMo'', 13),
      (''UPSTAGE_'', ''Upstage Solar'', 14)]"

definition get_provider_group :: "string \<Rightarrow> string" where
  "get_provider_group key =
     (case find (\<lambda>(p, n, i). starts_with key p) PROVIDER_GROUPS of Some (p, n, i) \<Rightarrow> n | None \<Rightarrow> ''Other'')"

definition get_provider_priority :: "string \<Rightarrow> nat" where
  "get_provider_priority name =
     (case find (\<lambda>(p, n, i). n = name) PROVIDER_GROUPS of Some (p, n, i) \<Rightarrow> i | None \<Rightarrow> 99)"

record env_info =
  eiSet :: bool
  eiRedacted :: "string option"
  eiCategory :: string
  eiAdvanced :: bool
  eiChannel :: bool
  eiUrl :: "string option"

type_synonym env_entry = "string \<times> env_info"

text \<open>Groups in the order of their first entries, then sorted by priority (the sort is stable).\<close>

fun group_entries :: "env_entry list \<Rightarrow> (string \<times> env_entry list) list \<Rightarrow> (string \<times> env_entry list) list" where
  "group_entries [] gs = gs"
| "group_entries (e # es) gs =
     (let g = get_provider_group (fst e)
      in group_entries es (obj_set g ((case map_of gs g of None \<Rightarrow> [] | Some xs \<Rightarrow> xs) @ [e]) gs))"

definition provider_entries :: "bool \<Rightarrow> env_entry list \<Rightarrow> env_entry list" where
  "provider_entries advanced vars =
     filter (\<lambda>(k, i). eiCategory i = ''provider'' \<and> (advanced \<or> \<not> eiAdvanced i)) vars"

definition provider_groups :: "bool \<Rightarrow> env_entry list \<Rightarrow> (string \<times> env_entry list) list" where
  "provider_groups advanced vars =
     sort_key (\<lambda>(n, es). get_provider_priority n) (group_entries (provider_entries advanced vars) [])"

definition has_any_set :: "env_entry list \<Rightarrow> bool" where
  "has_any_set es \<longleftrightarrow> list_ex (\<lambda>(k, i). eiSet i) es"

definition configured_providers :: "bool \<Rightarrow> env_entry list \<Rightarrow> nat" where
  "configured_providers advanced vars = length (filter (\<lambda>(n, es). has_any_set es) (provider_groups advanced vars))"

text \<open>The rows of an open group: keys and tokens, then addresses, then the rest.\<close>

definition is_api_key :: "string \<Rightarrow> bool" where
  "is_api_key k \<longleftrightarrow> ends_with k ''_API_KEY'' \<or> ends_with k ''_TOKEN''"

definition is_base_url :: "string \<Rightarrow> bool" where
  "is_base_url k \<longleftrightarrow> ends_with k ''_BASE_URL''"

definition group_rows :: "env_entry list \<Rightarrow> env_entry list" where
  "group_rows es =
     filter (\<lambda>(k, i). is_api_key k) es @ filter (\<lambda>(k, i). is_base_url k) es
     @ filter (\<lambda>(k, i). \<not> is_api_key k \<and> \<not> is_base_url k) es"

definition key_url :: "env_entry list \<Rightarrow> string option" where
  "key_url es =
     (case find (\<lambda>(k, i). is_api_key k \<and> truthy_str (eiUrl i)) es of Some (k, i) \<Rightarrow> eiUrl i | None \<Rightarrow> None)"

definition category_entries :: "bool \<Rightarrow> env_entry list \<Rightarrow> string \<Rightarrow> env_entry list" where
  "category_entries advanced vars cat =
     (let es = filter (\<lambda>(k, i). eiCategory i = cat \<and> \<not> eiChannel i \<and> (advanced \<or> \<not> eiAdvanced i)) vars
      in filter (\<lambda>(k, i). eiSet i) es @ filter (\<lambda>(k, i). \<not> eiSet i) es)"

definition other_categories :: "string list" where
  "other_categories = [''tool'', ''messaging'', ''setting'']"

text \<open>\<open>localeCompare\<close> of the names of custom keys is a parameter, a sort of them.\<close>

definition custom_entries :: "(env_entry list \<Rightarrow> env_entry list) \<Rightarrow> env_entry list \<Rightarrow> env_entry list" where
  "custom_entries arrange vars = arrange (filter (\<lambda>(k, i). eiCategory i = ''custom'' \<and> \<not> eiChannel i) vars)"

text \<open>All rows of the page, with every group and section open.\<close>

definition page_rows :: "(env_entry list \<Rightarrow> env_entry list) \<Rightarrow> bool \<Rightarrow> env_entry list \<Rightarrow> env_entry list" where
  "page_rows arrange advanced vars =
     concat (map (\<lambda>(n, es). group_rows es) (provider_groups advanced vars))
     @ concat (map (category_entries advanced vars) other_categories)
     @ custom_entries arrange vars"

definition section_ids :: "env_entry list option \<Rightarrow> string list" where
  "section_ids vars =
     [''section-oauth'', ''section-providers'']
     @ (case vars of
          None \<Rightarrow> []
        | Some vs \<Rightarrow>
            map (\<lambda>c. ''section-'' @ c) (filter (\<lambda>c. list_ex (\<lambda>(k, i). eiCategory i = c \<and> \<not> eiChannel i) vs) other_categories)
            @ [''section-custom''])"

section \<open>Every variable has one row\<close>

lemma concat_of_perm: "mset gs = mset hs \<Longrightarrow> mset (concat (map snd gs)) = mset (concat (map snd hs))"
proof -
  assume "mset gs = mset hs"
  then have "mset (map mset (map snd gs)) = mset (map mset (map snd hs))" by (metis mset_map)
  then have "sum_list (map mset (map snd gs)) = sum_list (map mset (map snd hs))" by (metis sum_mset_sum_list)
  then show ?thesis by (simp add: mset_concat)
qed

lemma entry_joins_group:
  "mset (concat (map snd (obj_set g ((case map_of gs g of None \<Rightarrow> [] | Some xs \<Rightarrow> xs) @ [e]) gs))) = mset (concat (map snd gs)) + {#e#}"
  by (induction gs) (auto split: prod.splits)

lemma group_entries_mset: "distinct (map fst gs) \<Longrightarrow>
    mset (concat (map snd (group_entries es gs))) = mset (concat (map snd gs)) + mset es \<and> distinct (map fst (group_entries es gs))"
proof (induction es gs rule: group_entries.induct)
  case (2 e es gs)
  then show ?case using entry_joins_group [of "get_provider_group (fst e)" gs e] by (simp add: Let_def distinct_obj_set)
qed simp

lemma ends_with_last: "ends_with k p \<Longrightarrow> p \<noteq> [] \<Longrightarrow> k \<noteq> [] \<and> last k = last p"
proof -
  assume "ends_with k p" "p \<noteq> []"
  then have "take (length (rev p)) (rev k) = rev p" by (simp add: ends_with_def starts_with_def)
  then have "hd (rev k) = hd (rev p)" "rev k \<noteq> []" using \<open>p \<noteq> []\<close>
    by (metis hd_take length_greater_0_conv rev_is_Nil_conv, metis rev_is_Nil_conv take_Nil \<open>p \<noteq> []\<close>)
  then show ?thesis using \<open>p \<noteq> []\<close> by (simp add: hd_rev)
qed

lemma key_kinds_differ: "is_api_key k \<Longrightarrow> \<not> is_base_url k"
  using ends_with_last [of k "''_API_KEY''"] ends_with_last [of k "''_TOKEN''"] ends_with_last [of k "''_BASE_URL''"]
  by (auto simp: is_api_key_def is_base_url_def)

lemma mset_filters: "(\<And>x. x \<in> set es \<Longrightarrow> P x \<Longrightarrow> \<not> Q x) \<Longrightarrow>
    mset (filter P es @ filter Q es @ filter (\<lambda>x. \<not> P x \<and> \<not> Q x) es) = mset es"
  by (induction es) auto

lemma group_rows_mset: "mset (group_rows es) = mset es"
proof -
  have "mset (filter (\<lambda>e. is_api_key (fst e)) es @ filter (\<lambda>e. is_base_url (fst e)) es
      @ filter (\<lambda>e. \<not> is_api_key (fst e) \<and> \<not> is_base_url (fst e)) es) = mset es"
    by (rule mset_filters) (rule key_kinds_differ)
  then show ?thesis by (simp add: group_rows_def case_prod_beta)
qed

lemma provider_rows_mset:
  "mset (concat (map (\<lambda>(n, es). group_rows es) (provider_groups advanced vars))) = mset (provider_entries advanced vars)"
proof -
  have rows: "mset (concat (map (\<lambda>(n, es). group_rows es) gs)) = mset (concat (map snd gs))" for gs
    by (induction gs) (auto simp: group_rows_mset)
  have "mset (concat (map snd (provider_groups advanced vars))) = mset (concat (map snd (group_entries (provider_entries advanced vars) [])))"
    unfolding provider_groups_def by (rule concat_of_perm) simp
  then show ?thesis unfolding rows using group_entries_mset [of "[]"] by simp
qed

lemma category_entries_mset:
  "mset (category_entries advanced vars cat)
     = mset (filter (\<lambda>(k, i). eiCategory i = cat \<and> \<not> eiChannel i \<and> (advanced \<or> \<not> eiAdvanced i)) vars)"
proof -
  have "mset (filter (\<lambda>x. eiSet (snd x)) es @ filter (\<lambda>x. \<not> eiSet (snd x)) es) = mset es" for es :: "env_entry list"
    by (induction es) auto
  then show ?thesis unfolding category_entries_def Let_def case_prod_beta .
qed

definition has_row :: "bool \<Rightarrow> env_info \<Rightarrow> bool" where
  "has_row advanced i \<longleftrightarrow>
     (eiCategory i = ''provider'' \<and> (advanced \<or> \<not> eiAdvanced i))
     \<or> (eiCategory i \<in> set other_categories \<and> \<not> eiChannel i \<and> (advanced \<or> \<not> eiAdvanced i))
     \<or> (eiCategory i = ''custom'' \<and> \<not> eiChannel i)"

lemma page_rows_mset:
  assumes "\<And>es. mset (arrange es) = mset es"
  shows "mset (page_rows arrange advanced vars) = mset (filter (\<lambda>(k, i). has_row advanced i) vars)"
proof -
  let ?cat = "\<lambda>c (x :: env_entry). eiCategory (snd x) = c \<and> \<not> eiChannel (snd x) \<and> (advanced \<or> \<not> eiAdvanced (snd x))"
  let ?prov = "\<lambda>x :: env_entry. eiCategory (snd x) = ''provider'' \<and> (advanced \<or> \<not> eiAdvanced (snd x))"
  let ?cust = "\<lambda>x :: env_entry. eiCategory (snd x) = ''custom'' \<and> \<not> eiChannel (snd x)"
  have "mset (page_rows arrange advanced vars)
      = mset (filter ?prov vars) + (mset (filter (?cat ''tool'') vars) + (mset (filter (?cat ''messaging'') vars)
          + (mset (filter (?cat ''setting'') vars) + mset (filter ?cust vars))))"
    using provider_rows_mset [of advanced vars] assms
    by (simp add: page_rows_def other_categories_def category_entries_mset provider_entries_def custom_entries_def case_prod_beta)
  also have "\<dots> = mset (filter (\<lambda>x. ?prov x \<or> ?cat ''tool'' x \<or> ?cat ''messaging'' x \<or> ?cat ''setting'' x \<or> ?cust x) vars)"
    by (induction vars) auto
  also have "(\<lambda>x. ?prov x \<or> ?cat ''tool'' x \<or> ?cat ''messaging'' x \<or> ?cat ''setting'' x \<or> ?cust x) = (\<lambda>(k, i). has_row advanced i)"
    by (auto simp: has_row_def other_categories_def)
  finally show ?thesis .
qed

text \<open>Claim C30. Every variable has one row: on the open page the rows are exactly the variables of the known
  categories that are not hidden as advanced or left to the page of the channels, each once, and within
  the providers in the order of their priority.\<close>

theorem every_key_has_one_row:
  assumes "\<And>es. mset (arrange es) = mset es"
  shows "mset (page_rows arrange advanced vars) = mset (filter (\<lambda>(k, i). has_row advanced i) vars)
    \<and> sorted (map (get_provider_priority \<circ> fst) (provider_groups advanced vars))"
proof
  have "sorted (map (\<lambda>(n, es). get_provider_priority n) (provider_groups advanced vars))"
    unfolding provider_groups_def by (rule sorted_sort_key)
  moreover have "get_provider_priority \<circ> fst = (\<lambda>(n, es :: env_entry list). get_provider_priority n)" by auto
  ultimately show "sorted (map (get_provider_priority \<circ> fst) (provider_groups advanced vars))" by simp
qed (rule page_rows_mset [OF assms])

theorem every_key_has_one_row_witness:
  "mset (page_rows id True [(''A'', \<lparr>eiSet = False, eiRedacted = None, eiCategory = ''custom'', eiAdvanced = False, eiChannel = False, eiUrl = None\<rparr>)]) = mset (filter (\<lambda>(k, i). has_row True i) [(''A'', \<lparr>eiSet = False, eiRedacted = None, eiCategory = ''custom'', eiAdvanced = False, eiChannel = False, eiUrl = None\<rparr>)])"
  using every_key_has_one_row [of id True "[(''A'', \<lparr>eiSet = False, eiRedacted = None, eiCategory = ''custom'', eiAdvanced = False, eiChannel = False, eiUrl = None\<rparr>)]"] by simp

section \<open>The page\<close>

text \<open>The address of a masked value: its first and last four characters.\<close>

definition mask :: "string \<Rightarrow> string" where
  "mask v = take 4 v @ ''...'' @ drop (length v - 4) v"

definition is_name_start :: "char \<Rightarrow> bool" where
  "is_name_start c \<longleftrightarrow> (65 \<le> code c \<and> code c \<le> 90) \<or> (97 \<le> code c \<and> code c \<le> 122) \<or> c = CHR ''_''"

definition valid_env_name :: "string \<Rightarrow> bool" where
  "valid_env_name k \<longleftrightarrow> (case k of [] \<Rightarrow> False | c # t \<Rightarrow> is_name_start c \<and> list_all (\<lambda>d. is_name_start d \<or> is_digit d) t)"

definition new_key_name :: "string \<Rightarrow> string" where
  "new_key_name typed = concat (map upper_char (trim typed))"

datatype env_request = SetVar string string | ClearVar string | RevealVar string

datatype env_reply = EnvDone | EnvValue string | EnvFailed

primrec request_key :: "env_request \<Rightarrow> string" where
  "request_key (SetVar k v) = k"
| "request_key (ClearVar k) = k"
| "request_key (RevealVar k) = k"

text \<open>\<open>evAsked\<close> are the requests under way.\<close>

record env_page =
  evVars :: "env_entry list"
  evEdits :: "(string \<times> string) list"
  evRevealed :: "(string \<times> string) list"
  evSaving :: "string option"
  evAdvanced :: bool
  evAsked :: "env_request list"

text \<open>The page once its variables are there; until then it shows a spinner.\<close>

definition env_loaded :: "env_entry list \<Rightarrow> env_page" where
  "env_loaded vars =
     \<lparr>evVars = vars, evEdits = [], evRevealed = [], evSaving = None, evAdvanced = True, evAsked = []\<rparr>"

definition env_ask :: "env_request \<Rightarrow> env_page \<Rightarrow> env_page" where
  "env_ask r s = s\<lparr>evAsked := evAsked s @ [r]\<rparr>"

definition env_edit :: "string \<Rightarrow> string \<Rightarrow> env_page \<Rightarrow> env_page" where
  "env_edit k v s = s\<lparr>evEdits := obj_set k v (evEdits s)\<rparr>"

definition cancel_env_edit :: "string \<Rightarrow> env_page \<Rightarrow> env_page" where
  "cancel_env_edit k s = s\<lparr>evEdits := obj_del k (evEdits s)\<rparr>"

definition save_var :: "string \<Rightarrow> env_page \<Rightarrow> env_page" where
  "save_var k s =
     (case map_of (evEdits s) k of
        None \<Rightarrow> s
      | Some v \<Rightarrow> if v = [] then s else env_ask (SetVar k v) (s\<lparr>evSaving := Some k\<rparr>))"

definition clear_var :: "string \<Rightarrow> env_page \<Rightarrow> env_page" where
  "clear_var k s = env_ask (ClearVar k) (s\<lparr>evSaving := Some k\<rparr>)"

definition reveal_var :: "string \<Rightarrow> env_page \<Rightarrow> env_page" where
  "reveal_var k s =
     (if truthy_str (map_of (evRevealed s) k) then s\<lparr>evRevealed := obj_del k (evRevealed s)\<rparr>
      else env_ask (RevealVar k) s)"

definition custom_info :: env_info where
  "custom_info =
     \<lparr>eiSet = False, eiRedacted = None, eiCategory = ''custom'', eiAdvanced = False, eiChannel = False, eiUrl = None\<rparr>"

definition add_custom_key :: "string \<Rightarrow> env_page \<Rightarrow> env_page" where
  "add_custom_key typed s =
     (let k = new_key_name typed
      in if \<not> valid_env_name k \<or> k \<in> fst ` set (evEdits s) then s
         else s\<lparr>evVars := (if k \<in> fst ` set (evVars s) then evVars s else obj_set k custom_info (evVars s)),
                evEdits := obj_set k [] (evEdits s)\<rparr>)"

definition mark_var :: "string \<Rightarrow> bool \<Rightarrow> string option \<Rightarrow> env_page \<Rightarrow> env_page" where
  "mark_var k b m s =
     s\<lparr>evVars := map (\<lambda>(l, i). (l, if l = k then i\<lparr>eiSet := b, eiRedacted := m\<rparr> else i)) (evVars s),
       evEdits := obj_del k (evEdits s), evRevealed := obj_del k (evRevealed s)\<rparr>"

text \<open>The answer of a request: of a save or a clear, whether it succeeded; of a reveal, the value.\<close>

definition env_answered :: "nat \<Rightarrow> env_reply \<Rightarrow> env_page \<Rightarrow> env_page" where
  "env_answered n reply s =
     (let s1 = s\<lparr>evAsked := take_out n (evAsked s)\<rparr>
      in case evAsked s ! n of
           SetVar k v \<Rightarrow> (if reply = EnvDone then mark_var k True (Some (mask v)) s1 else s1)\<lparr>evSaving := None\<rparr>
         | ClearVar k \<Rightarrow> (if reply = EnvDone then mark_var k False None s1 else s1)\<lparr>evSaving := None\<rparr>
         | RevealVar k \<Rightarrow> (case reply of EnvValue v \<Rightarrow> s1\<lparr>evRevealed := obj_set k v (evRevealed s)\<rparr> | _ \<Rightarrow> s1))"

datatype env_event =
    EnvEdit string string | EnvCancel string | EnvSave string | EnvClear string | EnvReveal string | EnvAdd string
  | EnvShowAdvanced | EnvAnswered nat env_reply

primrec env_step :: "env_page \<Rightarrow> env_event \<Rightarrow> env_page" where
  "env_step s (EnvEdit k v) = env_edit k v s"
| "env_step s (EnvCancel k) = cancel_env_edit k s"
| "env_step s (EnvSave k) = save_var k s"
| "env_step s (EnvClear k) = clear_var k s"
| "env_step s (EnvReveal k) = reveal_var k s"
| "env_step s (EnvAdd typed) = add_custom_key typed s"
| "env_step s EnvShowAdvanced = s\<lparr>evAdvanced := \<not> evAdvanced s\<rparr>"
| "env_step s (EnvAnswered n reply) = env_answered n reply s"

text \<open>What a row shows for its value.\<close>

definition display_value :: "env_page \<Rightarrow> env_entry \<Rightarrow> string" where
  "display_value s e =
     (if eiSet (snd e) then
        (case map_of (evRevealed s) (fst e) of
           Some (c # v) \<Rightarrow> c # v
         | _ \<Rightarrow> (case eiRedacted (snd e) of None \<Rightarrow> ''---'' | Some m \<Rightarrow> m))
      else ''---'')"

definition env_known :: "env_page \<Rightarrow> string \<Rightarrow> bool" where
  "env_known s k \<longleftrightarrow> k \<in> fst ` set (evVars s)"

text \<open>Only a reveal is answered by a value.\<close>

primrec reply_fits :: "env_request \<Rightarrow> env_reply \<Rightarrow> bool" where
  "reply_fits (SetVar k v) reply = (reply \<in> {EnvDone, EnvFailed})"
| "reply_fits (ClearVar k) reply = (reply \<in> {EnvDone, EnvFailed})"
| "reply_fits (RevealVar k) reply = (reply \<noteq> EnvDone)"

text \<open>The buttons of a row. A clear is the user's answer to the dialog its button opens; the entry may have
  changed since.\<close>

primrec env_enabled :: "env_page \<Rightarrow> env_event \<Rightarrow> bool" where
  "env_enabled s (EnvEdit k v) = env_known s k"
| "env_enabled s (EnvCancel k) = (env_known s k \<and> k \<in> fst ` set (evEdits s))"
| "env_enabled s (EnvSave k) = (env_known s k \<and> evSaving s \<noteq> Some k \<and> truthy_str (map_of (evEdits s) k))"
| "env_enabled s (EnvClear k) = (env_known s k \<and> evSaving s \<noteq> Some k)"
| "env_enabled s (EnvReveal k) =
     (env_known s k \<and> map_option eiSet (map_of (evVars s) k) = Some True \<and> k \<notin> fst ` set (evEdits s))"
| "env_enabled s (EnvAdd typed) = True"
| "env_enabled s EnvShowAdvanced = True"
| "env_enabled s (EnvAnswered n reply) = (n < length (evAsked s) \<and> reply_fits (evAsked s ! n) reply)"

abbreviation env_run :: "env_entry list \<Rightarrow> env_event list \<Rightarrow> env_page" where
  "env_run vars es \<equiv> foldl env_step (env_loaded vars) es"

section \<open>What a key shows came with an answer\<close>

lemmas env_handlers = env_edit_def cancel_env_edit_def save_var_def clear_var_def reveal_var_def env_ask_def
  add_custom_key_def mark_var_def env_answered_def Let_def

text \<open>The answer of a reveal of the key.\<close>

definition reveals :: "env_page \<Rightarrow> env_event \<Rightarrow> string \<Rightarrow> string \<Rightarrow> bool" where
  "reveals s e k v \<longleftrightarrow> (\<exists>n. e = EnvAnswered n (EnvValue v) \<and> n < length (evAsked s) \<and> evAsked s ! n = RevealVar k)"

text \<open>What makes a shown value stale: the answer of a save or a clear of the key that succeeded, and the press that
  hides it.\<close>

definition forgets :: "env_page \<Rightarrow> env_event \<Rightarrow> string \<Rightarrow> bool" where
  "forgets s e k \<longleftrightarrow>
     (\<exists>n. e = EnvAnswered n EnvDone \<and> n < length (evAsked s) \<and> evAsked s ! n \<in> insert (ClearVar k) (range (SetVar k)))
     \<or> e = EnvReveal k \<and> map_of (evRevealed s) k \<notin> {None, Some []}"

lemma revealed_step:
  assumes "env_enabled s e" "map_of (evRevealed (env_step s e)) k = Some v"
  shows "map_of (evRevealed s) k = Some v \<or> reveals s e k v"
proof (cases e)
  case (EnvAnswered n reply)
  with assms show ?thesis
    by (cases "evAsked s ! n"; cases reply)
      (auto simp: env_answered_def mark_var_def Let_def map_of_obj_del reveals_def split: if_splits)
qed (use assms in \<open>auto simp: env_handlers split: if_splits option.splits\<close>)

lemma forgotten: "env_enabled s e \<Longrightarrow> forgets s e k \<Longrightarrow> map_of (evRevealed (env_step s e)) k = None"
  by (auto simp: forgets_def env_answered_def mark_var_def reveal_var_def Let_def truthy_str_def split: option.splits)

lemma asked_step:
  assumes "env_enabled s e" "r \<in> set (evAsked (env_step s e))"
  shows "r \<in> set (evAsked s) \<or> (\<forall>k. r = RevealVar k \<longrightarrow> e = EnvReveal k)"
  using assms
  by (cases e)
    (auto simp: env_edit_def cancel_env_edit_def save_var_def clear_var_def reveal_var_def env_ask_def add_custom_key_def
      mark_var_def env_answered_def Let_def split: if_splits option.splits env_request.splits env_reply.splits dest: in_take_out)

interpretation revealing: tracing "env_loaded vars" env_step env_enabled "\<lambda>_. True"
    "\<lambda>s (k, v). map_of (evRevealed s) k = Some v" "\<lambda>s e (k, v). reveals s e k v"
  by unfold_locales (auto simp: env_loaded_def dest: revealed_step)

interpretation asking: tracing "env_loaded vars" env_step env_enabled "\<lambda>_. True"
    "\<lambda>s k. RevealVar k \<in> set (evAsked s)" "\<lambda>s e k. e = EnvReveal k"
  by unfold_locales (auto simp: env_loaded_def dest: asked_step)

text \<open>Claim C29. A secret on the page is one the user asked to see, and it is not known to be stale: if a value
  is shown for a key, then the user pressed reveal for that key while it was set and not edited, that reveal was
  later answered with this value, and since that answer no save and no clear of the key was answered with
  success and the user has not hidden the value. Saves, clears and reveals of all keys may overlap, fail and be
  answered in any order.\<close>

theorem shown_secret_was_revealed:
  assumes "legal_run env_enabled env_step (env_loaded vars) es" "map_of (evRevealed (env_run vars es)) k = Some v"
  shows "\<exists>as bs n cs. es = as @ EnvReveal k # bs @ EnvAnswered n (EnvValue v) # cs
    \<and> map_option eiSet (map_of (evVars (env_run vars as)) k) = Some True \<and> k \<notin> fst ` set (evEdits (env_run vars as))
    \<and> evAsked (env_run vars (as @ EnvReveal k # bs)) ! n = RevealVar k
    \<and> (\<forall>xs e ys. cs = xs @ e # ys
         \<longrightarrow> \<not> forgets (env_run vars (as @ EnvReveal k # bs @ EnvAnswered n (EnvValue v) # xs)) e k)"
proof -
  from revealing.traced [OF assms(1), of "(k, v)"] assms(2) obtain us e cs where
    es: "es = us @ e # cs" and c: "reveals (env_run vars us) e k v"
    and held: "\<And>ys zs. cs = ys @ zs \<Longrightarrow> map_of (evRevealed (env_run vars (us @ e # ys))) k = Some v"
    by auto
  from c obtain n where e: "e = EnvAnswered n (EnvValue v)" "n < length (evAsked (env_run vars us))"
    "evAsked (env_run vars us) ! n = RevealVar k" by (auto simp: reveals_def)
  have us: "legal_run env_enabled env_step (env_loaded vars) us" using assms(1) es by (simp add: legal_run_append)
  have "RevealVar k \<in> set (evAsked (env_run vars us))" using e(2,3) nth_mem by metis
  from asking.traced [OF us, of k] this obtain as bs where a: "us = as @ EnvReveal k # bs" by blast
  have en: "env_enabled (env_run vars as) (EnvReveal k)" using us a by (simp add: legal_run_append)
  have "\<not> forgets (env_run vars (us @ e # xs)) f k" if "cs = xs @ f # ys" for xs f ys
  proof
    assume f: "forgets (env_run vars (us @ e # xs)) f k"
    have "es = (us @ e # xs) @ f # ys" using es that by simp
    then have "env_enabled (env_run vars (us @ e # xs)) f"
      using assms(1) by (simp only: legal_run_append legal_run.simps)
    from forgotten [OF this f] have "map_of (evRevealed (env_run vars (us @ e # (xs @ [f])))) k = None" by simp
    with held [of "xs @ [f]" ys] that show False by simp
  qed
  then show ?thesis
    using es a e en by (intro exI [of _ as] exI [of _ bs] exI [of _ n] exI [of _ cs]) simp
qed

definition set_info :: env_info where
  "set_info = custom_info\<lparr>eiSet := True\<rparr>"

definition sample_events :: "env_event list" where
  "sample_events = [EnvReveal ''K'', EnvEdit ''L'' ''w'', EnvSave ''L'', EnvAnswered 1 EnvDone, EnvAnswered 0 (EnvValue ''v'')]"

theorem shown_secret_was_revealed_witness:
  "map_of (evRevealed (env_run [(''K'', set_info), (''L'', custom_info)] sample_events)) ''K'' = Some ''v''
   \<and> (\<exists>as bs n cs. sample_events = as @ EnvReveal ''K'' # bs @ EnvAnswered n (EnvValue ''v'') # cs)"
proof -
  have legal: "legal_run env_enabled env_step (env_loaded [(''K'', set_info), (''L'', custom_info)]) sample_events"
    and shown: "map_of (evRevealed (env_run [(''K'', set_info), (''L'', custom_info)] sample_events)) ''K'' = Some ''v''"
    by code_simp+
  from shown_secret_was_revealed [OF legal shown] shown show ?thesis by blast
qed

text \<open>What the answers of a run say of the keys, newest last: a key is set, with the mask of its value, or not.\<close>

definition env_outcome :: "env_page \<Rightarrow> env_event \<Rightarrow> (string \<times> bool \<times> string option) list" where
  "env_outcome s e =
     (case e of
        EnvAnswered n EnvDone \<Rightarrow>
          (case evAsked s ! n of
             SetVar k v \<Rightarrow> [(k, True, Some (mask v))] | ClearVar k \<Rightarrow> [(k, False, None)] | RevealVar k \<Rightarrow> [])
      | _ \<Rightarrow> [])"

primrec env_history :: "env_page \<Rightarrow> env_event list \<Rightarrow> (string \<times> bool \<times> string option) list" where
  "env_history s [] = []"
| "env_history s (e # es) = env_outcome s e @ env_history (env_step s e) es"

lemma env_history_snoc: "env_history s (es @ [e]) = env_history s es @ env_outcome (foldl env_step s es) e"
  by (induction es arbitrary: s) simp_all

lemma map_of_marked: "map_of (map (\<lambda>(l, i). (l, if l = k then f i else i)) vs) j = (if j = k then map_option f (map_of vs k) else map_of vs j)"
  by (induction vs) auto

lemma vars_step:
  assumes "map_of (evVars s) k = Some i"
  shows "map_option (\<lambda>i. (eiSet i, eiRedacted i)) (map_of (evVars (env_step s e)) k)
     = Some (case map_of (rev (env_outcome s e)) k of None \<Rightarrow> (eiSet i, eiRedacted i) | Some x \<Rightarrow> x)"
proof (cases e)
  case (EnvAnswered n reply)
  then show ?thesis using assms
    by (cases "evAsked s ! n"; cases reply)
      (auto simp: env_answered_def mark_var_def Let_def env_outcome_def map_of_marked)
next
  case (EnvAdd typed)
  then show ?thesis using assms
    by (auto simp: add_custom_key_def Let_def env_outcome_def map_of_eq_None_iff [symmetric] dest: map_of_SomeD)
qed (use assms in \<open>auto simp: env_handlers env_outcome_def split: option.splits\<close>)

text \<open>A key shows as set, with its mask, exactly as the last answer of a save or a clear of it that succeeded says,
  and as it was loaded if there was none: failed requests and answers about other keys never change it.\<close>

theorem key_shows_its_last_answer:
  assumes "map_of vars k = Some i"
  shows "map_option (\<lambda>i. (eiSet i, eiRedacted i)) (map_of (evVars (env_run vars es)) k)
    = Some (case map_of (rev (env_history (env_loaded vars) es)) k of None \<Rightarrow> (eiSet i, eiRedacted i) | Some x \<Rightarrow> x)"
proof (induction es rule: rev_induct)
  case Nil
  then show ?case using assms by (simp add: env_loaded_def)
next
  case (snoc e es)
  then obtain j where j: "map_of (evVars (env_run vars es)) k = Some j"
    "(eiSet j, eiRedacted j) = (case map_of (rev (env_history (env_loaded vars) es)) k of None \<Rightarrow> (eiSet i, eiRedacted i) | Some x \<Rightarrow> x)"
    by auto
  show ?case using vars_step [OF j(1), of e] j(2) by (auto simp: env_history_snoc map_add_def split: option.splits)
qed

text \<open>Two requests at a time: a reveal asked before a save and answered after it shows the old value, whatever the
  gateway holds.\<close>

theorem late_reveal_shows_the_old_value:
  "let s = env_run [(''K'', set_info)]
         [EnvReveal ''K'', EnvEdit ''K'' ''new'', EnvSave ''K'', EnvAnswered 1 EnvDone, EnvAnswered 0 (EnvValue ''old'')]
   in evAsked s = [] \<and> map_option eiRedacted (map_of (evVars s) ''K'') = Some (Some (mask ''new''))
      \<and> map_of (evRevealed s) ''K'' = Some ''old''"
  by code_simp

text \<open>A secret of at most eight characters is shown whole; of a longer one eight characters are shown.\<close>

theorem mask_hides_long_values:
  "length v \<le> 8 \<Longrightarrow> set v \<subseteq> set (mask v)"
  "8 \<le> length v \<Longrightarrow> length (mask v) = 11"
proof -
  assume "length v \<le> 8"
  then have "drop 4 v = drop (4 - (length v - 4)) (drop (length v - 4) v)" by (cases "length v \<le> 4") simp_all
  then have "set (drop 4 v) \<subseteq> set (drop (length v - 4) v)" by (metis set_drop_subset)
  moreover have "set v = set (take 4 v) \<union> set (drop 4 v)" by (metis append_take_drop_id set_append)
  ultimately show "set v \<subseteq> set (mask v)" by (auto simp: mask_def)
qed (simp add: mask_def)

text \<open>What is typed while a save is under way is lost when its answer comes.\<close>

lemma typing_during_a_save_is_lost:
  assumes "evAsked s ! n = SetVar k v"
  shows "map_of (evEdits (env_answered n EnvDone s)) k = None"
  using assms by (simp add: env_answered_def Let_def mark_var_def map_of_obj_del)

end
