(* ===== verification/SkillsPage.thy ===== *)
theory SkillsPage
  imports UrlCodec JsValue "HOL-Library.Multiset" "HOL-Library.Product_Lexorder"
begin

text \<open>
  The page of the skills, \<open>web/src/pages/SkillsPage.tsx\<close> without the hub browser, and its editor,
  \<open>components/SkillEditorDialog.tsx\<close>: the lists by category and search, the switches of the skills, the loads
  and the answers of the gateway, which may be any and come in any order, the panel that asks the chat to learn
  a skill, and the editor. \<open>localeCompare\<close>
  is the order of a parameter, the collation key of a text. Texts of the translations are left out.
\<close>

section \<open>Lists\<close>

record skill =
  skName :: string
  skDescription :: string
  skCategory :: "string option"
  skEnabled :: bool

record toolset =
  tsName :: string
  tsLabel :: string
  tsDescription :: string
  tsEnabled :: bool
  tsConfigured :: bool
  tsTools :: "string list"

definition CATEGORY_LABELS :: "(string \<times> string) list" where
  "CATEGORY_LABELS =
     [(''mlops'', ''MLOps''), (''mlops/cloud'', ''MLOps / Cloud''), (''mlops/evaluation'', ''MLOps / Evaluation''),
      (''mlops/inference'', ''MLOps / Inference''), (''mlops/models'', ''MLOps / Models''),
      (''mlops/training'', ''MLOps / Training''), (''mlops/vector-databases'', ''MLOps / Vector DBs''),
      (''mcp'', ''MCP''), (''red-teaming'', ''Red Teaming''), (''ocr'', ''OCR''), (''p5js'', ''p5.js''), (''ai'', ''AI''),
      (''ux'', ''UX''), (''ui'', ''UI'')]"

fun split_marks :: "string \<Rightarrow> string list" where
  "split_marks [] = [[]]"
| "split_marks (c # s) =
     (if c \<in> set ''-_/'' then [] # split_marks s
      else case split_marks s of [] \<Rightarrow> [[c]] | w # ws \<Rightarrow> (c # w) # ws)"

definition capitalize :: "string \<Rightarrow> string" where
  "capitalize w = (case w of [] \<Rightarrow> [] | c # t \<Rightarrow> upper_char c @ t)"

definition pretty_category :: "string option \<Rightarrow> string \<Rightarrow> string" where
  "pretty_category raw general =
     (case raw of
        None \<Rightarrow> general
      | Some r \<Rightarrow>
          if r = [] then general
          else (case map_of CATEGORY_LABELS r of
                  Some l \<Rightarrow> l
                | None \<Rightarrow> join '' '' (map capitalize (split_marks r))))"

definition TOOLSET_ICONS :: "(string \<times> string) list" where
  "TOOLSET_ICONS =
     [(''computer'', ''Cpu''), (''web'', ''Globe''), (''security'', ''Shield''), (''vision'', ''Eye''), (''design'', ''Paintbrush''),
      (''ai'', ''Brain''), (''integration'', ''Blocks''), (''code'', ''Code''), (''automation'', ''Zap'')]"

definition toolset_icon :: "string \<Rightarrow> string" where
  "toolset_icon name =
     (case find (\<lambda>(k, i). str_includes (lower name) k) TOOLSET_ICONS of Some (k, i) \<Rightarrow> i | None \<Rightarrow> ''Wrench'')"

definition search_matched_skills :: "string \<Rightarrow> skill list \<Rightarrow> skill list" where
  "search_matched_skills search ks =
     (if trim search = [] then []
      else filter (\<lambda>k. str_includes (lower (skName k)) (lower search) \<or> str_includes (lower (skDescription k)) (lower search)
                    \<or> str_includes (lower (case skCategory k of None \<Rightarrow> [] | Some c \<Rightarrow> c)) (lower search)) ks)"

definition no_category :: string where
  "no_category = ''__none__''"

definition active_skills :: "(string \<Rightarrow> 'k::linorder) \<Rightarrow> string option \<Rightarrow> string \<Rightarrow> skill list \<Rightarrow> skill list" where
  "active_skills collate cat search ks =
     (if trim search \<noteq> [] then []
      else sort_key (collate \<circ> skName)
        (case cat of
           None \<Rightarrow> ks
         | Some c \<Rightarrow>
             if c = [] then ks
             else filter (\<lambda>k. if c = no_category then \<not> truthy_str (skCategory k) else skCategory k = Some c) ks))"

definition category_key :: "skill \<Rightarrow> string" where
  "category_key k = (case skCategory k of None \<Rightarrow> no_category | Some c \<Rightarrow> if c = [] then no_category else c)"

fun count_categories :: "skill list \<Rightarrow> (string \<times> nat) list \<Rightarrow> (string \<times> nat) list" where
  "count_categories [] cs = cs"
| "count_categories (k # ks) cs =
     (let c = category_key k
      in count_categories ks (obj_set c ((case map_of cs c of None \<Rightarrow> 0 | Some n \<Rightarrow> n) + 1) cs))"

definition all_categories :: "(string \<Rightarrow> 'k::linorder) \<Rightarrow> skill list \<Rightarrow> (string \<times> nat) list" where
  "all_categories collate ks =
     sort_key (\<lambda>(c, n). (c \<noteq> no_category, collate c)) (count_categories ks [])"

definition category_title :: "string \<Rightarrow> string \<Rightarrow> string" where
  "category_title general c = pretty_category (if c = no_category then None else Some c) general"

definition enabled_count :: "skill list \<Rightarrow> nat" where
  "enabled_count ks = length (filter skEnabled ks)"

definition filtered_toolsets :: "string \<Rightarrow> toolset list \<Rightarrow> toolset list" where
  "filtered_toolsets search ts =
     filter (\<lambda>t. search = [] \<or> str_includes (lower (tsName t)) (lower search) \<or> str_includes (lower (tsLabel t)) (lower search)
              \<or> str_includes (lower (tsDescription t)) (lower search)) ts"

definition toolset_label :: "toolset \<Rightarrow> string" where
  "toolset_label t = (if trim (tsLabel t) = [] then tsName t else trim (tsLabel t))"

section \<open>The categories partition the skills\<close>

lemma count_categories_keys:
  "distinct (map fst cs) \<Longrightarrow> distinct (map fst (count_categories ks cs))"
  by (induction ks cs rule: count_categories.induct) (simp_all add: Let_def)

lemma count_categories_counts:
  "map_of (count_categories ks cs) c =
     (let n = length (filter (\<lambda>k. category_key k = c) ks)
      in if n = 0 then map_of cs c else Some ((case map_of cs c of None \<Rightarrow> 0 | Some m \<Rightarrow> m) + n))"
proof (induction ks cs rule: count_categories.induct)
  case (2 k ks cs)
  then show ?case by (auto simp: Let_def split: option.splits)
qed simp

lemma category_listed:
  assumes "\<And>k. k \<in> set ks \<Longrightarrow> skCategory k \<noteq> Some no_category"
    and "c \<noteq> []" "trim search = []"
  shows "mset (active_skills collate (Some c) search ks) = mset (filter (\<lambda>k. category_key k = c) ks)"
proof -
  have "filter (\<lambda>k. if c = no_category then \<not> truthy_str (skCategory k) else skCategory k = Some c) ks
      = filter (\<lambda>k. category_key k = c) ks"
    using assms(1,2) by (intro filter_cong) (auto simp: category_key_def no_category_def truthy_str_def split: option.splits)
  then show ?thesis using assms(2,3) by (simp add: active_skills_def)
qed

lemma category_key_nonempty: "category_key k \<noteq> []"
  by (simp add: category_key_def no_category_def split: option.split)

lemma count_categories_keys_set: "fst ` set (count_categories ks cs) = fst ` set cs \<union> category_key ` set ks"
  by (induction ks cs rule: count_categories.induct) (auto simp: Let_def)

lemma partition_by_keys:
  "distinct cs \<Longrightarrow> f ` set ks \<subseteq> set cs \<Longrightarrow> mset (concat (map (\<lambda>c. filter (\<lambda>k. f k = c) ks) cs)) = mset ks"
proof (induction ks)
  case (Cons k ks)
  then have IH: "mset (concat (map (\<lambda>c. filter (\<lambda>k. f k = c) ks) cs)) = mset ks" and k: "f k \<in> set cs" by simp_all
  have "mset (concat (map (\<lambda>c. filter (\<lambda>k. f k = c) (k # ks)) ds))
      = mset (concat (map (\<lambda>c. filter (\<lambda>k. f k = c) ks) ds)) + (if f k \<in> set ds then {#k#} else {#})" if "distinct ds" for ds
    using that by (induction ds) auto
  then show ?case using IH k Cons.prems(1) by simp
qed simp

text \<open>The categories partition the skills: unless a skill names its category \<open>__none__\<close>, each
  category is listed once, those without one first and the others by collation, its count is the number
  of skills its choice shows, and the choices together show every skill exactly once.\<close>

theorem categories_partition_skills:
  fixes collate :: "string \<Rightarrow> 'k::linorder"
  assumes "no_category \<notin> Option.these (skCategory ` set ks)" "trim search = []"
  shows "distinct (map fst (all_categories collate ks))
    \<and> sorted (map (\<lambda>(c, n). (c \<noteq> no_category, collate c)) (all_categories collate ks))
    \<and> list_all (\<lambda>(c, n). n = length (active_skills collate (Some c) search ks)) (all_categories collate ks)
    \<and> mset (concat (map (\<lambda>(c, n). active_skills collate (Some c) search ks) (all_categories collate ks))) = mset ks"
proof -
  let ?cs = "all_categories collate ks"
  let ?listed = "\<lambda>c. active_skills collate (Some c) search ks"
  have free: "skCategory k \<noteq> Some no_category" if "k \<in> set ks" for k
    using assms(1) that by (force simp: in_these_eq)
  have keys: "distinct (map fst (count_categories ks []))" by (rule count_categories_keys) simp
  then have dist: "distinct (map fst ?cs)" by (simp add: all_categories_def distinct_map)
  have key_set: "fst ` set ?cs = category_key ` set ks"
    using count_categories_keys_set [of ks "[]"] by (simp add: all_categories_def)
  have listed: "mset (?listed c) = mset (filter (\<lambda>k. category_key k = c) ks)" if "c \<in> fst ` set ?cs" for c
    using free assms(2) that by (intro category_listed) (auto simp: key_set category_key_nonempty)
  have count: "n = length (?listed c)" if e: "(c, n) \<in> set ?cs" for c n
  proof -
    have "map_of (count_categories ks []) c = Some n" using e keys by (simp add: all_categories_def)
    moreover have "filter (\<lambda>k. category_key k = c) ks \<noteq> []"
      using e key_set by (force simp: filter_empty_conv)
    ultimately have "n = length (filter (\<lambda>k. category_key k = c) ks)"
      by (simp add: count_categories_counts Let_def)
    moreover have "c \<in> fst ` set ?cs" using e by force
    ultimately show ?thesis using listed by (metis size_mset)
  qed
  have each: "mset (concat (map ?listed ds)) = mset (concat (map (\<lambda>c. filter (\<lambda>k. category_key k = c) ks) ds))"
    if "set ds \<subseteq> fst ` set ?cs" for ds
    using that by (induction ds) (simp_all add: listed)
  have pairs: "map (\<lambda>(c, n). ?listed c) ?cs = map ?listed (map fst ?cs)" by (simp add: case_prod_beta comp_def)
  have "mset (concat (map ?listed (map fst ?cs))) = mset (concat (map (\<lambda>c. filter (\<lambda>k. category_key k = c) ks) (map fst ?cs)))"
    by (rule each) simp
  also have "\<dots> = mset ks" using dist key_set by (intro partition_by_keys) simp_all
  finally have "mset (concat (map (\<lambda>(c, n). ?listed c) ?cs)) = mset ks" unfolding pairs .
  moreover have "sorted (map (\<lambda>(c, n). (c \<noteq> no_category, collate c)) ?cs)"
    unfolding all_categories_def by (rule sorted_sort_key)
  moreover have "list_all (\<lambda>(c, n). n = length (?listed c)) ?cs" unfolding list_all_iff using count by blast
  ultimately show ?thesis using dist by (intro conjI)
qed

definition sample_skill :: "string \<Rightarrow> string option \<Rightarrow> skill" where
  "sample_skill n c = \<lparr>skName = n, skDescription = [], skCategory = c, skEnabled = True\<rparr>"

theorem categories_partition_skills_witness:
  "mset (concat (map (\<lambda>(c, n). active_skills length (Some c) [] [sample_skill ''a'' None, sample_skill ''b'' (Some ''x'')])
      (all_categories length [sample_skill ''a'' None, sample_skill ''b'' (Some ''x'')])))
    = mset [sample_skill ''a'' None, sample_skill ''b'' (Some ''x'')]"
  using categories_partition_skills [of "[sample_skill ''a'' None, sample_skill ''b'' (Some ''x'')]" "[]" length]
  by (simp add: sample_skill_def no_category_def in_these_eq)

text \<open>A skill whose category is named \<open>__none__\<close> is counted with those that have none but not listed with them.\<close>

theorem named_none_is_miscounted:
  "all_categories length [sample_skill ''a'' (Some no_category)] = [(no_category, 1)]
    \<and> active_skills length (Some no_category) [] [sample_skill ''a'' (Some no_category)] = []"
  by (simp add: all_categories_def active_skills_def sample_skill_def category_key_def no_category_def truthy_str_def)

section \<open>Learning a skill\<close>

text \<open>\<open>s.replace(/\s*\n\s*/g, " ")\<close>: every run of spaces that has a line break becomes one space.\<close>

definition line_break :: char where
  "line_break = CHR 0x0A"

function flatten_lines :: "string \<Rightarrow> string" where
  "flatten_lines [] = []"
| "flatten_lines (c # s) =
     (if is_ws c
      then (let run = takeWhile is_ws (c # s)
            in (if line_break \<in> set run then '' '' else run) @ flatten_lines (dropWhile is_ws (c # s)))
      else c # flatten_lines s)"
  by pat_completeness auto

termination
proof (relation "measure length")
  fix c :: char and s :: string
  assume "is_ws c"
  then show "(dropWhile is_ws (c # s), c # s) \<in> measure length" by (simp add: le_imp_less_Suc length_dropWhile_le)
qed simp_all

definition learn_segments :: "string \<Rightarrow> string \<Rightarrow> string \<Rightarrow> string list" where
  "learn_segments d u x =
     (if trim d = [] then [] else [''local source: '' @ trim d]) @ (if trim u = [] then [] else [''URL: '' @ trim u])
     @ (if trim x = [] then [] else [trim x])"

definition compose_learn :: "string \<Rightarrow> string \<Rightarrow> string \<Rightarrow> string" where
  "compose_learn d u x = trim (flatten_lines (join ''; '' (learn_segments d u x)))"

text \<open>The address the panel goes to, if it does.\<close>

definition submit_learn :: "string \<Rightarrow> string \<Rightarrow> string \<Rightarrow> string option" where
  "submit_learn d u x =
     (let composed = compose_learn d u x
      in if composed = [] then None else Some (''/chat?learn='' @ encodeURIComponent composed))"

definition learn_enabled :: "string \<Rightarrow> string \<Rightarrow> string \<Rightarrow> bool" where
  "learn_enabled d u x \<longleftrightarrow> \<not> (trim d = [] \<and> trim u = [] \<and> trim x = [])"

lemma flatten_no_breaks: "line_break \<notin> set (flatten_lines s)"
  by (induction s rule: flatten_lines.induct) (auto simp: Let_def line_break_def js_simps)

lemma flatten_nonblank: "list_ex (\<lambda>c. \<not> is_ws c) s \<Longrightarrow> list_ex (\<lambda>c. \<not> is_ws c) (flatten_lines s)"
proof (induction s rule: flatten_lines.induct)
  case (2 c s)
  have "list_ex (\<lambda>c. \<not> is_ws c) (dropWhile is_ws s)" if "list_ex (\<lambda>c. \<not> is_ws c) s"
    using that by (induction s) auto
  with 2 show ?case by (cases "is_ws c") (auto simp: Let_def)
qed simp

lemma trim_all_blank: "trim s = [] \<longleftrightarrow> \<not> list_ex (\<lambda>c. \<not> is_ws c) s"
  by (simp add: trim_blank list_all_iff list_ex_iff)

lemma set_trim_subset: "set (trim s) \<subseteq> set s"
proof -
  have "set (trim s) \<subseteq> set (dropWhile is_ws s)"
    using set_dropWhile_subset [of is_ws "rev (dropWhile is_ws s)"] by (simp add: trim_def trim_start_def trim_end_def)
  then show ?thesis using set_dropWhile_subset [of is_ws s] by blast
qed

lemma nonblank_pieces: "w \<in> set ws \<Longrightarrow> list_ex (\<lambda>c. \<not> is_ws c) w \<Longrightarrow> list_ex (\<lambda>c. \<not> is_ws c) (join sep ws)"
  by (induction sep ws rule: join.induct) auto

lemma segments_nonblank: "w \<in> set (learn_segments d u x) \<Longrightarrow> list_ex (\<lambda>c. \<not> is_ws c) w"
  using trim_all_blank [of "trim x"] by (auto simp: learn_segments_def is_ws_def code_def split: if_splits)

lemma segments_empty: "learn_segments d u x = [] \<longleftrightarrow> \<not> learn_enabled d u x"
  by (simp add: learn_segments_def learn_enabled_def)

lemma compose_empty: "compose_learn d u x = [] \<longleftrightarrow> \<not> learn_enabled d u x"
proof (cases "learn_segments d u x")
  case (Cons w ws)
  then have "list_ex (\<lambda>c. \<not> is_ws c) (join ''; '' (learn_segments d u x))"
    by (intro nonblank_pieces [of w] segments_nonblank [of w d u x]) simp_all
  from flatten_nonblank [OF this] show ?thesis
    using Cons by (simp add: compose_learn_def trim_all_blank flip: segments_empty)
qed (simp add: compose_learn_def flip: segments_empty)

text \<open>The panel goes to the chat exactly when its button is enabled, and the chat reads back what was composed:
  one trimmed line, so the command it types is sent by the return it appends and not before.\<close>

theorem learn_request_is_one_line:
  "case submit_learn d u x of
     None \<Rightarrow> \<not> learn_enabled d u x
   | Some target \<Rightarrow> learn_enabled d u x \<and> url_path target = ''/chat''
       \<and> query_params target = [(Some ''learn'', Some (compose_learn d u x))]
       \<and> line_break \<notin> set (compose_learn d u x) \<and> trimmed (compose_learn d u x)"
proof (cases "compose_learn d u x = []")
  case False
  let ?t = "append_param ''/chat'' ''learn'' (compose_learn d u x)"
  have q: "query_params ?t = query_params ''/chat'' @ [(Some ''learn'', Some (compose_learn d u x))]"
    by (rule query_params_append_param) (simp_all add: form_decode_no_plus decode_plain plain_ascii_def code_def)
  have p: "query_params ''/chat'' = []" by (simp add: query_params_def url_query_plain)
  have l: "line_break \<notin> set (compose_learn d u x)"
    using set_trim_subset flatten_no_breaks unfolding compose_learn_def by blast
  have t: "?t = ''/chat?learn='' @ encodeURIComponent (compose_learn d u x)" by (simp add: append_param_def)
  have "submit_learn d u x = Some ?t" using False unfolding submit_learn_def Let_def t by simp
  moreover have "url_path ?t = ''/chat''" by (simp add: url_path_append_param url_path_plain)
  moreover have "trimmed (compose_learn d u x)" by (simp add: compose_learn_def trimmed_trim)
  ultimately show ?thesis using q p l False compose_empty [of d u x] by simp
qed (use compose_empty [of d u x] in \<open>simp add: submit_learn_def\<close>)

section \<open>The page\<close>

datatype skills_view = SkillsView | ToolsetsView | HubView

text \<open>The requests of the page, each for the profile it was asked under: the load of an effect, the reload after
  the editor, a switch of a skill, and the toolsets after a change in their drawer.\<close>

datatype skills_request = SkLoad string | SkReload string | SkToggle string string bool | SkToolsets string

datatype skills_reply = SkLists "skill list" "toolset list" | SkSkills "skill list" | SkTools "toolset list" | SkDone | SkFailed

text \<open>\<open>spAsked\<close> are the requests under way. A load whose effect was cleaned up is forgotten: its answer has no
  effect.\<close>

record skills_page =
  spSkills :: "skill list"
  spToolsets :: "toolset list"
  spLoading :: bool
  spSearch :: string
  spView :: skills_view
  spCategory :: "string option"
  spToggling :: "string list"
  spProfile :: string
  spAsked :: "skills_request list"

definition skills_start :: "string \<Rightarrow> skills_page" where
  "skills_start p =
     \<lparr>spSkills = [], spToolsets = [], spLoading = True, spSearch = [], spView = SkillsView, spCategory = None,
      spToggling = [], spProfile = p, spAsked = [SkLoad p]\<rparr>"

definition skills_ask :: "skills_request \<Rightarrow> skills_page \<Rightarrow> skills_page" where
  "skills_ask r s = s\<lparr>spAsked := spAsked s @ [r]\<rparr>"

definition toggle_skill :: "skill \<Rightarrow> skills_page \<Rightarrow> skills_page" where
  "toggle_skill k s =
     skills_ask (SkToggle (spProfile s) (skName k) (\<not> skEnabled k)) (s\<lparr>spToggling := skName k # spToggling s\<rparr>)"

fun is_load :: "skills_request \<Rightarrow> bool" where
  "is_load (SkLoad p) = True"
| "is_load r = False"

definition switch_skills_profile :: "string \<Rightarrow> skills_page \<Rightarrow> skills_page" where
  "switch_skills_profile p s =
     (if p = spProfile s then s
      else skills_ask (SkLoad p) (s\<lparr>spProfile := p, spAsked := filter (\<lambda>a. \<not> is_load a) (spAsked s)\<rparr>))"

definition flip_skill :: "skill \<Rightarrow> skill" where
  "flip_skill k = k\<lparr>skEnabled := \<not> skEnabled k\<rparr>"

definition skills_answered :: "nat \<Rightarrow> skills_reply \<Rightarrow> skills_page \<Rightarrow> skills_page" where
  "skills_answered n reply s =
     (let s1 = s\<lparr>spAsked := take_out n (spAsked s)\<rparr>
      in case spAsked s ! n of
           SkLoad p \<Rightarrow>
             (case reply of SkLists ks ts \<Rightarrow> s1\<lparr>spSkills := ks, spToolsets := ts\<rparr> | _ \<Rightarrow> s1)\<lparr>spLoading := False\<rparr>
         | SkReload p \<Rightarrow> (case reply of SkSkills ks \<Rightarrow> s1\<lparr>spSkills := ks\<rparr> | _ \<Rightarrow> s1)
         | SkToolsets p \<Rightarrow> (case reply of SkTools ts \<Rightarrow> s1\<lparr>spToolsets := ts\<rparr> | _ \<Rightarrow> s1)
         | SkToggle p name b \<Rightarrow>
             (if reply = SkDone
              then s1\<lparr>spSkills := map (\<lambda>k. if skName k = name then flip_skill k else k) (spSkills s)\<rparr>
              else s1)\<lparr>spToggling := removeAll name (spToggling s)\<rparr>)"

text \<open>The editor has stored a skill, and the drawer a change: both reload.\<close>

datatype skills_event =
    SkSearch string | SkAll | SkToolsetsTab | SkHubTab | SkPick string | SkPress skill | SkSwitch string
  | SkEditorSaved | SkDrawerChanged | SkAnswered nat skills_reply

primrec skills_step :: "skills_page \<Rightarrow> skills_event \<Rightarrow> skills_page" where
  "skills_step s (SkSearch x) = s\<lparr>spSearch := x\<rparr>"
| "skills_step s SkAll = s\<lparr>spView := SkillsView, spCategory := None, spSearch := []\<rparr>"
| "skills_step s SkToolsetsTab = s\<lparr>spView := ToolsetsView, spSearch := []\<rparr>"
| "skills_step s SkHubTab = s\<lparr>spView := HubView, spSearch := []\<rparr>"
| "skills_step s (SkPick c) = s\<lparr>spCategory := (if spCategory s = Some c then None else Some c)\<rparr>"
| "skills_step s (SkPress k) = toggle_skill k s"
| "skills_step s (SkSwitch p) = switch_skills_profile p s"
| "skills_step s SkEditorSaved = skills_ask (SkReload (spProfile s)) s"
| "skills_step s SkDrawerChanged = skills_ask (SkToolsets (spProfile s)) s"
| "skills_step s (SkAnswered n reply) = skills_answered n reply s"

text \<open>A request fails, or is answered by what it asks for.\<close>

fun skills_fits :: "skills_request \<Rightarrow> skills_reply \<Rightarrow> bool" where
  "skills_fits r SkFailed = True"
| "skills_fits (SkLoad p) (SkLists ks ts) = True"
| "skills_fits (SkReload p) (SkSkills ks) = True"
| "skills_fits (SkToolsets p) (SkTools ts) = True"
| "skills_fits (SkToggle p n b) SkDone = True"
| "skills_fits r reply = False"

primrec skills_enabled :: "skills_page \<Rightarrow> skills_event \<Rightarrow> bool" where
  "skills_enabled s (SkSearch x) = (\<not> spLoading s)"
| "skills_enabled s SkAll = (\<not> spLoading s)"
| "skills_enabled s SkToolsetsTab = (\<not> spLoading s)"
| "skills_enabled s SkHubTab = (\<not> spLoading s)"
| "skills_enabled s (SkPick c) = (\<not> spLoading s \<and> spView s = SkillsView \<and> trim (spSearch s) = [])"
| "skills_enabled s (SkPress k) = (\<not> spLoading s \<and> k \<in> set (spSkills s) \<and> skName k \<notin> set (spToggling s))"
| "skills_enabled s (SkSwitch p) = True"
| "skills_enabled s SkEditorSaved = True"
| "skills_enabled s SkDrawerChanged = True"
| "skills_enabled s (SkAnswered n reply) = (n < length (spAsked s) \<and> skills_fits (spAsked s ! n) reply)"

abbreviation skills_run :: "string \<Rightarrow> skills_event list \<Rightarrow> skills_page" where
  "skills_run p es \<equiv> foldl skills_step (skills_start p) es"

section \<open>Switches are asked for, one at a time\<close>

fun toggled_name :: "skills_request \<Rightarrow> string list" where
  "toggled_name (SkToggle p name b) = [name]"
| "toggled_name r = []"

text \<open>The skills whose switches are under way.\<close>

definition switching :: "skills_page \<Rightarrow> string list" where
  "switching s = concat (map toggled_name (spAsked s))"

definition switches_inv :: "skills_page \<Rightarrow> bool" where
  "switches_inv s \<longleftrightarrow> distinct (switching s) \<and> set (switching s) = set (spToggling s)"

lemma asked_split:
  assumes "n < length (spAsked s)"
  obtains xs ys where "spAsked s = xs @ spAsked s ! n # ys" "take_out n (spAsked s) = xs @ ys"
proof
  show "spAsked s = take n (spAsked s) @ spAsked s ! n # drop (Suc n) (spAsked s)" using assms by (rule id_take_nth_drop)
qed (simp add: take_out_def)

lemma no_loads_switch: "concat (map toggled_name (filter (\<lambda>a. \<not> is_load a) xs)) = concat (map toggled_name xs)"
proof (induction xs)
  case (Cons a xs)
  then show ?case by (cases a) simp_all
qed simp

lemma answered_keeps:
  assumes inv: "switches_inv s" and n: "n < length (spAsked s)"
  shows "switches_inv (skills_answered n reply s)"
proof -
  obtain xs ys where x: "spAsked s = xs @ spAsked s ! n # ys" "take_out n (spAsked s) = xs @ ys"
    using asked_split [OF n] by metis
  have asked: "spAsked (skills_answered n reply s) = xs @ ys"
    by (cases "spAsked s ! n"; cases reply) (simp_all add: skills_answered_def Let_def x(2))
  have tog: "spToggling (skills_answered n reply s)
      = (case spAsked s ! n of SkToggle p m b \<Rightarrow> removeAll m (spToggling s) | _ \<Rightarrow> spToggling s)"
    by (cases "spAsked s ! n"; cases reply) (simp_all add: skills_answered_def Let_def)
  have "switching s = concat (map toggled_name xs) @ toggled_name (spAsked s ! n) @ concat (map toggled_name ys)"
    unfolding switching_def by (subst x(1)) simp
  moreover have "switching (skills_answered n reply s) = concat (map toggled_name xs) @ concat (map toggled_name ys)"
    by (simp add: switching_def asked)
  ultimately show ?thesis
    using inv unfolding switches_inv_def tog by (cases "spAsked s ! n") auto
qed

interpretation switches: machine "skills_start p" skills_step skills_enabled switches_inv
proof (unfold_locales, goal_cases)
  case 1
  show ?case by (simp add: switches_inv_def switching_def skills_start_def)
next
  case (2 s e)
  then show ?case
  proof (cases e)
    case (SkAnswered n reply)
    then show ?thesis using 2 by (simp add: answered_keeps)
  next
    case (SkSwitch q)
    have "switching (switch_skills_profile q s) = switching s" "spToggling (switch_skills_profile q s) = spToggling s"
      by (simp_all add: switching_def switch_skills_profile_def skills_ask_def no_loads_switch)
    then show ?thesis using 2 SkSwitch by (simp add: switches_inv_def)
  qed (auto simp: switches_inv_def switching_def toggle_skill_def skills_ask_def)
qed

lemma asked_switch:
  assumes "skills_enabled s e" "SkToggle p n b \<in> set (spAsked (skills_step s e))"
  shows "SkToggle p n b \<in> set (spAsked s) \<or> (\<exists>k. e = SkPress k \<and> skName k = n \<and> skEnabled k = (\<not> b) \<and> p = spProfile s)"
proof (cases e)
  case (SkAnswered m reply)
  then have "spAsked (skills_step s e) = take_out m (spAsked s)"
    by (cases "spAsked s ! m"; cases reply) (simp_all add: skills_answered_def Let_def)
  then show ?thesis using assms(2) by (auto dest: in_take_out)
qed (use assms(2) in \<open>auto simp: toggle_skill_def skills_ask_def switch_skills_profile_def split: if_splits\<close>)

interpretation pressing: tracing "skills_start p" skills_step skills_enabled switches_inv
    "\<lambda>s (q, n, b). SkToggle q n b \<in> set (spAsked s)"
    "\<lambda>s e (q, n, b). \<exists>k. e = SkPress k \<and> skName k = n \<and> skEnabled k = (\<not> b) \<and> q = spProfile s"
  by unfold_locales (auto simp: skills_start_def dest: asked_switch)

text \<open>Claim C31. Switches are asked for, one at a time: in every run, whatever is read, saved and answered meanwhile
  and however the profile changes, the switches under way are of different skills, the locked rows are exactly
  theirs, and each of them was pressed by the user on a skill then shown and not locked, asks for the opposite of
  what was shown for it, and goes to the profile that was selected then.\<close>

theorem switches_are_asked_for:
  assumes "legal_run skills_enabled skills_step (skills_start p) es"
  shows "distinct (concat (map toggled_name (spAsked (skills_run p es))))
    \<and> set (concat (map toggled_name (spAsked (skills_run p es)))) = set (spToggling (skills_run p es))
    \<and> (\<forall>q n b. SkToggle q n b \<in> set (spAsked (skills_run p es)) \<longrightarrow>
         (\<exists>us k vs. es = us @ SkPress k # vs \<and> k \<in> set (spSkills (skills_run p us)) \<and> skName k = n
            \<and> n \<notin> set (spToggling (skills_run p us)) \<and> b = (\<not> skEnabled k) \<and> q = spProfile (skills_run p us)))"
proof (intro conjI allI impI)
  show "distinct (concat (map toggled_name (spAsked (skills_run p es))))"
    "set (concat (map toggled_name (spAsked (skills_run p es)))) = set (spToggling (skills_run p es))"
    using switches.run_inv [OF assms] by (simp_all add: switches_inv_def switching_def)
next
  fix q n b assume "SkToggle q n b \<in> set (spAsked (skills_run p es))"
  then obtain us k vs where k: "es = us @ SkPress k # vs" "skName k = n" "skEnabled k = (\<not> b)" "q = spProfile (skills_run p us)"
    using pressing.traced [OF assms, of "(q, n, b)"] by auto
  moreover have "skills_enabled (skills_run p us) (SkPress k)" using assms k(1) by (simp add: legal_run_append)
  ultimately show "\<exists>us k vs. es = us @ SkPress k # vs \<and> k \<in> set (spSkills (skills_run p us)) \<and> skName k = n
            \<and> n \<notin> set (spToggling (skills_run p us)) \<and> b = (\<not> skEnabled k) \<and> q = spProfile (skills_run p us)"
    by (intro exI [of _ us] exI [of _ k] exI [of _ vs]) simp
qed

definition two_skills :: skills_reply where
  "two_skills = SkLists [sample_skill ''pdf'' None, sample_skill ''ocr'' None] []"

definition sample_switches :: "skills_event list" where
  "sample_switches = [SkAnswered 0 two_skills, SkPress (sample_skill ''pdf'' None), SkEditorSaved, SkPress (sample_skill ''ocr'' None)]"

theorem switches_are_asked_for_witness:
  "spAsked (skills_run ''work'' sample_switches) = [SkToggle ''work'' ''pdf'' False, SkReload ''work'', SkToggle ''work'' ''ocr'' False]
    \<and> distinct (concat (map toggled_name (spAsked (skills_run ''work'' sample_switches))))"
proof -
  have legal: "legal_run skills_enabled skills_step (skills_start ''work'') sample_switches" by code_simp
  moreover have "spAsked (skills_run ''work'' sample_switches)
      = [SkToggle ''work'' ''pdf'' False, SkReload ''work'', SkToggle ''work'' ''ocr'' False]" by code_simp
  ultimately show ?thesis using switches_are_asked_for [OF legal] by blast
qed

text \<open>What the page does not prevent. A reload after the editor that overtakes the answer of a switch: the answer
  flips the switch back.\<close>

definition pdf_off :: skill where
  "pdf_off = (sample_skill ''pdf'' None)\<lparr>skEnabled := False\<rparr>"

theorem crossed_reload_flips_back:
  "let es = [SkAnswered 0 (SkLists [sample_skill ''pdf'' None] []), SkPress (sample_skill ''pdf'' None), SkEditorSaved,
         SkAnswered 1 (SkSkills [pdf_off]), SkAnswered 0 SkDone]
   in legal_run skills_enabled skills_step (skills_start []) es \<and> length (spAsked (skills_run [] es)) = 0
      \<and> map skEnabled (spSkills (skills_run [] es)) = [True]"
  by code_simp

text \<open>A profile whose skills cannot be read shows those of the one before, and switches them under its own name.\<close>

theorem unread_profile_shows_another:
  "let es = [SkAnswered 0 two_skills, SkSwitch ''home'', SkAnswered 0 SkFailed, SkPress (sample_skill ''ocr'' None)]
   in legal_run skills_enabled skills_step (skills_start ''work'') es
     \<and> map skName (spSkills (skills_run ''work'' es)) = [''pdf'', ''ocr'']
     \<and> spAsked (skills_run ''work'' es) = [SkToggle ''home'' ''ocr'' False]"
  by code_simp

text \<open>The answer of a switch that comes after the profile has changed flips the skill of that name in the new one.\<close>

theorem late_switch_flips_another_profile:
  "let es = [SkAnswered 0 two_skills, SkPress (sample_skill ''pdf'' None), SkSwitch ''home'',
         SkAnswered 1 (SkLists [sample_skill ''pdf'' None] []), SkAnswered 0 SkDone]
   in legal_run skills_enabled skills_step (skills_start ''work'') es \<and> length (spAsked (skills_run ''work'' es)) = 0
     \<and> spProfile (skills_run ''work'' es) = ''home'' \<and> map skEnabled (spSkills (skills_run ''work'' es)) = [False]"
  by code_simp

section \<open>The editor\<close>

definition CREATE_TEMPLATE :: string where
  "CREATE_TEMPLATE =
     join [line_break] [''---'', ''name: my-skill'', ''description: One-line description of when to use this skill.'', ''---'', [],
       ''# My Skill'', [], ''Numbered steps, exact commands, and pitfalls go here.'', []]"

datatype skill_write = UpdateSkill string string | CreateSkill string string "string option"

text \<open>\<open>edOpen\<close> is what the open dialog edits, a skill or a new one. Every opening mounts a new body; the saves under
  way carry the number of theirs. The skill names reported to the page are logged.\<close>

record skill_editor =
  edOpen :: "string option option"
  edBody :: nat
  edName :: string
  edCategory :: string
  edContent :: string
  edLoading :: bool
  edSaving :: bool
  edError :: "string option"
  edSaves :: "(nat \<times> skill_write) list"
  edSent :: "skill_write list"
  edReported :: "string list"

definition editor_start :: skill_editor where
  "editor_start =
     \<lparr>edOpen = None, edBody = 0, edName = [], edCategory = [], edContent = [], edLoading = False, edSaving = False,
      edError = None, edSaves = [], edSent = [], edReported = []\<rparr>"

definition open_editor :: "string option \<Rightarrow> skill_editor \<Rightarrow> skill_editor" where
  "open_editor target s =
     s\<lparr>edOpen := Some target, edBody := edBody s + 1, edName := [], edCategory := [],
       edContent := (if target = None then CREATE_TEMPLATE else []), edLoading := target \<noteq> None, edSaving := False, edError := None\<rparr>"

definition editor_loaded :: "string + string \<Rightarrow> skill_editor \<Rightarrow> skill_editor" where
  "editor_loaded r s =
     (case r of Inl e \<Rightarrow> s\<lparr>edError := Some e\<rparr> | Inr content \<Rightarrow> s\<lparr>edContent := content\<rparr>)\<lparr>edLoading := False\<rparr>"

definition save_skill :: "skill_editor \<Rightarrow> skill_editor" where
  "save_skill s =
     (case edOpen s of
        None \<Rightarrow> s
      | Some target \<Rightarrow>
          if target = None \<and> trim (edName s) = [] then s\<lparr>edError := Some ''Skill name is required.''\<rparr>
          else if trim (edContent s) = [] then s\<lparr>edError := Some ''SKILL.md content is required.''\<rparr>
          else (let w = (case target of
                           Some n \<Rightarrow> UpdateSkill n (edContent s)
                         | None \<Rightarrow> CreateSkill (trim (edName s)) (edContent s)
                             (if trim (edCategory s) = [] then None else Some (trim (edCategory s))))
                in s\<lparr>edError := None, edSaving := True, edSaves := edSaves s @ [(edBody s, w)], edSent := edSent s @ [w]\<rparr>))"

primrec written_name :: "skill_write \<Rightarrow> string" where
  "written_name (UpdateSkill n c) = n"
| "written_name (CreateSkill n c g) = n"

text \<open>A successful save closes the dialog that is open by then; a failed one reports to its own body.\<close>

definition skill_saved :: "nat \<Rightarrow> string option \<Rightarrow> skill_editor \<Rightarrow> skill_editor" where
  "skill_saved i err s =
     (let (body, w) = edSaves s ! i; s1 = s\<lparr>edSaves := take_out i (edSaves s)\<rparr>; mine = (edOpen s \<noteq> None \<and> body = edBody s)
      in case err of
           None \<Rightarrow> s1\<lparr>edOpen := None, edReported := edReported s @ [written_name w]\<rparr>
         | Some e \<Rightarrow> if mine then s1\<lparr>edError := Some e, edSaving := False\<rparr> else s1)"

datatype editor_event =
    EdOpenEditor "string option" | EdClose | EdTypeName string | EdTypeCategory string | EdTypeContent string
  | EdLoaded "string + string" | EdSave | EdSaved nat "string option"

primrec editor_step :: "skill_editor \<Rightarrow> editor_event \<Rightarrow> skill_editor" where
  "editor_step s (EdOpenEditor target) = open_editor target s"
| "editor_step s EdClose = s\<lparr>edOpen := None\<rparr>"
| "editor_step s (EdTypeName x) = s\<lparr>edName := x\<rparr>"
| "editor_step s (EdTypeCategory x) = s\<lparr>edCategory := x\<rparr>"
| "editor_step s (EdTypeContent x) = s\<lparr>edContent := x\<rparr>"
| "editor_step s (EdLoaded r) = editor_loaded r s"
| "editor_step s EdSave = save_skill s"
| "editor_step s (EdSaved i err) = skill_saved i err s"

primrec editor_enabled :: "skill_editor \<Rightarrow> editor_event \<Rightarrow> bool" where
  "editor_enabled s (EdOpenEditor target) = (edOpen s = None)"
| "editor_enabled s EdClose = (edOpen s \<noteq> None)"
| "editor_enabled s (EdTypeName x) = (edOpen s = Some None)"
| "editor_enabled s (EdTypeCategory x) = (edOpen s = Some None)"
| "editor_enabled s (EdTypeContent x) = (edOpen s \<noteq> None \<and> \<not> edLoading s)"
| "editor_enabled s (EdLoaded r) = (edOpen s \<noteq> None \<and> edLoading s)"
| "editor_enabled s EdSave = (edOpen s \<noteq> None \<and> \<not> edSaving s \<and> \<not> edLoading s)"
| "editor_enabled s (EdSaved i err) = (i < length (edSaves s))"

primrec write_complete :: "skill_write \<Rightarrow> bool" where
  "write_complete (UpdateSkill n c) \<longleftrightarrow> trim c \<noteq> []"
| "write_complete (CreateSkill n c g) \<longleftrightarrow> n \<noteq> [] \<and> trimmed n \<and> trim c \<noteq> [] \<and> (case g of None \<Rightarrow> True | Some x \<Rightarrow> x \<noteq> [] \<and> trimmed x)"

definition editor_inv :: "skill_editor \<Rightarrow> bool" where
  "editor_inv s \<longleftrightarrow>
     list_all write_complete (edSent s) \<and> list_all (\<lambda>(b, w). b \<le> edBody s \<and> w \<in> set (edSent s)) (edSaves s)
     \<and> (edOpen s \<noteq> None \<longrightarrow> length (filter (\<lambda>(b, w). b = edBody s) (edSaves s)) = (if edSaving s then 1 else 0))"

lemma filter_taken_out:
  "k < length xs \<Longrightarrow> length (filter P xs) = length (filter P (take_out k xs)) + (if P (xs ! k) then 1 else 0)"
  by (subst (1) id_take_nth_drop, assumption) (simp add: take_out_def)

lemma editor_calm:
  "editor_inv s \<Longrightarrow> edSent t = edSent s \<Longrightarrow> edSaves t = edSaves s \<Longrightarrow> edBody t = edBody s \<Longrightarrow>
   (edOpen t \<noteq> None \<Longrightarrow> edOpen s \<noteq> None \<and> edSaving t = edSaving s) \<Longrightarrow> editor_inv t"
  unfolding editor_inv_def by simp

lemma editor_writes:
  assumes "editor_inv s" "edOpen s \<noteq> None" "\<not> edSaving s" "write_complete w"
    and "edSent t = edSent s @ [w]" "edSaves t = edSaves s @ [(edBody s, w)]" "edBody t = edBody s" "edSaving t"
  shows "editor_inv t"
  using assms by (auto simp: editor_inv_def list_all_iff)

lemma save_skill_inv:
  assumes inv: "editor_inv s" and "edOpen s \<noteq> None" "\<not> edSaving s"
  shows "editor_inv (save_skill s)"
proof -
  obtain target where o: "edOpen s = Some target" using assms(2) by blast
  consider "target = None \<and> trim (edName s) = []" | "\<not> (target = None \<and> trim (edName s) = [])" "trim (edContent s) = []"
    | "\<not> (target = None \<and> trim (edName s) = [])" "trim (edContent s) \<noteq> []" by blast
  then show ?thesis
  proof cases
    case 3
    show ?thesis
    proof (cases target)
      case None
      show ?thesis
        by (rule editor_writes [OF assms, of "CreateSkill (trim (edName s)) (edContent s)
            (if trim (edCategory s) = [] then None else Some (trim (edCategory s)))"])
          (use 3 None o in \<open>simp_all add: save_skill_def Let_def trimmed_trim\<close>)
    next
      case (Some n)
      show ?thesis
        by (rule editor_writes [OF assms, of "UpdateSkill n (edContent s)"])
          (use 3 Some o in \<open>simp_all add: save_skill_def Let_def\<close>)
    qed
  qed (rule editor_calm [OF inv]; simp add: save_skill_def o)+
qed

lemma skill_saved_inv:
  assumes inv: "editor_inv s" and i: "i < length (edSaves s)"
  shows "editor_inv (skill_saved i err s)"
proof -
  obtain b w where e: "edSaves s ! i = (b, w)" by (cases "edSaves s ! i")
  have left: "list_all (\<lambda>(b, w). b \<le> edBody s \<and> w \<in> set (edSent s)) (take_out i (edSaves s))"
    using inv in_take_out by (fastforce simp: editor_inv_def list_all_iff)
  have count: "edOpen s \<noteq> None \<Longrightarrow> length (filter (\<lambda>(b, w). b = edBody s) (take_out i (edSaves s)))
      + (if b = edBody s then 1 else 0) = (if edSaving s then 1 else 0)"
    using inv filter_taken_out [OF i, of "\<lambda>(b, w). b = edBody s"] by (simp add: editor_inv_def e)
  show ?thesis
  proof (cases err)
    case None
    then show ?thesis using inv left by (simp add: skill_saved_def Let_def e editor_inv_def)
  next
    case (Some x)
    show ?thesis
    proof (cases "edOpen s \<noteq> None \<and> b = edBody s")
      case True
      then show ?thesis using inv left count by (simp add: Some skill_saved_def Let_def e editor_inv_def split: if_splits)
    next
      case False
      then have "skill_saved i err s = s\<lparr>edSaves := take_out i (edSaves s)\<rparr>" by (auto simp: Some skill_saved_def Let_def e)
      then show ?thesis using inv left count False by (cases "edOpen s"; cases "edSaving s") (simp_all add: editor_inv_def)
    qed
  qed
qed

lemma editor_step_inv: "editor_inv s \<Longrightarrow> editor_enabled s e \<Longrightarrow> editor_inv (editor_step s e)"
proof (cases e)
  case (EdOpenEditor target)
  assume "editor_inv s"
  moreover from this have "filter (\<lambda>(b, w). b = Suc (edBody s)) (edSaves s) = []"
    by (auto simp: editor_inv_def list_all_iff filter_empty_conv)
  ultimately show ?thesis by (auto simp: EdOpenEditor open_editor_def editor_inv_def list_all_iff)
next
  case (EdLoaded r)
  assume "editor_inv s" "editor_enabled s e"
  then show ?thesis unfolding EdLoaded editor_step.simps
    by (elim editor_calm) (auto simp: editor_loaded_def split: sum.splits)
qed (auto intro: editor_calm save_skill_inv skill_saved_inv)

interpretation editor: machine editor_start editor_step editor_enabled editor_inv
  by unfold_locales (simp add: editor_inv_def editor_start_def, rule editor_step_inv)

text \<open>Every write of the editor has content and, for a new skill, a trimmed name; and a body has at most one under way.\<close>

theorem editor_writes_are_complete:
  "legal_run editor_enabled editor_step editor_start es \<Longrightarrow>
     list_all write_complete (edSent (foldl editor_step editor_start es))"
  using editor.run_inv by (simp add: editor_inv_def)

text \<open>A save answered after its dialog was closed closes the dialog opened since, with what was typed there.\<close>

theorem late_save_closes_another_editor:
  "let es = [EdOpenEditor (Some ''a''), EdLoaded (Inr ''x''), EdSave, EdClose, EdOpenEditor (Some ''b''), EdLoaded (Inr ''y''),
             EdTypeContent ''typed'', EdSaved 0 None]
   in legal_run editor_enabled editor_step editor_start es \<and> edOpen (foldl editor_step editor_start es) = None"
  by code_simp

end
