(* ===== verification/SkillsHub.thy ===== *)
theory SkillsHub
  imports JsValue
begin

text \<open>
  The browser of the skill hub, \<open>HubBrowser\<close> of \<open>web/src/pages/SkillsPage.tsx\<close>: searches, the installs and
  updates it starts, the poll of the log of the last one, the badges of installed skills, and the dialog of
  a skill with its preview and its security scan.
\<close>

section \<open>What is shown of a skill and of a scan\<close>

definition trust_visual :: "string \<Rightarrow> string \<times> string" where
  "trust_visual level =
     (if level = ''trusted'' then (''success'', ''trusted'')
      else if level = ''builtin'' then (''secondary'', ''builtin'')
      else if level = ''community'' then (''warning'', ''community'')
      else (''outline'', if level = [] then ''unknown'' else level))"

definition verdict_visual :: "string \<Rightarrow> string \<times> string \<times> string" where
  "verdict_visual verdict =
     (if verdict = ''safe'' then (''success'', ''ShieldCheck'', ''Safe'')
      else if verdict = ''caution'' then (''warning'', ''ShieldAlert'', ''Caution'')
      else if verdict = ''dangerous'' then (''destructive'', ''ShieldAlert'', ''Dangerous'')
      else (''warning'', ''ShieldQuestion'', verdict))"

definition SEVERITY_TONE :: "(string \<times> string) list" where
  "SEVERITY_TONE =
     [(''critical'', ''destructive''), (''high'', ''destructive''), (''medium'', ''warning''), (''low'', ''secondary'')]"

definition policy_visual :: "string \<Rightarrow> string \<times> string" where
  "policy_visual policy =
     (if policy = ''allow'' then (''success'', ''Install allowed'')
      else if policy = ''ask'' then (''warning'', ''Needs confirmation'')
      else (''destructive'', ''Install blocked''))"

definition severity_tally :: "(string \<times> nat) list \<Rightarrow> (string \<times> nat \<times> string) list" where
  "severity_tally counts =
     concat (map (\<lambda>sev. case map_of counts sev of
                          None \<Rightarrow> []
                        | Some n \<Rightarrow> if n = 0 then [] else [(sev, n, the (map_of SEVERITY_TONE sev))])
       [''critical'', ''high'', ''medium'', ''low''])"

record hub_source =
  hsId :: string
  hsLabel :: string
  hsLimited :: "bool option"
  hsAvailable :: "bool option"

definition source_down :: "hub_source \<Rightarrow> bool" where
  "source_down s \<longleftrightarrow>
     (hsId s = ''hermes-index'' \<and> hsAvailable s = Some False) \<or> (hsId s = ''github'' \<and> hsLimited s = Some True)"

definition source_text :: "hub_source \<Rightarrow> string" where
  "source_text s = hsLabel s @ (if hsId s = ''github'' \<and> hsLimited s = Some True then '' (rate-limited)'' else [])"

definition search_sources :: "(string \<times> nat) list \<Rightarrow> (string \<times> nat) list" where
  "search_sources counts = filter (\<lambda>(k, n). n > 0) counts"

record hub_result =
  hrName :: string
  hrDescription :: string
  hrSource :: string
  hrIdentifier :: string
  hrTrust :: string
  hrRepo :: "string option"
  hrTags :: "string list"

record hub_scan =
  hcVerdict :: string
  hcTrust :: string
  hcPolicy :: string
  hcReason :: string
  hcCounts :: "(string \<times> nat) list"

section \<open>The dialog of a skill\<close>

datatype detail_tab = ReadmeTab | ScanTab

record hub_detail =
  hdResult :: hub_result
  hdTab :: detail_tab
  hdPreview :: "string option"
  hdLoading :: bool
  hdScan :: "hub_scan option"
  hdScanning :: bool

definition open_detail :: "hub_result \<Rightarrow> hub_detail" where
  "open_detail r =
     \<lparr>hdResult = r, hdTab = ReadmeTab, hdPreview = None, hdLoading = True, hdScan = None, hdScanning = False\<rparr>"

definition preview_answered :: "string option \<Rightarrow> hub_detail \<Rightarrow> hub_detail" where
  "preview_answered p d = (case p of None \<Rightarrow> d | Some x \<Rightarrow> d\<lparr>hdPreview := Some x\<rparr>)\<lparr>hdLoading := False\<rparr>"

definition run_scan :: "hub_detail \<Rightarrow> hub_detail" where
  "run_scan d = d\<lparr>hdScanning := True, hdTab := ScanTab\<rparr>"

definition scan_answered :: "hub_scan option \<Rightarrow> hub_detail \<Rightarrow> hub_detail" where
  "scan_answered c d = (case c of None \<Rightarrow> d | Some x \<Rightarrow> d\<lparr>hdScan := Some x\<rparr>)\<lparr>hdScanning := False\<rparr>"

section \<open>The browser\<close>

type_synonym installed_skills = "(string \<times> string option) list"

record hub_search =
  hfResults :: "hub_result list"
  hfCounts :: "(string \<times> nat) list"
  hfTimedOut :: "string list"
  hfInstalled :: installed_skills

record hub_landing =
  hlSources :: "hub_source list"
  hlFeatured :: "hub_result list"
  hlInstalled :: installed_skills

datatype hub_action = InstallSkill string | UpdateSkills

datatype hub_poll = PollIdle | PollAsked | PollTimer | PollRefresh

text \<open>\<open>huPoll\<close> is what the effect of the current action has under way: a status asked for, its timer, or the read of
  the installed skills after the end. \<open>huSearches\<close> and \<open>huStarts\<close> are the searches and starts under way, and
  \<open>huLanding\<close> tells whether the read of the connected hubs for the current profile is.\<close>

record skill_hub =
  huQuery :: string
  huResults :: "hub_result list"
  huSearching :: bool
  huSearched :: bool
  huCounts :: "(string \<times> nat) list"
  huTimedOut :: "string list"
  huSources :: "hub_source list"
  huFeatured :: "hub_result list"
  huSourcesLoading :: bool
  huInstalled :: installed_skills
  huAction :: "string option"
  huLog :: "string list"
  huRunning :: bool
  huPoll :: hub_poll
  huDetail :: "hub_detail option"
  huSearches :: "string list"
  huStarts :: "hub_action list"
  huLanding :: bool

definition hub_open :: skill_hub where
  "hub_open =
     \<lparr>huQuery = [], huResults = [], huSearching = False, huSearched = False, huCounts = [], huTimedOut = [],
      huSources = [], huFeatured = [], huSourcesLoading = True, huInstalled = [], huAction = None, huLog = [],
      huRunning = False, huPoll = PollIdle, huDetail = None, huSearches = [], huStarts = [], huLanding = True\<rparr>"

definition hub_landed :: "hub_landing option \<Rightarrow> skill_hub \<Rightarrow> skill_hub" where
  "hub_landed r s =
     (case r of
        None \<Rightarrow> s
      | Some l \<Rightarrow> s\<lparr>huSources := hlSources l, huFeatured := hlFeatured l, huInstalled := hlInstalled l\<rparr>)
       \<lparr>huSourcesLoading := False, huLanding := False\<rparr>"

definition run_search :: "skill_hub \<Rightarrow> skill_hub" where
  "run_search s =
     (let q = trim (huQuery s)
      in if q = [] then s else s\<lparr>huSearching := True, huSearched := True, huSearches := huSearches s @ [q]\<rparr>)"

definition search_answered :: "nat \<Rightarrow> hub_search option \<Rightarrow> skill_hub \<Rightarrow> skill_hub" where
  "search_answered i r s =
     (case r of
        Some f \<Rightarrow> s\<lparr>huResults := hfResults f, huCounts := hfCounts f, huTimedOut := hfTimedOut f,
                    huInstalled := obj_spread (huInstalled s) (hfInstalled f)\<rparr>
      | None \<Rightarrow> s\<lparr>huResults := [], huCounts := [], huTimedOut := []\<rparr>)
       \<lparr>huSearching := False, huSearches := take_out i (huSearches s)\<rparr>"

text \<open>The effect of the poll runs when the action or the profile changes.\<close>

definition poll_effect :: "string option \<Rightarrow> skill_hub \<Rightarrow> skill_hub" where
  "poll_effect action s = s\<lparr>huPoll := (if truthy_str action then PollAsked else PollIdle)\<rparr>"

definition set_action :: "string option \<Rightarrow> skill_hub \<Rightarrow> skill_hub" where
  "set_action action s = (if huAction s = action then s else poll_effect action (s\<lparr>huAction := action\<rparr>))"

definition start_action :: "hub_action \<Rightarrow> skill_hub \<Rightarrow> skill_hub" where
  "start_action a s = s\<lparr>huStarts := huStarts s @ [a]\<rparr>"

definition action_started :: "nat \<Rightarrow> string option \<Rightarrow> skill_hub \<Rightarrow> skill_hub" where
  "action_started i r s =
     (let s1 = s\<lparr>huStarts := take_out i (huStarts s)\<rparr>
      in case r of
           None \<Rightarrow> s1
         | Some name \<Rightarrow>
             (let s2 = set_action (Some name) (s1\<lparr>huLog := [], huRunning := True\<rparr>)
              in if huStarts s ! i = UpdateSkills then s2 else s2\<lparr>huDetail := None\<rparr>))"

definition hub_polled :: "(string list \<times> bool) option \<Rightarrow> skill_hub \<Rightarrow> skill_hub" where
  "hub_polled r s =
     (case r of
        Some (lines, running) \<Rightarrow>
          s\<lparr>huLog := lines, huRunning := running, huPoll := (if running then PollTimer else PollRefresh)\<rparr>
      | None \<Rightarrow> s\<lparr>huRunning := False, huPoll := PollIdle\<rparr>)"

definition hub_refreshed :: "installed_skills option \<Rightarrow> skill_hub \<Rightarrow> skill_hub" where
  "hub_refreshed r s = (case r of None \<Rightarrow> s | Some m \<Rightarrow> s\<lparr>huInstalled := m\<rparr>)\<lparr>huPoll := PollIdle\<rparr>"

definition is_installed :: "skill_hub \<Rightarrow> string \<Rightarrow> bool" where
  "is_installed s k \<longleftrightarrow> k \<in> fst ` set (huInstalled s)"

definition show_landing :: "skill_hub \<Rightarrow> bool" where
  "show_landing s \<longleftrightarrow> \<not> huSearched s \<and> \<not> huSearching s"

definition shown_results :: "skill_hub \<Rightarrow> hub_result list" where
  "shown_results s =
     (if show_landing s then (if huSourcesLoading s then [] else huFeatured s)
      else if huSearching s then [] else huResults s)"

datatype browser_event =
    HuType string | HuSearch | HuSearched nat "hub_search option" | HuLanded "hub_landing option"
  | HuInstall string | HuUpdateAll | HuStarted nat "string option"
  | HuPolled "(string list \<times> bool) option" | HuTimer | HuRefreshed "installed_skills option" | HuDismiss
  | HuProfile | HuOpen hub_result | HuClose | HuReadme | HuPreview "string option" | HuScan | HuScanned "hub_scan option"

primrec browser_step :: "skill_hub \<Rightarrow> browser_event \<Rightarrow> skill_hub" where
  "browser_step s (HuType q) = s\<lparr>huQuery := q\<rparr>"
| "browser_step s HuSearch = run_search s"
| "browser_step s (HuSearched i r) = search_answered i r s"
| "browser_step s (HuLanded r) = hub_landed r s"
| "browser_step s (HuInstall k) = start_action (InstallSkill k) s"
| "browser_step s HuUpdateAll = start_action UpdateSkills s"
| "browser_step s (HuStarted i r) = action_started i r s"
| "browser_step s (HuPolled r) = hub_polled r s"
| "browser_step s HuTimer = s\<lparr>huPoll := PollAsked\<rparr>"
| "browser_step s (HuRefreshed r) = hub_refreshed r s"
| "browser_step s HuDismiss = set_action None s"
| "browser_step s HuProfile = poll_effect (huAction s) (s\<lparr>huLanding := True\<rparr>)"
| "browser_step s (HuOpen r) = s\<lparr>huDetail := Some (open_detail r)\<rparr>"
| "browser_step s HuClose = s\<lparr>huDetail := None\<rparr>"
| "browser_step s HuReadme = s\<lparr>huDetail := map_option (\<lambda>d. d\<lparr>hdTab := ReadmeTab\<rparr>) (huDetail s)\<rparr>"
| "browser_step s (HuPreview p) = s\<lparr>huDetail := map_option (preview_answered p) (huDetail s)\<rparr>"
| "browser_step s HuScan = s\<lparr>huDetail := map_option run_scan (huDetail s)\<rparr>"
| "browser_step s (HuScanned c) = s\<lparr>huDetail := map_option (scan_answered c) (huDetail s)\<rparr>"

primrec browser_enabled :: "skill_hub \<Rightarrow> browser_event \<Rightarrow> bool" where
  "browser_enabled s (HuType q) = True"
| "browser_enabled s HuSearch = True"
| "browser_enabled s (HuSearched i r) = (i < length (huSearches s))"
| "browser_enabled s (HuLanded r) = huLanding s"
| "browser_enabled s (HuInstall k) =
     (\<not> is_installed s k
      \<and> (k \<in> set (map hrIdentifier (shown_results s)) \<or> map_option (hrIdentifier \<circ> hdResult) (huDetail s) = Some k))"
| "browser_enabled s HuUpdateAll = True"
| "browser_enabled s (HuStarted i r) = (i < length (huStarts s))"
| "browser_enabled s (HuPolled r) = (huPoll s = PollAsked)"
| "browser_enabled s HuTimer = (huPoll s = PollTimer)"
| "browser_enabled s (HuRefreshed r) = (huPoll s = PollRefresh)"
| "browser_enabled s HuDismiss = (huAction s \<noteq> None \<and> \<not> huRunning s)"
| "browser_enabled s HuProfile = True"
| "browser_enabled s (HuOpen r) = (huDetail s = None \<and> r \<in> set (shown_results s))"
| "browser_enabled s HuClose = (huDetail s \<noteq> None)"
| "browser_enabled s HuReadme = (huDetail s \<noteq> None)"
| "browser_enabled s (HuPreview p) = (case huDetail s of None \<Rightarrow> False | Some d \<Rightarrow> hdLoading d)"
| "browser_enabled s HuScan = (case huDetail s of None \<Rightarrow> False | Some d \<Rightarrow> \<not> hdScanning d)"
| "browser_enabled s (HuScanned c) = (case huDetail s of None \<Rightarrow> False | Some d \<Rightarrow> hdScanning d)"

abbreviation hub_run :: "browser_event list \<Rightarrow> skill_hub" where
  "hub_run es \<equiv> foldl browser_step hub_open es"

section \<open>Running actions are followed\<close>

text \<open>What is polled has a name.\<close>

definition polled_named :: "skill_hub \<Rightarrow> bool" where
  "polled_named s \<longleftrightarrow> (huPoll s \<noteq> PollIdle \<longrightarrow> truthy_str (huAction s))"

definition hub_polls :: "skill_hub \<Rightarrow> bool" where
  "hub_polls s \<longleftrightarrow> huPoll s \<in> {PollAsked, PollTimer}"

text \<open>An action is started that the effect does not take up: under an empty name, or under the name of the action
  shown, which is polled no more.\<close>

definition not_taken_up :: "skill_hub \<Rightarrow> browser_event \<Rightarrow> bool" where
  "not_taken_up s e \<longleftrightarrow> (\<exists>i n. e = HuStarted i (Some n) \<and> (n = [] \<or> huAction s = Some n \<and> \<not> hub_polls s))"

lemmas browser_defs = hub_polled_def hub_refreshed_def set_action_def poll_effect_def run_search_def start_action_def
  search_answered_def hub_landed_def action_started_def Let_def

lemma polled_named_step: "polled_named s \<Longrightarrow> browser_enabled s e \<Longrightarrow> polled_named (browser_step s e)"
  by (cases e) (auto simp: polled_named_def browser_defs truthy_str_def split: option.splits)

lemma unpolled_step:
  assumes "polled_named s" "browser_enabled s e"
    and "huRunning (browser_step s e)" "\<not> hub_polls (browser_step s e)"
  shows "huRunning s \<and> \<not> hub_polls s \<or> not_taken_up s e"
proof (cases e)
  case (HuStarted i r)
  then show ?thesis using assms
    by (cases r) (auto simp: not_taken_up_def hub_polls_def action_started_def set_action_def poll_effect_def Let_def
        truthy_str_def split: if_splits)
qed (use assms in \<open>auto simp: hub_polls_def polled_named_def browser_defs split: option.splits if_splits\<close>)

interpretation unpolled: tracing hub_open browser_step browser_enabled polled_named
    "\<lambda>s (u :: unit). huRunning s \<and> \<not> hub_polls s" "\<lambda>s e u. not_taken_up s e"
proof (unfold_locales, goal_cases)
  case 1
  show ?case by (simp add: polled_named_def hub_open_def)
next
  case (2 s e)
  then show ?case by (rule polled_named_step)
next
  case 3
  show ?case by (simp add: hub_open_def)
next
  case 4
  then show ?case using unpolled_step by blast
qed

text \<open>Claim C32. A running action is followed, but for one way out: whatever sequence of searches, installs,
  updates, polls and profile changes the browser goes through, an action shown as running has its status asked
  for, or a timer set that will ask for it, unless it was started under an empty name, or under the name of the
  action shown before, when that was polled no more; and then nothing since has polled it or ended it. The
  gateway does repeat names: \<open>second_install_is_never_followed\<close>.\<close>

theorem running_actions_are_followed:
  assumes "legal_run browser_enabled browser_step hub_open es" "huRunning (hub_run es)"
  shows "browser_enabled (hub_run es) HuTimer \<or> browser_enabled (hub_run es) (HuPolled r)
    \<or> (\<exists>us i n vs. es = us @ HuStarted i (Some n) # vs
         \<and> (n = [] \<or> huAction (hub_run us) = Some n \<and> huPoll (hub_run us) \<notin> {PollAsked, PollTimer})
         \<and> (\<forall>ys zs. vs = ys @ zs \<longrightarrow> huRunning (hub_run (us @ HuStarted i (Some n) # ys))
              \<and> huPoll (hub_run (us @ HuStarted i (Some n) # ys)) \<notin> {PollAsked, PollTimer}))"
proof (cases "hub_polls (hub_run es)")
  case True
  then show ?thesis by (auto simp: hub_polls_def)
next
  case False
  with unpolled.traced [OF assms(1)] assms(2) obtain us e vs where
    us: "es = us @ e # vs" "not_taken_up (hub_run us) e"
    "\<forall>ys zs. vs = ys @ zs \<longrightarrow> huRunning (hub_run (us @ e # ys)) \<and> \<not> hub_polls (hub_run (us @ e # ys))"
    by auto
  from us(2) obtain i n where "e = HuStarted i (Some n)" "n = [] \<or> huAction (hub_run us) = Some n \<and> \<not> hub_polls (hub_run us)"
    unfolding not_taken_up_def by blast
  with us(1,3) show ?thesis unfolding hub_polls_def by blast
qed

definition sample_result :: hub_result where
  "sample_result =
     \<lparr>hrName = ''pdf'', hrDescription = [], hrSource = ''github'', hrIdentifier = ''gh/pdf'', hrTrust = ''community'',
      hrRepo = None, hrTags = []\<rparr>"

definition first_install :: "browser_event list" where
  "first_install = [HuLanded (Some \<lparr>hlSources = [], hlFeatured = [sample_result], hlInstalled = []\<rparr>), HuInstall ''gh/pdf'',
     HuStarted 0 (Some ''skills-install'')]"

definition second_install :: "browser_event list" where
  "second_install =
     first_install @ [HuPolled (Some ([''ok''], False)), HuRefreshed None, HuInstall ''gh/pdf'', HuStarted 0 (Some ''skills-install'')]"

theorem running_actions_are_followed_witness:
  "browser_enabled (hub_run first_install) (HuPolled None)
   \<and> (\<exists>us i n vs. second_install = us @ HuStarted i (Some n) # vs \<and> (n = [] \<or> huAction (hub_run us) = Some n))"
proof -
  have one: "browser_enabled (hub_run first_install) (HuPolled None)" by code_simp
  have legal: "legal_run browser_enabled browser_step hub_open second_install"
    and runs: "huRunning (hub_run second_install)"
    and idle: "\<not> browser_enabled (hub_run second_install) HuTimer" "\<not> browser_enabled (hub_run second_install) (HuPolled None)"
    by code_simp+
  from running_actions_are_followed [OF legal runs, of None] idle one show ?thesis by blast
qed

text \<open>A gateway that names all installs alike: the second one is shown as running and never polled, and its log
  cannot be dismissed, until an action of another name starts or the profile changes.\<close>

definition unfollowed :: "skill_hub \<Rightarrow> bool" where
  "unfollowed s \<longleftrightarrow> huRunning s \<and> huPoll s = PollIdle"

lemma unfollowed_for_ever:
  assumes "unfollowed s" "browser_enabled s e" "e \<noteq> HuProfile" "case e of HuStarted i (Some n) \<Rightarrow> huAction s = Some n | _ \<Rightarrow> True"
  shows "unfollowed (browser_step s e) \<and> huAction (browser_step s e) = huAction s"
  using assms by (cases e)
    (auto simp: unfollowed_def run_search_def search_answered_def hub_landed_def start_action_def action_started_def
      set_action_def Let_def split: option.splits)

theorem second_install_is_never_followed:
  "legal_run browser_enabled browser_step hub_open second_install \<and> unfollowed (hub_run second_install)"
  by code_simp

text \<open>The answer of an earlier search replaces that of the later one; return searches although the button is
  locked.\<close>

theorem earlier_search_wins:
  "let f = \<lambda>rs. \<lparr>hfResults = rs, hfCounts = [], hfTimedOut = [], hfInstalled = []\<rparr>;
       es = [HuType ''pdf'', HuSearch, HuType ''ocr'', HuSearch, HuSearched 1 (Some (f [])), HuSearched 0 (Some (f [sample_result]))]
   in legal_run browser_enabled browser_step hub_open es \<and> huQuery (foldl browser_step hub_open es) = ''ocr''
     \<and> huSearching (foldl browser_step hub_open es) = False \<and> map hrName (huResults (foldl browser_step hub_open es)) = [''pdf'']"
  by code_simp

text \<open>An action whose status cannot be read is shown as done.\<close>

lemma lost_action_is_done: "huRunning (hub_polled None s) = False \<and> huAction (hub_polled None s) = huAction s"
  by (simp add: hub_polled_def)

end
