(* ===== verification/ToolsetDrawer.thy ===== *)
theory ToolsetDrawer
  imports JsValue
begin

text \<open>
  The drawer of a toolset, \<open>web/src/components/ToolsetConfigDrawer.tsx\<close>: its switch, the choice of a provider, the
  keys of a provider, and the set-up of a provider with the poll of its log. The poll is an effect that
  also depends on the callback of the page that opened the drawer, which is a new one whenever that page
  renders; the page renders when the toolsets it refreshes for the drawer arrive. The profile and the
  toolset of an open drawer do not change.
\<close>

section \<open>State\<close>

record env_var =
  evKey :: string
  evPrompt :: string
  evHeld :: bool

record toolset_provider =
  tpName :: string
  tpEnv :: "env_var list"
  tpSetup :: "string option"

record toolset_config =
  tcHasCategory :: bool
  tcProviders :: "toolset_provider list"
  tcActive :: "string option"

datatype setup_poll = SetupIdle | SetupTimer | SetupAsked

text \<open>\<open>tdPoll\<close> is the poll of the current effect. Below it are the requests under way: loads of the configuration,
  switches, choices, saves, set-ups, and refreshes of the page; then the keys sent so far and the number of
  times a set-up was reported complete.\<close>

record drawer =
  tdConfig :: "toolset_config option"
  tdLoading :: bool
  tdEnabled :: bool
  tdToggling :: bool
  tdSelecting :: "string option"
  tdActive :: "string option"
  tdDrafts :: "(string \<times> string) list"
  tdSavingProvider :: "string option"
  tdIsSet :: "(string \<times> bool) list"
  tdRunning :: bool
  tdLog :: "string list"
  tdKey :: "string option"
  tdTrigger :: nat
  tdPoll :: setup_poll
  tdLoads :: nat
  tdToggles :: "bool list"
  tdSelects :: "string list"
  tdSaves :: "(string \<times> string) list list"
  tdPosts :: "string list"
  tdRefreshes :: nat
  tdSent :: "(string \<times> (string \<times> string) list) list"
  tdCompletions :: nat

definition drawer_open :: "bool \<Rightarrow> drawer" where
  "drawer_open on =
     \<lparr>tdConfig = None, tdLoading = True, tdEnabled = on, tdToggling = False, tdSelecting = None, tdActive = None,
      tdDrafts = [], tdSavingProvider = None, tdIsSet = [], tdRunning = False, tdLog = [], tdKey = None, tdTrigger = 0,
      tdPoll = SetupIdle, tdLoads = 1, tdToggles = [], tdSelects = [], tdSaves = [], tdPosts = [], tdRefreshes = 0,
      tdSent = [], tdCompletions = 0\<rparr>"

section \<open>Operations\<close>

definition seed_is_set :: "toolset_config \<Rightarrow> (string \<times> bool) list" where
  "seed_is_set c = fold (\<lambda>e. obj_set (evKey e) (evHeld e)) (concat (map tpEnv (tcProviders c))) []"

definition config_loaded :: "toolset_config option \<Rightarrow> drawer \<Rightarrow> drawer" where
  "config_loaded r s =
     (case r of None \<Rightarrow> s | Some c \<Rightarrow> s\<lparr>tdConfig := Some c, tdActive := tcActive c, tdIsSet := seed_is_set c\<rparr>)
       \<lparr>tdLoading := False, tdLoads := tdLoads s - 1\<rparr>"

definition toggle_toolset :: "bool \<Rightarrow> drawer \<Rightarrow> drawer" where
  "toggle_toolset b s = s\<lparr>tdToggling := True, tdToggles := tdToggles s @ [b]\<rparr>"

definition on_changed :: "drawer \<Rightarrow> drawer" where
  "on_changed s = s\<lparr>tdRefreshes := tdRefreshes s + 1\<rparr>"

definition toolset_toggled :: "nat \<Rightarrow> bool \<Rightarrow> drawer \<Rightarrow> drawer" where
  "toolset_toggled i ok s =
     (let s1 = s\<lparr>tdToggling := False, tdToggles := take_out i (tdToggles s)\<rparr>
      in if ok then on_changed (s1\<lparr>tdEnabled := tdToggles s ! i\<rparr>) else s1)"

definition select_provider :: "string \<Rightarrow> drawer \<Rightarrow> drawer" where
  "select_provider p s = s\<lparr>tdSelecting := Some p, tdSelects := tdSelects s @ [p]\<rparr>"

definition provider_selected :: "nat \<Rightarrow> bool \<Rightarrow> drawer \<Rightarrow> drawer" where
  "provider_selected i ok s =
     (let s1 = s\<lparr>tdSelecting := None, tdSelects := take_out i (tdSelects s)\<rparr>
      in if ok then on_changed (s1\<lparr>tdActive := Some (tdSelects s ! i)\<rparr>) else s1)"

definition draft_keys :: "toolset_provider \<Rightarrow> (string \<times> string) list \<Rightarrow> (string \<times> string) list" where
  "draft_keys p drafts =
     fold (\<lambda>e env. case map_of drafts (evKey e) of
                     None \<Rightarrow> env
                   | Some v \<Rightarrow> if trim v = [] then env else obj_set (evKey e) (trim v) env)
       (tpEnv p) []"

definition save_keys :: "toolset_provider \<Rightarrow> drawer \<Rightarrow> drawer" where
  "save_keys p s =
     (let env = draft_keys p (tdDrafts s)
      in if env = [] then s
         else s\<lparr>tdSavingProvider := Some (tpName p), tdSaves := tdSaves s @ [env], tdSent := tdSent s @ [(tpName p, env)]\<rparr>)"

definition keys_saved :: "nat \<Rightarrow> ((string \<times> bool) list \<times> string list) option \<Rightarrow> drawer \<Rightarrow> drawer" where
  "keys_saved i r s =
     (let s1 = s\<lparr>tdSavingProvider := None, tdSaves := take_out i (tdSaves s)\<rparr>
      in case r of
           None \<Rightarrow> s1
         | Some (held, saved) \<Rightarrow>
             on_changed (s1\<lparr>tdIsSet := obj_spread (tdIsSet s) held, tdDrafts := fold obj_del saved (tdDrafts s)\<rparr>))"

text \<open>The effect of the poll: a short delay, then the status.\<close>

definition setup_effect :: "drawer \<Rightarrow> drawer" where
  "setup_effect s = s\<lparr>tdPoll := (if tdTrigger s = 0 then SetupIdle else SetupTimer)\<rparr>"

definition run_setup :: "toolset_provider \<Rightarrow> drawer \<Rightarrow> drawer" where
  "run_setup p s =
     (if truthy_str (tpSetup p)
      then s\<lparr>tdRunning := True, tdLog := [], tdKey := tpSetup p, tdPosts := tdPosts s @ [the (tpSetup p)]\<rparr>
      else s)"

definition setup_posted :: "nat \<Rightarrow> bool \<Rightarrow> drawer \<Rightarrow> drawer" where
  "setup_posted i ok s =
     (let s1 = s\<lparr>tdPosts := take_out i (tdPosts s)\<rparr>
      in if ok then setup_effect (s1\<lparr>tdTrigger := tdTrigger s + 1\<rparr>) else s1\<lparr>tdRunning := False\<rparr>)"

definition setup_polled :: "(string list \<times> bool) option \<Rightarrow> drawer \<Rightarrow> drawer" where
  "setup_polled r s =
     (case r of
        None \<Rightarrow> s\<lparr>tdRunning := False, tdPoll := SetupIdle\<rparr>
      | Some (lines, running) \<Rightarrow>
          if running then s\<lparr>tdLog := lines, tdPoll := SetupTimer\<rparr>
          else on_changed (s\<lparr>tdLog := lines, tdRunning := False, tdPoll := SetupIdle, tdCompletions := tdCompletions s + 1,
                             tdLoads := tdLoads s + 1\<rparr>))"

text \<open>The page has refreshed its toolsets: it renders, and the effect runs again with the new callback.\<close>

definition page_refreshed :: "bool \<Rightarrow> drawer \<Rightarrow> drawer" where
  "page_refreshed ok s = (let s1 = s\<lparr>tdRefreshes := tdRefreshes s - 1\<rparr> in if ok then setup_effect s1 else s1)"

datatype drawer_event =
    TdLoaded "toolset_config option" | TdToggle bool | TdToggled nat bool | TdSelect string | TdSelected nat bool
  | TdType string string | TdSave toolset_provider | TdSaved nat "((string \<times> bool) list \<times> string list) option"
  | TdRun toolset_provider | TdPosted nat bool | TdTimer | TdPolled "(string list \<times> bool) option" | TdRefreshed bool

primrec drawer_step :: "drawer \<Rightarrow> drawer_event \<Rightarrow> drawer" where
  "drawer_step s (TdLoaded r) = config_loaded r s"
| "drawer_step s (TdToggle b) = toggle_toolset b s"
| "drawer_step s (TdToggled i ok) = toolset_toggled i ok s"
| "drawer_step s (TdSelect p) = select_provider p s"
| "drawer_step s (TdSelected i ok) = provider_selected i ok s"
| "drawer_step s (TdType k v) = s\<lparr>tdDrafts := obj_set k v (tdDrafts s)\<rparr>"
| "drawer_step s (TdSave p) = save_keys p s"
| "drawer_step s (TdSaved i r) = keys_saved i r s"
| "drawer_step s (TdRun p) = run_setup p s"
| "drawer_step s (TdPosted i ok) = setup_posted i ok s"
| "drawer_step s TdTimer = s\<lparr>tdPoll := SetupAsked\<rparr>"
| "drawer_step s (TdPolled r) = setup_polled r s"
| "drawer_step s (TdRefreshed ok) = page_refreshed ok s"

text \<open>The providers whose rows are shown.\<close>

definition shown_providers :: "drawer \<Rightarrow> toolset_provider list" where
  "shown_providers s =
     (if tdLoading s then []
      else case tdConfig s of None \<Rightarrow> [] | Some c \<Rightarrow> if tcHasCategory c then tcProviders c else [])"

primrec drawer_enabled :: "drawer \<Rightarrow> drawer_event \<Rightarrow> bool" where
  "drawer_enabled s (TdLoaded r) = (tdLoads s > 0)"
| "drawer_enabled s (TdToggle b) = (\<not> tdToggling s \<and> b \<noteq> tdEnabled s)"
| "drawer_enabled s (TdToggled i ok) = (i < length (tdToggles s))"
| "drawer_enabled s (TdSelect p) = (p \<in> set (map tpName (shown_providers s)) \<and> tdActive s \<noteq> Some p \<and> tdSelecting s = None)"
| "drawer_enabled s (TdSelected i ok) = (i < length (tdSelects s))"
| "drawer_enabled s (TdType k v) = list_ex (\<lambda>p. k \<in> set (map evKey (tpEnv p))) (shown_providers s)"
| "drawer_enabled s (TdSave p) = (p \<in> set (shown_providers s) \<and> tpEnv p \<noteq> [] \<and> tdSavingProvider s = None)"
| "drawer_enabled s (TdSaved i r) = (i < length (tdSaves s))"
| "drawer_enabled s (TdRun p) = (p \<in> set (shown_providers s) \<and> truthy_str (tpSetup p) \<and> \<not> tdRunning s)"
| "drawer_enabled s (TdPosted i ok) = (i < length (tdPosts s))"
| "drawer_enabled s TdTimer = (tdPoll s = SetupTimer)"
| "drawer_enabled s (TdPolled r) = (tdPoll s = SetupAsked)"
| "drawer_enabled s (TdRefreshed ok) = (tdRefreshes s > 0)"

section \<open>The keys of a provider\<close>

lemma draft_keys_from:
  "map_of (draft_keys p drafts) k = Some v \<Longrightarrow> k \<in> set (map evKey (tpEnv p)) \<and> (\<exists>d. map_of drafts k = Some d \<and> v = trim d \<and> v \<noteq> [])"
proof -
  have "map_of (fold (\<lambda>e env. case map_of drafts (evKey e) of None \<Rightarrow> env
        | Some v \<Rightarrow> if trim v = [] then env else obj_set (evKey e) (trim v) env) es env0) k = Some v \<Longrightarrow>
      map_of env0 k = Some v \<or> k \<in> set (map evKey es) \<and> (\<exists>d. map_of drafts k = Some d \<and> v = trim d \<and> v \<noteq> [])" for es env0
    by (induction es arbitrary: env0) (fastforce split: option.splits if_splits)+
  from this [of "tpEnv p" "[]"] show "map_of (draft_keys p drafts) k = Some v \<Longrightarrow> ?thesis" by (simp add: draft_keys_def)
qed

lemma draft_keys_all:
  assumes "k \<in> set (map evKey (tpEnv p))" "map_of drafts k = Some d" "trim d \<noteq> []"
  shows "map_of (draft_keys p drafts) k = Some (trim d)"
proof -
  let ?f = "\<lambda>e env. case map_of drafts (evKey e) of None \<Rightarrow> env
        | Some v \<Rightarrow> if trim v = [] then env else obj_set (evKey e) (trim v) env"
  have keep: "map_of env0 k = Some (trim d) \<Longrightarrow> map_of (fold ?f es env0) k = Some (trim d)" for es env0
  proof (induction es arbitrary: env0)
    case (Cons e es)
    have "map_of (?f e env0) k = Some (trim d)" using Cons.prems assms(2,3) by (auto split: option.split)
    then show ?case using Cons.IH by simp
  qed simp
  have "k \<in> set (map evKey es) \<Longrightarrow> map_of (fold ?f es env0) k = Some (trim d)" for es env0
  proof (induction es arbitrary: env0)
    case (Cons e es)
    show ?case
    proof (cases "evKey e = k")
      case True
      then have "map_of (?f e env0) k = Some (trim d)" using assms(2,3) by simp
      then show ?thesis using keep by simp
    qed (use Cons in simp)
  qed simp
  with assms(1) show ?thesis by (simp add: draft_keys_def)
qed

section \<open>The set-up is followed\<close>

definition drawer_inv :: "drawer \<Rightarrow> bool" where
  "drawer_inv s \<longleftrightarrow> (tdRunning s \<longrightarrow> tdPosts s \<noteq> [] \<or> tdPoll s \<noteq> SetupIdle) \<and> (tdPoll s \<noteq> SetupIdle \<longrightarrow> tdTrigger s \<noteq> 0)"

lemmas drawer_ops = config_loaded_def toggle_toolset_def toolset_toggled_def select_provider_def provider_selected_def
  save_keys_def keys_saved_def run_setup_def setup_posted_def setup_polled_def page_refreshed_def on_changed_def setup_effect_def

lemma drawer_calm:
  "drawer_inv s \<Longrightarrow> tdRunning t = tdRunning s \<Longrightarrow> tdPosts t = tdPosts s \<Longrightarrow> tdPoll t = tdPoll s \<Longrightarrow> tdTrigger t = tdTrigger s \<Longrightarrow> drawer_inv t"
  by (simp add: drawer_inv_def)

lemma drawer_step_inv: "drawer_inv s \<Longrightarrow> drawer_enabled s e \<Longrightarrow> drawer_inv (drawer_step s e)"
proof (cases e)
  case (TdLoaded r)
  assume "drawer_inv s"
  then show ?thesis by (elim drawer_calm; cases r) (simp_all add: TdLoaded config_loaded_def)
next
  case (TdSaved i r)
  assume "drawer_inv s"
  then show ?thesis by (elim drawer_calm; cases r) (auto simp: TdSaved keys_saved_def on_changed_def Let_def)
next
  case (TdRun p)
  assume "drawer_inv s"
  then show ?thesis by (auto simp: TdRun drawer_inv_def run_setup_def)
next
  case (TdPosted i ok)
  assume "drawer_inv s"
  then show ?thesis by (auto simp: TdPosted drawer_inv_def setup_posted_def setup_effect_def Let_def)
next
  case (TdPolled r)
  assume "drawer_inv s" "drawer_enabled s e"
  then show ?thesis by (auto simp: TdPolled drawer_inv_def setup_polled_def on_changed_def split: option.split)
next
  case (TdRefreshed ok)
  assume "drawer_inv s"
  then show ?thesis by (auto simp: TdRefreshed drawer_inv_def page_refreshed_def setup_effect_def Let_def)
next
  case TdTimer
  assume "drawer_inv s" "drawer_enabled s e"
  then show ?thesis by (simp add: TdTimer drawer_inv_def)
qed (erule drawer_calm; simp add: drawer_ops Let_def)+

definition setup_polls :: "drawer \<Rightarrow> drawer_event set" where
  "setup_polls s = {e. drawer_enabled s e \<and> (e = TdTimer \<or> (\<exists>r. e = TdPolled r) \<or> (\<exists>i ok. e = TdPosted i ok))}"

interpretation drawer: following "drawer_open on" drawer_step drawer_enabled drawer_inv tdRunning setup_polls for on
proof
  show "drawer_inv (drawer_open on)" by (simp add: drawer_inv_def drawer_open_def)
  show "drawer_inv (drawer_step s e)" if "drawer_inv s" "drawer_enabled s e" for s e using that by (rule drawer_step_inv)
  show "setup_polls s \<noteq> {}" if "drawer_inv s" "tdRunning s" for s
  proof -
    have "drawer_enabled s (TdPosted 0 True) \<or> drawer_enabled s TdTimer \<or> drawer_enabled s (TdPolled None)"
      using that by (cases "tdPoll s") (auto simp: drawer_inv_def)
    then show ?thesis unfolding setup_polls_def by blast
  qed
  show "drawer_enabled s e" if "e \<in> setup_polls s" for s e using that by (simp add: setup_polls_def)
qed

text \<open>A set-up shown as running is being started or polled.\<close>

lemma running_setup_is_followed:
  "legal_run drawer_enabled drawer_step (drawer_open on) es \<Longrightarrow> tdRunning (foldl drawer_step (drawer_open on) es) \<Longrightarrow>
     \<exists>e \<in> setup_polls (foldl drawer_step (drawer_open on) es). legal_run drawer_enabled drawer_step (drawer_open on) (es @ [e])"
  by (rule drawer.never_abandoned)

section \<open>A set-up that has ended is never at rest\<close>

text \<open>Once a set-up was started, a poll or a refresh is always under way, unless a status or a refresh fails: the
  refresh that reports its end makes the page render, and with the new callback the effect polls again.\<close>

definition restless :: "drawer \<Rightarrow> bool" where
  "restless s \<longleftrightarrow> tdTrigger s \<noteq> 0 \<and> (tdPoll s \<noteq> SetupIdle \<or> tdRefreshes s > 0)"

theorem ended_setup_never_rests:
  assumes "restless s" "drawer_enabled s e" "e \<noteq> TdPolled None" "e \<noteq> TdRefreshed False"
  shows "restless (drawer_step s e)"
  using assms by (cases e) (auto simp: restless_def drawer_ops Let_def split: option.splits)

definition setup_cycle :: "drawer_event list" where
  "setup_cycle = [TdRefreshed True, TdTimer, TdPolled (Some ([], False)), TdLoaded None]"

lemma cycle_completes:
  assumes "tdTrigger s \<noteq> 0" "tdRefreshes s > 0"
  shows "legal_run drawer_enabled drawer_step s setup_cycle"
    and "tdTrigger (foldl drawer_step s setup_cycle) \<noteq> 0" "tdRefreshes (foldl drawer_step s setup_cycle) > 0"
    and "tdCompletions (foldl drawer_step s setup_cycle) = tdCompletions s + 1"
  using assms by (simp_all add: setup_cycle_def page_refreshed_def setup_effect_def setup_polled_def on_changed_def config_loaded_def Let_def)

definition sample_provider :: toolset_provider where
  "sample_provider = \<lparr>tpName = ''local'', tpEnv = [], tpSetup = Some ''npm''\<rparr>"

definition one_setup :: "drawer_event list" where
  "one_setup = [TdLoaded (Some \<lparr>tcHasCategory = True, tcProviders = [sample_provider], tcActive = None\<rparr>), TdRun sample_provider,
     TdPosted 0 True, TdTimer, TdPolled (Some ([''ok''], False))]"

text \<open>One set-up is reported complete any number of times.\<close>

theorem one_setup_completes_for_ever:
  "\<exists>es. legal_run drawer_enabled drawer_step (drawer_open on) es \<and> length (filter (\<lambda>e. e = TdRun sample_provider) es) = 1
    \<and> tdCompletions (foldl drawer_step (drawer_open on) es) = Suc n"
proof -
  let ?s = "drawer_open on"
  have "\<exists>es. legal_run drawer_enabled drawer_step ?s es \<and> length (filter (\<lambda>e. e = TdRun sample_provider) es) = 1
      \<and> tdCompletions (foldl drawer_step ?s es) = Suc n
      \<and> tdTrigger (foldl drawer_step ?s es) \<noteq> 0 \<and> tdRefreshes (foldl drawer_step ?s es) > 0" (is "\<exists>es. ?run es n")
  proof (induction n)
    case 0
    have "?run one_setup 0"
      by (simp add: one_setup_def drawer_open_def config_loaded_def shown_providers_def run_setup_def setup_posted_def
          setup_effect_def setup_polled_def on_changed_def sample_provider_def seed_is_set_def Let_def)
    then show ?case ..
  next
    case (Suc n)
    then obtain es where run: "?run es n" by blast
    note c = cycle_completes [of "foldl drawer_step ?s es"]
    have "?run (es @ setup_cycle) (Suc n)"
      using run c by (simp add: legal_run_append) (simp add: setup_cycle_def)
    then show ?case ..
  qed
  then show ?thesis by blast
qed

end
