(* ===== verification/SystemPage.thy ===== *)
theory SystemPage
  imports Format
begin

text \<open>
  The page of the system, \<open>web/src/pages/SystemPage.tsx\<close>: how sizes, durations and archives are named, the
  operations it starts and the viewer of their log, backups and restores with their consent, updates, the
  credential pool and the hooks. The markup, the statistics and the report that is shared are left out.
\<close>

section \<open>Names and sizes\<close>

definition system_bytes :: "nat \<Rightarrow> string" where
  "system_bytes n =
     (if n < 1024 then show_nat n @ '' B''
      else if n < 1024 * 1024 then to_fixed 1 (of_nat n / 1024) @ '' KB''
      else if n < 1024 * 1024 * 1024 then to_fixed 1 (of_nat n / (1024 * 1024)) @ '' MB''
      else to_fixed 1 (of_nat n / (1024 * 1024 * 1024)) @ '' GB'')"

definition uptime :: "nat \<Rightarrow> string" where
  "uptime seconds =
     (let d = seconds div 86400; h = seconds mod 86400 div 3600; m = seconds mod 3600 div 60
      in if d > 0 then show_nat d @ ''d '' @ show_nat h @ ''h '' @ show_nat m @ ''m''
         else if h > 0 then show_nat h @ ''h '' @ show_nat m @ ''m''
         else show_nat m @ ''m'')"

datatype import_target = UploadTarget string | PathTarget string

definition backup_import_label :: "import_target option \<Rightarrow> string" where
  "backup_import_label t =
     (case t of None \<Rightarrow> ''the archive'' | Some (UploadTarget f) \<Rightarrow> f | Some (PathTarget p) \<Rightarrow> p)"

definition backslash :: char where
  "backslash = CHR 0x5C"

fun split_path :: "string \<Rightarrow> string list" where
  "split_path [] = [[]]"
| "split_path (c # s) =
     (if c = backslash \<or> c = CHR ''/'' then [] # split_path s
      else case split_path s of [] \<Rightarrow> [[c]] | w # ws \<Rightarrow> (c # w) # ws)"

definition backup_file_name :: "string option \<Rightarrow> string" where
  "backup_file_name p =
     (case p of
        None \<Rightarrow> ''No backup created yet''
      | Some path \<Rightarrow>
          if path = [] then ''No backup created yet''
          else (let ws = filter (\<lambda>w. w \<noteq> []) (split_path path) in if ws = [] then path else last ws))"

text \<open>The three parts of an uptime add up to the seconds, less what is below a minute.\<close>

lemma read_part_show: "read_part (show_nat n @ [c]) = n * duration_unit c"
  by (simp add: read_part_def)

lemma split_parts: "split_on (CHR '' '') (show_nat n @ c # CHR '' '' # s) = (show_nat n @ [c]) # split_on (CHR '' '') s"
  if "c \<noteq> CHR '' ''"
proof -
  have "CHR '' '' \<notin> set (show_nat n @ [c])" using that show_nat_no_ws [of "CHR '' ''" n] by (auto simp: is_ws_def code_def)
  from split_on_append [OF this, of s] show ?thesis by simp
qed

lemma split_last: "c \<noteq> CHR '' '' \<Longrightarrow> split_on (CHR '' '') (show_nat n @ [c]) = [show_nat n @ [c]]"
  using show_nat_no_ws [of "CHR '' ''" n] by (intro split_on_free) (auto simp: is_ws_def code_def)

lemma three_remainders: "s = d + q \<Longrightarrow> q = h + r \<Longrightarrow> r = m + x \<Longrightarrow> x < (60 :: nat) \<Longrightarrow> d + h + m \<le> s \<and> s < d + h + m + 60"
  by simp

lemma uptime_parts: "s div 86400 * 86400 + s mod 86400 div 3600 * 3600 + s mod 3600 div 60 * 60 \<le> (s :: nat)
    \<and> s < s div 86400 * 86400 + s mod 86400 div 3600 * 3600 + s mod 3600 div 60 * 60 + 60"
proof (rule three_remainders)
  have "s mod 86400 mod 3600 = s mod 3600" by (rule mod_mod_cancel) simp
  then show "s mod 86400 = s mod 86400 div 3600 * 3600 + s mod 3600" by (metis div_mult_mod_eq)
  show "s mod 3600 = s mod 3600 div 60 * 60 + s mod 3600 mod 60" by (rule div_mult_mod_eq [symmetric])
qed simp_all

text \<open>The uptime is accurate to the minute: reading the printed parts back gives at most the seconds
  and falls short of them by less than a minute.\<close>

theorem uptime_is_accurate: "read_duration (uptime s) \<le> s \<and> s < read_duration (uptime s) + 60"
proof -
  let ?d = "s div 86400" and ?h = "s mod 86400 div 3600" and ?m = "s mod 3600 div 60"
  have "read_duration (uptime s) = ?d * 86400 + ?h * 3600 + ?m * 60"
    unfolding read_duration_def uptime_def Let_def
    by (simp add: split_parts split_last read_part_show duration_unit_def)
  then show ?thesis using uptime_parts [of s] by simp
qed

section \<open>Keys of the rows to delete\<close>

text \<open>The confirmation dialog takes one text: the provider and the index of a credential, or the event and the
  command of a hook.\<close>

definition credential_key :: "string \<Rightarrow> nat \<Rightarrow> string" where
  "credential_key provider index = provider @ CHR ''|'' # show_nat index"

text \<open>The provider and the digits of the index.\<close>

definition read_credential_key :: "string \<Rightarrow> string \<times> string option" where
  "read_credential_key key = (case split_on (CHR ''|'') key of [] \<Rightarrow> ([], None) | [p] \<Rightarrow> (p, None) | p # i # ws \<Rightarrow> (p, Some i))"

definition hook_key :: "string \<Rightarrow> string option \<Rightarrow> string" where
  "hook_key event command = event @ CHR ''|'' # (case command of None \<Rightarrow> [] | Some c \<Rightarrow> c)"

definition read_hook_key :: "string \<Rightarrow> string \<times> string" where
  "read_hook_key key =
     (case index_of (CHR ''|'') key of
        Some i \<Rightarrow> (take i key, drop (i + 1) key)
      | None \<Rightarrow> (butlast key, key))"

lemma index_of_first: "c \<notin> set p \<Longrightarrow> index_of c (p @ c # s) = Some (length p)"
  by (induction p) auto

theorem hook_key_roundtrip: "CHR ''|'' \<notin> set event \<Longrightarrow> read_hook_key (hook_key event (Some command)) = (event, command)"
  by (simp add: read_hook_key_def hook_key_def index_of_first)

theorem credential_key_roundtrip:
  assumes "CHR ''|'' \<notin> set provider"
  shows "read_credential_key (credential_key provider index) = (provider, Some (show_nat index))"
proof -
  have "CHR ''|'' \<notin> set (show_nat index)" using show_nat_digits [of "CHR ''|''" index] by (auto simp: is_digit_def code_def)
  then show ?thesis using assms by (simp add: read_credential_key_def credential_key_def split_on_append split_on_free)
qed

text \<open>A provider whose name has a bar: the wrong credential is asked for, if any.\<close>

theorem barred_provider_is_cut: "read_credential_key (credential_key ''a|1'' 7) = (''a'', Some ''1'')"
  by code_simp

section \<open>Operations, their log, backups and restores\<close>

datatype log_poll = LogIdle | LogAsked | LogTimer

record log_viewer =
  vwLines :: "string list"
  vwRunning :: bool
  vwExit :: "int option"
  vwPoll :: log_poll
  vwComplete :: bool

datatype op_start = StartOp | StartBackup | StartImport import_target | StartGateway string | StartUpdate

text \<open>\<open>syViewer\<close> is the viewer of the log of \<open>syAction\<close>; \<open>syStarts\<close> are the starts under way, and \<open>syImports\<close> the
  restores asked of the gateway so far.\<close>

record system_page =
  syAction :: "string option"
  syViewer :: log_viewer
  syPending :: "string option"
  syArchive :: "string option"
  syImportFile :: "string option"
  syImportPath :: string
  syImporting :: bool
  syTarget :: "import_target option"
  syUpdateOpen :: bool
  syCanUpdate :: bool
  syGatewayUp :: bool
  syStarts :: "op_start list"
  syImports :: "import_target list"

definition fresh_viewer :: log_viewer where
  "fresh_viewer = \<lparr>vwLines = [], vwRunning = True, vwExit = None, vwPoll = LogIdle, vwComplete = False\<rparr>"

definition system_start :: "bool \<Rightarrow> bool \<Rightarrow> system_page" where
  "system_start can up =
     \<lparr>syAction = None, syViewer = fresh_viewer, syPending = None, syArchive = None, syImportFile = None, syImportPath = [],
      syImporting = False, syTarget = None, syUpdateOpen = False, syCanUpdate = can, syGatewayUp = up, syStarts = [], syImports = []\<rparr>"

text \<open>The effect of the viewer runs when the action changes or the callback, which is a new one whenever the
  pending archive changes; the viewer is mounted afresh only when there was no action.\<close>

definition viewer_effect :: "log_viewer \<Rightarrow> log_viewer" where
  "viewer_effect v = v\<lparr>vwPoll := LogAsked, vwComplete := False\<rparr>"

definition show_action :: "string option \<Rightarrow> string option \<Rightarrow> system_page \<Rightarrow> system_page" where
  "show_action action pending s =
     (let v = (if \<not> truthy_str (syAction s) then fresh_viewer else syViewer s);
          v2 = (if action \<noteq> syAction s \<or> pending \<noteq> syPending s then viewer_effect v else v)
      in s\<lparr>syAction := action, syPending := pending, syViewer := (if truthy_str action then v2 else fresh_viewer)\<rparr>)"

definition handle_action_complete :: "string \<Rightarrow> int option \<Rightarrow> system_page \<Rightarrow> system_page" where
  "handle_action_complete action exit s =
     (if action = ''backup'' \<and> truthy_str (syPending s)
      then (if exit = Some 0 then s\<lparr>syArchive := syPending s\<rparr> else show_action (syAction s) None s)
      else s)"

definition log_answered :: "(string list \<times> bool \<times> int option) option \<Rightarrow> system_page \<Rightarrow> system_page" where
  "log_answered r s =
     (let v = syViewer s
      in case r of
           None \<Rightarrow> s\<lparr>syViewer := v\<lparr>vwRunning := False, vwPoll := LogIdle\<rparr>\<rparr>
         | Some (lines, running, exit) \<Rightarrow>
             (let v1 = v\<lparr>vwLines := lines, vwRunning := running, vwExit := exit, vwPoll := (if running then LogTimer else LogIdle),
                         vwComplete := (vwComplete v \<or> \<not> running)\<rparr>;
                  s1 = s\<lparr>syViewer := v1\<rparr>
              in if \<not> running \<and> \<not> vwComplete v then handle_action_complete (the (syAction s)) exit s1 else s1))"

definition run_op :: "op_start \<Rightarrow> system_page \<Rightarrow> system_page" where
  "run_op a s = s\<lparr>syStarts := syStarts s @ [a]\<rparr>"

definition run_backup_import :: "import_target \<Rightarrow> system_page \<Rightarrow> system_page" where
  "run_backup_import t s = run_op (StartImport t) (s\<lparr>syImporting := True, syImports := syImports s @ [t]\<rparr>)"

definition confirm_import :: "system_page \<Rightarrow> system_page" where
  "confirm_import s =
     (let s1 = s\<lparr>syTarget := None\<rparr> in case syTarget s of None \<Rightarrow> s1 | Some t \<Rightarrow> run_backup_import t s1)"

definition ask_import :: "import_target \<Rightarrow> system_page \<Rightarrow> system_page" where
  "ask_import t s = s\<lparr>syTarget := Some t\<rparr>"

definition apply_update :: "system_page \<Rightarrow> system_page" where
  "apply_update s =
     (let s1 = s\<lparr>syUpdateOpen := False\<rparr> in if syCanUpdate s then run_op StartUpdate s1 else s1)"

text \<open>The answer of a start: the name of its action, and for a backup the archive, or for an update that cannot be
  applied from here no name.\<close>

definition op_started :: "nat \<Rightarrow> (string option \<times> string option) option \<Rightarrow> system_page \<Rightarrow> system_page" where
  "op_started i r s =
     (let s1 = s\<lparr>syStarts := take_out i (syStarts s)\<rparr>
      in case syStarts s ! i of
           StartOp \<Rightarrow> (case r of Some (Some name, a) \<Rightarrow> show_action (Some name) (syPending s) s1 | _ \<Rightarrow> s1)
         | StartBackup \<Rightarrow> (case r of Some (Some name, a) \<Rightarrow> (show_action (Some name) a s1)\<lparr>syArchive := None\<rparr> | _ \<Rightarrow> s1)
         | StartImport t \<Rightarrow>
             (case r of
                Some (Some name, a) \<Rightarrow>
                  (let s2 = show_action (Some name) (syPending s) s1
                   in case t of UploadTarget f \<Rightarrow> s2\<lparr>syImportFile := None\<rparr> | PathTarget p \<Rightarrow> s2)
              | _ \<Rightarrow> s1)\<lparr>syImporting := False\<rparr>
         | StartGateway verb \<Rightarrow> (case r of Some _ \<Rightarrow> show_action (Some (''gateway-'' @ verb)) (syPending s) s1 | None \<Rightarrow> s1)
         | StartUpdate \<Rightarrow> (case r of Some (Some name, a) \<Rightarrow> show_action (Some name) (syPending s) s1 | _ \<Rightarrow> s1))"

datatype system_event =
    SyRun | SyBackup | SyGateway string | SyStarted nat "(string option \<times> string option) option"
  | SyLog "(string list \<times> bool \<times> int option) option" | SyTimer | SyCloseLog
  | SyFile "string option" | SyPath string | SyRestoreUpload | SyRestorePath | SyConfirmImport | SyCancelImport
  | SyAskUpdate | SyCancelUpdate | SyConfirmUpdate | SyLoaded "(bool \<times> bool) option"

primrec system_step :: "system_page \<Rightarrow> system_event \<Rightarrow> system_page" where
  "system_step s SyRun = run_op StartOp s"
| "system_step s SyBackup = run_op StartBackup s"
| "system_step s (SyGateway verb) = run_op (StartGateway verb) s"
| "system_step s (SyStarted i r) = op_started i r s"
| "system_step s (SyLog r) = log_answered r s"
| "system_step s SyTimer = s\<lparr>syViewer := (syViewer s)\<lparr>vwPoll := LogAsked\<rparr>\<rparr>"
| "system_step s SyCloseLog = show_action None (syPending s) s"
| "system_step s (SyFile f) = s\<lparr>syImportFile := f\<rparr>"
| "system_step s (SyPath p) = s\<lparr>syImportPath := p\<rparr>"
| "system_step s SyRestoreUpload = (case syImportFile s of None \<Rightarrow> s | Some f \<Rightarrow> ask_import (UploadTarget f) s)"
| "system_step s SyRestorePath =
     (let p = trim (syImportPath s) in if p = [] then s else ask_import (PathTarget p) s)"
| "system_step s SyConfirmImport = confirm_import s"
| "system_step s SyCancelImport = s\<lparr>syTarget := None\<rparr>"
| "system_step s SyAskUpdate = s\<lparr>syUpdateOpen := True\<rparr>"
| "system_step s SyCancelUpdate = s\<lparr>syUpdateOpen := False\<rparr>"
| "system_step s SyConfirmUpdate = apply_update s"
| "system_step s (SyLoaded r) = (case r of None \<Rightarrow> s | Some (can, up) \<Rightarrow> s\<lparr>syCanUpdate := can, syGatewayUp := up\<rparr>)"

primrec system_enabled :: "system_page \<Rightarrow> system_event \<Rightarrow> bool" where
  "system_enabled s SyRun = True"
| "system_enabled s SyBackup = True"
| "system_enabled s (SyGateway verb) =
     (verb = ''restart'' \<or> (verb = ''start'' \<and> \<not> syGatewayUp s) \<or> (verb = ''stop'' \<and> syGatewayUp s))"
| "system_enabled s (SyStarted i r) = (i < length (syStarts s))"
| "system_enabled s (SyLog r) = (truthy_str (syAction s) \<and> vwPoll (syViewer s) = LogAsked)"
| "system_enabled s SyTimer = (truthy_str (syAction s) \<and> vwPoll (syViewer s) = LogTimer)"
| "system_enabled s SyCloseLog = truthy_str (syAction s)"
| "system_enabled s (SyFile f) = (\<not> syImporting s)"
| "system_enabled s (SyPath p) = True"
| "system_enabled s SyRestoreUpload = (syImportFile s \<noteq> None \<and> \<not> syImporting s)"
| "system_enabled s SyRestorePath = (trim (syImportPath s) \<noteq> [] \<and> \<not> syImporting s)"
| "system_enabled s SyConfirmImport = (syTarget s \<noteq> None)"
| "system_enabled s SyCancelImport = (syTarget s \<noteq> None)"
| "system_enabled s SyAskUpdate = syCanUpdate s"
| "system_enabled s SyCancelUpdate = (syCanUpdate s \<and> syUpdateOpen s)"
| "system_enabled s SyConfirmUpdate = (syCanUpdate s \<and> syUpdateOpen s)"
| "system_enabled s (SyLoaded r) = True"

section \<open>Backups that are offered are complete\<close>

lemmas system_ops = run_op_def run_backup_import_def confirm_import_def ask_import_def apply_update_def show_action_def

lemma show_action_keeps [simp]:
  "syArchive (show_action a p s) = syArchive s" "syImports (show_action a p s) = syImports s"
  "syImportFile (show_action a p s) = syImportFile s"
  by (simp_all add: show_action_def Let_def)

lemma op_started_archive: "syArchive (op_started i r s) \<in> {None, syArchive s}"
  by (auto simp: op_started_def Let_def split: op_start.split option.split import_target.split prod.split)

lemma op_started_imports: "syImports (op_started i r s) = syImports s"
  by (auto simp: op_started_def Let_def split: op_start.split option.split import_target.split prod.split)

lemma log_answered_archive:
  "syArchive (log_answered r s) = Some a \<Longrightarrow> syArchive s \<noteq> Some a \<Longrightarrow>
     \<exists>lines. r = Some (lines, False, Some 0) \<and> the (syAction s) = ''backup'' \<and> syPending s = Some a"
  by (auto simp: log_answered_def handle_action_complete_def Let_def truthy_str_def split: option.splits if_splits prod.splits)

lemma log_answered_imports: "syImports (log_answered r s) = syImports s"
  by (simp add: log_answered_def handle_action_complete_def Let_def split: option.split prod.split)

definition completes :: "system_page \<Rightarrow> system_event \<Rightarrow> string \<Rightarrow> bool" where
  "completes s e a \<longleftrightarrow> (\<exists>lines. e = SyLog (Some (lines, False, Some 0))) \<and> syAction s = Some ''backup'' \<and> syPending s = Some a"

interpretation backups: tracing "system_start can up" system_step system_enabled "\<lambda>_. True" "\<lambda>s a. syArchive s = Some a" completes
  for can up
proof
  show "syArchive s = Some a \<or> completes s e a"
    if "system_enabled s e" "syArchive (system_step s e) = Some a" for s e a
  proof (cases e)
    case (SyStarted i r)
    then show ?thesis using that op_started_archive [of i r s] by auto
  next
    case (SyLog r)
    then show ?thesis using that log_answered_archive [of r s a] by (cases "syAction s") (auto simp: completes_def)
  qed (use that in \<open>auto simp: system_ops Let_def split: option.splits if_splits prod.splits\<close>)
qed (simp_all add: system_start_def)

definition restarts_backup :: "system_page \<Rightarrow> system_event \<Rightarrow> bool" where
  "restarts_backup s e \<longleftrightarrow>
     (\<exists>i name a. e = SyStarted i (Some (Some name, a)) \<and> syStarts s ! i = StartBackup)"

text \<open>Claim C33. A backup that is offered is complete: whatever operations, logs and restores come in between, the
  archive offered for download is one whose log was seen to end with exit code zero while the page showed
  the action of the backup and held that archive, and no later backup was started since.\<close>

theorem offered_backups_are_complete:
  assumes "legal_run system_enabled system_step (system_start can up) es"
    and "syArchive (foldl system_step (system_start can up) es) = Some a"
  shows "\<exists>us e vs. es = us @ e # vs \<and> completes (foldl system_step (system_start can up) us) e a
    \<and> (\<forall>ys f zs. vs = ys @ f # zs \<longrightarrow> \<not> restarts_backup (foldl system_step (system_start can up) (us @ e # ys)) f)"
proof -
  let ?s = "system_start can up"
  from backups.traced [OF assms] obtain us e vs where us: "es = us @ e # vs" "completes (foldl system_step ?s us) e a"
    "\<forall>ys zs. vs = ys @ zs \<longrightarrow> syArchive (foldl system_step ?s (us @ e # ys)) = Some a" by blast
  have "\<not> restarts_backup (foldl system_step ?s (us @ e # ys)) f" if vs: "vs = ys @ f # zs" for ys f zs
  proof
    assume "restarts_backup (foldl system_step ?s (us @ e # ys)) f"
    then have "syArchive (foldl system_step ?s (us @ e # (ys @ [f]))) = None"
      by (auto simp: restarts_backup_def op_started_def Let_def)
    moreover have "vs = (ys @ [f]) @ zs" using vs by simp
    ultimately show False using us(3) by (metis option.distinct(1))
  qed
  then show ?thesis using us(1,2) by blast
qed

definition one_backup :: "system_event list" where
  "one_backup = [SyBackup, SyStarted 0 (Some (Some ''backup'', Some ''/b/1.zip'')), SyLog (Some ([], True, None)), SyTimer,
     SyLog (Some ([''done''], False, Some 0))]"

theorem offered_backups_are_complete_witness:
  "\<exists>us e vs. one_backup = us @ e # vs \<and> completes (foldl system_step (system_start True True) us) e ''/b/1.zip''"
proof -
  have "legal_run system_enabled system_step (system_start True True) one_backup" by code_simp
  moreover have "syArchive (foldl system_step (system_start True True) one_backup) = Some ''/b/1.zip''" by code_simp
  ultimately show ?thesis using offered_backups_are_complete by blast
qed

section \<open>Restores are confirmed\<close>

definition confirms :: "system_page \<Rightarrow> system_event \<Rightarrow> import_target \<Rightarrow> bool" where
  "confirms s e t \<longleftrightarrow> e = SyConfirmImport \<and> syTarget s = Some t"

interpretation restores: tracing "system_start can up" system_step system_enabled "\<lambda>_. True" "\<lambda>s t. t \<in> set (syImports s)" confirms
  for can up
proof
  show "t \<in> set (syImports s) \<or> confirms s e t"
    if "system_enabled s e" "t \<in> set (syImports (system_step s e))" for s e t
  proof (cases e)
    case (SyStarted i r)
    then show ?thesis using that by (simp add: op_started_imports)
  next
    case (SyLog r)
    then show ?thesis using that by (simp add: log_answered_imports)
  next
    case SyConfirmImport
    then show ?thesis using that by (cases "syTarget s") (auto simp: system_ops confirms_def Let_def)
  qed (use that in \<open>auto simp: run_op_def ask_import_def apply_update_def Let_def split: option.splits if_splits prod.splits\<close>)
qed (simp_all add: system_start_def)

text \<open>Every restore asked of the gateway was confirmed in the dialog that named it.\<close>

theorem restores_are_confirmed:
  assumes "legal_run system_enabled system_step (system_start can up) es"
    and "t \<in> set (syImports (foldl system_step (system_start can up) es))"
  shows "\<exists>us vs. es = us @ SyConfirmImport # vs \<and> syTarget (foldl system_step (system_start can up) us) = Some t"
  using restores.traced [OF assms] by (auto simp: confirms_def)

section \<open>What goes wrong\<close>

text \<open>An operation of the same name as the one shown: the viewer keeps the old log and its badge.\<close>

theorem repeated_operation_shows_the_old_log:
  assumes "syStarts s ! i = StartOp" "syAction s = Some name"
  shows "truthy_str (Some name) \<Longrightarrow> syViewer (op_started i (Some (Some name, a)) s) = syViewer s"
  using assms by (simp add: op_started_def show_action_def Let_def)

text \<open>A backup that fails is asked about once more: forgetting its archive makes the callback new.\<close>

theorem failed_backup_is_polled_again:
  "let s = foldl system_step (system_start True True)
       [SyBackup, SyStarted 0 (Some (Some ''backup'', Some ''/b/1.zip'')), SyLog (Some ([], False, Some 1))]
   in vwRunning (syViewer s) = False \<and> vwPoll (syViewer s) = LogAsked"
  by code_simp

text \<open>Another operation shows the lines and the badge of the one before until its first status comes.\<close>

theorem next_operation_shows_the_old_badge:
  "let s = foldl system_step (system_start True True)
       [SyRun, SyStarted 0 (Some (Some ''doctor'', None)), SyLog (Some ([''fine''], False, Some 0)),
        SyRun, SyStarted 0 (Some (Some ''dump'', None))]
   in syAction s = Some ''dump'' \<and> vwLines (syViewer s) = [''fine''] \<and> vwRunning (syViewer s) = False \<and> vwExit (syViewer s) = Some 0"
  by code_simp

end
