(* ===== verification/Analytics.thy ===== *)
theory Analytics
  imports Format "HOL-Library.Multiset"
begin

text \<open>
  The page of the analytics, \<open>web/src/pages/AnalyticsPage.tsx\<close>: its sortable tables, the chart of the tokens of a
  day, the sums it shows, and its loads. The values of a column are of one type and compare as in the
  program; a missing one is \<open>None\<close>.
\<close>

section \<open>Sorted tables\<close>

datatype sort_dir = Asc | Desc

text \<open>\<open>Array.prototype.sort\<close> is stable: an entry goes behind those it does not precede. Its result is only specified
  for a consistent comparator.\<close>

fun put_sorted :: "('a \<Rightarrow> 'a \<Rightarrow> int) \<Rightarrow> 'a \<Rightarrow> 'a list \<Rightarrow> 'a list" where
  "put_sorted cmp x [] = [x]"
| "put_sorted cmp x (y # ys) = (if cmp x y > 0 then y # put_sorted cmp x ys else x # y # ys)"

definition js_sort :: "('a \<Rightarrow> 'a \<Rightarrow> int) \<Rightarrow> 'a list \<Rightarrow> 'a list" where
  "js_sort cmp xs = foldr (put_sorted cmp) xs []"

definition compare_cells :: "sort_dir \<Rightarrow> 'v::linorder option \<Rightarrow> 'v option \<Rightarrow> int" where
  "compare_cells dir a b =
     (case a of
        None \<Rightarrow> 1
      | Some x \<Rightarrow>
          (case b of
             None \<Rightarrow> - 1
           | Some y \<Rightarrow>
               if x = y then 0
               else (let c = (if x > y then 1 else - 1) in if dir = Asc then c else - c)))"

definition sorted_rows :: "('r \<Rightarrow> 'v::linorder option) \<Rightarrow> sort_dir \<Rightarrow> 'r list \<Rightarrow> 'r list" where
  "sorted_rows cell dir rows = js_sort (\<lambda>a b. compare_cells dir (cell a) (cell b)) rows"

record table_sort =
  taKey :: string
  taDir :: sort_dir

definition toggle_sort :: "string \<Rightarrow> table_sort \<Rightarrow> table_sort" where
  "toggle_sort key s =
     (if key = taKey s then s\<lparr>taDir := (if taDir s = Asc then Desc else Asc)\<rparr> else \<lparr>taKey = key, taDir = Desc\<rparr>)"

definition sort_mark :: "table_sort \<Rightarrow> string \<Rightarrow> string" where
  "sort_mark s col = (if col = taKey s then (if taDir s = Asc then ''ArrowUp'' else ''ArrowDown'') else ''ArrowUpDown'')"

text \<open>The reference: the rows with a value sorted by it, in their given order where it is the same, then those
  without.\<close>

definition rows_by_value :: "('r \<Rightarrow> 'v::linorder option) \<Rightarrow> sort_dir \<Rightarrow> 'r list \<Rightarrow> 'r list" where
  "rows_by_value cell dir rows =
     (let given = filter (\<lambda>r. cell r \<noteq> None) rows; missing = filter (\<lambda>r. cell r = None) rows;
          value_of = the \<circ> cell
      in (if dir = Asc then sort_key value_of given else rev (sort_key value_of (rev given))) @ missing)"

lemma put_sorted_mset [simp]: "mset (put_sorted cmp x ys) = add_mset x (mset ys)"
  by (induction ys) auto

lemma js_sort_mset: "mset (js_sort cmp xs) = mset xs"
  by (induction xs) (simp_all add: js_sort_def)

lemma js_sort_Cons: "js_sort cmp (x # xs) = put_sorted cmp x (js_sort cmp xs)"
  by (simp add: js_sort_def)

text \<open>One row goes to its place.\<close>

lemma put_asc: "cell x = Some v \<Longrightarrow> \<forall>y \<in> set ys. cell y \<noteq> None \<Longrightarrow> \<forall>z \<in> set zs. cell z = None \<Longrightarrow>
    put_sorted (\<lambda>a b. compare_cells Asc (cell a) (cell b)) x (ys @ zs) = insort_key (the \<circ> cell) x ys @ zs"
proof (induction ys)
  case Nil
  then show ?case by (cases zs) (auto simp: compare_cells_def)
next
  case (Cons y ys)
  then obtain w where "cell y = Some w" by auto
  then show ?case using Cons by (auto simp: compare_cells_def Let_def)
qed

definition insort_down :: "('r \<Rightarrow> 'v::linorder) \<Rightarrow> 'r \<Rightarrow> 'r list \<Rightarrow> 'r list" where
  "insort_down f x ys = takeWhile (\<lambda>y. f x < f y) ys @ x # dropWhile (\<lambda>y. f x < f y) ys"

lemma put_desc: "cell x = Some v \<Longrightarrow> \<forall>y \<in> set ys. cell y \<noteq> None \<Longrightarrow> \<forall>z \<in> set zs. cell z = None \<Longrightarrow>
    put_sorted (\<lambda>a b. compare_cells Desc (cell a) (cell b)) x (ys @ zs) = insort_down (the \<circ> cell) x ys @ zs"
proof (induction ys)
  case Nil
  then show ?case by (cases zs) (auto simp: compare_cells_def insort_down_def)
next
  case (Cons y ys)
  then obtain w where "cell y = Some w" by auto
  then show ?case using Cons by (auto simp: compare_cells_def Let_def insort_down_def)
qed

lemma put_missing: "cell x = None \<Longrightarrow> put_sorted (\<lambda>a b. compare_cells dir (cell a) (cell b)) x ys = ys @ [x]"
  by (induction ys) (auto simp: compare_cells_def)

text \<open>Inserting in front of equals from the right end of a list sorted upwards, seen from its other end.\<close>

definition insort_up :: "('r \<Rightarrow> 'v::linorder) \<Rightarrow> 'r \<Rightarrow> 'r list \<Rightarrow> 'r list" where
  "insort_up f x ys = takeWhile (\<lambda>y. f y \<le> f x) ys @ x # dropWhile (\<lambda>y. f y \<le> f x) ys"

lemma insort_up_Cons: "insort_up f x (y # ys) = (if f y \<le> f x then y # insort_up f x ys else x # y # ys)"
  by (simp add: insort_up_def)

lemma insort_commute_up:
  "sorted (map f ys) \<Longrightarrow> insort_key f y (insort_up f x ys) = insort_up f x (insort_key f y ys)"
  by (induction ys) (auto simp: insort_up_def)

lemma insort_up_sort: "insort_up f x (sort_key f ys) = sort_key f (ys @ [x])"
proof -
  have "insort_up f x (foldr (insort_key f) zs []) = foldr (insort_key f) (zs @ [x]) []" for zs
  proof (induction zs)
    case (Cons z zs)
    have "sorted (map f (foldr (insort_key f) zs []))" using sorted_sort_key [of f zs] by (simp add: sort_key_def)
    from insort_commute_up [OF this, of z x] show ?case by (simp add: Cons.IH)
  qed (simp add: insort_up_def)
  then show ?thesis by (simp add: sort_key_def)
qed

lemma takeWhile_up: "sorted (map f us) \<Longrightarrow> takeWhile (\<lambda>y. f y \<le> f x) us = filter (\<lambda>y. f y \<le> f x) us"
proof (induction us)
  case (Cons u us)
  have "filter (\<lambda>y. f y \<le> f x) us = []" if "\<not> f u \<le> f x"
    using Cons.prems that by (intro filter_False) auto
  then show ?case using Cons by simp
qed simp

lemma dropWhile_up: "sorted (map f us) \<Longrightarrow> dropWhile (\<lambda>y. f y \<le> f x) us = filter (\<lambda>y. f x < f y) us"
proof (induction us)
  case (Cons u us)
  have "filter (\<lambda>y. f x < f y) us = us" if "f x < f u"
    using Cons.prems that by (intro filter_True) auto
  then show ?case using Cons by (auto simp: not_le)
qed simp

lemma takeWhile_down: "sorted (map f us) \<Longrightarrow> takeWhile (\<lambda>y. f x < f y) (rev us) = rev (filter (\<lambda>y. f x < f y) us)"
proof (induction us rule: rev_induct)
  case (snoc u us)
  have below: "\<forall>y \<in> set us. f y \<le> f u" and up: "sorted (map f us)" using snoc.prems by (auto simp: sorted_append)
  have "filter (\<lambda>y. f x < f y) us = []" if "\<not> f x < f u"
    using below that by (intro filter_False) auto
  then show ?case using snoc.IH [OF up] by simp
qed simp

lemma dropWhile_down: "sorted (map f us) \<Longrightarrow> dropWhile (\<lambda>y. f x < f y) (rev us) = rev (filter (\<lambda>y. f y \<le> f x) us)"
proof (induction us rule: rev_induct)
  case (snoc u us)
  have below: "\<forall>y \<in> set us. f y \<le> f u" and up: "sorted (map f us)" using snoc.prems by (auto simp: sorted_append)
  have "filter (\<lambda>y. f y \<le> f x) us = us" if "f u \<le> f x"
    using below that by (intro filter_True) auto
  then show ?case using snoc.IH [OF up] by (auto simp: not_le)
qed simp

lemma insort_down_rev: "sorted (map f us) \<Longrightarrow> insort_down f x (rev us) = rev (insort_up f x us)"
  by (simp add: insort_down_def insort_up_def takeWhile_up dropWhile_up takeWhile_down dropWhile_down)

text \<open>Claim C34. A table is sorted by value: for columns of which at most one value is missing, the rows of a table
  are those of the reference, sorted in the chosen direction with equal values in their given order and
  the missing one last. With two missing values the comparator contradicts itself.\<close>

theorem tables_are_sorted_by_value:
  assumes "length (filter (\<lambda>r. cell r = None) rows) \<le> 1"
  shows "sorted_rows cell dir rows = rows_by_value cell dir rows"
  using assms
proof (induction rows)
  case (Cons x xs)
  let ?given = "filter (\<lambda>r. cell r \<noteq> None) xs" and ?missing = "filter (\<lambda>r. cell r = None) xs" and ?v = "the \<circ> cell"
  let ?cmp = "\<lambda>a b. compare_cells dir (cell a) (cell b)"
  have "length ?missing \<le> 1" using Cons.prems by (auto split: if_splits)
  then have IH: "js_sort ?cmp xs = rows_by_value cell dir xs" using Cons.IH by (simp add: sorted_rows_def)
  show ?case
  proof (cases "cell x")
    case None
    then have "?missing = []" using Cons.prems by simp
    then show ?thesis using None IH by (simp add: sorted_rows_def js_sort_Cons put_missing rows_by_value_def Let_def)
  next
    case (Some v)
    show ?thesis
    proof (cases dir)
      case Asc
      have "put_sorted ?cmp x (sort_key ?v ?given @ ?missing) = insort_key ?v x (sort_key ?v ?given) @ ?missing"
        unfolding Asc by (rule put_asc [where cell = cell, OF Some]) auto
      then show ?thesis using Some IH Asc by (simp add: sorted_rows_def js_sort_Cons rows_by_value_def Let_def)
    next
      case Desc
      let ?us = "sort_key ?v (rev ?given)"
      have "put_sorted ?cmp x (rev ?us @ ?missing) = insort_down ?v x (rev ?us) @ ?missing"
        unfolding Desc by (rule put_desc [where cell = cell, OF Some]) auto
      also have "insort_down ?v x (rev ?us) = rev (sort_key ?v (rev ?given @ [x]))"
        by (simp add: insort_down_rev insort_up_sort del: sort_key_simps)
      finally show ?thesis using Some IH Desc by (simp add: sorted_rows_def js_sort_Cons rows_by_value_def Let_def comp_def)
    qed
  qed
qed (simp add: sorted_rows_def js_sort_def rows_by_value_def Let_def)

theorem tables_are_sorted_by_value_witness:
  "sorted_rows snd Desc [(''a'', Some (1 :: nat)), (''b'', None), (''c'', Some 2), (''d'', Some 1)]
    = [(''c'', Some 2), (''a'', Some 1), (''d'', Some 1), (''b'', None)]"
proof -
  have "sorted_rows snd Desc [(''a'', Some (1 :: nat)), (''b'', None), (''c'', Some 2), (''d'', Some 1)]
      = rows_by_value snd Desc [(''a'', Some 1), (''b'', None), (''c'', Some 2), (''d'', Some 1)]"
    by (rule tables_are_sorted_by_value) simp
  then show ?thesis by (simp add: rows_by_value_def)
qed

theorem missing_cells_contradict: "compare_cells dir None (None :: nat option) > 0"
  by (simp add: compare_cells_def)

section \<open>The chart\<close>

record daily_entry =
  deDay :: string
  deInput :: nat
  deOutput :: nat
  deSessions :: nat

definition CHART_HEIGHT :: nat where
  "CHART_HEIGHT = 160"

definition max_tokens :: "daily_entry list \<Rightarrow> nat" where
  "max_tokens ds = foldr max (map (\<lambda>d. deInput d + deOutput d) ds) 1"

text \<open>\<open>scaled n m\<close> is the double \<open>n / m * 160\<close>, a parameter; \<open>Math.round\<close> rounds halves up.\<close>

definition math_round :: "rat \<Rightarrow> int" where
  "math_round x = \<lfloor>x + 1 / 2\<rfloor>"

definition bar_heights :: "(nat \<Rightarrow> nat \<Rightarrow> rat) \<Rightarrow> nat \<Rightarrow> daily_entry \<Rightarrow> int \<times> int" where
  "bar_heights scaled m d =
     (let input = math_round (scaled (deInput d) m); output = math_round (scaled (deOutput d) m)
      in (max input (if deInput d + deOutput d > 0 then 1 else 0), max output (if deOutput d > 0 then 1 else 0)))"

definition chart_bars :: "(nat \<Rightarrow> nat \<Rightarrow> rat) \<Rightarrow> daily_entry list \<Rightarrow> (int \<times> int) list" where
  "chart_bars scaled ds = map (bar_heights scaled (max_tokens ds)) ds"

text \<open>The days below the chart: the first, the middle and the last.\<close>

definition chart_days :: "daily_entry list \<Rightarrow> string list" where
  "chart_days ds =
     [if ds = [] then [] else deDay (hd ds)]
     @ (if length ds > 2 then [deDay (ds ! (length ds div 2))] else [])
     @ [if length ds > 1 then deDay (last ds) else []]"

lemma tokens_below_max: "d \<in> set ds \<Longrightarrow> deInput d + deOutput d \<le> max_tokens ds"
  by (induction ds) (auto simp: max_tokens_def max_def)

lemma max_tokens_pos: "0 < max_tokens ds"
  by (induction ds) (auto simp: max_tokens_def max_def)

lemma math_round_le: "of_int (math_round x) \<le> x + 1 / 2"
  unfolding math_round_def by (rule of_int_floor_le)

text \<open>The bars of a day overshoot the chart by at most one pixel, whatever the rounding of the doubles, as long as
  their error is below a thousandth of a pixel.\<close>

theorem bars_fit_the_chart:
  assumes scaled: "\<And>n m. 0 < m \<Longrightarrow> \<bar>scaled n m - 160 * of_nat n / of_nat m\<bar> \<le> 1 / 1000" and d: "d \<in> set ds"
  shows "case bar_heights scaled (max_tokens ds) d of (i, out) \<Rightarrow> 0 \<le> i \<and> 0 \<le> out \<and> i + out \<le> int CHART_HEIGHT + 1"
proof -
  let ?m = "max_tokens ds"
  let ?x = "scaled (deInput d) ?m" and ?y = "scaled (deOutput d) ?m"
  have m: "0 < ?m" by (rule max_tokens_pos)
  have part: "160 * (of_nat n :: rat) / of_nat ?m \<le> 160" if "n \<le> ?m" for n
    using that m by (simp add: field_simps)
  have sum: "160 * (of_nat (deInput d) :: rat) / of_nat ?m + 160 * of_nat (deOutput d) / of_nat ?m \<le> 160"
    using part [OF tokens_below_max [OF d]] by (simp add: add_divide_distrib distrib_left)
  have nonneg: "0 \<le> 160 * (of_nat n :: rat) / of_nat ?m" for n by simp
  have x: "?x \<le> 160 * of_nat (deInput d) / of_nat ?m + 1 / 1000" and y: "?y \<le> 160 * of_nat (deOutput d) / of_nat ?m + 1 / 1000"
    using scaled [OF m, of "deInput d"] scaled [OF m, of "deOutput d"] by linarith+
  have "of_int (math_round ?x + math_round ?y) \<le> (161 + 1 / 2 :: rat)"
    using math_round_le [of ?x] math_round_le [of ?y] x y sum by simp
  then have both: "math_round ?x + math_round ?y \<le> 161" by linarith
  have "of_int (math_round ?x) \<le> (160 + 3 / 4 :: rat)" "of_int (math_round ?y) \<le> (160 + 3 / 4 :: rat)"
    using math_round_le [of ?x] math_round_le [of ?y] x y sum nonneg [of "deInput d"] nonneg [of "deOutput d"] by linarith+
  then have "math_round ?x \<le> 160" "math_round ?y \<le> 160" by linarith+
  with both show ?thesis by (auto simp: bar_heights_def CHART_HEIGHT_def Let_def)
qed

theorem a_day_can_overshoot:
  "bar_heights (\<lambda>n m. 160 * of_nat n / of_nat m) (max_tokens [\<lparr>deDay = [], deInput = 1, deOutput = 319, deSessions = 1\<rparr>])
     \<lparr>deDay = [], deInput = 1, deOutput = 319, deSessions = 1\<rparr> = (1, 160)"
  by (simp add: bar_heights_def max_tokens_def math_round_def Let_def)

section \<open>The page\<close>

record 'e analytics_data =
  adInput :: nat
  adOutput :: nat
  adSessions :: nat
  adCalls :: "nat option"
  adDaily :: "daily_entry list"
  adRest :: 'e

definition api_calls :: "'e analytics_data \<Rightarrow> nat" where
  "api_calls d = (case adCalls d of Some n \<Rightarrow> n | None \<Rightarrow> sum_list (map deSessions (adDaily d)))"

definition stat_values :: "nat \<Rightarrow> 'e analytics_data \<Rightarrow> string list" where
  "stat_values days d =
     [format_tokens (adInput d + adOutput d), format_tokens (adInput d), format_tokens (adOutput d),
      show_nat (adSessions d) @ '' (~'' @ to_fixed 1 (double_div (adSessions d) days), show_nat (api_calls d)]"

definition PERIOD_DAYS :: "nat list" where
  "PERIOD_DAYS = [7, 30, 90]"

text \<open>\<open>anLoads\<close> are the loads under way, each for the days it was asked for; nothing cancels one. \<open>anAsked\<close> are the days
  asked for so far.\<close>

record 'e analytics =
  anDays :: nat
  anData :: "'e analytics_data option"
  anLoading :: bool
  anError :: "string option"
  anShow :: "bool option"
  anLoads :: "nat list"
  anAsked :: "nat list"

definition analytics_start :: "'e analytics" where
  "analytics_start =
     \<lparr>anDays = 30, anData = None, anLoading = True, anError = None, anShow = None, anLoads = [], anAsked = []\<rparr>"

definition load_analytics :: "'e analytics \<Rightarrow> 'e analytics" where
  "load_analytics s =
     (if anShow s = Some True
      then s\<lparr>anLoading := True, anError := None, anLoads := anLoads s @ [anDays s], anAsked := anAsked s @ [anDays s]\<rparr>
      else s)"

text \<open>\<open>dashboard.show_token_analytics\<close> of the configuration, or a failed read of it.\<close>

definition config_read :: "bool option \<Rightarrow> 'e analytics \<Rightarrow> 'e analytics" where
  "config_read r s = load_analytics (s\<lparr>anShow := Some (r = Some True)\<rparr>)"

definition analytics_loaded :: "nat \<Rightarrow> string + 'e analytics_data \<Rightarrow> 'e analytics \<Rightarrow> 'e analytics" where
  "analytics_loaded i r s =
     (case r of Inr d \<Rightarrow> s\<lparr>anData := Some d\<rparr> | Inl e \<Rightarrow> s\<lparr>anError := Some e\<rparr>)
       \<lparr>anLoading := False, anLoads := take_out i (anLoads s)\<rparr>"

definition choose_days :: "nat \<Rightarrow> 'e analytics \<Rightarrow> 'e analytics" where
  "choose_days n s = (if n = anDays s then s else load_analytics (s\<lparr>anDays := n\<rparr>))"

datatype 'e analytics_event =
  AnConfig "bool option" | AnDays nat | AnRefresh | AnLoaded nat "string + 'e analytics_data"

primrec analytics_step :: "'e analytics \<Rightarrow> 'e analytics_event \<Rightarrow> 'e analytics" where
  "analytics_step s (AnConfig r) = config_read r s"
| "analytics_step s (AnDays n) = choose_days n s"
| "analytics_step s AnRefresh = load_analytics s"
| "analytics_step s (AnLoaded i r) = analytics_loaded i r s"

primrec analytics_enabled :: "'e analytics \<Rightarrow> 'e analytics_event \<Rightarrow> bool" where
  "analytics_enabled s (AnConfig r) = (anShow s = None)"
| "analytics_enabled s (AnDays n) = (n \<in> set PERIOD_DAYS \<and> anShow s \<noteq> Some False)"
| "analytics_enabled s AnRefresh = (\<not> anLoading s \<and> anShow s \<noteq> Some False)"
| "analytics_enabled s (AnLoaded i r) = (i < length (anLoads s))"

definition analytics_inv :: "'e analytics \<Rightarrow> bool" where
  "analytics_inv s \<longleftrightarrow>
     (anAsked s \<noteq> [] \<longrightarrow> anShow s = Some True) \<and> anDays s \<in> set PERIOD_DAYS \<and> set (anAsked s) \<subseteq> set PERIOD_DAYS
     \<and> (anShow s = Some True \<longrightarrow> anAsked s \<noteq> [] \<and> last (anAsked s) = anDays s)"

lemma load_analytics_inv:
  "anDays s \<in> set PERIOD_DAYS \<Longrightarrow> set (anAsked s) \<subseteq> set PERIOD_DAYS \<Longrightarrow> (anAsked s \<noteq> [] \<Longrightarrow> anShow s = Some True) \<Longrightarrow>
   analytics_inv (load_analytics s)"
  by (auto simp: load_analytics_def analytics_inv_def)

lemma analytics_step_inv: "analytics_inv s \<Longrightarrow> analytics_enabled s e \<Longrightarrow> analytics_inv (analytics_step s e)"
proof (cases e)
  case (AnConfig r)
  assume "analytics_inv s" "analytics_enabled s e"
  then show ?thesis unfolding AnConfig analytics_step.simps config_read_def
    by (intro load_analytics_inv) (auto simp: analytics_inv_def)
next
  case (AnDays n)
  assume "analytics_inv s" "analytics_enabled s e"
  then show ?thesis
  proof (cases "n = anDays s")
    case False
    then show ?thesis unfolding AnDays analytics_step.simps choose_days_def if_not_P [OF False]
      using \<open>analytics_inv s\<close> \<open>analytics_enabled s e\<close> by (intro load_analytics_inv) (auto simp: AnDays analytics_inv_def)
  qed (simp add: AnDays choose_days_def)
next
  case AnRefresh
  assume "analytics_inv s"
  then show ?thesis unfolding AnRefresh analytics_step.simps by (intro load_analytics_inv) (auto simp: analytics_inv_def)
next
  case (AnLoaded i r)
  assume "analytics_inv s"
  then show ?thesis by (simp add: AnLoaded analytics_inv_def analytics_loaded_def split: sum.split)
qed

interpretation analytics: machine "analytics_start :: 'e analytics" analytics_step analytics_enabled analytics_inv
proof
  show "analytics_inv (analytics_start :: 'e analytics)" by (simp add: analytics_inv_def analytics_start_def PERIOD_DAYS_def)
qed (rule analytics_step_inv)

text \<open>Analytics are asked for only once the configuration allows them, and then the last ones asked for are those
  of the chosen period.\<close>

theorem hidden_analytics_are_not_fetched:
  fixes s :: "'e analytics"
  assumes "legal_run analytics_enabled analytics_step analytics_start es" "s = foldl analytics_step analytics_start es"
  shows "anShow s \<noteq> Some True \<Longrightarrow> anAsked s = []" and "anShow s = Some True \<Longrightarrow> last (anAsked s) = anDays s"
  using analytics.run_inv [OF assms(1)] assms(2) by (auto simp: analytics_inv_def)

text \<open>The answer for a period that was left replaces that of the chosen one.\<close>

theorem left_period_wins:
  "let d = \<lambda>n. \<lparr>adInput = n, adOutput = 0, adSessions = n, adCalls = None, adDaily = [], adRest = ()\<rparr>;
       es = [AnConfig (Some True), AnDays 7, AnLoaded 1 (Inr (d 7)), AnLoaded 0 (Inr (d 30))]
   in legal_run analytics_enabled analytics_step analytics_start es
     \<and> anDays (foldl analytics_step analytics_start es) = 7
     \<and> map_option adSessions (anData (foldl analytics_step analytics_start es)) = Some 30"
  by code_simp

end
