(* ===== verification/AdminPages.thy ===== *)
theory AdminPages
  imports JsValue
begin

text \<open>
  Three small pages of the administration: the requests to pair (\<open>web/src/pages/PairingPage.tsx\<close>), the webhooks
  (\<open>web/src/pages/WebhooksPage.tsx\<close>) with the watch of a restart of the gateway, and the logs
  (\<open>web/src/pages/LogsPage.tsx\<close>). The confirmation dialog of a deletion is a library: its answer is an event.
\<close>

section \<open>Pairing\<close>

record pairing_user =
  puPlatform :: string
  puUserId :: string
  puUserName :: "string option"
  puCode :: "string option"

definition get_user_key :: "pairing_user \<Rightarrow> string" where
  "get_user_key u = puPlatform u @ CHR '':'' # puUserId u"

definition split_user_key :: "string \<Rightarrow> string \<times> string" where
  "split_user_key key =
     (case index_of (CHR '':'') key of None \<Rightarrow> ([], key) | Some i \<Rightarrow> (take i key, drop (i + 1) key))"

definition get_user_label :: "pairing_user \<Rightarrow> string" where
  "get_user_label u = (case puUserName u of None \<Rightarrow> puUserId u | Some n \<Rightarrow> if n = [] then puUserId u else n)"

text \<open>The requests of the page: approvals by platform and code, the clearing of what is pending, and revocations by
  platform and user. \<open>paLoads\<close> are the reads under way, \<open>paAsked\<close> the requests under way with the key of an approval.\<close>

datatype pairing_request = Approve string string string | ClearPending | Revoke string string

record pairing_page =
  paPending :: "pairing_user list"
  paApproved :: "pairing_user list"
  paLoading :: bool
  paApproving :: "string option"
  paClearing :: bool
  paRevoking :: "string option"
  paLoads :: nat
  paAsked :: "pairing_request list"
  paSent :: "pairing_request list"

definition pairing_start :: pairing_page where
  "pairing_start =
     \<lparr>paPending = [], paApproved = [], paLoading = True, paApproving = None, paClearing = False, paRevoking = None,
      paLoads = 1, paAsked = [], paSent = []\<rparr>"

definition pairing_ask :: "pairing_request \<Rightarrow> pairing_page \<Rightarrow> pairing_page" where
  "pairing_ask r s = s\<lparr>paAsked := paAsked s @ [r], paSent := paSent s @ [r]\<rparr>"

definition handle_approve :: "pairing_user \<Rightarrow> pairing_page \<Rightarrow> pairing_page" where
  "handle_approve u s =
     (case puCode u of
        None \<Rightarrow> s
      | Some c \<Rightarrow>
          if c = [] then s
          else pairing_ask (Approve (get_user_key u) (puPlatform u) c) (s\<lparr>paApproving := Some (get_user_key u)\<rparr>))"

definition clear_pending :: "bool \<Rightarrow> pairing_page \<Rightarrow> pairing_page" where
  "clear_pending confirmed s = (if confirmed then pairing_ask ClearPending (s\<lparr>paClearing := True\<rparr>) else s)"

definition revoke_confirmed :: "pairing_page \<Rightarrow> pairing_page" where
  "revoke_confirmed s =
     (case paRevoking s of
        None \<Rightarrow> s
      | Some key \<Rightarrow> (let (p, u) = split_user_key key in pairing_ask (Revoke p u) (s\<lparr>paRevoking := None\<rparr>)))"

definition pairing_answered :: "nat \<Rightarrow> bool \<Rightarrow> pairing_page \<Rightarrow> pairing_page" where
  "pairing_answered i ok s =
     (let s1 = s\<lparr>paAsked := take_out i (paAsked s), paLoads := (if ok then paLoads s + 1 else paLoads s)\<rparr>
      in case paAsked s ! i of
           Approve k p c \<Rightarrow> s1\<lparr>paApproving := None\<rparr>
         | ClearPending \<Rightarrow> s1\<lparr>paClearing := False\<rparr>
         | Revoke p u \<Rightarrow> s1)"

definition pairing_loaded :: "(pairing_user list \<times> pairing_user list) option \<Rightarrow> pairing_page \<Rightarrow> pairing_page" where
  "pairing_loaded r s =
     (case r of None \<Rightarrow> s | Some (ps, as) \<Rightarrow> s\<lparr>paPending := ps, paApproved := as\<rparr>)\<lparr>paLoading := False, paLoads := paLoads s - 1\<rparr>"

datatype pairing_event =
    PaApprove pairing_user | PaClear bool | PaRevoke pairing_user | PaCancel | PaConfirm | PaAnswered nat bool
  | PaLoaded "(pairing_user list \<times> pairing_user list) option"

primrec pairing_step :: "pairing_page \<Rightarrow> pairing_event \<Rightarrow> pairing_page" where
  "pairing_step s (PaApprove u) = handle_approve u s"
| "pairing_step s (PaClear b) = clear_pending b s"
| "pairing_step s (PaRevoke u) = s\<lparr>paRevoking := Some (get_user_key u)\<rparr>"
| "pairing_step s PaCancel = s\<lparr>paRevoking := None\<rparr>"
| "pairing_step s PaConfirm = revoke_confirmed s"
| "pairing_step s (PaAnswered i ok) = pairing_answered i ok s"
| "pairing_step s (PaLoaded r) = pairing_loaded r s"

primrec pairing_enabled :: "pairing_page \<Rightarrow> pairing_event \<Rightarrow> bool" where
  "pairing_enabled s (PaApprove u) =
     (\<not> paLoading s \<and> u \<in> set (paPending s) \<and> paApproving s \<noteq> Some (get_user_key u) \<and> truthy_str (puCode u))"
| "pairing_enabled s (PaClear b) = (\<not> paClearing s)"
| "pairing_enabled s (PaRevoke u) = (\<not> paLoading s \<and> u \<in> set (paApproved s))"
| "pairing_enabled s PaCancel = (paRevoking s \<noteq> None)"
| "pairing_enabled s PaConfirm = (paRevoking s \<noteq> None)"
| "pairing_enabled s (PaAnswered i ok) = (i < length (paAsked s))"
| "pairing_enabled s (PaLoaded r) = (paLoads s > 0)"

text \<open>The first colon of a key ends the platform.\<close>

lemma split_user_key_back: "CHR '':'' \<notin> set (puPlatform u) \<Longrightarrow> split_user_key (get_user_key u) = (puPlatform u, puUserId u)"
  by (simp add: split_user_key_def get_user_key_def index_of_before)

definition plain_platforms :: "pairing_page \<Rightarrow> pairing_event \<Rightarrow> bool" where
  "plain_platforms s e \<longleftrightarrow>
     pairing_enabled s e
     \<and> (case e of PaLoaded (Some (ps, as)) \<Rightarrow> list_all (\<lambda>u. CHR '':'' \<notin> set (puPlatform u)) as | _ \<Rightarrow> True)"

text \<open>The user a revocation is about was among the approved ones when the user pressed its button.\<close>

definition asks_to_revoke :: "pairing_page \<Rightarrow> pairing_event \<Rightarrow> string \<times> string \<Rightarrow> bool" where
  "asks_to_revoke s e x \<longleftrightarrow> (\<exists>u. e = PaRevoke u \<and> u \<in> set (paApproved s) \<and> x = (puPlatform u, puUserId u))"

definition about_to_revoke :: "pairing_page \<Rightarrow> string \<times> string \<Rightarrow> bool" where
  "about_to_revoke s x \<longleftrightarrow>
     (case x of (p, u) \<Rightarrow> Revoke p u \<in> set (paSent s)) \<or> (\<exists>key. paRevoking s = Some key \<and> split_user_key key = x)"

definition pairing_inv :: "pairing_page \<Rightarrow> bool" where
  "pairing_inv s \<longleftrightarrow> list_all (\<lambda>u. CHR '':'' \<notin> set (puPlatform u)) (paApproved s)"

lemma pairing_step_inv: "pairing_inv s \<Longrightarrow> plain_platforms s e \<Longrightarrow> pairing_inv (pairing_step s e)"
  by (cases e) (auto simp: pairing_inv_def plain_platforms_def handle_approve_def clear_pending_def revoke_confirmed_def
      pairing_ask_def pairing_answered_def pairing_loaded_def Let_def split: option.split pairing_request.split prod.split)

interpretation pairing: tracing pairing_start pairing_step plain_platforms pairing_inv about_to_revoke asks_to_revoke
proof
  show "pairing_inv pairing_start" by (simp add: pairing_inv_def pairing_start_def)
  show "pairing_inv (pairing_step s e)" if "pairing_inv s" "plain_platforms s e" for s e using that by (rule pairing_step_inv)
  show "\<not> about_to_revoke pairing_start x" for x by (simp add: about_to_revoke_def pairing_start_def split: prod.split)
  show "about_to_revoke s x \<or> asks_to_revoke s e x"
    if "pairing_inv s" "plain_platforms s e" "about_to_revoke (pairing_step s e) x" for s e x
  proof (cases e)
    case (PaRevoke u)
    then have "u \<in> set (paApproved s)" using that(2) by (simp add: plain_platforms_def)
    moreover from this have "split_user_key (get_user_key u) = (puPlatform u, puUserId u)"
      using that(1) by (intro split_user_key_back) (auto simp: pairing_inv_def list_all_iff)
    ultimately show ?thesis using that(3) by (auto simp: PaRevoke about_to_revoke_def asks_to_revoke_def)
  next
    case PaConfirm
    then show ?thesis using that(3)
      by (cases "paRevoking s") (auto simp: about_to_revoke_def revoke_confirmed_def pairing_ask_def split: prod.splits)
  next
    case (PaAnswered i ok)
    then show ?thesis using that(3)
      by (auto simp: about_to_revoke_def pairing_answered_def Let_def split: prod.splits pairing_request.splits)
  next
    case (PaLoaded r)
    then show ?thesis using that(3) by (auto simp: about_to_revoke_def pairing_loaded_def split: option.splits prod.splits)
  next
    case (PaApprove u)
    then show ?thesis using that(3)
      by (auto simp: about_to_revoke_def handle_approve_def pairing_ask_def split: option.splits prod.splits if_splits)
  next
    case (PaClear b)
    then show ?thesis using that(3) by (auto simp: about_to_revoke_def clear_pending_def pairing_ask_def split: prod.splits if_splits)
  next
    case PaCancel
    then show ?thesis using that(3) by (auto simp: about_to_revoke_def split: prod.splits)
  qed
qed

text \<open>Only chosen users are revoked: as long as no platform has a colon in its name, every revocation sent
  names the platform and the user of an approved user whose button was pressed, with the dialog confirmed
  after it.\<close>

theorem only_chosen_users_are_revoked:
  assumes "legal_run plain_platforms pairing_step pairing_start es" "Revoke p u \<in> set (paSent (foldl pairing_step pairing_start es))"
  shows "\<exists>us v vs. es = us @ PaRevoke v # vs \<and> v \<in> set (paApproved (foldl pairing_step pairing_start us))
    \<and> puPlatform v = p \<and> puUserId v = u"
proof -
  have "about_to_revoke (foldl pairing_step pairing_start es) (p, u)" using assms(2) by (simp add: about_to_revoke_def)
  from pairing.traced [OF assms(1) this] show ?thesis by (auto simp: asks_to_revoke_def)
qed

definition sample_user :: pairing_user where
  "sample_user = \<lparr>puPlatform = ''matrix'', puUserId = ''@a:b.org'', puUserName = None, puCode = None\<rparr>"

theorem only_chosen_users_are_revoked_witness:
  "\<exists>us v vs. [PaLoaded (Some ([], [sample_user])), PaRevoke sample_user, PaConfirm] = us @ PaRevoke v # vs \<and> puUserId v = ''@a:b.org''"
proof -
  have "legal_run plain_platforms pairing_step pairing_start [PaLoaded (Some ([], [sample_user])), PaRevoke sample_user, PaConfirm]"
    by code_simp
  moreover have "Revoke ''matrix'' ''@a:b.org'' \<in> set (paSent (foldl pairing_step pairing_start
      [PaLoaded (Some ([], [sample_user])), PaRevoke sample_user, PaConfirm]))"
    by code_simp
  ultimately show ?thesis using only_chosen_users_are_revoked by blast
qed

theorem coloned_platform_is_cut:
  "split_user_key (get_user_key \<lparr>puPlatform = ''irc:libera'', puUserId = ''bob'', puUserName = None, puCode = None\<rparr>) = (''irc'', ''libera:bob'')"
  by code_simp

section \<open>Webhooks\<close>

record webhook_form =
  wfName :: string
  wfDescription :: string
  wfEvents :: string
  wfDeliver :: string
  wfDeliverOnly :: bool
  wfPrompt :: string

definition empty_webhook :: webhook_form where
  "empty_webhook =
     \<lparr>wfName = [], wfDescription = [], wfEvents = [], wfDeliver = ''log'', wfDeliverOnly = False, wfPrompt = []\<rparr>"

record webhook_create =
  wcName :: string
  wcDescription :: "string option"
  wcEvents :: "string list option"
  wcDeliver :: string
  wcDeliverOnly :: bool
  wcPrompt :: "string option"

definition some_text :: "string \<Rightarrow> string option" where
  "some_text x = (if trim x = [] then None else Some (trim x))"

text \<open>The subscription a form asks for, unless it has no name.\<close>

definition create_webhook :: "webhook_form \<Rightarrow> webhook_create option" where
  "create_webhook f =
     (if trim (wfName f) = [] then None
      else (let evs = filter (\<lambda>e. e \<noteq> []) (map trim (split_on (CHR '','') (wfEvents f)))
            in Some \<lparr>wcName = trim (wfName f), wcDescription = some_text (wfDescription f),
                     wcEvents = (if evs = [] then None else Some evs), wcDeliver = wfDeliver f,
                     wcDeliverOnly = wfDeliverOnly f, wcPrompt = some_text (wfPrompt f)\<rparr>))"

datatype restart_answer = RestartRuns | RestartExit "int option" | RestartLost

datatype watch_phase = WatchTimer | WatchAsked

text \<open>A watch has polls left and waits for its timer or its answer; \<open>whStarts\<close> are the restarts and enablings under
  way.\<close>

datatype webhook_start = RestartGateway | EnableWebhooks

record webhooks =
  whEnabled :: bool
  whLoading :: bool
  whEnabling :: bool
  whRestartNeeded :: bool
  whMessage :: "string option"
  whError :: "string option"
  whRestarting :: bool
  whWatches :: "(nat \<times> watch_phase) list"
  whStarts :: "webhook_start list"

definition webhooks_start :: webhooks where
  "webhooks_start =
     \<lparr>whEnabled = False, whLoading = True, whEnabling = False, whRestartNeeded = False, whMessage = None, whError = None,
      whRestarting = False, whWatches = [], whStarts = []\<rparr>"

definition webhooks_restart_outcome :: "webhooks \<Rightarrow> webhooks" where
  "webhooks_restart_outcome s = s\<lparr>whWatches := whWatches s @ [(20, WatchTimer)]\<rparr>"

definition watch_ended :: "nat \<Rightarrow> webhooks \<Rightarrow> webhooks" where
  "watch_ended i s = s\<lparr>whWatches := take_out i (whWatches s), whMessage := None\<rparr>"

text \<open>A watch that has no poll left after this one gives up and takes the message away.\<close>

definition watch_again :: "nat \<Rightarrow> webhooks \<Rightarrow> webhooks" where
  "watch_again i s =
     (let n = fst (whWatches s ! i)
      in if n \<le> 1 then watch_ended i s else s\<lparr>whWatches := (whWatches s)[i := (n - 1, WatchTimer)]\<rparr>)"

definition exit_failed :: "int option \<Rightarrow> string" where
  "exit_failed c = ''Gateway restart failed with exit '' @ (case c of None \<Rightarrow> [] | Some n \<Rightarrow> show_int n) @ ''.''"

definition watch_answered :: "nat \<Rightarrow> restart_answer \<Rightarrow> webhooks \<Rightarrow> webhooks" where
  "watch_answered i a s =
     (case a of
        RestartRuns \<Rightarrow> watch_again i s
      | RestartLost \<Rightarrow> watch_again i s
      | RestartExit c \<Rightarrow>
          (if c \<noteq> Some 0 \<and> c \<noteq> None
           then (watch_ended i s)\<lparr>whRestartNeeded := True, whError := Some (exit_failed c)\<rparr>
           else (watch_ended i s)\<lparr>whRestartNeeded := False, whError := None\<rparr>))"

definition handle_restart :: "webhooks \<Rightarrow> webhooks" where
  "handle_restart s = s\<lparr>whRestarting := True, whStarts := whStarts s @ [RestartGateway]\<rparr>"

definition handle_enable :: "webhooks \<Rightarrow> webhooks" where
  "handle_enable s =
     s\<lparr>whEnabling := True, whRestartNeeded := False, whError := None, whStarts := whStarts s @ [EnableWebhooks]\<rparr>"

text \<open>The answer of a restart, which always starts one, or of an enabling, after its reload, which may say why it has
  started none. The messages are given without their ellipsis.\<close>

datatype start_answer = StartFailed string | Started | NotStarted "string option"

definition start_detail :: "string option \<Rightarrow> string" where
  "start_detail e = (case e of None \<Rightarrow> ''.'' | Some m \<Rightarrow> if m = [] then ''.'' else '': '' @ m)"

definition webhook_started :: "nat \<Rightarrow> start_answer \<Rightarrow> webhooks \<Rightarrow> webhooks" where
  "webhook_started i r s =
     (let s1 = s\<lparr>whStarts := take_out i (whStarts s)\<rparr>
      in case whStarts s ! i of
           RestartGateway \<Rightarrow>
             (case r of
                StartFailed e \<Rightarrow> s1\<lparr>whRestartNeeded := True, whError := Some e\<rparr>
              | _ \<Rightarrow>
                  webhooks_restart_outcome
                    (s1\<lparr>whRestartNeeded := False, whError := None, whMessage := Some ''Gateway restarting''\<rparr>))
               \<lparr>whRestarting := False\<rparr>
         | EnableWebhooks \<Rightarrow>
             (case r of
                Started \<Rightarrow> webhooks_restart_outcome (s1\<lparr>whMessage := Some ''Webhooks enabled; gateway restarting''\<rparr>)
              | NotStarted e \<Rightarrow>
                  s1\<lparr>whMessage := None, whRestartNeeded := True,
                    whError := Some (''Gateway restart failed'' @ start_detail e)\<rparr>
              | StartFailed e \<Rightarrow> s1)\<lparr>whEnabling := False\<rparr>)"

datatype webhooks_event =
    WhLoaded "bool option" | WhRestart | WhEnable | WhStarted nat start_answer | WhTimer nat | WhPolled nat restart_answer

primrec webhooks_step :: "webhooks \<Rightarrow> webhooks_event \<Rightarrow> webhooks" where
  "webhooks_step s (WhLoaded r) = (case r of None \<Rightarrow> s | Some b \<Rightarrow> s\<lparr>whEnabled := b\<rparr>)\<lparr>whLoading := False\<rparr>"
| "webhooks_step s WhRestart = handle_restart s"
| "webhooks_step s WhEnable = handle_enable s"
| "webhooks_step s (WhStarted i r) = webhook_started i r s"
| "webhooks_step s (WhTimer i) = s\<lparr>whWatches := (whWatches s)[i := (fst (whWatches s ! i), WatchAsked)]\<rparr>"
| "webhooks_step s (WhPolled i a) = watch_answered i a s"

primrec webhooks_enabled :: "webhooks \<Rightarrow> webhooks_event \<Rightarrow> bool" where
  "webhooks_enabled s (WhLoaded r) = True"
| "webhooks_enabled s WhRestart = (whRestartNeeded s \<and> \<not> whRestarting s)"
| "webhooks_enabled s WhEnable = (\<not> whEnabled s \<and> \<not> whEnabling s)"
| "webhooks_enabled s (WhStarted i r) = (i < length (whStarts s))"
| "webhooks_enabled s (WhTimer i) = (i < length (whWatches s) \<and> snd (whWatches s ! i) = WatchTimer)"
| "webhooks_enabled s (WhPolled i a) = (i < length (whWatches s) \<and> snd (whWatches s ! i) = WatchAsked)"

definition webhooks_inv :: "webhooks \<Rightarrow> bool" where
  "webhooks_inv s \<longleftrightarrow> (whMessage s \<noteq> None \<longrightarrow> whWatches s \<noteq> [])"

lemma webhooks_step_inv: "webhooks_inv s \<Longrightarrow> webhooks_enabled s e \<Longrightarrow> webhooks_inv (webhooks_step s e)"
proof (cases e)
  case (WhStarted i r)
  assume "webhooks_inv s"
  then show ?thesis
    by (auto simp: WhStarted webhooks_inv_def webhook_started_def webhooks_restart_outcome_def Let_def
        split: webhook_start.split start_answer.split)
next
  case (WhPolled i a)
  assume "webhooks_inv s"
  then show ?thesis
    by (auto simp: WhPolled webhooks_inv_def watch_answered_def watch_ended_def watch_again_def Let_def split: restart_answer.split)
qed (auto simp: webhooks_inv_def handle_restart_def handle_enable_def split: option.split)

definition watch_polls :: "webhooks \<Rightarrow> webhooks_event set" where
  "watch_polls s = {e. webhooks_enabled s e \<and> ((\<exists>i. e = WhTimer i) \<or> (\<exists>i a. e = WhPolled i a))}"

interpretation webhooks: following webhooks_start webhooks_step webhooks_enabled webhooks_inv "\<lambda>s. whMessage s \<noteq> None" watch_polls
proof
  show "webhooks_inv webhooks_start" by (simp add: webhooks_inv_def webhooks_start_def)
  show "webhooks_inv (webhooks_step s e)" if "webhooks_inv s" "webhooks_enabled s e" for s e using that by (rule webhooks_step_inv)
  show "watch_polls s \<noteq> {}" if "webhooks_inv s" "whMessage s \<noteq> None" for s
  proof -
    have "webhooks_enabled s (WhTimer 0) \<or> webhooks_enabled s (WhPolled 0 RestartLost)"
      using that by (cases "snd (whWatches s ! 0)") (auto simp: webhooks_inv_def)
    then show ?thesis unfolding watch_polls_def by blast
  qed
  show "webhooks_enabled s e" if "e \<in> watch_polls s" for s e using that by (simp add: watch_polls_def)
qed

text \<open>The message of a restart is never left behind: while it shows, a watch is under way whose timer or answer
  comes next.\<close>

lemma restart_message_is_watched:
  "legal_run webhooks_enabled webhooks_step webhooks_start es \<Longrightarrow> whMessage (foldl webhooks_step webhooks_start es) \<noteq> None \<Longrightarrow>
     \<exists>e \<in> watch_polls (foldl webhooks_step webhooks_start es). legal_run webhooks_enabled webhooks_step webhooks_start (es @ [e])"
  by (rule webhooks.never_abandoned)

text \<open>And every watch ends: the polls it has left, counted twice and once more before its timer, go down with each
  of its events.\<close>

fun watch_cost :: "nat \<times> watch_phase \<Rightarrow> nat" where
  "watch_cost (n, WatchTimer) = 2 * n + 1"
| "watch_cost (n, WatchAsked) = 2 * n"

definition watch_work :: "webhooks \<Rightarrow> nat" where
  "watch_work s = sum_list (map watch_cost (whWatches s))"

lemma sum_list_take_out: "i < length xs \<Longrightarrow> sum_list xs = sum_list (take_out i xs) + (xs ! i :: nat)"
  by (subst (1) id_take_nth_drop, assumption) (simp add: take_out_def)

lemma sum_list_put: "i < length xs \<Longrightarrow> sum_list (xs[i := y]) + (xs ! i :: nat) = sum_list xs + y"
  using elem_le_sum_list [of i xs] by (simp add: sum_list_update)

lemma watch_put:
  "i < length (whWatches s) \<Longrightarrow> whWatches t = (whWatches s)[i := w] \<Longrightarrow>
     watch_work t + watch_cost (whWatches s ! i) = watch_work s + watch_cost w"
  using sum_list_put [of i "map watch_cost (whWatches s)" "watch_cost w"] by (simp add: watch_work_def map_update)

lemma watch_taken_out:
  "i < length (whWatches s) \<Longrightarrow> whWatches t = take_out i (whWatches s) \<Longrightarrow> watch_work s = watch_work t + watch_cost (whWatches s ! i)"
  using sum_list_take_out [of i "map watch_cost (whWatches s)"] by (simp add: watch_work_def map_take_out)

definition watches_left :: "webhooks \<Rightarrow> bool" where
  "watches_left s \<longleftrightarrow> list_all (\<lambda>w. 0 < fst w) (whWatches s)"

lemma watches_left_put: "watches_left s \<Longrightarrow> 0 < fst w \<Longrightarrow> whWatches t = (whWatches s)[i := w] \<Longrightarrow> watches_left t"
  by (auto simp: watches_left_def list_all_iff dest: set_update_subset_insert [THEN subsetD])

lemma watches_left_out: "watches_left s \<Longrightarrow> whWatches t = take_out i (whWatches s) \<Longrightarrow> watches_left t"
  by (auto simp: watches_left_def list_all_iff dest: in_take_out)

lemma watch_ended_less:
  assumes "watches_left s" "i < length (whWatches s)" "snd (whWatches s ! i) = WatchAsked" "whWatches t = take_out i (whWatches s)"
  shows "watch_work t < watch_work s \<and> watches_left t"
proof -
  have "0 < fst (whWatches s ! i)" using assms(1,2) by (simp add: watches_left_def list_all_length)
  then have "0 < watch_cost (whWatches s ! i)" using assms(3) by (cases "whWatches s ! i") auto
  then show ?thesis using watch_taken_out [OF assms(2,4)] watches_left_out [OF assms(1,4)] by simp
qed

lemma watch_event_less:
  assumes e: "e \<in> watch_polls s" and left: "watches_left s"
  shows "watch_work (webhooks_step s e) < watch_work s \<and> watches_left (webhooks_step s e)"
proof -
  consider i where "e = WhTimer i" "webhooks_enabled s e" | i a where "e = WhPolled i a" "webhooks_enabled s e"
    using e by (auto simp: watch_polls_def)
  then show ?thesis
  proof cases
    case 1
    then have i: "i < length (whWatches s)" "snd (whWatches s ! i) = WatchTimer" by simp_all
    let ?t = "webhooks_step s e" and ?w = "(fst (whWatches s ! i), WatchAsked)"
    have t: "whWatches ?t = (whWatches s)[i := ?w]" using 1 by simp
    have "0 < fst ?w" using left i(1) by (simp add: watches_left_def list_all_length)
    moreover have "watch_cost (whWatches s ! i) = watch_cost ?w + 1" using i(2) by (cases "whWatches s ! i") simp
    ultimately show ?thesis using watch_put [OF i(1) t] watches_left_put [OF left _ t] by simp
  next
    case 2
    then have i: "i < length (whWatches s)" "snd (whWatches s ! i) = WatchAsked" by simp_all
    let ?t = "webhooks_step s e"
    show ?thesis
    proof (cases "whWatches ?t = take_out i (whWatches s)")
      case False
      then have n: "1 < fst (whWatches s ! i)" and t: "whWatches ?t = (whWatches s)[i := (fst (whWatches s ! i) - 1, WatchTimer)]"
        using 2(1) by (auto simp: watch_answered_def watch_again_def watch_ended_def Let_def split: restart_answer.splits if_splits)
      then have "watch_cost (fst (whWatches s ! i) - 1, WatchTimer) < watch_cost (whWatches s ! i)"
        using i(2) by (cases "whWatches s ! i") auto
      then show ?thesis using n watch_put [OF i(1) t] watches_left_put [OF left _ t] by simp
    qed (rule watch_ended_less [OF left i])
  qed
qed

definition starts_watch :: "webhooks_event \<Rightarrow> bool" where
  "starts_watch e \<longleftrightarrow> (\<exists>i. e = WhStarted i Started \<or> (\<exists>m. e = WhStarted i (NotStarted m)))"

definition is_watch :: "webhooks_event \<Rightarrow> bool" where
  "is_watch e \<longleftrightarrow> (\<exists>i. e = WhTimer i) \<or> (\<exists>i a. e = WhPolled i a)"

lemma watch_started:
  "watches_left s \<Longrightarrow> \<not> is_watch e \<Longrightarrow>
     watches_left (webhooks_step s e) \<and> watch_work (webhooks_step s e) \<le> watch_work s + (if starts_watch e then 41 else 0)"
  by (cases e) (auto simp: is_watch_def starts_watch_def watches_left_def watch_work_def webhook_started_def webhooks_restart_outcome_def
      handle_restart_def handle_enable_def Let_def split: webhook_start.split start_answer.split option.split)

text \<open>Claim C35. Watching restarts ends: in every run the timers and answers of the watches number at most
  forty-one for each answered start, so a watch ends after at most twenty polls whatever they answer.\<close>

theorem watching_restarts_ends:
  assumes "legal_run webhooks_enabled webhooks_step webhooks_start es"
  shows "length (filter is_watch es) \<le> 41 * length (filter starts_watch es)"
proof -
  have "length (filter is_watch es) + watch_work (foldl webhooks_step webhooks_start es) \<le> 41 * length (filter starts_watch es)
      \<and> watches_left (foldl webhooks_step webhooks_start es)"
    using assms
  proof (induction es rule: rev_induct)
    case Nil
    then show ?case by (simp add: watch_work_def webhooks_start_def watches_left_def)
  next
    case (snoc e es)
    let ?s = "foldl webhooks_step webhooks_start es"
    have IH: "length (filter is_watch es) + watch_work ?s \<le> 41 * length (filter starts_watch es)" "watches_left ?s"
      and e: "webhooks_enabled ?s e" using snoc by (simp_all add: legal_run_append)
    show ?case
    proof (cases "is_watch e")
      case True
      then have "e \<in> watch_polls ?s" "\<not> starts_watch e" using e by (auto simp: watch_polls_def is_watch_def starts_watch_def)
      then show ?thesis using watch_event_less [of e ?s] IH True by simp
    next
      case False
      then show ?thesis using watch_started [of ?s e] IH by (cases "starts_watch e") simp_all
    qed
  qed
  then show ?thesis by simp
qed

definition one_restart :: "webhooks_event list" where
  "one_restart = [WhLoaded (Some False), WhEnable, WhStarted 0 Started, WhTimer 0, WhPolled 0 RestartRuns, WhTimer 0,
     WhPolled 0 (RestartExit (Some 0))]"

theorem watching_restarts_ends_witness: "length (filter is_watch one_restart) = 4 \<and> length (filter is_watch one_restart) \<le> 41 * 1"
proof -
  have "legal_run webhooks_enabled webhooks_step webhooks_start one_restart" by code_simp
  from watching_restarts_ends [OF this] show ?thesis by (simp add: one_restart_def is_watch_def starts_watch_def)
qed

text \<open>An enabling that fails takes the request to restart away; a watch that gives up says nothing; and the end of
  one watch takes the message of another away.\<close>

theorem failed_enabling_hides_the_restart:
  assumes "whRestartNeeded s"
  shows "whRestartNeeded (webhook_started (length (whStarts s)) (StartFailed e) (handle_enable s)) = False"
  by (simp add: webhook_started_def handle_enable_def Let_def)

lemma silent_watch:
  "whWatches s = [(1, WatchAsked)] \<Longrightarrow> whMessage (watch_answered 0 RestartRuns s) = None \<and> whError (watch_answered 0 RestartRuns s) = whError s"
  by (simp add: watch_answered_def watch_again_def watch_ended_def Let_def)

section \<open>Logs\<close>

definition log_files :: "string list" where
  "log_files = [''agent'', ''errors'', ''gateway'']"

definition log_levels :: "string list" where
  "log_levels = [''ALL'', ''DEBUG'', ''INFO'', ''WARNING'', ''ERROR'']"

definition log_components :: "string list" where
  "log_components = [''all'', ''gateway'', ''agent'', ''tools'', ''cli'', ''cron'']"

definition upper_text :: "string \<Rightarrow> string" where
  "upper_text x = concat (map upper_char x)"

definition classify_line :: "string \<Rightarrow> string" where
  "classify_line line =
     (let u = upper_text line
      in if str_includes u ''ERROR'' \<or> str_includes u ''CRITICAL'' \<or> str_includes u ''FATAL'' then ''error''
         else if str_includes u ''WARNING'' \<or> str_includes u ''WARN'' then ''warning''
         else if str_includes u ''DEBUG'' then ''debug'' else ''info'')"

type_synonym log_query = "string \<times> string \<times> string \<times> nat"

record logs_page =
  lgQuery :: log_query
  lgAuto :: bool
  lgLines :: "string list"
  lgLoading :: bool
  lgError :: "string option"
  lgFetches :: "log_query list"

definition fetch_logs :: "logs_page \<Rightarrow> logs_page" where
  "fetch_logs s = s\<lparr>lgLoading := True, lgError := None, lgFetches := lgFetches s @ [lgQuery s]\<rparr>"

definition logs_start :: logs_page where
  "logs_start =
     fetch_logs \<lparr>lgQuery = (''agent'', ''ALL'', ''all'', 100), lgAuto = False, lgLines = [], lgLoading = False, lgError = None, lgFetches = []\<rparr>"

definition logs_fetched :: "nat \<Rightarrow> string + string list \<Rightarrow> logs_page \<Rightarrow> logs_page" where
  "logs_fetched i r s =
     (case r of Inr ls \<Rightarrow> s\<lparr>lgLines := ls\<rparr> | Inl e \<Rightarrow> s\<lparr>lgError := Some e\<rparr>)
       \<lparr>lgLoading := False, lgFetches := take_out i (lgFetches s)\<rparr>"

datatype logs_event = LgChoose log_query | LgRefresh | LgAuto bool | LgTick | LgFetched nat "string + string list"

primrec logs_step :: "logs_page \<Rightarrow> logs_event \<Rightarrow> logs_page" where
  "logs_step s (LgChoose q) = (if q = lgQuery s then s else fetch_logs (s\<lparr>lgQuery := q\<rparr>))"
| "logs_step s LgRefresh = fetch_logs s"
| "logs_step s (LgAuto b) = s\<lparr>lgAuto := b\<rparr>"
| "logs_step s LgTick = fetch_logs s"
| "logs_step s (LgFetched i r) = logs_fetched i r s"

primrec logs_enabled :: "logs_page \<Rightarrow> logs_event \<Rightarrow> bool" where
  "logs_enabled s (LgChoose q) =
     (case q of (f, l, c, n) \<Rightarrow> f \<in> set log_files \<and> l \<in> set log_levels \<and> c \<in> set log_components \<and> n \<in> {50, 100, 200, 500})"
| "logs_enabled s LgRefresh = (\<not> lgLoading s)"
| "logs_enabled s (LgAuto b) = True"
| "logs_enabled s LgTick = lgAuto s"
| "logs_enabled s (LgFetched i r) = (i < length (lgFetches s))"

text \<open>The lines of a log that was left replace those of the chosen one.\<close>

theorem left_log_wins:
  "let es = [LgChoose (''errors'', ''ALL'', ''all'', 100), LgFetched 1 (Inr [''e'']), LgFetched 0 (Inr [''a''])];
       s = foldl logs_step logs_start es
   in legal_run logs_enabled logs_step logs_start es \<and> lgQuery s = (''errors'', ''ALL'', ''all'', 100) \<and> lgLines s = [''a'']"
  by code_simp

theorem counted_errors_look_like_one: "classify_line ''INFO 0 errors'' = ''error''"
  by code_simp

end
