(* ===== verification/CronPage.thy ===== *)
theory CronPage
  imports Schedule CronForm
begin

text \<open>
  The page of the cron jobs, \<open>web/src/pages/CronPage.tsx\<close>: the texts of a listed job, the pickers, the editor that
  joins the schedule picker and the job form, and the page as a state machine; and the gallery of blueprints,
  \<open>web/src/components/AutomationBlueprints.tsx\<close>. Jobs are JSON of unknown shape. Toasts are left out, the
  dash of a label is a hyphen, and the
  confirmation of a deletion is a library that hands back a key it was given.
\<close>

section \<open>A listed job\<close>

definition truncate_text :: "string \<Rightarrow> nat \<Rightarrow> string" where
  "truncate_text v n = (if length v > n then take n v @ ''...'' else v)"

definition get_job_prompt :: "js \<Rightarrow> string" where
  "get_job_prompt job = as_string (js_get job ''prompt'')"

definition get_job_name :: "js \<Rightarrow> string" where
  "get_job_name job = trim (as_string (js_get job ''name''))"

definition job_id :: "js \<Rightarrow> string" where
  "job_id job = as_string (js_get job ''id'')"

definition get_job_title :: "js \<Rightarrow> string" where
  "get_job_title job =
     (let prompt = get_job_prompt job; script = as_string (js_get job ''script'')
      in if get_job_name job \<noteq> [] then get_job_name job
         else if prompt \<noteq> [] then truncate_text prompt 60
         else if script \<noteq> [] then truncate_text script 60
         else or_else_text (job_id job) ''Cron job'')"

definition get_job_state :: "js \<Rightarrow> string" where
  "get_job_state job =
     or_else_text (as_string (js_get job ''state''))
       (if js_get job ''enabled'' = JBool False then ''disabled'' else ''scheduled'')"

definition get_repeat_display :: "js \<Rightarrow> string" where
  "get_repeat_display job =
     (let rep = js_get job ''repeat''; times = js_get rep ''times''
      in if \<not> truthy rep \<or> times = JNull \<or> times = JUndef then ''forever''
         else (case js_get rep ''completed'' of
                 JNum n \<Rightarrow> if n > 0 then show_int n @ ''/'' @ js_string times else js_string times @ '' times''
               | _ \<Rightarrow> js_string times @ '' times''))"

definition get_job_mode :: "js \<Rightarrow> string" where
  "get_job_mode job =
     (if truthy (js_get job ''no_agent'') then ''no_agent''
      else if truthy (js_get job ''script'') then ''script+agent'' else ''agent'')"

definition get_model_display :: "js \<Rightarrow> string" where
  "get_model_display job =
     (let provider = as_string (js_get job ''provider''); model = as_string (js_get job ''model'')
      in if provider \<noteq> [] \<and> model \<noteq> [] then provider @ ''/'' @ model else or_else_text model provider)"

definition get_job_profile :: "js \<Rightarrow> string" where
  "get_job_profile job =
     or_else_text (as_string (js_get job ''profile'')) (or_else_text (as_string (js_get job ''profile_name'')) ''default'')"

definition get_job_key :: "js \<Rightarrow> string" where
  "get_job_key job = get_job_profile job @ CHR '':'' # job_id job"

definition split_job_key :: "string \<Rightarrow> string \<times> string" where
  "split_job_key key =
     (case index_of (CHR '':'') key of
        None \<Rightarrow> (''default'', key)
      | Some i \<Rightarrow> (or_else_text (take i key) ''default'', drop (i + 1) key))"

definition status_tone :: "string \<Rightarrow> string" where
  "status_tone s =
     (case map_of [(''enabled'', ''success''), (''scheduled'', ''success''), (''paused'', ''warning''),
                   (''error'', ''destructive''), (''completed'', ''destructive'')] s of
        None \<Rightarrow> ''secondary'' | Some t \<Rightarrow> t)"

text \<open>The schedule of a job as the describer reads it.\<close>

definition some_string :: "js \<Rightarrow> string option" where
  "some_string v = (case v of JStr s \<Rightarrow> Some s | _ \<Rightarrow> None)"

definition schedule_of_job :: "js \<Rightarrow> schedule_like option" where
  "schedule_of_job job =
     (let sch = js_get job ''schedule''
      in if \<not> truthy sch then None
         else Some \<lparr>slKind = some_string (js_get sch ''kind''), slExpr = some_string (js_get sch ''expr''),
                    slMinutes = (case js_get sch ''minutes'' of JNum n \<Rightarrow> Some n | _ \<Rightarrow> None),
                    slRunAt = some_string (js_get sch ''run_at''), slDisplay = some_string (js_get sch ''display'')\<rparr>)"

definition get_job_schedule_display :: "date_fields \<Rightarrow> js \<Rightarrow> describe_strings \<Rightarrow> string" where
  "get_job_schedule_display date job strings =
     describe_schedule date (schedule_of_job job)
       (Some (or_else_text (as_string (js_get job ''schedule_display''))
         (as_string (js_get (js_get job ''schedule'') ''display'')))) strings"

lemma split_job_key_back:
  "CHR '':'' \<notin> set (get_job_profile job) \<Longrightarrow> split_job_key (get_job_key job) = (get_job_profile job, job_id job)"
  by (simp add: split_job_key_def get_job_key_def index_of_before) (simp add: get_job_profile_def or_else_text_def)

text \<open>A profile with a colon is cut in the key of its jobs.\<close>

theorem coloned_profile_is_cut:
  "split_job_key (get_job_key (JObj [(''id'', JStr ''j1''), (''profile'', JStr ''a:b'')])) = (''a'', ''b:j1'')"
  by code_simp

section \<open>Pickers\<close>

text \<open>The names of a picker: the selected ones that are no longer available, then the available ones.\<close>

definition picker_items :: "(string \<times> string) list \<Rightarrow> string list \<Rightarrow> (string \<times> string) list" where
  "picker_items available selected =
     map (\<lambda>n. (n, [])) (filter (\<lambda>s. s \<notin> set (map fst available)) selected) @ available"

definition toggle_picked :: "string \<Rightarrow> bool \<Rightarrow> string list \<Rightarrow> string list" where
  "toggle_picked name checked selected = (if checked then selected @ [name] else filter (\<lambda>s. s \<noteq> name) selected)"

definition select_options :: "string \<Rightarrow> (string \<times> string) list \<Rightarrow> (string \<times> string) list" where
  "select_options current options =
     options @ (if current \<noteq> [] \<and> current \<notin> set (map fst options) then [(current, current)] else [])"

text \<open>Whatever is selected is listed, so it can be taken away.\<close>

lemma selected_is_listed: "set selected \<subseteq> fst ` set (picker_items available selected)"
  by (auto simp: picker_items_def image_image image_Un)

lemma current_is_offered: "current \<noteq> [] \<Longrightarrow> current \<in> fst ` set (select_options current options)"
  by (auto simp: select_options_def image_Un)

record delivery_target =
  dtId :: string
  dtName :: string
  dtHomeSet :: bool

definition only_local :: "delivery_target list \<Rightarrow> bool" where
  "only_local ts = (filter (\<lambda>t. dtId t \<noteq> ''local'') ts = [])"

definition delivery_options :: "string \<Rightarrow> string \<Rightarrow> string \<Rightarrow> delivery_target list \<Rightarrow> (string \<times> string) list" where
  "delivery_options local_label hint current ts =
     select_options current (map (\<lambda>t.
       let base = (if dtId t = ''local'' then local_label else dtName t)
       in (dtId t, if dtId t \<noteq> ''local'' \<and> \<not> dtHomeSet t then base @ '' - '' @ hint else base)) ts)"

record cron_provider =
  cqSlug :: string
  cqName :: string
  cqModels :: "string list option"
  cqAuthenticated :: "bool option"

definition offered_providers :: "cron_provider list option \<Rightarrow> cron_provider list" where
  "offered_providers opts =
     filter (\<lambda>p. cqAuthenticated p \<noteq> Some False) (case opts of None \<Rightarrow> [] | Some ps \<Rightarrow> ps)"

definition provider_models :: "cron_provider list option \<Rightarrow> string \<Rightarrow> string list" where
  "provider_models opts slug =
     (case find (\<lambda>p. cqSlug p = slug) (offered_providers opts) of None \<Rightarrow> [] | Some p \<Rightarrow> (case cqModels p of None \<Rightarrow> [] | Some ms \<Rightarrow> ms))"

section \<open>The editor\<close>

record cron_editor = cron_form +
  edSchedule :: schedule_state

definition empty_cron_job_form :: cron_editor where
  "empty_cron_job_form =
     \<lparr>formName = [], formPrompt = [], formSchedule = [], formDeliver = ''local'', formSkills = [], formProvider = [],
      formModel = [], formBaseUrl = [], formScript = [], formNoAgent = False, formContextFrom = [], formToolsets = [],
      formWorkdir = [], edSchedule = DEFAULT_SCHEDULE_STATE\<rparr>"

definition editor_form_from_job :: "js \<Rightarrow> cron_editor" where
  "editor_form_from_job job =
     (let f = cron_job_form_from_job job
      in cron_form.extend f (cron_editor.fields (parse_schedule_string (formSchedule f))))"

definition editor_payload :: "cron_editor \<Rightarrow> cron_payload" where
  "editor_payload e =
     build_cron_job_payload ((cron_form.truncate e)\<lparr>formSchedule := build_schedule_string (edSchedule e)\<rparr>)"

definition choose_provider :: "string \<Rightarrow> cron_editor \<Rightarrow> cron_editor" where
  "choose_provider v e = e\<lparr>formProvider := v, formModel := []\<rparr>"

text \<open>What is said of a payload that is not sent.\<close>

definition payload_refused :: "cron_payload \<Rightarrow> string option" where
  "payload_refused p =
     (if jobSchedule p = [] \<or> \<not> jobNoAgent p \<and> \<not> cron_job_has_execution_content p
      then Some ''Prompt & Schedule required''
      else if jobNoAgent p \<and> jobScript p = None then Some ''no_agent jobs require a script''
      else None)"

text \<open>A schedule that was opened is built into a string that opens as the same one.\<close>

lemma parse_schedule_trim: "parse_schedule_string (trim s) = parse_schedule_string s"
  by (simp add: parse_schedule_string_def)

lemma matches_template_take: "matches_template t s \<Longrightarrow> matches_template (take n t) (take n s)"
proof (induction t s arbitrary: n rule: matches_template.induct)
  case (2 t ts c cs)
  then show ?case by (cases n) auto
qed auto

lemma iso_minute: "is_iso_local s \<Longrightarrow> matches_template ''9999-99-99T99:99'' (take 16 s)"
  using matches_template_take [of "''9999-99-99T99:99''" s 16] matches_template_take [of "''9999-99-99T99:99:99''" s 16]
  by (auto simp: is_iso_local_def)

lemma matches_template_no_ws: "matches_template t s \<Longrightarrow> \<forall>c \<in> set t. \<not> is_ws c \<Longrightarrow> \<forall>c \<in> set s. \<not> is_ws c"
  by (induction t s rule: matches_template.induct) (auto simp: is_digit_not_ws split: if_splits)

lemma trim_minute:
  assumes "matches_template ''9999-99-99T99:99'' v"
  shows "trim v = v"
proof -
  have "\<forall>c \<in> set v. \<not> is_ws c" by (rule matches_template_no_ws [OF assms]) (simp add: is_ws_def code_def)
  then show ?thesis by (intro trim_trimmed) (auto simp: trimmed_def)
qed

lemma parsed_structured:
  "schedMode (parse_schedule_string s) \<noteq> MCustom \<Longrightarrow>
     build_schedule_string (parse_schedule_string s) \<noteq> []
     \<and> (schedMode (parse_schedule_string s) = MOnce \<longrightarrow>
          matches_template ''9999-99-99T99:99'' (trim (onceAt (parse_schedule_string s))))"
proof -
  assume mode: "schedMode (parse_schedule_string s) \<noteq> MCustom"
  let ?t = "trim s"
  consider "?t = []" | "?t \<noteq> []" "is_iso_local ?t"
    | ds c where "?t \<noteq> []" "\<not> is_iso_local ?t" "match_interval ?t = Some (ds, c)"
    | "?t \<noteq> []" "\<not> is_iso_local ?t" "match_interval ?t = None" by fastforce
  then show ?thesis
  proof cases
    case 1
    then show ?thesis by (simp add: parse_schedule_string_def DEFAULT_SCHEDULE_STATE_def build_schedule_string_def)
  next
    case 2
    then show ?thesis using iso_minute [OF 2(2)] matches_template_length [OF iso_minute [OF 2(2)]]
      by (auto simp: parse_schedule_string_def build_schedule_string_def trim_minute Let_def)
  next
    case (3 ds c)
    then show ?thesis by (simp add: parse_schedule_string_def build_schedule_string_def Let_def)
  next
    case 4
    then obtain r where r: "parse_simple_cron_expression ?t = Some r"
      using mode by (cases "parse_simple_cron_expression ?t") (simp_all add: parse_schedule_string_def)
    from parse_simple_cron_valid [OF r] show ?thesis
      using 4 r by (cases r) (auto simp: parse_schedule_string_def build_schedule_string_def valid_clock_def Let_def)
  qed
qed

lemma parsed_custom:
  "schedMode (parse_schedule_string s) = MCustom \<Longrightarrow> build_schedule_string (parse_schedule_string s) = trim s"
  by (auto simp: parse_schedule_string_def build_schedule_string_def DEFAULT_SCHEDULE_STATE_def Let_def
      split: if_splits option.splits simple_cron.splits)

lemma build_parsed_again:
  "build_schedule_string (parse_schedule_string (build_schedule_string (parse_schedule_string s)))
     = build_schedule_string (parse_schedule_string s)"
proof (cases "schedMode (parse_schedule_string s) = MCustom")
  case True
  then show ?thesis by (simp add: parsed_custom parse_schedule_trim)
next
  case False
  then have "reads_back (parse_schedule_string s)"
    using parsed_structured [OF False] by (intro reads_back_structured parse_schedule_wf) auto
  then show ?thesis by (simp add: reads_back_def)
qed

lemma payload_with_schedule:
  "build_cron_job_payload (f\<lparr>formSchedule := x\<rparr>) = (build_cron_job_payload f)\<lparr>jobSchedule := trim x\<rparr>"
  by (simp add: build_cron_job_payload_def)

lemma editor_payload_of_job:
  "editor_payload (editor_form_from_job job) =
     (build_cron_job_payload (cron_job_form_from_job job))
       \<lparr>jobSchedule := trim (build_schedule_string (parse_schedule_string (formSchedule (cron_job_form_from_job job))))\<rparr>"
  by (simp add: editor_payload_def editor_form_from_job_def Let_def build_cron_job_payload_def cron_form.defs cron_editor.defs)

lemma job_toolsets_trimmed: "list_all trimmed (formToolsets (cron_job_form_from_job job))"
  by (auto simp: cron_job_form_from_job_def Let_def split_cron_list_def nonempty_def list_all_iff trimmed_trim)

text \<open>Editing settles: whatever job is opened in the editor and saved without a change, opening a job that holds
  what was sent and saving it again sends the same payload, schedule included, so that further saves leave it
  alone. (The base URL has no white space before trailing slashes.)\<close>

theorem unchanged_edit_settles:
  assumes "trimmed (strip_slashes (trim (as_string (js_get job ''base_url''))))"
    and kept: "job_keeps (editor_payload (editor_form_from_job job)) job2"
  shows "editor_payload (editor_form_from_job job2) = editor_payload (editor_form_from_job job)"
proof -
  let ?f = "cron_job_form_from_job job" and ?p = "editor_payload (editor_form_from_job job)"
  let ?g = "?f\<lparr>formSchedule := build_schedule_string (parse_schedule_string (formSchedule ?f))\<rparr>"
  have p: "?p = build_cron_job_payload ?g" by (simp add: editor_payload_of_job payload_with_schedule)
  have "formBaseUrl ?g = as_string (js_get job ''base_url'')" by (simp add: cron_job_form_from_job_def Let_def)
  then have same: "build_cron_job_payload (cron_job_form_from_job job2) = ?p"
    unfolding p using assms(1) job_toolsets_trimmed [of job] kept [unfolded p]
    by (intro edit_unchanged_keeps_job) simp_all
  have "formSchedule (cron_job_form_from_job job2) = jobSchedule ?p"
    using kept by (simp add: job_keeps_def cron_job_form_from_job_def Let_def)
  moreover have "build_schedule_string (parse_schedule_string (jobSchedule ?p)) = build_schedule_string (parse_schedule_string (formSchedule ?f))"
    by (simp add: p payload_with_schedule parse_schedule_trim build_parsed_again)
  ultimately show ?thesis using same by (simp add: editor_payload_of_job)
qed

text \<open>A job whose schedule is written differently is normalised by the first save and kept by the second.\<close>

definition spelled_job :: js where
  "spelled_job = JObj [(''name'', JStr ''Nightly''), (''prompt'', JStr ''go''), (''skills'', JArr [JStr ''web'']), (''model'', JStr ''m''),
     (''base_url'', JStr ''http://x//''), (''context_from'', JStr ''a, b''), (''enabled_toolsets'', JArr [JStr '' t '']),
     (''schedule'', JObj [(''expr'', JStr ''00 09 * * *'')])]"

theorem unchanged_edit_settles_witness:
  "editor_payload (editor_form_from_job sample_job) = editor_payload (editor_form_from_job spelled_job)
   \<and> jobSchedule (editor_payload (editor_form_from_job spelled_job)) = ''0 9 * * *''"
proof -
  have "trimmed (strip_slashes (trim (as_string (js_get spelled_job ''base_url''))))"
    "jobSchedule (editor_payload (editor_form_from_job spelled_job)) = ''0 9 * * *''"
    "job_keeps (editor_payload (editor_form_from_job spelled_job)) sample_job"
    by code_simp+
  then show ?thesis using unchanged_edit_settles [of spelled_job sample_job] by simp
qed

section \<open>The page\<close>

text \<open>The skills, toolsets and models a form offers.\<close>

record cron_resources =
  crSkills :: "(string \<times> string) list"
  crToolsets :: "(string \<times> string) list"
  crModels :: "cron_provider list option"

datatype cron_call =
    JcCreate cron_payload string
  | JcUpdate string cron_payload string
  | JcPause string string
  | JcResume string string
  | JcTrigger string string
  | JcDelete string string

text \<open>A call keeps the profile whose jobs it will load again: the one selected when it was made. \<open>cvRuns\<close> are the runs
  of the resource effect that wait for their answer: the profile they asked for and their flag \<open>cancelled\<close>.
  \<open>cvToDelete\<close> are the keys given to the confirmation.\<close>

record cron_view =
  cvJobs :: "js list"
  cvProfiles :: "string list"
  cvSelected :: string
  cvBlueprints :: bool
  cvLoading :: bool
  cvCreateOpen :: bool
  cvCreateProfile :: string
  cvCreateForm :: cron_editor
  cvTargets :: "delivery_target list"
  cvCreating :: bool
  cvEdit :: "js option"
  cvEditForm :: cron_editor
  cvSaving :: bool
  cvResources :: cron_resources
  cvRuns :: "(string \<times> bool) list"
  cvToDelete :: "string list"
  cvLoads :: "string list"
  cvCalls :: "(cron_call \<times> string) list"

definition local_target :: delivery_target where
  "local_target = \<lparr>dtId = ''local'', dtName = ''Local'', dtHomeSet = True\<rparr>"

definition cron_view_start :: cron_view where
  "cron_view_start =
     \<lparr>cvJobs = [], cvProfiles = [], cvSelected = ''all'', cvBlueprints = False, cvLoading = True, cvCreateOpen = False,
      cvCreateProfile = ''default'', cvCreateForm = empty_cron_job_form, cvTargets = [local_target], cvCreating = False,
      cvEdit = None, cvEditForm = empty_cron_job_form, cvSaving = False,
      cvResources = \<lparr>crSkills = [], crToolsets = [], crModels = None\<rparr>, cvRuns = [(''default'', False)],
      cvToDelete = [], cvLoads = [''all''], cvCalls = []\<rparr>"

definition resource_profile :: "cron_view \<Rightarrow> string" where
  "resource_profile s = (case cvEdit s of Some job \<Rightarrow> get_job_profile job | None \<Rightarrow> cvCreateProfile s)"

definition load_jobs :: "string \<Rightarrow> cron_view \<Rightarrow> cron_view" where
  "load_jobs profile s = s\<lparr>cvLoads := cvLoads s @ [profile]\<rparr>"

definition jobs_loaded :: "nat \<Rightarrow> js list option \<Rightarrow> cron_view \<Rightarrow> cron_view" where
  "jobs_loaded i r s =
     (case r of None \<Rightarrow> s | Some js \<Rightarrow> s\<lparr>cvJobs := js\<rparr>)\<lparr>cvLoading := False, cvLoads := take_out i (cvLoads s)\<rparr>"

definition cron_send :: "cron_call \<Rightarrow> cron_view \<Rightarrow> cron_view" where
  "cron_send c s = s\<lparr>cvCalls := cvCalls s @ [(c, cvSelected s)]\<rparr>"

definition open_create :: "cron_view \<Rightarrow> cron_view" where
  "open_create s =
     s\<lparr>cvCreateProfile := (if cvSelected s = ''all'' then ''default'' else cvSelected s), cvCreateOpen := True\<rparr>"

definition open_edit :: "js \<Rightarrow> cron_view \<Rightarrow> cron_view" where
  "open_edit job s = s\<lparr>cvEdit := Some job, cvEditForm := editor_form_from_job job\<rparr>"

definition cron_create :: "cron_view \<Rightarrow> cron_view" where
  "cron_create s =
     (let p = editor_payload (cvCreateForm s)
      in if payload_refused p \<noteq> None then s else cron_send (JcCreate p (cvCreateProfile s)) (s\<lparr>cvCreating := True\<rparr>))"

definition cron_save_edit :: "cron_view \<Rightarrow> cron_view" where
  "cron_save_edit s =
     (case cvEdit s of
        None \<Rightarrow> s
      | Some job \<Rightarrow>
          (let p = editor_payload (cvEditForm s)
           in if payload_refused p \<noteq> None then s
              else cron_send (JcUpdate (job_id job) p (get_job_profile job)) (s\<lparr>cvSaving := True\<rparr>)))"

definition pause_resume :: "js \<Rightarrow> cron_view \<Rightarrow> cron_view" where
  "pause_resume job s =
     cron_send ((if get_job_state job = ''paused'' then JcResume else JcPause) (job_id job) (get_job_profile job)) s"

definition delete_confirmed :: "string \<Rightarrow> cron_view \<Rightarrow> cron_view" where
  "delete_confirmed key s = (let (profile, i) = split_job_key key in cron_send (JcDelete i profile) s)"

definition cron_answered :: "nat \<Rightarrow> bool \<Rightarrow> cron_view \<Rightarrow> cron_view" where
  "cron_answered i ok s =
     (let (c, profile) = cvCalls s ! i;
          s1 = (let t = s\<lparr>cvCalls := take_out i (cvCalls s)\<rparr> in if ok then load_jobs profile t else t)
      in case c of
           JcCreate p q \<Rightarrow>
             (if ok then s1\<lparr>cvCreateForm := empty_cron_job_form, cvCreateOpen := False\<rparr> else s1)\<lparr>cvCreating := False\<rparr>
         | JcUpdate j p q \<Rightarrow> (if ok then s1\<lparr>cvEdit := None\<rparr> else s1)\<lparr>cvSaving := False\<rparr>
         | _ \<Rightarrow> s1)"

definition choose_job_profile :: "string \<Rightarrow> cron_view \<Rightarrow> cron_view" where
  "choose_job_profile v s = (if v = cvSelected s then s else load_jobs v (s\<lparr>cvSelected := v\<rparr>))"

text \<open>The answer of a run of the effect; a cancelled run drops it.\<close>

definition sorted_resources ::
  "((string \<times> string) list \<Rightarrow> (string \<times> string) list) \<Rightarrow> (string \<times> string) list \<Rightarrow> (string \<times> string) list \<Rightarrow>
   cron_provider list option \<Rightarrow> cron_resources" where
  "sorted_resources by_name skills toolsets models =
     \<lparr>crSkills = by_name skills, crToolsets = by_name toolsets, crModels = models\<rparr>"

definition resources_loaded ::
  "((string \<times> string) list \<Rightarrow> (string \<times> string) list) \<Rightarrow> nat \<Rightarrow> (string \<times> string) list \<Rightarrow> (string \<times> string) list \<Rightarrow>
   cron_provider list option \<Rightarrow> cron_view \<Rightarrow> cron_view" where
  "resources_loaded by_name n skills toolsets models s =
     (let (profile, cancelled) = cvRuns s ! n; s1 = s\<lparr>cvRuns := take_out n (cvRuns s)\<rparr>
      in if cancelled then s1 else s1\<lparr>cvResources := sorted_resources by_name skills toolsets models\<rparr>)"

datatype cron_event =
    CvJobs nat "js list option"
  | CvProfiles "string list"
  | CvTargets "delivery_target list option"
  | CvResources nat "(string \<times> string) list" "(string \<times> string) list" "cron_provider list option"
  | CvView bool
  | CvSelect string
  | CvOpenCreate
  | CvCloseCreate
  | CvCreateProfile string
  | CvCreateForm cron_editor
  | CvCreate
  | CvOpenEdit js
  | CvCloseEdit
  | CvEditForm cron_editor
  | CvSave
  | CvPauseResume js
  | CvTrigger js
  | CvDelete js
  | CvConfirmed string
  | CvAnswered nat bool
  | CvBlueprintDone

primrec cron_handle ::
  "((string \<times> string) list \<Rightarrow> (string \<times> string) list) \<Rightarrow> cron_event \<Rightarrow> cron_view \<Rightarrow> cron_view" where
  "cron_handle by_name (CvJobs i r) s = jobs_loaded i r s"
| "cron_handle by_name (CvProfiles ps) s = s\<lparr>cvProfiles := ps\<rparr>"
| "cron_handle by_name (CvTargets r) s = s\<lparr>cvTargets := (case r of None \<Rightarrow> [local_target] | Some ts \<Rightarrow> ts)\<rparr>"
| "cron_handle by_name (CvResources n ks ts ms) s = resources_loaded by_name n ks ts ms s"
| "cron_handle by_name (CvView b) s = s\<lparr>cvBlueprints := b\<rparr>"
| "cron_handle by_name (CvSelect v) s = choose_job_profile v s"
| "cron_handle by_name CvOpenCreate s = open_create s"
| "cron_handle by_name CvCloseCreate s = s\<lparr>cvCreateOpen := False\<rparr>"
| "cron_handle by_name (CvCreateProfile v) s = s\<lparr>cvCreateProfile := v\<rparr>"
| "cron_handle by_name (CvCreateForm f) s = s\<lparr>cvCreateForm := f\<rparr>"
| "cron_handle by_name CvCreate s = cron_create s"
| "cron_handle by_name (CvOpenEdit job) s = open_edit job s"
| "cron_handle by_name CvCloseEdit s = s\<lparr>cvEdit := None\<rparr>"
| "cron_handle by_name (CvEditForm f) s = s\<lparr>cvEditForm := f\<rparr>"
| "cron_handle by_name CvSave s = cron_save_edit s"
| "cron_handle by_name (CvPauseResume job) s = pause_resume job s"
| "cron_handle by_name (CvTrigger job) s = cron_send (JcTrigger (job_id job) (get_job_profile job)) s"
| "cron_handle by_name (CvDelete job) s = s\<lparr>cvToDelete := get_job_key job # cvToDelete s\<rparr>"
| "cron_handle by_name (CvConfirmed key) s = delete_confirmed key s"
| "cron_handle by_name (CvAnswered i ok) s = cron_answered i ok s"
| "cron_handle by_name CvBlueprintDone s = load_jobs (cvSelected s) s"

text \<open>After a render for another profile the effect runs again: the cleanup of the run before sets its flag, as the
  cleanups of the earlier ones have done, and the new run asks for the resources of the new profile.\<close>

definition rerun_resources :: "string \<Rightarrow> cron_view \<Rightarrow> cron_view" where
  "rerun_resources profile s = s\<lparr>cvRuns := map (\<lambda>(p, cancelled). (p, True)) (cvRuns s) @ [(profile, False)]\<rparr>"

definition cron_step ::
  "((string \<times> string) list \<Rightarrow> (string \<times> string) list) \<Rightarrow> cron_view \<Rightarrow> cron_event \<Rightarrow> cron_view" where
  "cron_step by_name s e =
     (let s1 = cron_handle by_name e s
      in if resource_profile s1 = resource_profile s then s1 else rerun_resources (resource_profile s1) s1)"

primrec cron_enabled :: "cron_view \<Rightarrow> cron_event \<Rightarrow> bool" where
  "cron_enabled s (CvJobs i r) = (i < length (cvLoads s))"
| "cron_enabled s (CvProfiles ps) = True"
| "cron_enabled s (CvTargets r) = True"
| "cron_enabled s (CvResources n ks ts ms) = (n < length (cvRuns s))"
| "cron_enabled s (CvView b) = (\<not> cvLoading s)"
| "cron_enabled s (CvSelect v) = (\<not> cvLoading s \<and> \<not> cvBlueprints s \<and> (v = ''all'' \<or> v \<in> set (cvProfiles s)))"
| "cron_enabled s CvOpenCreate = True"
| "cron_enabled s CvCloseCreate = (\<not> cvLoading s \<and> cvCreateOpen s)"
| "cron_enabled s (CvCreateProfile v) = (\<not> cvLoading s \<and> cvCreateOpen s \<and> v \<in> set (cvProfiles s))"
| "cron_enabled s (CvCreateForm f) = (\<not> cvLoading s \<and> cvCreateOpen s)"
| "cron_enabled s CvCreate = (\<not> cvLoading s \<and> cvCreateOpen s \<and> \<not> cvCreating s)"
| "cron_enabled s (CvOpenEdit job) = (\<not> cvLoading s \<and> \<not> cvBlueprints s \<and> job \<in> set (cvJobs s))"
| "cron_enabled s CvCloseEdit = (\<not> cvLoading s \<and> cvEdit s \<noteq> None)"
| "cron_enabled s (CvEditForm f) = (\<not> cvLoading s \<and> cvEdit s \<noteq> None)"
| "cron_enabled s CvSave = (\<not> cvLoading s \<and> cvEdit s \<noteq> None \<and> \<not> cvSaving s)"
| "cron_enabled s (CvPauseResume job) = (\<not> cvLoading s \<and> \<not> cvBlueprints s \<and> job \<in> set (cvJobs s))"
| "cron_enabled s (CvTrigger job) = (\<not> cvLoading s \<and> \<not> cvBlueprints s \<and> job \<in> set (cvJobs s))"
| "cron_enabled s (CvDelete job) = (\<not> cvLoading s \<and> \<not> cvBlueprints s \<and> job \<in> set (cvJobs s))"
| "cron_enabled s (CvConfirmed key) = (\<not> cvLoading s \<and> key \<in> set (cvToDelete s))"
| "cron_enabled s (CvAnswered i ok) = (i < length (cvCalls s))"
| "cron_enabled s CvBlueprintDone = True"

section \<open>What the page keeps\<close>

lemmas cron_ops = jobs_loaded_def cron_send_def open_create_def open_edit_def cron_create_def cron_save_edit_def
  pause_resume_def delete_confirmed_def choose_job_profile_def load_jobs_def resources_loaded_def

text \<open>The runs that are not cancelled: at most one, for the profile of the form.\<close>

definition live_runs :: "cron_view \<Rightarrow> (string \<times> bool) list" where
  "live_runs s = filter (\<lambda>(p, cancelled). \<not> cancelled) (cvRuns s)"

definition fitting_runs :: "cron_view \<Rightarrow> bool" where
  "fitting_runs s \<longleftrightarrow> live_runs s \<in> {[], [(resource_profile s, False)]}"

text \<open>One creation is under way exactly while the button says so, and likewise one save.\<close>

definition creations :: "cron_view \<Rightarrow> (cron_call \<times> string) list" where
  "creations s = filter (\<lambda>(c, q). case c of JcCreate p q \<Rightarrow> True | _ \<Rightarrow> False) (cvCalls s)"

definition updates :: "cron_view \<Rightarrow> (cron_call \<times> string) list" where
  "updates s = filter (\<lambda>(c, q). case c of JcUpdate j p q \<Rightarrow> True | _ \<Rightarrow> False) (cvCalls s)"

definition single_saves :: "cron_view \<Rightarrow> bool" where
  "single_saves s \<longleftrightarrow> length (creations s) = (if cvCreating s then 1 else 0) \<and> length (updates s) = (if cvSaving s then 1 else 0)"

definition cron_inv :: "cron_view \<Rightarrow> bool" where
  "cron_inv s \<longleftrightarrow> fitting_runs s \<and> single_saves s"

lemma cron_answered_frame: "cvRuns (cron_answered i ok s) = cvRuns s" "cvResources (cron_answered i ok s) = cvResources s"
  by (simp_all add: cron_answered_def load_jobs_def Let_def split: prod.split cron_call.split)

lemma handle_keeps_runs:
  "(\<forall>n ks ts ms. e \<noteq> CvResources n ks ts ms) \<Longrightarrow>
     cvRuns (cron_handle by_name e s) = cvRuns s \<and> cvResources (cron_handle by_name e s) = cvResources s"
  by (cases e; simp add: cron_ops cron_answered_frame Let_def split: option.split prod.split)

lemma resources_loaded_frame:
  "resource_profile (resources_loaded by_name n ks ts ms s) = resource_profile s"
  "cvRuns (resources_loaded by_name n ks ts ms s) = take_out n (cvRuns s)"
  "cvCalls (resources_loaded by_name n ks ts ms s) = cvCalls s"
  "cvCreating (resources_loaded by_name n ks ts ms s) = cvCreating s" "cvSaving (resources_loaded by_name n ks ts ms s) = cvSaving s"
  by (simp_all add: resource_profile_def resources_loaded_def Let_def split: option.split prod.split)

lemma live_rerun: "live_runs (rerun_resources p s) = [(p, False)]"
  by (simp add: live_runs_def rerun_resources_def filter_map comp_def case_prod_beta)

lemma rerun_profile [simp]: "resource_profile (rerun_resources p s) = resource_profile s"
  by (simp add: resource_profile_def rerun_resources_def split: option.split)

lemma live_split:
  assumes "n < length (cvRuns s)" "cvRuns s ! n = (p, False)" "fitting_runs s"
  shows "p = resource_profile s \<and> filter (\<lambda>(p, cancelled). \<not> cancelled) (take_out n (cvRuns s)) = []"
proof -
  have "cvRuns s = take n (cvRuns s) @ (p, False) # drop (Suc n) (cvRuns s)"
    using assms(1,2) by (metis id_take_nth_drop)
  then have "live_runs s = filter (\<lambda>(p, cancelled). \<not> cancelled) (take n (cvRuns s)) @ (p, False)
      # filter (\<lambda>(p, cancelled). \<not> cancelled) (drop (Suc n) (cvRuns s))"
    unfolding live_runs_def by (metis (no_types, lifting) case_prod_conv filter.simps(2) filter_append)
  then show ?thesis using assms(3) by (auto simp: fitting_runs_def take_out_def append_eq_Cons_conv)
qed

lemma live_take_out:
  assumes "n < length (cvRuns s)" "cvRuns s ! n = (p, True)"
  shows "filter (\<lambda>(p, cancelled). \<not> cancelled) (take_out n (cvRuns s)) = live_runs s"
proof -
  have "cvRuns s = take n (cvRuns s) @ (p, True) # drop (Suc n) (cvRuns s)"
    using assms by (metis id_take_nth_drop)
  then show ?thesis unfolding live_runs_def take_out_def
    by (metis (no_types, lifting) case_prod_conv filter.simps(2) filter_append)
qed

lemma cron_step_fits:
  assumes "fitting_runs s" "cron_enabled s e"
  shows "fitting_runs (cron_step by_name s e)"
proof (cases "\<exists>n ks ts ms. e = CvResources n ks ts ms")
  case True
  then obtain n ks ts ms where e: "e = CvResources n ks ts ms" by blast
  obtain p c where run: "cvRuns s ! n = (p, c)" by fastforce
  have step: "cron_step by_name s e = resources_loaded by_name n ks ts ms s"
    by (simp add: cron_step_def e resources_loaded_frame)
  show ?thesis unfolding step fitting_runs_def live_runs_def resources_loaded_frame
    using live_split [of n s p] live_take_out [of n s p] assms run
    by (cases c) (simp_all add: e fitting_runs_def)
next
  case False
  then have "live_runs (cron_handle by_name e s) = live_runs s" using handle_keeps_runs [of e by_name s] by (simp add: live_runs_def)
  then show ?thesis using assms(1) by (auto simp: cron_step_def Let_def fitting_runs_def live_rerun)
qed

text \<open>The saves under way.\<close>

lemma filter_take_out:
  "i < length xs \<Longrightarrow> length (filter P (take_out i xs)) + (if P (xs ! i) then 1 else 0) = length (filter P xs)"
  by (subst (3) id_take_nth_drop, assumption) (simp add: take_out_def)

lemma single_saves_send:
  "single_saves s \<Longrightarrow> (case c of JcCreate p q \<Rightarrow> False | JcUpdate j p q \<Rightarrow> False | _ \<Rightarrow> True) \<Longrightarrow> single_saves (cron_send c s)"
  by (cases c) (simp_all add: single_saves_def creations_def updates_def cron_send_def)

lemma cron_create_saves: "single_saves s \<Longrightarrow> \<not> cvCreating s \<Longrightarrow> single_saves (cron_create s)"
  by (auto simp: single_saves_def creations_def updates_def cron_create_def cron_send_def Let_def split: if_splits)

lemma cron_save_edit_saves: "single_saves s \<Longrightarrow> \<not> cvSaving s \<Longrightarrow> single_saves (cron_save_edit s)"
  by (auto simp: single_saves_def creations_def updates_def cron_save_edit_def cron_send_def Let_def split: if_splits option.split)

lemma cron_answered_saves:
  assumes "single_saves s" and i: "i < length (cvCalls s)"
  shows "single_saves (cron_answered i ok s)"
proof -
  obtain c q where c: "cvCalls s ! i = (c, q)" by (cases "cvCalls s ! i")
  have "length (filter P (take_out i (cvCalls s))) + (if P (c, q) then 1 else 0) = length (filter P (cvCalls s))" for P
    using filter_take_out [OF i, of P] by (simp add: c)
  from this [of "\<lambda>(c, q). case c of JcCreate p q \<Rightarrow> True | _ \<Rightarrow> False"]
    this [of "\<lambda>(c, q). case c of JcUpdate j p q \<Rightarrow> True | _ \<Rightarrow> False"]
  show ?thesis using assms(1)
    by (cases c) (auto simp: cron_answered_def c load_jobs_def single_saves_def creations_def updates_def Let_def split: if_splits)
qed

lemma single_saves_cong:
  "cvCalls t = cvCalls s \<Longrightarrow> cvCreating t = cvCreating s \<Longrightarrow> cvSaving t = cvSaving s \<Longrightarrow> single_saves t = single_saves s"
  by (simp add: single_saves_def creations_def updates_def)

lemma cron_handle_saves: "single_saves s \<Longrightarrow> cron_enabled s e \<Longrightarrow> single_saves (cron_handle by_name e s)"
proof (cases e)
  case (CvAnswered i ok)
  assume "single_saves s" "cron_enabled s e"
  then show ?thesis by (simp add: CvAnswered cron_answered_saves)
next
  case CvCreate
  assume "single_saves s" "cron_enabled s e"
  then show ?thesis by (simp add: CvCreate cron_create_saves)
next
  case CvSave
  assume "single_saves s" "cron_enabled s e"
  then show ?thesis by (simp add: CvSave cron_save_edit_saves)
next
  case (CvResources n ks ts ms)
  assume "single_saves s"
  then show ?thesis
    using single_saves_cong [of "resources_loaded by_name n ks ts ms s" s] by (simp add: CvResources resources_loaded_frame)
qed (simp_all add: single_saves_send pause_resume_def delete_confirmed_def split: prod.split,
  auto simp: cron_ops single_saves_def creations_def updates_def split: option.split if_splits)

lemma cron_step_inv: "cron_inv s \<Longrightarrow> cron_enabled s e \<Longrightarrow> cron_inv (cron_step by_name s e)"
proof -
  assume inv: "cron_inv s" and en: "cron_enabled s e"
  have "single_saves (cron_step by_name s e) = single_saves (cron_handle by_name e s)"
    unfolding cron_step_def Let_def by (rule single_saves_cong) (simp_all add: rerun_resources_def)
  then show ?thesis using inv en cron_step_fits [of s e by_name] cron_handle_saves [of s e by_name]
    by (simp add: cron_inv_def)
qed

interpretation cron_page: machine cron_view_start "cron_step by_name" cron_enabled cron_inv for by_name
proof
  show "cron_inv cron_view_start"
    by (simp add: cron_inv_def fitting_runs_def live_runs_def single_saves_def creations_def updates_def cron_view_start_def
        resource_profile_def)
qed (rule cron_step_inv)

text \<open>What the forms offer once no run is live came with the answer of a live run for their profile.\<close>

definition brings_resources ::
  "((string \<times> string) list \<Rightarrow> (string \<times> string) list) \<Rightarrow> cron_view \<Rightarrow> cron_event \<Rightarrow> string \<Rightarrow> cron_resources \<Rightarrow> bool" where
  "brings_resources by_name s e p r \<longleftrightarrow>
     (\<exists>n ks ts ms. e = CvResources n ks ts ms \<and> n < length (cvRuns s) \<and> cvRuns s ! n = (p, False)
        \<and> r = sorted_resources by_name ks ts ms)"

lemma resources_step:
  assumes inv: "cron_inv s" and en: "cron_enabled s e"
    and after: "live_runs (cron_step by_name s e) = []" "resource_profile (cron_step by_name s e) = p"
      "cvResources (cron_step by_name s e) = r"
  shows "live_runs s = [] \<and> resource_profile s = p \<and> cvResources s = r \<or> brings_resources by_name s e p r"
proof (cases "\<exists>n ks ts ms. e = CvResources n ks ts ms")
  case True
  then obtain n ks ts ms where e: "e = CvResources n ks ts ms" by blast
  obtain q c where run: "cvRuns s ! n = (q, c)" by fastforce
  have step: "cron_step by_name s e = resources_loaded by_name n ks ts ms s"
    by (simp add: cron_step_def e resources_loaded_frame)
  have n: "n < length (cvRuns s)" using en by (simp add: e)
  show ?thesis
  proof (cases c)
    case False
    then have "q = p" using live_split [OF n] run inv after(2) by (simp add: step resources_loaded_frame cron_inv_def)
    then show ?thesis using after(3) [unfolded step] n run False
      by (simp add: brings_resources_def e resources_loaded_def Let_def)
  next
    case True
    then have "live_runs s = []"
      using live_take_out [OF n] run after(1) by (simp add: step live_runs_def resources_loaded_frame)
    then show ?thesis using after(2,3) run True by (simp add: step resources_loaded_frame) (simp add: resources_loaded_def Let_def)
  qed
next
  case False
  note keep = handle_keeps_runs [of e by_name s]
  have same: "resource_profile (cron_handle by_name e s) = resource_profile s"
    using after(1) by (auto simp: cron_step_def Let_def live_rerun split: if_splits)
  then have "cron_step by_name s e = cron_handle by_name e s" by (simp add: cron_step_def)
  then show ?thesis using after keep same False by (simp add: live_runs_def)
qed

interpretation offering: tracing cron_view_start "cron_step by_name" cron_enabled cron_inv
    "\<lambda>s (p, r). live_runs s = [] \<and> resource_profile s = p \<and> cvResources s = r"
    "\<lambda>s e (p, r). brings_resources by_name s e p r" for by_name
proof (unfold_locales, goal_cases)
  case (1 x)
  then show ?case by (simp add: cron_view_start_def live_runs_def split: prod.split)
next
  case (2 s e x)
  then show ?case using resources_step [of s e by_name] by (auto split: prod.splits)
qed

text \<open>Claim C36. A form offers what its job will have: in every run, however forms are opened and closed and resources
  come late or out of order, with \<open>P\<close> the profile of the job being edited or else the one a new job will get,
  every run of the resource effect that still counts is for \<open>P\<close>; and if there is none, the skills, toolsets and
  models offered are those of an answer to a request for \<open>P\<close> that still counted when it came. And at most one
  creation and one save are under way.\<close>

theorem offers_fit_the_profile:
  assumes "legal_run cron_enabled (cron_step by_name) cron_view_start es"
  defines "s \<equiv> foldl (cron_step by_name) cron_view_start es"
  defines "P \<equiv> (case cvEdit s of Some job \<Rightarrow> get_job_profile job | None \<Rightarrow> cvCreateProfile s)"
  shows "(\<forall>(p, cancelled) \<in> set (cvRuns s). cancelled \<or> p = P)
    \<and> ((P, False) \<in> set (cvRuns s)
       \<or> (\<exists>us n ks ts ms vs. es = us @ CvResources n ks ts ms # vs
            \<and> n < length (cvRuns (foldl (cron_step by_name) cron_view_start us))
            \<and> cvRuns (foldl (cron_step by_name) cron_view_start us) ! n = (P, False)
            \<and> cvResources s = \<lparr>crSkills = by_name ks, crToolsets = by_name ts, crModels = ms\<rparr>))
    \<and> length (creations s) \<le> 1 \<and> length (updates s) \<le> 1"
proof -
  have inv: "cron_inv s" unfolding s_def by (rule cron_page.run_inv) (rule assms(1))
  have P: "resource_profile s = P" by (simp add: P_def resource_profile_def)
  have live: "live_runs s \<in> {[], [(P, False)]}" using inv by (simp add: cron_inv_def fitting_runs_def P)
  have "cancelled \<or> p = P" if "(p, cancelled) \<in> set (cvRuns s)" for p cancelled
  proof -
    show ?thesis
    proof (cases cancelled)
      case False
      then have "(p, False) \<in> set (live_runs s)" using that by (simp add: live_runs_def)
      then show ?thesis using live by auto
    qed simp
  qed
  moreover have "(P, False) \<in> set (cvRuns s)" if "live_runs s \<noteq> []"
  proof -
    have "(P, False) \<in> set (live_runs s)" using that live by auto
    then show ?thesis by (auto simp: live_runs_def)
  qed
  moreover have "\<exists>us n ks ts ms vs. es = us @ CvResources n ks ts ms # vs
            \<and> n < length (cvRuns (foldl (cron_step by_name) cron_view_start us))
            \<and> cvRuns (foldl (cron_step by_name) cron_view_start us) ! n = (P, False)
            \<and> cvResources s = \<lparr>crSkills = by_name ks, crToolsets = by_name ts, crModels = ms\<rparr>" if idle: "live_runs s = []"
  proof -
    have "case (P, cvResources s) of (p, r) \<Rightarrow> live_runs (foldl (cron_step by_name) cron_view_start es) = []
        \<and> resource_profile (foldl (cron_step by_name) cron_view_start es) = p
        \<and> cvResources (foldl (cron_step by_name) cron_view_start es) = r"
      using idle P unfolding s_def by simp
    from offering.traced [OF assms(1) this] obtain us e vs where es: "es = us @ e # vs"
      and "brings_resources by_name (foldl (cron_step by_name) cron_view_start us) e P (cvResources s)" by auto
    then show ?thesis unfolding brings_resources_def sorted_resources_def by blast
  qed
  ultimately show ?thesis using inv by (simp add: cron_inv_def single_saves_def) blast
qed

definition work_job :: js where
  "work_job = JObj [(''id'', JStr ''j1''), (''profile'', JStr ''work''), (''state'', JStr ''paused'')]"

text \<open>The answer for the profile of a new job comes after that for the job opened meanwhile, and is dropped.\<close>

definition edit_run :: "cron_event list" where
  "edit_run = [CvJobs 0 (Some [work_job]), CvProfiles [''default'', ''work''], CvOpenEdit work_job,
     CvResources 1 [(''b'', []), (''a'', [])] [] None, CvResources 0 [(''c'', [])] [] None]"

theorem offers_fit_the_profile_witness:
  "map fst (crSkills (cvResources (foldl (cron_step id) cron_view_start edit_run))) = [''b'', ''a'']
   \<and> (\<exists>us n ks ts ms vs. edit_run = us @ CvResources n ks ts ms # vs
        \<and> cvRuns (foldl (cron_step id) cron_view_start us) ! n = (''work'', False))"
proof -
  let ?s = "foldl (cron_step id) cron_view_start edit_run"
  have legal: "legal_run cron_enabled (cron_step id) cron_view_start edit_run" by code_simp
  have e: "(case cvEdit ?s of Some job \<Rightarrow> get_job_profile job | None \<Rightarrow> cvCreateProfile ?s) = ''work''" by code_simp
  have r: "cvRuns ?s = []" "map fst (crSkills (cvResources ?s)) = [''b'', ''a'']" by code_simp+
  note h = offers_fit_the_profile [OF legal, unfolded e, THEN conjunct2, THEN conjunct1]
  have "(''work'', False) \<notin> set (cvRuns ?s)" by (simp only: r(1) list.set empty_iff not_False_eq_True)
  with h r(2) show ?thesis by blast
qed

text \<open>A save that succeeds closes whatever editor is open by then: the edits of another job are lost.\<close>

definition other_job :: js where
  "other_job = JObj [(''id'', JStr ''j2''), (''schedule_display'', JStr ''every 5m''), (''prompt'', JStr ''p'')]"

definition lost_edit :: "cron_event list" where
  "lost_edit = [CvJobs 0 (Some [work_job, other_job]), CvOpenEdit other_job, CvSave, CvCloseEdit, CvOpenEdit work_job,
     CvAnswered 0 True]"

theorem save_closes_another_editor:
  "legal_run cron_enabled (cron_step id) cron_view_start lost_edit
   \<and> cvEdit (foldl (cron_step id) cron_view_start (butlast lost_edit)) = Some work_job
   \<and> cvEdit (foldl (cron_step id) cron_view_start lost_edit) = None"
proof -
  have "legal_run cron_enabled (cron_step id) cron_view_start lost_edit" by code_simp
  moreover have "cvEdit (foldl (cron_step id) cron_view_start (butlast lost_edit)) = Some work_job" by code_simp
  moreover have "cvEdit (foldl (cron_step id) cron_view_start lost_edit) = None" by code_simp
  ultimately show ?thesis by blast
qed

text \<open>A change made before another profile was chosen lists the jobs of the profile that was left.\<close>

theorem left_profile_is_listed:
  "let es = [CvJobs 0 (Some [work_job]), CvProfiles [''work''], CvTrigger work_job, CvSelect ''work'', CvJobs 0 (Some [work_job]),
             CvAnswered 0 True, CvJobs 0 (Some [work_job, other_job])];
       s = foldl (cron_step id) cron_view_start (butlast es)
   in legal_run cron_enabled (cron_step id) cron_view_start es \<and> cvSelected s = ''work'' \<and> cvLoads s = [''all'']"
  by code_simp

section \<open>Blueprints\<close>

record blueprint_field =
  bfName :: string
  bfType :: string
  bfDefault :: "string option"
  bfOptions :: "string list"

definition initial_values :: "blueprint_field list \<Rightarrow> (string \<times> string) list" where
  "initial_values fs = fold (\<lambda>f vs. obj_set (bfName f) (case bfDefault f of None \<Rightarrow> [] | Some d \<Rightarrow> d) vs) fs []"

text \<open>\<open>replace(/^\d+:\s*/, "")\<close>\<close>

definition strip_status :: "string \<Rightarrow> string" where
  "strip_status msg =
     (let ds = takeWhile is_digit msg; r = dropWhile is_digit msg
      in if ds = [] \<or> r = [] \<or> hd r \<noteq> CHR '':'' then msg else dropWhile is_ws (tl r))"

datatype field_input = SelectInput "string list" | TimeInput | TextInput

definition field_input :: "blueprint_field \<Rightarrow> field_input" where
  "field_input f =
     (if bfType f = ''enum'' \<or> bfType f = ''weekdays'' then SelectInput (bfOptions f)
      else if bfType f = ''time'' then TimeInput else TextInput)"

text \<open>\<open>bcSent\<close> are the values of the request under way.\<close>

record blueprint_card =
  bcOpen :: bool
  bcValues :: "(string \<times> string) list"
  bcSubmitting :: bool
  bcError :: "string option"
  bcSent :: "(string \<times> string) list option"

definition card_start :: "blueprint_field list \<Rightarrow> blueprint_card" where
  "card_start fs = \<lparr>bcOpen = False, bcValues = initial_values fs, bcSubmitting = False, bcError = None, bcSent = None\<rparr>"

datatype card_event = BcToggle | BcSet string string | BcSubmit | BcAnswered "string option"

primrec card_step :: "blueprint_field list \<Rightarrow> blueprint_card \<Rightarrow> card_event \<Rightarrow> blueprint_card" where
  "card_step fs c BcToggle = c\<lparr>bcOpen := \<not> bcOpen c\<rparr>"
| "card_step fs c (BcSet k v) = c\<lparr>bcValues := obj_set k v (bcValues c)\<rparr>"
| "card_step fs c BcSubmit = c\<lparr>bcSubmitting := True, bcError := None, bcSent := Some (bcValues c)\<rparr>"
| "card_step fs c (BcAnswered r) =
     (case r of
        None \<Rightarrow> c\<lparr>bcOpen := False, bcValues := initial_values fs\<rparr>
      | Some msg \<Rightarrow> c\<lparr>bcError := Some (strip_status msg)\<rparr>)\<lparr>bcSubmitting := False, bcSent := None\<rparr>"

primrec card_enabled :: "blueprint_field list \<Rightarrow> blueprint_card \<Rightarrow> card_event \<Rightarrow> bool" where
  "card_enabled fs c BcToggle = True"
| "card_enabled fs c (BcSet k v) = (bcOpen c \<and> k \<in> set (map bfName fs))"
| "card_enabled fs c BcSubmit = (bcOpen c \<and> \<not> bcSubmitting c)"
| "card_enabled fs c (BcAnswered r) = (bcSent c \<noteq> None)"

lemma initial_values_keys: "fst ` set (initial_values fs) = set (map bfName fs)"
proof -
  have "fst ` set (fold (\<lambda>f vs. obj_set (bfName f) (case bfDefault f of None \<Rightarrow> [] | Some d \<Rightarrow> d) vs) fs vs)
      = fst ` set vs \<union> set (map bfName fs)" for vs
    by (induction fs arbitrary: vs) auto
  from this [of "[]"] show ?thesis by (simp add: initial_values_def)
qed

definition card_inv :: "blueprint_field list \<Rightarrow> blueprint_card \<Rightarrow> bool" where
  "card_inv fs c \<longleftrightarrow>
     fst ` set (bcValues c) = set (map bfName fs) \<and> (bcSubmitting c \<longleftrightarrow> bcSent c \<noteq> None)
     \<and> (\<forall>vs. bcSent c = Some vs \<longrightarrow> fst ` set vs = set (map bfName fs))"

interpretation blueprint: machine "card_start fs" "card_step fs" "card_enabled fs" "card_inv fs" for fs
proof
  show "card_inv fs (card_start fs)" by (simp add: card_inv_def card_start_def initial_values_keys)
  show "card_inv fs (card_step fs c e)" if "card_inv fs c" "card_enabled fs c e" for c e
    using that by (cases e) (auto simp: card_inv_def initial_values_keys split: option.splits)
qed

text \<open>What a card sends has a value for exactly the fields of its blueprint.\<close>

lemma sent_values_are_complete:
  "legal_run (card_enabled fs) (card_step fs) (card_start fs) es \<Longrightarrow>
     bcSent (foldl (card_step fs) (card_start fs) es) = Some vs \<Longrightarrow> fst ` set vs = set (map bfName fs)"
  using blueprint.run_inv [of fs es] by (simp add: card_inv_def)

text \<open>What is typed while a request is under way is put back by its success.\<close>

theorem late_values_are_lost:
  "bcValues (card_step fs (card_step fs (card_step fs c BcSubmit) (BcSet k v)) (BcAnswered None)) = initial_values fs"
  by simp

end
