(* ===== verification/McpPage.thy ===== *)
theory McpPage
  imports McpSetup
begin

text \<open>
  The page of the MCP servers, \<open>web/src/pages/McpPage.tsx\<close>: what it shows of a server and of a catalog entry, the
  form of a new server, and the tests, sign-ins, switches, removals and installations as a state machine. The draft
  and the sign-in are those of \<open>McpSetup\<close>. Toasts are left out, dashes are hyphens; the confirmation of a removal is
  a library that hands back a name it was given.
\<close>

section \<open>Servers and entries\<close>

record mcp_listed =
  mlName :: string
  mlTransport :: string
  mlUrl :: "string option"
  mlCommand :: "string option"
  mlArgs :: "string list"
  mlEnv :: "(string \<times> string) list"
  mlAuth :: "string option"
  mlEnabled :: bool

record env_item =
  eiName :: string
  eiPrompt :: string
  eiRequired :: bool

record catalog_entry =
  ceName :: string
  ceSource :: string
  ceTransport :: string
  ceRequiredEnv :: "env_item list"
  ceCommand :: "string option"
  ceArgs :: "string list"
  ceUrl :: "string option"
  ceInstallUrl :: "string option"
  ceInstalled :: bool

record test_result =
  trOk :: bool
  trError :: "string option"
  trTools :: "string list"

definition is_http_url :: "string \<Rightarrow> bool" where
  "is_http_url v = (let u = lower (trim v) in starts_with u ''http://'' \<or> starts_with u ''https://'')"

definition transport_tone :: "string \<Rightarrow> string" where
  "transport_tone t =
     (case map_of [(''http'', ''success''), (''stdio'', ''warning''), (''unknown'', ''secondary'')] t of
        None \<Rightarrow> ''secondary'' | Some x \<Rightarrow> x)"

definition or_dash :: "string \<Rightarrow> string" where
  "or_dash x = (if x = [] then ''-'' else x)"

definition connection_text :: "mcp_listed \<Rightarrow> string" where
  "connection_text m =
     (if mlTransport m = ''http'' then (case mlUrl m of None \<Rightarrow> ''-'' | Some u \<Rightarrow> u)
      else or_dash (join '' '' (filter (\<lambda>w. w \<noteq> []) ((case mlCommand m of None \<Rightarrow> [] | Some c \<Rightarrow> c) # mlArgs m))))"

definition env_text :: "mcp_listed \<Rightarrow> string option" where
  "env_text m =
     (let n = length (mlEnv m)
      in if n = 0 then None else Some (show_nat n @ '' env var'' @ (if n = 1 then [] else ''s'')))"

definition auth_badge :: "mcp_listed \<Rightarrow> string option" where
  "auth_badge m = (case mlAuth m of None \<Rightarrow> None | Some a \<Rightarrow> Some (''auth: '' @ (if a = ''header'' then ''bearer'' else a)))"

definition result_text :: "test_result \<Rightarrow> string" where
  "result_text r =
     (if trOk r then (if trTools r = [] then ''Connected - no tools'' else ''Tools: '' @ join '', '' (trTools r))
      else (case trError r of None \<Rightarrow> ''Connection failed'' | Some e \<Rightarrow> e))"

text \<open>What an entry connects to or runs.\<close>

definition entry_detail :: "catalog_entry \<Rightarrow> string option" where
  "entry_detail e =
     (if ceTransport e = ''http'' \<and> truthy_str (ceUrl e) then Some (the (ceUrl e))
      else if ceTransport e = ''stdio'' \<and> truthy_str (ceCommand e) then Some (join '' '' (the (ceCommand e) # ceArgs e))
      else None)"

text \<open>The links of an entry: its source and where it is installed from.\<close>

definition entry_links :: "catalog_entry \<Rightarrow> string list" where
  "entry_links e =
     filter is_http_url (ceSource e # (case ceInstallUrl e of None \<Rightarrow> [] | Some u \<Rightarrow> if u = [] then [] else [u]))"

definition by_entry :: "(string \<times> string) list \<Rightarrow> string \<Rightarrow> string list" where
  "by_entry diagnostics name = map snd (filter (\<lambda>d. fst d = name) diagnostics)"

section \<open>The form of a new server\<close>

datatype draft_edit =
    DraftName string | DraftTransport mcp_transport | DraftUrl string | DraftAuth mcp_http_auth | DraftBearer string
  | DraftCommand string | DraftArgs string | DraftEnv string

primrec edit_draft :: "draft_edit \<Rightarrow> mcp_draft \<Rightarrow> mcp_draft" where
  "edit_draft (DraftName v) d = d\<lparr>draftName := v\<rparr>"
| "edit_draft (DraftTransport t) d = (if t = McpStdio then d\<lparr>draftTransport := t, draftBearer := []\<rparr> else d\<lparr>draftTransport := t\<rparr>)"
| "edit_draft (DraftUrl v) d = d\<lparr>draftUrl := v\<rparr>"
| "edit_draft (DraftAuth a) d = (if a \<noteq> AuthHeader then d\<lparr>draftHttpAuth := a, draftBearer := []\<rparr> else d\<lparr>draftHttpAuth := a\<rparr>)"
| "edit_draft (DraftBearer v) d = d\<lparr>draftBearer := v\<rparr>"
| "edit_draft (DraftCommand v) d = d\<lparr>draftCommand := v\<rparr>"
| "edit_draft (DraftArgs v) d = d\<lparr>draftArgs := v\<rparr>"
| "edit_draft (DraftEnv v) d = d\<lparr>draftEnv := v\<rparr>"

text \<open>The fields the form shows.\<close>

primrec field_shown :: "mcp_draft \<Rightarrow> draft_edit \<Rightarrow> bool" where
  "field_shown d (DraftName v) = True"
| "field_shown d (DraftTransport t) = True"
| "field_shown d (DraftUrl v) = (draftTransport d = McpHttp)"
| "field_shown d (DraftAuth a) = (draftTransport d = McpHttp)"
| "field_shown d (DraftBearer v) = (draftTransport d = McpHttp \<and> draftHttpAuth d = AuthHeader)"
| "field_shown d (DraftCommand v) = (draftTransport d = McpStdio)"
| "field_shown d (DraftArgs v) = (draftTransport d = McpStdio)"
| "field_shown d (DraftEnv v) = (draftTransport d = McpStdio)"

section \<open>Installing an entry\<close>

definition empty_env :: "catalog_entry \<Rightarrow> (string \<times> string) list" where
  "empty_env e = fold (\<lambda>item env. obj_set (eiName item) [] env) (ceRequiredEnv e) []"

definition typed_value :: "(string \<times> string) list \<Rightarrow> string \<Rightarrow> string" where
  "typed_value env name = (case map_of env name of None \<Rightarrow> [] | Some v \<Rightarrow> v)"

definition missing_items :: "catalog_entry \<Rightarrow> (string \<times> string) list \<Rightarrow> env_item list" where
  "missing_items e env = filter (\<lambda>item. eiRequired item \<and> trim (typed_value env (eiName item)) = []) (ceRequiredEnv e)"

definition install_env_map :: "(string \<times> string) list \<Rightarrow> (string \<times> string) list" where
  "install_env_map env = map (\<lambda>(k, v). (k, trim v)) (filter (\<lambda>(k, v). trim v \<noteq> []) env)"

text \<open>What an installation must hold: a value for every required variable, and no other variable.\<close>

definition complete_env :: "catalog_entry \<Rightarrow> (string \<times> string) list \<Rightarrow> bool" where
  "complete_env e env \<longleftrightarrow>
     (\<forall>item \<in> set (ceRequiredEnv e). eiRequired item \<longrightarrow> (\<exists>v. map_of env (eiName item) = Some v \<and> v \<noteq> [] \<and> trimmed v))
     \<and> fst ` set env \<subseteq> eiName ` set (ceRequiredEnv e)"

lemma empty_env_keys: "fst ` set (empty_env e) = eiName ` set (ceRequiredEnv e)"
proof -
  have "fst ` set (fold (\<lambda>item env. obj_set (eiName item) [] env) items env) = fst ` set env \<union> eiName ` set items"
    for items and env :: "(string \<times> string) list"
    by (induction items arbitrary: env) auto
  from this [of "ceRequiredEnv e" "[]"] show ?thesis by (simp add: empty_env_def)
qed

lemma empty_env_distinct: "distinct (map fst (empty_env e))"
proof -
  have "distinct (map fst env) \<Longrightarrow> distinct (map fst (fold (\<lambda>item env. obj_set (eiName item) [] env) items env))"
    for items and env :: "(string \<times> string) list"
    by (induction items arbitrary: env) auto
  from this [of "[]"] show ?thesis by (simp add: empty_env_def)
qed

lemma install_env_map_lookup:
  "distinct (map fst env) \<Longrightarrow>
     map_of (install_env_map env) k = (case map_of env k of None \<Rightarrow> None | Some v \<Rightarrow> if trim v = [] then None else Some (trim v))"
proof (induction env)
  case (Cons b env)
  obtain k' v where b: "b = (k', v)" by (cases b)
  have "map_of (install_env_map env) k' = None" using Cons.prems by (force simp: b install_env_map_def map_of_eq_None_iff)
  then show ?case using Cons by (auto simp: b install_env_map_def map_of_eq_None_iff [symmetric] split: option.splits)
qed (simp add: install_env_map_def)

lemma submitted_env_complete:
  assumes "distinct (map fst env)" "fst ` set env = eiName ` set (ceRequiredEnv e)" "missing_items e env = []"
  shows "complete_env e (install_env_map env)"
proof -
  have "\<exists>v. map_of (install_env_map env) (eiName item) = Some v \<and> v \<noteq> [] \<and> trimmed v"
    if item: "item \<in> set (ceRequiredEnv e)" "eiRequired item" for item
  proof -
    have "trim (typed_value env (eiName item)) \<noteq> []"
      using assms(3) item by (auto simp: missing_items_def filter_empty_conv)
    then obtain v where "map_of env (eiName item) = Some v" "trim v \<noteq> []"
      by (cases "map_of env (eiName item)") (auto simp: typed_value_def trim_blank)
    then show ?thesis by (simp add: install_env_map_lookup [OF assms(1)] trimmed_trim)
  qed
  moreover have "fst ` set (install_env_map env) \<subseteq> fst ` set env" by (force simp: install_env_map_def)
  ultimately show ?thesis using assms(2) by (auto simp: complete_env_def)
qed

section \<open>The page\<close>

datatype mcp_call =
    MkAdd mcp_server
  | MkTest string
  | MkAuth string
  | MkToggle string bool
  | MkRemove string
  | MkInstall catalog_entry "(string \<times> string) list"

text \<open>What waits for a load: the page itself at the start, the installation of a number, or nothing.\<close>

datatype load_waiter = FirstLoad | AfterInstall nat | PlainLoad

record mcp_page =
  mpServers :: "mcp_listed list"
  mpCatalog :: "catalog_entry list"
  mpDiagnostics :: "(string \<times> string) list"
  mpLoading :: bool
  mpOpen :: bool
  mpDraft :: mcp_draft
  mpCreating :: bool
  mpTesting :: "string option"
  mpAuthing :: "string option"
  mpResults :: "(string \<times> test_result) list"
  mpToggling :: "string option"
  mpRestartNote :: bool
  mpEntry :: "catalog_entry option"
  mpEnv :: "(string \<times> string) list"
  mpInstalling :: "string option"
  mpServerLoads :: "load_waiter list"
  mpCatalogLoads :: "load_waiter list"
  mpInstalls :: nat
  mpToRemove :: "string list"
  mpCalls :: "mcp_call list"
  mpSent :: "mcp_call list"

definition mcp_page_start :: mcp_page where
  "mcp_page_start =
     \<lparr>mpServers = [], mpCatalog = [], mpDiagnostics = [], mpLoading = True, mpOpen = False,
      mpDraft = empty_mcp_server_draft, mpCreating = False, mpTesting = None, mpAuthing = None, mpResults = [],
      mpToggling = None, mpRestartNote = False, mpEntry = None, mpEnv = [], mpInstalling = None,
      mpServerLoads = [FirstLoad], mpCatalogLoads = [FirstLoad], mpInstalls = 0, mpToRemove = [], mpCalls = [], mpSent = []\<rparr>"

definition mcp_send :: "mcp_call \<Rightarrow> mcp_page \<Rightarrow> mcp_page" where
  "mcp_send c s = s\<lparr>mpCalls := mpCalls s @ [c], mpSent := mpSent s @ [c]\<rparr>"

definition load_servers :: "load_waiter \<Rightarrow> mcp_page \<Rightarrow> mcp_page" where
  "load_servers w s = s\<lparr>mpServerLoads := mpServerLoads s @ [w]\<rparr>"

definition load_catalog :: "load_waiter \<Rightarrow> mcp_page \<Rightarrow> mcp_page" where
  "load_catalog w s = s\<lparr>mpCatalogLoads := mpCatalogLoads s @ [w]\<rparr>"

text \<open>Once both loads it waits for are settled, the waiter goes on.\<close>

definition waiter_settled :: "load_waiter \<Rightarrow> mcp_page \<Rightarrow> mcp_page" where
  "waiter_settled w s =
     (if w \<in> set (mpServerLoads s) \<or> w \<in> set (mpCatalogLoads s) then s
      else (case w of FirstLoad \<Rightarrow> s\<lparr>mpLoading := False\<rparr> | AfterInstall n \<Rightarrow> s\<lparr>mpInstalling := None\<rparr> | PlainLoad \<Rightarrow> s))"

definition servers_loaded :: "nat \<Rightarrow> mcp_listed list option \<Rightarrow> mcp_page \<Rightarrow> mcp_page" where
  "servers_loaded i r s =
     waiter_settled (mpServerLoads s ! i)
       ((case r of None \<Rightarrow> s | Some ms \<Rightarrow> s\<lparr>mpServers := ms\<rparr>)\<lparr>mpServerLoads := take_out i (mpServerLoads s)\<rparr>)"

definition catalog_loaded ::
  "nat \<Rightarrow> (catalog_entry list \<times> (string \<times> string) list) option \<Rightarrow> mcp_page \<Rightarrow> mcp_page" where
  "catalog_loaded i r s =
     waiter_settled (mpCatalogLoads s ! i)
       ((case r of None \<Rightarrow> s | Some (es, ds) \<Rightarrow> s\<lparr>mpCatalog := es, mpDiagnostics := ds\<rparr>)
          \<lparr>mpCatalogLoads := take_out i (mpCatalogLoads s)\<rparr>)"

definition close_create_modal :: "mcp_page \<Rightarrow> mcp_page" where
  "close_create_modal s = s\<lparr>mpDraft := (mpDraft s)\<lparr>draftBearer := []\<rparr>, mpOpen := False\<rparr>"

definition mcp_create :: "mcp_page \<Rightarrow> mcp_page" where
  "mcp_create s =
     (case build_mcp_server_create (mpDraft s) of
        Inl e \<Rightarrow> s
      | Inr body \<Rightarrow> mcp_send (MkAdd body) (s\<lparr>mpCreating := True\<rparr>))"

definition run_install :: "catalog_entry \<Rightarrow> (string \<times> string) list \<Rightarrow> mcp_page \<Rightarrow> mcp_page" where
  "run_install e env s = mcp_send (MkInstall e env) (s\<lparr>mpInstalling := Some (ceName e)\<rparr>)"

definition install_click :: "catalog_entry \<Rightarrow> mcp_page \<Rightarrow> mcp_page" where
  "install_click e s =
     (if ceRequiredEnv e \<noteq> [] then s\<lparr>mpEnv := empty_env e, mpEntry := Some e\<rparr> else run_install e [] s)"

definition install_submit :: "mcp_page \<Rightarrow> mcp_page" where
  "install_submit s =
     (case mpEntry s of
        None \<Rightarrow> s
      | Some e \<Rightarrow> if missing_items e (mpEnv s) \<noteq> [] then s else run_install e (install_env_map (mpEnv s)) s)"

text \<open>The answers: a test gives its result, a sign-in the tools it found, the rest only whether they went well.\<close>

definition mcp_answered :: "nat \<Rightarrow> test_result option \<Rightarrow> mcp_page \<Rightarrow> mcp_page" where
  "mcp_answered i r s =
     (let s1 = s\<lparr>mpCalls := take_out i (mpCalls s)\<rparr>
      in case mpCalls s ! i of
           MkAdd body \<Rightarrow>
             (if r = None then s1
              else load_servers PlainLoad (s1\<lparr>mpDraft := empty_mcp_server_draft, mpOpen := False\<rparr>))\<lparr>mpCreating := False\<rparr>
         | MkTest n \<Rightarrow>
             (case r of None \<Rightarrow> s1 | Some t \<Rightarrow> s1\<lparr>mpResults := obj_set n t (mpResults s1)\<rparr>)\<lparr>mpTesting := None\<rparr>
         | MkAuth n \<Rightarrow>
             (case r of None \<Rightarrow> s1
              | Some t \<Rightarrow> s1\<lparr>mpResults := obj_set n \<lparr>trOk = True, trError = None, trTools = trTools t\<rparr> (mpResults s1)\<rparr>)
               \<lparr>mpAuthing := None\<rparr>
         | MkToggle n b \<Rightarrow>
             (if r = None then s1
              else s1\<lparr>mpServers := map (\<lambda>m. if mlName m = n then m\<lparr>mlEnabled := b\<rparr> else m) (mpServers s1),
                     mpRestartNote := True\<rparr>)\<lparr>mpToggling := None\<rparr>
         | MkRemove n \<Rightarrow>
             (if r = None then s1 else load_servers PlainLoad (s1\<lparr>mpResults := obj_del n (mpResults s1)\<rparr>))
         | MkInstall e env \<Rightarrow>
             (if r = None then s1\<lparr>mpInstalling := None\<rparr>
              else (let w = AfterInstall (mpInstalls s)
                    in load_catalog w (load_servers w (s1\<lparr>mpEntry := None, mpEnv := [], mpInstalls := mpInstalls s + 1\<rparr>)))))"

datatype mcp_event =
    McServers nat "mcp_listed list option"
  | McCatalog nat "(catalog_entry list \<times> (string \<times> string) list) option"
  | McOpen
  | McClose
  | McDraft draft_edit
  | McCreate
  | McTest mcp_listed
  | McAuth mcp_listed
  | McToggle mcp_listed
  | McRemove mcp_listed
  | McConfirmed string
  | McInstall catalog_entry
  | McEnv string string
  | McCloseInstall
  | McSubmit
  | McAnswered nat "test_result option"

primrec mcp_step :: "mcp_page \<Rightarrow> mcp_event \<Rightarrow> mcp_page" where
  "mcp_step s (McServers i r) = servers_loaded i r s"
| "mcp_step s (McCatalog i r) = catalog_loaded i r s"
| "mcp_step s McOpen = s\<lparr>mpOpen := True\<rparr>"
| "mcp_step s McClose = close_create_modal s"
| "mcp_step s (McDraft d) = s\<lparr>mpDraft := edit_draft d (mpDraft s)\<rparr>"
| "mcp_step s McCreate = mcp_create s"
| "mcp_step s (McTest m) = mcp_send (MkTest (mlName m)) (s\<lparr>mpTesting := Some (mlName m)\<rparr>)"
| "mcp_step s (McAuth m) = mcp_send (MkAuth (mlName m)) (s\<lparr>mpAuthing := Some (mlName m)\<rparr>)"
| "mcp_step s (McToggle m) = mcp_send (MkToggle (mlName m) (\<not> mlEnabled m)) (s\<lparr>mpToggling := Some (mlName m)\<rparr>)"
| "mcp_step s (McRemove m) = s\<lparr>mpToRemove := mlName m # mpToRemove s\<rparr>"
| "mcp_step s (McConfirmed n) = mcp_send (MkRemove n) s"
| "mcp_step s (McInstall e) = install_click e s"
| "mcp_step s (McEnv k v) = s\<lparr>mpEnv := obj_set k v (mpEnv s)\<rparr>"
| "mcp_step s McCloseInstall = s\<lparr>mpEntry := None\<rparr>"
| "mcp_step s McSubmit = install_submit s"
| "mcp_step s (McAnswered i r) = mcp_answered i r s"

primrec mcp_enabled :: "mcp_page \<Rightarrow> mcp_event \<Rightarrow> bool" where
  "mcp_enabled s (McServers i r) = (i < length (mpServerLoads s))"
| "mcp_enabled s (McCatalog i r) = (i < length (mpCatalogLoads s))"
| "mcp_enabled s McOpen = True"
| "mcp_enabled s McClose = (\<not> mpLoading s \<and> mpOpen s)"
| "mcp_enabled s (McDraft d) = (\<not> mpLoading s \<and> mpOpen s \<and> field_shown (mpDraft s) d)"
| "mcp_enabled s McCreate = (\<not> mpLoading s \<and> mpOpen s \<and> \<not> mpCreating s)"
| "mcp_enabled s (McTest m) = (\<not> mpLoading s \<and> m \<in> set (mpServers s) \<and> mpTesting s \<noteq> Some (mlName m))"
| "mcp_enabled s (McAuth m) = (\<not> mpLoading s \<and> m \<in> set (mpServers s) \<and> mlAuth m = Some ''oauth'' \<and> mpAuthing s \<noteq> Some (mlName m))"
| "mcp_enabled s (McToggle m) = (\<not> mpLoading s \<and> m \<in> set (mpServers s) \<and> mpToggling s \<noteq> Some (mlName m))"
| "mcp_enabled s (McRemove m) = (\<not> mpLoading s \<and> m \<in> set (mpServers s))"
| "mcp_enabled s (McConfirmed n) = (\<not> mpLoading s \<and> n \<in> set (mpToRemove s))"
| "mcp_enabled s (McInstall e) = (\<not> mpLoading s \<and> e \<in> set (mpCatalog s) \<and> \<not> ceInstalled e \<and> mpInstalling s \<noteq> Some (ceName e))"
| "mcp_enabled s (McEnv k v) = (\<not> mpLoading s \<and> (case mpEntry s of None \<Rightarrow> False | Some e \<Rightarrow> k \<in> set (map eiName (ceRequiredEnv e))))"
| "mcp_enabled s McCloseInstall = (\<not> mpLoading s \<and> mpEntry s \<noteq> None)"
| "mcp_enabled s McSubmit = (\<not> mpLoading s \<and> (case mpEntry s of None \<Rightarrow> False | Some e \<Rightarrow> mpInstalling s \<noteq> Some (ceName e)))"
| "mcp_enabled s (McAnswered i r) = (i < length (mpCalls s))"

section \<open>Secrets and installations\<close>

lemmas mcp_ops = mcp_send_def load_servers_def load_catalog_def servers_loaded_def catalog_loaded_def close_create_modal_def
  mcp_create_def run_install_def install_click_def install_submit_def

definition token_inv :: "bool \<Rightarrow> mcp_draft \<Rightarrow> bool" where
  "token_inv op d \<longleftrightarrow> (draftBearer d \<noteq> [] \<longrightarrow> op \<and> draftTransport d = McpHttp \<and> draftHttpAuth d = AuthHeader)"

definition env_inv :: "catalog_entry option \<Rightarrow> (string \<times> string) list \<Rightarrow> bool" where
  "env_inv en env \<longleftrightarrow> distinct (map fst env) \<and> (\<forall>e. en = Some e \<longrightarrow> fst ` set env = eiName ` set (ceRequiredEnv e))"

primrec call_ok :: "mcp_call \<Rightarrow> bool" where
  "call_ok (MkAdd body) = wf_mcp_server body"
| "call_ok (MkTest n) = True"
| "call_ok (MkAuth n) = True"
| "call_ok (MkToggle n b) = True"
| "call_ok (MkRemove n) = True"
| "call_ok (MkInstall e env) = complete_env e env"

definition mcp_inv :: "mcp_page \<Rightarrow> bool" where
  "mcp_inv s \<longleftrightarrow> token_inv (mpOpen s) (mpDraft s) \<and> env_inv (mpEntry s) (mpEnv s) \<and> list_all call_ok (mpSent s)"

lemma edit_draft_token: "token_inv op d \<Longrightarrow> field_shown d e \<Longrightarrow> token_inv True (edit_draft e d)"
proof (cases e)
  case (DraftTransport t)
  assume "token_inv op d"
  then show ?thesis by (cases t) (auto simp: DraftTransport token_inv_def)
qed (auto simp: token_inv_def)

lemma mcp_inv_send: "mcp_inv s \<Longrightarrow> call_ok c \<Longrightarrow> mcp_inv (mcp_send c s)"
  by (simp add: mcp_inv_def mcp_send_def)

lemma mcp_inv_frame:
  "mcp_inv s \<Longrightarrow> mpOpen t = mpOpen s \<Longrightarrow> mpDraft t = mpDraft s \<Longrightarrow> mpEntry t = mpEntry s \<Longrightarrow> mpEnv t = mpEnv s \<Longrightarrow>
     mpSent t = mpSent s \<Longrightarrow> mcp_inv t"
  by (simp add: mcp_inv_def)

lemma waiter_settled_frame [simp]:
  "mpOpen (waiter_settled w s) = mpOpen s" "mpDraft (waiter_settled w s) = mpDraft s" "mpEntry (waiter_settled w s) = mpEntry s"
  "mpEnv (waiter_settled w s) = mpEnv s" "mpSent (waiter_settled w s) = mpSent s"
  by (simp_all add: waiter_settled_def split: load_waiter.split)

lemma mcp_answered_inv: "mcp_inv s \<Longrightarrow> mcp_inv (mcp_answered i r s)"
  by (cases "mpCalls s ! i")
    (auto simp: mcp_answered_def mcp_inv_def mcp_ops token_inv_def env_inv_def empty_mcp_server_draft_def Let_def split: option.split)

lemma mcp_step_inv: "mcp_inv s \<Longrightarrow> mcp_enabled s e \<Longrightarrow> mcp_inv (mcp_step s e)"
proof (cases e)
  case (McDraft d)
  assume "mcp_inv s" "mcp_enabled s e"
  then show ?thesis using edit_draft_token [of "mpOpen s" "mpDraft s" d] by (simp add: McDraft mcp_inv_def)
next
  case McCreate
  assume inv: "mcp_inv s"
  show ?thesis
  proof (cases "build_mcp_server_create (mpDraft s)")
    case (Inr body)
    have "mcp_inv (s\<lparr>mpCreating := True\<rparr>)" by (rule mcp_inv_frame [OF inv]) simp_all
    then show ?thesis using built_server_wf [OF Inr] by (simp add: McCreate mcp_create_def Inr mcp_inv_send)
  qed (simp add: McCreate mcp_create_def inv)
next
  case (McInstall e')
  assume "mcp_inv s"
  then show ?thesis
    by (auto simp: McInstall install_click_def mcp_inv_def env_inv_def empty_env_distinct empty_env_keys run_install_def
        mcp_send_def complete_env_def)
next
  case McSubmit
  assume inv: "mcp_inv s" and "mcp_enabled s e"
  then obtain e' where e': "mpEntry s = Some e'" by (auto simp: McSubmit split: option.splits)
  show ?thesis
  proof (cases "missing_items e' (mpEnv s) = []")
    case True
    then have "complete_env e' (install_env_map (mpEnv s))"
      using inv e' by (intro submitted_env_complete) (simp_all add: mcp_inv_def env_inv_def)
    moreover have "mcp_inv (s\<lparr>mpInstalling := Some (ceName e')\<rparr>)" by (rule mcp_inv_frame [OF inv]) simp_all
    ultimately show ?thesis using True e' by (simp add: McSubmit install_submit_def run_install_def mcp_inv_send)
  qed (simp add: McSubmit install_submit_def e' inv)
next
  case (McEnv k v)
  assume "mcp_inv s" "mcp_enabled s e"
  then show ?thesis by (force simp: McEnv mcp_inv_def env_inv_def split: option.splits)
next
  case (McAnswered i r)
  assume "mcp_inv s"
  then show ?thesis by (simp add: McAnswered mcp_answered_inv)
next
  case McClose
  assume "mcp_inv s"
  then show ?thesis by (simp add: McClose close_create_modal_def mcp_inv_def token_inv_def)
next
  case McOpen
  assume "mcp_inv s"
  then show ?thesis by (auto simp: McOpen mcp_inv_def token_inv_def)
next
  case McCloseInstall
  assume "mcp_inv s"
  then show ?thesis by (simp add: McCloseInstall mcp_inv_def env_inv_def)
qed (simp_all add: mcp_inv_def mcp_ops split: option.split prod.split)

interpretation mcp_page: machine mcp_page_start mcp_step mcp_enabled mcp_inv
proof
  show "mcp_inv mcp_page_start"
    by (simp add: mcp_inv_def token_inv_def env_inv_def mcp_page_start_def empty_mcp_server_draft_def)
qed (rule mcp_step_inv)

text \<open>Claim C37. The page of the servers is careful: in every run, whatever is installed gets a trimmed value for each
  variable it requires and none it does not declare, whatever is added is a well-formed server, and a bearer
  token is kept only while the form is open and shows its field.\<close>

theorem mcp_page_is_careful:
  assumes "legal_run mcp_enabled mcp_step mcp_page_start es" "s = foldl mcp_step mcp_page_start es"
  shows "(\<forall>e env. MkInstall e env \<in> set (mpSent s) \<longrightarrow> complete_env e env)
    \<and> (\<forall>body. MkAdd body \<in> set (mpSent s) \<longrightarrow> wf_mcp_server body)
    \<and> (draftBearer (mpDraft s) \<noteq> [] \<longrightarrow> mpOpen s \<and> draftTransport (mpDraft s) = McpHttp \<and> draftHttpAuth (mpDraft s) = AuthHeader)"
  using mcp_page.run_inv [OF assms(1)] by (auto simp: assms(2) mcp_inv_def token_inv_def list_all_iff)

definition keyed_entry :: catalog_entry where
  "keyed_entry = \<lparr>ceName = ''gh'', ceSource = [], ceTransport = ''stdio'', ceRequiredEnv = [\<lparr>eiName = ''TOKEN'', eiPrompt = ''Token'', eiRequired = True\<rparr>],
     ceCommand = Some ''npx'', ceArgs = [], ceUrl = None, ceInstallUrl = None, ceInstalled = False\<rparr>"

definition install_run :: "mcp_event list" where
  "install_run = [McServers 0 (Some []), McCatalog 0 (Some ([keyed_entry], [])), McInstall keyed_entry, McSubmit, McEnv ''TOKEN'' '' t '', McSubmit]"

theorem mcp_page_is_careful_witness:
  "mpSent (foldl mcp_step mcp_page_start install_run) = [MkInstall keyed_entry [(''TOKEN'', ''t'')]]
   \<and> complete_env keyed_entry [(''TOKEN'', ''t'')]"
proof -
  have "legal_run mcp_enabled mcp_step mcp_page_start install_run" by code_simp
  moreover have sent: "mpSent (foldl mcp_step mcp_page_start install_run) = [MkInstall keyed_entry [(''TOKEN'', ''t'')]]" by code_simp
  ultimately show ?thesis using mcp_page_is_careful [OF _ refl, of install_run] by simp
qed

text \<open>The links of an entry lead to the web.\<close>

lemma links_are_http: "u \<in> set (entry_links e) \<Longrightarrow> is_http_url u"
  unfolding entry_links_def set_filter by blast

section \<open>One slot for all servers\<close>

definition plain_server :: "string \<Rightarrow> mcp_listed" where
  "plain_server n = \<lparr>mlName = n, mlTransport = ''stdio'', mlUrl = None, mlCommand = Some ''x'', mlArgs = [], mlEnv = [], mlAuth = None, mlEnabled = True\<rparr>"

text \<open>Switching another server frees the switch of the first while its request is under way.\<close>

theorem switches_overlap:
  "let es = [McServers 0 (Some [plain_server ''a'', plain_server ''b'']), McCatalog 0 None, McToggle (plain_server ''a''),
             McToggle (plain_server ''b''), McToggle (plain_server ''a'')]
   in legal_run mcp_enabled mcp_step mcp_page_start es
     \<and> mpCalls (foldl mcp_step mcp_page_start es) = [MkToggle ''a'' False, MkToggle ''b'' False, MkToggle ''a'' False]"
  by code_simp

text \<open>A test answered after the removal of its server leaves a result that a new server of that name shows.\<close>

theorem removed_server_keeps_a_result:
  "let t = \<lparr>trOk = True, trError = None, trTools = []\<rparr>;
       es = [McServers 0 (Some [plain_server ''a'']), McCatalog 0 None, McTest (plain_server ''a''), McRemove (plain_server ''a''), McConfirmed ''a'',
             McAnswered 1 (Some t), McServers 0 (Some []), McAnswered 0 (Some t)]
   in legal_run mcp_enabled mcp_step mcp_page_start es
     \<and> mpServers (foldl mcp_step mcp_page_start es) = [] \<and> map_of (mpResults (foldl mcp_step mcp_page_start es)) ''a'' = Some t"
  by code_simp

text \<open>An installation that ends closes the form of another entry with what was typed into it.\<close>

theorem installation_closes_another_form:
  "let free = keyed_entry\<lparr>ceName := ''free'', ceRequiredEnv := []\<rparr>;
       es = [McServers 0 None, McCatalog 0 (Some ([free, keyed_entry], [])), McInstall free, McInstall keyed_entry, McEnv ''TOKEN'' ''t'',
             McAnswered 0 (Some \<lparr>trOk = True, trError = None, trTools = []\<rparr>)]
   in legal_run mcp_enabled mcp_step mcp_page_start es
     \<and> mpEntry (foldl mcp_step mcp_page_start es) = None \<and> mpEnv (foldl mcp_step mcp_page_start es) = []"
  by code_simp

end
