(* ===== verification/PluginsPage.thy ===== *)
theory PluginsPage
  imports JsValue
begin

text \<open>
  The page of the plugins, \<open>web/src/pages/PluginsPage.tsx\<close>: the form of a memory provider with its visible fields, what
  is said of its set-up, the rows of the plugins, and the page as a state machine. A call that succeeds is followed
  by a load of the hub, and its button stays busy until that is settled. The effect of another memory provider
  runs before the next event. Toasts and texts are left out.
\<close>

section \<open>The fields of a memory provider\<close>

datatype memory_value = MText string | MFlag bool

record memory_field =
  mfKey :: string
  mfKind :: string
  mfRequired :: bool
  mfValue :: js
  mfSet :: bool
  mfWhen :: "(string \<times> js) list option"

type_synonym memory_values = "(string \<times> memory_value) list"

definition memory_status_label :: "string \<Rightarrow> string" where
  "memory_status_label st = (if st = ''needs_config'' then ''needs setup'' else st)"

definition memory_status_tone :: "string \<Rightarrow> string" where
  "memory_status_tone st =
     (if st = ''ready'' then ''success'' else if st = ''needs_config'' then ''warning'' else ''destructive'')"

definition field_initial_value :: "memory_field \<Rightarrow> memory_value" where
  "field_initial_value f =
     (if mfKind f = ''secret'' then MText []
      else if mfKind f = ''boolean'' then MFlag (truthy (mfValue f))
      else MText (if mfValue f = JUndef \<or> mfValue f = JNull then [] else js_string (mfValue f)))"

definition initial_memory_values :: "memory_field list \<Rightarrow> memory_values" where
  "initial_memory_values fs = obj_spread [] (map (\<lambda>f. (mfKey f, field_initial_value f)) fs)"

definition value_text :: "memory_value option \<Rightarrow> string" where
  "value_text v = (case v of None \<Rightarrow> [] | Some (MText s) \<Rightarrow> s | Some (MFlag b) \<Rightarrow> js_string (JBool b))"

definition field_is_visible :: "memory_field \<Rightarrow> memory_values \<Rightarrow> bool" where
  "field_is_visible f vs =
     (case mfWhen f of
        None \<Rightarrow> True
      | Some conds \<Rightarrow> list_all (\<lambda>(k, expected). value_text (map_of vs k) = js_string expected) conds)"

definition visible_fields :: "memory_field list option \<Rightarrow> memory_values \<Rightarrow> memory_field list" where
  "visible_fields config vs = filter (\<lambda>f. field_is_visible f vs) (case config of None \<Rightarrow> [] | Some fs \<Rightarrow> fs)"

definition visible_values :: "memory_field list option \<Rightarrow> memory_values \<Rightarrow> memory_values" where
  "visible_values config vs =
     filter (\<lambda>(k, v). case find (\<lambda>f. mfKey f = k) (case config of None \<Rightarrow> [] | Some fs \<Rightarrow> fs) of
                        None \<Rightarrow> True | Some f \<Rightarrow> field_is_visible f vs) vs"

lemma fold_obj_set_keys: "fst ` set (fold (\<lambda>(k, v) acc. obj_set k v acc) qs ps) = fst ` set ps \<union> fst ` set qs"
proof (induction qs arbitrary: ps)
  case (Cons q qs)
  obtain k v where "q = (k, v)" by (cases q)
  then show ?case by (simp add: Cons.IH)
qed simp

lemma initial_memory_keys: "fst ` set (initial_memory_values fs) = mfKey ` set fs"
  by (simp add: initial_memory_values_def obj_spread_def fold_obj_set_keys image_image)

text \<open>A value that depends on another is sent only while it is shown: for fields of distinct keys, what is sent of a
  full form are the values of exactly the visible fields.\<close>

lemma visible_values_keys:
  assumes "distinct (map mfKey fs)" "fst ` set vs = mfKey ` set fs"
  shows "fst ` set (visible_values (Some fs) vs) = mfKey ` set (visible_fields (Some fs) vs)"
proof -
  have found: "find (\<lambda>f. mfKey f = mfKey f') fs = Some f'" if "f' \<in> set fs" for f'
    using assms(1) that by (induction fs) auto
  have "k \<in> fst ` set (visible_values (Some fs) vs) \<longleftrightarrow> (\<exists>f \<in> set fs. mfKey f = k \<and> field_is_visible f vs)" for k
  proof -
    have "k \<in> fst ` set (visible_values (Some fs) vs) \<longleftrightarrow>
        k \<in> fst ` set vs \<and> (case find (\<lambda>f. mfKey f = k) fs of None \<Rightarrow> True | Some f \<Rightarrow> field_is_visible f vs)"
      by (force simp: visible_values_def)
    also have "\<dots> \<longleftrightarrow> (\<exists>f \<in> set fs. mfKey f = k \<and> field_is_visible f vs)"
      unfolding assms(2) using found by fastforce
    finally show ?thesis .
  qed
  then have "fst ` set (visible_values (Some fs) vs) = {k. \<exists>f \<in> set fs. mfKey f = k \<and> field_is_visible f vs}" by blast
  also have "\<dots> = mfKey ` set (visible_fields (Some fs) vs)" by (auto simp: visible_fields_def)
  finally show ?thesis .
qed

section \<open>Setting a provider up\<close>

record external_dep =
  xdName :: "string option"
  xdInstall :: "string option"
  xdCheck :: "string option"

record setup_info =
  siExternal :: "external_dep list"
  siPip :: "string list"
  siEnv :: "string list"
  siInstalled :: "bool option"

definition setup_has_details :: "setup_info option \<Rightarrow> bool" where
  "setup_has_details su = (case su of None \<Rightarrow> False | Some i \<Rightarrow> siExternal i \<noteq> [] \<or> siPip i \<noteq> [] \<or> siEnv i \<noteq> [])"

definition setup_has_installable_steps :: "setup_info option \<Rightarrow> bool" where
  "setup_has_installable_steps su =
     (case su of None \<Rightarrow> False | Some i \<Rightarrow> list_ex (\<lambda>d. truthy_str (xdInstall d)) (siExternal i) \<or> siPip i \<noteq> [])"

record memory_info =
  miName :: string
  miStatus :: string
  miSetup :: "setup_info option"

definition dependencies_installed :: "memory_info \<Rightarrow> bool" where
  "dependencies_installed p =
     (let dflt = \<not> setup_has_installable_steps (miSetup p)
      in case miSetup p of None \<Rightarrow> dflt | Some i \<Rightarrow> (case siInstalled i of None \<Rightarrow> dflt | Some b \<Rightarrow> b))"

definition needs_dependency_setup :: "memory_info \<Rightarrow> bool" where
  "needs_dependency_setup p = (setup_has_installable_steps (miSetup p) \<and> \<not> dependencies_installed p)"

datatype setup_hint = NoHint | ManualHint | SetupHint bool bool

text \<open>\<open>SetupHint blocked button\<close>: whether the hint is shown as a fault, and whether it has the button.\<close>

definition setup_hint_of :: "memory_info \<Rightarrow> bool \<Rightarrow> setup_hint" where
  "setup_hint_of p has_results =
     (let su = miSetup p; needs = needs_dependency_setup p
      in if \<not> (has_results \<or> needs \<or> miStatus p = ''unavailable'' \<and> setup_has_details su \<and> \<not> dependencies_installed p) then NoHint
         else if \<not> setup_has_details su then ManualHint
         else SetupHint (miStatus p = ''unavailable'' \<and> needs) needs)"

definition setup_result_label :: "string \<Rightarrow> string" where
  "setup_result_label status =
     (if status = ''already_installed'' then ''already installed''
      else if status = ''no_declared_steps'' then ''no declared setup''
      else map (\<lambda>c. if c = CHR ''_'' then CHR '' '' else c) status)"

definition setup_result_tone :: "string \<Rightarrow> string" where
  "setup_result_tone status =
     (if status = ''failed'' then ''destructive''
      else if status \<in> set [''installed'', ''verified'', ''already_installed''] then ''success''
      else if status = ''missing'' then ''warning'' else ''border'')"

definition failed_names :: "(string \<times> string) list \<Rightarrow> string list" where
  "failed_names results = remdups (map fst (filter (\<lambda>r. snd r = ''failed'') results))"

text \<open>The button is there exactly when something can be installed that is not.\<close>

lemma setup_button: "(\<exists>b. setup_hint_of p r = SetupHint b True) \<longleftrightarrow> needs_dependency_setup p"
proof -
  have "needs_dependency_setup p \<Longrightarrow> setup_has_details (miSetup p)"
    by (auto simp: needs_dependency_setup_def setup_has_installable_steps_def setup_has_details_def list_ex_iff split: option.splits)
  then show ?thesis by (auto simp: setup_hint_of_def Let_def)
qed

section \<open>The rows\<close>

record plugin_row =
  prName :: string
  prStatus :: string
  prTab :: "(string \<times> string option \<times> bool) option"
  prHasManifest :: bool
  prCanRemove :: bool
  prCanUpdate :: bool
  prHidden :: bool

definition tab_path :: "plugin_row \<Rightarrow> string option" where
  "tab_path r =
     (case prTab r of
        None \<Rightarrow> None
      | Some (path, over, hidden) \<Rightarrow> if hidden then None else Some (case over of None \<Rightarrow> path | Some o' \<Rightarrow> o'))"

definition status_badge :: "plugin_row \<Rightarrow> string" where
  "status_badge r = (if prStatus r = ''enabled'' then ''success'' else if prStatus r = ''disabled'' then ''destructive'' else ''outline'')"

datatype row_action = RowEnable | RowDisable | RowUpdate | RowVisibility bool | RowRemove

definition row_actions :: "plugin_row \<Rightarrow> row_action list" where
  "row_actions r =
     (if prStatus r = ''enabled'' then [RowDisable] else [RowEnable])
     @ (if prCanUpdate r then [RowUpdate] else [])
     @ (if prHasManifest r then [RowVisibility (\<not> prHidden r)] else [])
     @ (if prCanRemove r then [RowRemove] else [])"

section \<open>The page\<close>

record plugins_hub =
  phRows :: "plugin_row list"
  phMemory :: string
  phOptions :: "memory_info list"
  phContext :: string
  phContexts :: "string list"

datatype plugin_call =
    PcInstall string bool bool
  | PcRescan
  | PcBuiltin
  | PcUpdate string memory_values
  | PcSetup string memory_values
  | PcContext string
  | PcRow string row_action

text \<open>The button that is busy until a call, and the load of the hub after it, is settled.\<close>

datatype hub_waiter = FirstHub | AfterInstalling | AfterRescan | AfterMemory | AfterSetup | AfterContext | AfterRow

primrec waiter_of :: "plugin_call \<Rightarrow> hub_waiter" where
  "waiter_of (PcInstall i f e) = AfterInstalling"
| "waiter_of PcRescan = AfterRescan"
| "waiter_of PcBuiltin = AfterMemory"
| "waiter_of (PcUpdate p vs) = AfterMemory"
| "waiter_of (PcSetup p vs) = AfterSetup"
| "waiter_of (PcContext c) = AfterContext"
| "waiter_of (PcRow n a) = AfterRow"

text \<open>\<open>plSel\<close> is the memory provider selected, \<open>None\<close> the built-in one. \<open>plAsked\<close> is the provider whose configuration is
  awaited, \<open>plSeen\<close> are those that came, and \<open>plLoads\<close> the loads of the hub, each with the provider it will select.\<close>

record plugins_page =
  plHub :: "plugins_hub option"
  plLoading :: bool
  plInstallId :: string
  plInstallBusy :: bool
  plRescanBusy :: bool
  plSel :: "string option"
  plConfig :: "memory_field list option"
  plValues :: memory_values
  plConfigBusy :: bool
  plShown :: "(string \<times> bool) list"
  plContext :: string
  plMemoryBusy :: bool
  plSetupBusy :: bool
  plResults :: "(string \<times> string) list option"
  plContextBusy :: bool
  plRowBusy :: "string option"
  plAsked :: "string option"
  plLoads :: "(hub_waiter \<times> string option) list"
  plCalls :: "plugin_call list"
  plSent :: "plugin_call list"
  plSeen :: "(string \<times> memory_field list) list"

definition plugins_start :: plugins_page where
  "plugins_start =
     \<lparr>plHub = None, plLoading = True, plInstallId = [], plInstallBusy = False, plRescanBusy = False, plSel = None,
      plConfig = None, plValues = [], plConfigBusy = False, plShown = [], plContext = ''compressor'', plMemoryBusy = False,
      plSetupBusy = False, plResults = None, plContextBusy = False, plRowBusy = None, plAsked = None,
      plLoads = [(FirstHub, None)], plCalls = [], plSent = [], plSeen = []\<rparr>"

definition select_memory :: "string option \<Rightarrow> plugins_page \<Rightarrow> plugins_page" where
  "select_memory v s =
     (if v = plSel s then s
      else (let s1 = s\<lparr>plSel := v, plShown := [], plResults := None, plAsked := v\<rparr>
            in case v of
                 None \<Rightarrow> s1\<lparr>plConfig := None, plValues := [], plConfigBusy := False\<rparr>
               | Some p \<Rightarrow> s1\<lparr>plConfigBusy := True\<rparr>))"

definition config_loaded :: "memory_field list option \<Rightarrow> plugins_page \<Rightarrow> plugins_page" where
  "config_loaded r s =
     (case r of
        None \<Rightarrow> s\<lparr>plConfig := None, plValues := []\<rparr>
      | Some fs \<Rightarrow>
          s\<lparr>plConfig := Some fs, plValues := initial_memory_values fs,
            plSeen := (case plAsked s of None \<Rightarrow> plSeen s | Some p \<Rightarrow> (p, fs) # plSeen s)\<rparr>)
       \<lparr>plConfigBusy := False, plAsked := None\<rparr>"

primrec release :: "hub_waiter \<Rightarrow> plugins_page \<Rightarrow> plugins_page" where
  "release FirstHub s = s\<lparr>plLoading := False\<rparr>"
| "release AfterInstalling s = s\<lparr>plInstallBusy := False\<rparr>"
| "release AfterRescan s = s\<lparr>plRescanBusy := False\<rparr>"
| "release AfterMemory s = s\<lparr>plMemoryBusy := False\<rparr>"
| "release AfterSetup s = s\<lparr>plSetupBusy := False\<rparr>"
| "release AfterContext s = s\<lparr>plContextBusy := False\<rparr>"
| "release AfterRow s = s\<lparr>plRowBusy := None\<rparr>"

definition active_provider :: "plugins_hub \<Rightarrow> string option" where
  "active_provider h = (if phMemory h = [] then None else Some (phMemory h))"

definition hub_loaded :: "nat \<Rightarrow> plugins_hub option \<Rightarrow> plugins_page \<Rightarrow> plugins_page" where
  "hub_loaded i r s =
     (let (w, sel) = plLoads s ! i; s1 = s\<lparr>plLoads := take_out i (plLoads s)\<rparr>
      in release w
           (case r of
              None \<Rightarrow> s1
            | Some h \<Rightarrow>
                select_memory (case sel of Some p \<Rightarrow> Some p | None \<Rightarrow> active_provider h)
                  (s1\<lparr>plHub := Some h, plContext := (if phContext h = [] then ''compressor'' else phContext h)\<rparr>)))"

definition plugin_send :: "plugin_call \<Rightarrow> plugins_page \<Rightarrow> plugins_page" where
  "plugin_send c s = s\<lparr>plCalls := plCalls s @ [c], plSent := plSent s @ [c]\<rparr>"

definition on_install :: "bool \<Rightarrow> bool \<Rightarrow> plugins_page \<Rightarrow> plugins_page" where
  "on_install force enable s =
     (let i = trim (plInstallId s)
      in if i = [] then s else plugin_send (PcInstall i force enable) (s\<lparr>plInstallBusy := True\<rparr>))"

definition save_memory_provider :: "plugins_page \<Rightarrow> plugins_page" where
  "save_memory_provider s =
     (let s1 = s\<lparr>plMemoryBusy := True\<rparr>
      in case plSel s of
           None \<Rightarrow> plugin_send PcBuiltin s1
         | Some p \<Rightarrow> plugin_send (PcUpdate p (visible_values (plConfig s) (plValues s))) s1)"

definition setup_memory_provider :: "plugins_page \<Rightarrow> plugins_page" where
  "setup_memory_provider s =
     (case plSel s of
        None \<Rightarrow> s
      | Some p \<Rightarrow>
          plugin_send (PcSetup p (visible_values (plConfig s) (plValues s))) (s\<lparr>plSetupBusy := True, plResults := None\<rparr>))"

text \<open>The answer of a set-up has its results, by name and status.\<close>

definition plugin_answered :: "nat \<Rightarrow> (string \<times> string) list option \<Rightarrow> plugins_page \<Rightarrow> plugins_page" where
  "plugin_answered i r s =
     (let c = plCalls s ! i; s1 = s\<lparr>plCalls := take_out i (plCalls s)\<rparr>
      in case r of
           None \<Rightarrow> release (waiter_of c) s1
         | Some rs \<Rightarrow>
             (let s2 = (case c of PcInstall j f e \<Rightarrow> s1\<lparr>plInstallId := []\<rparr> | PcSetup p vs \<Rightarrow> s1\<lparr>plResults := Some rs\<rparr> | _ \<Rightarrow> s1);
                  sel = (case c of PcSetup p vs \<Rightarrow> Some p | _ \<Rightarrow> None)
              in s2\<lparr>plLoads := plLoads s2 @ [(waiter_of c, sel)]\<rparr>))"

datatype plugins_event =
    PlHub nat "plugins_hub option"
  | PlConfig "memory_field list option"
  | PlSelect "string option"
  | PlValue string memory_value
  | PlShow string
  | PlContext string
  | PlInstallId string
  | PlInstall bool bool
  | PlRescan
  | PlSaveMemory
  | PlSetup
  | PlSaveContext
  | PlRow plugin_row row_action
  | PlAnswered nat "(string \<times> string) list option"

primrec plugins_step :: "plugins_page \<Rightarrow> plugins_event \<Rightarrow> plugins_page" where
  "plugins_step s (PlHub i r) = hub_loaded i r s"
| "plugins_step s (PlConfig r) = config_loaded r s"
| "plugins_step s (PlSelect v) = select_memory v s"
| "plugins_step s (PlValue k v) = s\<lparr>plValues := obj_set k v (plValues s)\<rparr>"
| "plugins_step s (PlShow k) = s\<lparr>plShown := obj_set k (map_of (plShown s) k \<noteq> Some True) (plShown s)\<rparr>"
| "plugins_step s (PlContext c) = s\<lparr>plContext := c\<rparr>"
| "plugins_step s (PlInstallId v) = s\<lparr>plInstallId := v\<rparr>"
| "plugins_step s (PlInstall f e) = on_install f e s"
| "plugins_step s PlRescan = plugin_send PcRescan (s\<lparr>plRescanBusy := True\<rparr>)"
| "plugins_step s PlSaveMemory = save_memory_provider s"
| "plugins_step s PlSetup = setup_memory_provider s"
| "plugins_step s PlSaveContext = plugin_send (PcContext (plContext s)) (s\<lparr>plContextBusy := True\<rparr>)"
| "plugins_step s (PlRow r a) = plugin_send (PcRow (prName r) a) (s\<lparr>plRowBusy := Some (prName r)\<rparr>)"
| "plugins_step s (PlAnswered i r) = plugin_answered i r s"

definition selected_info :: "plugins_page \<Rightarrow> memory_info option" where
  "selected_info s =
     (case (plHub s, plSel s) of (Some h, Some p) \<Rightarrow> find (\<lambda>m. miName m = p) (phOptions h) | _ \<Rightarrow> None)"

definition hub_options :: "plugins_page \<Rightarrow> string list" where
  "hub_options s = (case plHub s of None \<Rightarrow> [] | Some h \<Rightarrow> map miName (phOptions h))"

primrec plugins_enabled :: "plugins_page \<Rightarrow> plugins_event \<Rightarrow> bool" where
  "plugins_enabled s (PlHub i r) = (i < length (plLoads s))"
| "plugins_enabled s (PlConfig r) = (plAsked s \<noteq> None)"
| "plugins_enabled s (PlSelect v) = (plHub s \<noteq> None \<and> (case v of None \<Rightarrow> True | Some p \<Rightarrow> p \<in> set (hub_options s)))"
| "plugins_enabled s (PlValue k v) =
     (plHub s \<noteq> None \<and> plSel s \<noteq> None \<and> \<not> plConfigBusy s \<and> k \<in> set (map mfKey (visible_fields (plConfig s) (plValues s))))"
| "plugins_enabled s (PlShow k) =
     (plHub s \<noteq> None \<and> plSel s \<noteq> None \<and> \<not> plConfigBusy s \<and> k \<in> set (map mfKey (visible_fields (plConfig s) (plValues s))))"
| "plugins_enabled s (PlContext c) = (plHub s \<noteq> None)"
| "plugins_enabled s (PlInstallId v) = True"
| "plugins_enabled s (PlInstall f e) = (\<not> plInstallBusy s)"
| "plugins_enabled s PlRescan = (\<not> plLoading s \<and> \<not> plRescanBusy s)"
| "plugins_enabled s PlSaveMemory = (plHub s \<noteq> None \<and> \<not> plMemoryBusy s \<and> \<not> plConfigBusy s \<and> \<not> plSetupBusy s)"
| "plugins_enabled s PlSetup =
     (case selected_info s of None \<Rightarrow> False | Some m \<Rightarrow> needs_dependency_setup m \<and> \<not> plSetupBusy s)"
| "plugins_enabled s PlSaveContext = (plHub s \<noteq> None \<and> \<not> plContextBusy s)"
| "plugins_enabled s (PlRow r a) =
     (case plHub s of
        None \<Rightarrow> False
      | Some h \<Rightarrow> \<not> plLoading s \<and> r \<in> set (phRows h) \<and> a \<in> set (row_actions r) \<and> plRowBusy s \<noteq> Some (prName r))"
| "plugins_enabled s (PlAnswered i r) = (i < length (plCalls s))"

section \<open>Whose values are saved\<close>

definition own_values :: "(string \<times> memory_field list) list \<Rightarrow> string \<Rightarrow> memory_values \<Rightarrow> bool" where
  "own_values seen p vs \<longleftrightarrow> vs = [] \<or> (\<exists>fs. (p, fs) \<in> set seen \<and> fst ` set vs \<subseteq> mfKey ` set fs)"

text \<open>The values of a form are those of a configuration that came for the provider.\<close>

definition fitting_form ::
  "(string \<times> memory_field list) list \<Rightarrow> string option \<Rightarrow> memory_field list option \<Rightarrow> memory_values \<Rightarrow> bool" where
  "fitting_form seen sel config vs \<longleftrightarrow>
     (case config of
        None \<Rightarrow> vs = []
      | Some fs \<Rightarrow> \<exists>p. sel = Some p \<and> (p, fs) \<in> set seen \<and> fst ` set vs = mfKey ` set fs)"

definition form_inv :: "plugins_page \<Rightarrow> bool" where
  "form_inv s \<longleftrightarrow>
     (plConfigBusy s \<longleftrightarrow> plAsked s \<noteq> None) \<and> (plAsked s \<noteq> None \<longrightarrow> plSel s = plAsked s)
     \<and> (plAsked s = None \<longrightarrow> fitting_form (plSeen s) (plSel s) (plConfig s) (plValues s))"

definition plugins_inv :: "plugins_page \<Rightarrow> bool" where
  "plugins_inv s \<longleftrightarrow> form_inv s \<and> (\<forall>p vs. PcUpdate p vs \<in> set (plSent s) \<longrightarrow> own_values (plSeen s) p vs)"

lemma own_values_more: "own_values seen p vs \<Longrightarrow> set seen \<subseteq> set seen' \<Longrightarrow> own_values seen' p vs"
  by (auto simp: own_values_def)

lemma form_inv_cong:
  "plConfigBusy t = plConfigBusy s \<Longrightarrow> plAsked t = plAsked s \<Longrightarrow> plSel t = plSel s \<Longrightarrow> plConfig t = plConfig s \<Longrightarrow>
     plValues t = plValues s \<Longrightarrow> plSeen t = plSeen s \<Longrightarrow> form_inv t = form_inv s"
  by (simp add: form_inv_def)

lemma release_form [simp]:
  "plConfigBusy (release w s) = plConfigBusy s" "plAsked (release w s) = plAsked s" "plSel (release w s) = plSel s"
  "plConfig (release w s) = plConfig s" "plValues (release w s) = plValues s" "plSeen (release w s) = plSeen s"
  "plSent (release w s) = plSent s"
  by (cases w; simp)+

lemma select_memory_form: "form_inv s \<Longrightarrow> form_inv (select_memory v s)"
  by (auto simp: select_memory_def form_inv_def fitting_form_def Let_def split: option.split)

lemma select_memory_keeps [simp]: "plSent (select_memory v s) = plSent s" "plSeen (select_memory v s) = plSeen s"
  by (simp_all add: select_memory_def Let_def split: option.split)

lemma config_loaded_form: "form_inv s \<Longrightarrow> plAsked s \<noteq> None \<Longrightarrow> form_inv (config_loaded r s)"
  by (auto simp: config_loaded_def form_inv_def fitting_form_def initial_memory_keys split: option.split)

lemma plugins_inv_frame:
  "plugins_inv s \<Longrightarrow> form_inv t \<Longrightarrow> plSent t = plSent s \<Longrightarrow> set (plSeen s) \<subseteq> set (plSeen t) \<Longrightarrow> plugins_inv t"
  by (auto simp: plugins_inv_def intro: own_values_more)

lemma plugins_inv_send:
  "plugins_inv s \<Longrightarrow> (\<And>p vs. c = PcUpdate p vs \<Longrightarrow> own_values (plSeen s) p vs) \<Longrightarrow> plugins_inv (plugin_send c s)"
  by (auto simp: plugins_inv_def plugin_send_def form_inv_def)

lemma form_values_own: "form_inv s \<Longrightarrow> plAsked s = None \<Longrightarrow> plSel s = Some p \<Longrightarrow> own_values (plSeen s) p (visible_values (plConfig s) (plValues s))"
proof (cases "plConfig s")
  case None
  assume "form_inv s" "plAsked s = None"
  then show ?thesis using None by (simp add: form_inv_def fitting_form_def own_values_def visible_values_def)
next
  case (Some fs)
  assume "form_inv s" "plAsked s = None" "plSel s = Some p"
  then have "(p, fs) \<in> set (plSeen s)" "fst ` set (plValues s) = mfKey ` set fs" using Some by (simp_all add: form_inv_def fitting_form_def)
  moreover have "fst ` set (visible_values (plConfig s) (plValues s)) \<subseteq> fst ` set (plValues s)" unfolding visible_values_def by (intro image_mono) simp
  ultimately show ?thesis unfolding own_values_def by (intro disjI2 exI [of _ fs]) simp
qed

lemma plugins_step_inv: "plugins_inv s \<Longrightarrow> plugins_enabled s e \<Longrightarrow> plugins_inv (plugins_step s e)"
proof -
  assume inv: "plugins_inv s" and en: "plugins_enabled s e"
  then have form: "form_inv s" by (simp add: plugins_inv_def)
  have same: "plugins_inv t" if "plConfigBusy t = plConfigBusy s" "plAsked t = plAsked s" "plSel t = plSel s"
    "plConfig t = plConfig s" "plValues t = plValues s" "plSeen t = plSeen s" "plSent t = plSent s" for t
    using inv form form_inv_cong [OF that(1-6)] that(6,7) by (auto intro!: plugins_inv_frame [OF inv])
  show ?thesis
  proof (cases e)
    case (PlHub i r)
    obtain w sel where w: "plLoads s ! i = (w, sel)" by (cases "plLoads s ! i")
    have "form_inv (hub_loaded i r s)"
    proof (cases r)
      case (Some h)
      let ?t = "s\<lparr>plLoads := take_out i (plLoads s), plHub := Some h,
        plContext := (if phContext h = [] then ''compressor'' else phContext h)\<rparr>"
      have "form_inv ?t" using form by (simp add: form_inv_def)
      then have "form_inv (select_memory v ?t)" for v by (rule select_memory_form)
      then show ?thesis by (simp add: hub_loaded_def w Some Let_def form_inv_def)
    qed (use form in \<open>simp add: hub_loaded_def w Let_def form_inv_def\<close>)
    then show ?thesis unfolding PlHub plugins_step.simps
      by (intro plugins_inv_frame [OF inv]) (simp_all add: hub_loaded_def w Let_def split: option.split)
  next
    case (PlConfig r)
    then have "form_inv (config_loaded r s)" using form en by (intro config_loaded_form) simp_all
    then show ?thesis unfolding PlConfig plugins_step.simps
      by (intro plugins_inv_frame [OF inv]) (auto simp: config_loaded_def split: option.split)
  next
    case (PlSelect v)
    then show ?thesis using select_memory_form [OF form, of v] by (auto intro: plugins_inv_frame [OF inv])
  next
    case (PlValue k v)
    have "form_inv (s\<lparr>plValues := obj_set k v (plValues s)\<rparr>)"
      using form en by (auto simp: PlValue form_inv_def fitting_form_def visible_fields_def split: option.splits)
    then show ?thesis unfolding PlValue plugins_step.simps by (intro plugins_inv_frame [OF inv]) simp_all
  next
    case PlSaveMemory
    have "plugins_inv (s\<lparr>plMemoryBusy := True\<rparr>)" by (rule same) simp_all
    then show ?thesis using form_values_own [OF form] form en
      by (auto simp: PlSaveMemory save_memory_provider_def form_inv_def Let_def split: option.split intro!: plugins_inv_send)
  next
    case PlSetup
    have "plugins_inv (s\<lparr>plSetupBusy := True, plResults := None\<rparr>)" by (rule same) simp_all
    then show ?thesis using inv by (auto simp: PlSetup setup_memory_provider_def split: option.split intro!: plugins_inv_send)
  next
    case (PlInstall f b)
    have "plugins_inv (s\<lparr>plInstallBusy := True\<rparr>)" by (rule same) simp_all
    then show ?thesis using inv by (auto simp: PlInstall on_install_def Let_def intro!: plugins_inv_send)
  next
    case PlRescan
    have "plugins_inv (s\<lparr>plRescanBusy := True\<rparr>)" by (rule same) simp_all
    then show ?thesis by (auto simp: PlRescan intro!: plugins_inv_send)
  next
    case PlSaveContext
    have "plugins_inv (s\<lparr>plContextBusy := True\<rparr>)" by (rule same) simp_all
    then show ?thesis by (auto simp: PlSaveContext intro!: plugins_inv_send)
  next
    case (PlRow r a)
    have "plugins_inv (s\<lparr>plRowBusy := Some (prName r)\<rparr>)" by (rule same) simp_all
    then show ?thesis by (auto simp: PlRow intro!: plugins_inv_send)
  next
    case (PlAnswered i r)
    show ?thesis unfolding PlAnswered plugins_step.simps
      by (rule same) (simp_all add: plugin_answered_def Let_def split: option.split plugin_call.split)
  qed (auto intro!: same)
qed

interpretation plugins_page: machine plugins_start plugins_step plugins_enabled plugins_inv
proof
  show "plugins_inv plugins_start" by (simp add: plugins_inv_def form_inv_def fitting_form_def plugins_start_def)
qed (rule plugins_step_inv)

text \<open>Claim C38. A provider is saved with its own values: in every run, however providers are selected, the hub reloaded
  and configurations answered late, the values saved to a provider belong to fields of a configuration that
  the gateway gave for that provider. The set-up of a provider has no such guard.\<close>

theorem providers_keep_their_values:
  assumes "legal_run plugins_enabled plugins_step plugins_start es"
    and "PcUpdate p vs \<in> set (plSent (foldl plugins_step plugins_start es))" and "vs \<noteq> []"
  shows "\<exists>fs. (p, fs) \<in> set (plSeen (foldl plugins_step plugins_start es)) \<and> fst ` set vs \<subseteq> mfKey ` set fs"
  using plugins_page.run_inv [OF assms(1)] assms(2,3) unfolding plugins_inv_def own_values_def by blast

definition token_field :: memory_field where
  "token_field = \<lparr>mfKey = ''token'', mfKind = ''secret'', mfRequired = True, mfValue = JNull, mfSet = False, mfWhen = None\<rparr>"

definition two_providers :: plugins_hub where
  "two_providers = \<lparr>phRows = [], phMemory = [], phOptions = [\<lparr>miName = ''a'', miStatus = ''ready'', miSetup = None\<rparr>,
      \<lparr>miName = ''b'', miStatus = ''unavailable'', miSetup = Some \<lparr>siExternal = [], siPip = [''x''], siEnv = [], siInstalled = Some False\<rparr>\<rparr>],
     phContext = [], phContexts = []\<rparr>"

definition save_run :: "plugins_event list" where
  "save_run = [PlHub 0 (Some two_providers), PlSelect (Some ''a''), PlConfig (Some [token_field]), PlValue ''token'' (MText ''s''), PlSaveMemory]"

theorem providers_keep_their_values_witness:
  "\<exists>fs. (''a'', fs) \<in> set (plSeen (foldl plugins_step plugins_start save_run)) \<and> {''token''} \<subseteq> mfKey ` set fs"
proof -
  have "legal_run plugins_enabled plugins_step plugins_start save_run" by code_simp
  moreover have "plSent (foldl plugins_step plugins_start save_run) = [PcUpdate ''a'' [(''token'', MText ''s'')]]" by code_simp
  ultimately show ?thesis
    using providers_keep_their_values [of save_run "''a''" "[(''token'', MText ''s'')]"] by simp
qed

text \<open>The set-up of a provider can be started while its configuration is awaited: it is sent what was typed for the
  provider before.\<close>

theorem setup_sends_anothers_secret:
  "let es = butlast save_run @ [PlSelect (Some ''b''), PlSetup]
   in legal_run plugins_enabled plugins_step plugins_start es
     \<and> plSent (foldl plugins_step plugins_start es) = [PcSetup ''b'' [(''token'', MText ''s'')]]"
proof -
  have "legal_run plugins_enabled plugins_step plugins_start (butlast save_run @ [PlSelect (Some ''b''), PlSetup])" by code_simp
  moreover have "plSent (foldl plugins_step plugins_start (butlast save_run @ [PlSelect (Some ''b''), PlSetup]))
      = [PcSetup ''b'' [(''token'', MText ''s'')]]" by code_simp
  ultimately show ?thesis by (simp only: Let_def simp_thms)
qed

text \<open>Any reload of the hub puts the selection back and drops what was typed.\<close>

theorem reload_drops_the_form:
  "let es = butlast save_run @ [PlRescan, PlAnswered 0 (Some []), PlHub 0 (Some two_providers)]
   in legal_run plugins_enabled plugins_step plugins_start es
     \<and> plSel (foldl plugins_step plugins_start es) = None \<and> plValues (foldl plugins_step plugins_start es) = []"
proof -
  have "legal_run plugins_enabled plugins_step plugins_start
      (butlast save_run @ [PlRescan, PlAnswered 0 (Some []), PlHub 0 (Some two_providers)])" by code_simp
  moreover have "plSel (foldl plugins_step plugins_start (butlast save_run @ [PlRescan, PlAnswered 0 (Some []), PlHub 0 (Some two_providers)])) = None"
    by code_simp
  moreover have "plValues (foldl plugins_step plugins_start (butlast save_run @ [PlRescan, PlAnswered 0 (Some []), PlHub 0 (Some two_providers)])) = []"
    by code_simp
  ultimately show ?thesis by (simp only: Let_def simp_thms)
qed

end
