(* ===== verification/ProfilesPage.thy ===== *)
theory ProfilesPage
  imports JsValue
begin

text \<open>
  The page of the profiles, \<open>web/src/pages/ProfilesPage.tsx\<close>: the names it accepts, the dialog that creates a profile,
  renaming, choosing the active profile, and the editors of the model, the description and the SOUL, as a state machine.
  The confirmation of a deletion is a library that hands back a name it was given. Toasts, the clipboard and markup
  are left out.
\<close>

section \<open>Names and models\<close>

text \<open>\<open>/^[a-z0-9][a-z0-9_-]{0,63}$/\<close>\<close>

definition name_start :: "char \<Rightarrow> bool" where
  "name_start c = (is_lower_letter c \<or> is_digit c)"

definition profile_name_ok :: "string \<Rightarrow> bool" where
  "profile_name_ok s =
     (case s of
        [] \<Rightarrow> False
      | c # cs \<Rightarrow> name_start c \<and> list_all (\<lambda>d. name_start d \<or> d = CHR ''_'' \<or> d = CHR ''-'') cs \<and> length cs \<le> 63)"

record model_choice =
  mcProvider :: string
  mcModel :: string
  mcLabel :: string

text \<open>The providers as the gateway lists them: slug, name and models. The dot of a label is a full stop.\<close>

definition flat_choices :: "(string \<times> string \<times> string list option) list \<Rightarrow> model_choice list" where
  "flat_choices ps =
     concat (map (\<lambda>(slug, name, ms).
       map (\<lambda>m. \<lparr>mcProvider = slug, mcModel = m, mcLabel = name @ '' . '' @ m\<rparr>) (case ms of None \<Rightarrow> [] | Some l \<Rightarrow> l)) ps)"

definition choice_key :: "model_choice \<Rightarrow> string" where
  "choice_key c = mcProvider c @ CHR 0x00 # mcModel c"

definition model_key :: "string option \<Rightarrow> string option \<Rightarrow> string" where
  "model_key p m = (if truthy_str p \<and> truthy_str m then the p @ CHR 0x00 # the m else [])"

definition picked_model :: "model_choice list option \<Rightarrow> string \<Rightarrow> model_choice option" where
  "picked_model choices key =
     (if key = [] then None
      else (case choices of None \<Rightarrow> None | Some cs \<Rightarrow> find (\<lambda>c. choice_key c = key) cs))"

record profile_info =
  pfName :: string
  pfDefault :: bool
  pfModel :: "string option"
  pfProvider :: "string option"
  pfGateway :: bool
  pfDescription :: string
  pfAuto :: bool

text \<open>The active profile and the one of the running process.\<close>

definition is_active :: "(string \<times> string) option \<Rightarrow> profile_info \<Rightarrow> bool" where
  "is_active info p =
     (case info of None \<Rightarrow> False | Some (active, cur) \<Rightarrow> active = pfName p \<or> active = ''default'' \<and> pfDefault p)"

datatype profile_action = ActSetActive | ActModel | ActDescription | ActSoul | ActSkills | ActCopy | ActRename | ActDelete

definition menu_actions :: "bool \<Rightarrow> profile_info \<Rightarrow> profile_action list" where
  "menu_actions active p =
     (if active then [] else [ActSetActive]) @ [ActModel, ActDescription, ActSoul, ActSkills, ActCopy]
     @ (if pfDefault p then [] else [ActRename, ActDelete])"

section \<open>The page\<close>

record profile_create =
  pcName :: string
  pcClone :: "string option"
  pcCloneAll :: bool
  pcNoSkills :: bool
  pcDescription :: "string option"
  pcProvider :: "string option"
  pcModel :: "string option"

datatype profile_call =
    PfCreate profile_create
  | PfRename string string
  | PfActivate string
  | PfSoul string
  | PfSaveSoul string string
  | PfSaveDesc string string
  | PfDescribe string
  | PfSetModel string model_choice
  | PfDelete string

text \<open>What a call gives: a text (the SOUL, or the name of the active profile), or a description and whether it was
  generated, which an unsuccessful generation has not.\<close>

datatype profile_answer = PfFailed | PfText string | PfDescribed "(string \<times> bool) option"

text \<open>\<open>ppSoulActive\<close> and \<open>ppDescActive\<close> are the references by which late answers are recognised, and \<open>ppCalls\<close>
  the calls under way.\<close>

record profiles_page =
  ppProfiles :: "profile_info list"
  ppActive :: "(string \<times> string) option"
  ppLoading :: bool
  ppScope :: "string option"
  ppOpen :: bool
  ppName :: string
  ppClone :: "string option"
  ppCloneAll :: bool
  ppNoSkills :: bool
  ppDescription :: string
  ppCreating :: bool
  ppChoices :: "model_choice list option"
  ppChoicesAsked :: bool
  ppChoice :: string
  ppRenaming :: "string option"
  ppRenameTo :: string
  ppSoulFor :: "string option"
  ppSoulText :: string
  ppSoulSaving :: bool
  ppSoulActive :: "string option"
  ppDescFor :: "string option"
  ppDescText :: string
  ppDescSaving :: bool
  ppDescribing :: bool
  ppDescActive :: "string option"
  ppDescSaves :: nat
  ppDescribes :: nat
  ppModelFor :: "string option"
  ppModelEdit :: string
  ppModelSaving :: bool
  ppSetting :: "string option"
  ppLoads :: nat
  ppToDelete :: "string list"
  ppCalls :: "profile_call list"
  ppSent :: "profile_call list"

definition profiles_start :: profiles_page where
  "profiles_start =
     \<lparr>ppProfiles = [], ppActive = None, ppLoading = True, ppScope = None, ppOpen = False, ppName = [], ppClone = Some ''default'',
      ppCloneAll = False, ppNoSkills = False, ppDescription = [], ppCreating = False, ppChoices = None,
      ppChoicesAsked = False, ppChoice = [], ppRenaming = None, ppRenameTo = [], ppSoulFor = None, ppSoulText = [],
      ppSoulSaving = False, ppSoulActive = None, ppDescFor = None, ppDescText = [],
      ppDescSaving = False, ppDescribing = False, ppDescActive = None, ppDescSaves = 0,
      ppDescribes = 0, ppModelFor = None, ppModelEdit = [], ppModelSaving = False, ppSetting = None, ppLoads = 1,
      ppToDelete = [], ppCalls = [], ppSent = []\<rparr>"

definition profile_send :: "profile_call \<Rightarrow> profiles_page \<Rightarrow> profiles_page" where
  "profile_send c s = s\<lparr>ppCalls := ppCalls s @ [c], ppSent := ppSent s @ [c]\<rparr>"

definition load_model_choices :: "profiles_page \<Rightarrow> profiles_page" where
  "load_model_choices s = (if ppChoices s \<noteq> None \<or> ppChoicesAsked s then s else s\<lparr>ppChoicesAsked := True\<rparr>)"

definition choices_loaded :: "(string \<times> string \<times> string list option) list option \<Rightarrow> profiles_page \<Rightarrow> profiles_page" where
  "choices_loaded r s =
     s\<lparr>ppChoices := Some (case r of None \<Rightarrow> [] | Some ps \<Rightarrow> flat_choices ps), ppChoicesAsked := False\<rparr>"

definition profiles_loaded ::
  "(profile_info list \<times> (string \<times> string) option) option \<Rightarrow> profiles_page \<Rightarrow> profiles_page" where
  "profiles_loaded r s =
     (case r of None \<Rightarrow> s | Some (ps, a) \<Rightarrow> s\<lparr>ppProfiles := ps, ppActive := a\<rparr>)\<lparr>ppLoading := False, ppLoads := ppLoads s - 1\<rparr>"

definition choose_clone :: "string \<Rightarrow> profiles_page \<Rightarrow> profiles_page" where
  "choose_clone v s =
     (if v = [] then s\<lparr>ppClone := None, ppCloneAll := False\<rparr> else s\<lparr>ppClone := Some v\<rparr>)"

definition create_body :: "profiles_page \<Rightarrow> profile_create" where
  "create_body s =
     (let cloning = ppClone s \<noteq> None; picked = picked_model (ppChoices s) (ppChoice s); d = trim (ppDescription s)
      in \<lparr>pcName = trim (ppName s), pcClone = ppClone s, pcCloneAll = (cloning \<and> ppCloneAll s),
          pcNoSkills = (if cloning then False else ppNoSkills s), pcDescription = (if d = [] then None else Some d),
          pcProvider = map_option mcProvider picked, pcModel = map_option mcModel picked\<rparr>)"

definition profile_create_click :: "profiles_page \<Rightarrow> profiles_page" where
  "profile_create_click s =
     (if trim (ppName s) = [] \<or> \<not> profile_name_ok (trim (ppName s)) then s
      else profile_send (PfCreate (create_body s)) (s\<lparr>ppCreating := True\<rparr>))"

definition rename_submit :: "profiles_page \<Rightarrow> profiles_page" where
  "rename_submit s =
     (case ppRenaming s of
        None \<Rightarrow> s
      | Some old \<Rightarrow>
          (let target = trim (ppRenameTo s)
           in if target = [] \<or> target = old then s\<lparr>ppRenaming := None, ppRenameTo := []\<rparr>
              else if \<not> profile_name_ok target then s
              else profile_send (PfRename old target) s))"

definition close_editor :: "profiles_page \<Rightarrow> profiles_page" where
  "close_editor s =
     s\<lparr>ppSoulActive := None, ppDescActive := None, ppModelFor := None, ppDescFor := None, ppSoulFor := None\<rparr>"

definition open_soul_editor :: "string \<Rightarrow> profiles_page \<Rightarrow> profiles_page" where
  "open_soul_editor n s =
     (if ppSoulFor s = Some n then close_editor s
      else profile_send (PfSoul n)
        (s\<lparr>ppDescFor := None, ppModelFor := None, ppSoulFor := Some n, ppSoulText := [], ppSoulActive := Some n\<rparr>))"

definition open_desc_editor :: "profile_info \<Rightarrow> profiles_page \<Rightarrow> profiles_page" where
  "open_desc_editor p s =
     (if ppDescFor s = Some (pfName p) then close_editor s
      else s\<lparr>ppDescActive := Some (pfName p), ppSoulFor := None, ppModelFor := None, ppDescFor := Some (pfName p),
             ppDescText := pfDescription p\<rparr>)"

definition open_model_editor :: "profile_info \<Rightarrow> profiles_page \<Rightarrow> profiles_page" where
  "open_model_editor p s =
     (if ppModelFor s = Some (pfName p) then close_editor s
      else load_model_choices
        (s\<lparr>ppSoulFor := None, ppDescFor := None, ppModelFor := Some (pfName p), ppModelEdit := model_key (pfProvider p) (pfModel p)\<rparr>))"

definition save_soul :: "profiles_page \<Rightarrow> profiles_page" where
  "save_soul s =
     (case ppSoulFor s of None \<Rightarrow> s | Some n \<Rightarrow> profile_send (PfSaveSoul n (ppSoulText s)) (s\<lparr>ppSoulSaving := True\<rparr>))"

definition save_desc :: "profiles_page \<Rightarrow> profiles_page" where
  "save_desc s =
     (case ppDescFor s of
        None \<Rightarrow> s
      | Some n \<Rightarrow>
          profile_send (PfSaveDesc n (ppDescText s))
            (s\<lparr>ppDescSaves := ppDescSaves s + 1, ppDescSaving := True, ppDescActive := Some n\<rparr>))"

definition auto_describe :: "profiles_page \<Rightarrow> profiles_page" where
  "auto_describe s =
     (case ppDescFor s of
        None \<Rightarrow> s
      | Some n \<Rightarrow>
          profile_send (PfDescribe n) (s\<lparr>ppDescribes := ppDescribes s + 1, ppDescribing := True, ppDescActive := Some n\<rparr>))"

definition save_model :: "profiles_page \<Rightarrow> profiles_page" where
  "save_model s =
     (case (ppModelFor s, picked_model (ppChoices s) (ppModelEdit s)) of
        (Some n, Some c) \<Rightarrow> profile_send (PfSetModel n c) (s\<lparr>ppModelSaving := True\<rparr>)
      | _ \<Rightarrow> s)"

definition describe_profile :: "string \<Rightarrow> string \<times> bool \<Rightarrow> profiles_page \<Rightarrow> profiles_page" where
  "describe_profile n d s =
     s\<lparr>ppProfiles := map (\<lambda>p. if pfName p = n then p\<lparr>pfDescription := fst d, pfAuto := snd d\<rparr> else p) (ppProfiles s)\<rparr>"

definition profile_answered :: "nat \<Rightarrow> profile_answer \<Rightarrow> profiles_page \<Rightarrow> profiles_page" where
  "profile_answered i r s =
     (let s1 = s\<lparr>ppCalls := take_out i (ppCalls s)\<rparr>
      in case ppCalls s ! i of
           PfCreate b \<Rightarrow>
             (if r = PfFailed then s1
              else s1\<lparr>ppName := [], ppDescription := [], ppNoSkills := False, ppCloneAll := False, ppClone := Some ''default'',
                     ppChoice := [], ppOpen := False, ppLoads := ppLoads s + 1\<rparr>)\<lparr>ppCreating := False\<rparr>
         | PfRename old new \<Rightarrow>
             (if r = PfFailed then s1 else s1\<lparr>ppRenaming := None, ppRenameTo := [], ppLoads := ppLoads s + 1\<rparr>)
         | PfActivate n \<Rightarrow>
             (case r of
                PfText a \<Rightarrow>
                  s1\<lparr>ppScope := Some a, ppActive := (case ppActive s of None \<Rightarrow> Some (a, a) | Some (old, cur) \<Rightarrow> Some (a, cur))\<rparr>
              | _ \<Rightarrow> s1)\<lparr>ppSetting := None\<rparr>
         | PfSoul n \<Rightarrow>
             (case r of
                PfText t \<Rightarrow> if ppSoulActive s = Some n then s1\<lparr>ppSoulText := t\<rparr> else s1
              | _ \<Rightarrow> s1)
         | PfSaveSoul n t \<Rightarrow>
             (if r = PfFailed then s1 else s1\<lparr>ppSoulActive := None, ppSoulFor := None\<rparr>)\<lparr>ppSoulSaving := False\<rparr>
         | PfSaveDesc n t \<Rightarrow>
             (case r of
                PfDescribed (Some d) \<Rightarrow>
                  (let s2 = describe_profile n d s1 in if ppDescActive s = Some n then s2\<lparr>ppDescFor := None\<rparr> else s2)
              | _ \<Rightarrow> s1)
               \<lparr>ppDescSaves := ppDescSaves s - 1, ppDescSaving := (if ppDescSaves s = 1 then False else ppDescSaving s)\<rparr>
         | PfDescribe n \<Rightarrow>
             (case r of
                PfDescribed (Some d) \<Rightarrow>
                  (let s2 = describe_profile n d s1
                   in if ppDescActive s = Some n then s2\<lparr>ppDescText := fst d\<rparr> else s2)
              | _ \<Rightarrow> s1)
               \<lparr>ppDescribes := ppDescribes s - 1, ppDescribing := (if ppDescribes s = 1 then False else ppDescribing s)\<rparr>
         | PfSetModel n c \<Rightarrow>
             (if r = PfFailed then s1
              else s1\<lparr>ppProfiles := map (\<lambda>p. if pfName p = n then p\<lparr>pfModel := Some (mcModel c), pfProvider := Some (mcProvider c)\<rparr> else p)
                       (ppProfiles s1), ppModelFor := None\<rparr>)\<lparr>ppModelSaving := False\<rparr>
         | PfDelete n \<Rightarrow> (if r = PfFailed then s1 else s1\<lparr>ppLoads := ppLoads s + 1\<rparr>))"

datatype profiles_event =
    PgLoaded "(profile_info list \<times> (string \<times> string) option) option"
  | PgChoices "(string \<times> string \<times> string list option) list option"
  | PgOpen
  | PgClose
  | PgName string
  | PgClone string
  | PgCloneAll bool
  | PgNoSkills bool
  | PgDescription string
  | PgChoice string
  | PgCreate
  | PgEnter
  | PgMenu profile_info profile_action
  | PgRenameTo string
  | PgRename
  | PgCancelRename
  | PgCloseEditor
  | PgSoulText string
  | PgSaveSoul
  | PgDescText string
  | PgSaveDesc
  | PgDescribe
  | PgModel string
  | PgSaveModel
  | PgDelete string
  | PgAnswered nat profile_answer

primrec menu_step :: "profile_info \<Rightarrow> profile_action \<Rightarrow> profiles_page \<Rightarrow> profiles_page" where
  "menu_step p ActSetActive s = profile_send (PfActivate (pfName p)) (s\<lparr>ppSetting := Some (pfName p)\<rparr>)"
| "menu_step p ActModel s = open_model_editor p s"
| "menu_step p ActDescription s = open_desc_editor p s"
| "menu_step p ActSoul s = open_soul_editor (pfName p) s"
| "menu_step p ActSkills s = s"
| "menu_step p ActCopy s = s"
| "menu_step p ActRename s = s\<lparr>ppRenaming := Some (pfName p), ppRenameTo := pfName p\<rparr>"
| "menu_step p ActDelete s = s\<lparr>ppToDelete := pfName p # ppToDelete s\<rparr>"

primrec profiles_step :: "profiles_page \<Rightarrow> profiles_event \<Rightarrow> profiles_page" where
  "profiles_step s (PgLoaded r) = profiles_loaded r s"
| "profiles_step s (PgChoices r) = choices_loaded r s"
| "profiles_step s PgOpen = load_model_choices (s\<lparr>ppOpen := True\<rparr>)"
| "profiles_step s PgClose = s\<lparr>ppOpen := False\<rparr>"
| "profiles_step s (PgName v) = s\<lparr>ppName := v\<rparr>"
| "profiles_step s (PgClone v) = choose_clone v s"
| "profiles_step s (PgCloneAll b) = s\<lparr>ppCloneAll := b\<rparr>"
| "profiles_step s (PgNoSkills b) = s\<lparr>ppNoSkills := b\<rparr>"
| "profiles_step s (PgDescription v) = s\<lparr>ppDescription := v\<rparr>"
| "profiles_step s (PgChoice v) = s\<lparr>ppChoice := v\<rparr>"
| "profiles_step s PgCreate = profile_create_click s"
| "profiles_step s PgEnter = profile_create_click s"
| "profiles_step s (PgMenu p a) = menu_step p a s"
| "profiles_step s (PgRenameTo v) = s\<lparr>ppRenameTo := v\<rparr>"
| "profiles_step s PgRename = rename_submit s"
| "profiles_step s PgCancelRename = s\<lparr>ppRenaming := None\<rparr>"
| "profiles_step s PgCloseEditor = close_editor s"
| "profiles_step s (PgSoulText v) = s\<lparr>ppSoulText := v\<rparr>"
| "profiles_step s PgSaveSoul = save_soul s"
| "profiles_step s (PgDescText v) = s\<lparr>ppDescText := v\<rparr>"
| "profiles_step s PgSaveDesc = save_desc s"
| "profiles_step s PgDescribe = auto_describe s"
| "profiles_step s (PgModel v) = s\<lparr>ppModelEdit := v\<rparr>"
| "profiles_step s PgSaveModel = save_model s"
| "profiles_step s (PgDelete n) = profile_send (PfDelete n) s"
| "profiles_step s (PgAnswered i r) = profile_answered i r s"

text \<open>The menus are enabled whatever dialog covers them, which only allows more runs.\<close>

primrec profiles_enabled :: "profiles_page \<Rightarrow> profiles_event \<Rightarrow> bool" where
  "profiles_enabled s (PgLoaded r) = (ppLoads s > 0)"
| "profiles_enabled s (PgChoices r) = ppChoicesAsked s"
| "profiles_enabled s PgOpen = True"
| "profiles_enabled s PgClose = (\<not> ppLoading s \<and> ppOpen s)"
| "profiles_enabled s (PgName v) = (\<not> ppLoading s \<and> ppOpen s)"
| "profiles_enabled s (PgClone v) = (\<not> ppLoading s \<and> ppOpen s \<and> v \<in> set ([] # map pfName (ppProfiles s)))"
| "profiles_enabled s (PgCloneAll b) = (\<not> ppLoading s \<and> ppOpen s \<and> ppClone s \<noteq> None)"
| "profiles_enabled s (PgNoSkills b) = (\<not> ppLoading s \<and> ppOpen s \<and> ppClone s = None)"
| "profiles_enabled s (PgDescription v) = (\<not> ppLoading s \<and> ppOpen s)"
| "profiles_enabled s (PgChoice v) =
     (\<not> ppLoading s \<and> ppOpen s \<and> (case ppChoices s of None \<Rightarrow> False | Some cs \<Rightarrow> v \<in> set ([] # map choice_key cs)))"
| "profiles_enabled s PgCreate = (\<not> ppLoading s \<and> ppOpen s \<and> \<not> ppCreating s)"
| "profiles_enabled s PgEnter = (\<not> ppLoading s \<and> ppOpen s)"
| "profiles_enabled s (PgMenu p a) =
     (\<not> ppLoading s \<and> p \<in> set (ppProfiles s) \<and> ppRenaming s \<noteq> Some (pfName p) \<and> a \<in> set (menu_actions (is_active (ppActive s) p) p)
      \<and> (a = ActSetActive \<longrightarrow> ppSetting s \<noteq> Some (pfName p)))"
| "profiles_enabled s (PgRenameTo v) = (ppRenaming s \<noteq> None)"
| "profiles_enabled s PgRename = (ppRenaming s \<noteq> None)"
| "profiles_enabled s PgCancelRename = (ppRenaming s \<noteq> None)"
| "profiles_enabled s PgCloseEditor = (ppModelFor s \<noteq> None \<or> ppDescFor s \<noteq> None \<or> ppSoulFor s \<noteq> None)"
| "profiles_enabled s (PgSoulText v) = (ppSoulFor s \<noteq> None)"
| "profiles_enabled s PgSaveSoul = (ppSoulFor s \<noteq> None \<and> \<not> ppSoulSaving s)"
| "profiles_enabled s (PgDescText v) = (ppDescFor s \<noteq> None)"
| "profiles_enabled s PgSaveDesc = (ppDescFor s \<noteq> None \<and> \<not> ppDescSaving s)"
| "profiles_enabled s PgDescribe = (ppDescFor s \<noteq> None \<and> \<not> ppDescribing s)"
| "profiles_enabled s (PgModel v) =
     (ppModelFor s \<noteq> None \<and> (case ppChoices s of None \<Rightarrow> False | Some cs \<Rightarrow> v \<in> set (map choice_key cs)))"
| "profiles_enabled s PgSaveModel = (ppModelFor s \<noteq> None \<and> \<not> ppModelSaving s)"
| "profiles_enabled s (PgDelete n) = (n \<in> set (ppToDelete s))"
| "profiles_enabled s (PgAnswered i r) = (i < length (ppCalls s))"

section \<open>One editor, with the text of its profile\<close>

lemmas profile_ops = profile_send_def load_model_choices_def choices_loaded_def profiles_loaded_def choose_clone_def
  profile_create_click_def rename_submit_def close_editor_def open_soul_editor_def open_desc_editor_def open_model_editor_def
  save_soul_def save_desc_def auto_describe_def save_model_def describe_profile_def

definition editors_inv :: "profiles_page \<Rightarrow> bool" where
  "editors_inv s \<longleftrightarrow>
     (ppModelFor s = None \<or> ppDescFor s = None) \<and> (ppModelFor s = None \<or> ppSoulFor s = None) \<and> (ppDescFor s = None \<or> ppSoulFor s = None)
     \<and> (ppSoulFor s \<noteq> None \<longrightarrow> ppSoulActive s = ppSoulFor s)
     \<and> (ppDescFor s \<noteq> None \<longrightarrow> ppDescActive s = ppDescFor s)"

definition create_ok :: "profile_create \<Rightarrow> bool" where
  "create_ok b \<longleftrightarrow>
     profile_name_ok (pcName b) \<and> (pcCloneAll b \<longrightarrow> pcClone b \<noteq> None) \<and> (pcNoSkills b \<longrightarrow> pcClone b = None)
     \<and> (pcProvider b = None \<longleftrightarrow> pcModel b = None) \<and> (case pcDescription b of None \<Rightarrow> True | Some d \<Rightarrow> d \<noteq> [] \<and> trimmed d)"

definition names_ok :: "profiles_page \<Rightarrow> bool" where
  "names_ok s \<longleftrightarrow>
     (\<forall>b. PfCreate b \<in> set (ppSent s) \<longrightarrow> create_ok b)
     \<and> (\<forall>old new. PfRename old new \<in> set (ppSent s) \<longrightarrow> profile_name_ok new \<and> new \<noteq> old)"

definition profiles_inv :: "profiles_page \<Rightarrow> bool" where
  "profiles_inv s \<longleftrightarrow> editors_inv s \<and> names_ok s"

lemma create_body_ok: "profile_name_ok (trim (ppName s)) \<Longrightarrow> create_ok (create_body s)"
  by (simp add: create_ok_def create_body_def Let_def trimmed_trim)

lemma profile_answered_editors: "editors_inv s \<Longrightarrow> editors_inv (profile_answered i r s)"
  by (cases "ppCalls s ! i") (auto simp: profile_answered_def editors_inv_def describe_profile_def Let_def split: profile_answer.split option.split)

lemma profile_answered_sent: "ppSent (profile_answered i r s) = ppSent s"
  by (cases "ppCalls s ! i") (auto simp: profile_answered_def describe_profile_def Let_def split: profile_answer.split option.split)

lemma menu_step_editors: "editors_inv s \<Longrightarrow> editors_inv (menu_step p a s)"
  by (cases a) (auto simp: editors_inv_def profile_ops)

lemma profiles_step_editors: "editors_inv s \<Longrightarrow> editors_inv (profiles_step s e)"
proof (cases e)
  case (PgMenu p a)
  assume "editors_inv s"
  then show ?thesis by (simp add: PgMenu menu_step_editors)
next
  case (PgAnswered i r)
  assume "editors_inv s"
  then show ?thesis by (simp add: PgAnswered profile_answered_editors)
qed (auto simp: editors_inv_def profile_ops Let_def split: option.split)

lemma names_ok_cong: "ppSent t = ppSent s \<Longrightarrow> names_ok t = names_ok s"
  by (simp add: names_ok_def)

lemma names_ok_send:
  "names_ok s \<Longrightarrow> (case c of PfCreate b \<Rightarrow> create_ok b | PfRename old new \<Rightarrow> profile_name_ok new \<and> new \<noteq> old | _ \<Rightarrow> True) \<Longrightarrow>
     ppSent t = ppSent s \<Longrightarrow> names_ok (profile_send c t)"
  by (cases c) (auto simp: names_ok_def profile_send_def)

lemma menu_step_names: "names_ok s \<Longrightarrow> names_ok (menu_step p a s)"
proof (cases a)
  case ActSoul
  assume ok: "names_ok s"
  show ?thesis
  proof (cases "ppSoulFor s = Some (pfName p)")
    case True
    then show ?thesis using ok by (simp add: ActSoul open_soul_editor_def close_editor_def names_ok_def)
  qed (auto simp: ActSoul open_soul_editor_def intro: names_ok_send [OF ok])
next
  case ActSetActive
  assume ok: "names_ok s"
  show ?thesis by (auto simp: ActSetActive intro: names_ok_send [OF ok])
qed (simp_all add: names_ok_def open_model_editor_def open_desc_editor_def close_editor_def load_model_choices_def)

lemma profiles_step_names: "names_ok s \<Longrightarrow> names_ok (profiles_step s e)"
proof -
  assume ok: "names_ok s"
  note send = names_ok_send [OF ok]
  show ?thesis
  proof (cases e)
    case (PgMenu p a)
    then show ?thesis by (simp add: menu_step_names ok)
  next
    case (PgAnswered i r)
    then show ?thesis using ok names_ok_cong [OF profile_answered_sent] by simp
  next
    case PgCreate
    then show ?thesis using ok by (auto simp: profile_create_click_def intro!: send create_body_ok)
  next
    case PgEnter
    then show ?thesis using ok by (auto simp: profile_create_click_def intro!: send create_body_ok)
  next
    case PgRename
    have "names_ok (s\<lparr>ppRenaming := None, ppRenameTo := []\<rparr>)" using ok by (simp add: names_ok_def)
    then show ?thesis using ok by (auto simp: PgRename rename_submit_def Let_def split: option.split intro!: send)
  next
    case PgSaveSoul
    then show ?thesis using ok by (auto simp: save_soul_def split: option.split intro!: send)
  next
    case PgSaveDesc
    then show ?thesis using ok by (auto simp: save_desc_def split: option.split intro!: send)
  next
    case PgDescribe
    then show ?thesis using ok by (auto simp: auto_describe_def split: option.split intro!: send)
  next
    case PgSaveModel
    then show ?thesis using ok by (auto simp: save_model_def split: option.split intro!: send)
  next
    case (PgDelete n)
    then show ?thesis by (auto intro!: send)
  next
    case (PgLoaded r)
    then show ?thesis using ok by (auto simp: profiles_loaded_def names_ok_def split: option.split)
  qed (use ok in \<open>simp_all add: names_ok_def load_model_choices_def choices_loaded_def choose_clone_def close_editor_def\<close>)
qed

interpretation profiles_page: machine profiles_start profiles_step profiles_enabled profiles_inv
proof
  show "profiles_inv profiles_start" by (simp add: profiles_inv_def editors_inv_def names_ok_def profiles_start_def)
  show "profiles_inv (profiles_step s e)" if "profiles_inv s" for s e
    using that profiles_step_editors [of s e] profiles_step_names [of s e] by (simp add: profiles_inv_def)
qed

text \<open>What fills the SOUL editor of a profile: its opening, with nothing; the user, who types; or the answer to a read of
  the SOUL of that profile. And the editor of the description: its opening, with the description listed; the
  user; or a description generated for that profile.\<close>

definition fills_soul :: "profiles_page \<Rightarrow> profiles_event \<Rightarrow> string \<Rightarrow> string \<Rightarrow> bool" where
  "fills_soul s e n t \<longleftrightarrow>
     t = [] \<and> (\<exists>p. e = PgMenu p ActSoul \<and> pfName p = n)
     \<or> e = PgSoulText t \<and> ppSoulFor s = Some n
     \<or> (\<exists>i. e = PgAnswered i (PfText t) \<and> i < length (ppCalls s) \<and> ppCalls s ! i = PfSoul n)"

definition fills_description :: "profiles_page \<Rightarrow> profiles_event \<Rightarrow> string \<Rightarrow> string \<Rightarrow> bool" where
  "fills_description s e n t \<longleftrightarrow>
     (\<exists>p. e = PgMenu p ActDescription \<and> p \<in> set (ppProfiles s) \<and> pfName p = n \<and> pfDescription p = t)
     \<or> e = PgDescText t \<and> ppDescFor s = Some n
     \<or> (\<exists>i b. e = PgAnswered i (PfDescribed (Some (t, b))) \<and> i < length (ppCalls s) \<and> ppCalls s ! i = PfDescribe n)"

lemma soul_answered:
  assumes "editors_inv s" "ppSoulFor (profile_answered i r s) = Some n" "ppSoulText (profile_answered i r s) = t"
  shows "ppSoulFor s = Some n \<and> (ppSoulText s = t \<or> r = PfText t \<and> ppCalls s ! i = PfSoul n)"
  using assms
  by (cases "ppCalls s ! i"; cases r)
    (auto simp: profile_answered_def editors_inv_def describe_profile_def Let_def split: option.splits if_splits)

lemma desc_answered:
  assumes "editors_inv s" "ppDescFor (profile_answered i r s) = Some n" "ppDescText (profile_answered i r s) = t"
  shows "ppDescFor s = Some n \<and> (ppDescText s = t \<or> (\<exists>b. r = PfDescribed (Some (t, b))) \<and> ppCalls s ! i = PfDescribe n)"
  using assms
  by (cases "ppCalls s ! i"; cases r)
    (auto simp: profile_answered_def editors_inv_def describe_profile_def Let_def split: option.splits if_splits)

lemma soul_step:
  assumes "profiles_inv s" "profiles_enabled s e"
    and "ppSoulFor (profiles_step s e) = Some n" "ppSoulText (profiles_step s e) = t"
  shows "ppSoulFor s = Some n \<and> ppSoulText s = t \<or> fills_soul s e n t"
proof (cases e)
  case (PgAnswered i r)
  then show ?thesis using assms soul_answered [of s i r n t] by (auto simp: profiles_inv_def fills_soul_def)
next
  case (PgMenu p a)
  then show ?thesis using assms(3,4)
    by (cases a) (auto simp: profile_ops fills_soul_def split: if_splits)
qed (use assms(3,4) in \<open>auto simp: profile_ops fills_soul_def Let_def split: option.splits if_splits\<close>)

lemma desc_step:
  assumes "profiles_inv s" "profiles_enabled s e"
    and "ppDescFor (profiles_step s e) = Some n" "ppDescText (profiles_step s e) = t"
  shows "ppDescFor s = Some n \<and> ppDescText s = t \<or> fills_description s e n t"
proof (cases e)
  case (PgAnswered i r)
  then show ?thesis using assms desc_answered [of s i r n t] by (auto simp: profiles_inv_def fills_description_def)
next
  case (PgMenu p a)
  then show ?thesis using assms(2-4)
    by (cases a) (auto simp: profile_ops fills_description_def split: if_splits)
qed (use assms(3,4) in \<open>auto simp: profile_ops fills_description_def Let_def split: option.splits if_splits\<close>)

interpretation soul_texts: tracing profiles_start profiles_step profiles_enabled profiles_inv
    "\<lambda>s (n, t). ppSoulFor s = Some n \<and> ppSoulText s = t" "\<lambda>s e (n, t). fills_soul s e n t"
  by unfold_locales (auto simp: profiles_start_def dest: soul_step)

interpretation description_texts: tracing profiles_start profiles_step profiles_enabled profiles_inv
    "\<lambda>s (n, t). ppDescFor s = Some n \<and> ppDescText s = t" "\<lambda>s e (n, t). fills_description s e n t"
  by unfold_locales (auto simp: profiles_start_def dest: desc_step)

abbreviation profiles_run :: "profiles_event list \<Rightarrow> profiles_page" where
  "profiles_run es \<equiv> foldl profiles_step profiles_start es"

text \<open>Claim C39. Editors do not mix profiles: in every run, in whatever order editors are opened and answers come, at most
  one editor is open. The text in the SOUL editor of a profile is nothing, from its opening, or was typed there,
  or came as the answer to a read of the SOUL of that very profile, and has been in that editor ever since; the
  text in the editor of a description is the one listed for its profile when it was opened, or was typed there,
  or was generated for that very profile, and has been there ever since. And every profile created or renamed
  gets a valid name, with a model and its provider together, and options that fit the source of the copy.\<close>

theorem editors_keep_to_their_profile:
  assumes "legal_run profiles_enabled profiles_step profiles_start es" "s = foldl profiles_step profiles_start es"
  shows "length (filter (\<lambda>x. x \<noteq> None) [ppModelFor s, ppDescFor s, ppSoulFor s]) \<le> 1
    \<and> (\<forall>n. ppSoulFor s = Some n \<longrightarrow>
         (\<exists>us e vs. es = us @ e # vs \<and> fills_soul (profiles_run us) e n (ppSoulText s)
            \<and> (\<forall>ys zs. vs = ys @ zs \<longrightarrow> ppSoulFor (profiles_run (us @ e # ys)) = Some n
                 \<and> ppSoulText (profiles_run (us @ e # ys)) = ppSoulText s)))
    \<and> (\<forall>n. ppDescFor s = Some n \<longrightarrow>
         (\<exists>us e vs. es = us @ e # vs \<and> fills_description (profiles_run us) e n (ppDescText s)
            \<and> (\<forall>ys zs. vs = ys @ zs \<longrightarrow> ppDescFor (profiles_run (us @ e # ys)) = Some n
                 \<and> ppDescText (profiles_run (us @ e # ys)) = ppDescText s)))
    \<and> (\<forall>b. PfCreate b \<in> set (ppSent s) \<longrightarrow> create_ok b)
    \<and> (\<forall>old new. PfRename old new \<in> set (ppSent s) \<longrightarrow> profile_name_ok new \<and> new \<noteq> old)"
proof -
  have inv: "profiles_inv s" using profiles_page.run_inv [OF assms(1)] assms(2) by simp
  have one: "length (filter (\<lambda>x. x \<noteq> None) [ppModelFor s, ppDescFor s, ppSoulFor s]) \<le> 1"
    using inv by (auto simp: profiles_inv_def editors_inv_def)
  have names: "(\<forall>b. PfCreate b \<in> set (ppSent s) \<longrightarrow> create_ok b)"
      "(\<forall>old new. PfRename old new \<in> set (ppSent s) \<longrightarrow> profile_name_ok new \<and> new \<noteq> old)"
    using inv by (simp_all add: profiles_inv_def names_ok_def)
  note soul = soul_texts.traced [OF assms(1), folded assms(2), of "(n, ppSoulText s)" for n, unfolded prod.case, simplified]
  note desc = description_texts.traced [OF assms(1), folded assms(2), of "(n, ppDescText s)" for n, unfolded prod.case, simplified]
  from one names soul desc show ?thesis unfolding foldl_append foldl_Cons by (intro conjI allI impI) simp_all
qed

definition plain_profile :: "string \<Rightarrow> profile_info" where
  "plain_profile n = \<lparr>pfName = n, pfDefault = False, pfModel = None, pfProvider = None, pfGateway = False, pfDescription = ''old'', pfAuto = False\<rparr>"

definition editors_run :: "profiles_event list" where
  "editors_run = [PgLoaded (Some ([plain_profile ''a'', plain_profile ''b''], None)), PgMenu (plain_profile ''a'') ActSoul,
     PgCloseEditor, PgMenu (plain_profile ''b'') ActSoul, PgAnswered 0 (PfText ''soul of a''), PgAnswered 0 (PfText ''soul of b'')]"

theorem editors_keep_to_their_profile_witness:
  "ppSoulFor (profiles_run editors_run) = Some ''b'' \<and> ppSoulText (profiles_run editors_run) = ''soul of b''
   \<and> (\<exists>us e vs. editors_run = us @ e # vs \<and> fills_soul (profiles_run us) e ''b'' ''soul of b'')"
proof -
  have legal: "legal_run profiles_enabled profiles_step profiles_start editors_run" by code_simp
  have s: "ppSoulFor (profiles_run editors_run) = Some ''b''" "ppSoulText (profiles_run editors_run) = ''soul of b''"
    by code_simp+
  from editors_keep_to_their_profile [OF legal refl, THEN conjunct2, THEN conjunct1] s show ?thesis by metis
qed

section \<open>Where the editors lose something\<close>

text \<open>The SOUL can be saved before it was loaded: an empty text replaces it.\<close>

theorem unloaded_soul_is_saved:
  "let es = [PgLoaded (Some ([plain_profile ''a''], None)), PgMenu (plain_profile ''a'') ActSoul, PgSaveSoul]
   in legal_run profiles_enabled profiles_step profiles_start es
     \<and> ppSent (foldl profiles_step profiles_start es) = [PfSoul ''a'', PfSaveSoul ''a'' []]"
proof -
  have "legal_run profiles_enabled profiles_step profiles_start
      [PgLoaded (Some ([plain_profile ''a''], None)), PgMenu (plain_profile ''a'') ActSoul, PgSaveSoul]" by code_simp
  moreover have "ppSent (foldl profiles_step profiles_start
      [PgLoaded (Some ([plain_profile ''a''], None)), PgMenu (plain_profile ''a'') ActSoul, PgSaveSoul])
      = [PfSoul ''a'', PfSaveSoul ''a'' []]" by code_simp
  ultimately show ?thesis by (simp only: Let_def simp_thms)
qed

text \<open>Its late answer replaces what was typed.\<close>

theorem late_soul_replaces_the_text:
  "ppSoulActive s = Some n \<Longrightarrow> ppCalls s ! i = PfSoul n \<Longrightarrow> ppSoulText (profile_answered i (PfText t) s) = t"
  by (simp add: profile_answered_def Let_def)

text \<open>A save of one SOUL closes the editor of another, with what was typed in it.\<close>

theorem saved_soul_closes_another:
  "ppCalls s ! i = PfSaveSoul a t \<Longrightarrow> ppSoulFor s = Some b \<Longrightarrow> ppSoulFor (profile_answered i (PfText []) s) = None"
  by (simp add: profile_answered_def Let_def)

text \<open>The return key creates a profile a second time while the first request is under way.\<close>

theorem enter_creates_twice:
  "let es = [PgLoaded None, PgOpen, PgName ''a'', PgCreate, PgEnter]
   in legal_run profiles_enabled profiles_step profiles_start es
     \<and> length (ppCalls (foldl profiles_step profiles_start es)) = 2"
  by code_simp

end
