(* ===== verification/ProfileBuilder.thy ===== *)
theory ProfileBuilder
  imports ProfilesPage McpSetup SkillsHub SkillsPage
begin

text \<open>
  The builder of a profile, \<open>web/src/pages/ProfileBuilderPage.tsx\<close>: its five steps, what each of them edits and loads,
  and the one request that creates the profile. A draft of an MCP server is turned into a server by \<open>McpSetup\<close>; names,
  model choices and their keys are those of \<open>ProfilesPage\<close>. Toasts have a hyphen for a dash; markup is left out.
\<close>

section \<open>The steps and the lists\<close>

datatype builder_step = StIdentity | StModel | StSkills | StMcp | StReview

definition STEPS :: "builder_step list" where
  "STEPS = [StIdentity, StModel, StSkills, StMcp, StReview]"

primrec step_index :: "builder_step \<Rightarrow> nat" where
  "step_index StIdentity = 0"
| "step_index StModel = 1"
| "step_index StSkills = 2"
| "step_index StMcp = 3"
| "step_index StReview = 4"

text \<open>A \<open>Set\<close> is the list of its elements in the order they were added.\<close>

definition set_of_list :: "string list \<Rightarrow> string list" where
  "set_of_list ns = foldl (\<lambda>ks n. if n \<in> set ks then ks else ks @ [n]) [] ns"

definition toggle_keep :: "string \<Rightarrow> string list \<Rightarrow> string list" where
  "toggle_keep n ks = (if n \<in> set ks then filter (\<lambda>k. k \<noteq> n) ks else ks @ [n])"

definition add_hub_skill :: "hub_result \<Rightarrow> hub_result list \<Rightarrow> hub_result list" where
  "add_hub_skill r rs = (if list_ex (\<lambda>x. hrIdentifier x = hrIdentifier r) rs then rs else rs @ [r])"

definition remove_hub_skill :: "string \<Rightarrow> hub_result list \<Rightarrow> hub_result list" where
  "remove_hub_skill i rs = filter (\<lambda>x. hrIdentifier x \<noteq> i) rs"

definition add_server :: "mcp_server \<Rightarrow> mcp_server list \<Rightarrow> mcp_server list" where
  "add_server e ss = filter (\<lambda>s. serverName s \<noteq> serverName e) ss @ [e]"

definition remove_server :: "string \<Rightarrow> mcp_server list \<Rightarrow> mcp_server list" where
  "remove_server n ss = filter (\<lambda>s. serverName s \<noteq> n) ss"

definition set_transport :: "mcp_transport \<Rightarrow> mcp_draft \<Rightarrow> mcp_draft" where
  "set_transport t d =
     (case t of
        McpHttp \<Rightarrow> d\<lparr>draftTransport := t, draftCommand := [], draftArgs := [], draftEnv := []\<rparr>
      | McpStdio \<Rightarrow> d\<lparr>draftTransport := t, draftUrl := [], draftHttpAuth := AuthNone, draftBearer := []\<rparr>)"

definition set_http_auth :: "mcp_http_auth \<Rightarrow> mcp_draft \<Rightarrow> mcp_draft" where
  "set_http_auth a d = d\<lparr>draftHttpAuth := a, draftBearer := (if a = AuthHeader then draftBearer d else [])\<rparr>"

definition filtered_models :: "string \<Rightarrow> model_choice list option \<Rightarrow> model_choice list" where
  "filtered_models flt choices =
     (case choices of
        None \<Rightarrow> []
      | Some cs \<Rightarrow>
          (let f = lower (trim flt) in if f = [] then cs else filter (\<lambda>c. str_includes (lower (mcLabel c)) f) cs))"

definition filtered_builder_skills :: "string \<Rightarrow> skill list option \<Rightarrow> skill list" where
  "filtered_builder_skills flt sks =
     (case sks of
        None \<Rightarrow> []
      | Some ks \<Rightarrow>
          (let f = lower (trim flt)
           in if f = [] then ks
              else filter (\<lambda>k. str_includes (lower (skName k)) f \<or> str_includes (lower (skDescription k)) f
                           \<or> str_includes (lower (case skCategory k of None \<Rightarrow> [] | Some c \<Rightarrow> c)) f) ks))"

section \<open>The page\<close>

record builder_create =
  bcName :: string
  bcDescription :: "string option"
  bcProvider :: "string option"
  bcModel :: "string option"
  bcServers :: "mcp_server list option"
  bcKeep :: "string list option"
  bcHub :: "string list option"

text \<open>\<open>pbSearches\<close> are the searches under way, \<open>pbAsked\<close> the creations under way and \<open>pbSent\<close> all that were sent.\<close>

record builder_page =
  pbStep :: builder_step
  pbName :: string
  pbDescription :: string
  pbChoices :: "model_choice list option"
  pbChoicesAsked :: bool
  pbChoice :: string
  pbModelFilter :: string
  pbSkills :: "skill list option"
  pbSkillsAsked :: bool
  pbKeepAll :: bool
  pbKept :: "string list"
  pbSkillFilter :: string
  pbQuery :: string
  pbResults :: "hub_result list"
  pbSearching :: bool
  pbHub :: "hub_result list"
  pbServers :: "mcp_server list"
  pbDraft :: mcp_draft
  pbCreating :: bool
  pbToast :: "string option"
  pbSearches :: "string list"
  pbAsked :: "builder_create list"
  pbSent :: "builder_create list"
  pbLeft :: bool

definition builder_start :: builder_page where
  "builder_start =
     \<lparr>pbStep = StIdentity, pbName = [], pbDescription = [], pbChoices = None, pbChoicesAsked = False, pbChoice = [],
      pbModelFilter = [], pbSkills = None, pbSkillsAsked = False, pbKeepAll = True, pbKept = [], pbSkillFilter = [],
      pbQuery = [], pbResults = [], pbSearching = False, pbHub = [], pbServers = [], pbDraft = empty_mcp_server_draft,
      pbCreating = False, pbToast = None, pbSearches = [], pbAsked = [], pbSent = [], pbLeft = False\<rparr>"

definition name_valid :: "builder_page \<Rightarrow> bool" where
  "name_valid s = profile_name_ok (trim (pbName s))"

text \<open>The effect of a step: the models and the skills are asked for when their step is first shown.\<close>

definition load_step :: "builder_page \<Rightarrow> builder_page" where
  "load_step s =
     (if pbStep s = StModel \<and> pbChoices s = None then s\<lparr>pbChoicesAsked := True\<rparr>
      else if pbStep s = StSkills \<and> pbSkills s = None then s\<lparr>pbSkillsAsked := True\<rparr>
      else s)"

definition go_step :: "builder_step \<Rightarrow> builder_page \<Rightarrow> builder_page" where
  "go_step st s = load_step (s\<lparr>pbStep := st\<rparr>)"

definition go_back :: "builder_page \<Rightarrow> builder_page" where
  "go_back s = go_step (STEPS ! (step_index (pbStep s) - 1)) s"

definition go_next :: "builder_page \<Rightarrow> builder_page" where
  "go_next s = go_step (STEPS ! min (length STEPS - 1) (step_index (pbStep s) + 1)) s"

definition can_advance :: "builder_page \<Rightarrow> bool" where
  "can_advance s = (pbStep s \<noteq> StIdentity \<or> name_valid s)"

definition builder_models :: "(string \<times> string \<times> string list option) list option \<Rightarrow> builder_page \<Rightarrow> builder_page" where
  "builder_models r s =
     s\<lparr>pbChoices := Some (case r of None \<Rightarrow> [] | Some ps \<Rightarrow> flat_choices ps), pbChoicesAsked := False\<rparr>"

definition builder_skills :: "skill list option \<Rightarrow> builder_page \<Rightarrow> builder_page" where
  "builder_skills r s =
     (case r of
        None \<Rightarrow> s\<lparr>pbSkills := Some []\<rparr>
      | Some ks \<Rightarrow> s\<lparr>pbSkills := Some ks, pbKept := set_of_list (map skName (filter skEnabled ks))\<rparr>)\<lparr>pbSkillsAsked := False\<rparr>"

definition run_search :: "builder_page \<Rightarrow> builder_page" where
  "run_search s =
     (let q = trim (pbQuery s) in if q = [] then s else s\<lparr>pbSearching := True, pbSearches := pbSearches s @ [q]\<rparr>)"

definition search_found :: "nat \<Rightarrow> hub_result list option \<Rightarrow> builder_page \<Rightarrow> builder_page" where
  "search_found i r s =
     s\<lparr>pbResults := (case r of None \<Rightarrow> [] | Some rs \<Rightarrow> rs), pbSearching := False, pbSearches := take_out i (pbSearches s)\<rparr>"

definition add_draft :: "builder_page \<Rightarrow> builder_page" where
  "add_draft s =
     (case build_mcp_server_create (pbDraft s) of
        Inl e \<Rightarrow> s\<lparr>pbToast := Some e\<rparr>
      | Inr entry \<Rightarrow> s\<lparr>pbServers := add_server entry (pbServers s), pbDraft := empty_mcp_server_draft\<rparr>)"

definition builder_body :: "builder_page \<Rightarrow> builder_create" where
  "builder_body s =
     (let picked = picked_model (pbChoices s) (pbChoice s); d = trim (pbDescription s)
      in \<lparr>bcName = trim (pbName s), bcDescription = (if d = [] then None else Some d),
          bcProvider = map_option mcProvider picked, bcModel = map_option mcModel picked,
          bcServers = (if pbServers s = [] then None else Some (pbServers s)),
          bcKeep = (if pbKeepAll s then None else Some (pbKept s)),
          bcHub = (if pbHub s = [] then None else Some (map hrIdentifier (pbHub s)))\<rparr>)"

definition handle_create :: "builder_page \<Rightarrow> builder_page" where
  "handle_create s =
     (if \<not> profile_name_ok (trim (pbName s))
      then load_step (s\<lparr>pbToast := Some ''Invalid profile name (lowercase, digits, - and _)'', pbStep := StIdentity\<rparr>)
      else s\<lparr>pbCreating := True, pbAsked := pbAsked s @ [builder_body s], pbSent := pbSent s @ [builder_body s]\<rparr>)"

text \<open>The answer lists the process of each installation, which one that could not be started has not.\<close>

definition created_toast :: "string \<Rightarrow> nat option list \<Rightarrow> string" where
  "created_toast n pids =
     (let pending = length (filter (\<lambda>p. case p of None \<Rightarrow> False | Some k \<Rightarrow> k \<noteq> 0) pids); q = [CHR 0x22]
      in if pending = 0 then ''Profile '' @ q @ n @ q @ '' created''
         else ''Profile '' @ q @ n @ q @ '' created - '' @ show_nat pending @ '' hub skill''
              @ (if pending = 1 then [] else ''s'') @ '' installing'')"

definition create_answered :: "nat \<Rightarrow> string + nat option list \<Rightarrow> builder_page \<Rightarrow> builder_page" where
  "create_answered i r s =
     (let n = bcName (pbAsked s ! i); s1 = s\<lparr>pbAsked := take_out i (pbAsked s)\<rparr>
      in case r of
           Inl e \<Rightarrow> s1\<lparr>pbToast := Some (''Create failed: '' @ e), pbCreating := False\<rparr>
         | Inr pids \<Rightarrow> s1\<lparr>pbToast := Some (created_toast n pids), pbLeft := True, pbCreating := False\<rparr>)"

text \<open>The rows of the review.\<close>

definition or_dash :: "string \<Rightarrow> string" where
  "or_dash s = (if s = [] then ''-'' else s)"

definition review_rows :: "builder_page \<Rightarrow> (string \<times> string) list" where
  "review_rows s =
     [(''Name'', or_dash (trim (pbName s))), (''Description'', or_dash (trim (pbDescription s))),
      (''Model'', case picked_model (pbChoices s) (pbChoice s) of None \<Rightarrow> ''Default (set later)'' | Some c \<Rightarrow> mcLabel c),
      (''Skills'',
        if pbKeepAll s then ''Full default bundle''
        else show_nat (length (pbKept s)) @ '' built-in/optional kept''
             @ (if pbHub s = [] then [] else '' + '' @ show_nat (length (pbHub s)) @ '' hub''))]
     @ (if pbHub s = [] then []
        else [(if pbKeepAll s then ''Hub skills'' else ''Hub:'', join '', '' (map hrName (pbHub s)))])
     @ [(''MCP servers'', if pbServers s = [] then ''None'' else join '', '' (map serverName (pbServers s)))]"

datatype draft_field = DfName | DfUrl | DfBearer | DfCommand | DfArgs | DfEnv

primrec edit_field :: "draft_field \<Rightarrow> string \<Rightarrow> mcp_draft \<Rightarrow> mcp_draft" where
  "edit_field DfName v d = d\<lparr>draftName := v\<rparr>"
| "edit_field DfUrl v d = d\<lparr>draftUrl := v\<rparr>"
| "edit_field DfBearer v d = d\<lparr>draftBearer := v\<rparr>"
| "edit_field DfCommand v d = d\<lparr>draftCommand := v\<rparr>"
| "edit_field DfArgs v d = d\<lparr>draftArgs := v\<rparr>"
| "edit_field DfEnv v d = d\<lparr>draftEnv := v\<rparr>"

text \<open>The fields the form shows of a draft.\<close>

definition field_shown :: "mcp_draft \<Rightarrow> draft_field \<Rightarrow> bool" where
  "field_shown d f =
     (case f of
        DfName \<Rightarrow> True
      | DfUrl \<Rightarrow> draftTransport d = McpHttp
      | DfBearer \<Rightarrow> draftTransport d = McpHttp \<and> draftHttpAuth d = AuthHeader
      | _ \<Rightarrow> draftTransport d = McpStdio)"

datatype builder_event =
    BdName string
  | BdDescription string
  | BdGo builder_step
  | BdBack
  | BdNext
  | BdModels "(string \<times> string \<times> string list option) list option"
  | BdModelFilter string
  | BdPick string
  | BdSkills "skill list option"
  | BdKeepAll bool
  | BdSkillFilter string
  | BdToggle string
  | BdQuery string
  | BdSearch
  | BdEnter
  | BdFound nat "hub_result list option"
  | BdAddHub hub_result
  | BdRemoveHub string
  | BdTransport mcp_transport
  | BdAuth mcp_http_auth
  | BdField draft_field string
  | BdAddServer
  | BdRemoveServer string
  | BdCreate
  | BdAnswered nat "string + nat option list"
  | BdCancel

primrec builder_handle :: "builder_page \<Rightarrow> builder_event \<Rightarrow> builder_page" where
  "builder_handle s (BdName v) = s\<lparr>pbName := v\<rparr>"
| "builder_handle s (BdDescription v) = s\<lparr>pbDescription := v\<rparr>"
| "builder_handle s (BdGo st) = go_step st s"
| "builder_handle s BdBack = go_back s"
| "builder_handle s BdNext = go_next s"
| "builder_handle s (BdModels r) = builder_models r s"
| "builder_handle s (BdModelFilter v) = s\<lparr>pbModelFilter := v\<rparr>"
| "builder_handle s (BdPick k) = s\<lparr>pbChoice := k\<rparr>"
| "builder_handle s (BdSkills r) = builder_skills r s"
| "builder_handle s (BdKeepAll b) = s\<lparr>pbKeepAll := b\<rparr>"
| "builder_handle s (BdSkillFilter v) = s\<lparr>pbSkillFilter := v\<rparr>"
| "builder_handle s (BdToggle n) = s\<lparr>pbKept := toggle_keep n (pbKept s)\<rparr>"
| "builder_handle s (BdQuery v) = s\<lparr>pbQuery := v\<rparr>"
| "builder_handle s BdSearch = run_search s"
| "builder_handle s BdEnter = run_search s"
| "builder_handle s (BdFound i r) = search_found i r s"
| "builder_handle s (BdAddHub r) = s\<lparr>pbHub := add_hub_skill r (pbHub s)\<rparr>"
| "builder_handle s (BdRemoveHub i) = s\<lparr>pbHub := remove_hub_skill i (pbHub s)\<rparr>"
| "builder_handle s (BdTransport t) = s\<lparr>pbDraft := set_transport t (pbDraft s)\<rparr>"
| "builder_handle s (BdAuth a) = s\<lparr>pbDraft := set_http_auth a (pbDraft s)\<rparr>"
| "builder_handle s (BdField f v) = s\<lparr>pbDraft := edit_field f v (pbDraft s)\<rparr>"
| "builder_handle s BdAddServer = add_draft s"
| "builder_handle s (BdRemoveServer n) = s\<lparr>pbServers := remove_server n (pbServers s)\<rparr>"
| "builder_handle s BdCreate = handle_create s"
| "builder_handle s (BdAnswered i r) = create_answered i r s"
| "builder_handle s BdCancel = s\<lparr>pbLeft := True\<rparr>"

text \<open>What the step on screen lets happen. The choices on screen have the keys of the filtered models.\<close>

primrec builder_enabled :: "builder_page \<Rightarrow> builder_event \<Rightarrow> bool" where
  "builder_enabled s (BdName v) = (\<not> pbLeft s \<and> pbStep s = StIdentity)"
| "builder_enabled s (BdDescription v) = (\<not> pbLeft s \<and> pbStep s = StIdentity)"
| "builder_enabled s (BdGo st) = (\<not> pbLeft s \<and> (step_index st > 0 \<longrightarrow> name_valid s))"
| "builder_enabled s BdBack = (\<not> pbLeft s \<and> step_index (pbStep s) \<noteq> 0)"
| "builder_enabled s BdNext = (\<not> pbLeft s \<and> pbStep s \<noteq> StReview \<and> can_advance s)"
| "builder_enabled s (BdModels r) = pbChoicesAsked s"
| "builder_enabled s (BdModelFilter v) = (\<not> pbLeft s \<and> pbStep s = StModel)"
| "builder_enabled s (BdPick k) =
     (\<not> pbLeft s \<and> pbStep s = StModel \<and> pbChoices s \<noteq> None
      \<and> k \<in> set ([] # map choice_key (filtered_models (pbModelFilter s) (pbChoices s))))"
| "builder_enabled s (BdSkills r) = pbSkillsAsked s"
| "builder_enabled s (BdKeepAll b) = (\<not> pbLeft s \<and> pbStep s = StSkills)"
| "builder_enabled s (BdSkillFilter v) = (\<not> pbLeft s \<and> pbStep s = StSkills \<and> \<not> pbKeepAll s)"
| "builder_enabled s (BdToggle n) =
     (\<not> pbLeft s \<and> pbStep s = StSkills \<and> \<not> pbKeepAll s
      \<and> n \<in> set (map skName (filtered_builder_skills (pbSkillFilter s) (pbSkills s))))"
| "builder_enabled s (BdQuery v) = (\<not> pbLeft s \<and> pbStep s = StSkills)"
| "builder_enabled s BdSearch = (\<not> pbLeft s \<and> pbStep s = StSkills \<and> \<not> pbSearching s)"
| "builder_enabled s BdEnter = (\<not> pbLeft s \<and> pbStep s = StSkills)"
| "builder_enabled s (BdFound i r) = (i < length (pbSearches s))"
| "builder_enabled s (BdAddHub r) = (\<not> pbLeft s \<and> pbStep s = StSkills \<and> r \<in> set (pbResults s))"
| "builder_enabled s (BdRemoveHub i) = (\<not> pbLeft s \<and> pbStep s = StSkills \<and> i \<in> set (map hrIdentifier (pbHub s)))"
| "builder_enabled s (BdTransport t) = (\<not> pbLeft s \<and> pbStep s = StMcp)"
| "builder_enabled s (BdAuth a) = (\<not> pbLeft s \<and> pbStep s = StMcp \<and> draftTransport (pbDraft s) = McpHttp)"
| "builder_enabled s (BdField f v) = (\<not> pbLeft s \<and> pbStep s = StMcp \<and> field_shown (pbDraft s) f)"
| "builder_enabled s BdAddServer = (\<not> pbLeft s \<and> pbStep s = StMcp)"
| "builder_enabled s (BdRemoveServer n) = (\<not> pbLeft s \<and> pbStep s = StMcp \<and> n \<in> set (map serverName (pbServers s)))"
| "builder_enabled s BdCreate = (\<not> pbLeft s \<and> pbStep s = StReview \<and> \<not> pbCreating s \<and> name_valid s)"
| "builder_enabled s (BdAnswered i r) = (i < length (pbAsked s))"
| "builder_enabled s BdCancel = (\<not> pbLeft s)"

section \<open>What a builder can create\<close>

definition clean_draft :: "mcp_draft \<Rightarrow> bool" where
  "clean_draft d \<longleftrightarrow>
     (draftTransport d = McpHttp \<longrightarrow> draftCommand d = [] \<and> draftArgs d = [] \<and> draftEnv d = [])
     \<and> (draftTransport d = McpStdio \<longrightarrow> draftUrl d = [] \<and> draftHttpAuth d = AuthNone)
     \<and> (draftHttpAuth d \<noteq> AuthHeader \<longrightarrow> draftBearer d = [])"

definition servers_ok :: "mcp_server list \<Rightarrow> bool" where
  "servers_ok ss \<longleftrightarrow> distinct (map serverName ss) \<and> list_all wf_mcp_server ss"

definition skill_names :: "builder_page \<Rightarrow> string set" where
  "skill_names s = (case pbSkills s of None \<Rightarrow> {} | Some ks \<Rightarrow> skName ` set ks)"

definition offered :: "builder_page \<Rightarrow> (string \<times> string) set" where
  "offered s = (case pbChoices s of None \<Rightarrow> {} | Some cs \<Rightarrow> (\<lambda>c. (mcProvider c, mcModel c)) ` set cs)"

text \<open>A body is in order with respect to the skills and the models the gateway listed.\<close>

definition body_ok :: "string set \<Rightarrow> (string \<times> string) set \<Rightarrow> builder_create \<Rightarrow> bool" where
  "body_ok ks ms b \<longleftrightarrow>
     profile_name_ok (bcName b)
     \<and> (case bcDescription b of None \<Rightarrow> True | Some d \<Rightarrow> d \<noteq> [] \<and> trimmed d)
     \<and> (case (bcProvider b, bcModel b) of (None, None) \<Rightarrow> True | (Some p, Some m) \<Rightarrow> (p, m) \<in> ms | _ \<Rightarrow> False)
     \<and> (case bcServers b of None \<Rightarrow> True | Some ss \<Rightarrow> ss \<noteq> [] \<and> servers_ok ss)
     \<and> (case bcKeep b of None \<Rightarrow> True | Some ns \<Rightarrow> distinct ns \<and> set ns \<subseteq> ks)
     \<and> (case bcHub b of None \<Rightarrow> True | Some is \<Rightarrow> is \<noteq> [] \<and> distinct is)"

definition builder_inv :: "builder_page \<Rightarrow> bool" where
  "builder_inv s \<longleftrightarrow>
     (pbStep s \<noteq> StIdentity \<longrightarrow> name_valid s)
     \<and> (pbChoicesAsked s \<longrightarrow> pbChoices s = None) \<and> (pbSkillsAsked s \<longrightarrow> pbSkills s = None)
     \<and> clean_draft (pbDraft s) \<and> servers_ok (pbServers s) \<and> distinct (map hrIdentifier (pbHub s))
     \<and> distinct (pbKept s) \<and> set (pbKept s) \<subseteq> skill_names s
     \<and> list_all (body_ok (skill_names s) (offered s)) (pbSent s)"

lemma body_ok_mono: "body_ok ks ms b \<Longrightarrow> ks \<subseteq> ks' \<Longrightarrow> ms \<subseteq> ms' \<Longrightarrow> body_ok ks' ms' b"
  by (fastforce simp: body_ok_def split: option.splits)

lemma distinct_set_of_list: "distinct (set_of_list ns) \<and> set (set_of_list ns) = set ns"
proof -
  have "distinct ks \<Longrightarrow> distinct (foldl (\<lambda>ks n. if n \<in> set ks then ks else ks @ [n]) ks ns)
      \<and> set (foldl (\<lambda>ks n. if n \<in> set ks then ks else ks @ [n]) ks ns) = set ks \<union> set ns" for ks
    by (induction ns arbitrary: ks) auto
  then show ?thesis by (simp add: set_of_list_def)
qed

lemma toggle_keep_kept: "distinct ks \<Longrightarrow> distinct (toggle_keep n ks) \<and> set (toggle_keep n ks) \<subseteq> insert n (set ks)"
  by (auto simp: toggle_keep_def)

lemma add_hub_skill_distinct: "distinct (map hrIdentifier rs) \<Longrightarrow> distinct (map hrIdentifier (add_hub_skill r rs))"
  by (auto simp: add_hub_skill_def list_ex_iff)

lemma distinct_map_filter_key: "distinct (map f xs) \<Longrightarrow> distinct (map f (filter P xs))"
  by (induction xs) auto

lemma add_server_ok: "servers_ok ss \<Longrightarrow> wf_mcp_server e \<Longrightarrow> servers_ok (add_server e ss)"
  by (auto simp: servers_ok_def add_server_def distinct_map_filter_key list_all_iff)

lemma remove_server_ok: "servers_ok ss \<Longrightarrow> servers_ok (remove_server n ss)"
  by (auto simp: servers_ok_def remove_server_def distinct_map_filter_key list_all_iff)

lemma edit_field_clean: "clean_draft d \<Longrightarrow> field_shown d f \<Longrightarrow> clean_draft (edit_field f v d)"
  by (cases f) (auto simp: clean_draft_def field_shown_def)

lemma set_transport_clean: "clean_draft d \<Longrightarrow> clean_draft (set_transport t d)"
  by (cases t; cases "draftTransport d") (auto simp: clean_draft_def set_transport_def)

lemma set_http_auth_clean: "clean_draft d \<Longrightarrow> draftTransport d = McpHttp \<Longrightarrow> clean_draft (set_http_auth a d)"
  by (auto simp: clean_draft_def set_http_auth_def)

lemma empty_draft_clean: "clean_draft empty_mcp_server_draft"
  by (simp add: clean_draft_def empty_mcp_server_draft_def)

lemma shown_skill_listed: "n \<in> skName ` set (filtered_builder_skills f sks) \<Longrightarrow> \<exists>ks. sks = Some ks \<and> n \<in> skName ` set ks"
  by (cases sks) (auto simp: filtered_builder_skills_def Let_def split: if_splits)

lemma picked_offered: "picked_model (pbChoices s) k = Some c \<Longrightarrow> (mcProvider c, mcModel c) \<in> offered s"
  by (auto simp: picked_model_def offered_def find_Some_iff split: if_splits option.splits intro!: imageI nth_mem)

lemma builder_body_ok:
  assumes "builder_inv s" "name_valid s"
  shows "body_ok (skill_names s) (offered s) (builder_body s)"
  using assms
  by (auto simp: body_ok_def builder_inv_def builder_body_def Let_def name_valid_def trimmed_trim picked_offered split: option.split)

lemma load_step_inv: "builder_inv s \<Longrightarrow> builder_inv (load_step s)"
  by (auto simp: load_step_def builder_inv_def name_valid_def skill_names_def offered_def)

lemma go_step_inv: "builder_inv s \<Longrightarrow> (st \<noteq> StIdentity \<longrightarrow> name_valid s) \<Longrightarrow> builder_inv (go_step st s)"
  unfolding go_step_def
  by (rule load_step_inv) (auto simp: builder_inv_def name_valid_def skill_names_def offered_def)

lemma builder_skills_inv:
  assumes "builder_inv s" "pbSkillsAsked s"
  shows "builder_inv (builder_skills r s)"
proof -
  have none: "pbSkills s = None" and kept: "pbKept s = []" using assms by (auto simp: builder_inv_def skill_names_def)
  have mono: "list_all (body_ok ks (offered s)) (pbSent s)" for ks
    using assms(1) none by (auto simp: builder_inv_def list_all_iff skill_names_def intro: body_ok_mono)
  have "offered (builder_skills r s) = offered s" by (auto simp: builder_skills_def offered_def split: option.split)
  moreover have "name_valid (builder_skills r s) = name_valid s" by (auto simp: builder_skills_def name_valid_def split: option.split)
  ultimately show ?thesis
    using assms mono distinct_set_of_list
    by (cases r) (auto simp: builder_inv_def builder_skills_def kept skill_names_def)
qed

lemma builder_models_inv:
  assumes "builder_inv s" "pbChoicesAsked s"
  shows "builder_inv (builder_models r s)"
proof -
  have "offered s = {}" using assms by (auto simp: builder_inv_def offered_def)
  then have "list_all (body_ok (skill_names s) ms) (pbSent s)" for ms
    using assms(1) by (auto simp: builder_inv_def list_all_iff intro: body_ok_mono)
  then show ?thesis using assms(1) by (simp add: builder_inv_def builder_models_def name_valid_def skill_names_def)
qed

lemma builder_inv_frame:
  assumes "builder_inv s"
  shows "pbStep t = pbStep s \<Longrightarrow> pbName t = pbName s \<Longrightarrow> pbChoices t = pbChoices s \<Longrightarrow> pbChoicesAsked t = pbChoicesAsked s \<Longrightarrow>
     pbSkills t = pbSkills s \<Longrightarrow> pbSkillsAsked t = pbSkillsAsked s \<Longrightarrow> pbSent t = pbSent s \<Longrightarrow>
     clean_draft (pbDraft t) \<Longrightarrow> servers_ok (pbServers t) \<Longrightarrow> distinct (map hrIdentifier (pbHub t)) \<Longrightarrow>
     distinct (pbKept t) \<Longrightarrow> set (pbKept t) \<subseteq> skill_names s \<Longrightarrow> builder_inv t"
  using assms by (simp add: builder_inv_def name_valid_def skill_names_def offered_def)

lemma builder_step_inv:
  assumes inv: "builder_inv s" and en: "builder_enabled s e"
  shows "builder_inv (builder_handle s e)"
proof -
  note parts = inv [unfolded builder_inv_def]
  note frame = builder_inv_frame [OF inv]
  show ?thesis
  proof (cases e)
    case (BdName v)
    then show ?thesis using inv en by (simp add: builder_inv_def skill_names_def offered_def)
  next
    case (BdGo st)
    then show ?thesis using en by (cases st) (auto intro!: go_step_inv inv)
  next
    case BdBack
    then show ?thesis using parts en by (auto simp: go_back_def intro!: go_step_inv inv)
  next
    case BdNext
    then show ?thesis using parts en by (auto simp: go_next_def can_advance_def intro!: go_step_inv inv)
  next
    case (BdModels r)
    then show ?thesis using en by (simp add: builder_models_inv inv)
  next
    case (BdSkills r)
    then show ?thesis using en by (simp add: builder_skills_inv inv)
  next
    case (BdToggle n)
    then have "n \<in> skill_names s" using en shown_skill_listed [of n] by (fastforce simp: skill_names_def)
    then show ?thesis using parts toggle_keep_kept [of "pbKept s" n] by (auto simp: BdToggle intro!: frame)
  next
    case (BdAddHub r)
    then show ?thesis using parts by (auto intro!: frame add_hub_skill_distinct)
  next
    case (BdRemoveHub i)
    then show ?thesis using parts by (auto simp: remove_hub_skill_def distinct_map_filter_key intro!: frame)
  next
    case (BdTransport t)
    then show ?thesis using parts by (auto intro!: frame set_transport_clean)
  next
    case (BdAuth a)
    then show ?thesis using parts en by (auto intro!: frame set_http_auth_clean)
  next
    case (BdField f v)
    then show ?thesis using parts en by (auto intro!: frame edit_field_clean)
  next
    case BdAddServer
    then show ?thesis using parts built_server_wf
      by (auto simp: add_draft_def split: sum.split intro!: frame empty_draft_clean add_server_ok)
  next
    case (BdRemoveServer n)
    then show ?thesis using parts by (auto intro!: frame remove_server_ok)
  next
    case BdCreate
    then show ?thesis using parts en builder_body_ok [OF inv]
      by (auto simp: handle_create_def builder_inv_def name_valid_def skill_names_def offered_def)
  next
    case (BdAnswered i r)
    then show ?thesis using parts
      by (cases r) (simp_all add: create_answered_def Let_def builder_inv_def name_valid_def skill_names_def offered_def)
  qed (use parts in \<open>simp_all add: run_search_def search_found_def Let_def builder_inv_def name_valid_def skill_names_def offered_def\<close>)
qed

interpretation builder: machine builder_start builder_handle builder_enabled builder_inv
proof
  show "builder_inv builder_start"
    by (simp add: builder_inv_def builder_start_def empty_draft_clean servers_ok_def name_valid_def)
qed (rule builder_step_inv)

text \<open>Claim C40. What the builder creates is in order: in every run, whatever is typed, picked, searched or answered in
  whatever order, each profile it asks the gateway to create has a valid name, a model and provider the gateway offered
  (or neither), well-formed MCP servers with different names, different hub skills, and keeps only listed skills, each
  once; no later step is on screen without a valid name; and the draft of a server holds nothing its form does not show:
  no command beside an URL, and no token beside another authentication.\<close>

theorem builder_creates_what_is_in_order:
  assumes "legal_run builder_enabled builder_handle builder_start es" "s = foldl builder_handle builder_start es"
  shows "list_all (body_ok (skill_names s) (offered s)) (pbSent s) \<and> (pbStep s \<noteq> StIdentity \<longrightarrow> name_valid s) \<and> clean_draft (pbDraft s)"
  using builder.run_inv [OF assms(1)] by (simp add: assms(2) builder_inv_def)

definition builder_run :: "builder_event list" where
  "builder_run =
     [BdName '' coder '', BdNext, BdModels (Some [(''open'', ''Open'', Some [''m1''])]), BdPick (''open'' @ CHR 0x00 # ''m1''),
      BdGo StMcp, BdTransport McpStdio, BdField DfName ''files'', BdField DfCommand ''npx'', BdAddServer,
      BdField DfName ''files'', BdField DfUrl ''http://x'', BdAuth AuthHeader, BdField DfBearer ''secret'', BdAddServer,
      BdNext, BdCreate]"

theorem builder_creates_what_is_in_order_witness:
  "map bcName (pbSent (foldl builder_handle builder_start builder_run)) = [''coder'']
   \<and> body_ok {} {(''open'', ''m1'')} (hd (pbSent (foldl builder_handle builder_start builder_run)))"
proof -
  let ?s = "foldl builder_handle builder_start builder_run"
  have "legal_run builder_enabled builder_handle builder_start builder_run" by code_simp
  moreover have "map bcName (pbSent ?s) = [''coder'']" by code_simp
  moreover have "pbSkills ?s = None" by code_simp
  moreover have "pbChoices ?s = Some [\<lparr>mcProvider = ''open'', mcModel = ''m1'', mcLabel = ''Open . m1''\<rparr>]" by code_simp
  ultimately show ?thesis
    using builder_creates_what_is_in_order [OF _ refl, of builder_run]
    by (cases "pbSent ?s") (simp_all add: skill_names_def offered_def)
qed

text \<open>The review shows what is created: it names no model exactly when the request has none, and no server exactly when
  the request has none.\<close>

theorem review_shows_the_request:
  "map_of (review_rows s) ''Model'' = Some ''Default (set later)'' \<longleftrightarrow>
     bcModel (builder_body s) = None \<or> (\<exists>c. picked_model (pbChoices s) (pbChoice s) = Some c \<and> mcLabel c = ''Default (set later)'')"
  and "map_of (review_rows s) ''Skills'' = Some ''Full default bundle'' \<longleftrightarrow> bcKeep (builder_body s) = None"
proof -
  show "map_of (review_rows s) ''Model'' = Some ''Default (set later)'' \<longleftrightarrow>
     bcModel (builder_body s) = None \<or> (\<exists>c. picked_model (pbChoices s) (pbChoice s) = Some c \<and> mcLabel c = ''Default (set later)'')"
    by (auto simp: review_rows_def builder_body_def Let_def split: option.split)
  have "show_nat n @ '' built-in/optional kept'' @ t \<noteq> ''Full default bundle''" for n t
    using show_nat_digits [of "hd (show_nat n)" n] by (cases "show_nat n") (auto simp: is_digit_def code_def)
  then show "map_of (review_rows s) ''Skills'' = Some ''Full default bundle'' \<longleftrightarrow> bcKeep (builder_body s) = None"
    by (auto simp: review_rows_def builder_body_def Let_def)
qed

section \<open>Where the builder loses something\<close>

text \<open>The box of the full bundle, unticked before the skills are there, keeps none of them.\<close>

theorem early_untick_disables_everything:
  "let es = [BdName ''a'', BdGo StSkills, BdKeepAll False, BdGo StReview, BdCreate]
   in legal_run builder_enabled builder_handle builder_start es
     \<and> map bcKeep (pbSent (foldl builder_handle builder_start es)) = [Some []]"
  by code_simp

text \<open>A failed load is never repeated: the skills stay an empty list, and an unticked box disables them all.\<close>

theorem failed_skills_are_not_reloaded:
  "let es = [BdName ''a'', BdGo StSkills, BdSkills None, BdGo StMcp, BdGo StSkills]
   in legal_run builder_enabled builder_handle builder_start es
     \<and> pbSkills (foldl builder_handle builder_start es) = Some []
     \<and> \<not> pbSkillsAsked (foldl builder_handle builder_start es)"
  by code_simp

text \<open>An earlier search that is answered last shows its results under the later query.\<close>

definition found_skill :: "string \<Rightarrow> hub_result" where
  "found_skill n = \<lparr>hrName = n, hrDescription = [], hrSource = ''hub'', hrIdentifier = n, hrTrust = [], hrRepo = None, hrTags = []\<rparr>"

theorem left_search_wins:
  "let es = [BdName ''a'', BdGo StSkills, BdQuery ''git'', BdSearch, BdQuery ''mail'', BdEnter,
             BdFound 1 (Some [found_skill ''mail'']), BdFound 0 (Some [found_skill ''git''])]
   in legal_run builder_enabled builder_handle builder_start es
     \<and> pbQuery (foldl builder_handle builder_start es) = ''mail''
     \<and> map hrName (pbResults (foldl builder_handle builder_start es)) = [''git'']"
  by code_simp

text \<open>A server that was typed but not added is left out of the request.\<close>

theorem unadded_server_is_left_out:
  "let es = [BdName ''a'', BdGo StMcp, BdField DfName ''files'', BdField DfUrl ''http://x'', BdNext, BdCreate]
   in legal_run builder_enabled builder_handle builder_start es
     \<and> map bcServers (pbSent (foldl builder_handle builder_start es)) = [None]"
  by code_simp

end
