(* ===== verification/Spec2Isabelle.thy ===== *)
theory Spec2Isabelle
  imports ApiCalls PtyInput PtyConn Fuzzy Schedule CronForm McpSetup SlashExec PluginLoader ThemeProvider Format Markdown ConfigPage BotsPage AppPages SessionsPage ModelPicker Effort FilesPage OAuthLogin ChatHelpers HermesConsole WhatsAppPairing ModelsPage MoaPresets EnvPage SkillsPage SkillsHub ToolsetDrawer SystemPage Analytics AdminPages CronPage McpPage PluginsPage ProfilesPage ProfileBuilder
begin

text \<open>
  Verification development of the web dashboard of the omon gateway, the TypeScript program under
  \<open>src/web/src\<close>. Paths below are relative to that directory.

  The program. The running application is \<open>App.tsx\<close> with the client \<open>api.ts\<close>: a shell that routes by
  the address and mounts one page at a time. Beside it stands the larger dashboard it was derived
  from: the client \<open>lib/api.ts\<close> over \<open>fetchJSON\<close>, the pages under \<open>pages\<close>, the embedded terminal of
  \<open>ChatPage.tsx\<close>, the plugin host under \<open>plugins\<close>, the themes under \<open>themes\<close>, and the pure helpers
  under \<open>lib\<close>. Every page talks to the gateway through one of the two clients only; pages, plugins and
  themes share nothing but the document, the local storage and these clients.

  Theories and the code they model.
  \<^item> \<open>Prelude\<close>: fact collections, list and association-list lemmas, the line that a sequence of keys leaves
    (\<open>edited_line\<close>, the reference of the two line editors), and the interfaces \<open>machine\<close> (a component
    with an invariant), \<open>tracing\<close> (what a state holds was brought about by an event of the run and held since),
    \<open>following\<close> (what is shown as running is polled) and \<open>codec\<close> (print and parse). \<open>Refresh\<close>: the interface
    \<open>refresher\<close> of the pages that load again after every change.
  \<^item> \<open>JsString\<close>, \<open>JsValue\<close>: the string, number and value operations of the language that the
    program uses. \<open>UrlCodec\<close>: percent encoding.
  \<^item> \<open>ApiCore\<close>, \<open>ApiRoutes\<close>, \<open>ApiClient\<close>, \<open>ApiAdmin\<close>, \<open>ApiOps\<close>, \<open>ApiCalls\<close>: \<open>lib/api.ts\<close>.
    \<open>Gateway\<close>: \<open>api.ts\<close>. \<open>Format\<close>: the formatters of \<open>api.ts\<close> and \<open>lib/format.ts\<close>.
  \<^item> \<open>AppShell\<close>, \<open>Playground\<close>, \<open>CronManager\<close>, \<open>AppPages\<close>: the shell and the pages of \<open>App.tsx\<close>;
    \<open>BotsPage\<close>: \<open>pages/BotsPage.tsx\<close>. \<open>Markdown\<close>: \<open>components/Markdown.tsx\<close>.
  \<^item> \<open>Nested\<close>: \<open>lib/nested.ts\<close> and \<open>components/AutoField.tsx\<close>; \<open>ConfigPage\<close>: \<open>pages/ConfigPage.tsx\<close>.
    \<open>SessionText\<close>, \<open>SessionsPage\<close>: \<open>lib/session-import.ts\<close>, \<open>lib/session-refresh.ts\<close> and
    \<open>pages/SessionsPage.tsx\<close>.
  \<^item> \<open>PtyInput\<close>, \<open>PtyConn\<close>: \<open>lib/pty-mobile-input.ts\<close>, \<open>lib/pty-reconnect.ts\<close>,
    \<open>lib/chat-activation.ts\<close> and the connect effect of \<open>pages/ChatPage.tsx\<close>. \<open>SlashExec\<close>:
    \<open>lib/slashExec.ts\<close>.
  \<^item> \<open>Schedule\<close>: \<open>lib/schedule.ts\<close> and \<open>components/ScheduleBuilder.tsx\<close>; \<open>CronForm\<close>:
    \<open>lib/cron-job.ts\<close>; \<open>McpSetup\<close>: \<open>lib/mcp-server-create.ts\<close> and \<open>lib/mcp-dashboard-oauth.ts\<close>;
    \<open>Fuzzy\<close>: \<open>lib/fuzzy.ts\<close> and \<open>lib/model-picker-filter.ts\<close>.
  \<^item> \<open>PluginRegistry\<close>, \<open>PluginLoader\<close>: \<open>plugins\<close>. \<open>ThemeData\<close>, \<open>ThemeVars\<close>, \<open>ThemeProvider\<close>: \<open>themes\<close>.
  \<^item> \<open>ModelPicker\<close>: \<open>components/ModelPickerDialog.tsx\<close>; \<open>Effort\<close>: \<open>lib/reasoning-effort.ts\<close> and
    \<open>components/ReasoningPicker.tsx\<close>.
  \<^item> \<open>FilesPage\<close>: \<open>pages/FilesPage.tsx\<close>; \<open>OAuthLogin\<close>: \<open>components/OAuthLoginModal.tsx\<close>.
  \<^item> \<open>ChatHelpers\<close>: \<open>lib/chatImagePaste.ts\<close>, \<open>lib/clipboard.ts\<close>, \<open>lib/gatewayClient.ts\<close>,
    \<open>lib/chat-title.ts\<close>, \<open>lib/resolve-page-title.ts\<close> and \<open>lib/dashboard-modal-shell.ts\<close>.
  \<^item> \<open>HermesConsole\<close>: \<open>components/HermesConsoleModal.tsx\<close>.
  \<^item> \<open>Channels\<close>, \<open>ChannelPairing\<close> and \<open>WhatsAppPairing\<close>: \<open>pages/ChannelsPage.tsx\<close>, the page with its dialog,
    the Telegram panel and the WhatsApp panel.
  \<^item> \<open>ModelsPage\<close> and \<open>MoaPresets\<close>: \<open>pages/ModelsPage.tsx\<close>, the page with its cards and menus, and the editor of
    the Mixture of Agents presets.
  \<^item> \<open>EnvPage\<close>: \<open>pages/EnvPage.tsx\<close>.
  \<^item> \<open>SkillsPage\<close>: \<open>pages/SkillsPage.tsx\<close> and \<open>components/SkillEditorDialog.tsx\<close>; \<open>SkillsHub\<close>: the hub
    browser of that page.
  \<^item> \<open>ToolsetDrawer\<close>: \<open>components/ToolsetConfigDrawer.tsx\<close>; \<open>SystemPage\<close>: \<open>pages/SystemPage.tsx\<close>.
  \<^item> \<open>Analytics\<close>: \<open>pages/AnalyticsPage.tsx\<close>; \<open>AdminPages\<close>: \<open>pages/PairingPage.tsx\<close>,
    \<open>pages/WebhooksPage.tsx\<close> and \<open>pages/LogsPage.tsx\<close>.
  \<^item> \<open>CronPage\<close>: \<open>pages/CronPage.tsx\<close> and \<open>components/AutomationBlueprints.tsx\<close>, on top of \<open>Schedule\<close> and
    \<open>CronForm\<close>.
  \<^item> \<open>McpPage\<close>: \<open>pages/McpPage.tsx\<close>, on top of \<open>McpSetup\<close>.
  \<^item> \<open>PluginsPage\<close>: \<open>pages/PluginsPage.tsx\<close>.
  \<^item> \<open>ProfilesPage\<close>: \<open>pages/ProfilesPage.tsx\<close>.
  \<^item> \<open>ProfileBuilder\<close>: the builder of a profile (\<open>pages/ProfileBuilderPage.tsx\<close>): its steps, the loads and searches, the drafts of servers, and the request with its review.

  How the code is rendered. A component with state is a record whose fields are the React states and
  refs it keeps, with the requests, sockets, timers and microtasks that are still to come; one handler
  or callback is one function, and an event of the page's datatype is one use of it. A state update
  with the effects it triggers is one step. Guards that the code has are in the handlers; what only the
  markup prevents (a disabled button, a closed dialog) is in the \<open>enabled\<close> predicate, and theorems that
  need it say \<open>legal_run\<close>. Answers come in any order, late answers included, and a cancellation is the flag or the check the code
  has for it. The gateway is not modelled: its answers are arbitrary, or, where a theorem speaks of what it
  answers (\<open>CronManager\<close>, \<open>BotsPage\<close>, \<open>SlashExec\<close>), a parameter. Errors are values of a sum or an option.

  Strings are lists of Latin-1 characters; a character outside of Latin-1 in a literal is written as its
  escape. Numbers are exact rationals with the two infinities and not-a-number (\<open>jsnum\<close>), whole
  numbers inside of JSON. Dates, \<open>Intl\<close>, \<open>JSON.parse\<close>, \<open>Number\<close>, the network, the gateway, xterm and
  \<open>@hermes/shared\<close> are parameters of the definitions that use them. \<open>toLocaleLowerCase\<close> is
  \<open>toLowerCase\<close>. Objects have own properties only. Two loops of the code need not end, the alias
  recursion of the slash commands and the block loop of the message renderer: both are partial
  functions whose value is none when the code does not return, with theorems that say when it
  does. No other definition needs fuel.

  What the lemmas show. Each theory ends with its properties: round trips of the printers and parsers
  (schedules, cron jobs, routes, CSS assets, inline markup); that every call of a client reaches the route it
  is meant for; invariants of the pages under all interleavings of user events and answers; what a
  page at rest shows; bounds of the formatters; the conditions under which the loops end; and, as
  lemmas, the runs in which the code does not do what its comments say.

  Not modelled. The Rust server under \<open>src/src\<close>; the translation tables; markup and class names; and
  the pages and components listed as not modelled in the manifest, each with its reason.
\<close>

end
